(* ===== verification/Prelude.thy ===== *)
theory Prelude
  imports Complex_Main
begin

text \<open>
  Shared vocabulary of the development: Python values as they appear in the dashboard's
  code (instants, strings, JSON metadata, configuration values), the table operations of
  the ORM as list functions, and the generic lemmas the component theories use.

  Conventions.
  \<^item> An instant is a naive UTC datetime, as microseconds since the epoch (\<open>int\<close>); a
    \<open>timedelta\<close> is a number of microseconds. Python's \<open>datetime\<close> has exactly this resolution.
  \<^item> A string is the list of the bytes of its UTF-8 encoding. Case mapping, whitespace, lengths
    and truncation are those of ASCII text.
  \<^item> A nullable column or optional argument is an \<open>option\<close>.
\<close>

named_theorems job_simps
  \<open>unfolding rules for the operations on job rows\<close>
named_theorems policy_simps
  \<open>unfolding rules for the pure policy modules\<close>

section \<open>Time\<close>

type_synonym instant = int

definition seconds :: "int \<Rightarrow> int" where
  "seconds n = n * 1000000"

definition minutes :: "int \<Rightarrow> int" where
  "minutes n = seconds (n * 60)"

lemma seconds_0 [simp]: "seconds 0 = 0"
  by (simp add: seconds_def)

lemma seconds_less_iff [simp]: "seconds a < seconds b \<longleftrightarrow> a < b"
  by (simp add: seconds_def)

lemma seconds_le_iff [simp]: "seconds a \<le> seconds b \<longleftrightarrow> a \<le> b"
  by (simp add: seconds_def)

lemma seconds_pos [simp]: "0 < seconds a \<longleftrightarrow> 0 < a"
  by (simp add: seconds_def)

text \<open>
  Rounding of \<open>timedelta(hours=x)\<close> to whole microseconds (half to even), and \<open>int(x)\<close> on a
  float (towards zero). Floats are modelled by exact rationals.
\<close>

definition round_half_even :: "rat \<Rightarrow> int" where
  "round_half_even x =
     (let f = \<lfloor>x\<rfloor>; r = x - of_int f in
      if r < 1 / 2 then f else if 1 / 2 < r then f + 1 else if even f then f else f + 1)"

definition td_hours :: "rat \<Rightarrow> int" where
  "td_hours h = round_half_even (h * 3600000000)"

definition hours_between :: "instant \<Rightarrow> instant \<Rightarrow> rat" where
  "hours_between from to = of_int (to - from) / 3600000000"

definition py_trunc :: "rat \<Rightarrow> int" where
  "py_trunc x = (if 0 \<le> x then \<lfloor>x\<rfloor> else \<lceil>x\<rceil>)"

lemma round_half_even_of_int [simp]: "round_half_even (of_int i) = i"
  by (simp add: round_half_even_def)

lemma round_half_even_mono:
  assumes "x \<le> y"
  shows "round_half_even x \<le> round_half_even y"
proof (cases "\<lfloor>x\<rfloor> = \<lfloor>y\<rfloor>")
  case True
  with assms show ?thesis by (auto simp: round_half_even_def Let_def)
next
  case False
  with assms have "\<lfloor>x\<rfloor> + 1 \<le> \<lfloor>y\<rfloor>"
    using floor_mono [of x y] by linarith
  moreover have "round_half_even x \<le> \<lfloor>x\<rfloor> + 1" "\<lfloor>y\<rfloor> \<le> round_half_even y"
    by (simp_all add: round_half_even_def Let_def)
  ultimately show ?thesis by linarith
qed

lemma td_hours_mono: "a \<le> b \<Longrightarrow> td_hours a \<le> td_hours b"
  by (simp add: td_hours_def round_half_even_mono)

lemma td_hours_between [simp]: "td_hours (hours_between a b) = b - a"
proof -
  have "hours_between a b * 3600000000 = of_int (b - a)"
    by (simp add: hours_between_def)
  then show ?thesis by (simp only: td_hours_def round_half_even_of_int)
qed

lemma td_hours_int [simp]: "td_hours (of_int n) = n * 3600000000"
proof -
  have "(of_int n :: rat) * 3600000000 = of_int (n * 3600000000)" by simp
  then show ?thesis by (simp only: td_hours_def round_half_even_of_int)
qed

lemma td_hours_1 [simp]: "td_hours 1 = 3600000000"
  using td_hours_int [of 1] by simp

section \<open>Strings\<close>

text \<open>\<open>x or ""\<close> on an optional string.\<close>

definition or_empty :: "string option \<Rightarrow> string" where
  "or_empty x = (case x of None \<Rightarrow> [] | Some s \<Rightarrow> s)"

lemma or_empty_simps [simp]: "or_empty None = []" "or_empty (Some s) = s"
  by (simp_all add: or_empty_def)

text \<open>\<open>x or None\<close>: an empty string is stored as NULL.\<close>

definition or_none :: "string option \<Rightarrow> string option" where
  "or_none x = (if or_empty x = [] then None else x)"

definition lower_char :: "char \<Rightarrow> char" where
  "lower_char c =
     (let n = of_char c :: nat in if 65 \<le> n \<and> n \<le> 90 then char_of (n + 32) else c)"

definition py_lower :: "string \<Rightarrow> string" where
  "py_lower s = map lower_char s"

definition is_space :: "char \<Rightarrow> bool" where
  "is_space c =
     (let n = of_char c :: nat in n = 32 \<or> (9 \<le> n \<and> n \<le> 13) \<or> (28 \<le> n \<and> n \<le> 31))"

definition py_strip :: "string \<Rightarrow> string" where
  "py_strip s = rev (dropWhile is_space (rev (dropWhile is_space s)))"

definition starts_with :: "string \<Rightarrow> string \<Rightarrow> bool" where
  "starts_with p s \<longleftrightarrow> take (length p) s = p"

text \<open>\<open>needle in haystack\<close> on strings.\<close>

fun contains :: "string \<Rightarrow> string \<Rightarrow> bool" where
  "contains p [] = (p = [])"
| "contains p (c # s) = (starts_with p (c # s) \<or> contains p s)"

lemma starts_with_iff: "starts_with p s \<longleftrightarrow> (\<exists>b. s = p @ b)"
  by (metis append_eq_conv_conj starts_with_def)

lemma contains_iff: "contains p s \<longleftrightarrow> (\<exists>a b. s = a @ p @ b)"
proof (induction s)
  case Nil
  then show ?case by auto
next
  case (Cons c s)
  have "(\<exists>a b. c # s = a @ p @ b) \<longleftrightarrow> (\<exists>b. c # s = p @ b) \<or> (\<exists>a b. s = a @ p @ b)"
    by (metis append_Cons append_Nil append_eq_Cons_conv)
  with Cons show ?case by (simp add: starts_with_iff)
qed

lemma contains_trans: "contains p q \<Longrightarrow> contains q s \<Longrightarrow> contains p s"
  by (metis append.assoc contains_iff)

text \<open>\<open>s.split(",")\<close>: always at least one piece.\<close>

fun split_on :: "char \<Rightarrow> string \<Rightarrow> string list" where
  "split_on d [] = [[]]"
| "split_on d (c # s) =
     (if c = d then [] # split_on d s
      else (case split_on d s of [] \<Rightarrow> [[c]] | w # ws \<Rightarrow> (c # w) # ws))"

text \<open>\<open>sep.join(parts)\<close> for a one-character separator.\<close>

fun join_with :: "char \<Rightarrow> string list \<Rightarrow> string" where
  "join_with d [] = []"
| "join_with d [w] = w"
| "join_with d (w # v # ws) = w @ d # join_with d (v # ws)"

lemma split_on_not_Nil [simp]: "split_on d s \<noteq> []"
  by (induction s) (auto split: list.splits)

lemma split_on_append_sep:
  "d \<notin> set w \<Longrightarrow> split_on d (w @ d # s) = w # split_on d s"
  by (induction w) auto

lemma split_on_no_sep: "d \<notin> set w \<Longrightarrow> split_on d w = [w]"
  by (induction w) auto

lemma split_join:
  assumes "\<forall>w \<in> set ws. d \<notin> set w" and "ws \<noteq> []"
  shows "split_on d (join_with d ws) = ws"
  using assms by (induction d ws rule: join_with.induct)
    (auto simp: split_on_append_sep split_on_no_sep)

lemma join_with_inj:
  assumes "join_with d xs = join_with d ys"
    and "\<forall>w \<in> set xs. d \<notin> set w" and "\<forall>w \<in> set ys. d \<notin> set w"
    and "xs \<noteq> []" and "ys \<noteq> []"
  shows "xs = ys"
  using assms split_join by metis

section \<open>Decimal text of integers\<close>

definition digit_char :: "nat \<Rightarrow> char" where
  "digit_char d = char_of (48 + d)"

definition digit_val :: "char \<Rightarrow> int option" where
  "digit_val c =
     (let n = of_char c :: nat in if 48 \<le> n \<and> n \<le> 57 then Some (int (n - 48)) else None)"

lemma digit_val_digit_char [simp]: "d < 10 \<Longrightarrow> digit_val (digit_char d) = Some (int d)"
  by (simp add: digit_val_def digit_char_def)

fun show_nat :: "nat \<Rightarrow> string" where
  "show_nat n = (if n < 10 then [digit_char n] else show_nat (n div 10) @ [digit_char (n mod 10)])"

declare show_nat.simps [simp del]

text \<open>\<open>str(i)\<close>.\<close>

definition py_str_int :: "int \<Rightarrow> string" where
  "py_str_int i = (if i < 0 then CHR ''-'' # show_nat (nat (- i)) else show_nat (nat i))"

text \<open>
  \<open>int(text)\<close>: surrounding whitespace, an optional sign, decimal digits, single
  underscores between digits. \<open>None\<close> is the \<open>ValueError\<close>.
\<close>

fun int_digits :: "int \<Rightarrow> string \<Rightarrow> int option" where
  "int_digits acc [] = Some acc"
| "int_digits acc (c # cs) =
     (case digit_val c of
        Some d \<Rightarrow> int_digits (10 * acc + d) cs
      | None \<Rightarrow>
          (if c = CHR ''_'' then
             (case cs of
                [] \<Rightarrow> None
              | d # ds \<Rightarrow> (case digit_val d of
                            Some v \<Rightarrow> int_digits (10 * acc + v) ds
                          | None \<Rightarrow> None))
           else None))"

fun int_start :: "string \<Rightarrow> int option" where
  "int_start [] = None"
| "int_start (c # cs) = (case digit_val c of Some d \<Rightarrow> int_digits d cs | None \<Rightarrow> None)"

definition py_int_of_string :: "string \<Rightarrow> int option" where
  "py_int_of_string s =
     (case py_strip s of
        [] \<Rightarrow> None
      | c # cs \<Rightarrow>
          (if c = CHR ''-'' then map_option uminus (int_start cs)
           else if c = CHR ''+'' then int_start cs
           else int_start (c # cs)))"

lemma digit_char_plain:
  assumes "d < 10"
  shows "\<not> is_space (digit_char d)" "digit_char d \<noteq> CHR ''-''" "digit_char d \<noteq> CHR ''+''"
    "digit_char d \<noteq> CHR 0x0A"
proof -
  have n: "of_char (digit_char d) = 48 + d"
    using assms by (simp add: digit_char_def)
  then show "\<not> is_space (digit_char d)"
    using assms by (simp add: is_space_def)
  show "digit_char d \<noteq> CHR ''-''" "digit_char d \<noteq> CHR ''+''" "digit_char d \<noteq> CHR 0x0A"
    using n assms by auto
qed

lemma show_nat_digits: "\<forall>c \<in> set (show_nat n). \<exists>d < 10. c = digit_char d"
proof (induction n rule: show_nat.induct)
  case (1 n)
  have "\<exists>d < 10. digit_char (n mod 10) = digit_char d"
    by (intro exI [of _ "n mod 10"]) simp
  with 1 show ?case
    by (cases "n < 10") (auto simp: show_nat.simps [of n])
qed

lemma show_nat_not_Nil [simp]: "show_nat n \<noteq> []"
  by (simp add: show_nat.simps [of n])

lemma int_digits_digit:
  assumes "d < 10"
  shows "int_digits acc (digit_char d # cs) = int_digits (10 * acc + int d) cs"
  unfolding int_digits.simps(2) digit_val_digit_char [OF assms] by simp

lemma int_digits_snoc:
  "(\<forall>c \<in> set cs. \<exists>d < 10. c = digit_char d) \<Longrightarrow> int_digits acc cs = Some v \<Longrightarrow> d < 10 \<Longrightarrow>
   int_digits acc (cs @ [digit_char d]) = Some (10 * v + int d)"
  by (induction cs arbitrary: acc) (auto simp: int_digits_digit simp del: int_digits.simps(2))

lemma int_start_snoc:
  "(\<forall>c \<in> set cs. \<exists>d < 10. c = digit_char d) \<Longrightarrow> int_start cs = Some v \<Longrightarrow> d < 10 \<Longrightarrow>
   int_start (cs @ [digit_char d]) = Some (10 * v + int d)"
  by (cases cs) (auto simp: int_digits_snoc)

lemma int_start_show_nat: "int_start (show_nat n) = Some (int n)"
proof (induction n rule: show_nat.induct)
  case (1 n)
  show ?case
  proof (cases "n < 10")
    case True
    then show ?thesis by (simp add: show_nat.simps [of n])
  next
    case False
    with "1.IH" have "int_start (show_nat (n div 10)) = Some (int (n div 10))" by simp
    with False show ?thesis
      by (simp add: show_nat.simps [of n] int_start_snoc show_nat_digits) presburger
  qed
qed

lemma py_strip_id:
  assumes "s \<noteq> []" "\<not> is_space (hd s)" "\<not> is_space (last s)"
  shows "py_strip s = s"
proof -
  have "dropWhile is_space s = s"
    using assms by (cases s) auto
  moreover have "dropWhile is_space (rev s) = rev s"
    using assms by (cases "rev s") (auto simp: hd_rev [symmetric])
  ultimately show ?thesis by (simp add: py_strip_def)
qed

lemma show_nat_ends:
  shows "\<not> is_space (hd (show_nat n))" "\<not> is_space (last (show_nat n))"
    "hd (show_nat n) \<noteq> CHR ''-''" "hd (show_nat n) \<noteq> CHR ''+''"
  using show_nat_digits [of n] digit_char_plain
  by (metis hd_in_set last_in_set show_nat_not_Nil)+

lemma minus_not_space: "\<not> is_space (CHR ''-'')"
  by (simp add: is_space_def)

lemma py_int_of_py_str: "py_int_of_string (py_str_int i) = Some i"
proof (cases "i < 0")
  case True
  let ?s = "show_nat (nat (- i))"
  have "py_strip (CHR ''-'' # ?s) = CHR ''-'' # ?s"
    by (rule py_strip_id) (auto simp: show_nat_ends minus_not_space)
  with True show ?thesis
    by (simp add: py_int_of_string_def py_str_int_def int_start_show_nat)
next
  case False
  let ?s = "show_nat (nat i)"
  have strip: "py_strip ?s = ?s"
    by (rule py_strip_id) (auto simp: show_nat_ends)
  obtain c cs where s: "?s = c # cs" by (cases ?s) auto
  then have "c \<noteq> CHR ''-''" "c \<noteq> CHR ''+''"
    using show_nat_ends [of "nat i"] by auto
  with False s strip int_start_show_nat [of "nat i"] show ?thesis
    by (simp add: py_int_of_string_def py_str_int_def)
qed

lemma py_str_int_inj: "py_str_int i = py_str_int j \<longleftrightarrow> i = j"
  by (metis option.inject py_int_of_py_str)

lemma py_str_int_not_Nil [simp]: "py_str_int i \<noteq> []"
  by (simp add: py_str_int_def)

lemma py_str_int_no_newline: "CHR 0x0A \<notin> set (py_str_int i)"
  using show_nat_digits digit_char_plain(4) by (auto simp: py_str_int_def) metis+

section \<open>Configuration values\<close>

text \<open>A value read from the configuration store or from the settings object.\<close>

datatype pyval = PNone | PBool bool | PInt int | PStr string

text \<open>\<open>int(v)\<close>: \<open>None\<close> stands for the \<open>TypeError\<close> or \<open>ValueError\<close>.\<close>

fun py_int :: "pyval \<Rightarrow> int option" where
  "py_int PNone = None"
| "py_int (PBool b) = Some (if b then 1 else 0)"
| "py_int (PInt i) = Some i"
| "py_int (PStr s) = py_int_of_string s"

text \<open>\<open>bool(v)\<close>.\<close>

fun py_bool :: "pyval \<Rightarrow> bool" where
  "py_bool PNone = False"
| "py_bool (PBool b) = b"
| "py_bool (PInt i) = (i \<noteq> 0)"
| "py_bool (PStr s) = (s \<noteq> [])"

section \<open>JSON metadata\<close>

datatype json =
    JNull
  | JBool bool
  | JInt int
  | JStr string
  | JList "json list"
  | JObj "(string \<times> json) list"

type_synonym dict = "(string \<times> json) list"

definition dict_get :: "dict \<Rightarrow> string \<Rightarrow> json" where
  "dict_get d k = (case map_of d k of None \<Rightarrow> JNull | Some v \<Rightarrow> v)"

text \<open>\<open>d[k] = v\<close> keeps the position of an existing key and appends a new one.\<close>

fun dict_set :: "dict \<Rightarrow> string \<Rightarrow> json \<Rightarrow> dict" where
  "dict_set [] k v = [(k, v)]"
| "dict_set ((k', v') # d) k v = (if k' = k then (k, v) # d else (k', v') # dict_set d k v)"

definition dict_update :: "dict \<Rightarrow> dict \<Rightarrow> dict" where
  "dict_update d upd = fold (\<lambda>(k, v) acc. dict_set acc k v) upd d"

lemma dict_get_simps [simp]:
  "dict_get [] k = JNull"
  "dict_get ((k', v) # d) k = (if k = k' then v else dict_get d k)"
  by (simp_all add: dict_get_def)

lemma map_of_dict_set: "map_of (dict_set d k v) = (map_of d)(k \<mapsto> v)"
  by (induction d) auto

lemma dict_get_set: "dict_get (dict_set d k v) k' = (if k' = k then v else dict_get d k')"
  by (simp add: dict_get_def map_of_dict_set)

lemma keys_dict_set: "fst ` set (dict_set d k v) = insert k (fst ` set d)"
  by (induction d k v rule: dict_set.induct) auto

lemma distinct_dict_set:
  "distinct (map fst d) \<Longrightarrow> distinct (map fst (dict_set d k v))"
proof (induction d)
  case Nil
  then show ?case by simp
next
  case (Cons p d)
  then show ?case
    using keys_dict_set [of d k v] by (cases p) auto
qed

lemma dict_update_get:
  "dict_get (dict_update d upd) k =
     (case map_of (rev upd) k of None \<Rightarrow> dict_get d k | Some v \<Rightarrow> v)"
proof (induction upd arbitrary: d)
  case Nil
  then show ?case by (simp add: dict_update_def)
next
  case (Cons p upd)
  obtain k' v' where p: "p = (k', v')" by (cases p)
  have "dict_get (dict_update d (p # upd)) k = dict_get (dict_update (dict_set d k' v') upd) k"
    by (simp add: dict_update_def p)
  with Cons [of "dict_set d k' v'"] show ?case
    by (simp add: p map_of_append dict_get_set map_add_def split: option.splits)
qed

text \<open>Truth value and \<open>str\<close> of a JSON value.\<close>

fun truthy :: "json \<Rightarrow> bool" where
  "truthy JNull = False"
| "truthy (JBool b) = b"
| "truthy (JInt i) = (i \<noteq> 0)"
| "truthy (JStr s) = (s \<noteq> [])"
| "truthy (JList xs) = (xs \<noteq> [])"
| "truthy (JObj d) = (d \<noteq> [])"

definition esc_char :: "char \<Rightarrow> char \<Rightarrow> string" where
  "esc_char q c =
     (if c = CHR 0x5C then [CHR 0x5C, CHR 0x5C]
      else if c = q then [CHR 0x5C, c]
      else if c = CHR 0x0A then [CHR 0x5C, CHR ''n'']
      else if c = CHR 0x0D then [CHR 0x5C, CHR ''r'']
      else if c = CHR 0x09 then [CHR 0x5C, CHR ''t'']
      else [c])"

text \<open>\<open>repr\<close> of a string of printable characters: single quotes unless only those occur inside.\<close>

definition py_repr_str :: "string \<Rightarrow> string" where
  "py_repr_str s =
     (let q = (if CHR 0x27 \<in> set s \<and> CHR 0x22 \<notin> set s then CHR 0x22 else CHR 0x27)
      in q # concat (map (esc_char q) s) @ [q])"

fun commas :: "string list \<Rightarrow> string" where
  "commas [] = []"
| "commas [w] = w"
| "commas (w # v # ws) = w @ '', '' @ commas (v # ws)"

fun py_repr :: "json \<Rightarrow> string" where
  "py_repr JNull = ''None''"
| "py_repr (JBool b) = (if b then ''True'' else ''False'')"
| "py_repr (JInt i) = py_str_int i"
| "py_repr (JStr s) = py_repr_str s"
| "py_repr (JList xs) = ''['' @ commas (map py_repr xs) @ '']''"
| "py_repr (JObj d) =
     ''{'' @ commas (map (\<lambda>(k, v). py_repr_str k @ '': '' @ py_repr v) d) @ ''}''"

fun py_str :: "json \<Rightarrow> string" where
  "py_str (JStr s) = s"
| "py_str v = py_repr v"

section \<open>Tables\<close>

text \<open>
  A table is the list of its rows in insertion order. \<open>query.filter(p).first()\<close> is
  \<^const>\<open>List.find\<close>; an \<open>UPDATE ... WHERE p\<close> and an ORM write to the row found by its
  primary key are \<open>tbl_update\<close>.
\<close>

definition tbl_update :: "('a \<Rightarrow> bool) \<Rightarrow> ('a \<Rightarrow> 'a) \<Rightarrow> 'a list \<Rightarrow> 'a list" where
  "tbl_update p f xs = map (\<lambda>x. if p x then f x else x) xs"

definition rowcount :: "('a \<Rightarrow> bool) \<Rightarrow> 'a list \<Rightarrow> nat" where
  "rowcount p xs = length (filter p xs)"

lemma length_tbl_update [simp]: "length (tbl_update p f xs) = length xs"
  by (simp add: tbl_update_def)

lemma set_tbl_update:
  "set (tbl_update p f xs) = {x \<in> set xs. \<not> p x} \<union> f ` {x \<in> set xs. p x}"
  by (auto simp: tbl_update_def)

lemma tbl_update_comp_key:
  "(\<And>x. k (f x) = k x) \<Longrightarrow> map k (tbl_update p f xs) = map k xs"
  by (simp add: tbl_update_def)

text \<open>\<open>ORDER BY key ASC ... LIMIT 1\<close>: the earliest row with the least key.\<close>

fun first_by :: "('a \<Rightarrow> 'k::linorder) \<Rightarrow> 'a list \<Rightarrow> 'a option" where
  "first_by k [] = None"
| "first_by k (x # xs) =
     (case first_by k xs of
        None \<Rightarrow> Some x
      | Some y \<Rightarrow> (if k x \<le> k y then Some x else Some y))"

lemma first_by_None [simp]: "first_by k xs = None \<longleftrightarrow> xs = []"
  by (induction xs) (auto split: option.splits)

lemma first_by_Some:
  "first_by k xs = Some x \<Longrightarrow> x \<in> set xs \<and> (\<forall>y \<in> set xs. k x \<le> k y)"
  by (induction xs arbitrary: x) (force split: option.splits if_splits)+

lemma sorted_le_last: "sorted (map f xs) \<Longrightarrow> x \<in> set xs \<Longrightarrow> f x \<le> f (last xs)"
  by (induction xs rule: rev_induct) (auto simp: sorted_append)

lemma find_key_unique:
  assumes "distinct (map k xs)" and "x \<in> set xs"
  shows "List.find (\<lambda>y. k y = k x) xs = Some x"
  using assms by (induction xs) (auto simp: image_iff)

lemma find_Some_set: "List.find p xs = Some x \<Longrightarrow> x \<in> set xs \<and> p x"
  by (auto simp: find_Some_iff)

lemma find_map_key:
  "(\<And>x. p (f x) = p x) \<Longrightarrow> List.find p (map f xs) = map_option f (List.find p xs)"
  by (induction xs) auto

end
