(* ===== verification/Audit_Chain.thy ===== *)
theory Audit_Chain
  imports Prelude "HOL-Library.Multiset"
begin

text \<open>
  The tamper-evident audit log: \<open>services/audit_chain.py\<close> (canonical forms, entry hashes, the
  verifying walk) and the database side of it in \<open>services/job_service.py\<close> (\<open>log_audit\<close>,
  \<open>verify_audit_chain\<close>, \<open>backfill_audit_chain\<close>, \<open>rechain_audit_log\<close>).

  \<open>H\<close> is \<open>hashlib.sha256(text.encode()).hexdigest()\<close> and \<open>isofmt\<close> is \<open>datetime.isoformat\<close>. The
  theorems hold for every \<open>H\<close>: detection is stated as a reduction, an undetected change yields two
  texts with the same digest.
\<close>

section \<open>Definitions\<close>

record audit_entry =
  ae_id :: string
  ae_seq :: "int option"
  ae_timestamp :: instant
  ae_username :: "string option"
  ae_action :: "string option"
  ae_target_vm :: "string option"
  ae_details :: "string option"
  ae_ip_address :: "string option"
  ae_prev_hash :: "string option"
  ae_entry_hash :: "string option"

type_synonym hash_fn = "string \<Rightarrow> string"
type_synonym iso_fn = "instant \<Rightarrow> string"
type_synonym audit_table = "audit_entry list"

definition GENESIS_PREV :: string where
  "GENESIS_PREV = replicate 64 (CHR ''0'')"

definition CHAIN_VERSION :: int where
  "CHAIN_VERSION = 2"

definition newline :: char where
  "newline = CHR 0x0A"

definition str_opt_int :: "int option \<Rightarrow> string" where
  "str_opt_int s = (case s of None \<Rightarrow> ''None'' | Some i \<Rightarrow> py_str_int i)"

definition canonical_v1 ::
  "iso_fn \<Rightarrow> int option \<Rightarrow> instant \<Rightarrow> string option \<Rightarrow> string option \<Rightarrow> string option \<Rightarrow> string option \<Rightarrow>
   string option \<Rightarrow> string" where
  "canonical_v1 isofmt seq timestamp username action target_vm details prev_hash =
     join_with newline
       [str_opt_int seq, isofmt timestamp, or_empty username, or_empty action,
        or_empty target_vm, or_empty details, or_empty prev_hash]"

definition canonical ::
  "iso_fn \<Rightarrow> int option \<Rightarrow> instant \<Rightarrow> string option \<Rightarrow> string option \<Rightarrow> string option \<Rightarrow> string option \<Rightarrow>
   string option \<Rightarrow> string option \<Rightarrow> string" where
  "canonical isofmt seq timestamp username action target_vm details prev_hash ip_address =
     join_with newline
       [str_opt_int seq, isofmt timestamp, or_empty username, or_empty action,
        or_empty target_vm, or_empty details, or_empty prev_hash, or_empty ip_address]"

definition compute_entry_hash_v1 :: "hash_fn \<Rightarrow> iso_fn \<Rightarrow> audit_entry \<Rightarrow> string option \<Rightarrow> string" where
  "compute_entry_hash_v1 H isofmt e prev =
     H (canonical_v1 isofmt (ae_seq e) (ae_timestamp e) (ae_username e) (ae_action e)
          (ae_target_vm e) (ae_details e) prev)"

definition compute_entry_hash :: "hash_fn \<Rightarrow> iso_fn \<Rightarrow> audit_entry \<Rightarrow> string option \<Rightarrow> string" where
  "compute_entry_hash H isofmt e prev =
     H (canonical isofmt (ae_seq e) (ae_timestamp e) (ae_username e) (ae_action e)
          (ae_target_vm e) (ae_details e) prev (ae_ip_address e))"

fun walk ::
  "(audit_entry \<Rightarrow> string option \<Rightarrow> string) \<Rightarrow> audit_entry list \<Rightarrow> string option \<Rightarrow>
   bool \<times> int option \<times> string option" where
  "walk hasher [] prev = (True, None, prev)"
| "walk hasher (e # es) prev =
     (let expected = hasher e prev in
      if ae_prev_hash e \<noteq> prev \<or> ae_entry_hash e \<noteq> Some expected
      then (False, ae_seq e, prev)
      else walk hasher es (ae_entry_hash e))"

definition verify_chain :: "hash_fn \<Rightarrow> iso_fn \<Rightarrow> audit_entry list \<Rightarrow> bool \<times> int option" where
  "verify_chain H isofmt entries =
     (case walk (compute_entry_hash H isofmt) entries (Some GENESIS_PREV) of
        (ok, broken, _) \<Rightarrow> (ok, broken))"

definition verify_chain_v1 :: "hash_fn \<Rightarrow> iso_fn \<Rightarrow> audit_entry list \<Rightarrow> bool \<times> int option" where
  "verify_chain_v1 H isofmt entries =
     (case walk (compute_entry_hash_v1 H isofmt) entries (Some GENESIS_PREV) of
        (ok, broken, _) \<Rightarrow> (ok, broken))"

subsection \<open>The table\<close>

definition chained :: "audit_table \<Rightarrow> audit_entry list" where
  "chained t = sort_key (\<lambda>e. the (ae_seq e)) (filter (\<lambda>e. ae_seq e \<noteq> None) t)"

record audit_request =
  rq_id :: string
  rq_now :: instant
  rq_username :: string
  rq_action :: string
  rq_ip_address :: "string option"
  rq_target_vm :: "string option"
  rq_details :: "string option"

text \<open>
  The row one attempt builds from what it read. \<open>rq_details\<close> is the stored JSON text; an empty
  \<open>details\<close> dict leaves the column NULL.
\<close>

definition next_entry :: "hash_fn \<Rightarrow> iso_fn \<Rightarrow> audit_request \<Rightarrow> audit_table \<Rightarrow> audit_entry" where
  "next_entry H isofmt rq t =
     (let rows = chained t;
          seq = (if rows = [] then 1 else the (ae_seq (last rows)) + 1);
          prev_hash = (if rows = [] then Some GENESIS_PREV else ae_entry_hash (last rows));
          e = \<lparr> ae_id = rq_id rq, ae_seq = Some seq, ae_timestamp = rq_now rq,
                ae_username = Some (rq_username rq), ae_action = Some (rq_action rq),
                ae_target_vm = rq_target_vm rq, ae_details = rq_details rq,
                ae_ip_address = rq_ip_address rq, ae_prev_hash = prev_hash, ae_entry_hash = None \<rparr>
      in e\<lparr> ae_entry_hash := Some (compute_entry_hash H isofmt e prev_hash) \<rparr>)"

datatype audit_error = IntegrityError

text \<open>
  \<open>log_audit\<close> makes at most three attempts. \<open>interf k t\<close> is the table after the rows other
  writers commit between the read and the commit of attempt \<open>k\<close>: the identity where the advisory
  lock is held, appended rows on SQLite. The unique index on \<open>seq\<close> rejects a number already taken.
\<close>

definition seq_taken :: "audit_table \<Rightarrow> audit_entry \<Rightarrow> bool" where
  "seq_taken t e \<longleftrightarrow> ae_seq e \<in> set (map ae_seq t)"

fun log_audit_from ::
  "nat \<Rightarrow> hash_fn \<Rightarrow> iso_fn \<Rightarrow> (nat \<Rightarrow> audit_table \<Rightarrow> audit_table) \<Rightarrow> audit_request \<Rightarrow> audit_table \<Rightarrow>
   (audit_error \<times> audit_table) + audit_table" where
  "log_audit_from 0 H isofmt interf rq t = Inl (IntegrityError, t)"
| "log_audit_from (Suc left) H isofmt interf rq t =
     (let e = next_entry H isofmt rq t; t' = interf (3 - Suc left) t in
      if seq_taken t' e then log_audit_from left H isofmt interf rq t' else Inr (t' @ [e]))"

definition log_audit ::
  "hash_fn \<Rightarrow> iso_fn \<Rightarrow> (nat \<Rightarrow> audit_table \<Rightarrow> audit_table) \<Rightarrow> audit_request \<Rightarrow> audit_table \<Rightarrow>
   (audit_error \<times> audit_table) + audit_table" where
  "log_audit H isofmt interf rq t = log_audit_from 3 H isofmt interf rq t"

fun count_walked ::
  "(audit_entry \<Rightarrow> string option \<Rightarrow> string) \<Rightarrow> audit_entry list \<Rightarrow> string option \<Rightarrow> nat" where
  "count_walked hasher [] prev = 0"
| "count_walked hasher (e # es) prev =
     (if ae_prev_hash e \<noteq> prev \<or> ae_entry_hash e \<noteq> Some (hasher e prev) then 1
      else Suc (count_walked hasher es (ae_entry_hash e)))"

record audit_report =
  rep_ok :: bool
  rep_count :: nat
  first_broken_seq :: "int option"

definition verify_audit_chain :: "hash_fn \<Rightarrow> iso_fn \<Rightarrow> audit_table \<Rightarrow> audit_report" where
  "verify_audit_chain H isofmt t =
     (case verify_chain H isofmt (chained t) of
        (ok, broken) \<Rightarrow>
          \<lparr> rep_ok = ok,
            rep_count = count_walked (compute_entry_hash H isofmt) (chained t) (Some GENESIS_PREV),
            first_broken_seq = broken \<rparr>)"

text \<open>Re-linking a list of rows under the current form, keeping their content.\<close>

fun relink :: "hash_fn \<Rightarrow> iso_fn \<Rightarrow> string option \<Rightarrow> audit_entry list \<Rightarrow> audit_entry list" where
  "relink H isofmt prev [] = []"
| "relink H isofmt prev (e # es) =
     (let h = Some (compute_entry_hash H isofmt e prev)
      in e\<lparr> ae_prev_hash := prev, ae_entry_hash := h \<rparr> # relink H isofmt h es)"

fun number_from :: "int \<Rightarrow> audit_entry list \<Rightarrow> audit_entry list" where
  "number_from i [] = []"
| "number_from i (e # es) = e\<lparr> ae_seq := Some i \<rparr> # number_from (i + 1) es"

text \<open>
  History is ordered by timestamp and then by id; \<open>by_id\<close> is the database's order on the id
  column, as a function to a number. Rows are returned in that order.
\<close>

definition backfill_audit_chain ::
  "(string \<Rightarrow> int) \<Rightarrow> hash_fn \<Rightarrow> iso_fn \<Rightarrow> audit_table \<Rightarrow> audit_table \<times> nat" where
  "backfill_audit_chain by_id H isofmt t =
     (if list_ex (\<lambda>e. ae_seq e \<noteq> None) t then (t, 0)
      else
        (let rows = sort_key ae_timestamp (sort_key (\<lambda>e. by_id (ae_id e)) t)
         in (relink H isofmt (Some GENESIS_PREV) (number_from 1 rows), length rows)))"

datatype rechain_status = RCurrent | REmpty | RRefused "int option" nat | Rechained nat

text \<open>
  \<open>rechain_audit_log\<close>: \<open>stored\<close> is the version marker as the store returns it. The result is the
  status, the table and the marker afterwards. Rows that are not chained are left alone.
\<close>

definition rechain_audit_log ::
  "hash_fn \<Rightarrow> iso_fn \<Rightarrow> string \<Rightarrow> audit_table \<Rightarrow> rechain_status \<times> audit_table \<times> string" where
  "rechain_audit_log H isofmt stored t =
     (let version = (case py_int_of_string (if stored = [] then ''0'' else stored) of
                       None \<Rightarrow> 0 | Some v \<Rightarrow> v);
          rows = chained t;
          unchained = filter (\<lambda>e. ae_seq e = None) t;
          marker = py_str_int CHAIN_VERSION
      in if version \<ge> CHAIN_VERSION then (RCurrent, t, stored)
         else if rows = [] then (REmpty, t, marker)
         else
           (case verify_chain_v1 H isofmt rows of
              (False, broken) \<Rightarrow>
                (if fst (verify_chain H isofmt rows) then (RCurrent, t, marker)
                 else (RRefused broken (length rows), t, stored))
            | (True, _) \<Rightarrow>
                (Rechained (length rows),
                 unchained @ relink H isofmt (Some GENESIS_PREV) rows, marker)))"

text \<open>Another writer's committed appends, one after another.\<close>

inductive audit_grow :: "hash_fn \<Rightarrow> iso_fn \<Rightarrow> audit_table \<Rightarrow> audit_table \<Rightarrow> bool"
  for H isofmt where
  grow_refl: "audit_grow H isofmt t t"
| grow_step: "audit_grow H isofmt t u \<Longrightarrow> audit_grow H isofmt t (u @ [next_entry H isofmt rq u])"

text \<open>The text whose digest a row carries.\<close>

definition hashed_text :: "iso_fn \<Rightarrow> audit_entry \<Rightarrow> string" where
  "hashed_text isofmt e =
     canonical isofmt (ae_seq e) (ae_timestamp e) (ae_username e) (ae_action e)
       (ae_target_vm e) (ae_details e) (ae_prev_hash e) (ae_ip_address e)"

text \<open>The hashed content of a row, NULL and the empty string identified as the code does.\<close>

definition content ::
  "audit_entry \<Rightarrow> int option \<times> instant \<times> string \<times> string \<times> string \<times> string \<times> string" where
  "content e =
     (ae_seq e, ae_timestamp e, or_empty (ae_username e), or_empty (ae_action e),
      or_empty (ae_target_vm e), or_empty (ae_details e), or_empty (ae_ip_address e))"

definition newline_free :: "audit_entry \<Rightarrow> bool" where
  "newline_free e \<longleftrightarrow>
     (\<forall>s \<in> {or_empty (ae_username e), or_empty (ae_action e), or_empty (ae_target_vm e),
            or_empty (ae_details e), or_empty (ae_ip_address e), or_empty (ae_prev_hash e)}.
        newline \<notin> set s)"

definition audit_ok :: "hash_fn \<Rightarrow> iso_fn \<Rightarrow> audit_table \<Rightarrow> bool" where
  "audit_ok H isofmt t \<longleftrightarrow>
     fst (verify_chain H isofmt (chained t)) \<and>
     distinct (map ae_seq (filter (\<lambda>e. ae_seq e \<noteq> None) t))"

section \<open>Lemmas\<close>

subsection \<open>The walk\<close>

lemma walk_append:
  "walk h (xs @ ys) prev =
     (case walk h xs prev of (True, b, p) \<Rightarrow> walk h ys p | r \<Rightarrow> r)"
  by (induction h xs prev rule: walk.induct) (auto simp: Let_def)

lemma walk_True_last:
  "walk h es prev = (True, b, p) \<Longrightarrow> p = (if es = [] then prev else ae_entry_hash (last es))"
  by (induction h es prev rule: walk.induct) (auto simp: Let_def split: if_splits)

lemma walk_True_broken: "walk h es prev = (True, b, p) \<Longrightarrow> b = None"
  by (induction h es prev rule: walk.induct) (auto simp: Let_def split: if_splits)

lemma verify_chain_ok: "fst (verify_chain H isofmt es) \<longleftrightarrow>
    (\<exists>p. walk (compute_entry_hash H isofmt) es (Some GENESIS_PREV) = (True, None, p))"
  using walk_True_broken
  by (auto simp: verify_chain_def split: prod.splits)

lemma compute_entry_hash_cong:
  "content e = content f \<Longrightarrow> compute_entry_hash H isofmt e p = compute_entry_hash H isofmt f p"
  by (simp add: compute_entry_hash_def canonical_def content_def)

lemma content_relink: "map content (relink H isofmt prev es) = map content es"
  by (induction H isofmt prev es rule: relink.induct) (auto simp: Let_def content_def)

lemma seq_relink: "map ae_seq (relink H isofmt prev es) = map ae_seq es"
  by (induction H isofmt prev es rule: relink.induct) (auto simp: Let_def)

lemma walk_relink: "\<exists>p. walk (compute_entry_hash H isofmt) (relink H isofmt prev es) prev = (True, None, p)"
proof (induction H isofmt prev es rule: relink.induct)
  case (1 H isofmt prev)
  then show ?case by simp
next
  case (2 H isofmt prev e es)
  have "compute_entry_hash H isofmt (e\<lparr>ae_prev_hash := a, ae_entry_hash := b\<rparr>) prev =
      compute_entry_hash H isofmt e prev" for a b
    by (rule compute_entry_hash_cong) (simp add: content_def)
  with 2 show ?case by (simp add: Let_def)
qed

lemma verify_relink: "fst (verify_chain H isofmt (relink H isofmt (Some GENESIS_PREV) es))"
  using walk_relink by (simp add: verify_chain_ok)

subsection \<open>Sorting by sequence number\<close>

lemma sort_key_snoc:
  assumes "\<forall>y \<in> set xs. f y < f x"
  shows "sort_key f (xs @ [x]) = sort_key f xs @ [x]"
proof (rule properties_for_sort_key)
  show "mset (sort_key f xs @ [x]) = mset (xs @ [x])" by simp
  show "filter (\<lambda>y. f k = f y) (sort_key f xs @ [x]) = filter (\<lambda>y. f k = f y) (xs @ [x])"
    for k using sort_key_stable [of f "f k" xs] by (simp add: eq_commute [of "f k"])
  show "sorted (map f (sort_key f xs @ [x]))"
    using assms by (auto simp: sorted_append intro: less_imp_le)
qed

lemma set_chained: "set (chained t) = {e \<in> set t. ae_seq e \<noteq> None}"
  by (simp add: chained_def)

lemma last_chained_max:
  assumes "e \<in> set t" "ae_seq e = Some i"
  shows "i \<le> the (ae_seq (last (chained t)))"
proof -
  have e: "e \<in> set (chained t)" using assms by (simp add: set_chained)
  have "sorted (map (\<lambda>e. the (ae_seq e)) (chained t))" by (simp add: chained_def)
  from sorted_le_last [OF this e] show ?thesis using assms(2) by simp
qed

lemma next_entry_seq:
  "ae_seq (next_entry H isofmt rq t) =
     Some (if chained t = [] then 1 else the (ae_seq (last (chained t))) + 1)"
  by (simp add: next_entry_def Let_def)

lemma next_entry_above:
  assumes "e \<in> set t" "ae_seq e = Some i"
  shows "i < the (ae_seq (next_entry H isofmt rq t))"
proof -
  from assms have "chained t \<noteq> []"
    using set_chained [of t] by auto
  then show ?thesis
    using last_chained_max [OF assms] by (simp add: next_entry_seq)
qed

lemma next_entry_fresh: "\<not> seq_taken t (next_entry H isofmt rq t)"
proof
  assume "seq_taken t (next_entry H isofmt rq t)"
  then obtain f where f: "f \<in> set t" "ae_seq f = ae_seq (next_entry H isofmt rq t)"
    by (auto simp: seq_taken_def)
  then have "ae_seq f = Some (the (ae_seq (next_entry H isofmt rq t)))"
    by (simp add: next_entry_seq)
  from next_entry_above [OF f(1) this, of H isofmt rq] show False by simp
qed

lemma chained_snoc:
  "chained (t @ [next_entry H isofmt rq t]) = chained t @ [next_entry H isofmt rq t]"
proof -
  let ?e = "next_entry H isofmt rq t"
  have "\<forall>y \<in> set (filter (\<lambda>e. ae_seq e \<noteq> None) t). the (ae_seq y) < the (ae_seq ?e)"
    using next_entry_above by fastforce
  from sort_key_snoc [where f = "\<lambda>e. the (ae_seq e)", OF this] show ?thesis
    by (simp add: chained_def next_entry_seq)
qed

lemma audit_ok_snoc:
  assumes "audit_ok H isofmt t"
  shows "audit_ok H isofmt (t @ [next_entry H isofmt rq t])"
proof -
  let ?e = "next_entry H isofmt rq t"
  let ?h = "compute_entry_hash H isofmt"
  obtain p where w: "walk ?h (chained t) (Some GENESIS_PREV) = (True, None, p)"
    using assms by (auto simp: audit_ok_def verify_chain_ok)
  have p: "p = (if chained t = [] then Some GENESIS_PREV else ae_entry_hash (last (chained t)))"
    using w by (rule walk_True_last)
  have "ae_prev_hash ?e = p" and "ae_entry_hash ?e = Some (?h ?e p)"
    by (simp_all add: p next_entry_def Let_def compute_entry_hash_def)
  with w have "fst (verify_chain H isofmt (chained (t @ [?e])))"
    by (simp add: chained_snoc verify_chain_ok walk_append)
  moreover have "ae_seq ?e \<notin> set (map ae_seq (filter (\<lambda>e. ae_seq e \<noteq> None) t))"
    using next_entry_fresh [of t H isofmt rq] by (auto simp: seq_taken_def)
  ultimately show ?thesis
    using assms by (simp add: audit_ok_def next_entry_seq)
qed

subsection \<open>Appending\<close>

lemma next_entry_seq_indep:
  "ae_seq (next_entry H isofmt rq t) = ae_seq (next_entry H isofmt rq' t)"
  by (simp add: next_entry_seq)

lemma audit_grow_taken:
  "audit_grow H isofmt t u \<Longrightarrow> u = t \<or> seq_taken u (next_entry H isofmt rq t)"
proof (induction rule: audit_grow.induct)
  case (grow_refl t)
  then show ?case by simp
next
  case (grow_step t u rq')
  then show ?case
    using next_entry_seq_indep [of H isofmt rq t rq'] by (auto simp: seq_taken_def)
qed

lemma audit_grow_trans:
  "audit_grow H isofmt u v \<Longrightarrow> audit_grow H isofmt t u \<Longrightarrow> audit_grow H isofmt t v"
  by (induction rule: audit_grow.induct) (auto intro: audit_grow.intros)

lemma audit_grow_ok: "audit_grow H isofmt t u \<Longrightarrow> audit_ok H isofmt t \<Longrightarrow> audit_ok H isofmt u"
  by (induction rule: audit_grow.induct) (auto intro: audit_ok_snoc)

lemma log_audit_from_grow:
  assumes "\<forall>k u. audit_grow H isofmt u (interf k u)"
  shows "case log_audit_from n H isofmt interf rq t of
       Inl (_, t') \<Rightarrow> audit_grow H isofmt t t'
     | Inr t' \<Rightarrow> \<exists>u. audit_grow H isofmt t u \<and> t' = u @ [next_entry H isofmt rq u]"
proof (induction n arbitrary: t)
  case 0
  then show ?case by (simp add: audit_grow.grow_refl)
next
  case (Suc n)
  let ?e = "next_entry H isofmt rq t" and ?t = "interf (3 - Suc n) t"
  have g: "audit_grow H isofmt t ?t" using assms by blast
  show ?case
  proof (cases "seq_taken ?t ?e")
    case True
    with Suc [of ?t] g show ?thesis
      by (auto simp: Let_def split: sum.splits prod.splits intro: audit_grow_trans)
  next
    case False
    with audit_grow_taken [OF g, of rq] have "?t = t" by simp
    with False show ?thesis by (auto simp: Let_def intro: audit_grow.grow_refl)
  qed
qed

text \<open>
  C13. Appending to the audit log keeps it verifiable under every interleaving of writers: when the
  rows other writers commit between an attempt's read and its commit are themselves such appends,
  the table \<open>log_audit\<close> leaves behind verifies and has no duplicate sequence number, on success
  and when the attempts run out; on success its row is the last one and links to the tip
  it was committed on. So concurrent workers cannot fork the chain.
\<close>

theorem log_audit_keeps_chain:
  assumes "audit_ok H isofmt t" and "\<forall>k u. audit_grow H isofmt u (interf k u)"
  shows "case log_audit H isofmt interf rq t of
       Inl (_, t') \<Rightarrow> audit_ok H isofmt t'
     | Inr t' \<Rightarrow> audit_ok H isofmt t' \<and>
         (\<exists>u. audit_grow H isofmt t u \<and> t' = u @ [next_entry H isofmt rq u])"
  using log_audit_from_grow [OF assms(2), where n = 3 and rq = rq and t = t] assms(1)
  by (auto simp: log_audit_def split: sum.splits intro: audit_grow_ok audit_ok_snoc)

definition sample_request :: audit_request where
  "sample_request = \<lparr> rq_id = ''a'', rq_now = 0, rq_username = ''admin'', rq_action = ''login'',
     rq_ip_address = None, rq_target_vm = None, rq_details = None \<rparr>"

theorem log_audit_keeps_chain_witness:
  "case log_audit (\<lambda>s. s) py_str_int
       (\<lambda>k u. if k = 0 then u @ [next_entry (\<lambda>s. s) py_str_int sample_request u] else u)
       sample_request [] of
       Inl (_, t') \<Rightarrow> audit_ok (\<lambda>s. s) py_str_int t'
     | Inr t' \<Rightarrow> audit_ok (\<lambda>s. s) py_str_int t' \<and>
         (\<exists>u. audit_grow (\<lambda>s. s) py_str_int [] u \<and>
              t' = u @ [next_entry (\<lambda>s. s) py_str_int sample_request u])"
  by (rule log_audit_keeps_chain)
    (auto simp: audit_ok_def chained_def verify_chain_def intro: audit_grow.intros)

text \<open>
  With the advisory lock held (no interference) an append succeeds on its first attempt, and
  the new row carries the next number.
\<close>

theorem log_audit_locked:
  "log_audit H isofmt (\<lambda>_ u. u) rq t = Inr (t @ [next_entry H isofmt rq t])"
  using next_entry_fresh [of t H isofmt rq] by (simp add: log_audit_def numeral_3_eq_3 Let_def)

subsection \<open>Tamper evidence\<close>

lemma str_opt_int_inj: "str_opt_int s = str_opt_int s' \<Longrightarrow> s = s'"
proof -
  assume eq: "str_opt_int s = str_opt_int s'"
  have "py_int_of_string ''None'' = None"
    by (simp add: py_int_of_string_def py_strip_def is_space_def digit_val_def)
  then have "py_str_int i \<noteq> ''None''" for i
    using py_int_of_py_str [of i] by auto
  with eq show ?thesis
    by (auto simp: str_opt_int_def py_str_int_inj eq_commute [of "''None''"] split: option.splits)
qed

lemma canonical_inj:
  assumes eq: "hashed_text isofmt e = hashed_text isofmt f"
    and "newline_free e" "newline_free f"
    and iso: "inj isofmt" "\<forall>t. newline \<notin> set (isofmt t)"
  shows "content e = content f \<and> or_empty (ae_prev_hash e) = or_empty (ae_prev_hash f)"
proof -
  let ?parts = "\<lambda>e. [str_opt_int (ae_seq e), isofmt (ae_timestamp e), or_empty (ae_username e),
     or_empty (ae_action e), or_empty (ae_target_vm e), or_empty (ae_details e),
     or_empty (ae_prev_hash e), or_empty (ae_ip_address e)]"
  have nl: "newline \<notin> set (str_opt_int s)" for s
    using py_str_int_no_newline by (auto simp: str_opt_int_def newline_def split: option.splits)
  have "?parts e = ?parts f"
    using assms nl
    by (intro join_with_inj [of newline]) (auto simp: hashed_text_def canonical_def newline_free_def)
  then show ?thesis
    using iso(1) by (auto simp: content_def dest: injD str_opt_int_inj)
qed

lemma walk_snoc_True:
  "walk (compute_entry_hash H isofmt) (es @ [e]) (Some g) = (True, None, p) \<longleftrightarrow>
   walk (compute_entry_hash H isofmt) es (Some g) = (True, None, ae_prev_hash e) \<and>
   ae_entry_hash e = Some (H (hashed_text isofmt e)) \<and> p = ae_entry_hash e"
proof -
  obtain ok b q where w: "walk (compute_entry_hash H isofmt) es (Some g) = (ok, b, q)"
    by (metis prod_cases3)
  then have "ok \<Longrightarrow> b = None" by (cases ok) (auto dest: walk_True_broken)
  with w show ?thesis
    by (cases ok) (auto simp: walk_append Let_def compute_entry_hash_def hashed_text_def)
qed

lemma walk_prev_Some:
  "walk (compute_entry_hash H isofmt) es (Some g) = (True, None, p) \<Longrightarrow> \<exists>s. p = Some s"
  by (cases es rule: rev_cases) (auto simp: walk_snoc_True)

lemma chains_agree:
  assumes "walk (compute_entry_hash H isofmt) es (Some GENESIS_PREV) = (True, None, p)"
    and "walk (compute_entry_hash H isofmt) fs (Some GENESIS_PREV) = (True, None, p)"
    and "\<forall>e \<in> set (es @ fs). newline_free e"
    and iso: "inj isofmt" "\<forall>t. newline \<notin> set (isofmt t)"
  shows "map content es = map content fs \<or>
    (\<exists>e \<in> set es. \<exists>f \<in> set fs.
        hashed_text isofmt e \<noteq> hashed_text isofmt f \<and>
        H (hashed_text isofmt e) = H (hashed_text isofmt f)) \<or>
    (\<exists>e \<in> set (es @ fs). H (hashed_text isofmt e) = GENESIS_PREV)"
  using assms(1-3)
proof (induction es arbitrary: fs p rule: rev_induct)
  case Nil
  then show ?case by (cases fs rule: rev_cases) (auto simp: walk_snoc_True)
next
  case (snoc e es)
  show ?case
  proof (cases fs rule: rev_cases)
    case Nil
    with snoc.prems show ?thesis by (auto simp: walk_snoc_True)
  next
    case (snoc fs' f)
    let ?w = "\<lambda>xs. walk (compute_entry_hash H isofmt) xs (Some GENESIS_PREV)"
    have we: "?w es = (True, None, ae_prev_hash e)" and wf: "?w fs' = (True, None, ae_prev_hash f)"
      and H: "H (hashed_text isofmt e) = H (hashed_text isofmt f)"
      using snoc.prems snoc by (auto simp: walk_snoc_True)
    show ?thesis
    proof (cases "hashed_text isofmt e = hashed_text isofmt f")
      case False
      with H snoc show ?thesis by auto
    next
      case True
      then have c: "content e = content f \<and> or_empty (ae_prev_hash e) = or_empty (ae_prev_hash f)"
        using snoc.prems(3) snoc iso by (intro canonical_inj) auto
      with walk_prev_Some [OF we] walk_prev_Some [OF wf] have "ae_prev_hash e = ae_prev_hash f"
        by auto
      with snoc.IH [OF we, of fs'] wf snoc.prems(3) snoc c show ?thesis by auto
    qed
  qed
qed

text \<open>
  C12. Tamper evidence. If two chains both verify and end in the same digest, then every row holds
  the same hashed content in both (so nothing before the tip was edited, removed, inserted or
  reordered), unless two rows of the two chains have different hashed texts with one digest, or a row's
  digest is the genesis value. The hypotheses on \<open>isoformat\<close> are its documented ones (distinct
  instants print differently, on one line); field values contain no newline.
\<close>

theorem audit_tamper_evident:
  assumes "fst (verify_chain H isofmt es)" and "fst (verify_chain H isofmt fs)"
    and "es \<noteq> []" and "fs \<noteq> []" and "ae_entry_hash (last es) = ae_entry_hash (last fs)"
    and "\<forall>e \<in> set (es @ fs). newline_free e"
    and "inj isofmt" and "\<forall>t. newline \<notin> set (isofmt t)"
  shows "map content es = map content fs \<or>
    (\<exists>e \<in> set es. \<exists>f \<in> set fs.
        hashed_text isofmt e \<noteq> hashed_text isofmt f \<and>
        H (hashed_text isofmt e) = H (hashed_text isofmt f)) \<or>
    (\<exists>e \<in> set (es @ fs). H (hashed_text isofmt e) = GENESIS_PREV)"
proof -
  let ?w = "\<lambda>xs. walk (compute_entry_hash H isofmt) xs (Some GENESIS_PREV)"
  obtain p q where p: "?w es = (True, None, p)" and q: "?w fs = (True, None, q)"
    using assms(1,2) by (auto simp: verify_chain_ok)
  moreover have "p = q"
    using walk_True_last [OF p] walk_True_last [OF q] assms(3-5) by simp
  ultimately show ?thesis
    using chains_agree assms(6-8) by blast
qed

definition sample_chain :: audit_table where
  "sample_chain = [next_entry (\<lambda>s. ''h'' @ s) py_str_int sample_request []]"

lemma sample_chain_chained: "chained sample_chain = sample_chain"
  using chained_snoc [of "[]" "\<lambda>s. ''h'' @ s" py_str_int sample_request]
  by (simp add: sample_chain_def chained_def)

lemma sample_chain_ok: "fst (verify_chain (\<lambda>s. ''h'' @ s) py_str_int sample_chain)"
  using audit_ok_snoc [of "\<lambda>s. ''h'' @ s" py_str_int "[]" sample_request] sample_chain_chained
  by (simp add: audit_ok_def sample_chain_def) (simp add: verify_chain_def chained_def)

theorem audit_tamper_evident_witness:
  "map content sample_chain = map content sample_chain \<or>
    (\<exists>e \<in> set sample_chain. \<exists>f \<in> set sample_chain.
        hashed_text py_str_int e \<noteq> hashed_text py_str_int f \<and>
        ''h'' @ hashed_text py_str_int e = ''h'' @ hashed_text py_str_int f) \<or>
    (\<exists>e \<in> set (sample_chain @ sample_chain). ''h'' @ hashed_text py_str_int e = GENESIS_PREV)"
proof (rule audit_tamper_evident [where H = "\<lambda>s. ''h'' @ s"])
  show "fst (verify_chain (\<lambda>s. ''h'' @ s) py_str_int sample_chain)" by (rule sample_chain_ok)
  show "fst (verify_chain (\<lambda>s. ''h'' @ s) py_str_int sample_chain)" by (rule sample_chain_ok)
  show "\<forall>e \<in> set (sample_chain @ sample_chain). newline_free e"
    by (simp add: sample_chain_def newline_free_def newline_def next_entry_def chained_def
        sample_request_def GENESIS_PREV_def Let_def)
  show "inj py_str_int" by (rule injI) (simp add: py_str_int_inj)
  show "\<forall>t. newline \<notin> set (py_str_int t)" by (simp add: newline_def py_str_int_no_newline)
qed (simp_all add: sample_chain_def)

lemma filter_le_takeWhile:
  "sorted (map f xs) \<Longrightarrow> filter (\<lambda>x. f x \<le> n) xs = takeWhile (\<lambda>x. f x \<le> (n :: int)) xs"
proof (induction xs)
  case Nil
  then show ?case by simp
next
  case (Cons x xs)
  show ?case
  proof (cases "f x \<le> n")
    case True
    with Cons show ?thesis by simp
  next
    case False
    with Cons.prems have "\<forall>y \<in> set xs. \<not> f y \<le> n" by auto
    with False show ?thesis by (simp add: filter_empty_conv)
  qed
qed

lemma verify_prefix: "fst (verify_chain H isofmt (es @ fs)) \<Longrightarrow> fst (verify_chain H isofmt es)"
  by (auto simp: verify_chain_def walk_append split: prod.splits if_splits bool.splits)

text \<open>
  What verification cannot see: removing the newest rows. Every table obtained from a
  verifying one by deleting all rows numbered above \<open>n\<close> verifies again.
\<close>
theorem audit_truncation_undetected:
  assumes "rep_ok (verify_audit_chain H isofmt t)"
  shows "rep_ok (verify_audit_chain H isofmt
    (filter (\<lambda>e. case ae_seq e of None \<Rightarrow> True | Some i \<Rightarrow> i \<le> n) t))"
proof -
  let ?keep = "\<lambda>e. case ae_seq e of None \<Rightarrow> True | Some i \<Rightarrow> i \<le> n"
  let ?f = "\<lambda>e. the (ae_seq e)"
  have "filter (\<lambda>e. ae_seq e \<noteq> None) (filter ?keep t) =
      filter (\<lambda>e. ?f e \<le> n) (filter (\<lambda>e. ae_seq e \<noteq> None) t)"
    by (auto simp: intro!: filter_cong split: option.splits)
  then have "chained (filter ?keep t) = filter (\<lambda>e. ?f e \<le> n) (chained t)"
    by (simp add: chained_def filter_sort)
  also have "\<dots> = takeWhile (\<lambda>e. ?f e \<le> n) (chained t)"
    by (rule filter_le_takeWhile) (simp add: chained_def)
  finally have "chained t = chained (filter ?keep t) @ dropWhile (\<lambda>e. ?f e \<le> n) (chained t)"
    by simp
  with assms show ?thesis
    using verify_prefix [of H isofmt "chained (filter ?keep t)"]
    by (auto simp: verify_audit_chain_def split: prod.splits) (metis fst_conv)
qed

theorem audit_truncation_undetected_witness:
  "rep_ok (verify_audit_chain (\<lambda>s. ''h'' @ s) py_str_int
    (filter (\<lambda>e. case ae_seq e of None \<Rightarrow> True | Some i \<Rightarrow> i \<le> 0) sample_chain))"
  by (rule audit_truncation_undetected)
    (use sample_chain_ok in \<open>auto simp: verify_audit_chain_def sample_chain_chained split: prod.splits\<close>)

subsection \<open>Migration\<close>

lemma seq_number_from: "map ae_seq (number_from i es) = map Some [i..i + int (length es) - 1]"
proof (induction i es rule: number_from.induct)
  case (1 i)
  then show ?case by simp
next
  case (2 i e es)
  have "[i..i + int (length (e # es)) - 1] = i # [i + 1..i + 1 + int (length es) - 1]"
    by (subst upto_rec1) (auto simp: algebra_simps)
  with 2 show ?case by simp
qed

lemma id_number_from: "map ae_id (number_from i es) = map ae_id es"
  by (induction i es rule: number_from.induct) auto

lemma id_relink: "map ae_id (relink H isofmt p es) = map ae_id es"
  by (induction H isofmt p es rule: relink.induct) (auto simp: Let_def)

lemma chained_sorted_id:
  assumes "\<forall>e \<in> set t. ae_seq e \<noteq> None" and "sorted (map (\<lambda>e. the (ae_seq e)) t)"
  shows "chained t = t"
proof -
  have "filter (\<lambda>e. ae_seq e \<noteq> None) t = t" using assms(1) by simp
  then show ?thesis unfolding chained_def using assms(2) by (simp add: sorted_sort_id sort_key_id_if_sorted)
qed

lemma rechain_chained:
  "chained (filter (\<lambda>e. ae_seq e = None) t @ relink H isofmt p (chained t)) =
   relink H isofmt p (chained t)"
proof -
  let ?r = "relink H isofmt p (chained t)"
  have "set (map ae_seq ?r) = set (map ae_seq (chained t))" by (simp only: seq_relink)
  then have "\<forall>e \<in> set ?r. ae_seq e \<noteq> None" by (force simp: set_chained)
  moreover have "map (the \<circ> ae_seq) ?r = map (the \<circ> ae_seq) (chained t)"
    using seq_relink [of H isofmt p "chained t"] by (metis map_map)
  then have "sorted (map (\<lambda>e. the (ae_seq e)) ?r)"
    by (simp add: chained_def comp_def)
  ultimately have "chained ?r = ?r" by (rule chained_sorted_id)
  moreover have "chained (filter (\<lambda>e. ae_seq e = None) t @ xs) = chained xs" for xs
    by (auto simp: chained_def intro!: arg_cong [where f = "sort_key _"] simp: filter_empty_conv)
  ultimately show ?thesis by metis
qed

text \<open>
  The migration of the chain to the form that covers the client address never blesses a
  tampered table: it rewrites hashes only when the old chain verifies, and then every row keeps
  its content and the new chain verifies; a table that verifies under neither form is refused
  and left exactly as it was, with the version marker; in every other case no row changes.
\<close>

theorem rechain_verifies_first:
  assumes "rechain_audit_log H isofmt stored t = (st, t', m)"
  shows "case st of
      Rechained n \<Rightarrow>
        fst (verify_chain_v1 H isofmt (chained t)) \<and> fst (verify_chain H isofmt (chained t')) \<and>
        map content (chained t') = map content (chained t) \<and> n = length (chained t)
    | RRefused b n \<Rightarrow>
        t' = t \<and> m = stored \<and> \<not> fst (verify_chain_v1 H isofmt (chained t)) \<and>
        \<not> fst (verify_chain H isofmt (chained t)) \<and> verify_chain_v1 H isofmt (chained t) = (False, b)
    | _ \<Rightarrow> t' = t"
  using assms
  by (auto simp: rechain_audit_log_def Let_def rechain_chained verify_relink content_relink
      split: if_splits prod.splits bool.splits)

theorem rechain_verifies_first_witness:
  "case RRefused (Some 1) 1 of
      Rechained n \<Rightarrow>
        fst (verify_chain_v1 (\<lambda>s. []) py_str_int (chained (number_from 1 sample_chain))) \<and>
        fst (verify_chain (\<lambda>s. []) py_str_int (chained (number_from 1 sample_chain))) \<and>
        map content (chained (number_from 1 sample_chain)) =
          map content (chained (number_from 1 sample_chain)) \<and>
        n = length (chained (number_from 1 sample_chain))
    | RRefused b n \<Rightarrow>
        number_from 1 sample_chain = number_from 1 sample_chain \<and> ([] :: string) = [] \<and>
        \<not> fst (verify_chain_v1 (\<lambda>s. []) py_str_int (chained (number_from 1 sample_chain))) \<and>
        \<not> fst (verify_chain (\<lambda>s. []) py_str_int (chained (number_from 1 sample_chain))) \<and>
        verify_chain_v1 (\<lambda>s. []) py_str_int (chained (number_from 1 sample_chain)) = (False, b)
    | _ \<Rightarrow> number_from 1 sample_chain = number_from 1 sample_chain"
  by (rule rechain_verifies_first)
    (simp add: rechain_audit_log_def sample_chain_def next_entry_def chained_def Let_def
      verify_chain_v1_def verify_chain_def compute_entry_hash_v1_def compute_entry_hash_def
      CHAIN_VERSION_def py_int_of_string_def py_strip_def is_space_def digit_val_def)

lemma number_from_length [simp]: "length (number_from i es) = length es"
  by (induction i es rule: number_from.induct) auto

text \<open>
  Chaining a history that predates the chain numbers its rows from 1 without gaps, keeps every
  row, and yields a chain that verifies; a table that already has a chained row is not touched.
\<close>

theorem backfill_audit_chain_verifies:
  assumes "backfill_audit_chain by_id H isofmt t = (t', n)"
  shows "if \<forall>e \<in> set t. ae_seq e = None
    then n = length t \<and> fst (verify_chain H isofmt (chained t')) \<and>
      map ae_seq t' = map Some [1..int n] \<and> mset (map ae_id t') = mset (map ae_id t)
    else t' = t \<and> n = 0"
proof (cases "\<forall>e \<in> set t. ae_seq e = None")
  case False
  with assms show ?thesis by (auto simp: backfill_audit_chain_def list_ex_iff)
next
  case True
  let ?rows = "sort_key ae_timestamp (sort_key (\<lambda>e. by_id (ae_id e)) t)"
  let ?num = "number_from 1 ?rows"
  have t': "t' = relink H isofmt (Some GENESIS_PREV) ?num" and n: "n = length t"
    using assms True by (auto simp: backfill_audit_chain_def list_ex_iff Let_def)
  have seqs: "map ae_seq t' = map Some [1..int n]"
    by (simp add: t' n seq_relink seq_number_from)
  have "\<forall>e \<in> set t'. ae_seq e \<noteq> None"
    using arg_cong [OF seqs, of set] by auto
  moreover have "map (\<lambda>e. the (ae_seq e)) t' = [1..int n]"
    using arg_cong [OF seqs, of "map the"] by (simp add: comp_def)
  ultimately have "chained t' = t'" by (intro chained_sorted_id) simp_all
  then show ?thesis
    using True n seqs
    by (simp add: t' verify_relink id_relink id_number_from)
qed

theorem backfill_audit_chain_verifies_witness:
  "if \<forall>e \<in> set [(hd sample_chain)\<lparr>ae_seq := None\<rparr>]. ae_seq e = None
    then (1::nat) = length [(hd sample_chain)\<lparr>ae_seq := None\<rparr>] \<and>
      fst (verify_chain (\<lambda>s. []) py_str_int (chained
        (relink (\<lambda>s. []) py_str_int (Some GENESIS_PREV)
          (number_from 1 [(hd sample_chain)\<lparr>ae_seq := None\<rparr>])))) \<and>
      map ae_seq (relink (\<lambda>s. []) py_str_int (Some GENESIS_PREV)
          (number_from 1 [(hd sample_chain)\<lparr>ae_seq := None\<rparr>])) = map Some [1..int 1] \<and>
      mset (map ae_id (relink (\<lambda>s. []) py_str_int (Some GENESIS_PREV)
          (number_from 1 [(hd sample_chain)\<lparr>ae_seq := None\<rparr>]))) =
        mset (map ae_id [(hd sample_chain)\<lparr>ae_seq := None\<rparr>])
    else relink (\<lambda>s. []) py_str_int (Some GENESIS_PREV)
          (number_from 1 [(hd sample_chain)\<lparr>ae_seq := None\<rparr>]) =
        [(hd sample_chain)\<lparr>ae_seq := None\<rparr>] \<and> (1::nat) = 0"
  by (rule backfill_audit_chain_verifies [of "\<lambda>_. 0"]) (simp add: backfill_audit_chain_def)

end
