(* ===== verification/Config.thy ===== *)
theory Config
  imports Prelude "HOL-Library.AList"
begin

text \<open>
  The configuration reads the policy modules make: \<open>config_service.get\<close> and
  \<open>config_service.get_bool\<close> over the stored rows, the fall-back to the settings object, and
  the integer reader each policy module carries (\<open>_int\<close>). The store holds plaintext values:
  decryption and the resolution of external secret references happen before them. A store
  that cannot be read raises, which is \<open>None\<close> here.
\<close>

record config =
  cfg_readable :: bool
  cfg_store :: "(string \<times> string) list"
  cfg_settings :: "(string \<times> pyval) list"

definition getattr_setting :: "config \<Rightarrow> string \<Rightarrow> pyval \<Rightarrow> pyval" where
  "getattr_setting cfg key dflt = (case map_of (cfg_settings cfg) key of None \<Rightarrow> dflt | Some v \<Rightarrow> v)"

definition config_get :: "config \<Rightarrow> string \<Rightarrow> string \<Rightarrow> string option" where
  "config_get cfg key dflt =
     (if cfg_readable cfg
      then Some (case map_of (cfg_store cfg) key of None \<Rightarrow> dflt | Some s \<Rightarrow> s)
      else None)"

definition config_get_bool :: "config \<Rightarrow> string \<Rightarrow> bool \<Rightarrow> bool option" where
  "config_get_bool cfg key dflt =
     (case config_get cfg key [] of
        None \<Rightarrow> None
      | Some val \<Rightarrow>
          Some (if val \<noteq> [] then py_lower (py_strip val) \<in> {''1'', ''true'', ''yes'', ''on''}
                else py_bool (getattr_setting cfg key (PBool dflt))))"

text \<open>\<open>config_service.set\<close>: the row of the key is updated, or inserted; a failing store raises.\<close>

definition config_set :: "string \<Rightarrow> string \<Rightarrow> config \<Rightarrow> config option" where
  "config_set key v cfg = (if cfg_readable cfg then Some (cfg\<lparr> cfg_store := AList.update key v (cfg_store cfg) \<rparr>) else None)"

lemma config_get_set:
  "config_set key v cfg = Some cfg' \<Longrightarrow> config_get cfg' k d = (if k = key then Some v else config_get cfg k d)"
  by (auto simp: config_set_def config_get_def update_conv' split: if_splits)

lemma config_set_other:
  "config_set key v cfg = Some cfg' \<Longrightarrow> cfg_readable cfg' = cfg_readable cfg \<and> getattr_setting cfg' = getattr_setting cfg"
  by (auto simp: config_set_def getattr_setting_def fun_eq_iff split: if_splits)

text \<open>\<open>_flag\<close> and \<open>_int\<close> of \<open>expiry_policy\<close>: an unreadable store falls back.\<close>

definition policy_flag :: "config \<Rightarrow> string \<Rightarrow> bool \<Rightarrow> bool" where
  "policy_flag cfg key dflt = (case config_get_bool cfg key dflt of None \<Rightarrow> dflt | Some b \<Rightarrow> b)"

definition policy_int :: "config \<Rightarrow> string \<Rightarrow> int \<Rightarrow> int" where
  "policy_int cfg key dflt =
     (let raw = (case config_get cfg key [] of None \<Rightarrow> [] | Some s \<Rightarrow> s);
          v = (if raw = [] then getattr_setting cfg key (PInt dflt) else PStr raw)
      in case py_int v of None \<Rightarrow> dflt | Some i \<Rightarrow> i)"

text \<open>An empty store over empty settings: every read yields its literal default.\<close>

definition default_config :: config where
  "default_config = \<lparr> cfg_readable = True, cfg_store = [], cfg_settings = [] \<rparr>"

lemma policy_int_unreadable:
  "\<not> cfg_readable cfg \<Longrightarrow> map_of (cfg_settings cfg) key = None \<Longrightarrow> policy_int cfg key d = d"
  by (simp add: policy_int_def config_get_def getattr_setting_def)

lemma policy_int_stored:
  "cfg_readable cfg \<Longrightarrow> map_of (cfg_store cfg) key = Some (py_str_int i) \<Longrightarrow> policy_int cfg key d = i"
  by (simp add: policy_int_def config_get_def py_int_of_py_str Let_def)

lemma policy_flag_unreadable: "\<not> cfg_readable cfg \<Longrightarrow> policy_flag cfg key d = d"
  by (simp add: policy_flag_def config_get_bool_def config_get_def)

end
