(* ===== verification/Agent_Signing.thy ===== *)
theory Agent_Signing
  imports Prelude
begin

text \<open>
  \<open>services/agent_signing.py\<close>: the canonical form of a signed agent request, base64 decoding of
  keys and signatures, verification and the freshness window. The digest \<open>H\<close> (\<open>sha256\<close>,
  \<open>hexdigest\<close>) and the Ed25519 operations of the cryptography package are parameters: \<open>edkey\<close>
  accepts the raw bytes of a valid public key, \<open>edverify\<close> checks a raw signature.

  A character of the model is a code point up to U+00FF, which is what an HTTP server decodes
  header bytes to; the JSON encoder is that of \<open>json.dumps\<close> (\<open>ensure_ascii\<close>) on those: everything
  outside the printable ASCII range becomes an escape. A \<open>path\<close> with a higher code point is out
  of the model's reach. \<open>str.upper\<close> is modelled on ASCII letters: the methods of HTTP are.
\<close>

section \<open>JSON text of a string\<close>

definition hex_digit :: "nat \<Rightarrow> char" where
  "hex_digit d = (if d < 10 then char_of (48 + d) else char_of (87 + d))"

definition short_escape :: "char \<Rightarrow> char option" where
  "short_escape c =
     (if c = CHR 0x22 then Some (CHR 0x22)
      else if c = CHR 0x5C then Some (CHR 0x5C)
      else if c = CHR 0x0A then Some (CHR ''n'')
      else if c = CHR 0x0D then Some (CHR ''r'')
      else if c = CHR 0x09 then Some (CHR ''t'')
      else if c = CHR 0x08 then Some (CHR ''b'')
      else if c = CHR 0x0C then Some (CHR ''f'')
      else None)"

definition json_escape :: "char \<Rightarrow> string" where
  "json_escape c =
     (case short_escape c of
        Some e \<Rightarrow> [CHR 0x5C, e]
      | None \<Rightarrow>
          (let n = of_char c :: nat in
           if n < 32 \<or> 126 < n then [CHR 0x5C, CHR ''u'', CHR ''0'', CHR ''0'', hex_digit (n div 16), hex_digit (n mod 16)]
           else [c]))"

definition json_string :: "string \<Rightarrow> string" where
  "json_string s = CHR 0x22 # concat (map json_escape s) @ [CHR 0x22]"

fun json_members :: "(string \<times> string) list \<Rightarrow> string" where
  "json_members [] = []"
| "json_members [(k, v)] = json_string k @ '':'' @ json_string v"
| "json_members ((k, v) # m # ms) = json_string k @ '':'' @ json_string v @ '','' @ json_members (m # ms)"

text \<open>\<open>json.dumps(v)\<close> with the default separators.\<close>

fun json_text :: "json \<Rightarrow> string" where
  "json_text JNull = ''null''"
| "json_text (JBool b) = (if b then ''true'' else ''false'')"
| "json_text (JInt i) = py_str_int i"
| "json_text (JStr s) = json_string s"
| "json_text (JList xs) = ''['' @ commas (map json_text xs) @ '']''"
| "json_text (JObj d) =
     ''{'' @ commas (map (\<lambda>(k, v). json_string k @ '': '' @ json_text v) d) @ ''}''"

text \<open>\<open>serialize\<close> of a flat object whose keys are already sorted.\<close>

definition serialize :: "(string \<times> string) list \<Rightarrow> string" where
  "serialize members = ''{'' @ json_members members @ ''}''"

definition upper_char :: "char \<Rightarrow> char" where
  "upper_char c =
     (let n = of_char c :: nat in if 97 \<le> n \<and> n \<le> 122 then char_of (n - 32) else c)"

definition py_upper :: "string \<Rightarrow> string" where
  "py_upper s = map upper_char s"

record request =
  rq_agent_id :: string
  rq_timestamp :: string
  rq_nonce :: string
  rq_audience :: string
  rq_method :: string
  rq_path :: string
  rq_body :: string

definition canonical_request :: "(string \<Rightarrow> string) \<Rightarrow> request \<Rightarrow> string" where
  "canonical_request H r =
     serialize
       [(''aud'', rq_audience r), (''id'', rq_agent_id r), (''method'', py_upper (rq_method r)),
        (''nonce'', rq_nonce r), (''path'', rq_path r), (''sha256'', H (rq_body r)),
        (''ts'', rq_timestamp r)]"

section \<open>Base64\<close>

definition b64_val :: "char \<Rightarrow> nat option" where
  "b64_val c =
     (let n = of_char c :: nat in
      if 65 \<le> n \<and> n \<le> 90 then Some (n - 65)
      else if 97 \<le> n \<and> n \<le> 122 then Some (n - 71)
      else if 48 \<le> n \<and> n \<le> 57 then Some (n + 4)
      else if c = CHR ''+'' then Some 62
      else if c = CHR ''/'' then Some 63
      else None)"

text \<open>\<open>base64.b64decode(s, validate=True)\<close>; \<open>None\<close> is the exception.\<close>

fun b64decode :: "string \<Rightarrow> string option" where
  "b64decode [] = Some []"
| "b64decode (a # b # c # d # rest) =
     (case (b64_val a, b64_val b) of
        (Some w, Some x) \<Rightarrow>
          (if c = CHR ''='' then
             (if d = CHR ''='' \<and> rest = [] then Some [char_of (w * 4 + x div 16)] else None)
           else
             (case b64_val c of
                None \<Rightarrow> None
              | Some y \<Rightarrow>
                  (if d = CHR ''='' then
                     (if rest = []
                      then Some [char_of (w * 4 + x div 16), char_of ((x mod 16) * 16 + y div 4)]
                      else None)
                   else
                     (case (b64_val d, b64decode rest) of
                        (Some z, Some bytes) \<Rightarrow>
                          Some (char_of (w * 4 + x div 16) # char_of ((x mod 16) * 16 + y div 4) #
                                char_of ((y mod 4) * 64 + z) # bytes)
                      | _ \<Rightarrow> None))))
      | _ \<Rightarrow> None)"
| "b64decode _ = None"

section \<open>Keys and signatures\<close>

definition SIGNATURE_WINDOW_SECONDS :: int where "SIGNATURE_WINDOW_SECONDS = 60"
definition PUBLIC_KEY_BYTES :: nat where "PUBLIC_KEY_BYTES = 32"
definition SIGNATURE_BYTES :: nat where "SIGNATURE_BYTES = 64"

text \<open>The message of the \<open>SignatureError\<close>, or the parsed key.\<close>

definition load_public_key :: "(string \<Rightarrow> 'k option) \<Rightarrow> string \<Rightarrow> string + 'k" where
  "load_public_key edkey public_b64 =
     (case b64decode public_b64 of
        None \<Rightarrow> Inl ''public key is not valid base64''
      | Some raw \<Rightarrow>
          (if length raw \<noteq> PUBLIC_KEY_BYTES
           then Inl (''public key must be '' @ show_nat PUBLIC_KEY_BYTES @ '' raw bytes, got '' @
                     show_nat (length raw))
           else (case edkey raw of
                   None \<Rightarrow> Inl ''public key is not a valid Ed25519 key''
                 | Some k \<Rightarrow> Inr k)))"

definition verify_bytes ::
  "(string \<Rightarrow> 'k option) \<Rightarrow> ('k \<Rightarrow> string \<Rightarrow> string \<Rightarrow> bool) \<Rightarrow> string \<Rightarrow> string \<Rightarrow> string \<Rightarrow> bool" where
  "verify_bytes edkey edverify public_b64 signature_b64 message =
     (case (load_public_key edkey public_b64, b64decode signature_b64) of
        (Inr public, Some signature) \<Rightarrow>
          (if length signature \<noteq> SIGNATURE_BYTES then False
           else edverify public signature message)
      | _ \<Rightarrow> False)"

definition timestamp_fresh :: "instant \<Rightarrow> string \<Rightarrow> bool" where
  "timestamp_fresh now timestamp =
     (case py_int_of_string (py_strip timestamp) of
        None \<Rightarrow> False
      | Some ts \<Rightarrow> \<bar>now - seconds ts\<bar> \<le> seconds SIGNATURE_WINDOW_SECONDS)"

definition verify_request ::
  "(string \<Rightarrow> string) \<Rightarrow> (string \<Rightarrow> 'k option) \<Rightarrow> ('k \<Rightarrow> string \<Rightarrow> string \<Rightarrow> bool) \<Rightarrow>
   instant \<Rightarrow> string \<Rightarrow> request \<Rightarrow> string \<Rightarrow> bool" where
  "verify_request H edkey edverify now public_b64 r signature =
     (if \<not> timestamp_fresh now (rq_timestamp r) then False
      else verify_bytes edkey edverify public_b64 signature (canonical_request H r))"

section \<open>The canonical form determines the request\<close>

lemma short_escape_inj: "short_escape c = Some e \<Longrightarrow> short_escape d = Some e \<Longrightarrow> c = d"
  by (auto simp: short_escape_def split: if_splits)

lemma short_escape_not_u: "short_escape c \<noteq> Some (CHR ''u'')"
  by (auto simp: short_escape_def split: if_splits)

lemma short_escape_backslash: "short_escape c = None \<Longrightarrow> c \<noteq> CHR 0x5C \<and> c \<noteq> CHR 0x22"
  by (auto simp: short_escape_def)

lemma hex_digit_inj: "a < 16 \<Longrightarrow> b < 16 \<Longrightarrow> hex_digit a = hex_digit b \<Longrightarrow> a = b"
proof -
  assume "a < 16" "b < 16" "hex_digit a = hex_digit b"
  then have "(of_char (hex_digit a) :: nat) = of_char (hex_digit b)" by simp
  with \<open>a < 16\<close> \<open>b < 16\<close> show "a = b" by (auto simp: hex_digit_def split: if_splits)
qed

lemma json_escape_prefix_free:
  assumes "json_escape c @ x = json_escape d @ y"
  shows "c = d \<and> x = y"
proof -
  let ?n = "\<lambda>c :: char. of_char c :: nat"
  have hex: "c = d" if "hex_digit (?n c div 16) = hex_digit (?n d div 16)"
    "hex_digit (?n c mod 16) = hex_digit (?n d mod 16)"
  proof -
    have "?n c div 16 = ?n d div 16" "?n c mod 16 = ?n d mod 16"
      using that nat_of_char_less_256 [of c] nat_of_char_less_256 [of d]
      by (auto intro!: hex_digit_inj simp: less_mult_imp_div_less)
    then have "?n c = ?n d" by (metis div_mult_mod_eq)
    then show ?thesis by simp
  qed
  have "c = d"
    using assms hex
    by (auto simp: json_escape_def Let_def short_escape_not_u short_escape_not_u [symmetric]
        split: option.splits if_splits dest: short_escape_inj short_escape_backslash)
  with assms show ?thesis by simp
qed

lemma json_escape_no_quote: "json_escape c @ x \<noteq> CHR 0x22 # y"
  by (auto simp: json_escape_def Let_def split: option.splits if_splits dest: short_escape_backslash)

lemma json_body_inj:
  "concat (map json_escape s) @ CHR 0x22 # x = concat (map json_escape t) @ CHR 0x22 # y \<Longrightarrow>
   s = t \<and> x = y"
proof (induction s arbitrary: t)
  case Nil
  show ?case
  proof (cases t)
    case Nil
    then show ?thesis using Nil.prems by simp
  next
    case (Cons d t')
    then have "json_escape d @ (concat (map json_escape t') @ CHR 0x22 # y) = CHR 0x22 # x"
      using Nil.prems by simp
    then show ?thesis using json_escape_no_quote by blast
  qed
next
  case (Cons c s)
  show ?case
  proof (cases t)
    case Nil
    then have "json_escape c @ (concat (map json_escape s) @ CHR 0x22 # x) = CHR 0x22 # y"
      using Cons.prems by simp
    then show ?thesis using json_escape_no_quote by blast
  next
    case (Cons d t')
    then have "json_escape c @ (concat (map json_escape s) @ CHR 0x22 # x) =
        json_escape d @ (concat (map json_escape t') @ CHR 0x22 # y)"
      using Cons.prems by simp
    then have "c = d" "concat (map json_escape s) @ CHR 0x22 # x = concat (map json_escape t') @ CHR 0x22 # y"
      using json_escape_prefix_free by blast+
    then show ?thesis using Cons.IH [of t'] Cons by simp
  qed
qed

lemma json_string_inj: "json_string s @ x = json_string t @ y \<Longrightarrow> s = t \<and> x = y"
  using json_body_inj [of s x t y] by (simp add: json_string_def)

lemma json_members_inj:
  "map fst ms = map fst ns \<Longrightarrow> json_members ms @ x = json_members ns @ x \<Longrightarrow> ms = ns"
proof (induction ms arbitrary: ns rule: json_members.induct)
  case 1
  then show ?case by simp
next
  case (2 k v)
  then obtain v' where "ns = [(k, v')]" by (cases ns) auto
  with 2 json_string_inj [of v "[]" v' "[]"] show ?case by auto
next
  case (3 k v m ms)
  then obtain v' n ns' where ns: "ns = (k, v') # n # ns'" by (cases ns; cases "tl ns") auto
  with "3.prems"(2) have "json_string v @ CHR '','' # json_members (m # ms) @ x =
      json_string v' @ CHR '','' # json_members (n # ns') @ x" by simp
  then have "v = v'" "json_members (m # ms) @ x = json_members (n # ns') @ x"
    by (auto dest: json_string_inj)
  with "3.IH" [of "n # ns'"] "3.prems"(1) ns show ?case by simp
qed

text \<open>
  C6. A signature covers everything that decides what a request does: two requests have the same
  canonical bytes only if they agree on the agent, the timestamp, the nonce, the audience, the
  path, the method up to ASCII letter case and the digest of the body, whatever characters up to
  U+00FF (quotes, commas, braces, control and accented characters) the fields contain.
\<close>
theorem canonical_request_binds:
  "canonical_request H r = canonical_request H q \<longleftrightarrow>
   rq_agent_id r = rq_agent_id q \<and> rq_timestamp r = rq_timestamp q \<and> rq_nonce r = rq_nonce q \<and>
   rq_audience r = rq_audience q \<and> rq_path r = rq_path q \<and>
   py_upper (rq_method r) = py_upper (rq_method q) \<and> H (rq_body r) = H (rq_body q)"
proof
  assume "canonical_request H r = canonical_request H q"
  then have "[(''aud'', rq_audience r), (''id'', rq_agent_id r), (''method'', py_upper (rq_method r)),
        (''nonce'', rq_nonce r), (''path'', rq_path r), (''sha256'', H (rq_body r)),
        (''ts'', rq_timestamp r)] =
      [(''aud'', rq_audience q), (''id'', rq_agent_id q), (''method'', py_upper (rq_method q)),
        (''nonce'', rq_nonce q), (''path'', rq_path q), (''sha256'', H (rq_body q)),
        (''ts'', rq_timestamp q)]"
    unfolding canonical_request_def serialize_def
    by (intro json_members_inj [where x = "''}''"]) simp_all
  then show "rq_agent_id r = rq_agent_id q \<and> rq_timestamp r = rq_timestamp q \<and>
      rq_nonce r = rq_nonce q \<and> rq_audience r = rq_audience q \<and> rq_path r = rq_path q \<and>
      py_upper (rq_method r) = py_upper (rq_method q) \<and> H (rq_body r) = H (rq_body q)"
    by simp
qed (simp add: canonical_request_def)

lemma timestamp_fresh_window:
  assumes "timestamp_fresh t ts" and "timestamp_fresh u ts"
  shows "\<bar>u - t\<bar> \<le> seconds 120"
  using assms
  by (auto simp: timestamp_fresh_def SIGNATURE_WINDOW_SECONDS_def seconds_def split: option.splits)

lemma verify_request_fresh:
  "verify_request H edkey edverify now key r s \<Longrightarrow> timestamp_fresh now (rq_timestamp r)"
  by (simp add: verify_request_def split: if_splits)

end
