(* ===== verification/Agent_Guard.thy ===== *)
theory Agent_Guard
  imports Config Agent_Signing
begin

text \<open>
  \<open>services/agent_guard.py\<close>: the throttles of the agent API. The nonce table is the request
  counter; a separate table holds failed enrolments. Both windows slide, and a refusal says
  when the caller is under the cap again.
\<close>

section \<open>Definitions\<close>

definition DEFAULT_MAX_REQUESTS_PER_WINDOW :: int where "DEFAULT_MAX_REQUESTS_PER_WINDOW = 240"
definition REQUEST_WINDOW_SECONDS :: int where "REQUEST_WINDOW_SECONDS = 60"
definition DEFAULT_ENROLL_MAX_PER_IP :: int where "DEFAULT_ENROLL_MAX_PER_IP = 10"
definition DEFAULT_ENROLL_MAX_GLOBAL :: int where "DEFAULT_ENROLL_MAX_GLOBAL = 200"
definition DEFAULT_ENROLL_WINDOW_MINUTES :: int where "DEFAULT_ENROLL_WINDOW_MINUTES = 15"
definition DEFAULT_ENROLL_RETENTION_MINUTES :: int where "DEFAULT_ENROLL_RETENTION_MINUTES = 60"
definition MAX_ROWS_SCANNED :: int where "MAX_ROWS_SCANNED = 1000"

record throttled =
  th_retry_after :: int
  th_scope :: string

definition mk_throttled :: "int \<Rightarrow> string \<Rightarrow> throttled" where
  "mk_throttled retry_after scope = \<lparr> th_retry_after = max 1 retry_after, th_scope = scope \<rparr>"

text \<open>\<open>_cfg_int\<close>: blank text and anything that does not parse give the default.\<close>

definition guard_int :: "config \<Rightarrow> string \<Rightarrow> int \<Rightarrow> int" where
  "guard_int cfg key dflt =
     (case config_get cfg key [] of
        None \<Rightarrow> dflt
      | Some raw \<Rightarrow>
          (if py_strip raw = [] then dflt
           else (case py_int_of_string raw of None \<Rightarrow> dflt | Some i \<Rightarrow> i)))"

definition guard_enabled :: "config \<Rightarrow> bool" where
  "guard_enabled cfg = (case config_get_bool cfg ''agent_throttle_enabled'' True of None \<Rightarrow> True | Some b \<Rightarrow> b)"

definition retry_after_of :: "instant \<Rightarrow> int \<Rightarrow> instant \<Rightarrow> int" where
  "retry_after_of oldest window now =
     max 1 (py_trunc (of_int (oldest + window - now) / 1000000) + 1)"

definition request_window :: int where
  "request_window = seconds (min REQUEST_WINDOW_SECONDS (SIGNATURE_WINDOW_SECONDS * 4))"

record nonce_row =
  nr_agent :: string
  nr_nonce :: string
  nr_seen :: instant

definition request_cap :: "config \<Rightarrow> int \<Rightarrow> int" where
  "request_cap cfg slots =
     min (guard_int cfg ''agent_max_requests_per_minute'' DEFAULT_MAX_REQUESTS_PER_WINDOW * max 1 slots)
       MAX_ROWS_SCANNED"

definition in_window :: "string \<Rightarrow> instant \<Rightarrow> nonce_row list \<Rightarrow> nonce_row list" where
  "in_window agent_id now nonces =
     filter (\<lambda>r. nr_agent r = agent_id \<and> nr_seen r \<ge> now - request_window) nonces"

text \<open>\<open>check_request\<close>: \<open>Some\<close> is the raised refusal.\<close>

definition check_request :: "config \<Rightarrow> instant \<Rightarrow> string \<Rightarrow> int \<Rightarrow> nonce_row list \<Rightarrow> throttled option" where
  "check_request cfg now agent_id slots nonces =
     (if \<not> guard_enabled cfg \<or> agent_id = [] then None
      else if guard_int cfg ''agent_max_requests_per_minute'' DEFAULT_MAX_REQUESTS_PER_WINDOW \<le> 0
      then None
      else
        (let cap = request_cap cfg slots;
             stamps = take (nat cap) (sort (map nr_seen (in_window agent_id now nonces)))
         in if int (length stamps) \<ge> cap
            then Some (mk_throttled (retry_after_of (hd stamps) request_window now) ''agent'')
            else None))"

record attempt_row =
  at_ip :: string
  at_attempted :: instant

definition enroll_window :: "config \<Rightarrow> int" where
  "enroll_window cfg =
     minutes (guard_int cfg ''agent_enroll_window_minutes'' DEFAULT_ENROLL_WINDOW_MINUTES)"

definition check_enroll :: "config \<Rightarrow> instant \<Rightarrow> string \<Rightarrow> attempt_row list \<Rightarrow> throttled option" where
  "check_enroll cfg now ip attempts =
     (if \<not> guard_enabled cfg then None
      else
        (let window = enroll_window cfg;
             rows = take (nat MAX_ROWS_SCANNED)
               (sort_key at_attempted (filter (\<lambda>r. at_attempted r \<ge> now - window) attempts));
             ip_stamps = map at_attempted (filter (\<lambda>r. at_ip r = ip) rows);
             ip_cap = guard_int cfg ''agent_enroll_max_per_ip'' DEFAULT_ENROLL_MAX_PER_IP;
             global_cap = guard_int cfg ''agent_enroll_max_global'' DEFAULT_ENROLL_MAX_GLOBAL
         in if rows = [] then None
            else if ip \<noteq> [] \<and> ip_cap > 0 \<and> int (length ip_stamps) \<ge> ip_cap
            then Some (mk_throttled (retry_after_of (hd ip_stamps) window now) ''ip'')
            else if global_cap > 0 \<and> int (length rows) \<ge> global_cap
            then Some (mk_throttled (retry_after_of (at_attempted (hd rows)) window now) ''global'')
            else None))"

definition sweep_enroll_attempts :: "config \<Rightarrow> instant \<Rightarrow> attempt_row list \<Rightarrow> attempt_row list" where
  "sweep_enroll_attempts cfg now attempts =
     (let cutoff = now - minutes (guard_int cfg ''agent_enroll_retention_minutes''
                                    DEFAULT_ENROLL_RETENTION_MINUTES)
      in filter (\<lambda>r. \<not> at_attempted r < cutoff) attempts)"

definition record_enroll_failure :: "config \<Rightarrow> instant \<Rightarrow> string \<Rightarrow> attempt_row list \<Rightarrow> attempt_row list" where
  "record_enroll_failure cfg now ip attempts =
     (if \<not> guard_enabled cfg then attempts
      else sweep_enroll_attempts cfg now
             (attempts @ [\<lparr> at_ip = take 45 ip, at_attempted = now \<rparr>]))"

section \<open>Lemmas\<close>

lemma request_window_eq: "request_window = seconds 60"
  by (simp add: request_window_def REQUEST_WINDOW_SECONDS_def SIGNATURE_WINDOW_SECONDS_def)

lemma request_cap_le: "request_cap cfg slots \<le> 1000"
  by (simp add: request_cap_def MAX_ROWS_SCANNED_def)

lemma check_request_None_iff:
  assumes "guard_enabled cfg" and "agent_id \<noteq> []"
    and "guard_int cfg ''agent_max_requests_per_minute'' DEFAULT_MAX_REQUESTS_PER_WINDOW > 0"
  shows "check_request cfg now agent_id slots nonces = None \<longleftrightarrow>
    int (length (in_window agent_id now nonces)) < request_cap cfg slots"
  using assms by (auto simp: check_request_def Let_def)

lemma request_cap_pos:
  "guard_int cfg ''agent_max_requests_per_minute'' DEFAULT_MAX_REQUESTS_PER_WINDOW > 0 \<Longrightarrow>
   0 < request_cap cfg slots"
  by (simp add: request_cap_def MAX_ROWS_SCANNED_def)

lemma py_trunc_greater: "x < of_int (py_trunc x + 1)"
  using floor_correct [of x] le_of_int_ceiling [of x] by (auto simp: py_trunc_def simp del: le_of_int_ceiling)

lemma retry_after_enough: "oldest + window < now + seconds (retry_after_of oldest window now)"
proof -
  let ?d = "oldest + window - now"
  have "(of_int ?d :: rat) / 1000000 < of_int (py_trunc (of_int ?d / 1000000) + 1)"
    by (rule py_trunc_greater)
  then have "(of_int ?d :: rat) < of_int (py_trunc (of_int ?d / 1000000) + 1) * 1000000"
    by (simp add: field_simps)
  then have "(of_int ?d :: rat) < of_int ((py_trunc (of_int ?d / 1000000) + 1) * 1000000)" by simp
  then have "?d < (py_trunc (of_int ?d / 1000000) + 1) * 1000000"
    by (simp only: of_int_less_iff)
  moreover have "(py_trunc (of_int ?d / 1000000) + 1) * 1000000 \<le> seconds (retry_after_of oldest window now)"
    unfolding retry_after_of_def seconds_def by (rule mult_right_mono) simp_all
  ultimately show ?thesis by linarith
qed

lemma hd_sort_min: "xs \<noteq> [] \<Longrightarrow> hd (sort xs) \<in> set xs \<and> (\<forall>x \<in> set xs. hd (sort xs) \<le> (x :: int))"
proof -
  assume "xs \<noteq> []"
  then have "sort xs \<noteq> []" by (metis set_empty set_sort)
  then obtain y ys where s: "sort xs = y # ys" by (cases "sort xs") auto
  then have "sorted (y # ys)" "set xs = set (y # ys)" by (metis sorted_sort, metis set_sort)
  with s show ?thesis by auto
qed

text \<open>
  The throttle's answer is honest: when a request is refused and the agent has no more
  requests in the window than its cap, then once the announced number of seconds has passed, with
  no request in between, the check lets the agent through; and the delay is never longer than the
  window itself plus one second.
\<close>
theorem throttle_lifts_after_retry:
  assumes "check_request cfg now agent_id slots nonces = Some th"
    and "int (length (in_window agent_id now nonces)) \<le> request_cap cfg slots"
    and "\<forall>r \<in> set nonces. nr_seen r \<le> now"
  shows "check_request cfg (now + seconds (th_retry_after th)) agent_id slots nonces = None \<and>
    1 \<le> th_retry_after th \<and> th_retry_after th \<le> 61"
proof -
  let ?rows = "in_window agent_id now nonces"
  let ?stamps = "sort (map nr_seen ?rows)"
  have on: "guard_enabled cfg" "agent_id \<noteq> []"
    "guard_int cfg ''agent_max_requests_per_minute'' DEFAULT_MAX_REQUESTS_PER_WINDOW > 0"
    using assms(1) by (auto simp: check_request_def split: if_splits)
  note pos = request_cap_pos [OF on(3), of slots]
  have full: "int (length ?rows) = request_cap cfg slots"
    using assms(1,2) check_request_None_iff [OF on, of now slots nonces] by fastforce
  then have ne: "?rows \<noteq> []" using pos by auto
  have "nat (request_cap cfg slots) = length ?rows" using full by simp
  then have th: "th = mk_throttled (retry_after_of (hd ?stamps) request_window now) ''agent''"
    using assms(1) on full by (simp add: check_request_def Let_def)
  let ?o = "hd ?stamps" and ?later = "now + seconds (th_retry_after th)"
  have ra: "th_retry_after th = retry_after_of ?o request_window now"
    by (simp add: th mk_throttled_def retry_after_of_def)
  have o: "?o \<in> set (map nr_seen ?rows)" "\<forall>x \<in> set (map nr_seen ?rows). ?o \<le> x"
    using hd_sort_min [of "map nr_seen ?rows"] ne by auto
  then obtain r where r: "r \<in> set ?rows" "nr_seen r = ?o" by auto
  then have "now - request_window \<le> ?o" "?o \<le> now"
    using assms(3) by (auto simp: in_window_def)
  have gone: "r \<notin> set (in_window agent_id ?later nonces)"
    using retry_after_enough [of ?o request_window now] r(2) ra by (auto simp: in_window_def)
  have "1 \<le> th_retry_after th" by (simp add: ra retry_after_of_def)
  then have "now \<le> ?later" by (simp add: seconds_def)
  then have later: "in_window agent_id ?later nonces = filter (\<lambda>r. nr_seen r \<ge> ?later - request_window) ?rows"
    by (auto simp: in_window_def intro!: filter_cong)
  have "length (in_window agent_id ?later nonces) < length ?rows"
    using gone r(1) unfolding later by (intro length_filter_less) auto
  then have "check_request cfg ?later agent_id slots nonces = None"
    using full check_request_None_iff [OF on, of ?later slots nonces] by simp
  moreover have "(of_int (?o + request_window - now) :: rat) / 1000000 \<le> 60"
    using \<open>?o \<le> now\<close> by (simp add: request_window_eq seconds_def field_simps)
  then have "py_trunc (of_int (?o + request_window - now) / 1000000) \<le> 60"
    by (simp only: py_trunc_def) (auto simp: floor_le_iff ceiling_le_iff)
  then have "1 \<le> th_retry_after th \<and> th_retry_after th \<le> 61"
    by (simp add: ra retry_after_of_def)
  ultimately show ?thesis by simp
qed

definition cap_one :: config where
  "cap_one = default_config\<lparr> cfg_store := [(''agent_max_requests_per_minute'', ''1'')] \<rparr>"

theorem throttle_lifts_after_retry_witness:
  "check_request cap_one (5 + seconds 61) ''a'' 1 [\<lparr> nr_agent = ''a'', nr_nonce = ''n'', nr_seen = 5 \<rparr>] = None"
proof -
  let ?n = "[\<lparr> nr_agent = ''a'', nr_nonce = ''n'', nr_seen = 5 \<rparr>]"
  have "guard_enabled cap_one" "guard_int cap_one ''agent_max_requests_per_minute'' 240 = 1"
    by code_simp+
  then have "check_request cap_one 5 ''a'' 1 ?n = Some (mk_throttled 61 ''agent'')"
    by (simp add: check_request_def request_cap_def MAX_ROWS_SCANNED_def in_window_def request_window_eq
        retry_after_of_def seconds_def py_trunc_def DEFAULT_MAX_REQUESTS_PER_WINDOW_def)
  from throttle_lifts_after_retry [OF this] show ?thesis
    using \<open>guard_int cap_one ''agent_max_requests_per_minute'' 240 = 1\<close>
    by (simp add: mk_throttled_def in_window_def request_cap_def MAX_ROWS_SCANNED_def request_window_eq
        seconds_def DEFAULT_MAX_REQUESTS_PER_WINDOW_def)
qed

end
