(* ===== verification/Retry_Policy.thy ===== *)
theory Retry_Policy
  imports Prelude
begin

text \<open>
  \<open>services/retry_policy.py\<close>: which failed jobs may be run again. Two allowlists (the job
  types that may be re-entered, the error texts that look transient), a short list of
  permanent overrides, the attempt ceiling and the backoff schedule.
\<close>

section \<open>Definitions\<close>

definition BACKOFF_SECONDS :: "int list" where
  "BACKOFF_SECONDS = [30, 120, 600, 1800]"

definition DEFAULT_MAX_ATTEMPTS :: int where
  "DEFAULT_MAX_ATTEMPTS = 3"

definition MIN_MAX_ATTEMPTS :: int where
  "MIN_MAX_ATTEMPTS = 1"

definition MAX_MAX_ATTEMPTS :: int where
  "MAX_MAX_ATTEMPTS = int (length BACKOFF_SECONDS) + 1"

definition RETRYABLE_TYPES :: "string list" where
  "RETRYABLE_TYPES =
     [''ec2_power'', ''azure_power'', ''gce_power'', ''oci_power'', ''pov_env_power'',
      ''ec2_destroy'', ''azure_destroy'', ''gce_destroy'', ''oci_destroy'', ''pov_env_destroy'']"

definition TRANSIENT_SIGNALS :: "string list" where
  "TRANSIENT_SIGNALS =
     [''throttl'', ''rate exceeded'', ''requestlimitexceeded'', ''toomanyrequests'',
      ''too many requests'', ''429'', ''quota exceeded temporarily'', ''retry later'',
      ''insufficientinstancecapacity'', ''insufficient capacity'', ''capacityerror'',
      ''zone_resource_pool_exhausted'', ''out of capacity'', ''allocationfailed'',
      ''servicebusy'', ''resourcenotavailable'',
      ''internalerror'', ''internal server error'', ''internalservererror'',
      ''serviceunavailable'', ''service unavailable'', ''500'', ''502'', ''503'', ''504'',
      ''badgateway'', ''gatewaytimeout'',
      ''timed out'', ''timeout'', ''connection reset'', ''connection aborted'',
      ''connectionerror'', ''temporarily unavailable'', ''eof occurred'',
      ''expiredtoken'', ''token has expired'', ''securitytokenexpired'',
      ''request has expired'', ''credentials have expired'',
      ''token included in the request is expired'']"

definition PERMANENT_OVERRIDES :: "string list" where
  "PERMANENT_OVERRIDES =
     [''quotaexceeded'', ''limitexceeded'', ''quota_exceeded'',
      ''invalidparameter'', ''validationerror'', ''validationexception'',
      ''notfound'', ''does not exist'', ''accessdenied'', ''unauthorized'', ''forbidden'',
      ''invalidclienttokenid'', ''authfailure'', ''signaturedoesnotmatch'']"

definition max_attempts :: "pyval \<Rightarrow> int" where
  "max_attempts configured =
     (case py_int (if configured = PNone then PInt DEFAULT_MAX_ATTEMPTS else configured) of
        None \<Rightarrow> DEFAULT_MAX_ATTEMPTS
      | Some v \<Rightarrow> max MIN_MAX_ATTEMPTS (min MAX_MAX_ATTEMPTS v))"

definition backoff_seconds :: "int \<Rightarrow> int" where
  "backoff_seconds attempts_made =
     (let index = max 0 attempts_made
      in BACKOFF_SECONDS ! nat (min index (int (length BACKOFF_SECONDS) - 1)))"

definition retryable_type :: "string \<Rightarrow> bool" where
  "retryable_type job_type \<longleftrightarrow> job_type \<in> set RETRYABLE_TYPES"

definition is_transient :: "string \<Rightarrow> bool" where
  "is_transient error =
     (let text = py_lower error in
      if text = [] then False
      else if \<not> list_ex (\<lambda>signal. contains signal text) TRANSIENT_SIGNALS then False
      else \<not> list_ex (\<lambda>bad. contains bad text) PERMANENT_OVERRIDES)"

definition should_retry :: "string \<Rightarrow> string \<Rightarrow> int \<Rightarrow> pyval \<Rightarrow> bool" where
  "should_retry job_type error attempts_made limit =
     (if \<not> retryable_type job_type then False
      else if \<not> is_transient error then False
      else attempts_made + 1 < max_attempts limit)"

record retry_description =
  will_retry :: bool
  rd_attempts :: int
  rd_max_attempts :: int
  rd_reason :: string
  retry_in_seconds :: "int option"

text \<open>The em dash of the messages, as its UTF-8 bytes.\<close>

definition em_dash :: string where
  "em_dash = [CHR 0xE2, CHR 0x80, CHR 0x94]"

definition describe :: "string \<Rightarrow> string \<Rightarrow> int \<Rightarrow> pyval \<Rightarrow> retry_description" where
  "describe job_type error attempts_made limit =
     (let ceiling = max_attempts limit;
          ok = should_retry job_type error attempts_made limit;
          why =
            (if ok then
               ''attempt '' @ py_str_int (attempts_made + 1) @ '' of '' @ py_str_int ceiling @
               '' '' @ em_dash @ '' retrying in '' @ py_str_int (backoff_seconds attempts_made) @ ''s''
             else if \<not> retryable_type job_type then
               job_type @ '' is not re-entrant, so a failed run is never repeated automatically''
             else if \<not> is_transient error then
               ''this failure does not look transient, so repeating it would not help''
             else
               ''no attempts left ('' @ py_str_int ceiling @ '' of '' @ py_str_int ceiling @ '' used)'')
      in \<lparr> will_retry = ok, rd_attempts = attempts_made, rd_max_attempts = ceiling,
           rd_reason = why,
           retry_in_seconds = (if ok then Some (backoff_seconds attempts_made) else None) \<rparr>)"

section \<open>Lemmas\<close>

lemma max_attempts_bounds: "1 \<le> max_attempts c \<and> max_attempts c \<le> 5"
  by (simp add: max_attempts_def MIN_MAX_ATTEMPTS_def MAX_MAX_ATTEMPTS_def BACKOFF_SECONDS_def
      DEFAULT_MAX_ATTEMPTS_def split: option.split)

lemma should_retry_iff [policy_simps]:
  "should_retry t e n l \<longleftrightarrow> retryable_type t \<and> is_transient e \<and> n + 1 < max_attempts l"
  by (simp add: should_retry_def)

lemma should_retry_bound: "should_retry t e n l \<Longrightarrow> n < 4"
  using max_attempts_bounds [of l] by (simp add: should_retry_iff)

lemma backoff_seconds_cases:
  "backoff_seconds n =
     (if n \<le> 0 then 30 else if n = 1 then 120 else if n = 2 then 600 else 1800)"
proof -
  consider "n \<le> 0" | "n = 1" | "n = 2" | "3 \<le> n" by linarith
  then show ?thesis
    by cases (simp_all add: backoff_seconds_def BACKOFF_SECONDS_def numeral_2_eq_2 numeral_3_eq_3
        min_def Let_def)
qed

lemma backoff_seconds_bounds: "30 \<le> backoff_seconds n \<and> backoff_seconds n \<le> 1800"
  by (simp add: backoff_seconds_cases)

lemma backoff_seconds_mono: "m \<le> n \<Longrightarrow> backoff_seconds m \<le> backoff_seconds n"
  by (simp add: backoff_seconds_cases)

lemma permanent_not_transient:
  "bad \<in> set PERMANENT_OVERRIDES \<Longrightarrow> contains bad (py_lower e) \<Longrightarrow> \<not> is_transient e"
  by (auto simp: is_transient_def list_ex_iff Let_def)

text \<open>
  A throttled EC2 call is never retried: the error code \<open>RequestLimitExceeded\<close> is on the list
  of transient signals, but a permanent override is a substring of it and overrides win, so no
  error text that contains the code is ever transient, whatever its case and whatever else it says.
\<close>
theorem request_limit_exceeded_never_transient:
  assumes "contains ''requestlimitexceeded'' (py_lower e)"
  shows "''requestlimitexceeded'' \<in> set TRANSIENT_SIGNALS \<and> \<not> is_transient e \<and>
    \<not> should_retry t e n l"
proof -
  have "contains ''limitexceeded'' ''requestlimitexceeded''" by code_simp
  then have "contains ''limitexceeded'' (py_lower e)" using assms by (rule contains_trans)
  moreover have "''limitexceeded'' \<in> set PERMANENT_OVERRIDES" by (simp add: PERMANENT_OVERRIDES_def)
  ultimately have "\<not> is_transient e" by (rule permanent_not_transient [rotated])
  then show ?thesis by (simp add: should_retry_iff TRANSIENT_SIGNALS_def)
qed

theorem request_limit_exceeded_never_transient_witness:
  "\<not> is_transient ''An error occurred (RequestLimitExceeded)''"
proof -
  have "contains ''requestlimitexceeded'' (py_lower ''An error occurred (RequestLimitExceeded)'')"
    by code_simp
  from request_limit_exceeded_never_transient [OF this] show ?thesis by blast
qed

end
