(* ===== verification/Expiry_Policy.thy ===== *)
theory Expiry_Policy
  imports Config
begin

text \<open>
  \<open>services/expiry_policy.py\<close>: the auto-delete timer's pure policy. What may carry a timer,
  how a requested lifetime is clamped, who may move a deadline and in which direction, the
  warning ladder, and the guards a resource passes before the reaper may delete it.

  \<open>loads\<close> stands for \<open>json.loads\<close> (\<open>None\<close> when it raises) and \<open>fromiso\<close> for
  \<open>datetime.fromisoformat\<close> (the naive instant and the UTC offset of an aware one); the theorems
  hold for every such function. Timestamps are those of a process whose zone is UTC.
\<close>

section \<open>Definitions\<close>

subsection \<open>What is reapable\<close>

definition REAPABLE_VM_JOB_TYPES :: "string list" where
  "REAPABLE_VM_JOB_TYPES = [''ec2_deploy'', ''azure_deploy'', ''gce_deploy'', ''oci_deploy'']"

definition DESTROY_FOR :: "(string \<times> string) list" where
  "DESTROY_FOR =
     [(''ec2_deploy'', ''ec2_destroy''), (''azure_deploy'', ''azure_destroy''),
      (''gce_deploy'', ''gce_destroy''), (''oci_deploy'', ''oci_destroy'')]"

definition REAPABLE_KINDS :: "string list" where
  "REAPABLE_KINDS =
     [''vm'', ''database'', ''k8s'', ''pov'', ''certlab'', ''spirelab'', ''workloadk8s'',
      ''workloadcloud'', ''directory'']"

definition REAPABLE_VM_CLOUDS :: "string list" where
  "REAPABLE_VM_CLOUDS = [''aws'', ''azure'', ''gcp'', ''oci'']"

definition SYNCED_HYPERVISOR_SOURCE :: string where
  "SYNCED_HYPERVISOR_SOURCE = ''hypervisor''"

definition REAPABLE_STATES :: "(string \<times> string list) list" where
  "REAPABLE_STATES =
     [(''vm'', [''active'']), (''database'', [''available'']), (''certlab'', [''available'']),
      (''directory'', [''available'']), (''spirelab'', [''available'']),
      (''workloadk8s'', [''active'']), (''workloadcloud'', [''registered'', ''issued'']),
      (''k8s'', [''registered'', ''managed'', ''awaiting_agent'']),
      (''pov'', [''active'', ''failed''])]"

definition MIN_TTL_MINUTES_FLOOR :: int where "MIN_TTL_MINUTES_FLOOR = 60"
definition REAP_GRACE_MIN_FLOOR :: int where "REAP_GRACE_MIN_FLOOR = 15"
definition ARM_DELAY_MINUTES :: int where "ARM_DELAY_MINUTES = 60"
definition MAX_PER_PASS_CEILING :: int where "MAX_PER_PASS_CEILING = 50"

subsection \<open>Configured values\<close>

definition expiry_enabled :: "config \<Rightarrow> bool" where
  "expiry_enabled cfg = policy_flag cfg ''resource_expiry_enabled'' False"

definition expiry_enforce :: "config \<Rightarrow> bool" where
  "expiry_enforce cfg = policy_flag cfg ''resource_expiry_enforce'' False"

definition expiry_dry_run :: "config \<Rightarrow> bool" where
  "expiry_dry_run cfg = policy_flag cfg ''resource_expiry_dry_run'' True"

definition allow_never :: "config \<Rightarrow> bool" where
  "allow_never cfg = policy_flag cfg ''resource_expiry_allow_never'' False"

definition default_hours :: "config \<Rightarrow> int" where
  "default_hours cfg = max 0 (policy_int cfg ''resource_expiry_default_hours'' 0)"

definition pov_default_hours :: "config \<Rightarrow> int" where
  "pov_default_hours cfg =
     (let hours = policy_int cfg ''pov_expiry_default_hours'' 0 in if hours > 0 then hours else 0)"

definition extend_hours :: "config \<Rightarrow> int" where
  "extend_hours cfg = max 1 (policy_int cfg ''resource_expiry_extend_hours'' 24)"

definition max_total_hours :: "config \<Rightarrow> int" where
  "max_total_hours cfg = max 0 (policy_int cfg ''resource_expiry_max_total_hours'' 720)"

definition warn_hours :: "config \<Rightarrow> int" where
  "warn_hours cfg = max 1 (policy_int cfg ''resource_expiry_warn_hours'' 24)"

definition grace_minutes :: "config \<Rightarrow> int" where
  "grace_minutes cfg = max REAP_GRACE_MIN_FLOOR (policy_int cfg ''resource_expiry_grace_minutes'' 30)"

definition sweep_interval_seconds :: "config \<Rightarrow> int" where
  "sweep_interval_seconds cfg =
     (let mins = max 5 (policy_int cfg ''resource_expiry_sweep_interval_minutes'' 30) in mins * 60)"

definition sweep_min_gap_seconds :: "config \<Rightarrow> int" where
  "sweep_min_gap_seconds cfg = max 1 (sweep_interval_seconds cfg div 2)"

definition sweep_retention_days :: "config \<Rightarrow> int" where
  "sweep_retention_days cfg = max 0 (policy_int cfg ''resource_expiry_sweep_retention_days'' 7)"

definition max_per_pass :: "config \<Rightarrow> int" where
  "max_per_pass cfg =
     max 1 (min MAX_PER_PASS_CEILING (policy_int cfg ''resource_expiry_max_per_pass'' 10))"

definition exempt_workgroups :: "(string \<Rightarrow> json option) \<Rightarrow> config \<Rightarrow> string list" where
  "exempt_workgroups loads cfg =
     (let key = ''resource_expiry_exempt_workgroups'';
          raw0 = (case config_get cfg key [] of None \<Rightarrow> [] | Some s \<Rightarrow> s);
          raw1 = (if raw0 = []
                  then (case getattr_setting cfg key (PStr []) of PStr s \<Rightarrow> s | _ \<Rightarrow> [])
                  else raw0);
          raw = py_strip raw1
      in if raw = [] then []
         else if starts_with ''['' raw then
           (case loads raw of
              Some (JList ws) \<Rightarrow>
                map (\<lambda>w. py_lower (py_strip (py_str w))) (filter (\<lambda>w. py_strip (py_str w) \<noteq> []) ws)
            | _ \<Rightarrow> [])
         else map (\<lambda>w. py_lower (py_strip w))
                (filter (\<lambda>w. py_strip w \<noteq> []) (split_on (CHR '','') raw)))"

subsection \<open>Time\<close>

text \<open>What an \<open>expires_at\<close> field can hold: nothing, a datetime, or text.\<close>

datatype ts_value = TsNull | TsDatetime instant "int option" | TsText string

definition naive_utc :: "instant \<Rightarrow> int option \<Rightarrow> instant" where
  "naive_utc t offset = (case offset of None \<Rightarrow> t | Some d \<Rightarrow> t - d)"

definition epoch_seconds :: "instant \<Rightarrow> rat" where
  "epoch_seconds t = of_int t / 1000000"

definition parse_ts :: "(string \<Rightarrow> (instant \<times> int option) option) \<Rightarrow> ts_value \<Rightarrow> rat option" where
  "parse_ts fromiso v =
     (case v of
        TsNull \<Rightarrow> None
      | TsDatetime t off \<Rightarrow> Some (epoch_seconds (naive_utc t off))
      | TsText s \<Rightarrow>
          (if s = [] then None
           else
             (let text0 = py_strip s;
                  text = (if text0 \<noteq> [] \<and> last text0 = CHR ''Z'' then butlast text0 else text0)
              in case fromiso text of
                   None \<Rightarrow> None
                 | Some (t, off) \<Rightarrow> Some (epoch_seconds (naive_utc t off)))))"

subsection \<open>Lifetimes\<close>

definition clamp_hours :: "config \<Rightarrow> rat \<Rightarrow> instant option \<Rightarrow> bool \<Rightarrow> instant \<Rightarrow> rat" where
  "clamp_hours cfg hours created_at is_admin now =
     (let floor_h = of_int MIN_TTL_MINUTES_FLOOR / 60;
          h = max floor_h hours;
          ceiling = max_total_hours cfg
      in if ceiling \<noteq> 0 \<and> \<not> is_admin then
           (case created_at of
              Some c \<Rightarrow>
                (let elapsed = hours_between c now; remaining = of_int ceiling - elapsed
                 in max floor_h (min h remaining))
            | None \<Rightarrow> min h (of_int ceiling))
         else h)"

definition expiry_from_now :: "rat \<Rightarrow> instant \<Rightarrow> instant" where
  "expiry_from_now hours now = now + td_hours hours"

datatype expiry_error =
    ClearDisabled
  | ClearNotAdmin
  | NoChangeRequested
  | ArmNotAdmin
  | BroughtForward instant instant

definition refuse_unless_later :: "instant option \<Rightarrow> instant \<Rightarrow> expiry_error option" where
  "refuse_unless_later current target =
     (case current of
        None \<Rightarrow> Some ArmNotAdmin
      | Some c \<Rightarrow>
          if target div minutes 1 < c div minutes 1 then Some (BroughtForward c target) else None)"

definition resolve_expiry ::
  "config \<Rightarrow> instant option \<Rightarrow> instant option \<Rightarrow> rat option \<Rightarrow> (instant \<times> int option) option \<Rightarrow>
   bool \<Rightarrow> bool \<Rightarrow> instant \<Rightarrow> expiry_error + (instant option \<times> bool)" where
  "resolve_expiry cfg created_at current extend_hours_req absolute never is_admin now =
     (if never then
        (if \<not> allow_never cfg then Inl ClearDisabled
         else if \<not> is_admin then Inl ClearNotAdmin
         else Inr (None, False))
      else
        (case (case absolute of
                 Some (t, off) \<Rightarrow> Some (hours_between now (naive_utc t off))
               | None \<Rightarrow>
                   (case extend_hours_req of
                      Some e \<Rightarrow>
                        (let base = (case current of
                                       Some c \<Rightarrow> if c > now then c else now
                                     | None \<Rightarrow> now)
                         in Some (hours_between now base + e))
                    | None \<Rightarrow> None)) of
           None \<Rightarrow> Inl NoChangeRequested
         | Some requested_h \<Rightarrow>
             (let allowed_h = clamp_hours cfg requested_h created_at is_admin now;
                  clamped = py_trunc (allowed_h * 60) < py_trunc (requested_h * 60);
                  target = expiry_from_now allowed_h now
              in if is_admin then Inr (Some target, clamped)
                 else (case refuse_unless_later current target of
                         Some e \<Rightarrow> Inl e
                       | None \<Rightarrow> Inr (Some target, clamped)))))"

subsection \<open>Stamping new resources\<close>

definition default_expiry_for ::
  "(string \<Rightarrow> json option) \<Rightarrow> config \<Rightarrow> string \<Rightarrow> string option \<Rightarrow> instant \<Rightarrow> instant option" where
  "default_expiry_for loads cfg job_type workgroup now =
     (if job_type \<notin> set REAPABLE_VM_JOB_TYPES then None
      else if \<not> expiry_enabled cfg then None
      else if or_empty workgroup \<noteq> [] \<and>
              py_lower (py_strip (or_empty workgroup)) \<in> set (exempt_workgroups loads cfg) then None
      else
        (let hours = default_hours cfg in
         if hours \<le> 0 then None
         else Some (expiry_from_now (clamp_hours cfg (of_int hours) None False now) now)))"

definition default_expiry_for_kind ::
  "(string \<Rightarrow> json option) \<Rightarrow> config \<Rightarrow> string \<Rightarrow> string \<Rightarrow> string option \<Rightarrow> instant \<Rightarrow> instant option"
where
  "default_expiry_for_kind loads cfg kind source workgroup now =
     (if kind \<notin> set REAPABLE_KINDS \<or> kind = ''vm'' then None
      else if (if source = [] then ''provisioned'' else source) \<noteq> ''provisioned'' then None
      else if \<not> expiry_enabled cfg then None
      else if or_empty workgroup \<noteq> [] \<and>
              py_lower (py_strip (or_empty workgroup)) \<in> set (exempt_workgroups loads cfg) then None
      else
        (let hours = (if kind = ''pov'' then pov_default_hours cfg else default_hours cfg) in
         if hours \<le> 0 then None
         else Some (expiry_from_now (clamp_hours cfg (of_int hours) None False now) now)))"

definition destroy_job_type :: "string \<Rightarrow> string option" where
  "destroy_job_type deploy_job_type = map_of DESTROY_FOR deploy_job_type"

definition DESTROY_META :: "(string \<times> string \<times> string list) list" where
  "DESTROY_META =
     [(''ec2_deploy'', ''instance_id'', [''region'']),
      (''azure_deploy'', ''vm_name'', [''resource_group'']),
      (''gce_deploy'', ''instance_name'', [''zone'', ''project_id'']),
      (''oci_deploy'', ''instance_ocid'', [])]"

datatype destroy_refusal = NoTeardown string | NoTarget string | NoExtra string

fun destroy_extra :: "dict \<Rightarrow> string list \<Rightarrow> dict \<Rightarrow> destroy_refusal + dict" where
  "destroy_extra meta [] out = Inr out"
| "destroy_extra meta (key # keys) out =
     (let value = dict_get meta key in
      if \<not> truthy value then Inl (NoExtra key)
      else destroy_extra meta keys (dict_set out key value))"

definition build_destroy_metadata ::
  "string \<Rightarrow> dict \<Rightarrow> string \<Rightarrow> destroy_refusal + (string \<times> dict)" where
  "build_destroy_metadata deploy_job_type deploy_meta deploy_job_id =
     (case (map_of DESTROY_META deploy_job_type, map_of DESTROY_FOR deploy_job_type) of
        (Some (target_key, extra), Some destroy_type) \<Rightarrow>
          (let target = dict_get deploy_meta target_key in
           if \<not> truthy target then Inl (NoTarget target_key)
           else
             (case destroy_extra deploy_meta extra
                     [(target_key, target), (''deploy_job_id'', JStr deploy_job_id)] of
                Inl e \<Rightarrow> Inl e
              | Inr out \<Rightarrow> Inr (destroy_type, out)))
      | _ \<Rightarrow> Inl (NoTeardown deploy_job_type))"

subsection \<open>The warning ladder\<close>

definition WARN_LADDER_MINUTES :: "int list" where
  "WARN_LADDER_MINUTES = [10080, 4320, 1440, 240, 60]"

definition next_warn_stage :: "rat \<Rightarrow> int option \<Rightarrow> int option" where
  "next_warn_stage remaining_s warned_stage_minutes =
     (if remaining_s \<le> 0 then None
      else
        (let remaining_min = remaining_s / 60;
             crossed = filter (\<lambda>m. remaining_min \<le> of_int m) WARN_LADDER_MINUTES
         in case crossed of
              [] \<Rightarrow> None
            | c # cs \<Rightarrow>
                (let stage = fold min cs c in
                 case warned_stage_minutes of
                   None \<Rightarrow> Some stage
                 | Some w \<Rightarrow> (if stage \<ge> w then None else Some stage))))"

subsection \<open>Eligibility and the reap predicate\<close>

record inv_item =
  it_id :: "string option"
  it_kind :: "string option"
  it_cloud :: "string option"
  it_source :: "string option"
  it_state :: "string option"
  it_workgroup :: "string option"
  it_expires_at :: ts_value
  it_name :: "string option"
  it_region :: "string option"
  it_job_id :: "string option"
  it_detail_href :: "string option"

datatype ttl_refusal =
    SyncedFromHypervisor
  | KindHasNoTimer "string option"
  | Registered
  | CloudHasNoTeardown string

definition ttl_capable :: "inv_item \<Rightarrow> ttl_refusal option" where
  "ttl_capable item =
     (let kind = it_kind item;
          cloud = py_lower (or_empty (it_cloud item));
          source = (if or_empty (it_source item) = [] then ''provisioned'' else or_empty (it_source item))
      in if source = SYNCED_HYPERVISOR_SOURCE then Some SyncedFromHypervisor
         else if kind \<notin> Some ` set REAPABLE_KINDS then Some (KindHasNoTimer kind)
         else if kind = Some ''pov'' then None
         else if source \<noteq> ''provisioned'' then Some Registered
         else if kind = Some ''vm'' \<and> cloud \<notin> set REAPABLE_VM_CLOUDS
              then Some (CloudHasNoTeardown cloud)
         else None)"

definition is_exempt :: "(string \<Rightarrow> json option) \<Rightarrow> config \<Rightarrow> inv_item \<Rightarrow> bool" where
  "is_exempt loads cfg item =
     (let wg = py_lower (py_strip (or_empty (it_workgroup item)))
      in wg \<noteq> [] \<and> wg \<in> set (exempt_workgroups loads cfg))"

definition state_is_idle :: "inv_item \<Rightarrow> bool" where
  "state_is_idle item =
     (let states = (case it_kind item of
                      None \<Rightarrow> []
                    | Some k \<Rightarrow> (case map_of REAPABLE_STATES k of None \<Rightarrow> [] | Some ss \<Rightarrow> ss))
      in or_empty (it_state item) \<in> set states)"

definition armed :: "rat option \<Rightarrow> rat \<Rightarrow> bool" where
  "armed armed_at_ts now_ts =
     (case armed_at_ts of
        None \<Rightarrow> False
      | Some a \<Rightarrow> a \<noteq> 0 \<and> now_ts - a \<ge> of_int (ARM_DELAY_MINUTES * 60))"

definition deletion_active :: "config \<Rightarrow> rat option \<Rightarrow> rat \<Rightarrow> bool" where
  "deletion_active cfg enforce_since_ts now_ts =
     (if \<not> expiry_enforce cfg \<or> expiry_dry_run cfg then False
      else
        (case enforce_since_ts of
           None \<Rightarrow> False
         | Some a \<Rightarrow> a \<noteq> 0 \<and> now_ts - a \<ge> of_int (ARM_DELAY_MINUTES * 60)))"

definition expired :: "(string option \<times> rat option) list \<Rightarrow> rat \<Rightarrow> int \<Rightarrow> string list" where
  "expired items now_ts grace_min =
     (let cutoff = now_ts - of_int (max REAP_GRACE_MIN_FLOOR grace_min * 60)
      in filter (\<lambda>i. i \<noteq> [])
           (map (\<lambda>(i, e). or_empty i)
              (filter (\<lambda>(i, e). case e of None \<Rightarrow> False | Some x \<Rightarrow> 0 < x \<and> x \<le> cutoff) items)))"

record reap =
  reap_id :: "string option"
  reap_kind :: "string option"
  reap_cloud :: string
  reap_name :: "string option"
  reap_region :: string
  reap_job_id :: "string option"
  reap_expires_at :: ts_value
  overdue_s :: int

definition reap_target ::
  "(string \<Rightarrow> (instant \<times> int option) option) \<Rightarrow> (string \<Rightarrow> json option) \<Rightarrow> config \<Rightarrow> inv_item \<Rightarrow>
   rat \<Rightarrow> int \<Rightarrow> rat option \<Rightarrow> reap option" where
  "reap_target fromiso loads cfg item now_ts grace_min armed_at_ts =
     (if \<not> armed armed_at_ts now_ts then None
      else if ttl_capable item \<noteq> None then None
      else if is_exempt loads cfg item then None
      else if \<not> state_is_idle item then None
      else
        (case parse_ts fromiso (it_expires_at item) of
           None \<Rightarrow> None
         | Some expires_ts \<Rightarrow>
             (if expires_ts = 0 then None
              else if expired [(it_id item, Some expires_ts)] now_ts grace_min = [] then None
              else
                Some \<lparr> reap_id = it_id item, reap_kind = it_kind item,
                       reap_cloud = py_lower (or_empty (it_cloud item)),
                       reap_name = (if or_empty (it_name item) = [] then it_id item else it_name item),
                       reap_region = or_empty (it_region item),
                       reap_job_id = it_job_id item,
                       reap_expires_at = it_expires_at item,
                       overdue_s = py_trunc (now_ts - expires_ts) \<rparr>)))"

section \<open>Lemmas\<close>

lemmas floor_defs = MIN_TTL_MINUTES_FLOOR_def REAP_GRACE_MIN_FLOOR_def ARM_DELAY_MINUTES_def

lemma max_total_hours_nonneg: "0 \<le> max_total_hours cfg"
  by (simp add: max_total_hours_def)

lemma clamp_hours_floor: "1 \<le> clamp_hours cfg h created adm now"
  using max_total_hours_nonneg [of cfg]
  by (auto simp: clamp_hours_def Let_def floor_defs split: option.splits)

lemma clamp_hours_ceiling:
  assumes "max_total_hours cfg \<noteq> 0"
  shows "clamp_hours cfg h (Some c) False now \<le>
    max 1 (of_int (max_total_hours cfg) - hours_between c now)"
  using assms by (auto simp: clamp_hours_def Let_def floor_defs)

lemma clamp_hours_admin: "1 \<le> h \<Longrightarrow> clamp_hours cfg h created True now = h"
  by (simp add: clamp_hours_def floor_defs max_def)

lemma expiry_from_now_mono: "a \<le> b \<Longrightarrow> expiry_from_now a now \<le> expiry_from_now b now"
  by (simp add: expiry_from_now_def td_hours_mono)

lemma expiry_from_now_remaining:
  "expiry_from_now (max 1 (of_int n - hours_between c now)) now =
   max (now + minutes 60) (c + n * 3600000000)"
proof -
  have "of_int n - hours_between c now = hours_between now (c + n * 3600000000)"
    by (simp add: hours_between_def field_simps)
  moreover have "(1::rat) = hours_between now (now + minutes 60)"
    by (simp add: hours_between_def minutes_def seconds_def)
  moreover have "max (hours_between now a) (hours_between now b) = hours_between now (max a b)" for a b
    by (auto simp: hours_between_def max_def divide_right_mono)
  ultimately have "max 1 (of_int n - hours_between c now) =
      hours_between now (max (now + minutes 60) (c + n * 3600000000))"
    by metis
  then show ?thesis by (simp add: expiry_from_now_def)
qed

lemma resolve_expiry_Some:
  assumes "resolve_expiry cfg created current ext abso never adm now = Inr (Some t, cl)"
  obtains h where "t = expiry_from_now (clamp_hours cfg h created adm now) now"
    and "\<not> adm \<Longrightarrow> refuse_unless_later current t = None"
  using assms
  by (auto simp: resolve_expiry_def Let_def split: if_splits option.splits prod.splits)

text \<open>
  A caller who is not an administrator can only delay a deletion: whatever such a caller
  asks for (an extension, an absolute date, or no timer at all), an accepted request leaves the
  resource with a timer, the resource had one before, and the new deadline is not in an earlier
  minute than the old one.
\<close>

theorem resolve_expiry_only_later:
  assumes "resolve_expiry cfg created current ext abso never False now = Inr (r, cl)"
  shows "\<exists>t c. r = Some t \<and> current = Some c \<and> c div minutes 1 \<le> t div minutes 1"
proof (cases r)
  case None
  with assms show ?thesis
    by (auto simp: resolve_expiry_def Let_def split: if_splits option.splits prod.splits)
next
  case (Some t)
  with assms have "refuse_unless_later current t = None"
    using resolve_expiry_Some by metis
  with Some show ?thesis
    by (auto simp: refuse_unless_later_def split: option.splits if_splits)
qed

theorem resolve_expiry_only_later_witness:
  "\<exists>t c. Some (seconds 50400) = Some t \<and> Some (seconds 7200) = Some c \<and>
     c div minutes 1 \<le> t div minutes 1"
  by (rule resolve_expiry_only_later [of default_config "Some 0" "Some (seconds 7200)" "Some 12" None
        False 0 _ False])
    (simp add: resolve_expiry_def clamp_hours_def expiry_from_now_def hours_between_def seconds_def
      minutes_def max_total_hours_def policy_int_def config_get_def default_config_def
      getattr_setting_def td_hours_def round_half_even_def py_trunc_def refuse_unless_later_def
      floor_defs)

text \<open>
  Every accepted timer lies between the floor and the ceiling: at least an hour ahead of the
  clock for everybody, and, for a caller who is not an administrator when a ceiling is configured,
  no later than the ceiling counted from the resource's creation (or the floor, when the ceiling
  has already passed), however often it is extended.
\<close>

theorem resolve_expiry_bounds:
  assumes "resolve_expiry cfg (Some created) current ext abso never adm now = Inr (Some t, cl)"
  shows "now + minutes 60 \<le> t \<and>
    (\<not> adm \<and> max_total_hours cfg \<noteq> 0 \<longrightarrow>
       t \<le> max (now + minutes 60) (created + max_total_hours cfg * 3600000000))"
proof -
  obtain h where t: "t = expiry_from_now (clamp_hours cfg h (Some created) adm now) now"
    using assms by (rule resolve_expiry_Some)
  have "expiry_from_now 1 now \<le> t"
    unfolding t by (intro expiry_from_now_mono clamp_hours_floor)
  then have "now + minutes 60 \<le> t"
    by (simp add: expiry_from_now_def minutes_def seconds_def)
  moreover have "t \<le> max (now + minutes 60) (created + max_total_hours cfg * 3600000000)"
    if "\<not> adm" "max_total_hours cfg \<noteq> 0"
    using expiry_from_now_mono [OF clamp_hours_ceiling [OF that(2), of h created now], of now] that(1)
    by (simp add: t expiry_from_now_remaining)
  ultimately show ?thesis by blast
qed

theorem resolve_expiry_bounds_witness:
  "0 + minutes 60 \<le> seconds 50400 \<and>
    seconds 50400 \<le> max (0 + minutes 60) (0 + max_total_hours default_config * 3600000000)"
proof -
  have "0 + minutes 60 \<le> seconds 50400 \<and>
    (\<not> False \<and> max_total_hours default_config \<noteq> 0 \<longrightarrow>
       seconds 50400 \<le> max (0 + minutes 60) (0 + max_total_hours default_config * 3600000000))"
    by (rule resolve_expiry_bounds [of default_config 0 "Some (seconds 7200)" "Some 12" None
          False False 0 _ False])
      (simp add: resolve_expiry_def clamp_hours_def expiry_from_now_def hours_between_def seconds_def
        minutes_def max_total_hours_def policy_int_def config_get_def default_config_def
        getattr_setting_def td_hours_def round_half_even_def py_trunc_def refuse_unless_later_def
        floor_defs)
  moreover have "max_total_hours default_config \<noteq> 0"
    by (simp add: max_total_hours_def policy_int_def config_get_def default_config_def
      getattr_setting_def)
  ultimately show ?thesis by blast
qed

subsection \<open>The reap predicate\<close>

lemma expired_singleton:
  "expired [(i, Some e)] now_ts g \<noteq> [] \<longleftrightarrow>
   or_empty i \<noteq> [] \<and> 0 < e \<and> e \<le> now_ts - of_int (max 15 g * 60)"
  by (auto simp: expired_def Let_def floor_defs)

lemma ttl_capable_iff:
  "ttl_capable item = None \<longleftrightarrow>
   or_empty (it_source item) \<noteq> SYNCED_HYPERVISOR_SOURCE \<and>
   (\<exists>k \<in> set REAPABLE_KINDS. it_kind item = Some k) \<and>
   (it_kind item = Some ''pov'' \<or>
    or_empty (it_source item) \<in> {[], ''provisioned''} \<and>
    (it_kind item = Some ''vm'' \<longrightarrow>
       py_lower (or_empty (it_cloud item)) \<in> set REAPABLE_VM_CLOUDS))"
  by (auto simp: ttl_capable_def Let_def SYNCED_HYPERVISOR_SOURCE_def)

text \<open>
  The reaper's predicate selects exactly the resources for which all six guards hold: the
  feature has been armed for an hour; the kind can carry a timer and is provisioned rather than
  registered or read from a hypervisor (a VM also on a cloud with a queued teardown); the
  workgroup is not exempt; the state is idle for its kind; the expiry can be dated; and it is at
  least fifteen minutes, or the configured grace if longer, in the past. So a row without an
  expiry is never selected.
\<close>

theorem reap_target_iff:
  "reap_target fromiso loads cfg item now_ts grace_min armed_at_ts \<noteq> None \<longleftrightarrow>
   (\<exists>a. armed_at_ts = Some a \<and> a \<noteq> 0 \<and> a + 3600 \<le> now_ts) \<and>
   ttl_capable item = None \<and> \<not> is_exempt loads cfg item \<and> state_is_idle item \<and>
   or_empty (it_id item) \<noteq> [] \<and>
   (\<exists>e. parse_ts fromiso (it_expires_at item) = Some e \<and> 0 < e \<and>
        e + of_int (max 15 grace_min * 60) \<le> now_ts)"
proof -
  have ex: "expired [(it_id item, Some e)] now_ts grace_min = [] \<longleftrightarrow>
      \<not> (or_empty (it_id item) \<noteq> [] \<and> 0 < e \<and> e + of_int (max 15 grace_min * 60) \<le> now_ts)" for e
    using expired_singleton [of "it_id item" e now_ts grace_min] unfolding le_diff_eq by blast
  have ar: "armed armed_at_ts now_ts \<longleftrightarrow> (\<exists>a. armed_at_ts = Some a \<and> a \<noteq> 0 \<and> a + 3600 \<le> now_ts)"
    by (cases armed_at_ts) (auto simp: armed_def floor_defs)
  show ?thesis
    unfolding reap_target_def ex ar by (cases "parse_ts fromiso (it_expires_at item)") auto
qed

subsection \<open>Rebuilding the destroy job\<close>

lemma destroy_extra_Inr:
  "destroy_extra meta keys out = Inr out' \<Longrightarrow>
   (\<forall>k. dict_get out' k = (if k \<in> set keys then dict_get meta k else dict_get out k)) \<and>
   (\<forall>k \<in> set keys. truthy (dict_get meta k)) \<and>
   fst ` set out' = set keys \<union> fst ` set out"
  by (induction meta keys out rule: destroy_extra.induct)
    (auto simp: Let_def dict_get_set keys_dict_set split: if_splits)

lemma destroy_extra_Inl:
  "destroy_extra meta keys out = Inl e \<Longrightarrow>
   \<exists>k \<in> set keys. e = NoExtra k \<and> \<not> truthy (dict_get meta k)"
  by (induction meta keys out rule: destroy_extra.induct) (auto simp: Let_def split: if_splits)

lemma destroy_tables:
  "map_of DESTROY_META dt = Some (target, extra) \<Longrightarrow>
   dt \<in> set REAPABLE_VM_JOB_TYPES \<and> target \<noteq> ''deploy_job_id'' \<and> ''deploy_job_id'' \<notin> set extra \<and>
   target \<notin> set extra \<and> (\<exists>ty. map_of DESTROY_FOR dt = Some ty)"
  by (auto simp: DESTROY_META_def DESTROY_FOR_def REAPABLE_VM_JOB_TYPES_def split: if_splits)

text \<open>
  A reap aims where the deploy went: a destroy job is only ever built for one of the four VM
  deploy types, with the destroy type of that deploy, and its metadata names the deploy job and
  otherwise holds exactly the keys that destroy needs, each with the non-empty value recorded by
  the deploy itself. Nothing is filled in from elsewhere.
\<close>

theorem build_destroy_metadata_faithful:
  assumes "build_destroy_metadata dt meta jid = Inr (ty, out)"
  shows "dt \<in> set REAPABLE_VM_JOB_TYPES \<and> destroy_job_type dt = Some ty \<and>
    (\<exists>target extra. map_of DESTROY_META dt = Some (target, extra) \<and>
       fst ` set out = {target, ''deploy_job_id''} \<union> set extra \<and>
       dict_get out ''deploy_job_id'' = JStr jid \<and>
       (\<forall>k \<in> {target} \<union> set extra. dict_get out k = dict_get meta k \<and> truthy (dict_get out k)))"
proof -
  obtain target extra where spec: "map_of DESTROY_META dt = Some (target, extra)"
    and ty: "map_of DESTROY_FOR dt = Some ty" and tr: "truthy (dict_get meta target)"
    and out: "destroy_extra meta extra
      [(target, dict_get meta target), (''deploy_job_id'', JStr jid)] = Inr out"
    using assms
    by (auto simp: build_destroy_metadata_def Let_def split: option.splits prod.splits if_splits sum.splits)
  note tab = destroy_tables [OF spec]
  note ex = destroy_extra_Inr [OF out]
  have "dict_get out k = dict_get meta k" if "k \<in> {target} \<union> set extra" for k
    using ex that by auto
  moreover have "dict_get out ''deploy_job_id'' = JStr jid"
    using ex tab by auto
  ultimately show ?thesis
    using spec ty tr ex tab by (auto simp: destroy_job_type_def)
qed

theorem build_destroy_metadata_faithful_witness:
  "''ec2_deploy'' \<in> set REAPABLE_VM_JOB_TYPES \<and> destroy_job_type ''ec2_deploy'' = Some ''ec2_destroy'' \<and>
    (\<exists>target extra. map_of DESTROY_META ''ec2_deploy'' = Some (target, extra) \<and>
       fst ` set [(''instance_id'', JStr ''i-1''), (''deploy_job_id'', JStr ''j1''),
                  (''region'', JStr ''us-east-1'')] = {target, ''deploy_job_id''} \<union> set extra \<and>
       dict_get [(''instance_id'', JStr ''i-1''), (''deploy_job_id'', JStr ''j1''),
                 (''region'', JStr ''us-east-1'')] ''deploy_job_id'' = JStr ''j1'' \<and>
       (\<forall>k \<in> {target} \<union> set extra.
          dict_get [(''instance_id'', JStr ''i-1''), (''deploy_job_id'', JStr ''j1''),
                    (''region'', JStr ''us-east-1'')] k =
            dict_get [(''region'', JStr ''us-east-1''), (''instance_id'', JStr ''i-1'')] k \<and>
          truthy (dict_get [(''instance_id'', JStr ''i-1''), (''deploy_job_id'', JStr ''j1''),
                            (''region'', JStr ''us-east-1'')] k)))"
  by (rule build_destroy_metadata_faithful)
    (simp add: build_destroy_metadata_def DESTROY_META_def DESTROY_FOR_def dict_get_def)

subsection \<open>The warning ladder\<close>

lemma next_warn_stage_SomeD:
  assumes "next_warn_stage remaining warned = Some s"
  shows "s \<in> set WARN_LADDER_MINUTES" "remaining \<le> of_int s * 60"
    "\<And>m. m \<in> set WARN_LADDER_MINUTES \<Longrightarrow> remaining \<le> of_int m * 60 \<Longrightarrow> s \<le> m"
    "\<And>w. warned = Some w \<Longrightarrow> s < w"
proof -
  let ?crossed = "filter (\<lambda>m. remaining / 60 \<le> of_int m) WARN_LADDER_MINUTES"
  obtain c cs where cr: "?crossed = c # cs" and s: "s = fold min cs c"
    using assms by (auto simp: next_warn_stage_def Let_def split: if_splits list.splits option.splits)
  have min: "s = Min (set ?crossed)"
    unfolding s cr by (rule Min.set_eq_fold [symmetric])
  then have "s \<in> set ?crossed"
    using Min_in [of "set ?crossed"] cr by (metis List.finite_set list.distinct(1) set_empty)
  then show "s \<in> set WARN_LADDER_MINUTES" "remaining \<le> of_int s * 60"
    by (simp_all add: divide_le_eq)
  show "s \<le> m" if "m \<in> set WARN_LADDER_MINUTES" "remaining \<le> of_int m * 60" for m
    unfolding min using that by (intro Min_le) (simp_all add: divide_le_eq)
  show "s < w" if "warned = Some w" for w
    using assms that cr s
    by (auto simp: next_warn_stage_def Let_def split: if_splits list.splits)
qed

end
