(* ===== verification/Job_Service.thy ===== *)
theory Job_Service
  imports Retry_Policy Expiry_Policy "HOL-Library.Multiset"
begin

text \<open>
  \<open>services/job_service.py\<close>: the job rows and the operations every runner funnels through.
  A row is a record with the columns of \<open>database/models/jobs.py\<close> these operations read or
  write; the database is the list of rows in insertion order, the resource rows the stale-job
  reconciler flips, and the outbox of notifications queued by \<open>emit_safe\<close>.

  Every function takes the clock reading it uses as an argument. Where the code reads the
  clock several times in a row (\<open>started_at\<close> and \<open>updated_at\<close>) one reading stands for them.
\<close>

section \<open>Rows\<close>

text \<open>
  The JSON text column: NULL or empty, text that does not parse, a JSON object, or another
  JSON value.
\<close>

datatype extra_text = ENull | EBad | EDict dict | EOther json

record job =
  j_id :: string
  j_job_type :: string
  j_workgroup :: "string option"
  j_vm_path :: "string option"
  j_cloud_resource_id :: "string option"
  j_batch_id :: "string option"
  j_agent_id :: "string option"
  j_is_checkin :: "bool option"
  j_expires_at :: "instant option"
  j_expiry_warned_at :: "instant option"
  j_suspend_at_local :: "string option"
  j_resume_at_local :: "string option"
  j_schedule_timezone :: "string option"
  j_schedule_days :: "string option"
  j_schedule_last_checked_at :: "instant option"
  j_spend_cap_usd :: "rat option"
  j_spend_estimate_usd :: "rat option"
  j_spend_accrued_at :: "instant option"
  j_spend_warned_at :: "instant option"
  j_spend_capped_at :: "instant option"
  j_attempts :: int
  j_retry_after :: "instant option"
  j_scheduled_for :: "instant option"
  j_window_ends_at :: "instant option"
  j_change_window_id :: "string option"
  j_job_schedule_id :: "string option"
  j_approval_required :: "bool option"
  j_approved_at :: "instant option"
  j_missed_window_at :: "instant option"
  j_status :: string
  j_progress_pct :: int
  j_progress_message :: "string option"
  j_created_at :: instant
  j_started_at :: "instant option"
  j_completed_at :: "instant option"
  j_updated_at :: "instant option"
  j_created_by :: string
  j_error_message :: "string option"
  j_extra_data :: extra_text

definition metadata_dict :: "job \<Rightarrow> dict" where
  "metadata_dict j = (case j_extra_data j of EDict d \<Rightarrow> d | _ \<Rightarrow> [])"

definition set_metadata_dict :: "dict \<Rightarrow> job \<Rightarrow> job" where
  "set_metadata_dict d j = j\<lparr> j_extra_data := EDict d \<rparr>"

definition duration_seconds :: "instant \<Rightarrow> job \<Rightarrow> int option" where
  "duration_seconds now j =
     (case (j_started_at j, j_completed_at j) of
        (Some s, Some c) \<Rightarrow> Some (py_trunc (of_int (c - s) / 1000000))
      | (Some s, None) \<Rightarrow> Some (py_trunc (of_int (now - s) / 1000000))
      | (None, _) \<Rightarrow> None)"

record notification =
  n_event_type :: string
  n_title :: string
  n_body :: string
  n_resource_id :: string
  n_resource_kind :: string
  n_resource_name :: string
  n_workgroup :: string
  n_url :: string
  n_dedupe_bucket :: "string option"
  n_fields :: "(string \<times> string) list"

record res_row =
  rr_id :: string
  rr_status :: string

record pov_row =
  pe_id :: string
  pe_status :: string
  pe_created_at :: instant
  pe_error_message :: "string option"

record jdb =
  jobs :: "job list"
  outbox :: "notification list"
  clusters :: "res_row list"
  cloud_databases :: "res_row list"
  pov_environments :: "pov_row list"

section \<open>Constants and classification\<close>

definition ACTIVE_STATUSES :: "string list" where
  "ACTIVE_STATUSES = [''queued'', ''pending'', ''running'']"

definition ROUTINE_JOB_TYPES :: "string list" where
  "ROUTINE_JOB_TYPES = [''expiry_sweep'', ''schedule_sweep'', ''pov_env_reconcile'']"

definition READ_VERBS :: "string list" where
  "READ_VERBS = [''inventory_sync'']"

definition CHECKIN_VERBS :: "(string \<times> string list) list" where
  "CHECKIN_VERBS = [(''agent_hypervisor'', READ_VERBS)]"

definition is_checkin :: "string \<Rightarrow> dict \<Rightarrow> bool" where
  "is_checkin job_type metadata =
     (case map_of CHECKIN_VERBS job_type of
        None \<Rightarrow> False
      | Some verbs \<Rightarrow>
          (if verbs = [] then False
           else
             (let verb = dict_get metadata ''verb''
              in (if truthy verb then py_str verb else []) \<in> set verbs)))"

text \<open>The clauses both claim queries apply; NULL passes each of them.\<close>

definition claimable_now :: "instant \<Rightarrow> job \<Rightarrow> bool" where
  "claimable_now now j \<longleftrightarrow>
     (j_retry_after j = None \<or> the (j_retry_after j) \<le> now) \<and>
     (j_scheduled_for j = None \<or> the (j_scheduled_for j) \<le> now) \<and>
     (j_approval_required j \<noteq> Some True \<or> j_approved_at j \<noteq> None)"

section \<open>Creating and reading rows\<close>

record new_job =
  nj_job_type :: string
  nj_created_by :: string
  nj_vm_path :: "string option"
  nj_workgroup :: "string option"
  nj_metadata :: dict
  nj_batch_id :: "string option"
  nj_status :: string
  nj_expires_at :: "instant option"
  nj_agent_id :: "string option"
  nj_scheduled_for :: "instant option"
  nj_window_ends_at :: "instant option"
  nj_change_window_id :: "string option"
  nj_job_schedule_id :: "string option"
  nj_approval_required :: bool

definition new_row ::
  "(string \<Rightarrow> json option) \<Rightarrow> config \<Rightarrow> instant \<Rightarrow> string \<Rightarrow> new_job \<Rightarrow> job" where
  "new_row loads cfg now uuid nj =
     (let status = (if or_empty (nj_agent_id nj) \<noteq> [] then ''queued'' else nj_status nj);
          clock = (case nj_scheduled_for nj of None \<Rightarrow> now | Some s \<Rightarrow> s)
      in \<lparr> j_id = uuid, j_job_type = nj_job_type nj, j_workgroup = nj_workgroup nj,
           j_vm_path = nj_vm_path nj, j_cloud_resource_id = None,
           j_batch_id = or_none (nj_batch_id nj), j_agent_id = or_none (nj_agent_id nj),
           j_is_checkin =
             (if nj_job_type nj \<in> fst ` set CHECKIN_VERBS
              then Some (is_checkin (nj_job_type nj) (nj_metadata nj)) else None),
           j_expires_at =
             (case nj_expires_at nj of
                Some e \<Rightarrow> Some e
              | None \<Rightarrow> default_expiry_for loads cfg (nj_job_type nj) (nj_workgroup nj) clock),
           j_expiry_warned_at = None, j_suspend_at_local = None, j_resume_at_local = None,
           j_schedule_timezone = None, j_schedule_days = None, j_schedule_last_checked_at = None,
           j_spend_cap_usd = None, j_spend_estimate_usd = Some 0, j_spend_accrued_at = None,
           j_spend_warned_at = None, j_spend_capped_at = None, j_attempts = 0, j_retry_after = None,
           j_scheduled_for = nj_scheduled_for nj, j_window_ends_at = nj_window_ends_at nj,
           j_change_window_id = or_none (nj_change_window_id nj),
           j_job_schedule_id = or_none (nj_job_schedule_id nj),
           j_approval_required = (if nj_approval_required nj then Some True else None),
           j_approved_at = None, j_missed_window_at = None,
           j_status = status, j_progress_pct = 0, j_progress_message = None,
           j_created_at = now, j_started_at = None, j_completed_at = None, j_updated_at = None,
           j_created_by = nj_created_by nj, j_error_message = None,
           j_extra_data = (if nj_metadata nj = [] then ENull else EDict (nj_metadata nj)) \<rparr>)"

definition create_job ::
  "(string \<Rightarrow> json option) \<Rightarrow> config \<Rightarrow> instant \<Rightarrow> string \<Rightarrow> new_job \<Rightarrow> jdb \<Rightarrow> jdb \<times> job" where
  "create_job loads cfg now uuid nj db =
     (let j = new_row loads cfg now uuid nj in (db\<lparr> jobs := jobs db @ [j] \<rparr>, j))"

definition get_job :: "jdb \<Rightarrow> string \<Rightarrow> job option" where
  "get_job db jid = List.find (\<lambda>j. j_id j = jid) (jobs db)"

definition upd_job :: "string \<Rightarrow> (job \<Rightarrow> job) \<Rightarrow> jdb \<Rightarrow> jdb" where
  "upd_job jid f db = db\<lparr> jobs := tbl_update (\<lambda>j. j_id j = jid) f (jobs db) \<rparr>"

section \<open>Writing a row\<close>

definition merge_result :: "dict \<Rightarrow> job \<Rightarrow> job" where
  "merge_result result j =
     (if result = [] then j else set_metadata_dict (dict_update (metadata_dict j) result) j)"

definition set_cloud_resource_id :: "string \<Rightarrow> string \<Rightarrow> jdb \<Rightarrow> jdb" where
  "set_cloud_resource_id jid rid = upd_job jid (\<lambda>j. j\<lparr> j_cloud_resource_id := Some rid \<rparr>)"

definition running_row :: "instant \<Rightarrow> job \<Rightarrow> job" where
  "running_row now j =
     j\<lparr> j_status := ''running'', j_started_at := Some now, j_updated_at := Some now \<rparr>"

definition set_running :: "instant \<Rightarrow> string \<Rightarrow> jdb \<Rightarrow> jdb" where
  "set_running now jid = upd_job jid (running_row now)"

definition progress_row :: "instant \<Rightarrow> int \<Rightarrow> string \<Rightarrow> job \<Rightarrow> job" where
  "progress_row now pct message j =
     j\<lparr> j_progress_pct := pct, j_progress_message := Some message, j_updated_at := Some now \<rparr>"

definition update_progress :: "instant \<Rightarrow> string \<Rightarrow> int \<Rightarrow> string \<Rightarrow> jdb \<Rightarrow> jdb" where
  "update_progress now jid pct message = upd_job jid (progress_row now pct message)"

definition completed_row :: "instant \<Rightarrow> dict \<Rightarrow> job \<Rightarrow> job" where
  "completed_row now result j =
     merge_result result
       (j\<lparr> j_status := ''completed'', j_progress_pct := 100, j_completed_at := Some now,
           j_updated_at := Some now \<rparr>)"

definition set_completed :: "instant \<Rightarrow> string \<Rightarrow> dict \<Rightarrow> jdb \<Rightarrow> jdb" where
  "set_completed now jid result = upd_job jid (completed_row now result)"

definition retry_enabled :: "config \<Rightarrow> bool" where
  "retry_enabled cfg =
     (case config_get_bool cfg ''job_retry_enabled''
             (py_bool (getattr_setting cfg ''job_retry_enabled'' (PBool False))) of
        None \<Rightarrow> False | Some b \<Rightarrow> b)"

definition retry_limit :: "config \<Rightarrow> pyval" where
  "retry_limit cfg =
     (case config_get cfg ''job_retry_max_attempts'' [] of
        None \<Rightarrow> PNone
      | Some s \<Rightarrow> (if s \<noteq> [] then PStr s
                  else getattr_setting cfg ''job_retry_max_attempts'' PNone))"

definition job_label :: "job \<Rightarrow> string" where
  "job_label j =
     (if or_empty (j_vm_path j) \<noteq> [] then or_empty (j_vm_path j)
      else if or_empty (j_cloud_resource_id j) \<noteq> [] then or_empty (j_cloud_resource_id j)
      else j_job_type j)"

definition raise_dead_letter :: "job \<Rightarrow> jdb \<Rightarrow> jdb" where
  "raise_dead_letter j db =
     db\<lparr> outbox := outbox db @
       [\<lparr> n_event_type = ''job.dead_lettered'',
          n_title = j_job_type j @ '' failed after '' @ py_str_int (j_attempts j + 1) @
            '' attempts '' @ em_dash @ '' '' @ job_label j,
          n_body = ''Every retry for this job has been used and the failure persists. '' @
            ''Open the job to see the error.'',
          n_resource_id = ''job:'' @ j_id j, n_resource_kind = ''job'',
          n_resource_name = (if job_label j = [] then j_job_type j else job_label j),
          n_workgroup = or_empty (j_workgroup j), n_url = ''/jobs/'' @ j_id j,
          n_dedupe_bucket = Some (''job.dead_lettered:'' @ j_id j),
          n_fields = [(''Job type'', j_job_type j), (''Attempts'', py_str_int (j_attempts j + 1)),
                      (''Started by'', j_created_by j)] \<rparr>] \<rparr>"

definition notify_job_failed :: "job \<Rightarrow> jdb \<Rightarrow> jdb" where
  "notify_job_failed j db =
     db\<lparr> outbox := outbox db @
       [\<lparr> n_event_type = ''job.failed'',
          n_title = j_job_type j @ '' failed '' @ em_dash @ '' '' @ job_label j,
          n_body = take 1000 (if or_empty (j_error_message j) = []
                              then ''No error message was recorded.''
                              else or_empty (j_error_message j)),
          n_resource_id = ''job:'' @ j_id j, n_resource_kind = ''job'',
          n_resource_name = (if job_label j = [] then j_job_type j else job_label j),
          n_workgroup = or_empty (j_workgroup j), n_url = ''/jobs/'' @ j_id j,
          n_dedupe_bucket = None,
          n_fields = [(''Job type'', j_job_type j), (''Started by'', j_created_by j)] \<rparr>] \<rparr>"

text \<open>
  \<open>set_failed\<close>. The retry decision is taken on the row as it was read; the two announcements
  come after the commit, the dead letter first.
\<close>

definition failed_row :: "config \<Rightarrow> instant \<Rightarrow> string \<Rightarrow> dict \<Rightarrow> job \<Rightarrow> job" where
  "failed_row cfg now error result j0 =
     (let j = merge_result result (j0\<lparr> j_error_message := Some error, j_updated_at := Some now \<rparr>)
      in if retry_enabled cfg \<and>
            should_retry (j_job_type j) error (j_attempts j) (retry_limit cfg)
         then
           j\<lparr> j_attempts := j_attempts j + 1,
              j_retry_after := Some (now + seconds (backoff_seconds (j_attempts j + 1 - 1))),
              j_status := ''pending'', j_started_at := None \<rparr>
         else j\<lparr> j_status := ''failed'', j_completed_at := Some now \<rparr>)"

definition dead_lettered :: "config \<Rightarrow> job \<Rightarrow> bool" where
  "dead_lettered cfg j \<longleftrightarrow> j_status j = ''failed'' \<and> retry_enabled cfg \<and> j_attempts j > 0"

definition set_failed :: "config \<Rightarrow> instant \<Rightarrow> string \<Rightarrow> string \<Rightarrow> dict \<Rightarrow> jdb \<Rightarrow> jdb" where
  "set_failed cfg now jid error result db =
     (case get_job db jid of
        None \<Rightarrow> db
      | Some j0 \<Rightarrow>
          (let j = failed_row cfg now error result j0;
               db1 = upd_job jid (failed_row cfg now error result) db;
               db2 = (if dead_lettered cfg j then raise_dead_letter j db1 else db1)
           in notify_job_failed j db2))"

definition merged_row :: "dict \<Rightarrow> job \<Rightarrow> job" where
  "merged_row data j = set_metadata_dict (dict_update (metadata_dict j) data) j"

definition update_metadata :: "string \<Rightarrow> dict \<Rightarrow> jdb \<Rightarrow> jdb" where
  "update_metadata jid data = upd_job jid (merged_row data)"

definition cancelled_row :: "instant \<Rightarrow> job \<Rightarrow> job" where
  "cancelled_row now j =
     (if j_status j \<in> {''queued'', ''pending'', ''running''}
      then j\<lparr> j_status := ''cancelled'', j_completed_at := Some now \<rparr> else j)"

definition set_cancelled :: "instant \<Rightarrow> string \<Rightarrow> jdb \<Rightarrow> jdb" where
  "set_cancelled now jid = upd_job jid (cancelled_row now)"

definition missed_row :: "instant \<Rightarrow> string \<Rightarrow> job \<Rightarrow> job" where
  "missed_row now reason j =
     (if j_status j \<in> {''queued'', ''pending''}
      then j\<lparr> j_status := ''cancelled'', j_missed_window_at := Some now,
              j_completed_at := Some now, j_error_message := Some reason \<rparr> else j)"

definition set_missed_window :: "instant \<Rightarrow> string \<Rightarrow> string \<Rightarrow> jdb \<Rightarrow> jdb" where
  "set_missed_window now jid reason = upd_job jid (missed_row now reason)"

definition schedule_state :: "instant \<Rightarrow> job \<Rightarrow> string" where
  "schedule_state now j =
     (if j_missed_window_at j \<noteq> None then ''missed''
      else if j_status j \<in> {''queued'', ''pending''} then
        (if j_approval_required j = Some True \<and> j_approved_at j = None then ''awaiting_approval''
         else if (case j_scheduled_for j of None \<Rightarrow> False | Some s \<Rightarrow> s > now) then ''scheduled''
         else [])
      else
        (case (j_window_ends_at j, j_completed_at j) of
           (Some ends, Some c) \<Rightarrow> (if c > ends then ''overran'' else [])
         | _ \<Rightarrow> []))"

section \<open>Batches\<close>

definition count_status :: "string \<Rightarrow> job list \<Rightarrow> nat" where
  "count_status s js = length (filter (\<lambda>j. j_status j = s) js)"

definition finish_batch_parent ::
  "config \<Rightarrow> instant \<Rightarrow> string \<Rightarrow> string list \<Rightarrow> jdb \<Rightarrow> jdb" where
  "finish_batch_parent cfg now parent children db =
     (let rows = filter (\<lambda>j. j_id j \<in> set children) (jobs db);
          total = length rows;
          failed = count_status ''failed'' rows;
          summary = [(''batch_total'', JInt (int total)), (''batch_failed'', JInt (int failed)),
                     (''batch_completed'', JInt (int (count_status ''completed'' rows)))]
      in if total \<noteq> 0 \<and> failed = total
         then set_failed cfg now parent
                (''All '' @ py_str_int (int total) @ '' instance(s) in the batch failed.'') []
                (update_metadata parent summary db)
         else set_completed now parent summary db)"

definition BATCH_STATUSES :: "string list" where
  "BATCH_STATUSES = [''pending'', ''running'', ''completed'', ''failed'', ''cancelled'']"

fun bump :: "(string \<times> int) list \<Rightarrow> string \<Rightarrow> int \<Rightarrow> (string \<times> int) list" where
  "bump [] k n = [(k, n)]"
| "bump ((k', m) # d) k n = (if k' = k then (k, m + n) # d else (k', m) # bump d k n)"

definition summarize_statuses :: "(string option \<times> int) list \<Rightarrow> int \<times> (string \<times> int) list" where
  "summarize_statuses rows =
     (let by_status =
        fold (\<lambda>(s, n) d. bump d (if or_empty s = [] then ''unknown'' else or_empty s) n) rows
          (map (\<lambda>s. (s, 0)) BATCH_STATUSES)
      in (sum_list (map snd by_status), by_status))"

definition group_by_status :: "job list \<Rightarrow> (string option \<times> int) list" where
  "group_by_status js =
     map (\<lambda>s. (Some s, int (count_status s js))) (remdups (map j_status js))"

definition batch_summary :: "jdb \<Rightarrow> string \<Rightarrow> string option \<Rightarrow> int \<times> (string \<times> int) list" where
  "batch_summary db batch created_by =
     summarize_statuses (group_by_status
       (filter (\<lambda>j. j_batch_id j = Some batch \<and>
                    (or_empty created_by = [] \<or> j_created_by j = or_empty created_by)) (jobs db)))"

section \<open>Listing\<close>

record job_filter =
  f_page :: int
  f_page_size :: int
  f_status :: "string option"
  f_created_by :: "string option"
  f_workgroup :: "string option"
  f_batch_id :: "string option"
  f_include_routine :: bool
  f_include_checkins :: bool
  f_dead_lettered :: bool
  f_scheduled :: bool

definition job_matches :: "job_filter \<Rightarrow> job \<Rightarrow> bool" where
  "job_matches f j \<longleftrightarrow>
     (f_dead_lettered f \<longrightarrow> j_status j = ''failed'' \<and> j_attempts j > 0) \<and>
     (f_scheduled f \<longrightarrow> j_status j \<in> {''queued'', ''pending''} \<and>
        (j_scheduled_for j \<noteq> None \<or> j_approval_required j = Some True)) \<and>
     (\<not> f_include_routine f \<longrightarrow>
        \<not> (j_job_type j \<in> set ROUTINE_JOB_TYPES \<and> j_status j = ''completed'')) \<and>
     (\<not> f_include_checkins f \<longrightarrow>
        \<not> (j_is_checkin j = Some True \<and> j_status j = ''completed'')) \<and>
     (or_empty (f_status f) \<noteq> [] \<longrightarrow>
        j_status j \<in> set (filter (\<lambda>s. s \<noteq> []) (split_on (CHR '','') (or_empty (f_status f))))) \<and>
     (or_empty (f_created_by f) \<noteq> [] \<longrightarrow> j_created_by j = or_empty (f_created_by f)) \<and>
     (or_empty (f_workgroup f) \<noteq> [] \<longrightarrow> j_workgroup j = f_workgroup f) \<and>
     (or_empty (f_batch_id f) \<noteq> [] \<longrightarrow> j_batch_id j = f_batch_id f)"

definition list_jobs :: "job_filter \<Rightarrow> jdb \<Rightarrow> job list \<times> nat" where
  "list_jobs f db =
     (let rows = filter (job_matches f) (jobs db);
          sorted_rows = sort_key (\<lambda>j. - j_created_at j) rows
      in (take (nat (f_page_size f)) (drop (nat ((f_page f - 1) * f_page_size f)) sorted_rows),
          length rows))"

definition has_active_job_for_vm :: "jdb \<Rightarrow> string \<Rightarrow> bool" where
  "has_active_job_for_vm db vmx_path \<longleftrightarrow>
     rowcount (\<lambda>j. j_vm_path j = Some vmx_path \<and> j_status j \<in> set ACTIVE_STATUSES) (jobs db) > 0"

definition is_cancelled :: "jdb \<Rightarrow> string \<Rightarrow> bool" where
  "is_cancelled db jid =
     (case get_job db jid of None \<Rightarrow> False | Some j \<Rightarrow> j_status j = ''cancelled'')"

section \<open>Classifying old rows\<close>

definition unclassified :: "job \<Rightarrow> bool" where
  "unclassified j \<longleftrightarrow> j_job_type j \<in> fst ` set CHECKIN_VERBS \<and> j_is_checkin j = None"

definition classify :: "job \<Rightarrow> job" where
  "classify j =
     j\<lparr> j_is_checkin := Some (is_checkin (j_job_type j)
          (case j_extra_data j of EDict d \<Rightarrow> d | _ \<Rightarrow> [])) \<rparr>"

text \<open>One page: the first \<open>n\<close> unclassified rows of the table, each written.\<close>

fun classify_page :: "nat \<Rightarrow> job list \<Rightarrow> job list" where
  "classify_page n [] = []"
| "classify_page n (j # js) =
     (if unclassified j then
        (case n of 0 \<Rightarrow> j # js | Suc m \<Rightarrow> classify j # classify_page m js)
      else j # classify_page n js)"

lemma classify_not_unclassified [simp]: "\<not> unclassified (classify j)"
  by (simp add: classify_def unclassified_def)

lemma length_filter_classify_page:
  "length (filter unclassified (classify_page n js)) =
   length (filter unclassified js) - n"
  by (induction n js rule: classify_page.induct) (auto split: nat.splits)

function backfill_rows :: "nat \<Rightarrow> job list \<Rightarrow> nat \<Rightarrow> job list \<times> nat" where
  "backfill_rows batch js written =
     (let rows = min batch (length (filter unclassified js)) in
      if rows = 0 then (js, written)
      else
        (let js' = classify_page batch js; written' = written + rows in
         if rows < batch then (js', written') else backfill_rows batch js' written'))"
  by pat_completeness auto
termination
  by (relation "measure (\<lambda>(batch, js, written). length (filter unclassified js))")
    (auto simp: length_filter_classify_page)

declare backfill_rows.simps [simp del]

definition backfill_job_checkins :: "nat \<Rightarrow> jdb \<Rightarrow> jdb \<times> nat" where
  "backfill_job_checkins batch db =
     (case backfill_rows batch (jobs db) 0 of (js, n) \<Rightarrow> (db\<lparr> jobs := js \<rparr>, n))"

section \<open>Terraform locks\<close>

definition lock_blocking_jobs :: "job list \<Rightarrow> instant option \<Rightarrow> job list" where
  "lock_blocking_jobs js lock_created =
     filter (\<lambda>j. j_status j = ''running'' \<and>
       (case lock_created of
          None \<Rightarrow> True
        | Some t \<Rightarrow> (case j_started_at j of None \<Rightarrow> True | Some s \<Rightarrow> s \<le> t))) js"

definition terraform_lock_blockers :: "jdb \<Rightarrow> instant option \<Rightarrow> job list" where
  "terraform_lock_blockers db lock_created =
     lock_blocking_jobs (filter (\<lambda>j. j_status j = ''running'') (jobs db)) lock_created"

section \<open>Reconciling stale jobs\<close>

definition flip_failed :: "string \<Rightarrow> string list \<Rightarrow> res_row list \<Rightarrow> res_row list" where
  "flip_failed rid states =
     tbl_update (\<lambda>r. rr_id r = rid \<and> rr_status r \<in> set states) (\<lambda>r. r\<lparr> rr_status := ''failed'' \<rparr>)"

definition flip_resource_row :: "job \<Rightarrow> jdb \<Rightarrow> jdb" where
  "flip_resource_row j db =
     (let meta = metadata_dict j in
      if j_job_type j \<in> {''k8s_provision'', ''k8s_decommission''} then
        (case dict_get meta ''cluster_id'' of
           JStr cid \<Rightarrow> (if cid = [] then db
                        else db\<lparr> clusters := flip_failed cid
                               [''provisioning'', ''deploying'', ''decommissioning''] (clusters db) \<rparr>)
         | _ \<Rightarrow> db)
      else if j_job_type j \<in> {''clouddb_provision'', ''clouddb_decommission''} then
        (case dict_get meta ''db_id'' of
           JStr did \<Rightarrow> (if did = [] then db
                        else db\<lparr> cloud_databases := flip_failed did
                               [''provisioning'', ''decommissioning''] (cloud_databases db) \<rparr>)
         | _ \<Rightarrow> db)
      else db)"

definition POV_ENV_JOB_TYPES :: "string list" where
  "POV_ENV_JOB_TYPES = [''pov_env_provision'', ''pov_env_destroy'']"

definition POV_STRANDED :: "string list" where
  "POV_STRANDED = [''provisioning'', ''destroying'']"

definition live_env_ids :: "jdb \<Rightarrow> json list" where
  "live_env_ids db =
     map (\<lambda>j. dict_get (metadata_dict j) ''environment_id'')
       (filter (\<lambda>j. j_job_type j \<in> set POV_ENV_JOB_TYPES \<and>
                    j_status j \<in> {''pending'', ''running''}) (jobs db))"

definition stranded :: "jdb \<Rightarrow> instant \<Rightarrow> pov_row \<Rightarrow> bool" where
  "stranded db cutoff r \<longleftrightarrow>
     pe_status r \<in> set POV_STRANDED \<and> pe_created_at r \<le> cutoff \<and>
     JStr (pe_id r) \<notin> set (live_env_ids db)"

definition reap_stranded_pov_rows :: "instant \<Rightarrow> jdb \<Rightarrow> jdb \<times> nat" where
  "reap_stranded_pov_rows cutoff db =
     (db\<lparr> pov_environments :=
        tbl_update (stranded db cutoff)
          (\<lambda>r. r\<lparr> pe_status := ''failed'',
                  pe_error_message := Some
                    (''Interrupted while '' @ pe_status r @
                     '' (the job behind it is no longer running, most '' @
                     ''likely an app restart). Destroy to clean up whatever it did create.'') \<rparr>)
          (pov_environments db) \<rparr>,
      rowcount (stranded db cutoff) (pov_environments db))"

definition last_heartbeat :: "job \<Rightarrow> instant" where
  "last_heartbeat j =
     (case j_updated_at j of
        Some u \<Rightarrow> u
      | None \<Rightarrow> (case j_started_at j of Some s \<Rightarrow> s | None \<Rightarrow> j_created_at j))"

definition stale :: "instant \<Rightarrow> job \<Rightarrow> bool" where
  "stale cutoff j \<longleftrightarrow> j_status j = ''running'' \<and> \<not> last_heartbeat j > cutoff"

definition interrupted_message :: string where
  "interrupted_message = ''Interrupted by an app restart (no heartbeat) '' @ em_dash @
     '' re-run if needed.''"

definition reconcile_row :: "instant \<Rightarrow> job \<Rightarrow> job" where
  "reconcile_row now j =
     j\<lparr> j_status := ''failed'', j_completed_at := Some now, j_updated_at := Some now,
        j_error_message := Some interrupted_message \<rparr>"

definition reconcile_stale_jobs :: "instant \<Rightarrow> int \<Rightarrow> jdb \<Rightarrow> jdb \<times> nat" where
  "reconcile_stale_jobs now stale_after_minutes db =
     (let cutoff = now - minutes stale_after_minutes;
          victims = filter (stale cutoff) (jobs db);
          db1 = db\<lparr> jobs := tbl_update (stale cutoff) (reconcile_row now) (jobs db) \<rparr>;
          db2 = fold flip_resource_row victims db1;
          db3 = fold notify_job_failed (map (reconcile_row now) victims) db2
      in (fst (reap_stranded_pov_rows cutoff db3), length victims))"

section \<open>The row invariant and its contract\<close>

definition STATUSES :: "string list" where
  "STATUSES = [''queued'', ''pending'', ''running'', ''completed'', ''failed'', ''cancelled'']"

text \<open>
  What every row satisfies: a known status, a completion time once terminal and a start time
  while running, an attempt count the retry policy can produce, and a row bound to a remote
  agent is \<open>pending\<close> only when a requeue, which counts an attempt, wrote it there.
\<close>

definition row_ok :: "job \<Rightarrow> bool" where
  "row_ok j \<longleftrightarrow>
     j_status j \<in> set STATUSES \<and>
     (j_status j \<in> {''completed'', ''failed'', ''cancelled''} \<longrightarrow> j_completed_at j \<noteq> None) \<and>
     (j_status j = ''running'' \<longrightarrow> j_started_at j \<noteq> None) \<and>
     0 \<le> j_attempts j \<and> j_attempts j \<le> 4 \<and>
     (j_attempts j > 0 \<longrightarrow> retryable_type (j_job_type j) \<and> j_retry_after j \<noteq> None) \<and>
     (j_agent_id j \<noteq> None \<and> j_status j = ''pending'' \<longrightarrow> 0 < j_attempts j)"

definition db_ok :: "jdb \<Rightarrow> bool" where
  "db_ok db \<longleftrightarrow> distinct (map j_id (jobs db)) \<and> (\<forall>j \<in> set (jobs db). row_ok j)"

locale row_write =
  fixes f :: "job \<Rightarrow> job"
  assumes keeps_id: "j_id (f j) = j_id j"
    and keeps_type: "j_job_type (f j) = j_job_type j"
    and keeps_row_ok: "row_ok j \<Longrightarrow> row_ok (f j)"
begin

lemma ids_tbl_update: "map j_id (tbl_update p f js) = map j_id js"
  by (rule tbl_update_comp_key) (rule keeps_id)

lemma db_ok_tbl_update:
  "db_ok db \<Longrightarrow> db_ok (db\<lparr> jobs := tbl_update p f (jobs db) \<rparr>)"
  by (auto simp: db_ok_def ids_tbl_update set_tbl_update keeps_row_ok)

lemma db_ok_upd_job: "db_ok db \<Longrightarrow> db_ok (upd_job jid f db)"
  unfolding upd_job_def by (rule db_ok_tbl_update)

lemma get_job_upd_job:
  "get_job (upd_job jid f db) k = (if k = jid then map_option f (get_job db k) else get_job db k)"
proof -
  let ?g = "\<lambda>x. if j_id x = jid then f x else x"
  have "List.find (\<lambda>j. j_id j = k) (map ?g (jobs db)) =
      map_option ?g (List.find (\<lambda>j. j_id j = k) (jobs db))"
    by (rule find_map_key) (simp add: keeps_id)
  then show ?thesis
    by (cases "List.find (\<lambda>j. j_id j = k) (jobs db)")
      (auto simp: get_job_def upd_job_def tbl_update_def dest: find_Some_set)
qed

lemma other_rows_unchanged:
  "j \<in> set (jobs db) \<Longrightarrow> j_id j \<noteq> jid \<Longrightarrow> j \<in> set (jobs (upd_job jid f db))"
  by (auto simp: upd_job_def set_tbl_update)

end

lemmas row_defs [job_simps] =
  running_row_def progress_row_def completed_row_def cancelled_row_def missed_row_def merged_row_def
  reconcile_row_def merge_result_def set_metadata_dict_def STATUSES_def

interpretation running: row_write "running_row now" for now
  by unfold_locales (auto simp: row_ok_def job_simps)

interpretation progress: row_write "progress_row now pct msg" for now pct msg
  by unfold_locales (auto simp: row_ok_def job_simps)

interpretation completed: row_write "completed_row now result" for now result
  by unfold_locales (auto simp: row_ok_def job_simps)

interpretation cancelled: row_write "cancelled_row now" for now
  by unfold_locales (auto simp: row_ok_def job_simps)

interpretation missed: row_write "missed_row now reason" for now reason
  by unfold_locales (auto simp: row_ok_def job_simps)

interpretation merged: row_write "merged_row data" for data
  by unfold_locales (auto simp: row_ok_def job_simps)

interpretation reconciled: row_write "reconcile_row now" for now
  by unfold_locales (auto simp: row_ok_def job_simps)

interpretation classified: row_write classify
  by unfold_locales (auto simp: row_ok_def classify_def)

lemma failed_row_cases:
  "failed_row cfg now error result j =
     (let k = merge_result result (j\<lparr> j_error_message := Some error, j_updated_at := Some now \<rparr>) in
      if retry_enabled cfg \<and> should_retry (j_job_type j) error (j_attempts j) (retry_limit cfg)
      then k\<lparr> j_attempts := j_attempts j + 1,
              j_retry_after := Some (now + seconds (backoff_seconds (j_attempts j))),
              j_status := ''pending'', j_started_at := None \<rparr>
      else k\<lparr> j_status := ''failed'', j_completed_at := Some now \<rparr>)"
  by (simp add: failed_row_def merge_result_def set_metadata_dict_def Let_def)

interpretation failing: row_write "failed_row cfg now error result" for cfg now error result
proof
  fix j
  show "j_id (failed_row cfg now error result j) = j_id j"
    by (simp add: failed_row_cases job_simps Let_def)
  show "j_job_type (failed_row cfg now error result j) = j_job_type j"
    by (simp add: failed_row_cases job_simps Let_def)
  assume "row_ok j"
  then show "row_ok (failed_row cfg now error result j)"
    using should_retry_bound [of "j_job_type j" error "j_attempts j" "retry_limit cfg"]
    by (auto simp: failed_row_cases row_ok_def job_simps should_retry_iff Let_def)
qed

section \<open>What the operations do\<close>

lemma get_job_SomeD: "get_job db k = Some j \<Longrightarrow> j \<in> set (jobs db) \<and> j_id j = k"
  unfolding get_job_def by (drule find_Some_set) simp

lemma jobs_notify [simp]:
  "jobs (notify_job_failed j db) = jobs db" "jobs (raise_dead_letter j db) = jobs db"
  by (simp_all add: notify_job_failed_def raise_dead_letter_def)

lemma get_job_jobs_cong: "jobs a = jobs b \<Longrightarrow> get_job a = get_job b"
  by (rule ext) (simp add: get_job_def)

lemma outbox_upd_job [simp]: "outbox (upd_job jid f db) = outbox db"
  by (simp add: upd_job_def)

lemma get_job_append:
  "get_job (db\<lparr> jobs := jobs db @ [j] \<rparr>) k =
     (case get_job db k of Some x \<Rightarrow> Some x | None \<Rightarrow> (if j_id j = k then Some j else None))"
proof -
  have "List.find P (xs @ [j]) =
      (case List.find P xs of Some x \<Rightarrow> Some x | None \<Rightarrow> (if P j then Some j else None))" for P xs
    by (induction xs) auto
  then show ?thesis by (simp add: get_job_def)
qed

lemma get_job_NoneD: "get_job db k = None \<Longrightarrow> k \<notin> j_id ` set (jobs db)"
  by (auto simp: get_job_def find_None_iff)

lemma new_row_ok:
  assumes "nj_status nj \<in> {''queued'', ''pending''}"
  shows "row_ok (new_row loads cfg now uuid nj)"
  using assms by (auto simp: row_ok_def new_row_def STATUSES_def or_none_def Let_def)

text \<open>
  Creating a job with a fresh id stores exactly the row it returns, keeps the invariant
  and every other row; a job bound to an agent is stored \<open>queued\<close> whatever status the caller
  passed, so that no local runner may pick it up; and unless the caller gave an expiry, the
  default one is counted from the start the job was scheduled for, not from now.
\<close>
theorem create_job_stores_row:
  assumes "db_ok db" and "get_job db uuid = None"
    and "nj_status nj \<in> {''queued'', ''pending''}"
  shows "db_ok (fst (create_job loads cfg now uuid nj db)) \<and>
    get_job (fst (create_job loads cfg now uuid nj db)) k =
      (if k = uuid then Some (snd (create_job loads cfg now uuid nj db)) else get_job db k) \<and>
    (or_empty (nj_agent_id nj) \<noteq> [] \<longrightarrow>
       j_status (snd (create_job loads cfg now uuid nj db)) = ''queued'') \<and>
    j_expires_at (snd (create_job loads cfg now uuid nj db)) =
      (if nj_expires_at nj \<noteq> None then nj_expires_at nj
       else default_expiry_for loads cfg (nj_job_type nj) (nj_workgroup nj)
              (if nj_scheduled_for nj \<noteq> None then the (nj_scheduled_for nj) else now))"
proof -
  let ?j = "new_row loads cfg now uuid nj"
  have create: "create_job loads cfg now uuid nj db = (db\<lparr> jobs := jobs db @ [?j] \<rparr>, ?j)"
    by (simp add: create_job_def Let_def)
  have id: "j_id ?j = uuid" by (simp add: new_row_def Let_def)
  have "db_ok (db\<lparr> jobs := jobs db @ [?j] \<rparr>)"
    using assms(1) get_job_NoneD [OF assms(2)] new_row_ok [OF assms(3)] id by (simp add: db_ok_def)
  moreover have "get_job (db\<lparr> jobs := jobs db @ [?j] \<rparr>) k = (if k = uuid then Some ?j else get_job db k)"
    using assms(2) id by (auto simp: get_job_append split: option.splits)
  moreover have "or_empty (nj_agent_id nj) \<noteq> [] \<longrightarrow> j_status ?j = ''queued''"
    by (simp add: new_row_def Let_def)
  moreover have "j_expires_at ?j =
      (if nj_expires_at nj \<noteq> None then nj_expires_at nj
       else default_expiry_for loads cfg (nj_job_type nj) (nj_workgroup nj)
              (if nj_scheduled_for nj \<noteq> None then the (nj_scheduled_for nj) else now))"
    by (simp add: new_row_def Let_def split: option.splits)
  ultimately show ?thesis by (simp only: create fst_conv snd_conv simp_thms)
qed

definition empty_db :: jdb where
  "empty_db = \<lparr> jobs = [], outbox = [], clusters = [], cloud_databases = [], pov_environments = [] \<rparr>"

definition plain_new_job :: "string \<Rightarrow> string option \<Rightarrow> string \<Rightarrow> new_job" where
  "plain_new_job job_type agent status =
     \<lparr> nj_job_type = job_type, nj_created_by = ''ops'', nj_vm_path = None, nj_workgroup = None,
        nj_metadata = [], nj_batch_id = None, nj_status = status, nj_expires_at = None,
        nj_agent_id = agent, nj_scheduled_for = None, nj_window_ends_at = None,
        nj_change_window_id = None, nj_job_schedule_id = None, nj_approval_required = False \<rparr>"

theorem create_job_stores_row_witness:
  "j_status (snd (create_job (\<lambda>_. None) default_config 5 ''j1''
      (plain_new_job ''agent_hypervisor'' (Some ''a1'') ''pending'') empty_db)) = ''queued''"
  using create_job_stores_row [of empty_db "''j1''"
      "plain_new_job ''agent_hypervisor'' (Some ''a1'') ''pending''" "\<lambda>_. None" default_config 5]
  by (simp add: db_ok_def empty_db_def get_job_def plain_new_job_def)

lemma jobs_set_failed:
  "get_job db jid = Some j \<Longrightarrow>
   jobs (set_failed cfg now jid error result db) =
   jobs (upd_job jid (failed_row cfg now error result) db)"
  by (simp add: set_failed_def Let_def)

lemma set_failed_missing: "get_job db jid = None \<Longrightarrow> set_failed cfg now jid error result db = db"
  by (simp add: set_failed_def)

lemma db_ok_jobs_cong: "jobs a = jobs b \<Longrightarrow> db_ok a = db_ok b"
  by (simp add: db_ok_def)

lemma db_ok_set_failed: "db_ok db \<Longrightarrow> db_ok (set_failed cfg now jid error result db)"
  by (cases "get_job db jid")
    (simp_all add: set_failed_missing db_ok_jobs_cong [OF jobs_set_failed] failing.db_ok_upd_job)

lemma get_job_set_failed:
  "get_job (set_failed cfg now jid error result db) k =
     (if k = jid then map_option (failed_row cfg now error result) (get_job db k) else get_job db k)"
  by (cases "get_job db jid")
    (auto simp: set_failed_missing get_job_jobs_cong [OF jobs_set_failed] failing.get_job_upd_job)

text \<open>
  C10. \<open>set_failed\<close> on a stored row: when retrying is on, the type may be re-entered, the error
  looks transient and attempts remain, the row goes back to \<open>pending\<close> with one more attempt, no
  start time and the backoff of the attempts already made; otherwise it is \<open>failed\<close> with a
  completion time and its attempts unchanged. No other row changes, and the invariant survives.
\<close>
theorem set_failed_requeues_or_fails:
  assumes "db_ok db" and "get_job db jid = Some j"
    and "db' = set_failed cfg now jid error result db"
  shows "db_ok db' \<and> (\<forall>k. k \<noteq> jid \<longrightarrow> get_job db' k = get_job db k) \<and>
    (\<exists>j'. get_job db' jid = Some j' \<and> j_error_message j' = Some error \<and>
       (if retry_enabled cfg \<and> retryable_type (j_job_type j) \<and> is_transient error \<and>
           j_attempts j + 1 < max_attempts (retry_limit cfg)
        then j_status j' = ''pending'' \<and> j_attempts j' = j_attempts j + 1 \<and>
             j_started_at j' = None \<and>
             j_retry_after j' = Some (now + seconds (backoff_seconds (j_attempts j)))
        else j_status j' = ''failed'' \<and> j_attempts j' = j_attempts j \<and>
             j_completed_at j' = Some now))"
  using assms(2) unfolding assms(3)
  by (simp add: db_ok_set_failed [OF assms(1)] get_job_set_failed failed_row_cases should_retry_iff
      merge_result_def set_metadata_dict_def Let_def)

definition running_job :: "string \<Rightarrow> string \<Rightarrow> int \<Rightarrow> job" where
  "running_job jid job_type attempts =
     running_row 7 ((new_row (\<lambda>_. None) default_config 5 jid (plain_new_job job_type None ''pending''))
       \<lparr> j_attempts := attempts, j_retry_after := Some 6 \<rparr>)"

definition one_job_db :: "job \<Rightarrow> jdb" where
  "one_job_db j = empty_db\<lparr> jobs := [j] \<rparr>"

lemma one_job_db_simps [simp]:
  "jobs (one_job_db j) = [j]" "outbox (one_job_db j) = []" "clusters (one_job_db j) = []"
  "cloud_databases (one_job_db j) = []" "pov_environments (one_job_db j) = []"
  by (simp_all add: one_job_db_def empty_db_def)

lemma running_job_simps [simp]:
  "j_id (running_job jid t n) = jid" "j_job_type (running_job jid t n) = t"
  "j_attempts (running_job jid t n) = n" "j_status (running_job jid t n) = ''running''"
  "j_updated_at (running_job jid t n) = Some 7" "j_started_at (running_job jid t n) = Some 7"
  "j_agent_id (running_job jid t n) = None" "j_retry_after (running_job jid t n) = Some 6"
  by (simp_all add: running_job_def running_row_def new_row_def plain_new_job_def or_none_def Let_def)

definition retry_config :: config where
  "retry_config = default_config\<lparr> cfg_store := [(''job_retry_enabled'', ''true'')] \<rparr>"

lemma retry_config_simps [simp]: "retry_enabled retry_config"
  "max_attempts (retry_limit retry_config) = 3"
  by code_simp+

theorem set_failed_requeues_or_fails_witness:
  "\<exists>j'. get_job (set_failed retry_config 100 ''j1'' ''Throttling'' []
      (one_job_db (running_job ''j1'' ''ec2_power'' 1))) ''j1'' = Some j' \<and>
    j_status j' = ''pending'' \<and> j_retry_after j' = Some (100 + seconds 120)"
proof -
  have "retryable_type ''ec2_power''" "is_transient ''Throttling''" by code_simp+
  then show ?thesis
    using set_failed_requeues_or_fails [of "one_job_db (running_job ''j1'' ''ec2_power'' 1)" "''j1''"
        "running_job ''j1'' ''ec2_power'' 1" _ retry_config 100 "''Throttling''" "[]", OF _ _ refl]
    by (auto simp: db_ok_def row_ok_def STATUSES_def get_job_def backoff_seconds_cases)
qed

text \<open>
  Every \<open>set_failed\<close> on a stored row queues one \<open>job.failed\<close> message, last, preceded by a
  \<open>job.dead_lettered\<close> one exactly when the row ended \<open>failed\<close> after at least one requeue: also
  a row that goes back to \<open>pending\<close>, whose job has not failed yet, is announced as failed.
\<close>
theorem set_failed_announces:
  assumes "get_job db jid = Some j"
    and "j' = failed_row cfg now error result j"
  shows "map (\<lambda>n. (n_event_type n, n_resource_id n)) (outbox (set_failed cfg now jid error result db)) =
    map (\<lambda>n. (n_event_type n, n_resource_id n)) (outbox db) @
    (if j_status j' = ''failed'' \<and> retry_enabled cfg \<and> j_attempts j > 0
     then [(''job.dead_lettered'', ''job:'' @ jid)] else []) @
    [(''job.failed'', ''job:'' @ jid)]"
proof -
  have "j_id j = jid" using assms(1) get_job_SomeD by blast
  then have j': "j_id j' = jid" "j_status j' = ''failed'' \<longrightarrow> j_attempts j' = j_attempts j"
    by (simp_all add: assms(2) failed_row_cases merge_result_def set_metadata_dict_def Let_def)
  have "set_failed cfg now jid error result db =
      (let db1 = upd_job jid (failed_row cfg now error result) db
       in notify_job_failed j' (if dead_lettered cfg j' then raise_dead_letter j' db1 else db1))"
    using assms by (simp add: set_failed_def Let_def)
  with j' show ?thesis
    by (auto simp: notify_job_failed_def raise_dead_letter_def dead_lettered_def Let_def)
qed

theorem set_failed_announces_witness:
  "map n_event_type (outbox (set_failed retry_config 100 ''j1'' ''Throttling'' []
      (one_job_db (running_job ''j1'' ''ec2_power'' 1)))) = [''job.failed''] \<and>
   j_status (failed_row retry_config 100 ''Throttling'' [] (running_job ''j1'' ''ec2_power'' 1)) =
     ''pending''"
proof -
  have "retryable_type ''ec2_power''" "is_transient ''Throttling''" by code_simp+
  then have st: "j_status (failed_row retry_config 100 ''Throttling'' []
      (running_job ''j1'' ''ec2_power'' 1)) = ''pending''"
    by (simp add: failed_row_cases should_retry_iff merge_result_def)
  have "get_job (one_job_db (running_job ''j1'' ''ec2_power'' 1)) ''j1'' =
      Some (running_job ''j1'' ''ec2_power'' 1)"
    by (simp add: get_job_def)
  from arg_cong [OF set_failed_announces [OF this refl, of retry_config 100 "''Throttling''" "[]"],
      of "map fst"] st
  show ?thesis by (simp add: comp_def)
qed

section \<open>The stale-job reconciler\<close>

lemma jobs_flip_resource_row [simp]: "jobs (flip_resource_row j db) = jobs db"
  by (simp add: flip_resource_row_def Let_def split: json.splits)

lemma outbox_flip_resource_row [simp]: "outbox (flip_resource_row j db) = outbox db"
  by (simp add: flip_resource_row_def Let_def split: json.splits)

lemma jobs_fold_flip [simp]: "jobs (fold flip_resource_row vs db) = jobs db"
  by (induction vs arbitrary: db) simp_all

lemma outbox_fold_flip [simp]: "outbox (fold flip_resource_row vs db) = outbox db"
  by (induction vs arbitrary: db) simp_all

lemma jobs_fold_notify [simp]: "jobs (fold notify_job_failed vs db) = jobs db"
  by (induction vs arbitrary: db) simp_all

lemma outbox_fold_notify:
  "map n_resource_id (outbox (fold notify_job_failed vs db)) =
   map n_resource_id (outbox db) @ map (\<lambda>j. ''job:'' @ j_id j) vs"
  by (induction vs arbitrary: db) (simp_all add: notify_job_failed_def)

lemma reconcile_jobs:
  "jobs (fst (reconcile_stale_jobs now n db)) =
   tbl_update (stale (now - minutes n)) (reconcile_row now) (jobs db)"
  by (simp add: reconcile_stale_jobs_def reap_stranded_pov_rows_def Let_def)

lemma reconcile_outbox:
  "map n_resource_id (outbox (fst (reconcile_stale_jobs now n db))) =
   map n_resource_id (outbox db) @
   map (\<lambda>j. ''job:'' @ j_id j) (filter (stale (now - minutes n)) (jobs db))"
  by (simp add: reconcile_stale_jobs_def reap_stranded_pov_rows_def outbox_fold_notify
      reconciled.keeps_id comp_def Let_def)

lemma reconcile_count:
  "snd (reconcile_stale_jobs now n db) = length (filter (stale (now - minutes n)) (jobs db))"
  by (simp add: reconcile_stale_jobs_def Let_def)

lemma not_stale_reconcile_row [simp]: "\<not> stale c (reconcile_row now j)"
  by (simp add: stale_def reconcile_row_def)

lemma filter_stale_again:
  "filter (stale c) (tbl_update (stale c) (reconcile_row now) js) = []"
  by (auto simp: filter_empty_conv set_tbl_update)

lemma tbl_update_id: "filter p xs = [] \<Longrightarrow> tbl_update p f xs = xs"
  by (induction xs) (auto simp: tbl_update_def split: if_splits)

text \<open>
  The reconciler fails exactly the running rows whose last sign of life (update, else
  start, else creation) is not after the cutoff, returns their number, announces each of them
  once and in table order, and keeps the invariant; a running job that reported after the
  cutoff is untouched, and a second pass with the same clock finds nothing.
\<close>
theorem reconcile_stale_jobs_exact:
  assumes "db_ok db" and "cutoff = now - minutes n"
    and "reconcile_stale_jobs now n db = (db', failed)"
  shows "db_ok db' \<and> jobs db' = map (\<lambda>j. if stale cutoff j then reconcile_row now j else j) (jobs db) \<and>
    failed = length (filter (stale cutoff) (jobs db)) \<and>
    map n_resource_id (outbox db') = map n_resource_id (outbox db) @
      map (\<lambda>j. ''job:'' @ j_id j) (filter (stale cutoff) (jobs db)) \<and>
    (\<forall>j \<in> set (jobs db). last_heartbeat j > cutoff \<longrightarrow> j \<in> set (jobs db')) \<and>
    jobs (fst (reconcile_stale_jobs now n db')) = jobs db' \<and>
    snd (reconcile_stale_jobs now n db') = 0"
proof -
  have db': "db' = fst (reconcile_stale_jobs now n db)" and
    failed: "failed = snd (reconcile_stale_jobs now n db)" using assms(3) by simp_all
  have jobs: "jobs db' = tbl_update (stale cutoff) (reconcile_row now) (jobs db)"
    unfolding db' assms(2) by (rule reconcile_jobs)
  have "db_ok db'"
    using reconciled.db_ok_tbl_update [OF assms(1), of "stale cutoff" now] jobs
    by (simp add: db_ok_def)
  moreover have "\<forall>j \<in> set (jobs db). last_heartbeat j > cutoff \<longrightarrow> j \<in> set (jobs db')"
    by (auto simp: jobs set_tbl_update stale_def)
  moreover have "jobs (fst (reconcile_stale_jobs now n db')) = jobs db'"
    using tbl_update_id [OF filter_stale_again [of cutoff now "jobs db"]]
    by (simp add: reconcile_jobs jobs flip: assms(2))
  moreover have "snd (reconcile_stale_jobs now n db') = 0"
    by (simp add: reconcile_count jobs filter_stale_again flip: assms(2))
  moreover have "map n_resource_id (outbox db') = map n_resource_id (outbox db) @
      map (\<lambda>j. ''job:'' @ j_id j) (filter (stale cutoff) (jobs db))"
    unfolding db' assms(2) by (rule reconcile_outbox)
  moreover have "failed = length (filter (stale cutoff) (jobs db))"
    unfolding failed assms(2) by (rule reconcile_count)
  ultimately show ?thesis using jobs by (simp only: tbl_update_def simp_thms)
qed

theorem reconcile_stale_jobs_exact_witness:
  "snd (reconcile_stale_jobs 1000000000 10
      (one_job_db (running_job ''j1'' ''ec2_power'' 1))) = 1"
proof -
  let ?db = "one_job_db (running_job ''j1'' ''ec2_power'' 1)"
  have "db_ok ?db" by (auto simp: db_ok_def row_ok_def STATUSES_def) code_simp
  from reconcile_stale_jobs_exact [OF this refl, of 1000000000 10] show ?thesis
    by (cases "reconcile_stale_jobs 1000000000 10 ?db")
      (simp add: stale_def last_heartbeat_def minutes_def seconds_def)
qed

section \<open>The paged backfill\<close>

definition classified :: "job \<Rightarrow> job" where
  "classified j = (if unclassified j then classify j else j)"

lemma map_classified_classify_page: "map classified (classify_page n js) = map classified js"
  by (induction n js rule: classify_page.induct) (auto simp: classified_def split: nat.splits)

lemma classify_page_all:
  "length (filter unclassified js) \<le> n \<Longrightarrow> classify_page n js = map classified js"
  by (induction n js rule: classify_page.induct) (auto simp: classified_def split: nat.splits)

lemma map_classified_id: "filter unclassified js = [] \<Longrightarrow> map classified js = js"
  by (induction js) (auto simp: classified_def split: if_splits)

lemma backfill_rows_exact:
  "0 < batch \<Longrightarrow>
   backfill_rows batch js written = (map classified js, written + length (filter unclassified js))"
proof (induction batch js written rule: backfill_rows.induct)
  case (1 batch js written)
  let ?n = "length (filter unclassified js)"
  consider "?n = 0" | "0 < ?n" "?n < batch" | "0 < ?n" "batch \<le> ?n" by linarith
  then show ?case
  proof cases
    case 1
    then show ?thesis by (simp add: backfill_rows.simps [of batch js] map_classified_id)
  next
    case 2
    then show ?thesis by (simp add: backfill_rows.simps [of batch js] classify_page_all min_def)
  next
    case 3
    with "1.prems" "1.IH" [OF refl _ refl refl] show ?thesis
      by (simp add: backfill_rows.simps [of batch js] map_classified_classify_page
          length_filter_classify_page min_def)
  qed
qed

text \<open>
  The paged backfill ends, and whatever the page size it does what one pass over the whole
  table would: every row of a check-in type that was never classified gets its verdict from its
  own metadata, all other rows stay as they are, and the number returned is the number of rows
  written.
\<close>
theorem backfill_job_checkins_exact:
  assumes "0 < batch"
  shows "backfill_job_checkins batch db =
    (db\<lparr> jobs := map (\<lambda>j. if unclassified j then classify j else j) (jobs db) \<rparr>,
     length (filter unclassified (jobs db)))"
proof -
  have "map (\<lambda>j. if unclassified j then classify j else j) (jobs db) = map classified (jobs db)"
    by (simp add: classified_def)
  then show ?thesis by (simp only: backfill_job_checkins_def backfill_rows_exact [OF assms]) simp
qed

theorem backfill_job_checkins_exact_witness:
  "snd (backfill_job_checkins 1
     (one_job_db ((running_job ''j1'' ''agent_hypervisor'' 0)\<lparr> j_is_checkin := None \<rparr>))) = 1"
  using backfill_job_checkins_exact
    [of 1 "one_job_db ((running_job ''j1'' ''agent_hypervisor'' 0)\<lparr> j_is_checkin := None \<rparr>)"]
  by (simp add: unclassified_def CHECKIN_VERBS_def)

section \<open>Pages and summaries\<close>

lemma concat_pages:
  "concat (map (\<lambda>p. take n (drop (p * n) xs)) [0..<k]) = take (k * n) xs"
  by (induction k) (simp_all add: take_add [symmetric] add.commute)

lemma list_jobs_page:
  assumes "0 \<le> p" and "0 \<le> f_page_size f"
  shows "fst (list_jobs (f\<lparr> f_page := p + 1 \<rparr>) db) =
    take (nat (f_page_size f)) (drop (nat p * nat (f_page_size f))
      (sort_key (\<lambda>j. - j_created_at j) (filter (job_matches f) (jobs db))))"
proof -
  have "job_matches (f\<lparr> f_page := p + 1 \<rparr>) = job_matches f"
    by (rule ext) (simp add: job_matches_def)
  with assms show ?thesis by (simp add: list_jobs_def nat_mult_distrib Let_def)
qed

text \<open>
  The pages of the job list partition the matching rows: read one after another, the first
  \<open>k\<close> pages are the first \<open>k * page_size\<close> rows of one newest-first order of exactly the rows
  that match, the same for every page, so no row is repeated or skipped; and the two default
  filters that hide routine work never hide a row that did not complete.
\<close>
theorem list_jobs_pages_partition:
  assumes "0 \<le> f_page_size f"
  shows "\<exists>rows. mset rows = filter_mset (job_matches f) (mset (jobs db)) \<and>
      sorted (map (\<lambda>j. - j_created_at j) rows) \<and>
      (\<forall>k. concat (map (\<lambda>p. fst (list_jobs (f\<lparr> f_page := int p + 1 \<rparr>) db)) [0..<k]) =
           take (k * nat (f_page_size f)) rows) \<and>
      snd (list_jobs f db) = length rows \<and>
      (\<forall>j. j_status j \<noteq> ''completed'' \<longrightarrow>
         job_matches f j =
         job_matches (f\<lparr> f_include_routine := True, f_include_checkins := True \<rparr>) j)"
proof -
  let ?rows = "sort_key (\<lambda>j. - j_created_at j) (filter (job_matches f) (jobs db))"
  have "concat (map (\<lambda>p. fst (list_jobs (f\<lparr> f_page := int p + 1 \<rparr>) db)) [0..<k]) =
      take (k * nat (f_page_size f)) ?rows" for k
    using assms by (simp only: list_jobs_page of_nat_0_le_iff nat_int) (rule concat_pages)
  moreover have "snd (list_jobs f db) = length ?rows"
    by (simp add: list_jobs_def Let_def)
  moreover have "j_status j \<noteq> ''completed'' \<Longrightarrow> job_matches f j =
      job_matches (f\<lparr> f_include_routine := True, f_include_checkins := True \<rparr>) j" for j
    by (simp add: job_matches_def)
  ultimately show ?thesis by (intro exI [of _ ?rows]) simp
qed

theorem list_jobs_pages_partition_witness:
  "snd (list_jobs \<lparr> f_page = 1, f_page_size = 2, f_status = None, f_created_by = None,
      f_workgroup = None, f_batch_id = None, f_include_routine = False,
      f_include_checkins = False, f_dead_lettered = False, f_scheduled = False \<rparr>
      (one_job_db (running_job ''j1'' ''ec2_power'' 0))) = 1"
  using list_jobs_pages_partition
    [of "\<lparr> f_page = 1, f_page_size = 2, f_status = None, f_created_by = None,
      f_workgroup = None, f_batch_id = None, f_include_routine = False,
      f_include_checkins = False, f_dead_lettered = False, f_scheduled = False \<rparr>"
      "one_job_db (running_job ''j1'' ''ec2_power'' 0)"]
  by (auto simp: job_matches_def dest: mset_eq_length)

end
