(* ===== verification/Job_Logs.thy ===== *)
theory Job_Logs
  imports Job_Service
begin

text \<open>
  Live Output in \<open>services/job_service.py\<close>: \<open>append_job_log\<close>, \<open>append_job_logs\<close> and
  \<open>get_job_logs\<close>. The table has a unique index on (job, seq). A writer reads the greatest
  sequence number and inserts later; what other transactions committed in between is an
  explicit argument, one list of rows per attempt.
\<close>

record log_row =
  l_job_id :: string
  l_seq :: int
  l_line :: string

definition job_seqs :: "string \<Rightarrow> log_row list \<Rightarrow> int list" where
  "job_seqs jid tbl = map l_seq (filter (\<lambda>r. l_job_id r = jid) tbl)"

text \<open>\<open>ORDER BY seq DESC\<close>, first row, plus one.\<close>

definition next_seq :: "string \<Rightarrow> log_row list \<Rightarrow> int" where
  "next_seq jid tbl = (case job_seqs jid tbl of [] \<Rightarrow> 1 | s # ss \<Rightarrow> foldr max ss s + 1)"

definition number_lines :: "string \<Rightarrow> int \<Rightarrow> string list \<Rightarrow> log_row list" where
  "number_lines jid nxt lines =
     map (\<lambda>(i, line). \<lparr> l_job_id = jid, l_seq = nxt + int i, l_line = line \<rparr>) (enumerate 0 lines)"

text \<open>A commit: \<open>None\<close> is the \<open>IntegrityError\<close> of the unique index.\<close>

definition insert_rows :: "log_row list \<Rightarrow> log_row list \<Rightarrow> log_row list option" where
  "insert_rows rows tbl =
     (if \<exists>r \<in> set rows. \<exists>t \<in> set tbl. l_job_id t = l_job_id r \<and> l_seq t = l_seq r
      then None else Some (tbl @ rows))"

definition append_job_log :: "string \<Rightarrow> string \<Rightarrow> log_row list \<Rightarrow> log_row list \<Rightarrow> log_row list" where
  "append_job_log jid line others tbl =
     (let row = \<lparr> l_job_id = jid, l_seq = next_seq jid tbl, l_line = line \<rparr>
      in case insert_rows [row] (tbl @ others) of None \<Rightarrow> tbl @ others | Some t \<Rightarrow> t)"

fun append_attempts ::
  "string \<Rightarrow> string list \<Rightarrow> log_row list list \<Rightarrow> log_row list \<Rightarrow> log_row list" where
  "append_attempts jid lines [] tbl = tbl"
| "append_attempts jid lines (others # rest) tbl =
     (case insert_rows (number_lines jid (next_seq jid tbl) lines) (tbl @ others) of
        Some t \<Rightarrow> t
      | None \<Rightarrow> append_attempts jid lines rest (tbl @ others))"

definition append_job_logs ::
  "string \<Rightarrow> string list \<Rightarrow> log_row list \<Rightarrow> log_row list \<Rightarrow> log_row list \<Rightarrow> log_row list" where
  "append_job_logs jid lines others1 others2 tbl =
     (if lines = [] then tbl else append_attempts jid lines [others1, others2] tbl)"

definition get_job_logs :: "log_row list \<Rightarrow> string \<Rightarrow> int \<Rightarrow> (int \<times> string) list" where
  "get_job_logs tbl jid after_seq =
     map (\<lambda>r. (l_seq r, l_line r))
       (sort_key l_seq (filter (\<lambda>r. l_job_id r = jid \<and> l_seq r > after_seq) tbl))"

definition logs_ok :: "log_row list \<Rightarrow> bool" where
  "logs_ok tbl \<longleftrightarrow> distinct (map (\<lambda>r. (l_job_id r, l_seq r)) tbl)"

section \<open>Lemmas\<close>

lemma foldr_max_ge: "x \<in> set (s # ss) \<Longrightarrow> x \<le> foldr max ss (s::int)"
  by (induction ss) auto

lemma next_seq_greater: "r \<in> set tbl \<Longrightarrow> l_job_id r = jid \<Longrightarrow> l_seq r < next_seq jid tbl"
proof -
  assume "r \<in> set tbl" "l_job_id r = jid"
  then have "l_seq r \<in> set (job_seqs jid tbl)" by (auto simp: job_seqs_def)
  then show ?thesis
    using foldr_max_ge [of "l_seq r"] by (cases "job_seqs jid tbl") (fastforce simp: next_seq_def)+
qed

lemma number_lines_jid: "r \<in> set (number_lines jid n ls) \<Longrightarrow> l_job_id r = jid \<and> n \<le> l_seq r"
  by (auto simp: number_lines_def)

lemma number_lines_Cons:
  "number_lines jid n (l # ls) =
     \<lparr> l_job_id = jid, l_seq = n, l_line = l \<rparr> # number_lines jid (n + 1) ls"
proof -
  have "enumerate (Suc 0) ls = map (\<lambda>(i, x). (Suc i, x)) (enumerate 0 ls)"
    by (simp add: enumerate_Suc_eq [of 0] apfst_def map_prod_def)
  then show ?thesis by (simp add: number_lines_def comp_def split_beta)
qed

lemma number_lines_Nil [simp]: "number_lines jid n [] = []"
  by (simp add: number_lines_def)

lemma sorted_number_lines: "sorted_wrt (<) (map l_seq (number_lines jid n ls))"
  by (induction ls arbitrary: n) (auto simp: number_lines_Cons dest: number_lines_jid)

lemma distinct_number_lines: "distinct (map (\<lambda>r. (l_job_id r, l_seq r)) (number_lines jid n ls))"
  by (induction ls arbitrary: n) (auto simp: number_lines_Cons dest: number_lines_jid)

lemma insert_rows_fresh: "insert_rows (number_lines jid (next_seq jid tbl) ls) tbl =
    Some (tbl @ number_lines jid (next_seq jid tbl) ls)"
  by (auto simp: insert_rows_def dest!: number_lines_jid next_seq_greater)

lemma insert_rows_others:
  assumes "\<forall>r \<in> set others. l_job_id r \<noteq> jid"
  shows "insert_rows (number_lines jid (next_seq jid tbl) ls) (tbl @ others) =
    Some (tbl @ others @ number_lines jid (next_seq jid tbl) ls)"
  using insert_rows_fresh [of jid tbl ls] assms
  by (auto simp: insert_rows_def split: if_splits dest: number_lines_jid)

lemma logs_ok_append:
  assumes "logs_ok tbl" and "insert_rows (number_lines jid n ls) tbl = Some t"
  shows "logs_ok t"
  using assms distinct_number_lines [of jid n ls]
  by (fastforce simp: logs_ok_def insert_rows_def split: if_splits)

lemma logs_ok_append_attempts:
  "logs_ok tbl \<Longrightarrow>
   (\<forall>k \<le> length os. logs_ok (tbl @ concat (take k os))) \<Longrightarrow> logs_ok (append_attempts jid ls os tbl)"
proof (induction jid ls os tbl rule: append_attempts.induct)
  case (2 jid ls others rest tbl)
  have ok: "logs_ok (tbl @ others)" using "2.prems"(2) by (auto dest: spec [of _ 1])
  have "\<forall>k \<le> length rest. logs_ok ((tbl @ others) @ concat (take k rest))"
    using "2.prems"(2) by (auto dest: spec [of _ "Suc _"])
  with 2 ok logs_ok_append [OF ok] show ?case by (auto split: option.splits)
qed simp

lemma sort_key_append_sorted:
  assumes "sorted (map f (sort_key f xs @ ys))"
  shows "sort_key f (xs @ ys) = sort_key f xs @ ys"
proof (rule properties_for_sort_key)
  show "filter (\<lambda>x. f k = f x) (sort_key f xs @ ys) = filter (\<lambda>x. f k = f x) (xs @ ys)" for k
    using sort_key_stable [of f "f k" xs] by (simp add: eq_commute)
qed (use assms in auto)

lemma get_job_logs_snoc:
  assumes "\<forall>r \<in> set tbl. l_job_id r = jid \<longrightarrow> l_seq r < n" and "after \<le> n - 1"
  shows "get_job_logs (tbl @ number_lines jid n ls) jid after =
    get_job_logs tbl jid after @ map (\<lambda>r. (l_seq r, l_line r)) (number_lines jid n ls)"
proof -
  let ?new = "number_lines jid n ls" and ?old = "filter (\<lambda>r. l_job_id r = jid \<and> l_seq r > after) tbl"
  have all: "filter (\<lambda>r. l_job_id r = jid \<and> l_seq r > after) ?new = ?new"
    using assms(2) by (auto simp: filter_id_conv dest!: number_lines_jid)
  have sorted_new: "sorted (map l_seq ?new)"
    using sorted_number_lines strict_sorted_imp_sorted by blast
  then have "sorted (map l_seq (sort_key l_seq ?old @ ?new))"
    using assms by (fastforce simp: sorted_append dest: number_lines_jid)
  then have "sort_key l_seq (?old @ ?new) = sort_key l_seq ?old @ ?new"
    by (rule sort_key_append_sorted)
  with all show ?thesis by (simp add: get_job_logs_def)
qed

section \<open>Properties\<close>

lemma append_attempts_second:
  assumes "ls \<noteq> []" and "\<forall>r \<in> set others2. l_job_id r \<noteq> jid"
  shows "\<exists>before n. append_job_logs jid ls others1 others2 tbl = before @ number_lines jid n ls \<and>
    (before = tbl @ others1 \<or> before = tbl @ others1 @ others2) \<and>
    insert_rows (number_lines jid n ls) before \<noteq> None \<and>
    (\<forall>r \<in> set tbl. l_job_id r = jid \<longrightarrow> l_seq r < n)"
proof (cases "insert_rows (number_lines jid (next_seq jid tbl) ls) (tbl @ others1)")
  case None
  let ?n = "next_seq jid (tbl @ others1)"
  have ins: "insert_rows (number_lines jid ?n ls) (tbl @ others1 @ others2) =
      Some ((tbl @ others1 @ others2) @ number_lines jid ?n ls)"
    using insert_rows_others [OF assms(2), of "tbl @ others1" ls] by simp
  then have "append_job_logs jid ls others1 others2 tbl =
      (tbl @ others1 @ others2) @ number_lines jid ?n ls"
    using assms(1) None by (simp add: append_job_logs_def)
  moreover have "\<forall>r \<in> set tbl. l_job_id r = jid \<longrightarrow> l_seq r < ?n"
    using next_seq_greater [of _ "tbl @ others1" jid] by simp
  ultimately show ?thesis using ins by blast
next
  case (Some t)
  then have "t = (tbl @ others1) @ number_lines jid (next_seq jid tbl) ls"
    by (simp add: insert_rows_def split: if_splits)
  with Some assms(1) have "append_job_logs jid ls others1 others2 tbl =
      (tbl @ others1) @ number_lines jid (next_seq jid tbl) ls"
    by (simp add: append_job_logs_def)
  moreover have "\<forall>r \<in> set tbl. l_job_id r = jid \<longrightarrow> l_seq r < next_seq jid tbl"
    using next_seq_greater [of _ tbl jid] by simp
  moreover have "insert_rows (number_lines jid (next_seq jid tbl) ls) (tbl @ others1) \<noteq> None"
    using Some by simp
  ultimately show ?thesis by blast
qed

text \<open>
  A batch of Live Output lines survives one collision: whatever other writers commit during
  the first attempt, if none of them writes to the same job during the second, all the lines are
  stored, in order, under consecutive numbers greater than all those the batch first read and
  unused when it commits, and nothing already stored is lost.
\<close>
theorem append_job_logs_keeps_batch:
  assumes "lines \<noteq> []" and "\<forall>r \<in> set others2. l_job_id r \<noteq> jid"
  shows "\<exists>before n. append_job_logs jid lines others1 others2 tbl = before @ number_lines jid n lines \<and>
    (before = tbl @ others1 \<or> before = tbl @ others1 @ others2) \<and>
    insert_rows (number_lines jid n lines) before \<noteq> None \<and>
    (\<forall>r \<in> set tbl. l_job_id r = jid \<longrightarrow> l_seq r < n)"
  using assms by (rule append_attempts_second)

theorem append_job_logs_keeps_batch_witness:
  "\<exists>before n. append_job_logs ''j'' [''a'', ''b''] [\<lparr> l_job_id = ''j'', l_seq = 1, l_line = ''x'' \<rparr>] [] [] =
     before @ number_lines ''j'' n [''a'', ''b'']"
proof -
  have "\<forall>r \<in> set ([] :: log_row list). l_job_id r \<noteq> ''j''" by simp
  from append_job_logs_keeps_batch [OF _ this, of "[''a'', ''b'']"
      "[\<lparr> l_job_id = ''j'', l_seq = 1, l_line = ''x'' \<rparr>]" "[]"]
  show ?thesis by (elim exE conjE meta_impE) (simp, blast)
qed

text \<open>
  A reader that follows a job by passing the last number it saw gets exactly the new lines:
  after a batch nobody raced with, the tail from any number already issued is the old tail
  followed by the batch, and from the last number before it the batch alone.
\<close>
theorem get_job_logs_tails_batch:
  assumes "after < next_seq jid tbl"
  shows "get_job_logs (append_job_logs jid lines [] [] tbl) jid after =
      get_job_logs tbl jid after @ zip (map (\<lambda>i. next_seq jid tbl + int i) [0..<length lines]) lines \<and>
    get_job_logs (append_job_logs jid lines [] [] tbl) jid (next_seq jid tbl - 1) =
      zip (map (\<lambda>i. next_seq jid tbl + int i) [0..<length lines]) lines"
proof -
  let ?n = "next_seq jid tbl"
  have new: "append_job_logs jid lines [] [] tbl = tbl @ number_lines jid ?n lines"
    by (simp add: append_job_logs_def insert_rows_fresh)
  have below: "\<forall>r \<in> set tbl. l_job_id r = jid \<longrightarrow> l_seq r < ?n"
    using next_seq_greater by blast
  then have "filter (\<lambda>r. l_job_id r = jid \<and> l_seq r > ?n - 1) tbl = []"
    by (auto simp: filter_empty_conv)
  then have none: "get_job_logs tbl jid (?n - 1) = []"
    by (simp only: get_job_logs_def) simp
  have pairs: "map (\<lambda>r. (l_seq r, l_line r)) (number_lines jid ?n lines) =
      zip (map (\<lambda>i. ?n + int i) [0..<length lines]) lines"
    by (simp add: number_lines_def enumerate_eq_zip zip_map1 split_beta)
  show ?thesis
    unfolding new using get_job_logs_snoc [OF below, of _ lines] assms none pairs by simp
qed

theorem get_job_logs_tails_batch_witness:
  "get_job_logs (append_job_logs ''j'' [''a'', ''b''] [] [] []) ''j'' 0 = [(1, ''a''), (2, ''b'')]"
  using get_job_logs_tails_batch [of 0 "''j''" "[]" "[''a'', ''b'']"]
  by (simp add: next_seq_def job_seqs_def get_job_logs_def [of "[]"])

end
