(* ===== verification/Worker_Policy.thy ===== *)
theory Worker_Policy
  imports Config
begin

text \<open>
  \<open>services/worker_policy.py\<close>: how many jobs of each kind the job runner may have in flight.
  Every cap is read from the configuration on each pass and clamped between a floor and a
  ceiling no configuration can move.
\<close>

definition HEAVY_CAP_CEILING :: int where "HEAVY_CAP_CEILING = 4"
definition MEDIUM_CAP_CEILING :: int where "MEDIUM_CAP_CEILING = 4"
definition LIGHT_CAP_CEILING :: int where "LIGHT_CAP_CEILING = 12"
definition TOTAL_CAP_CEILING :: int where "TOTAL_CAP_CEILING = 16"
definition EXECUTOR_THREADS_CEILING :: int where "EXECUTOR_THREADS_CEILING = 128"
definition DRAIN_TIMEOUT_CEILING_S :: int where "DRAIN_TIMEOUT_CEILING_S = 300"

lemmas worker_ceilings [policy_simps] =
  HEAVY_CAP_CEILING_def MEDIUM_CAP_CEILING_def LIGHT_CAP_CEILING_def TOTAL_CAP_CEILING_def
  EXECUTOR_THREADS_CEILING_def DRAIN_TIMEOUT_CEILING_S_def

definition heavy_cap :: "config \<Rightarrow> int" where
  "heavy_cap cfg = max 1 (min HEAVY_CAP_CEILING (policy_int cfg ''worker_heavy_concurrency'' 2))"

definition medium_cap :: "config \<Rightarrow> int" where
  "medium_cap cfg = max 1 (min MEDIUM_CAP_CEILING (policy_int cfg ''worker_medium_concurrency'' 1))"

definition light_cap :: "config \<Rightarrow> int" where
  "light_cap cfg = max 1 (min LIGHT_CAP_CEILING (policy_int cfg ''worker_light_concurrency'' 3))"

definition max_concurrency :: "config \<Rightarrow> int" where
  "max_concurrency cfg = max 1 (min TOTAL_CAP_CEILING (policy_int cfg ''worker_max_concurrency'' 3))"

definition executor_threads :: "config \<Rightarrow> int" where
  "executor_threads cfg =
     max 0 (min EXECUTOR_THREADS_CEILING (policy_int cfg ''worker_executor_threads'' 0))"

definition drain_timeout_s :: "config \<Rightarrow> int" where
  "drain_timeout_s cfg =
     max 0 (min DRAIN_TIMEOUT_CEILING_S (policy_int cfg ''worker_drain_timeout_s'' 20))"

record worker_caps =
  cap_heavy :: int
  cap_medium :: int
  cap_light :: int
  cap_total :: int

definition worker_caps_of :: "config \<Rightarrow> worker_caps" where
  "worker_caps_of cfg =
     \<lparr> cap_heavy = heavy_cap cfg, cap_medium = medium_cap cfg, cap_light = light_cap cfg,
       cap_total = max_concurrency cfg \<rparr>"

text \<open>
  \<open>get_runtime_status\<close>. The parser of the stored text is an argument; \<open>None\<close> is its
  \<open>JSONDecodeError\<close>.
\<close>

datatype runtime_status = NeverRun | Corrupted string | Published json

definition get_runtime_status :: "(string \<Rightarrow> json option) \<Rightarrow> config \<Rightarrow> runtime_status" where
  "get_runtime_status loads cfg =
     (case config_get cfg ''worker_runtime_status'' [] of
        None \<Rightarrow> NeverRun
      | Some raw \<Rightarrow>
          (if raw = [] then NeverRun
           else case loads raw of None \<Rightarrow> Corrupted (take 200 raw) | Some v \<Rightarrow> Published v))"

lemmas cap_defs [policy_simps] =
  heavy_cap_def medium_cap_def light_cap_def max_concurrency_def executor_threads_def
  drain_timeout_s_def worker_caps_of_def

lemma caps_bounds:
  "1 \<le> heavy_cap cfg" "heavy_cap cfg \<le> 4" "1 \<le> medium_cap cfg" "medium_cap cfg \<le> 4"
  "1 \<le> light_cap cfg" "light_cap cfg \<le> 12" "1 \<le> max_concurrency cfg" "max_concurrency cfg \<le> 16"
  "0 \<le> executor_threads cfg" "executor_threads cfg \<le> 128"
  "0 \<le> drain_timeout_s cfg" "drain_timeout_s cfg \<le> 300"
  by (simp_all add: policy_simps)

end
