(* ===== verification/Jobs_Worker.thy ===== *)
theory Jobs_Worker
  imports Worker_Policy Job_Service
begin

text \<open>
  \<open>jobs_worker.py\<close>: the job runner. The tables of job types and tiers, the clamp of the caps to
  the connection pool, the admission check, the claim of one pending row, the heartbeat, the
  stale sweep, the shutdown drain, and one pass of the supervisor loop.
\<close>

section \<open>Job types and tiers\<close>

definition HANDLED_TYPES :: "string list" where
  "HANDLED_TYPES =
     [''k8s_provision'', ''k8s_decommission'', ''k8s_management'', ''k8s_secret_delivery'',
      ''k8s_entitle_agent'', ''k8s_entitle_register'', ''k8s_tunnel'', ''k8s_api_tunnel'',
      ''k8s_group_binding'', ''k8s_impersonator_binding'', ''k8s_entra_federation'',
      ''k8s_ps_token'', ''rancher_node_deploy'', ''rancher_node_teardown'',
      ''rancher_entitle_register'', ''portainer_node_deploy'', ''portainer_node_teardown'',
      ''portainer_import'', ''portainer_adapter_pair'', ''clouddb_provision'',
      ''clouddb_decommission'', ''clouddb_entitle_register'', ''pov_env_provision'',
      ''pov_env_destroy'', ''pov_env_power'', ''pov_env_broker'', ''pov_env_wireup'',
      ''pov_env_jump_group_move'', ''pov_template_build'', ''pov_env_reconcile'',
      ''pov_env_add_vms'', ''pov_env_ready_check'', ''pov_env_seed'', ''clouddb_ps_register'',
      ''cloudfn_deploy'', ''cloudfn_update'', ''cloudfn_decommission'',
      ''cloudfn_entitle_register'', ''entitle_virtual_app'', ''entitle_persona_bundles'',
      ''clouddb_adapter_pair'', ''clouddb_dbops_deploy'', ''certca_provision'',
      ''certca_decommission'', ''cert_ps_register'', ''directory_provision'',
      ''directory_decommission'', ''spirelab_provision'', ''spirelab_decommission'',
      ''spirelab_k8s_link'', ''spirelab_ps_register'', ''spirelab_jwt_bundle'',
      ''spirelab_upgrade'', ''spirelab_federate'', ''spirelab_attr_probe'',
      ''workload_k8s_token'', ''workload_cloud_credential'', ''ansible_cloud_run'',
      ''ansible_local'', ''epml_sync'', ''windows_arc_join'', ''windows_hybrid_check'',
      ''vdesktop_pool_provision'', ''vdesktop_pool_teardown'', ''packer_aws_build'',
      ''packer_azure_build'', ''packer_gcp_build'', ''packer_oci_build'',
      ''aws_export_image'', ''gcp_export_image'', ''azure_export_image'',
      ''oci_export_image'', ''image_promote_aws'', ''image_promote_azure'',
      ''image_promote_gcp'', ''image_promote_oci'', ''ec2_deploy'', ''ec2_bulk_deploy'',
      ''ec2_destroy'', ''ec2_create_image'', ''ami_copy'', ''vm_pra'', ''ec2_power'',
      ''azure_power'', ''gce_power'', ''oci_power'', ''suspend_sweep'', ''spend_sweep'',
      ''oci_deploy'', ''oci_bulk_deploy'', ''oci_destroy'', ''azure_deploy'',
      ''azure_bulk_deploy'', ''azure_destroy'', ''azure_create_image'', ''gce_deploy'',
      ''gce_bulk_deploy'', ''gce_capture_image'', ''gce_destroy'', ''ot_cell_deploy'',
      ''gateway_deploy'', ''gateway_teardown'', ''agent_host_start'', ''agent_host_stop'',
      ''agent_host_delete'', ''route_network_backfill'', ''expiry_sweep'', ''schedule_sweep'']"

definition HEAVY_TYPES :: "string list" where
  "HEAVY_TYPES =
     [''k8s_provision'', ''k8s_decommission'', ''clouddb_provision'',
      ''clouddb_decommission'', ''cloudfn_deploy'', ''cloudfn_update'',
      ''cloudfn_decommission'', ''certca_provision'', ''certca_decommission'',
      ''directory_provision'', ''directory_decommission'', ''clouddb_adapter_pair'',
      ''portainer_adapter_pair'', ''clouddb_dbops_deploy'', ''packer_aws_build'',
      ''packer_azure_build'', ''packer_gcp_build'', ''packer_oci_build'', ''ansible_local'']"

definition MEDIUM_TYPES :: "string list" where
  "MEDIUM_TYPES =
     [''k8s_management'', ''k8s_secret_delivery'', ''k8s_entitle_agent'',
      ''k8s_group_binding'', ''k8s_impersonator_binding'', ''k8s_entra_federation'',
      ''k8s_tunnel'', ''k8s_api_tunnel'', ''k8s_entitle_register'', ''k8s_ps_token'',
      ''rancher_entitle_register'', ''clouddb_entitle_register'',
      ''cloudfn_entitle_register'', ''entitle_virtual_app'', ''entitle_persona_bundles'',
      ''clouddb_ps_register'', ''cert_ps_register'', ''workload_k8s_token'',
      ''spirelab_ps_register'', ''rancher_node_deploy'', ''rancher_node_teardown'',
      ''portainer_node_deploy'', ''portainer_node_teardown'', ''portainer_import'',
      ''ec2_deploy'', ''ec2_bulk_deploy'', ''ec2_destroy'', ''azure_deploy'',
      ''azure_bulk_deploy'', ''azure_destroy'', ''gce_deploy'', ''gce_bulk_deploy'',
      ''gce_destroy'', ''oci_deploy'', ''oci_bulk_deploy'', ''oci_destroy'', ''vm_pra'',
      ''ot_cell_deploy'', ''pov_env_provision'', ''pov_env_destroy'', ''pov_env_add_vms'',
      ''pov_template_build'', ''pov_env_wireup'', ''pov_env_jump_group_move'',
      ''vdesktop_pool_provision'', ''vdesktop_pool_teardown'', ''ansible_cloud_run'',
      ''windows_arc_join'']"

definition LIGHT_TYPES :: "string list" where
  "LIGHT_TYPES =
     [''ec2_create_image'', ''ami_copy'', ''azure_create_image'', ''gce_capture_image'',
      ''aws_export_image'', ''azure_export_image'', ''gcp_export_image'',
      ''oci_export_image'', ''image_promote_aws'', ''image_promote_azure'',
      ''image_promote_gcp'', ''image_promote_oci'', ''gateway_deploy'', ''gateway_teardown'',
      ''agent_host_start'', ''agent_host_stop'', ''agent_host_delete'',
      ''route_network_backfill'', ''epml_sync'', ''windows_hybrid_check'', ''expiry_sweep'',
      ''schedule_sweep'', ''suspend_sweep'', ''spend_sweep'', ''ec2_power'', ''azure_power'',
      ''gce_power'', ''oci_power'', ''pov_env_power'', ''spirelab_provision'',
      ''spirelab_decommission'', ''spirelab_k8s_link'', ''spirelab_jwt_bundle'',
      ''spirelab_upgrade'', ''spirelab_federate'', ''spirelab_attr_probe'',
      ''workload_cloud_credential'', ''pov_env_broker'', ''pov_env_reconcile'',
      ''pov_env_ready_check'', ''pov_env_seed'']"

definition SINGLETON_TYPES :: "string list" where
  "SINGLETON_TYPES =
     [''rancher_node_deploy'', ''rancher_node_teardown'', ''portainer_node_deploy'',
      ''portainer_node_teardown'', ''portainer_import'', ''portainer_adapter_pair'',
      ''expiry_sweep'', ''suspend_sweep'', ''spend_sweep'', ''schedule_sweep'', ''epml_sync'']"

datatype tier = Heavy | Medium | Light

definition TIER_TYPES :: "(tier \<times> string list) list" where
  "TIER_TYPES = [(Heavy, HEAVY_TYPES), (Medium, MEDIUM_TYPES), (Light, LIGHT_TYPES)]"

definition TIER_OF :: "(string \<times> tier) list" where
  "TIER_OF = concat (map (\<lambda>(tier, types). map (\<lambda>t. (t, tier)) types) TIER_TYPES)"

text \<open>\<open>_TIER_OF[job_type]\<close>; \<open>None\<close> is the \<open>KeyError\<close>.\<close>

definition tier_of :: "string \<Rightarrow> tier option" where
  "tier_of t = map_of (rev TIER_OF) t"

definition STALE_AFTER_MINUTES :: int where "STALE_AFTER_MINUTES = 10"
definition HEARTBEAT_INTERVAL :: int where "HEARTBEAT_INTERVAL = 60"
definition SESSIONS_PER_JOB :: int where "SESSIONS_PER_JOB = 2"
definition POOL_RESERVED :: int where "POOL_RESERVED = 4"

section \<open>Admission\<close>

record limits =
  lim_heavy :: int
  lim_medium :: int
  lim_light :: int
  lim_total :: int
  lim_configured :: worker_caps
  lim_clamp_reason :: string
  lim_capacity :: int

definition limits_of :: "config \<Rightarrow> int \<Rightarrow> limits" where
  "limits_of cfg capacity =
     (let caps = worker_caps_of cfg;
          total = cap_total caps;
          affordable = max 1 ((capacity - POOL_RESERVED) div SESSIONS_PER_JOB);
          clamped = capacity \<noteq> 0 \<and> total > affordable
      in \<lparr> lim_heavy = cap_heavy caps, lim_medium = cap_medium caps, lim_light = cap_light caps,
           lim_total = (if clamped then affordable else total), lim_configured = caps,
           lim_clamp_reason =
             (if clamped then
                ''DB pool of '' @ py_str_int capacity @ '' serves '' @ py_str_int affordable @
                '' concurrent job(s); raise DB_POOL_SIZE / DB_MAX_OVERFLOW to use '' @ py_str_int total
              else []),
           lim_capacity = capacity \<rparr>)"

fun lim_tier :: "limits \<Rightarrow> tier \<Rightarrow> int" where
  "lim_tier l Heavy = lim_heavy l"
| "lim_tier l Medium = lim_medium l"
| "lim_tier l Light = lim_light l"

text \<open>The supervisor's \<open>running\<close> dictionary: job id (the task's name), tier and type.\<close>

type_synonym in_flight = "(string \<times> tier \<times> string) list"

definition tier_count :: "tier \<Rightarrow> in_flight \<Rightarrow> nat" where
  "tier_count tr running = length (filter (\<lambda>(_, t, _). t = tr) running)"

definition live_types :: "in_flight \<Rightarrow> string list" where
  "live_types running = map (\<lambda>(_, _, ty). ty) running"

definition allowed_types :: "limits \<Rightarrow> in_flight \<Rightarrow> string list" where
  "allowed_types lims running =
     (if int (length running) \<ge> lim_total lims then []
      else
        concat (map (\<lambda>(tr, types).
          if int (tier_count tr running) < lim_tier lims tr
          then filter (\<lambda>t. \<not> (t \<in> set SINGLETON_TYPES \<and> t \<in> set (live_types running))) types
          else []) TIER_TYPES))"

definition executor_size :: "config \<Rightarrow> limits \<Rightarrow> int" where
  "executor_size cfg lims =
     (if executor_threads cfg > 0 then executor_threads cfg
      else min EXECUTOR_THREADS_CEILING
             (max 16 (4 * lim_heavy lims + 3 * lim_medium lims + 2 * lim_light lims + 8)))"

section \<open>Claiming\<close>

definition claim_candidate :: "instant \<Rightarrow> string list \<Rightarrow> job \<Rightarrow> bool" where
  "claim_candidate now allowed j \<longleftrightarrow>
     j_status j = ''pending'' \<and> j_job_type j \<in> set allowed \<and> claimable_now now j"

definition claim_order :: "job \<Rightarrow> instant" where
  "claim_order j = (case j_scheduled_for j of Some s \<Rightarrow> s | None \<Rightarrow> j_created_at j)"

definition claim_select :: "instant \<Rightarrow> string list \<Rightarrow> jdb \<Rightarrow> job option" where
  "claim_select now allowed db =
     first_by claim_order (filter (claim_candidate now allowed) (jobs db))"

text \<open>The conditional UPDATE: the new table and its row count.\<close>

definition claim_update :: "instant \<Rightarrow> string \<Rightarrow> string \<Rightarrow> jdb \<Rightarrow> jdb \<times> nat" where
  "claim_update now status jid db =
     (let p = (\<lambda>j. j_id j = jid \<and> j_status j = status)
      in (db\<lparr> jobs := tbl_update p (running_row now) (jobs db) \<rparr>, rowcount p (jobs db)))"

text \<open>
  \<open>_claim_one\<close>. \<open>env\<close> gives, per attempt, what other transactions did to the database between
  the SELECT and the UPDATE; \<open>clock\<close> the reading of each attempt.
\<close>

fun claim_attempts ::
  "nat \<Rightarrow> (nat \<Rightarrow> instant) \<Rightarrow> (nat \<Rightarrow> jdb \<Rightarrow> jdb) \<Rightarrow> string list \<Rightarrow> jdb \<Rightarrow> jdb \<times> (string \<times> string \<times> dict) option" where
  "claim_attempts 0 clock env allowed db = (db, None)"
| "claim_attempts (Suc n) clock env allowed db =
     (case claim_select (clock n) allowed db of
        None \<Rightarrow> (db, None)
      | Some j \<Rightarrow>
          (case claim_update (clock n) ''pending'' (j_id j) (env n db) of
             (db', claimed) \<Rightarrow>
               (if claimed = 1 then
                  (case get_job db' (j_id j) of
                     Some fresh \<Rightarrow> (db', Some (j_id fresh, j_job_type fresh, metadata_dict fresh))
                   | None \<Rightarrow> (db', None))
                else claim_attempts n clock env allowed db')))"

definition claim_one ::
  "(nat \<Rightarrow> instant) \<Rightarrow> (nat \<Rightarrow> jdb \<Rightarrow> jdb) \<Rightarrow> string list \<Rightarrow> jdb \<Rightarrow> jdb \<times> (string \<times> string \<times> dict) option" where
  "claim_one clock env allowed db =
     (if allowed = [] then (db, None) else claim_attempts 10 clock env allowed db)"

section \<open>Heartbeats, the backstop and the drain\<close>

definition beat_row :: "instant \<Rightarrow> job \<Rightarrow> job" where
  "beat_row now j = j\<lparr> j_updated_at := Some now \<rparr>"

definition beat_once :: "instant \<Rightarrow> string \<Rightarrow> jdb \<Rightarrow> jdb" where
  "beat_once now jid db =
     db\<lparr> jobs := tbl_update (\<lambda>j. j_id j = jid \<and> j_status j = ''running'') (beat_row now) (jobs db) \<rparr>"

definition fail_backstop :: "config \<Rightarrow> instant \<Rightarrow> string \<Rightarrow> string \<Rightarrow> jdb \<Rightarrow> jdb" where
  "fail_backstop cfg now jid exc db =
     (case get_job db jid of
        None \<Rightarrow> db
      | Some cur \<Rightarrow>
          (if j_status cur = ''running''
           then set_failed cfg now jid (''job runner error: '' @ exc) [] db else db))"

definition reconcile_stale :: "instant \<Rightarrow> jdb \<Rightarrow> jdb \<times> nat" where
  "reconcile_stale now db = reconcile_stale_jobs now STALE_AFTER_MINUTES db"

definition expire_heartbeats :: "instant \<Rightarrow> string list \<Rightarrow> jdb \<Rightarrow> jdb" where
  "expire_heartbeats now ids db =
     (if ids = [] then db
      else db\<lparr> jobs := tbl_update (\<lambda>j. j_id j \<in> set ids \<and> j_status j = ''running'')
                 (beat_row (now - minutes (STALE_AFTER_MINUTES + 1))) (jobs db) \<rparr>)"

text \<open>
  \<open>_drain\<close>. \<open>wait\<close> is what happens to the database while the tasks are given their budget and
  the ids of those still pending after it; \<open>cancelled\<close> what happens while they are cancelled.
\<close>

definition drain ::
  "(nat \<Rightarrow> instant) \<Rightarrow> int \<Rightarrow> (jdb \<Rightarrow> jdb \<times> string list) \<Rightarrow> (jdb \<Rightarrow> jdb) \<Rightarrow> in_flight \<Rightarrow> jdb \<Rightarrow> jdb" where
  "drain clock timeout wait cancelled running db =
     (if running = [] then db
      else
        (let ids = map fst running;
             db1 = expire_heartbeats (clock 0) ids db;
             (db2, pending) = (if timeout > 0 then wait db1 else (db1, ids))
         in if timeout > 0 \<and> pending = [] then db2
            else expire_heartbeats (clock 1) pending (cancelled db2)))"

section \<open>One pass of the supervisor\<close>

text \<open>
  The claiming half of a pass of \<open>_run_loop\<close>: the caps as they read now, the allowed types, the
  claim, and the new entry in \<open>running\<close>. \<open>None\<close> as the third component is an idle pass; an
  untiered type is the \<open>KeyError\<close>, \<open>None\<close> for the whole.
\<close>

definition claim_pass ::
  "config \<Rightarrow> int \<Rightarrow> (nat \<Rightarrow> instant) \<Rightarrow> (nat \<Rightarrow> jdb \<Rightarrow> jdb) \<Rightarrow> in_flight \<Rightarrow> jdb \<Rightarrow>
   (jdb \<times> in_flight \<times> string option) option" where
  "claim_pass cfg capacity clock env running db =
     (let lims = limits_of cfg capacity
      in case claim_one clock env (allowed_types lims running) db of
           (db', None) \<Rightarrow> Some (db', running, None)
         | (db', Some (jid, job_type, meta)) \<Rightarrow>
             (case tier_of job_type of
                None \<Rightarrow> None
              | Some tr \<Rightarrow> Some (db', running @ [(jid, tr, job_type)], Some jid)))"

section \<open>Lemmas\<close>

lemmas tier_tables = HEAVY_TYPES_def MEDIUM_TYPES_def LIGHT_TYPES_def

lemma handled_types_distinct: "distinct HANDLED_TYPES"
  by (simp add: HANDLED_TYPES_def)

lemma tier_types_handled: "set (HEAVY_TYPES @ MEDIUM_TYPES @ LIGHT_TYPES) = set HANDLED_TYPES"
  by (simp only: tier_tables HANDLED_TYPES_def append.simps list.set insert_commute)

lemma distinct_same_length: "set xs = set ys \<Longrightarrow> length xs = length ys \<Longrightarrow> distinct ys \<Longrightarrow> distinct xs"
  by (metis card_distinct distinct_card)

lemma tier_types_distinct: "distinct (HEAVY_TYPES @ MEDIUM_TYPES @ LIGHT_TYPES)"
  by (rule distinct_same_length [OF tier_types_handled _ handled_types_distinct])
    (simp add: tier_tables HANDLED_TYPES_def)

lemma tier_of_eq: "(tr, types) \<in> set TIER_TYPES \<Longrightarrow> t \<in> set types \<Longrightarrow> tier_of t = Some tr"
proof -
  assume a: "(tr, types) \<in> set TIER_TYPES" "t \<in> set types"
  have keys: "map fst TIER_OF = HEAVY_TYPES @ MEDIUM_TYPES @ LIGHT_TYPES"
    by (simp add: TIER_OF_def TIER_TYPES_def comp_def)
  have "(t, tr) \<in> set TIER_OF" using a by (auto simp: TIER_OF_def)
  moreover have "distinct (map fst (rev TIER_OF))"
    using tier_types_distinct by (simp only: rev_map [symmetric] distinct_rev keys)
  ultimately show ?thesis by (simp add: tier_of_def)
qed

lemma allowed_typesD:
  assumes "t \<in> set (allowed_types lims running)"
  shows "int (length running) < lim_total lims"
    and "\<exists>tr. tier_of t = Some tr \<and> int (tier_count tr running) < lim_tier lims tr"
    and "t \<in> set SINGLETON_TYPES \<Longrightarrow> t \<notin> set (live_types running)"
  using assms tier_of_eq
  by (auto simp: allowed_types_def split: if_splits)

lemma allowed_types_handled: "set (allowed_types lims running) \<subseteq> set HANDLED_TYPES"
  by (auto simp: allowed_types_def TIER_TYPES_def tier_types_handled [symmetric])

lemma claim_select_SomeD:
  assumes "claim_select now allowed db = Some j"
  shows "j \<in> set (jobs db)" "claim_candidate now allowed j"
    "\<And>k. k \<in> set (jobs db) \<Longrightarrow> claim_candidate now allowed k \<Longrightarrow> claim_order j \<le> claim_order k"
  using first_by_Some [OF assms [unfolded claim_select_def]] by auto

lemma claim_update_count:
  "db_ok db \<Longrightarrow> snd (claim_update now st jid db) =
     (case get_job db jid of None \<Rightarrow> 0 | Some j \<Rightarrow> if j_status j = st then 1 else 0)"
proof (induction "jobs db" arbitrary: db)
  case Nil
  then show ?case by (simp add: claim_update_def get_job_def rowcount_def)
next
  case (Cons x xs)
  from Cons.hyps(2) [symmetric] have x: "jobs db = x # xs" .
  have ok: "db_ok (db\<lparr> jobs := xs \<rparr>)" using Cons.prems x by (simp add: db_ok_def)
  have IH: "snd (claim_update now st jid (db\<lparr> jobs := xs \<rparr>)) =
      (case get_job (db\<lparr> jobs := xs \<rparr>) jid of None \<Rightarrow> 0 | Some j \<Rightarrow> if j_status j = st then 1 else 0)"
    by (rule Cons.hyps(1)) (use ok in simp_all)
  have "j_id x = jid \<Longrightarrow> filter (\<lambda>j. j_id j = jid \<and> j_status j = st) xs = []"
    using Cons.prems x by (auto simp: db_ok_def filter_empty_conv image_iff)
  with IH x show ?case
    by (auto simp: claim_update_def get_job_def rowcount_def Let_def)
qed

lemma jobs_claim_update:
  "jobs (fst (claim_update now st jid db)) =
   tbl_update (\<lambda>j. j_id j = jid \<and> j_status j = st) (running_row now) (jobs db)"
  by (simp add: claim_update_def Let_def)

lemma db_ok_claim_update: "db_ok db \<Longrightarrow> db_ok (fst (claim_update now st jid db))"
  using running.db_ok_tbl_update [of db "\<lambda>j. j_id j = jid \<and> j_status j = st" now]
  by (simp add: claim_update_def Let_def)

interpretation beat: row_write "beat_row now" for now
  by unfold_locales (auto simp: row_ok_def beat_row_def)

lemma find_tbl_update:
  assumes "\<And>x. k (f x) = k x"
  shows "List.find (\<lambda>x. k x = i) (tbl_update p f xs) =
    map_option (\<lambda>x. if p x then f x else x) (List.find (\<lambda>x. k x = i) xs)"
  unfolding tbl_update_def by (rule find_map_key) (simp add: assms)

lemma get_job_claim_update:
  "get_job (fst (claim_update now st jid db)) k =
   map_option (\<lambda>j. if j_id j = jid \<and> j_status j = st then running_row now j else j) (get_job db k)"
  unfolding get_job_def jobs_claim_update by (rule find_tbl_update) (rule running.keeps_id)

section \<open>What other transactions may do between SELECT and UPDATE\<close>

definition others_ok :: "(jdb \<Rightarrow> jdb) \<Rightarrow> bool" where
  "others_ok e \<longleftrightarrow>
     (\<forall>db. db_ok db \<longrightarrow> db_ok (e db)) \<and>
     (\<forall>db k j j'. get_job db k = Some j \<longrightarrow> get_job (e db) k = Some j' \<longrightarrow>
        j_job_type j' = j_job_type j)"

context row_write
begin

lemma others_ok_upd_job: "others_ok (upd_job jid f)"
  by (auto simp: others_ok_def db_ok_upd_job get_job_upd_job keeps_type split: if_splits)

end

lemma others_ok_id: "others_ok (\<lambda>db. db)"
  by (simp add: others_ok_def)

lemma others_ok_claim: "others_ok (\<lambda>db. fst (claim_update now st jid db))"
  by (auto simp: others_ok_def db_ok_claim_update get_job_claim_update running.keeps_type)

lemma claim_attempts_SomeD:
  assumes "db_ok db" and "\<forall>n. others_ok (env n)"
    and "claim_attempts n clock env allowed db = (db', Some (jid, ty, meta))"
  shows "\<exists>m db0 j0. db_ok db0 \<and> get_job db0 jid = Some j0 \<and> j_status j0 = ''pending'' \<and>
    ty = j_job_type j0 \<and> meta = metadata_dict j0 \<and> ty \<in> set allowed \<and>
    db' = fst (claim_update (clock m) ''pending'' jid db0) \<and>
    get_job db' jid = Some (running_row (clock m) j0)"
  using assms(1,3)
proof (induction n arbitrary: db)
  case (Suc n)
  then obtain j where sel: "claim_select (clock n) allowed db = Some j"
    by (auto split: option.splits)
  let ?u = "claim_update (clock n) ''pending'' (j_id j) (env n db)"
  have ok0: "db_ok (env n db)" using Suc.prems(1) assms(2) by (simp add: others_ok_def)
  show ?case
  proof (cases "snd ?u = 1")
    case True
    then obtain j0 where j0: "get_job (env n db) (j_id j) = Some j0" "j_status j0 = ''pending''"
      by (auto simp: claim_update_count [OF ok0] split: option.splits if_splits)
    have "get_job db (j_id j) = Some j"
      using claim_select_SomeD(1) [OF sel] Suc.prems(1) find_key_unique [of j_id "jobs db" j]
      by (simp add: get_job_def db_ok_def)
    with j0 assms(2) have "j_job_type j0 = j_job_type j" by (auto simp: others_ok_def)
    with claim_select_SomeD(2) [OF sel] have "j_job_type j0 \<in> set allowed"
      by (simp add: claim_candidate_def)
    moreover have fresh: "get_job (fst ?u) (j_id j) = Some (running_row (clock n) j0)"
      using j0 get_job_SomeD [OF j0(1)] by (simp add: get_job_claim_update)
    moreover have "db' = fst ?u" "jid = j_id j" "ty = j_job_type j0" "meta = metadata_dict j0"
      using Suc.prems(2) sel True fresh get_job_SomeD [OF j0(1)]
      by (auto simp: running_row_def metadata_dict_def split: prod.splits)
    ultimately show ?thesis using ok0 j0 by blast
  next
    case False
    then have "claim_attempts n clock env allowed (fst ?u) = (db', Some (jid, ty, meta))"
      using Suc.prems(2) sel by (auto split: prod.splits)
    with Suc.IH [OF db_ok_claim_update [OF ok0]] show ?thesis by blast
  qed
qed simp

section \<open>Properties\<close>

text \<open>
  The three tiers partition the job types the runner handles: no type is in two of them or
  twice in one, together they are exactly the handled types, and so the tier lookup that the
  supervisor does after a claim succeeds exactly on those.
\<close>
theorem tiers_partition_handled:
  "distinct (HEAVY_TYPES @ MEDIUM_TYPES @ LIGHT_TYPES) \<and>
   set (HEAVY_TYPES @ MEDIUM_TYPES @ LIGHT_TYPES) = set HANDLED_TYPES \<and>
   (tier_of t \<noteq> None \<longleftrightarrow> t \<in> set HANDLED_TYPES)"
proof -
  have "tier_of t \<noteq> None \<longleftrightarrow> t \<in> set (HEAVY_TYPES @ MEDIUM_TYPES @ LIGHT_TYPES)"
    by (auto simp: tier_of_def TIER_OF_def TIER_TYPES_def map_of_eq_None_iff image_iff)
  then show ?thesis using tier_types_distinct unfolding tier_types_handled by (intro conjI refl)
qed

text \<open>
  C2. The UPDATE is the lock. Whatever other transactions do between the SELECT and the UPDATE
  of each attempt, a job the claim returns was \<open>pending\<close> at the instant of the UPDATE, is of an
  allowed type, is \<open>running\<close> afterwards with that start time, and no other row was touched by the
  UPDATE; the type and metadata returned are the row's.
\<close>
theorem claim_one_is_lock:
  assumes "db_ok db" and "\<forall>n. others_ok (env n)"
    and "claim_one clock env allowed db = (db', Some (jid, ty, meta))"
  shows "\<exists>m db0 j0. db_ok db0 \<and> get_job db0 jid = Some j0 \<and> j_status j0 = ''pending'' \<and>
    ty = j_job_type j0 \<and> meta = metadata_dict j0 \<and> ty \<in> set allowed \<and>
    db' = fst (claim_update (clock m) ''pending'' jid db0) \<and> db_ok db' \<and>
    get_job db' jid = Some (running_row (clock m) j0) \<and>
    (\<forall>k. k \<noteq> jid \<longrightarrow> get_job db' k = get_job db0 k) \<and>
    snd (claim_update t ''pending'' jid db') = 0"
proof -
  have "claim_attempts 10 clock env allowed db = (db', Some (jid, ty, meta))"
    using assms(3) by (auto simp: claim_one_def split: if_splits)
  from claim_attempts_SomeD [OF assms(1,2) this] obtain m db0 j0 where
    c: "db_ok db0" "get_job db0 jid = Some j0" "j_status j0 = ''pending''" "ty = j_job_type j0"
      "meta = metadata_dict j0" "ty \<in> set allowed"
      "db' = fst (claim_update (clock m) ''pending'' jid db0)"
      "get_job db' jid = Some (running_row (clock m) j0)"
    by blast
  have "get_job db' k = get_job db0 k" if "k \<noteq> jid" for k
    using that get_job_SomeD [of db0 k] unfolding c(7) get_job_claim_update
    by (cases "get_job db0 k") auto
  moreover have "db_ok db'" using c(1,7) db_ok_claim_update by simp
  moreover have "snd (claim_update t ''pending'' jid db') = 0"
    using c(8) by (simp add: claim_update_count [OF \<open>db_ok db'\<close>] running_row_def)
  ultimately show ?thesis using c by blast
qed

definition two_pending :: jdb where
  "two_pending = empty_db\<lparr> jobs :=
     map (\<lambda>(jid, t). new_row (\<lambda>_. None) default_config t jid (plain_new_job ''ami_copy'' None ''pending''))
       [(''j1'', 5), (''j2'', 6)] \<rparr>"

lemma two_pending_ok: "db_ok two_pending"
  by (simp add: db_ok_def two_pending_def new_row_ok plain_new_job_def)
    (simp add: new_row_def Let_def)

lemma claim_two_pending:
  "\<exists>db'. claim_one (\<lambda>_. 9) (\<lambda>n. if n = 9 then (\<lambda>db. fst (claim_update 8 ''pending'' ''j1'' db)) else (\<lambda>db. db))
     [''ami_copy''] two_pending = (db', Some (''j2'', ''ami_copy'', []))"
  by (simp add: claim_one_def two_pending_def eval_nat_numeral claim_select_def claim_candidate_def
      claimable_now_def new_row_def plain_new_job_def or_none_def claim_order_def claim_update_def
      tbl_update_def rowcount_def get_job_def running_row_def metadata_dict_def Let_def)

theorem claim_one_is_lock_witness:
  "\<exists>db'. get_job db' ''j2'' \<noteq> None \<and>
     claim_one (\<lambda>_. 9) (\<lambda>n. if n = 9 then (\<lambda>db. fst (claim_update 8 ''pending'' ''j1'' db)) else (\<lambda>db. db))
       [''ami_copy''] two_pending = (db', Some (''j2'', ''ami_copy'', []))"
proof -
  obtain db' where c: "claim_one (\<lambda>_. 9)
      (\<lambda>n. if n = 9 then (\<lambda>db. fst (claim_update 8 ''pending'' ''j1'' db)) else (\<lambda>db. db))
      [''ami_copy''] two_pending = (db', Some (''j2'', ''ami_copy'', []))"
    using claim_two_pending by blast
  have "\<forall>n. others_ok (if n = 9 then (\<lambda>db. fst (claim_update 8 ''pending'' ''j1'' db)) else (\<lambda>db. db))"
    for n :: nat by (simp add: others_ok_id others_ok_claim)
  from claim_one_is_lock [OF two_pending_ok this c] have "get_job db' ''j2'' \<noteq> None" by auto
  with c show ?thesis by blast
qed

lemma claim_one_undisturbed:
  assumes "db_ok db" and "allowed \<noteq> []" and "claim_select (clock 9) allowed db = Some j"
  shows "claim_one clock (\<lambda>_ db. db) allowed db =
    (fst (claim_update (clock 9) ''pending'' (j_id j) db), Some (j_id j, j_job_type j, metadata_dict j))"
    and "get_job db (j_id j) = Some j"
    and "get_job (fst (claim_update (clock 9) ''pending'' (j_id j) db)) (j_id j) =
      Some (running_row (clock 9) j)"
proof -
  note sel = claim_select_SomeD [OF assms(3)]
  show get: "get_job db (j_id j) = Some j"
    using sel(1) assms(1) find_key_unique [of j_id "jobs db" j] by (simp add: get_job_def db_ok_def)
  have pend: "j_status j = ''pending''" using sel(2) by (simp add: claim_candidate_def)
  have "snd (claim_update (clock 9) ''pending'' (j_id j) db) = 1"
    using get pend by (simp add: claim_update_count [OF assms(1)])
  moreover show run: "get_job (fst (claim_update (clock 9) ''pending'' (j_id j) db)) (j_id j) =
      Some (running_row (clock 9) j)"
    using get pend by (simp add: get_job_claim_update)
  ultimately show "claim_one clock (\<lambda>_ db. db) allowed db =
      (fst (claim_update (clock 9) ''pending'' (j_id j) db),
       Some (j_id j, j_job_type j, metadata_dict j))"
    using assms(2,3)
    by (simp add: claim_one_def eval_nat_numeral split_beta running_row_def metadata_dict_def)
qed

text \<open>
  Progress and order: with no interference the claim returns a job exactly when one is
  claimable, at the first attempt, and it is one booked no later than any other claimable job of
  an allowed type (the booked start if there is one, else the creation time).
\<close>
theorem claim_one_takes_oldest:
  assumes "db_ok db" and "allowed \<noteq> []"
  shows "(case claim_one clock (\<lambda>_ db. db) allowed db of
      (db', None) \<Rightarrow> db' = db \<and> (\<forall>k \<in> set (jobs db). \<not> claim_candidate (clock 9) allowed k)
    | (db', Some (jid, _, _)) \<Rightarrow>
        (\<exists>j. get_job db jid = Some j \<and> claim_candidate (clock 9) allowed j \<and>
           db' = fst (claim_update (clock 9) ''pending'' jid db) \<and>
           (\<forall>k \<in> set (jobs db). claim_candidate (clock 9) allowed k \<longrightarrow> claim_order j \<le> claim_order k)))"
proof (cases "claim_select (clock 9) allowed db")
  case None
  then show ?thesis
    using assms(2) by (auto simp: claim_one_def eval_nat_numeral claim_select_def filter_empty_conv)
next
  case (Some j)
  show ?thesis
    using claim_one_undisturbed [where clock = clock, OF assms Some] claim_select_SomeD [OF Some] by auto
qed

theorem claim_one_takes_oldest_witness:
  "\<exists>jid db' x. claim_one (\<lambda>_. 9) (\<lambda>_ db. db) [''ami_copy''] two_pending = (db', Some (jid, x))"
proof -
  have "\<exists>k \<in> set (jobs two_pending). claim_candidate 9 [''ami_copy''] k"
    by (simp add: two_pending_def claim_candidate_def claimable_now_def new_row_def plain_new_job_def
        Let_def)
  with claim_one_takes_oldest [OF two_pending_ok, of "[''ami_copy'']" "\<lambda>_. 9"] show ?thesis
    by (auto split: prod.splits option.splits)
qed

lemma claim_one_type:
  assumes "db_ok db" and "\<forall>n. others_ok (env n)"
    and "claim_one clock env allowed db = (db', Some (jid, ty, meta))"
  shows "ty \<in> set allowed"
proof -
  have "claim_attempts 10 clock env allowed db = (db', Some (jid, ty, meta))"
    using assms(3) by (auto simp: claim_one_def split: if_splits)
  from claim_attempts_SomeD [OF assms(1,2) this] show ?thesis by blast
qed

text \<open>
  C11. Admission: a pass of the supervisor never raises on the tier lookup, and a pass that
  claims a job leaves, under the limits it read, at most the cap of the job's tier in flight, at
  most the total the connection pool can serve, at most one job of a singleton type, and the
  other tiers unchanged; a pass that claims nothing leaves the table of tasks alone.
\<close>
theorem claim_pass_respects_caps:
  assumes "db_ok db" and "\<forall>n. others_ok (env n)"
    and "lims = limits_of cfg capacity"
  shows "\<exists>db' running' claimed. claim_pass cfg capacity clock env running db = Some (db', running', claimed) \<and>
    (case claimed of
       None \<Rightarrow> running' = running
     | Some jid \<Rightarrow>
         (\<exists>tr ty. tier_of ty = Some tr \<and> running' = running @ [(jid, tr, ty)] \<and>
            int (tier_count tr running') \<le> lim_tier lims tr \<and>
            (\<forall>tr'. tr' \<noteq> tr \<longrightarrow> tier_count tr' running' = tier_count tr' running) \<and>
            int (length running') \<le> lim_total lims \<and>
            (capacity \<ge> 6 \<longrightarrow> int (length running') * SESSIONS_PER_JOB + POOL_RESERVED \<le> capacity) \<and>
            (ty \<in> set SINGLETON_TYPES \<longrightarrow> ty \<notin> set (live_types running))))"
proof (cases "claim_one clock env (allowed_types lims running) db")
  case (Pair db' c)
  show ?thesis
  proof (cases c)
    case None
    with Pair assms(3) show ?thesis by (simp add: claim_pass_def Let_def)
  next
    case (Some x)
    obtain jid ty meta where x: "x = (jid, ty, meta)" by (cases x)
    have ty: "ty \<in> set (allowed_types lims running)"
      using claim_one_type [OF assms(1,2)] Pair Some x by blast
    note adm = allowed_typesD [OF ty]
    obtain tr where tr: "tier_of ty = Some tr" "int (tier_count tr running) < lim_tier lims tr"
      using adm(2) by blast
    have "capacity \<ge> 6 \<longrightarrow> (1 + int (length running)) * SESSIONS_PER_JOB + POOL_RESERVED \<le> capacity"
      using adm(1) unfolding assms(3) limits_of_def
      by (auto simp: SESSIONS_PER_JOB_def POOL_RESERVED_def Let_def split: if_splits)
    with adm tr Pair Some x assms(3) show ?thesis
      by (auto simp: claim_pass_def tier_count_def Let_def)
  qed
qed

theorem claim_pass_respects_caps_witness:
  "\<exists>x. claim_pass default_config 10 (\<lambda>_. 9) (\<lambda>_ db. db) [] two_pending = Some x"
  using claim_pass_respects_caps [OF two_pending_ok, of "\<lambda>_ db. db" _ default_config 10 "\<lambda>_. 9" "[]",
      OF _ refl] others_ok_id by auto

lemma get_job_reconcile:
  "get_job (fst (reconcile_stale_jobs now n db)) k =
   map_option (\<lambda>j. if stale (now - minutes n) j then reconcile_row now j else j) (get_job db k)"
  unfolding get_job_def reconcile_jobs by (rule find_tbl_update) (rule reconciled.keeps_id)

lemma get_job_beat_once:
  "get_job (beat_once now jid db) k =
   map_option (\<lambda>j. if j_id j = jid \<and> j_status j = ''running'' then beat_row now j else j) (get_job db k)"
  unfolding get_job_def beat_once_def jdb.select_convs jdb.update_convs
  by (simp add: find_tbl_update beat.keeps_id)

lemma get_job_expire:
  "get_job (expire_heartbeats now ids db) k =
   map_option (\<lambda>j. if j_id j \<in> set ids \<and> j_status j = ''running''
                  then beat_row (now - minutes 11) j else j) (get_job db k)"
  by (cases ids) (simp_all add: get_job_def expire_heartbeats_def find_tbl_update beat.keeps_id
      STALE_AFTER_MINUTES_def option.map_ident)

text \<open>
  A live owner is never reconciled away: a running job whose owner wrote a heartbeat less
  than ten minutes before a stale sweep, by this or any other worker, is still running after it,
  unchanged.
\<close>
theorem heartbeat_protects:
  assumes "get_job db jid = Some j" and "j_status j = ''running''"
    and "now < beat + minutes STALE_AFTER_MINUTES"
  shows "get_job (fst (reconcile_stale now (beat_once beat jid db))) jid = Some (beat_row beat j)"
proof -
  have "\<not> stale (now - minutes 10) (beat_row beat j)"
    using assms(3) by (simp add: stale_def last_heartbeat_def beat_row_def STALE_AFTER_MINUTES_def)
  then show ?thesis
    using assms get_job_SomeD [OF assms(1)]
    by (simp add: reconcile_stale_def get_job_reconcile get_job_beat_once STALE_AFTER_MINUTES_def)
qed

theorem heartbeat_protects_witness:
  "get_job (fst (reconcile_stale 500000000
     (beat_once 400000000 ''j1'' (one_job_db (running_job ''j1'' ''ami_copy'' 0))))) ''j1'' \<noteq> None"
  using heartbeat_protects [of "one_job_db (running_job ''j1'' ''ami_copy'' 0)" "''j1''"
      "running_job ''j1'' ''ami_copy'' 0" 500000000 400000000]
  by (simp add: get_job_def STALE_AFTER_MINUTES_def minutes_def seconds_def)

text \<open>
  The shutdown drain hands its jobs over: every job still running when the drain ends is,
  if it was among those the drain abandoned, failed by any stale sweep from that moment on, with
  the interruption message, instead of looking alive for ten more minutes; every other row is
  left as the tasks left it.
\<close>
theorem drain_abandons_to_sweep:
  assumes "running \<noteq> []" and "timeout > 0"
    and "wait (expire_heartbeats (clock 0) (map fst running) db) = (db2, pending)"
    and "pending \<noteq> []" and "clock 1 \<le> now"
    and "get_job (cancelled db2) k = Some j"
  shows "get_job (drain clock timeout wait cancelled running db) k =
      Some (if k \<in> set pending \<and> j_status j = ''running''
            then beat_row (clock 1 - minutes 11) j else j) \<and>
    (k \<in> set pending \<and> j_status j = ''running'' \<longrightarrow>
     (\<exists>j'. get_job (fst (reconcile_stale now (drain clock timeout wait cancelled running db))) k = Some j' \<and>
        j_status j' = ''failed'' \<and> j_error_message j' = Some interrupted_message))"
proof -
  have d: "drain clock timeout wait cancelled running db =
      expire_heartbeats (clock 1) pending (cancelled db2)"
    using assms(1-4) by (simp add: drain_def Let_def)
  have "j_id j = k" using get_job_SomeD [OF assms(6)] by simp
  then have get: "get_job (drain clock timeout wait cancelled running db) k =
      Some (if k \<in> set pending \<and> j_status j = ''running''
            then beat_row (clock 1 - minutes 11) j else j)"
    by (simp add: d get_job_expire assms(6))
  moreover have "stale (now - minutes 10) (beat_row (clock 1 - minutes 11) j)"
    if "j_status j = ''running''"
    using that assms(5) by (simp add: stale_def last_heartbeat_def beat_row_def minutes_def seconds_def)
  ultimately show ?thesis
    by (simp add: reconcile_stale_def get_job_reconcile STALE_AFTER_MINUTES_def reconcile_row_def)
qed

theorem drain_abandons_to_sweep_witness:
  "\<exists>j'. get_job (fst (reconcile_stale 100 (drain (\<lambda>_. 100) 20 (\<lambda>db. (db, [''j1''])) (\<lambda>db. db)
      [(''j1'', Light, ''ami_copy'')] (one_job_db (running_job ''j1'' ''ami_copy'' 0))))) ''j1'' = Some j' \<and>
    j_status j' = ''failed''"
proof -
  let ?j = "beat_row (100 - minutes 11) (running_job ''j1'' ''ami_copy'' 0)"
  have "get_job (one_job_db (running_job ''j1'' ''ami_copy'' 0)) ''j1'' =
      Some (running_job ''j1'' ''ami_copy'' 0)"
    by (simp add: get_job_def)
  then have "get_job (expire_heartbeats 100 (map fst [(''j1'', Light, ''ami_copy'')])
      (one_job_db (running_job ''j1'' ''ami_copy'' 0))) ''j1'' = Some ?j"
    by (simp add: get_job_expire)
  then have "get_job ((\<lambda>db. db) (expire_heartbeats 100 (map fst [(''j1'', Light, ''ami_copy'')])
      (one_job_db (running_job ''j1'' ''ami_copy'' 0)))) ''j1'' = Some ?j" by simp
  from drain_abandons_to_sweep [where running = "[(''j1'', Light, ''ami_copy'')]" and timeout = 20 and
      wait = "\<lambda>db. (db, [''j1''])" and clock = "\<lambda>_. 100" and now = 100 and cancelled = "\<lambda>db. db" and
      db = "one_job_db (running_job ''j1'' ''ami_copy'' 0)" and j = ?j and k = "''j1''" and
      pending = "[''j1'']", OF _ _ refl _ _ this]
  show ?thesis by (auto simp: beat_row_def)
qed

end
