(* ===== verification/Agent_Service.thy ===== *)
theory Agent_Service
  imports Agent_Guard Job_Logs Jobs_Worker "HOL-Library.Char_ord" "HOL-Library.List_Lexorder"
begin

text \<open>
  \<open>services/agent_service.py\<close>: registration and enrolment of remote agents, authentication of
  their signed requests, the job lease, the version gates, and reporting back. The assurance items
  that \<open>authenticate\<close> and \<open>record_self_report\<close> raise on the way are in \<open>Agent_Assurance\<close>, whose
  \<open>authenticate_watched\<close> is \<open>authenticate\<close> with the look at a replaced key; attestation by SPIFFE
  identity is in \<open>Agent_Attest\<close>. \<open>_forget_spire\<close> only talks to the SPIRE server.
\<close>

section \<open>State\<close>

record attention =
  an_kind :: string
  an_title :: string
  an_detail :: string
  an_at :: string

record agent =
  ag_id :: string
  ag_name :: string
  ag_site :: string
  ag_description :: string
  ag_enroll_code_hash :: "string option"
  ag_enroll_expires_at :: "instant option"
  ag_public_key :: "string option"
  ag_policy_hash :: "string option"
  ag_allowed_job_types :: "json option"
  ag_agent_version :: "string option"
  ag_reported_job_types :: "json option"
  ag_reported_ansible_slots :: "int option"
  ag_enrolled_at :: "instant option"
  ag_last_seen_at :: "instant option"
  ag_last_seen_ip :: "string option"
  ag_is_active :: bool
  ag_created_by :: string
  ag_spiffe_id :: "string option"
  ag_auth_mode :: "string option"
  ag_paused :: "bool option"
  ag_control_upgrades :: "bool option"
  ag_control_updater :: "bool option"
  ag_control_k8s_signature :: "string option"
  ag_reported_reattest_hours :: "int option"
  ag_upgrade_ring :: "string option"
  ag_workstream :: "string option"
  ag_attention :: "attention list"
  ag_previous_public_key :: "string option"
  ag_previous_key_until :: "instant option"
  ag_last_attest_at :: "instant option"
  ag_last_attest_ip :: "string option"

record agent_db =
  agents :: "agent list"
  nonces :: "nonce_row list"
  enroll_attempts :: "attempt_row list"
  jdb_of :: jdb
  job_logs :: "log_row list"
  route_agents :: "string list"
  cluster_executors :: "(string \<times> string option) list"

datatype agent_failure = AgentError string | AgentThrottled throttled

section \<open>Constants\<close>

definition ENROLL_CODE_PREFIX :: string where "ENROLL_CODE_PREFIX = ''agte_''"
definition ENROLL_TTL_MINUTES :: int where "ENROLL_TTL_MINUTES = 15"

definition AGENT_JOB_TYPES :: "string list" where
  "AGENT_JOB_TYPES =
     [''agent_discover'', ''agent_hypervisor'', ''agent_ansible'', ''agent_gateway'',
      ''agent_storage'', ''agent_k8s'', ''agent_ui_robot'']"

definition CONTROL_JOB_TYPES :: "string list" where
  "CONTROL_JOB_TYPES = [''agent_upgrade'', ''agent_restart'']"

definition ONLINE_WINDOW_SECONDS :: int where "ONLINE_WINDOW_SECONDS = 90"
definition MAX_LOG_LINES_PER_REQUEST :: nat where "MAX_LOG_LINES_PER_REQUEST = 500"
definition MAX_LOG_LINE_CHARS :: nat where "MAX_LOG_LINE_CHARS = 8192"
definition MAX_LOG_LINES_PER_JOB :: nat where "MAX_LOG_LINES_PER_JOB = 20000"
definition MAX_RESULT_BYTES :: nat where "MAX_RESULT_BYTES = 256 * 1024"
definition MAX_REPORTED_ANSIBLE_SLOTS :: int where "MAX_REPORTED_ANSIBLE_SLOTS = 8"

section \<open>Registration\<close>

text \<open>The random half of a code (\<open>secrets.token_hex\<close>) is an argument.\<close>

definition new_enroll_code :: "string \<Rightarrow> string" where
  "new_enroll_code token = ENROLL_CODE_PREFIX @ token"

definition find_agent :: "agent_db \<Rightarrow> string \<Rightarrow> agent option" where
  "find_agent st aid = List.find (\<lambda>a. ag_id a = aid) (agents st)"

definition upd_agent :: "string \<Rightarrow> (agent \<Rightarrow> agent) \<Rightarrow> agent_db \<Rightarrow> agent_db" where
  "upd_agent aid f st = st\<lparr> agents := tbl_update (\<lambda>a. ag_id a = aid) f (agents st) \<rparr>"

definition create_agent ::
  "(string \<Rightarrow> string) \<Rightarrow> instant \<Rightarrow> string \<Rightarrow> string \<Rightarrow> string \<Rightarrow> string \<Rightarrow> string \<Rightarrow> string \<Rightarrow> agent_db \<Rightarrow>
   (agent_failure + agent \<times> string) \<times> agent_db" where
  "create_agent H now uuid token name0 site description created_by st =
     (let name = py_strip name0 in
      if name = [] then (Inl (AgentError ''Agent name is required.''), st)
      else if length name > 64
      then (Inl (AgentError ''Agent name must be 64 characters or fewer.''), st)
      else if \<exists>a \<in> set (agents st). ag_name a = name
      then (Inl (AgentError (''An agent named '' @ [CHR 0x27] @ name @ [CHR 0x27] @ '' already exists.'')), st)
      else
        (let code = new_enroll_code token;
             a = \<lparr> ag_id = uuid, ag_name = name, ag_site = py_strip site,
                   ag_description = py_strip description,
                   ag_enroll_code_hash = Some (H code),
                   ag_enroll_expires_at = Some (now + minutes ENROLL_TTL_MINUTES),
                   ag_public_key = None, ag_policy_hash = None, ag_allowed_job_types = None,
                   ag_agent_version = None, ag_reported_job_types = None,
                   ag_reported_ansible_slots = None, ag_enrolled_at = None, ag_last_seen_at = None,
                   ag_last_seen_ip = None, ag_is_active = True, ag_created_by = created_by,
                   ag_spiffe_id = None, ag_auth_mode = None, ag_paused = None,
                   ag_control_upgrades = None, ag_control_updater = None,
                   ag_control_k8s_signature = None, ag_reported_reattest_hours = None,
                   ag_upgrade_ring = None, ag_workstream = None, ag_attention = [],
                   ag_previous_public_key = None, ag_previous_key_until = None,
                   ag_last_attest_at = None, ag_last_attest_ip = None \<rparr>
         in (Inr (a, code), st\<lparr> agents := agents st @ [a] \<rparr>)))"

definition reissued :: "string \<Rightarrow> instant \<Rightarrow> agent \<Rightarrow> agent" where
  "reissued code_hash now a =
     a\<lparr> ag_enroll_code_hash := Some code_hash,
        ag_enroll_expires_at := Some (now + minutes ENROLL_TTL_MINUTES),
        ag_public_key := None, ag_enrolled_at := None, ag_spiffe_id := None, ag_auth_mode := None \<rparr>"

definition reissue_enroll_code ::
  "(string \<Rightarrow> string) \<Rightarrow> instant \<Rightarrow> string \<Rightarrow> string \<Rightarrow> agent_db \<Rightarrow> string \<times> agent_db" where
  "reissue_enroll_code H now token aid st =
     (let code = new_enroll_code token in (code, upd_agent aid (reissued (H code) now) st))"

definition revoked :: "agent \<Rightarrow> agent" where
  "revoked a = a\<lparr> ag_is_active := False, ag_public_key := None, ag_enroll_code_hash := None \<rparr>"

definition revoke_job :: "config \<Rightarrow> instant \<Rightarrow> job \<Rightarrow> jdb \<Rightarrow> jdb" where
  "revoke_job cfg now j db =
     (if j_status j = ''running''
      then set_failed cfg now (j_id j) ''Agent was revoked while it held this job.'' [] db
      else set_cancelled now (j_id j) db)"

definition held_jobs :: "string \<Rightarrow> jdb \<Rightarrow> job list" where
  "held_jobs aid db =
     filter (\<lambda>j. j_agent_id j = Some aid \<and> j_status j \<in> {''queued'', ''running''}) (jobs db)"

definition revoke_agent :: "config \<Rightarrow> instant \<Rightarrow> string \<Rightarrow> agent_db \<Rightarrow> nat \<times> agent_db" where
  "revoke_agent cfg now aid st =
     (let st1 = upd_agent aid revoked st;
          held = held_jobs aid (jdb_of st1)
      in (length held, st1\<lparr> jdb_of := fold (revoke_job cfg now) held (jdb_of st1) \<rparr>))"

definition delete_agent :: "string \<Rightarrow> agent_db \<Rightarrow> nat \<times> agent_db" where
  "delete_agent aid st =
     (let p = (\<lambda>j. j_agent_id j = Some aid); db = jdb_of st
      in (rowcount p (jobs db),
          st\<lparr> jdb_of := db\<lparr> jobs := tbl_update p (\<lambda>j. j\<lparr> j_agent_id := None \<rparr>) (jobs db) \<rparr>,
              route_agents := filter (\<lambda>r. r \<noteq> aid) (route_agents st),
              cluster_executors :=
                map (\<lambda>(c, e). (c, if e = Some aid then None else e)) (cluster_executors st),
              agents := filter (\<lambda>a. ag_id a \<noteq> aid) (agents st) \<rparr>))"

definition status_of :: "instant \<Rightarrow> agent \<Rightarrow> string" where
  "status_of now a =
     (if \<not> ag_is_active a then ''revoked''
      else if or_empty (ag_public_key a) = [] then ''enrolling''
      else (case ag_last_seen_at a of
              None \<Rightarrow> ''offline''
            | Some t \<Rightarrow> (if now - t \<le> seconds ONLINE_WINDOW_SECONDS then ''online'' else ''offline'')))"

section \<open>Enrolment\<close>

definition enrolled :: "instant \<Rightarrow> string \<Rightarrow> string \<Rightarrow> string \<Rightarrow> string \<Rightarrow> agent \<Rightarrow> agent" where
  "enrolled now key version policy ip a =
     a\<lparr> ag_public_key := Some key, ag_policy_hash := Some (take 64 policy),
        ag_agent_version := Some (take 32 version), ag_enrolled_at := Some now,
        ag_last_seen_at := Some now, ag_last_seen_ip := Some (take 45 ip),
        ag_enroll_code_hash := None, ag_enroll_expires_at := None \<rparr>"

definition redeem ::
  "(string \<Rightarrow> string) \<Rightarrow> (string \<Rightarrow> 'k option) \<Rightarrow> instant \<Rightarrow> string \<Rightarrow> string \<Rightarrow> string \<Rightarrow> string \<Rightarrow> string \<Rightarrow>
   agent_db \<Rightarrow> (string + string) \<times> agent_db" where
  "redeem H edkey now code0 key version policy ip st =
     (let code = py_strip code0 in
      if \<not> starts_with ENROLL_CODE_PREFIX code then (Inl ''Invalid enrolment code.'', st)
      else
        (let code_hash = H code in
         case List.find (\<lambda>a. ag_enroll_code_hash a = Some code_hash) (agents st) of
           None \<Rightarrow> (Inl ''Invalid enrolment code.'', st)
         | Some a \<Rightarrow>
             (if or_empty (ag_enroll_code_hash a) \<noteq> code_hash then (Inl ''Invalid enrolment code.'', st)
              else if \<not> ag_is_active a then (Inl ''This agent has been revoked.'', st)
              else if (case ag_enroll_expires_at a of None \<Rightarrow> False | Some e \<Rightarrow> e < now)
              then (Inl ''Enrolment code has expired. Issue a new one from the Agents page.'', st)
              else (case load_public_key edkey key of
                      Inl exc \<Rightarrow> (Inl (''Invalid public key: '' @ exc), st)
                    | Inr _ \<Rightarrow>
                        (Inr (ag_id a), upd_agent (ag_id a) (enrolled now key version policy ip) st)))))"

definition enroll ::
  "(string \<Rightarrow> string) \<Rightarrow> (string \<Rightarrow> 'k option) \<Rightarrow> config \<Rightarrow> instant \<Rightarrow> string \<Rightarrow> string \<Rightarrow> string \<Rightarrow> string \<Rightarrow>
   string \<Rightarrow> agent_db \<Rightarrow> (agent_failure + string) \<times> agent_db" where
  "enroll H edkey cfg now code key version policy ip st =
     (case check_enroll cfg now ip (enroll_attempts st) of
        Some th \<Rightarrow> (Inl (AgentThrottled th), st)
      | None \<Rightarrow>
          (case redeem H edkey now code key version policy ip st of
             (Inr aid, st') \<Rightarrow> (Inr aid, st')
           | (Inl msg, st') \<Rightarrow>
               (Inl (AgentError msg),
                st'\<lparr> enroll_attempts := record_enroll_failure cfg now ip (enroll_attempts st') \<rparr>)))"

section \<open>Request authentication\<close>

definition ansible_slots :: "agent \<Rightarrow> int" where
  "ansible_slots a =
     (let v = (case ag_reported_ansible_slots a of None \<Rightarrow> 1 | Some n \<Rightarrow> if n = 0 then 1 else n)
      in max 1 (min v MAX_REPORTED_ANSIBLE_SLOTS))"

definition consume_nonce :: "instant \<Rightarrow> string \<Rightarrow> string \<Rightarrow> nonce_row list \<Rightarrow> bool \<times> nonce_row list" where
  "consume_nonce now aid nonce rows =
     (if nonce = [] \<or> length nonce > 64 then (False, rows)
      else if \<exists>r \<in> set rows. nr_agent r = aid \<and> nr_nonce r = nonce then (False, rows)
      else (True, rows @ [\<lparr> nr_agent = aid, nr_nonce = nonce, nr_seen = now \<rparr>]))"

definition sweep_nonces :: "instant \<Rightarrow> int \<Rightarrow> nonce_row list \<Rightarrow> nonce_row list" where
  "sweep_nonces now older_than_seconds rows =
     (let age = (if older_than_seconds \<noteq> 0 then older_than_seconds else SIGNATURE_WINDOW_SECONDS * 4)
      in filter (\<lambda>r. \<not> nr_seen r < now - seconds age) rows)"

definition seen :: "instant \<Rightarrow> string \<Rightarrow> agent \<Rightarrow> agent" where
  "seen now ip a =
     (let b = a\<lparr> ag_last_seen_at := Some now \<rparr>
      in if ip \<noteq> [] then b\<lparr> ag_last_seen_ip := Some (take 45 ip) \<rparr> else b)"

definition authenticate ::
  "(string \<Rightarrow> string) \<Rightarrow> (string \<Rightarrow> 'k option) \<Rightarrow> ('k \<Rightarrow> string \<Rightarrow> string \<Rightarrow> bool) \<Rightarrow> config \<Rightarrow> instant \<Rightarrow>
   request \<Rightarrow> string \<Rightarrow> string \<Rightarrow> agent_db \<Rightarrow> (agent_failure + string) \<times> agent_db" where
  "authenticate H edkey edverify cfg now r signature ip st =
     (case find_agent st (rq_agent_id r) of
        None \<Rightarrow> (Inl (AgentError ''Unknown or inactive agent.''), st)
      | Some a \<Rightarrow>
          (if \<not> ag_is_active a \<or> or_empty (ag_public_key a) = []
           then (Inl (AgentError ''Unknown or inactive agent.''), st)
           else if \<not> verify_request H edkey edverify now (or_empty (ag_public_key a)) r signature
           then (Inl (AgentError ''Signature verification failed.''), st)
           else
             (case check_request cfg now (rq_agent_id r) (ansible_slots a) (nonces st) of
                Some th \<Rightarrow> (Inl (AgentThrottled th), st)
              | None \<Rightarrow>
                  (case consume_nonce now (rq_agent_id r) (rq_nonce r) (nonces st) of
                     (False, _) \<Rightarrow> (Inl (AgentError ''Replayed request.''), st)
                   | (True, rows) \<Rightarrow>
                       (Inr (ag_id a), upd_agent (ag_id a) (seen now ip) (st\<lparr> nonces := rows \<rparr>))))))"

section \<open>The lease\<close>

definition allowed_job_types_list :: "agent \<Rightarrow> json list" where
  "allowed_job_types_list a = (case ag_allowed_job_types a of Some (JList xs) \<Rightarrow> xs | _ \<Rightarrow> [])"

definition allowed_job_types :: "agent \<Rightarrow> string list" where
  "allowed_job_types a =
     (let per_agent = allowed_job_types_list a
      in if per_agent = [] then AGENT_JOB_TYPES
         else filter (\<lambda>t. JStr t \<in> set per_agent) AGENT_JOB_TYPES)"

text \<open>
  The types one lease may claim. \<open>k8s_ok\<close> is \<open>k8s_executor_service.qualifies\<close>, \<open>want\<close> the
  request's own narrowing.
\<close>

definition leasable_types :: "bool \<Rightarrow> string list option \<Rightarrow> agent \<Rightarrow> string list" where
  "leasable_types k8s_ok want a =
     (let granted = allowed_job_types a;
          gated = (if ''agent_k8s'' \<in> set granted \<and> \<not> k8s_ok
                   then filter (\<lambda>t. t \<noteq> ''agent_k8s'') granted else granted);
          full = (if ag_auth_mode a = Some ''spiffe'' then gated @ CONTROL_JOB_TYPES else gated)
      in case want of None \<Rightarrow> full | Some ws \<Rightarrow> filter (\<lambda>t. t \<in> set ws) full)"

definition lease_candidate :: "instant \<Rightarrow> string \<Rightarrow> string list \<Rightarrow> job \<Rightarrow> bool" where
  "lease_candidate now aid allowed j \<longleftrightarrow>
     j_status j = ''queued'' \<and> j_agent_id j = Some aid \<and> j_job_type j \<in> set allowed \<and>
     claimable_now now j"

definition lease_select :: "instant \<Rightarrow> string \<Rightarrow> string list \<Rightarrow> jdb \<Rightarrow> job option" where
  "lease_select now aid allowed db =
     first_by claim_order (filter (lease_candidate now aid allowed) (jobs db))"

definition lease_update :: "instant \<Rightarrow> string \<Rightarrow> string \<Rightarrow> jdb \<Rightarrow> jdb \<times> nat" where
  "lease_update now aid jid db =
     (let p = (\<lambda>j. j_id j = jid \<and> j_status j = ''queued'' \<and> j_agent_id j = Some aid)
      in (db\<lparr> jobs := tbl_update p (running_row now) (jobs db) \<rparr>, rowcount p (jobs db)))"

text \<open>
  The loop of \<open>lease_one\<close>: \<open>env n\<close> is what other transactions do between the SELECT and the
  UPDATE of round \<open>n\<close>. A loop that never ends is \<open>None\<close>.
\<close>

partial_function (option) lease_loop ::
  "nat \<Rightarrow> (nat \<Rightarrow> instant) \<Rightarrow> (nat \<Rightarrow> jdb \<Rightarrow> jdb) \<Rightarrow> string \<Rightarrow> string list \<Rightarrow> jdb \<Rightarrow>
   (jdb \<times> (string \<times> string \<times> dict) option) option" where
  "lease_loop n clock env aid allowed db =
     (case lease_select (clock n) aid allowed db of
        None \<Rightarrow> Some (db, None)
      | Some j \<Rightarrow>
          (case lease_update (clock n) aid (j_id j) (env n db) of
             (db', claimed) \<Rightarrow>
               (if claimed = 1 then
                  (case get_job db' (j_id j) of
                     Some fresh \<Rightarrow> Some (db', Some (j_id fresh, j_job_type fresh, metadata_dict fresh))
                   | None \<Rightarrow> Some (db', None))
                else lease_loop (Suc n) clock env aid allowed db')))"

definition lease_one ::
  "(nat \<Rightarrow> instant) \<Rightarrow> (nat \<Rightarrow> jdb \<Rightarrow> jdb) \<Rightarrow> bool \<Rightarrow> string list option \<Rightarrow> agent \<Rightarrow> jdb \<Rightarrow>
   (jdb \<times> (string \<times> string \<times> dict) option) option" where
  "lease_one clock env k8s_ok want a db =
     (if ag_paused a = Some True then Some (db, None)
      else
        (let allowed = leasable_types k8s_ok want a in
         if allowed = [] then Some (db, None)
         else lease_loop 0 clock env (ag_id a) allowed db))"

section \<open>Version gates\<close>

definition is_digit :: "char \<Rightarrow> bool" where
  "is_digit c = (digit_val c \<noteq> None)"

text \<open>The two groups of \<open>\s*(\d+)\.(\d+)\<close> at the start of the text.\<close>

definition parse_version :: "string \<Rightarrow> (int \<times> int) option" where
  "parse_version s =
     (let body = dropWhile is_space s; major = takeWhile is_digit body; rest = dropWhile is_digit body
      in case rest of
           [] \<Rightarrow> None
         | c # tail \<Rightarrow>
             (let minor = takeWhile is_digit tail in
              if major = [] \<or> c \<noteq> CHR ''.'' \<or> minor = [] then None
              else (case (int_start major, int_start minor) of
                      (Some a, Some b) \<Rightarrow> Some (a, b)
                    | _ \<Rightarrow> None)))"

definition version_at_least :: "agent \<Rightarrow> int \<times> int \<Rightarrow> bool" where
  "version_at_least a minimum =
     (case parse_version (or_empty (ag_agent_version a)) of
        None \<Rightarrow> False
      | Some (x, y) \<Rightarrow> x > fst minimum \<or> (x = fst minimum \<and> y \<ge> snd minimum))"

definition supports_k8s :: "agent \<Rightarrow> bool" where "supports_k8s a = version_at_least a (2, 13)"
definition supports_ansible :: "agent \<Rightarrow> bool" where "supports_ansible a = version_at_least a (2, 3)"
definition supports_directory :: "agent \<Rightarrow> bool" where "supports_directory a = version_at_least a (2, 8)"
definition supports_cloud_windows :: "agent \<Rightarrow> bool" where
  "supports_cloud_windows a = version_at_least a (2, 9)"
definition supports_gateway :: "agent \<Rightarrow> bool" where "supports_gateway a = version_at_least a (2, 4)"
definition supports_ui_robot :: "agent \<Rightarrow> bool" where "supports_ui_robot a = version_at_least a (2, 18)"
definition supports_storage :: "agent \<Rightarrow> bool" where "supports_storage a = version_at_least a (2, 5)"
definition supports_share_secret :: "agent \<Rightarrow> bool" where
  "supports_share_secret a = version_at_least a (2, 7)"
definition supports_dashboard_secret :: "agent \<Rightarrow> bool" where
  "supports_dashboard_secret a = version_at_least a (2, 1)"

section \<open>Grants and self-reports\<close>

definition set_allowed_job_types :: "string list \<Rightarrow> agent \<Rightarrow> agent" where
  "set_allowed_job_types types a =
     (let wanted = filter (\<lambda>t. t \<in> set types) AGENT_JOB_TYPES
      in a\<lparr> ag_allowed_job_types := (if wanted = [] then None else Some (JList (map JStr wanted))) \<rparr>)"

record self_report =
  sr_version :: string
  sr_job_types :: "string list option"
  sr_slots :: int
  sr_control :: "dict option"
  sr_policy_hash :: string
  sr_reattest_hours :: "pyval option"

definition report_version :: "self_report \<Rightarrow> agent \<Rightarrow> agent" where
  "report_version r a =
     (let version = take 32 (py_strip (sr_version r))
      in if version \<noteq> [] \<and> version \<noteq> or_empty (ag_agent_version a)
         then a\<lparr> ag_agent_version := Some version \<rparr> else a)"

definition report_types :: "self_report \<Rightarrow> agent \<Rightarrow> agent" where
  "report_types r a =
     (case sr_job_types r of
        None \<Rightarrow> a
      | Some ts \<Rightarrow>
          (let reported = sort (remdups (map (\<lambda>t. take 64 (py_strip t))
                                  (filter (\<lambda>t. py_strip t \<noteq> []) ts)))
           in a\<lparr> ag_reported_job_types :=
                  (if reported = [] then None else Some (JList (map JStr reported))) \<rparr>))"

definition report_slots :: "self_report \<Rightarrow> agent \<Rightarrow> agent" where
  "report_slots r a =
     (if sr_slots r > 0
      then a\<lparr> ag_reported_ansible_slots := Some (min (sr_slots r) MAX_REPORTED_ANSIBLE_SLOTS) \<rparr>
      else a)"

definition report_control :: "self_report \<Rightarrow> agent \<Rightarrow> agent" where
  "report_control r a =
     (case sr_control r of
        None \<Rightarrow> a
      | Some control \<Rightarrow>
          (let b = a\<lparr> ag_control_upgrades := Some (truthy (dict_get control ''upgrades_enabled'')),
                     ag_control_updater := Some (truthy (dict_get control ''updater_present'')) \<rparr>;
               v = dict_get control ''k8s_signature'';
               sig = take 240 (if truthy v then py_str v else [])
           in if map_of control ''k8s_signature'' \<noteq> None \<and> sig \<noteq> or_empty (ag_control_k8s_signature b)
              then b\<lparr> ag_control_k8s_signature := Some sig \<rparr> else b))"

definition report_reattest :: "self_report \<Rightarrow> agent \<Rightarrow> agent" where
  "report_reattest r a =
     (case sr_reattest_hours r of
        None \<Rightarrow> a
      | Some v \<Rightarrow>
          (case py_int v of
             None \<Rightarrow> a
           | Some n \<Rightarrow> a\<lparr> ag_reported_reattest_hours := Some (max 0 (min n (24 * 30))) \<rparr>))"

definition report_fields :: "self_report \<Rightarrow> agent \<Rightarrow> agent" where
  "report_fields r a =
     report_reattest r (report_control r (report_slots r (report_types r (report_version r a))))"

definition record_self_report :: "self_report \<Rightarrow> agent \<Rightarrow> agent" where
  "record_self_report r a =
     (let b = report_fields r a;
          policy = take 64 (py_strip (sr_policy_hash r))
      in if sr_policy_hash r \<noteq> [] \<and> policy \<noteq> [] then b\<lparr> ag_policy_hash := Some policy \<rparr> else b)"

section \<open>Reporting back\<close>

definition WINDING_DOWN :: "string list" where "WINDING_DOWN = [''running'', ''cancelled'']"

definition owned_job :: "jdb \<Rightarrow> agent \<Rightarrow> string \<Rightarrow> string list \<Rightarrow> string + job" where
  "owned_job db a jid statuses =
     (case get_job db jid of
        None \<Rightarrow> Inl ''Job not found for this agent.''
      | Some j \<Rightarrow>
          (if j_agent_id j \<noteq> Some (ag_id a) then Inl ''Job not found for this agent.''
           else if j_status j \<notin> set statuses
           then Inl (''Job is not leased by this agent (status '' @ [CHR 0x27] @ j_status j @ [CHR 0x27] @ '').'')
           else Inr j))"

text \<open>
  A log line arrives as Unicode code points; it is cleaned as such and stored as UTF-8.
\<close>

definition sanitize_line :: "nat list \<Rightarrow> nat list" where
  "sanitize_line text =
     (let cleaned = filter (\<lambda>ch. ch = 9 \<or> (ch \<ge> 32 \<and> \<not> (0x7F \<le> ch \<and> ch \<le> 0x9F))) text
      in if length cleaned > MAX_LOG_LINE_CHARS
         then take MAX_LOG_LINE_CHARS cleaned @
              [32, 0x2026] @ map of_char ''[truncated]''
         else cleaned)"

definition utf8_char :: "nat \<Rightarrow> string" where
  "utf8_char ch =
     (if ch < 0x80 then [char_of ch]
      else if ch < 0x800 then [char_of (0xC0 + ch div 64), char_of (0x80 + ch mod 64)]
      else if ch < 0x10000
      then [char_of (0xE0 + ch div 4096), char_of (0x80 + ch div 64 mod 64), char_of (0x80 + ch mod 64)]
      else [char_of (0xF0 + ch div 262144), char_of (0x80 + ch div 4096 mod 64),
            char_of (0x80 + ch div 64 mod 64), char_of (0x80 + ch mod 64)])"

definition utf8 :: "nat list \<Rightarrow> string" where
  "utf8 text = concat (map utf8_char text)"

definition append_logs ::
  "string \<Rightarrow> nat list list \<Rightarrow> log_row list \<Rightarrow> log_row list \<Rightarrow> log_row list \<Rightarrow> nat \<times> log_row list" where
  "append_logs jid lines others1 others2 tbl =
     (if lines = [] then (0, tbl)
      else
        (let existing = length (filter (\<lambda>r. l_job_id r = jid) tbl);
             budget = MAX_LOG_LINES_PER_JOB - existing;
             accepted = map sanitize_line (take (min MAX_LOG_LINES_PER_REQUEST budget) lines)
         in (length accepted, append_job_logs jid (map utf8 accepted) others1 others2 tbl)))"

definition complete_job ::
  "config \<Rightarrow> instant \<Rightarrow> job \<Rightarrow> string \<Rightarrow> dict \<Rightarrow> string \<Rightarrow> jdb \<Rightarrow> string \<times> jdb" where
  "complete_job cfg now j status result error db =
     (if j_status j = ''cancelled'' then (''cancelled'', db)
      else if status = ''completed'' then
        (if length (json_text (JObj result)) > MAX_RESULT_BYTES
         then (''failed'', set_failed cfg now (j_id j)
                 (''Agent result exceeded '' @ show_nat (MAX_RESULT_BYTES div 1024) @
                  '' KB and was rejected.'') [] db)
         else (''completed'', set_completed now (j_id j) result db))
      else (''failed'', set_failed cfg now (j_id j)
              (take 2000 (if error = [] then ''The agent reported a failure.'' else error)) [] db))"

section \<open>Replay protection\<close>

datatype agent_event = EAuth instant request string string | ESweep instant

fun event_time :: "agent_event \<Rightarrow> instant" where
  "event_time (EAuth t _ _ _) = t"
| "event_time (ESweep t) = t"

fun agent_event_step ::
  "(string \<Rightarrow> string) \<Rightarrow> (string \<Rightarrow> 'k option) \<Rightarrow> ('k \<Rightarrow> string \<Rightarrow> string \<Rightarrow> bool) \<Rightarrow> config \<Rightarrow>
   agent_event \<Rightarrow> agent_db \<Rightarrow> agent_db" where
  "agent_event_step H edkey edverify cfg (EAuth t r s ip) st =
     snd (authenticate H edkey edverify cfg t r s ip st)"
| "agent_event_step H edkey edverify cfg (ESweep t) st = st\<lparr> nonces := sweep_nonces t 0 (nonces st) \<rparr>"

lemma nonces_upd_agent [simp]: "nonces (upd_agent aid f st) = nonces st"
  by (simp add: upd_agent_def)

lemma authenticate_InrD:
  assumes "authenticate H edkey edverify cfg now r s ip st = (Inr aid, st')"
  shows "\<exists>a. find_agent st (rq_agent_id r) = Some a \<and> aid = ag_id a \<and> ag_is_active a \<and>
    or_empty (ag_public_key a) \<noteq> [] \<and>
    verify_request H edkey edverify now (or_empty (ag_public_key a)) r s \<and>
    check_request cfg now (rq_agent_id r) (ansible_slots a) (nonces st) = None \<and>
    (\<nexists>n. n \<in> set (nonces st) \<and> nr_agent n = rq_agent_id r \<and> nr_nonce n = rq_nonce r) \<and>
    nonces st' = nonces st @ [\<lparr> nr_agent = rq_agent_id r, nr_nonce = rq_nonce r, nr_seen = now \<rparr>]"
  using assms
  by (auto simp: authenticate_def consume_nonce_def split: option.splits if_splits prod.splits)

lemma nonces_authenticate_mono:
  "set (nonces st) \<subseteq> set (nonces (snd (authenticate H edkey edverify cfg now r s ip st)))"
  by (auto simp: authenticate_def consume_nonce_def split: option.splits if_splits prod.splits)

lemma nonce_persists:
  "row \<in> set (nonces st) \<Longrightarrow> \<forall>e \<in> set es. event_time e \<le> nr_seen row + seconds 240 \<Longrightarrow>
   row \<in> set (nonces (fold (agent_event_step H edkey edverify cfg) es st))"
proof (induction es arbitrary: st)
  case (Cons e es)
  have "row \<in> set (nonces (agent_event_step H edkey edverify cfg e st))"
  proof (cases e)
    case (EAuth t r s ip)
    then show ?thesis using Cons.prems(1) nonces_authenticate_mono by fastforce
  next
    case (ESweep t)
    then show ?thesis
      using Cons.prems by (simp add: sweep_nonces_def SIGNATURE_WINDOW_SECONDS_def Let_def)
  qed
  then show ?case using Cons by simp
qed simp

text \<open>
  C5. A captured request is worth nothing: once a request was accepted, the same agent id,
  timestamp and nonce are never accepted again, with whatever signature, body, path or address,
  after any sequence of other requests and nonce sweeps up to then. (The sweep forgets a nonce
  after four windows; the timestamp stops being fresh after two.)
\<close>
theorem accepted_request_not_replayed:
  assumes "authenticate H edkey edverify cfg t r s ip st = (Inr aid, st')"
    and "\<forall>e \<in> set es. event_time e \<le> t'"
    and "rq_agent_id r' = rq_agent_id r" and "rq_timestamp r' = rq_timestamp r"
    and "rq_nonce r' = rq_nonce r"
  shows "\<exists>f. fst (authenticate H edkey edverify cfg t' r' s' ip'
            (fold (agent_event_step H edkey edverify cfg) es st')) = Inl f"
proof (rule ccontr)
  let ?st = "fold (agent_event_step H edkey edverify cfg) es st'"
  let ?row = "\<lparr> nr_agent = rq_agent_id r, nr_nonce = rq_nonce r, nr_seen = t \<rparr>"
  assume "\<not> ?thesis"
  then obtain aid' st'' where acc: "authenticate H edkey edverify cfg t' r' s' ip' ?st = (Inr aid', st'')"
    by (metis old.sum.exhaust prod.collapse)
  have fresh: "timestamp_fresh t (rq_timestamp r)" "timestamp_fresh t' (rq_timestamp r)"
    using authenticate_InrD [OF assms(1)] authenticate_InrD [OF acc] verify_request_fresh assms(4)
    by metis+
  then have "t' \<le> t + seconds 240"
    using timestamp_fresh_window [OF fresh] by (simp add: seconds_def)
  moreover have "?row \<in> set (nonces st')" using authenticate_InrD [OF assms(1)] by auto
  ultimately have "?row \<in> set (nonces ?st)"
    using nonce_persists [of ?row st' es] assms(2) by fastforce
  then show False using authenticate_InrD [OF acc] assms(3,5) by fastforce
qed

definition enrolled_agent :: agent where
  "enrolled_agent =
     \<lparr> ag_id = ''a1'', ag_name = ''dc1'', ag_site = [], ag_description = [],
       ag_enroll_code_hash = None, ag_enroll_expires_at = None,
       ag_public_key = Some (replicate 43 (CHR ''A'') @ ''=''), ag_policy_hash = None,
       ag_allowed_job_types = None, ag_agent_version = Some ''2.13'', ag_reported_job_types = None,
       ag_reported_ansible_slots = None, ag_enrolled_at = Some 1, ag_last_seen_at = Some 1,
       ag_last_seen_ip = None, ag_is_active = True, ag_created_by = ''ops'', ag_spiffe_id = None,
       ag_auth_mode = None, ag_paused = None, ag_control_upgrades = None, ag_control_updater = None,
       ag_control_k8s_signature = None, ag_reported_reattest_hours = None,
                   ag_upgrade_ring = None, ag_workstream = None, ag_attention = [],
                   ag_previous_public_key = None, ag_previous_key_until = None,
                   ag_last_attest_at = None, ag_last_attest_ip = None \<rparr>"

definition one_agent_db :: "agent \<Rightarrow> agent_db" where
  "one_agent_db a =
     \<lparr> agents = [a], nonces = [], enroll_attempts = [], jdb_of = empty_db, job_logs = [],
       route_agents = [], cluster_executors = [] \<rparr>"

definition sample_agent_request :: request where
  "sample_agent_request =
     \<lparr> rq_agent_id = ''a1'', rq_timestamp = ''100'', rq_nonce = ''n1'', rq_audience = ''u'',
       rq_method = ''POST'', rq_path = ''/lease'', rq_body = [] \<rparr>"

lemma sample_accepted:
  "fst (authenticate (\<lambda>x. x) (\<lambda>k. Some k) (\<lambda>k s m. True) default_config 100000000 sample_agent_request
     (replicate 86 (CHR ''A'') @ ''=='') [] (one_agent_db enrolled_agent)) = Inr ''a1''"
  by code_simp

theorem accepted_request_not_replayed_witness:
  "\<exists>f. fst (authenticate (\<lambda>x. x) (\<lambda>k. Some k) (\<lambda>k s m. True) default_config 130000000 sample_agent_request
     (replicate 86 (CHR ''A'') @ ''=='') []
     (fold (agent_event_step (\<lambda>x. x) (\<lambda>k. Some k) (\<lambda>k s m. True) default_config) [ESweep 120000000]
       (snd (authenticate (\<lambda>x. x) (\<lambda>k. Some k) (\<lambda>k s m. True) default_config 100000000 sample_agent_request
         (replicate 86 (CHR ''A'') @ ''=='') [] (one_agent_db enrolled_agent))))) = Inl f"
proof (rule accepted_request_not_replayed)
  show "authenticate (\<lambda>x. x) (\<lambda>k. Some k) (\<lambda>k s m. True) default_config 100000000 sample_agent_request
      (replicate 86 (CHR ''A'') @ ''=='') [] (one_agent_db enrolled_agent) =
    (Inr ''a1'', snd (authenticate (\<lambda>x. x) (\<lambda>k. Some k) (\<lambda>k s m. True) default_config 100000000
      sample_agent_request (replicate 86 (CHR ''A'') @ ''=='') [] (one_agent_db enrolled_agent)))"
    using sample_accepted by (simp add: prod_eq_iff)
qed simp_all

section \<open>Enrolment codes\<close>

definition agents_ok :: "agent list \<Rightarrow> bool" where
  "agents_ok as \<longleftrightarrow> distinct (map ag_id as) \<and>
     (\<forall>a \<in> set as. \<forall>b \<in> set as.
        ag_enroll_code_hash a \<noteq> None \<and> ag_enroll_code_hash a = ag_enroll_code_hash b \<longrightarrow> a = b)"

lemma redeem_InrD:
  assumes "redeem H edkey now code key version policy ip st = (Inr aid, st')"
  shows "\<exists>a. a \<in> set (agents st) \<and> aid = ag_id a \<and>
    ag_enroll_code_hash a = Some (H (py_strip code)) \<and> ag_is_active a \<and>
    (\<forall>e. ag_enroll_expires_at a = Some e \<longrightarrow> now \<le> e) \<and>
    (\<exists>k. load_public_key edkey key = Inr k) \<and>
    starts_with ENROLL_CODE_PREFIX (py_strip code) \<and>
    st' = upd_agent aid (enrolled now key version policy ip) st"
  using assms
  by (auto simp: redeem_def Let_def split: option.splits if_splits sum.splits dest!: find_Some_set)

text \<open>
  C8. An enrolment code works once: a code that is accepted was the unexpired code of one active
  agent; that agent's row now holds the given key and no code, every other row is untouched, and
  a second attempt with the same code, by anyone and at any time, is answered like an unknown one.
\<close>
theorem enrolment_code_single_use:
  assumes "agents_ok (agents st)"
    and "enroll H edkey cfg now code key version policy ip st = (Inr aid, st')"
  shows "(\<exists>a. a \<in> set (agents st) \<and> ag_id a = aid \<and> ag_is_active a \<and>
      ag_enroll_code_hash a = Some (H (py_strip code)) \<and>
      (\<forall>e. ag_enroll_expires_at a = Some e \<longrightarrow> now \<le> e) \<and>
      agents st' = map (\<lambda>b. if b = a then enrolled now key version policy ip a else b) (agents st)) \<and>
    fst (redeem H edkey now' code key' version' policy' ip' st') = Inl ''Invalid enrolment code.''"
proof -
  have "redeem H edkey now code key version policy ip st = (Inr aid, st')"
    using assms(2) by (auto simp: enroll_def split: option.splits sum.splits prod.splits)
  from redeem_InrD [OF this] obtain a where a: "a \<in> set (agents st)" "aid = ag_id a"
    "ag_enroll_code_hash a = Some (H (py_strip code))" "ag_is_active a"
    "\<forall>e. ag_enroll_expires_at a = Some e \<longrightarrow> now \<le> e"
    "starts_with ENROLL_CODE_PREFIX (py_strip code)"
    "st' = upd_agent aid (enrolled now key version policy ip) st" by blast
  have same: "ag_id b = ag_id a \<longleftrightarrow> b = a" if "b \<in> set (agents st)" for b
    using that a(1) assms(1) by (auto simp: agents_ok_def distinct_map inj_on_def)
  have ags: "agents st' = map (\<lambda>b. if b = a then enrolled now key version policy ip a else b) (agents st)"
    using same by (auto simp: a(2,7) upd_agent_def tbl_update_def intro!: map_cong)
  have "ag_enroll_code_hash b \<noteq> Some (H (py_strip code))" if "b \<in> set (agents st')" for b
  proof -
    have "ag_enroll_code_hash c \<noteq> Some (H (py_strip code))" if "c \<in> set (agents st)" "c \<noteq> a" for c
      using that a(1,3) assms(1) by (auto simp: agents_ok_def)
    with that show ?thesis by (auto simp: ags enrolled_def split: if_splits)
  qed
  then have "List.find (\<lambda>b. ag_enroll_code_hash b = Some (H (py_strip code))) (agents st') = None"
    by (auto simp: find_None_iff)
  then have "fst (redeem H edkey now' code key' version' policy' ip' st') = Inl ''Invalid enrolment code.''"
    by (simp add: redeem_def Let_def)
  with a ags show ?thesis by blast
qed

definition enrolling_agent :: agent where
  "enrolling_agent = enrolled_agent\<lparr> ag_public_key := None, ag_enroll_code_hash := Some ''agte_x'' \<rparr>"

lemma sample_enrolled:
  "fst (enroll (\<lambda>x. x) (\<lambda>k. Some k) default_config 5 ''agte_x'' (replicate 43 (CHR ''A'') @ ''='') ''2.13'' [] []
     (one_agent_db enrolling_agent)) = Inr ''a1''"
  by code_simp

theorem enrolment_code_single_use_witness:
  "fst (redeem (\<lambda>x. x) (\<lambda>k. Some k) 6 ''agte_x'' (replicate 43 (CHR ''A'') @ ''='') ''2.13'' [] []
     (snd (enroll (\<lambda>x. x) (\<lambda>k. Some k) default_config 5 ''agte_x'' (replicate 43 (CHR ''A'') @ ''='') ''2.13'' [] []
       (one_agent_db enrolling_agent)))) = Inl ''Invalid enrolment code.''"
proof -
  let ?e = "enroll (\<lambda>x. x) (\<lambda>k. Some k) default_config 5 ''agte_x'' (replicate 43 (CHR ''A'') @ ''='') ''2.13'' [] []
       (one_agent_db enrolling_agent)"
  have e: "?e = (Inr ''a1'', snd ?e)" using sample_enrolled by (simp add: prod_eq_iff)
  have "agents_ok (agents (one_agent_db enrolling_agent))"
    by (simp add: agents_ok_def one_agent_db_def)
  from enrolment_code_single_use [OF this e] show ?thesis by blast
qed

section \<open>Revocation\<close>

lemma jobs_set_cancelled:
  "jobs (set_cancelled now jid db) = tbl_update (\<lambda>j. j_id j = jid) (cancelled_row now) (jobs db)"
  by (simp add: set_cancelled_def upd_job_def)

lemma failed_row_status:
  "j_status (failed_row cfg now e res j) \<noteq> ''queued''" "j_status (failed_row cfg now e res j) \<noteq> ''running''"
  by (simp_all add: failed_row_cases Let_def)

lemma revoke_job_rows:
  assumes "x \<in> set (jobs (revoke_job cfg now j db))"
  shows "(x \<in> set (jobs db) \<and> j_id x \<noteq> j_id j) \<or> j_status x \<notin> {''queued'', ''running''}"
proof (cases "j_status j = ''running''")
  case True
  show ?thesis
  proof (cases "get_job db (j_id j)")
    case None
    then show ?thesis
      using assms True get_job_NoneD [OF None]
      by (auto simp: revoke_job_def set_failed_missing image_iff)
  next
    case (Some k)
    then show ?thesis
      using assms True
      by (auto simp: revoke_job_def jobs_set_failed [OF Some] upd_job_def set_tbl_update failed_row_status)
  qed
next
  case False
  then show ?thesis
    using assms by (auto simp: revoke_job_def jobs_set_cancelled set_tbl_update cancelled_row_def)
qed

lemma revoke_fold_rows:
  "x \<in> set (jobs (fold (revoke_job cfg now) js db)) \<Longrightarrow>
   (x \<in> set (jobs db) \<and> (\<forall>j \<in> set js. j_id x \<noteq> j_id j)) \<or> j_status x \<notin> {''queued'', ''running''}"
proof (induction js arbitrary: db)
  case (Cons j js)
  then have "x \<in> set (jobs (fold (revoke_job cfg now) js (revoke_job cfg now j db)))" by simp
  from Cons.IH [OF this] revoke_job_rows [of x cfg now j db] show ?case by auto
qed simp

lemma find_agent_upd:
  "(\<And>a. ag_id (f a) = ag_id a) \<Longrightarrow>
   find_agent (upd_agent aid f st) k = map_option (\<lambda>a. if ag_id a = aid then f a else a) (find_agent st k)"
  unfolding find_agent_def upd_agent_def by (simp add: find_tbl_update)

text \<open>
  C7. Revocation is immediate: afterwards no request naming the agent is accepted, whatever its
  signature, no row still holds an enrolment code for it, and it holds no queued or running job;
  the number returned is the number of jobs taken from it, and every other agent's row is as it was.
\<close>
theorem revoke_agent_cuts_off:
  assumes "revoke_agent cfg now aid st = (n, st')"
  shows "(rq_agent_id r = aid \<longrightarrow>
       authenticate H edkey edverify cfg' now' r s ip st' = (Inl (AgentError ''Unknown or inactive agent.''), st')) \<and>
     held_jobs aid (jdb_of st') = [] \<and> n = length (held_jobs aid (jdb_of st)) \<and>
     (\<forall>a \<in> set (agents st'). ag_id a = aid \<longrightarrow> ag_enroll_code_hash a = None) \<and>
     (\<forall>k. k \<noteq> aid \<longrightarrow> find_agent st' k = find_agent st k)"
proof (intro conjI impI allI)
  let ?held = "held_jobs aid (jdb_of st)"
  have st': "st' = (upd_agent aid revoked st)\<lparr> jdb_of := fold (revoke_job cfg now) ?held (jdb_of st) \<rparr>"
    and n: "n = length ?held"
    using assms by (auto simp: revoke_agent_def upd_agent_def Let_def)
  have find: "find_agent st' k = map_option (\<lambda>a. if ag_id a = aid then revoked a else a) (find_agent st k)" for k
    using find_agent_upd [of revoked aid st k] by (simp add: st' find_agent_def revoked_def)
  show "n = length ?held" by (rule n)
  show "held_jobs aid (jdb_of st') = []"
  proof -
    have "\<not> (j_agent_id x = Some aid \<and> j_status x \<in> {''queued'', ''running''})"
      if "x \<in> set (jobs (jdb_of st'))" for x
      using revoke_fold_rows [of x cfg now ?held "jdb_of st"] that
      by (auto simp: st' held_jobs_def)
    then show ?thesis by (auto simp: held_jobs_def filter_empty_conv)
  qed
  show "authenticate H edkey edverify cfg' now' r s ip st' =
      (Inl (AgentError ''Unknown or inactive agent.''), st')" if "rq_agent_id r = aid"
  proof (cases "find_agent st aid")
    case None
    then have "find_agent st' aid = None" by (simp add: find)
    with that show ?thesis by (simp add: authenticate_def)
  next
    case (Some a)
    then have "ag_id a = aid" unfolding find_agent_def by (drule_tac find_Some_set) simp
    with Some have "find_agent st' aid = Some (revoked a)" by (simp add: find)
    with that show ?thesis by (simp add: authenticate_def revoked_def)
  qed
  show "\<forall>a \<in> set (agents st'). ag_id a = aid \<longrightarrow> ag_enroll_code_hash a = None"
  proof -
    have "agents st' = tbl_update (\<lambda>a. ag_id a = aid) revoked (agents st)"
      by (simp add: st' upd_agent_def)
    moreover have "ag_enroll_code_hash (revoked a) = None" for a by (simp add: revoked_def)
    ultimately show ?thesis by (auto simp: tbl_update_def split: if_splits)
  qed
  show "find_agent st' k = find_agent st k" if "k \<noteq> aid" for k
  proof (cases "find_agent st k")
    case (Some a)
    then have "ag_id a = k" unfolding find_agent_def by (drule_tac find_Some_set) simp
    with Some that show ?thesis by (simp add: find)
  qed (simp add: find)
qed

theorem revoke_agent_cuts_off_witness:
  "fst (revoke_agent default_config 9 ''a1''
     ((one_agent_db enrolled_agent)\<lparr> jdb_of :=
        one_job_db ((running_job ''j1'' ''agent_discover'' 0)\<lparr> j_agent_id := Some ''a1'' \<rparr>) \<rparr>)) = 1"
proof -
  let ?st = "(one_agent_db enrolled_agent)\<lparr> jdb_of :=
        one_job_db ((running_job ''j1'' ''agent_discover'' 0)\<lparr> j_agent_id := Some ''a1'' \<rparr>) \<rparr>"
  obtain n st' where r: "revoke_agent default_config 9 ''a1'' ?st = (n, st')" by force
  have "length (held_jobs ''a1'' (jdb_of ?st)) = 1" by (simp add: held_jobs_def)
  with revoke_agent_cuts_off [OF r] have "n = 1" by blast
  with r show ?thesis by simp
qed

section \<open>The lease\<close>

lemma leasable_types_granted:
  "set (leasable_types k8s_ok want a) \<subseteq> set (allowed_job_types a) \<union>
     (if ag_auth_mode a = Some ''spiffe'' then set CONTROL_JOB_TYPES else {})"
  by (auto simp: leasable_types_def Let_def split: option.splits if_splits)

lemma allowed_job_types_subset: "set (allowed_job_types a) \<subseteq> set AGENT_JOB_TYPES"
  by (auto simp: allowed_job_types_def Let_def)

definition queued_ids :: "string \<Rightarrow> jdb \<Rightarrow> string set" where
  "queued_ids aid db = j_id ` {j \<in> set (jobs db). j_status j = ''queued'' \<and> j_agent_id j = Some aid}"

lemma jobs_lease_update:
  "jobs (fst (lease_update now aid jid db)) =
   tbl_update (\<lambda>j. j_id j = jid \<and> j_status j = ''queued'' \<and> j_agent_id j = Some aid) (running_row now) (jobs db)"
  by (simp add: lease_update_def Let_def)

lemma db_ok_lease_update: "db_ok db \<Longrightarrow> db_ok (fst (lease_update now aid jid db))"
  using running.db_ok_tbl_update [of db "\<lambda>j. j_id j = jid \<and> j_status j = ''queued'' \<and> j_agent_id j = Some aid" now]
  by (simp add: lease_update_def Let_def)

lemma get_job_lease_update:
  "get_job (fst (lease_update now aid jid db)) k =
   map_option (\<lambda>j. if j_id j = jid \<and> j_status j = ''queued'' \<and> j_agent_id j = Some aid
                  then running_row now j else j) (get_job db k)"
  unfolding get_job_def jobs_lease_update by (rule find_tbl_update) (rule running.keeps_id)

lemma rowcount_unique:
  assumes "distinct (map k xs)"
  shows "rowcount (\<lambda>x. k x = i \<and> q x) xs =
    (case List.find (\<lambda>x. k x = i) xs of None \<Rightarrow> 0 | Some x \<Rightarrow> if q x then 1 else 0)"
  using assms
proof (induction xs)
  case (Cons x xs)
  then have "k x = i \<Longrightarrow> filter (\<lambda>x. k x = i \<and> q x) xs = []"
    by (auto simp: filter_empty_conv image_iff)
  with Cons show ?case by (auto simp: rowcount_def)
qed (simp add: rowcount_def)

lemma lease_update_count:
  assumes "db_ok db"
  shows "snd (lease_update now aid jid db) = (if jid \<in> queued_ids aid db then 1 else 0)"
proof -
  have "snd (lease_update now aid jid db) =
      (case get_job db jid of None \<Rightarrow> 0
       | Some j \<Rightarrow> if j_status j = ''queued'' \<and> j_agent_id j = Some aid then 1 else 0)"
    using assms rowcount_unique [of j_id "jobs db" jid "\<lambda>j. j_status j = ''queued'' \<and> j_agent_id j = Some aid"]
    by (simp add: lease_update_def get_job_def db_ok_def Let_def)
  moreover have "jid \<in> queued_ids aid db \<longleftrightarrow>
      (\<exists>j. get_job db jid = Some j \<and> j_status j = ''queued'' \<and> j_agent_id j = Some aid)"
    using assms find_key_unique [of j_id "jobs db"] get_job_SomeD [of db jid]
    by (auto simp: queued_ids_def get_job_def db_ok_def)
  ultimately show ?thesis by (auto split: option.splits)
qed

lemma lease_loop_result:
  assumes "\<forall>n. others_ok (env n)" and "\<forall>n db. queued_ids aid (env n db) \<subseteq> queued_ids aid db"
    and "db_ok db"
  shows "\<exists>db' res. lease_loop n clock env aid allowed db = Some (db', res) \<and> db_ok db' \<and>
    (\<forall>jid ty meta. res = Some (jid, ty, meta) \<longrightarrow>
       (\<exists>m db0 j0. db_ok db0 \<and> get_job db0 jid = Some j0 \<and> j_status j0 = ''queued'' \<and> j_agent_id j0 = Some aid \<and>
          ty = j_job_type j0 \<and> meta = metadata_dict j0 \<and> ty \<in> set allowed \<and>
          db' = fst (lease_update (clock m) aid jid db0) \<and>
          get_job db' jid = Some (running_row (clock m) j0)))"
  using assms(3)
proof (induction "card (queued_ids aid db)" arbitrary: n db rule: less_induct)
  case less
  have env_ok: "db_ok (env n db)" using less.prems assms(1) by (simp add: others_ok_def)
  show ?case
  proof (cases "lease_select (clock n) aid allowed db")
    case None
    then show ?thesis using less.prems by (simp add: lease_loop.simps)
  next
    case (Some j)
    have j: "j \<in> set (jobs db)" "lease_candidate (clock n) aid allowed j"
      using first_by_Some [OF Some [unfolded lease_select_def]] by auto
    then have get: "get_job db (j_id j) = Some j"
      using less.prems find_key_unique [of j_id "jobs db" j] by (simp add: get_job_def db_ok_def)
    let ?u = "lease_update (clock n) aid (j_id j) (env n db)"
    show ?thesis
    proof (cases "j_id j \<in> queued_ids aid (env n db)")
      case True
      then obtain j0 where j0: "get_job (env n db) (j_id j) = Some j0" "j_status j0 = ''queued''"
        "j_agent_id j0 = Some aid"
        using env_ok find_key_unique [of j_id "jobs (env n db)"]
        by (auto simp: queued_ids_def get_job_def db_ok_def)
      have ty: "j_job_type j0 \<in> set allowed"
        using j0(1) get assms(1) j(2) by (auto simp: others_ok_def lease_candidate_def)
      have fresh: "get_job (fst ?u) (j_id j) = Some (running_row (clock n) j0)"
        using j0 get_job_SomeD [OF j0(1)] by (simp add: get_job_lease_update)
      have "snd ?u = 1" using True by (simp add: lease_update_count [OF env_ok])
      with Some fresh have "lease_loop n clock env aid allowed db =
          Some (fst ?u, Some (j_id j, j_job_type j0, metadata_dict j0))"
        using get_job_SomeD [OF j0(1)]
        by (simp add: lease_loop.simps [of n] split_beta running_row_def metadata_dict_def)
      with ty fresh j0 env_ok db_ok_lease_update [OF env_ok] show ?thesis by blast
    next
      case False
      then have lost: "snd ?u = 0" by (simp add: lease_update_count [OF env_ok])
      have "jobs (fst ?u) = jobs (env n db)"
        using lost by (simp add: lease_update_def rowcount_def tbl_update_id Let_def)
      then have same: "queued_ids aid (fst ?u) = queued_ids aid (env n db)"
        by (simp add: queued_ids_def)
      have "j_id j \<in> queued_ids aid db"
        using j by (auto simp: queued_ids_def lease_candidate_def)
      then have "queued_ids aid (fst ?u) \<subset> queued_ids aid db"
        using False assms(2) same by blast
      moreover have "finite (queued_ids aid db)" by (simp add: queued_ids_def)
      ultimately have "card (queued_ids aid (fst ?u)) < card (queued_ids aid db)"
        by (simp add: psubset_card_mono)
      from less.hyps [OF this, of "Suc n"] db_ok_lease_update [OF env_ok] Some lost show ?thesis
        by (simp add: lease_loop.simps [of n] split_beta)
    qed
  qed
qed

text \<open>
  C3. The lease: whatever other transactions do between its SELECT and UPDATE, as long as none of
  them puts a job of this agent back in the queue, \<open>lease_one\<close> returns; a job it hands out was
  queued and bound to this very agent at the instant of the UPDATE, is running afterwards, and is
  of a type within the fixed list of agent types (or a lifecycle type, for an attested agent),
  within the agent's own grant and within what the request asked for, so a request can narrow
  what it is given but never widen it.
\<close>
theorem lease_one_hands_out_own_job:
  assumes "db_ok db" and "\<forall>n. others_ok (env n)"
    and "\<forall>n db. queued_ids (ag_id a) (env n db) \<subseteq> queued_ids (ag_id a) db"
  shows "\<exists>db' res. lease_one clock env k8s_ok want a db = Some (db', res) \<and> db_ok db' \<and>
    (\<forall>jid ty meta. res = Some (jid, ty, meta) \<longrightarrow>
       ag_paused a \<noteq> Some True \<and>
       (ty \<in> set AGENT_JOB_TYPES \<and> ty \<in> set (allowed_job_types a) \<or>
        ty \<in> set CONTROL_JOB_TYPES \<and> ag_auth_mode a = Some ''spiffe'') \<and>
       (\<forall>ws. want = Some ws \<longrightarrow> ty \<in> set ws) \<and> (ty = ''agent_k8s'' \<longrightarrow> k8s_ok) \<and>
       (\<exists>m db0 j0. get_job db0 jid = Some j0 \<and> j_status j0 = ''queued'' \<and>
          j_agent_id j0 = Some (ag_id a) \<and> ty = j_job_type j0 \<and> meta = metadata_dict j0 \<and>
          db' = fst (lease_update (clock m) (ag_id a) jid db0) \<and>
          get_job db' jid = Some (running_row (clock m) j0)))"
proof (cases "ag_paused a = Some True \<or> leasable_types k8s_ok want a = []")
  case True
  then show ?thesis using assms(1) by (auto simp: lease_one_def Let_def)
next
  case False
  let ?allowed = "leasable_types k8s_ok want a"
  have eq: "lease_one clock env k8s_ok want a db = lease_loop 0 clock env (ag_id a) ?allowed db"
    using False by (auto simp: lease_one_def Let_def)
  have types: "(ty \<in> set AGENT_JOB_TYPES \<and> ty \<in> set (allowed_job_types a) \<or>
        ty \<in> set CONTROL_JOB_TYPES \<and> ag_auth_mode a = Some ''spiffe'') \<and>
       (\<forall>ws. want = Some ws \<longrightarrow> ty \<in> set ws) \<and> (ty = ''agent_k8s'' \<longrightarrow> k8s_ok)"
    if "ty \<in> set ?allowed" for ty
    using that leasable_types_granted [of k8s_ok want a] allowed_job_types_subset [of a]
    by (auto simp: leasable_types_def CONTROL_JOB_TYPES_def Let_def split: option.splits if_splits)
  from lease_loop_result [OF assms(2,3,1), of 0 clock ?allowed] obtain db' res where
    r: "lease_loop 0 clock env (ag_id a) ?allowed db = Some (db', res)" "db_ok db'"
    "\<forall>jid ty meta. res = Some (jid, ty, meta) \<longrightarrow>
       (\<exists>m db0 j0. db_ok db0 \<and> get_job db0 jid = Some j0 \<and> j_status j0 = ''queued'' \<and>
          j_agent_id j0 = Some (ag_id a) \<and> ty = j_job_type j0 \<and> meta = metadata_dict j0 \<and>
          ty \<in> set ?allowed \<and> db' = fst (lease_update (clock m) (ag_id a) jid db0) \<and>
          get_job db' jid = Some (running_row (clock m) j0))"
    by blast
  show ?thesis
  proof (intro exI [of _ db'] exI [of _ res] conjI allI impI)
    show "lease_one clock env k8s_ok want a db = Some (db', res)" using eq r(1) by simp
    show "db_ok db'" by (rule r(2))
    fix jid ty meta
    assume "res = Some (jid, ty, meta)"
    with r(3) obtain m db0 j0 where x: "get_job db0 jid = Some j0" "j_status j0 = ''queued''"
      "j_agent_id j0 = Some (ag_id a)" "ty = j_job_type j0" "meta = metadata_dict j0"
      "ty \<in> set ?allowed" "db' = fst (lease_update (clock m) (ag_id a) jid db0)"
      "get_job db' jid = Some (running_row (clock m) j0)" by blast
    show "ag_paused a \<noteq> Some True" using False by simp
    show "ty \<in> set AGENT_JOB_TYPES \<and> ty \<in> set (allowed_job_types a) \<or>
        ty \<in> set CONTROL_JOB_TYPES \<and> ag_auth_mode a = Some ''spiffe''" using types [OF x(6)] by blast
    show "ty \<in> set ws" if "want = Some ws" for ws using types [OF x(6)] that by blast
    show k8s_ok if "ty = ''agent_k8s''" using types [OF x(6)] that by blast
    show "\<exists>m db0 j0. get_job db0 jid = Some j0 \<and> j_status j0 = ''queued'' \<and>
          j_agent_id j0 = Some (ag_id a) \<and> ty = j_job_type j0 \<and> meta = metadata_dict j0 \<and>
          db' = fst (lease_update (clock m) (ag_id a) jid db0) \<and>
          get_job db' jid = Some (running_row (clock m) j0)" using x by blast
  qed
qed

theorem lease_one_hands_out_own_job_witness:
  "\<exists>db' res. lease_one (\<lambda>_. 9) (\<lambda>_ db. db) True None enrolled_agent two_pending = Some (db', res)"
  using lease_one_hands_out_own_job [OF two_pending_ok, of "\<lambda>_ db. db" enrolled_agent "\<lambda>_. 9" True None]
    others_ok_id by auto

end
