(* ===== verification/Dispatch.thy ===== *)
theory Dispatch
  imports Jobs_Worker
begin

text \<open>
  \<open>jobs_worker._dispatch\<close> and \<open>_run_job\<close>: which service function runs a claimed job and with
  which arguments. A route names the function and, per parameter (an empty name for a positional
  one), where its value comes from: the session, the job id, the job type, the whole metadata, a
  required key (\<open>meta["k"]\<close>), a key with a default (\<open>meta.get("k", d)\<close>), its truth value, or the
  non-null entries of a list of keys passed as keywords. The service functions are parameters.
\<close>

datatype arg_src =
    ASession | AJobId | AJobType | AMeta
  | AReq string | AGet string json | ABool string | AStar "string list"

type_synonym route = "string \<times> (string \<times> arg_src) list"

section \<open>The table\<close>

text \<open>The argument lists that many branches share.\<close>

definition whole_meta :: "(string \<times> arg_src) list" where
  "whole_meta = [('''', ASession), (''job_id'', AJobId), (''meta'', AMeta)]"

definition typed_meta :: "(string \<times> arg_src) list" where
  "typed_meta = [('''', AJobId), ('''', AJobType), ('''', AMeta)]"

definition dispatch_k8s :: "(string \<times> route) list" where
  "dispatch_k8s =
     [(''k8s_provision'', ''k8s_service.run_provision_apply'',
         [('''', ASession), (''cluster_id'', AReq ''cluster_id''), (''job_id'', AJobId),
          (''cloud'', AReq ''cloud''), (''tf_variables'', AReq ''tf_variables'')]),
      (''k8s_decommission'', ''k8s_service.run_decommission'',
         [('''', ASession), (''cluster_id'', AReq ''cluster_id''), (''job_id'', AJobId)]),
      (''k8s_management'', ''k8s_service.run_management_plane'',
         [('''', ASession), (''cluster_id'', AReq ''cluster_id''), (''job_id'', AJobId),
          (''mgmt_kind'', AGet ''mgmt_kind'' (JStr ''rancher''))]),
      (''k8s_secret_delivery'', ''k8s_service.run_secret_delivery'',
         [('''', ASession), (''cluster_id'', AReq ''cluster_id''), (''job_id'', AJobId),
          (''kind'', AReq ''kind'')]),
      (''k8s_entitle_agent'', ''k8s_service.run_entitle_agent'',
         [('''', ASession), (''cluster_id'', AReq ''cluster_id''), (''job_id'', AJobId),
          (''action'', AGet ''action'' (JStr ''install''))]),
      (''k8s_entitle_register'', ''k8s_service.run_entitle_register'',
         [('''', ASession), (''cluster_id'', AReq ''cluster_id''), (''job_id'', AJobId),
          (''action'', AGet ''action'' (JStr ''register''))]),
      (''k8s_tunnel'', ''k8s_service.run_tunnel'',
         [('''', ASession), (''cluster_id'', AReq ''cluster_id''), (''job_id'', AJobId),
          (''action'', AGet ''action'' (JStr ''register'')),
          (''jump_group'', AGet ''jump_group'' JNull),
          (''jumpoint_name'', AGet ''jumpoint_name'' JNull),
          (''pra_credential_ref'', AGet ''pra_credential_ref'' JNull),
          (''vault_inject'', AGet ''vault_inject'' (JBool False)),
          (''vault_account_group_id'', AGet ''vault_account_group_id'' JNull)]),
      (''vm_pra'', ''vm_pra_service.run'', [('''', ASession), ('''', AJobId), ('''', AMeta)]),
      (''k8s_api_tunnel'', ''k8s_service.run_api_tunnel'',
         [('''', ASession), (''cluster_id'', AReq ''cluster_id''), (''job_id'', AJobId),
          (''action'', AGet ''action'' (JStr ''register'')),
          (''jump_group'', AGet ''jump_group'' JNull),
          (''jumpoint_name'', AGet ''jumpoint_name'' JNull),
          (''pra_credential_ref'', AGet ''pra_credential_ref'' JNull)]),
      (''k8s_group_binding'', ''k8s_service.run_group_binding'',
         [('''', ASession), (''cluster_id'', AReq ''cluster_id''), (''job_id'', AJobId),
          (''action'', AGet ''action'' (JStr ''bind'')),
          (''group_id'', AGet ''group_id'' JNull), (''role'', AGet ''role'' JNull)]),
      (''k8s_impersonator_binding'', ''k8s_service.run_impersonator_binding'',
         [('''', ASession), (''cluster_id'', AReq ''cluster_id''), (''job_id'', AJobId),
          (''action'', AGet ''action'' (JStr ''apply'')),
          (''group_id'', AGet ''group_id'' JNull)]),
      (''k8s_entra_federation'', ''k8s_service.run_entra_federation'',
         [('''', ASession), (''cluster_id'', AReq ''cluster_id''), (''job_id'', AJobId),
          (''action'', AGet ''action'' (JStr ''enable''))]),
      (''k8s_ps_token'', ''ps_k8s_token_service.run'',
         [('''', ASession), (''cluster_id'', AReq ''cluster_id''), (''job_id'', AJobId),
          (''action'', AGet ''action'' (JStr ''register'')),
          (''**'', AStar [''mode'', ''ttl_seconds'', ''namespace'', ''service_account'', ''cluster_name'', ''resource_group'', ''location'', ''functional_account'', ''change_on_register'', ''mirror_to_pra''])])]"

definition dispatch_nodes :: "(string \<times> route) list" where
  "dispatch_nodes =
     [(''rancher_node_deploy'', ''rancher_node_service.run_deploy'', whole_meta),
      (''rancher_node_teardown'', ''rancher_node_service.run_teardown'', whole_meta),
      (''rancher_entitle_register'', ''k8s_service.run_rancher_entitle_register'',
         [('''', ASession), (''job_id'', AJobId),
          (''action'', AGet ''action'' (JStr ''register''))]),
      (''portainer_node_deploy'', ''portainer_node_service.run_deploy'', whole_meta),
      (''portainer_node_teardown'', ''portainer_node_service.run_teardown'', whole_meta),
      (''portainer_import'', ''portainer_import_service.run_import'', whole_meta),
      (''portainer_adapter_pair'', ''portainer_adapter_service.run_job'', whole_meta),
      (''pov_env_provision'', ''pov_env_service.run_env_provision'',
         [('''', AJobId), ('''', AMeta)]),
      (''pov_env_destroy'', ''pov_env_service.run_env_destroy'',
         [('''', AJobId), ('''', AMeta)]),
      (''pov_env_power'', ''pov_env_service.run_env_power'', [('''', AJobId), ('''', AMeta)]),
      (''pov_env_broker'', ''pov_broker.run_env_broker'', [('''', AJobId), ('''', AMeta)]),
      (''pov_env_wireup'', ''pov_wireup.run_env_wireup'', [('''', AJobId), ('''', AMeta)]),
      (''pov_env_jump_group_move'', ''pov_wireup.run_env_jump_group_move'',
         [('''', AJobId), ('''', AMeta)]),
      (''pov_template_build'', ''pov_template_builder.run_template_build'',
         [('''', AJobId), ('''', AMeta)]),
      (''pov_env_reconcile'', ''pov_reconcile.run_reconcile'', [('''', AJobId), ('''', AMeta)]),
      (''pov_env_add_vms'', ''pov_env_service.run_env_add_vms'',
         [('''', AJobId), ('''', AMeta)]),
      (''pov_env_ready_check'', ''pov_ready.run_live'', [('''', AJobId), ('''', AMeta)]),
      (''pov_env_seed'', ''pov_seed.run_seed'', [('''', AJobId), ('''', AMeta)])]"

definition dispatch_labs :: "(string \<times> route) list" where
  "dispatch_labs =
     [(''clouddb_provision'', ''cloud_database_service.run_provision_apply'',
         [('''', ASession), (''db_id'', AReq ''db_id''), (''job_id'', AJobId),
          (''engine'', AReq ''engine''), (''tf_variables'', AReq ''tf_variables'')]),
      (''clouddb_decommission'', ''cloud_database_service.run_decommission'',
         [('''', ASession), (''db_id'', AReq ''db_id''), (''job_id'', AJobId)]),
      (''clouddb_entitle_register'', ''cloud_database_service.run_entitle_register'',
         [('''', ASession), (''db_id'', AReq ''db_id''), (''job_id'', AJobId),
          (''action'', AGet ''action'' (JStr ''register''))]),
      (''clouddb_ps_register'', ''cloud_database_service.run_ps_register'',
         [('''', ASession), (''db_id'', AReq ''db_id''), (''job_id'', AJobId),
          (''action'', AGet ''action'' (JStr ''register''))]),
      (''certca_provision'', ''cert_lab_service.run_provision_apply'',
         [('''', ASession), (''lab_id'', AReq ''lab_id''), (''job_id'', AJobId)]),
      (''certca_decommission'', ''cert_lab_service.run_decommission'',
         [('''', ASession), (''lab_id'', AReq ''lab_id''), (''job_id'', AJobId)]),
      (''directory_provision'', ''directory_service.run_provision_apply'',
         [('''', ASession), (''directory_id'', AReq ''directory_id''),
          (''job_id'', AJobId)]),
      (''directory_decommission'', ''directory_service.run_decommission'',
         [('''', ASession), (''directory_id'', AReq ''directory_id''),
          (''job_id'', AJobId)]),
      (''cert_ps_register'', ''cert_lab_service.run_ps_register'',
         [('''', ASession), (''lab_id'', AReq ''lab_id''), (''job_id'', AJobId),
          (''account_name'', AReq ''account_name''),
          (''action'', AGet ''action'' (JStr ''register'')),
          (''address'', AGet ''address'' (JStr '''')),
          (''package'', AGet ''package'' (JStr ''certificate''))]),
      (''spirelab_provision'', ''spire_lab_service.run_provision'',
         [('''', ASession), (''lab_id'', AReq ''lab_id''), (''job_id'', AJobId)]),
      (''spirelab_decommission'', ''spire_lab_service.run_decommission'',
         [('''', ASession), (''lab_id'', AReq ''lab_id''), (''job_id'', AJobId),
          (''remove_software'', ABool ''remove_software'')]),
      (''spirelab_k8s_link'', ''spire_lab_service.run_k8s_link'',
         [('''', ASession), (''lab_id'', AReq ''lab_id''), (''job_id'', AJobId)]),
      (''spirelab_ps_register'', ''spire_lab_service.run_ps_register'',
         [('''', ASession), (''lab_id'', AReq ''lab_id''), (''job_id'', AJobId),
          (''action'', AGet ''action'' (JStr ''register''))]),
      (''spirelab_jwt_bundle'', ''spire_lab_service.run_jwt_bundle_capture'',
         [('''', ASession), (''lab_id'', AReq ''lab_id''), (''job_id'', AJobId)]),
      (''spirelab_upgrade'', ''spire_lab_service.run_upgrade'',
         [('''', ASession), (''lab_id'', AReq ''lab_id''), (''job_id'', AJobId)]),
      (''spirelab_federate'', ''spire_lab_service.run_federation'',
         [('''', ASession), (''lab_id'', AReq ''lab_id''), (''job_id'', AJobId),
          (''action'', AGet ''action'' (JStr ''federate''))]),
      (''spirelab_attr_probe'', ''spire_lab_service.run_attr_probe'',
         [('''', ASession), (''lab_id'', AReq ''lab_id''), (''job_id'', AJobId)]),
      (''workload_cloud_credential'', ''workload_cloud_service.run'',
         [('''', ASession), (''row_id'', AReq ''row_id''), (''job_id'', AJobId),
          (''action'', AGet ''action'' (JStr ''issue''))])]"

definition dispatch_cloud :: "(string \<times> route) list" where
  "dispatch_cloud =
     [(''workload_k8s_token'', ''workload_k8s_service.run'',
         [('''', ASession), (''row_id'', AReq ''row_id''), (''job_id'', AJobId),
          (''action'', AGet ''action'' (JStr ''register''))]),
      (''cloudfn_deploy'', ''cloud_function_service.run_deploy_apply'',
         [('''', ASession), (''fn_id'', AReq ''fn_id''), (''job_id'', AJobId),
          (''tf_variables'', AReq ''tf_variables'')]),
      (''cloudfn_update'', ''cloud_function_service.run_update_apply'',
         [('''', ASession), (''fn_id'', AReq ''fn_id''), (''job_id'', AJobId),
          (''tf_variables'', AReq ''tf_variables'')]),
      (''cloudfn_decommission'', ''cloud_function_service.run_decommission'',
         [('''', ASession), (''fn_id'', AReq ''fn_id''), (''job_id'', AJobId)]),
      (''entitle_virtual_app'', ''entitle_virtual_app_service.run_job'', whole_meta),
      (''entitle_persona_bundles'', ''entitle_persona_bundles.run_job'', whole_meta),
      (''cloudfn_entitle_register'', ''cloud_function_service.run_entitle_register'',
         [('''', ASession), (''fn_id'', AReq ''fn_id''), (''job_id'', AJobId),
          (''action'', AGet ''action'' (JStr ''register''))]),
      (''clouddb_adapter_pair'', ''cloud_db_adapter_service.run_pairing'',
         [('''', ASession), (''db_id'', AReq ''db_id''), (''job_id'', AJobId),
          (''dry_run'', AGet ''dry_run'' (JBool True))]),
      (''clouddb_dbops_deploy'', ''clouddb_dbops_service.run_deploy'',
         [('''', ASession), (''region'', AReq ''region''), (''job_id'', AJobId)]),
      (''windows_hybrid_check'', ''hybrid_join_service.run'', whole_meta),
      (''windows_arc_join'', ''windows_arc_service.run'', whole_meta),
      (''ansible_cloud_run'', ''ansible_cloud_run_service.run'', whole_meta),
      (''epml_sync'', ''epml_sync_service.run'', whole_meta),
      (''ansible_local'', ''ansible_local_run_service.run'', whole_meta),
      (''vdesktop_pool_provision'', ''vdesktop_service.provision_seats'',
         [(''pool_name'', AReq ''pool_name''), (''job_id'', AJobId),
          (''seat_ids'', AReq ''seat_ids''), (''spec'', AReq ''spec'')]),
      (''vdesktop_pool_teardown'', ''vdesktop_service.teardown_seats'',
         [('''', AReq ''seat_ids''), (''job_id'', AJobId)])]"

definition dispatch_vms :: "(string \<times> route) list" where
  "dispatch_vms =
     [(''packer_aws_build'', ''packer_build_service.run_build'', typed_meta),
      (''packer_azure_build'', ''packer_build_service.run_build'', typed_meta),
      (''packer_gcp_build'', ''packer_build_service.run_build'', typed_meta),
      (''packer_oci_build'', ''packer_build_service.run_build'', typed_meta),
      (''aws_export_image'', ''packer_build_service.run_export'', typed_meta),
      (''gcp_export_image'', ''packer_build_service.run_export'', typed_meta),
      (''azure_export_image'', ''packer_build_service.run_export'', typed_meta),
      (''oci_export_image'', ''packer_build_service.run_export'', typed_meta),
      (''image_promote_aws'', ''image_promote_service.run'', typed_meta),
      (''image_promote_azure'', ''image_promote_service.run'', typed_meta),
      (''image_promote_gcp'', ''image_promote_service.run'', typed_meta),
      (''image_promote_oci'', ''image_promote_service.run'', typed_meta),
      (''ec2_deploy'', ''aws_vm_service.run'', typed_meta),
      (''ec2_bulk_deploy'', ''aws_vm_service.run'', typed_meta),
      (''ec2_destroy'', ''aws_vm_service.run'', typed_meta),
      (''ec2_create_image'', ''aws_vm_service.run'', typed_meta),
      (''ami_copy'', ''aws_vm_service.run'', typed_meta),
      (''ec2_power'', ''aws_vm_service.run'', typed_meta),
      (''oci_deploy'', ''oci_vm_service.run'', typed_meta),
      (''oci_bulk_deploy'', ''oci_vm_service.run'', typed_meta),
      (''oci_destroy'', ''oci_vm_service.run'', typed_meta),
      (''oci_power'', ''oci_vm_service.run'', typed_meta),
      (''azure_deploy'', ''azure_vm_service.run'', typed_meta),
      (''azure_bulk_deploy'', ''azure_vm_service.run'', typed_meta),
      (''azure_destroy'', ''azure_vm_service.run'', typed_meta),
      (''azure_create_image'', ''azure_vm_service.run'', typed_meta),
      (''azure_power'', ''azure_vm_service.run'', typed_meta),
      (''gce_deploy'', ''gcp_vm_service.run'', typed_meta),
      (''gce_bulk_deploy'', ''gcp_vm_service.run'', typed_meta),
      (''gce_capture_image'', ''gcp_vm_service.run'', typed_meta),
      (''gce_destroy'', ''gcp_vm_service.run'', typed_meta),
      (''gce_power'', ''gcp_vm_service.run'', typed_meta),
      (''ot_cell_deploy'', ''ot_service.run_cell_deploy'', [('''', AJobId), ('''', AMeta)]),
      (''route_network_backfill'', ''route_network_backfill.run'', whole_meta),
      (''agent_host_start'', ''agent_host_service.run'', whole_meta),
      (''agent_host_stop'', ''agent_host_service.run'', whole_meta),
      (''agent_host_delete'', ''agent_host_service.run'', whole_meta),
      (''gateway_deploy'', ''gateway_service.run'', whole_meta),
      (''gateway_teardown'', ''gateway_service.run'', whole_meta),
      (''expiry_sweep'', ''expiry_reaper.run'', whole_meta),
      (''suspend_sweep'', ''suspend_sweeper.run'', whole_meta),
      (''spend_sweep'', ''spend_sweeper.run'', whole_meta),
      (''schedule_sweep'', ''schedule_sweeper.run'', whole_meta)]"

definition dispatch_table :: "(string \<times> route) list" where
  "dispatch_table = dispatch_k8s @ dispatch_nodes @ dispatch_labs @ dispatch_cloud @ dispatch_vms"

section \<open>Evaluation\<close>

datatype arg_val = VSession | VText string | VMeta dict | VJson json

text \<open>\<open>Inl k\<close> is \<open>KeyError(k)\<close>.\<close>

fun eval_arg :: "string \<Rightarrow> string \<Rightarrow> dict \<Rightarrow> string \<times> arg_src \<Rightarrow> string + (string \<times> arg_val) list" where
  "eval_arg jid ty meta (name, ASession) = Inr [(name, VSession)]"
| "eval_arg jid ty meta (name, AJobId) = Inr [(name, VText jid)]"
| "eval_arg jid ty meta (name, AJobType) = Inr [(name, VText ty)]"
| "eval_arg jid ty meta (name, AMeta) = Inr [(name, VMeta meta)]"
| "eval_arg jid ty meta (name, AReq k) =
     (case map_of meta k of None \<Rightarrow> Inl k | Some v \<Rightarrow> Inr [(name, VJson v)])"
| "eval_arg jid ty meta (name, AGet k d) =
     Inr [(name, VJson (case map_of meta k of None \<Rightarrow> d | Some v \<Rightarrow> v))]"
| "eval_arg jid ty meta (name, ABool k) = Inr [(name, VJson (JBool (truthy (dict_get meta k))))]"
| "eval_arg jid ty meta (name, AStar ks) =
     Inr (map (\<lambda>(k, v). (k, VJson v)) (filter (\<lambda>(k, v). k \<in> set ks \<and> v \<noteq> JNull) meta))"

fun eval_args :: "string \<Rightarrow> string \<Rightarrow> dict \<Rightarrow> (string \<times> arg_src) list \<Rightarrow> string + (string \<times> arg_val) list" where
  "eval_args jid ty meta [] = Inr []"
| "eval_args jid ty meta (a # as) =
     (case eval_arg jid ty meta a of
        Inl k \<Rightarrow> Inl k
      | Inr v \<Rightarrow> (case eval_args jid ty meta as of Inl k \<Rightarrow> Inl k | Inr vs \<Rightarrow> Inr (v @ vs)))"

datatype dispatched = Unhandled | Missing string | Call string "(string \<times> arg_val) list"

definition dispatch :: "string \<Rightarrow> string \<Rightarrow> dict \<Rightarrow> dispatched" where
  "dispatch jid ty meta =
     (case map_of dispatch_table ty of
        None \<Rightarrow> Unhandled
      | Some (handler, args) \<Rightarrow>
          (case eval_args jid ty meta args of Inl k \<Rightarrow> Missing k | Inr vs \<Rightarrow> Call handler vs))"

text \<open>
  \<open>_run_job\<close>: a service call leaves a database and ends in one of three ways: it returns, an
  exception escapes it, whose text is kept, or its task is cancelled by the shutdown drain. A
  cancelled task re-raises and writes nothing: the drain backdates the heartbeat and the next
  start's reconciler owns the row. \<open>str(KeyError(k))\<close> is the quoted key.
\<close>

datatype call_end = Returned | Raised string | Cancelled

type_synonym service = "string \<Rightarrow> (string \<times> arg_val) list \<Rightarrow> jdb \<Rightarrow> jdb \<times> call_end"

definition run_job :: "service \<Rightarrow> config \<Rightarrow> instant \<Rightarrow> string \<Rightarrow> string \<Rightarrow> dict \<Rightarrow> jdb \<Rightarrow> jdb" where
  "run_job svc cfg now jid ty meta db =
     (case dispatch jid ty meta of
        Unhandled \<Rightarrow> db
      | Missing k \<Rightarrow> fail_backstop cfg now jid (py_repr_str k) db
      | Call handler args \<Rightarrow>
          (case svc handler args db of
             (db', Returned) \<Rightarrow> db'
           | (db', Raised exc) \<Rightarrow> fail_backstop cfg now jid exc db'
           | (db', Cancelled) \<Rightarrow> db'))"

section \<open>Properties\<close>

lemmas dispatch_tables =
  dispatch_table_def dispatch_k8s_def dispatch_nodes_def dispatch_labs_def dispatch_cloud_def
  dispatch_vms_def

lemma dispatch_keys: "set (map fst dispatch_table) = set HANDLED_TYPES"
  by (simp only: dispatch_tables HANDLED_TYPES_def list.map fst_conv append.simps list.set
      insert_commute)

lemma dispatch_keys_distinct: "distinct (map fst dispatch_table)"
  by (rule distinct_same_length [OF dispatch_keys _ handled_types_distinct])
    (simp add: dispatch_tables HANDLED_TYPES_def)

text \<open>
  Dispatch is total on what the runner claims and nothing else: a job type has a branch
  exactly when it is a handled type, no two branches test for the same type, and a claimed job
  of a handled type either reaches its service function or stops at a metadata key that the
  branch requires and the row does not have.
\<close>
theorem dispatch_covers_handled:
  "(dispatch jid ty meta \<noteq> Unhandled \<longleftrightarrow> ty \<in> set HANDLED_TYPES) \<and>
   distinct (map fst dispatch_table) \<and>
   (\<forall>k. dispatch jid ty meta = Missing k \<longrightarrow>
      map_of meta k = None \<and>
      (\<exists>handler args name. (ty, handler, args) \<in> set dispatch_table \<and> (name, AReq k) \<in> set args))"
proof (intro conjI allI impI)
  have "map_of dispatch_table ty = None \<longleftrightarrow> ty \<notin> set HANDLED_TYPES"
    using dispatch_keys by (simp add: map_of_eq_None_iff)
  then show "dispatch jid ty meta \<noteq> Unhandled \<longleftrightarrow> ty \<in> set HANDLED_TYPES"
    by (auto simp: dispatch_def split: option.splits sum.splits)
  show "distinct (map fst dispatch_table)" by (rule dispatch_keys_distinct)
  have arg: "eval_arg jid ty meta a = Inl k \<Longrightarrow> map_of meta k = None \<and> (\<exists>name. a = (name, AReq k))"
    for a k by (cases "(jid, ty, meta, a)" rule: eval_arg.cases) (auto split: option.splits)
  have args: "eval_args jid ty meta as = Inl k \<Longrightarrow>
      map_of meta k = None \<and> (\<exists>name. (name, AReq k) \<in> set as)" for as k
    by (induction as) (auto split: sum.splits dest!: arg)
  fix k
  assume "dispatch jid ty meta = Missing k"
  then obtain handler as where r: "map_of dispatch_table ty = Some (handler, as)"
    "eval_args jid ty meta as = Inl k"
    by (auto simp: dispatch_def split: option.splits sum.splits)
  show "map_of meta k = None" using args [OF r(2)] by simp
  show "\<exists>handler args name. (ty, handler, args) \<in> set dispatch_table \<and> (name, AReq k) \<in> set args"
    using args [OF r(2)] map_of_SomeD [OF r(1)] by blast
qed

theorem dispatch_covers_handled_witness:
  "dispatch ''j'' ''k8s_provision'' [] = Missing ''cluster_id'' \<and> ''k8s_provision'' \<in> set HANDLED_TYPES"
proof -
  have "dispatch ''j'' ''k8s_provision'' [] = Missing ''cluster_id''" by code_simp
  with dispatch_covers_handled [of "''j''" "''k8s_provision''" "[]"] show ?thesis by simp
qed

lemma fail_backstop_not_running:
  assumes "get_job (fail_backstop cfg now jid exc db) jid = Some j"
  shows "j_status j \<noteq> ''running''"
proof (cases "get_job db jid")
  case None
  then show ?thesis using assms by (simp add: fail_backstop_def)
next
  case (Some cur)
  then show ?thesis
    using assms by (auto simp: fail_backstop_def get_job_set_failed failed_row_cases job_simps Let_def
        split: if_splits)
qed

text \<open>
  A task that crashes never leaves its job running: if the row of a handled job is still
  \<open>running\<close> after its task has ended, then the service function was reached, it returned or was
  cancelled, and it left the row that way itself. A missing metadata key or an exception, whatever
  the service wrote before it, always ends in a failed or requeued row.
\<close>
theorem run_job_not_left_running:
  assumes "ty \<in> set HANDLED_TYPES"
    and "get_job (run_job svc cfg now jid ty meta db) jid = Some j" and "j_status j = ''running''"
  shows "\<exists>h args db' out. dispatch jid ty meta = Call h args \<and> svc h args db = (db', out) \<and>
    out \<in> {Returned, Cancelled} \<and> get_job db' jid = Some j"
proof (cases "dispatch jid ty meta")
  case Unhandled
  then have "map_of dispatch_table ty = None"
    by (auto simp: dispatch_def split: option.splits sum.splits)
  then show ?thesis using assms(1) dispatch_keys by (simp add: map_of_eq_None_iff)
next
  case (Missing k)
  then show ?thesis using assms(2,3) fail_backstop_not_running by (auto simp: run_job_def)
next
  case (Call h args)
  then show ?thesis
    using assms(2,3) fail_backstop_not_running
    by (auto simp: run_job_def split: prod.splits call_end.splits)
qed

definition killed_service :: service where
  "killed_service handler args db = (db, Cancelled)"

theorem run_job_not_left_running_witness:
  "\<exists>h args. dispatch ''j1'' ''ami_copy'' [] = Call h args \<and>
    get_job (run_job killed_service default_config 9 ''j1'' ''ami_copy'' []
      (one_job_db (running_job ''j1'' ''ami_copy'' 0))) ''j1'' = Some (running_job ''j1'' ''ami_copy'' 0)"
proof -
  let ?db = "one_job_db (running_job ''j1'' ''ami_copy'' 0)"
  have disp: "\<exists>h args. dispatch ''j1'' ''ami_copy'' [] = Call h args"
    by (rule exI [of _ "''aws_vm_service.run''"], rule exI [of _
          "[('''', VText ''j1''), ('''', VText ''ami_copy''), ('''', VMeta [])]"]) code_simp
  have "get_job ?db ''j1'' = Some (running_job ''j1'' ''ami_copy'' 0)" by (simp add: get_job_def)
  with disp have run: "get_job (run_job killed_service default_config 9 ''j1'' ''ami_copy'' [] ?db) ''j1'' =
      Some (running_job ''j1'' ''ami_copy'' 0)"
    by (auto simp: run_job_def killed_service_def)
  have "''ami_copy'' \<in> set HANDLED_TYPES" by code_simp
  from run_job_not_left_running [OF this run] run show ?thesis by auto
qed

end
