(* ===== verification/Lifecycle.thy ===== *)
theory Lifecycle
  imports Agent_Service Dispatch
begin

text \<open>
  The life of job rows under all the parties that write them: any number of job runners and
  remote agents racing for work, the owner of a job reporting progress and its outcome, owners
  that crash, users who cancel, the stale-job reconciler, the change-window sweep and the
  revocation of an agent. Each step is one committed transaction of the code, so every
  interleaving of the parties is a sequence of steps. The SELECT that precedes a claim commits
  nothing: the step is the conditional UPDATE, for any row id. For a lease the SELECT contributes
  one thing that cannot change until the UPDATE, the type of the row: \<open>lease_one\<close> selects among
  the agent and control types only, and no operation writes \<open>job_type\<close> again. A revocation acts
  on any row that is bound to an agent.

  Two ghost components record what the code does not store: who executes which job, and how
  often a job was started.
\<close>

record world =
  w_db :: jdb
  w_owners :: "(string \<times> string) list"
  w_starts :: "string \<Rightarrow> nat"

definition started :: "string \<Rightarrow> string \<Rightarrow> jdb \<Rightarrow> world \<Rightarrow> world" where
  "started runner jid db w =
     w\<lparr> w_db := db, w_owners := (runner, jid) # w_owners w,
        w_starts := (w_starts w)(jid := w_starts w jid + 1) \<rparr>"

definition released :: "string \<Rightarrow> jdb \<Rightarrow> world \<Rightarrow> world" where
  "released jid db w = w\<lparr> w_db := db, w_owners := filter (\<lambda>p. snd p \<noteq> jid) (w_owners w) \<rparr>"

inductive job_step :: "world \<Rightarrow> world \<Rightarrow> bool" where
  create: "get_job (w_db w) uuid = None \<Longrightarrow> nj_status nj \<in> {''queued'', ''pending''} \<Longrightarrow>
     job_step w (w\<lparr> w_db := fst (create_job loads cfg now uuid nj (w_db w)),
                    w_starts := (w_starts w)(uuid := 0) \<rparr>)"
| claim: "claim_update now ''pending'' jid (w_db w) = (db', 1) \<Longrightarrow> job_step w (started runner jid db' w)"
| lease: "get_job (w_db w) jid = Some j \<Longrightarrow> j_job_type j \<in> set (AGENT_JOB_TYPES @ CONTROL_JOB_TYPES) \<Longrightarrow>
     lease_update now aid jid (w_db w) = (db', 1) \<Longrightarrow> job_step w (started aid jid db' w)"
| start: "(runner, jid) \<in> set (w_owners w) \<Longrightarrow>
     job_step w (w\<lparr> w_db := set_running now jid (w_db w) \<rparr>)"
| beat: "(runner, jid) \<in> set (w_owners w) \<Longrightarrow>
     job_step w (w\<lparr> w_db := beat_once now jid (w_db w) \<rparr>)"
| report: "(runner, jid) \<in> set (w_owners w) \<Longrightarrow>
     job_step w (w\<lparr> w_db := update_progress now jid pct message (w_db w) \<rparr>)"
| annotate: "(runner, jid) \<in> set (w_owners w) \<Longrightarrow>
     job_step w (w\<lparr> w_db := update_metadata jid data (w_db w) \<rparr>)"
| finish: "(runner, jid) \<in> set (w_owners w) \<Longrightarrow>
     job_step w (released jid (set_completed now jid result (w_db w)) w)"
| fail: "(runner, jid) \<in> set (w_owners w) \<Longrightarrow>
     job_step w (released jid (set_failed cfg now jid error result (w_db w)) w)"
| crash: "(runner, jid) \<in> set (w_owners w) \<Longrightarrow> job_step w (released jid (w_db w) w)"
| cancel: "job_step w (w\<lparr> w_db := set_cancelled now jid (w_db w) \<rparr>)"
| missed: "job_step w (w\<lparr> w_db := set_missed_window now jid reason (w_db w) \<rparr>)"
| sweep: "job_step w (w\<lparr> w_db := fst (reconcile_stale_jobs now n (w_db w)) \<rparr>)"
| revoke: "get_job (w_db w) jid = Some j \<Longrightarrow> j_agent_id j \<noteq> None \<Longrightarrow>
     job_step w (w\<lparr> w_db := revoke_job cfg now j (w_db w) \<rparr>)"

inductive_cases job_stepE: "job_step w w'"

definition empty_world :: world where
  "empty_world = \<lparr> w_db = empty_db, w_owners = [], w_starts = (\<lambda>_. 0) \<rparr>"

inductive reachable :: "world \<Rightarrow> bool" where
  initial: "reachable empty_world"
| step: "reachable w \<Longrightarrow> job_step w w' \<Longrightarrow> reachable w'"

section \<open>The invariant\<close>

definition waiting :: "job \<Rightarrow> bool" where
  "waiting j \<longleftrightarrow> j_status j \<in> {''pending'', ''queued''}"

text \<open>
  A row bound to an agent whose type the retry policy would requeue: no agent leases it and no
  runner claims it, so it is never in execution, and a revocation never requeues a job its agent
  may still be executing.
\<close>

definition stranded :: "job \<Rightarrow> bool" where
  "stranded j \<longleftrightarrow> j_agent_id j \<noteq> None \<and> retryable_type (j_job_type j)"

definition active :: "job \<Rightarrow> bool" where
  "active j \<longleftrightarrow> j_status j \<in> {''pending'', ''running''}"

definition world_ok :: "world \<Rightarrow> bool" where
  "world_ok w \<longleftrightarrow>
     db_ok (w_db w) \<and> distinct (map snd (w_owners w)) \<and>
     (\<forall>(runner, jid) \<in> set (w_owners w).
        \<exists>j. get_job (w_db w) jid = Some j \<and> \<not> waiting j \<and> \<not> stranded j) \<and>
     (\<forall>jid j. get_job (w_db w) jid = Some j \<longrightarrow>
        int (w_starts w jid) \<le> j_attempts j + (if waiting j then 0 else 1) \<and>
        (stranded j \<longrightarrow> \<not> active j))"

text \<open>
  What a write must satisfy to keep the invariant without changing the owners: per row, it keeps
  the attempts, the agent and the type, a row that was not waiting does not start waiting, and a
  row that was not active does not become active. The last does not hold of \<open>set_running\<close>, whose
  caller owns the row.
\<close>

locale quiet_write =
  fixes upd :: "jdb \<Rightarrow> jdb" and f :: "string \<Rightarrow> job \<Rightarrow> job"
  assumes rows: "get_job (upd db) k = map_option (f k) (get_job db k)"
    and ok: "db_ok db \<Longrightarrow> db_ok (upd db)"
    and attempts: "j_attempts (f k j) = j_attempts j"
    and not_waiting: "waiting (f k j) \<Longrightarrow> waiting j"
    and binding: "stranded (f k j) = stranded j"
begin

lemma keeps_world_ok_if:
  assumes w: "world_ok w"
    and act: "\<And>k j. get_job (w_db w) k = Some j \<Longrightarrow> stranded j \<Longrightarrow> active (f k j) \<Longrightarrow> active j"
  shows "world_ok (w\<lparr> w_db := upd (w_db w) \<rparr>)"
proof -
  have "\<exists>j. get_job (upd (w_db w)) jid = Some j \<and> \<not> waiting j \<and> \<not> stranded j"
    if "(r, jid) \<in> set (w_owners w)" for r jid
    using w that not_waiting binding by (fastforce simp: world_ok_def rows)
  moreover have "int (w_starts w jid) \<le> j_attempts j + (if waiting j then 0 else 1) \<and>
      (stranded j \<longrightarrow> \<not> active j)"
    if "get_job (upd (w_db w)) jid = Some j" for jid j
  proof -
    from that obtain i where i: "get_job (w_db w) jid = Some i" "j = f jid i" by (auto simp: rows)
    then have "int (w_starts w jid) \<le> j_attempts i + (if waiting i then 0 else 1)"
      "stranded i \<longrightarrow> \<not> active i"
      using w by (simp_all add: world_ok_def)
    with i not_waiting [of jid i] act [OF i(1)] show ?thesis
      by (auto simp: attempts binding split: if_splits)
  qed
  ultimately show ?thesis using w ok by (auto simp: world_ok_def)
qed

end

text \<open>The writes that make no row active.\<close>

locale calm_write = quiet_write +
  assumes not_active: "active (f k j) \<Longrightarrow> active j"
begin

lemma keeps_world_ok: "world_ok w \<Longrightarrow> world_ok (w\<lparr> w_db := upd (w_db w) \<rparr>)"
  by (rule keeps_world_ok_if) (auto dest: not_active)

end

lemmas row_kinds = waiting_def stranded_def active_def

lemma get_job_upd_if:
  assumes "\<And>j. j_id (f j) = j_id j"
  shows "get_job (upd_job jid f db) k = map_option (if k = jid then f else (\<lambda>j. j)) (get_job db k)"
proof -
  have "get_job (upd_job jid f db) k =
      map_option (\<lambda>j. if j_id j = jid then f j else j) (get_job db k)"
    unfolding get_job_def upd_job_def by (simp add: find_tbl_update assms)
  then show ?thesis using get_job_SomeD [of db k] by (cases "get_job db k") auto
qed

interpretation quiet_running: quiet_write "set_running now jid"
    "\<lambda>k. if k = jid then running_row now else (\<lambda>j. j)" for now jid
  by unfold_locales
    (auto simp: set_running_def get_job_upd_if running.keeps_id running.db_ok_upd_job running_row_def row_kinds
      split: if_splits)

interpretation quiet_progress: calm_write "update_progress now jid pct message"
    "\<lambda>k. if k = jid then progress_row now pct message else (\<lambda>j. j)" for now jid pct message
  by unfold_locales
    (auto simp: update_progress_def get_job_upd_if progress.keeps_id progress.db_ok_upd_job
      progress_row_def row_kinds split: if_splits)

interpretation quiet_metadata: calm_write "update_metadata jid data"
    "\<lambda>k. if k = jid then merged_row data else (\<lambda>j. j)" for jid data
  by unfold_locales
    (auto simp: update_metadata_def get_job_upd_if merged.keeps_id merged.db_ok_upd_job
      merged_row_def set_metadata_dict_def row_kinds split: if_splits)

interpretation quiet_completed: calm_write "set_completed now jid result"
    "\<lambda>k. if k = jid then completed_row now result else (\<lambda>j. j)" for now jid result
  by unfold_locales
    (auto simp: set_completed_def get_job_upd_if completed.keeps_id completed.db_ok_upd_job
      completed_row_def merge_result_def set_metadata_dict_def row_kinds split: if_splits)

interpretation quiet_cancelled: calm_write "set_cancelled now jid"
    "\<lambda>k. if k = jid then cancelled_row now else (\<lambda>j. j)" for now jid
  by unfold_locales
    (auto simp: set_cancelled_def get_job_upd_if cancelled.keeps_id cancelled.db_ok_upd_job
      cancelled_row_def row_kinds split: if_splits)

interpretation quiet_missed: calm_write "set_missed_window now jid reason"
    "\<lambda>k. if k = jid then missed_row now reason else (\<lambda>j. j)" for now jid reason
  by unfold_locales
    (auto simp: set_missed_window_def get_job_upd_if missed.keeps_id missed.db_ok_upd_job
      missed_row_def row_kinds split: if_splits)

interpretation quiet_beat: calm_write "beat_once now jid"
    "\<lambda>k j. if j_id j = jid \<and> j_status j = ''running'' then beat_row now j else j" for now jid
proof
  fix db k j
  show "get_job (beat_once now jid db) k =
      map_option (\<lambda>j. if j_id j = jid \<and> j_status j = ''running'' then beat_row now j else j) (get_job db k)"
    by (rule get_job_beat_once)
  show "db_ok db \<Longrightarrow> db_ok (beat_once now jid db)"
    unfolding beat_once_def by (rule beat.db_ok_tbl_update)
qed (auto simp: beat_row_def row_kinds split: if_splits)

interpretation quiet_sweep: calm_write "\<lambda>db. fst (reconcile_stale_jobs now n db)"
    "\<lambda>k j. if stale (now - minutes n) j then reconcile_row now j else j" for now n
proof
  fix db k j
  show "get_job (fst (reconcile_stale_jobs now n db)) k =
      map_option (\<lambda>j. if stale (now - minutes n) j then reconcile_row now j else j) (get_job db k)"
    by (rule get_job_reconcile)
  show "db_ok db \<Longrightarrow> db_ok (fst (reconcile_stale_jobs now n db))"
    using reconciled.db_ok_tbl_update [of db "stale (now - minutes n)" now] reconcile_jobs [of now n db]
    by (simp add: db_ok_def)
qed (auto simp: reconcile_row_def row_kinds split: if_splits)

section \<open>Steps that change the owners\<close>

lemma world_ok_started:
  assumes "world_ok w" and "get_job (w_db w) jid = Some j" and "waiting j" and "db_ok db'"
    and "\<not> stranded j" and "\<And>k. get_job db' k = (if k = jid then Some (running_row now j) else get_job (w_db w) k)"
  shows "world_ok (started runner jid db' w)"
proof -
  have free: "jid \<notin> snd ` set (w_owners w)"
    using assms(1-3) by (fastforce simp: world_ok_def)
  have run: "\<not> waiting (running_row now j)" "j_attempts (running_row now j) = j_attempts j"
    "\<not> stranded (running_row now j)"
    using assms(5) by (simp_all add: row_kinds running_row_def)
  have "int (w_starts w jid) \<le> j_attempts j + (if waiting j then 0 else 1)"
    using assms(1,2) by (simp add: world_ok_def)
  then have "int (w_starts w jid) \<le> j_attempts j" using assms(3) by simp
  with assms(1,4) free run show ?thesis
    by (auto simp: world_ok_def started_def assms(6))
qed

lemma world_ok_released:
  assumes "world_ok w" and "db_ok db'" and "get_job (w_db w) jid = Some j"
    and "\<And>k. get_job db' k = (if k = jid then Some (f j) else get_job (w_db w) k)"
    and "j_attempts j \<le> j_attempts (f j)"
    and "waiting (f j) \<Longrightarrow> j_attempts j < j_attempts (f j)" and "\<not> stranded (f j)"
  shows "world_ok (released jid db' w)"
proof -
  have "int (w_starts w jid) \<le> j_attempts j + 1"
    using assms(1,3) by (fastforce simp: world_ok_def split: if_splits)
  then have "int (w_starts w jid) \<le> j_attempts (f j) + (if waiting (f j) then 0 else 1)"
    using assms(5,6) by auto
  moreover have "distinct (map snd (filter (\<lambda>p. snd p \<noteq> jid) (w_owners w)))"
    using assms(1) by (simp add: world_ok_def distinct_map_filter)
  ultimately show ?thesis
    using assms(1,2,7) by (auto simp: world_ok_def released_def assms(4))
qed

lemma owner_row:
  "world_ok w \<Longrightarrow> (r, jid) \<in> set (w_owners w) \<Longrightarrow>
    \<exists>j. get_job (w_db w) jid = Some j \<and> \<not> waiting j \<and> \<not> stranded j"
  by (auto simp: world_ok_def)

lemma world_ok_drop_owner:
  "world_ok (w\<lparr> w_db := db' \<rparr>) \<Longrightarrow> world_ok (released jid db' w)"
  by (auto simp: world_ok_def released_def distinct_map_filter)

lemma failed_row_attempts:
  "j_attempts j \<le> j_attempts (failed_row cfg now e res j)"
  "waiting (failed_row cfg now e res j) \<Longrightarrow> j_attempts j < j_attempts (failed_row cfg now e res j)"
  by (auto simp: failed_row_cases waiting_def merge_result_def set_metadata_dict_def Let_def split: if_splits)

lemma failed_row_stranded: "stranded (failed_row cfg now e res j) = stranded j"
  by (auto simp: failed_row_cases stranded_def merge_result_def set_metadata_dict_def Let_def split: if_splits)

lemma set_running_keeps:
  assumes "world_ok w" and "(runner, jid) \<in> set (w_owners w)"
  shows "world_ok (w\<lparr> w_db := set_running now jid (w_db w) \<rparr>)"
proof -
  obtain j where "get_job (w_db w) jid = Some j" "\<not> stranded j" using owner_row [OF assms] by blast
  then show ?thesis
    by (intro quiet_running.keeps_world_ok_if [OF assms(1)]) (auto split: if_splits)
qed

lemma agent_types_not_retryable: "t \<in> set (AGENT_JOB_TYPES @ CONTROL_JOB_TYPES) \<Longrightarrow> \<not> retryable_type t"
  by (auto simp: AGENT_JOB_TYPES_def CONTROL_JOB_TYPES_def retryable_type_def RETRYABLE_TYPES_def)

lemma claim_update_started:
  assumes "world_ok w" and "claim_update now ''pending'' jid (w_db w) = (db', 1)"
  shows "world_ok (started runner jid db' w)"
proof -
  have ok: "db_ok (w_db w)" using assms(1) by (simp add: world_ok_def)
  have db': "db' = fst (claim_update now ''pending'' jid (w_db w))" using assms(2) by simp
  have "snd (claim_update now ''pending'' jid (w_db w)) = 1" using assms(2) by simp
  then obtain j where j: "get_job (w_db w) jid = Some j" "j_status j = ''pending''"
    by (auto simp: claim_update_count [OF ok] split: option.splits if_splits)
  have "get_job db' k = (if k = jid then Some (running_row now j) else get_job (w_db w) k)" for k
    using j get_job_SomeD [of "w_db w" k] unfolding db' get_job_claim_update
    by (cases "get_job (w_db w) k") auto
  moreover have "\<not> stranded j" using assms(1) j by (auto simp: world_ok_def active_def)
  ultimately show ?thesis using world_ok_started [OF assms(1) j(1)] j(2)
    by (simp add: waiting_def db' db_ok_claim_update [OF ok])
qed

lemma lease_update_started:
  assumes "world_ok w" and "lease_update now aid jid (w_db w) = (db', 1)"
    and "get_job (w_db w) jid = Some j'" and "j_job_type j' \<in> set (AGENT_JOB_TYPES @ CONTROL_JOB_TYPES)"
  shows "world_ok (started aid jid db' w)"
proof -
  have ok: "db_ok (w_db w)" using assms(1) by (simp add: world_ok_def)
  have db': "db' = fst (lease_update now aid jid (w_db w))" using assms(2) by simp
  have "jid \<in> queued_ids aid (w_db w)"
    using assms(2) lease_update_count [OF ok, of now aid jid] by (auto split: if_splits)
  then obtain j where j: "get_job (w_db w) jid = Some j" "j_status j = ''queued''" "j_agent_id j = Some aid"
    using ok find_key_unique [of j_id "jobs (w_db w)"]
    by (auto simp: queued_ids_def get_job_def db_ok_def)
  have "get_job db' k = (if k = jid then Some (running_row now j) else get_job (w_db w) k)" for k
    using j get_job_SomeD [of "w_db w" k] unfolding db' get_job_lease_update
    by (cases "get_job (w_db w) k") auto
  moreover have "\<not> stranded j"
    using assms(3,4) j(1) agent_types_not_retryable by (auto simp: stranded_def)
  ultimately show ?thesis using world_ok_started [OF assms(1) j(1)] j(2)
    by (simp add: waiting_def db' db_ok_lease_update [OF ok])
qed

lemma set_failed_released:
  assumes "world_ok w" and "(r, jid) \<in> set (w_owners w)"
  shows "world_ok (released jid (set_failed cfg now jid error result (w_db w)) w)"
proof -
  obtain j where j: "get_job (w_db w) jid = Some j" "\<not> stranded j" using owner_row [OF assms] by blast
  show ?thesis
    by (rule world_ok_released [OF assms(1) _ j(1), where f = "failed_row cfg now error result"])
      (use assms(1) j in \<open>auto simp: world_ok_def db_ok_set_failed get_job_set_failed failed_row_stranded
        intro: failed_row_attempts\<close>)
qed

lemma create_keeps:
  assumes "world_ok w" and "get_job (w_db w) uuid = None" and "nj_status nj \<in> {''queued'', ''pending''}"
  shows "world_ok (w\<lparr> w_db := fst (create_job loads cfg now uuid nj (w_db w)),
                    w_starts := (w_starts w)(uuid := 0) \<rparr>)"
proof -
  let ?j = "new_row loads cfg now uuid nj"
  have id: "j_id ?j = uuid" and att: "j_attempts ?j = 0" by (simp_all add: new_row_def Let_def)
  have calm: "stranded ?j \<Longrightarrow> \<not> active ?j"
    by (auto simp: row_kinds new_row_def or_none_def Let_def split: if_splits)
  have db: "fst (create_job loads cfg now uuid nj (w_db w)) = (w_db w)\<lparr> jobs := jobs (w_db w) @ [?j] \<rparr>"
    by (simp add: create_job_def Let_def)
  have get: "get_job ((w_db w)\<lparr> jobs := jobs (w_db w) @ [?j] \<rparr>) k =
      (if k = uuid then Some ?j else get_job (w_db w) k)" for k
    using assms(2) id by (auto simp: get_job_append split: option.splits)
  have "db_ok ((w_db w)\<lparr> jobs := jobs (w_db w) @ [?j] \<rparr>)"
    using assms(1) get_job_NoneD [OF assms(2)] new_row_ok [OF assms(3)] id
    by (simp add: world_ok_def db_ok_def)
  moreover have "jid \<noteq> uuid" if "(r, jid) \<in> set (w_owners w)" for r jid
    using owner_row [OF assms(1) that] assms(2) by auto
  ultimately show ?thesis
    using assms(1) att calm unfolding db by (auto simp: world_ok_def get split: if_splits)
qed

lemma revoke_keeps:
  assumes "world_ok w" and "get_job (w_db w) jid = Some j" and "j_agent_id j \<noteq> None"
  shows "world_ok (w\<lparr> w_db := revoke_job cfg now j (w_db w) \<rparr>)"
proof (cases "j_status j = ''running''")
  case False
  then show ?thesis
    using quiet_cancelled.keeps_world_ok [OF assms(1)] by (simp add: revoke_job_def)
next
  case True
  let ?e = "''Agent was revoked while it held this job.''"
  let ?f = "failed_row cfg now ?e []"
  have id: "j_id j = jid" using get_job_SomeD [OF assms(2)] by simp
  have ty: "\<not> retryable_type (j_job_type j)"
    using assms True by (auto simp: world_ok_def stranded_def active_def)
  have f: "j_attempts (?f j) = j_attempts j" "\<not> waiting (?f j)" "\<not> waiting j" "\<not> stranded (?f j)"
    "\<not> stranded j"
    using ty True by (simp_all add: failed_row_cases should_retry_iff row_kinds merge_result_def)
  have "int (w_starts w jid) \<le> j_attempts j + 1"
    using assms(1,2) f(3) by (fastforce simp: world_ok_def)
  moreover have "db_ok (set_failed cfg now jid ?e [] (w_db w))"
    using assms(1) by (simp add: world_ok_def db_ok_set_failed)
  ultimately show ?thesis
    using assms(1,2) f True id
    by (auto simp: world_ok_def revoke_job_def get_job_set_failed split: if_splits)
qed

lemma job_step_keeps: "job_step w w' \<Longrightarrow> world_ok w \<Longrightarrow> world_ok w'"
proof (induction rule: job_step.induct)
  case (finish runner jid w now result)
  then show ?case
    using world_ok_drop_owner [OF quiet_completed.keeps_world_ok] by blast
next
  case (crash runner jid w)
  then show ?case by (intro world_ok_drop_owner) simp
qed (auto intro: create_keeps claim_update_started lease_update_started set_failed_released revoke_keeps
    set_running_keeps quiet_beat.keeps_world_ok quiet_progress.keeps_world_ok
    quiet_metadata.keeps_world_ok quiet_cancelled.keeps_world_ok quiet_missed.keeps_world_ok
    quiet_sweep.keeps_world_ok)

lemma reachable_ok: "reachable w \<Longrightarrow> world_ok w"
proof (induction rule: reachable.induct)
  case initial
  then show ?case by (simp add: world_ok_def empty_world_def empty_db_def db_ok_def get_job_def)
next
  case (step w w')
  then show ?case using job_step_keeps by blast
qed

section \<open>Properties\<close>

text \<open>
  C1. No job is ever executed twice at the same time: in every state reachable by any
  interleaving of runners, agents, users and sweeps, each job has at most one executor, and a job
  that is waiting to be picked up has none. All rows satisfy the row invariant.
\<close>
theorem exclusive_execution:
  assumes "reachable w"
  shows "((r, jid) \<in> set (w_owners w) \<and> (r', jid) \<in> set (w_owners w) \<longrightarrow> r = r') \<and>
    distinct (map snd (w_owners w)) \<and>
    (\<forall>j. get_job (w_db w) jid = Some j \<and> j_status j \<in> {''pending'', ''queued''} \<longrightarrow>
       (r, jid) \<notin> set (w_owners w)) \<and> db_ok (w_db w)"
proof -
  note ok = reachable_ok [OF assms]
  have d: "distinct (map snd (w_owners w))" "db_ok (w_db w)" using ok by (simp_all add: world_ok_def)
  have "r = r'" if "(r, jid) \<in> set (w_owners w)" "(r', jid) \<in> set (w_owners w)"
    using d(1) that by (auto simp: distinct_map dest: inj_onD [of _ _ "(r, jid)" "(r', jid)"])
  with d owner_row [OF ok, of r jid] show ?thesis by (auto simp: waiting_def)
qed

lemma reachable_create:
  "reachable (empty_world\<lparr> w_db := fst (create_job (\<lambda>_. None) default_config 5 ''j1''
      (plain_new_job ''ec2_power'' None ''pending'') empty_db), w_starts := (\<lambda>_. 0)(''j1'' := 0) \<rparr>)"
  using reachable.step [OF reachable.initial job_step.create, of "''j1''"
      "plain_new_job ''ec2_power'' None ''pending''" "\<lambda>_. None" default_config 5]
  by (simp add: empty_world_def empty_db_def get_job_def plain_new_job_def)

theorem exclusive_execution_witness:
  "db_ok (fst (create_job (\<lambda>_. None) default_config 5 ''j1'' (plain_new_job ''ec2_power'' None ''pending'') empty_db))"
  using exclusive_execution [OF reachable_create] by simp

text \<open>
  C9. A job is started at most five times over its whole life, whatever fails, crashes, is
  cancelled or is swept in between: once, plus one per requeue, of which the retry policy allows
  at most four; and while it waits in the queue it was started at most once per recorded attempt.
\<close>
theorem starts_bounded:
  assumes "reachable w" and "get_job (w_db w) jid = Some j"
  shows "w_starts w jid \<le> 5 \<and> (j_status j \<in> {''pending'', ''queued''} \<longrightarrow> int (w_starts w jid) \<le> j_attempts j) \<and>
    0 \<le> j_attempts j \<and> j_attempts j \<le> 4"
proof -
  note ok = reachable_ok [OF assms(1)]
  have "row_ok j" using ok get_job_SomeD [OF assms(2)] by (simp add: world_ok_def db_ok_def)
  then have a: "0 \<le> j_attempts j" "j_attempts j \<le> 4" by (simp_all add: row_ok_def)
  have "int (w_starts w jid) \<le> j_attempts j + (if waiting j then 0 else 1)"
    using ok assms(2) by (simp add: world_ok_def)
  with a show ?thesis by (auto simp: waiting_def split: if_splits)
qed

theorem starts_bounded_witness:
  "\<exists>w j. reachable w \<and> get_job (w_db w) ''j1'' = Some j \<and> w_starts w ''j1'' \<le> 5"
proof -
  let ?w = "empty_world\<lparr> w_db := fst (create_job (\<lambda>_. None) default_config 5 ''j1''
      (plain_new_job ''ec2_power'' None ''pending'') empty_db), w_starts := (\<lambda>_. 0)(''j1'' := 0) \<rparr>"
  have "get_job (w_db ?w) ''j1'' =
      Some (new_row (\<lambda>_. None) default_config 5 ''j1'' (plain_new_job ''ec2_power'' None ''pending''))"
    by (simp add: create_job_def get_job_def empty_db_def new_row_def Let_def)
  with starts_bounded [OF reachable_create this] reachable_create show ?thesis by blast
qed

lemma agent_types_not_handled: "set (AGENT_JOB_TYPES @ CONTROL_JOB_TYPES) \<inter> set HANDLED_TYPES = {}"
  by (simp add: AGENT_JOB_TYPES_def CONTROL_JOB_TYPES_def HANDLED_TYPES_def)

text \<open>
  C4. The local runner and the agents never compete for a job: with the allow list any set of
  limits produces, a job the local runner claims is of none of the agent job types, and if it was
  bound to an agent at all, then a failed run had put it back in the queue, at the cost of a
  counted attempt and for a re-entrant type; a job an agent leases is never of a type the runner handles. So the two guards, the status and the type,
  hold independently of each other.
\<close>
theorem runner_and_agents_disjoint:
  assumes "db_ok db" and "\<forall>n. others_ok (env n)"
    and "claim_one clock env (allowed_types lims running) db = (db', Some (jid, ty, meta))"
  shows "ty \<notin> set (AGENT_JOB_TYPES @ CONTROL_JOB_TYPES) \<and>
    (\<exists>j. get_job db' jid = Some j \<and> (j_agent_id j = None \<or> 0 < j_attempts j \<and> retryable_type (j_job_type j))) \<and>
    set (leasable_types k8s_ok want a) \<inter> set HANDLED_TYPES = {}"
proof -
  have ty: "ty \<in> set HANDLED_TYPES"
    using claim_one_type [OF assms] allowed_types_handled by blast
  have "claim_attempts 10 clock env (allowed_types lims running) db = (db', Some (jid, ty, meta))"
    using assms(3) by (auto simp: claim_one_def split: if_splits)
  from claim_attempts_SomeD [OF assms(1,2) this] obtain m db0 j0 where
    c: "db_ok db0" "get_job db0 jid = Some j0" "j_status j0 = ''pending''"
      "get_job db' jid = Some (running_row (clock m) j0)" by blast
  have "row_ok j0" using c(1) get_job_SomeD [OF c(2)] by (simp add: db_ok_def)
  with c(3) have "j_agent_id j0 = None \<or> 0 < j_attempts j0 \<and> retryable_type (j_job_type j0)"
    by (auto simp: row_ok_def)
  then have "\<exists>j. get_job db' jid = Some j \<and>
      (j_agent_id j = None \<or> 0 < j_attempts j \<and> retryable_type (j_job_type j))"
    using c(4) by (simp add: running_row_def)
  moreover have "set (leasable_types k8s_ok want a) \<subseteq> set (AGENT_JOB_TYPES @ CONTROL_JOB_TYPES)"
    using leasable_types_granted [of k8s_ok want a] allowed_job_types_subset [of a]
    by (auto split: if_splits)
  ultimately show ?thesis using ty agent_types_not_handled by blast
qed

lemma claim_allowed_two_pending:
  "\<exists>x db'. claim_one (\<lambda>_. 9) (\<lambda>_ db. db) (allowed_types (limits_of default_config 0) []) two_pending = (db', Some x)"
proof -
  have al: "''ami_copy'' \<in> set (allowed_types (limits_of default_config 0) [])" by code_simp
  have first: "first_by claim_order (filter (claim_candidate 9 al) (jobs two_pending)) =
      Some (new_row (\<lambda>_. None) default_config 5 ''j1'' (plain_new_job ''ami_copy'' None ''pending''))"
    if "''ami_copy'' \<in> set al" for al
    using that by (simp add: two_pending_def claim_candidate_def claimable_now_def new_row_def
        plain_new_job_def claim_order_def Let_def)
  have "allowed_types (limits_of default_config 0) [] \<noteq> []" using al by auto
  with first [OF al] show ?thesis
    by (simp add: claim_one_def eval_nat_numeral claim_select_def claim_update_def two_pending_def
        tbl_update_def rowcount_def get_job_def new_row_def plain_new_job_def running_row_def Let_def)
qed

theorem runner_and_agents_disjoint_witness:
  "\<exists>jid ty meta. ty \<notin> set (AGENT_JOB_TYPES @ CONTROL_JOB_TYPES) \<and>
     snd (claim_one (\<lambda>_. 9) (\<lambda>_ db. db) (allowed_types (limits_of default_config 0) []) two_pending) =
       Some (jid, ty, meta)"
proof -
  obtain jid ty meta db' where "claim_one (\<lambda>_. 9) (\<lambda>_ db. db)
      (allowed_types (limits_of default_config 0) []) two_pending = (db', Some (jid, ty, meta))"
    using claim_allowed_two_pending by (metis prod_cases3)
  with runner_and_agents_disjoint [OF two_pending_ok _ this] others_ok_id show ?thesis by auto
qed

text \<open>
  C26. A cancellation can be undone by the job's own failure: if a user cancels a running job and
  its executor then fails with an error that looks transient, the retry hook puts the cancelled
  row back to \<open>pending\<close>, and once its backoff has passed the next claim runs it again.
\<close>
theorem cancelled_job_revived:
  assumes "db_ok db" and "get_job db jid = Some j" and "j_status j = ''running''"
    and "retry_enabled cfg" and "retryable_type (j_job_type j)" and "is_transient error"
    and "j_attempts j + 1 < max_attempts (retry_limit cfg)"
  shows "is_cancelled (set_cancelled t1 jid db) jid \<and>
    (\<exists>j'. get_job (set_failed cfg t2 jid error result (set_cancelled t1 jid db)) jid = Some j' \<and>
       j_status j' = ''pending'' \<and> j_retry_after j' = Some (t2 + seconds (backoff_seconds (j_attempts j)))) \<and>
    snd (claim_update t3 ''pending'' jid (set_failed cfg t2 jid error result (set_cancelled t1 jid db))) = 1"
proof -
  let ?c = "set_cancelled t1 jid db" and ?d = "set_failed cfg t2 jid error result (set_cancelled t1 jid db)"
  have c: "get_job ?c jid = Some (cancelled_row t1 j)"
    using assms(2) by (simp add: quiet_cancelled.rows)
  have "db_ok ?d"
    using assms(1) by (simp add: set_cancelled_def cancelled.db_ok_upd_job db_ok_set_failed)
  moreover have d: "get_job ?d jid = Some (failed_row cfg t2 error result (cancelled_row t1 j))"
    using c by (simp add: get_job_set_failed)
  moreover have "j_status (failed_row cfg t2 error result (cancelled_row t1 j)) = ''pending''"
    "j_retry_after (failed_row cfg t2 error result (cancelled_row t1 j)) =
       Some (t2 + seconds (backoff_seconds (j_attempts j)))"
    using assms(3-7)
    by (simp_all add: failed_row_cases should_retry_iff cancelled_row_def merge_result_def
        set_metadata_dict_def Let_def)
  ultimately show ?thesis
    using c assms(3) by (simp add: is_cancelled_def cancelled_row_def claim_update_count)
qed

theorem cancelled_job_revived_witness:
  "is_cancelled (set_cancelled 8 ''j1'' (one_job_db (running_job ''j1'' ''ec2_destroy'' 0))) ''j1''"
proof -
  have "db_ok (one_job_db (running_job ''j1'' ''ec2_destroy'' 0))"
    by (simp add: db_ok_def row_ok_def STATUSES_def)
  moreover have "retryable_type ''ec2_destroy''" "is_transient ''read timeout''" by code_simp+
  ultimately show ?thesis
    using cancelled_job_revived [of "one_job_db (running_job ''j1'' ''ec2_destroy'' 0)" "''j1''"
        "running_job ''j1'' ''ec2_destroy'' 0" retry_config "''read timeout''" 8]
    by (simp add: get_job_def)
qed

end
