(* ===== verification/Suspend_Schedule.thy ===== *)
theory Suspend_Schedule
  imports Config
begin

text \<open>
  \<open>services/suspend_schedule.py\<close>: the parsing of a daily time and of a day mask, time zones,
  the validation of a suspend schedule, the walk over local days that finds the boundaries
  crossed since the last look, and the verb that follows from them.

  A time zone is a value of \<open>zone\<close>: the local calendar day of an instant
  (\<open>astimezone(tz).date()\<close>, as a day number counted from 1 January 1970) and the instant of a
  local wall-clock time (\<open>datetime(y, m, d, hour, minute, tzinfo=tz)\<close> read in UTC). The IANA
  database behind \<open>ZoneInfo\<close> is a parameter, a partial function from names to zones; UTC, the
  zone of a blank name, is defined here. What the walks need of a zone is the locale
  \<open>regular_zone\<close>. Dates outside the range of \<open>datetime\<close> (years 1 to 9999) are not modelled.
\<close>

datatype schedule_error =
    BadTime string
  | BadDays
  | NoDaySelected
  | UnknownTimezone string
  | SameTimes
  | NoName
  | NoStartTime
  | NotMinutes
  | ZeroLength
  | LongerThanAWeek
  | RowWithoutStart
  | RowWithoutDuration
  | NoOccurrence
  | WindowGone
  | WindowDisabled string
  | OutsideWindow instant string string
  | InThePast instant
  | TooFarAhead instant
  | BadRunAt string
  | JobGone
  | NotSchedulable string
  | NoParameters
  | PickAWindow

record zone =
  z_date :: "instant \<Rightarrow> int"
  z_utc :: "int \<Rightarrow> int \<Rightarrow> int \<Rightarrow> instant"

section \<open>Constants\<close>

definition DAYS_ALL :: string where
  "DAYS_ALL = ''1111111''"

definition DAYS_WEEKDAYS :: string where
  "DAYS_WEEKDAYS = ''1111100''"

definition DAY_LABELS :: "string list" where
  "DAY_LABELS = [''Mon'', ''Tue'', ''Wed'', ''Thu'', ''Fri'', ''Sat'', ''Sun'']"

definition SUSPEND :: string where
  "SUSPEND = ''stopped''"

definition RESUME :: string where
  "RESUME = ''running''"

definition MAX_CATCHUP :: int where
  "MAX_CATCHUP = seconds (25 * 3600)"

section \<open>Parsing\<close>

text \<open>The pattern \<open>^([01]\d|2[0-3]):([0-5]\d)$\<close> on a stripped string.\<close>

fun hhmm_match :: "string \<Rightarrow> (int \<times> int) option" where
  "hhmm_match [a, b, c, d, e] =
     (case (digit_val a, digit_val b, digit_val d, digit_val e) of
        (Some h1, Some h0, Some m1, Some m0) \<Rightarrow>
          (if (h1 \<le> 1 \<or> h1 = 2 \<and> h0 \<le> 3) \<and> c = CHR '':'' \<and> m1 \<le> 5
           then Some (10 * h1 + h0, 10 * m1 + m0) else None)
      | _ \<Rightarrow> None)"
| "hhmm_match _ = None"

definition parse_hhmm :: "string \<Rightarrow> schedule_error + (int \<times> int) option" where
  "parse_hhmm value =
     (let raw = py_strip value
      in if raw = [] then Inr None
         else (case hhmm_match raw of
                 None \<Rightarrow> Inl (BadTime value)
               | Some hm \<Rightarrow> Inr (Some hm)))"

definition normalize_days :: "string \<Rightarrow> schedule_error + string" where
  "normalize_days value =
     (let raw = py_strip value
      in if raw = [] then Inr DAYS_ALL
         else if length raw \<noteq> 7 \<or> \<not> set raw \<subseteq> {CHR ''0'', CHR ''1''} then Inl BadDays
         else if CHR ''1'' \<notin> set raw then Inl NoDaySelected
         else Inr raw)"

text \<open>UTC: days of 86,400 seconds.\<close>

definition UTC_ZONE :: zone where
  "UTC_ZONE =
     \<lparr> z_date = (\<lambda>t. t div seconds 86400),
       z_utc = (\<lambda>d h m. seconds (86400 * d + 3600 * h + 60 * m)) \<rparr>"

definition resolve_timezone :: "(string \<Rightarrow> zone option) \<Rightarrow> string \<Rightarrow> schedule_error + zone" where
  "resolve_timezone zones name =
     (let raw = py_strip name
      in if raw = [] then Inr UTC_ZONE
         else (case zones raw of
                 None \<Rightarrow> Inl (UnknownTimezone raw)
               | Some z \<Rightarrow> Inr z))"

text \<open>\<open>day.weekday()\<close>, Monday first; day 0 was a Thursday. \<open>day_on\<close> is \<open>days[day.weekday()] == "1"\<close>.\<close>

definition weekday :: "int \<Rightarrow> nat" where
  "weekday d = nat ((d + 3) mod 7)"

definition day_on :: "string \<Rightarrow> int \<Rightarrow> bool" where
  "day_on days d \<longleftrightarrow> days ! weekday d = CHR ''1''"

section \<open>The schedule of a row\<close>

record sleep_form =
  sl_suspend_at_local :: "string option"
  sl_resume_at_local :: "string option"
  sl_schedule_timezone :: "string option"
  sl_schedule_days :: "string option"

record sleep_row = sleep_form +
  sl_schedule_last_checked_at :: "instant option"

text \<open>
  \<open>validate\<close> checks in order: the two times, that they differ, the zone, and the days only
  when a time is set. What it returns are the four columns a form writes; the latch is the
  sweep's.
\<close>

definition stored_schedule ::
  "string \<Rightarrow> string \<Rightarrow> string \<Rightarrow> (int \<times> int) option \<Rightarrow> (int \<times> int) option \<Rightarrow> string \<Rightarrow> sleep_form" where
  "stored_schedule suspend_at resume_at tz_name sus res days =
     \<lparr> sl_suspend_at_local = (if sus = None then None else Some (py_strip suspend_at)),
       sl_resume_at_local = (if res = None then None else Some (py_strip resume_at)),
       sl_schedule_timezone = or_none (Some (py_strip tz_name)),
       sl_schedule_days = or_none (Some days) \<rparr>"

definition validate ::
  "(string \<Rightarrow> zone option) \<Rightarrow> string \<Rightarrow> string \<Rightarrow> string \<Rightarrow> string \<Rightarrow> schedule_error + sleep_form" where
  "validate zones suspend_at resume_at tz_name days =
     (case parse_hhmm suspend_at of
        Inl e \<Rightarrow> Inl e
      | Inr sus \<Rightarrow>
     (case parse_hhmm resume_at of
        Inl e \<Rightarrow> Inl e
      | Inr res \<Rightarrow>
          (if sus \<noteq> None \<and> sus = res then Inl SameTimes
           else
     (case resolve_timezone zones tz_name of
        Inl e \<Rightarrow> Inl e
      | Inr _ \<Rightarrow>
     (case (if sus \<noteq> None \<or> res \<noteq> None then normalize_days days else Inr []) of
        Inl e \<Rightarrow> Inl e
      | Inr ds \<Rightarrow> Inr (stored_schedule suspend_at resume_at tz_name sus res ds))))))"

definition has_schedule :: "('a) sleep_form_scheme \<Rightarrow> bool" where
  "has_schedule row \<longleftrightarrow>
     py_strip (or_empty (sl_suspend_at_local row)) \<noteq> [] \<or>
     py_strip (or_empty (sl_resume_at_local row)) \<noteq> []"

text \<open>
  \<open>_boundaries\<close>: every local day from the one before \<open>start\<close> to the one after \<open>end\<close>, each
  converted on its own.
\<close>

definition boundaries :: "int \<times> int \<Rightarrow> zone \<Rightarrow> string \<Rightarrow> instant \<Rightarrow> instant \<Rightarrow> instant list" where
  "boundaries hm z days start_utc end_utc =
     [u. d \<leftarrow> [z_date z start_utc - 1 .. z_date z end_utc + 1],
          day_on days d,
          u \<leftarrow> [z_utc z d (fst hm) (snd hm)],
          start_utc < u \<and> u \<le> end_utc]"

definition crossings ::
  "string \<Rightarrow> string set \<Rightarrow> (int \<times> int) option \<Rightarrow> zone \<Rightarrow> string \<Rightarrow> instant \<Rightarrow> instant \<Rightarrow> (instant \<times> string) list" where
  "crossings verb allow hm z days start_utc end_utc =
     (case hm of
        None \<Rightarrow> []
      | Some t \<Rightarrow> (if verb \<in> allow then map (\<lambda>u. (u, verb)) (boundaries t z days start_utc end_utc)
                  else []))"

text \<open>
  \<open>crossings.sort()\<close> compares the instants and then the verbs, and \<open>"running" < "stopped"\<close>.
\<close>

definition crossing_key :: "instant \<times> string \<Rightarrow> int" where
  "crossing_key c = 2 * fst c + (if snd c = SUSPEND then 1 else 0)"

definition due_action ::
  "(string \<Rightarrow> zone option) \<Rightarrow> sleep_row \<Rightarrow> instant \<Rightarrow> string set \<Rightarrow> schedule_error + string" where
  "due_action zones row now_utc allow =
     (if \<not> has_schedule row then Inr []
      else case sl_schedule_last_checked_at row of
        None \<Rightarrow> Inr []
      | Some last_at \<Rightarrow>
          (if last_at \<ge> now_utc then Inr []
           else if now_utc - last_at > MAX_CATCHUP then Inr []
           else
     (case resolve_timezone zones (or_empty (sl_schedule_timezone row)) of
        Inl e \<Rightarrow> Inl e
      | Inr z \<Rightarrow>
     (case normalize_days (or_empty (sl_schedule_days row)) of
        Inl e \<Rightarrow> Inl e
      | Inr days \<Rightarrow>
     (case parse_hhmm (or_empty (sl_suspend_at_local row)) of
        Inl e \<Rightarrow> Inl e
      | Inr sus \<Rightarrow>
     (case parse_hhmm (or_empty (sl_resume_at_local row)) of
        Inl e \<Rightarrow> Inl e
      | Inr res \<Rightarrow>
          (let cs = crossings SUSPEND allow sus z days last_at now_utc @
                    crossings RESUME allow res z days last_at now_utc
           in Inr (if cs = [] then [] else snd (last (sort_key crossing_key cs))))))))))"

section \<open>Rendering\<close>

definition en_dash :: string where
  "en_dash = [CHR 0xE2, CHR 0x80, CHR 0x93]"

fun join_comma :: "string list \<Rightarrow> string" where
  "join_comma [] = []"
| "join_comma [x] = x"
| "join_comma (x # y # xs) = x @ '', '' @ join_comma (y # xs)"

definition when_label :: "string \<Rightarrow> string" where
  "when_label days =
     (if days = DAYS_ALL then ''every day''
      else if days = DAYS_WEEKDAYS then ''Mon'' @ en_dash @ ''Fri''
      else join_comma (map fst (filter (\<lambda>(_, on). on = CHR ''1'') (zip DAY_LABELS days))))"

definition utc_if_blank :: "string option \<Rightarrow> string" where
  "utc_if_blank tz = (let s = py_strip (or_empty tz) in if s = [] then ''UTC'' else s)"

record sleep_view =
  sv_scheduled :: bool
  sv_summary :: string
  sv_suspend_at_local :: string
  sv_resume_at_local :: string
  sv_schedule_timezone :: string
  sv_schedule_days :: string

definition describe_sleep :: "sleep_row \<Rightarrow> schedule_error + sleep_view" where
  "describe_sleep row =
     (if \<not> has_schedule row
      then Inr \<lparr> sv_scheduled = False, sv_summary = [], sv_suspend_at_local = [],
                 sv_resume_at_local = [], sv_schedule_timezone = [], sv_schedule_days = [] \<rparr>
      else case normalize_days (or_empty (sl_schedule_days row)) of
        Inl e \<Rightarrow> Inl e
      | Inr days \<Rightarrow>
          (let tz_name = utc_if_blank (sl_schedule_timezone row);
               sus = py_strip (or_empty (sl_suspend_at_local row));
               res = py_strip (or_empty (sl_resume_at_local row));
               summary =
                 (if sus = [] then
                    ''Starts '' @ res @ '' '' @ when_label days @ '' ('' @ tz_name @ '')''
                  else
                    ''Suspends '' @ sus @ '' '' @ when_label days @ '' ('' @ tz_name @ '')'' @
                    (if res \<noteq> [] then '', resumes '' @ res else '', resume by hand''))
           in Inr \<lparr> sv_scheduled = True, sv_summary = summary, sv_suspend_at_local = sus,
                    sv_resume_at_local = res, sv_schedule_timezone = tz_name,
                    sv_schedule_days = days \<rparr>))"

section \<open>Parsed values are in range\<close>

lemma digit_val_range: "digit_val c = Some v \<Longrightarrow> 0 \<le> v \<and> v \<le> 9"
  by (auto simp: digit_val_def Let_def split: if_splits)

abbreviation wall_time :: "int \<Rightarrow> int \<Rightarrow> bool" where
  "wall_time h m \<equiv> 0 \<le> h \<and> h < 24 \<and> 0 \<le> m \<and> m < 60"

lemma hhmm_match_range: "hhmm_match s = Some (h, m) \<Longrightarrow> wall_time h m"
  by (induction s rule: hhmm_match.induct)
     (auto split: option.splits if_splits dest!: digit_val_range)

lemma parse_hhmm_range: "parse_hhmm s = Inr (Some (h, m)) \<Longrightarrow> wall_time h m"
  by (auto simp: parse_hhmm_def Let_def split: if_splits option.splits dest: hhmm_match_range)

lemma normalize_days_ok:
  assumes "normalize_days v = Inr days"
  shows "length days = 7" "CHR ''1'' \<in> set days"
  using assms by (auto simp: normalize_days_def Let_def DAYS_ALL_def split: if_splits)

lemma weekday_less [simp]: "weekday d < 7"
  by (simp add: weekday_def nat_less_iff)

lemma weekday_hit:
  assumes "i < 7"
  obtains d where "d0 < d" "d \<le> d0 + 7" "weekday d = i"
proof -
  define r where "r = (int i - d0 - 4) mod 7"
  have "(d0 + 1 + r + 3) mod 7 = ((d0 + 4) + (int i - d0 - 4) mod 7) mod 7"
    by (simp add: r_def algebra_simps)
  also have "\<dots> = ((d0 + 4) + (int i - d0 - 4)) mod 7" by (rule mod_add_right_eq)
  also have "\<dots> = int i" using assms by simp
  finally have "weekday (d0 + 1 + r) = i" by (simp add: weekday_def)
  moreover have "0 \<le> r" "r < 7" by (simp_all add: r_def)
  ultimately show thesis by (intro that[of "d0 + 1 + r"]) auto
qed

text \<open>A normalized mask selects a day in every seven.\<close>

lemma day_on_within_week:
  assumes "normalize_days v = Inr days"
  obtains d where "d0 < d" "d \<le> d0 + 7" "day_on days d"
proof -
  obtain i where "i < 7" "days ! i = CHR ''1''"
    using normalize_days_ok[OF assms] by (auto simp: in_set_conv_nth)
  moreover obtain d where "d0 < d" "d \<le> d0 + 7" "weekday d = i"
    using weekday_hit[OF \<open>i < 7\<close>] by blast
  ultimately show thesis by (intro that[of d]) (auto simp: day_on_def)
qed

section \<open>Regular zones\<close>

text \<open>
  What the local-day walks rely on: a wall-clock time on a later local day is a later instant;
  one whose day is at least two days back lies at least 22 hours back; the same time on two
  days is more than 22 hours apart. The IANA zones have these laws except around a change of
  the clock by more than two hours (a move across the date line) or one that repeats local
  midnight.
\<close>

definition short_day :: int where
  "short_day = seconds (22 * 3600)"

locale regular_zone =
  fixes z :: zone
  assumes later_day: "wall_time h m \<Longrightarrow> z_date z t < d \<Longrightarrow> t < z_utc z d h m"
    and two_days_back: "wall_time h m \<Longrightarrow> d + 1 < z_date z t \<Longrightarrow> z_utc z d h m + short_day \<le> t"
    and daily_gap: "wall_time h m \<Longrightarrow> d < d' \<Longrightarrow> z_utc z d h m + short_day < z_utc z d' h m"
begin

text \<open>The walk over the days finds every boundary of the interval.\<close>

lemma mem_boundaries:
  assumes "wall_time h m"
  shows "u \<in> set (boundaries (h, m) z days s e) \<longleftrightarrow>
    s < u \<and> u \<le> e \<and> (\<exists>d. day_on days d \<and> u = z_utc z d h m)"
proof -
  have "z_date z s - 1 \<le> d \<and> d \<le> z_date z e + 1" if "s < z_utc z d h m" "z_utc z d h m \<le> e" for d
    using two_days_back[OF assms, of d s] later_day[OF assms, of e d] that
    by (force simp: short_day_def seconds_def)
  then show ?thesis by (auto simp: boundaries_def)
qed

lemma utc_inj: "wall_time h m \<Longrightarrow> z_utc z d h m = z_utc z d' h m \<Longrightarrow> d = d'"
  using daily_gap[of h m d d'] daily_gap[of h m d' d]
  by (cases d d' rule: linorder_cases) (auto simp: short_day_def seconds_def)

lemma utc_less: "wall_time h m \<Longrightarrow> d < d' \<Longrightarrow> z_utc z d h m < z_utc z d' h m"
  using daily_gap[of h m d d'] by (simp add: short_day_def seconds_def)

end

text \<open>A zone a fixed number of seconds east of UTC.\<close>

definition fixed_zone :: "int \<Rightarrow> zone" where
  "fixed_zone off =
     \<lparr> z_date = (\<lambda>t. (t + seconds off) div seconds 86400),
       z_utc = (\<lambda>d h m. seconds (86400 * d + 3600 * h + 60 * m - off)) \<rparr>"

lemma UTC_ZONE_fixed: "UTC_ZONE = fixed_zone 0"
  by (simp add: UTC_ZONE_def fixed_zone_def)

lemma fixed_zone_utc: "z_utc (fixed_zone off) d h m = seconds (86400 * d + 3600 * h + 60 * m - off)"
  by (simp add: fixed_zone_def)

lemma fixed_zone_date:
  "seconds 86400 * z_date (fixed_zone off) t \<le> t + seconds off"
  "t + seconds off < seconds 86400 * (z_date (fixed_zone off) t + 1)"
proof -
  have "seconds 86400 * ((t + seconds off) div seconds 86400) + (t + seconds off) mod seconds 86400 =
      t + seconds off" by simp
  moreover have "0 \<le> (t + seconds off) mod seconds 86400" "(t + seconds off) mod seconds 86400 < seconds 86400"
    by (simp_all add: seconds_def)
  ultimately show "seconds 86400 * z_date (fixed_zone off) t \<le> t + seconds off"
    "t + seconds off < seconds 86400 * (z_date (fixed_zone off) t + 1)"
    unfolding fixed_zone_def zone.select_convs distrib_left mult_1_right by linarith+
qed

interpretation fixed: regular_zone "fixed_zone off" for off
proof unfold_locales
  fix h m t d :: int
  assume wt: "wall_time h m"
  show "t < z_utc (fixed_zone off) d h m" if "z_date (fixed_zone off) t < d"
  proof -
    from that have "seconds 86400 * (z_date (fixed_zone off) t + 1) \<le> seconds 86400 * d"
      by (simp add: seconds_def)
    with wt fixed_zone_date(2)[of t off] show ?thesis by (simp add: fixed_zone_utc seconds_def)
  qed
  show "z_utc (fixed_zone off) d h m + short_day \<le> t" if "d + 1 < z_date (fixed_zone off) t"
  proof -
    from that have "seconds 86400 * (d + 2) \<le> seconds 86400 * z_date (fixed_zone off) t"
      by (simp add: seconds_def)
    with wt fixed_zone_date(1)[of off t] show ?thesis
      by (simp add: fixed_zone_utc seconds_def short_day_def)
  qed
next
  fix h m d d' :: int
  assume "wall_time h m" "d < d'"
  then show "z_utc (fixed_zone off) d h m + short_day < z_utc (fixed_zone off) d' h m"
    by (simp add: fixed_zone_utc seconds_def short_day_def)
qed

interpretation utc: regular_zone UTC_ZONE
  unfolding UTC_ZONE_fixed by (rule fixed.regular_zone_axioms)

section \<open>The last boundary decides\<close>

text \<open>
  A reference account of the boundaries an evaluation has to answer for: the wall-clock times of
  all selected local days, over the whole calendar, that lie after the latch and not after now.
\<close>

definition crosses ::
  "zone \<Rightarrow> string \<Rightarrow> string set \<Rightarrow> (int \<times> int) option \<Rightarrow> (int \<times> int) option \<Rightarrow>
     instant \<Rightarrow> instant \<Rightarrow> instant \<Rightarrow> string \<Rightarrow> bool" where
  "crosses z days allow sus res last_at now u verb \<longleftrightarrow>
     last_at < u \<and> u \<le> now \<and> verb \<in> allow \<and>
     (\<exists>d h m. day_on days d \<and> u = z_utc z d h m \<and>
        (verb = SUSPEND \<and> sus = Some (h, m) \<or> verb = RESUME \<and> res = Some (h, m)))"

lemma crossings_mem:
  assumes "regular_zone z" and "\<And>h m. hm = Some (h, m) \<Longrightarrow> wall_time h m"
  shows "(u, v) \<in> set (crossings verb allow hm z days s e) \<longleftrightarrow>
    v = verb \<and> verb \<in> allow \<and> s < u \<and> u \<le> e \<and>
    (\<exists>d h m. day_on days d \<and> u = z_utc z d h m \<and> hm = Some (h, m))"
proof (cases hm)
  case (Some p)
  then obtain h m where "hm = Some (h, m)" by (cases p) auto
  with assms(2) regular_zone.mem_boundaries[OF assms(1), of h m u days s e] show ?thesis
    by (auto simp: crossings_def image_iff simp del: split_paired_Ex)
qed (auto simp: crossings_def)

lemma last_sort_key_max:
  assumes "xs \<noteq> []"
  shows "last (sort_key f xs) \<in> set xs" and "x \<in> set xs \<Longrightarrow> f x \<le> f (last (sort_key f xs))"
proof -
  have "sort_key f xs \<noteq> []" using assms by (metis set_empty set_sort)
  then show "last (sort_key f xs) \<in> set xs" using last_in_set by (metis set_sort)
  show "f x \<le> f (last (sort_key f xs))" if "x \<in> set xs"
    using sorted_le_last[of f "sort_key f xs" x] that by simp
qed

text \<open>
  C25. A schedule that is due for an evaluation (it has a time, a latch in the past and not
  older than 25 hours, a known regular zone, readable days and times) answers with a verb. The
  verb is empty exactly when no boundary of a selected day was crossed since the latch;
  otherwise it belongs to the last boundary crossed, the suspend one where two coincide.
\<close>

theorem due_action_last_crossing:
  assumes "has_schedule row" and "sl_schedule_last_checked_at row = Some last_at"
    and "last_at < now" and "now - last_at \<le> MAX_CATCHUP"
    and "resolve_timezone zones (or_empty (sl_schedule_timezone row)) = Inr z" and z: "regular_zone z"
    and "normalize_days (or_empty (sl_schedule_days row)) = Inr days"
    and sus: "parse_hhmm (or_empty (sl_suspend_at_local row)) = Inr sus"
    and res: "parse_hhmm (or_empty (sl_resume_at_local row)) = Inr res"
  shows "\<exists>v. due_action zones row now allow = Inr v \<and>
    (if \<exists>u w. crosses z days allow sus res last_at now u w
     then \<exists>u. crosses z days allow sus res last_at now u v \<and>
       (\<forall>u' v'. crosses z days allow sus res last_at now u' v' \<longrightarrow>
          u' < u \<or> u' = u \<and> (v' = v \<or> v = SUSPEND))
     else v = [])"
proof -
  let ?cs = "crossings SUSPEND allow sus z days last_at now @ crossings RESUME allow res z days last_at now"
  have sw: "\<And>h m. sus = Some (h, m) \<Longrightarrow> wall_time h m" and rw: "\<And>h m. res = Some (h, m) \<Longrightarrow> wall_time h m"
    using sus res parse_hhmm_range by blast+
  have mem: "(u, w) \<in> set ?cs \<longleftrightarrow> crosses z days allow sus res last_at now u w" for u w
    using crossings_mem[OF z, of sus u w SUSPEND allow days last_at now]
      crossings_mem[OF z, of res u w RESUME allow days last_at now] sw rw
    unfolding set_append Un_iff crosses_def by blast
  let ?v = "if ?cs = [] then [] else snd (last (sort_key crossing_key ?cs))"
  have due: "due_action zones row now allow = Inr ?v"
    using assms by (simp add: due_action_def Let_def)
  show ?thesis
  proof (cases "?cs = []")
    case True
    then have "\<not> crosses z days allow sus res last_at now u w" for u w using mem[of u w] by simp
    with due True show ?thesis by simp
  next
    case False
    obtain u v where uv: "last (sort_key crossing_key ?cs) = (u, v)" by (cases "last (sort_key crossing_key ?cs)")
    have cr: "crosses z days allow sus res last_at now u v"
      using last_sort_key_max(1)[OF False, of crossing_key] uv mem by metis
    have "u' < u \<or> u' = u \<and> (v' = v \<or> v = SUSPEND)"
      if "crosses z days allow sus res last_at now u' v'" for u' v'
    proof -
      have "crossing_key (u', v') \<le> crossing_key (u, v)"
        using last_sort_key_max(2)[OF False, of "(u', v')" crossing_key] uv that mem by metis
      then show ?thesis using that cr by (auto simp: crossing_key_def crosses_def split: if_splits)
    qed
    with cr due False uv show ?thesis by auto
  qed
qed

text \<open>
  A schedule of 19:00 and 07:00 in a zone five hours behind UTC, last looked at on day 3 at
  noon UTC and evaluated 24 hours later. The suspend boundary (day 4, 00:00 UTC) and the resume
  boundary (day 3, 12:00 UTC is the latch itself; day 4, 12:00 UTC) make it resume.
\<close>

definition sample_sleep :: sleep_row where
  "sample_sleep =
     \<lparr> sl_suspend_at_local = Some ''19:00'', sl_resume_at_local = Some ''07:00'',
       sl_schedule_timezone = Some ''America/Bogota'', sl_schedule_days = None,
       sl_schedule_last_checked_at = Some (seconds (86400 * 3 + 43200)) \<rparr>"

definition sample_zones :: "string \<Rightarrow> zone option" where
  "sample_zones n = (if n = ''America/Bogota'' then Some (fixed_zone (- 18000)) else None)"

theorem due_action_last_crossing_witness:
  "\<exists>v. due_action sample_zones sample_sleep (seconds (86400 * 4 + 43200)) {SUSPEND, RESUME} = Inr v \<and>
     v = RESUME \<and>
     (if \<exists>u w. crosses (fixed_zone (- 18000)) DAYS_ALL {SUSPEND, RESUME} (Some (19, 0)) (Some (7, 0))
           (seconds (86400 * 3 + 43200)) (seconds (86400 * 4 + 43200)) u w
      then \<exists>u. crosses (fixed_zone (- 18000)) DAYS_ALL {SUSPEND, RESUME} (Some (19, 0)) (Some (7, 0))
           (seconds (86400 * 3 + 43200)) (seconds (86400 * 4 + 43200)) u v \<and>
        (\<forall>u' v'. crosses (fixed_zone (- 18000)) DAYS_ALL {SUSPEND, RESUME} (Some (19, 0)) (Some (7, 0))
           (seconds (86400 * 3 + 43200)) (seconds (86400 * 4 + 43200)) u' v' \<longrightarrow>
           u' < u \<or> u' = u \<and> (v' = v \<or> v = SUSPEND))
      else v = [])"
proof -
  have now: "due_action sample_zones sample_sleep (seconds (86400 * 4 + 43200)) {SUSPEND, RESUME} = Inr RESUME"
    by code_simp
  have tz: "resolve_timezone sample_zones (or_empty (sl_schedule_timezone sample_sleep)) =
      Inr (fixed_zone (- 18000))"
    by (simp add: sample_sleep_def sample_zones_def resolve_timezone_def py_strip_def is_space_def)
  have row: "has_schedule sample_sleep"
    "sl_schedule_last_checked_at sample_sleep = Some (seconds (86400 * 3 + 43200))"
    "seconds (86400 * 3 + 43200) < seconds (86400 * 4 + 43200)"
    "seconds (86400 * 4 + 43200) - seconds (86400 * 3 + 43200) \<le> MAX_CATCHUP"
    "normalize_days (or_empty (sl_schedule_days sample_sleep)) = Inr DAYS_ALL"
    "parse_hhmm (or_empty (sl_suspend_at_local sample_sleep)) = Inr (Some (19, 0))"
    "parse_hhmm (or_empty (sl_resume_at_local sample_sleep)) = Inr (Some (7, 0))"
    by code_simp+
  from due_action_last_crossing[OF row(1-4) tz fixed.regular_zone_axioms row(5-7), of "{SUSPEND, RESUME}"] now
  show ?thesis by (metis (no_types, lifting) Inr_inject)
qed

end
