(* ===== verification/Change_Window.thy ===== *)
theory Change_Window
  imports Suspend_Schedule
begin

text \<open>
  \<open>services/change_window.py\<close> and \<open>services/change_window_service.py\<close>: the validation of a
  recurring change window, its next occurrence as a pair of instants, whether an instant lies in
  it, its rendering, and \<open>resolve\<close>, which turns the scheduling choice of a run form into the
  instants stamped onto a job row.

  The loop of \<open>next_occurrence\<close> runs over \<open>range(_SEARCH_DAYS + 1)\<close> and is a recursion on the
  number of days left. \<open>datetime.fromisoformat\<close> is a parameter: it yields nothing (a
  \<open>ValueError\<close>), an instant when the text carries an offset, or a local day, hour and minute
  with the microseconds into that minute.
\<close>

record change_window =
  cw_id :: string
  cw_name :: string
  cw_start_at_local :: "string option"
  cw_duration_minutes :: "int option"
  cw_timezone :: "string option"
  cw_schedule_days :: "string option"
  cw_enabled :: "bool option"

section \<open>Policy\<close>

definition MIN_DURATION_MINUTES :: int where
  "MIN_DURATION_MINUTES = 1"

definition MAX_DURATION_MINUTES :: int where
  "MAX_DURATION_MINUTES = 7 * 24 * 60"

definition SEARCH_DAYS :: nat where
  "SEARCH_DAYS = 8"

record window_form =
  wf_name :: string
  wf_start_at_local :: string
  wf_duration_minutes :: int
  wf_timezone :: "string option"
  wf_schedule_days :: string

definition validate_window ::
  "(string \<Rightarrow> zone option) \<Rightarrow> string \<Rightarrow> string \<Rightarrow> pyval \<Rightarrow> string \<Rightarrow> string \<Rightarrow> schedule_error + window_form" where
  "validate_window zones name start_at_local duration tz_name days =
     (let clean_name = py_strip name
      in if clean_name = [] then Inl NoName
         else
     (case parse_hhmm start_at_local of
        Inl e \<Rightarrow> Inl e
      | Inr None \<Rightarrow> Inl NoStartTime
      | Inr (Some _) \<Rightarrow>
     (case py_int duration of
        None \<Rightarrow> Inl NotMinutes
      | Some mins \<Rightarrow>
          (if mins < MIN_DURATION_MINUTES then Inl ZeroLength
           else if mins > MAX_DURATION_MINUTES then Inl LongerThanAWeek
           else
     (case resolve_timezone zones tz_name of
        Inl e \<Rightarrow> Inl e
      | Inr _ \<Rightarrow>
     (case normalize_days days of
        Inl e \<Rightarrow> Inl e
      | Inr ds \<Rightarrow>
          Inr \<lparr> wf_name = clean_name, wf_start_at_local = py_strip start_at_local,
                wf_duration_minutes = mins, wf_timezone = or_none (Some (py_strip tz_name)),
                wf_schedule_days = ds \<rparr>))))))"

fun walk_days ::
  "zone \<Rightarrow> string \<Rightarrow> int \<Rightarrow> int \<Rightarrow> int \<Rightarrow> instant \<Rightarrow> nat \<Rightarrow> int \<Rightarrow> (instant \<times> instant) option" where
  "walk_days z days h m duration after 0 day = None"
| "walk_days z days h m duration after (Suc n) day =
     (if day_on days day \<and> z_utc z day h m + duration > after
      then Some (z_utc z day h m, z_utc z day h m + duration)
      else walk_days z days h m duration after n (day + 1))"

definition next_occurrence ::
  "(string \<Rightarrow> zone option) \<Rightarrow> change_window \<Rightarrow> instant \<Rightarrow> schedule_error + (instant \<times> instant)" where
  "next_occurrence zones w after =
     (case resolve_timezone zones (or_empty (cw_timezone w)) of
        Inl e \<Rightarrow> Inl e
      | Inr z \<Rightarrow>
     (case normalize_days (or_empty (cw_schedule_days w)) of
        Inl e \<Rightarrow> Inl e
      | Inr days \<Rightarrow>
     (case parse_hhmm (or_empty (cw_start_at_local w)) of
        Inl e \<Rightarrow> Inl e
      | Inr None \<Rightarrow> Inl RowWithoutStart
      | Inr (Some (h, m)) \<Rightarrow>
          (let duration = minutes (case cw_duration_minutes w of None \<Rightarrow> 0 | Some n \<Rightarrow> n)
           in if duration \<le> 0 then Inl RowWithoutDuration
              else (case walk_days z days h m duration after (SEARCH_DAYS + 1) (z_date z after - 1) of
                      None \<Rightarrow> Inl NoOccurrence
                    | Some occ \<Rightarrow> Inr occ)))))"

definition occurrence_covering :: "(string \<Rightarrow> zone option) \<Rightarrow> change_window \<Rightarrow> instant \<Rightarrow> bool" where
  "occurrence_covering zones w at_utc =
     (case next_occurrence zones w (at_utc - seconds 1) of
        Inl _ \<Rightarrow> False
      | Inr (s, e) \<Rightarrow> s \<le> at_utc \<and> at_utc < e)"

text \<open>Labels: \<open>divmod\<close> rounds down; \<open>{hour:02d}\<close> pads with a zero.\<close>

definition format_duration :: "int \<Rightarrow> string" where
  "format_duration mins =
     (let hours = mins div 60; rest = mins mod 60
      in if hours \<noteq> 0 \<and> rest \<noteq> 0 then py_str_int hours @ ''h '' @ py_str_int rest @ ''m''
         else if hours \<noteq> 0 then py_str_int hours @ ''h''
         else py_str_int rest @ ''m'')"

definition pad2 :: "int \<Rightarrow> string" where
  "pad2 n = (if 0 \<le> n \<and> n < 10 then ''0'' @ py_str_int n else py_str_int n)"

definition end_label :: "string \<Rightarrow> int \<Rightarrow> schedule_error + string" where
  "end_label start_at_local mins =
     (case parse_hhmm start_at_local of
        Inl e \<Rightarrow> Inl e
      | Inr None \<Rightarrow> Inr ''?''
      | Inr (Some (h, m)) \<Rightarrow>
          (let total = h * 60 + m + mins;
               day_offset = total div (24 * 60);
               into_day = total mod (24 * 60);
               label = pad2 (into_day div 60) @ '':'' @ pad2 (into_day mod 60)
           in Inr (if day_offset \<noteq> 0 then label @ '' (+'' @ py_str_int day_offset @ ''d)'' else label)))"

record window_view =
  wv_name :: string
  wv_summary :: string
  wv_start_at_local :: string
  wv_duration_minutes :: int
  wv_timezone :: string
  wv_schedule_days :: string
  wv_enabled :: bool

definition describe_window :: "change_window \<Rightarrow> schedule_error + window_view" where
  "describe_window w =
     (case normalize_days (or_empty (cw_schedule_days w)) of
        Inl e \<Rightarrow> Inl e
      | Inr days \<Rightarrow>
          (let tz_name = utc_if_blank (cw_timezone w);
               start = py_strip (or_empty (cw_start_at_local w));
               mins = (case cw_duration_minutes w of None \<Rightarrow> 0 | Some n \<Rightarrow> n)
           in case end_label start mins of
                Inl e \<Rightarrow> Inl e
              | Inr till \<Rightarrow>
                  Inr \<lparr> wv_name = cw_name w,
                        wv_summary = when_label days @ '' '' @ start @ en_dash @ till @ '' ('' @ tz_name @
                          ''), '' @ format_duration mins,
                        wv_start_at_local = start, wv_duration_minutes = mins, wv_timezone = tz_name,
                        wv_schedule_days = days, wv_enabled = (cw_enabled w \<noteq> Some False) \<rparr>))"

section \<open>The service over the stored windows\<close>

definition MAX_LEAD_DAYS :: int where
  "MAX_LEAD_DAYS = 730"

definition DEFAULT_GRACE_MINUTES :: int where
  "DEFAULT_GRACE_MINUTES = 60"

text \<open>
  \<open>int(config_service.get(key, "") or default)\<close> inside a \<open>try\<close>: an unreadable store and a
  malformed value both give the default.
\<close>

definition config_int_or :: "config \<Rightarrow> string \<Rightarrow> int \<Rightarrow> int" where
  "config_int_or cfg key dflt =
     (case config_get cfg key [] of
        None \<Rightarrow> dflt
      | Some [] \<Rightarrow> dflt
      | Some s \<Rightarrow> (case py_int_of_string s of None \<Rightarrow> dflt | Some i \<Rightarrow> i))"

definition window_grace_minutes :: "config \<Rightarrow> int" where
  "window_grace_minutes cfg = max 1 (config_int_or cfg ''change_window_grace_minutes'' DEFAULT_GRACE_MINUTES)"

definition approval_required_default :: "config \<Rightarrow> bool" where
  "approval_required_default cfg =
     (case config_get_bool cfg ''change_approval_required'' False of None \<Rightarrow> False | Some b \<Rightarrow> b)"

definition allow_self_approval :: "config \<Rightarrow> bool" where
  "allow_self_approval cfg =
     (case config_get_bool cfg ''change_approval_allow_self'' False of None \<Rightarrow> False | Some b \<Rightarrow> b)"

definition get_window :: "change_window list \<Rightarrow> string \<Rightarrow> change_window option" where
  "get_window windows wid =
     (if wid = [] then None else List.find (\<lambda>w. cw_id w = wid) windows)"

datatype run_at_text = NotADate | WithOffset instant | LocalTime int int int int

definition parse_run_at ::
  "(string \<Rightarrow> zone option) \<Rightarrow> (string \<Rightarrow> run_at_text) \<Rightarrow> string \<Rightarrow> string \<Rightarrow> schedule_error + instant" where
  "parse_run_at zones fromisoformat run_at tz_name =
     (let raw0 = map (\<lambda>c. if c = CHR '' '' then CHR ''T'' else c) (py_strip run_at);
          raw = (if raw0 \<noteq> [] \<and> last raw0 = CHR ''Z'' then butlast raw0 else raw0)
      in case fromisoformat raw of
           NotADate \<Rightarrow> Inl (BadRunAt run_at)
         | WithOffset t \<Rightarrow> Inr t
         | LocalTime d h m us \<Rightarrow>
             (case resolve_timezone zones tz_name of
                Inl e \<Rightarrow> Inl e
              | Inr z \<Rightarrow> Inr (z_utc z d h m + us)))"

definition check_lead :: "instant \<Rightarrow> instant \<Rightarrow> schedule_error option" where
  "check_lead at_utc now =
     (if at_utc \<le> now then Some (InThePast at_utc)
      else if at_utc > now + seconds (86400 * MAX_LEAD_DAYS) then Some (TooFarAhead at_utc)
      else None)"

record booking =
  bk_scheduled_for :: "instant option"
  bk_window_ends_at :: "instant option"
  bk_change_window_id :: "string option"

definition run_now :: booking where
  "run_now = \<lparr> bk_scheduled_for = None, bk_window_ends_at = None, bk_change_window_id = None \<rparr>"

definition resolve_at ::
  "(string \<Rightarrow> zone option) \<Rightarrow> config \<Rightarrow> change_window option \<Rightarrow> instant \<Rightarrow> instant \<Rightarrow> schedule_error + booking" where
  "resolve_at zones cfg window at_utc now =
     (case check_lead at_utc now of
        Some e \<Rightarrow> Inl e
      | None \<Rightarrow>
     (case window of
        None \<Rightarrow>
          Inr \<lparr> bk_scheduled_for = Some at_utc,
                bk_window_ends_at = Some (at_utc + minutes (window_grace_minutes cfg)),
                bk_change_window_id = None \<rparr>
      | Some w \<Rightarrow>
          (if \<not> occurrence_covering zones w at_utc then
             (case describe_window w of
                Inl e \<Rightarrow> Inl e
              | Inr v \<Rightarrow> Inl (OutsideWindow at_utc (cw_name w) (wv_summary v)))
           else
     (case next_occurrence zones w (at_utc - seconds 1) of
        Inl e \<Rightarrow> Inl e
      | Inr (_, e) \<Rightarrow>
          Inr \<lparr> bk_scheduled_for = Some at_utc, bk_window_ends_at = Some e,
                bk_change_window_id = Some (cw_id w) \<rparr>))))"

definition resolve ::
  "(string \<Rightarrow> zone option) \<Rightarrow> (string \<Rightarrow> run_at_text) \<Rightarrow> config \<Rightarrow> change_window list \<Rightarrow>
     string \<Rightarrow> string \<Rightarrow> string \<Rightarrow> instant \<Rightarrow> schedule_error + booking" where
  "resolve zones fromisoformat cfg windows run_at run_timezone change_window_id now =
     (let window = get_window windows change_window_id
      in if change_window_id \<noteq> [] \<and> window = None then Inl WindowGone
         else
     (case window of
        Some w \<Rightarrow>
          (if cw_enabled w = Some False then Inl (WindowDisabled (cw_name w))
           else if py_strip run_at = [] then
             (case next_occurrence zones w now of
                Inl e \<Rightarrow> Inl e
              | Inr (s, e) \<Rightarrow>
                  Inr \<lparr> bk_scheduled_for = Some s, bk_window_ends_at = Some e,
                        bk_change_window_id = Some (cw_id w) \<rparr>)
           else (case parse_run_at zones fromisoformat run_at run_timezone of
                   Inl e \<Rightarrow> Inl e
                 | Inr at_utc \<Rightarrow> resolve_at zones cfg (Some w) at_utc now))
      | None \<Rightarrow>
          (if py_strip run_at = [] then Inr run_now
           else (case parse_run_at zones fromisoformat run_at run_timezone of
                   Inl e \<Rightarrow> Inl e
                 | Inr at_utc \<Rightarrow> resolve_at zones cfg None at_utc now))))"

text \<open>
  \<open>schedule_kwargs\<close>: no arguments at all for an immediate run; an error is the HTTP 400 of the
  caller.
\<close>

definition schedule_kwargs ::
  "(string \<Rightarrow> zone option) \<Rightarrow> (string \<Rightarrow> run_at_text) \<Rightarrow> config \<Rightarrow> change_window list \<Rightarrow>
     string \<Rightarrow> string \<Rightarrow> string \<Rightarrow> instant \<Rightarrow> schedule_error + (booking \<times> bool) option" where
  "schedule_kwargs zones fromisoformat cfg windows run_at run_timezone change_window_id now =
     (case resolve zones fromisoformat cfg windows run_at run_timezone change_window_id now of
        Inl e \<Rightarrow> Inl e
      | Inr b \<Rightarrow>
          Inr (if bk_scheduled_for b = None then None
               else Some (b, approval_required_default cfg)))"

section \<open>The walk over the days\<close>

lemma walk_days_Some:
  "walk_days z days h m dur after n d0 = Some occ \<Longrightarrow>
     \<exists>d. d0 \<le> d \<and> d < d0 + int n \<and> day_on days d \<and> occ = (z_utc z d h m, z_utc z d h m + dur) \<and>
       after < z_utc z d h m + dur \<and>
       (\<forall>d'. d0 \<le> d' \<and> d' < d \<and> day_on days d' \<longrightarrow> z_utc z d' h m + dur \<le> after)"
proof (induction n arbitrary: d0)
  case (Suc n)
  show ?case
  proof (cases "day_on days d0 \<and> z_utc z d0 h m + dur > after")
    case True
    with Suc.prems show ?thesis by (intro exI[of _ d0]) auto
  next
    case False
    with Suc.prems Suc.IH[of "d0 + 1"] obtain d where d: "d0 + 1 \<le> d" "d < d0 + 1 + int n" "day_on days d"
      "occ = (z_utc z d h m, z_utc z d h m + dur)" "after < z_utc z d h m + dur"
      "\<forall>d'. d0 + 1 \<le> d' \<and> d' < d \<and> day_on days d' \<longrightarrow> z_utc z d' h m + dur \<le> after"
      by auto
    moreover have "z_utc z d' h m + dur \<le> after" if "d0 \<le> d'" "d' < d" "day_on days d'" for d'
      using that d(6) False by (cases "d' = d0") auto
    ultimately show ?thesis by (intro exI[of _ d]) auto
  qed
qed simp

lemma walk_days_None:
  "walk_days z days h m dur after n d0 = None \<Longrightarrow> d0 \<le> d \<Longrightarrow> d < d0 + int n \<Longrightarrow> day_on days d \<Longrightarrow>
     z_utc z d h m + dur \<le> after"
proof (induction n arbitrary: d0)
  case (Suc n)
  then show ?case by (cases "d = d0") (auto split: if_splits)
qed simp

text \<open>An occurrence of a stored window: the start of a selected local day, and the duration.\<close>

definition occurrence ::
  "(string \<Rightarrow> zone option) \<Rightarrow> change_window \<Rightarrow> instant \<Rightarrow> instant \<Rightarrow> bool" where
  "occurrence zones w s e \<longleftrightarrow>
     (\<exists>z days h m n d. resolve_timezone zones (or_empty (cw_timezone w)) = Inr z \<and>
        normalize_days (or_empty (cw_schedule_days w)) = Inr days \<and>
        parse_hhmm (or_empty (cw_start_at_local w)) = Inr (Some (h, m)) \<and>
        cw_duration_minutes w = Some n \<and> 0 < n \<and> day_on days d \<and>
        s = z_utc z d h m \<and> e = s + minutes n)"

lemma minutes_pos [simp]: "0 < minutes n \<longleftrightarrow> 0 < n"
  by (simp add: minutes_def)

lemma next_occurrence_sound:
  assumes "next_occurrence zones w after = Inr (s, e)"
  shows "occurrence zones w s e" and "after < e" and "s < e"
proof -
  obtain z days h m where *: "resolve_timezone zones (or_empty (cw_timezone w)) = Inr z"
    "normalize_days (or_empty (cw_schedule_days w)) = Inr days"
    "parse_hhmm (or_empty (cw_start_at_local w)) = Inr (Some (h, m))"
    and dur: "0 < minutes (case cw_duration_minutes w of None \<Rightarrow> 0 | Some n \<Rightarrow> n)"
    and walk: "walk_days z days h m (minutes (case cw_duration_minutes w of None \<Rightarrow> 0 | Some n \<Rightarrow> n))
      after (SEARCH_DAYS + 1) (z_date z after - 1) = Some (s, e)"
    using assms unfolding next_occurrence_def Let_def
    by (auto split: sum.splits option.splits prod.splits if_splits simp del: walk_days.simps minutes_pos)
  then obtain n where n: "cw_duration_minutes w = Some n" "0 < n"
    by (cases "cw_duration_minutes w") auto
  from walk_days_Some[OF walk] n * show "occurrence zones w s e" "after < e" "s < e"
    unfolding occurrence_def by auto
qed

text \<open>The facts a stored window needs to have occurrences, and its reading as a walk.\<close>

definition window_reads ::
  "(string \<Rightarrow> zone option) \<Rightarrow> change_window \<Rightarrow> zone \<Rightarrow> string \<Rightarrow> int \<Rightarrow> int \<Rightarrow> int \<Rightarrow> bool" where
  "window_reads zones w z days h m n \<longleftrightarrow>
     resolve_timezone zones (or_empty (cw_timezone w)) = Inr z \<and>
     normalize_days (or_empty (cw_schedule_days w)) = Inr days \<and>
     parse_hhmm (or_empty (cw_start_at_local w)) = Inr (Some (h, m)) \<and>
     cw_duration_minutes w = Some n \<and> 0 < n"

lemma window_reads_wall: "window_reads zones w z days h m n \<Longrightarrow> wall_time h m"
  unfolding window_reads_def by (blast dest: parse_hhmm_range)

lemma next_occurrence_walk:
  assumes "window_reads zones w z days h m n"
  shows "next_occurrence zones w after =
    (case walk_days z days h m (minutes n) after (SEARCH_DAYS + 1) (z_date z after - 1) of
       None \<Rightarrow> Inl NoOccurrence | Some occ \<Rightarrow> Inr occ)"
proof -
  have "0 < minutes n" using assms by (simp add: window_reads_def)
  then have "\<not> minutes n \<le> 0" by linarith
  then show ?thesis using assms by (simp add: window_reads_def next_occurrence_def Let_def)
qed

context regular_zone
begin

lemma walk_finds:
  assumes "wall_time h m" and "0 < dur" and "normalize_days v = Inr days"
  obtains occ where
    "walk_days z days h m dur after (SEARCH_DAYS + 1) (z_date z after - 1) = Some occ"
proof (cases "walk_days z days h m dur after (SEARCH_DAYS + 1) (z_date z after - 1)")
  case None
  obtain d where d: "z_date z after < d" "d \<le> z_date z after + 7" "day_on days d"
    using day_on_within_week[OF assms(3)] by blast
  then have "z_utc z d h m + dur \<le> after"
    using walk_days_None[OF None] by (simp add: SEARCH_DAYS_def)
  moreover have "after < z_utc z d h m" using later_day[OF assms(1) d(1)] .
  ultimately show thesis using assms(2) by simp
qed (use that in blast)

text \<open>A window of at most 22 hours that opened two local days back has closed.\<close>

lemma short_closed:
  assumes "wall_time h m" and "minutes n \<le> short_day" and "d' < z_date z after - 1"
  shows "z_utc z d' h m + minutes n \<le> after"
  using two_days_back[OF assms(1), of d' after] assms(2,3) by linarith

lemma first_open_day:
  assumes w: "window_reads zones w z days h m n"
  shows "\<exists>d. next_occurrence zones w after = Inr (z_utc z d h m, z_utc z d h m + minutes n) \<and>
    day_on days d \<and> z_date z after - 1 \<le> d \<and> d \<le> z_date z after + 7 \<and>
    after < z_utc z d h m + minutes n \<and>
    (\<forall>d' < d. day_on days d' \<and> (minutes n \<le> short_day \<or> z_date z after - 1 \<le> d') \<longrightarrow>
       z_utc z d' h m + minutes n \<le> after)"
proof -
  note wt = window_reads_wall[OF w]
  from w have n: "0 < minutes n" and nd: "normalize_days (or_empty (cw_schedule_days w)) = Inr days"
    by (simp_all add: window_reads_def)
  obtain occ where occ:
    "walk_days z days h m (minutes n) after (SEARCH_DAYS + 1) (z_date z after - 1) = Some occ"
    using walk_finds[OF wt n nd] by blast
  from walk_days_Some[OF occ] obtain d where d:
    "z_date z after - 1 \<le> d" "d < z_date z after - 1 + int (SEARCH_DAYS + 1)" "day_on days d"
    "occ = (z_utc z d h m, z_utc z d h m + minutes n)" "after < z_utc z d h m + minutes n"
    "\<forall>d'. z_date z after - 1 \<le> d' \<and> d' < d \<and> day_on days d' \<longrightarrow> z_utc z d' h m + minutes n \<le> after"
    by blast
  have "z_utc z d' h m + minutes n \<le> after"
    if "d' < d" "day_on days d'" "minutes n \<le> short_day \<or> z_date z after - 1 \<le> d'" for d'
    using that d(6) short_closed[OF wt, of n d' after] by (cases "z_date z after - 1 \<le> d'") auto
  with d occ next_occurrence_walk[OF w, of after] show ?thesis
    by (intro exI[of _ d]) (auto simp: SEARCH_DAYS_def)
qed

end

section \<open>Occurrences\<close>

text \<open>
  C24. A window that can be read in a regular zone always has a next occurrence, no more than
  seven local days ahead, and it is the first one a job could still use: it falls on a selected
  day, it has not closed, and every earlier occurrence has closed already, where "every" ranges
  over all days for windows of up to 22 hours and over the days from yesterday on for longer
  ones.
\<close>

theorem next_occurrence_first:
  assumes w: "window_reads zones w z days h m n" and "regular_zone z"
  shows "\<exists>d. next_occurrence zones w after = Inr (z_utc z d h m, z_utc z d h m + minutes n) \<and>
    day_on days d \<and> d \<le> z_date z after + 7 \<and> after < z_utc z d h m + minutes n \<and>
    (\<forall>d' < d. day_on days d' \<and> (minutes n \<le> short_day \<or> z_date z after - 1 \<le> d') \<longrightarrow>
       z_utc z d' h m + minutes n \<le> after)"
  using regular_zone.first_open_day[OF assms(2) w, of after] by (elim exE conjE) (intro exI conjI)

definition sample_window :: change_window where
  "sample_window =
     \<lparr> cw_id = ''w1'', cw_name = ''Prod Weekend'', cw_start_at_local = Some ''02:00'',
       cw_duration_minutes = Some 240, cw_timezone = Some ''America/Bogota'',
       cw_schedule_days = Some ''0000010'', cw_enabled = Some True \<rparr>"

lemma sample_window_reads:
  "window_reads sample_zones sample_window (fixed_zone (- 18000)) ''0000010'' 2 0 240"
proof -
  have "normalize_days (or_empty (cw_schedule_days sample_window)) = Inr ''0000010''"
    "parse_hhmm (or_empty (cw_start_at_local sample_window)) = Inr (Some (2, 0))" by code_simp+
  moreover have "resolve_timezone sample_zones (or_empty (cw_timezone sample_window)) = Inr (fixed_zone (- 18000))"
    by (simp add: sample_window_def sample_zones_def resolve_timezone_def py_strip_def is_space_def)
  ultimately show ?thesis by (simp add: window_reads_def sample_window_def)
qed

text \<open>Day 2 is Saturday, 3 January 1970: from noon of day 1 the window opens at 07:00 UTC of day 2.\<close>

theorem next_occurrence_first_witness:
  "next_occurrence sample_zones sample_window (seconds (86400 + 43200)) =
     Inr (seconds (2 * 86400 + 7 * 3600), seconds (2 * 86400 + 11 * 3600)) \<and>
   (\<exists>d. next_occurrence sample_zones sample_window (seconds (86400 + 43200)) =
      Inr (z_utc (fixed_zone (- 18000)) d 2 0, z_utc (fixed_zone (- 18000)) d 2 0 + minutes 240) \<and>
     day_on ''0000010'' d)"
proof
  show "next_occurrence sample_zones sample_window (seconds (86400 + 43200)) =
     Inr (seconds (2 * 86400 + 7 * 3600), seconds (2 * 86400 + 11 * 3600))" by code_simp
  show "\<exists>d. next_occurrence sample_zones sample_window (seconds (86400 + 43200)) =
      Inr (z_utc (fixed_zone (- 18000)) d 2 0, z_utc (fixed_zone (- 18000)) d 2 0 + minutes 240) \<and>
     day_on ''0000010'' d"
    using next_occurrence_first[OF sample_window_reads fixed.regular_zone_axioms] by blast
qed

text \<open>
  For windows shorter than 22 hours the check of a hand-typed time is exact: the instant is
  accepted exactly when it lies in an occurrence.
\<close>

lemma occurrence_covering_exact:
  assumes w: "window_reads zones w z days h m n" and z: "regular_zone z"
    and short: "minutes n + seconds 1 \<le> short_day"
  shows "occurrence_covering zones w t \<longleftrightarrow>
    (\<exists>d. day_on days d \<and> z_utc z d h m \<le> t \<and> t < z_utc z d h m + minutes n)"
proof -
  note wt = window_reads_wall[OF w]
  have sec: "0 < seconds 1" by simp
  obtain d where d: "next_occurrence zones w (t - seconds 1) = Inr (z_utc z d h m, z_utc z d h m + minutes n)"
    "day_on days d" "t - seconds 1 < z_utc z d h m + minutes n"
    and closed: "\<forall>d' < d. day_on days d' \<and> (minutes n \<le> short_day \<or> z_date z (t - seconds 1) - 1 \<le> d') \<longrightarrow>
       z_utc z d' h m + minutes n \<le> t - seconds 1"
    using regular_zone.first_open_day[OF z w, of "t - seconds 1"] by (elim exE conjE)
  have cov: "occurrence_covering zones w t \<longleftrightarrow> z_utc z d h m \<le> t \<and> t < z_utc z d h m + minutes n"
    by (simp add: occurrence_covering_def d(1))
  have "d' = d" if d': "day_on days d'" "z_utc z d' h m \<le> t" "t < z_utc z d' h m + minutes n" for d'
  proof (cases d' d rule: linorder_cases)
    case less
    with closed d' short sec have "z_utc z d' h m + minutes n \<le> t - seconds 1" by simp
    with d'(3) sec show ?thesis by linarith
  next
    case greater
    then show ?thesis using regular_zone.daily_gap[OF z wt greater] d(3) d'(2) short by linarith
  qed
  with cov d(2) show ?thesis by blast
qed

text \<open>
  The search starts at yesterday's local day, although a window may last a week: an
  occurrence of a longer window that opened two or more local days ago and is still open is
  overlooked. With no other selected day before then, the next occurrence is one that has not
  opened yet, and a hand-typed time inside the open occurrence is refused.
\<close>

theorem long_window_overlooked:
  assumes w: "window_reads zones w z days h m n" and z: "regular_zone z"
    and old: "d + 1 < z_date z after"
    and later: "\<forall>d' > d. day_on days d' \<longrightarrow> after + seconds 1 < z_utc z d' h m"
  shows "(\<exists>s e. next_occurrence zones w after = Inr (s, e) \<and> after + seconds 1 < s) \<and>
    \<not> occurrence_covering zones w (after + seconds 1)"
proof -
  obtain d' where d': "next_occurrence zones w after = Inr (z_utc z d' h m, z_utc z d' h m + minutes n)"
    "day_on days d'" "z_date z after - 1 \<le> d'"
    using regular_zone.first_open_day[OF z w, of after] by blast
  with old later have "after + seconds 1 < z_utc z d' h m" by simp
  with d' show ?thesis by (simp add: occurrence_covering_def)
qed

text \<open>
  Friday 18:00 for 60 hours, a window \<open>validate\<close> accepts, looked at on Sunday at noon (day 3);
  the occurrence from Friday (day 1) is open until Monday 06:00.
\<close>

definition long_window :: change_window where
  "long_window =
     \<lparr> cw_id = ''w2'', cw_name = ''Weekend'', cw_start_at_local = Some ''18:00'',
       cw_duration_minutes = Some 3600, cw_timezone = None,
       cw_schedule_days = Some ''0000100'', cw_enabled = Some True \<rparr>"

lemma long_window_reads: "window_reads sample_zones long_window UTC_ZONE ''0000100'' 18 0 3600"
proof -
  have "normalize_days (or_empty (cw_schedule_days long_window)) = Inr ''0000100''"
    "parse_hhmm (or_empty (cw_start_at_local long_window)) = Inr (Some (18, 0))" by code_simp+
  then show ?thesis by (simp add: window_reads_def long_window_def resolve_timezone_def py_strip_def)
qed

lemma friday_mask: "day_on ''0000100'' d \<Longrightarrow> d > 1 \<Longrightarrow> 8 \<le> d"
proof -
  assume "day_on ''0000100'' d" "d > 1"
  moreover have "weekday d < 7" by simp
  ultimately have "weekday d = 4"
    by (auto simp: day_on_def less_Suc_eq numeral_eq_Suc)
  then have "(d + 3) mod 7 = 4" by (simp add: weekday_def) 
  with \<open>d > 1\<close> show ?thesis by presburger
qed

theorem long_window_overlooked_witness:
  "validate_window sample_zones ''Weekend'' ''18:00'' (PInt 3600) [] ''0000100'' =
     Inr \<lparr> wf_name = ''Weekend'', wf_start_at_local = ''18:00'', wf_duration_minutes = 3600,
           wf_timezone = None, wf_schedule_days = ''0000100'' \<rparr> \<and>
   z_utc UTC_ZONE 1 18 0 \<le> seconds (3 * 86400 + 43200 + 1) \<and>
   seconds (3 * 86400 + 43200 + 1) < z_utc UTC_ZONE 1 18 0 + minutes 3600 \<and>
   (\<exists>s e. next_occurrence sample_zones long_window (seconds (3 * 86400 + 43200)) = Inr (s, e) \<and>
      seconds (3 * 86400 + 43200) + seconds 1 < s) \<and>
   \<not> occurrence_covering sample_zones long_window (seconds (3 * 86400 + 43200) + seconds 1)"
proof -
  have "validate_window sample_zones ''Weekend'' ''18:00'' (PInt 3600) [] ''0000100'' =
     Inr \<lparr> wf_name = ''Weekend'', wf_start_at_local = ''18:00'', wf_duration_minutes = 3600,
           wf_timezone = None, wf_schedule_days = ''0000100'' \<rparr>"
    by code_simp
  moreover have "z_utc UTC_ZONE 1 18 0 \<le> seconds (3 * 86400 + 43200 + 1)"
    "seconds (3 * 86400 + 43200 + 1) < z_utc UTC_ZONE 1 18 0 + minutes 3600"
    by (simp_all add: UTC_ZONE_def seconds_def minutes_def)
  moreover have "(1::int) + 1 < z_date UTC_ZONE (seconds (3 * 86400 + 43200))"
    by (simp add: UTC_ZONE_def seconds_def)
  moreover have "\<forall>d' > 1. day_on ''0000100'' d' \<longrightarrow>
      seconds (3 * 86400 + 43200) + seconds 1 < z_utc UTC_ZONE d' 18 0"
    by (auto dest: friday_mask simp: UTC_ZONE_def seconds_def)
  ultimately show ?thesis
    using long_window_overlooked[OF long_window_reads utc.regular_zone_axioms] by blast
qed

section \<open>Booking\<close>

lemma get_window_id: "get_window windows wid = Some w \<Longrightarrow> cw_id w = wid"
  by (auto simp: get_window_def split: if_splits dest: find_Some_set)

lemma window_grace_pos: "0 < minutes (window_grace_minutes cfg)"
  by (simp add: window_grace_minutes_def)

lemma check_lead_None:
  "check_lead t now = None \<longleftrightarrow> now < t \<and> t \<le> now + seconds (86400 * MAX_LEAD_DAYS)"
  by (auto simp: check_lead_def)

lemma resolve_at_ok:
  assumes "resolve_at zones cfg window t now = Inr b"
  shows "now < t \<and> t \<le> now + seconds (86400 * MAX_LEAD_DAYS) \<and> bk_scheduled_for b = Some t \<and>
    (case window of
       None \<Rightarrow> bk_change_window_id b = None \<and>
         bk_window_ends_at b = Some (t + minutes (window_grace_minutes cfg))
     | Some w \<Rightarrow> bk_change_window_id b = Some (cw_id w) \<and>
         (\<exists>s e. bk_window_ends_at b = Some e \<and> occurrence zones w s e \<and> s \<le> t \<and> t < e))"
proof (cases window)
  case None
  with assms show ?thesis
    by (auto simp: resolve_at_def check_lead_None split: option.splits)
next
  case (Some w)
  with assms have lead: "check_lead t now = None" and cov: "occurrence_covering zones w t"
    by (auto simp: resolve_at_def split: option.splits if_splits sum.splits)
  from cov obtain s e where occ: "next_occurrence zones w (t - seconds 1) = Inr (s, e)" "s \<le> t" "t < e"
    by (auto simp: occurrence_covering_def split: sum.splits prod.splits)
  have "occurrence zones w s e" using next_occurrence_sound(1)[OF occ(1)] .
  then show ?thesis
    using assms Some lead cov occ by (auto simp: resolve_at_def check_lead_None)
qed

text \<open>
  A run form's choice resolves to no booking at all exactly when it named neither a time
  nor a window. Every booking it does produce starts before its deadline and has a deadline
  ahead of now. One that names a window is booked into the enabled window of that id, with its
  start inside an occurrence and the occurrence's end as its deadline; one with a bare time lies
  at most 730 days ahead and ends after the grace period.
\<close>

theorem resolve_books_occurrence:
  assumes "resolve zones fromisoformat cfg windows run_at run_timezone wid now = Inr b"
  shows "(bk_scheduled_for b = None \<longleftrightarrow> py_strip run_at = [] \<and> wid = []) \<and>
    (bk_scheduled_for b = None \<longrightarrow> b = run_now) \<and>
    (\<forall>t. bk_scheduled_for b = Some t \<longrightarrow>
      (\<exists>e. bk_window_ends_at b = Some e \<and> t < e \<and> now < e \<and>
        (if wid = [] then bk_change_window_id b = None \<and> now < t \<and>
           t \<le> now + seconds (86400 * MAX_LEAD_DAYS) \<and> e = t + minutes (window_grace_minutes cfg)
         else bk_change_window_id b = Some wid \<and>
           (\<exists>w s. get_window windows wid = Some w \<and> cw_enabled w \<noteq> Some False \<and>
              occurrence zones w s e \<and> s \<le> t))))"
proof (cases "get_window windows wid")
  case None
  then have wid: "wid = []" using assms by (auto simp: resolve_def Let_def split: if_splits)
  show ?thesis
  proof (cases "py_strip run_at = []")
    case True
    with assms None wid show ?thesis by (auto simp: resolve_def Let_def run_now_def)
  next
    case False
    with assms None wid obtain t where "resolve_at zones cfg None t now = Inr b"
      by (auto simp: resolve_def Let_def split: sum.splits)
    from resolve_at_ok[OF this] wid False window_grace_pos[of cfg] show ?thesis
      by (auto simp del: minutes_pos)
  qed
next
  case (Some w)
  then have wid: "wid \<noteq> []" by (auto simp: get_window_def)
  have en: "cw_enabled w \<noteq> Some False" using assms Some by (auto simp: resolve_def Let_def)
  show ?thesis
  proof (cases "py_strip run_at = []")
    case True
    then obtain s e where occ: "next_occurrence zones w now = Inr (s, e)"
      and b: "bk_scheduled_for b = Some s" "bk_window_ends_at b = Some e" "bk_change_window_id b = Some (cw_id w)"
      using assms Some en by (auto simp: resolve_def Let_def split: sum.splits prod.splits)
    from next_occurrence_sound[OF occ] b wid en Some get_window_id[OF Some] show ?thesis by auto
  next
    case False
    with assms Some en obtain t where "resolve_at zones cfg (Some w) t now = Inr b"
      by (auto simp: resolve_def Let_def split: sum.splits)
    from resolve_at_ok[OF this] wid False en Some get_window_id[OF Some] show ?thesis by auto
  qed
qed

text \<open>Booking into the sample window from noon of day 1.\<close>

definition sample_booking :: booking where
  "sample_booking =
     \<lparr> bk_scheduled_for = Some (seconds (2 * 86400 + 7 * 3600)),
       bk_window_ends_at = Some (seconds (2 * 86400 + 11 * 3600)), bk_change_window_id = Some ''w1'' \<rparr>"

theorem resolve_books_occurrence_witness:
  "\<exists>w s. get_window [sample_window] ''w1'' = Some w \<and> cw_enabled w \<noteq> Some False \<and>
     occurrence sample_zones w s (seconds (2 * 86400 + 11 * 3600)) \<and>
     s \<le> seconds (2 * 86400 + 7 * 3600)"
proof -
  have "resolve sample_zones (\<lambda>_. NotADate) default_config [sample_window] [] [] ''w1''
      (seconds (86400 + 43200)) = Inr sample_booking" by code_simp
  from resolve_books_occurrence[OF this] show ?thesis by (simp add: sample_booking_def)
qed

end
