(* ===== verification/Schedules.thy ===== *)
theory Schedules
  imports Change_Window Job_Logs Jobs_Worker
begin

text \<open>
  \<open>services/schedule_service.py\<close> and \<open>services/schedule_sweeper.py\<close>: the recurring schedules
  that book a job per occurrence of a change window, and the sweep that marks the bookings whose
  window closed, creates the jobs of the occurrences that opened and folds finished runs back
  into their schedules.

  The state is the job store of \<open>Job_Service\<close> with the Live Output rows, the schedules, the
  windows and the users. Parameters: the zones; \<open>stamp\<close>, which renders an instant to the minute;
  \<open>isof\<close>, \<open>datetime.isoformat\<close>; \<open>fresh\<close>, the id of the job created for a schedule; \<open>clock\<close>, the
  reading of the clock at a write; \<open>env\<close>, what other transactions did to the job rows between the
  query of the sweep and its write of a row. The passes over agent hosts, rollouts and
  assurance flags belong to other services: whether they have work is a parameter.
\<close>

record job_schedule =
  js_id :: string
  js_name :: string
  js_change_window_id :: "string option"
  js_job_type :: string
  js_payload :: extra_text
  js_workgroup :: "string option"
  js_agent_id :: "string option"
  js_vm_path :: "string option"
  js_approval_required :: "bool option"
  js_created_by :: "string option"
  js_enabled :: "bool option"
  js_last_materialised_for :: "instant option"
  js_last_run_at :: "instant option"
  js_last_job_id :: "string option"
  js_consecutive_failures :: int
  js_disabled_reason :: "string option"

record user =
  us_username :: string
  us_is_active :: "bool option"

record sweep_db =
  sw_db :: jdb
  sw_logs :: "log_row list"
  sw_schedules :: "job_schedule list"
  sw_windows :: "change_window list"
  sw_users :: "user list"

definition payload_dict :: "job_schedule \<Rightarrow> dict" where
  "payload_dict row = (case js_payload row of EDict d \<Rightarrow> d | _ \<Rightarrow> [])"

section \<open>What may repeat\<close>

definition ANSIBLE_RUN_META_KEYS :: "string list" where
  "ANSIBLE_RUN_META_KEYS =
     [''asset'', ''asset_backend'', ''target'', ''cloud'', ''ansible_user'', ''extra_vars'', ''secret_vars'',
      ''secret_become_source'', ''secret_ssh_key_source'', ''managed_account'', ''managed_become'',
      ''become_method'', ''epml_token_var'']"

definition AGENT_RUN_META_KEYS :: "string list" where
  "AGENT_RUN_META_KEYS =
     [''run_kind'', ''transport'', ''target_host'', ''target_port'', ''connection_id'', ''target_id'',
      ''target_label'', ''asset'', ''asset_backend'', ''login_user'', ''extra_vars'', ''secret_vars'',
      ''secret_become_source'', ''secret_ssh_key_source'', ''managed_account'', ''managed_become'',
      ''become_method'', ''epml_token_var'', ''pov_environment_id'', ''pov_vm_id'', ''join_deploy_job_id'',
      ''cloud_deploy_job_id'', ''cloud'', ''windows_ssh'']"

definition SCHEDULABLE_PAYLOAD_KEYS :: "(string \<times> string list) list" where
  "SCHEDULABLE_PAYLOAD_KEYS =
     [(''ansible_local'', ''description'' # ANSIBLE_RUN_META_KEYS),
      (''ansible_cloud_run'', [''description'', ''target_kind'', ''target_id'', ''cloud'', ''asset'',
         ''asset_backend'', ''extra_vars'', ''secret_vars'']),
      (''agent_ansible'', ''description'' # AGENT_RUN_META_KEYS),
      (''ec2_power'', [''action'', ''instance_id'', ''region'', ''deploy_job_id'', ''unmanaged'']),
      (''azure_power'', [''action'', ''vm_name'', ''resource_group'', ''deploy_job_id'', ''unmanaged'']),
      (''gce_power'', [''action'', ''instance_name'', ''zone'', ''project_id'', ''deploy_job_id'']),
      (''oci_power'', [''action'', ''instance_ocid'', ''deploy_job_id'']),
      (''aws_export_image'', [''ami_id'', ''registry_name'', ''region'', ''created_by'']),
      (''azure_export_image'', [''image_name'', ''registry_name'', ''resource_group'', ''os_type'', ''created_by'']),
      (''gcp_export_image'', [''image_name'', ''registry_name'', ''project_id'', ''created_by'']),
      (''image_promote_aws'', [''image_id'', ''image_name'', ''image_version'', ''target_cloud'', ''target_region'']),
      (''image_promote_azure'', [''image_id'', ''image_name'', ''image_version'', ''target_cloud'', ''target_region'',
         ''target_resource_group'']),
      (''image_promote_gcp'', [''image_id'', ''image_name'', ''image_version'', ''target_cloud'', ''target_region'']),
      (''image_promote_oci'', [''image_id'', ''image_name'', ''image_version'', ''target_cloud'', ''target_region'']),
      (''epml_sync'', [''description'', ''backend''])]"

definition MAX_CONSECUTIVE_FAILURES :: int where
  "MAX_CONSECUTIVE_FAILURES = 3"

definition payload_for :: "job \<Rightarrow> dict" where
  "payload_for j =
     (case map_of SCHEDULABLE_PAYLOAD_KEYS (j_job_type j) of
        None \<Rightarrow> []
      | Some allowed \<Rightarrow> filter (\<lambda>(k, _). k \<in> set allowed) (metadata_dict j))"

definition schedulable_reason :: "job option \<Rightarrow> schedule_error option" where
  "schedulable_reason job =
     (case job of
        None \<Rightarrow> Some JobGone
      | Some j \<Rightarrow>
          (if map_of SCHEDULABLE_PAYLOAD_KEYS (j_job_type j) = None then Some (NotSchedulable (j_job_type j))
           else if or_empty (j_agent_id j) \<noteq> [] \<and> metadata_dict j = [] then Some NoParameters
           else None))"

text \<open>
  \<open>create_from_job\<close> asks for the next occurrence twice, to refuse a window that has none and to
  stamp the current one, at the clock readings \<open>now\<close> and \<open>now2\<close>. \<open>fresh\<close> is the new row's id.
\<close>

definition schedule_row ::
  "string \<Rightarrow> job \<Rightarrow> string \<Rightarrow> string \<Rightarrow> string \<Rightarrow> bool option \<Rightarrow> instant \<Rightarrow> job_schedule" where
  "schedule_row fresh j name wid created_by approval start =
     \<lparr> js_id = fresh, js_name = name, js_change_window_id = Some wid, js_job_type = j_job_type j,
       js_payload = EDict (payload_for j), js_workgroup = j_workgroup j, js_agent_id = j_agent_id j,
       js_vm_path = j_vm_path j,
       js_approval_required =
         (if (case approval of None \<Rightarrow> j_approval_required j = Some True | Some b \<Rightarrow> b) then Some True else None),
       js_created_by = Some created_by, js_enabled = Some True, js_last_materialised_for = Some start,
       js_last_run_at = None, js_last_job_id = None, js_consecutive_failures = 0,
       js_disabled_reason = None \<rparr>"

definition create_from_job ::
  "(string \<Rightarrow> zone option) \<Rightarrow> instant \<Rightarrow> instant \<Rightarrow> string \<Rightarrow> job option \<Rightarrow> string \<Rightarrow> string \<Rightarrow> string \<Rightarrow>
     bool option \<Rightarrow> sweep_db \<Rightarrow> schedule_error + (sweep_db \<times> job_schedule)" where
  "create_from_job zones now now2 fresh job name wid created_by approval s =
     (case schedulable_reason job of
        Some e \<Rightarrow> Inl e
      | None \<Rightarrow>
     (case get_window (sw_windows s) wid of
        None \<Rightarrow> Inl PickAWindow
      | Some w \<Rightarrow>
          (if cw_enabled w = Some False then Inl (WindowDisabled (cw_name w))
           else
     (case next_occurrence zones w now of
        Inl e \<Rightarrow> Inl e
      | Inr _ \<Rightarrow>
          (if py_strip name = [] then Inl NoName
           else
     (case next_occurrence zones w now2 of
        Inl e \<Rightarrow> Inl e
      | Inr (start, _) \<Rightarrow>
          (let row = schedule_row fresh (the job) (py_strip name) (cw_id w) created_by approval start
           in Inr (s\<lparr> sw_schedules := sw_schedules s @ [row] \<rparr>, row))))))))"

section \<open>Materialising an occurrence\<close>

definition upd_schedule :: "string \<Rightarrow> (job_schedule \<Rightarrow> job_schedule) \<Rightarrow> sweep_db \<Rightarrow> sweep_db" where
  "upd_schedule sid f s = s\<lparr> sw_schedules := tbl_update (\<lambda>r. js_id r = sid) f (sw_schedules s) \<rparr>"

definition due_row ::
  "(string \<Rightarrow> zone option) \<Rightarrow> change_window list \<Rightarrow> instant \<Rightarrow> job_schedule \<Rightarrow> (instant \<times> instant) option" where
  "due_row zones windows now row =
     (case List.find (\<lambda>w. Some (cw_id w) = js_change_window_id row) windows of
        None \<Rightarrow> None
      | Some w \<Rightarrow>
          (if cw_enabled w = Some False then None
           else
     (case next_occurrence zones w now of
        Inl _ \<Rightarrow> None
      | Inr (start, e) \<Rightarrow>
          (if start > now then None
           else if (case js_last_materialised_for row of None \<Rightarrow> False | Some l \<Rightarrow> l \<ge> start) then None
           else Some (start, e)))))"

definition due ::
  "(string \<Rightarrow> zone option) \<Rightarrow> instant \<Rightarrow> sweep_db \<Rightarrow> (job_schedule \<times> instant \<times> instant) list" where
  "due zones now s =
     List.map_filter
       (\<lambda>row. map_option (\<lambda>occ. (row, fst occ, snd occ)) (due_row zones (sw_windows s) now row))
       (filter (\<lambda>row. js_enabled row \<noteq> Some False) (sw_schedules s))"

definition owner_unusable :: "user list \<Rightarrow> job_schedule \<Rightarrow> string" where
  "owner_unusable users row =
     (let username = py_strip (or_empty (js_created_by row))
      in if username = [] \<or> username = ''system'' then []
         else (case List.find (\<lambda>u. us_username u = username) users of
                 None \<Rightarrow> ''the user who created this schedule ('' @ username @
                   '') no longer exists, so there is no identity to run it as''
               | Some u \<Rightarrow>
                   (if us_is_active u = Some False then
                      ''the user who created this schedule ('' @ username @
                      '') is deactivated, so it will not run until an active user takes it over''
                    else [])))"

definition disabled_notice :: "job_schedule \<Rightarrow> string \<Rightarrow> notification" where
  "disabled_notice row reason =
     \<lparr> n_event_type = ''job.window_missed'',
       n_title = ''Recurring change disabled: '' @ js_name row,
       n_body = reason, n_resource_id = ''jobschedule:'' @ js_id row, n_resource_kind = [],
       n_resource_name = js_name row, n_workgroup = or_empty (js_workgroup row),
       n_url = ''/schedules'', n_dedupe_bucket = None,
       n_fields = [(''schedule_id'', js_id row), (''job_type'', js_job_type row),
                   (''created_by'', or_empty (js_created_by row))] \<rparr>"

definition emit :: "notification \<Rightarrow> sweep_db \<Rightarrow> sweep_db" where
  "emit n s = s\<lparr> sw_db := (sw_db s)\<lparr> outbox := outbox (sw_db s) @ [n] \<rparr> \<rparr>"

definition disable_schedule :: "job_schedule \<Rightarrow> string \<Rightarrow> sweep_db \<Rightarrow> sweep_db" where
  "disable_schedule row reason s =
     (if js_enabled row = Some False then s
      else emit (disabled_notice row reason)
        (upd_schedule (js_id row)
           (\<lambda>r. r\<lparr> js_enabled := Some False, js_disabled_reason := Some reason \<rparr>) s))"

definition occurrence_job :: "job_schedule \<Rightarrow> instant \<Rightarrow> instant \<Rightarrow> new_job" where
  "occurrence_job row start e =
     \<lparr> nj_job_type = js_job_type row,
       nj_created_by = (if or_empty (js_created_by row) = [] then ''system'' else or_empty (js_created_by row)),
       nj_vm_path = js_vm_path row, nj_workgroup = js_workgroup row, nj_metadata = payload_dict row,
       nj_batch_id = None, nj_status = ''pending'', nj_expires_at = None, nj_agent_id = js_agent_id row,
       nj_scheduled_for = Some start, nj_window_ends_at = Some e,
       nj_change_window_id = js_change_window_id row, nj_job_schedule_id = Some (js_id row),
       nj_approval_required = (js_approval_required row = Some True) \<rparr>"

definition materialise ::
  "(string \<Rightarrow> json option) \<Rightarrow> config \<Rightarrow> instant \<Rightarrow> string \<Rightarrow> job_schedule \<Rightarrow> instant \<Rightarrow> instant \<Rightarrow>
     sweep_db \<Rightarrow> sweep_db \<times> job option" where
  "materialise loads cfg now fresh row start e s =
     (let owner_gone = owner_unusable (sw_users s) row;
          s1 = upd_schedule (js_id row) (\<lambda>r. r\<lparr> js_last_materialised_for := Some start \<rparr>) s
      in if owner_gone \<noteq> [] then (disable_schedule row owner_gone s1, None)
         else
           (case create_job loads cfg now fresh (occurrence_job row start e) (sw_db s1) of
              (db, j) \<Rightarrow>
                (upd_schedule (js_id row)
                   (\<lambda>r. r\<lparr> js_last_run_at := Some now, js_last_job_id := Some (j_id j) \<rparr>)
                   (s1\<lparr> sw_db := db \<rparr>), Some j)))"

definition right_arrow :: string where
  "right_arrow = [CHR 0xE2, CHR 0x86, CHR 0x92]"

definition log_line :: "string \<Rightarrow> string \<Rightarrow> sweep_db \<Rightarrow> sweep_db" where
  "log_line jid line s = s\<lparr> sw_logs := append_job_log jid line [] (sw_logs s) \<rparr>"

record made =
  md_schedule_id :: string
  md_name :: string
  md_job_id :: string
  md_start :: instant

definition materialise_one ::
  "(string \<Rightarrow> json option) \<Rightarrow> config \<Rightarrow> (instant \<Rightarrow> string) \<Rightarrow> (string \<Rightarrow> string) \<Rightarrow> string \<Rightarrow> instant \<Rightarrow>
     job_schedule \<times> instant \<times> instant \<Rightarrow> sweep_db \<times> made list \<Rightarrow> sweep_db \<times> made list" where
  "materialise_one loads cfg stamp fresh sweep_job now occ acc =
     (case occ of (row, start, e) \<Rightarrow>
        (case materialise loads cfg now (fresh (js_id row)) row start e (fst acc) of
           (s, None) \<Rightarrow> (s, snd acc)
         | (s, Some j) \<Rightarrow>
             (log_line sweep_job
                (''scheduled run: '' @ js_name row @ '' '' @ right_arrow @ '' '' @ js_job_type row @ '' '' @
                 j_id j @ '' (window '' @ stamp start @ '' UTC)'') s,
              snd acc @ [\<lparr> md_schedule_id = js_id row, md_name = js_name row, md_job_id = j_id j,
                          md_start = start \<rparr>])))"

definition materialise_due ::
  "(string \<Rightarrow> json option) \<Rightarrow> config \<Rightarrow> (string \<Rightarrow> zone option) \<Rightarrow> (instant \<Rightarrow> string) \<Rightarrow> (string \<Rightarrow> string) \<Rightarrow>
     string \<Rightarrow> instant \<Rightarrow> sweep_db \<Rightarrow> sweep_db \<times> made list" where
  "materialise_due loads cfg zones stamp fresh sweep_job now s =
     fold (materialise_one loads cfg stamp fresh sweep_job now) (due zones now s) (s, [])"

section \<open>Bookings whose window closed\<close>

definition MISSED_GRACE :: int where
  "MISSED_GRACE = seconds 90"

definition REAP_BATCH :: nat where
  "REAP_BATCH = 200"

definition missed_candidate :: "instant \<Rightarrow> job \<Rightarrow> bool" where
  "missed_candidate now j \<longleftrightarrow>
     j_status j \<in> {''queued'', ''pending''} \<and>
     (case j_window_ends_at j of None \<Rightarrow> False | Some e \<Rightarrow> e < now - MISSED_GRACE)"

definition due_missed :: "instant \<Rightarrow> jdb \<Rightarrow> job list" where
  "due_missed now db =
     take REAP_BATCH (sort_key (\<lambda>j. the (j_window_ends_at j)) (filter (missed_candidate now) (jobs db)))"

text \<open>\<open>int((now - ends).total_seconds() // 60)\<close> rounds down.\<close>

definition missed_reason :: "(instant \<Rightarrow> string) \<Rightarrow> instant \<Rightarrow> job \<Rightarrow> string" where
  "missed_reason stamp now j =
     (let ends = the (j_window_ends_at j)
      in if j_approval_required j = Some True \<and> j_approved_at j = None then
           ''Change window closed at '' @ stamp ends @ '' UTC without approval '' @ em_dash @
           '' the job was never eligible to run. Approve before the window closes, or reschedule.''
         else
           ''Change window closed at '' @ stamp ends @ '' UTC before this job could start ('' @
           py_str_int ((now - ends) div minutes 1) @
           '' min ago). It was NOT run outside its window; reschedule it.'')"

definition missed_notice :: "(instant \<Rightarrow> string) \<Rightarrow> job \<Rightarrow> string \<Rightarrow> notification" where
  "missed_notice isof j reason =
     \<lparr> n_event_type = ''job.window_missed'', n_title = ''Change window missed: '' @ j_job_type j,
       n_body = reason, n_resource_id = ''job:'' @ j_id j, n_resource_kind = [],
       n_resource_name = j_job_type j, n_workgroup = or_empty (j_workgroup j),
       n_url = ''/jobs/'' @ j_id j, n_dedupe_bucket = None,
       n_fields = [(''job_id'', j_id j), (''job_type'', j_job_type j), (''created_by'', j_created_by j),
                   (''window_ends_at'', case j_window_ends_at j of None \<Rightarrow> [] | Some e \<Rightarrow> isof e)] \<rparr>"

text \<open>
  One turn of the loop of \<open>_reap_missed\<close>. The row comes from the query at the start of the pass;
  \<open>set_missed_window\<close> reads it again and returns it whether or not it wrote anything, so the
  row counts as reaped unless it is gone.
\<close>

record reaped =
  rp_job_id :: string
  rp_job_type :: string
  rp_created_by :: string

definition reap_one ::
  "(instant \<Rightarrow> string) \<Rightarrow> (instant \<Rightarrow> string) \<Rightarrow> (string \<Rightarrow> instant) \<Rightarrow> (string \<Rightarrow> jdb \<Rightarrow> jdb) \<Rightarrow>
     string \<Rightarrow> instant \<Rightarrow> job \<Rightarrow> sweep_db \<times> reaped list \<Rightarrow> sweep_db \<times> reaped list" where
  "reap_one stamp isof clock env sweep_job now j acc =
     (let reason = missed_reason stamp now j;
          s0 = fst acc;
          db = set_missed_window (clock (j_id j)) (j_id j) reason (env (j_id j) (sw_db s0))
      in case get_job db (j_id j) of
           None \<Rightarrow> (s0\<lparr> sw_db := db \<rparr>, snd acc)
         | Some k \<Rightarrow>
             (emit (missed_notice isof k reason)
                (log_line sweep_job
                   (''missed window: '' @ j_job_type k @ '' '' @ j_id k @ '' '' @ em_dash @ '' '' @ reason)
                   (s0\<lparr> sw_db := db \<rparr>)),
              snd acc @ [\<lparr> rp_job_id = j_id k, rp_job_type = j_job_type k, rp_created_by = j_created_by k \<rparr>]))"

definition reap_missed ::
  "(instant \<Rightarrow> string) \<Rightarrow> (instant \<Rightarrow> string) \<Rightarrow> (string \<Rightarrow> instant) \<Rightarrow> (string \<Rightarrow> jdb \<Rightarrow> jdb) \<Rightarrow>
     string \<Rightarrow> instant \<Rightarrow> sweep_db \<Rightarrow> sweep_db \<times> reaped list" where
  "reap_missed stamp isof clock env sweep_job now s =
     fold (reap_one stamp isof clock env sweep_job now) (due_missed now (sw_db s)) (s, [])"

section \<open>Finished occurrences\<close>

definition FINISHED_LOOKBACK :: int where
  "FINISHED_LOOKBACK = 3 * 60 * 60"

definition note_result :: "job \<Rightarrow> sweep_db \<Rightarrow> sweep_db" where
  "note_result j s =
     (if or_empty (j_job_schedule_id j) = [] then s
      else (case List.find (\<lambda>r. Some (js_id r) = j_job_schedule_id j) (sw_schedules s) of
              None \<Rightarrow> s
            | Some row \<Rightarrow>
                (if j_status j = ''completed'' then
                   upd_schedule (js_id row) (\<lambda>r. r\<lparr> js_consecutive_failures := 0 \<rparr>) s
                 else if j_status j \<notin> {''failed'', ''cancelled''} then s
                 else
                   (let n = js_consecutive_failures row + 1;
                        s1 = upd_schedule (js_id row) (\<lambda>r. r\<lparr> js_consecutive_failures := n \<rparr>) s
                    in if n \<ge> MAX_CONSECUTIVE_FAILURES then
                         disable_schedule row
                           (''disabled automatically after '' @ py_str_int n @
                            '' consecutive failed runs '' @ em_dash @ '' the last was job '' @ j_id j) s1
                       else s1))))"

definition finished_occurrence :: "instant \<Rightarrow> job \<Rightarrow> bool" where
  "finished_occurrence now j \<longleftrightarrow>
     j_job_schedule_id j \<noteq> None \<and> j_status j \<in> {''completed'', ''failed'', ''cancelled''} \<and>
     (case j_completed_at j of None \<Rightarrow> False | Some c \<Rightarrow> c \<ge> now - seconds FINISHED_LOOKBACK)"

definition note_finished :: "instant \<Rightarrow> sweep_db \<Rightarrow> sweep_db" where
  "note_finished now s = fold note_result (filter (finished_occurrence now) (jobs (sw_db s))) s"

section \<open>The pass\<close>

definition SWEEP_JOB_TYPE :: string where
  "SWEEP_JOB_TYPE = ''schedule_sweep''"

definition PRUNE_BATCH :: nat where
  "PRUNE_BATCH = 500"

definition sweep_interval :: "config \<Rightarrow> int" where
  "sweep_interval cfg = max 60 (config_int_or cfg ''schedule_sweep_interval_seconds'' 300)"

definition sweep_min_gap :: "config \<Rightarrow> int" where
  "sweep_min_gap cfg = max 1 (sweep_interval cfg div 2)"

text \<open>
  \<open>has_work\<close>: bookings, deadlines and enabled schedules; \<open>other_work\<close> stands for the agent hosts,
  the rollouts and the assurance checks.
\<close>

definition has_work :: "bool \<Rightarrow> sweep_db \<Rightarrow> bool" where
  "has_work other_work s \<longleftrightarrow>
     (\<exists>j \<in> set (jobs (sw_db s)). j_status j \<in> set ACTIVE_STATUSES \<and> j_scheduled_for j \<noteq> None) \<or>
     (\<exists>j \<in> set (jobs (sw_db s)). j_status j \<in> set ACTIVE_STATUSES \<and> j_window_ends_at j \<noteq> None) \<or>
     (\<exists>r \<in> set (sw_schedules s). js_enabled r \<noteq> Some False) \<or> other_work"

definition sweep_new_job :: new_job where
  "sweep_new_job =
     \<lparr> nj_job_type = SWEEP_JOB_TYPE, nj_created_by = ''system'', nj_vm_path = None, nj_workgroup = None,
       nj_metadata = [], nj_batch_id = None, nj_status = ''pending'', nj_expires_at = None,
       nj_agent_id = None, nj_scheduled_for = None, nj_window_ends_at = None, nj_change_window_id = None,
       nj_job_schedule_id = None, nj_approval_required = False \<rparr>"

definition enqueue_sweep_if_due ::
  "(string \<Rightarrow> json option) \<Rightarrow> config \<Rightarrow> instant \<Rightarrow> instant \<Rightarrow> string \<Rightarrow> bool \<Rightarrow> int option \<Rightarrow> sweep_db \<Rightarrow>
     sweep_db \<times> string option" where
  "enqueue_sweep_if_due loads cfg now now2 uuid other_work min_gap s =
     (let gap = (case min_gap of None \<Rightarrow> sweep_min_gap cfg | Some g \<Rightarrow> g);
          sweeps = filter (\<lambda>j. j_job_type j = SWEEP_JOB_TYPE) (jobs (sw_db s))
      in if \<not> has_work other_work s then (s, None)
         else if \<exists>j \<in> set sweeps. j_status j \<in> set ACTIVE_STATUSES then (s, None)
         else if gap > 0 \<and> (\<exists>j \<in> set sweeps. j_created_at j \<ge> now - seconds gap) then (s, None)
         else (case create_job loads cfg now2 uuid sweep_new_job (sw_db s) of
                 (db, j) \<Rightarrow> (s\<lparr> sw_db := db \<rparr>, Some (j_id j))))"

text \<open>
  \<open>expiry_reaper.prune_sweep_history\<close> with this sweep's type. The query has no order; the model
  takes the rows in table order.
\<close>

definition prunable :: "config \<Rightarrow> string \<Rightarrow> instant \<Rightarrow> job \<Rightarrow> bool" where
  "prunable cfg job_type now j \<longleftrightarrow>
     j_job_type j = job_type \<and> j_status j = ''completed'' \<and>
     j_created_at j < now - seconds (86400 * sweep_retention_days cfg)"

definition prune_sweep_history :: "config \<Rightarrow> string \<Rightarrow> instant \<Rightarrow> sweep_db \<Rightarrow> sweep_db \<times> nat" where
  "prune_sweep_history cfg job_type now s =
     (if sweep_retention_days cfg = 0 then (s, 0)
      else
        (let ids = map j_id (take PRUNE_BATCH (filter (prunable cfg job_type now) (jobs (sw_db s))))
         in if ids = [] then (s, 0)
            else
              (s\<lparr> sw_logs := filter (\<lambda>l. l_job_id l \<notin> set ids) (sw_logs s),
                  sw_db := (sw_db s)\<lparr> jobs := filter (\<lambda>j. j_id j \<notin> set ids) (jobs (sw_db s)) \<rparr> \<rparr>,
               length (filter (\<lambda>j. j_id j \<in> set ids) (jobs (sw_db s))))))"

text \<open>
  \<open>run\<close> up to its pruning. \<open>others\<close> is what the passes over agent hosts, rollouts and attested
  agents do to the store; the result stored by \<open>set_completed\<close> is rendered by \<open>result\<close>.
\<close>

definition sweep_run ::
  "(string \<Rightarrow> json option) \<Rightarrow> config \<Rightarrow> (string \<Rightarrow> zone option) \<Rightarrow> (instant \<Rightarrow> string) \<Rightarrow> (instant \<Rightarrow> string) \<Rightarrow>
     (string \<Rightarrow> instant) \<Rightarrow> (string \<Rightarrow> jdb \<Rightarrow> jdb) \<Rightarrow> (string \<Rightarrow> string) \<Rightarrow> (sweep_db \<Rightarrow> sweep_db) \<Rightarrow>
     (reaped list \<Rightarrow> made list \<Rightarrow> nat \<Rightarrow> dict) \<Rightarrow> string \<Rightarrow> instant \<Rightarrow> sweep_db \<Rightarrow> sweep_db" where
  "sweep_run loads cfg zones stamp isof clock env fresh others result sweep_job now s =
     (let s0 = s\<lparr> sw_db := set_running (clock sweep_job) sweep_job (sw_db s) \<rparr>
      in case reap_missed stamp isof clock env sweep_job now s0 of
           (s1, missed) \<Rightarrow>
     (case materialise_due loads cfg zones stamp fresh sweep_job now s1 of
           (s2, created) \<Rightarrow>
     (case prune_sweep_history cfg SWEEP_JOB_TYPE now (others (note_finished now s2)) of
           (s3, pruned) \<Rightarrow>
             s3\<lparr> sw_db := set_completed (clock sweep_job) sweep_job (result missed created pruned) (sw_db s3) \<rparr>)))"

section \<open>Reading a schedule back\<close>

definition sched :: "sweep_db \<Rightarrow> string \<Rightarrow> job_schedule option" where
  "sched s k = List.find (\<lambda>r. js_id r = k) (sw_schedules s)"

definition last_for :: "sweep_db \<Rightarrow> string \<Rightarrow> instant option" where
  "last_for s k = Option.bind (sched s k) js_last_materialised_for"

named_theorems sched_simps

lemma sched_upd [sched_simps]:
  assumes "\<And>r. js_id (f r) = js_id r"
  shows "sched (upd_schedule sid f s) k = (if k = sid then map_option f (sched s k) else sched s k)"
proof -
  have "sched (upd_schedule sid f s) k = map_option (\<lambda>r. if js_id r = sid then f r else r) (sched s k)"
    unfolding sched_def upd_schedule_def by (simp add: find_tbl_update assms)
  then show ?thesis by (cases "sched s k") (auto simp: sched_def dest: find_Some_set)
qed

lemma sched_cong: "sw_schedules s = sw_schedules s' \<Longrightarrow> sched s = sched s'"
  by (simp add: sched_def fun_eq_iff)

lemma sched_other_fields [sched_simps]:
  "sched (emit n s) = sched s" "sched (log_line jid line s) = sched s" "sched (s\<lparr> sw_db := db \<rparr>) = sched s"
  by (simp_all add: sched_def emit_def log_line_def fun_eq_iff)

lemma jobs_other_fields [sched_simps]:
  "jobs (sw_db (emit n s)) = jobs (sw_db s)" "sw_db (log_line jid line s) = sw_db s"
  "sw_db (upd_schedule sid f s) = sw_db s"
  by (simp_all add: emit_def log_line_def upd_schedule_def)

lemma jobs_disable [sched_simps]: "jobs (sw_db (disable_schedule row reason s)) = jobs (sw_db s)"
  by (simp add: disable_schedule_def sched_simps)

lemma sched_disable [sched_simps]:
  "sched (disable_schedule row reason s) k =
     (if k = js_id row \<and> js_enabled row \<noteq> Some False
      then map_option (\<lambda>r. r\<lparr> js_enabled := Some False, js_disabled_reason := Some reason \<rparr>) (sched s k)
      else sched s k)"
  by (simp add: disable_schedule_def sched_simps)

section \<open>One job per occurrence\<close>

lemma last_materialise:
  "last_for (fst (materialise loads cfg now fresh row start e s)) k =
     (if k = js_id row \<and> sched s k \<noteq> None then Some start else last_for s k)"
  by (auto simp: materialise_def Let_def create_job_def last_for_def sched_simps)

lemma sched_materialise_None:
  "sched (fst (materialise loads cfg now fresh row start e s)) k = None \<longleftrightarrow> sched s k = None"
  by (auto simp: materialise_def Let_def create_job_def sched_simps)

lemma materialise_one_split:
  "materialise_one loads cfg stamp fresh sweep_job now (row, start, e) (s, acc) =
     (let r = materialise loads cfg now (fresh (js_id row)) row start e s;
          s' = fst (materialise_one loads cfg stamp fresh sweep_job now (row, start, e) (s, []))
      in (s', acc @ (case snd r of None \<Rightarrow> []
            | Some j \<Rightarrow> [\<lparr> md_schedule_id = js_id row, md_name = js_name row, md_job_id = j_id j, md_start = start \<rparr>])))"
  by (simp add: materialise_one_def Let_def split: prod.splits option.splits)

lemma last_materialise_one:
  "last_for (fst (materialise_one loads cfg stamp fresh sweep_job now (row, start, e) acc)) k =
     (if k = js_id row \<and> sched (fst acc) k \<noteq> None then Some start else last_for (fst acc) k)"
  "sched (fst (materialise_one loads cfg stamp fresh sweep_job now (row, start, e) acc)) k = None \<longleftrightarrow>
     sched (fst acc) k = None"
  using last_materialise[of loads cfg now "fresh (js_id row)" row start e "fst acc" k]
    sched_materialise_None[of loads cfg now "fresh (js_id row)" row start e "fst acc" k]
  by (auto simp: materialise_one_def last_for_def sched_simps split: prod.splits option.splits)

definition starts_of :: "string \<Rightarrow> made list \<Rightarrow> instant list" where
  "starts_of sid ms = map md_start (filter (\<lambda>m. md_schedule_id m = sid) ms)"

lemma starts_of_append [simp]: "starts_of sid (a @ b) = starts_of sid a @ starts_of sid b"
  by (simp add: starts_of_def)

lemma starts_of_Nil [simp]: "starts_of sid [] = []"
  by (simp add: starts_of_def)

lemma starts_materialise_one:
  "\<exists>xs. starts_of sid (snd (materialise_one loads cfg stamp fresh sweep_job now (row, start, e) acc)) =
     starts_of sid (snd acc) @ xs \<and> (xs = [] \<or> sid = js_id row \<and> xs = [start])"
  by (auto simp: materialise_one_def starts_of_def split: prod.splits option.splits)

text \<open>
  Over occurrences of distinct schedules, the fold books each at most once, at its start, and
  leaves the start as the stamp.
\<close>

abbreviation book_all where
  "book_all loads cfg stamp fresh sweep_job now \<equiv> fold (materialise_one loads cfg stamp fresh sweep_job now)"

lemma last_book_all_other:
  "sid \<notin> (js_id \<circ> fst) ` set occs \<Longrightarrow>
     last_for (fst (book_all loads cfg stamp fresh sweep_job now occs acc)) sid = last_for (fst acc) sid"
  by (induction occs arbitrary: acc) (auto simp: last_materialise_one(1))

lemma starts_book_all_other:
  "sid \<notin> (js_id \<circ> fst) ` set occs \<Longrightarrow>
     starts_of sid (snd (book_all loads cfg stamp fresh sweep_job now occs acc)) = starts_of sid (snd acc)"
proof (induction occs arbitrary: acc)
  case (Cons occ occs)
  obtain r t e where "occ = (r, t, e)" by (cases occ)
  with Cons starts_materialise_one[of sid loads cfg stamp fresh sweep_job now r t e acc]
  show ?case by auto
qed simp

lemma book_all_own:
  assumes "distinct (map (js_id \<circ> fst) occs)" and "(row, start, e) \<in> set occs"
    and "sched (fst acc) (js_id row) \<noteq> None"
  shows "last_for (fst (book_all loads cfg stamp fresh sweep_job now occs acc)) (js_id row) = Some start \<and>
    (\<exists>xs. starts_of (js_id row) (snd (book_all loads cfg stamp fresh sweep_job now occs acc)) =
       starts_of (js_id row) (snd acc) @ xs \<and> (xs = [] \<or> xs = [start]))"
  using assms
proof (induction occs arbitrary: acc)
  case (Cons occ occs)
  obtain r t e' where occ: "occ = (r, t, e')" by (cases occ)
  let ?acc = "materialise_one loads cfg stamp fresh sweep_job now occ acc"
  show ?case
  proof (cases "occ = (row, start, e)")
    case True
    then have "js_id row \<notin> (js_id \<circ> fst) ` set occs" using Cons.prems(1) by auto
    with True Cons.prems(3) starts_materialise_one[of "js_id row" loads cfg stamp fresh sweep_job now row start e acc]
    show ?thesis by (auto simp: last_book_all_other starts_book_all_other last_materialise_one(1))
  next
    case False
    with Cons.prems have mem: "(row, start, e) \<in> set occs" and ne: "js_id r \<noteq> js_id row"
      using occ by (auto simp: image_iff)
    have "starts_of (js_id row) (snd ?acc) = starts_of (js_id row) (snd acc)"
      using starts_materialise_one[of "js_id row" loads cfg stamp fresh sweep_job now r t e' acc] ne occ by auto
    moreover have "sched (fst ?acc) (js_id row) \<noteq> None"
      using Cons.prems(3) last_materialise_one(2) occ by simp
    ultimately show ?thesis using Cons.IH[of ?acc] Cons.prems(1) mem by simp
  qed
qed simp

lemma set_map_filter: "set (List.map_filter f xs) = {y. \<exists>x \<in> set xs. f x = Some y}"
  by (induction xs) (auto simp: map_filter_simps split: option.splits)

lemma due_row_Some:
  assumes "due_row zones windows now row = Some (start, e)"
  shows "start \<le> now" "js_last_materialised_for row = Some t \<Longrightarrow> t < start"
  using assms unfolding due_row_def by (auto split: option.splits if_splits sum.splits prod.splits)

lemma due_mem:
  "(row, start, e) \<in> set (due zones now s) \<Longrightarrow>
     row \<in> set (sw_schedules s) \<and> start \<le> now \<and>
     (\<forall>t. js_last_materialised_for row = Some t \<longrightarrow> t < start)"
  by (auto simp: due_def set_map_filter dest: due_row_Some)

lemma distinct_due:
  assumes "distinct (map js_id (sw_schedules s))"
  shows "distinct (map (js_id \<circ> fst) (due zones now s))"
proof -
  have "map (js_id \<circ> fst) (List.map_filter
      (\<lambda>row. map_option (\<lambda>occ. (row, fst occ, snd occ)) (f row)) rows) =
    map js_id (filter (\<lambda>row. f row \<noteq> None) rows)" for f :: "job_schedule \<Rightarrow> (instant \<times> instant) option" and rows
    by (induction rows) (auto simp: map_filter_simps split: option.splits)
  with assms show ?thesis by (simp add: due_def distinct_map_filter)
qed

text \<open>
  A run of sweeps, each after whatever other parties did to the store, with the bookings made.
\<close>

fun sweeps ::
  "(string \<Rightarrow> json option) \<Rightarrow> config \<Rightarrow> (string \<Rightarrow> zone option) \<Rightarrow> (instant \<Rightarrow> string) \<Rightarrow>
     ((sweep_db \<Rightarrow> sweep_db) \<times> (string \<Rightarrow> string) \<times> string \<times> instant) list \<Rightarrow> sweep_db \<Rightarrow> made list" where
  "sweeps loads cfg zones stamp [] s = []"
| "sweeps loads cfg zones stamp ((others, fresh, sweep_job, now) # ps) s =
     (let r = materialise_due loads cfg zones stamp fresh sweep_job now (others s)
      in snd r @ sweeps loads cfg zones stamp ps (fst r))"

definition keeps_stamps :: "(sweep_db \<Rightarrow> sweep_db) \<Rightarrow> bool" where
  "keeps_stamps others \<longleftrightarrow>
     (\<forall>s. (distinct (map js_id (sw_schedules s)) \<longrightarrow> distinct (map js_id (sw_schedules (others s)))) \<and>
          (\<forall>sid t. last_for s sid = Some t \<longrightarrow> (\<exists>t' \<ge> t. last_for (others s) sid = Some t')))"

lemma ids_upd_schedule:
  "(\<And>r. js_id (f r) = js_id r) \<Longrightarrow> map js_id (sw_schedules (upd_schedule sid f s)) = map js_id (sw_schedules s)"
  by (simp add: upd_schedule_def tbl_update_comp_key)

lemma ids_materialise_one:
  "map js_id (sw_schedules (fst (materialise_one loads cfg stamp fresh sweep_job now occ acc))) =
     map js_id (sw_schedules (fst acc))"
  by (auto simp: materialise_one_def materialise_def Let_def create_job_def log_line_def disable_schedule_def
      emit_def ids_upd_schedule split: prod.splits)

lemma ids_book_all:
  "map js_id (sw_schedules (fst (book_all loads cfg stamp fresh sweep_job now occs acc))) =
     map js_id (sw_schedules (fst acc))"
  by (induction occs arbitrary: acc) (simp_all add: ids_materialise_one)

text \<open>One pass: at most one booking per schedule, later than the stamp, which follows it.\<close>

lemma materialise_due_step:
  assumes "distinct (map js_id (sw_schedules s))"
  shows "(starts_of sid (snd (materialise_due loads cfg zones stamp fresh sweep_job now s)) = [] \<and>
      (\<forall>t. last_for s sid = Some t \<longrightarrow> (\<exists>t' \<ge> t. last_for (fst (materialise_due loads cfg zones stamp fresh sweep_job now s)) sid = Some t'))) \<or>
    (\<exists>t. starts_of sid (snd (materialise_due loads cfg zones stamp fresh sweep_job now s)) = [t] \<and> last_for (fst (materialise_due loads cfg zones stamp fresh sweep_job now s)) sid = Some t \<and>
      (\<forall>t'. last_for s sid = Some t' \<longrightarrow> t' < t))"
proof (cases "sid \<in> (js_id \<circ> fst) ` set (due zones now s)")
  case True
  then obtain row start e where occ: "(row, start, e) \<in> set (due zones now s)" and sid: "js_id row = sid"
    by force
  from due_mem[OF occ] have row: "row \<in> set (sw_schedules s)"
    and armed: "\<And>t. js_last_materialised_for row = Some t \<Longrightarrow> t < start" by auto
  have "sched s sid = Some row"
    using find_key_unique[of js_id "sw_schedules s" row] assms(1) row sid by (simp add: sched_def)
  then have "last_for s sid = js_last_materialised_for row" by (simp add: last_for_def)
  with book_all_own[OF distinct_due[OF assms(1)] occ, where acc = "(s, [])" and loads = loads and cfg = cfg and
      stamp = stamp and fresh = fresh and sweep_job = sweep_job and now = now] armed sid \<open>sched s sid = Some row\<close>
  show ?thesis unfolding materialise_due_def by (auto intro: less_imp_le)
next
  case False
  then show ?thesis
    unfolding materialise_due_def by (simp add: last_book_all_other starts_book_all_other)
qed

text \<open>
  C23. Each occurrence of a schedule becomes at most one job: in any run of sweeps, whatever
  other parties do to the store in between as long as no schedule's stamp moves back, the
  starts of the jobs booked for a schedule are strictly increasing, and all lie after the stamp
  it had before.
\<close>

theorem occurrence_booked_once:
  assumes "distinct (map js_id (sw_schedules s))"
    and "\<forall>p \<in> set ps. keeps_stamps (fst p)"
  shows "sorted_wrt (<) (starts_of sid (sweeps loads cfg zones stamp ps s)) \<and>
    (\<forall>t. last_for s sid = Some t \<longrightarrow> (\<forall>u \<in> set (starts_of sid (sweeps loads cfg zones stamp ps s)). t < u))"
  using assms
proof (induction ps arbitrary: s)
  case (Cons p ps)
  obtain others fresh sweep_job now where p: "p = (others, fresh, sweep_job, now)" by (cases p)
  let ?o = "others s"
  let ?r = "materialise_due loads cfg zones stamp fresh sweep_job now ?o"
  have keep: "keeps_stamps others" using Cons.prems(2) p by simp
  then have d: "distinct (map js_id (sw_schedules ?o))" using Cons.prems(1) by (simp add: keeps_stamps_def)
  then have "distinct (map js_id (sw_schedules (fst ?r)))"
    by (simp add: materialise_due_def ids_book_all)
  with Cons.IH[of "fst ?r"] Cons.prems(2)
  have ih: "sorted_wrt (<) (starts_of sid (sweeps loads cfg zones stamp ps (fst ?r)))"
    "\<And>t u. last_for (fst ?r) sid = Some t \<Longrightarrow> u \<in> set (starts_of sid (sweeps loads cfg zones stamp ps (fst ?r))) \<Longrightarrow> t < u"
    by auto
  have o: "\<exists>t' \<ge> t. last_for ?o sid = Some t'" if "last_for s sid = Some t" for t
    using keep that by (auto simp: keeps_stamps_def)
  have sw: "starts_of sid (sweeps loads cfg zones stamp (p # ps) s) =
      starts_of sid (snd ?r) @ starts_of sid (sweeps loads cfg zones stamp ps (fst ?r))"
    by (simp add: p Let_def)
  from materialise_due_step[OF d, of sid loads cfg zones stamp fresh sweep_job now] show ?case
  proof (elim disjE exE conjE)
    assume e: "starts_of sid (snd ?r) = []"
      and m: "\<forall>t. last_for ?o sid = Some t \<longrightarrow> (\<exists>t' \<ge> t. last_for (fst ?r) sid = Some t')"
    have "t < u" if "last_for s sid = Some t"
      "u \<in> set (starts_of sid (sweeps loads cfg zones stamp ps (fst ?r)))" for t u
      using o[OF that(1)] m ih(2)[OF _ that(2)] by fastforce
    with e sw ih(1) show ?thesis by simp
  next
    fix t
    assume e: "starts_of sid (snd ?r) = [t]" and l: "last_for (fst ?r) sid = Some t"
      and m: "\<forall>t'. last_for ?o sid = Some t' \<longrightarrow> t' < t"
    have "t' < t" if "last_for s sid = Some t'" for t' using o[OF that] m by fastforce
    moreover have "t < u" if "u \<in> set (starts_of sid (sweeps loads cfg zones stamp ps (fst ?r)))" for u
      using ih(2)[OF l that] .
    ultimately show ?thesis using e sw ih(1) by (fastforce dest: less_trans)
  qed
qed simp

text \<open>
  A schedule in a daily UTC window of four hours from 02:00, owned by the system: two sweeps
  inside the window of day 5 and one in that of day 6 book two jobs.
\<close>

definition nightly :: change_window where
  "nightly =
     \<lparr> cw_id = ''w3'', cw_name = ''Nightly'', cw_start_at_local = Some ''02:00'',
       cw_duration_minutes = Some 240, cw_timezone = None, cw_schedule_days = None, cw_enabled = Some True \<rparr>"

definition nightly_schedule :: job_schedule where
  "nightly_schedule =
     \<lparr> js_id = ''s1'', js_name = ''Patch'', js_change_window_id = Some ''w3'', js_job_type = ''ansible_local'',
       js_payload = ENull, js_workgroup = None, js_agent_id = None, js_vm_path = None,
       js_approval_required = None, js_created_by = None, js_enabled = Some True,
       js_last_materialised_for = Some (seconds (4 * 86400 + 7200)), js_last_run_at = None,
       js_last_job_id = None, js_consecutive_failures = 0, js_disabled_reason = None \<rparr>"

definition nightly_store :: sweep_db where
  "nightly_store =
     \<lparr> sw_db = empty_db, sw_logs = [], sw_schedules = [nightly_schedule], sw_windows = [nightly],
       sw_users = [] \<rparr>"

definition nightly_sweeps :: "((sweep_db \<Rightarrow> sweep_db) \<times> (string \<Rightarrow> string) \<times> string \<times> instant) list" where
  "nightly_sweeps =
     [(\<lambda>s. s, \<lambda>_. ''j1'', ''k1'', seconds (5 * 86400 + 7500)),
      (\<lambda>s. s, \<lambda>_. ''j2'', ''k2'', seconds (5 * 86400 + 7800)),
      (\<lambda>s. s, \<lambda>_. ''j3'', ''k3'', seconds (6 * 86400 + 7500))]"

theorem occurrence_booked_once_witness:
  "starts_of ''s1'' (sweeps (\<lambda>_. None) default_config sample_zones (\<lambda>_. []) nightly_sweeps nightly_store) =
     [seconds (5 * 86400 + 7200), seconds (6 * 86400 + 7200)] \<and>
   sorted_wrt (<)
     (starts_of ''s1'' (sweeps (\<lambda>_. None) default_config sample_zones (\<lambda>_. []) nightly_sweeps nightly_store))"
proof
  show "starts_of ''s1'' (sweeps (\<lambda>_. None) default_config sample_zones (\<lambda>_. []) nightly_sweeps nightly_store) =
     [seconds (5 * 86400 + 7200), seconds (6 * 86400 + 7200)]"
    by code_simp
  have "distinct (map js_id (sw_schedules nightly_store))" by (simp add: nightly_store_def)
  moreover have "\<forall>p \<in> set nightly_sweeps. keeps_stamps (fst p)"
    by (auto simp: nightly_sweeps_def keeps_stamps_def)
  ultimately show "sorted_wrt (<)
     (starts_of ''s1'' (sweeps (\<lambda>_. None) default_config sample_zones (\<lambda>_. []) nightly_sweeps nightly_store))"
    using occurrence_booked_once by blast
qed

section \<open>Failures are counted per pass\<close>

text \<open>What one finished job does to its schedule.\<close>

definition noted :: "job \<Rightarrow> job_schedule \<Rightarrow> job_schedule" where
  "noted j r =
     (if j_status j = ''completed'' then r\<lparr> js_consecutive_failures := 0 \<rparr>
      else if j_status j \<notin> {''failed'', ''cancelled''} then r
      else
        (let n = js_consecutive_failures r + 1; r1 = r\<lparr> js_consecutive_failures := n \<rparr>
         in if n \<ge> MAX_CONSECUTIVE_FAILURES \<and> js_enabled r \<noteq> Some False then
              r1\<lparr> js_enabled := Some False,
                  js_disabled_reason := Some (''disabled automatically after '' @ py_str_int n @
                    '' consecutive failed runs '' @ em_dash @ '' the last was job '' @ j_id j) \<rparr>
            else r1))"

lemma find_schedule: "List.find (\<lambda>r. js_id r = sid) (sw_schedules s) = sched s sid"
  by (simp add: sched_def)

lemma sched_note_result:
  "sched (note_result j s) k =
     (if j_job_schedule_id j = Some k \<and> k \<noteq> [] then map_option (noted j) (sched s k) else sched s k)"
proof (cases "j_job_schedule_id j")
  case (Some sid)
  show ?thesis
  proof (cases "sched s sid")
    case None
    with Some show ?thesis by (auto simp: note_result_def find_schedule)
  next
    case (Some r)
    then have "js_id r = sid" by (auto simp: sched_def dest: find_Some_set)
    with Some \<open>j_job_schedule_id j = Some sid\<close> show ?thesis
      by (auto simp: note_result_def find_schedule noted_def Let_def sched_simps)
  qed
qed (simp add: note_result_def)

lemma jobs_note_result: "jobs (sw_db (note_result j s)) = jobs (sw_db s)"
  by (auto simp: note_result_def Let_def sched_simps split: option.splits)

lemma jobs_note_finished: "jobs (sw_db (note_finished now s)) = jobs (sw_db s)"
proof -
  have "jobs (sw_db (fold note_result js s)) = jobs (sw_db s)" for js
    by (induction js arbitrary: s) (simp_all add: jobs_note_result)
  then show ?thesis by (simp add: note_finished_def)
qed

lemma sched_note_finished:
  assumes "sid \<noteq> []"
  shows "sched (note_finished now s) sid =
    fold (\<lambda>j. map_option (noted j))
      (filter (\<lambda>j. j_job_schedule_id j = Some sid \<and> finished_occurrence now j) (jobs (sw_db s))) (sched s sid)"
proof -
  have "sched (fold note_result (filter p js) s) sid =
      fold (\<lambda>j. map_option (noted j)) (filter (\<lambda>j. j_job_schedule_id j = Some sid \<and> p j) js) (sched s sid)"
    for js p by (induction js arbitrary: s) (simp_all add: sched_note_result assms)
  then show ?thesis by (simp add: note_finished_def)
qed

text \<open>
  The pass looks three hours back and adds one to a schedule's failures for every failed or
  cancelled job it finds, also when an earlier pass has counted that job. A schedule with one
  failed occurrence in that time has, after \<open>n\<close> passes, \<open>n\<close> "consecutive failures", and is
  switched off from the third pass on.
\<close>

theorem failure_counted_every_pass:
  assumes "filter (\<lambda>j. j_job_schedule_id j = Some sid) (jobs (sw_db s)) = [j]" and "sid \<noteq> []"
    and "j_status j \<in> {''failed'', ''cancelled''}" and "j_completed_at j = Some c"
    and "sched s sid = Some r" and "js_consecutive_failures r = 0" and "js_enabled r \<noteq> Some False"
    and "\<forall>t \<in> set passes. t \<le> c + seconds FINISHED_LOOKBACK"
  shows "\<exists>r'. sched (fold note_finished passes s) sid = Some r' \<and>
    js_consecutive_failures r' = int (length passes) \<and>
    (js_enabled r' = Some False \<longleftrightarrow> 3 \<le> length passes)"
  using assms(8)
proof (induction passes rule: rev_induct)
  case Nil
  with assms show ?case by auto
next
  case (snoc t passes)
  let ?s = "fold note_finished passes s"
  obtain r' where r': "sched ?s sid = Some r'" "js_consecutive_failures r' = int (length passes)"
    "js_enabled r' = Some False \<longleftrightarrow> 3 \<le> length passes"
    using snoc by auto
  have "jobs (sw_db (fold note_finished ts s)) = jobs (sw_db s)" for ts
    by (induction ts arbitrary: s) (simp_all add: jobs_note_finished)
  then have "filter (\<lambda>j. j_job_schedule_id j = Some sid \<and> finished_occurrence t j) (jobs (sw_db ?s)) =
      filter (finished_occurrence t) [j]"
    unfolding assms(1)[symmetric] by (simp add: conj_commute)
  moreover have "j \<in> set (filter (\<lambda>j. j_job_schedule_id j = Some sid) (jobs (sw_db s)))" using assms(1) by simp
  then have "finished_occurrence t j" using assms(3,4) snoc.prems by (auto simp: finished_occurrence_def)
  ultimately have "sched (note_finished t ?s) sid = Some (noted j r')"
    using sched_note_finished[OF assms(2), of t ?s] r'(1) by simp
  then show ?case using r' assms(3) by (auto simp: noted_def Let_def MAX_CONSECUTIVE_FAILURES_def)
qed

text \<open>A nightly run that failed once, at its start on day 5, under three passes five minutes apart.\<close>

definition failed_night :: job where
  "failed_night =
     (snd (create_job (\<lambda>_. None) default_config (seconds (5 * 86400 + 7200)) ''j1''
        (occurrence_job nightly_schedule (seconds (5 * 86400 + 7200)) (seconds (5 * 86400 + 21600))) empty_db))
       \<lparr> j_status := ''failed'', j_completed_at := Some (seconds (5 * 86400 + 7260)) \<rparr>"

definition failed_store :: sweep_db where
  "failed_store = nightly_store\<lparr> sw_db := empty_db\<lparr> jobs := [failed_night] \<rparr> \<rparr>"

theorem failure_counted_every_pass_witness:
  "\<exists>r'. sched (fold note_finished
       [seconds (5 * 86400 + 7500), seconds (5 * 86400 + 7800), seconds (5 * 86400 + 8100)] failed_store) ''s1'' =
       Some r' \<and>
     js_consecutive_failures r' = 3 \<and> js_enabled r' = Some False"
proof -
  have row: "j_job_schedule_id failed_night = Some ''s1''" "j_status failed_night = ''failed''"
    "j_completed_at failed_night = Some (seconds (5 * 86400 + 7260))"
    by (simp_all add: failed_night_def create_job_def new_row_def occurrence_job_def nightly_schedule_def
        or_none_def Let_def)
  have "filter (\<lambda>j. j_job_schedule_id j = Some ''s1'') (jobs (sw_db failed_store)) = [failed_night]"
    by (simp add: failed_store_def row)
  moreover have "sched failed_store ''s1'' = Some nightly_schedule"
    by (simp add: sched_def failed_store_def nightly_store_def nightly_schedule_def)
  moreover have "js_consecutive_failures nightly_schedule = 0" "js_enabled nightly_schedule \<noteq> Some False"
    by (simp_all add: nightly_schedule_def)
  moreover have "\<forall>t \<in> set [seconds (5 * 86400 + 7500), seconds (5 * 86400 + 7800), seconds (5 * 86400 + 8100)].
      t \<le> seconds (5 * 86400 + 7260) + seconds FINISHED_LOOKBACK"
    by (simp add: seconds_def FINISHED_LOOKBACK_def)
  ultimately show ?thesis
    using failure_counted_every_pass[of "''s1''" failed_store failed_night "seconds (5 * 86400 + 7260)"
        nightly_schedule "[seconds (5 * 86400 + 7500), seconds (5 * 86400 + 7800), seconds (5 * 86400 + 8100)]"] row
    by auto
qed

section \<open>Missed windows\<close>

lemma missed_notice_row:
  "missed_notice isof (missed_row now r j) reason = missed_notice isof j reason"
  by (simp add: missed_notice_def missed_row_def)

lemma reap_one_undisturbed:
  assumes "distinct (map j_id (jobs (sw_db s)))" and "j \<in> set (jobs (sw_db s))"
  shows "jobs (sw_db (fst (reap_one stamp isof clock (\<lambda>_ db. db) sweep_job now j (s, acc)))) =
      map (\<lambda>k. if k = j then missed_row (clock (j_id j)) (missed_reason stamp now j) k else k) (jobs (sw_db s))"
    and "outbox (sw_db (fst (reap_one stamp isof clock (\<lambda>_ db. db) sweep_job now j (s, acc)))) =
      outbox (sw_db s) @ [missed_notice isof j (missed_reason stamp now j)]"
    and "snd (reap_one stamp isof clock (\<lambda>_ db. db) sweep_job now j (s, acc)) =
      acc @ [\<lparr> rp_job_id = j_id j, rp_job_type = j_job_type j, rp_created_by = j_created_by j \<rparr>]"
proof -
  have key: "k = j \<longleftrightarrow> j_id k = j_id j" if "k \<in> set (jobs (sw_db s))" for k
    using assms(1,2) that by (auto simp: distinct_map inj_on_def)
  have "get_job (sw_db s) (j_id j) = Some j"
    using find_key_unique[of j_id "jobs (sw_db s)" j] assms(1,2) by (simp add: get_job_def)
  then have get: "get_job (set_missed_window t (j_id j) x (sw_db s)) (j_id j) = Some (missed_row t x j)" for t x
    by (simp add: set_missed_window_def missed.get_job_upd_job)
  have row: "j_id (missed_row t x j) = j_id j" "j_job_type (missed_row t x j) = j_job_type j"
    "j_created_by (missed_row t x j) = j_created_by j" for t x by (simp_all add: missed_row_def)
  show "jobs (sw_db (fst (reap_one stamp isof clock (\<lambda>_ db. db) sweep_job now j (s, acc)))) =
      map (\<lambda>k. if k = j then missed_row (clock (j_id j)) (missed_reason stamp now j) k else k) (jobs (sw_db s))"
    using get key by (simp add: reap_one_def Let_def sched_simps)
      (simp add: set_missed_window_def upd_job_def tbl_update_def)
  show "outbox (sw_db (fst (reap_one stamp isof clock (\<lambda>_ db. db) sweep_job now j (s, acc)))) =
      outbox (sw_db s) @ [missed_notice isof j (missed_reason stamp now j)]"
    using get by (simp add: reap_one_def Let_def emit_def log_line_def missed_notice_row)
      (simp add: set_missed_window_def)
  show "snd (reap_one stamp isof clock (\<lambda>_ db. db) sweep_job now j (s, acc)) =
      acc @ [\<lparr> rp_job_id = j_id j, rp_job_type = j_job_type j, rp_created_by = j_created_by j \<rparr>]"
    using get row by (simp add: reap_one_def Let_def)
qed

lemma reap_all:
  assumes "distinct (map j_id (jobs (sw_db s)))" and "set js \<subseteq> set (jobs (sw_db s))" and "distinct js"
  shows "jobs (sw_db (fst (fold (reap_one stamp isof clock (\<lambda>_ db. db) sweep_job now) js (s, acc)))) =
      map (\<lambda>k. if k \<in> set js then missed_row (clock (j_id k)) (missed_reason stamp now k) k else k) (jobs (sw_db s)) \<and>
    outbox (sw_db (fst (fold (reap_one stamp isof clock (\<lambda>_ db. db) sweep_job now) js (s, acc)))) =
      outbox (sw_db s) @ map (\<lambda>j. missed_notice isof j (missed_reason stamp now j)) js \<and>
    snd (fold (reap_one stamp isof clock (\<lambda>_ db. db) sweep_job now) js (s, acc)) =
      acc @ map (\<lambda>j. \<lparr> rp_job_id = j_id j, rp_job_type = j_job_type j, rp_created_by = j_created_by j \<rparr>) js"
  using assms
proof (induction js arbitrary: s acc)
  case (Cons j js)
  let ?r = "reap_one stamp isof clock (\<lambda>_ db. db) sweep_job now j (s, acc)"
  obtain s' acc' where r: "?r = (s', acc')" by (cases ?r)
  have one: "jobs (sw_db s') =
      map (\<lambda>k. if k = j then missed_row (clock (j_id j)) (missed_reason stamp now j) k else k) (jobs (sw_db s))"
    "outbox (sw_db s') = outbox (sw_db s) @ [missed_notice isof j (missed_reason stamp now j)]"
    "acc' = acc @ [\<lparr> rp_job_id = j_id j, rp_job_type = j_job_type j, rp_created_by = j_created_by j \<rparr>]"
    using reap_one_undisturbed[OF Cons.prems(1), of j stamp isof clock sweep_job now acc] Cons.prems(2) r by auto
  have same: "k \<in> set js \<Longrightarrow> j_id k = j_id j \<Longrightarrow> False" for k
    using Cons.prems by (metis distinct.simps(2) distinct_map inj_onD list.set_intros(1) list.set_intros(2) subset_iff)
  have ids: "map j_id (jobs (sw_db s')) = map j_id (jobs (sw_db s))"
    unfolding one(1) by (auto simp: missed.keeps_id)
  have rest: "set js \<subseteq> set (jobs (sw_db s'))"
    using Cons.prems(2,3) by (fastforce simp: one(1) image_iff)
  have not_new: "missed_row t x j \<notin> set js" for t x using same missed.keeps_id by blast
  have "distinct (map j_id (jobs (sw_db s')))" using Cons.prems(1) ids by simp
  from Cons.IH[OF this rest, of acc'] Cons.prems(3) show ?case
    by (auto simp: r one not_new)
qed simp

lemma due_missed_sub: "set (due_missed now db) \<subseteq> {j \<in> set (jobs db). missed_candidate now j}"
  using set_take_subset by (fastforce simp: due_missed_def)

lemma distinct_due_missed: "distinct (map j_id (jobs db)) \<Longrightarrow> distinct (due_missed now db)"
  unfolding due_missed_def by (intro distinct_take) (simp add: distinct_map)

text \<open>
  The missed-window pass. With nobody else writing, it cancels exactly the rows of its
  query: waiting ones whose window closed more than 90 seconds ago, all of them unless there are
  more than 200, with the reason, the missed mark and one \<open>job.window_missed\<close> notice each; every
  other row, a running one in particular, is left as it was.
\<close>

theorem reap_missed_exact:
  assumes "db_ok (sw_db s)"
  shows "let M = due_missed now (sw_db s); R = reap_missed stamp isof clock (\<lambda>_ db. db) sweep_job now s in
    jobs (sw_db (fst R)) =
      map (\<lambda>k. if k \<in> set M
                then k\<lparr> j_status := ''cancelled'', j_missed_window_at := Some (clock (j_id k)),
                        j_completed_at := Some (clock (j_id k)),
                        j_error_message := Some (missed_reason stamp now k) \<rparr>
                else k) (jobs (sw_db s)) \<and>
    outbox (sw_db (fst R)) =
      outbox (sw_db s) @ map (\<lambda>j. missed_notice isof j (missed_reason stamp now j)) M \<and>
    map rp_job_id (snd R) = map j_id M \<and>
    set M \<subseteq> {j \<in> set (jobs (sw_db s)). missed_candidate now j} \<and>
    (length (filter (missed_candidate now) (jobs (sw_db s))) \<le> REAP_BATCH \<longrightarrow>
       set M = {j \<in> set (jobs (sw_db s)). missed_candidate now j})"
proof -
  let ?M = "due_missed now (sw_db s)"
  have d: "distinct (map j_id (jobs (sw_db s)))" using assms by (simp add: db_ok_def)
  have sub: "set ?M \<subseteq> set (jobs (sw_db s))" using due_missed_sub by blast
  have row: "missed_row t x k = k\<lparr> j_status := ''cancelled'', j_missed_window_at := Some t,
      j_completed_at := Some t, j_error_message := Some x \<rparr>" if "k \<in> set ?M" for k t x
    using due_missed_sub[of now "sw_db s"] that by (auto simp: missed_row_def missed_candidate_def)
  have full: "set ?M = {j \<in> set (jobs (sw_db s)). missed_candidate now j}"
    if "length (filter (missed_candidate now) (jobs (sw_db s))) \<le> REAP_BATCH"
    using that by (simp add: due_missed_def)
  from reap_all[OF d sub distinct_due_missed[OF d], where acc = "[]" and stamp = stamp and isof = isof and
      clock = clock and sweep_job = sweep_job and now = now] row full due_missed_sub
  show ?thesis by (simp add: Let_def reap_missed_def)
qed

text \<open>A nightly run of day 5 that never got its turn, seven hours after its window opened.\<close>

definition late_night :: job where
  "late_night =
     snd (create_job (\<lambda>_. None) default_config (seconds (5 * 86400 + 7200)) ''j1''
        (occurrence_job nightly_schedule (seconds (5 * 86400 + 7200)) (seconds (5 * 86400 + 21600))) empty_db)"

definition late_store :: sweep_db where
  "late_store = nightly_store\<lparr> sw_db := empty_db\<lparr> jobs := [late_night] \<rparr> \<rparr>"

lemma late_night_simps [simp]:
  "j_id late_night = ''j1''" "j_status late_night = ''pending''" "j_job_type late_night = ''ansible_local''"
  "j_window_ends_at late_night = Some (seconds (5 * 86400 + 21600))"
  "j_scheduled_for late_night = Some (seconds (5 * 86400 + 7200))"
  "j_retry_after late_night = None" "j_approval_required late_night = None"
  by (simp_all add: late_night_def create_job_def new_row_def occurrence_job_def nightly_schedule_def
      or_none_def Let_def)

lemma late_store_ok: "db_ok (sw_db late_store)"
proof -
  have "row_ok late_night"
    unfolding late_night_def create_job_def Let_def snd_conv
    by (rule new_row_ok) (simp add: occurrence_job_def)
  then show ?thesis by (simp add: db_ok_def late_store_def)
qed

lemma late_night_missed: "missed_candidate (seconds (464400)) late_night"
  by (simp add: missed_candidate_def MISSED_GRACE_def seconds_def)

theorem reap_missed_exact_witness:
  "map rp_job_id (snd (reap_missed (\<lambda>_. []) (\<lambda>_. []) (\<lambda>_. 0) (\<lambda>_ db. db) ''k1'' (seconds (464400)) late_store)) =
     [''j1''] \<and>
   map j_status (jobs (sw_db (fst (reap_missed (\<lambda>_. []) (\<lambda>_. []) (\<lambda>_. 0) (\<lambda>_ db. db) ''k1''
     (seconds (464400)) late_store)))) = [''cancelled'']"
proof -
  have "due_missed (seconds (464400)) (sw_db late_store) = [late_night]"
    by (simp add: due_missed_def late_store_def late_night_missed REAP_BATCH_def)
  with reap_missed_exact[OF late_store_ok, of "seconds (464400)"] show ?thesis
    by (simp add: Let_def late_store_def)
qed

text \<open>
  When the row is claimed between the query and the write, it stays running, and the pass still
  reports it as reaped and announces that it was not run.
\<close>

lemma reap_announces_claimed:
  assumes "db_ok (sw_db s)" and "get_job (sw_db s) (j_id j) = Some j" and "j_status j = ''pending''"
    and "j_approval_required j \<noteq> Some True"
  shows "let R = reap_one stamp isof clock (\<lambda>jid db. fst (claim_update t ''pending'' jid db)) sweep_job now j (s, []) in
    get_job (sw_db (fst R)) (j_id j) = Some (running_row t j) \<and>
    map rp_job_id (snd R) = [j_id j] \<and>
    outbox (sw_db (fst R)) = outbox (sw_db s) @ [missed_notice isof j (missed_reason stamp now j)]"
proof -
  let ?db = "fst (claim_update t ''pending'' (j_id j) (sw_db s))"
  have run: "get_job ?db (j_id j) = Some (running_row t j)"
    using assms(2,3) by (simp add: get_job_claim_update)
  have id: "missed_row u x (running_row t j) = running_row t j" for u x
    by (simp add: missed_row_def running_row_def)
  have "get_job (set_missed_window u (j_id j) x ?db) (j_id j) = Some (running_row t j)" for u x
    using run id by (simp add: set_missed_window_def missed.get_job_upd_job)
  moreover have "outbox (set_missed_window u (j_id j) x ?db) = outbox (sw_db s)" for u x
    by (simp add: set_missed_window_def claim_update_def Let_def)
  moreover have "missed_notice isof (running_row t j) x = missed_notice isof j x" for x
    by (simp add: missed_notice_def running_row_def)
  ultimately show ?thesis
    by (auto simp: reap_one_def Let_def emit_def log_line_def running_row_def get_job_def)
qed

section \<open>The claim does not look at the window\<close>

text \<open>
  Neither claim query tests \<open>window_ends_at\<close>: a pending job whose window closed more than 90
  seconds ago, so that the next sweep would mark it missed, is handed to a job runner that asks
  first and becomes running; from then on no sweep ever marks it missed.
\<close>

theorem closed_window_still_claimed:
  assumes "db_ok db" and "allowed \<noteq> []"
    and "claim_select (clock 9) allowed db = Some j" and "missed_candidate (clock 9) j"
  shows "\<exists>db'. claim_one clock (\<lambda>_ db. db) allowed db = (db', Some (j_id j, j_job_type j, metadata_dict j)) \<and>
    get_job db' (j_id j) = Some (running_row (clock 9) j) \<and>
    the (j_window_ends_at (running_row (clock 9) j)) + seconds 90 < the (j_started_at (running_row (clock 9) j)) \<and>
    (\<forall>later. \<forall>k \<in> set (due_missed later db'). j_id k \<noteq> j_id j)"
proof -
  let ?db = "fst (claim_update (clock 9) ''pending'' (j_id j) db)"
  note c = claim_one_undisturbed[where clock = clock, OF assms(1-3)]
  have ok: "db_ok ?db" using db_ok_claim_update[OF assms(1)] .
  have "j_id k \<noteq> j_id j" if "k \<in> set (due_missed later ?db)" for later k
  proof
    assume same: "j_id k = j_id j"
    from that due_missed_sub have k: "k \<in> set (jobs ?db)" "missed_candidate later k" by blast+
    have "get_job ?db (j_id k) = Some k"
      using find_key_unique[of j_id "jobs ?db" k] ok k(1) by (simp add: get_job_def db_ok_def)
    with c(3) same have "k = running_row (clock 9) j" by simp
    with k(2) show False by (simp add: missed_candidate_def running_row_def)
  qed
  moreover have "the (j_window_ends_at (running_row (clock 9) j)) + seconds 90 <
      the (j_started_at (running_row (clock 9) j))"
    using assms(4) by (auto simp: missed_candidate_def running_row_def MISSED_GRACE_def split: option.splits)
  ultimately show ?thesis using c by blast
qed

theorem closed_window_still_claimed_witness:
  "\<exists>db'. claim_one (\<lambda>_. seconds (464400)) (\<lambda>_ db. db) [''ansible_local''] (sw_db late_store) =
       (db', Some (''j1'', ''ansible_local'', [])) \<and>
     get_job db' ''j1'' = Some (running_row (seconds (464400)) late_night)"
proof -
  have "claim_candidate (seconds (464400)) [''ansible_local''] late_night"
    by (simp add: claim_candidate_def claimable_now_def seconds_def)
  then have "claim_select (seconds (464400)) [''ansible_local''] (sw_db late_store) = Some late_night"
    by (simp add: claim_select_def late_store_def)
  moreover have "metadata_dict late_night = []"
    by (simp add: metadata_dict_def late_night_def create_job_def new_row_def occurrence_job_def
        nightly_schedule_def payload_dict_def Let_def)
  ultimately show ?thesis
    using closed_window_still_claimed[OF late_store_ok, of "[''ansible_local'']"
        "\<lambda>_. seconds (464400)" late_night] late_night_missed by auto
qed

end
