(* ===== verification/Notify_Policy.thy ===== *)
theory Notify_Policy
  imports Config
begin

text \<open>
  \<open>services/notify_policy.py\<close> and the payload builders of \<open>services/notify_transports.py\<close>: which
  events are worth sending, what they say in each format, the key that makes one fire once, the
  retry schedule, and what counts as an accepted response. Text is ASCII where its length
  matters. Parameters: \<open>sha\<close>, the hexadecimal SHA-256 of a text; \<open>occurred\<close>, the rendered clock.
\<close>

section \<open>The event catalogue\<close>

definition EVENT_SEVERITY :: "(string \<times> string) list" where
  "EVENT_SEVERITY =
     [(''resource.expiring'', ''warning''), (''resource.reaped'', ''critical''), (''job.failed'', ''warning''),
      (''cost.budget_exceeded'', ''warning''), (''vm.spend_warn'', ''warning''), (''vm.spend_capped'', ''critical''),
      (''vm.spend_unpriced'', ''warning''), (''job.dead_lettered'', ''critical''), (''secret.stale'', ''warning''),
      (''config.drift'', ''warning''), (''audit.chain_broken'', ''critical''), (''job.window_missed'', ''warning''),
      (''job.awaiting_approval'', ''warning''), (''pov.owner_changed'', ''warning''), (''agent.attention'', ''warning''),
      (''notification.test'', ''info'')]"

definition DEFAULT_EVENT_TYPES :: string where
  "DEFAULT_EVENT_TYPES =
     ''resource.expiring,resource.reaped,job.failed,'' @
     ''cost.budget_exceeded,secret.stale,config.drift,audit.chain_broken,'' @
     ''vm.spend_warn,vm.spend_capped,vm.spend_unpriced,job.dead_lettered,'' @
     ''job.window_missed,job.awaiting_approval,pov.owner_changed,agent.attention''"

definition SEVERITY_ORDER :: "string list" where
  "SEVERITY_ORDER = [''info'', ''warning'', ''critical'']"

definition NOTIFY_BACKOFF_SECONDS :: "int list" where
  "NOTIFY_BACKOFF_SECONDS = [30, 120, 600, 1800]"

definition RETRY_AFTER_CAP_SECONDS :: int where
  "RETRY_AFTER_CAP_SECONDS = 1800"

definition STALE_SENDING_SECONDS :: int where
  "STALE_SENDING_SECONDS = 600"

definition MAX_SUBJECT_CHARS :: nat where
  "MAX_SUBJECT_CHARS = 180"

definition MAX_DEDUPE_CHARS :: nat where
  "MAX_DEDUPE_CHARS = 200"

record event =
  ne_event_type :: string
  ne_title :: string
  ne_body :: string
  ne_severity :: string
  ne_resource_id :: string
  ne_resource_kind :: string
  ne_resource_name :: string
  ne_cloud :: string
  ne_region :: string
  ne_workgroup :: string
  ne_url :: string
  ne_dedupe_bucket :: string
  ne_fields :: "(string \<times> string) list"

definition effective_severity :: "event \<Rightarrow> string" where
  "effective_severity ev =
     (let sev = py_lower (py_strip (ne_severity ev))
      in if sev \<in> set SEVERITY_ORDER then sev
         else (case map_of EVENT_SEVERITY (ne_event_type ev) of None \<Rightarrow> ''info'' | Some s \<Rightarrow> s))"

section \<open>Settings\<close>

text \<open>\<open>str(v)\<close> of a settings value, and \<open>_str\<close> and \<open>_int\<close> of the module.\<close>

fun pyval_str :: "pyval \<Rightarrow> string" where
  "pyval_str PNone = ''None''"
| "pyval_str (PBool b) = (if b then ''True'' else ''False'')"
| "pyval_str (PInt i) = py_str_int i"
| "pyval_str (PStr s) = s"

definition notify_str :: "config \<Rightarrow> string \<Rightarrow> string \<Rightarrow> string" where
  "notify_str cfg key dflt =
     (let raw = (case config_get cfg key [] of None \<Rightarrow> [] | Some s \<Rightarrow> s);
          v = (if raw = [] then getattr_setting cfg key (PStr dflt) else PStr raw)
      in py_strip (if py_bool v then pyval_str v else dflt))"

definition notify_int :: "config \<Rightarrow> string \<Rightarrow> int \<Rightarrow> int" where
  "notify_int cfg key dflt =
     (let raw = notify_str cfg key []
      in if raw = [] then dflt
         else (case py_int_of_string raw of None \<Rightarrow> dflt | Some i \<Rightarrow> i))"

definition notify_enabled :: "config \<Rightarrow> bool" where
  "notify_enabled cfg = policy_flag cfg ''notifications_enabled'' False"

definition notify_dry_run :: "config \<Rightarrow> bool" where
  "notify_dry_run cfg = policy_flag cfg ''notify_dry_run'' True"

definition allow_private_targets :: "config \<Rightarrow> bool" where
  "allow_private_targets cfg = policy_flag cfg ''notifications_allow_private_targets'' False"

definition rstrip_slash :: "string \<Rightarrow> string" where
  "rstrip_slash s = rev (dropWhile (\<lambda>c. c = CHR ''/'') (rev s))"

definition base_url :: "config \<Rightarrow> string" where
  "base_url cfg = rstrip_slash (notify_str cfg ''notify_base_url'' [])"

definition min_severity :: "config \<Rightarrow> string" where
  "min_severity cfg =
     (let sev = py_lower (notify_str cfg ''notify_min_severity'' ''warning'')
      in if sev \<in> set SEVERITY_ORDER then sev else ''warning'')"

definition parse_event_types :: "string \<Rightarrow> string list" where
  "parse_event_types raw = filter (\<lambda>t. t \<noteq> []) (map py_strip (split_on (CHR '','') raw))"

definition event_types :: "config \<Rightarrow> string list" where
  "event_types cfg =
     (let raw = notify_str cfg ''notify_event_types'' []
      in parse_event_types (if raw = [] then DEFAULT_EVENT_TYPES else raw))"

definition http_timeout_s :: "config \<Rightarrow> int" where
  "http_timeout_s cfg = max 1 (notify_int cfg ''notify_http_timeout_s'' 10)"

definition flush_interval_seconds :: "config \<Rightarrow> int" where
  "flush_interval_seconds cfg = max 5 (notify_int cfg ''notify_flush_interval_s'' 30)"

definition scan_interval_seconds :: "config \<Rightarrow> int" where
  "scan_interval_seconds cfg = max 300 (notify_int cfg ''notify_scan_interval_s'' 3600)"

definition notify_max_attempts :: "config \<Rightarrow> int" where
  "notify_max_attempts cfg =
     max 1 (min (int (length NOTIFY_BACKOFF_SECONDS) + 1) (notify_int cfg ''notify_max_attempts'' 4))"

definition max_per_flush :: "config \<Rightarrow> int" where
  "max_per_flush cfg = max 1 (notify_int cfg ''notify_max_per_flush'' 50)"

definition max_queue :: "config \<Rightarrow> int" where
  "max_queue cfg = max 1 (notify_int cfg ''notify_max_queue'' 500)"

definition retention_days :: "config \<Rightarrow> int" where
  "retention_days cfg = max 0 (notify_int cfg ''notify_retention_days'' 30)"

section \<open>Gating\<close>

fun index_of :: "'a \<Rightarrow> 'a list \<Rightarrow> nat option" where
  "index_of x [] = None"
| "index_of x (y # ys) = (if x = y then Some 0 else map_option Suc (index_of x ys))"

definition severity_rank :: "string \<Rightarrow> nat" where
  "severity_rank severity =
     (case index_of (py_lower severity) SEVERITY_ORDER of None \<Rightarrow> 0 | Some i \<Rightarrow> i)"

definition should_notify :: "config \<Rightarrow> event \<Rightarrow> string list \<Rightarrow> bool" where
  "should_notify cfg ev endpoint_event_types =
     (if \<not> notify_enabled cfg then False
      else if severity_rank (effective_severity ev) < severity_rank (min_severity cfg) then False
      else if ne_event_type ev \<notin> set (event_types cfg) then False
      else if endpoint_event_types \<noteq> [] then ne_event_type ev \<in> set endpoint_event_types
      else True)"

definition notify_backoff_seconds :: "int \<Rightarrow> int" where
  "notify_backoff_seconds attempts =
     NOTIFY_BACKOFF_SECONDS ! nat (max 0 (min (int (length NOTIFY_BACKOFF_SECONDS) - 1) attempts))"

text \<open>A missing header is \<open>None\<close>; \<open>str(None)\<close> is not a number.\<close>

definition retry_after_seconds :: "string option \<Rightarrow> int \<Rightarrow> int" where
  "retry_after_seconds header dflt =
     (case Option.bind header (\<lambda>h. py_int_of_string (py_strip h)) of
        None \<Rightarrow> dflt
      | Some secs \<Rightarrow> max 1 (min RETRY_AFTER_CAP_SECONDS secs))"

section \<open>Rendering\<close>

definition py_split :: "string \<Rightarrow> string list" where
  "py_split s = filter (\<lambda>w. w \<noteq> [])
     (split_on (CHR '' '') (map (\<lambda>c. if is_space c then CHR '' '' else c) s))"

fun join_str :: "string \<Rightarrow> string list \<Rightarrow> string" where
  "join_str sep [] = []"
| "join_str sep [w] = w"
| "join_str sep (w # v # ws) = w @ sep @ join_str sep (v # ws)"

definition py_rstrip :: "string \<Rightarrow> string" where
  "py_rstrip s = rev (dropWhile is_space (rev s))"

definition ellipsis :: string where
  "ellipsis = [CHR 0xE2, CHR 0x80, CHR 0xA6]"

definition clean_subject :: "string \<Rightarrow> string" where
  "clean_subject txt =
     (let flat = join_str '' '' (py_split txt)
      in if length flat > MAX_SUBJECT_CHARS
         then py_rstrip (take (MAX_SUBJECT_CHARS - 1) flat) @ ellipsis else flat)"

definition absolute_url :: "config \<Rightarrow> string \<Rightarrow> string" where
  "absolute_url cfg path =
     (let root = base_url cfg; p = py_strip path
      in if root = [] \<or> p = [] then []
         else if starts_with ''http://'' p \<or> starts_with ''https://'' p then p
         else root @ ''/'' @ dropWhile (\<lambda>c. c = CHR ''/'') p)"

definition event_facts :: "event \<Rightarrow> (string \<times> string) list" where
  "event_facts ev =
     (if ne_resource_kind ev \<noteq> [] then [(''Kind'', ne_resource_kind ev)] else []) @
     (if ne_cloud ev \<noteq> [] then
        [(''Cloud'', if ne_region ev \<noteq> [] then ne_cloud ev @ '' / '' @ ne_region ev else ne_cloud ev)]
      else []) @
     (if ne_workgroup ev \<noteq> [] then [(''Workgroup'', ne_workgroup ev)] else []) @
     filter (\<lambda>(_, v). v \<noteq> []) (ne_fields ev)"

definition py_upper_char :: "char \<Rightarrow> char" where
  "py_upper_char c =
     (let n = of_char c :: nat in if 97 \<le> n \<and> n \<le> 122 then char_of (n - 32) else c)"

definition ljust :: "nat \<Rightarrow> string \<Rightarrow> string" where
  "ljust width k = k @ replicate (width - length k) (CHR '' '')"

definition render :: "config \<Rightarrow> event \<Rightarrow> string \<times> string" where
  "render cfg ev =
     (let label = (if ne_resource_name ev \<noteq> [] then ne_resource_name ev else ne_event_type ev);
          subject = clean_subject (''['' @ map py_upper_char (effective_severity ev) @ ''] '' @ ne_title ev);
          facts = event_facts ev;
          width = foldr (\<lambda>kv w. max (length (fst kv)) w) facts 0;
          link = absolute_url cfg (ne_url ev);
          lines =
            (if py_strip (ne_body ev) \<noteq> [] then [py_strip (ne_body ev)] else []) @
            (if facts \<noteq> []
             then [join_str [CHR 0x0A] (map (\<lambda>(k, v). ljust width k @ ''  '' @ v) facts)] else []) @
            (if link \<noteq> [] then [link] else [])
      in (subject, if lines = [] then label else join_str [CHR 0x0A, CHR 0x0A] lines))"

section \<open>Dedupe\<close>

definition dedupe_key :: "(string \<Rightarrow> string) \<Rightarrow> event \<Rightarrow> string \<Rightarrow> string" where
  "dedupe_key sha ev endpoint_id =
     (let subject_part = (if ne_resource_id ev \<noteq> [] then ne_resource_id ev else take 16 (sha (ne_title ev)));
          parts = [ne_event_type ev, subject_part, if endpoint_id \<noteq> [] then endpoint_id else ''-''] @
            (if ne_dedupe_bucket ev \<noteq> [] then [ne_dedupe_bucket ev] else []);
          key = join_str '':'' parts
      in take MAX_DEDUPE_CHARS
           (if length key > MAX_DEDUPE_CHARS then ne_event_type ev @ '':'' @ sha key else key))"

section \<open>Payloads\<close>

definition FORMATS :: "string list" where
  "FORMATS = [''custom'', ''slack'', ''teams'']"

definition DEFAULT_FORMAT :: string where
  "DEFAULT_FORMAT = ''custom''"

definition build_custom :: "config \<Rightarrow> string \<Rightarrow> event \<Rightarrow> string \<Rightarrow> string \<Rightarrow> dict" where
  "build_custom cfg occurred ev subject body =
     [(''version'', JInt 1), (''event'', JStr (ne_event_type ev)), (''severity'', JStr (effective_severity ev)),
      (''subject'', JStr subject), (''body'', JStr body),
      (''resource'', JObj
         [(''id'', JStr (ne_resource_id ev)), (''kind'', JStr (ne_resource_kind ev)),
          (''name'', JStr (ne_resource_name ev)), (''cloud'', JStr (ne_cloud ev)),
          (''region'', JStr (ne_region ev)), (''workgroup'', JStr (ne_workgroup ev))]),
      (''fields'', JObj (map (\<lambda>(k, v). (k, JStr v)) (ne_fields ev))),
      (''url'', JStr (absolute_url cfg (ne_url ev))), (''occurred_at'', JStr occurred)]"

text \<open>\<open>_mrkdwn\<close>: three replacements, the ampersand first, so no later one touches its output.\<close>

definition replace_char :: "char \<Rightarrow> string \<Rightarrow> string \<Rightarrow> string" where
  "replace_char c r s = concat (map (\<lambda>d. if d = c then r else [d]) s)"

definition mrkdwn :: "string \<Rightarrow> string" where
  "mrkdwn s =
     replace_char (CHR ''>'') ''&gt;'' (replace_char (CHR ''<'') ''&lt;'' (replace_char (CHR ''&'') ''&amp;'' s))"

definition build_slack :: "config \<Rightarrow> event \<Rightarrow> string \<Rightarrow> string \<Rightarrow> dict" where
  "build_slack cfg ev subject body =
     (let link = absolute_url cfg (ne_url ev)
      in [(''text'', JStr subject),
          (''blocks'', JList
             ([JObj [(''type'', JStr ''section''),
                     (''text'', JObj [(''type'', JStr ''mrkdwn''), (''text'', JStr (''*'' @ mrkdwn subject @ ''*''))])]] @
              (if py_strip body \<noteq> [] then
                 [JObj [(''type'', JStr ''section''),
                        (''text'', JObj [(''type'', JStr ''mrkdwn''), (''text'', JStr (take 2900 (mrkdwn body)))])]]
               else []) @
              (if link \<noteq> [] then
                 [JObj [(''type'', JStr ''context''),
                        (''elements'', JList [JObj [(''type'', JStr ''mrkdwn''),
                           (''text'', JStr (''<'' @ link @ ''|Open in dashboard>''))]])]]
               else [])))])"

definition build_teams :: "config \<Rightarrow> event \<Rightarrow> string \<Rightarrow> string \<Rightarrow> dict" where
  "build_teams cfg ev subject body =
     (let facts = map (\<lambda>(k, v). JObj [(''title'', JStr k), (''value'', JStr v)]) (event_facts ev);
          link = absolute_url cfg (ne_url ev);
          card_body =
            [JObj [(''type'', JStr ''TextBlock''), (''size'', JStr ''Medium''), (''weight'', JStr ''Bolder''),
                   (''text'', JStr subject), (''wrap'', JBool True)]] @
            (if py_strip body \<noteq> []
             then [JObj [(''type'', JStr ''TextBlock''), (''text'', JStr body), (''wrap'', JBool True)]] else []) @
            (if facts \<noteq> [] then [JObj [(''type'', JStr ''FactSet''), (''facts'', JList facts)]] else []);
          content =
            [(''$schema'', JStr ''http://adaptivecards.io/schemas/adaptive-card.json''),
             (''type'', JStr ''AdaptiveCard''), (''version'', JStr ''1.4''), (''body'', JList card_body)] @
            (if link \<noteq> [] then
               [(''actions'', JList [JObj [(''type'', JStr ''Action.OpenUrl''),
                  (''title'', JStr ''Open in dashboard''), (''url'', JStr link)]])]
             else [])
      in [(''type'', JStr ''message''),
          (''attachments'', JList
             [JObj [(''contentType'', JStr ''application/vnd.microsoft.card.adaptive''),
                    (''contentUrl'', JNull), (''content'', JObj content)]])])"

definition build_payload :: "config \<Rightarrow> string \<Rightarrow> string \<Rightarrow> event \<Rightarrow> string \<Rightarrow> string \<Rightarrow> dict" where
  "build_payload cfg occurred fmt ev subject body =
     (if fmt = ''slack'' then build_slack cfg ev subject body
      else if fmt = ''teams'' then build_teams cfg ev subject body
      else build_custom cfg occurred ev subject body)"

section \<open>Responses\<close>

text \<open>The outcome of one POST: \<open>RateLimited\<close> carries the delay the drain honours.\<close>

datatype post_result = Accepted int | RateLimited string int | Refused string

definition check_response :: "string \<Rightarrow> int \<Rightarrow> string \<Rightarrow> post_result" where
  "check_response fmt status_code txt =
     (if status_code = 429 then RateLimited (''rate limited (HTTP 429): '' @ take 200 (py_strip txt)) 0
      else if \<not> (200 \<le> status_code \<and> status_code < 300)
      then Refused (''HTTP '' @ py_str_int status_code @ '': '' @ take 300 (py_strip txt))
      else if fmt = ''slack'' \<and> py_lower (py_strip txt) \<noteq> ''ok''
      then Refused (''Slack rejected the payload: '' @ take 200 (py_strip txt))
      else Accepted status_code)"

definition post_outcome :: "string \<Rightarrow> int \<Rightarrow> string option \<Rightarrow> string \<Rightarrow> post_result" where
  "post_outcome fmt status_code retry_after txt =
     (case check_response fmt status_code txt of
        RateLimited msg _ \<Rightarrow> RateLimited msg (retry_after_seconds retry_after (notify_backoff_seconds 0))
      | r \<Rightarrow> r)"

section \<open>Lemmas\<close>

lemma notify_backoff_range: "30 \<le> notify_backoff_seconds n \<and> notify_backoff_seconds n \<le> 1800"
proof -
  have "nat (max 0 (min (int (length NOTIFY_BACKOFF_SECONDS) - 1) n)) \<in> {0, 1, 2, 3}"
    by (auto simp: NOTIFY_BACKOFF_SECONDS_def)
  then show ?thesis unfolding notify_backoff_seconds_def by (auto simp: NOTIFY_BACKOFF_SECONDS_def)
qed

lemma retry_after_range:
  assumes "1 \<le> dflt" and "dflt \<le> RETRY_AFTER_CAP_SECONDS"
  shows "1 \<le> retry_after_seconds h dflt \<and> retry_after_seconds h dflt \<le> RETRY_AFTER_CAP_SECONDS"
  using assms by (auto simp: retry_after_seconds_def RETRY_AFTER_CAP_SECONDS_def split: option.splits)

lemma notify_max_attempts_range: "1 \<le> notify_max_attempts cfg \<and> notify_max_attempts cfg \<le> 5"
  by (simp add: notify_max_attempts_def NOTIFY_BACKOFF_SECONDS_def)

text \<open>What Slack shows for an escaped text: the three entities read back, left to right.\<close>

fun unescape :: "string \<Rightarrow> string" where
  "unescape [] = []"
| "unescape (c # s) =
     (if c = CHR ''&'' then
        (if starts_with ''amp;'' s then CHR ''&'' # unescape (drop 4 s)
         else if starts_with ''lt;'' s then CHR ''<'' # unescape (drop 3 s)
         else if starts_with ''gt;'' s then CHR ''>'' # unescape (drop 3 s)
         else c # unescape s)
      else c # unescape s)"

lemma mrkdwn_simps:
  "mrkdwn [] = []"
  "mrkdwn (c # s) =
     (if c = CHR ''&'' then ''&amp;'' else if c = CHR ''<'' then ''&lt;'' else if c = CHR ''>'' then ''&gt;'' else [c]) @
     mrkdwn s"
  by (simp_all add: mrkdwn_def replace_char_def)

text \<open>
  Text that goes into a Slack message is shown as it was written, whatever it contains:
  reading the three entities of the escaped text back gives the text, and the escaped text holds
  no angle bracket, so no part of it can act as a link or a mention.
\<close>

theorem mrkdwn_roundtrip: "unescape (mrkdwn s) = s \<and> CHR ''<'' \<notin> set (mrkdwn s) \<and> CHR ''>'' \<notin> set (mrkdwn s)"
  by (induction s) (auto simp: mrkdwn_simps starts_with_def)

end
