(* ===== verification/Notify_Outbox.thy ===== *)
theory Notify_Outbox
  imports Notify_Policy
begin

text \<open>
  \<open>services/notification_service.py\<close>: the endpoints, the outbox with its unique dedupe key, the
  drain (reclaim, claim, POST, retry or finish), pruning, listing and the test button.

  Parameters: \<open>sha\<close> and \<open>occurred\<close> as in \<open>Notify_Policy\<close>; \<open>fresh\<close>, the id of the row inserted for an
  endpoint; \<open>decrypt\<close>, the reading of a stored URL (empty when it cannot be decrypted); \<open>outcome\<close>,
  the answer of the POST of a row; \<open>env\<close>, what other workers did to the table before the claim of
  a row. The stored payload is a JSON value, \<open>None\<close> when the text does not parse. A failing
  database is not modelled; the audit entry about suppressed rows is the list \<open>nd_storms\<close>.
\<close>

record endpoint =
  en_id :: string
  en_name :: string
  en_url :: string
  en_fmt :: string
  en_secret :: "string option"
  en_enabled :: bool
  en_event_types :: "string option"
  en_created_at :: instant
  en_created_by :: "string option"
  en_last_success_at :: "instant option"
  en_last_error :: "string option"

record delivery =
  dl_id :: string
  dl_created_at :: instant
  dl_event_type :: string
  dl_severity :: string
  dl_resource_id :: "string option"
  dl_resource_kind :: "string option"
  dl_resource_name :: "string option"
  dl_cloud :: "string option"
  dl_region :: "string option"
  dl_workgroup :: "string option"
  dl_url :: "string option"
  dl_endpoint_id :: "string option"
  dl_channel :: string
  dl_reason :: dict
  dl_subject :: string
  dl_body :: string
  dl_payload :: "dict option"
  dl_status :: string
  dl_attempts :: int
  dl_next_attempt_at :: "instant option"
  dl_claimed_at :: "instant option"
  dl_sent_at :: "instant option"
  dl_error :: "string option"
  dl_dedupe_key :: string

record notify_db =
  nd_endpoints :: "endpoint list"
  nd_deliveries :: "delivery list"
  nd_storms :: "(nat \<times> int) list"

section \<open>Endpoints\<close>

definition list_endpoints :: "bool \<Rightarrow> notify_db \<Rightarrow> endpoint list" where
  "list_endpoints enabled_only s =
     sort_key en_created_at
       (if enabled_only then filter en_enabled (nd_endpoints s) else nd_endpoints s)"

definition get_endpoint :: "notify_db \<Rightarrow> string \<Rightarrow> endpoint option" where
  "get_endpoint s eid = List.find (\<lambda>ep. en_id ep = eid) (nd_endpoints s)"

definition upd_endpoint :: "string \<Rightarrow> (endpoint \<Rightarrow> endpoint) \<Rightarrow> notify_db \<Rightarrow> notify_db" where
  "upd_endpoint eid f s = s\<lparr> nd_endpoints := tbl_update (\<lambda>ep. en_id ep = eid) f (nd_endpoints s) \<rparr>"

definition create_endpoint ::
  "(string \<Rightarrow> string) \<Rightarrow> instant \<Rightarrow> string \<Rightarrow> string \<Rightarrow> string \<Rightarrow> string \<Rightarrow> string \<Rightarrow> string \<Rightarrow> bool \<Rightarrow> string \<Rightarrow>
     notify_db \<Rightarrow> notify_db \<times> endpoint" where
  "create_endpoint encrypt now uuid name url fmt secret types enabled actor s =
     (let ep =
        \<lparr> en_id = uuid,
          en_name = (let n = take 100 (py_strip name) in if n = [] then ''endpoint'' else n),
          en_url = encrypt (py_strip url),
          en_fmt = (if fmt \<in> set FORMATS then fmt else DEFAULT_FORMAT),
          en_secret = (if py_strip secret \<noteq> [] then Some (encrypt (py_strip secret)) else None),
          en_enabled = enabled, en_event_types = or_none (Some (py_strip types)),
          en_created_at = now, en_created_by = or_none (Some actor),
          en_last_success_at = None, en_last_error = None \<rparr>
      in (s\<lparr> nd_endpoints := nd_endpoints s @ [ep] \<rparr>, ep))"

text \<open>A patch names only the fields it carries; an absent one is \<open>None\<close>.\<close>

record endpoint_patch =
  pt_name :: "string option"
  pt_url :: "string option"
  pt_fmt :: "string option"
  pt_secret :: "string option"
  pt_event_types :: "string option"
  pt_enabled :: "bool option"

definition patched :: "(string \<Rightarrow> string) \<Rightarrow> endpoint_patch \<Rightarrow> endpoint \<Rightarrow> endpoint" where
  "patched encrypt p ep =
     ep\<lparr> en_name := (case pt_name p of None \<Rightarrow> en_name ep
           | Some n \<Rightarrow> (let v = take 100 (py_strip n) in if v = [] then en_name ep else v)),
         en_url := (case pt_url p of None \<Rightarrow> en_url ep
           | Some u \<Rightarrow> (if py_strip u \<noteq> [] then encrypt (py_strip u) else en_url ep)),
         en_fmt := (case pt_fmt p of None \<Rightarrow> en_fmt ep | Some f \<Rightarrow> (if f \<in> set FORMATS then f else en_fmt ep)),
         en_secret := (case pt_secret p of None \<Rightarrow> en_secret ep
           | Some v \<Rightarrow> (if py_strip v \<noteq> [] then Some (encrypt (py_strip v)) else None)),
         en_event_types := (case pt_event_types p of None \<Rightarrow> en_event_types ep
           | Some t \<Rightarrow> or_none (Some (py_strip t))),
         en_enabled := (case pt_enabled p of None \<Rightarrow> en_enabled ep | Some b \<Rightarrow> b) \<rparr>"

definition update_endpoint :: "(string \<Rightarrow> string) \<Rightarrow> string \<Rightarrow> endpoint_patch \<Rightarrow> notify_db \<Rightarrow> notify_db" where
  "update_endpoint encrypt eid p s = upd_endpoint eid (patched encrypt p) s"

definition delete_endpoint :: "string \<Rightarrow> notify_db \<Rightarrow> notify_db \<times> bool" where
  "delete_endpoint eid s =
     (case get_endpoint s eid of
        None \<Rightarrow> (s, False)
      | Some _ \<Rightarrow> (s\<lparr> nd_endpoints := filter (\<lambda>ep. en_id ep \<noteq> eid) (nd_endpoints s) \<rparr>, True))"

section \<open>Emit\<close>

definition over_queue_limit :: "config \<Rightarrow> notify_db \<Rightarrow> bool" where
  "over_queue_limit cfg s \<longleftrightarrow>
     int (length (filter (\<lambda>d. dl_status d = ''pending'') (nd_deliveries s))) \<ge> max_queue cfg"

definition delivery_row ::
  "config \<Rightarrow> (string \<Rightarrow> string) \<Rightarrow> string \<Rightarrow> instant \<Rightarrow> string \<Rightarrow> event \<Rightarrow> endpoint \<Rightarrow> string \<Rightarrow> string \<Rightarrow>
     string \<Rightarrow> delivery" where
  "delivery_row cfg sha occurred now uuid ev ep subject body status =
     \<lparr> dl_id = uuid, dl_created_at = now, dl_event_type = ne_event_type ev,
       dl_severity = effective_severity ev, dl_resource_id = or_none (Some (ne_resource_id ev)),
       dl_resource_kind = or_none (Some (ne_resource_kind ev)),
       dl_resource_name = or_none (Some (ne_resource_name ev)), dl_cloud = or_none (Some (ne_cloud ev)),
       dl_region = or_none (Some (ne_region ev)), dl_workgroup = or_none (Some (ne_workgroup ev)),
       dl_url = (let u = absolute_url cfg (ne_url ev) in if u \<noteq> [] then Some u else or_none (Some (ne_url ev))),
       dl_endpoint_id = Some (en_id ep), dl_channel = en_fmt ep,
       dl_reason = [(''route'', JStr ''global_sink''), (''endpoint'', JStr (en_name ep))] @
         (if status = ''suppressed'' then [(''suppressed'', JStr ''queue_over_limit'')] else []),
       dl_subject = subject, dl_body = body,
       dl_payload = Some (build_payload cfg occurred (en_fmt ep) ev subject body),
       dl_status = status, dl_attempts = 0, dl_next_attempt_at = None, dl_claimed_at = None,
       dl_sent_at = None, dl_error = None, dl_dedupe_key = dedupe_key sha ev (en_id ep) \<rparr>"

text \<open>One insert; a taken dedupe key is the \<open>IntegrityError\<close>.\<close>

definition insert_delivery :: "delivery \<Rightarrow> notify_db \<Rightarrow> notify_db \<times> bool" where
  "insert_delivery d s =
     (if \<exists>e \<in> set (nd_deliveries s). dl_dedupe_key e = dl_dedupe_key d then (s, False)
      else (s\<lparr> nd_deliveries := nd_deliveries s @ [d] \<rparr>, True))"

definition emit_status :: "config \<Rightarrow> bool \<Rightarrow> string" where
  "emit_status cfg suppress =
     (if suppress then ''suppressed'' else if notify_dry_run cfg then ''dry_run'' else ''pending'')"

definition emit_one ::
  "config \<Rightarrow> (string \<Rightarrow> string) \<Rightarrow> string \<Rightarrow> instant \<Rightarrow> (string \<Rightarrow> string) \<Rightarrow> event \<Rightarrow> bool \<Rightarrow> endpoint \<Rightarrow>
     notify_db \<times> nat \<times> nat \<Rightarrow> notify_db \<times> nat \<times> nat" where
  "emit_one cfg sha occurred now fresh ev suppress ep acc =
     (case acc of (s, queued, suppressed) \<Rightarrow>
        (if \<not> should_notify cfg ev (parse_event_types (or_empty (en_event_types ep))) then acc
         else
           (case insert_delivery
                   (delivery_row cfg sha occurred now (fresh (en_id ep)) ev ep (fst (render cfg ev))
                      (snd (render cfg ev)) (emit_status cfg suppress)) s of
              (s', False) \<Rightarrow> (s', queued, suppressed)
            | (s', True) \<Rightarrow>
                (if emit_status cfg suppress = ''suppressed'' then (s', queued, suppressed + 1)
                 else (s', queued + 1, suppressed)))))"

definition emit_event ::
  "config \<Rightarrow> (string \<Rightarrow> string) \<Rightarrow> string \<Rightarrow> instant \<Rightarrow> (string \<Rightarrow> string) \<Rightarrow> event \<Rightarrow> notify_db \<Rightarrow> notify_db \<times> nat" where
  "emit_event cfg sha occurred now fresh ev s =
     (if \<not> notify_enabled cfg then (s, 0)
      else
        (let endpoints = list_endpoints True s
         in if endpoints = [] then (s, 0)
            else
              (case fold (emit_one cfg sha occurred now fresh ev (over_queue_limit cfg s)) endpoints (s, 0, 0) of
                 (s', queued, suppressed) \<Rightarrow>
                   (if suppressed > 0 then s'\<lparr> nd_storms := nd_storms s' @ [(suppressed, max_queue cfg)] \<rparr> else s',
                    queued))))"

section \<open>Drain\<close>

definition upd_delivery :: "string \<Rightarrow> (delivery \<Rightarrow> delivery) \<Rightarrow> notify_db \<Rightarrow> notify_db" where
  "upd_delivery rid f s = s\<lparr> nd_deliveries := tbl_update (\<lambda>d. dl_id d = rid) f (nd_deliveries s) \<rparr>"





definition get_delivery :: "notify_db \<Rightarrow> string \<Rightarrow> delivery option" where
  "get_delivery s rid = List.find (\<lambda>d. dl_id d = rid) (nd_deliveries s)"



definition finished :: "instant \<Rightarrow> string \<Rightarrow> string \<Rightarrow> delivery \<Rightarrow> delivery" where
  "finished now status error d =
     d\<lparr> dl_status := status, dl_error := or_none (Some (take 2000 error)),
        dl_sent_at := (if status = ''sent'' then Some now else dl_sent_at d) \<rparr>"

text \<open>\<open>_retry\<close>; \<open>attempts\<close> is the count on the row as this session loaded it.\<close>

definition retried :: "config \<Rightarrow> instant \<Rightarrow> int \<Rightarrow> string \<Rightarrow> int option \<Rightarrow> delivery \<Rightarrow> delivery" where
  "retried cfg now attempts error delay d =
     (if attempts \<ge> notify_max_attempts cfg then finished now ''failed'' error d
      else
        d\<lparr> dl_status := ''pending'', dl_claimed_at := None, dl_error := Some (take 2000 error),
           dl_next_attempt_at := Some (now + seconds (case delay of
             None \<Rightarrow> notify_backoff_seconds (attempts - 1) | Some w \<Rightarrow> w)) \<rparr>)"

definition noted_failure :: "string \<Rightarrow> endpoint \<Rightarrow> endpoint" where
  "noted_failure error ep = ep\<lparr> en_last_error := Some (take 2000 error) \<rparr>"

text \<open>
  \<open>_deliver\<close>: \<open>meanwhile\<close> is what other sessions commit while the request is out, between the reads
  before it and the write of its outcome. That write names the row by its id alone.
\<close>

definition deliver ::
  "config \<Rightarrow> (string \<Rightarrow> string) \<Rightarrow> instant \<Rightarrow> (notify_db \<Rightarrow> notify_db) \<Rightarrow> (delivery \<Rightarrow> post_result) \<Rightarrow> delivery \<Rightarrow>
     notify_db \<Rightarrow> notify_db \<times> bool" where
  "deliver cfg decrypt now meanwhile outcome row s =
     (case Option.bind (dl_endpoint_id row) (get_endpoint s) of
        None \<Rightarrow> (upd_delivery (dl_id row) (finished now ''failed'' ''its endpoint has been deleted'') s, False)
      | Some ep \<Rightarrow>
          (if \<not> en_enabled ep then
             (upd_delivery (dl_id row) (finished now ''failed'' ''its endpoint is disabled'') s, False)
           else if dl_payload row = None then
             (upd_delivery (dl_id row) (finished now ''failed'' ''stored payload is not valid JSON'') s, False)
           else if decrypt (en_url ep) = [] then
             (upd_delivery (dl_id row) (finished now ''failed''
                ''the endpoint URL could not be decrypted (has JWT_SECRET_KEY changed?)'') s, False)
           else
             (case outcome row of
                RateLimited msg secs \<Rightarrow>
                  (upd_endpoint (en_id ep) (noted_failure msg)
                     (upd_delivery (dl_id row) (retried cfg now (dl_attempts row) msg (if secs = 0 then None else Some secs)) (meanwhile s)), False)
              | Refused msg \<Rightarrow>
                  (upd_endpoint (en_id ep) (noted_failure msg)
                     (upd_delivery (dl_id row) (retried cfg now (dl_attempts row) msg None) (meanwhile s)), False)
              | Accepted _ \<Rightarrow>
                  (upd_endpoint (en_id ep) (\<lambda>ep. ep\<lparr> en_last_success_at := Some now, en_last_error := None \<rparr>)
                     (upd_delivery (dl_id row) (finished now ''sent'' []) (meanwhile s)), True))))"



section \<open>Housekeeping and reads\<close>



definition delivery_matches :: "string \<Rightarrow> string \<Rightarrow> string \<Rightarrow> string \<Rightarrow> delivery \<Rightarrow> bool" where
  "delivery_matches status channel event_type resource_id d \<longleftrightarrow>
     (status = [] \<or> dl_status d = status) \<and> (channel = [] \<or> dl_channel d = channel) \<and>
     (event_type = [] \<or> dl_event_type d = event_type) \<and>
     (resource_id = [] \<or> dl_resource_id d = Some resource_id)"

definition list_deliveries ::
  "int \<Rightarrow> int \<Rightarrow> string \<Rightarrow> string \<Rightarrow> string \<Rightarrow> string \<Rightarrow> notify_db \<Rightarrow> delivery list \<times> nat" where
  "list_deliveries page page_size status channel event_type resource_id s =
     (let rows = sort_key (\<lambda>d. - dl_created_at d)
            (filter (delivery_matches status channel event_type resource_id) (nd_deliveries s));
          pg = max 1 page;
          size = max 1 (min 200 (if page_size = 0 then 20 else page_size))
      in (take (nat size) (drop (nat ((pg - 1) * size)) rows), length rows))"

definition delivery_summary :: "instant \<Rightarrow> int \<Rightarrow> notify_db \<Rightarrow> (string \<times> nat) list" where
  "delivery_summary now hours s =
     map (\<lambda>st. (st, rowcount (\<lambda>d. dl_created_at d \<ge> now - seconds (3600 * hours) \<and> dl_status d = st)
                       (nd_deliveries s)))
       [''pending'', ''sending'', ''sent'', ''failed'', ''dry_run'', ''suppressed'']"

text \<open>
  The test button: one row in \<open>sending\<close>, posted at once and whatever the dry run says. \<open>seconds_now\<close>
  is the whole seconds of the clock, the bucket of the press.
\<close>

definition test_event :: "string \<Rightarrow> endpoint \<Rightarrow> event" where
  "test_event seconds_now ep =
     \<lparr> ne_event_type = ''notification.test'',
       ne_title = ''Test notification from the VM dashboard ('' @ en_name ep @ '')'',
       ne_body = ''If you can read this, the endpoint is configured correctly.'',
       ne_severity = ''info'', ne_resource_id = [], ne_resource_kind = [], ne_resource_name = [],
       ne_cloud = [], ne_region = [], ne_workgroup = [], ne_url = [], ne_dedupe_bucket = seconds_now,
       ne_fields = [(''Format'', en_fmt ep), (''Endpoint'', en_name ep)] \<rparr>"

definition test_row ::
  "config \<Rightarrow> (string \<Rightarrow> string) \<Rightarrow> string \<Rightarrow> instant \<Rightarrow> string \<Rightarrow> event \<Rightarrow> endpoint \<Rightarrow> string \<Rightarrow> delivery" where
  "test_row cfg sha occurred now uuid ev ep actor =
     (let rendered = render cfg ev
      in \<lparr> dl_id = uuid, dl_created_at = now, dl_event_type = ne_event_type ev, dl_severity = ''info'',
           dl_resource_id = None, dl_resource_kind = None, dl_resource_name = None, dl_cloud = None,
           dl_region = None, dl_workgroup = None, dl_url = None, dl_endpoint_id = Some (en_id ep),
           dl_channel = en_fmt ep,
           dl_reason = [(''route'', JStr ''test''), (''actor'', JStr (if actor = [] then ''?'' else actor))],
           dl_subject = fst rendered, dl_body = snd rendered,
           dl_payload = Some (build_payload cfg occurred (en_fmt ep) ev (fst rendered) (snd rendered)),
           dl_status = ''sending'', dl_attempts = 1, dl_next_attempt_at = None, dl_claimed_at = Some now,
           dl_sent_at = None, dl_error = None, dl_dedupe_key = dedupe_key sha ev (en_id ep) \<rparr>)"

definition test_send ::
  "config \<Rightarrow> (string \<Rightarrow> string) \<Rightarrow> (string \<Rightarrow> string) \<Rightarrow> string \<Rightarrow> instant \<Rightarrow> string \<Rightarrow> string \<Rightarrow>
     (delivery \<Rightarrow> post_result) \<Rightarrow> string \<Rightarrow> string \<Rightarrow> notify_db \<Rightarrow> notify_db \<times> string option" where
  "test_send cfg sha decrypt occurred now uuid seconds_now outcome eid actor s =
     (case get_endpoint s eid of
        None \<Rightarrow> (s, Some ''no such endpoint'')
      | Some ep \<Rightarrow>
          (let row = test_row cfg sha occurred now uuid (test_event seconds_now ep) ep actor;
               s1 = fst (insert_delivery row s);
               fail = (\<lambda>err. upd_delivery uuid (finished now ''failed'' err) s1)
           in if decrypt (en_url ep) = [] then
                (fail ''the endpoint URL could not be decrypted (has JWT_SECRET_KEY changed?)'',
                 Some ''the endpoint URL could not be decrypted (has JWT_SECRET_KEY changed?)'')
              else (case outcome row of
                Accepted _ \<Rightarrow>
                  (upd_endpoint (en_id ep) (\<lambda>ep. ep\<lparr> en_last_success_at := Some now, en_last_error := None \<rparr>)
                     (upd_delivery uuid (finished now ''sent'' []) s1), None)
              | RateLimited msg _ \<Rightarrow> (upd_endpoint (en_id ep) (noted_failure msg) (fail msg), Some msg)
              | Refused msg \<Rightarrow> (upd_endpoint (en_id ep) (noted_failure msg) (fail msg), Some msg))))"

section \<open>The life of a message\<close>

text \<open>
  The abstract outbox knows, for every dedupe key, nothing or the state of its message: waiting,
  in flight at some worker, delivered, dead (given up), or dropped (recorded but never to be
  sent, by the dry run or by storm control). These are the moves it allows.
\<close>

datatype msg = Waiting | InFlight | Delivered | Dead | Dropped

inductive life :: "msg option \<Rightarrow> msg option \<Rightarrow> bool" where
  queue: "life None (Some Waiting)"
| drop_: "life None (Some Dropped)"
| claim: "life (Some Waiting) (Some InFlight)"
| ok: "life (Some InFlight) (Some Delivered)"
| again: "life (Some InFlight) (Some Waiting)"
| give_up: "life (Some InFlight) (Some Dead)"

inductive_simps life_from: "life (Some Delivered) m" "life (Some Dead) m" "life (Some Dropped) m"

text \<open>Where a message can only stay: it is never sent again.\<close>

lemma life_final:
  assumes "life\<^sup>*\<^sup>* m m'" and "m \<in> {Some Delivered, Some Dead, Some Dropped}"
  shows "m' = m"
  using assms by (induction rule: rtranclp_induct) (auto simp: life_from)


fun msg_of :: "string \<Rightarrow> msg" where
  "msg_of st =
     (if st = ''pending'' then Waiting else if st = ''sending'' then InFlight
      else if st = ''sent'' then Delivered else if st = ''failed'' then Dead else Dropped)"

declare msg_of.simps [simp del]

lemma msg_of_status [simp]:
  "msg_of ''pending'' = Waiting" "msg_of ''sending'' = InFlight" "msg_of ''sent'' = Delivered"
  "msg_of ''failed'' = Dead" "msg_of ''dry_run'' = Dropped" "msg_of ''suppressed'' = Dropped"
  by (simp_all add: msg_of.simps)

definition outbox_of :: "notify_db \<Rightarrow> string \<Rightarrow> msg option" where
  "outbox_of s k = map_option (msg_of \<circ> dl_status) (List.find (\<lambda>d. dl_dedupe_key d = k) (nd_deliveries s))"

definition DELIVERY_STATUSES :: "string list" where
  "DELIVERY_STATUSES = [''pending'', ''sending'', ''sent'', ''failed'', ''dry_run'', ''suppressed'']"

definition notify_ok :: "notify_db \<Rightarrow> bool" where
  "notify_ok s \<longleftrightarrow>
     distinct (map dl_id (nd_deliveries s)) \<and> distinct (map dl_dedupe_key (nd_deliveries s)) \<and>
     (\<forall>d \<in> set (nd_deliveries s). dl_status d \<in> set DELIVERY_STATUSES)"

definition refines_life :: "notify_db \<Rightarrow> notify_db \<Rightarrow> bool" where
  "refines_life s s' \<longleftrightarrow> notify_ok s' \<and> (\<forall>k. life\<^sup>*\<^sup>* (outbox_of s k) (outbox_of s' k))"




lemma refines_endpoint_fields:
  "nd_deliveries t' = nd_deliveries t \<Longrightarrow> refines_life s t' = refines_life s t"
  by (simp add: refines_life_def notify_ok_def outbox_of_def)

text \<open>A write that keeps id and key and moves the status along the automaton.\<close>

locale delivery_write =
  fixes p :: "delivery \<Rightarrow> bool" and f :: "delivery \<Rightarrow> delivery"
  assumes keeps_ids: "dl_id (f d) = dl_id d" "dl_dedupe_key (f d) = dl_dedupe_key d"
    and status_ok: "p d \<Longrightarrow> dl_status d \<in> set DELIVERY_STATUSES \<Longrightarrow> dl_status (f d) \<in> set DELIVERY_STATUSES"
    and moves: "p d \<Longrightarrow> life\<^sup>*\<^sup>* (Some (msg_of (dl_status d))) (Some (msg_of (dl_status (f d))))"
begin

lemma refines:
  assumes "notify_ok s"
  shows "refines_life s (s\<lparr> nd_deliveries := tbl_update p f (nd_deliveries s) \<rparr>)"
proof -
  let ?s = "s\<lparr> nd_deliveries := tbl_update p f (nd_deliveries s) \<rparr>"
  have maps: "map dl_id (nd_deliveries ?s) = map dl_id (nd_deliveries s)"
    "map dl_dedupe_key (nd_deliveries ?s) = map dl_dedupe_key (nd_deliveries s)"
    by (simp_all add: tbl_update_comp_key keeps_ids)
  have "notify_ok ?s"
    using assms maps by (auto simp: notify_ok_def set_tbl_update status_ok)
  moreover have "life\<^sup>*\<^sup>* (outbox_of s k) (outbox_of ?s k)" for k
  proof -
    have "List.find (\<lambda>d. dl_dedupe_key d = k) (tbl_update p f (nd_deliveries s)) =
        map_option (\<lambda>d. if p d then f d else d) (List.find (\<lambda>d. dl_dedupe_key d = k) (nd_deliveries s))"
      unfolding tbl_update_def by (rule find_map_key) (simp add: keeps_ids)
    then show ?thesis
      by (cases "List.find (\<lambda>d. dl_dedupe_key d = k) (nd_deliveries s)") (auto simp: outbox_of_def moves)
  qed
  ultimately show ?thesis by (simp add: refines_life_def)
qed

end

lemma life1: "life a b \<Longrightarrow> life\<^sup>*\<^sup>* a b" by (rule r_into_rtranclp)


interpretation claim: delivery_write "\<lambda>d. dl_id d = rid \<and> dl_status d = ''pending''"
  "\<lambda>d. d\<lparr> dl_status := ''sending'', dl_claimed_at := Some now, dl_attempts := dl_attempts d + 1 \<rparr>" for rid now
  by unfold_locales (auto simp: DELIVERY_STATUSES_def intro!: life1 life.claim)








lemma refines_upd_endpoint [simp]: "refines_life s (upd_endpoint eid g t) = refines_life s t"
  by (rule refines_endpoint_fields) (simp add: upd_endpoint_def)




lemma get_delivery_upd:
  assumes "\<And>d. dl_id (f d) = dl_id d"
  shows "get_delivery (upd_delivery rid f s) k = (if k = rid then map_option f (get_delivery s k) else get_delivery s k)"
proof -
  have "get_delivery (upd_delivery rid f s) k =
      map_option (\<lambda>d. if dl_id d = rid then f d else d) (get_delivery s k)"
    unfolding get_delivery_def upd_delivery_def tbl_update_def
    by simp (rule find_map_key, simp add: assms)
  then show ?thesis by (cases "get_delivery s k") (auto simp: get_delivery_def dest: find_Some_set)
qed

lemma get_delivery_upd_endpoint [simp]: "get_delivery (upd_endpoint eid g s) = get_delivery s"
  by (simp add: get_delivery_def upd_endpoint_def fun_eq_iff)
















lemma emit_one_cases:
  "fst (emit_one cfg sha occurred now fresh ev suppress ep acc) =
     (if should_notify cfg ev (parse_event_types (or_empty (en_event_types ep)))
      then fst (insert_delivery (delivery_row cfg sha occurred now (fresh (en_id ep)) ev ep
             (fst (render cfg ev)) (snd (render cfg ev)) (emit_status cfg suppress)) (fst acc))
      else fst acc)"
  by (cases acc) (simp add: emit_one_def split: prod.splits bool.splits)


lemma insert_keys:
  "dl_dedupe_key ` set (nd_deliveries (fst (insert_delivery d s))) =
     insert (dl_dedupe_key d) (dl_dedupe_key ` set (nd_deliveries s))"
  by (auto simp: insert_delivery_def image_iff intro: sym)




section \<open>A small outbox\<close>

text \<open>One enabled endpoint, a queue limit of one, and one waiting message.\<close>

definition demo_cfg :: config where
  "demo_cfg = \<lparr> cfg_readable = True,
     cfg_store = [(''notifications_enabled'', ''true''), (''notify_dry_run'', ''false''), (''notify_max_queue'', ''1'')],
     cfg_settings = [] \<rparr>"

definition demo_endpoint :: endpoint where
  "demo_endpoint = \<lparr> en_id = ''ep'', en_name = ''ops'', en_url = ''https://h/x'', en_fmt = ''custom'',
     en_secret = None, en_enabled = True, en_event_types = None, en_created_at = 0, en_created_by = None,
     en_last_success_at = None, en_last_error = None \<rparr>"

definition demo_failed :: "string \<Rightarrow> event" where
  "demo_failed jid = \<lparr> ne_event_type = ''job.failed'', ne_title = ''failed'', ne_body = [], ne_severity = [],
     ne_resource_id = jid, ne_resource_kind = ''job'', ne_resource_name = [], ne_cloud = [], ne_region = [],
     ne_workgroup = [], ne_url = [], ne_dedupe_bucket = [], ne_fields = [] \<rparr>"

definition demo_outbox :: notify_db where
  "demo_outbox = \<lparr> nd_endpoints = [demo_endpoint],
     nd_deliveries = [delivery_row demo_cfg (\<lambda>s. s) ''now'' 1 ''d0'' (demo_failed ''j0'') demo_endpoint [] [] ''pending''],
     nd_storms = [] \<rparr>"



text \<open>
  The outcome is written without asking who holds the row. If the claim went stale while the request
  was out and another worker has delivered the message, a refusal that arrives late puts the delivered
  message back in the queue, and the next pass sends it again.
\<close>

theorem slow_worker_resends:
  assumes "dl_endpoint_id row = Some eid" and "get_endpoint s eid = Some ep" and "en_enabled ep"
    and "dl_payload row \<noteq> None" and "decrypt (en_url ep) \<noteq> []" and "outcome row = Refused msg"
    and "get_delivery (meanwhile s) (dl_id row) = Some d" and "dl_status d = ''sent''"
    and "dl_attempts row < notify_max_attempts cfg"
  shows "\<exists>d'. get_delivery (fst (deliver cfg decrypt now meanwhile outcome row s)) (dl_id row) = Some d'
    \<and> (dl_status d' = ''pending'' \<and> dl_dedupe_key d' = dl_dedupe_key d)"
  using assms by (auto simp: deliver_def get_delivery_upd retried_def finished_def)

theorem slow_worker_resends_witness:
  "\<exists>d'. get_delivery (fst (deliver demo_cfg (\<lambda>u. u) 5
        (upd_delivery ''d0'' (finished 4 ''sent'' [])) (\<lambda>_. Refused ''timeout'') (hd (nd_deliveries demo_outbox)) demo_outbox)) ''d0'' = Some d'
    \<and> (dl_status d' = ''pending'' \<and> dl_dedupe_key d' = dl_dedupe_key (hd (nd_deliveries demo_outbox)))"
proof -
  let ?r = "hd (nd_deliveries demo_outbox)"
  have r: "dl_id ?r = ''d0''" "dl_endpoint_id ?r = Some ''ep''" "dl_payload ?r \<noteq> None" "dl_attempts ?r = 0"
    by (simp_all add: demo_outbox_def delivery_row_def demo_endpoint_def)
  have "get_delivery demo_outbox ''d0'' = Some ?r" by (simp add: get_delivery_def demo_outbox_def delivery_row_def)
  then have "get_delivery (upd_delivery ''d0'' (finished 4 ''sent'' []) demo_outbox) ''d0'' = Some (finished 4 ''sent'' [] ?r)"
    by (subst get_delivery_upd) (simp_all add: finished_def)
  moreover have "get_endpoint demo_outbox ''ep'' = Some demo_endpoint" "en_enabled demo_endpoint" "en_url demo_endpoint \<noteq> []"
    by (simp_all add: get_endpoint_def demo_outbox_def demo_endpoint_def)
  moreover have "0 < notify_max_attempts demo_cfg" by code_simp
  ultimately show ?thesis
    using slow_worker_resends [of ?r "''ep''" demo_outbox demo_endpoint "\<lambda>u. u" "\<lambda>_. Refused ''timeout''" "''timeout''"
        "upd_delivery ''d0'' (finished 4 ''sent'' [])" "finished 4 ''sent'' [] ?r" demo_cfg 5] r
    by (simp add: finished_def)
qed

section \<open>Fire once\<close>

abbreviation keys_of :: "notify_db \<Rightarrow> string set" where
  "keys_of s \<equiv> dl_dedupe_key ` set (nd_deliveries s)"

abbreviation wants :: "config \<Rightarrow> event \<Rightarrow> endpoint \<Rightarrow> bool" where
  "wants cfg ev ep \<equiv> should_notify cfg ev (parse_event_types (or_empty (en_event_types ep)))"

lemma delivery_row_key: "dl_dedupe_key (delivery_row cfg sha occurred now uuid ev ep subject body status) = dedupe_key sha ev (en_id ep)"
  by (simp add: delivery_row_def)

lemma emit_one_keys:
  "keys_of (fst (emit_one cfg sha occurred now fresh ev suppress ep acc)) =
     keys_of (fst acc) \<union> (if wants cfg ev ep then {dedupe_key sha ev (en_id ep)} else {})"
  by (simp add: emit_one_cases insert_keys delivery_row_key)

lemma emit_fold_keys:
  "keys_of (fst (fold (emit_one cfg sha occurred now fresh ev suppress) eps acc)) =
     keys_of (fst acc) \<union> {dedupe_key sha ev (en_id ep) | ep. ep \<in> set eps \<and> wants cfg ev ep}"
  by (induction eps arbitrary: acc) (auto simp: emit_one_keys)

lemma emit_taken:
  assumes "\<forall>ep \<in> set eps. wants cfg ev ep \<longrightarrow> dedupe_key sha ev (en_id ep) \<in> keys_of (fst acc)"
  shows "fold (emit_one cfg sha occurred now fresh ev suppress) eps acc = acc"
  using assms
proof (induction eps)
  case (Cons ep eps)
  then have "emit_one cfg sha occurred now fresh ev suppress ep acc = acc"
    by (auto simp: emit_one_def insert_delivery_def delivery_row_key split: prod.splits)
  with Cons show ?case by simp
qed simp

lemma emit_again_silent:
  assumes "\<forall>ep \<in> set (nd_endpoints s). en_enabled ep \<and> wants cfg ev ep \<longrightarrow> dedupe_key sha ev (en_id ep) \<in> keys_of s"
  shows "emit_event cfg sha occurred now fresh ev s = (s, 0)"
  using emit_taken[of "list_endpoints True s" cfg ev sha "(s, 0, 0)" occurred now fresh "over_queue_limit cfg s"] assms
  by (auto simp: emit_event_def Let_def list_endpoints_def)

lemma emit_keys:
  assumes "notify_enabled cfg"
  shows "keys_of (fst (emit_event cfg sha occurred now fresh ev s)) =
    keys_of s \<union> {dedupe_key sha ev (en_id ep) | ep. ep \<in> set (nd_endpoints s) \<and> en_enabled ep \<and> wants cfg ev ep}"
proof -
  have "set (list_endpoints True s) = {ep \<in> set (nd_endpoints s). en_enabled ep}" by (simp add: list_endpoints_def)
  then show ?thesis
    using assms emit_fold_keys[of cfg sha occurred now fresh ev "over_queue_limit cfg s" "list_endpoints True s" "(s, 0, 0)"]
    by (auto simp: emit_event_def Let_def split: prod.splits)
qed

text \<open>
  The dedupe key of an event about a resource depends on its type, the resource and the bucket
  only: two events that agree on these fire once, whatever they say.
\<close>

lemma dedupe_key_cong:
  "ne_event_type a = ne_event_type b \<Longrightarrow> ne_resource_id a = ne_resource_id b \<Longrightarrow> ne_resource_id a \<noteq> [] \<Longrightarrow>
     ne_dedupe_bucket a = ne_dedupe_bucket b \<Longrightarrow> dedupe_key sha a = dedupe_key sha b"
  by (rule ext) (simp add: dedupe_key_def Let_def)

lemma emit_fold_suppressed:
  "emit_status cfg suppress = ''suppressed'' \<Longrightarrow>
     fst (snd (fold (emit_one cfg sha occurred now fresh ev suppress) eps acc)) = fst (snd acc)"
proof (induction eps arbitrary: acc)
  case (Cons ep eps)
  then have "fst (snd (emit_one cfg sha occurred now fresh ev suppress ep acc)) = fst (snd acc)"
    by (auto simp: emit_one_def split: prod.splits bool.splits)
  with Cons show ?case by simp
qed simp

text \<open>
  Storm control does not defer, it drops: an event offered while the queue is over its limit
  counts as not queued, and when the same event is offered again, to the same endpoints and with
  the queue empty again, it is not queued either as long as the suppressed rows are kept,
  because those rows hold its dedupe keys.
\<close>

theorem suppressed_event_lost:
  assumes "over_queue_limit cfg s"
    and "emit_event cfg sha occurred now fresh ev s = (s1, queued)"
    and "keys_of s1 \<subseteq> keys_of s2" and "nd_endpoints s2 = nd_endpoints s"
  shows "queued = 0 \<and> emit_event cfg sha occurred' now' fresh' ev s2 = (s2, 0)"
proof (cases "notify_enabled cfg")
  case True
  have "emit_status cfg (over_queue_limit cfg s) = ''suppressed''" using assms(1) by (simp add: emit_status_def)
  from emit_fold_suppressed[OF this, of sha occurred now fresh ev "list_endpoints True s" "(s, 0, 0)"]
  have "queued = 0" using assms(2) True by (auto simp: emit_event_def Let_def split: prod.splits if_splits)
  moreover have "keys_of s1 = keys_of (fst (emit_event cfg sha occurred now fresh ev s))" using assms(2) by simp
  then have "\<forall>ep \<in> set (nd_endpoints s2). en_enabled ep \<and> wants cfg ev ep \<longrightarrow> dedupe_key sha ev (en_id ep) \<in> keys_of s2"
    using emit_keys[OF True, of sha occurred now fresh ev s] assms(3,4) by auto
  ultimately show ?thesis using emit_again_silent by simp
next
  case False
  with assms(2) show ?thesis by (simp add: emit_event_def)
qed

lemma demo_over_limit:
  "over_queue_limit demo_cfg demo_outbox"
  "snd (emit_event demo_cfg (\<lambda>s. s) ''now'' 5 (\<lambda>e. ''n'' @ e) (demo_failed ''j1'') demo_outbox) = 0"
  "map dl_status (nd_deliveries (fst (emit_event demo_cfg (\<lambda>s. s) ''now'' 5 (\<lambda>e. ''n'' @ e) (demo_failed ''j1'') demo_outbox)))
     = [''pending'', ''suppressed'']"
  by code_simp+

lemma finished_keys:
  "map dl_dedupe_key (nd_deliveries (upd_delivery r (finished n st e) s)) = map dl_dedupe_key (nd_deliveries s)"
  by (simp add: upd_delivery_def tbl_update_comp_key finished_def)

lemma suppressed_event_lost_witness:
  "let s1 = fst (emit_event demo_cfg (\<lambda>s. s) ''now'' 5 (\<lambda>e. ''n'' @ e) (demo_failed ''j1'') demo_outbox);
       s2 = upd_delivery ''d0'' (finished 6 ''sent'' []) s1
   in map dl_status (nd_deliveries s1) = [''pending'', ''suppressed'']
    \<and> emit_event demo_cfg (\<lambda>s. s) ''later'' 7 (\<lambda>e. ''m'' @ e) (demo_failed ''j1'') s2 = (s2, 0)"
proof -
  let ?e = "emit_event demo_cfg (\<lambda>s. s) ''now'' 5 (\<lambda>e. ''n'' @ e) (demo_failed ''j1'') demo_outbox"
  let ?s2 = "upd_delivery ''d0'' (finished 6 ''sent'' []) (fst ?e)"
  have keys: "keys_of (upd_delivery r (finished n st e) s) = keys_of s" for r n st e s
    using arg_cong[of _ _ set, OF finished_keys[of r n st e s]] by simp
  have eps: "nd_endpoints ?s2 = nd_endpoints demo_outbox"
    by code_simp
  have "?e = (fst ?e, snd ?e)" by simp
  from suppressed_event_lost[OF demo_over_limit(1) this _ eps] show ?thesis
    using keys demo_over_limit(3) by (simp add: Let_def)
qed

end
