(* ===== verification/Expiry_Reaper.thy ===== *)
theory Expiry_Reaper
  imports Schedules Notify_Outbox
begin

text \<open>
  \<open>services/expiry_reaper.py\<close>: the auto-delete sweep and the writes behind the Extend control.
  A pass reads the inventory, warns about timers that run down, and, when every gate is open,
  starts the teardown of what is past its expiry.

  The state is the job store with the Live Output rows, the rows of the other tables that carry
  a timer (one list, each row naming its table), the configuration, which holds the two arming
  stamps, the notification outbox and the audit entries offered to \<open>log_audit\<close>. What lies outside is
  the record \<open>outside\<close>: the JSON and date functions, the digest, new ids as functions of the tables
  they go into, the inventory query, and \<open>start_decommission\<close> of the services that own a table, which
  refuses with a (non-empty) reason or returns the new state and the id of its job.
\<close>

record timed_row =
  tr_table :: string
  tr_id :: string
  tr_workgroup :: "string option"
  tr_created_at :: "instant option"
  tr_expires_at :: "instant option"
  tr_expiry_warned_at :: "instant option"
  tr_warned_stage :: "int option"

record audit_call =
  au_actor :: string
  au_action :: string
  au_target :: "string option"
  au_details :: dict

record sweep_target =
  tg_reap :: reap
  tg_would_delete :: bool
  tg_deferred :: bool
  tg_destroy_job_id :: "string option"
  tg_error :: "string option"

record sweep_report =
  sr_skipped :: "string option"
  sr_armed :: bool
  sr_armed_at :: "instant option"
  sr_enforce_since :: "instant option"
  sr_deleting :: bool
  sr_scanned :: nat
  sr_due :: nat
  sr_reaped :: nat
  sr_failed :: nat
  sr_deferred :: nat
  sr_warned :: nat
  sr_targets :: "sweep_target list"
  sr_skipped_reasons :: "(string \<times> nat) list"

record reaper_db =
  rx_sw :: sweep_db
  rx_rows :: "timed_row list"
  rx_cfg :: config
  rx_notify :: notify_db
  rx_audit :: "audit_call list"
  rx_last_sweep :: "sweep_report option"

record outside =
  ox_loads :: "string \<Rightarrow> json option"
  ox_fromiso :: "string \<Rightarrow> (instant \<times> int option) option"
  ox_isof :: "instant \<Rightarrow> string"
  ox_sha :: "string \<Rightarrow> string"
  ox_mint_job :: "jdb \<Rightarrow> string"
  ox_mint_row :: "notify_db \<Rightarrow> string \<Rightarrow> string"
  ox_collect :: "reaper_db \<Rightarrow> inv_item list"
  ox_decommission :: "string \<Rightarrow> string \<Rightarrow> reaper_db \<Rightarrow> string + (reaper_db \<times> string option)"

abbreviation rx_db :: "reaper_db \<Rightarrow> jdb" where
  "rx_db s \<equiv> sw_db (rx_sw s)"

definition on_jobs :: "(jdb \<Rightarrow> jdb) \<Rightarrow> reaper_db \<Rightarrow> reaper_db" where
  "on_jobs f s = s\<lparr> rx_sw := (rx_sw s)\<lparr> sw_db := f (rx_db s) \<rparr> \<rparr>"

definition log_line :: "string option \<Rightarrow> string \<Rightarrow> reaper_db \<Rightarrow> reaper_db" where
  "log_line job_id line s =
     (case job_id of
        None \<Rightarrow> s
      | Some jid \<Rightarrow> s\<lparr> rx_sw := (rx_sw s)\<lparr> sw_logs := append_job_log jid line [] (sw_logs (rx_sw s)) \<rparr> \<rparr>)"

definition audit :: "string \<Rightarrow> string \<Rightarrow> string option \<Rightarrow> dict \<Rightarrow> reaper_db \<Rightarrow> reaper_db" where
  "audit actor action target details s =
     s\<lparr> rx_audit := rx_audit s @ [\<lparr> au_actor = actor, au_action = action, au_target = target, au_details = details \<rparr>] \<rparr>"

definition REAPER_ACTOR :: string where
  "REAPER_ACTOR = ''expiry-reaper''"

definition EXPIRY_SWEEP_JOB_TYPE :: string where
  "EXPIRY_SWEEP_JOB_TYPE = ''expiry_sweep''"

definition ARMED_AT_KEY :: string where
  "ARMED_AT_KEY = ''resource_expiry_armed_at''"

definition ENFORCE_SINCE_KEY :: string where
  "ENFORCE_SINCE_KEY = ''resource_expiry_enforce_since''"

section \<open>The two arming clocks\<close>

definition utcfromtimestamp :: "rat \<Rightarrow> instant" where
  "utcfromtimestamp ts = round_half_even (ts * 1000000)"

definition armed_at :: "outside \<Rightarrow> config \<Rightarrow> instant option" where
  "armed_at ox cfg =
     (let raw = or_empty (config_get cfg ARMED_AT_KEY [])
      in if raw = [] then None else map_option utcfromtimestamp (parse_ts (ox_fromiso ox) (TsText raw)))"

definition enforce_since :: "outside \<Rightarrow> config \<Rightarrow> instant option" where
  "enforce_since ox cfg =
     (let raw = or_empty (config_get cfg ENFORCE_SINCE_KEY [])
      in case (if raw = [] then None else parse_ts (ox_fromiso ox) (TsText raw)) of
           None \<Rightarrow> None
         | Some ts \<Rightarrow> (if ts = 0 then None else Some (utcfromtimestamp ts)))"

definition note_enforcement :: "outside \<Rightarrow> instant \<Rightarrow> reaper_db \<Rightarrow> reaper_db \<times> instant option" where
  "note_enforcement ox now s =
     (let cfg = rx_cfg s;
          live = (expiry_enforce cfg \<and> \<not> expiry_dry_run cfg);
          existing = enforce_since ox cfg
      in if live \<and> existing = None then
           (case config_set ENFORCE_SINCE_KEY (ox_isof ox now) cfg of
              None \<Rightarrow> (s, None)
            | Some cfg' \<Rightarrow>
                (audit REAPER_ACTOR ''resource_expiry_enforce_armed'' None
                   [(''enforce_since'', JStr (ox_isof ox now)), (''arm_delay_minutes'', JInt ARM_DELAY_MINUTES)]
                   (s\<lparr> rx_cfg := cfg' \<rparr>), Some now))
         else if \<not> live \<and> existing \<noteq> None then
           (case config_set ENFORCE_SINCE_KEY [] cfg of None \<Rightarrow> (s, None) | Some cfg' \<Rightarrow> (s\<lparr> rx_cfg := cfg' \<rparr>, None))
         else (s, existing))"

definition arm :: "outside \<Rightarrow> instant \<Rightarrow> reaper_db \<Rightarrow> reaper_db \<times> instant" where
  "arm ox now s =
     (case config_set ARMED_AT_KEY (ox_isof ox now) (rx_cfg s) of
        None \<Rightarrow> (s, now)
      | Some cfg' \<Rightarrow>
          (audit REAPER_ACTOR ''resource_expiry_armed'' None
             [(''armed_at'', JStr (ox_isof ox now)), (''arm_delay_minutes'', JInt ARM_DELAY_MINUTES)]
             (s\<lparr> rx_cfg := cfg' \<rparr>), now))"

section \<open>Enqueueing a pass\<close>

definition expiry_new_job :: "string \<Rightarrow> string \<Rightarrow> string option \<Rightarrow> dict \<Rightarrow> new_job" where
  "expiry_new_job job_type created_by workgroup metadata =
     \<lparr> nj_job_type = job_type, nj_created_by = created_by, nj_vm_path = None, nj_workgroup = workgroup,
       nj_metadata = metadata, nj_batch_id = None, nj_status = ''pending'', nj_expires_at = None,
       nj_agent_id = None, nj_scheduled_for = None, nj_window_ends_at = None, nj_change_window_id = None,
       nj_job_schedule_id = None, nj_approval_required = False \<rparr>"

definition enqueue_expiry_sweep ::
  "outside \<Rightarrow> instant \<Rightarrow> int option \<Rightarrow> reaper_db \<Rightarrow> reaper_db \<times> string option" where
  "enqueue_expiry_sweep ox now min_gap s =
     (let gap = (case min_gap of None \<Rightarrow> sweep_min_gap_seconds (rx_cfg s) | Some g \<Rightarrow> g);
          sweeps = filter (\<lambda>j. j_job_type j = EXPIRY_SWEEP_JOB_TYPE) (jobs (rx_db s))
      in if \<not> expiry_enabled (rx_cfg s) then (s, None)
         else if \<exists>j \<in> set sweeps. j_status j \<in> set ACTIVE_STATUSES then (s, None)
         else if gap > 0 \<and> (\<exists>j \<in> set sweeps. j_created_at j \<ge> now - seconds gap) then (s, None)
         else
           (let uuid = ox_mint_job ox (rx_db s);
                nj = expiry_new_job EXPIRY_SWEEP_JOB_TYPE ''system'' None []
            in (on_jobs (\<lambda>db. fst (create_job (ox_loads ox) (rx_cfg s) now uuid nj db)) s, Some uuid)))"

section \<open>Rows by inventory id\<close>

definition py_partition :: "char \<Rightarrow> string \<Rightarrow> string \<times> string" where
  "py_partition c s = (takeWhile (\<lambda>x. x \<noteq> c) s, drop 1 (dropWhile (\<lambda>x. x \<noteq> c) s))"

definition TIMED_TABLES :: "string list" where
  "TIMED_TABLES =
     [''clouddb'', ''k8s'', ''pov'', ''certlab'', ''spirelab'', ''directory'', ''workloadk8s'', ''workloadcloud'']"

datatype timer = JobTimer job | RowTimer timed_row

definition find_timed :: "reaper_db \<Rightarrow> string \<Rightarrow> string \<Rightarrow> timed_row option" where
  "find_timed s table rid = List.find (\<lambda>r. (tr_table r, tr_id r) = (table, rid)) (rx_rows s)"

definition resolve_row :: "reaper_db \<Rightarrow> string \<Rightarrow> timer option" where
  "resolve_row s inv_id =
     (case py_partition (CHR '':'') inv_id of
        (prefix, rid) \<Rightarrow>
          (if rid = [] then None
           else if prefix = ''job'' then map_option JobTimer (get_job (rx_db s) rid)
           else if prefix \<in> set TIMED_TABLES then map_option RowTimer (find_timed s prefix rid)
           else None))"

fun timer_created_at :: "timer \<Rightarrow> instant option" where
  "timer_created_at (JobTimer j) = Some (j_created_at j)"
| "timer_created_at (RowTimer r) = tr_created_at r"

fun timer_expires_at :: "timer \<Rightarrow> instant option" where
  "timer_expires_at (JobTimer j) = j_expires_at j"
| "timer_expires_at (RowTimer r) = tr_expires_at r"

fun timer_warned_at :: "timer \<Rightarrow> instant option" where
  "timer_warned_at (JobTimer j) = j_expiry_warned_at j"
| "timer_warned_at (RowTimer r) = tr_expiry_warned_at r"

text \<open>Only the POV table has the column of the warning ladder.\<close>

fun laddered :: "timer \<Rightarrow> bool" where
  "laddered (JobTimer j) = False"
| "laddered (RowTimer r) = (tr_table r = ''pov'')"

fun timer_stage :: "timer \<Rightarrow> int option" where
  "timer_stage (JobTimer j) = None"
| "timer_stage (RowTimer r) = tr_warned_stage r"

definition upd_timed :: "string \<Rightarrow> string \<Rightarrow> (timed_row \<Rightarrow> timed_row) \<Rightarrow> reaper_db \<Rightarrow> reaper_db" where
  "upd_timed table rid f s =
     s\<lparr> rx_rows := tbl_update (\<lambda>r. (tr_table r, tr_id r) = (table, rid)) f (rx_rows s) \<rparr>"

text \<open>A write of the three timer columns of a resolved row; the stage only where the column exists.\<close>

fun write_timer ::
  "timer \<Rightarrow> (instant option \<Rightarrow> instant option) \<Rightarrow> instant option \<Rightarrow> (int option \<Rightarrow> int option) \<Rightarrow> reaper_db \<Rightarrow> reaper_db"
where
  "write_timer (JobTimer j) expiry warned stage s =
     on_jobs (upd_job (j_id j) (\<lambda>j. j\<lparr> j_expires_at := expiry (j_expires_at j), j_expiry_warned_at := warned \<rparr>)) s"
| "write_timer (RowTimer r) expiry warned stage s =
     upd_timed (tr_table r) (tr_id r)
       (\<lambda>r. r\<lparr> tr_expires_at := expiry (tr_expires_at r), tr_expiry_warned_at := warned,
               tr_warned_stage := (if tr_table r = ''pov'' then stage (tr_warned_stage r) else tr_warned_stage r) \<rparr>) s"

section \<open>Warnings\<close>

definition ts_text :: "outside \<Rightarrow> ts_value \<Rightarrow> string" where
  "ts_text ox v = (case v of TsNull \<Rightarrow> [] | TsText t \<Rightarrow> t | TsDatetime t _ \<Rightarrow> ox_isof ox t)"

definition expiry_event ::
  "string \<Rightarrow> string \<Rightarrow> string \<Rightarrow> string option \<Rightarrow> string option \<Rightarrow> string option \<Rightarrow> string \<Rightarrow> string \<Rightarrow>
     string option \<Rightarrow> string \<Rightarrow> (string \<times> string) list \<Rightarrow> event" where
  "expiry_event event_type title body rid kind name cloud region workgroup url facts =
     \<lparr> ne_event_type = event_type, ne_title = title, ne_body = body, ne_severity = [],
       ne_resource_id = or_empty rid, ne_resource_kind = or_empty kind, ne_resource_name = or_empty name,
       ne_cloud = cloud, ne_region = region, ne_workgroup = or_empty workgroup, ne_url = url,
       ne_dedupe_bucket = [], ne_fields = filter (\<lambda>(_, v). v \<noteq> []) facts \<rparr>"

definition notify :: "outside \<Rightarrow> instant \<Rightarrow> event \<Rightarrow> reaper_db \<Rightarrow> reaper_db \<times> nat" where
  "notify ox now ev s =
     (case emit_event (rx_cfg s) (ox_sha ox) (ox_isof ox now) now (ox_mint_row ox (rx_notify s)) ev (rx_notify s) of
        (n, queued) \<Rightarrow> (s\<lparr> rx_notify := n \<rparr>, queued))"

definition remaining_label :: "rat \<Rightarrow> string" where
  "remaining_label secs =
     (if secs \<ge> 36 * 3600 then
        (let days = max 1 (round_half_even (secs / 86400))
         in ''about '' @ py_str_int days @ '' day'' @ (if days \<noteq> 1 then ''s'' else []))
      else ''about '' @ py_str_int (max 1 \<lfloor>secs / 3600\<rfloor>) @ ''h'')"

definition expiring_event :: "outside \<Rightarrow> rat \<Rightarrow> inv_item \<Rightarrow> event" where
  "expiring_event ox remaining item =
     expiry_event ''resource.expiring''
       (or_empty (it_name item) @ '' auto-deletes in '' @ remaining_label remaining)
       (''Its auto-delete timer expires soon. Extend it from the dashboard if '' @
        ''you still need it '' @ [CHR 0xE2, CHR 0x80, CHR 0x94] @ '' otherwise it will be destroyed automatically.'')
       (it_id item) (it_kind item) (it_name item) (or_empty (it_cloud item)) (or_empty (it_region item))
       (it_workgroup item)
       (if or_empty (it_detail_href item) = [] then ''/inventory'' else or_empty (it_detail_href item))
       [(''Expires'', ts_text ox (it_expires_at item)), (''State'', or_empty (it_state item))]"

text \<open>Whether a row is to be warned now, and the rung if it climbs the ladder.\<close>

definition warn_due :: "config \<Rightarrow> rat \<Rightarrow> timer \<Rightarrow> int option option" where
  "warn_due cfg remaining t =
     (if laddered t then
        (case next_warn_stage remaining (timer_stage t) of None \<Rightarrow> None | Some st \<Rightarrow> Some (Some st))
      else if remaining > of_int (warn_hours cfg * 3600) then None
      else if timer_warned_at t \<noteq> None then None
      else Some None)"

definition warn_one :: "outside \<Rightarrow> instant \<Rightarrow> inv_item \<Rightarrow> reaper_db \<times> nat \<Rightarrow> reaper_db \<times> nat" where
  "warn_one ox now item acc =
     (case acc of (s, warned) \<Rightarrow>
        (case parse_ts (ox_fromiso ox) (it_expires_at item) of
           None \<Rightarrow> acc
         | Some expires_ts \<Rightarrow>
             (let remaining = expires_ts - epoch_seconds now
              in if expires_ts = 0 \<or> remaining \<le> 0 \<or> ttl_capable item \<noteq> None then acc
                 else
                   (case resolve_row s (or_empty (it_id item)) of
                      None \<Rightarrow> acc
                    | Some t \<Rightarrow>
                        (case warn_due (rx_cfg s) remaining t of
                           None \<Rightarrow> acc
                         | Some stage \<Rightarrow>
                             (case notify ox now (expiring_event ox remaining item) s of
                                (s', queued) \<Rightarrow>
                                  (if queued = 0 then (s', warned)
                                   else
                                     (case resolve_row s' (or_empty (it_id item)) of
                                        None \<Rightarrow> (s', warned)
                                      | Some t' \<Rightarrow>
                                          (write_timer t' (\<lambda>e. e) (Some now)
                                             (case stage of None \<Rightarrow> (\<lambda>st. st) | Some st \<Rightarrow> (\<lambda>_. Some st)) s',
                                           warned + 1)))))))))"

definition warn_expiring :: "outside \<Rightarrow> instant \<Rightarrow> inv_item list \<Rightarrow> reaper_db \<Rightarrow> reaper_db \<times> nat" where
  "warn_expiring ox now items s = fold (warn_one ox now) items (s, 0)"

section \<open>Deletion\<close>

fun refusal_text :: "destroy_refusal \<Rightarrow> string" where
  "refusal_text (NoTeardown jt) = jt @ '' has no queued teardown, so it cannot be auto-deleted''"
| "refusal_text (NoTarget key) =
     ''its deploy job recorded no '' @ key @ '' '' @ [CHR 0xE2, CHR 0x80, CHR 0x94] @
     '' the cloud resource cannot be identified, so delete it manually''"
| "refusal_text (NoExtra key) =
     ''its deploy job recorded no '' @ key @ '', and re-deriving one from current config could aim the destroy at the wrong '' @
     map (\<lambda>c. if c = CHR ''_'' then CHR '' '' else c) key @ '' '' @ [CHR 0xE2, CHR 0x80, CHR 0x94] @
     '' delete it manually''"

definition reaped_row :: "string \<Rightarrow> string \<Rightarrow> job \<Rightarrow> job" where
  "reaped_row stamp job_id j =
     set_metadata_dict
       (dict_set (dict_set (metadata_dict j) ''expiry_reaped_at'' (JStr stamp)) ''expiry_reap_job_id'' (JStr job_id))
       (j\<lparr> j_expires_at := None \<rparr>)"

definition reap_vm :: "outside \<Rightarrow> instant \<Rightarrow> reap \<Rightarrow> reaper_db \<Rightarrow> string + (reaper_db \<times> string)" where
  "reap_vm ox now t s =
     (let deploy_job_id = or_empty (reap_job_id t)
      in if deploy_job_id = [] then Inl ''no deploy job recorded, so its teardown cannot be located''
         else
           (case get_job (rx_db s) deploy_job_id of
              None \<Rightarrow> Inl ''its deploy job no longer exists''
            | Some deploy_job \<Rightarrow>
                (if truthy (dict_get (metadata_dict deploy_job) ''destroyed'') then Inl ''already destroyed''
                 else
                   (case build_destroy_metadata (j_job_type deploy_job) (metadata_dict deploy_job) deploy_job_id of
                      Inl e \<Rightarrow> Inl (refusal_text e)
                    | Inr (destroy_type, payload) \<Rightarrow>
                        (let uuid = ox_mint_job ox (rx_db s);
                             nj = expiry_new_job destroy_type REAPER_ACTOR (j_workgroup deploy_job) payload;
                             s1 = on_jobs (\<lambda>db. fst (create_job (ox_loads ox) (rx_cfg s) now uuid nj db)) s
                         in Inr (on_jobs (upd_job deploy_job_id (reaped_row (ox_isof ox now) uuid)) s1, uuid))))))"

definition DECOMMISSIONED_KINDS :: "(string \<times> string) list" where
  "DECOMMISSIONED_KINDS =
     [(''database'', ''clouddb''), (''k8s'', ''k8s''), (''certlab'', ''certlab''), (''directory'', ''directory''),
      (''spirelab'', ''spirelab''), (''workloadk8s'', ''workloadk8s''), (''workloadcloud'', ''workloadcloud'')]"

definition reap_row :: "outside \<Rightarrow> instant \<Rightarrow> reap \<Rightarrow> reaper_db \<Rightarrow> string + (reaper_db \<times> string)" where
  "reap_row ox now t s =
     (let kind = or_empty (reap_kind t); rid = snd (py_partition (CHR '':'') (or_empty (reap_id t)));
          clear = (\<lambda>table s. upd_timed table rid (\<lambda>r. r\<lparr> tr_expires_at := None \<rparr>) s)
      in if rid = [] then Inl ''unrecognised inventory id''
         else
           (case map_of DECOMMISSIONED_KINDS kind of
              Some table \<Rightarrow>
                (case ox_decommission ox kind rid s of
                   Inl e \<Rightarrow> Inl e
                 | Inr (s', jid) \<Rightarrow> Inr (clear table s', or_empty jid))
            | None \<Rightarrow>
                (if kind = ''pov'' then
                   (case find_timed s ''pov'' rid of
                      None \<Rightarrow> Inl ''the POV environment row is gone''
                    | Some env \<Rightarrow>
                        (let uuid = ox_mint_job ox (rx_db s);
                             nj = expiry_new_job ''pov_env_destroy'' REAPER_ACTOR (tr_workgroup env)
                                    [(''environment_id'', JStr rid)]
                         in Inr (clear ''pov''
                              (on_jobs (\<lambda>db. fst (create_job (ox_loads ox) (rx_cfg s) now uuid nj db)) s), uuid)))
                 else Inl (kind @ '' has no queued teardown''))))"

definition reaped_event :: "outside \<Rightarrow> reap \<Rightarrow> string \<Rightarrow> event" where
  "reaped_event ox t jid =
     expiry_event ''resource.reaped''
       (''Auto-deleted '' @ or_empty (reap_name t) @ '' ('' @ reap_cloud t @ '')'')
       (''Its auto-delete timer expired and the dashboard started its teardown. '' @
        ''This was not requested by a person.'')
       (reap_id t) (reap_kind t) (reap_name t) (reap_cloud t) (reap_region t) None (''/jobs/'' @ jid)
       [(''Expired'', ts_text ox (reap_expires_at t)), (''Overdue'', py_str_int (overdue_s t div 60) @ ''m''),
        (''Destroy job'', jid)]"

definition reap_resource :: "outside \<Rightarrow> instant \<Rightarrow> reap \<Rightarrow> reaper_db \<Rightarrow> reaper_db \<times> (string + string)" where
  "reap_resource ox now t s =
     (case (if reap_kind t = Some ''vm'' then reap_vm ox now t s else reap_row ox now t s) of
        Inl e \<Rightarrow> (s, Inl e)
      | Inr (s1, jid) \<Rightarrow>
          (fst (notify ox now (reaped_event ox t jid)
             (audit REAPER_ACTOR ''resource_expiry_reaped'' (reap_name t)
                [(''inventory_id'', JStr (or_empty (reap_id t))), (''kind'', JStr (or_empty (reap_kind t))),
                 (''cloud'', JStr (reap_cloud t)), (''region'', JStr (reap_region t)),
                 (''expires_at'', JStr (ts_text ox (reap_expires_at t))), (''overdue_seconds'', JInt (overdue_s t)),
                 (''destroy_job_id'', JStr jid)] s1)), Inr jid))"

section \<open>The sweep\<close>

definition why_not_deleting :: "config \<Rightarrow> bool \<Rightarrow> instant option \<Rightarrow> instant \<Rightarrow> string" where
  "why_not_deleting cfg is_armed since now =
     (if \<not> expiry_enforce cfg then ''deletion is not enabled''
      else if expiry_dry_run cfg then ''report-only mode''
      else if \<not> is_armed then ''the feature is still arming''
      else
        (case since of
           None \<Rightarrow> ''enforcement was just enabled''
         | Some e \<Rightarrow>
             (let mins = \<lfloor>(of_int (ARM_DELAY_MINUTES * 60) - (epoch_seconds now - epoch_seconds e)) / 60\<rfloor>
              in ''enforcement arms in '' @ py_str_int (max 1 mins) @ ''m'')))"

definition skip_reason :: "outside \<Rightarrow> config \<Rightarrow> instant \<Rightarrow> bool \<Rightarrow> inv_item \<Rightarrow> string option" where
  "skip_reason ox cfg now is_armed item =
     (if \<not> is_armed then Some ''arming delay has not elapsed''
      else if ttl_capable item \<noteq> None then Some ''not eligible for auto-delete''
      else if is_exempt (ox_loads ox) cfg item then Some ''workstream is exempt''
      else if \<not> state_is_idle item then
        Some (''state '' @ py_repr_str (if or_empty (it_state item) = [] then ''unknown'' else or_empty (it_state item)) @
              '' is not idle'')
      else
        (case parse_ts (ox_fromiso ox) (it_expires_at item) of
           None \<Rightarrow> Some ''expiry could not be read''
         | Some e \<Rightarrow>
             (if e = 0 then Some ''expiry could not be read''
              else if e > epoch_seconds now then None else Some ''within the grace period'')))"

fun count_reason :: "string \<Rightarrow> (string \<times> nat) list \<Rightarrow> (string \<times> nat) list" where
  "count_reason r [] = [(r, 1)]"
| "count_reason r ((k, n) # xs) = (if k = r then (k, n + 1) # xs else (k, n) # count_reason r xs)"

definition has_timer :: "inv_item \<Rightarrow> bool" where
  "has_timer item = (case it_expires_at item of TsNull \<Rightarrow> False | TsText t \<Rightarrow> t \<noteq> [] | TsDatetime _ _ \<Rightarrow> True)"

definition classify_item ::
  "outside \<Rightarrow> config \<Rightarrow> instant \<Rightarrow> instant \<Rightarrow> inv_item \<Rightarrow> reap list \<times> (string \<times> nat) list \<Rightarrow> reap list \<times> (string \<times> nat) list"
where
  "classify_item ox cfg now armed_since item acc =
     (if \<not> has_timer item then acc
      else
        (case reap_target (ox_fromiso ox) (ox_loads ox) cfg item (epoch_seconds now) (grace_minutes cfg)
                (Some (epoch_seconds armed_since)) of
           Some t \<Rightarrow> (fst acc @ [t], snd acc)
         | None \<Rightarrow>
             (case skip_reason ox cfg now (armed (Some (epoch_seconds armed_since)) (epoch_seconds now)) item of
                None \<Rightarrow> acc
              | Some r \<Rightarrow> (fst acc, count_reason r (snd acc)))))"

definition plain_target :: "reap \<Rightarrow> sweep_target" where
  "plain_target t =
     \<lparr> tg_reap = t, tg_would_delete = False, tg_deferred = False, tg_destroy_job_id = None, tg_error = None \<rparr>"

definition target_line :: "reap \<Rightarrow> string \<Rightarrow> string" where
  "target_line t rest =
     ''  '' @ or_empty (reap_kind t) @ ''/'' @ reap_cloud t @ '' '' @ or_empty (reap_name t) @ '' '' @
     [CHR 0xE2, CHR 0x80, CHR 0x94] @ '' expired '' @ py_str_int (overdue_s t div 60) @ ''m ago'' @ rest"

record tally =
  ty_db :: reaper_db
  ty_reaped :: nat
  ty_failed :: nat
  ty_deferred :: nat
  ty_targets :: "sweep_target list"

definition sweep_step ::
  "outside \<Rightarrow> instant \<Rightarrow> string option \<Rightarrow> bool \<Rightarrow> string \<Rightarrow> int \<Rightarrow> reap \<Rightarrow> tally \<Rightarrow> tally" where
  "sweep_step ox now job_id may_delete why cap t ty =
     (if \<not> may_delete then
        ty\<lparr> ty_db := log_line job_id (target_line t (''; NOT deleted ('' @ why @ '')'')) (ty_db ty),
            ty_targets := ty_targets ty @ [(plain_target t)\<lparr> tg_would_delete := True \<rparr>] \<rparr>
      else if int (ty_reaped ty) \<ge> cap then
        ty\<lparr> ty_deferred := ty_deferred ty + 1,
            ty_targets := ty_targets ty @ [(plain_target t)\<lparr> tg_deferred := True \<rparr>] \<rparr>
      else
        (case reap_resource ox now t (ty_db ty) of
           (s, Inl e) \<Rightarrow>
             ty\<lparr> ty_db := log_line job_id (target_line t ('' '' @ [CHR 0xE2, CHR 0x86, CHR 0x92] @ '' FAILED: '' @ e)) s,
                 ty_failed := ty_failed ty + 1,
                 ty_targets := ty_targets ty @ [(plain_target t)\<lparr> tg_error := Some e \<rparr>] \<rparr>
         | (s, Inr jid) \<Rightarrow>
             ty\<lparr> ty_db := log_line job_id
                   (target_line t ('' '' @ [CHR 0xE2, CHR 0x86, CHR 0x92] @ '' destroy job '' @ jid)) s,
                 ty_reaped := ty_reaped ty + 1,
                 ty_targets := ty_targets ty @ [(plain_target t)\<lparr> tg_destroy_job_id := Some jid \<rparr>] \<rparr>))"

definition sweep_due :: "outside \<Rightarrow> config \<Rightarrow> instant \<Rightarrow> instant \<Rightarrow> inv_item list \<Rightarrow> reap list \<times> (string \<times> nat) list" where
  "sweep_due ox cfg now armed_since items =
     (case fold (classify_item ox cfg now armed_since) items ([], []) of
        (targets, reasons) \<Rightarrow> (sort_key (\<lambda>t. - overdue_s t) targets, reasons))"

definition sweep_targets ::
  "outside \<Rightarrow> instant \<Rightarrow> string option \<Rightarrow> bool \<Rightarrow> string \<Rightarrow> int \<Rightarrow> reap list \<Rightarrow> reaper_db \<Rightarrow> tally" where
  "sweep_targets ox now job_id may_delete why cap targets s =
     (let s0 = (if targets = [] then s
                else log_line job_id (py_str_int (int (length targets)) @ '' resource(s) '' @
                       (if may_delete then ''destroying'' else ''past their auto-delete expiry'') @ '':'') s);
          ty = fold (sweep_step ox now job_id may_delete why cap) targets
                 \<lparr> ty_db = s0, ty_reaped = 0, ty_failed = 0, ty_deferred = 0, ty_targets = [] \<rparr>
      in if ty_deferred ty = 0 then ty
         else ty\<lparr> ty_db := log_line job_id (''  '' @ ellipsis @ ''and '' @ py_str_int (int (ty_deferred ty)) @
                '' more, deferred to the next sweep (max '' @ py_str_int cap @ '' deletions per pass)'') (ty_db ty) \<rparr>)"

definition may_delete_now :: "config \<Rightarrow> instant \<Rightarrow> instant \<Rightarrow> instant option \<Rightarrow> bool" where
  "may_delete_now cfg now a since \<longleftrightarrow>
     armed (Some (epoch_seconds a)) (epoch_seconds now) \<and>
     deletion_active cfg (map_option epoch_seconds since) (epoch_seconds now)"

definition sweep_report_of ::
  "instant \<Rightarrow> bool \<Rightarrow> instant \<Rightarrow> instant option \<Rightarrow> nat \<Rightarrow> nat \<Rightarrow> nat \<Rightarrow> (string \<times> nat) list \<Rightarrow> tally \<Rightarrow> sweep_report" where
  "sweep_report_of now may_delete a since scanned due_total warned reasons ty =
     \<lparr> sr_skipped = None, sr_armed = armed (Some (epoch_seconds a)) (epoch_seconds now), sr_armed_at = Some a,
       sr_enforce_since = since, sr_deleting = may_delete, sr_scanned = scanned, sr_due = due_total,
       sr_reaped = ty_reaped ty, sr_failed = ty_failed ty, sr_deferred = ty_deferred ty, sr_warned = warned,
       sr_targets = ty_targets ty, sr_skipped_reasons = reasons \<rparr>"

text \<open>The pass once both clocks are read: enumerate, warn, act, report.\<close>

definition sweep_pass ::
  "outside \<Rightarrow> instant \<Rightarrow> string option \<Rightarrow> instant \<Rightarrow> instant option \<Rightarrow> reaper_db \<Rightarrow> reaper_db \<times> sweep_report" where
  "sweep_pass ox now job_id a since s =
     (let cfg = rx_cfg s; items = ox_collect ox s;
          may_delete = may_delete_now cfg now a since;
          due = sweep_due ox cfg now a items;
          warned = warn_expiring ox now items s;
          ty = sweep_targets ox now job_id may_delete
                 (why_not_deleting cfg (armed (Some (epoch_seconds a)) (epoch_seconds now)) since now)
                 (max_per_pass cfg) (fst due) (fst warned);
          res = sweep_report_of now may_delete a since (length items) (length (fst due)) (snd warned) (snd due) ty;
          s' = (ty_db ty)\<lparr> rx_last_sweep := Some res \<rparr>
      in (if fst due = [] then s'
          else audit REAPER_ACTOR ''resource_expiry_sweep'' None
                 [(''scanned'', JInt (int (sr_scanned res))), (''due'', JInt (int (sr_due res))),
                  (''reaped'', JInt (int (sr_reaped res))), (''failed'', JInt (int (sr_failed res))),
                  (''capped'', JBool (sr_deferred res > 0)), (''warned'', JInt (int (sr_warned res))),
                  (''dry_run'', JBool (expiry_dry_run cfg)), (''enforce'', JBool (expiry_enforce cfg)),
                  (''armed'', JBool (sr_armed res)), (''deleting'', JBool may_delete),
                  (''job_id'', case job_id of None \<Rightarrow> JNull | Some j \<Rightarrow> JStr j)] s',
          res))"

definition skipped_report :: sweep_report where
  "skipped_report =
     \<lparr> sr_skipped = Some ''resource_expiry_enabled is off'', sr_armed = False, sr_armed_at = None,
       sr_enforce_since = None, sr_deleting = False, sr_scanned = 0, sr_due = 0, sr_reaped = 0,
       sr_failed = 0, sr_deferred = 0, sr_warned = 0, sr_targets = [], sr_skipped_reasons = [] \<rparr>"

definition sweep_once :: "outside \<Rightarrow> instant \<Rightarrow> string option \<Rightarrow> reaper_db \<Rightarrow> reaper_db \<times> sweep_report" where
  "sweep_once ox now job_id s =
     (if \<not> expiry_enabled (rx_cfg s) then (s\<lparr> rx_last_sweep := Some skipped_report \<rparr>, skipped_report)
      else
        (case (case armed_at ox (rx_cfg s) of None \<Rightarrow> arm ox now s | Some a \<Rightarrow> (s, a)) of
           (s1, a) \<Rightarrow>
             (case note_enforcement ox now s1 of (s2, since) \<Rightarrow> sweep_pass ox now job_id a since s2)))"

definition sweep_summary :: "sweep_report \<Rightarrow> string" where
  "sweep_summary res =
     (case sr_skipped res of
        Some r \<Rightarrow> ''Sweep skipped: '' @ r
      | None \<Rightarrow>
          ''Scanned '' @ py_str_int (int (sr_scanned res)) @ '', past expiry '' @ py_str_int (int (sr_due res)) @
          '', destroyed '' @ py_str_int (int (sr_reaped res)) @
          (if sr_failed res > 0 then '', '' @ py_str_int (int (sr_failed res)) @ '' failed'' else []) @
          (if sr_warned res > 0 then '', '' @ py_str_int (int (sr_warned res)) @ '' warned'' else []) @
          (if sr_deleting res then [] else '' (report only '' @ [CHR 0xE2, CHR 0x80, CHR 0x94] @ '' nothing deleted)''))"

text \<open>The job around a pass; \<open>dump\<close> is the report as the dictionary that is stored.\<close>

definition expiry_run :: "outside \<Rightarrow> (sweep_report \<Rightarrow> dict) \<Rightarrow> instant \<Rightarrow> string \<Rightarrow> reaper_db \<Rightarrow> reaper_db" where
  "expiry_run ox dump now job_id s =
     (case sweep_once ox now (Some job_id) s of
        (s1, res) \<Rightarrow>
          (let s2 = on_jobs (set_completed now job_id [(''sweep'', JObj (dump res))])
                      (on_jobs (update_progress now job_id 100 (sweep_summary res)) s1)
           in s2\<lparr> rx_sw := fst (prune_sweep_history (rx_cfg s2) EXPIRY_SWEEP_JOB_TYPE now (rx_sw s2)) \<rparr>))"

section \<open>Operator changes\<close>

text \<open>
  The Extend control on one item. A refused change is the reason of the policy; \<open>absolute\<close> and
  \<open>extra_h\<close> as in \<open>resolve_expiry\<close>.
\<close>

datatype set_refusal = NotCapable ttl_refusal | NotInInventory | PolicyRefused expiry_error

definition set_expiry_one ::
  "outside \<Rightarrow> instant \<Rightarrow> rat option \<Rightarrow> (instant \<times> int option) option \<Rightarrow> bool \<Rightarrow> bool \<Rightarrow> string \<Rightarrow> inv_item \<Rightarrow>
     reaper_db \<Rightarrow> reaper_db \<times> (set_refusal + instant option \<times> bool)" where
  "set_expiry_one ox now extra_h absolute never is_admin actor item s =
     (case ttl_capable item of
        Some why \<Rightarrow> (s, Inl (NotCapable why))
      | None \<Rightarrow>
          (case resolve_row s (or_empty (it_id item)) of
             None \<Rightarrow> (s, Inl NotInInventory)
           | Some t \<Rightarrow>
               (case resolve_expiry (rx_cfg s) (timer_created_at t) (timer_expires_at t) extra_h absolute never is_admin now of
                  Inl e \<Rightarrow> (s, Inl (PolicyRefused e))
                | Inr (new_expiry, clamped) \<Rightarrow>
                    (audit actor
                       (if new_expiry = None then ''resource_expiry_cleared'' else ''resource_expiry_set'')
                       (it_name item)
                       [(''inventory_id'', JStr (or_empty (it_id item))), (''kind'', JStr (or_empty (it_kind item))),
                        (''cloud'', JStr (or_empty (it_cloud item))),
                        (''previous'', case timer_expires_at t of None \<Rightarrow> JNull | Some p \<Rightarrow> JStr (ox_isof ox p)),
                        (''expires_at'', case new_expiry of None \<Rightarrow> JNull | Some e \<Rightarrow> JStr (ox_isof ox e)),
                        (''clamped'', JBool clamped)]
                       (write_timer t (\<lambda>_. new_expiry) None (\<lambda>_. None) s),
                     Inr (new_expiry, clamped)))))"

definition set_expiry ::
  "outside \<Rightarrow> instant \<Rightarrow> rat option \<Rightarrow> (instant \<times> int option) option \<Rightarrow> bool \<Rightarrow> bool \<Rightarrow> string \<Rightarrow> inv_item list \<Rightarrow>
     reaper_db \<Rightarrow> reaper_db \<times> (set_refusal + instant option \<times> bool) list" where
  "set_expiry ox now extra_h absolute never is_admin actor items s =
     fold (\<lambda>item (s, out). case set_expiry_one ox now extra_h absolute never is_admin actor item s of
             (s', r) \<Rightarrow> (s', out @ [r])) items (s, [])"

text \<open>The status readout: the two clocks and whether a pass now would delete.\<close>

definition reaper_status :: "outside \<Rightarrow> config \<Rightarrow> instant \<Rightarrow> bool \<times> instant option \<times> instant option \<times> bool" where
  "reaper_status ox cfg now =
     (let a = armed_at ox cfg; e = enforce_since ox cfg;
          is_armed = armed (map_option epoch_seconds a) (epoch_seconds now)
      in (is_armed, map_option (\<lambda>t. t + minutes ARM_DELAY_MINUTES) a,
          map_option (\<lambda>t. t + minutes ARM_DELAY_MINUTES) e,
          is_armed \<and> deletion_active cfg (map_option epoch_seconds e) (epoch_seconds now)))"

section \<open>Arming\<close>

lemma epoch_seconds_eq [simp]: "epoch_seconds a = epoch_seconds b \<longleftrightarrow> a = b"
  by (simp add: epoch_seconds_def)

lemma epoch_seconds_zero [simp]: "epoch_seconds a = 0 \<longleftrightarrow> a = 0"
  by (simp add: epoch_seconds_def)

lemma epoch_minutes: "of_int n * 60 \<le> epoch_seconds now - epoch_seconds a \<longleftrightarrow> a + minutes n \<le> now"
proof -
  have "of_int n * 60 \<le> epoch_seconds now - epoch_seconds a \<longleftrightarrow> (of_int (n * 60 * 1000000) :: rat) \<le> of_int (now - a)"
    by (simp add: epoch_seconds_def field_simps)
  also have "\<dots> \<longleftrightarrow> n * 60 * 1000000 \<le> now - a" by (simp only: of_int_le_iff)
  finally show ?thesis by (simp add: minutes_def seconds_def algebra_simps)
qed

lemma armed_iff: "armed (Some (epoch_seconds a)) (epoch_seconds now) \<longleftrightarrow> a \<noteq> 0 \<and> a + minutes ARM_DELAY_MINUTES \<le> now"
  by (simp add: armed_def epoch_minutes)

lemma deletion_active_iff:
  "deletion_active cfg (map_option epoch_seconds since) (epoch_seconds now) \<longleftrightarrow>
     expiry_enforce cfg \<and> \<not> expiry_dry_run cfg \<and>
     (\<exists>e. since = Some e \<and> e \<noteq> 0 \<and> e + minutes ARM_DELAY_MINUTES \<le> now)"
  by (cases since) (auto simp: deletion_active_def epoch_minutes)

text \<open>What the two stamps do not touch.\<close>

definition same_stores :: "reaper_db \<Rightarrow> reaper_db \<Rightarrow> bool" where
  "same_stores s s' \<longleftrightarrow> rx_sw s' = rx_sw s \<and> rx_rows s' = rx_rows s \<and> rx_notify s' = rx_notify s"

lemma arm_stores: "same_stores s (fst (arm ox now s))"
  by (auto simp: arm_def same_stores_def audit_def split: option.splits)

lemma note_stores: "same_stores s (fst (note_enforcement ox now s))"
  by (auto simp: note_enforcement_def same_stores_def audit_def Let_def split: option.splits)

lemma note_existing:
  assumes "note_enforcement ox now s = (s', Some e)" and "e \<noteq> now"
  shows "s' = s" and "enforce_since ox (rx_cfg s) = Some e"
  using assms by (auto simp: note_enforcement_def Let_def split: option.splits if_splits)

section \<open>A pass\<close>

text \<open>Two states that agree on every job and timer, the warning latches apart.\<close>

definition only_warned :: "reaper_db \<Rightarrow> reaper_db \<Rightarrow> bool" where
  "only_warned s s' \<longleftrightarrow>
     map (\<lambda>j. j\<lparr> j_expiry_warned_at := None \<rparr>) (jobs (rx_db s')) = map (\<lambda>j. j\<lparr> j_expiry_warned_at := None \<rparr>) (jobs (rx_db s)) \<and>
     map (\<lambda>r. r\<lparr> tr_expiry_warned_at := None, tr_warned_stage := None \<rparr>) (rx_rows s') =
       map (\<lambda>r. r\<lparr> tr_expiry_warned_at := None, tr_warned_stage := None \<rparr>) (rx_rows s)"

lemma only_warned_refl [simp]: "only_warned s s"
  by (simp add: only_warned_def)

lemma only_warned_trans: "only_warned s t \<Longrightarrow> only_warned t u \<Longrightarrow> only_warned s u"
  by (simp add: only_warned_def)

lemma same_stores_warned: "same_stores s t \<Longrightarrow> only_warned s t"
  by (simp add: same_stores_def only_warned_def)

lemma only_warned_extra [simp]:
  "only_warned s (t\<lparr> rx_last_sweep := x \<rparr>) = only_warned s t"
  "only_warned s (audit a b c d t) = only_warned s t"
  "only_warned s (log_line job_id l t) = only_warned s t"
  by (auto simp: only_warned_def audit_def log_line_def split: option.splits)

lemma only_warned_notify [simp]: "only_warned s (fst (notify ox now ev t)) = only_warned s t"
  by (simp add: only_warned_def notify_def split: prod.splits)

lemma notify_keeps:
  "rx_cfg (fst (notify ox now ev s)) = rx_cfg s" "rx_sw (fst (notify ox now ev s)) = rx_sw s"
  "rx_rows (fst (notify ox now ev s)) = rx_rows s"
  by (simp_all add: notify_def split: prod.splits)

lemma only_warned_write: "only_warned s (write_timer t (\<lambda>e. e) w st s)"
  by (cases t) (simp_all add: only_warned_def on_jobs_def upd_job_def upd_timed_def tbl_update_comp_key)

lemma write_timer_cfg [simp]: "rx_cfg (write_timer t e w st s) = rx_cfg s"
  by (cases t) (simp_all add: on_jobs_def upd_timed_def)

lemma warn_one_cases:
  "\<exists>ev. fst (warn_one ox now item acc) = fst acc \<or> fst (warn_one ox now item acc) = fst (notify ox now ev (fst acc)) \<or>
     (\<exists>t st. fst (warn_one ox now item acc) = write_timer t (\<lambda>e. e) (Some now) st (fst (notify ox now ev (fst acc))))"
proof (rule exI[of _ "expiring_event ox (the (parse_ts (ox_fromiso ox) (it_expires_at item)) - epoch_seconds now) item"])
  show "fst (warn_one ox now item acc) = fst acc \<or>
    fst (warn_one ox now item acc) = fst (notify ox now
      (expiring_event ox (the (parse_ts (ox_fromiso ox) (it_expires_at item)) - epoch_seconds now) item) (fst acc)) \<or>
    (\<exists>t st. fst (warn_one ox now item acc) = write_timer t (\<lambda>e. e) (Some now) st (fst (notify ox now
      (expiring_event ox (the (parse_ts (ox_fromiso ox) (it_expires_at item)) - epoch_seconds now) item) (fst acc))))"
    unfolding warn_one_def Let_def split_beta by (cases acc) (auto split: option.split)
qed

lemma warn_one_step:
  "only_warned (fst acc) (fst (warn_one ox now item acc)) \<and> rx_cfg (fst (warn_one ox now item acc)) = rx_cfg (fst acc)"
proof -
  have "only_warned s (write_timer t (\<lambda>e. e) w st (fst (notify ox now ev s)))" for s t w st ev
    using only_warned_trans[OF _ only_warned_write, of s] by simp
  with warn_one_cases[of ox now item acc] show ?thesis by (auto simp: notify_keeps)
qed

lemma warn_expiring_step:
  "only_warned s (fst (warn_expiring ox now items s)) \<and> rx_cfg (fst (warn_expiring ox now items s)) = rx_cfg s"
proof -
  have "only_warned (fst acc) (fst (fold (warn_one ox now) items acc)) \<and>
      rx_cfg (fst (fold (warn_one ox now) items acc)) = rx_cfg (fst acc)" for acc
  proof (induction items arbitrary: acc)
    case (Cons item items)
    then show ?case using warn_one_step[of acc ox now item] only_warned_trans by fastforce
  qed simp
  from this[of "(s, 0)"] show ?thesis by (simp add: warn_expiring_def)
qed

text \<open>The loop over the targets.\<close>

definition tally_ok :: "int \<Rightarrow> bool \<Rightarrow> reaper_db \<Rightarrow> reap list \<Rightarrow> tally \<Rightarrow> bool" where
  "tally_ok cap may_delete s ds ty \<longleftrightarrow>
     map tg_reap (ty_targets ty) = ds \<and> int (ty_reaped ty) \<le> cap \<and>
     ty_reaped ty = length (filter (\<lambda>t. tg_destroy_job_id t \<noteq> None) (ty_targets ty)) \<and>
     ty_reaped ty + ty_failed ty + ty_deferred ty \<le> length ds \<and>
     (\<not> may_delete \<longrightarrow> ty_reaped ty = 0 \<and> only_warned s (ty_db ty))"

lemma sweep_step_ok:
  assumes "tally_ok cap may_delete s ds ty"
  shows "tally_ok cap may_delete s (ds @ [t]) (sweep_step ox now job_id may_delete why cap t ty)"
  using assms by (auto simp: tally_ok_def sweep_step_def plain_target_def split: prod.splits sum.splits)

lemma sweep_targets_ok:
  assumes "0 \<le> cap"
  shows "tally_ok cap may_delete s targets (sweep_targets ox now job_id may_delete why cap targets s)"
proof -
  let ?f = "sweep_step ox now job_id may_delete why cap"
  have fold: "tally_ok cap may_delete s (ds @ ts) (fold ?f ts ty)" if "tally_ok cap may_delete s ds ty" for ds ts ty
    using that
  proof (induction ts arbitrary: ty ds)
    case (Cons t ts)
    from Cons.IH[OF sweep_step_ok[OF Cons.prems]] show ?case by simp
  qed simp
  have deferred: "tally_ok cap may_delete s d (ty\<lparr> ty_db := log_line job_id l (ty_db ty) \<rparr>) = tally_ok cap may_delete s d ty" for d ty l
    by (simp add: tally_ok_def)
  have "tally_ok cap may_delete s [] \<lparr> ty_db = s0, ty_reaped = 0, ty_failed = 0, ty_deferred = 0, ty_targets = [] \<rparr>"
    if "only_warned s s0" for s0
    using that assms by (simp add: tally_ok_def)
  from fold[OF this, of _ targets] show ?thesis by (simp add: sweep_targets_def Let_def deferred)
qed

lemma sweep_due_targets:
  "t \<in> set (fst (sweep_due ox cfg now a items)) \<longleftrightarrow>
     (\<exists>item \<in> set items. has_timer item \<and>
        reap_target (ox_fromiso ox) (ox_loads ox) cfg item (epoch_seconds now) (grace_minutes cfg) (Some (epoch_seconds a)) = Some t)"
proof -
  have "t \<in> set (fst (fold (classify_item ox cfg now a) items acc)) \<longleftrightarrow> t \<in> set (fst acc) \<or>
      (\<exists>item \<in> set items. has_timer item \<and>
        reap_target (ox_fromiso ox) (ox_loads ox) cfg item (epoch_seconds now) (grace_minutes cfg) (Some (epoch_seconds a)) = Some t)"
    for acc
    by (induction items arbitrary: acc) (auto simp: classify_item_def split: option.splits)
  from this[of "([], [])"] show ?thesis by (simp add: sweep_due_def split_beta)
qed

lemma sweep_pass_ok:
  assumes "sweep_pass ox now job_id a since s = (s', res)"
  shows "sr_deleting res = may_delete_now (rx_cfg s) now a since"
    and "map tg_reap (sr_targets res) = fst (sweep_due ox (rx_cfg s) now a (ox_collect ox s))"
    and "int (sr_reaped res) \<le> max_per_pass (rx_cfg s)"
    and "sr_reaped res = length (filter (\<lambda>t. tg_destroy_job_id t \<noteq> None) (sr_targets res))"
    and "\<not> sr_deleting res \<Longrightarrow> sr_reaped res = 0 \<and> only_warned s s'"
proof -
  let ?cfg = "rx_cfg s" and ?items = "ox_collect ox s" and ?may = "may_delete_now (rx_cfg s) now a since"
  let ?ty = "sweep_targets ox now job_id ?may
      (why_not_deleting ?cfg (armed (Some (epoch_seconds a)) (epoch_seconds now)) since now)
      (max_per_pass ?cfg) (fst (sweep_due ox ?cfg now a ?items)) (fst (warn_expiring ox now ?items s))"
  have eqs: "sr_deleting res = ?may" "sr_reaped res = ty_reaped ?ty" "sr_targets res = ty_targets ?ty"
    using assms by (auto simp: sweep_pass_def Let_def sweep_report_of_def)
  have s': "only_warned t s' = only_warned t (ty_db ?ty)" for t
    using assms by (auto simp: sweep_pass_def Let_def split: if_splits)
  have "tally_ok (max_per_pass ?cfg) ?may (fst (warn_expiring ox now ?items s))
      (fst (sweep_due ox ?cfg now a ?items)) ?ty"
    by (rule sweep_targets_ok) (simp add: max_per_pass_def)
  then show "sr_deleting res = may_delete_now (rx_cfg s) now a since"
    "map tg_reap (sr_targets res) = fst (sweep_due ox (rx_cfg s) now a (ox_collect ox s))"
    "int (sr_reaped res) \<le> max_per_pass (rx_cfg s)"
    "sr_reaped res = length (filter (\<lambda>t. tg_destroy_job_id t \<noteq> None) (sr_targets res))"
    "\<not> sr_deleting res \<Longrightarrow> sr_reaped res = 0 \<and> only_warned s s'"
    using eqs s' only_warned_trans[OF conjunct1[OF warn_expiring_step[of s ox now ?items]]]
    by (auto simp: tally_ok_def)
qed

lemma may_delete_iff:
  "may_delete_now cfg now a since \<longleftrightarrow>
     a \<noteq> 0 \<and> a + minutes ARM_DELAY_MINUTES \<le> now \<and> expiry_enforce cfg \<and> \<not> expiry_dry_run cfg \<and>
     (\<exists>e. since = Some e \<and> e \<noteq> 0 \<and> e + minutes ARM_DELAY_MINUTES \<le> now)"
  by (auto simp: may_delete_now_def armed_iff deletion_active_iff)

text \<open>When a pass may delete, both stamps were there before it, so it starts from the state it found.\<close>

lemma sweep_once_deleting:
  assumes "sweep_once ox now job_id s = (s', res)" and "sr_deleting res"
  obtains a e where "expiry_enabled (rx_cfg s)" "armed_at ox (rx_cfg s) = Some a" "enforce_since ox (rx_cfg s) = Some e"
    "may_delete_now (rx_cfg s) now a (Some e)" "sweep_pass ox now job_id a (Some e) s = (s', res)"
proof -
  have en: "expiry_enabled (rx_cfg s)" using assms by (auto simp: sweep_once_def skipped_report_def split: if_splits)
  obtain s1 a where 1: "(case armed_at ox (rx_cfg s) of None \<Rightarrow> arm ox now s | Some a \<Rightarrow> (s, a)) = (s1, a)" by force
  obtain s2 since where 2: "note_enforcement ox now s1 = (s2, since)" by force
  have pass: "sweep_pass ox now job_id a since s2 = (s', res)"
    using assms(1) en 1 2 by (simp add: sweep_once_def)
  have may: "may_delete_now (rx_cfg s2) now a since" using sweep_pass_ok(1)[OF pass] assms(2) by simp
  then obtain e where since: "since = Some e" and late: "e + minutes ARM_DELAY_MINUTES \<le> now" "a + minutes ARM_DELAY_MINUTES \<le> now"
    by (auto simp: may_delete_iff)
  from late have e: "since = Some e" "a \<noteq> now" "e \<noteq> now" using since
    by (auto simp: minutes_def seconds_def ARM_DELAY_MINUTES_def)
  have "snd (arm ox now s) = now" by (simp add: arm_def split: option.splits)
  then have a: "armed_at ox (rx_cfg s) = Some a" "s1 = s" using 1 e(2) by (auto split: option.splits)
  have "s2 = s" "enforce_since ox (rx_cfg s) = Some e" using note_existing[OF 2[unfolded e(1)] e(3)] a(2) by auto
  then show thesis using that en a e(1) may pass by auto
qed

text \<open>
  C19. Four gates before a deletion. A pass that destroys anything ran with the feature on, with
  enforcement on and report-only off, and both arming stamps were stored at least an hour before
  it; every target it acts on passes the reap predicate on the inventory it read, and it
  destroys no more than the cap per pass. A pass with a gate shut destroys nothing and leaves every
  job and every timer as it was, the warning latches apart.
\<close>

theorem sweep_once_gates:
  assumes "sweep_once ox now job_id s = (s', res)"
  shows "(sr_deleting res \<longrightarrow>
      expiry_enabled (rx_cfg s) \<and> expiry_enforce (rx_cfg s) \<and> \<not> expiry_dry_run (rx_cfg s)
      \<and> (\<exists>a e. armed_at ox (rx_cfg s) = Some a \<and> a + minutes 60 \<le> now
          \<and> enforce_since ox (rx_cfg s) = Some e \<and> e + minutes 60 \<le> now
          \<and> int (sr_reaped res) \<le> max_per_pass (rx_cfg s)
          \<and> (\<forall>t \<in> set (sr_targets res). \<exists>item \<in> set (ox_collect ox s). has_timer item \<and>
              reap_target (ox_fromiso ox) (ox_loads ox) (rx_cfg s) item (epoch_seconds now)
                (grace_minutes (rx_cfg s)) (Some (epoch_seconds a)) = Some (tg_reap t))))
    \<and> (\<not> sr_deleting res \<longrightarrow> sr_reaped res = 0 \<and> only_warned s s')"
proof (cases "sr_deleting res")
  case True
  obtain a e where g: "expiry_enabled (rx_cfg s)" "armed_at ox (rx_cfg s) = Some a" "enforce_since ox (rx_cfg s) = Some e"
    "may_delete_now (rx_cfg s) now a (Some e)" "sweep_pass ox now job_id a (Some e) s = (s', res)"
    by (rule sweep_once_deleting[OF assms True])
  have "tg_reap t \<in> set (fst (sweep_due ox (rx_cfg s) now a (ox_collect ox s)))" if "t \<in> set (sr_targets res)" for t
    using that sweep_pass_ok(2)[OF g(5), symmetric] by simp
  then show ?thesis
    using g sweep_pass_ok(3)[OF g(5)] True by (auto simp: may_delete_iff ARM_DELAY_MINUTES_def sweep_due_targets)
next
  case False
  obtain s1 a where 1: "(case armed_at ox (rx_cfg s) of None \<Rightarrow> arm ox now s | Some a \<Rightarrow> (s, a)) = (s1, a)" by force
  obtain s2 since where 2: "note_enforcement ox now s1 = (s2, since)" by force
  have "only_warned s s1" using 1 arm_stores[of s ox now] same_stores_warned by (auto split: option.splits)
  moreover have "only_warned s1 s2" using note_stores[of s1 ox now] 2 same_stores_warned by simp
  ultimately have s2: "only_warned s s2" by (rule only_warned_trans)
  have "sr_reaped res = 0 \<and> only_warned s s'"
  proof (cases "expiry_enabled (rx_cfg s)")
    case True
    then have "sweep_pass ox now job_id a since s2 = (s', res)" using assms 1 2 by (simp add: sweep_once_def)
    from sweep_pass_ok(5)[OF this False] s2 only_warned_trans show ?thesis by blast
  next
    case False
    with assms show ?thesis by (auto simp: sweep_once_def skipped_report_def)
  qed
  with False show ?thesis by simp
qed

section \<open>Warned once, for good\<close>

lemma expiring_event_simps:
  "ne_event_type (expiring_event ox r item) = ''resource.expiring''" "ne_severity (expiring_event ox r item) = []"
  "ne_resource_id (expiring_event ox r item) = or_empty (it_id item)" "ne_dedupe_bucket (expiring_event ox r item) = []"
  by (simp_all add: expiring_event_def expiry_event_def)

lemma expiring_key:
  assumes "it_id a = it_id b" and "or_empty (it_id a) \<noteq> []"
  shows "dedupe_key sha (expiring_event ox r a) = dedupe_key sha (expiring_event ox' r' b)"
  using assms by (intro dedupe_key_cong) (simp_all add: expiring_event_simps)

lemma should_notify_cong:
  "ne_event_type a = ne_event_type b \<Longrightarrow> ne_severity a = ne_severity b \<Longrightarrow> should_notify cfg a ts = should_notify cfg b ts"
  by (simp only: should_notify_def effective_severity_def)

lemma expiring_wants: "wants cfg (expiring_event ox r a) ep = wants cfg (expiring_event ox' r' b) ep"
  by (rule should_notify_cong) (simp_all only: expiring_event_simps)

lemma emit_counts_enabled: "snd (emit_event cfg sha occ now fresh ev n) \<noteq> 0 \<Longrightarrow> notify_enabled cfg"
  by (auto simp: emit_event_def split: if_splits)

lemma warn_one_queued:
  assumes "warn_one ox now item (s, w) = (s', Suc w)"
  obtains r where "notify_enabled (rx_cfg s)" "or_empty (it_id item) \<noteq> []"
    "rx_notify s' = fst (emit_event (rx_cfg s) (ox_sha ox) (ox_isof ox now) now (ox_mint_row ox (rx_notify s))
        (expiring_event ox r item) (rx_notify s))" "rx_cfg s' = rx_cfg s"
proof -
  obtain e where e: "parse_ts (ox_fromiso ox) (it_expires_at item) = Some e"
    using assms by (auto simp: warn_one_def split: option.splits)
  let ?ev = "expiring_event ox (e - epoch_seconds now) item"
  let ?em = "emit_event (rx_cfg s) (ox_sha ox) (ox_isof ox now) now (ox_mint_row ox (rx_notify s)) ?ev (rx_notify s)"
  have n: "rx_notify (write_timer t f w' st x) = rx_notify x" for t f w' st x
    by (cases t) (simp_all add: on_jobs_def upd_timed_def)
  have "snd ?em \<noteq> 0 \<and> resolve_row s (or_empty (it_id item)) \<noteq> None \<and> rx_notify s' = fst ?em \<and> rx_cfg s' = rx_cfg s"
    using assms e by (auto simp: warn_one_def Let_def notify_def split_beta n split: option.splits if_splits)
  moreover have "resolve_row s [] = None" by (simp add: resolve_row_def py_partition_def)
  ultimately show thesis using that emit_counts_enabled by metis
qed

lemma warn_one_silent:
  assumes "\<And>r. notify ox now (expiring_event ox r item) s = (s, 0)"
  shows "warn_one ox now item (s, w) = (s, w)"
  using assms by (auto simp: warn_one_def Let_def split: option.splits)

text \<open>The endpoints a warning about an item is for: enabled, and subscribed under the settings.\<close>

definition warn_targets :: "outside \<Rightarrow> inv_item \<Rightarrow> reaper_db \<Rightarrow> string set" where
  "warn_targets ox item s =
     en_id ` {ep \<in> set (nd_endpoints (rx_notify s)). en_enabled ep \<and> wants (rx_cfg s) (expiring_event ox 0 item) ep}"

text \<open>
  C20. A resource is warned about once. After a pass queued the warning for an item, no later pass
  queues or counts another one for it, at any time, for any deadline and rung of the ladder and
  whatever happened to its latches, to the stamps of the endpoints or to the settings, as long as the
  delivery rows are kept and no further endpoint is subscribed to the warnings: the dedupe key of a
  warning names the resource only. In particular the later rungs of the ladder and the warning after an
  extended timer are never sent to an endpoint that had the first one.
\<close>

theorem expiry_warning_only_once:
  assumes "warn_one ox now item (s, w) = (s1, Suc w)"
    and "keys_of (rx_notify s1) \<subseteq> keys_of (rx_notify s2)"
    and "warn_targets ox item2 s2 \<subseteq> warn_targets ox item s"
    and "it_id item2 = it_id item"
  shows "warn_one ox now2 item2 (s2, w2) = (s2, w2)"
proof -
  obtain r where first: "notify_enabled (rx_cfg s)" "or_empty (it_id item) \<noteq> []"
    "rx_notify s1 = fst (emit_event (rx_cfg s) (ox_sha ox) (ox_isof ox now) now (ox_mint_row ox (rx_notify s))
        (expiring_event ox r item) (rx_notify s))" "rx_cfg s1 = rx_cfg s"
    by (rule warn_one_queued[OF assms(1)])
  have silent: "notify ox now2 (expiring_event ox r2 item2) s2 = (s2, 0)" for r2
  proof -
    have key: "dedupe_key (ox_sha ox) (expiring_event ox r2 item2) = dedupe_key (ox_sha ox) (expiring_event ox r item)"
      using expiring_key assms(4) first(2) by metis
    have taken: "dedupe_key (ox_sha ox) (expiring_event ox r item) k \<in> keys_of (rx_notify s2)" if "k \<in> warn_targets ox item s" for k
      using that emit_keys[OF first(1), of "ox_sha ox" "ox_isof ox now" now "ox_mint_row ox (rx_notify s)" "expiring_event ox r item" "rx_notify s"]
        first(3) assms(2) expiring_wants[of "rx_cfg s" ox r item _ ox 0 item] by (auto simp: warn_targets_def)
    have "\<forall>ep \<in> set (nd_endpoints (rx_notify s2)). en_enabled ep \<and> wants (rx_cfg s2) (expiring_event ox r2 item2) ep \<longrightarrow>
        dedupe_key (ox_sha ox) (expiring_event ox r2 item2) (en_id ep) \<in> keys_of (rx_notify s2)"
    proof (intro ballI impI)
      fix ep assume "ep \<in> set (nd_endpoints (rx_notify s2))" "en_enabled ep \<and> wants (rx_cfg s2) (expiring_event ox r2 item2) ep"
      then have "en_id ep \<in> warn_targets ox item2 s2"
        using expiring_wants[of "rx_cfg s2" ox r2 item2 ep ox 0 item2] by (auto simp: warn_targets_def)
      with assms(3) taken show "dedupe_key (ox_sha ox) (expiring_event ox r2 item2) (en_id ep) \<in> keys_of (rx_notify s2)"
        by (auto simp: key)
    qed
    from emit_again_silent[OF this] show ?thesis by (simp add: notify_def)
  qed
  show ?thesis by (rule warn_one_silent) (rule silent)
qed

section \<open>The clock of enforcement\<close>

text \<open>What the date functions and the other services promise: an instant reads back from its
  rendering, and a teardown does not write the configuration.\<close>

definition iso_roundtrip :: "outside \<Rightarrow> bool" where
  "iso_roundtrip ox \<longleftrightarrow> (\<forall>t. parse_ts (ox_fromiso ox) (TsText (ox_isof ox t)) = Some (epoch_seconds t))"

definition teardown_keeps_config :: "outside \<Rightarrow> bool" where
  "teardown_keeps_config ox \<longleftrightarrow>
     (\<forall>kind rid s s' j. ox_decommission ox kind rid s = Inr (s', j) \<longrightarrow> rx_cfg s' = rx_cfg s)"

lemma cfg_keeps [simp]:
  "rx_cfg (on_jobs f s) = rx_cfg s" "rx_cfg (upd_timed table rid g s) = rx_cfg s"
  "rx_cfg (log_line job_id l s) = rx_cfg s" "rx_cfg (audit a b c d s) = rx_cfg s"
  by (simp_all add: on_jobs_def upd_timed_def log_line_def audit_def split: option.split)

lemma reap_cfg:
  assumes "teardown_keeps_config ox"
  shows "rx_cfg (fst (reap_resource ox now t s)) = rx_cfg s"
proof -
  have "rx_cfg s' = rx_cfg s" if "reap_vm ox now t s = Inr (s', j)" for s' j
    using that by (auto simp: reap_vm_def Let_def split: option.splits if_splits sum.splits)
  moreover have "rx_cfg s' = rx_cfg s" if "reap_row ox now t s = Inr (s', j)" for s' j
    using that assms
    by (auto simp: reap_row_def Let_def teardown_keeps_config_def split: option.splits if_splits sum.splits) blast
  ultimately show ?thesis
    by (auto simp: reap_resource_def notify_keeps split: sum.splits)
qed

lemma sweep_pass_cfg:
  assumes "teardown_keeps_config ox"
  shows "rx_cfg (fst (sweep_pass ox now job_id a since s)) = rx_cfg s"
proof -
  have step: "rx_cfg (ty_db (sweep_step ox now job_id m why cap t ty)) = rx_cfg (ty_db ty)" for m why cap t ty
    using reap_cfg[OF assms, of now t "ty_db ty"]
    by (auto simp: sweep_step_def split: prod.splits sum.splits)
  have "rx_cfg (ty_db (fold (sweep_step ox now job_id m why cap) ts ty)) = rx_cfg (ty_db ty)" for m why cap ts ty
    by (induction ts arbitrary: ty) (simp_all add: step)
  then show ?thesis
    using warn_expiring_step by (simp add: sweep_pass_def Let_def sweep_targets_def)
qed

lemma isof_nonempty: "iso_roundtrip ox \<Longrightarrow> ox_isof ox t \<noteq> []"
  by (auto simp: iso_roundtrip_def parse_ts_def dest: spec[of _ t])

lemma utc_epoch [simp]: "utcfromtimestamp (epoch_seconds t) = t"
  by (simp add: utcfromtimestamp_def epoch_seconds_def)

lemma keys_distinct: "ENFORCE_SINCE_KEY \<noteq> ARMED_AT_KEY"
  by (simp add: ENFORCE_SINCE_KEY_def ARMED_AT_KEY_def)

lemma enforce_since_set:
  assumes "iso_roundtrip ox" and "config_set ENFORCE_SINCE_KEY v cfg = Some cfg'"
  shows "v = ox_isof ox t \<Longrightarrow> t \<noteq> 0 \<Longrightarrow> enforce_since ox cfg' = Some t" and "v = [] \<Longrightarrow> enforce_since ox cfg' = None"
  using assms isof_nonempty[OF assms(1)]
  by (auto simp: enforce_since_def config_get_set iso_roundtrip_def or_empty_def)

lemma enforce_since_other:
  "config_set ARMED_AT_KEY v cfg = Some cfg' \<Longrightarrow> enforce_since ox cfg' = enforce_since ox cfg"
  by (simp add: enforce_since_def config_get_set keys_distinct)

text \<open>Writing a stamp changes no setting the policy reads.\<close>

lemma policy_flag_set:
  assumes "config_set key v cfg = Some cfg'" and "k \<noteq> key"
  shows "policy_flag cfg' k d = policy_flag cfg k d"
proof -
  have "getattr_setting cfg' = getattr_setting cfg" using config_set_other[OF assms(1)] ..
  moreover have "config_get cfg' k [] = config_get cfg k []" using config_get_set[OF assms(1)] assms(2) by simp
  ultimately show ?thesis by (simp only: policy_flag_def config_get_bool_def)
qed

lemma flags_stamp:
  assumes "config_set key v cfg = Some cfg'" and "key \<in> {ENFORCE_SINCE_KEY, ARMED_AT_KEY}"
  shows "expiry_enforce cfg' = expiry_enforce cfg" "expiry_dry_run cfg' = expiry_dry_run cfg"
proof -
  have "''resource_expiry_enforce'' \<noteq> key" "''resource_expiry_dry_run'' \<noteq> key"
    using assms(2) by (auto simp: ENFORCE_SINCE_KEY_def ARMED_AT_KEY_def)
  then show "expiry_enforce cfg' = expiry_enforce cfg" "expiry_dry_run cfg' = expiry_dry_run cfg"
    using policy_flag_set[OF assms(1)] by (simp_all only: expiry_enforce_def expiry_dry_run_def)
qed

abbreviation live :: "config \<Rightarrow> bool" where
  "live cfg \<equiv> expiry_enforce cfg \<and> \<not> expiry_dry_run cfg"

lemma note_enforcement_stamp:
  assumes "iso_roundtrip ox" and "cfg_readable (rx_cfg s)" and "now \<noteq> 0"
  shows "enforce_since ox (rx_cfg (fst (note_enforcement ox now s))) =
    (if live (rx_cfg s) then Some (case enforce_since ox (rx_cfg s) of None \<Rightarrow> now | Some e \<Rightarrow> e) else None)"
proof -
  obtain c where c: "config_set ENFORCE_SINCE_KEY (ox_isof ox now) (rx_cfg s) = Some c"
    using assms(2) by (simp add: config_set_def)
  obtain d where d: "config_set ENFORCE_SINCE_KEY [] (rx_cfg s) = Some d"
    using assms(2) by (simp add: config_set_def)
  have "enforce_since ox c = Some now" "enforce_since ox d = None"
    using enforce_since_set(1)[OF assms(1) c refl assms(3)] enforce_since_set(2)[OF assms(1) d refl] by simp_all
  with c d show ?thesis
    by (cases "enforce_since ox (rx_cfg s)") (simp_all add: note_enforcement_def Let_def)
qed

lemma sweep_once_stamp:
  assumes "iso_roundtrip ox" "teardown_keeps_config ox" "cfg_readable (rx_cfg s)" "now \<noteq> 0" "expiry_enabled (rx_cfg s)"
  shows "enforce_since ox (rx_cfg (fst (sweep_once ox now job_id s))) =
    (if live (rx_cfg s) then Some (case enforce_since ox (rx_cfg s) of None \<Rightarrow> now | Some e \<Rightarrow> e) else None)"
proof -
  obtain s1 a where 1: "(case armed_at ox (rx_cfg s) of None \<Rightarrow> arm ox now s | Some a \<Rightarrow> (s, a)) = (s1, a)" by force
  obtain cfg' where "config_set ARMED_AT_KEY (ox_isof ox now) (rx_cfg s) = Some cfg'"
    using assms(3) by (simp add: config_set_def)
  from enforce_since_other[OF this] flags_stamp[OF this] config_set_other[OF this] this
  have s1: "enforce_since ox (rx_cfg s1) = enforce_since ox (rx_cfg s)" "live (rx_cfg s1) = live (rx_cfg s)"
    "cfg_readable (rx_cfg s1)"
    using 1 assms(3) by (auto simp: arm_def split: option.splits)
  have "enforce_since ox (rx_cfg (fst (sweep_once ox now job_id s))) =
      enforce_since ox (rx_cfg (fst (note_enforcement ox now s1)))"
    using assms(5) 1 sweep_pass_cfg[OF assms(2)] by (simp add: sweep_once_def split_beta)
  then show ?thesis using note_enforcement_stamp[OF assms(1) s1(3) assms(4)] s1 by simp
qed

text \<open>
  A history of passes: operators edit the settings between them (the stamps are not settings),
  other parties write the other tables. The last component is since when every pass with the
  feature on has found enforcement live.
\<close>

definition stamps_kept :: "config \<Rightarrow> config \<Rightarrow> bool" where
  "stamps_kept cfg cfg' \<longleftrightarrow>
     config_get cfg' ENFORCE_SINCE_KEY [] = config_get cfg ENFORCE_SINCE_KEY [] \<and>
     config_get cfg' ARMED_AT_KEY [] = config_get cfg ARMED_AT_KEY []"

lemma stamps_kept_reads:
  "stamps_kept cfg cfg' \<Longrightarrow> enforce_since ox cfg' = enforce_since ox cfg \<and> armed_at ox cfg' = armed_at ox cfg"
  by (simp add: stamps_kept_def enforce_since_def armed_at_def)

inductive history :: "outside \<Rightarrow> reaper_db \<Rightarrow> instant option \<Rightarrow> bool" for ox where
  first: "enforce_since ox (rx_cfg s) = None \<Longrightarrow> history ox s None"
| pass_on: "history ox s since \<Longrightarrow> stamps_kept (rx_cfg s) cfg \<Longrightarrow> cfg_readable cfg \<Longrightarrow> expiry_enabled cfg \<Longrightarrow> now \<noteq> 0 \<Longrightarrow>
    sweep_once ox now job_id (s\<lparr> rx_cfg := cfg \<rparr>) = (s', res) \<Longrightarrow>
    history ox s' (if live cfg then Some (case since of None \<Rightarrow> now | Some e \<Rightarrow> e) else None)"
| pass_off: "history ox s since \<Longrightarrow> stamps_kept (rx_cfg s) cfg \<Longrightarrow> \<not> expiry_enabled cfg \<Longrightarrow>
    sweep_once ox now job_id (s\<lparr> rx_cfg := cfg \<rparr>) = (s', res) \<Longrightarrow> history ox s' since"
| others: "history ox s since \<Longrightarrow> rx_cfg s' = rx_cfg s \<Longrightarrow> history ox s' since"

lemma sweep_off:
  "\<not> expiry_enabled (rx_cfg s) \<Longrightarrow> sweep_once ox now job_id s = (s\<lparr> rx_last_sweep := Some skipped_report \<rparr>, skipped_report)"
  by (simp add: sweep_once_def)

lemma history_stamp:
  assumes "history ox s since" and "iso_roundtrip ox" and "teardown_keeps_config ox"
  shows "enforce_since ox (rx_cfg s) = since"
  using assms(1)
proof induction
  case (pass_on s since cfg now job_id s' res)
  have "enforce_since ox (rx_cfg (fst (sweep_once ox now job_id (s\<lparr> rx_cfg := cfg \<rparr>)))) =
      (if live cfg then Some (case enforce_since ox cfg of None \<Rightarrow> now | Some e \<Rightarrow> e) else None)"
    using sweep_once_stamp[OF assms(2,3), of "s\<lparr> rx_cfg := cfg \<rparr>" now job_id] pass_on.hyps by simp
  with pass_on stamps_kept_reads[OF pass_on.hyps(2), of ox] show ?case by simp
next
  case (pass_off s since cfg now job_id s' res)
  with sweep_off[of "s\<lparr> rx_cfg := cfg \<rparr>"] stamps_kept_reads[OF pass_off.hyps(2), of ox] show ?case by auto
qed auto

text \<open>
  Turning report-only off acts on nothing for an hour. Over every history of passes, edits of
  the settings and other writes, a pass that deletes comes at least an hour after a pass that
  found enforcement live, and every pass with the feature on in between found it live too: one
  pass in report-only mode starts the hour afresh.
\<close>

theorem enforcement_settles:
  assumes "history ox s since" and "stamps_kept (rx_cfg s) cfg"
    and "sweep_once ox now job_id (s\<lparr> rx_cfg := cfg \<rparr>) = (s', res)" and "sr_deleting res"
    and "iso_roundtrip ox" and "teardown_keeps_config ox"
  shows "\<exists>e. since = Some e \<and> e + minutes 60 \<le> now \<and> live cfg"
proof -
  obtain a e where "enforce_since ox cfg = Some e" "may_delete_now cfg now a (Some e)"
    by (rule sweep_once_deleting[OF assms(3,4)]) auto
  moreover have "enforce_since ox cfg = since"
    using history_stamp[OF assms(1,5,6)] stamps_kept_reads[OF assms(2), of ox] by simp
  ultimately show ?thesis by (auto simp: may_delete_iff ARM_DELAY_MINUTES_def)
qed

lemma sweep_once_deletes:
  assumes "expiry_enabled (rx_cfg s)" and "live (rx_cfg s)"
    and "armed_at ox (rx_cfg s) = Some a" "a \<noteq> 0" "a + minutes 60 \<le> now"
    and "enforce_since ox (rx_cfg s) = Some e" "e \<noteq> 0" "e + minutes 60 \<le> now"
  shows "sr_deleting (snd (sweep_once ox now job_id s))"
proof -
  have "note_enforcement ox now s = (s, Some e)" using assms(2,6) by (simp add: note_enforcement_def Let_def)
  then have "sweep_once ox now job_id s = sweep_pass ox now job_id a (Some e) s"
    using assms(1,3) by (simp add: sweep_once_def)
  moreover have "sr_deleting (snd (sweep_pass ox now job_id a (Some e) s)) = may_delete_now (rx_cfg s) now a (Some e)"
    by (rule sweep_pass_ok(1)[OF prod.collapse[symmetric]])
  ultimately show ?thesis using assms by (simp add: may_delete_iff ARM_DELAY_MINUTES_def)
qed

text \<open>
  Turning the feature off does not restart either clock. Passes with the feature off keep both
  stamps, so when it is turned on again, however long after, the first pass deletes at once if
  the stamps of the earlier period are an hour old.
\<close>

theorem reenabled_deletes_at_once:
  assumes "\<not> expiry_enabled (rx_cfg s)" and "sweep_once ox before job_id s = (s1, res1)"
    and "stamps_kept (rx_cfg s1) cfg" and "expiry_enabled cfg" and "live cfg"
    and "armed_at ox (rx_cfg s) = Some a" and "a \<noteq> 0" and "a + minutes 60 \<le> now"
    and "enforce_since ox (rx_cfg s) = Some e" and "e \<noteq> 0" and "e + minutes 60 \<le> now"
  shows "sr_deleting (snd (sweep_once ox now job_id2 (s1\<lparr> rx_cfg := cfg \<rparr>)))"
proof -
  have "rx_cfg s1 = rx_cfg s" using sweep_off[OF assms(1)] assms(2) by auto
  then have st: "armed_at ox cfg = Some a" "enforce_since ox cfg = Some e"
    using stamps_kept_reads[OF assms(3), of ox] assms(6,9) by auto
  show ?thesis
    using sweep_once_deletes[of "s1\<lparr> rx_cfg := cfg \<rparr>"] st assms(4,5,7,8,10,11) by simp
qed

section \<open>What a reap and an extension do\<close>

interpretation reaped: row_write "reaped_row stamp jid" for stamp jid
  by unfold_locales (auto simp: reaped_row_def set_metadata_dict_def row_ok_def)

interpretation timed: row_write "\<lambda>j. j\<lparr> j_expires_at := f (j_expires_at j), j_expiry_warned_at := w \<rparr>" for f w
  by unfold_locales (auto simp: row_ok_def)

lemma rx_db_on_jobs [simp]: "rx_db (on_jobs f s) = f (rx_db s)"
  by (simp add: on_jobs_def)

lemma destroy_extra_nonempty: "destroy_extra meta keys out = Inr out' \<Longrightarrow> out \<noteq> [] \<Longrightarrow> out' \<noteq> []"
proof (induction meta keys out rule: destroy_extra.induct)
  case (2 meta key keys out)
  have "dict_set d k v \<noteq> []" for d k v by (cases d) (auto split: if_splits)
  with 2 show ?case by (auto simp: Let_def split: if_splits)
qed simp

text \<open>
  Reaping a VM takes its deploy row out of the reaper's view in the write that queues the
  teardown: the row loses its timer and names the destroy job, the destroy job is pending, owned
  by the reaper and aimed at that deploy, and no other job changes.
\<close>

theorem reap_vm_once:
  assumes "reap_vm ox now t s = Inr (s', jid)" and "get_job (rx_db s) (ox_mint_job ox (rx_db s)) = None"
  shows "\<exists>deploy destroy. get_job (rx_db s) (or_empty (reap_job_id t)) = Some deploy
    \<and> get_job (rx_db s') (or_empty (reap_job_id t)) = Some (reaped_row (ox_isof ox now) jid deploy)
    \<and> get_job (rx_db s') jid = Some destroy \<and> j_status destroy = ''pending'' \<and> j_created_by destroy = REAPER_ACTOR
    \<and> build_destroy_metadata (j_job_type deploy) (metadata_dict deploy) (or_empty (reap_job_id t)) =
        Inr (j_job_type destroy, metadata_dict destroy)
    \<and> (\<forall>k. k \<noteq> or_empty (reap_job_id t) \<longrightarrow> k \<noteq> jid \<longrightarrow> get_job (rx_db s') k = get_job (rx_db s) k)"
proof -
  let ?d = "or_empty (reap_job_id t)"
  obtain deploy ty md where d: "get_job (rx_db s) ?d = Some deploy"
    "build_destroy_metadata (j_job_type deploy) (metadata_dict deploy) ?d = Inr (ty, md)" "jid = ox_mint_job ox (rx_db s)"
    and s': "s' = on_jobs (upd_job ?d (reaped_row (ox_isof ox now) jid))
      (on_jobs (\<lambda>db. fst (create_job (ox_loads ox) (rx_cfg s) now jid
         (expiry_new_job ty REAPER_ACTOR (j_workgroup deploy) md) db)) s)"
    using assms(1) by (auto simp: reap_vm_def Let_def split: if_splits option.splits sum.splits)
  let ?row = "new_row (ox_loads ox) (rx_cfg s) now jid (expiry_new_job ty REAPER_ACTOR (j_workgroup deploy) md)"
  have md: "md \<noteq> []" using d(2)
    by (auto simp: build_destroy_metadata_def Let_def dest!: destroy_extra_nonempty split: option.splits prod.splits if_splits sum.splits)
  have row: "j_id ?row = jid" "j_job_type ?row = ty" "metadata_dict ?row = md" "j_status ?row = ''pending''" "j_created_by ?row = REAPER_ACTOR"
    using md by (simp_all add: new_row_def expiry_new_job_def metadata_dict_def Let_def)
  have ne: "jid \<noteq> ?d" using assms(2) d(1,3) by auto
  have "get_job (rx_db s') k = (if k = ?d then map_option (reaped_row (ox_isof ox now) jid) else (\<lambda>x. x))
      (case get_job (rx_db s) k of Some x \<Rightarrow> Some x | None \<Rightarrow> if jid = k then Some ?row else None)" for k
    using ne by (auto simp: s' reaped.get_job_upd_job create_job_def Let_def get_job_append row split: option.split)
  then show ?thesis using d row ne assms(2) by (intro exI[of _ deploy] exI[of _ ?row]) (auto split: option.split)
qed

lemma find_timed_on_jobs [simp]: "find_timed (on_jobs f s) = find_timed s"
  by (simp add: find_timed_def on_jobs_def fun_eq_iff)

lemma rx_db_upd_timed [simp]: "rx_sw (upd_timed table rid f s) = rx_sw s"
  by (simp add: upd_timed_def)

lemma resolve_row_cong:
  assumes "rx_sw a = rx_sw b" and "rx_rows a = rx_rows b"
  shows "resolve_row a = resolve_row b"
proof -
  have "find_timed a = find_timed b" by (simp add: find_timed_def assms(2) fun_eq_iff)
  then show ?thesis by (intro ext) (simp only: resolve_row_def assms(1))
qed

lemma find_timed_upd:
  assumes "\<And>r. tr_table (f r) = tr_table r \<and> tr_id (f r) = tr_id r"
  shows "find_timed (upd_timed table rid f s) tb k =
    (if (tb, k) = (table, rid) then map_option f (find_timed s tb k) else find_timed s tb k)"
proof -
  have "find_timed (upd_timed table rid f s) tb k =
      map_option (\<lambda>r. if (tr_table r, tr_id r) = (table, rid) then f r else r) (find_timed s tb k)"
    unfolding find_timed_def upd_timed_def tbl_update_def by simp (rule find_map_key, simp add: assms)
  then show ?thesis by (cases "find_timed s tb k") (auto simp: find_timed_def dest: find_Some_set)
qed

fun set_timer :: "(instant option \<Rightarrow> instant option) \<Rightarrow> instant option \<Rightarrow> (int option \<Rightarrow> int option) \<Rightarrow> timer \<Rightarrow> timer" where
  "set_timer f w st (JobTimer j) = JobTimer (j\<lparr> j_expires_at := f (j_expires_at j), j_expiry_warned_at := w \<rparr>)"
| "set_timer f w st (RowTimer r) =
     RowTimer (r\<lparr> tr_expires_at := f (tr_expires_at r), tr_expiry_warned_at := w,
       tr_warned_stage := (if tr_table r = ''pov'' then st (tr_warned_stage r) else tr_warned_stage r) \<rparr>)"

lemma resolve_row_cases:
  assumes "resolve_row s i = Some t"
  obtains j where "t = JobTimer j" "py_partition (CHR '':'') i = (''job'', j_id j)" "get_job (rx_db s) (j_id j) = Some j"
  | r where "t = RowTimer r" "py_partition (CHR '':'') i = (tr_table r, tr_id r)" "tr_table r \<noteq> ''job''"
      "find_timed s (tr_table r) (tr_id r) = Some r"
  using assms
  by (auto simp: resolve_row_def find_timed_def dest: find_Some_set get_job_SomeD split: prod.splits if_splits)

text \<open>Writing the timer of a resolved row changes what its own inventory id resolves to and no other.\<close>

lemma resolve_write:
  assumes "resolve_row s i = Some t"
  shows "resolve_row (write_timer t f w st s) k =
    (if py_partition (CHR '':'') k = py_partition (CHR '':'') i then Some (set_timer f w st t) else resolve_row s k)"
  using assms
proof (cases rule: resolve_row_cases)
  case (1 j)
  have jobs: "rx_db (write_timer t f w st s) = upd_job (j_id j) (\<lambda>j. j\<lparr> j_expires_at := f (j_expires_at j), j_expiry_warned_at := w \<rparr>) (rx_db s)"
    using 1(1) by (simp add: on_jobs_def)
  show ?thesis using 1 assms by (auto simp: resolve_row_def jobs timed.get_job_upd_job split: prod.splits if_splits)
next
  case (2 r)
  show ?thesis using 2 assms by (auto simp: resolve_row_def find_timed_upd split: prod.splits if_splits)
qed

text \<open>
  The Extend control on one item: a refusal changes nothing; an accepted change stores the new
  deadline, re-arms both warning latches of that row, and touches the timer of no other id.
\<close>

theorem set_expiry_one_effect:
  assumes "set_expiry_one ox now extra_h absolute never is_admin actor item s = (s', out)"
  shows "case out of
      Inl _ \<Rightarrow> s' = s
    | Inr (new_expiry, _) \<Rightarrow>
        \<exists>t t'. resolve_row s (or_empty (it_id item)) = Some t \<and> resolve_row s' (or_empty (it_id item)) = Some t'
          \<and> timer_expires_at t' = new_expiry \<and> timer_warned_at t' = None \<and> (laddered t' \<longrightarrow> timer_stage t' = None)
          \<and> (\<forall>k. py_partition (CHR '':'') k \<noteq> py_partition (CHR '':'') (or_empty (it_id item)) \<longrightarrow> resolve_row s' k = resolve_row s k)"
proof -
  have aud: "resolve_row (audit a b c d x) = resolve_row x" for a b c d x
    by (rule resolve_row_cong) (simp_all add: audit_def)
  have set: "timer_expires_at (set_timer (\<lambda>_. e) None (\<lambda>_. None) t) = e"
    "timer_warned_at (set_timer (\<lambda>_. e) None (\<lambda>_. None) t) = None"
    "laddered (set_timer (\<lambda>_. e) None (\<lambda>_. None) t) \<longrightarrow> timer_stage (set_timer (\<lambda>_. e) None (\<lambda>_. None) t) = None" for e t
    by (cases t; simp)+
  show ?thesis
    using assms
    by (auto simp: set_expiry_one_def aud resolve_write set split: option.splits sum.splits)
qed

section \<open>A small installation\<close>

text \<open>Instants rendered as integers between marks, one POV with a timer, one endpoint.\<close>

definition demo_isof :: "instant \<Rightarrow> string" where
  "demo_isof t = ''#'' @ py_str_int t @ ''#''"

definition demo_fromiso :: "string \<Rightarrow> (instant \<times> int option) option" where
  "demo_fromiso s = map_option (\<lambda>i. (i, None)) (py_int_of_string (butlast (tl s)))"

definition demo_item :: inv_item where
  "demo_item = \<lparr> it_id = Some ''pov:1'', it_kind = Some ''pov'', it_cloud = Some ''aws'', it_source = None,
     it_state = Some ''active'', it_workgroup = None, it_expires_at = TsDatetime (minutes 20000) None,
     it_name = Some ''lab'', it_region = None, it_job_id = None, it_detail_href = None \<rparr>"

definition demo_ox :: outside where
  "demo_ox = \<lparr> ox_loads = (\<lambda>_. None), ox_fromiso = demo_fromiso, ox_isof = demo_isof, ox_sha = (\<lambda>s. s),
     ox_mint_job = (\<lambda>_. ''d1''), ox_mint_row = (\<lambda>_ e. ''n'' @ e), ox_collect = (\<lambda>_. [demo_item]),
     ox_decommission = (\<lambda>_ _ _. Inl ''refused'') \<rparr>"

definition demo_settings :: "bool \<Rightarrow> string \<Rightarrow> config" where
  "demo_settings enabled stamp = \<lparr> cfg_readable = True,
     cfg_store = [(ARMED_AT_KEY, stamp), (ENFORCE_SINCE_KEY, stamp)],
     cfg_settings = [(''resource_expiry_enabled'', PBool enabled), (''resource_expiry_enforce'', PBool True),
       (''resource_expiry_dry_run'', PBool False), (''notifications_enabled'', PBool True),
       (''notify_dry_run'', PBool False), (''notify_event_types'', PStr ''resource.expiring'')] \<rparr>"

definition demo_reaper :: "config \<Rightarrow> reaper_db" where
  "demo_reaper cfg = \<lparr> rx_sw = \<lparr> sw_db = \<lparr> jobs = [], outbox = [], clusters = [], cloud_databases = [],
       pov_environments = [] \<rparr>, sw_logs = [], sw_schedules = [], sw_windows = [], sw_users = [] \<rparr>,
     rx_rows = [\<lparr> tr_table = ''pov'', tr_id = ''1'', tr_workgroup = None, tr_created_at = None,
       tr_expires_at = Some (minutes 20000), tr_expiry_warned_at = None, tr_warned_stage = None \<rparr>],
     rx_cfg = cfg, rx_notify = \<lparr> nd_endpoints = [demo_endpoint], nd_deliveries = [], nd_storms = [] \<rparr>,
     rx_audit = [], rx_last_sweep = None \<rparr>"

lemma demo_iso: "iso_roundtrip demo_ox"
proof -
  have "py_strip (''#'' @ u @ ''#'') = ''#'' @ u @ ''#''" for u
    by (simp add: py_strip_def is_space_def)
  then show ?thesis
    by (simp add: iso_roundtrip_def demo_ox_def parse_ts_def demo_isof_def demo_fromiso_def py_int_of_py_str
        naive_utc_def Let_def)
qed

lemma demo_teardown: "teardown_keeps_config demo_ox"
  by (simp add: teardown_keeps_config_def demo_ox_def)

lemma emit_single:
  assumes "notify_enabled cfg" and "nd_endpoints n = [ep]" and "nd_deliveries n = []" and "en_enabled ep" and "wants cfg ev ep"
  shows "snd (emit_event cfg sha occ now fresh ev n) = 1"
proof -
  have "max_queue cfg \<ge> 1" by (simp add: max_queue_def)
  then have "\<not> over_queue_limit cfg n" using assms(3) by (simp add: over_queue_limit_def)
  then show ?thesis
    using assms by (simp add: emit_event_def list_endpoints_def emit_one_def insert_delivery_def emit_status_def)
qed

lemma demo_wants: "notify_enabled (demo_settings True [])" "wants (demo_settings True []) (expiring_event demo_ox r demo_item) demo_endpoint"
proof -
  have "wants (demo_settings True []) ((demo_failed ''x'')\<lparr> ne_event_type := ''resource.expiring'' \<rparr>) demo_endpoint" by code_simp
  moreover have "wants (demo_settings True []) (expiring_event demo_ox r demo_item) demo_endpoint =
      wants (demo_settings True []) ((demo_failed ''x'')\<lparr> ne_event_type := ''resource.expiring'' \<rparr>) demo_endpoint"
    by (rule should_notify_cong) (simp_all add: expiring_event_simps demo_failed_def)
  ultimately show "wants (demo_settings True []) (expiring_event demo_ox r demo_item) demo_endpoint" by simp
qed code_simp

lemma demo_warned: "snd (warn_one demo_ox (minutes 10000) demo_item (demo_reaper (demo_settings True []), 0)) = 1"
proof -
  let ?s = "demo_reaper (demo_settings True [])"
  have p: "parse_ts (ox_fromiso demo_ox) (it_expires_at demo_item) = Some 1200000" "ttl_capable demo_item = None"
    "epoch_seconds (minutes 10000) = 600000" "or_empty (it_id demo_item) = ''pov:1''" by code_simp+
  have r: "resolve_row ?s ''pov:1'' = Some (RowTimer (hd (rx_rows ?s)))" by code_simp
  have st: "warn_due (demo_settings True []) 600000 (RowTimer (hd (rx_rows ?s))) = Some (Some 10080)" by code_simp
  have q: "snd (notify demo_ox (minutes 10000) (expiring_event demo_ox 600000 demo_item) ?s) = 1"
    using emit_single[OF demo_wants(1) _ _ _ demo_wants(2)]
    by (simp add: notify_def split_beta demo_reaper_def demo_endpoint_def)
  have "resolve_row (fst (notify demo_ox (minutes 10000) (expiring_event demo_ox 600000 demo_item) ?s)) ''pov:1'' =
      resolve_row ?s ''pov:1''"
    by (rule arg_cong[OF resolve_row_cong, of _ _ "\<lambda>f. f ''pov:1''"]) (simp_all add: notify_keeps)
  moreover have "rx_cfg ?s = demo_settings True []" by (simp add: demo_reaper_def)
  ultimately show ?thesis
    using p r st q by (simp add: warn_one_def Let_def split_beta)
qed

lemma emit_endpoints: "nd_endpoints (fst (emit_event cfg sha occ now fresh ev n)) = nd_endpoints n"
proof -
  have "nd_endpoints (fst (fold (emit_one cfg sha occ now fresh ev sup) eps acc)) = nd_endpoints (fst acc)" for sup eps acc
    by (induction eps arbitrary: acc) (simp_all add: emit_one_cases insert_delivery_def)
  then show ?thesis by (simp add: emit_event_def split_beta Let_def)
qed

lemma warn_one_endpoints: "nd_endpoints (rx_notify (fst (warn_one ox now item acc))) = nd_endpoints (rx_notify (fst acc))"
proof -
  have "rx_notify (write_timer t f w st x) = rx_notify x" for t f w st x
    by (cases t) (simp_all add: on_jobs_def upd_timed_def)
  moreover have "nd_endpoints (rx_notify (fst (notify ox now ev x))) = nd_endpoints (rx_notify x)" for ev x
    by (simp add: notify_def emit_endpoints split_beta)
  ultimately show ?thesis using warn_one_cases[of ox now item acc] by auto
qed

lemma demo_stamps:
  "armed_at demo_ox (demo_settings b (demo_isof t)) = Some t"
  "t \<noteq> 0 \<Longrightarrow> enforce_since demo_ox (demo_settings b (demo_isof t)) = Some t"
  "live (demo_settings b x)" "expiry_enabled (demo_settings b x) = b" "stamps_kept (demo_settings b x) (demo_settings c x)"
proof -
  have k: "ARMED_AT_KEY \<noteq> ENFORCE_SINCE_KEY" "demo_isof t \<noteq> []" by (simp_all add: ARMED_AT_KEY_def ENFORCE_SINCE_KEY_def demo_isof_def)
  have p: "parse_ts (ox_fromiso demo_ox) (TsText (demo_isof t)) = Some (epoch_seconds t)"
    using demo_iso by (simp add: iso_roundtrip_def demo_ox_def)
  have get: "config_get (demo_settings b x) ARMED_AT_KEY [] = Some x" "config_get (demo_settings b x) ENFORCE_SINCE_KEY [] = Some x" for b x
    by (simp_all add: config_get_def demo_settings_def ARMED_AT_KEY_def ENFORCE_SINCE_KEY_def)
  show "armed_at demo_ox (demo_settings b (demo_isof t)) = Some t"
    "t \<noteq> 0 \<Longrightarrow> enforce_since demo_ox (demo_settings b (demo_isof t)) = Some t"
    "stamps_kept (demo_settings b x) (demo_settings c x)"
    using k p by (simp_all add: armed_at_def enforce_since_def get or_empty_def stamps_kept_def)
  have "config_get (demo_settings b x) key [] = Some []"
    if "key \<in> {''resource_expiry_enabled'', ''resource_expiry_enforce'', ''resource_expiry_dry_run''}" for key
    using that by (auto simp: config_get_def demo_settings_def ARMED_AT_KEY_def ENFORCE_SINCE_KEY_def)
  then show "live (demo_settings b x)" "expiry_enabled (demo_settings b x) = b"
    by (simp_all add: expiry_enforce_def expiry_dry_run_def expiry_enabled_def policy_flag_def config_get_bool_def)
      (simp_all add: demo_settings_def getattr_setting_def)
qed

lemma demo_deleting:
  assumes "rx_cfg s = demo_settings True (demo_isof (minutes 100))"
  shows "sr_deleting (snd (sweep_once demo_ox (minutes 15000) j s))"
proof -
  have "minutes 100 \<noteq> 0" "minutes 100 + minutes 60 \<le> minutes 15000" by (simp_all add: minutes_def seconds_def)
  then show ?thesis using sweep_once_deletes[of s] demo_stamps assms by simp
qed

lemma expiry_warning_only_once_witness:
  "let s = demo_reaper (demo_settings True []);
       s1 = fst (warn_one demo_ox (minutes 10000) demo_item (s, 0))
   in snd (warn_one demo_ox (minutes 10000) demo_item (s, 0)) = 1
    \<and> warn_one demo_ox (minutes 19950) demo_item (s1\<lparr> rx_rows := rx_rows s \<rparr>, 0) = (s1\<lparr> rx_rows := rx_rows s \<rparr>, 0)"
proof -
  let ?s = "demo_reaper (demo_settings True [])"
  let ?s1 = "fst (warn_one demo_ox (minutes 10000) demo_item (?s, 0))"
  have w: "warn_one demo_ox (minutes 10000) demo_item (?s, 0) = (?s1, Suc 0)"
    using demo_warned by (metis One_nat_def prod.collapse)
  have eps: "nd_endpoints (rx_notify ?s1) = nd_endpoints (rx_notify ?s)"
    using warn_one_endpoints by simp
  have cfg: "rx_cfg ?s1 = rx_cfg ?s" using w by (metis warn_one_queued fst_conv)
  from expiry_warning_only_once[OF w, of "?s1\<lparr> rx_rows := rx_rows ?s \<rparr>" demo_item "minutes 19950" 0] eps cfg
  have "warn_one demo_ox (minutes 19950) demo_item (?s1\<lparr> rx_rows := rx_rows ?s \<rparr>, 0) = (?s1\<lparr> rx_rows := rx_rows ?s \<rparr>, 0)"
    by (simp add: warn_targets_def)
  with demo_warned show ?thesis by (simp add: Let_def)
qed

lemma sweep_once_gates_witness:
  "let r = sweep_once demo_ox (minutes 15000) None (demo_reaper (demo_settings True (demo_isof (minutes 100))))
   in sr_deleting (snd r) \<and> int (sr_reaped (snd r)) \<le> max_per_pass (demo_settings True (demo_isof (minutes 100)))"
proof -
  let ?s = "demo_reaper (demo_settings True (demo_isof (minutes 100)))"
  let ?r = "sweep_once demo_ox (minutes 15000) None ?s"
  have "sr_deleting (snd ?r)"
    by (rule demo_deleting) (simp add: demo_reaper_def)
  moreover have "rx_cfg ?s = demo_settings True (demo_isof (minutes 100))" by (simp add: demo_reaper_def)
  ultimately show ?thesis
    using sweep_once_gates[OF prod.collapse[symmetric], of demo_ox "minutes 15000" None ?s] by (auto simp: Let_def)
qed

lemma demo_first_pass:
  "rx_cfg (fst (sweep_once demo_ox (minutes 100) None (demo_reaper (demo_settings True [])))) = demo_settings True (demo_isof (minutes 100))"
proof -
  let ?s = "demo_reaper (demo_settings True [])"
  let ?t = "fst (arm demo_ox (minutes 100) ?s)"
  have k: "ARMED_AT_KEY \<noteq> ENFORCE_SINCE_KEY" by (simp add: ARMED_AT_KEY_def ENFORCE_SINCE_KEY_def)
  have none: "armed_at demo_ox (rx_cfg ?s) = None" "expiry_enabled (rx_cfg ?s)"
    using demo_stamps(4) by (simp_all add: demo_reaper_def armed_at_def config_get_def demo_settings_def or_empty_def)
  have t: "rx_cfg ?t = (demo_settings True [])\<lparr> cfg_store := [(ARMED_AT_KEY, demo_isof (minutes 100)), (ENFORCE_SINCE_KEY, [])] \<rparr>"
    using k by (simp add: arm_def config_set_def demo_reaper_def demo_settings_def demo_ox_def)
  have "config_set ARMED_AT_KEY (demo_isof (minutes 100)) (demo_settings True []) = Some (rx_cfg ?t)"
    using k t by (simp add: config_set_def demo_settings_def)
  from flags_stamp[OF this] have l: "live (rx_cfg ?t)" using demo_stamps(3)[of True "[]"] by simp
  have "enforce_since demo_ox (rx_cfg ?t) = None"
    using k t by (simp add: enforce_since_def config_get_def demo_settings_def or_empty_def)
  then have "rx_cfg (fst (note_enforcement demo_ox (minutes 100) ?t)) = demo_settings True (demo_isof (minutes 100))"
    using k t l by (simp add: note_enforcement_def Let_def config_set_def demo_settings_def demo_ox_def)
  then show ?thesis
    using none sweep_pass_cfg[OF demo_teardown] by (simp add: sweep_once_def split_beta)
qed

lemma enforcement_settles_witness:
  "\<exists>e. Some (minutes 100) = Some e \<and> e + minutes 60 \<le> minutes 15000 \<and> live (demo_settings True (demo_isof (minutes 100)))"
proof -
  let ?init = "demo_reaper (demo_settings True [])"
  let ?s = "fst (sweep_once demo_ox (minutes 100) None ?init)"
  have c: "rx_cfg ?init = demo_settings True []" "?init\<lparr> rx_cfg := demo_settings True [] \<rparr> = ?init" by (simp_all add: demo_reaper_def)
  have "history demo_ox ?init None"
    by (rule history.first, unfold c(1)) (simp add: enforce_since_def config_get_def demo_settings_def or_empty_def)
  then have h: "history demo_ox ?s (Some (minutes 100))"
    using history.pass_on[of demo_ox ?init None "demo_settings True []" "minutes 100" None ?s "snd (sweep_once demo_ox (minutes 100) None ?init)"]
      demo_stamps(3,4,5) c by (simp add: minutes_def seconds_def) (simp add: demo_settings_def)
  let ?cfg = "demo_settings True (demo_isof (minutes 100))"
  have "stamps_kept (rx_cfg ?s) ?cfg" by (simp add: demo_first_pass stamps_kept_def)
  moreover have "sr_deleting (snd (sweep_once demo_ox (minutes 15000) None (?s\<lparr> rx_cfg := ?cfg \<rparr>)))"
    by (rule demo_deleting) simp
  ultimately show ?thesis
    using enforcement_settles[OF h _ prod.collapse[symmetric] _ demo_iso demo_teardown] by blast
qed

lemma reenabled_deletes_at_once_witness:
  "let s = demo_reaper (demo_settings False (demo_isof (minutes 100)));
       s1 = fst (sweep_once demo_ox (minutes 9000) None s)
   in \<not> sr_deleting (snd (sweep_once demo_ox (minutes 9000) None s))
    \<and> sr_deleting (snd (sweep_once demo_ox (minutes 15000) None (s1\<lparr> rx_cfg := demo_settings True (demo_isof (minutes 100)) \<rparr>)))"
proof -
  let ?s = "demo_reaper (demo_settings False (demo_isof (minutes 100)))"
  have c: "rx_cfg ?s = demo_settings False (demo_isof (minutes 100))" by (simp add: demo_reaper_def)
  have off: "\<not> expiry_enabled (rx_cfg ?s)" using c demo_stamps(4) by simp
  have m: "minutes 100 \<noteq> 0" "minutes 100 + minutes 60 \<le> minutes 15000" by (simp_all add: minutes_def seconds_def)
  note s1 = sweep_off[OF off, of demo_ox "minutes 9000" None]
  have "sr_deleting (snd (sweep_once demo_ox (minutes 15000) None
      (?s\<lparr> rx_last_sweep := Some skipped_report, rx_cfg := demo_settings True (demo_isof (minutes 100)) \<rparr>)))"
    using reenabled_deletes_at_once[OF off s1, of "demo_settings True (demo_isof (minutes 100))" "minutes 100" "minutes 15000" "minutes 100" None]
      demo_stamps c m by simp
  then show ?thesis by (simp add: Let_def s1 skipped_report_def)
qed

end
