(* ===== verification/Vm_Suspend.thy ===== *)
theory Vm_Suspend
  imports Schedules
begin

text \<open>
  \<open>services/vm_suspend_policy.py\<close>, which cloud VMs may carry a suspend schedule,
  \<open>services/suspend_sweeper.py\<close>, the pass that enqueues the power jobs, and the writes of
  \<open>api/suspend.py\<close> behind the schedule form.

  The state is the job store with the Live Output rows. Parameters: the zones, \<open>loads\<close> as in
  \<open>Job_Service\<close>, \<open>mint\<close>, the id of the job created next, \<open>err_text\<close>, the message of a schedule error,
  and for the form the permission check and the call that pins an Azure address. Nobody else
  writes the rows of a pass while it runs.
\<close>

section \<open>Which VMs\<close>

definition SCHEDULABLE_CLOUDS :: "string list" where
  "SCHEDULABLE_CLOUDS = [''aws'', ''gcp'', ''azure'', ''oci'']"

definition CLOUD_OF :: "(string \<times> string) list" where
  "CLOUD_OF =
     [(''ec2_deploy'', ''aws''), (''gce_deploy'', ''gcp''), (''azure_deploy'', ''azure''), (''oci_deploy'', ''oci'')]"

definition cloud_of :: "string \<Rightarrow> string" where
  "cloud_of job_type = or_empty (map_of CLOUD_OF job_type)"

definition LEGACY_PREFERENCE :: "(string \<times> string \<times> string) list" where
  "LEGACY_PREFERENCE =
     [(''aws'', ''private_ip'', ''public_ip''), (''gcp'', ''private_ip'', ''public_ip''),
      (''azure'', ''private_ip'', ''public_ip''), (''oci'', ''public_ip'', ''private_ip'')]"

definition wired_address :: "string \<Rightarrow> dict \<Rightarrow> json" where
  "wired_address job_type meta =
     (let recorded = dict_get meta ''wired_address''
      in if truthy recorded then recorded
         else
           (case (case map_of LEGACY_PREFERENCE (cloud_of job_type) of
                    None \<Rightarrow> (''private_ip'', ''public_ip'') | Some p \<Rightarrow> p) of
              (first, second) \<Rightarrow>
                (if truthy (dict_get meta first) then dict_get meta first
                 else if truthy (dict_get meta second) then dict_get meta second
                 else JStr [])))"

definition deploy_types_for :: "string list \<Rightarrow> string list" where
  "deploy_types_for clouds = map fst (filter (\<lambda>(_, c). c \<in> set clouds) CLOUD_OF)"

datatype sched_refusal =
    NotCloudVm
  | CloudNotSchedulable string
  | WiredPublic
  | PasswordSafeManaged
  | DynamicAddress

definition WIRED_KEYS :: "string list" where
  "WIRED_KEYS = [''bt_tf_state'', ''ps_registration_tf_state'', ''entitle_registration_tf_state'']"

definition schedulable :: "string \<Rightarrow> dict \<Rightarrow> sched_refusal option" where
  "schedulable job_type meta =
     (let cloud = cloud_of job_type;
          wired = (\<exists>k \<in> set WIRED_KEYS. truthy (dict_get meta k));
          public = dict_get meta ''public_ip''
      in if cloud = [] then Some NotCloudVm
         else if cloud \<notin> set SCHEDULABLE_CLOUDS then Some (CloudNotSchedulable cloud)
         else if wired \<and> truthy public \<and> wired_address job_type meta = public then Some WiredPublic
         else if truthy (dict_get meta ''ps_managed_system_id'') \<or> truthy (dict_get meta ''ps_registration_tf_state'')
         then Some PasswordSafeManaged
         else if cloud = ''azure'' \<and> \<not> truthy (dict_get meta ''private_ip_static'') then Some DynamicAddress
         else None)"

text \<open>The sentence each refusal carries.\<close>

fun refusal_reason :: "sched_refusal \<Rightarrow> string" where
  "refusal_reason NotCloudVm = ''Only cloud VMs can carry a suspend schedule.''"
| "refusal_reason (CloudNotSchedulable cloud) = cloud @ '' VMs cannot be scheduled.''"
| "refusal_reason WiredPublic =
     ''This VM was wired into BeyondTrust at its public address, which is not '' @
     ''guaranteed to survive a stop. Only VMs reached on a private address can '' @
     ''be scheduled, and the address already written into the jump item, '' @
     ''Password Safe system and Entitle registration cannot be changed in '' @
     ''place '' @ [CHR 0xE2, CHR 0x80, CHR 0x94] @ '' so this one would have to be redeployed without a public '' @
     ''address to carry a schedule.''"
| "refusal_reason PasswordSafeManaged =
     ''This VM is managed by Password Safe, which rotates on its own schedule '' @
     ''and cannot reach a stopped instance '' @ [CHR 0xE2, CHR 0x80, CHR 0x94] @ '' a nightly suspend would produce a '' @
     ''nightly rotation failure. Detach auto-management to schedule it.''"
| "refusal_reason DynamicAddress =
     ''This Azure VM'' @ [CHR 0x27] @ ''s private address is still dynamic, so a deallocated VM '' @
     ''could come back on a different one. Setting a schedule pins the address '' @
     ''it already has '' @ [CHR 0xE2, CHR 0x80, CHR 0x94] @ '' the address does not change.''"

definition needs_address_pin :: "string \<Rightarrow> dict \<Rightarrow> bool" where
  "needs_address_pin job_type meta =
     (if cloud_of job_type \<noteq> ''azure'' \<or> truthy (dict_get meta ''private_ip_static'') then False
      else schedulable job_type (dict_set meta ''private_ip_static'' (JBool True)) = None)"

section \<open>The sweep\<close>

definition SUSPEND_SWEEP :: string where
  "SUSPEND_SWEEP = ''suspend_sweep''"

definition POWER_JOB :: "(string \<times> string) list" where
  "POWER_JOB = [(''aws'', ''ec2_power''), (''gcp'', ''gce_power''), (''azure'', ''azure_power''), (''oci'', ''oci_power'')]"

definition DEPLOY_TYPES :: "string list" where
  "DEPLOY_TYPES = deploy_types_for (map fst POWER_JOB)"

definition suspend_enabled :: "config \<Rightarrow> bool" where
  "suspend_enabled cfg = (config_get_bool cfg ''vm_suspend_schedule_enabled'' False = Some True)"

definition sweep_seconds :: "config \<Rightarrow> string \<Rightarrow> int" where
  "sweep_seconds cfg key =
     (let raw = or_empty (config_get cfg key []);
          mins = (if raw = [] then 10 else case py_int_of_string raw of None \<Rightarrow> 10 | Some i \<Rightarrow> i)
      in max 60 (mins * 60))"

definition suspend_interval :: "config \<Rightarrow> int" where
  "suspend_interval cfg = sweep_seconds cfg ''vm_suspend_sweep_interval_minutes''"

definition system_job :: "string \<Rightarrow> string option \<Rightarrow> dict \<Rightarrow> new_job" where
  "system_job job_type workgroup metadata =
     \<lparr> nj_job_type = job_type, nj_created_by = ''system'', nj_vm_path = None, nj_workgroup = workgroup,
       nj_metadata = metadata, nj_batch_id = None, nj_status = ''pending'', nj_expires_at = None,
       nj_agent_id = None, nj_scheduled_for = None, nj_window_ends_at = None, nj_change_window_id = None,
       nj_job_schedule_id = None, nj_approval_required = False \<rparr>"

text \<open>One pass at a time and one per interval, for either sweep.\<close>

definition enqueue_timer_sweep ::
  "(string \<Rightarrow> json option) \<Rightarrow> config \<Rightarrow> bool \<Rightarrow> string \<Rightarrow> int \<Rightarrow> instant \<Rightarrow> string \<Rightarrow> jdb \<Rightarrow> jdb \<times> string option" where
  "enqueue_timer_sweep loads cfg on job_type interval now uuid db =
     (let sweeps = filter (\<lambda>j. j_job_type j = job_type) (jobs db)
      in if \<not> on then (db, None)
         else if \<exists>j \<in> set sweeps. j_status j \<in> set ACTIVE_STATUSES then (db, None)
         else if \<exists>j \<in> set sweeps. j_created_at j \<ge> now - seconds interval then (db, None)
         else (fst (create_job loads cfg now uuid (system_job job_type None []) db), Some uuid))"

definition enqueue_suspend_sweep ::
  "(string \<Rightarrow> json option) \<Rightarrow> config \<Rightarrow> instant \<Rightarrow> string \<Rightarrow> jdb \<Rightarrow> jdb \<times> string option" where
  "enqueue_suspend_sweep loads cfg now uuid db =
     enqueue_timer_sweep loads cfg (suspend_enabled cfg) SUSPEND_SWEEP (suspend_interval cfg) now uuid db"

definition scheduled_vms :: "jdb \<Rightarrow> job list" where
  "scheduled_vms db =
     filter (\<lambda>j. j_job_type j \<in> set DEPLOY_TYPES \<and> j_status j = ''completed'' \<and> j_suspend_at_local j \<noteq> None) (jobs db)"

definition sleep_row_of :: "job \<Rightarrow> sleep_row" where
  "sleep_row_of j =
     \<lparr> sl_suspend_at_local = j_suspend_at_local j, sl_resume_at_local = j_resume_at_local j,
       sl_schedule_timezone = j_schedule_timezone j, sl_schedule_days = j_schedule_days j,
       sl_schedule_last_checked_at = j_schedule_last_checked_at j \<rparr>"

definition azure_rg :: "config \<Rightarrow> string" where
  "azure_rg cfg =
     (let raw = or_empty (config_get cfg ''azure_resource_group'' [])
      in if raw \<noteq> [] then raw
         else (case getattr_setting cfg ''azure_resource_group'' (PStr []) of
                 PStr s \<Rightarrow> (if s \<noteq> [] then s else ''vm-cli-rg'') | _ \<Rightarrow> ''vm-cli-rg''))"

definition power_meta :: "config \<Rightarrow> string \<Rightarrow> job \<Rightarrow> dict \<Rightarrow> string \<Rightarrow> dict" where
  "power_meta cfg cloud row meta verb =
     (if cloud = ''aws'' then
        [(''action'', JStr verb), (''instance_id'', dict_get meta ''instance_id''),
         (''region'', dict_get meta ''region''), (''deploy_job_id'', JStr (j_id row))]
      else if cloud = ''oci'' then
        [(''action'', JStr verb), (''instance_ocid'', dict_get meta ''instance_ocid''), (''deploy_job_id'', JStr (j_id row))]
      else if cloud = ''azure'' then
        [(''action'', JStr verb), (''vm_name'', dict_get meta ''vm_name''),
         (''resource_group'', if truthy (dict_get meta ''resource_group'') then dict_get meta ''resource_group''
            else JStr (azure_rg cfg)),
         (''deploy_job_id'', JStr (j_id row))]
      else
        [(''action'', JStr verb), (''instance_name'', dict_get meta ''instance_name''), (''zone'', dict_get meta ''zone''),
         (''project_id'', dict_get meta ''project_id''), (''deploy_job_id'', JStr (j_id row))])"

definition first_truthy :: "dict \<Rightarrow> string list \<Rightarrow> json" where
  "first_truthy meta keys = dict_get meta (case List.find (\<lambda>k. truthy (dict_get meta k)) keys of None \<Rightarrow> last keys | Some k \<Rightarrow> k)"

text \<open>
  A pass holds the uncommitted state beside the last committed one: creating a job and writing
  Live Output commit, an exception rolls back to the last commit.
\<close>

record power_pass =
  pp_now_db :: sweep_db
  pp_committed :: sweep_db
  pp_considered :: nat
  pp_acted :: "(string \<times> string \<times> string) list"
  pp_skipped :: "(string \<times> sched_refusal) list"
  pp_error :: "schedule_error option"

definition upd_sw :: "(jdb \<Rightarrow> jdb) \<Rightarrow> sweep_db \<Rightarrow> sweep_db" where
  "upd_sw f s = s\<lparr> sw_db := f (sw_db s) \<rparr>"

definition sw_log :: "string \<Rightarrow> string \<Rightarrow> sweep_db \<Rightarrow> sweep_db" where
  "sw_log jid line s = s\<lparr> sw_logs := append_job_log jid line [] (sw_logs s) \<rparr>"

definition checked_row :: "instant \<Rightarrow> job \<Rightarrow> job" where
  "checked_row now j = j\<lparr> j_schedule_last_checked_at := Some now \<rparr>"

definition suspend_one ::
  "(string \<Rightarrow> json option) \<Rightarrow> config \<Rightarrow> (string \<Rightarrow> zone option) \<Rightarrow> (jdb \<Rightarrow> string) \<Rightarrow> string \<Rightarrow> instant \<Rightarrow> string \<Rightarrow>
     power_pass \<Rightarrow> power_pass" where
  "suspend_one loads cfg zones mint sweep_job now rid p =
     (if pp_error p \<noteq> None then p
      else
        (case get_job (sw_db (pp_now_db p)) rid of
           None \<Rightarrow> p
         | Some row \<Rightarrow>
             (let m = metadata_dict row
              in if truthy (dict_get m ''destroyed'') then p
                 else
                   (case schedulable (j_job_type row) m of
                      Some why \<Rightarrow> p\<lparr> pp_considered := pp_considered p + 1, pp_skipped := pp_skipped p @ [(rid, why)] \<rparr>
                    | None \<Rightarrow>
                        (case due_action zones (sleep_row_of row) now {SUSPEND, RESUME} of
                           Inl e \<Rightarrow> p\<lparr> pp_considered := pp_considered p + 1, pp_error := Some e \<rparr>
                         | Inr act \<Rightarrow>
                             (let s1 = upd_sw (upd_job rid (checked_row now)) (pp_now_db p)
                              in if act = [] then p\<lparr> pp_considered := pp_considered p + 1, pp_now_db := s1 \<rparr>
                                 else
                                   (let verb = (if act = RESUME then ''start'' else ''stop'');
                                        cloud = cloud_of (j_job_type row);
                                        uuid = mint (sw_db s1);
                                        nj = system_job (or_empty (map_of POWER_JOB cloud)) (j_workgroup row)
                                               (power_meta cfg cloud row m verb);
                                        s2 = sw_log sweep_job
                                               (verb @ '' '' @ py_str (first_truthy m
                                                  [''instance_name'', ''vm_name'', ''instance_id'', ''instance_ocid'']) @
                                                '' (job '' @ uuid @ '')'')
                                               (upd_sw (\<lambda>db. fst (create_job loads cfg now uuid nj db)) s1)
                                    in p\<lparr> pp_considered := pp_considered p + 1, pp_now_db := s2, pp_committed := s2,
                                          pp_acted := pp_acted p @ [(rid, verb, uuid)] \<rparr>)))))))"

definition suspend_pass ::
  "(string \<Rightarrow> json option) \<Rightarrow> config \<Rightarrow> (string \<Rightarrow> zone option) \<Rightarrow> (jdb \<Rightarrow> string) \<Rightarrow> string \<Rightarrow> instant \<Rightarrow> sweep_db \<Rightarrow> power_pass" where
  "suspend_pass loads cfg zones mint sweep_job now s =
     fold (suspend_one loads cfg zones mint sweep_job now) (map j_id (scheduled_vms (sw_db s)))
       \<lparr> pp_now_db = s, pp_committed = s, pp_considered = 0, pp_acted = [], pp_skipped = [], pp_error = None \<rparr>"

definition suspend_run ::
  "(string \<Rightarrow> json option) \<Rightarrow> config \<Rightarrow> (string \<Rightarrow> zone option) \<Rightarrow> (jdb \<Rightarrow> string) \<Rightarrow> (schedule_error \<Rightarrow> string) \<Rightarrow>
     (power_pass \<Rightarrow> dict) \<Rightarrow> string \<Rightarrow> instant \<Rightarrow> sweep_db \<Rightarrow> sweep_db" where
  "suspend_run loads cfg zones mint err_text result sweep_job now s =
     (let p = suspend_pass loads cfg zones mint sweep_job now (upd_sw (set_running now sweep_job) s)
      in case pp_error p of
           Some e \<Rightarrow> upd_sw (set_failed cfg now sweep_job (err_text e) []) (pp_committed p)
         | None \<Rightarrow> upd_sw (set_completed now sweep_job (result p)) (pp_now_db p))"

section \<open>The schedule form\<close>

datatype form_error = NoSuchDeployment | NotCloudDeployment | PermissionDenied | BadSchedule schedule_error
  | NicNotRecorded | PinFailed string | NotSchedulable sched_refusal

definition load_vm :: "(string \<Rightarrow> string option \<Rightarrow> bool) \<Rightarrow> string \<Rightarrow> jdb \<Rightarrow> form_error + job" where
  "load_vm may_act jid db =
     (case get_job db jid of
        None \<Rightarrow> Inl NoSuchDeployment
      | Some j \<Rightarrow>
          (if cloud_of (j_job_type j) = [] then Inl NotCloudDeployment
           else if \<not> may_act (cloud_of (j_job_type j)) (j_workgroup j) then Inl PermissionDenied
           else Inr j))"

definition pin_azure_address :: "(string \<Rightarrow> string \<Rightarrow> string + string) \<Rightarrow> job \<Rightarrow> form_error + dict" where
  "pin_azure_address pin j =
     (let meta = metadata_dict j; rg = dict_get meta ''resource_group''; nic = dict_get meta ''nic_name''
      in if \<not> truthy rg \<or> \<not> truthy nic then Inl NicNotRecorded
         else (case pin (py_str rg) (py_str nic) of
                 Inl e \<Rightarrow> Inl (PinFailed e)
               | Inr address \<Rightarrow>
                   Inr (dict_set (dict_set meta ''private_ip'' (JStr address)) ''private_ip_static'' (JBool True))))"

definition scheduled_row :: "sleep_form \<Rightarrow> job \<Rightarrow> job" where
  "scheduled_row f j =
     j\<lparr> j_suspend_at_local := sl_suspend_at_local f, j_resume_at_local := sl_resume_at_local f,
        j_schedule_timezone := sl_schedule_timezone f, j_schedule_days := sl_schedule_days f,
        j_schedule_last_checked_at := None \<rparr>"

definition set_schedule ::
  "(string \<Rightarrow> zone option) \<Rightarrow> (string \<Rightarrow> string option \<Rightarrow> bool) \<Rightarrow> (string \<Rightarrow> string \<Rightarrow> string + string) \<Rightarrow> string \<Rightarrow>
     string \<Rightarrow> string \<Rightarrow> string \<Rightarrow> string \<Rightarrow> jdb \<Rightarrow> jdb \<times> (form_error + unit)" where
  "set_schedule zones may_act pin jid suspend_at resume_at tz_name days db =
     (case load_vm may_act jid db of
        Inl e \<Rightarrow> (db, Inl e)
      | Inr j \<Rightarrow>
          (case Suspend_Schedule.validate zones suspend_at resume_at tz_name days of
             Inl e \<Rightarrow> (db, Inl (BadSchedule e))
           | Inr stored \<Rightarrow>
               (case (if needs_address_pin (j_job_type j) (metadata_dict j)
                      then (case pin_azure_address pin j of
                              Inl e \<Rightarrow> Inl e | Inr meta \<Rightarrow> Inr (upd_job jid (set_metadata_dict meta) db, meta))
                      else Inr (db, metadata_dict j)) of
                  Inl e \<Rightarrow> (db, Inl e)
                | Inr (db1, meta) \<Rightarrow>
                    (case schedulable (j_job_type j) meta of
                       Some why \<Rightarrow> (db1, Inl (NotSchedulable why))
                     | None \<Rightarrow> (upd_job jid (scheduled_row stored) db1, Inr ())))))"

definition cleared_form :: sleep_form where
  "cleared_form =
     \<lparr> sl_suspend_at_local = None, sl_resume_at_local = None, sl_schedule_timezone = None, sl_schedule_days = None \<rparr>"

definition clear_schedule :: "(string \<Rightarrow> string option \<Rightarrow> bool) \<Rightarrow> string \<Rightarrow> jdb \<Rightarrow> jdb \<times> (form_error + unit)" where
  "clear_schedule may_act jid db =
     (case load_vm may_act jid db of
        Inl e \<Rightarrow> (db, Inl e)
      | Inr j \<Rightarrow> (upd_job jid (scheduled_row cleared_form) db, Inr ()))"

section \<open>What the pass does\<close>

interpretation checked: row_write "checked_row now" for now
  by unfold_locales (auto simp: checked_row_def row_ok_def)

interpretation scheduled: row_write "scheduled_row f" for f
  by unfold_locales (auto simp: scheduled_row_def row_ok_def)

interpretation merged_meta: row_write "set_metadata_dict meta" for meta
  by unfold_locales (auto simp: set_metadata_dict_def row_ok_def)

text \<open>The verb the schedule of a row asks for now, if any: the reference the pass is compared with.\<close>

definition power_due :: "(string \<Rightarrow> zone option) \<Rightarrow> instant \<Rightarrow> job \<Rightarrow> string option" where
  "power_due zones now j =
     (if truthy (dict_get (metadata_dict j) ''destroyed'') \<or> schedulable (j_job_type j) (metadata_dict j) \<noteq> None then None
      else case due_action zones (sleep_row_of j) now {SUSPEND, RESUME} of
        Inl _ \<Rightarrow> None
      | Inr act \<Rightarrow> (if act = [] then None else Some (if act = RESUME then ''start'' else ''stop'')))"

lemma suspend_one_acted:
  assumes "get_job (sw_db (pp_now_db p)) (j_id j) = Some j" and "pp_error (suspend_one loads cfg zones mint sj now (j_id j) p) = None"
  shows "map (\<lambda>(r, v, _). (r, v)) (pp_acted (suspend_one loads cfg zones mint sj now (j_id j) p)) =
      map (\<lambda>(r, v, _). (r, v)) (pp_acted p) @ (case power_due zones now j of None \<Rightarrow> [] | Some v \<Rightarrow> [(j_id j, v)])"
    and "pp_error p = None"
  using assms
  by (auto simp: suspend_one_def power_due_def Let_def split: option.splits sum.splits if_splits)

lemma suspend_one_db:
  "\<exists>nj. sw_db (pp_now_db (suspend_one loads cfg zones mint sj now rid p)) \<in>
     {sw_db (pp_now_db p), upd_job rid (checked_row now) (sw_db (pp_now_db p)),
      fst (create_job loads cfg now (mint (upd_job rid (checked_row now) (sw_db (pp_now_db p)))) nj
        (upd_job rid (checked_row now) (sw_db (pp_now_db p))))}"
  unfolding suspend_one_def upd_sw_def sw_log_def Let_def by (auto split: option.split sum.split)

lemma create_row_keeps:
  assumes "get_job d uuid = None" and "get_job d k = Some j"
  shows "get_job (fst (create_job loads cfg now uuid nj d)) k = Some j"
  using assms by (simp add: create_job_def Let_def get_job_append)

lemma suspend_one_other:
  assumes "\<And>db. get_job db (mint db) = None" and "get_job (sw_db (pp_now_db p)) k = Some j" and "k \<noteq> rid"
  shows "get_job (sw_db (pp_now_db (suspend_one loads cfg zones mint sj now rid p))) k = Some j"
proof -
  have "get_job (upd_job rid (checked_row now) (sw_db (pp_now_db p))) k = Some j"
    using assms(2,3) by (simp add: checked.get_job_upd_job)
  with create_row_keeps[OF assms(1)] assms(2) suspend_one_db[of loads cfg zones mint sj now rid p] show ?thesis by auto
qed

lemma suspend_fold_acted:
  assumes "\<And>db. get_job db (mint db) = None" and "distinct (map j_id js)"
    and "\<forall>j \<in> set js. get_job (sw_db (pp_now_db p)) (j_id j) = Some j"
    and "pp_error (fold (suspend_one loads cfg zones mint sj now) (map j_id js) p) = None"
  shows "map (\<lambda>(r, v, _). (r, v)) (pp_acted (fold (suspend_one loads cfg zones mint sj now) (map j_id js) p)) =
    map (\<lambda>(r, v, _). (r, v)) (pp_acted p) @
    concat (map (\<lambda>j. case power_due zones now j of None \<Rightarrow> [] | Some v \<Rightarrow> [(j_id j, v)]) js)"
  using assms(2-)
proof (induction js arbitrary: p)
  case (Cons j js)
  let ?p = "suspend_one loads cfg zones mint sj now (j_id j) p"
  have rest: "\<forall>k \<in> set js. get_job (sw_db (pp_now_db ?p)) (j_id k) = Some k"
  proof
    fix k
    assume k: "k \<in> set js"
    then have "j_id k \<in> set (map j_id js)" by simp
    with Cons.prems(1) have "j_id k \<noteq> j_id j" by auto
    moreover have "get_job (sw_db (pp_now_db p)) (j_id k) = Some k" using Cons.prems(2) k by simp
    ultimately show "get_job (sw_db (pp_now_db ?p)) (j_id k) = Some k" by (intro suspend_one_other[OF assms(1)])
  qed
  have err: "pp_error ?p = None"
  proof (rule ccontr)
    assume e: "pp_error ?p \<noteq> None"
    then have "fold (suspend_one loads cfg zones mint sj now) rs ?p = ?p" for rs
      by (induction rs) (auto simp: suspend_one_def)
    with Cons.prems(3) e show False by simp
  qed
  have "distinct (map j_id js)" "pp_error (fold (suspend_one loads cfg zones mint sj now) (map j_id js) ?p) = None"
    using Cons.prems(1,3) by simp_all
  from Cons.IH[OF this(1) rest this(2)] suspend_one_acted(1)[OF _ err] Cons.prems(2) show ?case by simp
qed simp

text \<open>
  The suspend pass does what the schedules say and nothing else. With every stored schedule
  readable it enqueues one power job for each live VM that may be scheduled and whose schedule
  crossed a boundary since its latch, in table order, with the verb of the last boundary, and none
  for any other VM.
\<close>

theorem suspend_pass_exact:
  assumes "distinct (map j_id (jobs (sw_db s)))" and "\<forall>db. get_job db (mint db) = None"
    and "pp_error (suspend_pass loads cfg zones mint sj now s) = None"
  shows "map (\<lambda>(r, v, _). (r, v)) (pp_acted (suspend_pass loads cfg zones mint sj now s)) =
    concat (map (\<lambda>j. case power_due zones now j of None \<Rightarrow> [] | Some v \<Rightarrow> [(j_id j, v)]) (scheduled_vms (sw_db s)))"
proof -
  have "\<forall>j \<in> set (scheduled_vms (sw_db s)). get_job (sw_db s) (j_id j) = Some j"
    using find_key_unique[OF assms(1)] by (auto simp: scheduled_vms_def get_job_def)
  moreover have "distinct (map j_id (scheduled_vms (sw_db s)))"
    unfolding scheduled_vms_def by (rule distinct_map_filter[OF assms(1)])
  ultimately show ?thesis
    using suspend_fold_acted[OF spec[OF assms(2)], of "scheduled_vms (sw_db s)" "\<lparr> pp_now_db = s, pp_committed = s,
        pp_considered = 0, pp_acted = [], pp_skipped = [], pp_error = None \<rparr>" loads cfg zones sj now] assms(3)
    by (simp add: suspend_pass_def)
qed

text \<open>A pass leaves alone every row it did not select.\<close>

lemma suspend_fold_other:
  assumes "\<forall>db. get_job db (mint db) = None" and "get_job (sw_db (pp_now_db p)) k = Some j"
    and "get_job (sw_db (pp_committed p)) k = Some j" and "k \<notin> set rids"
  shows "get_job (sw_db (pp_now_db (fold (suspend_one loads cfg zones mint sj now) rids p))) k = Some j \<and>
    get_job (sw_db (pp_committed (fold (suspend_one loads cfg zones mint sj now) rids p))) k = Some j \<and>
    (k \<notin> fst ` set (pp_acted p) \<longrightarrow> k \<notin> fst ` set (pp_acted (fold (suspend_one loads cfg zones mint sj now) rids p)))"
  using assms(2-)
proof (induction rids arbitrary: p)
  case (Cons rid rids)
  let ?p = "suspend_one loads cfg zones mint sj now rid p"
  have now: "get_job (sw_db (pp_now_db ?p)) k = Some j"
    using suspend_one_other[OF spec[OF assms(1)]] Cons.prems by auto
  have com: "pp_committed ?p = pp_committed p \<or> pp_committed ?p = pp_now_db ?p"
    unfolding suspend_one_def Let_def by (auto split: option.split sum.split)
  have act: "set (pp_acted ?p) \<subseteq> set (pp_acted p) \<union> {rid} \<times> UNIV"
    unfolding suspend_one_def Let_def by (auto split: option.split sum.split)
  have "get_job (sw_db (pp_committed ?p)) k = Some j" using com now Cons.prems(2) by auto
  with Cons.IH[OF now] act Cons.prems(3) show ?case by fastforce
qed simp

lemma suspend_run_other:
  assumes "\<forall>db. get_job db (mint db) = None" and "get_job (sw_db s) k = Some j" and "k \<noteq> sj"
    and "j \<notin> set (scheduled_vms (sw_db s))" and "distinct (map j_id (jobs (sw_db s)))"
  shows "get_job (sw_db (suspend_run loads cfg zones mint err_text result sj now s)) k = Some j \<and>
    k \<notin> fst ` set (pp_acted (suspend_pass loads cfg zones mint sj now (upd_sw (set_running now sj) s)))"
proof -
  let ?s = "upd_sw (set_running now sj) s"
  have k: "get_job (sw_db ?s) k = Some j"
    using assms(2,3) by (simp add: upd_sw_def set_running_def running.get_job_upd_job)
  have "k \<notin> j_id ` set (scheduled_vms (sw_db ?s))"
  proof
    assume "k \<in> j_id ` set (scheduled_vms (sw_db ?s))"
    then obtain i where i: "i \<in> set (jobs (sw_db ?s))" "j_id i = k" "i \<in> set (scheduled_vms (sw_db ?s))"
      by (auto simp: scheduled_vms_def)
    have "distinct (map j_id (jobs (sw_db ?s)))"
      using assms(5) by (simp add: upd_sw_def set_running_def upd_job_def running.ids_tbl_update)
    from find_key_unique[OF this i(1)] have "i = j" using k i(2) by (simp add: get_job_def)
    with i(3) assms(4) get_job_SomeD[OF assms(2)] show False by (auto simp: scheduled_vms_def)
  qed
  then show ?thesis
    using suspend_fold_other[OF assms(1), of "\<lparr> pp_now_db = ?s, pp_committed = ?s, pp_considered = 0,
        pp_acted = [], pp_skipped = [], pp_error = None \<rparr>" k j "map j_id (scheduled_vms (sw_db ?s))" loads cfg zones sj now] k assms(3)
    by (simp add: suspend_run_def suspend_pass_def Let_def upd_sw_def get_job_set_failed set_completed_def
        completed.get_job_upd_job split: option.split)
qed

text \<open>
  A VM whose schedule has a start time only is never started. The form accepts such a schedule
  for a VM that may carry one, but a pass selects rows by their suspend time: it neither acts on
  this VM nor advances its latch, so no later pass does either.
\<close>

theorem start_only_never_woken:
  assumes "set_schedule zones may_act pin jid suspend_at resume_at tz_name days db = (db1, Inr ())"
    and "parse_hhmm suspend_at = Inr None" and "sw_db s = db1" and "distinct (map j_id (jobs db1))"
    and "\<forall>d. get_job d (mint d) = None" and "jid \<noteq> sj"
  shows "\<exists>j. get_job (sw_db (suspend_run loads cfg zones mint err_text result sj now s)) jid = Some j
      \<and> get_job db1 jid = Some j \<and> j_schedule_last_checked_at j = None
      \<and> jid \<notin> fst ` set (pp_acted (suspend_pass loads cfg zones mint sj now (upd_sw (set_running now sj) s)))"
proof -
  obtain j stored db0 where db1: "db1 = upd_job jid (scheduled_row stored) db0" "get_job db0 jid = Some j"
    "Suspend_Schedule.validate zones suspend_at resume_at tz_name days = Inr stored"
    using assms(1)
    by (auto simp: set_schedule_def load_vm_def merged_meta.get_job_upd_job split: sum.splits option.splits if_splits)
  have "sl_suspend_at_local stored = None"
    using db1(3) assms(2) by (auto simp: Suspend_Schedule.validate_def stored_schedule_def split: sum.splits if_splits)
  then have j: "get_job db1 jid = Some (scheduled_row stored j)" "j_suspend_at_local (scheduled_row stored j) = None"
    "j_schedule_last_checked_at (scheduled_row stored j) = None"
    using db1 by (simp_all add: scheduled.get_job_upd_job) (simp_all add: scheduled_row_def)
  have "scheduled_row stored j \<notin> set (scheduled_vms (sw_db s))" using j(2) by (simp add: scheduled_vms_def)
  from suspend_run_other[OF assms(5) _ assms(6) this] j assms(3,4) show ?thesis by auto
qed

text \<open>
  An unpinned address is the last refusal: the form pins an address exactly when that alone
  stands between the VM and its schedule, and pinning then suffices.
\<close>

theorem needs_address_pin_exact:
  "needs_address_pin job_type meta \<longleftrightarrow> schedulable job_type meta = Some DynamicAddress"
proof -
  have "wired_address job_type (dict_set meta ''private_ip_static'' v) = wired_address job_type meta" for v
    by (auto simp: wired_address_def dict_get_set LEGACY_PREFERENCE_def Let_def split: option.splits if_splits)
  moreover have "(\<exists>k \<in> set WIRED_KEYS. truthy (dict_get (dict_set m ''private_ip_static'' v) k)) = (\<exists>k \<in> set WIRED_KEYS. truthy (dict_get m k))"
    for v m by (simp add: WIRED_KEYS_def dict_get_set)
  ultimately show ?thesis
    by (auto simp: needs_address_pin_def schedulable_def Let_def dict_get_set SCHEDULABLE_CLOUDS_def)
qed

section \<open>A start-only schedule\<close>

definition long_id :: "jdb \<Rightarrow> string" where
  "long_id db = replicate (Suc (sum_list (map (length \<circ> j_id) (jobs db)))) (CHR ''x'')"

lemma long_id_fresh: "\<forall>db. get_job db (long_id db) = None"
proof
  fix db
  have "j_id j \<noteq> long_id db" if "j \<in> set (jobs db)" for j
  proof -
    have "(length \<circ> j_id) j \<le> sum_list (map (length \<circ> j_id) (jobs db))"
      using that by (intro member_le_sum_list) auto
    then show ?thesis by (auto simp: long_id_def)
  qed
  then show "get_job db (long_id db) = None" by (auto simp: get_job_def find_None_iff)
qed

definition vm_db :: jdb where
  "vm_db = one_job_db (completed_row 9 [] (running_job ''v'' ''ec2_deploy'' 0))"

definition vm_db1 :: jdb where
  "vm_db1 = fst (set_schedule (\<lambda>_. None) (\<lambda>_ _. True) (\<lambda>_ _. Inl ''none'') ''v'' [] ''08:00'' [] ''1111111'' vm_db)"

definition vm_db2 :: jdb where
  "vm_db2 = one_job_db ((completed_row 9 [] (running_job ''v'' ''ec2_deploy'' 0))
     \<lparr> j_suspend_at_local := Some ''08:00'', j_schedule_days := Some ''1111111'', j_schedule_last_checked_at := Some (seconds 20000) \<rparr>)"

lemma vm_db1_ok:
  "set_schedule (\<lambda>_. None) (\<lambda>_ _. True) (\<lambda>_ _. Inl ''none'') ''v'' [] ''08:00'' [] ''1111111'' vm_db = (vm_db1, Inr ())"
  "parse_hhmm [] = Inr None" "map j_id (jobs vm_db1) = [''v'']"
  "map_option j_resume_at_local (get_job vm_db1 ''v'') = Some (Some ''08:00'')"
proof -
  have "snd (set_schedule (\<lambda>_. None) (\<lambda>_ _. True) (\<lambda>_ _. Inl ''none'') ''v'' [] ''08:00'' [] ''1111111'' vm_db) = Inr ()"
    by code_simp
  then show "set_schedule (\<lambda>_. None) (\<lambda>_ _. True) (\<lambda>_ _. Inl ''none'') ''v'' [] ''08:00'' [] ''1111111'' vm_db = (vm_db1, Inr ())"
    unfolding vm_db1_def by (metis prod.collapse)
  show "parse_hhmm [] = Inr None" "map j_id (jobs vm_db1) = [''v'']"
    "map_option j_resume_at_local (get_job vm_db1 ''v'') = Some (Some ''08:00'')"
    by code_simp+
qed

lemma start_only_never_woken_witness:
  "\<exists>j. get_job (sw_db (suspend_run (\<lambda>_. None) default_config (\<lambda>_. None) long_id (\<lambda>_. []) (\<lambda>_. []) ''sw'' 500
        \<lparr> sw_db = vm_db1, sw_logs = [], sw_schedules = [], sw_windows = [], sw_users = [] \<rparr>)) ''v'' = Some j
    \<and> j_schedule_last_checked_at j = None \<and> j_resume_at_local j = Some ''08:00''"
  using start_only_never_woken[OF vm_db1_ok(1,2) _ _ long_id_fresh, where
      s = "\<lparr> sw_db = vm_db1, sw_logs = [], sw_schedules = [], sw_windows = [], sw_users = [] \<rparr>" and sj = "''sw''"
      and loads = "\<lambda>_. None" and cfg = default_config and err_text = "\<lambda>_. []" and result = "\<lambda>_. []" and now = 500] vm_db1_ok(3,4)
  by auto

lemma suspend_pass_exact_witness:
  "map (\<lambda>(r, v, _). (r, v)) (pp_acted (suspend_pass (\<lambda>_. None) default_config (\<lambda>_. None) long_id ''sw'' (seconds 43200)
      \<lparr> sw_db = vm_db2, sw_logs = [], sw_schedules = [], sw_windows = [], sw_users = [] \<rparr>)) = [(''v'', ''stop'')]"
proof -
  let ?s = "\<lparr> sw_db = vm_db2, sw_logs = [], sw_schedules = [], sw_windows = [], sw_users = [] \<rparr>"
  have "map j_id (jobs vm_db2) = [''v'']" by code_simp
  moreover have "map_option pp_error (Some (suspend_pass (\<lambda>_. None) default_config (\<lambda>_. None) long_id ''sw'' (seconds 43200) ?s)) = Some None"
    by code_simp
  moreover have "concat (map (\<lambda>j. case power_due (\<lambda>_. None) (seconds 43200) j of None \<Rightarrow> [] | Some v \<Rightarrow> [(j_id j, v)]) (scheduled_vms vm_db2)) = [(''v'', ''stop'')]"
    by code_simp
  ultimately show ?thesis
    using suspend_pass_exact[OF _ long_id_fresh, of ?s "\<lambda>_. None" default_config "\<lambda>_. None" "''sw''" "seconds 43200"] by simp
qed

end
