(* ===== verification/Spend_Cap.thy ===== *)
theory Spend_Cap
  imports Vm_Suspend Notify_Outbox
begin

text \<open>
  \<open>services/spend_policy.py\<close>, \<open>services/spend_sweeper.py\<close> and the writes of \<open>api/spend.py\<close>: the cap on
  what a cloud VM may cost, the estimate accrued against it, and what happens when it is reached.

  Dollars are exact rationals. Parameters: \<open>usd\<close>, an amount with thousands separators and two
  decimals; the price source (what it can price, the region of a zone, the list price per hour,
  \<open>None\<close> when there is none or the lookup failed); \<open>sha\<close>, \<open>occurred\<close> and \<open>mint_row\<close> as in the outbox,
  \<open>loads\<close>, \<open>mint\<close> and the permission check as in the suspend sweep.
\<close>

section \<open>The policy\<close>

definition ACTION_WARN :: string where "ACTION_WARN = ''warn''"
definition ACTION_SUSPEND :: string where "ACTION_SUSPEND = ''suspend''"
definition MIN_CAP_USD :: rat where "MIN_CAP_USD = 1"
definition DEFAULT_WARN_PERCENT :: int where "DEFAULT_WARN_PERCENT = 80"
definition MIN_WARN_PERCENT :: int where "MIN_WARN_PERCENT = 10"
definition MAX_WARN_PERCENT :: int where "MAX_WARN_PERCENT = 99"
definition MAX_ACCRUAL_HOURS :: rat where "MAX_ACCRUAL_HOURS = 24"

definition VALID_ACTIONS :: "string list" where
  "VALID_ACTIONS = [ACTION_WARN, ACTION_SUSPEND]"

text \<open>\<open>round(x, n)\<close> on the exact value: to the nearest multiple, ties to even.\<close>

definition round_to :: "nat \<Rightarrow> rat \<Rightarrow> rat" where
  "round_to n x = of_int (round_half_even (x * 10 ^ n)) / 10 ^ n"

definition warn_percent_of :: "pyval \<Rightarrow> int" where
  "warn_percent_of configured =
     (case py_int (if configured = PNone then PInt DEFAULT_WARN_PERCENT else configured) of
        None \<Rightarrow> DEFAULT_WARN_PERCENT
      | Some v \<Rightarrow> max MIN_WARN_PERCENT (min MAX_WARN_PERCENT v))"

definition normalize_action :: "string \<Rightarrow> string" where
  "normalize_action v = (let raw = py_lower (py_strip v) in if raw \<in> set VALID_ACTIONS then raw else ACTION_WARN)"

datatype spend_error = NegativeCap | CapTooSmall

definition validate_cap :: "rat \<Rightarrow> spend_error + rat option" where
  "validate_cap cap =
     (if cap = 0 then Inr None
      else if cap < 0 then Inl NegativeCap
      else if cap < MIN_CAP_USD then Inl CapTooSmall
      else Inr (Some (round_to 2 cap)))"

datatype cap_refusal = NoCloud | NoRegion string | NoPrice string string | CannotSuspend sched_refusal

definition cappable ::
  "string \<Rightarrow> string \<Rightarrow> (string \<Rightarrow> string \<Rightarrow> bool) \<Rightarrow> sched_refusal option \<Rightarrow> cap_refusal option" where
  "cappable cloud0 region0 priceable refusal =
     (let cloud = py_lower (py_strip cloud0); region = py_strip region0
      in if cloud = [] then Some NoCloud
         else if region = [] then Some (NoRegion cloud)
         else if \<not> priceable cloud region then Some (NoPrice cloud region)
         else map_option CannotSuspend refusal)"

definition accrue :: "rat option \<Rightarrow> instant option \<Rightarrow> rat option \<Rightarrow> instant \<Rightarrow> rat \<times> instant \<times> rat" where
  "accrue previous accrued_at rate now =
     (let spent = (case previous of None \<Rightarrow> 0 | Some p \<Rightarrow> p)
      in case accrued_at of
           None \<Rightarrow> (spent, now, 0)
         | Some since \<Rightarrow>
             (case rate of
                None \<Rightarrow> (spent, now, 0)
              | Some r \<Rightarrow>
                  (let hours = hours_between since now
                   in if hours \<le> 0 then (spent, since, 0)
                      else (let added = max 0 r * min hours MAX_ACCRUAL_HOURS
                            in (round_to 4 (spent + added), now, added)))))"

definition spend_state :: "pyval \<Rightarrow> job \<Rightarrow> string" where
  "spend_state warn_at row =
     (case j_spend_cap_usd row of
        None \<Rightarrow> []
      | Some cap \<Rightarrow>
          (let spent = (case j_spend_estimate_usd row of None \<Rightarrow> 0 | Some p \<Rightarrow> p)
           in if cap \<le> 0 then []
              else if spent \<ge> cap then (if j_spend_capped_at row \<noteq> None then [] else ''cap'')
              else if spent \<ge> cap * (of_int (warn_percent_of warn_at) / 100)
              then (if j_spend_warned_at row \<noteq> None then [] else ''warn'')
              else []))"

record spend_view =
  svw_capped :: bool
  svw_cap_usd :: rat
  svw_spent_usd :: rat
  svw_percent :: int
  svw_warn_percent :: int
  svw_action :: string
  svw_over :: bool
  svw_warned :: bool
  svw_suspended_by_cap :: bool
  svw_measured :: bool
  svw_summary :: string

definition spend_summary :: "(rat \<Rightarrow> string) \<Rightarrow> rat \<Rightarrow> rat \<Rightarrow> string \<Rightarrow> string" where
  "spend_summary usd cap spent action =
     (let dash = [CHR 0xE2, CHR 0x80, CHR 0x94]
      in if cap = 0 then ''$'' @ usd spent @ '' estimated so far '' @ dash @ '' no cap''
         else if spent \<ge> cap then
           ''$'' @ usd spent @ '' of $'' @ usd cap @ '' '' @ dash @ '' '' @
           (if action = ACTION_SUSPEND then ''suspended'' else ''over its cap'')
         else ''$'' @ usd spent @ '' of $'' @ usd cap @ '' estimated'')"

definition spend_describe :: "(rat \<Rightarrow> string) \<Rightarrow> pyval \<Rightarrow> string \<Rightarrow> job \<Rightarrow> spend_view" where
  "spend_describe usd warn_at action row =
     (let cap = (case j_spend_cap_usd row of None \<Rightarrow> 0 | Some c \<Rightarrow> c);
          spent = (case j_spend_estimate_usd row of None \<Rightarrow> 0 | Some p \<Rightarrow> p);
          percent = (if cap \<noteq> 0 then round_half_even (spent / cap * 100) else 0)
      in \<lparr> svw_capped = (cap \<noteq> 0), svw_cap_usd = (if cap \<noteq> 0 then round_to 2 cap else 0),
           svw_spent_usd = round_to 2 spent, svw_percent = min percent 999,
           svw_warn_percent = warn_percent_of warn_at, svw_action = normalize_action action,
           svw_over = (cap \<noteq> 0 \<and> spent \<ge> cap), svw_warned = (j_spend_warned_at row \<noteq> None),
           svw_suspended_by_cap = (j_spend_capped_at row \<noteq> None), svw_measured = (j_spend_accrued_at row \<noteq> None),
           svw_summary = spend_summary usd cap spent (normalize_action action) \<rparr>)"

section \<open>Settings and selection\<close>

definition SPEND_SWEEP :: string where
  "SPEND_SWEEP = ''spend_sweep''"

definition spend_enabled :: "config \<Rightarrow> bool" where
  "spend_enabled cfg = (config_get_bool cfg ''vm_spend_cap_enabled'' False = Some True)"

definition spend_action :: "config \<Rightarrow> string" where
  "spend_action cfg =
     (let raw = or_empty (config_get cfg ''vm_spend_cap_action'' [])
      in normalize_action (if raw \<noteq> [] then raw
           else case getattr_setting cfg ''vm_spend_cap_action'' (PStr []) of PStr s \<Rightarrow> s | _ \<Rightarrow> []))"

definition spend_warn_setting :: "config \<Rightarrow> pyval" where
  "spend_warn_setting cfg =
     (let raw = or_empty (config_get cfg ''vm_spend_warn_percent'' [])
      in if raw \<noteq> [] then PStr raw else getattr_setting cfg ''vm_spend_warn_percent'' PNone)"

definition spend_warn_percent :: "config \<Rightarrow> int" where
  "spend_warn_percent cfg = warn_percent_of (spend_warn_setting cfg)"

definition spend_interval :: "config \<Rightarrow> int" where
  "spend_interval cfg = sweep_seconds cfg ''vm_spend_sweep_interval_minutes''"

definition enqueue_spend_sweep ::
  "(string \<Rightarrow> json option) \<Rightarrow> config \<Rightarrow> instant \<Rightarrow> string \<Rightarrow> jdb \<Rightarrow> jdb \<times> string option" where
  "enqueue_spend_sweep loads cfg now uuid db =
     enqueue_timer_sweep loads cfg (spend_enabled cfg) SPEND_SWEEP (spend_interval cfg) now uuid db"

definition capped_vms :: "jdb \<Rightarrow> job list" where
  "capped_vms db =
     filter (\<lambda>j. j_job_type j \<in> set DEPLOY_TYPES \<and> j_status j = ''completed'' \<and> j_spend_cap_usd j \<noteq> None) (jobs db)"

definition last_power_action :: "jdb \<Rightarrow> json \<Rightarrow> string option" where
  "last_power_action db =
     fold (\<lambda>j latest.
             (let m = metadata_dict j; d = dict_get m ''deploy_job_id''; a = dict_get m ''action''
              in if truthy d \<and> a \<in> {JStr ''start'', JStr ''stop''} then latest(d \<mapsto> py_str a) else latest))
       (sort_key j_created_at
          (filter (\<lambda>j. j_job_type j \<in> snd ` set POWER_JOB \<and> j_status j = ''completed'') (jobs db)))
       Map.empty"

section \<open>Prices\<close>

record vm_shape =
  vs_running :: bool
  vs_instance_type :: json
  vs_windows :: bool
  vs_disk_gb :: json

record prices =
  pr_priceable :: "string \<Rightarrow> string \<Rightarrow> bool"
  pr_region_from_zone :: "string \<Rightarrow> string"
  pr_hourly :: "string \<Rightarrow> string \<Rightarrow> vm_shape \<Rightarrow> rat option"

definition str_or_empty :: "json \<Rightarrow> string" where
  "str_or_empty v = (if truthy v then py_str v else [])"

definition first_or :: "json \<Rightarrow> dict \<Rightarrow> string list \<Rightarrow> json" where
  "first_or dflt meta keys =
     (case List.find (\<lambda>k. truthy (dict_get meta k)) keys of None \<Rightarrow> dflt | Some k \<Rightarrow> dict_get meta k)"

definition region_of :: "prices \<Rightarrow> job \<Rightarrow> string" where
  "region_of pr row =
     (let m = metadata_dict row;
          region = str_or_empty (first_or (JStr []) m [''region'', ''location'', ''zone''])
      in if cloud_of (j_job_type row) = ''gcp'' \<and> region \<noteq> []
         then (let r = pr_region_from_zone pr region in if r \<noteq> [] then r else region) else region)"

definition rate_for :: "prices \<Rightarrow> job \<Rightarrow> bool \<Rightarrow> rat option" where
  "rate_for pr row running =
     (let m = metadata_dict row; cloud = cloud_of (j_job_type row); region = region_of pr row
      in if \<not> pr_priceable pr cloud region then None
         else pr_hourly pr cloud region
                \<lparr> vs_running = running,
                  vs_instance_type = first_or (JStr []) m [''instance_type'', ''vm_size'', ''machine_type'', ''shape''],
                  vs_windows = (py_lower (str_or_empty (dict_get m ''os_type'')) = ''windows''),
                  vs_disk_gb = first_or (JInt 0) m [''disk_size_gb'', ''boot_volume_gb'', ''disk_gb''] \<rparr>)"

section \<open>The sweep\<close>

text \<open>What one pass does to one row: the new estimate, the latch, and what it newly reached.\<close>

definition accrued_row :: "rat option \<Rightarrow> instant \<Rightarrow> job \<Rightarrow> job" where
  "accrued_row rate now row =
     (case accrue (j_spend_estimate_usd row) (j_spend_accrued_at row) rate now of
        (amount, at_time, _) \<Rightarrow> row\<lparr> j_spend_estimate_usd := Some amount, j_spend_accrued_at := Some at_time \<rparr>)"

definition latched_row :: "string \<Rightarrow> instant \<Rightarrow> job \<Rightarrow> job" where
  "latched_row reached now row =
     (if reached = ''warn'' then row\<lparr> j_spend_warned_at := Some now \<rparr>
      else if reached = ''cap'' then row\<lparr> j_spend_capped_at := Some now \<rparr> else row)"

definition spend_row :: "pyval \<Rightarrow> rat option \<Rightarrow> instant \<Rightarrow> job \<Rightarrow> job \<times> string" where
  "spend_row warn_at rate now row =
     (let row1 = accrued_row rate now row; reached = spend_state warn_at row1
      in (latched_row reached now row1, reached))"

definition vm_name :: "dict \<Rightarrow> string" where
  "vm_name m = str_or_empty (first_or (JStr []) m [''instance_name'', ''vm_name'', ''instance_id'', ''instance_ocid''])"

definition vm_label :: "job \<Rightarrow> string" where
  "vm_label row = (let n = vm_name (metadata_dict row) in if n \<noteq> [] then n else j_id row)"

definition spend_event :: "(rat \<Rightarrow> string) \<Rightarrow> string \<Rightarrow> job \<Rightarrow> rat \<Rightarrow> rat \<Rightarrow> event" where
  "spend_event usd event_type row spent cap =
     \<lparr> ne_event_type = event_type,
       ne_title = vm_label row @ '': $'' @ usd spent @ '' of a $'' @ usd cap @ '' cap'',
       ne_body = ''Estimated list-price spend for this VM has reached its cap. '' @
         ''The estimate excludes Savings Plans, reservations, credits, free tier, '' @
         ''data transfer and snapshots, and errs high.'',
       ne_severity = [], ne_resource_id = [], ne_resource_kind = [], ne_resource_name = [], ne_cloud = [],
       ne_region = [], ne_workgroup = [], ne_url = ''/jobs'', ne_dedupe_bucket = event_type @ '':'' @ j_id row,
       ne_fields = filter (\<lambda>(_, v). v \<noteq> [])
         [(''Estimated'', ''$'' @ usd spent), (''Cap'', ''$'' @ usd cap), (''VM'', vm_name (metadata_dict row)),
          (''Cloud'', map py_upper_char (cloud_of (j_job_type row)))] \<rparr>"

record spend_pass =
  sp_sw :: sweep_db
  sp_notify :: notify_db
  sp_accrued :: nat
  sp_acted :: "(string \<times> string \<times> rat) list"
  sp_unpriced :: "string list"
  sp_jobs :: "(string \<times> string) list"

record spend_env =
  se_loads :: "string \<Rightarrow> json option"
  se_cfg :: config
  se_usd :: "rat \<Rightarrow> string"
  se_prices :: prices
  se_mint :: "jdb \<Rightarrow> string"
  se_sha :: "string \<Rightarrow> string"
  se_occurred :: string
  se_mint_row :: "notify_db \<Rightarrow> string \<Rightarrow> string"

definition spend_notify :: "spend_env \<Rightarrow> instant \<Rightarrow> string \<Rightarrow> job \<Rightarrow> rat \<Rightarrow> rat \<Rightarrow> notify_db \<Rightarrow> notify_db" where
  "spend_notify se now event_type row spent cap n =
     fst (emit_event (se_cfg se) (se_sha se) (se_occurred se) now (se_mint_row se n)
       (spend_event (se_usd se) event_type row spent cap) n)"

definition over_cap :: "spend_env \<Rightarrow> string \<Rightarrow> instant \<Rightarrow> job \<Rightarrow> rat \<Rightarrow> rat \<Rightarrow> spend_pass \<Rightarrow> spend_pass" where
  "over_cap se sweep_job now row spent cap p =
     (let dash = [CHR 0xE2, CHR 0x80, CHR 0x94]; usd = se_usd se; m = metadata_dict row
      in if spend_action (se_cfg se) \<noteq> ACTION_SUSPEND then
           p\<lparr> sp_sw := sw_log sweep_job (vm_label row @ '': estimated $'' @ usd spent @ '' is OVER its $'' @ usd cap @
                '' cap. Nothing was suspended '' @ dash @ '' the action is set to warn.'') (sp_sw p) \<rparr>
         else
           (case schedulable (j_job_type row) m of
              Some why \<Rightarrow>
                p\<lparr> sp_sw := sw_log sweep_job (vm_label row @ '': over its $'' @ usd cap @ '' cap, but it cannot be suspended '' @
                     dash @ '' '' @ refusal_reason why) (sp_sw p) \<rparr>
            | None \<Rightarrow>
                (let cloud = cloud_of (j_job_type row);
                     uuid = se_mint se (sw_db (sp_sw p));
                     nj = system_job (or_empty (map_of POWER_JOB cloud)) (j_workgroup row)
                            (power_meta (se_cfg se) cloud row m ''stop'')
                 in p\<lparr> sp_sw := sw_log sweep_job (vm_label row @ '': over its $'' @ usd cap @ '' cap '' @ dash @
                         '' suspending (job '' @ uuid @ '')'')
                         (upd_sw (\<lambda>db. fst (create_job (se_loads se) (se_cfg se) now uuid nj db)) (sp_sw p)),
                       sp_jobs := sp_jobs p @ [(j_id row, uuid)] \<rparr>)))"

definition spend_one ::
  "spend_env \<Rightarrow> string \<Rightarrow> instant \<Rightarrow> (json \<Rightarrow> string option) \<Rightarrow> string \<Rightarrow> spend_pass \<Rightarrow> spend_pass" where
  "spend_one se sweep_job now powered rid p =
     (case get_job (sw_db (sp_sw p)) rid of
        None \<Rightarrow> p
      | Some row \<Rightarrow>
          (if truthy (dict_get (metadata_dict row) ''destroyed'') then p
           else
             (let rate = rate_for (se_prices se) row (powered (JStr rid) \<noteq> Some ''stop'');
                  warn_at = spend_warn_setting (se_cfg se)
              in case spend_row warn_at rate now row of
                   (row', reached) \<Rightarrow>
                     (let p1 = p\<lparr> sp_sw := upd_sw (upd_job rid (\<lambda>j. fst (spend_row warn_at rate now j))) (sp_sw p),
                            sp_accrued := sp_accrued p + 1,
                            sp_unpriced := (if rate = None then sp_unpriced p @ [rid] else sp_unpriced p) \<rparr>;
                          spent = (case j_spend_estimate_usd row' of None \<Rightarrow> 0 | Some x \<Rightarrow> x);
                          cap = (case j_spend_cap_usd row' of None \<Rightarrow> 0 | Some x \<Rightarrow> x)
                      in if reached = [] then p1
                         else if reached = ''warn'' then
                           p1\<lparr> sp_acted := sp_acted p1 @ [(rid, ''warn'', round_to 2 spent)],
                               sp_sw := sw_log sweep_job (vm_label row' @ '': estimated $'' @ se_usd se spent @ '' of its $'' @
                                 se_usd se cap @ '' cap ('' @ py_str_int (warn_percent_of warn_at) @ ''% threshold)'') (sp_sw p1),
                               sp_notify := spend_notify se now ''vm.spend_warn'' row' spent cap (sp_notify p1) \<rparr>
                         else
                           over_cap se sweep_job now row' spent cap
                             (p1\<lparr> sp_acted := sp_acted p1 @ [(rid, ''cap'', round_to 2 spent)],
                                  sp_notify := spend_notify se now ''vm.spend_capped'' row' spent cap (sp_notify p1) \<rparr>)))))"

definition spend_pass_all :: "spend_env \<Rightarrow> string \<Rightarrow> instant \<Rightarrow> sweep_db \<Rightarrow> notify_db \<Rightarrow> spend_pass" where
  "spend_pass_all se sweep_job now s n =
     fold (spend_one se sweep_job now (last_power_action (sw_db s))) (map j_id (capped_vms (sw_db s)))
       \<lparr> sp_sw = s, sp_notify = n, sp_accrued = 0, sp_acted = [], sp_unpriced = [], sp_jobs = [] \<rparr>"

definition spend_run ::
  "spend_env \<Rightarrow> (spend_pass \<Rightarrow> dict) \<Rightarrow> string \<Rightarrow> instant \<Rightarrow> sweep_db \<times> notify_db \<Rightarrow> sweep_db \<times> notify_db" where
  "spend_run se result sweep_job now sn =
     (let p = spend_pass_all se sweep_job now (upd_sw (set_running now sweep_job) (fst sn)) (snd sn)
      in (upd_sw (set_completed now sweep_job (result p)) (sp_sw p), sp_notify p))"

section \<open>The cap form\<close>

datatype cap_error = CapForm form_error | BadCap spend_error | NoAmount | NotCappable cap_refusal

definition vm_cappable :: "spend_env \<Rightarrow> job \<Rightarrow> cap_refusal option" where
  "vm_cappable se j =
     cappable (cloud_of (j_job_type j)) (region_of (se_prices se) j) (pr_priceable (se_prices se))
       (if spend_action (se_cfg se) = ACTION_SUSPEND then schedulable (j_job_type j) (metadata_dict j) else None)"

definition capped_row :: "rat \<Rightarrow> job \<Rightarrow> job" where
  "capped_row cap j =
     (let raised = (case j_spend_cap_usd j of None \<Rightarrow> True | Some previous \<Rightarrow> cap > previous)
      in j\<lparr> j_spend_cap_usd := Some cap,
            j_spend_warned_at := (if raised then None else j_spend_warned_at j),
            j_spend_capped_at := (if raised then None else j_spend_capped_at j) \<rparr>)"

definition set_cap ::
  "spend_env \<Rightarrow> (string \<Rightarrow> string option \<Rightarrow> bool) \<Rightarrow> string \<Rightarrow> rat \<Rightarrow> jdb \<Rightarrow> jdb \<times> (cap_error + rat)" where
  "set_cap se may_act jid amount db =
     (case load_vm may_act jid db of
        Inl e \<Rightarrow> (db, Inl (CapForm e))
      | Inr j \<Rightarrow>
          (case validate_cap amount of
             Inl e \<Rightarrow> (db, Inl (BadCap e))
           | Inr None \<Rightarrow> (db, Inl NoAmount)
           | Inr (Some cap) \<Rightarrow>
               (case vm_cappable se j of
                  Some why \<Rightarrow> (db, Inl (NotCappable why))
                | None \<Rightarrow> (upd_job jid (capped_row cap) db, Inr cap))))"

definition uncapped_row :: "job \<Rightarrow> job" where
  "uncapped_row j = j\<lparr> j_spend_cap_usd := None, j_spend_warned_at := None, j_spend_capped_at := None \<rparr>"

definition clear_cap :: "(string \<Rightarrow> string option \<Rightarrow> bool) \<Rightarrow> string \<Rightarrow> jdb \<Rightarrow> jdb \<times> (form_error + rat)" where
  "clear_cap may_act jid db =
     (case load_vm may_act jid db of
        Inl e \<Rightarrow> (db, Inl e)
      | Inr j \<Rightarrow>
          (upd_job jid uncapped_row db,
           Inr (round_to 2 (case j_spend_estimate_usd j of None \<Rightarrow> 0 | Some x \<Rightarrow> x))))"

section \<open>Rounding\<close>

lemma round_half_even_error: "\<bar>of_int (round_half_even x) - x\<bar> \<le> 1 / 2"
proof -
  have "of_int \<lfloor>x\<rfloor> \<le> x" "x < of_int \<lfloor>x\<rfloor> + 1" by linarith+
  then show ?thesis unfolding round_half_even_def Let_def by (auto simp: abs_le_iff)
qed

lemma round_half_even_near:
  assumes "0 \<le> y" and "y < 1 / 2"
  shows "round_half_even (of_int k + y) = k"
proof -
  have "\<bar>of_int (round_half_even (of_int k + y)) - (of_int k + y)\<bar> \<le> 1 / 2" by (rule round_half_even_error)
  then have "of_int (round_half_even (of_int k + y)) < (of_int k + 1 :: rat)" "of_int k - 1 < (of_int (round_half_even (of_int k + y)) :: rat)"
    using assms by linarith+
  then have "round_half_even (of_int k + y) < k + 1" "k - 1 < round_half_even (of_int k + y)"
    by (metis of_int_1 of_int_add of_int_diff of_int_less_iff)+
  then show ?thesis by simp
qed

lemma round_to_error: "\<bar>round_to n x - x\<bar> \<le> 1 / (2 * 10 ^ n)"
proof -
  have "\<bar>of_int (round_half_even (x * 10 ^ n)) - x * 10 ^ n\<bar> \<le> 1 / 2" by (rule round_half_even_error)
  then have "\<bar>of_int (round_half_even (x * 10 ^ n)) - x * 10 ^ n\<bar> / 10 ^ n \<le> 1 / 2 / 10 ^ n"
    by (rule divide_right_mono) simp
  moreover have "\<bar>of_int (round_half_even (x * 10 ^ n)) - x * 10 ^ n\<bar> / 10 ^ n = \<bar>round_to n x - x\<bar>"
  proof -
    have "(of_int (round_half_even (x * 10 ^ n)) - x * 10 ^ n) / 10 ^ n = round_to n x - x"
      by (simp add: round_to_def diff_divide_distrib)
    then show ?thesis by (simp add: abs_divide flip: \<open>_ = round_to n x - x\<close>)
  qed
  ultimately show ?thesis by simp
qed

lemma round_to_mono: "x \<le> y \<Longrightarrow> round_to n x \<le> round_to n y"
  by (simp add: round_to_def divide_right_mono round_half_even_mono mult_right_mono)

text \<open>
  One accrual is bounded: it adds at most a day at the observed rate, never a negative amount,
  and the stored total is within half a hundredth of a cent of the exact one. The first call and a
  call without a price bill nothing and move the clock on; a clock that went back bills nothing and
  stays. A total already rounded never falls.
\<close>

theorem accrue_bounds:
  assumes "accrue previous since rate now = (spent, at_time, added)" and "p = (case previous of None \<Rightarrow> 0 | Some x \<Rightarrow> x)"
  shows "0 \<le> added \<and> added \<le> 24 * (case rate of None \<Rightarrow> 0 | Some r \<Rightarrow> max 0 r)
    \<and> \<bar>spent - (p + added)\<bar> \<le> 1 / 20000
    \<and> (since = None \<or> rate = None \<longrightarrow> spent = p \<and> at_time = now)
    \<and> (round_to 4 p = p \<longrightarrow> p \<le> spent)"
proof -
  have mono: "round_to 4 p = p \<Longrightarrow> 0 \<le> a \<Longrightarrow> p \<le> round_to 4 (p + a)" for a
    using round_to_mono[of p "p + a" 4] by simp
  have err: "\<bar>round_to 4 (p + a) - (p + a)\<bar> \<le> 1 / 20000" for a
    using round_to_error[of 4 "p + a"] by simp
  have bnd: "0 \<le> max 0 r * min h 24 \<and> max 0 r * min h 24 \<le> 24 * max 0 r" if "0 < h" for r h :: rat
    using that mult_left_mono[of "min h 24" 24 "max 0 r"] by (simp add: mult.commute)
  show ?thesis
    using assms bnd mono err
    by (cases since; cases rate) (auto simp: accrue_def Let_def MAX_ACCRUAL_HOURS_def not_le split: if_splits)
qed

section \<open>Latches\<close>

fun spend_events :: "pyval \<Rightarrow> job \<Rightarrow> (rat option \<times> instant) list \<Rightarrow> string list" where
  "spend_events w row [] = []"
| "spend_events w row ((rate, now) # ps) =
     snd (spend_row w rate now row) # spend_events w (fst (spend_row w rate now row)) ps"

lemma accrued_row_keeps:
  "j_spend_cap_usd (accrued_row r n row) = j_spend_cap_usd row" "j_spend_warned_at (accrued_row r n row) = j_spend_warned_at row"
  "j_spend_capped_at (accrued_row r n row) = j_spend_capped_at row"
  by (simp_all add: accrued_row_def split: prod.split)

lemma spend_row_latches:
  "snd (spend_row w r n row) = ''cap'' \<Longrightarrow> j_spend_capped_at row = None \<and> j_spend_capped_at (fst (spend_row w r n row)) = Some n"
  "snd (spend_row w r n row) = ''warn'' \<Longrightarrow> j_spend_warned_at row = None \<and> j_spend_warned_at (fst (spend_row w r n row)) = Some n"
  "j_spend_capped_at row \<noteq> None \<Longrightarrow> j_spend_capped_at (fst (spend_row w r n row)) \<noteq> None"
  "j_spend_warned_at row \<noteq> None \<Longrightarrow> j_spend_warned_at (fst (spend_row w r n row)) \<noteq> None"
  "snd (spend_row w r n row) \<in> {[], ''warn'', ''cap''}"
  by (auto simp: spend_row_def latched_row_def spend_state_def accrued_row_keeps Let_def split: option.splits if_splits)

lemma capped_no_more: "j_spend_capped_at row \<noteq> None \<Longrightarrow> ''cap'' \<notin> set (spend_events w row ps)"
  by (induction w row ps rule: spend_events.induct) (auto dest: spend_row_latches(1)[OF sym] simp: spend_row_latches(3))

lemma warned_no_more: "j_spend_warned_at row \<noteq> None \<Longrightarrow> ''warn'' \<notin> set (spend_events w row ps)"
  by (induction w row ps rule: spend_events.induct) (auto dest: spend_row_latches(2)[OF sym] simp: spend_row_latches(4))

text \<open>
  A cap speaks once per threshold. Over any sequence of passes, with any rates and clock
  readings, a VM whose cap is not changed is warned about at most once and reaches its cap at most
  once, so at most one suspend is enqueued for it.
\<close>

theorem spend_events_once:
  "count_list (spend_events w row ps) ''warn'' \<le> 1 \<and> count_list (spend_events w row ps) ''cap'' \<le> 1"
proof (induction w row ps rule: spend_events.induct)
  case (2 w row rate now ps)
  let ?r = "spend_row w rate now row"
  have "snd ?r = ''warn'' \<Longrightarrow> count_list (spend_events w (fst ?r) ps) ''warn'' = 0"
    using warned_no_more spend_row_latches(2) by (simp add: count_list_0_iff)
  moreover have "snd ?r = ''cap'' \<Longrightarrow> count_list (spend_events w (fst ?r) ps) ''cap'' = 0"
    using capped_no_more spend_row_latches(1) by (simp add: count_list_0_iff)
  ultimately show ?case using 2 by simp
qed simp

section \<open>What rounding loses\<close>

fun steady :: "int \<Rightarrow> instant \<Rightarrow> instant list \<Rightarrow> bool" where
  "steady d t0 [] = True"
| "steady d t0 (t # ts) = (t0 < t \<and> t - t0 \<le> d \<and> steady d t ts)"

lemma accrue_small:
  assumes "0 \<le> rate" and "t0 < t" and "t - t0 \<le> d" and "rate * hours_between 0 d < 1 / 20000"
  shows "fst (accrue (Some (of_int k / 10000)) (Some t0) (Some rate) t) = of_int k / 10000"
    and "fst (snd (accrue (Some (of_int k / 10000)) (Some t0) (Some rate) t)) = t"
proof -
  let ?h = "hours_between t0 t"
  have h: "0 < ?h" "?h \<le> hours_between 0 d"
    using assms(2,3) by (auto simp: hours_between_def divide_right_mono simp flip: of_int_diff)
  let ?a = "rate * min ?h 24"
  have "min ?h 24 \<le> hours_between 0 d" using h by simp
  then have "?a \<le> rate * hours_between 0 d" using assms(1) by (rule mult_left_mono)
  moreover have "0 \<le> ?a" using h(1) assms(1) by simp
  ultimately have a: "0 \<le> ?a" "?a < 1 / 20000" using assms(4) by linarith+
  have "round_to 4 (of_int k / 10000 + ?a) = of_int (round_half_even (of_int k + 10000 * ?a)) / 10000"
  proof -
    have "(of_int k / 10000 + ?a) * 10 ^ 4 = of_int k + 10000 * ?a" by (simp add: distrib_right)
    then show ?thesis by (simp only: round_to_def) simp
  qed
  also have "round_half_even (of_int k + 10000 * ?a) = k" using a by (intro round_half_even_near) simp_all
  finally have r: "round_to 4 (of_int k / 10000 + ?a) = of_int k / 10000" .
  then show "fst (accrue (Some (of_int k / 10000)) (Some t0) (Some rate) t) = of_int k / 10000"
    "fst (snd (accrue (Some (of_int k / 10000)) (Some t0) (Some rate) t)) = t"
    using h assms(1) by (simp_all add: accrue_def Let_def MAX_ACCRUAL_HOURS_def max_def)
qed

text \<open>
  A VM that costs less than half a hundredth of a cent per pass costs nothing. If the rate times the
  longest interval between passes stays below 0.00005 dollars, the estimate never moves from its
  rounded value, over any number of passes, so its cap is never reached.
\<close>

theorem small_rate_never_accrues:
  assumes "j_spend_estimate_usd row = Some (of_int k / 10000)" and "j_spend_accrued_at row = Some t0"
    and "0 \<le> rate" and "rate * hours_between 0 d < 1 / 20000" and "steady d t0 ts"
  shows "j_spend_estimate_usd (fold (\<lambda>t r. fst (spend_row w (Some rate) t r)) ts row) = Some (of_int k / 10000)"
  using assms(1,2,5)
proof (induction ts arbitrary: row t0)
  case (Cons t ts)
  note a = accrue_small[OF assms(3) _ _ assms(4), of t0 t k]
  have "j_spend_estimate_usd (fst (spend_row w (Some rate) t row)) = Some (of_int k / 10000)"
    "j_spend_accrued_at (fst (spend_row w (Some rate) t row)) = Some t"
    using a Cons.prems
    by (auto simp: spend_row_def Let_def latched_row_def accrued_row_def split_beta)
  from Cons.IH[OF this] Cons.prems(3) show ?case by simp
qed simp

lemma accrue_bounds_witness:
  "\<exists>spent at_time added. accrue (Some 10) (Some 0) (Some (1 / 2)) (minutes 90) = (spent, at_time, added)
     \<and> 0 \<le> added \<and> \<bar>spent - (10 + added)\<bar> \<le> 1 / 20000 \<and> 10 \<le> spent"
proof -
  obtain spent at_time added where a: "accrue (Some 10) (Some 0) (Some (1 / 2)) (minutes 90) = (spent, at_time, added)"
    by (metis prod_cases3)
  have "round_to 4 10 = (10 :: rat)" using round_half_even_of_int[of 100000] by (simp add: round_to_def)
  with accrue_bounds[OF a refl] a show ?thesis by auto
qed

lemma small_rate_never_accrues_witness:
  "j_spend_estimate_usd (fold (\<lambda>t r. fst (spend_row PNone (Some (1 / 4000)) t r)) [minutes 10, minutes 20, minutes 30]
     ((running_job ''v'' ''ec2_deploy'' 0)\<lparr> j_spend_estimate_usd := Some (of_int 12345 / 10000), j_spend_accrued_at := Some 0 \<rparr>))
   = Some (of_int 12345 / 10000)"
  by (rule small_rate_never_accrues[where d = "minutes 10" and ?t0.0 = 0])
    (simp_all add: hours_between_def minutes_def seconds_def)

end
