(* ===== verification/Agent_Meta.thy ===== *)
theory Agent_Meta
  imports Prelude
begin

text \<open>
  What the metadata modules of the agent jobs share, and the discovery module itself
  (\<open>services/agent_job_meta.py\<close>): coercions of JSON values that may hold anything, the cleaning of
  text a foreign host chose, the closed shape of a discovery job on its way out and the closed
  projection of its findings on the way back.

  The locale \<open>closed_shape\<close> is the contract of every \<open>normalize\<close>: its result is of the declared
  shape, and a value of that shape is left alone. The dashboard normalises at enqueue and the agent
  again on arrival, so the second law is what makes the two ends agree. JSON numbers are integers.
\<close>

section \<open>Coercions\<close>

text \<open>\<open>int(v)\<close> on a JSON value: \<open>None\<close> is the \<open>TypeError\<close> or \<open>ValueError\<close>.\<close>

fun json_int :: "json \<Rightarrow> int option" where
  "json_int (JBool b) = Some (if b then 1 else 0)"
| "json_int (JInt i) = Some i"
| "json_int (JStr s) = py_int_of_string s"
| "json_int _ = None"

text \<open>\<open>str(v or "").strip()\<close>, and \<open>str(v if v is not None else "")\<close>.\<close>

definition text_of :: "json \<Rightarrow> string" where
  "text_of v = py_strip (if truthy v then py_str v else [])"

definition str_not_none :: "json \<Rightarrow> string" where
  "str_not_none v = (if v = JNull then [] else py_str v)"

text \<open>\<open>str(v or default).strip().lower()\<close>, and its membership in an enumeration.\<close>

definition enum_or :: "string list \<Rightarrow> string \<Rightarrow> json \<Rightarrow> string" where
  "enum_or valid dflt v =
     (let x = py_lower (py_strip (if truthy v then py_str v else dflt))
      in if x \<in> set valid then x else dflt)"

definition clamp :: "json \<Rightarrow> int \<Rightarrow> int \<Rightarrow> int \<Rightarrow> int" where
  "clamp v dflt low high =
     (case json_int v of None \<Rightarrow> dflt | Some n \<Rightarrow> max low (min high n))"

definition non_negative :: "json \<Rightarrow> int" where
  "non_negative v = (case json_int v of None \<Rightarrow> 0 | Some n \<Rightarrow> max 0 n)"

text \<open>The value stored under a key that is known to hold a string.\<close>

definition str_at :: "dict \<Rightarrow> string \<Rightarrow> string" where
  "str_at d k = (case dict_get d k of JStr s \<Rightarrow> s | _ \<Rightarrow> [])"

lemma is_space_lower [simp]: "is_space (lower_char c) = is_space c"
proof (cases "65 \<le> (of_char c :: nat) \<and> (of_char c :: nat) \<le> 90")
  case True
  then have "of_char (lower_char c) = (of_char c :: nat) + 32"
    by (simp add: lower_char_def)
  with True show ?thesis by (simp add: is_space_def)
next
  case False
  then show ?thesis by (auto simp: lower_char_def)
qed

lemma lower_lower [simp]: "lower_char (lower_char c) = lower_char c"
proof (cases "65 \<le> (of_char c :: nat) \<and> (of_char c :: nat) \<le> 90")
  case True
  then have "of_char (lower_char c) = (of_char c :: nat) + 32"
    by (simp add: lower_char_def)
  with True show ?thesis by (simp add: lower_char_def [of "lower_char c"])
next
  case False
  then show ?thesis by (auto simp: lower_char_def)
qed

lemma py_lower_idem [simp]: "py_lower (py_lower s) = py_lower s"
  by (simp add: py_lower_def)

lemma py_strip_ends:
  shows "py_strip s = [] \<or> \<not> is_space (hd (py_strip s)) \<and> \<not> is_space (last (py_strip s))"
proof -
  let ?a = "dropWhile is_space s"
  let ?b = "dropWhile is_space (rev ?a)"
  show ?thesis
  proof (cases "?b = []")
    case False
    then have "\<not> is_space (hd ?b)" by (rule hd_dropWhile)
    moreover have "\<not> is_space (last ?b)"
    proof -
      have "?b \<noteq> [] \<Longrightarrow> last ?b = last (rev ?a)"
        by (metis last_appendR takeWhile_dropWhile_id)
      moreover have "?a \<noteq> []" using False by (metis dropWhile.simps(1) rev.simps(1))
      ultimately show ?thesis
        using False hd_dropWhile [of is_space s] by (simp add: last_rev)
    qed
    ultimately show ?thesis using False by (simp add: py_strip_def hd_rev last_rev)
  next
    case True
    then have "py_strip s = []" unfolding py_strip_def by (simp only: rev.simps)
    then show ?thesis ..
  qed
qed

lemma py_strip_Nil [simp]: "py_strip [] = []"
  by (simp add: py_strip_def)

lemma py_strip_idem [simp]: "py_strip (py_strip s) = py_strip s"
proof (cases "py_strip s = []")
  case True
  then show ?thesis by simp
next
  case False
  with py_strip_ends [of s] show ?thesis by (intro py_strip_id) auto
qed

lemma py_strip_lower: "py_strip (py_lower s) = py_lower (py_strip s)"
  by (simp add: py_strip_def py_lower_def dropWhile_map rev_map comp_def)

lemma text_of_JStr [simp]: "text_of (JStr s) = py_strip s"
  by (cases s) (simp_all add: text_of_def)

lemma json_int_JInt_clamp [simp]:
  "low \<le> n \<Longrightarrow> n \<le> high \<Longrightarrow> clamp (JInt n) dflt low high = n"
  by (simp add: clamp_def)

lemma clamp_bounds:
  assumes "low \<le> dflt" "dflt \<le> high"
  shows "low \<le> clamp v dflt low high" "clamp v dflt low high \<le> high"
  using assms by (auto simp: clamp_def split: option.splits)

lemma enum_or_mem: "dflt \<in> set valid \<Longrightarrow> enum_or valid dflt v \<in> set valid"
  by (simp add: enum_or_def Let_def)

text \<open>A fixed word of an enumeration is read as itself.\<close>

definition plain_words :: "string list \<Rightarrow> bool" where
  "plain_words ws \<longleftrightarrow> (\<forall>w \<in> set ws. py_lower (py_strip w) = w \<and> w \<noteq> [])"

lemma enum_or_word:
  "plain_words valid \<Longrightarrow> w \<in> set valid \<Longrightarrow> enum_or valid dflt (JStr w) = w"
  by (auto simp: enum_or_def plain_words_def Let_def)

lemma dict_set_same: "map_of d k = Some v \<Longrightarrow> dict_set d k v = d"
  by (induction d k v rule: dict_set.induct) (auto split: if_splits)

lemma dict_get_map_of: "map_of d k = Some v \<Longrightarrow> dict_get d k = v"
  by (simp add: dict_get_def)

text \<open>Shapes of a stored value, and the writes that leave a value of the shape alone.\<close>

definition is_word :: "string list \<Rightarrow> json option \<Rightarrow> bool" where
  "is_word valid v = (case v of Some (JStr k) \<Rightarrow> k \<in> set valid | _ \<Rightarrow> False)"

definition in_range :: "int \<Rightarrow> int \<Rightarrow> json option \<Rightarrow> bool" where
  "in_range low high v = (case v of Some (JInt i) \<Rightarrow> low \<le> i \<and> i \<le> high | _ \<Rightarrow> False)"

definition is_text :: "(string \<Rightarrow> bool) \<Rightarrow> json option \<Rightarrow> bool" where
  "is_text p v = (case v of Some (JStr s) \<Rightarrow> p s | _ \<Rightarrow> False)"

lemma is_word_enum [simp]:
  "dflt \<in> set valid \<Longrightarrow> is_word valid (Some (JStr (enum_or valid dflt v)))"
  by (simp add: is_word_def enum_or_mem)

lemma in_range_clamp [simp]:
  "low \<le> dflt \<Longrightarrow> dflt \<le> high \<Longrightarrow> in_range low high (Some (JInt (clamp v dflt low high)))"
  by (simp add: in_range_def clamp_bounds)

lemma is_text_Some [simp]: "is_text p (Some (JStr s)) = p s"
  by (simp add: is_text_def)

lemma is_textE:
  assumes "is_text p v" obtains s where "v = Some (JStr s)" "p s"
  using assms by (auto simp: is_text_def split: option.splits json.splits)

lemma keep_word:
  assumes "is_word valid (map_of d k)" and "plain_words valid"
  shows "dict_set d k (JStr (enum_or valid dflt (dict_get d k))) = d"
proof -
  obtain w where w: "map_of d k = Some (JStr w)" "w \<in> set valid"
    using assms(1) by (auto simp: is_word_def split: option.splits json.splits)
  with assms(2) show ?thesis
    by (simp add: dict_get_map_of enum_or_word dict_set_same)
qed

lemma keep_clamped:
  assumes "in_range low high (map_of d k)"
  shows "dict_set d k (JInt (clamp (dict_get d k) dflt low high)) = d"
proof -
  obtain i where i: "map_of d k = Some (JInt i)" "low \<le> i" "i \<le> high"
    using assms by (auto simp: in_range_def split: option.splits json.splits)
  then show ?thesis by (simp add: dict_get_map_of dict_set_same)
qed

lemma keep_text:
  assumes "is_text p (map_of d k)" and "\<And>s. p s \<Longrightarrow> f (JStr s) = s"
  shows "dict_set d k (JStr (f (dict_get d k))) = d"
  using assms by (auto elim!: is_textE simp: dict_get_map_of dict_set_same)

section \<open>The contract of a normaliser\<close>

locale closed_shape =
  fixes norm :: "dict \<Rightarrow> dict" and shape :: "dict \<Rightarrow> bool"
  assumes norm_shape: "shape (norm m)"
    and shape_norm: "shape d \<Longrightarrow> norm d = d"
begin

text \<open>What the enqueueing side stored, the receiving side reads back unchanged.\<close>

lemma norm_idem: "norm (norm m) = norm m"
  by (simp add: norm_shape shape_norm)

lemma norm_fixed_iff: "norm d = d \<longleftrightarrow> shape d"
  by (metis norm_shape shape_norm)

lemma norm_iterate: "(norm ^^ Suc n) m = norm m"
  by (induction n) (simp_all add: norm_idem)

end

text \<open>\<open>{key: clean[key] for key in KEYS}\<close>: the projection that crosses the wire.\<close>

definition project :: "string list \<Rightarrow> dict \<Rightarrow> dict" where
  "project keys d = map (\<lambda>k. (k, dict_get d k)) keys"

lemma keys_project [simp]: "map fst (project keys d) = keys"
  by (simp add: project_def comp_def)

lemma dict_get_project: "k \<in> set keys \<Longrightarrow> dict_get (project keys d) k = dict_get d k"
  by (induction keys) (auto simp: project_def)

text \<open>\<open>meta[key] if key in meta else default\<close> for every key of an allowlist.\<close>

definition kwargs_of :: "string list \<Rightarrow> dict \<Rightarrow> dict \<Rightarrow> dict" where
  "kwargs_of keys defaults m =
     map (\<lambda>k. (k, case map_of m k of Some v \<Rightarrow> v | None \<Rightarrow> dict_get defaults k)) keys"

lemma keys_kwargs_of [simp]: "map fst (kwargs_of keys defaults m) = keys"
  by (simp add: kwargs_of_def comp_def)

lemma kwargs_of_cong:
  "(\<And>k. k \<in> set keys \<Longrightarrow> map_of m k = map_of m' k) \<Longrightarrow>
   kwargs_of keys defaults m = kwargs_of keys defaults m'"
  by (simp add: kwargs_of_def)

text \<open>
  \<open>meta[key] = getattr(payload, key, DEFAULTS[key])\<close> for every key: the request is the dictionary
  of its attributes, a nested model given by its dump.
\<close>

definition read_payload :: "string list \<Rightarrow> dict \<Rightarrow> dict \<Rightarrow> dict \<Rightarrow> dict" where
  "read_payload keys defaults payload meta =
     fold (\<lambda>k m. dict_set m k (case map_of payload k of Some v \<Rightarrow> v | None \<Rightarrow> dict_get defaults k))
       keys meta"

lemma map_of_read_payload:
  "map_of (read_payload keys defaults payload meta) k =
     (if k \<in> set keys
      then Some (case map_of payload k of Some v \<Rightarrow> v | None \<Rightarrow> dict_get defaults k)
      else map_of meta k)"
  unfolding read_payload_def
  by (induction keys arbitrary: meta) (auto simp: map_of_dict_set)

lemma keys_fold_dict_set:
  "fst ` set (fold (\<lambda>k m. dict_set m k (f k m)) keys meta) = set keys \<union> fst ` set meta"
  by (induction keys arbitrary: meta) (auto simp: keys_dict_set)

section \<open>Text that a foreign host chose\<close>

text \<open>The characters of a UTF-8 string: a lead byte and its continuation bytes.\<close>

definition is_cont :: "char \<Rightarrow> bool" where
  "is_cont c = (let n = of_char c :: nat in 128 \<le> n \<and> n < 192)"

function utf8_chars :: "string \<Rightarrow> string list" where
  "utf8_chars [] = []"
| "utf8_chars (c # cs) = (c # takeWhile is_cont cs) # utf8_chars (dropWhile is_cont cs)"
  by pat_completeness auto
termination
  by (relation "measure length") (auto simp: length_dropWhile_le less_Suc_eq_le)

text \<open>
  \<open>ch == "\t" or (ord(ch) >= 32 and not 0x7F <= ord(ch) <= 0x9F)\<close>: the code points 0x80 to 0x9F are
  the two-byte characters 0xC2 0x80 to 0xC2 0x9F.
\<close>

definition byte_ok :: "char \<Rightarrow> bool" where
  "byte_ok c = (let n = of_char c :: nat in n = 9 \<or> (32 \<le> n \<and> n \<noteq> 127))"

definition c1_pair :: "char \<Rightarrow> char \<Rightarrow> bool" where
  "c1_pair c d = ((of_char c :: nat) = 194 \<and> 128 \<le> (of_char d :: nat) \<and> (of_char d :: nat) \<le> 159)"

fun char_ok :: "string \<Rightarrow> bool" where
  "char_ok [] = True"
| "char_ok [c] = byte_ok c"
| "char_ok (c # d # _) = (byte_ok c \<and> \<not> c1_pair c d)"

definition clean_text :: "nat \<Rightarrow> json \<Rightarrow> string" where
  "clean_text limit v =
     (let text = str_not_none v;
          cleaned = py_strip (concat (filter char_ok (utf8_chars text)))
      in concat (take limit (utf8_chars cleaned)))"

text \<open>A text with no control character at all, tab apart.\<close>

fun no_control :: "string \<Rightarrow> bool" where
  "no_control [] = True"
| "no_control [c] = byte_ok c"
| "no_control (c # d # s) = (byte_ok c \<and> \<not> c1_pair c d \<and> no_control (d # s))"

lemma concat_utf8_chars: "concat (utf8_chars s) = s"
  by (induction s rule: utf8_chars.induct) auto

lemma utf8_chars_append:
  assumes "\<forall>d \<in> set t. is_cont d" and "r = [] \<or> \<not> is_cont (hd r)"
  shows "utf8_chars (c # t @ r) = (c # t) # utf8_chars r"
proof -
  have "takeWhile is_cont (t @ r) = t \<and> dropWhile is_cont (t @ r) = r"
    using assms by (cases r) (auto simp: takeWhile_append dropWhile_append)
  then show ?thesis by simp
qed

lemma hd_dropWhile_cont: "dropWhile is_cont s = [] \<or> \<not> is_cont (hd (dropWhile is_cont s))"
  using hd_dropWhile by blast

lemma hd_concat_take:
  "s \<noteq> [] \<Longrightarrow> concat (take n (utf8_chars s)) = [] \<or> hd (concat (take n (utf8_chars s))) = hd s"
  by (cases s; cases n) auto

lemma utf8_chars_take: "utf8_chars (concat (take n (utf8_chars s))) = take n (utf8_chars s)"
proof (induction s arbitrary: n rule: utf8_chars.induct)
  case 1
  then show ?case by simp
next
  case (2 c cs)
  show ?case
  proof (cases n)
    case (Suc k)
    let ?r = "concat (take k (utf8_chars (dropWhile is_cont cs)))"
    have "?r = [] \<or> \<not> is_cont (hd ?r)"
      using hd_dropWhile_cont [of cs] hd_concat_take [of "dropWhile is_cont cs" k]
      by (metis concat.simps(1) take_Nil utf8_chars.simps(1))
    then have "utf8_chars (c # takeWhile is_cont cs @ ?r) =
        (c # takeWhile is_cont cs) # utf8_chars ?r"
      by (intro utf8_chars_append) (auto dest: set_takeWhileD)
    with Suc "2.IH" [of k] show ?thesis by simp
  qed simp
qed

lemma no_control_append:
  "no_control (a @ b) \<longleftrightarrow>
     no_control a \<and> no_control b \<and> (a \<noteq> [] \<longrightarrow> b \<noteq> [] \<longrightarrow> \<not> c1_pair (last a) (hd b))"
proof (induction a rule: no_control.induct)
  case (2 c)
  then show ?case by (cases b) auto
qed auto

lemma c1_pair_cont: "c1_pair c d \<Longrightarrow> is_cont d"
  by (auto simp: c1_pair_def is_cont_def)

lemma is_cont_not_c1: "is_cont c \<Longrightarrow> \<not> c1_pair c d"
  by (auto simp: c1_pair_def is_cont_def)

lemma is_cont_ok: "is_cont c \<Longrightarrow> byte_ok c"
  by (auto simp: byte_ok_def is_cont_def Let_def)

lemma no_control_conts: "\<forall>d \<in> set t. is_cont d \<Longrightarrow> no_control t"
  by (induction t rule: no_control.induct) (auto simp: is_cont_ok is_cont_not_c1)

lemma char_ok_group:
  assumes "\<forall>d \<in> set t. is_cont d" and "char_ok (c # t)"
  shows "no_control (c # t)"
  using assms no_control_conts [OF assms(1)] by (cases t) auto

lemma hd_concat_filter:
  "s = [] \<or> \<not> is_cont (hd s) \<Longrightarrow>
   concat (filter char_ok (utf8_chars s)) = [] \<or>
   \<not> is_cont (hd (concat (filter char_ok (utf8_chars s))))"
proof (induction s rule: utf8_chars.induct)
  case (2 c cs)
  then show ?case using hd_dropWhile_cont [of cs] by auto
qed simp

lemma no_control_filtered: "no_control (concat (filter char_ok (utf8_chars s)))"
proof (induction s rule: utf8_chars.induct)
  case (2 c cs)
  let ?t = "takeWhile is_cont cs" and ?r = "concat (filter char_ok (utf8_chars (dropWhile is_cont cs)))"
  have "?r = [] \<or> \<not> is_cont (hd ?r)"
    using hd_dropWhile_cont [of cs] hd_concat_filter by blast
  moreover have "char_ok (c # ?t) \<Longrightarrow> no_control (c # ?t)"
    by (rule char_ok_group) (auto dest: set_takeWhileD)
  ultimately show ?case
    using "2.IH" c1_pair_cont no_control_append [of "c # ?t" ?r] by auto
qed simp

lemma no_control_factor: "no_control (a @ b @ c) \<Longrightarrow> no_control b"
  by (simp add: no_control_append)

lemma py_strip_factor: "\<exists>a b. s = a @ py_strip s @ b"
proof -
  have "s = takeWhile is_space s @ dropWhile is_space s" by simp
  moreover have "dropWhile is_space s =
      py_strip s @ rev (takeWhile is_space (rev (dropWhile is_space s)))"
    unfolding py_strip_def by (metis rev_append rev_rev_ident takeWhile_dropWhile_id)
  ultimately show ?thesis by metis
qed

lemma take_chars_factor: "\<exists>b. s = concat (take n (utf8_chars s)) @ b"
  by (metis append_take_drop_id concat_append concat_utf8_chars)

lemma clean_text_ok:
  shows "no_control (clean_text limit v)" "length (utf8_chars (clean_text limit v)) \<le> limit"
proof -
  let ?f = "concat (filter char_ok (utf8_chars (str_not_none v)))"
  obtain a b where "?f = a @ py_strip ?f @ b" using py_strip_factor by blast
  then have "no_control (py_strip ?f)"
    by (metis no_control_factor no_control_filtered)
  then show "no_control (clean_text limit v)"
    using take_chars_factor [of "py_strip ?f" limit]
    by (metis (no_types, lifting) append_Nil clean_text_def no_control_factor)
  show "length (utf8_chars (clean_text limit v)) \<le> limit"
    by (simp add: clean_text_def utf8_chars_take Let_def)
qed

section \<open>Patterns\<close>

text \<open>
  A regular expression is its language. One that ends in \<open>$\<close> also accepts a text followed by one
  newline; a stripped text has none.
\<close>

definition alnum :: "char \<Rightarrow> bool" where
  "alnum c =
     (let n = of_char c :: nat
      in (48 \<le> n \<and> n \<le> 57) \<or> (65 \<le> n \<and> n \<le> 90) \<or> (97 \<le> n \<and> n \<le> 122))"

definition one_of :: "string \<Rightarrow> char \<Rightarrow> bool" where
  "one_of extra c \<longleftrightarrow> alnum c \<or> c \<in> set extra"

text \<open>\<open>re.match("^...$", s)\<close>, given the language between the anchors.\<close>

definition line_match :: "(string \<Rightarrow> bool) \<Rightarrow> string \<Rightarrow> bool" where
  "line_match p s \<longleftrightarrow> p s \<or> s \<noteq> [] \<and> last s = CHR 0x0A \<and> p (butlast s)"

lemma newline_is_space: "is_space (CHR 0x0A)"
  by (simp add: is_space_def)

lemma line_match_stripped: "py_strip s = s \<Longrightarrow> line_match p s \<longleftrightarrow> p s"
  using py_strip_ends [of s] newline_is_space by (auto simp: line_match_def)

end
