(* ===== verification/Discover_Meta.thy ===== *)
theory Discover_Meta
  imports Agent_Meta
begin

text \<open>
  Discovery jobs (\<open>services/agent_job_meta.py\<close>): the closed request that may be sent into a
  network the dashboard does not own, and the closed, cleaned projection of what comes back.
\<close>

section \<open>The request\<close>

definition DISCOVER_META_KEYS :: "string list" where
  "DISCOVER_META_KEYS =
     [''scan_kind'', ''cidrs'', ''hostnames'', ''ports'', ''timeout_s'', ''max_hosts'', ''concurrency'']"

definition VALID_SCAN_KINDS :: "string list" where
  "VALID_SCAN_KINDS =
     [''vmware'', ''proxmox'', ''nutanix'', ''xcpng'', ''winrm'', ''directory'', ''all'']"

definition DEFAULT_PORTS :: "(string \<times> int list) list" where
  "DEFAULT_PORTS =
     [(''vmware'', [443]), (''proxmox'', [8006]), (''nutanix'', [9440]),
      (''xcpng'', [443]), (''winrm'', [5985, 5986]), (''directory'', [389, 636])]"

definition port_lists :: "(string \<times> int list) list \<Rightarrow> dict" where
  "port_lists ps = map (\<lambda>(family, xs). (family, JList (map JInt xs))) ps"

definition DISCOVER_DEFAULTS :: dict where
  "DISCOVER_DEFAULTS =
     [(''scan_kind'', JStr ''all''), (''cidrs'', JList []), (''hostnames'', JList []),
      (''ports'', JObj (port_lists DEFAULT_PORTS)), (''timeout_s'', JInt 3),
      (''max_hosts'', JInt 1024), (''concurrency'', JInt 32)]"

definition MAX_HOSTS_CEILING :: int where "MAX_HOSTS_CEILING = 4096"
definition MAX_CONCURRENCY :: int where "MAX_CONCURRENCY = 128"
definition MAX_TIMEOUT_S :: int where "MAX_TIMEOUT_S = 30"

definition port_ok :: "int \<Rightarrow> bool" where
  "port_ok p \<longleftrightarrow> 1 \<le> p \<and> p \<le> 65535"

definition valid_ports :: "json \<Rightarrow> int list \<Rightarrow> int list" where
  "valid_ports v fallback =
     (case v of
        JList xs \<Rightarrow> (let ports = filter port_ok (List.map_filter json_int xs)
                     in if ports = [] then fallback else ports)
      | _ \<Rightarrow> fallback)"

text \<open>\<open>[str(v).strip() for v in value if str(v).strip()]\<close>, or nothing when it is no list.\<close>

definition stripped_items :: "json \<Rightarrow> string list" where
  "stripped_items v =
     (case v of JList xs \<Rightarrow> filter (\<lambda>s. s \<noteq> []) (map (\<lambda>x. py_strip (py_str x)) xs) | _ \<Rightarrow> [])"

definition discover_normalize :: "dict \<Rightarrow> dict" where
  "discover_normalize m =
     (let out = dict_set m ''scan_kind'' (JStr (enum_or VALID_SCAN_KINDS ''all'' (dict_get m ''scan_kind'')));
          out = dict_set out ''cidrs'' (JList (map JStr (stripped_items (dict_get out ''cidrs''))));
          out = dict_set out ''hostnames'' (JList (map JStr (stripped_items (dict_get out ''hostnames''))));
          ports = (case dict_get out ''ports'' of JObj d \<Rightarrow> d | _ \<Rightarrow> port_lists DEFAULT_PORTS);
          out = dict_set out ''ports'' (JObj (port_lists
                  (map (\<lambda>(family, dflt). (family, valid_ports (dict_get ports family) dflt)) DEFAULT_PORTS)));
          out = dict_set out ''timeout_s'' (JInt (clamp (dict_get out ''timeout_s'') 3 1 MAX_TIMEOUT_S));
          out = dict_set out ''max_hosts'' (JInt (clamp (dict_get out ''max_hosts'') 1024 1 MAX_HOSTS_CEILING));
          out = dict_set out ''concurrency'' (JInt (clamp (dict_get out ''concurrency'') 32 1 MAX_CONCURRENCY))
      in out)"

definition discover_meta :: "dict \<Rightarrow> string \<Rightarrow> dict" where
  "discover_meta payload description =
     discover_normalize
       (read_payload DISCOVER_META_KEYS DISCOVER_DEFAULTS payload [(''description'', JStr description)])"

definition discover_kwargs :: "dict \<Rightarrow> dict" where
  "discover_kwargs m = kwargs_of DISCOVER_META_KEYS DISCOVER_DEFAULTS m"

section \<open>Its shape\<close>

definition is_address_list :: "json option \<Rightarrow> bool" where
  "is_address_list v =
     (case v of
        Some (JList xs) \<Rightarrow> list_all (\<lambda>x. is_text (\<lambda>s. py_strip s = s \<and> s \<noteq> []) (Some x)) xs
      | _ \<Rightarrow> False)"

definition is_port_list :: "json \<Rightarrow> bool" where
  "is_port_list v =
     (case v of JList xs \<Rightarrow> xs \<noteq> [] \<and> list_all (\<lambda>x. in_range 1 65535 (Some x)) xs | _ \<Rightarrow> False)"

definition is_port_table :: "json option \<Rightarrow> bool" where
  "is_port_table v =
     (case v of
        Some (JObj d) \<Rightarrow> map fst d = map fst DEFAULT_PORTS \<and> list_all (\<lambda>x. is_port_list (snd x)) d
      | _ \<Rightarrow> False)"

definition discover_shape :: "dict \<Rightarrow> bool" where
  "discover_shape d \<longleftrightarrow>
     is_word VALID_SCAN_KINDS (map_of d ''scan_kind'')
     \<and> is_address_list (map_of d ''cidrs'') \<and> is_address_list (map_of d ''hostnames'')
     \<and> is_port_table (map_of d ''ports'')
     \<and> in_range 1 30 (map_of d ''timeout_s'') \<and> in_range 1 4096 (map_of d ''max_hosts'')
     \<and> in_range 1 128 (map_of d ''concurrency'')"

lemma scan_kinds_plain: "plain_words VALID_SCAN_KINDS" "''all'' \<in> set VALID_SCAN_KINDS"
  by code_simp+

lemma stripped_items_address: "is_address_list (Some (JList (map JStr (stripped_items v))))"
  by (auto simp: is_address_list_def stripped_items_def list_all_iff split: json.splits)

lemma keep_addresses:
  assumes "is_address_list (map_of d k)"
  shows "dict_set d k (JList (map JStr (stripped_items (dict_get d k)))) = d"
proof -
  obtain xs where xs: "map_of d k = Some (JList xs)"
    and ok: "list_all (\<lambda>x. is_text (\<lambda>s. py_strip s = s \<and> s \<noteq> []) (Some x)) xs"
    using assms by (auto simp: is_address_list_def split: option.splits json.splits)
  from ok have "map JStr (stripped_items (JList xs)) = xs"
    by (induction xs) (auto simp: stripped_items_def elim!: is_textE)
  with xs show ?thesis by (simp add: dict_get_map_of dict_set_same)
qed

lemma valid_ports_ok:
  assumes "fallback \<noteq> []" and "list_all port_ok fallback"
  shows "is_port_list (JList (map JInt (valid_ports v fallback)))"
  using assms
  by (auto simp: is_port_list_def valid_ports_def list_all_iff in_range_def port_ok_def Let_def
           split: json.splits)

lemma valid_ports_same:
  assumes "is_port_list v"
  shows "JList (map JInt (valid_ports v fallback)) = v"
proof -
  obtain xs where v: "v = JList xs" "xs \<noteq> []" and ok: "list_all (\<lambda>x. in_range 1 65535 (Some x)) xs"
    using assms by (auto simp: is_port_list_def split: json.splits)
  from ok have "map JInt (filter port_ok (List.map_filter json_int xs)) = xs"
    by (induction xs) (auto simp: map_filter_simps in_range_def port_ok_def split: json.splits)
  with v show ?thesis by (auto simp: valid_ports_def Let_def)
qed

lemma default_ports_ok:
  "list_all (\<lambda>(_, dflt). dflt \<noteq> [] \<and> list_all port_ok dflt) DEFAULT_PORTS"
  by (simp add: DEFAULT_PORTS_def port_ok_def)

lemma port_table_ok:
  "is_port_table (Some (JObj (port_lists
     (map (\<lambda>(family, dflt). (family, valid_ports (dict_get ports family) dflt)) DEFAULT_PORTS))))"
  using default_ports_ok valid_ports_ok
  by (fastforce simp: is_port_table_def port_lists_def list_all_iff comp_def case_prod_unfold)

lemma port_table_same:
  assumes "map fst d = map fst ps" and "distinct (map fst ps)" and "list_all (\<lambda>x. is_port_list (snd x)) d"
  shows "port_lists (map (\<lambda>(family, dflt). (family, valid_ports (dict_get d family) dflt)) ps) = d"
proof (rule nth_equalityI)
  show "length (port_lists (map (\<lambda>(family, dflt). (family, valid_ports (dict_get d family) dflt)) ps))
      = length d"
    using arg_cong [OF assms(1), of length] by (simp add: port_lists_def)
next
  fix i
  assume "i < length (port_lists (map (\<lambda>(family, dflt). (family, valid_ports (dict_get d family) dflt)) ps))"
  then have i: "i < length ps" by (simp add: port_lists_def)
  have len: "length d = length ps" using arg_cong [OF assms(1), of length] by simp
  have k: "fst (d ! i) = fst (ps ! i)"
    using assms(1) i len by (metis nth_map)
  have "map_of d (fst (d ! i)) = Some (snd (d ! i))"
    using assms(1,2) i len by (intro map_of_is_SomeI) auto
  then have g: "dict_get d (fst (ps ! i)) = snd (d ! i)"
    by (simp add: k dict_get_def)
  have "is_port_list (snd (d ! i))" using assms(3) i len by (simp add: list_all_length)
  then show "port_lists (map (\<lambda>(family, dflt). (family, valid_ports (dict_get d family) dflt)) ps) ! i = d ! i"
    using i g k by (simp add: port_lists_def case_prod_unfold valid_ports_same prod_eq_iff)
qed

lemma keep_ports:
  assumes "is_port_table (map_of d ''ports'')"
  shows "dict_set d ''ports'' (JObj (port_lists (map (\<lambda>(family, dflt).
            (family, valid_ports (dict_get
               (case dict_get d ''ports'' of JObj d \<Rightarrow> d | _ \<Rightarrow> port_lists DEFAULT_PORTS) family) dflt))
            DEFAULT_PORTS))) = d"
proof -
  obtain t where t: "map_of d ''ports'' = Some (JObj t)" "map fst t = map fst DEFAULT_PORTS"
      "list_all (\<lambda>x. is_port_list (snd x)) t"
    using assms by (auto simp: is_port_table_def split: option.splits json.splits)
  have "distinct (map fst DEFAULT_PORTS)" by (simp add: DEFAULT_PORTS_def)
  with t show ?thesis
    by (simp add: dict_get_map_of port_table_same dict_set_same)
qed

lemma discover_norm_shape: "discover_shape (discover_normalize m)"
  by (simp add: discover_shape_def discover_normalize_def Let_def map_of_dict_set scan_kinds_plain
      stripped_items_address port_table_ok MAX_TIMEOUT_S_def MAX_HOSTS_CEILING_def MAX_CONCURRENCY_def)

lemma discover_shape_norm:
  assumes "discover_shape d"
  shows "discover_normalize d = d"
  using assms unfolding discover_shape_def discover_normalize_def
  by (simp add: Let_def keep_word scan_kinds_plain keep_addresses keep_ports keep_clamped
      MAX_TIMEOUT_S_def MAX_HOSTS_CEILING_def MAX_CONCURRENCY_def)

interpretation discover: closed_shape discover_normalize discover_shape
  by unfold_locales (fact discover_norm_shape discover_shape_norm)+

section \<open>The findings\<close>

definition FINDING_KEYS :: "string list" where
  "FINDING_KEYS =
     [''kind'', ''product'', ''host'', ''port'', ''endpoint'', ''server_version'', ''build'',
      ''confidence'', ''tls_cn'', ''tls_issuer'', ''suggested_name'', ''source'', ''domain'',
      ''base_dn'', ''dc_hostname'', ''functional_level'', ''vendor'', ''already_registered'']"

definition COUNTER_KEYS :: "string list" where
  "COUNTER_KEYS = [''scanned'', ''hosts'', ''refused'', ''truncated'', ''audit_mode'']"

definition MAX_FINDINGS :: nat where "MAX_FINDINGS = 200"
definition MAX_FINDING_CHARS :: nat where "MAX_FINDING_CHARS = 512"

definition clean_field :: "dict \<Rightarrow> string \<Rightarrow> (string \<times> json) option" where
  "clean_field finding key =
     (case map_of finding key of
        None \<Rightarrow> None
      | Some v \<Rightarrow>
          if key = ''port'' then
            (let port = non_negative v in if port \<noteq> 0 then Some (key, JInt port) else None)
          else if key = ''tls'' \<or> key = ''already_registered'' then Some (key, JBool (truthy v))
          else (let text = clean_text MAX_FINDING_CHARS v
                in if text \<noteq> [] then Some (key, JStr text) else None))"

definition clean_finding :: "dict \<Rightarrow> dict" where
  "clean_finding finding = List.map_filter (clean_field finding) FINDING_KEYS"

definition discover_findings :: "dict \<Rightarrow> dict" where
  "discover_findings m =
     (let raw = (case dict_get m ''findings'' of JList xs \<Rightarrow> xs | _ \<Rightarrow> []);
          findings = List.map_filter
            (\<lambda>item. case item of JObj d \<Rightarrow> Some (JObj (clean_finding d)) | _ \<Rightarrow> None)
            (take MAX_FINDINGS raw);
          counters = map (\<lambda>key.
            (key, if key = ''truncated'' \<or> key = ''audit_mode'' then JBool (truthy (dict_get m key))
                  else JInt (non_negative (dict_get m key)))) COUNTER_KEYS
      in (''findings'', JList findings) # counters)"

text \<open>A value that may be shown: a clean bounded text, a flag or a number that is not negative.\<close>

definition shown_ok :: "json \<Rightarrow> bool" where
  "shown_ok v =
     (case v of
        JStr s \<Rightarrow> no_control s \<and> length (utf8_chars s) \<le> MAX_FINDING_CHARS
      | JInt i \<Rightarrow> 0 \<le> i
      | JBool _ \<Rightarrow> True
      | _ \<Rightarrow> False)"

definition finding_ok :: "json \<Rightarrow> bool" where
  "finding_ok v =
     (case v of
        JObj d \<Rightarrow> distinct (map fst d)
          \<and> list_all (\<lambda>(k, x). k \<in> set FINDING_KEYS \<and> shown_ok x) d
      | _ \<Rightarrow> False)"

lemma clean_field_SomeD:
  "clean_field finding key = Some (k, v) \<Longrightarrow> k = key \<and> shown_ok v"
  by (auto simp: clean_field_def shown_ok_def non_negative_def clean_text_ok Let_def
      split: option.splits if_splits)

lemma keys_clean_finding:
  "map fst (List.map_filter (clean_field finding) keys) =
   filter (\<lambda>k. clean_field finding k \<noteq> None) keys"
  by (induction keys) (auto simp: map_filter_simps dest: clean_field_SomeD split: option.splits)

lemma clean_finding_ok: "finding_ok (JObj (clean_finding d))"
proof -
  have "distinct FINDING_KEYS" by (simp add: FINDING_KEYS_def)
  then have "distinct (map fst (clean_finding d))"
    by (simp add: clean_finding_def keys_clean_finding)
  moreover have "\<forall>(k, x) \<in> set (clean_finding d). k \<in> set FINDING_KEYS \<and> shown_ok x"
    by (auto simp: clean_finding_def map_filter_def dest: clean_field_SomeD)
  ultimately show ?thesis by (simp add: finding_ok_def list_all_iff)
qed

lemma shown_ok_simps [simp]: "shown_ok (JBool b)" "shown_ok (JInt (non_negative v))"
  by (simp_all add: shown_ok_def non_negative_def split: option.split)

lemma counters_shown:
  "list_all (\<lambda>x. shown_ok (snd x))
     (map (\<lambda>key. (key, if P key then JBool (f key) else JInt (non_negative (g key)))) ks)"
  by (induction ks) auto

text \<open>
  What the UI shows of a finished scan is closed: exactly the counters and a list of at most
  200 findings; a finding has only allowlisted fields, each at most once, and every text in it is
  free of control characters and at most 512 characters long. Nothing else of the job row matters:
  the row cut down to the findings and the counters shows the same.
\<close>

theorem discover_findings_closed:
  "(\<exists>findings counters.
      discover_findings m = (''findings'', JList findings) # counters
      \<and> length findings \<le> 200 \<and> list_all finding_ok findings
      \<and> map fst counters = COUNTER_KEYS \<and> list_all (\<lambda>x. shown_ok (snd x)) counters)
   \<and> discover_findings (project (''findings'' # COUNTER_KEYS) m) = discover_findings m"
proof
  define raw where "raw = (case dict_get m ''findings'' of JList xs \<Rightarrow> xs | _ \<Rightarrow> [])"
  let ?xs = "List.map_filter
            (\<lambda>item. case item of JObj d \<Rightarrow> Some (JObj (clean_finding d)) | _ \<Rightarrow> None)
            (take MAX_FINDINGS raw)"
  have "length ?xs \<le> length (take MAX_FINDINGS raw)"
    unfolding map_filter_def length_map by (rule length_filter_le)
  then have "length ?xs \<le> 200" by (simp add: MAX_FINDINGS_def)
  moreover have "list_all finding_ok ?xs"
    by (auto simp: list_all_iff map_filter_def clean_finding_ok split: json.splits)
  ultimately show "\<exists>findings counters.
      discover_findings m = (''findings'', JList findings) # counters
      \<and> length findings \<le> 200 \<and> list_all finding_ok findings
      \<and> map fst counters = COUNTER_KEYS \<and> list_all (\<lambda>x. shown_ok (snd x)) counters"
    using counters_shown [of "\<lambda>key. key = ''truncated'' \<or> key = ''audit_mode''"
        "\<lambda>key. truthy (dict_get m key)" "dict_get m" COUNTER_KEYS]
    unfolding discover_findings_def raw_def [symmetric] Let_def
    by (intro exI conjI) (auto simp: comp_def)
  have "\<And>k. k \<in> set (''findings'' # COUNTER_KEYS) \<Longrightarrow>
      dict_get (project (''findings'' # COUNTER_KEYS) m) k = dict_get m k"
    by (rule dict_get_project)
  then show "discover_findings (project (''findings'' # COUNTER_KEYS) m) = discover_findings m"
    by (simp add: discover_findings_def cong: map_cong)
qed

end
