(* ===== verification/Run_Meta.thy ===== *)
theory Run_Meta
  imports Agent_Meta
begin

text \<open>
  Config-Management runs as job metadata: \<open>services/ansible_run_meta.py\<close> for a run on the
  dashboard's own runner and \<open>services/agent_ansible_meta.py\<close> for one executed by a remote agent.
  The second keeps two allowlists apart: what the job row may hold, and the four fields that cross
  to the agent in the signed envelope.
\<close>

section \<open>Runs of the local runner\<close>

definition LOCAL_META_KEYS :: "string list" where
  "LOCAL_META_KEYS =
     [''asset'', ''asset_backend'', ''target'', ''cloud'', ''ansible_user'', ''extra_vars'',
      ''secret_vars'', ''secret_become_source'', ''secret_ssh_key_source'', ''managed_account'',
      ''managed_become'', ''become_method'', ''epml_token_var'']"

definition LOCAL_DEFAULTS :: dict where
  "LOCAL_DEFAULTS =
     [(''asset'', JStr []), (''asset_backend'', JStr []), (''target'', JStr []), (''cloud'', JStr []),
      (''ansible_user'', JStr []), (''extra_vars'', JObj []), (''secret_vars'', JNull),
      (''secret_become_source'', JStr []), (''secret_ssh_key_source'', JStr []),
      (''managed_account'', JNull), (''managed_become'', JNull), (''become_method'', JStr []),
      (''epml_token_var'', JStr [])]"

definition local_run_meta :: "dict \<Rightarrow> string \<Rightarrow> string \<Rightarrow> dict" where
  "local_run_meta payload description asset_backend =
     dict_set
       (read_payload LOCAL_META_KEYS LOCAL_DEFAULTS payload [(''description'', JStr description)])
       ''asset_backend'' (JStr asset_backend)"

definition local_run_kwargs :: "dict \<Rightarrow> dict" where
  "local_run_kwargs m = kwargs_of LOCAL_META_KEYS LOCAL_DEFAULTS m"

text \<open>
  A queued run survives a restart of the worker: the arguments reconstructed from the stored
  metadata are the fields of the request, an absent one its default, with the storage back end the
  endpoint resolved; and nothing but the description and the allowlisted fields was stored, whatever
  else the request carried.
\<close>

theorem local_run_roundtrip:
  "local_run_kwargs (local_run_meta payload description backend) =
     map (\<lambda>k. (k, if k = ''asset_backend'' then JStr backend
                  else case map_of payload k of Some v \<Rightarrow> v | None \<Rightarrow> dict_get LOCAL_DEFAULTS k))
       LOCAL_META_KEYS
   \<and> fst ` set (local_run_meta payload description backend) =
       insert ''description'' (set LOCAL_META_KEYS)"
proof
  have mem: "''asset_backend'' \<in> set LOCAL_META_KEYS" by (simp add: LOCAL_META_KEYS_def)
  show "local_run_kwargs (local_run_meta payload description backend) =
     map (\<lambda>k. (k, if k = ''asset_backend'' then JStr backend
                  else case map_of payload k of Some v \<Rightarrow> v | None \<Rightarrow> dict_get LOCAL_DEFAULTS k))
       LOCAL_META_KEYS"
    unfolding local_run_kwargs_def local_run_meta_def kwargs_of_def
    by (rule map_cong) (auto simp: map_of_dict_set map_of_read_payload)
  show "fst ` set (local_run_meta payload description backend) =
       insert ''description'' (set LOCAL_META_KEYS)"
    unfolding local_run_meta_def read_payload_def
    using mem by (auto simp: keys_dict_set keys_fold_dict_set)
qed

section \<open>Runs of a remote agent\<close>

definition VALID_RUN_KINDS :: "string list" where
  "VALID_RUN_KINDS = [''vm'', ''database'', ''directory'', ''k8s'']"

definition VALID_TRANSPORTS :: "string list" where
  "VALID_TRANSPORTS = [''ssh'', ''winrm'', ''local'']"

definition FORCED_TRANSPORT :: "(string \<times> string) list" where
  "FORCED_TRANSPORT = [(''database'', ''local''), (''k8s'', ''local'')]"

definition ALLOWED_TRANSPORTS :: "(string \<times> string list) list" where
  "ALLOWED_TRANSPORTS = [(''directory'', [''local'', ''winrm''])]"

definition DEFAULT_PORT :: "(string \<times> int) list" where
  "DEFAULT_PORT = [(''ssh'', 22), (''winrm'', 5985), (''local'', 0)]"

definition CLOUD_VM_CLOUDS :: "string list" where
  "CLOUD_VM_CLOUDS = [''aws'', ''azure'', ''gcp'']"

definition RUN_META_KEYS :: "string list" where
  "RUN_META_KEYS =
     [''run_kind'', ''transport'', ''target_host'', ''target_port'', ''connection_id'', ''target_id'',
      ''target_label'', ''asset'', ''asset_backend'', ''login_user'', ''extra_vars'', ''secret_vars'',
      ''secret_become_source'', ''secret_ssh_key_source'', ''managed_account'', ''managed_become'',
      ''become_method'', ''epml_token_var'', ''pov_environment_id'', ''pov_vm_id'',
      ''join_deploy_job_id'', ''cloud_deploy_job_id'', ''cloud'', ''windows_ssh'']"

definition RUN_ENVELOPE_KEYS :: "string list" where
  "RUN_ENVELOPE_KEYS = [''run_kind'', ''transport'', ''target_host'', ''target_port'']"

definition RUN_DEFAULTS :: dict where
  "RUN_DEFAULTS =
     [(''run_kind'', JStr ''vm''), (''transport'', JStr ''ssh''), (''target_host'', JStr []),
      (''target_port'', JInt 0), (''connection_id'', JStr []), (''target_id'', JStr []),
      (''target_label'', JStr []), (''asset'', JStr []), (''asset_backend'', JStr []),
      (''login_user'', JStr []), (''extra_vars'', JObj []), (''secret_vars'', JNull),
      (''secret_become_source'', JStr []), (''secret_ssh_key_source'', JStr []),
      (''managed_account'', JNull), (''managed_become'', JNull), (''become_method'', JStr []),
      (''epml_token_var'', JStr []), (''pov_environment_id'', JStr []), (''pov_vm_id'', JStr []),
      (''join_deploy_job_id'', JStr []), (''cloud_deploy_job_id'', JStr []), (''cloud'', JStr []),
      (''windows_ssh'', JBool False)]"

definition STRING_KEYS :: "string list" where
  "STRING_KEYS =
     [''connection_id'', ''target_id'', ''target_label'', ''asset'', ''asset_backend'', ''login_user'',
      ''secret_become_source'', ''secret_ssh_key_source'', ''epml_token_var'', ''become_method'',
      ''pov_environment_id'', ''pov_vm_id'', ''join_deploy_job_id'', ''cloud_deploy_job_id'', ''cloud'']"

definition transport_for_guest_os :: "string \<Rightarrow> string" where
  "transport_for_guest_os guest_os =
     (if contains ''windows'' (py_lower (py_strip guest_os)) then ''winrm'' else ''ssh'')"

text \<open>The four fields of the envelope, in the order \<open>normalize\<close> settles them.\<close>

definition run_kind_of :: "json \<Rightarrow> string" where
  "run_kind_of v =
     (let kind = py_lower (text_of v) in if kind \<in> set VALID_RUN_KINDS then kind else [])"

definition transport_of :: "string \<Rightarrow> json \<Rightarrow> string" where
  "transport_of kind v =
     (let transport = (case map_of FORCED_TRANSPORT kind of
                         None \<Rightarrow> py_lower (text_of v) | Some t \<Rightarrow> t)
      in if transport \<in> set VALID_TRANSPORTS then transport else [])"

definition port_of :: "string \<Rightarrow> json \<Rightarrow> int" where
  "port_of transport v =
     (let port = (case json_int v of Some p \<Rightarrow> p | None \<Rightarrow> 0)
      in if \<not> (1 \<le> port \<and> port \<le> 65535)
         then (case map_of DEFAULT_PORT transport of Some p \<Rightarrow> p | None \<Rightarrow> 0)
         else port)"

definition obj_or :: "json \<Rightarrow> json \<Rightarrow> json" where
  "obj_or dflt v = (case v of JObj _ \<Rightarrow> v | _ \<Rightarrow> dflt)"

definition run_target :: "dict \<Rightarrow> dict" where
  "run_target m =
     (let out = dict_set m ''run_kind'' (JStr (run_kind_of (dict_get m ''run_kind'')));
          out = dict_set out ''transport''
                  (JStr (transport_of (str_at out ''run_kind'') (dict_get out ''transport'')));
          out = dict_set out ''target_host'' (JStr (text_of (dict_get out ''target_host'')));
          out = dict_set out ''target_port''
                  (JInt (port_of (str_at out ''transport'') (dict_get out ''target_port'')))
      in out)"

definition run_strings :: "dict \<Rightarrow> dict" where
  "run_strings out = fold (\<lambda>k acc. dict_set acc k (JStr (text_of (dict_get acc k)))) STRING_KEYS out"

definition run_rest :: "dict \<Rightarrow> dict" where
  "run_rest out =
     (let out = dict_set out ''extra_vars'' (obj_or (JObj []) (dict_get out ''extra_vars''));
          out = dict_set out ''secret_vars'' (obj_or JNull (dict_get out ''secret_vars''));
          out = fold (\<lambda>k acc. dict_set acc k (obj_or JNull (dict_get acc k)))
                  [''managed_account'', ''managed_become''] out;
          out = dict_set out ''cloud'' (JStr (py_lower (str_at out ''cloud'')));
          out = dict_set out ''windows_ssh'' (JBool (dict_get out ''windows_ssh'' = JBool True))
      in out)"

definition run_normalize :: "dict \<Rightarrow> dict" where
  "run_normalize m = run_rest (run_strings (run_target m))"

definition agent_run_meta :: "dict \<Rightarrow> string \<Rightarrow> string \<Rightarrow> dict \<Rightarrow> dict" where
  "agent_run_meta payload description asset_backend overrides =
     (let m = read_payload RUN_META_KEYS RUN_DEFAULTS payload [(''description'', JStr description)];
          m = dict_set m ''asset_backend'' (JStr asset_backend);
          m = fold (\<lambda>(key, value) acc. if key \<in> set RUN_META_KEYS then dict_set acc key value else acc)
                overrides m
      in run_normalize m)"

definition agent_run_kwargs :: "dict \<Rightarrow> dict" where
  "agent_run_kwargs m = kwargs_of RUN_META_KEYS RUN_DEFAULTS m"

definition run_envelope_payload :: "dict \<Rightarrow> dict" where
  "run_envelope_payload m = project RUN_ENVELOPE_KEYS (run_normalize m)"

subsection \<open>The shape of a normalised run\<close>

definition run_shape :: "dict \<Rightarrow> bool" where
  "run_shape d \<longleftrightarrow>
     is_word ([] # VALID_RUN_KINDS) (map_of d ''run_kind'')
     \<and> is_word ([] # VALID_TRANSPORTS) (map_of d ''transport'')
     \<and> (case map_of FORCED_TRANSPORT (str_at d ''run_kind'') of
          Some t \<Rightarrow> str_at d ''transport'' = t | None \<Rightarrow> True)
     \<and> is_text (\<lambda>s. py_strip s = s) (map_of d ''target_host'')
     \<and> (in_range 1 65535 (map_of d ''target_port'')
        \<or> map_of d ''target_port'' = Some (JInt 0) \<and> str_at d ''transport'' \<in> {[], ''local''})
     \<and> list_all (\<lambda>k. is_text (\<lambda>s. py_strip s = s) (map_of d k)) STRING_KEYS
     \<and> py_lower (str_at d ''cloud'') = str_at d ''cloud''
     \<and> (\<exists>x. map_of d ''extra_vars'' = Some (JObj x))
     \<and> list_all (\<lambda>k. map_of d k = Some JNull \<or> (\<exists>x. map_of d k = Some (JObj x)))
         [''secret_vars'', ''managed_account'', ''managed_become'']
     \<and> (\<exists>b. map_of d ''windows_ssh'' = Some (JBool b))"

lemma run_words_plain: "plain_words VALID_RUN_KINDS" "plain_words VALID_TRANSPORTS"
  by code_simp+

lemma map_of_fold_own:
  assumes "distinct ks"
  shows "map_of (fold (\<lambda>k acc. dict_set acc k (f (dict_get acc k))) ks d) k =
     (if k \<in> set ks then Some (f (dict_get d k)) else map_of d k)"
  using assms by (induction ks arbitrary: d) (auto simp: map_of_dict_set dict_get_set)

lemma fold_own_same:
  "(\<And>k. k \<in> set ks \<Longrightarrow> dict_set d k (f (dict_get d k)) = d) \<Longrightarrow>
   fold (\<lambda>k acc. dict_set acc k (f (dict_get acc k))) ks d = d"
  by (induction ks) auto

lemma str_at_map_of: "str_at d k = (case map_of d k of Some (JStr s) \<Rightarrow> s | _ \<Rightarrow> [])"
  by (auto simp: str_at_def dict_get_def split: option.splits)

lemma string_keys_distinct: "distinct STRING_KEYS"
  by (simp add: STRING_KEYS_def)

lemma map_of_run_target:
  defines "kind \<equiv> \<lambda>m. run_kind_of (dict_get m ''run_kind'')"
  defines "transport \<equiv> \<lambda>m. transport_of (kind m) (dict_get m ''transport'')"
  shows "map_of (run_target m) = (map_of m)
     (''run_kind'' \<mapsto> JStr (kind m), ''transport'' \<mapsto> JStr (transport m),
      ''target_host'' \<mapsto> JStr (text_of (dict_get m ''target_host'')),
      ''target_port'' \<mapsto> JInt (port_of (transport m) (dict_get m ''target_port'')))"
  unfolding run_target_def Let_def kind_def transport_def
  by (simp add: map_of_dict_set dict_get_set str_at_def)

lemma map_of_run_strings:
  "map_of (run_strings m) k =
     (if k \<in> set STRING_KEYS then Some (JStr (text_of (dict_get m k))) else map_of m k)"
  unfolding run_strings_def
  by (rule map_of_fold_own [OF string_keys_distinct, of "\<lambda>v. JStr (text_of v)"])

lemma map_of_run_rest:
  "map_of (run_rest m) = (map_of m)
     (''extra_vars'' \<mapsto> obj_or (JObj []) (dict_get m ''extra_vars''),
      ''secret_vars'' \<mapsto> obj_or JNull (dict_get m ''secret_vars''),
      ''managed_account'' \<mapsto> obj_or JNull (dict_get m ''managed_account''),
      ''managed_become'' \<mapsto> obj_or JNull (dict_get m ''managed_become''),
      ''cloud'' \<mapsto> JStr (py_lower (str_at m ''cloud'')),
      ''windows_ssh'' \<mapsto> JBool (dict_get m ''windows_ssh'' = JBool True))"
  unfolding run_rest_def Let_def
  by (simp add: map_of_dict_set dict_get_set str_at_def)

text \<open>Every stored field after \<open>normalize\<close>, as a function of the fields before.\<close>

lemma string_keys_mem:
  "''cloud'' \<in> set STRING_KEYS"
  "set STRING_KEYS \<inter> {''run_kind'', ''transport'', ''target_host'', ''target_port'', ''extra_vars'',
     ''secret_vars'', ''managed_account'', ''managed_become'', ''windows_ssh''} = {}"
  by (simp_all add: STRING_KEYS_def)

lemma run_strings_other:
  "k \<notin> set STRING_KEYS \<Longrightarrow> map_of (run_strings m) k = map_of m k"
  "k \<notin> set STRING_KEYS \<Longrightarrow> dict_get (run_strings m) k = dict_get m k"
  by (simp_all add: map_of_run_strings dict_get_def)

lemma run_target_other:
  "k \<notin> {''run_kind'', ''transport'', ''target_host'', ''target_port''} \<Longrightarrow>
   dict_get (run_target m) k = dict_get m k"
  by (simp add: dict_get_def map_of_run_target)

lemma run_rest_other:
  "k \<notin> {''extra_vars'', ''secret_vars'', ''managed_account'', ''managed_become'', ''cloud'', ''windows_ssh''} \<Longrightarrow>
   map_of (run_rest m) k = map_of m k"
  by (simp add: map_of_run_rest)

lemma run_normalize_target:
  defines "kind \<equiv> \<lambda>m. run_kind_of (dict_get m ''run_kind'')"
  defines "transport \<equiv> \<lambda>m. transport_of (kind m) (dict_get m ''transport'')"
  shows
    "map_of (run_normalize m) ''run_kind'' = Some (JStr (kind m))"
    "map_of (run_normalize m) ''transport'' = Some (JStr (transport m))"
    "map_of (run_normalize m) ''target_host'' = Some (JStr (text_of (dict_get m ''target_host'')))"
    "map_of (run_normalize m) ''target_port'' =
       Some (JInt (port_of (transport m) (dict_get m ''target_port'')))"
  unfolding run_normalize_def kind_def transport_def
  using string_keys_mem(2) by (simp_all add: run_rest_other run_strings_other map_of_run_target)

lemma run_normalize_rest:
  "map_of (run_normalize m) ''extra_vars'' = Some (obj_or (JObj []) (dict_get m ''extra_vars''))"
  "map_of (run_normalize m) ''secret_vars'' = Some (obj_or JNull (dict_get m ''secret_vars''))"
  "map_of (run_normalize m) ''managed_account'' = Some (obj_or JNull (dict_get m ''managed_account''))"
  "map_of (run_normalize m) ''managed_become'' = Some (obj_or JNull (dict_get m ''managed_become''))"
  "map_of (run_normalize m) ''windows_ssh'' = Some (JBool (dict_get m ''windows_ssh'' = JBool True))"
  "map_of (run_normalize m) ''cloud'' = Some (JStr (py_lower (text_of (dict_get m ''cloud''))))"
  unfolding run_normalize_def
  using string_keys_mem
  by (simp_all add: map_of_run_rest run_strings_other run_target_other str_at_map_of map_of_run_strings)

lemma run_normalize_strings:
  "k \<in> set STRING_KEYS \<Longrightarrow> k \<noteq> ''cloud'' \<Longrightarrow>
   map_of (run_normalize m) k = Some (JStr (text_of (dict_get m k)))"
  unfolding run_normalize_def using string_keys_mem(2)
  by (subst run_rest_other) (auto simp: map_of_run_strings intro!: arg_cong [of _ _ text_of] run_target_other)

subsection \<open>Normalising is a projection onto the shape\<close>

lemma run_kind_of_cases: "run_kind_of v \<in> set ([] # VALID_RUN_KINDS)"
  by (simp add: run_kind_of_def Let_def)

lemma transport_of_cases: "transport_of kind v \<in> set ([] # VALID_TRANSPORTS)"
  by (simp add: transport_of_def Let_def)

lemma forced_transport:
  "map_of FORCED_TRANSPORT kind = Some t \<Longrightarrow> transport_of kind v = t"
  by (auto simp: FORCED_TRANSPORT_def transport_of_def VALID_TRANSPORTS_def split: if_splits)

lemma port_of_cases:
  "t \<in> set ([] # VALID_TRANSPORTS) \<Longrightarrow>
   1 \<le> port_of t v \<and> port_of t v \<le> 65535 \<or> port_of t v = 0 \<and> t \<in> {[], ''local''}"
  by (auto simp: port_of_def DEFAULT_PORT_def VALID_TRANSPORTS_def Let_def)

lemma obj_or_JNull: "obj_or JNull v = JNull \<or> (\<exists>x. obj_or JNull v = JObj x)"
  by (cases v) (simp_all add: obj_or_def)

lemma obj_or_JObj: "\<exists>x. obj_or (JObj d) v = JObj x"
  by (cases v) (simp_all add: obj_or_def)

lemma run_norm_shape: "run_shape (run_normalize m)"
proof -
  let ?d = "run_normalize m"
  have k: "str_at ?d ''run_kind'' = run_kind_of (dict_get m ''run_kind'')"
    and t: "str_at ?d ''transport'' = transport_of (run_kind_of (dict_get m ''run_kind'')) (dict_get m ''transport'')"
    and c: "str_at ?d ''cloud'' = py_lower (text_of (dict_get m ''cloud''))"
    by (simp_all add: str_at_map_of run_normalize_target run_normalize_rest)
  have strs: "list_all (\<lambda>k. is_text (\<lambda>s. py_strip s = s) (map_of ?d k)) STRING_KEYS"
    unfolding list_all_iff
  proof
    fix k assume "k \<in> set STRING_KEYS"
    then show "is_text (\<lambda>s. py_strip s = s) (map_of ?d k)"
      by (cases "k = ''cloud''")
         (simp_all add: run_normalize_rest run_normalize_strings text_of_def py_strip_lower)
  qed
  have objs: "list_all (\<lambda>k. map_of ?d k = Some JNull \<or> (\<exists>x. map_of ?d k = Some (JObj x)))
         [''secret_vars'', ''managed_account'', ''managed_become'']"
    by (simp add: run_normalize_rest obj_or_JNull)
  have forced: "case map_of FORCED_TRANSPORT (str_at ?d ''run_kind'') of
          Some t \<Rightarrow> str_at ?d ''transport'' = t | None \<Rightarrow> True"
    unfolding k t by (simp add: forced_transport split: option.split)
  have port: "in_range 1 65535 (map_of ?d ''target_port'')
        \<or> map_of ?d ''target_port'' = Some (JInt 0) \<and> str_at ?d ''transport'' \<in> {[], ''local''}"
    unfolding run_normalize_target t in_range_def
    using port_of_cases [OF transport_of_cases] by simp
  show ?thesis
    unfolding run_shape_def
  proof (intro conjI)
    show "is_word ([] # VALID_RUN_KINDS) (map_of ?d ''run_kind'')"
      "is_word ([] # VALID_TRANSPORTS) (map_of ?d ''transport'')"
      unfolding run_normalize_target is_word_def option.case json.case
      by (rule run_kind_of_cases transport_of_cases)+
    show "is_text (\<lambda>s. py_strip s = s) (map_of ?d ''target_host'')"
      unfolding run_normalize_target by (simp add: text_of_def)
    show "py_lower (str_at ?d ''cloud'') = str_at ?d ''cloud''" unfolding c by simp
    show "\<exists>x. map_of ?d ''extra_vars'' = Some (JObj x)"
      unfolding run_normalize_rest by (simp add: obj_or_JObj)
    show "\<exists>b. map_of ?d ''windows_ssh'' = Some (JBool b)"
      unfolding run_normalize_rest by simp
  qed (fact strs objs forced port)+
qed

lemma plain_word: "plain_words ws \<Longrightarrow> w \<in> set ws \<Longrightarrow> py_lower (py_strip w) = w"
  by (simp add: plain_words_def)

lemma run_kind_same: "w \<in> set ([] # VALID_RUN_KINDS) \<Longrightarrow> run_kind_of (JStr w) = w"
  using plain_word [OF run_words_plain(1)]
  by (cases "w = []") (simp_all add: run_kind_of_def py_lower_def Let_def)

lemma transport_same:
  assumes "w \<in> set ([] # VALID_TRANSPORTS)"
    and "case map_of FORCED_TRANSPORT kind of Some t \<Rightarrow> w = t | None \<Rightarrow> True"
  shows "transport_of kind (JStr w) = w"
proof (cases "map_of FORCED_TRANSPORT kind")
  case None
  with assms(1) plain_word [OF run_words_plain(2)] show ?thesis
    by (cases "w = []") (simp_all add: transport_of_def py_lower_def)
next
  case (Some t)
  with assms(2) show ?thesis by (simp add: forced_transport)
qed

lemma run_shape_norm:
  assumes "run_shape d"
  shows "run_normalize d = d"
proof -
  obtain k where k: "map_of d ''run_kind'' = Some (JStr k)" "k \<in> set ([] # VALID_RUN_KINDS)"
    using assms by (auto simp: run_shape_def is_word_def split: option.splits json.splits)
  obtain t where t: "map_of d ''transport'' = Some (JStr t)" "t \<in> set ([] # VALID_TRANSPORTS)"
    using assms by (auto simp: run_shape_def is_word_def split: option.splits json.splits)
  have sk: "str_at d ''run_kind'' = k" "str_at d ''transport'' = t"
    using k t by (simp_all add: str_at_map_of)
  have tt: "transport_of k (JStr t) = t"
    using assms t(2) unfolding run_shape_def sk by (intro transport_same) blast+
  obtain p where p: "map_of d ''target_port'' = Some (JInt p)" "port_of t (JInt p) = p"
  proof -
    have "in_range 1 65535 (map_of d ''target_port'') \<or>
        map_of d ''target_port'' = Some (JInt 0) \<and> t \<in> {[], ''local''}"
      using assms by (simp add: run_shape_def sk)
    then show thesis
      by (auto intro!: that simp: in_range_def port_of_def DEFAULT_PORT_def split: option.splits json.splits)
  qed
  have host: "dict_set d ''target_host'' (JStr (text_of (dict_get d ''target_host''))) = d"
    using assms by (intro keep_text [where p = "\<lambda>s. py_strip s = s"]) (auto simp: run_shape_def)
  have 1: "run_target d = d"
    unfolding run_target_def Let_def
    by (simp add: dict_get_map_of k(1) t(1) p run_kind_same [OF k(2)] dict_set_same sk tt host)
  have 2: "run_strings d = d"
    unfolding run_strings_def
  proof (rule fold_own_same [where f = "\<lambda>v. JStr (text_of v)"])
    fix k assume "k \<in> set STRING_KEYS"
    with assms show "dict_set d k (JStr (text_of (dict_get d k))) = d"
      by (intro keep_text [where p = "\<lambda>s. py_strip s = s"]) (auto simp: run_shape_def list_all_iff)
  qed
  have objs: "\<And>k. k \<in> {''secret_vars'', ''managed_account'', ''managed_become''} \<Longrightarrow>
      dict_set d k (obj_or JNull (dict_get d k)) = d"
    using assms by (auto simp: run_shape_def obj_or_def dict_get_map_of dict_set_same)
  have ev: "dict_set d ''extra_vars'' (obj_or (JObj []) (dict_get d ''extra_vars'')) = d"
    using assms by (auto simp: run_shape_def obj_or_def dict_get_map_of dict_set_same)
  have ws: "dict_set d ''windows_ssh'' (JBool (dict_get d ''windows_ssh'' = JBool True)) = d"
    using assms by (auto simp: run_shape_def dict_get_map_of dict_set_same)
  have "is_text (\<lambda>s. py_strip s = s) (map_of d ''cloud'')"
    using assms string_keys_mem(1) by (auto simp: run_shape_def list_all_iff)
  then obtain c where c: "map_of d ''cloud'' = Some (JStr c)" by (rule is_textE)
  moreover have "py_lower (str_at d ''cloud'') = str_at d ''cloud''"
    using assms by (simp add: run_shape_def)
  ultimately have cl: "dict_set d ''cloud'' (JStr (py_lower (str_at d ''cloud''))) = d"
    by (simp add: str_at_map_of dict_set_same)
  have 3: "run_rest d = d"
    unfolding run_rest_def Let_def by (simp add: ev objs cl ws)
  from 1 2 3 show ?thesis by (simp add: run_normalize_def)
qed

interpretation agent_run: closed_shape run_normalize run_shape
  by unfold_locales (fact run_norm_shape run_shape_norm)+

section \<open>Dispatchable runs\<close>

definition slashes :: "string list \<Rightarrow> string" where
  "slashes ws = join_with (CHR ''/'') ws"

fun join_or :: "string list \<Rightarrow> string" where
  "join_or [] = []"
| "join_or [w] = w"
| "join_or (w # v # ws) = w @ '' or '' @ join_or (v # ws)"

definition run_check :: "dict \<Rightarrow> string" where
  "run_check raw =
     (let raw_kind = (if truthy (dict_get raw ''run_kind'') then py_str (dict_get raw ''run_kind'') else []);
          raw_transport = (if truthy (dict_get raw ''transport'') then py_str (dict_get raw ''transport'') else []);
          m = run_normalize raw;
          kind = str_at m ''run_kind''; transport = str_at m ''transport'';
          has = (\<lambda>k. truthy (dict_get m k));
          cloud_vm = (has ''cloud_deploy_job_id'' \<and> str_at m ''cloud'' \<in> set CLOUD_VM_CLOUDS)
      in if kind \<notin> set VALID_RUN_KINDS then
           ''run_kind must be one of '' @ slashes VALID_RUN_KINDS @ '' (got '' @ py_repr_str raw_kind @ '').''
         else if transport \<notin> set VALID_TRANSPORTS then
           ''transport must be one of '' @ slashes VALID_TRANSPORTS @ '' (got '' @ py_repr_str raw_transport @ '').''
         else if \<not> has ''target_host'' then
           ''This target has no address the agent could reach. A synced VM only reports one when it is powered on with guest tools installed and its connection has guest-detail sync enabled.''
         else if \<not> has ''target_port'' then
           ''transport '' @ py_repr_str transport @ '' needs an explicit target_port.''
         else if kind = ''vm'' \<and> \<not> has ''connection_id''
                 \<and> \<not> (has ''pov_environment_id'' \<and> has ''pov_vm_id'') \<and> \<not> cloud_vm then
           ''A VM run must name the agent-bound connection its target was synced from, the POV environment and VM it belongs to, or the cloud deploy it was read from.''
         else if has ''windows_ssh'' \<and> \<not> (kind = ''vm'' \<and> transport = ''ssh'') then
           ''Only an SSH run against a VM can target a Windows server over OpenSSH.''
         else if kind = ''database'' \<and> \<not> has ''target_id'' then
           ''A database run must name the database it targets.''
         else if kind = ''k8s'' \<and> \<not> has ''target_id'' then
           ''A Kubernetes run must name the cluster it targets.''
         else (let allowed = (case map_of ALLOWED_TRANSPORTS kind of None \<Rightarrow> [] | Some ts \<Rightarrow> ts)
               in if allowed \<noteq> [] \<and> transport \<notin> set allowed then
                    ''A '' @ kind @ '' run uses transport '' @ join_or allowed @ '' (got ''
                      @ py_repr_str transport @ '').''
                  else if kind = ''directory'' \<and> \<not> has ''target_id'' then
                    ''A directory run must name the directory it targets.''
                  else if has ''join_deploy_job_id'' \<and> \<not> (kind = ''directory'' \<and> transport = ''winrm'') then
                    ''Only a WinRM directory run can join a deployed server to a domain.''
                  else []))"

text \<open>What a run that passes promises, read off the normalised row.\<close>

definition dispatchable :: "dict \<Rightarrow> bool" where
  "dispatchable d \<longleftrightarrow>
     str_at d ''target_host'' \<noteq> [] \<and> in_range 1 65535 (map_of d ''target_port'')
     \<and> (case str_at d ''run_kind'' of k \<Rightarrow>
          k = ''vm'' \<and> (str_at d ''connection_id'' \<noteq> []
              \<or> str_at d ''pov_environment_id'' \<noteq> [] \<and> str_at d ''pov_vm_id'' \<noteq> []
              \<or> str_at d ''cloud_deploy_job_id'' \<noteq> [] \<and> str_at d ''cloud'' \<in> set CLOUD_VM_CLOUDS)
            \<and> str_at d ''transport'' \<in> set VALID_TRANSPORTS
          \<or> k \<in> {''database'', ''k8s''} \<and> str_at d ''target_id'' \<noteq> [] \<and> str_at d ''transport'' = ''local''
          \<or> k = ''directory'' \<and> str_at d ''target_id'' \<noteq> [] \<and> str_at d ''transport'' \<in> {''local'', ''winrm''})
     \<and> (map_of d ''windows_ssh'' = Some (JBool True) \<longrightarrow>
          str_at d ''run_kind'' = ''vm'' \<and> str_at d ''transport'' = ''ssh'')
     \<and> (str_at d ''join_deploy_job_id'' \<noteq> [] \<longrightarrow>
          str_at d ''run_kind'' = ''directory'' \<and> str_at d ''transport'' = ''winrm'')"

lemma truthy_string_key:
  assumes "run_shape d" "k \<in> set STRING_KEYS"
  shows "truthy (dict_get d k) \<longleftrightarrow> str_at d k \<noteq> []"
proof -
  have "is_text (\<lambda>s. py_strip s = s) (map_of d k)"
    using assms by (auto simp: run_shape_def list_all_iff)
  then obtain s where "map_of d k = Some (JStr s)" by (rule is_textE)
  then show ?thesis by (simp add: dict_get_map_of str_at_map_of)
qed

lemma shape_target:
  assumes "run_shape d"
  shows "truthy (dict_get d ''target_host'') \<longleftrightarrow> str_at d ''target_host'' \<noteq> []"
    and "truthy (dict_get d ''target_port'') \<longleftrightarrow> in_range 1 65535 (map_of d ''target_port'')"
    and "truthy (dict_get d ''windows_ssh'') \<longleftrightarrow> map_of d ''windows_ssh'' = Some (JBool True)"
    and "case map_of FORCED_TRANSPORT (str_at d ''run_kind'') of
          Some t \<Rightarrow> str_at d ''transport'' = t | None \<Rightarrow> True"
proof -
  have "is_text (\<lambda>s. py_strip s = s) (map_of d ''target_host'')"
    using assms by (simp add: run_shape_def)
  then obtain s where "map_of d ''target_host'' = Some (JStr s)" by (rule is_textE)
  then show "truthy (dict_get d ''target_host'') \<longleftrightarrow> str_at d ''target_host'' \<noteq> []"
    by (simp add: dict_get_map_of str_at_map_of)
  have "in_range 1 65535 (map_of d ''target_port'') \<or> map_of d ''target_port'' = Some (JInt 0)"
    using assms unfolding run_shape_def by blast
  then show "truthy (dict_get d ''target_port'') \<longleftrightarrow> in_range 1 65535 (map_of d ''target_port'')"
    by (auto simp: in_range_def dict_get_map_of split: option.splits json.splits)
  obtain b where "map_of d ''windows_ssh'' = Some (JBool b)"
    using assms unfolding run_shape_def by blast
  then show "truthy (dict_get d ''windows_ssh'') \<longleftrightarrow> map_of d ''windows_ssh'' = Some (JBool True)"
    by (simp add: dict_get_map_of)
  show "case map_of FORCED_TRANSPORT (str_at d ''run_kind'') of
          Some t \<Rightarrow> str_at d ''transport'' = t | None \<Rightarrow> True"
    using assms unfolding run_shape_def by blast
qed

lemma id_keys:
  "{''connection_id'', ''target_id'', ''pov_environment_id'', ''pov_vm_id'', ''join_deploy_job_id'',
     ''cloud_deploy_job_id''} \<subseteq> set STRING_KEYS"
  by (simp add: STRING_KEYS_def)

lemma if_message:
  "(if c then x # xs else e) = [] \<longleftrightarrow> \<not> c \<and> e = []"
  "(if c then (x # xs) @ ys else e) = [] \<longleftrightarrow> \<not> c \<and> e = []"
  by simp_all

lemma run_check_dispatchable:
  assumes d: "d = run_normalize m"
  shows "run_check m = [] \<longleftrightarrow> dispatchable d"
proof -
  have sh: "run_shape d" unfolding d by (rule run_norm_shape)
  note ts = truthy_string_key [OF sh] shape_target(1-3) [OF sh]
  have ids: "\<And>k. k \<in> {''connection_id'', ''target_id'', ''pov_environment_id'', ''pov_vm_id'',
      ''join_deploy_job_id'', ''cloud_deploy_job_id''} \<Longrightarrow> truthy (dict_get d k) \<longleftrightarrow> str_at d k \<noteq> []"
    using ts(1) id_keys by blast
  have kind: "str_at d ''run_kind'' \<in> set ([] # VALID_RUN_KINDS)"
    using sh unfolding run_shape_def is_word_def str_at_map_of
    by (auto split: option.splits json.splits)
  have forced: "str_at d ''run_kind'' \<in> {''database'', ''k8s''} \<longrightarrow> str_at d ''transport'' = ''local''"
    using shape_target(4) [OF sh] by (auto simp: FORCED_TRANSPORT_def)
  define k t where "k = str_at d ''run_kind''" and "t = str_at d ''transport''"
  note kt = k_def [symmetric] t_def [symmetric]
  have ids': "truthy (dict_get d ''connection_id'') \<longleftrightarrow> str_at d ''connection_id'' \<noteq> []"
    "truthy (dict_get d ''target_id'') \<longleftrightarrow> str_at d ''target_id'' \<noteq> []"
    "truthy (dict_get d ''pov_environment_id'') \<longleftrightarrow> str_at d ''pov_environment_id'' \<noteq> []"
    "truthy (dict_get d ''pov_vm_id'') \<longleftrightarrow> str_at d ''pov_vm_id'' \<noteq> []"
    "truthy (dict_get d ''join_deploy_job_id'') \<longleftrightarrow> str_at d ''join_deploy_job_id'' \<noteq> []"
    "truthy (dict_get d ''cloud_deploy_job_id'') \<longleftrightarrow> str_at d ''cloud_deploy_job_id'' \<noteq> []"
    by (rule ids, simp)+
  note exact = run_check_def dispatchable_def d [symmetric] Let_def if_message ids' ts(2-4) kt
    ALLOWED_TRANSPORTS_def VALID_RUN_KINDS_def VALID_TRANSPORTS_def
  consider "k = []" | "k = ''vm''" | "k = ''database''" | "k = ''directory''" | "k = ''k8s''"
    using kind by (auto simp: kt VALID_RUN_KINDS_def)
  then show ?thesis
  proof cases
    case 1
    then show ?thesis unfolding exact by simp
  next
    case 2
    then show ?thesis unfolding exact by auto
  next
    case 3
    then show ?thesis using forced unfolding exact by auto
  next
    case 4
    then show ?thesis unfolding exact by auto
  next
    case 5
    then show ?thesis using forced unfolding exact by auto
  qed
qed

text \<open>
  \<open>check\<close> admits exactly the runs that can be carried out: an address and a port between 1 and
  65535; for a VM the connection, the lab VM or the cloud deploy its address was read from; for a
  database, cluster or directory the thing it targets, over a transport of that kind; OpenSSH on
  Windows and a domain join only in the one shape each has. The two ends agree: normalising the
  stored row again changes nothing, and the row is admitted as the request was.
\<close>

theorem run_check_exact:
  "(run_check m = [] \<longleftrightarrow> dispatchable (run_normalize m))
   \<and> (run_check (run_normalize m) = [] \<longleftrightarrow> run_check m = [])
   \<and> run_shape (run_normalize m) \<and> run_normalize (run_normalize m) = run_normalize m"
  using run_check_dispatchable [of _ m] run_check_dispatchable [of _ "run_normalize m"]
  by (simp add: agent_run.norm_idem run_norm_shape)

text \<open>
  A VM run is meant to go over SSH or WinRM, yet a VM run over the transport of localhost plays passes
  when the request names a port.
\<close>

definition vm_over_local :: dict where
  "vm_over_local =
     [(''run_kind'', JStr ''vm''), (''transport'', JStr ''local''), (''target_host'', JStr ''10.0.0.9''),
      (''target_port'', JInt 22), (''connection_id'', JStr ''c-1'')]"

theorem vm_over_local_admitted:
  "run_check vm_over_local = []
   \<and> str_at (run_normalize vm_over_local) ''run_kind'' = ''vm''
   \<and> str_at (run_normalize vm_over_local) ''transport'' = ''local''"
proof -
  let ?d = "run_normalize vm_over_local"
  have g: "dict_get vm_over_local ''run_kind'' = JStr ''vm''"
    "dict_get vm_over_local ''transport'' = JStr ''local''"
    "dict_get vm_over_local ''target_host'' = JStr ''10.0.0.9''"
    "dict_get vm_over_local ''target_port'' = JInt 22"
    "dict_get vm_over_local ''connection_id'' = JStr ''c-1''"
    "dict_get vm_over_local ''windows_ssh'' = JNull"
    "dict_get vm_over_local ''join_deploy_job_id'' = JNull"
    by (simp_all add: vm_over_local_def)
  have k: "run_kind_of (JStr ''vm'') = ''vm''" by (rule run_kind_same) (simp add: VALID_RUN_KINDS_def)
  have t: "transport_of ''vm'' (JStr ''local'') = ''local''"
    by (rule transport_same) (simp_all add: VALID_TRANSPORTS_def FORCED_TRANSPORT_def)
  have s: "py_strip ''10.0.0.9'' = ''10.0.0.9''" "py_strip ''c-1'' = ''c-1''"
    by code_simp+
  have f: "str_at ?d ''run_kind'' = ''vm''" "str_at ?d ''transport'' = ''local''"
    "str_at ?d ''target_host'' = ''10.0.0.9''" "map_of ?d ''target_port'' = Some (JInt 22)"
    "map_of ?d ''windows_ssh'' = Some (JBool False)"
    unfolding str_at_map_of run_normalize_target run_normalize_rest g k t
    by (simp_all add: port_of_def s)
  have i: "str_at ?d ''connection_id'' = ''c-1''" "str_at ?d ''join_deploy_job_id'' = []"
    using id_keys unfolding str_at_map_of
    by (simp_all add: run_normalize_strings g s text_of_def)
  have "dispatchable ?d"
    unfolding dispatchable_def f i by (simp add: in_range_def VALID_TRANSPORTS_def)
  with f show ?thesis by (simp add: run_check_dispatchable [OF refl])
qed

end
