(* ===== verification/Hypervisor_Meta.thy ===== *)
theory Hypervisor_Meta
  imports Agent_Meta
begin

text \<open>
  Verbs on a hypervisor that only an agent can reach (\<open>services/agent_hypervisor_meta.py\<close>): the
  closed request, the map from page buttons to verbs, the gate on tags, and the cleaning of an
  inventory page on its way back.
\<close>

section \<open>Patterns\<close>

definition ID_RE :: "string \<Rightarrow> bool" where
  "ID_RE = line_match (\<lambda>s. length s \<le> 128 \<and> list_all (one_of '':_.-'') s)"

definition CURSOR_RE :: "string \<Rightarrow> bool" where
  "CURSOR_RE = line_match (\<lambda>s. length s \<le> 128 \<and> list_all (one_of '':_.=+/-'') s)"

definition REF_RE :: "string \<Rightarrow> bool" where
  "REF_RE = line_match (\<lambda>s. length s \<le> 64 \<and> list_all (one_of ''_.-'') s)"

definition tag_word :: "string \<Rightarrow> bool" where
  "tag_word s \<longleftrightarrow>
     (case s of [] \<Rightarrow> False
      | c # cs \<Rightarrow> one_of ''_'' c \<and> length cs \<le> 59 \<and> list_all (one_of ''_+.-'') cs)"

definition TAG_RE :: "string \<Rightarrow> bool" where
  "TAG_RE = line_match tag_word"

section \<open>Verbs and buttons\<close>

definition HYPERVISOR_META_KEYS :: "string list" where
  "HYPERVISOR_META_KEYS =
     [''verb'', ''connection_ref'', ''connection_id'', ''kind'', ''target_id'', ''target_scope'',
      ''target_type'', ''page_size'', ''cursor'', ''timeout_s'', ''tags'']"

definition READ_VERBS :: "string list" where
  "READ_VERBS = [''inventory_sync'']"

definition WRITE_VERBS :: "string list" where
  "WRITE_VERBS =
     [''power_on'', ''power_off'', ''power_reset'', ''restart'', ''shutdown'', ''reboot'', ''snapshot'',
      ''set_tags'']"

definition VALID_VERBS :: "string list" where
  "VALID_VERBS = READ_VERBS @ WRITE_VERBS"

definition VALID_KINDS :: "string list" where
  "VALID_KINDS = [''vsphere'', ''proxmox'', ''nutanix'', ''xcpng'', ''hyperv'', ''esxi'', ''workstation'']"

definition VALID_TARGET_TYPES :: "string list" where
  "VALID_TARGET_TYPES = [''qemu'', ''lxc'', ''vm'']"

definition MAX_PAGE_SIZE :: nat where "MAX_PAGE_SIZE = 1000"
definition MAX_VERB_TIMEOUT_S :: int where "MAX_VERB_TIMEOUT_S = 600"
definition MAX_SYNC_PAGES :: int where "MAX_SYNC_PAGES = 40"
definition MAX_TAGS :: nat where "MAX_TAGS = 32"
definition MAX_IPS :: nat where "MAX_IPS = 16"
definition MAX_VM_TEXT :: nat where "MAX_VM_TEXT = 256"
definition MAX_VM_PATH :: nat where "MAX_VM_PATH = 1024"

definition PAGE_OPS :: "(string \<times> (string \<times> string) list) list" where
  "PAGE_OPS =
     [(''proxmox'', [(''start'', ''power_on''), (''stop'', ''power_off''),
                     (''shutdown'', ''shutdown''), (''reboot'', ''reboot'')]),
      (''vsphere'', [(''start'', ''power_on''), (''stop'', ''power_off''),
                     (''reset'', ''power_reset''), (''shutdown'', ''shutdown'')]),
      (''xcpng'', [(''start'', ''power_on''), (''stop'', ''power_off''), (''shutdown'', ''shutdown''),
                   (''reboot'', ''restart''), (''hard_reboot'', ''power_reset'')]),
      (''hyperv'', [(''start'', ''power_on''), (''stop'', ''power_off''),
                    (''shutdown'', ''shutdown''), (''restart'', ''power_reset'')]),
      (''workstation'', [(''start'', ''power_on''), (''stop'', ''power_off'')])]"

definition agent_verb :: "string \<Rightarrow> string \<Rightarrow> string option" where
  "agent_verb kind button =
     (case map_of PAGE_OPS (py_lower (py_strip kind)) of
        None \<Rightarrow> None
      | Some table \<Rightarrow> map_of table (py_lower (py_strip button)))"

section \<open>Tags and names\<close>

definition valid_tags :: "json \<Rightarrow> bool" where
  "valid_tags tags =
     (case tags of
        JList ts \<Rightarrow> length ts \<le> MAX_TAGS \<and> list_all (\<lambda>t. case t of JStr s \<Rightarrow> TAG_RE s | _ \<Rightarrow> False) ts
      | _ \<Rightarrow> False)"

definition snapshot_name :: "string \<Rightarrow> string" where
  "snapshot_name job_id =
     (let clean = take 32 (filter (one_of ''-'') job_id)
      in if clean \<noteq> [] then ''dash-'' @ clean else ''dash-unknown'')"

section \<open>The request\<close>

definition HYPERVISOR_DEFAULTS :: dict where
  "HYPERVISOR_DEFAULTS =
     [(''verb'', JStr ''inventory_sync''), (''connection_ref'', JStr []), (''connection_id'', JStr []),
      (''kind'', JStr ''vsphere''), (''target_id'', JStr []), (''target_scope'', JStr []),
      (''target_type'', JStr ''vm''), (''page_size'', JInt 250), (''cursor'', JStr []),
      (''timeout_s'', JInt 120), (''tags'', JList [])]"

definition constrained :: "(string \<Rightarrow> bool) \<Rightarrow> json \<Rightarrow> string" where
  "constrained pattern v =
     (let text = py_strip (str_not_none v) in if pattern text then text else [])"

definition clean_tags :: "json \<Rightarrow> string list" where
  "clean_tags v =
     (let raw_tags = (case v of JList xs \<Rightarrow> xs | _ \<Rightarrow> [])
      in take MAX_TAGS (filter TAG_RE (map (\<lambda>x. py_strip (py_str x)) raw_tags)))"

definition set_enum :: "string \<Rightarrow> string list \<Rightarrow> string \<Rightarrow> dict \<Rightarrow> dict" where
  "set_enum k valid dflt d = dict_set d k (JStr (enum_or valid dflt (dict_get d k)))"

definition set_id :: "string \<Rightarrow> (string \<Rightarrow> bool) \<Rightarrow> dict \<Rightarrow> dict" where
  "set_id k pattern d = dict_set d k (JStr (constrained pattern (dict_get d k)))"

definition hypervisor_normalize :: "dict \<Rightarrow> dict" where
  "hypervisor_normalize m =
     (let out = set_enum ''verb'' VALID_VERBS ''inventory_sync'' m;
          out = set_enum ''kind'' VALID_KINDS ''vsphere'' out;
          out = set_enum ''target_type'' VALID_TARGET_TYPES ''vm'' out;
          out = set_id ''connection_ref'' REF_RE out;
          out = set_id ''connection_id'' ID_RE out;
          out = set_id ''target_id'' ID_RE out;
          out = set_id ''target_scope'' ID_RE out;
          out = set_id ''cursor'' CURSOR_RE out;
          out = dict_set out ''page_size'' (JInt (clamp (dict_get out ''page_size'') 250 1 (int MAX_PAGE_SIZE)));
          out = dict_set out ''timeout_s'' (JInt (clamp (dict_get out ''timeout_s'') 120 1 MAX_VERB_TIMEOUT_S));
          out = dict_set out ''tags'' (JList (map JStr (clean_tags (dict_get out ''tags''))))
      in out)"

definition hypervisor_meta :: "dict \<Rightarrow> string \<Rightarrow> dict" where
  "hypervisor_meta payload description =
     hypervisor_normalize
       (read_payload HYPERVISOR_META_KEYS HYPERVISOR_DEFAULTS payload
          [(''description'', JStr description)])"

definition hypervisor_kwargs :: "dict \<Rightarrow> dict" where
  "hypervisor_kwargs m = kwargs_of HYPERVISOR_META_KEYS HYPERVISOR_DEFAULTS m"

subsection \<open>Its shape\<close>

definition id_text :: "nat \<Rightarrow> string \<Rightarrow> json option \<Rightarrow> bool" where
  "id_text n extra =
     is_text (\<lambda>s. py_strip s = s \<and> length s \<le> n \<and> list_all (one_of extra) s)"

definition is_tag_list :: "json option \<Rightarrow> bool" where
  "is_tag_list v =
     (case v of
        Some (JList xs) \<Rightarrow> length xs \<le> 32
          \<and> list_all (\<lambda>x. is_text (\<lambda>s. py_strip s = s \<and> tag_word s) (Some x)) xs
      | _ \<Rightarrow> False)"

definition hypervisor_shape :: "dict \<Rightarrow> bool" where
  "hypervisor_shape d \<longleftrightarrow>
     is_word VALID_VERBS (map_of d ''verb'') \<and> is_word VALID_KINDS (map_of d ''kind'')
     \<and> is_word VALID_TARGET_TYPES (map_of d ''target_type'')
     \<and> id_text 64 ''_.-'' (map_of d ''connection_ref'')
     \<and> id_text 128 '':_.-'' (map_of d ''connection_id'')
     \<and> id_text 128 '':_.-'' (map_of d ''target_id'')
     \<and> id_text 128 '':_.-'' (map_of d ''target_scope'')
     \<and> id_text 128 '':_.=+/-'' (map_of d ''cursor'')
     \<and> in_range 1 1000 (map_of d ''page_size'') \<and> in_range 1 600 (map_of d ''timeout_s'')
     \<and> is_tag_list (map_of d ''tags'')"

lemma hypervisor_words:
  "plain_words VALID_VERBS" "plain_words VALID_KINDS" "plain_words VALID_TARGET_TYPES"
  "''inventory_sync'' \<in> set VALID_VERBS" "''vsphere'' \<in> set VALID_KINDS" "''vm'' \<in> set VALID_TARGET_TYPES"
  by code_simp+

lemma constrained_id_text:
  "id_text n extra (Some (JStr (constrained
     (line_match (\<lambda>s. length s \<le> n \<and> list_all (one_of extra) s)) v)))"
  by (simp add: id_text_def constrained_def line_match_stripped Let_def)

lemma keep_id:
  assumes "id_text n extra (map_of d k)"
    and "pat = line_match (\<lambda>s. length s \<le> n \<and> list_all (one_of extra) s)"
  shows "set_id k pat d = d"
  using assms unfolding set_id_def id_text_def
  by (intro keep_text [where p = "\<lambda>s. py_strip s = s \<and> length s \<le> n \<and> list_all (one_of extra) s"])
     (auto simp: constrained_def str_not_none_def line_match_def)

lemma keep_enum:
  "is_word valid (map_of d k) \<Longrightarrow> plain_words valid \<Longrightarrow> set_enum k valid dflt d = d"
  unfolding set_enum_def by (rule keep_word)

lemma clean_tags_ok: "is_tag_list (Some (JList (map JStr (clean_tags v))))"
proof -
  have "\<And>s. s \<in> set (clean_tags v) \<Longrightarrow> py_strip s = s \<and> TAG_RE s"
    by (auto simp: clean_tags_def Let_def dest!: in_set_takeD)
  then have "\<And>s. s \<in> set (clean_tags v) \<Longrightarrow> py_strip s = s \<and> tag_word s"
    unfolding TAG_RE_def using line_match_stripped by blast
  moreover have "length (clean_tags v) \<le> 32"
    by (simp add: clean_tags_def MAX_TAGS_def)
  ultimately show ?thesis by (simp add: is_tag_list_def list_all_iff)
qed

lemma keep_tags:
  assumes "is_tag_list (map_of d k)"
  shows "dict_set d k (JList (map JStr (clean_tags (dict_get d k)))) = d"
proof -
  obtain xs where xs: "map_of d k = Some (JList xs)" "length xs \<le> 32"
    and ok: "list_all (\<lambda>x. is_text (\<lambda>s. py_strip s = s \<and> tag_word s) (Some x)) xs"
    using assms by (auto simp: is_tag_list_def split: option.splits json.splits)
  from ok have *: "map JStr (filter TAG_RE (map (\<lambda>x. py_strip (py_str x)) xs)) = xs"
    by (induction xs) (auto simp: TAG_RE_def line_match_def elim!: is_textE)
  then have "length (filter TAG_RE (map (\<lambda>x. py_strip (py_str x)) xs)) \<le> 32"
    using xs(2) by (metis length_map)
  with * have "map JStr (clean_tags (JList xs)) = xs"
    by (simp add: clean_tags_def MAX_TAGS_def)
  with xs(1) show ?thesis by (simp add: dict_get_map_of dict_set_same)
qed

lemma constrained_ids:
  "id_text 64 ''_.-'' (Some (JStr (constrained REF_RE v)))"
  "id_text 128 '':_.-'' (Some (JStr (constrained ID_RE v)))"
  "id_text 128 '':_.=+/-'' (Some (JStr (constrained CURSOR_RE v)))"
  unfolding REF_RE_def ID_RE_def CURSOR_RE_def by (rule constrained_id_text)+

lemma map_of_set_enum: "map_of (set_enum k valid dflt d) = (map_of d)(k \<mapsto> JStr (enum_or valid dflt (dict_get d k)))"
  by (simp add: set_enum_def map_of_dict_set)

lemma map_of_set_id: "map_of (set_id k pat d) = (map_of d)(k \<mapsto> JStr (constrained pat (dict_get d k)))"
  by (simp add: set_id_def map_of_dict_set)

lemma hypervisor_norm_shape: "hypervisor_shape (hypervisor_normalize m)"
proof -
  note one = map_of_dict_set map_of_set_enum map_of_set_id
  show ?thesis
    unfolding hypervisor_shape_def hypervisor_normalize_def Let_def one
    by (intro conjI)
       (simp_all add: hypervisor_words constrained_ids clean_tags_ok MAX_PAGE_SIZE_def MAX_VERB_TIMEOUT_S_def
          del: fun_upd_apply add: fun_upd_same fun_upd_other)
qed

lemma hypervisor_shape_norm:
  assumes "hypervisor_shape d"
  shows "hypervisor_normalize d = d"
proof -
  have ids: "set_id ''connection_ref'' REF_RE d = d" "set_id ''connection_id'' ID_RE d = d"
    "set_id ''target_id'' ID_RE d = d" "set_id ''target_scope'' ID_RE d = d"
    "set_id ''cursor'' CURSOR_RE d = d"
    using assms
    by (auto simp: hypervisor_shape_def intro!: keep_id REF_RE_def ID_RE_def CURSOR_RE_def)
  have enums: "set_enum ''verb'' VALID_VERBS ''inventory_sync'' d = d"
    "set_enum ''kind'' VALID_KINDS ''vsphere'' d = d"
    "set_enum ''target_type'' VALID_TARGET_TYPES ''vm'' d = d"
    using assms by (auto simp: hypervisor_shape_def intro!: keep_enum hypervisor_words)
  show ?thesis
    using assms unfolding hypervisor_shape_def hypervisor_normalize_def Let_def ids enums
    by (simp add: ids enums keep_clamped keep_tags MAX_PAGE_SIZE_def MAX_VERB_TIMEOUT_S_def)
qed

interpretation hypervisor: closed_shape hypervisor_normalize hypervisor_shape
  by unfold_locales (fact hypervisor_norm_shape hypervisor_shape_norm)+

subsection \<open>A button is the verb it promises\<close>

lemma page_op_verbs:
  assumes "agent_verb kind button = Some v"
  shows "v \<in> set WRITE_VERBS" "v \<notin> {''snapshot'', ''set_tags''}"
proof -
  have *: "list_all (\<lambda>(k, t). list_all (\<lambda>(b, v). v \<in> set WRITE_VERBS \<and> v \<notin> {''snapshot'', ''set_tags''}) t) PAGE_OPS"
    by (simp add: PAGE_OPS_def WRITE_VERBS_def)
  obtain t where "(py_lower (py_strip kind), t) \<in> set PAGE_OPS"
      "(py_lower (py_strip button), v) \<in> set t"
    using assms by (auto simp: agent_verb_def dest: map_of_SomeD split: option.splits)
  with * show "v \<in> set WRITE_VERBS" "v \<notin> {''snapshot'', ''set_tags''}"
    by (fastforce simp: list_all_iff)+
qed

lemma verb_of_normalize:
  "str_at (hypervisor_normalize m) ''verb'' = enum_or VALID_VERBS ''inventory_sync'' (dict_get m ''verb'')"
proof -
  note one = map_of_dict_set map_of_set_enum map_of_set_id
  have "map_of (hypervisor_normalize m) ''verb'' =
      Some (JStr (enum_or VALID_VERBS ''inventory_sync'' (dict_get m ''verb'')))"
    unfolding hypervisor_normalize_def Let_def one
    by (simp del: fun_upd_apply add: fun_upd_same fun_upd_other)
  then show ?thesis by (simp add: str_at_def dict_get_map_of)
qed

text \<open>
  A button that has a verb is that write verb all the way: it is a power verb, and normalising the
  job's metadata at either end does not turn it into anything else. What is no verb at all, such as a
  suspend, becomes the harmless read of the inventory.
\<close>

theorem page_op_keeps_its_verb:
  assumes "agent_verb kind button = Some v" and "dict_get m ''verb'' = JStr v"
  shows "v \<in> set WRITE_VERBS \<and> v \<notin> set READ_VERBS
     \<and> str_at (hypervisor_normalize m) ''verb'' = v
     \<and> str_at (hypervisor_normalize (hypervisor_normalize m)) ''verb'' = v"
proof -
  have v: "v \<in> set WRITE_VERBS" using page_op_verbs(1) [OF assms(1)] .
  then have mem: "v \<in> set VALID_VERBS" by (simp add: VALID_VERBS_def)
  have "''inventory_sync'' \<notin> set WRITE_VERBS" by (simp add: WRITE_VERBS_def)
  with v have "v \<notin> set READ_VERBS" by (auto simp: READ_VERBS_def)
  moreover have "str_at (hypervisor_normalize m) ''verb'' = v"
    by (simp add: verb_of_normalize assms(2) enum_or_word [OF hypervisor_words(1) mem])
  ultimately show ?thesis
    using v by (simp add: hypervisor.norm_idem)
qed

theorem page_op_keeps_its_verb_witness:
  "str_at (hypervisor_normalize [(''verb'', JStr ''shutdown''), (''kind'', JStr ''vsphere'')]) ''verb'' = ''shutdown''"
proof -
  have "agent_verb ''vsphere'' ''shutdown'' = Some ''shutdown''" by code_simp
  from page_op_keeps_its_verb [OF this, of "[(''verb'', JStr ''shutdown''), (''kind'', JStr ''vsphere'')]"]
  show ?thesis by simp
qed

text \<open>The gate on tags lets one newline at the end of a tag through.\<close>

theorem newline_tag_passes_gate:
  "valid_tags (JList [JStr (''prod'' @ [CHR 0x0A])]) \<and> \<not> tag_word (''prod'' @ [CHR 0x0A])"
  by (simp add: valid_tags_def TAG_RE_def line_match_def tag_word_def one_of_def alnum_def MAX_TAGS_def)

section \<open>A page of inventory\<close>

definition VM_KEYS :: "string list" where
  "VM_KEYS =
     [''vm_id'', ''name'', ''power_state'', ''vcpus'', ''mem_mib'', ''ip_addresses'', ''scope'',
      ''vm_type'', ''tags'', ''guest_os'']"

text \<open>
  \<open>(value or [])[:n]\<close>: a list or a text has a prefix (of a text, its characters); a number, \<open>True\<close>
  or a dictionary raises.
\<close>

definition slice_items :: "json \<Rightarrow> nat \<Rightarrow> json list option" where
  "slice_items v n =
     (if \<not> truthy v then Some []
      else case v of
             JList xs \<Rightarrow> Some (take n xs)
           | JStr s \<Rightarrow> Some (map JStr (take n (utf8_chars s)))
           | _ \<Rightarrow> None)"

definition clean_items :: "json \<Rightarrow> nat \<Rightarrow> json option" where
  "clean_items v n =
     map_option (\<lambda>xs. JList (map JStr (filter (\<lambda>s. s \<noteq> []) (map (clean_text MAX_VM_TEXT) xs))))
       (slice_items v n)"

text \<open>One field of a VM: the outer option is the exception, the inner one an omitted field.\<close>

definition clean_vm_field :: "dict \<Rightarrow> string \<Rightarrow> (string \<times> json) option option" where
  "clean_vm_field vm key =
     (case map_of vm key of
        None \<Rightarrow> Some None
      | Some v \<Rightarrow>
          if key = ''vcpus'' \<or> key = ''mem_mib'' then Some (Some (key, JInt (non_negative v)))
          else if key = ''ip_addresses'' then map_option (\<lambda>x. Some (key, x)) (clean_items v MAX_IPS)
          else if key = ''tags'' then map_option (\<lambda>x. Some (key, x)) (clean_items v MAX_TAGS)
          else (let text = clean_text (if key = ''scope'' then MAX_VM_PATH else MAX_VM_TEXT) v
                in Some (if text \<noteq> [] then Some (key, JStr text) else None)))"

text \<open>The results of a list of steps that may raise: the first exception ends it.\<close>

fun all_some :: "'a option list \<Rightarrow> 'a list option" where
  "all_some [] = Some []"
| "all_some (x # xs) = (case x of None \<Rightarrow> None | Some a \<Rightarrow> map_option (Cons a) (all_some xs))"

definition clean_vm :: "dict \<Rightarrow> dict option" where
  "clean_vm vm =
     map_option (List.map_filter id) (all_some (map (clean_vm_field vm) VM_KEYS))"

text \<open>The five fields of the projected page.\<close>

record page =
  pg_vms :: "dict list"
  pg_next_cursor :: string
  pg_complete :: bool
  pg_scanned :: int
  pg_enumerated :: bool

definition sync_page :: "dict \<Rightarrow> page option" where
  "sync_page result =
     (let raw = (case dict_get result ''vms'' of JList xs \<Rightarrow> xs | _ \<Rightarrow> []);
          dicts = List.map_filter (\<lambda>item. case item of JObj d \<Rightarrow> Some d | _ \<Rightarrow> None)
                    (take MAX_PAGE_SIZE raw)
      in map_option
           (\<lambda>vms. \<lparr> pg_vms = vms,
                    pg_next_cursor = constrained CURSOR_RE (dict_get result ''next_cursor''),
                    pg_complete = (case map_of result ''complete'' of None \<Rightarrow> True | Some v \<Rightarrow> truthy v),
                    pg_scanned = non_negative (dict_get result ''scanned''),
                    pg_enumerated = truthy (dict_get result ''enumerated'') \<rparr>)
           (all_some (map clean_vm dicts)))"

definition page_json :: "page \<Rightarrow> dict" where
  "page_json p =
     [(''vms'', JList (map JObj (pg_vms p))), (''next_cursor'', JStr (pg_next_cursor p)),
      (''complete'', JBool (pg_complete p)), (''scanned'', JInt (pg_scanned p)),
      (''enumerated'', JBool (pg_enumerated p))]"

lemma all_some_SomeD:
  "all_some xs = Some ys \<Longrightarrow> map Some ys = xs"
  by (induction xs arbitrary: ys) (auto split: option.splits)

lemma all_some_None: "all_some xs = None \<longleftrightarrow> None \<in> set xs"
  by (induction xs) (auto split: option.splits)

text \<open>When a page can be read at all: no list field of a VM holds a number, \<open>True\<close> or a dictionary.\<close>

definition sliceable :: "json \<Rightarrow> bool" where
  "sliceable v \<longleftrightarrow> \<not> truthy v \<or> (case v of JList _ \<Rightarrow> True | JStr _ \<Rightarrow> True | _ \<Rightarrow> False)"

lemma slice_items_None: "slice_items v n = None \<longleftrightarrow> \<not> sliceable v"
  by (auto simp: slice_items_def sliceable_def split: json.splits)

lemma clean_vm_field_None:
  "clean_vm_field vm key = None \<longleftrightarrow>
     key \<in> {''ip_addresses'', ''tags''} \<and> \<not> sliceable (dict_get vm key)"
  by (auto simp: clean_vm_field_def clean_items_def slice_items_None dict_get_def sliceable_def Let_def
      split: option.split)

lemma clean_vm_None:
  "clean_vm vm = None \<longleftrightarrow>
     \<not> sliceable (dict_get vm ''ip_addresses'') \<or> \<not> sliceable (dict_get vm ''tags'')"
proof -
  have "''ip_addresses'' \<in> set VM_KEYS" "''tags'' \<in> set VM_KEYS" by (simp_all add: VM_KEYS_def)
  then show ?thesis
    unfolding clean_vm_def map_option_is_None all_some_None
    by (auto simp: clean_vm_field_None image_iff eq_commute [of None])
qed

text \<open>What a cleaned VM row may hold.\<close>

definition vm_field_ok :: "string \<times> json \<Rightarrow> bool" where
  "vm_field_ok f =
     (case f of (k, v) \<Rightarrow>
        k \<in> set VM_KEYS
        \<and> (case v of
             JInt i \<Rightarrow> 0 \<le> i
           | JStr s \<Rightarrow> no_control s
               \<and> length (utf8_chars s) \<le> (if k = ''scope'' then MAX_VM_PATH else MAX_VM_TEXT)
           | JList xs \<Rightarrow> length xs \<le> MAX_TAGS
               \<and> list_all (is_text (\<lambda>s. s \<noteq> [] \<and> no_control s \<and> length (utf8_chars s) \<le> MAX_VM_TEXT)) (map Some xs)
           | _ \<Rightarrow> False))"

lemma clean_items_ok:
  assumes "clean_items v n = Some x" and "n \<le> MAX_TAGS"
  shows "\<exists>xs. x = JList xs \<and> length xs \<le> MAX_TAGS
     \<and> list_all (is_text (\<lambda>s. s \<noteq> [] \<and> no_control s \<and> length (utf8_chars s) \<le> MAX_VM_TEXT)) (map Some xs)"
proof -
  obtain ys where ys: "slice_items v n = Some ys"
    "x = JList (map JStr (filter (\<lambda>s. s \<noteq> []) (map (clean_text MAX_VM_TEXT) ys)))"
    using assms(1) by (auto simp: clean_items_def)
  have "length ys \<le> n"
    using ys(1) by (auto simp: slice_items_def split: json.splits if_splits)
  then have "length (filter (\<lambda>s. s \<noteq> []) (map (clean_text MAX_VM_TEXT) ys)) \<le> MAX_TAGS"
    using assms(2) by (metis le_trans length_filter_le length_map)
  then show ?thesis
    unfolding ys(2)
    by (intro exI [of _ "map JStr (filter (\<lambda>s. s \<noteq> []) (map (clean_text MAX_VM_TEXT) ys))"])
       (auto simp del: filter_map simp: list_all_iff clean_text_ok)
qed

lemma clean_vm_field_ok:
  assumes "clean_vm_field vm k = Some (Some f)" and "k \<in> set VM_KEYS"
  shows "vm_field_ok f"
proof -
  obtain v where v: "map_of vm k = Some v"
    using assms(1) by (cases "map_of vm k") (auto simp: clean_vm_field_def)
  consider (num) "k = ''vcpus'' \<or> k = ''mem_mib''"
    | (items) "k = ''ip_addresses'' \<or> k = ''tags''"
    | (other) "k \<notin> {''vcpus'', ''mem_mib'', ''ip_addresses'', ''tags''}" by blast
  then show ?thesis
  proof cases
    case num
    then show ?thesis using assms v
      by (auto simp: clean_vm_field_def vm_field_ok_def non_negative_def split: option.split)
  next
    case items
    then obtain x n where "f = (k, x)" "clean_items v n = Some x" "n \<le> MAX_TAGS"
      using assms v by (auto simp: clean_vm_field_def MAX_IPS_def MAX_TAGS_def)
    with clean_items_ok [of v n x] assms(2) show ?thesis
      by (auto simp: vm_field_ok_def)
  next
    case other
    then show ?thesis using assms v
      by (auto simp: clean_vm_field_def vm_field_ok_def clean_text_ok Let_def split: if_splits)
  qed
qed

lemma clean_vm_ok: "clean_vm vm = Some d \<Longrightarrow> list_all vm_field_ok d"
proof -
  assume "clean_vm vm = Some d"
  then obtain fs where fs: "all_some (map (clean_vm_field vm) VM_KEYS) = Some fs"
      "d = List.map_filter id fs"
    by (auto simp: clean_vm_def)
  have "\<And>f. Some f \<in> set fs \<Longrightarrow> vm_field_ok f"
  proof -
    fix f assume "Some f \<in> set fs"
    then have "Some (Some f) \<in> set (map Some fs)" by simp
    then have "Some (Some f) \<in> set (map (clean_vm_field vm) VM_KEYS)"
      using all_some_SomeD [OF fs(1)] by simp
    then show "vm_field_ok f" by (auto intro: clean_vm_field_ok)
  qed
  then show ?thesis by (auto simp: fs(2) list_all_iff map_filter_def)
qed

text \<open>
  The projection of a page raises exactly when one of the first thousand VMs in it has a number, a
  true flag or an object where its addresses or tags belong; otherwise every row has allowlisted
  fields only, without control characters and within their lengths, and the cursor is one the agent
  may be sent back.
\<close>

theorem sync_page_closed:
  "case sync_page result of
     None \<Rightarrow> (\<exists>xs vm. dict_get result ''vms'' = JList xs \<and> JObj vm \<in> set (take 1000 xs)
               \<and> \<not> (sliceable (dict_get vm ''ip_addresses'') \<and> sliceable (dict_get vm ''tags'')))
   | Some p \<Rightarrow> list_all (list_all vm_field_ok) (pg_vms p) \<and> length (pg_vms p) \<le> 1000
               \<and> id_text 128 '':_.=+/-'' (Some (JStr (pg_next_cursor p))) \<and> 0 \<le> pg_scanned p"
proof -
  define raw where "raw = (case dict_get result ''vms'' of JList xs \<Rightarrow> xs | _ \<Rightarrow> [])"
  define dicts where "dicts = List.map_filter (\<lambda>item. case item of JObj d \<Rightarrow> Some d | _ \<Rightarrow> None) (take MAX_PAGE_SIZE raw)"
  have mem: "\<And>d. d \<in> set dicts \<Longrightarrow> JObj d \<in> set (take 1000 raw)"
    by (auto simp: dicts_def map_filter_def MAX_PAGE_SIZE_def split: json.splits)
  have len: "length dicts \<le> 1000"
  proof -
    have "length dicts \<le> length (take MAX_PAGE_SIZE raw)"
      unfolding dicts_def map_filter_def length_map by (rule length_filter_le)
    then show ?thesis by (simp add: MAX_PAGE_SIZE_def)
  qed
  show ?thesis
  proof (cases "all_some (map clean_vm dicts)")
    case None
    then obtain vm where vm: "vm \<in> set dicts" "clean_vm vm = None"
      unfolding all_some_None by (auto simp: image_iff)
    then have "raw \<noteq> []" using mem by force
    then obtain xs where "dict_get result ''vms'' = JList xs" "raw = xs"
      by (auto simp: raw_def split: json.splits)
    moreover have "sync_page result = None"
      using None by (simp add: sync_page_def raw_def [symmetric] dicts_def [symmetric] Let_def)
    ultimately show ?thesis
      using vm mem by (auto simp: clean_vm_None)
  next
    case (Some vms)
    have "map Some vms = map clean_vm dicts" using all_some_SomeD [OF Some] .
    then have "\<And>d. d \<in> set vms \<Longrightarrow> \<exists>vm. clean_vm vm = Some d"
      by (metis (no_types, lifting) imageE image_eqI list.set_map)
    then have "list_all (list_all vm_field_ok) vms"
      unfolding list_all_iff [of "list_all vm_field_ok"] using clean_vm_ok by blast
    moreover have "length vms \<le> 1000"
      using len arg_cong [OF \<open>map Some vms = map clean_vm dicts\<close>, of length] by simp
    ultimately show ?thesis
      using Some constrained_ids(3)
      by (simp add: sync_page_def raw_def [symmetric] dicts_def [symmetric] Let_def non_negative_def
          split: option.split)
  qed
qed

end
