(* ===== verification/Storage_Meta.thy ===== *)
theory Storage_Meta
  imports Agent_Meta
begin

text \<open>
  File operations of an agent on a named share (\<open>services/agent_storage_meta.py\<close>): the one job
  whose envelope carries names an operator typed. The shape of those names, what \<open>normalize\<close> keeps
  of a request, the refusals of \<open>check\<close>, and where the path they form can lead.
\<close>

section \<open>Names\<close>

definition STORAGE_META_KEYS :: "string list" where
  "STORAGE_META_KEYS = [''op'', ''share'', ''subpath'', ''name'', ''content_b64'']"

definition VALID_OPS :: "string list" where
  "VALID_OPS = [''list'', ''fetch'', ''upload'', ''delete'']"

definition SHARE_RE :: "string \<Rightarrow> bool" where
  "SHARE_RE = line_match (\<lambda>s. s \<noteq> [] \<and> length s \<le> 128 \<and> list_all (one_of ''_-'') s)"

definition name_word :: "nat \<Rightarrow> string \<Rightarrow> bool" where
  "name_word n s \<longleftrightarrow>
     (case s of [] \<Rightarrow> False
      | c # cs \<Rightarrow> alnum c \<and> length cs \<le> n \<and> list_all (one_of ''._-'') cs)"

definition NAME_RE :: "string \<Rightarrow> bool" where
  "NAME_RE = line_match (name_word 254)"

definition SUBPATH_RE :: "string \<Rightarrow> bool" where
  "SUBPATH_RE = line_match (\<lambda>s. list_all (name_word 127) (split_on (CHR ''/'') s))"

text \<open>\<open>str(v or "").strip().replace("\\", "/").rstrip("/")\<close>.\<close>

definition clean_subpath :: "json \<Rightarrow> string" where
  "clean_subpath v =
     rev (dropWhile (\<lambda>c. c = CHR ''/'')
       (rev (map (\<lambda>c. if c = CHR 0x5C then CHR ''/'' else c) (text_of v))))"

section \<open>The request\<close>

definition storage_op :: "dict \<Rightarrow> string" where
  "storage_op m = py_lower (text_of (dict_get m ''op''))"

definition storage_normalize :: "dict \<Rightarrow> dict" where
  "storage_normalize m =
     (let op = storage_op m;
          share = text_of (dict_get m ''share'');
          subpath = clean_subpath (dict_get m ''subpath'');
          name = text_of (dict_get m ''name'')
      in [(''op'', JStr (if op \<in> set VALID_OPS then op else ''list'')),
          (''share'', JStr (if SHARE_RE share then share else [])),
          (''subpath'', JStr (if subpath \<noteq> [] \<and> SUBPATH_RE subpath then subpath else [])),
          (''name'', JStr (if NAME_RE name then name else [])),
          (''content_b64'', case dict_get m ''content_b64'' of JStr s \<Rightarrow> JStr s | _ \<Rightarrow> JStr [])])"

definition storage_meta :: "string \<Rightarrow> string \<Rightarrow> string \<Rightarrow> string \<Rightarrow> string \<Rightarrow> dict" where
  "storage_meta op share subpath name content_b64 =
     storage_normalize
       [(''op'', JStr op), (''share'', JStr share), (''subpath'', JStr subpath),
        (''name'', JStr name), (''content_b64'', JStr content_b64)]"

definition storage_envelope_payload :: "dict \<Rightarrow> dict" where
  "storage_envelope_payload m = project STORAGE_META_KEYS (storage_normalize m)"

definition is_str :: "json \<Rightarrow> bool" where
  "is_str v = (case v of JStr _ \<Rightarrow> True | _ \<Rightarrow> False)"

definition em_dash :: string where
  "em_dash = [CHR 0xE2, CHR 0x80, CHR 0x94]"

definition storage_check :: "dict \<Rightarrow> string" where
  "storage_check m =
     (let op = storage_op m;
          share = text_of (dict_get m ''share'');
          subpath = clean_subpath (dict_get m ''subpath'');
          name = text_of (dict_get m ''name'')
      in if op \<notin> set VALID_OPS then
           py_repr_str op @ '' is not a storage operation this build knows (known: '' @ commas VALID_OPS @ '')''
         else if share = [] then
           ''No share name. Set one on /storage '' @ em_dash
             @ '' it must match a `name:` in the agent'' @ [CHR 0x27] @ ''s shares.yaml.''
         else if \<not> SHARE_RE share then
           ''Share name '' @ py_repr_str share @ '' is not a valid identifier '' @ em_dash
             @ '' letters, digits, underscore and hyphen only.''
         else if subpath \<noteq> [] \<and> \<not> SUBPATH_RE subpath then
           ''Subpath '' @ py_repr_str subpath @ '' is not a relative directory inside the share. No absolute paths, no drive letters, and no segment may start with a dot.''
         else if op = ''list'' then []
         else if name = [] then ''A '' @ op @ '' needs a file name.''
         else if \<not> NAME_RE name then
           py_repr_str name @ '' is not a plain file name. A storage job names a file inside the share, never a path ''
             @ em_dash @ '' no '' @ py_repr_str ''/'' @ '', no '' @ [CHR 0x27, CHR 0x5C, CHR 0x5C, CHR 0x27]
             @ '', and no leading dot.''
         else if op = ''upload'' \<and> \<not> is_str (dict_get m ''content_b64'') then
           ''An upload needs base64 content.''
         else [])"

lemma py_repr_str_not_Nil [simp]: "py_repr_str s \<noteq> []"
  by (simp add: py_repr_str_def Let_def)

lemma VALID_OPS_plain: "plain_words VALID_OPS"
  by code_simp

section \<open>Where the path leads\<close>

text \<open>
  The file a job aims at is the share's root followed by the parts of the subpath and the name. A
  path is followed part by part: an empty part and \<open>.\<close> stay, \<open>..\<close> goes up, anything else goes down.
\<close>

fun follow :: "string list \<Rightarrow> string list \<Rightarrow> string list" where
  "follow here [] = here"
| "follow here (p # ps) =
     (if p = [] \<or> p = ''.'' then follow here ps
      else if p = ''..'' then follow (butlast here) ps
      else follow (here @ [p]) ps)"

definition storage_path :: "dict \<Rightarrow> string list" where
  "storage_path d = split_on (CHR ''/'') (str_at d ''subpath'') @ split_on (CHR ''/'') (str_at d ''name'')"

text \<open>A part that can only go down: no separator of either kind, and no dot in front.\<close>

definition plain_part :: "string \<Rightarrow> bool" where
  "plain_part p \<longleftrightarrow>
     CHR ''/'' \<notin> set p \<and> CHR 0x5C \<notin> set p \<and> (case p of [] \<Rightarrow> True | c # _ \<Rightarrow> alnum c)"

lemma follow_plain:
  "list_all plain_part ps \<Longrightarrow> follow here ps = here @ filter (\<lambda>p. p \<noteq> []) ps"
proof (induction here ps rule: follow.induct)
  case (2 here p ps)
  from "2.prems" have "p \<noteq> ''.''" "p \<noteq> ''..''"
    by (auto simp: plain_part_def alnum_def)
  with 2 show ?case by auto
qed simp

lemma one_of_not_slash:
  "one_of ''._-'' c \<Longrightarrow> c \<noteq> CHR ''/'' \<and> c \<noteq> CHR 0x5C"
  by (auto simp: one_of_def alnum_def)

lemma name_word_plain:
  assumes "name_word n s"
  shows "plain_part s" "plain_part (s @ [CHR 0x0A])"
proof -
  obtain c cs where s: "s = c # cs" "alnum c" "list_all (one_of ''._-'') cs"
    using assms by (auto simp: name_word_def split: list.splits)
  have "c \<noteq> CHR ''/'' \<and> c \<noteq> CHR 0x5C"
    using s(2) one_of_not_slash [of c] by (simp add: one_of_def)
  with s show "plain_part s" "plain_part (s @ [CHR 0x0A])"
    using one_of_not_slash by (auto simp: plain_part_def list_all_iff)
qed

lemma split_on_last:
  assumes "d \<noteq> c"
  shows "split_on c (s @ [d]) = butlast (split_on c s) @ [last (split_on c s) @ [d]]"
  using assms by (induction s) (auto split: list.splits)

lemma split_name: "plain_part s \<Longrightarrow> split_on (CHR ''/'') s = [s]"
  by (simp add: plain_part_def split_on_no_sep)

lemma subpath_parts:
  assumes "SUBPATH_RE s"
  shows "list_all plain_part (split_on (CHR ''/'') s)"
proof -
  from assms consider "list_all (name_word 127) (split_on (CHR ''/'') s)"
    | t where "s = t @ [CHR 0x0A]" "list_all (name_word 127) (split_on (CHR ''/'') t)"
    unfolding SUBPATH_RE_def line_match_def by (metis append_butlast_last_id)
  then show ?thesis
  proof cases
    case 1
    then show ?thesis using name_word_plain(1) by (auto simp: list_all_iff)
  next
    case 2
    have all: "\<And>p. p \<in> set (split_on (CHR ''/'') t) \<Longrightarrow> name_word 127 p"
      using 2(2) by (simp add: list_all_iff)
    have "plain_part (last (split_on (CHR ''/'') t) @ [CHR 0x0A])"
      by (rule name_word_plain(2)) (rule all, simp)
    moreover have "\<And>p. p \<in> set (butlast (split_on (CHR ''/'') t)) \<Longrightarrow> plain_part p"
      by (rule name_word_plain(1)) (rule all, erule in_set_butlastD)
    ultimately show ?thesis
      by (auto simp: 2(1) split_on_last list_all_iff)
  qed
qed

lemma name_plain: "NAME_RE s \<Longrightarrow> plain_part s"
  unfolding NAME_RE_def line_match_def
  by (metis append_butlast_last_id name_word_plain)

lemma plain_part_Nil: "plain_part []"
  by (simp add: plain_part_def)

lemma storage_parts: "list_all plain_part (storage_path (storage_normalize m))"
proof -
  have "list_all plain_part (split_on (CHR ''/'') (str_at (storage_normalize m) ''subpath''))"
    using subpath_parts by (simp add: storage_normalize_def str_at_def Let_def plain_part_Nil)
  moreover have "plain_part (str_at (storage_normalize m) ''name'')"
    using name_plain by (simp add: storage_normalize_def str_at_def Let_def plain_part_Nil)
  ultimately show ?thesis by (simp add: storage_path_def split_name)
qed

text \<open>
  C17. No storage job leaves its share: whatever a request or a stored row holds, the path formed from
  what crosses to the agent, followed part by part from any base, ends below that base, at exactly
  the parts it names; no part holds a separator of either kind or starts with a dot.
\<close>

theorem storage_stays_in_share:
  "let sent = storage_envelope_payload m
   in follow base (storage_path sent) = base @ filter (\<lambda>p. p \<noteq> []) (storage_path sent)
      \<and> list_all plain_part (storage_path sent)"
proof -
  have "str_at (storage_envelope_payload m) k = str_at (storage_normalize m) k"
    if "k \<in> set STORAGE_META_KEYS" for k
    using that by (simp add: storage_envelope_payload_def str_at_def dict_get_project)
  then have "storage_path (storage_envelope_payload m) = storage_path (storage_normalize m)"
    by (simp add: storage_path_def STORAGE_META_KEYS_def)
  then show ?thesis
    using storage_parts [of m] by (simp add: follow_plain)
qed

section \<open>What is kept of a request\<close>

lemma storage_fields:
  "str_at (storage_normalize m) ''op'' = (if storage_op m \<in> set VALID_OPS then storage_op m else ''list'')"
  "str_at (storage_normalize m) ''share'' =
     (if SHARE_RE (text_of (dict_get m ''share'')) then text_of (dict_get m ''share'') else [])"
  "str_at (storage_normalize m) ''subpath'' =
     (if clean_subpath (dict_get m ''subpath'') \<noteq> [] \<and> SUBPATH_RE (clean_subpath (dict_get m ''subpath''))
      then clean_subpath (dict_get m ''subpath'') else [])"
  "str_at (storage_normalize m) ''name'' =
     (if NAME_RE (text_of (dict_get m ''name'')) then text_of (dict_get m ''name'') else [])"
  by (simp_all add: storage_normalize_def str_at_def Let_def)

text \<open>
  What \<open>check\<close> admits, \<open>normalize\<close> keeps: it says yes exactly when the operation is known, the
  share has a name, every name is carried over as given instead of falling back, a file operation
  names a file and an upload brings content.
\<close>

theorem storage_check_exact:
  "storage_check m = [] \<longleftrightarrow>
     (let op = storage_op m; sent = storage_normalize m
      in op \<in> set VALID_OPS \<and> str_at sent ''op'' = op
         \<and> str_at sent ''share'' \<noteq> [] \<and> str_at sent ''share'' = text_of (dict_get m ''share'')
         \<and> str_at sent ''subpath'' = clean_subpath (dict_get m ''subpath'')
         \<and> (if op = ''list'' then True
             else str_at sent ''name'' \<noteq> [] \<and> str_at sent ''name'' = text_of (dict_get m ''name'')
                  \<and> (if op = ''upload'' then is_str (dict_get m ''content_b64'') else True)))"
proof -
  have [simp]: "\<not> NAME_RE []" "\<not> SHARE_RE []"
    by (simp_all add: NAME_RE_def SHARE_RE_def line_match_def name_word_def)
  show ?thesis
    unfolding Let_def storage_fields storage_check_def by auto
qed

text \<open>
  A subpath such as \<open>win\<close>, newline, slash loses its slash after it was stripped, and the pattern lets
  the newline at the end through. Exactly then the two ends disagree on the directory.
\<close>

lemma clean_subpath_JStr:
  "clean_subpath (JStr s) = rev (dropWhile (\<lambda>c. c = CHR ''/'')
     (rev (map (\<lambda>c. if c = CHR 0x5C then CHR ''/'' else c) (py_strip s))))"
  by (simp add: clean_subpath_def)

lemma alnum_not_space: "one_of ''._-'' c \<Longrightarrow> \<not> is_space c"
  by (auto simp: one_of_def alnum_def is_space_def Let_def)

lemma name_word_chars: "name_word n w \<Longrightarrow> w \<noteq> [] \<and> list_all (one_of ''._-'') w"
  by (auto simp: name_word_def one_of_def split: list.splits)

lemma join_chars:
  assumes "\<And>w. w \<in> set ws \<Longrightarrow> w \<noteq> [] \<and> list_all P w" and "ws \<noteq> []"
  shows "join_with d ws \<noteq> [] \<and> P (hd (join_with d ws)) \<and> P (last (join_with d ws))
     \<and> (\<forall>c \<in> set (join_with d ws). P c \<or> c = d)"
  using assms
proof (induction d ws rule: join_with.induct)
  case (2 d w)
  then show ?case by (auto simp: list_all_iff)
next
  case (3 d w v ws)
  then have "w \<noteq> []" "list_all P w" by auto
  with 3 show ?case by (auto simp: list_all_iff)
qed simp

lemma join_split: "join_with d (split_on d s) = s"
proof (induction s)
  case (Cons c s)
  obtain w ws where ws: "split_on d s = w # ws" by (cases "split_on d s") auto
  with Cons show ?case by (cases ws) auto
qed simp

lemma strict_subpath_kept:
  assumes "list_all (name_word 127) (split_on (CHR ''/'') s)"
  shows "s \<noteq> []" "clean_subpath (JStr s) = s" "py_strip s = s" "last s \<noteq> CHR 0x0A"
proof -
  have words: "w \<noteq> [] \<and> list_all (one_of ''._-'') w" if "w \<in> set (split_on (CHR ''/'') s)" for w
  proof (rule name_word_chars)
    show "name_word 127 w" using that assms by (simp add: list_all_iff)
  qed
  have ch: "s \<noteq> [] \<and> one_of ''._-'' (hd s) \<and> one_of ''._-'' (last s)
      \<and> (\<forall>c \<in> set s. one_of ''._-'' c \<or> c = CHR ''/'')"
    using join_chars [of "split_on (CHR ''/'') s" "one_of ''._-''" "CHR ''/''", OF words split_on_not_Nil]
    by (simp add: join_split)
  then show ne: "s \<noteq> []" by simp
  show st: "py_strip s = s" using ch by (intro py_strip_id) (auto dest: alnum_not_space)
  show "last s \<noteq> CHR 0x0A" using ch by (auto dest!: alnum_not_space simp: newline_is_space)
  have "map (\<lambda>c. if c = CHR 0x5C then CHR ''/'' else c) s = s"
    using ch one_of_not_slash by (intro map_idI) fastforce
  moreover have "dropWhile (\<lambda>c. c = CHR ''/'') (rev s) = rev s"
  proof (cases "rev s")
    case (Cons c cs)
    then have "c = last s" by (metis hd_rev list.sel(1))
    then have "c \<noteq> CHR ''/''" using ch one_of_not_slash [of c] by simp
    with Cons show ?thesis by simp
  qed simp
  ultimately show "clean_subpath (JStr s) = s" by (simp add: clean_subpath_JStr st)
qed

lemma newline_subpath_lost:
  assumes "list_all (name_word 127) (split_on (CHR ''/'') t)"
  shows "clean_subpath (JStr (t @ [CHR 0x0A])) = t"
proof -
  have "py_strip (t @ [CHR 0x0A]) = py_strip t"
  proof -
    have "\<not> is_space (hd t)" "t \<noteq> []"
      using strict_subpath_kept [OF assms] py_strip_ends [of t] by auto
    then have "dropWhile is_space (t @ [CHR 0x0A]) = t @ [CHR 0x0A]" "dropWhile is_space t = t"
      by (cases t; simp)+
    then show ?thesis by (simp add: py_strip_def newline_is_space)
  qed
  then have "clean_subpath (JStr (t @ [CHR 0x0A])) = clean_subpath (JStr t)"
    by (simp add: clean_subpath_JStr)
  then show ?thesis using strict_subpath_kept(2) [OF assms] by simp
qed

theorem storage_ends_agree_unless_newline:
  "storage_normalize (storage_normalize m) = storage_normalize m \<longleftrightarrow>
     (str_at (storage_normalize m) ''subpath'' = [] \<or> last (str_at (storage_normalize m) ''subpath'') \<noteq> CHR 0x0A)"
proof -
  let ?n = "storage_normalize m"
  define sp where "sp = str_at ?n ''subpath''"
  have get: "\<And>k. k \<in> {''op'', ''share'', ''subpath'', ''name''} \<Longrightarrow> dict_get ?n k = JStr (str_at ?n k)"
    by (auto simp: storage_normalize_def str_at_def Let_def)
  have op: "storage_op ?n = str_at ?n ''op''" "str_at ?n ''op'' \<in> set VALID_OPS"
  proof -
    show mem: "str_at ?n ''op'' \<in> set VALID_OPS"
      unfolding storage_fields by (simp add: VALID_OPS_def)
    then show "storage_op ?n = str_at ?n ''op''"
      using VALID_OPS_plain by (simp add: storage_op_def get plain_words_def)
  qed
  have strip: "py_strip (str_at ?n ''share'') = str_at ?n ''share''"
    "py_strip (str_at ?n ''name'') = str_at ?n ''name''"
    unfolding storage_fields by (simp_all add: text_of_def)
  have share: "SHARE_RE (str_at ?n ''share'') \<or> str_at ?n ''share'' = []"
    and name: "NAME_RE (str_at ?n ''name'') \<or> str_at ?n ''name'' = []"
    unfolding storage_fields by simp_all
  have content: "\<exists>s. dict_get ?n ''content_b64'' = JStr s"
    by (simp add: storage_normalize_def Let_def split: json.split)
  have nn: "storage_normalize ?n = ?n \<longleftrightarrow>
      (if clean_subpath (JStr sp) \<noteq> [] \<and> SUBPATH_RE (clean_subpath (JStr sp))
       then clean_subpath (JStr sp) else []) = sp"
  proof -
    obtain c where c: "dict_get ?n ''content_b64'' = JStr c" using content by blast
    have form: "?n = [(''op'', JStr (str_at ?n ''op'')), (''share'', JStr (str_at ?n ''share'')),
        (''subpath'', JStr sp), (''name'', JStr (str_at ?n ''name'')), (''content_b64'', JStr c)]"
      using c by (simp add: sp_def storage_normalize_def str_at_def Let_def)
    show ?thesis
      using op strip share name unfolding sp_def
      by (subst (2) form, subst storage_normalize_def)
         (auto simp: Let_def get c sp_def storage_op_def)
  qed
  consider "sp = []" | "sp \<noteq> []" "list_all (name_word 127) (split_on (CHR ''/'') sp)"
    | t where "sp = t @ [CHR 0x0A]" "list_all (name_word 127) (split_on (CHR ''/'') t)"
  proof (cases "sp = []")
    case False
    then have "SUBPATH_RE sp" unfolding sp_def storage_fields by (auto split: if_splits)
    then show thesis
      using that False unfolding SUBPATH_RE_def line_match_def by (metis append_butlast_last_id)
  qed
  then show ?thesis
    unfolding nn sp_def [symmetric]
  proof cases
    case 1
    then show "((if clean_subpath (JStr sp) \<noteq> [] \<and> SUBPATH_RE (clean_subpath (JStr sp))
       then clean_subpath (JStr sp) else []) = sp) = (sp = [] \<or> last sp \<noteq> CHR 0x0A)"
      by (simp add: clean_subpath_JStr)
  next
    case 2
    then show "((if clean_subpath (JStr sp) \<noteq> [] \<and> SUBPATH_RE (clean_subpath (JStr sp))
       then clean_subpath (JStr sp) else []) = sp) = (sp = [] \<or> last sp \<noteq> CHR 0x0A)"
      using strict_subpath_kept [OF 2(2)] by (simp add: SUBPATH_RE_def line_match_def)
  next
    case 3
    then show "((if clean_subpath (JStr sp) \<noteq> [] \<and> SUBPATH_RE (clean_subpath (JStr sp))
       then clean_subpath (JStr sp) else []) = sp) = (sp = [] \<or> last sp \<noteq> CHR 0x0A)"
      using newline_subpath_lost [OF 3(2)] by auto
  qed
qed

definition newline_request :: dict where
  "newline_request =
     [(''op'', JStr ''list''), (''share'', JStr ''iso''), (''subpath'', JStr (''win'' @ [CHR 0x0A, CHR ''/'']))]"

text \<open>The check admits such a request, and the directory changes between the row and the envelope.\<close>

theorem newline_subpath_changes:
  "storage_check newline_request = []
   \<and> str_at (storage_normalize newline_request) ''subpath'' = ''win'' @ [CHR 0x0A]
   \<and> str_at (storage_envelope_payload (storage_normalize newline_request)) ''subpath'' = ''win''"
  by code_simp

end
