(* ===== verification/Agent_Envelope.thy ===== *)
theory Agent_Envelope
  imports Agent_Service Discover_Meta Run_Meta Hypervisor_Meta Storage_Meta
begin

text \<open>
  What crosses to an agent in the signed job envelope. The small metadata modules
  (\<open>services/agent_gateway_meta.py\<close>, \<open>agent_ui_robot_meta.py\<close>, \<open>agent_k8s_meta.py\<close>, and
  \<open>envelope_payload\<close> of \<open>agent_lifecycle_service.py\<close>), and the dispatch on the job type in
  \<open>api/agent.py\<close> that gives every leasable type its own closed projection.
\<close>

section \<open>Gateways\<close>

definition GATEWAY_META_KEYS :: "string list" where
  "GATEWAY_META_KEYS = [''gateway_action'', ''timeout_s'']"

definition GATEWAY_ACTIONS :: "string list" where
  "GATEWAY_ACTIONS = [''install'', ''remove'']"

definition gateway_normalize :: "dict \<Rightarrow> dict" where
  "gateway_normalize m =
     (let action = py_lower (text_of (dict_get m ''gateway_action''))
      in [(''gateway_action'', JStr (if action \<in> set GATEWAY_ACTIONS then action else ''install'')),
          (''timeout_s'', JInt (clamp (dict_get m ''timeout_s'') 120 30 600))])"

text \<open>\<open>str(text or "")[:n]\<close>.\<close>

definition take_chars :: "nat \<Rightarrow> string \<Rightarrow> string" where
  "take_chars n s = concat (take n (utf8_chars s))"

definition gateway_meta :: "dict \<Rightarrow> string \<Rightarrow> dict" where
  "gateway_meta payload description =
     dict_set (gateway_normalize payload) ''description'' (JStr (take_chars 200 description))"

definition gateway_envelope_payload :: "dict \<Rightarrow> dict" where
  "gateway_envelope_payload m = project GATEWAY_META_KEYS (gateway_normalize m)"

definition gateway_check :: "dict \<Rightarrow> string" where
  "gateway_check m =
     (let action = py_lower (text_of (dict_get m ''gateway_action''))
      in if action \<noteq> [] \<and> action \<notin> set GATEWAY_ACTIONS
         then py_repr_str action @ '' is not a Gateway action this build knows (known: ''
                @ commas GATEWAY_ACTIONS @ '')''
         else [])"

section \<open>Browser robots\<close>

definition UI_ROBOT_META_KEYS :: "string list" where
  "UI_ROBOT_META_KEYS = [''task'', ''timeout_s'']"

definition UI_ROBOT_TASKS :: "string list" where
  "UI_ROBOT_TASKS = [''installer'', ''integration'']"

definition ui_robot_normalize :: "dict \<Rightarrow> dict" where
  "ui_robot_normalize m =
     (let task = py_lower (text_of (dict_get m ''task''));
          n = (case json_int (dict_get m ''timeout_s'') of None \<Rightarrow> 900 | Some n \<Rightarrow> n)
      in [(''task'', JStr (if task \<in> set UI_ROBOT_TASKS then task else ''installer'')),
          (''timeout_s'', JInt (max 60 (min 3600 n)))])"

definition ui_robot_meta :: "dict \<Rightarrow> string \<Rightarrow> dict" where
  "ui_robot_meta payload description =
     dict_set (ui_robot_normalize payload) ''description'' (JStr (take_chars 200 description))"

definition ui_robot_envelope_payload :: "dict \<Rightarrow> dict" where
  "ui_robot_envelope_payload m = project UI_ROBOT_META_KEYS (ui_robot_normalize m)"

definition ui_robot_check :: "dict \<Rightarrow> string" where
  "ui_robot_check m =
     (let task = py_lower (text_of (dict_get m ''task''))
      in if task \<noteq> [] \<and> task \<notin> set UI_ROBOT_TASKS
         then py_repr_str task @ '' is not a UI robot task this build knows (known: ''
                @ commas UI_ROBOT_TASKS @ '')''
         else [])"

section \<open>Kubernetes steps\<close>

definition STEP_KINDS :: "string list" where
  "STEP_KINDS = [''apply'', ''delete'', ''helm_upgrade'', ''helm_uninstall'']"

definition MAX_STEPS :: nat where "MAX_STEPS = 16"
definition MAX_DOC_BYTES :: nat where "MAX_DOC_BYTES = 256 * 1024"

definition K8S_ENVELOPE_KEYS :: "string list" where
  "K8S_ENVELOPE_KEYS = [''cluster_host'', ''cluster_port'', ''step_kinds'']"

definition is_step_kind :: "json \<Rightarrow> bool" where
  "is_step_kind v = (case v of JStr k \<Rightarrow> k \<in> set STEP_KINDS | _ \<Rightarrow> False)"

definition or_empty_text :: "json \<Rightarrow> string" where
  "or_empty_text v = (if truthy v then py_str v else [])"

text \<open>The refusal of one step: its kind, then the size of its documents.\<close>

definition check_step :: "nat \<Rightarrow> json \<Rightarrow> string" where
  "check_step index step =
     (case step of
        JObj d \<Rightarrow>
          if \<not> is_step_kind (dict_get d ''kind'')
          then ''Step '' @ py_str_int (int index) @ '' is not one of '' @ commas STEP_KINDS @ ''.''
          else if MAX_DOC_BYTES < length (or_empty_text (dict_get d ''manifest''))
          then ''Step '' @ py_str_int (int index) @ [CHR 0x27] @ ''s manifest is over ''
                 @ py_str_int (int MAX_DOC_BYTES) @ '' bytes.''
          else if MAX_DOC_BYTES < length (or_empty_text (dict_get d ''values''))
          then ''Step '' @ py_str_int (int index) @ [CHR 0x27] @ ''s values is over ''
                 @ py_str_int (int MAX_DOC_BYTES) @ '' bytes.''
          else []
      | _ \<Rightarrow> ''Step '' @ py_str_int (int index) @ '' is not one of '' @ commas STEP_KINDS @ ''.'')"

fun first_refusal :: "nat \<Rightarrow> json list \<Rightarrow> string" where
  "first_refusal index [] = []"
| "first_refusal index (s # ss) =
     (let r = check_step index s in if r \<noteq> [] then r else first_refusal (Suc index) ss)"

text \<open>\<open>check_steps\<close>: the steps, or the message of the \<open>K8sMetaError\<close>.\<close>

definition check_steps :: "json \<Rightarrow> string + json list" where
  "check_steps v =
     (case v of
        JList ss \<Rightarrow>
          if ss = [] then Inl ''No Kubernetes steps to run.''
          else if MAX_STEPS < length ss
          then Inl (''At most '' @ py_str_int (int MAX_STEPS) @ '' Kubernetes steps run in one job.'')
          else (let r = first_refusal 1 ss in if r \<noteq> [] then Inl r else Inr ss)
      | _ \<Rightarrow> Inl ''No Kubernetes steps to run.'')"

definition wipe_steps :: "dict \<Rightarrow> dict" where
  "wipe_steps m =
     (if dict_get m ''steps_enc'' \<noteq> JNull then filter (\<lambda>(k, _). k \<noteq> ''steps_enc'') m else m)"

text \<open>\<open>for k in (value or [])\<close>: a number or \<open>True\<close> is not iterable, an object gives its keys.\<close>

definition iterate :: "json \<Rightarrow> json list option" where
  "iterate v =
     (if \<not> truthy v then Some []
      else case v of
             JList xs \<Rightarrow> Some xs
           | JStr s \<Rightarrow> Some (map JStr (utf8_chars s))
           | JObj d \<Rightarrow> Some (map (\<lambda>(k, _). JStr k) d)
           | _ \<Rightarrow> None)"

definition k8s_envelope_payload :: "dict \<Rightarrow> dict option" where
  "k8s_envelope_payload m =
     (let v = dict_get m ''cluster_port'';
          port = (if truthy v then (case json_int v of Some p \<Rightarrow> p | None \<Rightarrow> 0) else 0)
      in map_option
           (\<lambda>kinds.
              [(''cluster_host'', JStr (or_empty_text (dict_get m ''cluster_host''))),
               (''cluster_port'', JInt port),
               (''step_kinds'', JList (map (\<lambda>k. JStr (py_str k)) (take MAX_STEPS (filter is_step_kind kinds))))])
           (iterate (dict_get m ''step_kinds'')))"

section \<open>Control jobs\<close>

definition control_envelope_payload :: "string \<Rightarrow> dict \<Rightarrow> dict option" where
  "control_envelope_payload job_type m =
     (if job_type = ''agent_upgrade''
      then Some [(''repository'', JStr (or_empty_text (dict_get m ''repository''))),
                 (''digest'', JStr (or_empty_text (dict_get m ''digest''))),
                 (''version'', JStr (or_empty_text (dict_get m ''version'')))]
      else if job_type = ''agent_restart'' then Some []
      else None)"

section \<open>The dispatch\<close>

text \<open>\<open>_envelope_payload\<close>: no result stands for the exception.\<close>

definition envelope_payload :: "string \<Rightarrow> dict \<Rightarrow> dict option" where
  "envelope_payload job_type m =
     (if job_type = ''agent_discover'' then Some (discover_kwargs m)
      else if job_type = ''agent_hypervisor'' then Some (hypervisor_kwargs m)
      else if job_type = ''agent_ansible'' then Some (run_envelope_payload m)
      else if job_type = ''agent_gateway'' then Some (gateway_envelope_payload m)
      else if job_type = ''agent_ui_robot'' then Some (ui_robot_envelope_payload m)
      else if job_type \<in> set CONTROL_JOB_TYPES then control_envelope_payload job_type m
      else if job_type = ''agent_k8s'' then k8s_envelope_payload m
      else if job_type = ''agent_storage'' then Some (storage_envelope_payload m)
      else None)"

text \<open>The allowlist of each type.\<close>

definition envelope_keys :: "string \<Rightarrow> string list" where
  "envelope_keys job_type =
     (if job_type = ''agent_discover'' then DISCOVER_META_KEYS
      else if job_type = ''agent_hypervisor'' then HYPERVISOR_META_KEYS
      else if job_type = ''agent_ansible'' then RUN_ENVELOPE_KEYS
      else if job_type = ''agent_gateway'' then GATEWAY_META_KEYS
      else if job_type = ''agent_ui_robot'' then UI_ROBOT_META_KEYS
      else if job_type = ''agent_upgrade'' then [''repository'', ''digest'', ''version'']
      else if job_type = ''agent_k8s'' then K8S_ENVELOPE_KEYS
      else if job_type = ''agent_storage'' then STORAGE_META_KEYS
      else [])"

definition only_keys :: "string list \<Rightarrow> dict \<Rightarrow> dict" where
  "only_keys keys m = filter (\<lambda>(k, _). k \<in> set keys) m"

lemma map_of_only_keys: "map_of (only_keys keys m) k = (if k \<in> set keys then map_of m k else None)"
  unfolding only_keys_def by (induction m) auto

lemma dict_get_only_keys: "k \<in> set keys \<Longrightarrow> dict_get (only_keys keys m) k = dict_get m k"
  by (simp add: dict_get_def map_of_only_keys)

text \<open>A projection and its allowlist: the keys it has, and that it reads no other.\<close>

definition reads_only :: "string list \<Rightarrow> (dict \<Rightarrow> dict) \<Rightarrow> bool" where
  "reads_only keys f \<longleftrightarrow> (\<forall>m. map fst (f m) = keys \<and> f (only_keys keys m) = f m)"

lemma kwargs_reads_only: "reads_only keys (\<lambda>m. kwargs_of keys defaults m)"
  by (simp add: reads_only_def kwargs_of_def map_of_only_keys comp_def)

lemma project_reads_only:
  assumes "\<And>m k. k \<in> set keys \<Longrightarrow> dict_get (nf (only_keys keys m)) k = dict_get (nf m) k"
  shows "reads_only keys (\<lambda>m. project keys (nf m))"
  using assms by (simp add: reads_only_def project_def comp_def)

lemma discover_reads_only: "reads_only DISCOVER_META_KEYS discover_kwargs"
  using kwargs_reads_only [of DISCOVER_META_KEYS DISCOVER_DEFAULTS]
  by (simp add: discover_kwargs_def [abs_def])

lemma hypervisor_reads_only: "reads_only HYPERVISOR_META_KEYS hypervisor_kwargs"
  using kwargs_reads_only [of HYPERVISOR_META_KEYS HYPERVISOR_DEFAULTS]
  by (simp add: hypervisor_kwargs_def [abs_def])

lemma run_reads_only: "reads_only RUN_ENVELOPE_KEYS run_envelope_payload"
  unfolding run_envelope_payload_def [abs_def]
proof (rule project_reads_only)
  fix m k
  assume "k \<in> set RUN_ENVELOPE_KEYS"
  then consider "k = ''run_kind''" | "k = ''transport''" | "k = ''target_host''" | "k = ''target_port''"
    by (auto simp: RUN_ENVELOPE_KEYS_def)
  then show "dict_get (run_normalize (only_keys RUN_ENVELOPE_KEYS m)) k = dict_get (run_normalize m) k"
    by cases (simp_all add: dict_get_def [of "run_normalize _"] run_normalize_target
        dict_get_only_keys RUN_ENVELOPE_KEYS_def)
qed

lemma gateway_reads_only: "reads_only GATEWAY_META_KEYS gateway_envelope_payload"
  unfolding gateway_envelope_payload_def [abs_def]
  by (rule project_reads_only) (simp add: gateway_normalize_def dict_get_only_keys GATEWAY_META_KEYS_def)

lemma ui_robot_reads_only: "reads_only UI_ROBOT_META_KEYS ui_robot_envelope_payload"
  unfolding ui_robot_envelope_payload_def [abs_def]
  by (rule project_reads_only) (simp add: ui_robot_normalize_def dict_get_only_keys UI_ROBOT_META_KEYS_def)

lemma storage_reads_only: "reads_only STORAGE_META_KEYS storage_envelope_payload"
  unfolding storage_envelope_payload_def [abs_def]
  by (rule project_reads_only)
     (simp add: storage_normalize_def storage_op_def dict_get_only_keys STORAGE_META_KEYS_def)

lemma control_reads_only:
  "reads_only (envelope_keys ''agent_upgrade'') (\<lambda>m. the (control_envelope_payload ''agent_upgrade'' m))"
  "reads_only (envelope_keys ''agent_restart'') (\<lambda>m. the (control_envelope_payload ''agent_restart'' m))"
  by (simp_all add: reads_only_def control_envelope_payload_def envelope_keys_def dict_get_only_keys)

lemma k8s_reads_only:
  "k8s_envelope_payload (only_keys K8S_ENVELOPE_KEYS m) = k8s_envelope_payload m"
  "k8s_envelope_payload m = Some p \<Longrightarrow> map fst p = K8S_ENVELOPE_KEYS"
  by (auto simp: k8s_envelope_payload_def dict_get_only_keys K8S_ENVELOPE_KEYS_def Let_def)

lemma leasable_cases:
  assumes "t \<in> set (leasable_types k8s_ok want a)"
  shows "t \<in> set (AGENT_JOB_TYPES @ CONTROL_JOB_TYPES)"
  using assms
  by (auto simp: leasable_types_def allowed_job_types_def Let_def split: option.splits if_splits)

section \<open>The two ends agree\<close>

definition gateway_shape :: "dict \<Rightarrow> bool" where
  "gateway_shape d \<longleftrightarrow>
     (\<exists>a t. d = [(''gateway_action'', JStr a), (''timeout_s'', JInt t)]
        \<and> a \<in> set GATEWAY_ACTIONS \<and> 30 \<le> t \<and> t \<le> 600)"

definition ui_robot_shape :: "dict \<Rightarrow> bool" where
  "ui_robot_shape d \<longleftrightarrow>
     (\<exists>a t. d = [(''task'', JStr a), (''timeout_s'', JInt t)]
        \<and> a \<in> set UI_ROBOT_TASKS \<and> 60 \<le> t \<and> t \<le> 3600)"

lemma small_words_plain: "plain_words GATEWAY_ACTIONS" "plain_words UI_ROBOT_TASKS"
  by code_simp+

interpretation gateway: closed_shape gateway_normalize gateway_shape
proof
  show "gateway_shape (gateway_normalize m)" for m
    by (auto simp: gateway_shape_def gateway_normalize_def clamp_bounds Let_def GATEWAY_ACTIONS_def)
  show "gateway_normalize d = d" if "gateway_shape d" for d
    using that small_words_plain(1) by (auto simp: gateway_shape_def gateway_normalize_def plain_words_def)
qed

interpretation ui_robot: closed_shape ui_robot_normalize ui_robot_shape
proof
  show "ui_robot_shape (ui_robot_normalize m)" for m
    by (auto simp: ui_robot_shape_def ui_robot_normalize_def Let_def UI_ROBOT_TASKS_def)
  show "ui_robot_normalize d = d" if "ui_robot_shape d" for d
    using that small_words_plain(2) by (auto simp: ui_robot_shape_def ui_robot_normalize_def plain_words_def)
qed

lemma map_of_kwargs_of:
  "map_of m k = Some v \<Longrightarrow> k \<in> set keys \<Longrightarrow> map_of (kwargs_of keys defaults m) k = Some v"
  unfolding kwargs_of_def by (induction keys) auto

lemma missing_field:
  "\<not> is_word valid None" "\<not> in_range low high None" "\<not> is_address_list None" "\<not> is_port_table None"
  "\<not> id_text n extra None" "\<not> is_tag_list None"
  by (simp_all add: is_word_def in_range_def is_address_list_def is_port_table_def id_text_def is_text_def
      is_tag_list_def)

lemma stored_discovery_sent_clean:
  assumes "discover_shape d"
  shows "discover_shape (discover_kwargs d)"
proof -
  have "map_of (discover_kwargs d) k = map_of d k" if "k \<in> set DISCOVER_META_KEYS" "map_of d k \<noteq> None" for k
    using that map_of_kwargs_of [of d k] by (auto simp: discover_kwargs_def)
  moreover have "map_of d k \<noteq> None" if "k \<in> set DISCOVER_META_KEYS" for k
  proof
    assume "map_of d k = None"
    with assms that show False by (auto simp: discover_shape_def DISCOVER_META_KEYS_def missing_field)
  qed
  ultimately have "\<And>k. k \<in> set DISCOVER_META_KEYS \<Longrightarrow> map_of (discover_kwargs d) k = map_of d k"
    by blast
  then show ?thesis
    using assms unfolding discover_shape_def DISCOVER_META_KEYS_def by simp
qed

lemma stored_verb_sent_clean:
  assumes "hypervisor_shape d"
  shows "hypervisor_shape (hypervisor_kwargs d)"
proof -
  have "map_of (hypervisor_kwargs d) k = map_of d k"
    if "k \<in> set HYPERVISOR_META_KEYS" "map_of d k \<noteq> None" for k
    using that map_of_kwargs_of [of d k] by (auto simp: hypervisor_kwargs_def)
  moreover have "map_of d k \<noteq> None" if "k \<in> set HYPERVISOR_META_KEYS" for k
  proof
    assume "map_of d k = None"
    with assms that show False by (auto simp: hypervisor_shape_def HYPERVISOR_META_KEYS_def missing_field)
  qed
  ultimately have "\<And>k. k \<in> set HYPERVISOR_META_KEYS \<Longrightarrow> map_of (hypervisor_kwargs d) k = map_of d k"
    by blast
  then show ?thesis
    using assms unfolding hypervisor_shape_def HYPERVISOR_META_KEYS_def by simp
qed

section \<open>Nothing else crosses\<close>

text \<open>Fields of job rows that must stay in the dashboard.\<close>

definition PRIVATE_KEYS :: "string list" where
  "PRIVATE_KEYS =
     [''description'', ''asset'', ''extra_vars'', ''secret_vars'', ''secret_become_source'',
      ''secret_ssh_key_source'', ''managed_account'', ''managed_become'', ''steps_enc'', ''environment_id'',
      ''login_user'']"

lemma envelope_table:
  "envelope_payload ''agent_discover'' = (\<lambda>m. Some (discover_kwargs m))"
  "envelope_payload ''agent_hypervisor'' = (\<lambda>m. Some (hypervisor_kwargs m))"
  "envelope_payload ''agent_ansible'' = (\<lambda>m. Some (run_envelope_payload m))"
  "envelope_payload ''agent_gateway'' = (\<lambda>m. Some (gateway_envelope_payload m))"
  "envelope_payload ''agent_storage'' = (\<lambda>m. Some (storage_envelope_payload m))"
  "envelope_payload ''agent_ui_robot'' = (\<lambda>m. Some (ui_robot_envelope_payload m))"
  "envelope_payload ''agent_upgrade'' = (\<lambda>m. Some (the (control_envelope_payload ''agent_upgrade'' m)))"
  "envelope_payload ''agent_restart'' = (\<lambda>m. Some (the (control_envelope_payload ''agent_restart'' m)))"
  "envelope_payload ''agent_k8s'' = k8s_envelope_payload"
  by (simp_all add: envelope_payload_def fun_eq_iff CONTROL_JOB_TYPES_def control_envelope_payload_def)

lemma envelope_keys_table:
  "envelope_keys ''agent_discover'' = DISCOVER_META_KEYS"
  "envelope_keys ''agent_hypervisor'' = HYPERVISOR_META_KEYS"
  "envelope_keys ''agent_ansible'' = RUN_ENVELOPE_KEYS"
  "envelope_keys ''agent_gateway'' = GATEWAY_META_KEYS"
  "envelope_keys ''agent_storage'' = STORAGE_META_KEYS"
  "envelope_keys ''agent_ui_robot'' = UI_ROBOT_META_KEYS"
  "envelope_keys ''agent_k8s'' = K8S_ENVELOPE_KEYS"
  by (simp_all add: envelope_keys_def)

lemma envelope_of:
  assumes "t \<in> set (AGENT_JOB_TYPES @ CONTROL_JOB_TYPES)" and "t \<noteq> ''agent_k8s''"
  shows "\<exists>f. envelope_payload t = (\<lambda>m. Some (f m)) \<and> reads_only (envelope_keys t) f"
proof -
  have "t = ''agent_discover'' \<or> t = ''agent_hypervisor'' \<or> t = ''agent_ansible''
      \<or> t = ''agent_gateway'' \<or> t = ''agent_storage'' \<or> t = ''agent_ui_robot''
      \<or> t = ''agent_upgrade'' \<or> t = ''agent_restart''"
    using assms by (simp add: AGENT_JOB_TYPES_def CONTROL_JOB_TYPES_def)
  then show ?thesis
  proof (elim disjE)
    assume t: "t = ''agent_discover''"
    show ?thesis unfolding t envelope_table envelope_keys_table using discover_reads_only by blast
  next
    assume t: "t = ''agent_hypervisor''"
    show ?thesis unfolding t envelope_table envelope_keys_table using hypervisor_reads_only by blast
  next
    assume t: "t = ''agent_ansible''"
    show ?thesis unfolding t envelope_table envelope_keys_table using run_reads_only by blast
  next
    assume t: "t = ''agent_gateway''"
    show ?thesis unfolding t envelope_table envelope_keys_table using gateway_reads_only by blast
  next
    assume t: "t = ''agent_storage''"
    show ?thesis unfolding t envelope_table envelope_keys_table using storage_reads_only by blast
  next
    assume t: "t = ''agent_ui_robot''"
    show ?thesis unfolding t envelope_table envelope_keys_table using ui_robot_reads_only by blast
  next
    assume t: "t = ''agent_upgrade''"
    show ?thesis unfolding t envelope_table
      by (intro exI [of _ "\<lambda>m. the (control_envelope_payload ''agent_upgrade'' m)"] conjI refl control_reads_only)
  next
    assume t: "t = ''agent_restart''"
    show ?thesis unfolding t envelope_table
      by (intro exI [of _ "\<lambda>m. the (control_envelope_payload ''agent_restart'' m)"] conjI refl control_reads_only)
  qed
qed

lemma k8s_envelope_None: "k8s_envelope_payload m = None \<longleftrightarrow> iterate (dict_get m ''step_kinds'') = None"
  by (simp add: k8s_envelope_payload_def Let_def)

lemma envelope_keys_public: "set (envelope_keys t) \<inter> set PRIVATE_KEYS = {}"
  by (simp add: envelope_keys_def PRIVATE_KEYS_def DISCOVER_META_KEYS_def HYPERVISOR_META_KEYS_def
      RUN_ENVELOPE_KEYS_def GATEWAY_META_KEYS_def UI_ROBOT_META_KEYS_def K8S_ENVELOPE_KEYS_def STORAGE_META_KEYS_def)

text \<open>
  C16. Every type an agent can lease has an envelope of its own, with exactly the keys of its
  allowlist, none of which holds a playbook, a variable, a login, a secret reference or a
  description; and the envelope is a function of those keys of the job row alone, so nothing else
  stored there, now or later, can reach the agent. Only a Kubernetes row whose step kinds are a
  number or a flag has none.
\<close>

theorem envelope_closed:
  assumes "t \<in> set (leasable_types k8s_ok want a)"
  shows "(case envelope_payload t m of
            Some p \<Rightarrow> map fst p = envelope_keys t \<and> set (map fst p) \<inter> set PRIVATE_KEYS = {}
          | None \<Rightarrow> t = ''agent_k8s'' \<and> iterate (dict_get m ''step_kinds'') = None)
     \<and> envelope_payload t (only_keys (envelope_keys t) m) = envelope_payload t m"
proof (cases "t = ''agent_k8s''")
  case True
  then have t: "envelope_payload t = k8s_envelope_payload" "envelope_keys t = K8S_ENVELOPE_KEYS"
    by (simp_all add: envelope_table envelope_keys_table)
  show ?thesis
    unfolding t k8s_reads_only(1)
    using k8s_reads_only(2) [of m] k8s_envelope_None [of m] envelope_keys_public [of t] True t(2)
    by (cases "k8s_envelope_payload m") auto
next
  case False
  from envelope_of [OF leasable_cases [OF assms] this]
  obtain f where f: "envelope_payload t = (\<lambda>m. Some (f m))" "reads_only (envelope_keys t) f" by blast
  then show ?thesis
    using envelope_keys_public [of t] unfolding f(1) reads_only_def by auto
qed

theorem envelope_closed_witness:
  "envelope_payload ''agent_ansible'' (only_keys RUN_ENVELOPE_KEYS vm_over_local)
     = envelope_payload ''agent_ansible'' vm_over_local"
proof -
  have "''agent_ansible'' \<in> set (leasable_types False None enrolled_agent)"
    by (simp add: leasable_types_def allowed_job_types_def allowed_job_types_list_def enrolled_agent_def
        AGENT_JOB_TYPES_def)
  from envelope_closed [OF this, of vm_over_local] show ?thesis
    by (simp add: envelope_keys_table)
qed

end
