(* ===== verification/Hypervisor_Sync.thy ===== *)
theory Hypervisor_Sync
  imports Agent_Envelope
begin

text \<open>
  The inventory of hypervisors behind an agent (\<open>services/hypervisor_sync_service.py\<close>,
  \<open>database/models/hypervisor.py\<close>, and the completion of a hypervisor job in \<open>api/agent.py\<close>): one
  inventory job per connection that is due, pages applied to a cache and chained, the prune that
  detects deleted VMs, the refusal to believe an empty page, and the sync after a power verb.

  Parameters, in \<open>sync_env\<close>: the configuration, the id of the job created next, \<open>isoformat\<close> and
  \<open>fromisoformat\<close>, and the reasons a stored credential could not be delivered. The cache has a
  primary key, so two new rows with one id fail at the commit and nothing of the page is stored.
\<close>

section \<open>State\<close>

record hv_conn =
  hc_id :: string
  hc_kind :: string
  hc_name :: string
  hc_agent_id :: "string option"
  hc_agent_connection_name :: "string option"
  hc_options :: dict
  hc_is_active :: bool
  hc_last_ok_at :: "instant option"
  hc_last_error :: "string option"
  hc_last_sync_at :: "instant option"

record vm_row =
  vr_connection_id :: string
  vr_vm_id :: string
  vr_name :: json
  vr_power_state :: json
  vr_vcpus :: json
  vr_mem_mib :: json
  vr_ip_addresses :: "json option"
  vr_scope :: json
  vr_vm_type :: json
  vr_tags :: "json option"
  vr_guest_os :: json
  vr_synced_at :: instant

record hv_db =
  hv_conns :: "hv_conn list"
  hv_vms :: "vm_row list"
  hv_agents :: "agent list"
  hv_jobs :: jdb

record sync_env =
  sy_cfg :: config
  sy_loads :: "string \<Rightarrow> json option"
  sy_mint :: "jdb \<Rightarrow> string"
  sy_isof :: "instant \<Rightarrow> string"
  sy_fromiso :: "string \<Rightarrow> instant option"
  sy_blockers :: "hv_conn \<Rightarrow> agent \<Rightarrow> string list"

definition find_conn :: "hv_db \<Rightarrow> string \<Rightarrow> hv_conn option" where
  "find_conn db cid = List.find (\<lambda>c. hc_id c = cid) (hv_conns db)"

section \<open>The outcome of a call on a connection\<close>

definition result_row :: "instant \<Rightarrow> string \<Rightarrow> bool \<Rightarrow> hv_conn \<Rightarrow> hv_conn" where
  "result_row now err synced c =
     (if err \<noteq> [] then c\<lparr> hc_last_error := Some (take_chars 2000 err) \<rparr>
      else (let c' = c\<lparr> hc_last_ok_at := Some now, hc_last_error := None \<rparr>
            in if synced then c'\<lparr> hc_last_sync_at := Some now \<rparr> else c'))"

definition record_result :: "instant \<Rightarrow> string \<Rightarrow> string \<Rightarrow> bool \<Rightarrow> hv_db \<Rightarrow> hv_db" where
  "record_result now cid err synced db =
     db\<lparr> hv_conns := tbl_update (\<lambda>c. hc_id c = cid) (result_row now err synced) (hv_conns db) \<rparr>"

section \<open>Queueing a page\<close>

definition sync_metadata :: "sync_env \<Rightarrow> hv_conn \<Rightarrow> string \<Rightarrow> int \<Rightarrow> instant \<Rightarrow> string \<Rightarrow> dict" where
  "sync_metadata env c cursor page started trigger =
     (let m = hypervisor_normalize
                [(''verb'', JStr ''inventory_sync''),
                 (''connection_ref'', JStr (or_empty (hc_agent_connection_name c))),
                 (''connection_id'', JStr (hc_id c)), (''kind'', JStr (hc_kind c)),
                 (''cursor'', JStr cursor)];
          m = dict_set m ''description''
                (JStr (''Inventory sync: '' @ hc_name c @ '' (page '' @ py_str_int page @ '')''
                   @ (if trigger \<noteq> [] then '' '' @ em_dash @ '' '' @ trigger else [])));
          m = dict_set m ''sync_page'' (JInt page);
          m = dict_set m ''sync_started_at'' (JStr (sy_isof env started))
      in dict_set m ''sync_trigger'' (JStr trigger))"

definition sync_job :: "sync_env \<Rightarrow> hv_conn \<Rightarrow> string \<Rightarrow> string option \<Rightarrow> int \<Rightarrow> instant \<Rightarrow> string \<Rightarrow> string \<Rightarrow> new_job" where
  "sync_job env c cursor batch page started created_by trigger =
     \<lparr> nj_job_type = ''agent_hypervisor'',
       nj_created_by = (if created_by \<noteq> [] then created_by else ''system:sync''),
       nj_vm_path = None, nj_workgroup = None,
       nj_metadata = sync_metadata env c cursor page started trigger,
       nj_batch_id = batch, nj_status = ''pending'', nj_expires_at = None,
       nj_agent_id = hc_agent_id c, nj_scheduled_for = None, nj_window_ends_at = None,
       nj_change_window_id = None, nj_job_schedule_id = None, nj_approval_required = False \<rparr>"

definition queue_page ::
  "sync_env \<Rightarrow> instant \<Rightarrow> hv_conn \<Rightarrow> string \<Rightarrow> string option \<Rightarrow> int \<Rightarrow> instant \<Rightarrow> string \<Rightarrow> string \<Rightarrow>
   hv_db \<Rightarrow> hv_db \<times> job" where
  "queue_page env now c cursor batch page started created_by trigger db =
     (let (jobs', j) = create_job (sy_loads env) (sy_cfg env) now (sy_mint env (hv_jobs db))
                         (sync_job env c cursor batch page started created_by trigger) (hv_jobs db)
      in (db\<lparr> hv_jobs := set_cloud_resource_id (j_id j) (hc_id c) jobs' \<rparr>,
          j\<lparr> j_cloud_resource_id := Some (hc_id c) \<rparr>))"

section \<open>Who is due\<close>

definition has_open_job :: "jdb \<Rightarrow> string \<Rightarrow> bool" where
  "has_open_job db cid =
     (\<exists>j \<in> set (jobs db). j_job_type j = ''agent_hypervisor'' \<and> j_cloud_resource_id j = Some cid
        \<and> j_status j \<in> {''queued'', ''running''})"

text \<open>\<open>sync_now\<close>: the job, or the reason there is none; an empty reason is not news.\<close>

definition sync_now ::
  "sync_env \<Rightarrow> instant \<Rightarrow> hv_conn \<Rightarrow> string \<Rightarrow> string \<Rightarrow> hv_db \<Rightarrow> hv_db \<times> (string + job)" where
  "sync_now env now c created_by trigger db =
     (let aid = or_empty (hc_agent_id c)
      in if aid = []
         then (db, Inl ''this connection is not bound to an agent, and the dashboard has no route to it'')
         else if has_open_job (hv_jobs db) (hc_id c) then (db, Inl [])
         else (case List.find (\<lambda>a. ag_id a = aid) (hv_agents db) of
                 None \<Rightarrow> (db, Inl ''the bound agent is not online, so the sync was skipped'')
               | Some a \<Rightarrow>
                   if status_of now a \<noteq> ''online''
                   then (db, Inl ''the bound agent is not online, so the sync was skipped'')
                   else if ''agent_hypervisor'' \<notin> set (allowed_job_types a)
                   then (db, Inl ''the bound agent is not granted the agent_hypervisor job type'')
                   else (case sy_blockers env c a of
                           b # _ \<Rightarrow> (db, Inl b)
                         | [] \<Rightarrow> (let (db', j) = queue_page env now c [] None 1 now created_by trigger db
                                 in (db', Inr j)))))"

definition interval_minutes :: "config \<Rightarrow> hv_conn \<Rightarrow> int" where
  "interval_minutes cfg c =
     (let v = dict_get (hc_options c) ''sync_interval_minutes'';
          per_conn = (if truthy v then (case json_int v of Some n \<Rightarrow> n | None \<Rightarrow> 0) else 0)
      in if 0 < per_conn then per_conn
         else (let raw = or_empty (config_get cfg ''hypervisor_sync_interval_minutes'' []);
                   v = (if raw = [] then getattr_setting cfg ''hypervisor_sync_interval_minutes'' (PInt 30) else PStr raw)
               in (case py_int v of Some n \<Rightarrow> max 1 n | None \<Rightarrow> 30)))"

definition sync_due :: "config \<Rightarrow> instant \<Rightarrow> hv_conn \<Rightarrow> bool" where
  "sync_due cfg now c =
     (case hc_last_sync_at c of
        None \<Rightarrow> True
      | Some t \<Rightarrow> \<not> now - t < seconds (interval_minutes cfg c * 60))"

definition enqueue_one :: "sync_env \<Rightarrow> instant \<Rightarrow> hv_conn \<Rightarrow> hv_db \<times> nat \<Rightarrow> hv_db \<times> nat" where
  "enqueue_one env now c s =
     (if \<not> sync_due (sy_cfg env) now c then s
      else (case sync_now env now c [] [] (fst s) of
              (db, Inr _) \<Rightarrow> (db, Suc (snd s))
            | (db, Inl reason) \<Rightarrow>
                (if reason \<noteq> [] then record_result now (hc_id c) reason False db else db, snd s)))"

definition enqueue_due_syncs :: "sync_env \<Rightarrow> instant \<Rightarrow> hv_db \<Rightarrow> hv_db \<times> nat" where
  "enqueue_due_syncs env now db =
     (if config_get_bool (sy_cfg env) ''remote_agents_enabled'' False \<noteq> Some True then (db, 0)
      else fold (enqueue_one env now)
             (filter (\<lambda>c. hc_is_active c \<and> hc_agent_id c \<noteq> None) (hv_conns db)) (db, 0))"

section \<open>Applying a page\<close>

definition blank_vm :: "string \<Rightarrow> string \<Rightarrow> vm_row" where
  "blank_vm cid vid =
     \<lparr> vr_connection_id = cid, vr_vm_id = vid, vr_name = JNull, vr_power_state = JNull, vr_vcpus = JNull,
       vr_mem_mib = JNull, vr_ip_addresses = None, vr_scope = JNull, vr_vm_type = JNull, vr_tags = None,
       vr_guest_os = JNull, vr_synced_at = 0 \<rparr>"

definition write_vm :: "instant \<Rightarrow> instant \<Rightarrow> dict \<Rightarrow> vm_row \<Rightarrow> vm_row" where
  "write_vm started now vm r =
     r\<lparr> vr_name := dict_get vm ''name'', vr_power_state := dict_get vm ''power_state'',
        vr_vcpus := dict_get vm ''vcpus'', vr_mem_mib := dict_get vm ''mem_mib'',
        vr_ip_addresses :=
          (if truthy (dict_get vm ''ip_addresses'') then Some (dict_get vm ''ip_addresses'')
           else if vr_ip_addresses r = None then Some (JList []) else vr_ip_addresses r),
        vr_scope := dict_get vm ''scope'', vr_vm_type := dict_get vm ''vm_type'',
        vr_tags :=
          (case map_of vm ''tags'' of
             None \<Rightarrow> None
           | Some t \<Rightarrow> Some (if truthy t then t else JList [])),
        vr_guest_os := dict_get vm ''guest_os'', vr_synced_at := max started now \<rparr>"

definition vm_id_of :: "dict \<Rightarrow> string" where
  "vm_id_of vm = str_at vm ''vm_id''"

definition is_vm :: "string \<Rightarrow> string \<Rightarrow> vm_row \<Rightarrow> bool" where
  "is_vm cid vid r \<longleftrightarrow> vr_connection_id r = cid \<and> vr_vm_id r = vid"

text \<open>
  One VM of the page: rows not yet committed are not seen by the query (the session does not flush
  on its own), so a new id is inserted each time it occurs.
\<close>

definition upsert_one ::
  "string \<Rightarrow> instant \<Rightarrow> instant \<Rightarrow> dict \<Rightarrow> vm_row list \<times> vm_row list \<Rightarrow> vm_row list \<times> vm_row list" where
  "upsert_one cid started now vm s =
     (case s of (stored, fresh) \<Rightarrow>
        let vid = vm_id_of vm
        in if vid = [] then s
           else if \<exists>r \<in> set stored. is_vm cid vid r
           then (tbl_update (is_vm cid vid) (write_vm started now vm) stored, fresh)
           else (stored, fresh @ [write_vm started now vm (blank_vm cid vid)]))"

definition upsert ::
  "string \<Rightarrow> dict list \<Rightarrow> instant \<Rightarrow> instant \<Rightarrow> vm_row list \<Rightarrow> vm_row list option" where
  "upsert cid vms started now rows =
     (case fold (upsert_one cid started now) vms (rows, []) of
        (stored, fresh) \<Rightarrow>
          if distinct (map vr_vm_id fresh) then Some (stored @ fresh) else None)"

definition EMPTY_SYNC_REFUSAL :: "nat \<Rightarrow> string" where
  "EMPTY_SYNC_REFUSAL n =
     ''the last sync returned no VMs at all and the agent did not confirm the host is empty, so the ''
     @ py_str_int (int n) @ '' cached VM(s) were kept rather than deleted. An agent that cannot read a host hands back exactly the same empty list a genuinely empty host does ''
     @ em_dash @ '' on Hyper-V an unloaded PowerShell module and an account that cannot see the VMs both look like this. Upgrade the agent, and for Hyper-V or ESXi its sibling runner image, so it can say which one it was; until then this connection''
     @ [CHR 0x27] @ ''s cache is never emptied automatically.''"

definition empty_prune_refusal :: "string \<Rightarrow> page \<Rightarrow> instant \<Rightarrow> vm_row list \<Rightarrow> string" where
  "empty_prune_refusal cid page started rows =
     (let own = filter (\<lambda>r. vr_connection_id r = cid) rows
      in if pg_enumerated page then []
         else if rowcount (\<lambda>r. vr_synced_at r \<ge> started) own \<noteq> 0 then []
         else (let doomed = rowcount (\<lambda>r. vr_synced_at r < started) own
               in if doomed = 0 then [] else EMPTY_SYNC_REFUSAL doomed))"

definition prune_vms :: "string \<Rightarrow> instant \<Rightarrow> vm_row list \<Rightarrow> vm_row list" where
  "prune_vms cid started rows =
     filter (\<lambda>r. \<not> (vr_connection_id r = cid \<and> vr_synced_at r < started)) rows"

definition sync_started_at :: "sync_env \<Rightarrow> job \<Rightarrow> instant" where
  "sync_started_at env j =
     (let raw = dict_get (metadata_dict j) ''sync_started_at''
      in if truthy raw
         then (case sy_fromiso env (py_str raw) of Some t \<Rightarrow> t | None \<Rightarrow> j_created_at j)
         else j_created_at j)"

definition page_connection :: "job \<Rightarrow> string" where
  "page_connection j =
     (let m = or_empty_text (dict_get (metadata_dict j) ''connection_id'')
      in if m \<noteq> [] then m else or_empty (j_cloud_resource_id j))"

definition page_number :: "job \<Rightarrow> int option" where
  "page_number j =
     (let v = dict_get (metadata_dict j) ''sync_page'' in if truthy v then json_int v else Some 1)"

definition batch_of :: "job \<Rightarrow> string" where
  "batch_of j =
     (if or_empty (j_batch_id j) \<noteq> [] then or_empty (j_batch_id j)
      else take 12 (filter (\<lambda>c. c \<noteq> CHR ''-'') (j_id j)))"

datatype page_fault = UnreadablePage | DuplicateVm | BadPageNumber

text \<open>The end of a pass: refuse to empty the cache, or prune and stamp the connection.\<close>

definition finish_pass :: "instant \<Rightarrow> string \<Rightarrow> page \<Rightarrow> instant \<Rightarrow> hv_db \<Rightarrow> hv_db" where
  "finish_pass now cid page started db =
     (let refusal = empty_prune_refusal cid page started (hv_vms db)
      in if refusal \<noteq> [] then record_result now cid refusal False db
         else record_result now cid [] True (db\<lparr> hv_vms := prune_vms cid started (hv_vms db) \<rparr>))"

text \<open>\<open>apply_page\<close>, with the follow-on job it queued.\<close>

definition apply_page ::
  "sync_env \<Rightarrow> instant \<Rightarrow> job \<Rightarrow> dict \<Rightarrow> hv_db \<Rightarrow> hv_db \<times> (page_fault + page \<times> job option)" where
  "apply_page env now j result db =
     (case sync_page result of
        None \<Rightarrow> (db, Inl UnreadablePage)
      | Some page \<Rightarrow>
          (let cid = page_connection j
           in case find_conn db cid of
                None \<Rightarrow> (db, Inr (page, None))
              | Some c \<Rightarrow>
                  (let started = sync_started_at env j
                   in case upsert cid (pg_vms page) started now (hv_vms db) of
                        None \<Rightarrow> (db, Inl DuplicateVm)
                      | Some rows \<Rightarrow>
                          (let db1 = db\<lparr> hv_vms := rows \<rparr>
                           in case page_number j of
                                None \<Rightarrow> (db1, Inl BadPageNumber)
                              | Some n \<Rightarrow>
                                  if pg_next_cursor page \<noteq> [] \<and> \<not> pg_complete page \<and> n < MAX_SYNC_PAGES
                                  then (let (db2, j') = queue_page env now c (pg_next_cursor page)
                                                (Some (batch_of j)) (n + 1) started (j_created_by j)
                                                (or_empty_text (dict_get (metadata_dict j) ''sync_trigger'')) db1
                                        in (db2, Inr (page, Some j')))
                                  else (finish_pass now cid page started db1, Inr (page, None))))))"

section \<open>Completing a hypervisor job\<close>

definition RESYNC_VERBS :: "string list" where
  "RESYNC_VERBS =
     [''power_on'', ''power_off'', ''power_reset'', ''restart'', ''shutdown'', ''reboot'', ''set_tags'']"

definition sync_after_power :: "sync_env \<Rightarrow> instant \<Rightarrow> job \<Rightarrow> hv_db \<Rightarrow> hv_db \<times> (string + job)" where
  "sync_after_power env now j db =
     (if j_job_type j \<noteq> ''agent_hypervisor'' then (db, Inl [])
      else (let m = metadata_dict j; verb = or_empty_text (dict_get m ''verb'')
            in if verb \<notin> set RESYNC_VERBS then (db, Inl [])
               else (let cid = page_connection j
                     in if cid = [] then (db, Inl [])
                        else (case find_conn db cid of
                                None \<Rightarrow> (db, Inl [])
                              | Some c \<Rightarrow>
                                  if \<not> hc_is_active c then (db, Inl [])
                                  else sync_now env now c (j_created_by j) (''after '' @ verb) db))))"

text \<open>
  \<open>complete\<close> for a row of type \<open>agent_hypervisor\<close>: a page that cannot be applied is projected again
  in the handler of the exception, which raises for the same reason it did the first time; a failed
  commit leaves a session that refuses the next statement. Either way no result is the error
  response, and the row stays as it was.
\<close>

definition complete_hypervisor ::
  "sync_env \<Rightarrow> instant \<Rightarrow> job \<Rightarrow> string \<Rightarrow> dict \<Rightarrow> string \<Rightarrow> hv_db \<Rightarrow> hv_db \<times> string option" where
  "complete_hypervisor env now j status result error db =
     (let (db1, payload) =
            (if status = ''completed''
             then (case apply_page env now j result db of
                     (db1, Inr (page, _)) \<Rightarrow> (db1, Some (page_json page))
                   | (db1, Inl DuplicateVm) \<Rightarrow> (db1, None)
                   | (db1, Inl _) \<Rightarrow> (db1, map_option page_json (sync_page result)))
             else (db, Some result))
      in case payload of
           None \<Rightarrow> (db1, None)
         | Some r \<Rightarrow>
             (case complete_job (sy_cfg env) now j status r error (hv_jobs db1) of
                (applied, jobs') \<Rightarrow>
                  (fst (sync_after_power env now j (db1\<lparr> hv_jobs := jobs' \<rparr>)), Some applied)))"

section \<open>What one page does to the cache\<close>

definition touch :: "string \<Rightarrow> instant \<Rightarrow> instant \<Rightarrow> dict list \<Rightarrow> vm_row \<Rightarrow> vm_row" where
  "touch cid started now vms r =
     fold (\<lambda>vm r. if vm_id_of vm \<noteq> [] \<and> is_vm cid (vm_id_of vm) r then write_vm started now vm r else r)
       vms r"

definition reported :: "dict list \<Rightarrow> string set" where
  "reported vms = {vm_id_of vm |vm. vm \<in> set vms \<and> vm_id_of vm \<noteq> []}"

definition ids_of :: "string \<Rightarrow> vm_row list \<Rightarrow> string set" where
  "ids_of cid rows = {vr_vm_id r |r. r \<in> set rows \<and> vr_connection_id r = cid}"

lemma ids_of_simps:
  "ids_of cid [] = {}"
  "ids_of cid (r # rows) = (if vr_connection_id r = cid then insert (vr_vm_id r) (ids_of cid rows) else ids_of cid rows)"
  by (auto simp: ids_of_def)

lemma ids_of_map:
  assumes "\<And>r. vr_connection_id (f r) = vr_connection_id r \<and> vr_vm_id (f r) = vr_vm_id r"
  shows "ids_of cid (map f rows) = ids_of cid rows"
  using assms by (induction rows) (auto simp: ids_of_simps)

lemma write_vm_key [simp]:
  "vr_connection_id (write_vm started now vm r) = vr_connection_id r"
  "vr_vm_id (write_vm started now vm r) = vr_vm_id r"
  "vr_synced_at (write_vm started now vm r) = max started now"
  by (simp_all add: write_vm_def)

lemma touch_Nil [simp]: "touch cid started now [] r = r"
  by (simp add: touch_def)

lemma touch_Cons:
  "touch cid started now (vm # vms) r =
     touch cid started now vms
       (if vm_id_of vm \<noteq> [] \<and> is_vm cid (vm_id_of vm) r then write_vm started now vm r else r)"
  by (simp add: touch_def)

lemma touch_key [simp]:
  "vr_connection_id (touch cid started now vms r) = vr_connection_id r"
  "vr_vm_id (touch cid started now vms r) = vr_vm_id r"
  by (induction vms arbitrary: r) (simp_all add: touch_Cons)

lemma touch_synced:
  "vr_synced_at (touch cid started now vms r) =
     (if vr_connection_id r = cid \<and> vr_vm_id r \<in> reported vms then max started now else vr_synced_at r)"
proof (induction vms arbitrary: r)
  case Nil
  then show ?case by (simp add: reported_def)
next
  case (Cons vm vms)
  have "reported (vm # vms) = (if vm_id_of vm = [] then reported vms else insert (vm_id_of vm) (reported vms))"
    by (auto simp: reported_def)
  with Cons show ?case by (auto simp: touch_Cons is_vm_def)
qed

lemma touch_other: "vr_connection_id r \<noteq> cid \<or> vr_vm_id r \<notin> reported vms \<Longrightarrow> touch cid started now vms r = r"
proof (induction vms arbitrary: r)
  case (Cons vm vms)
  have "reported vms \<subseteq> reported (vm # vms)" by (auto simp: reported_def)
  moreover have "vm_id_of vm \<noteq> [] \<Longrightarrow> vm_id_of vm \<in> reported (vm # vms)" by (auto simp: reported_def)
  ultimately show ?case using Cons by (auto simp: touch_Cons is_vm_def)
qed simp

lemma upsert_fold:
  "fold (upsert_one cid started now) vms (rows, fresh) =
     (map (touch cid started now vms) rows,
      fresh @ map (\<lambda>vm. write_vm started now vm (blank_vm cid (vm_id_of vm)))
                (filter (\<lambda>vm. vm_id_of vm \<noteq> [] \<and> vm_id_of vm \<notin> ids_of cid rows) vms))"
proof (induction vms arbitrary: rows fresh)
  case Nil
  then show ?case by (simp add: map_idI)
next
  case (Cons vm vms)
  let ?i = "vm_id_of vm"
  have known: "(\<exists>r \<in> set rows. is_vm cid ?i r) \<longleftrightarrow> ?i \<in> ids_of cid rows"
    by (force simp: ids_of_def is_vm_def)
  have ids: "ids_of cid (tbl_update (is_vm cid ?i) (write_vm started now vm) rows) = ids_of cid rows"
    unfolding tbl_update_def by (rule ids_of_map) simp
  consider "?i = []" | "?i \<noteq> []" "?i \<in> ids_of cid rows" | "?i \<noteq> []" "?i \<notin> ids_of cid rows" by blast
  then show ?case
  proof cases
    case 1
    then have "upsert_one cid started now vm (rows, fresh) = (rows, fresh)"
      by (simp add: upsert_one_def)
    with 1 show ?thesis by (simp add: Cons touch_Cons)
  next
    case 2
    then have "upsert_one cid started now vm (rows, fresh) =
        (tbl_update (is_vm cid ?i) (write_vm started now vm) rows, fresh)"
      by (simp add: upsert_one_def known)
    with 2 show ?thesis
      by (simp add: Cons ids) (simp add: tbl_update_def touch_Cons comp_def)
  next
    case 3
    then have up: "upsert_one cid started now vm (rows, fresh) =
        (rows, fresh @ [write_vm started now vm (blank_vm cid ?i)])"
      by (simp add: upsert_one_def known)
    have "touch cid started now (vm # vms) r = touch cid started now vms r" if "r \<in> set rows" for r
      using that 3 by (auto simp: touch_Cons is_vm_def ids_of_def)
    with 3 show ?thesis by (simp add: up Cons)
  qed
qed

lemma upsert_SomeD:
  assumes "upsert cid vms started now rows = Some rows'"
  shows "\<exists>fresh. rows' = map (touch cid started now vms) rows @ fresh
    \<and> (\<forall>r \<in> set fresh. vr_connection_id r = cid \<and> vr_synced_at r = max started now)
    \<and> vr_vm_id ` set fresh = reported vms - ids_of cid rows"
proof -
  let ?fresh = "map (\<lambda>vm. write_vm started now vm (blank_vm cid (vm_id_of vm)))
                (filter (\<lambda>vm. vm_id_of vm \<noteq> [] \<and> vm_id_of vm \<notin> ids_of cid rows) vms)"
  have "rows' = map (touch cid started now vms) rows @ ?fresh"
    using assms by (simp add: upsert_def upsert_fold split: if_splits)
  moreover have "\<forall>r \<in> set ?fresh. vr_connection_id r = cid \<and> vr_synced_at r = max started now"
    by (auto simp: blank_vm_def)
  moreover have "vr_vm_id ` set ?fresh = reported vms - ids_of cid rows"
    by (auto simp: blank_vm_def reported_def image_iff)
  ultimately show ?thesis by blast
qed

lemma ids_of_append: "ids_of cid (xs @ ys) = ids_of cid xs \<union> ids_of cid ys"
  by (auto simp: ids_of_def)

lemma ids_of_touch: "ids_of cid (map (touch cid' started now vms) rows) = ids_of cid rows"
  by (rule ids_of_map) simp

lemma upsert_ids:
  assumes "upsert cid vms started now rows = Some rows'"
  shows "ids_of cid rows' = ids_of cid rows \<union> reported vms"
    and "cid' \<noteq> cid \<Longrightarrow> filter (\<lambda>r. vr_connection_id r = cid') rows' = filter (\<lambda>r. vr_connection_id r = cid') rows"
proof -
  obtain fresh where f: "rows' = map (touch cid started now vms) rows @ fresh"
    "\<forall>r \<in> set fresh. vr_connection_id r = cid \<and> vr_synced_at r = max started now"
    "vr_vm_id ` set fresh = reported vms - ids_of cid rows"
    using upsert_SomeD [OF assms] by blast
  have "ids_of cid fresh = vr_vm_id ` set fresh" using f(2) by (auto simp: ids_of_def)
  with f show "ids_of cid rows' = ids_of cid rows \<union> reported vms"
    by (auto simp: ids_of_append ids_of_touch)
  assume ne: "cid' \<noteq> cid"
  have "filter (\<lambda>r. vr_connection_id r = cid') fresh = []" using f(2) ne by (auto simp: filter_empty_conv)
  moreover have "filter (\<lambda>r. vr_connection_id r = cid') (map (touch cid started now vms) rows) =
      filter (\<lambda>r. vr_connection_id r = cid') rows"
    using ne by (induction rows) (auto simp: touch_other)
  ultimately show "filter (\<lambda>r. vr_connection_id r = cid') rows' = filter (\<lambda>r. vr_connection_id r = cid') rows"
    by (simp add: f(1))
qed

text \<open>In the course of a pass the rows written since its start are those reported so far.\<close>

definition marked :: "string \<Rightarrow> instant \<Rightarrow> string set \<Rightarrow> vm_row list \<Rightarrow> bool" where
  "marked cid started done_ids rows \<longleftrightarrow>
     done_ids \<subseteq> ids_of cid rows
     \<and> (\<forall>r \<in> set rows. vr_connection_id r = cid \<longrightarrow> (started \<le> vr_synced_at r \<longleftrightarrow> vr_vm_id r \<in> done_ids))"

lemma upsert_marked:
  assumes "marked cid started done_ids rows" and "upsert cid vms started now rows = Some rows'"
  shows "marked cid started (done_ids \<union> reported vms) rows'"
proof -
  obtain fresh where f: "rows' = map (touch cid started now vms) rows @ fresh"
    "\<forall>r \<in> set fresh. vr_connection_id r = cid \<and> vr_synced_at r = max started now"
    "vr_vm_id ` set fresh = reported vms - ids_of cid rows"
    using upsert_SomeD [OF assms(2)] by blast
  have "done_ids \<union> reported vms \<subseteq> ids_of cid rows'"
    using assms(1) upsert_ids(1) [OF assms(2)] by (auto simp: marked_def)
  moreover have "started \<le> vr_synced_at r \<longleftrightarrow> vr_vm_id r \<in> done_ids \<union> reported vms"
    if r: "r \<in> set rows'" "vr_connection_id r = cid" for r
  proof (cases "r \<in> set fresh")
    case True
    with f(2,3) show ?thesis by auto
  next
    case False
    with f(1) r obtain r0 where r0: "r0 \<in> set rows" "r = touch cid started now vms r0" by auto
    with assms(1) r(2) show ?thesis by (auto simp: marked_def touch_synced)
  qed
  ultimately show ?thesis by (simp add: marked_def)
qed

lemma prune_marked:
  assumes "marked cid started done_ids rows"
  shows "ids_of cid (prune_vms cid started rows) = done_ids"
  using assms by (auto simp: marked_def ids_of_def prune_vms_def not_less) 

lemma prune_other:
  "cid' \<noteq> cid \<Longrightarrow> filter (\<lambda>r. vr_connection_id r = cid') (prune_vms cid started rows) =
     filter (\<lambda>r. vr_connection_id r = cid') rows"
  by (induction rows) (auto simp: prune_vms_def)

section \<open>A whole pass\<close>

lemma connection_id_normalized:
  "map_of (hypervisor_normalize m) ''connection_id'' = Some (JStr (constrained ID_RE (dict_get m ''connection_id'')))"
proof -
  note one = map_of_dict_set map_of_set_enum map_of_set_id
  have "dict_get (set_id ''connection_ref'' REF_RE (set_enum ''target_type'' VALID_TARGET_TYPES ''vm''
      (set_enum ''kind'' VALID_KINDS ''vsphere'' (set_enum ''verb'' VALID_VERBS ''inventory_sync'' m)))) ''connection_id''
      = dict_get m ''connection_id''"
    unfolding dict_get_def one by simp
  then show ?thesis
    unfolding hypervisor_normalize_def Let_def one
    by (simp del: fun_upd_apply add: fun_upd_same fun_upd_other)
qed

lemma sync_metadata_fields:
  "dict_get (sync_metadata env c cursor page started trigger) ''sync_page'' = JInt page"
  "dict_get (sync_metadata env c cursor page started trigger) ''sync_started_at'' = JStr (sy_isof env started)"
  "dict_get (sync_metadata env c cursor page started trigger) ''connection_id'' =
     JStr (constrained ID_RE (JStr (hc_id c)))"
  by (simp_all add: sync_metadata_def Let_def dict_get_set dict_get_def [of "hypervisor_normalize _"]
      connection_id_normalized)

lemma metadata_queue_page:
  assumes "queue_page env now c cursor batch page started created_by trigger db = (db', j)"
  shows "metadata_dict j = sync_metadata env c cursor page started trigger"
    and "hv_vms db' = hv_vms db" "hv_conns db' = hv_conns db"
proof -
  have "sync_metadata env c cursor page started trigger \<noteq> []"
  proof
    assume "sync_metadata env c cursor page started trigger = []"
    then show False using sync_metadata_fields(1) [of env c cursor page started trigger] by simp
  qed
  then show "metadata_dict j = sync_metadata env c cursor page started trigger"
    using assms by (auto simp: queue_page_def create_job_def new_row_def sync_job_def metadata_dict_def Let_def)
  show "hv_vms db' = hv_vms db" "hv_conns db' = hv_conns db"
    using assms by (auto simp: queue_page_def create_job_def Let_def)
qed

lemma page_number_next:
  assumes "queue_page env now c cursor batch page started created_by trigger db = (db', j)" and "page \<noteq> 0"
  shows "page_number j = Some page"
  using assms(2) by (simp add: page_number_def metadata_queue_page(1) [OF assms(1)] sync_metadata_fields)

lemma apply_page_next:
  assumes "apply_page env now j result db = (db', Inr (p, Some j'))"
  shows "\<exists>n. page_number j = Some n \<and> n < 40 \<and> (n \<noteq> -1 \<longrightarrow> page_number j' = Some (n + 1))"
proof -
  obtain c n rows db2 where n: "page_number j = Some n" "n < MAX_SYNC_PAGES"
    and q: "queue_page env now c (pg_next_cursor p) (Some (batch_of j)) (n + 1) (sync_started_at env j)
          (j_created_by j) (or_empty_text (dict_get (metadata_dict j) ''sync_trigger'')) (db\<lparr> hv_vms := rows \<rparr>)
        = (db2, j')"
    using assms
    by (auto simp: apply_page_def Let_def split: option.splits prod.splits if_splits)
  show ?thesis
    using n page_number_next [OF q] by (intro exI [of _ n]) (auto simp: MAX_SYNC_PAGES_def)
qed

text \<open>
  The pass an agent works through: it answers page after page, \<open>ans\<close> holding its answers and
  \<open>others\<close> what else happens to the tables before each is applied. The result is the tables, the
  pages applied, and whether the last of them ended the pass.
\<close>

function run_sync ::
  "sync_env \<Rightarrow> (int \<Rightarrow> dict) \<Rightarrow> (int \<Rightarrow> instant) \<Rightarrow> (int \<Rightarrow> hv_db \<Rightarrow> hv_db) \<Rightarrow> job \<Rightarrow> hv_db \<Rightarrow>
   hv_db \<times> page list \<times> bool" where
  "run_sync env ans clock others j db =
     (case page_number j of
        None \<Rightarrow> (db, [], False)
      | Some n \<Rightarrow>
          if n < 1 then (db, [], False)
          else (case apply_page env (clock n) j (ans n) (others n db) of
                  (db', Inl _) \<Rightarrow> (db', [], False)
                | (db', Inr (p, None)) \<Rightarrow> (db', [p], True)
                | (db', Inr (p, Some j')) \<Rightarrow>
                    (case run_sync env ans clock others j' db' of
                       (db'', ps, ended) \<Rightarrow> (db'', p # ps, ended))))"
  by pat_completeness auto
termination
  by (relation "measure (\<lambda>(env, ans, clock, others, j, db). nat (41 - the (page_number j)))")
     (auto dest!: apply_page_next [OF sym])

declare run_sync.simps [simp del]

text \<open>
  C22. A pass ends whatever the agent answers: the jobs one inventory pass queues number at most
  forty, counting from the first page, for any answers, clock readings and interfering writes.
\<close>

theorem sync_pass_bounded:
  assumes "page_number j = Some 1"
  shows "length (fst (snd (run_sync env ans clock others j db))) \<le> 40"
proof -
  have "length (fst (snd (run_sync env ans clock others j db))) \<le> nat (41 - n)"
    if "page_number j = Some n" "n \<le> 40" for n
    using that
  proof (induction env ans clock others j db arbitrary: n rule: run_sync.induct)
    case (1 env ans clock others j db)
    show ?case
    proof (cases "n < 1")
      case True
      with 1 show ?thesis by (simp add: run_sync.simps [of _ _ _ _ j])
    next
      case False
      obtain db' r where ap: "apply_page env (clock n) j (ans n) (others n db) = (db', r)" by fastforce
      show ?thesis
      proof (cases "\<exists>p j'. r = Inr (p, Some j')")
        case True
        then obtain p j' where r: "r = Inr (p, Some j')" by blast
        have next_page: "n < 40" "page_number j' = Some (n + 1)"
          using apply_page_next [of env "clock n" j "ans n" "others n db" db' p j'] ap r 1(2) False by auto
        have "length (fst (snd (run_sync env ans clock others j' db'))) \<le> nat (41 - (n + 1))"
          using 1(1) [of n db' r "(p, Some j')" p "Some j'" j' "n + 1"] 1(2) False ap r next_page by auto
        then show ?thesis
          using next_page(1) False 1(2) ap r
          by (auto simp: run_sync.simps [of _ _ _ _ j] split: prod.splits)
      next
        case False': False
        then show ?thesis
          using 1(2,3) False ap
          by (auto simp: run_sync.simps [of _ _ _ _ j] split: sum.splits prod.splits option.splits)
      qed
    qed
  qed
  from this [OF assms] show ?thesis by simp
qed

lemma sync_now_first_page:
  assumes "sync_now env now c created_by trigger db = (db', Inr j)"
  shows "page_number j = Some 1"
proof -
  obtain db2 where "queue_page env now c [] None 1 now created_by trigger db = (db2, j)"
    using assms by (auto simp: sync_now_def Let_def split: if_splits option.splits list.splits prod.splits)
  then show ?thesis by (rule page_number_next) simp
qed

lemma finish_marked:
  assumes "marked cid started done_ids (hv_vms db)" and "find_conn db cid = Some c"
  shows "if done_ids \<noteq> {} \<or> pg_enumerated p
         then ids_of cid (hv_vms (finish_pass now cid p started db)) = done_ids
         else ids_of cid (hv_vms (finish_pass now cid p started db)) = ids_of cid (hv_vms db)"
proof -
  let ?own = "filter (\<lambda>r. vr_connection_id r = cid) (hv_vms db)"
  have fresh: "rowcount (\<lambda>r. started \<le> vr_synced_at r) ?own \<noteq> 0 \<longleftrightarrow> done_ids \<noteq> {}"
  proof
    assume "rowcount (\<lambda>r. started \<le> vr_synced_at r) ?own \<noteq> 0"
    then obtain r where "r \<in> set ?own" "started \<le> vr_synced_at r"
      by (auto simp: rowcount_def filter_empty_conv)
    with assms(1) show "done_ids \<noteq> {}" by (auto simp: marked_def)
  next
    assume "done_ids \<noteq> {}"
    then obtain i where "i \<in> done_ids" "i \<in> ids_of cid (hv_vms db)" using assms(1) by (auto simp: marked_def)
    then obtain r where "r \<in> set ?own" "vr_vm_id r = i" by (auto simp: ids_of_def)
    with assms(1) \<open>i \<in> done_ids\<close> show "rowcount (\<lambda>r. started \<le> vr_synced_at r) ?own \<noteq> 0"
      by (auto simp: marked_def rowcount_def filter_empty_conv)
  qed
  show ?thesis
  proof (cases "empty_prune_refusal cid p started (hv_vms db) = []")
    case True
    then have vms: "hv_vms (finish_pass now cid p started db) = prune_vms cid started (hv_vms db)"
      by (simp add: finish_pass_def record_result_def)
    have "done_ids = {} \<and> \<not> pg_enumerated p \<longrightarrow> ids_of cid (hv_vms db) = {}"
    proof
      assume no: "done_ids = {} \<and> \<not> pg_enumerated p"
      then have "rowcount (\<lambda>r. vr_synced_at r < started) ?own = 0"
        using True fresh
        by (simp add: empty_prune_refusal_def EMPTY_SYNC_REFUSAL_def Let_def split: if_splits)
      then have "\<And>r. r \<in> set ?own \<Longrightarrow> started \<le> vr_synced_at r"
        by (auto simp: rowcount_def filter_empty_conv not_less)
      moreover have "\<And>r. r \<in> set ?own \<Longrightarrow> \<not> started \<le> vr_synced_at r"
        using no assms(1) by (auto simp: marked_def)
      ultimately show "ids_of cid (hv_vms db) = {}" by (fastforce simp: ids_of_def)
    qed
    then show ?thesis
      unfolding vms prune_marked [OF assms(1)] using assms(1) by auto
  next
    case False
    then have "done_ids = {}" "\<not> pg_enumerated p"
      using fresh by (auto simp: empty_prune_refusal_def Let_def split: if_splits)
    with False show ?thesis by (simp add: finish_pass_def record_result_def)
  qed
qed

text \<open>The one connection a pass works on, and writes of others that leave its rows alone.\<close>

definition same_own :: "string \<Rightarrow> hv_db \<Rightarrow> hv_db \<Rightarrow> bool" where
  "same_own cid a b \<longleftrightarrow>
     find_conn a cid = find_conn b cid
     \<and> filter (\<lambda>r. vr_connection_id r = cid) (hv_vms a) = filter (\<lambda>r. vr_connection_id r = cid) (hv_vms b)"

lemma own_rows_cong:
  assumes "filter (\<lambda>r. vr_connection_id r = cid) xs = filter (\<lambda>r. vr_connection_id r = cid) ys"
  shows "ids_of cid xs = ids_of cid ys" "marked cid started done_ids xs = marked cid started done_ids ys"
proof -
  have "{r \<in> set xs. vr_connection_id r = cid} = {r \<in> set ys. vr_connection_id r = cid}"
    using assms by (metis set_filter)
  then have own: "\<And>r. r \<in> set xs \<and> vr_connection_id r = cid \<longleftrightarrow> r \<in> set ys \<and> vr_connection_id r = cid"
    by blast
  then show ids: "ids_of cid xs = ids_of cid ys" unfolding ids_of_def by blast
  show "marked cid started done_ids xs = marked cid started done_ids ys"
    unfolding marked_def ids using own by blast
qed

lemma conn_after_queue:
  "queue_page env now c cursor batch page started created_by trigger db = (db', j) \<Longrightarrow>
   find_conn db' cid = find_conn db cid"
  using metadata_queue_page(3) by (simp add: find_conn_def)

lemma plain_id_kept:
  assumes "id_text 128 '':_.-'' (Some (JStr cid))"
  shows "constrained ID_RE (JStr cid) = cid"
  using assms by (auto simp: id_text_def constrained_def str_not_none_def ID_RE_def line_match_def)

lemma queued_page_fields:
  assumes "queue_page env now c cursor batch page started created_by trigger db = (db', j)"
    and "id_text 128 '':_.-'' (Some (JStr (hc_id c)))" and "hc_id c \<noteq> []"
    and "sy_fromiso env (sy_isof env started) = Some started" and "sy_isof env started \<noteq> []"
  shows "page_connection j = hc_id c" "sync_started_at env j = started"
  using assms(3-5)
  by (simp_all add: page_connection_def sync_started_at_def metadata_queue_page(1) [OF assms(1)]
      sync_metadata_fields plain_id_kept [OF assms(2)] or_empty_text_def)

text \<open>The ids reported in a list of pages.\<close>

definition reported_in :: "page list \<Rightarrow> string set" where
  "reported_in ps = (\<Union>p \<in> set ps. reported (pg_vms p))"

lemma find_conn_id: "find_conn db cid = Some c \<Longrightarrow> hc_id c = cid"
  by (auto simp: find_conn_def dest: find_Some_set)

lemma apply_page_success:
  assumes "apply_page env now j result d = (d1, Inr (p, nj))"
    and "find_conn d cid = Some c" and "page_connection j = cid" and "sync_started_at env j = started"
  shows "\<exists>rows. upsert cid (pg_vms p) started now (hv_vms d) = Some rows
    \<and> (case nj of
         None \<Rightarrow> d1 = finish_pass now cid p started (d\<lparr> hv_vms := rows \<rparr>)
       | Some j' \<Rightarrow> (\<exists>cursor batch n actor trigger.
           queue_page env now c cursor batch n started actor trigger (d\<lparr> hv_vms := rows \<rparr>) = (d1, j')))"
  using assms
  by (auto simp: apply_page_def Let_def split: option.splits prod.splits if_splits) blast

lemma find_conn_vms [simp]: "find_conn (d\<lparr> hv_vms := rows \<rparr>) cid = find_conn d cid"
  by (simp add: find_conn_def)

lemma reported_in_simps [simp]:
  "reported_in [] = {}" "reported_in (p # ps) = reported (pg_vms p) \<union> reported_in ps"
  by (simp_all add: reported_in_def)

lemma run_sync_marked:
  assumes cid: "id_text 128 '':_.-'' (Some (JStr cid))" "cid \<noteq> []"
    and iso: "sy_fromiso env (sy_isof env started) = Some started" "sy_isof env started \<noteq> []"
    and others: "\<And>n d. same_own cid (others n d) d"
    and "find_conn db cid = Some c"
    and "page_connection j = cid" and "sync_started_at env j = started"
    and "marked cid started done_ids (hv_vms db)"
    and "run_sync env ans clock others j db = (db', ps, True)"
  shows "ps \<noteq> [] \<and>
     (if done_ids \<union> reported_in ps \<noteq> {} \<or> pg_enumerated (last ps)
      then ids_of cid (hv_vms db') = done_ids \<union> reported_in ps
      else ids_of cid (hv_vms db') = ids_of cid (hv_vms db))"
  using assms(6-10)
proof (induction ps arbitrary: j db done_ids c)
  case Nil
  then show ?case
    by (auto simp: run_sync.simps [of _ _ _ _ j] split: option.splits sum.splits prod.splits if_splits)
next
  case (Cons p ps)
  obtain n nj d1 where n: "page_number j = Some n"
    and ap: "apply_page env (clock n) j (ans n) (others n db) = (d1, Inr (p, nj))"
    and rest: "case nj of None \<Rightarrow> ps = [] \<and> d1 = db'
                | Some j' \<Rightarrow> run_sync env ans clock others j' d1 = (db', ps, True)"
    using Cons.prems(5)
    by (auto simp: run_sync.simps [of _ _ _ _ j] split: option.splits sum.splits prod.splits if_splits)
  let ?d = "others n db"
  have own: "find_conn ?d cid = Some c"
    "filter (\<lambda>r. vr_connection_id r = cid) (hv_vms ?d) = filter (\<lambda>r. vr_connection_id r = cid) (hv_vms db)"
    using others [of n db] Cons.prems(1) by (simp_all add: same_own_def)
  note cong = own_rows_cong [OF own(2)]
  obtain rows where up: "upsert cid (pg_vms p) started (clock n) (hv_vms ?d) = Some rows"
    and nj: "case nj of
         None \<Rightarrow> d1 = finish_pass (clock n) cid p started (?d\<lparr> hv_vms := rows \<rparr>)
       | Some j' \<Rightarrow> (\<exists>cursor batch m actor trigger.
           queue_page env (clock n) c cursor batch m started actor trigger (?d\<lparr> hv_vms := rows \<rparr>) = (d1, j'))"
    using apply_page_success [OF ap own(1) Cons.prems(2,3)] by blast
  have mk: "marked cid started (done_ids \<union> reported (pg_vms p)) rows"
    using upsert_marked [OF _ up] Cons.prems(4) cong(2) by blast
  have ids: "ids_of cid rows = ids_of cid (hv_vms db) \<union> reported (pg_vms p)"
    using upsert_ids(1) [OF up] cong(1) by simp
  show ?case
  proof (cases nj)
    case None
    with nj rest have db': "db' = finish_pass (clock n) cid p started (?d\<lparr> hv_vms := rows \<rparr>)" "ps = []"
      by simp_all
    have "find_conn (?d\<lparr> hv_vms := rows \<rparr>) cid = Some c" using own(1) by simp
    from finish_marked [OF _ this, of started "done_ids \<union> reported (pg_vms p)" p "clock n"] mk ids
    show ?thesis unfolding db' by (auto split: if_splits)
  next
    case (Some j')
    then obtain cursor batch m actor trigger where
      q: "queue_page env (clock n) c cursor batch m started actor trigger (?d\<lparr> hv_vms := rows \<rparr>) = (d1, j')"
      using nj by auto
    have cc: "hc_id c = cid" using find_conn_id [OF own(1)] .
    have jf: "page_connection j' = cid" "sync_started_at env j' = started"
      using queued_page_fields [OF q] cid iso by (simp_all add: cc)
    have d1: "find_conn d1 cid = Some c" "hv_vms d1 = rows"
      using conn_after_queue [OF q] own(1) metadata_queue_page(2) [OF q] by simp_all
    have "run_sync env ans clock others j' d1 = (db', ps, True)" using rest Some by simp
    from Cons.IH [OF d1(1) jf _ this, of "done_ids \<union> reported (pg_vms p)"] mk d1(2) ids
    show ?thesis by (auto simp: Un_assoc split: if_splits)
  qed
qed

text \<open>
  C21. Deletion detection is exact over a whole pass. If every cached row of the connection was synced
  before the pass started and nobody else touches its rows meanwhile, then a pass that ends leaves
  cached exactly the VMs its pages reported, each deleted VM gone and each new one there, provided it
  reported any or its last page confirmed that the host was enumerated; otherwise the cached VMs are
  all kept.
\<close>

theorem sync_pass_exact:
  assumes "find_conn db cid = Some c" and "id_text 128 '':_.-'' (Some (JStr cid))" and "cid \<noteq> []"
    and "sy_fromiso env (sy_isof env started) = Some started" and "sy_isof env started \<noteq> []"
    and "\<And>n d. same_own cid (others n d) d"
    and "page_connection j = cid" and "sync_started_at env j = started"
    and "\<forall>r \<in> set (hv_vms db). vr_connection_id r = cid \<longrightarrow> vr_synced_at r < started"
    and "run_sync env ans clock others j db = (db', ps, True)"
  shows "ids_of cid (hv_vms db') =
     (if reported_in ps \<noteq> {} \<or> pg_enumerated (last ps) then reported_in ps else ids_of cid (hv_vms db))"
proof -
  have "marked cid started {} (hv_vms db)"
    using assms(9) by (auto simp: marked_def not_le)
  from run_sync_marked [OF assms(2-6,1,7,8) this assms(10)] show ?thesis by auto
qed

section \<open>Completions that are no page\<close>

text \<open>What an agent returns for a power verb, and the page that is made of it.\<close>

definition power_result :: "string \<Rightarrow> string \<Rightarrow> dict" where
  "power_result verb target = [(''verb'', JStr verb), (''target_id'', JStr target), (''ok'', JBool True)]"

definition no_page :: page where
  "no_page = \<lparr> pg_vms = [], pg_next_cursor = [], pg_complete = True, pg_scanned = 0, pg_enumerated = False \<rparr>"

lemma sync_page_power: "sync_page (power_result verb target) = Some no_page"
  by (simp add: sync_page_def power_result_def no_page_def List.map_filter_def constrained_def
      str_not_none_def CURSOR_RE_def line_match_def non_negative_def)

lemma upsert_none: "upsert cid [] started now rows = Some rows"
  by (simp add: upsert_def)

text \<open>
  Every completed verb goes through the page of an inventory, not only the inventory verb. A
  power verb that worked is therefore the end of a pass that saw nothing: with an older cache the
  connection is marked with the refusal to empty it; with no cache it is stamped as just synced; and
  with rows a pass in progress wrote since the power job was created, the rows that pass has not
  reached again are deleted.
\<close>

theorem power_verb_ends_a_pass:
  assumes "find_conn db cid = Some c" and "page_connection j = cid" and "page_number j \<noteq> None"
    and "own = filter (\<lambda>r. vr_connection_id r = cid) (hv_vms db)"
  shows "fst (apply_page env now j (power_result verb target) db) =
     (if own = [] \<or> (\<exists>r \<in> set own. sync_started_at env j \<le> vr_synced_at r)
      then record_result now cid [] True
             (db\<lparr> hv_vms := prune_vms cid (sync_started_at env j) (hv_vms db) \<rparr>)
      else record_result now cid (EMPTY_SYNC_REFUSAL (length own)) False db)"
proof -
  let ?t = "sync_started_at env j"
  obtain n where n: "page_number j = Some n" using assms(3) by blast
  have "fst (apply_page env now j (power_result verb target) db) = finish_pass now cid no_page ?t db"
    using assms(1,2) n
    by (simp add: apply_page_def sync_page_power upsert_none no_page_def)
  moreover have "rowcount (\<lambda>r. ?t \<le> vr_synced_at r) own = 0 \<longleftrightarrow> \<not> (\<exists>r \<in> set own. ?t \<le> vr_synced_at r)"
    by (auto simp: rowcount_def filter_empty_conv)
  moreover have "rowcount (\<lambda>r. vr_synced_at r < ?t) own = length own"
    if "\<not> (\<exists>r \<in> set own. ?t \<le> vr_synced_at r)"
    using that by (auto simp: rowcount_def not_le intro!: arg_cong [of _ _ length] filter_True)
  ultimately show ?thesis
    unfolding finish_pass_def empty_prune_refusal_def assms(4) [symmetric] Let_def
    by (auto simp: no_page_def EMPTY_SYNC_REFUSAL_def)
qed

text \<open>A page that raises raises again in the handler: the row of the job is left as it was.\<close>

theorem unreadable_page_wedges_job:
  assumes "sync_page result = None"
  shows "complete_hypervisor env now j ''completed'' result error db = (db, None)"
  using assms by (simp add: complete_hypervisor_def apply_page_def)

definition wrong_addresses :: dict where
  "wrong_addresses = [(''vms'', JList [JObj [(''vm_id'', JStr ''7''), (''ip_addresses'', JInt 5)]])]"

lemma wrong_addresses_unreadable: "sync_page wrong_addresses = None"
proof -
  have "clean_vm [(''vm_id'', JStr ''7''), (''ip_addresses'', JInt 5)] = None"
    by (simp add: clean_vm_None sliceable_def)
  then show ?thesis
    by (simp add: sync_page_def wrong_addresses_def map_filter_simps MAX_PAGE_SIZE_def)
qed

section \<open>Instances\<close>

definition lab_conn :: hv_conn where
  "lab_conn =
     \<lparr> hc_id = ''c1'', hc_kind = ''vsphere'', hc_name = ''lab'', hc_agent_id = Some ''a1'',
       hc_agent_connection_name = Some ''lab'', hc_options = [], hc_is_active = True, hc_last_ok_at = None,
       hc_last_error = None, hc_last_sync_at = None \<rparr>"

definition lab_db :: hv_db where
  "lab_db = \<lparr> hv_conns = [lab_conn], hv_vms = [blank_vm ''c1'' ''6''], hv_agents = [], hv_jobs = empty_db \<rparr>"

definition lab_env :: sync_env where
  "lab_env =
     \<lparr> sy_cfg = default_config, sy_loads = (\<lambda>_. None), sy_mint = (\<lambda>_. ''j2''), sy_isof = (\<lambda>_. ''t''),
       sy_fromiso = (\<lambda>_. Some 5), sy_blockers = (\<lambda>_ _. []) \<rparr>"

definition lab_job :: job where
  "lab_job = (running_job ''j1'' ''agent_hypervisor'' 5)\<lparr> j_cloud_resource_id := Some ''c1'', j_created_at := 5 \<rparr>"

definition lab_answer :: dict where
  "lab_answer = [(''vms'', JList [JObj [(''vm_id'', JStr ''7'')]])]"

definition lab_page :: page where
  "lab_page =
     \<lparr> pg_vms = [[(''vm_id'', JStr ''7'')]], pg_next_cursor = [], pg_complete = True, pg_scanned = 0,
       pg_enumerated = False \<rparr>"

lemma lab_job_fields:
  "page_number lab_job = Some 1" "page_connection lab_job = ''c1''" "sync_started_at lab_env lab_job = 5"
  by (simp_all add: page_number_def page_connection_def sync_started_at_def lab_job_def running_job_def
      running_row_def new_row_def plain_new_job_def metadata_dict_def or_empty_text_def lab_env_def Let_def)

lemma lab_sync_page: "sync_page lab_answer = Some lab_page"
proof -
  have "clean_text n (JStr ''7'') = ''7''" if "n \<in> {MAX_VM_TEXT, MAX_VM_PATH}" for n
    using that by (elim insertE emptyE; simp only:; code_simp)
  then have "clean_vm [(''vm_id'', JStr ''7'')] = Some [(''vm_id'', JStr ''7'')]"
    by (simp add: clean_vm_def VM_KEYS_def clean_vm_field_def List.map_filter_def Let_def)
  then show ?thesis
    by (simp add: sync_page_def lab_answer_def lab_page_def List.map_filter_def MAX_PAGE_SIZE_def
        constrained_def str_not_none_def CURSOR_RE_def line_match_def non_negative_def)
qed

lemma lab_facts:
  "find_conn lab_db ''c1'' = Some lab_conn" "sy_fromiso lab_env s = Some 5" "sy_isof lab_env t \<noteq> []"
  "\<forall>r \<in> set (hv_vms lab_db). vr_synced_at r < 5"
  by (simp_all add: find_conn_def lab_db_def lab_conn_def lab_env_def blank_vm_def)

lemma lab_pass: "run_sync lab_env (\<lambda>_. lab_answer) (\<lambda>_. 6) (\<lambda>_ d. d) lab_job lab_db =
    (finish_pass 6 ''c1'' lab_page 5
       (lab_db\<lparr> hv_vms := [blank_vm ''c1'' ''6'', write_vm 5 6 [(''vm_id'', JStr ''7'')] (blank_vm ''c1'' ''7'')] \<rparr>),
     [lab_page], True)"
proof -
  have "upsert ''c1'' (pg_vms lab_page) 5 6 (hv_vms lab_db) =
      Some [blank_vm ''c1'' ''6'', write_vm 5 6 [(''vm_id'', JStr ''7'')] (blank_vm ''c1'' ''7'')]"
    by (simp add: upsert_def upsert_one_def lab_page_def lab_db_def vm_id_of_def str_at_def dict_get_def
        blank_vm_def is_vm_def Let_def)
  moreover have "find_conn lab_db ''c1'' = Some lab_conn"
    by (simp add: find_conn_def lab_db_def lab_conn_def)
  moreover have "pg_next_cursor lab_page = []" by (simp add: lab_page_def)
  ultimately show ?thesis
    by (simp add: run_sync.simps [of _ _ _ _ lab_job] lab_job_fields apply_page_def lab_sync_page Let_def)
qed

theorem sync_pass_exact_witness:
  "ids_of ''c1'' (hv_vms (fst (run_sync lab_env (\<lambda>_. lab_answer) (\<lambda>_. 6) (\<lambda>_ d. d) lab_job lab_db))) = {''7''}"
proof -
  have "id_text 128 '':_.-'' (Some (JStr ''c1''))"
    by code_simp
  then have "ids_of ''c1'' (hv_vms (fst (run_sync lab_env (\<lambda>_. lab_answer) (\<lambda>_. 6) (\<lambda>_ d. d) lab_job lab_db))) =
      (if reported_in [lab_page] \<noteq> {} \<or> pg_enumerated (last [lab_page]) then reported_in [lab_page]
       else ids_of ''c1'' (hv_vms lab_db))"
    by (intro sync_pass_exact [where env = lab_env and started = 5 and j = lab_job and c = lab_conn and db = lab_db
        and others = "\<lambda>_ d. d" and clock = "\<lambda>_. 6" and ans = "\<lambda>_. lab_answer"])
       (simp_all add: lab_job_fields lab_pass lab_facts same_own_def)
  moreover have "reported_in [lab_page] = {''7''}"
    by (auto simp: reported_in_def reported_def lab_page_def vm_id_of_def str_at_def dict_get_def)
  ultimately show ?thesis by simp
qed

theorem sync_pass_bounded_witness:
  "length (fst (snd (run_sync lab_env (\<lambda>_. lab_answer) (\<lambda>_. 6) (\<lambda>_ d. d) lab_job lab_db))) \<le> 40"
  by (rule sync_pass_bounded) (rule lab_job_fields)

theorem unreadable_page_wedges_job_witness:
  "complete_hypervisor lab_env 6 lab_job ''completed'' wrong_addresses [] lab_db = (lab_db, None)"
  by (rule unreadable_page_wedges_job) (rule wrong_addresses_unreadable)

theorem power_verb_ends_a_pass_witness:
  "fst (apply_page lab_env 6 lab_job (power_result ''power_on'' ''6'') lab_db) =
     record_result 6 ''c1'' (EMPTY_SYNC_REFUSAL 1) False lab_db"
proof -
  have "fst (apply_page lab_env 6 lab_job (power_result ''power_on'' ''6'') lab_db) =
     (if [blank_vm ''c1'' ''6''] = [] \<or>
         (\<exists>r \<in> set [blank_vm ''c1'' ''6'']. sync_started_at lab_env lab_job \<le> vr_synced_at r)
      then record_result 6 ''c1'' [] True
             (lab_db\<lparr> hv_vms := prune_vms ''c1'' (sync_started_at lab_env lab_job) (hv_vms lab_db) \<rparr>)
      else record_result 6 ''c1'' (EMPTY_SYNC_REFUSAL (length [blank_vm ''c1'' ''6''])) False lab_db)"
    by (rule power_verb_ends_a_pass [where c = lab_conn])
       (simp_all add: lab_job_fields find_conn_def lab_db_def lab_conn_def blank_vm_def)
  then show ?thesis by (simp add: lab_job_fields blank_vm_def)
qed

end
