(* ===== verification/Agent_Release.thy ===== *)
theory Agent_Release
  imports Agent_Envelope "HOL-Library.Product_Lexorder"
begin

text \<open>
  The releases of the remote agent the dashboard may offer (\<open>services/agent_release_service.py\<close> and
  the validators of \<open>services/agent_lifecycle_service.py\<close>): the table of versions and digests, the
  tracks (how far behind the newest release a workstream stays), adding by hand or from a registry.

  Parameters: the parser and printer of JSON for the stored tracks, the rendering of a day, and the
  registry, a function from tags to the version and digest it serves, or the text of an exception.
\<close>

section \<open>Versions\<close>

type_synonym version = "int \<times> int \<times> int"

text \<open>\<open>\s*(\d+)\.(\d+)\.(\d+)\<close> at the start of the text, and nothing when it does not match.\<close>

definition digits_dot :: "string \<Rightarrow> (int \<times> string) option" where
  "digits_dot s =
     (let n = takeWhile is_digit s; rest = dropWhile is_digit s
      in if n = [] then None
         else (case rest of
                 c # tail \<Rightarrow> if c = CHR ''.'' then map_option (\<lambda>i. (i, tail)) (int_start n) else None
               | [] \<Rightarrow> None))"

definition version_tuple :: "string \<Rightarrow> version" where
  "version_tuple s =
     (case digits_dot (dropWhile is_space s) of
        None \<Rightarrow> (0, 0, 0)
      | Some (a, s1) \<Rightarrow>
          (case digits_dot s1 of
             None \<Rightarrow> (0, 0, 0)
           | Some (b, s2) \<Rightarrow>
               (let n = takeWhile is_digit s2
                in if n = [] then (0, 0, 0)
                   else (case int_start n of None \<Rightarrow> (0, 0, 0) | Some c \<Rightarrow> (a, b, c)))))"

definition is_version :: "string \<Rightarrow> bool" where
  "is_version s =
     (case split_on (CHR ''.'') s of
        [a, b, c] \<Rightarrow> list_all (\<lambda>n. n \<noteq> [] \<and> list_all is_digit n) [a, b, c]
      | _ \<Rightarrow> False)"

definition hex_lower :: "char \<Rightarrow> bool" where
  "hex_lower c \<longleftrightarrow> is_digit c \<or> c \<in> set ''abcdef''"

definition is_digest :: "string \<Rightarrow> bool" where
  "is_digest s \<longleftrightarrow> starts_with ''sha256:'' s \<and> length s = 71 \<and> list_all hex_lower (drop 7 s)"

section \<open>Image names\<close>

definition lower_alnum :: "char \<Rightarrow> bool" where
  "lower_alnum c \<longleftrightarrow> is_digit c \<or> (CHR ''a'' \<le> c \<and> c \<le> CHR ''z'')"

text \<open>\<open>[a-z0-9]+(?:[._-][a-z0-9]+)*\<close>: words of letters and digits with one separator between two.\<close>

definition name_component :: "string \<Rightarrow> bool" where
  "name_component s \<longleftrightarrow>
     s \<noteq> [] \<and> lower_alnum (hd s) \<and> lower_alnum (last s)
     \<and> list_all (\<lambda>c. lower_alnum c \<or> c \<in> set ''._-'') s
     \<and> list_all (\<lambda>(a, b). lower_alnum a \<or> lower_alnum b) (zip s (tl s))"

text \<open>\<open>[a-z0-9.-]+(?::\d{1,5})?\<close>: a registry host, with a port or without.\<close>

definition registry_host :: "string \<Rightarrow> bool" where
  "registry_host s =
     (let name = takeWhile (\<lambda>c. lower_alnum c \<or> c \<in> set ''.-'') s;
          rest = dropWhile (\<lambda>c. lower_alnum c \<or> c \<in> set ''.-'') s
      in name \<noteq> [] \<and>
         (rest = []
          \<or> (hd rest = CHR '':'' \<and> list_all is_digit (tl rest) \<and> 1 \<le> length (tl rest) \<and> length (tl rest) \<le> 5)))"

definition is_repository :: "string \<Rightarrow> bool" where
  "is_repository s =
     (case split_on (CHR ''/'') s of
        [] \<Rightarrow> False
      | h # rest \<Rightarrow>
          list_all name_component (h # rest) \<or> (registry_host h \<and> rest \<noteq> [] \<and> list_all name_component rest))"

definition DEFAULT_REPOSITORY :: string where "DEFAULT_REPOSITORY = ''chrweav/dashboard-agent''"

definition validate_repository :: "string \<Rightarrow> string + string" where
  "validate_repository repository =
     (let r = (if py_strip repository \<noteq> [] then py_strip repository else DEFAULT_REPOSITORY)
      in if length r > 200 \<or> \<not> is_repository r
         then Inl (''the repository must be a plain image name such as '' @ ''chrweav/dashboard-agent (a registry host is allowed; no tag)'')
         else Inr r)"

text \<open>The refusal of a version quotes it as \<open>repr\<close> does; the argument \<open>quote\<close> is that rendering.\<close>

definition validate_release :: "(string \<Rightarrow> string) \<Rightarrow> string \<Rightarrow> string \<Rightarrow> string + string \<times> string" where
  "validate_release quote version digest =
     (let v = py_strip version; d = py_lower (py_strip digest)
      in if \<not> is_version v then Inl (quote v @ '' is not a release version (like 2.10.1)'')
         else if \<not> is_digest d then Inl ''the digest must be sha256: followed by 64 hex characters''
         else Inr (v, d))"

section \<open>The table of releases\<close>

record release =
  rl_id :: string
  rl_version :: string
  rl_repository :: string
  rl_digest :: string
  rl_notes :: "string option"
  rl_source :: string
  rl_created_at :: instant
  rl_created_by :: string

record rollout =
  ro_id :: string
  ro_release_id :: string
  ro_change_window_id :: "string option"
  ro_status :: string
  ro_canary_job_ids :: "string list"
  ro_default_job_ids :: "string list"
  ro_skipped :: "(string \<times> string) list"
  ro_detail :: "string option"
  ro_created_at :: instant
  ro_created_by :: string
  ro_finished_at :: "instant option"
  ro_hidden_at :: "instant option"

record fleet =
  fl_cfg :: config
  fl_agents :: "agent list"
  fl_releases :: "release list"
  fl_rollouts :: "rollout list"
  fl_jobs :: jdb

text \<open>Sorting in reverse keeps the order of rows with one version.\<close>

definition list_releases :: "fleet \<Rightarrow> release list" where
  "list_releases st = rev (sort_key (\<lambda>r. version_tuple (rl_version r)) (rev (fl_releases st)))"

definition of_repository :: "string \<Rightarrow> release \<Rightarrow> bool" where
  "of_repository repository r \<longleftrightarrow>
     repository = [] \<or> (if rl_repository r \<noteq> [] then rl_repository r else DEFAULT_REPOSITORY) = repository"

definition newest :: "fleet \<Rightarrow> string \<Rightarrow> release option" where
  "newest st repository =
     (case filter (of_repository repository) (list_releases st) of [] \<Rightarrow> None | r # _ \<Rightarrow> Some r)"

section \<open>Tracks\<close>

definition LAG_CONFIG :: string where "LAG_CONFIG = ''agent_release_lag''"
definition WORKSTREAM_LAG_CONFIG :: string where "WORKSTREAM_LAG_CONFIG = ''agent_release_lag_by_workstream''"
definition MAX_LAG :: int where "MAX_LAG = 2"

definition clamp_lag :: "json \<Rightarrow> int" where
  "clamp_lag v = (case json_int v of None \<Rightarrow> 0 | Some n \<Rightarrow> min (max n 0) MAX_LAG)"

definition get_lag :: "config \<Rightarrow> int" where
  "get_lag cfg =
     (let raw = or_empty (config_get cfg LAG_CONFIG [])
      in clamp_lag (if raw \<noteq> [] then JStr raw else JInt 0))"

definition get_workstream_lags :: "(string \<Rightarrow> json option) \<Rightarrow> config \<Rightarrow> (string \<times> int) list" where
  "get_workstream_lags loads cfg =
     (let raw = or_empty (config_get cfg WORKSTREAM_LAG_CONFIG [])
      in case loads (if raw \<noteq> [] then raw else ''{}'') of
           Some (JObj d) \<Rightarrow> map (\<lambda>(k, v). (k, clamp_lag v)) d
         | _ \<Rightarrow> [])"

definition lag_for :: "(string \<Rightarrow> json option) \<Rightarrow> config \<Rightarrow> string \<Rightarrow> int" where
  "lag_for loads cfg workstream =
     (case map_of (get_workstream_lags loads cfg) (py_lower (py_strip workstream)) of
        None \<Rightarrow> get_lag cfg
      | Some own \<Rightarrow> own)"

text \<open>\<open>set_lag\<close>: the new configuration, or the refusal; a store that cannot be written raises.\<close>

datatype lag_error = BadLag string | StoreDown

definition store_lag :: "string \<Rightarrow> string \<Rightarrow> config \<Rightarrow> lag_error + config" where
  "store_lag key v cfg = (case config_set key v cfg of None \<Rightarrow> Inl StoreDown | Some cfg' \<Rightarrow> Inr cfg')"

definition set_lag ::
  "(string \<Rightarrow> json option) \<Rightarrow> (json \<Rightarrow> string) \<Rightarrow> int \<Rightarrow> string \<Rightarrow> config \<Rightarrow> lag_error + config" where
  "set_lag loads dumps lag workstream0 cfg =
     (let workstream = py_lower (py_strip workstream0)
      in if workstream \<noteq> []
         then (let lags = get_workstream_lags loads cfg;
                   store = (\<lambda>ls. store_lag WORKSTREAM_LAG_CONFIG
                                   (dumps (JObj (map (\<lambda>(k, n). (k, JInt n)) ls))) cfg)
               in if lag = -1 then store (AList.delete workstream lags)
                  else if 0 \<le> lag \<and> lag < MAX_LAG + 1 then store (AList.update workstream lag lags)
                  else Inl (BadLag ''lag must be 0 (n), 1 (n-1) or 2 (n-2), or -1 to follow the default''))
         else if \<not> (0 \<le> lag \<and> lag < MAX_LAG + 1) then Inl (BadLag ''lag must be 0 (n), 1 (n-1) or 2 (n-2)'')
         else store_lag LAG_CONFIG (py_str_int lag) cfg)"

definition lag_of_track :: "(string \<Rightarrow> json option) \<Rightarrow> config \<Rightarrow> string \<Rightarrow> int" where
  "lag_of_track loads cfg workstream =
     (if workstream \<noteq> [] then lag_for loads cfg workstream else get_lag cfg)"

definition target_release :: "(string \<Rightarrow> json option) \<Rightarrow> fleet \<Rightarrow> string \<Rightarrow> string \<Rightarrow> release option" where
  "target_release loads st repository workstream =
     (let rows = filter (of_repository repository) (list_releases st);
          lag = lag_of_track loads (fl_cfg st) workstream
      in if rows = [] then None else Some (rows ! nat (min lag (int (length rows) - 1))))"

section \<open>Adding and removing\<close>

definition find_release :: "fleet \<Rightarrow> string \<Rightarrow> release option" where
  "find_release st rid = List.find (\<lambda>r. rl_id r = rid) (fl_releases st)"

definition by_version :: "fleet \<Rightarrow> string \<Rightarrow> release option" where
  "by_version st v = List.find (\<lambda>r. rl_version r = v) (fl_releases st)"

definition short_digest :: "string \<Rightarrow> string" where
  "short_digest d = take_chars 19 d"

record add_env =
  ae_quote :: "string \<Rightarrow> string"
  ae_day :: "instant \<Rightarrow> string"
  ae_release_id :: "release list \<Rightarrow> string"

text \<open>The row after the registry moved its digest: the notes say what it was.\<close>

definition moved_row :: "(instant \<Rightarrow> string) \<Rightarrow> instant \<Rightarrow> string \<Rightarrow> string \<Rightarrow> string \<Rightarrow> release \<Rightarrow> release" where
  "moved_row day now actor digest repository r =
     (let change = ''Digest changed '' @ day now @ '' by '' @ actor @ '': '' @ short_digest (rl_digest r)
                   @ '' -> '' @ short_digest digest @ '' (tag rebuilt on Docker Hub).''
      in r\<lparr> rl_notes := Some (take_chars 2000
                          (change @ (if or_empty (rl_notes r) \<noteq> [] then '' '' @ or_empty (rl_notes r) else []))),
            rl_digest := digest, rl_repository := repository \<rparr>)"

definition new_release :: "add_env \<Rightarrow> instant \<Rightarrow> string \<Rightarrow> string \<Rightarrow> string \<Rightarrow> string \<Rightarrow> string \<Rightarrow> string \<Rightarrow> fleet \<Rightarrow> release" where
  "new_release env now version digest repository notes actor source st =
     \<lparr> rl_id = ae_release_id env (fl_releases st), rl_version = version, rl_repository = repository,
       rl_digest = digest, rl_notes = or_none (Some (take_chars 2000 notes)), rl_source = source,
       rl_created_at = now, rl_created_by = actor \<rparr>"

definition add_release ::
  "add_env \<Rightarrow> instant \<Rightarrow> string \<Rightarrow> string \<Rightarrow> string \<Rightarrow> string \<Rightarrow> string \<Rightarrow> string \<Rightarrow> fleet \<Rightarrow> string + release \<times> fleet" where
  "add_release env now version0 digest0 notes actor source repository0 st =
     (case validate_release (ae_quote env) version0 digest0 of
        Inl e \<Rightarrow> Inl e
      | Inr (version, digest) \<Rightarrow>
          (case validate_repository repository0 of
             Inl e \<Rightarrow> Inl e
           | Inr repository \<Rightarrow>
               (case by_version st version of
                  Some r \<Rightarrow>
                    if rl_digest r = digest \<and> rl_repository r = repository then Inr (r, st)
                    else if source = ''registry'' \<and> rl_source r = ''registry''
                    then (let r' = moved_row (ae_day env) now actor digest repository r
                          in Inr (r', st\<lparr> fl_releases :=
                               tbl_update (\<lambda>x. rl_id x = rl_id r) (\<lambda>_. r') (fl_releases st) \<rparr>))
                    else Inl (version @ '' is already recorded with digest '' @ rl_digest r @
                              ''. Delete it first if that one is wrong.'')
                | None \<Rightarrow>
                    (let r = new_release env now version digest repository notes actor source st
                     in Inr (r, st\<lparr> fl_releases := fl_releases st @ [r] \<rparr>)))))"

definition in_flight :: "rollout \<Rightarrow> bool" where
  "in_flight r \<longleftrightarrow> ro_status r = ''canary'' \<or> ro_status r = ''default''"

definition delete_release :: "release \<Rightarrow> fleet \<Rightarrow> string + rollout list \<times> fleet" where
  "delete_release r st =
     (let own = filter (\<lambda>x. ro_release_id x = rl_id r) (fl_rollouts st)
      in if list_ex in_flight own
         then Inl (rl_version r @ '' has a rollout in progress. Wait for it to finish (or stop), then remove it.'')
         else Inr (own, st\<lparr> fl_rollouts := filter (\<lambda>x. ro_release_id x \<noteq> rl_id r) (fl_rollouts st),
                            fl_releases := filter (\<lambda>x. rl_id x \<noteq> rl_id r) (fl_releases st) \<rparr>))"

section \<open>Reading the registry\<close>

definition check_registry ::
  "add_env \<Rightarrow> (string \<Rightarrow> string + string \<times> string) \<Rightarrow> instant \<Rightarrow> string \<Rightarrow> string \<Rightarrow> fleet \<Rightarrow>
   string + release \<times> fleet" where
  "check_registry env registry now actor tag st =
     (case registry tag of
        Inl e \<Rightarrow> Inl (''could not read '' @ DEFAULT_REPOSITORY @ '':'' @ tag @ '' from Docker Hub ('' @ e
                    @ ''). Where this dashboard has no route to Docker Hub, add the release by hand.'')
      | Inr (version, digest) \<Rightarrow>
          if version = [] \<or> version = ''dev''
          then Inl (DEFAULT_REPOSITORY @ '':'' @ tag @ '' carries no `dashboard-agent.version` label; it predates central upgrades.'')
          else add_release env now version digest (''Docker Hub '' @ DEFAULT_REPOSITORY @ '':'' @ tag) actor
                 ''registry'' [] st)"

record sync_report =
  sr_added :: "string list"
  sr_updated :: "string list"
  sr_unchanged :: "string list"
  sr_skipped :: "string list"
  sr_changes :: "(string \<times> string \<times> string) list"

definition empty_report :: sync_report where
  "empty_report = \<lparr> sr_added = [], sr_updated = [], sr_unchanged = [], sr_skipped = [], sr_changes = [] \<rparr>"

text \<open>One tag: the report, the versions seen so far, and the table.\<close>

definition sync_tag ::
  "add_env \<Rightarrow> (string \<Rightarrow> string + string \<times> string) \<Rightarrow> instant \<Rightarrow> string \<Rightarrow> string \<Rightarrow>
   sync_report \<times> string list \<times> fleet \<Rightarrow> sync_report \<times> string list \<times> fleet" where
  "sync_tag env registry now actor tag s =
     (case s of (out, seen_versions, st) \<Rightarrow>
        let skip = out\<lparr> sr_skipped := sr_skipped out @ [tag] \<rparr>
        in case registry tag of
             Inl _ \<Rightarrow> (skip, seen_versions, st)
           | Inr (version, digest) \<Rightarrow>
               if version = [] \<or> version = ''dev'' then (skip, seen_versions, st)
               else if version \<in> set seen_versions then (out, seen_versions, st)
               else (let prior = map_option rl_digest (by_version st version);
                         seen' = seen_versions @ [version]
                     in case add_release env now version digest (''Docker Hub '' @ DEFAULT_REPOSITORY @ '':'' @ tag)
                               actor ''registry'' [] st of
                          Inl _ \<Rightarrow> (skip, seen', st)
                        | Inr (_, st') \<Rightarrow>
                            (case prior of
                               None \<Rightarrow> (out\<lparr> sr_added := sr_added out @ [version] \<rparr>, seen', st')
                             | Some d \<Rightarrow>
                                 if d = digest
                                 then (out\<lparr> sr_unchanged := sr_unchanged out @ [version] \<rparr>, seen', st')
                                 else (out\<lparr> sr_updated := sr_updated out @ [version],
                                            sr_changes := sr_changes out @ [(version, d, digest)] \<rparr>, seen', st'))))"

definition sync_registry ::
  "add_env \<Rightarrow> string + string list \<Rightarrow> (string \<Rightarrow> string + string \<times> string) \<Rightarrow> instant \<Rightarrow> string \<Rightarrow> fleet \<Rightarrow>
   string + sync_report \<times> fleet" where
  "sync_registry env hub_tags registry now actor st =
     (case hub_tags of
        Inl e \<Rightarrow> Inl (''could not list '' @ DEFAULT_REPOSITORY @ '' on Docker Hub ('' @ e
                    @ ''). This dashboard needs outbound HTTPS to hub.docker.com and registry-1.docker.io.'')
      | Inr tags \<Rightarrow>
          (case fold (sync_tag env registry now actor)
                  (if ''latest'' \<in> set tags then tags else tags @ [''latest'']) (empty_report, [], st) of
             (out, _, st') \<Rightarrow> Inr (out, st')))"

section \<open>Tracks, proved\<close>

lemma clamp_lag_range: "0 \<le> clamp_lag v" "clamp_lag v \<le> MAX_LAG"
  by (auto simp: clamp_lag_def MAX_LAG_def split: option.splits)

lemma get_lag_range: "0 \<le> get_lag cfg" "get_lag cfg \<le> MAX_LAG"
  by (simp_all add: get_lag_def clamp_lag_range Let_def)

lemma workstream_lags_range:
  "n \<in> snd ` set (get_workstream_lags loads cfg) \<Longrightarrow> 0 \<le> n \<and> n \<le> MAX_LAG"
  by (auto simp: get_workstream_lags_def Let_def clamp_lag_range split: option.splits json.splits)

lemma lag_of_track_range: "0 \<le> lag_of_track loads cfg ws" "lag_of_track loads cfg ws \<le> MAX_LAG"
  using workstream_lags_range [of _ loads cfg] get_lag_range [of cfg]
  by (force simp: lag_of_track_def lag_for_def dest: map_of_SomeD split: option.splits)+

lemma clamp_lag_id: "0 \<le> n \<Longrightarrow> n \<le> MAX_LAG \<Longrightarrow> clamp_lag (JInt n) = n"
  by (simp add: clamp_lag_def)

lemma get_workstream_lags_stored:
  assumes "config_set WORKSTREAM_LAG_CONFIG (dumps (JObj (map (\<lambda>(k, n). (k, JInt n)) ls))) cfg = Some cfg'"
    and "\<And>v. loads (dumps v) = Some v" and "\<And>v. dumps v \<noteq> []"
    and "\<forall>n \<in> snd ` set ls. 0 \<le> n \<and> n \<le> MAX_LAG"
  shows "get_workstream_lags loads cfg' = ls"
proof -
  have "map (\<lambda>(k, v). (k, clamp_lag v)) (map (\<lambda>(k, n). (k, JInt n)) ls) = ls"
    using assms(4) by (induction ls) (auto simp: clamp_lag_id)
  then show ?thesis
    using assms(3) by (simp add: get_workstream_lags_def config_get_set [OF assms(1)] or_empty_def assms(2))
qed

lemma set_AList_update: "set (AList.update k v xs) \<subseteq> insert (k, v) (set xs)"
  by (induction xs) auto

lemma set_AList_delete: "set (AList.delete k xs) \<subseteq> set xs"
  by (simp add: AList.delete_eq)

text \<open>
  What was set is what is read: after the track of a workstream is set, that workstream, however its
  name is written, has the track, and every other keeps its own; cleared, it follows the dashboard;
  the dashboard-wide track leaves the workstreams alone. Anything but 0, 1, 2 (or -1 to clear) is
  refused and stores nothing.
\<close>

theorem set_lag_exact:
  assumes "\<And>v. loads (dumps v) = Some v" and "\<And>v. dumps v \<noteq> []" and "cfg_readable cfg"
  shows "case set_lag loads dumps lag ws cfg of
      Inl e \<Rightarrow> lag \<notin> {0, 1, 2} \<and> \<not> (lag = -1 \<and> py_lower (py_strip ws) \<noteq> [])
    | Inr cfg' \<Rightarrow>
        (\<forall>ws'. py_lower (py_strip ws') \<noteq> [] \<longrightarrow>
           lag_for loads cfg' ws' =
             (if py_lower (py_strip ws') = py_lower (py_strip ws)
              then (if lag = -1 then get_lag cfg' else lag)
              else (case map_of (get_workstream_lags loads cfg) (py_lower (py_strip ws')) of
                      None \<Rightarrow> get_lag cfg' | Some n \<Rightarrow> n)))
        \<and> get_lag cfg' = (if py_lower (py_strip ws) = [] then lag else get_lag cfg)"
proof -
  let ?ws = "py_lower (py_strip ws)"
  have keys: "WORKSTREAM_LAG_CONFIG \<noteq> LAG_CONFIG" by (simp add: WORKSTREAM_LAG_CONFIG_def LAG_CONFIG_def)
  have writable: "\<exists>cfg'. config_set k v cfg = Some cfg'" for k v
    using assms(3) by (simp add: config_set_def)
  have other: "get_lag cfg' = get_lag cfg" if "config_set WORKSTREAM_LAG_CONFIG v cfg = Some cfg'" for v cfg'
    using keys by (simp add: get_lag_def config_get_set [OF that])
  have same: "get_workstream_lags loads cfg' = get_workstream_lags loads cfg"
    if "config_set LAG_CONFIG v cfg = Some cfg'" for v cfg'
    using keys by (simp add: get_workstream_lags_def config_get_set [OF that])
  have own: "get_lag cfg' = lag" if "config_set LAG_CONFIG (py_str_int lag) cfg = Some cfg'" "0 \<le> lag" "lag < MAX_LAG + 1" for cfg'
    using that(2,3) by (simp add: get_lag_def config_get_set [OF that(1)] or_empty_def clamp_lag_def
        py_int_of_py_str Let_def)
  have range: "\<forall>n \<in> snd ` set (get_workstream_lags loads cfg). 0 \<le> n \<and> n \<le> MAX_LAG"
    using workstream_lags_range by blast
  have upd: "\<forall>n \<in> snd ` set (AList.update ?ws lag (get_workstream_lags loads cfg)). 0 \<le> n \<and> n \<le> MAX_LAG"
    if "0 \<le> lag" "lag < MAX_LAG + 1"
    using that range set_AList_update [of ?ws lag "get_workstream_lags loads cfg"] by fastforce
  have del: "\<forall>n \<in> snd ` set (AList.delete ?ws (get_workstream_lags loads cfg)). 0 \<le> n \<and> n \<le> MAX_LAG"
    using range set_AList_delete [of ?ws "get_workstream_lags loads cfg"] by blast
  note stored = get_workstream_lags_stored [OF _ assms(1,2)]
  consider (global) "?ws = []" "0 \<le> lag" "lag < MAX_LAG + 1" | (clear) "?ws \<noteq> []" "lag = -1"
    | (own) "?ws \<noteq> []" "0 \<le> lag" "lag < MAX_LAG + 1"
    | (bad) "\<not> (0 \<le> lag \<and> lag < MAX_LAG + 1)" "\<not> (?ws \<noteq> [] \<and> lag = -1)" by blast
  then show ?thesis
  proof cases
    case global
    obtain cfg' where c: "config_set LAG_CONFIG (py_str_int lag) cfg = Some cfg'" using writable by blast
    with global have "set_lag loads dumps lag ws cfg = Inr cfg'"
      by (simp add: set_lag_def store_lag_def Let_def)
    then show ?thesis using global by (simp add: own [OF c] same [OF c] lag_for_def)
  next
    case clear
    obtain cfg' where c: "config_set WORKSTREAM_LAG_CONFIG
        (dumps (JObj (map (\<lambda>(k, n). (k, JInt n)) (AList.delete ?ws (get_workstream_lags loads cfg))))) cfg = Some cfg'"
      using writable by blast
    with clear have "set_lag loads dumps lag ws cfg = Inr cfg'"
      by (simp add: set_lag_def store_lag_def Let_def)
    then show ?thesis using clear
      by (simp add: other [OF c] stored [OF c del] lag_for_def AList.delete_conv')
  next
    case own: own
    obtain cfg' where c: "config_set WORKSTREAM_LAG_CONFIG
        (dumps (JObj (map (\<lambda>(k, n). (k, JInt n)) (AList.update ?ws lag (get_workstream_lags loads cfg))))) cfg = Some cfg'"
      using writable by blast
    with own have "set_lag loads dumps lag ws cfg = Inr cfg'"
      by (simp add: set_lag_def store_lag_def Let_def)
    then show ?thesis using own
      by (simp add: other [OF c] stored [OF c upd] lag_for_def update_conv')
  next
    case bad
    then have "\<exists>e. set_lag loads dumps lag ws cfg = Inl e" by (auto simp: set_lag_def Let_def)
    with bad show ?thesis by (auto simp: MAX_LAG_def)
  qed
qed

abbreviation release_version :: "release \<Rightarrow> version" where
  "release_version r \<equiv> version_tuple (rl_version r)"

lemma list_releases_mset: "mset (list_releases st) = mset (fl_releases st)"
  by (simp add: list_releases_def)

lemma list_releases_sorted: "sorted_wrt (\<lambda>a b. release_version b \<le> release_version a) (list_releases st)"
proof -
  have "sorted (map release_version (sort_key release_version (rev (fl_releases st))))" by simp
  then show ?thesis by (simp add: list_releases_def sorted_wrt_rev sorted_wrt_map)
qed

lemma rank_in_descending:
  assumes "sorted_wrt (\<lambda>a b. f b \<le> f a) xs" and "k < length xs"
  shows "length (filter (\<lambda>x. f (xs ! k) < f x) xs) \<le> k"
    and "distinct (map f xs) \<Longrightarrow> length (filter (\<lambda>x. f (xs ! k) < f x) xs) = k"
    and "x \<in> set (drop k xs) \<Longrightarrow> f x \<le> (f (xs ! k) :: 'b :: linorder)"
proof -
  have tail: "f x \<le> f (xs ! k)" if x: "x \<in> set (drop k xs)" for x
  proof -
    obtain i where i: "i < length xs - k" "x = xs ! (k + i)" using x by (auto simp: in_set_conv_nth)
    then have "k + i < length xs" by simp
    then show ?thesis
      using i(2) sorted_wrt_nth_less [OF assms(1), of k "k + i"] by (cases "i = 0") auto
  qed
  then show "x \<in> set (drop k xs) \<Longrightarrow> f x \<le> f (xs ! k)" .
  have none: "filter (\<lambda>x. f (xs ! k) < f x) (drop k xs) = []"
    using tail by (auto simp: filter_empty_conv not_less)
  have split: "filter (\<lambda>x. f (xs ! k) < f x) xs = filter (\<lambda>x. f (xs ! k) < f x) (take k xs)"
    using none by (metis append_Nil2 append_take_drop_id filter_append)
  show "length (filter (\<lambda>x. f (xs ! k) < f x) xs) \<le> k"
    unfolding split by (rule order_trans [OF length_filter_le]) simp
  assume d: "distinct (map f xs)"
  have "f (xs ! k) < f x" if x: "x \<in> set (take k xs)" for x
  proof -
    obtain i where i: "i < k" "x = xs ! i" using x assms(2) by (auto simp: in_set_conv_nth)
    then have "f (xs ! k) \<le> f x" using sorted_wrt_nth_less [OF assms(1) i(1) assms(2)] by simp
    moreover have "f (xs ! i) \<noteq> f (xs ! k)"
      using d i(1) assms(2) nth_eq_iff_index_eq [OF d, of i k] by simp
    ultimately show ?thesis using i(2) by simp
  qed
  then show "length (filter (\<lambda>x. f (xs ! k) < f x) xs) = k"
    unfolding split using assms(2) by (simp add: filter_True)
qed

text \<open>
  The release offered on a track is as far behind the newest as the track says: at most that many
  recorded releases of the repository are newer, exactly that many when versions are distinct and so
  many are recorded, and when there are not it is the oldest; nothing is offered only when nothing is
  recorded.
\<close>

theorem target_release_rank:
  "case target_release loads st repository ws of
     None \<Rightarrow> filter (of_repository repository) (fl_releases st) = []
   | Some r \<Rightarrow>
       (let rows = filter (of_repository repository) (fl_releases st);
            lag = nat (lag_of_track loads (fl_cfg st) ws);
            newer = length (filter (\<lambda>x. release_version r < release_version x) rows)
        in r \<in> set rows \<and> newer \<le> lag
           \<and> (distinct (map release_version rows) \<longrightarrow> newer = min lag (length rows - 1)))"
proof -
  let ?rows = "filter (of_repository repository) (fl_releases st)"
  let ?xs = "filter (of_repository repository) (list_releases st)"
  let ?lag = "lag_of_track loads (fl_cfg st) ws"
  let ?k = "min (nat ?lag) (length ?xs - 1)"
  have m: "mset ?xs = mset ?rows" by (simp add: list_releases_mset)
  then have len: "length ?xs = length ?rows" and set: "set ?xs = set ?rows"
    by (metis size_mset, metis set_mset_mset)
  have count: "length (filter P ?xs) = length (filter P ?rows)" for P
    using m by (metis mset_filter size_mset)
  have srt: "sorted_wrt (\<lambda>a b. release_version b \<le> release_version a) ?xs"
    by (rule sorted_wrt_filter) (rule list_releases_sorted)
  have dist: "distinct (map release_version ?xs) = distinct (map release_version ?rows)"
    using m by (metis mset_map mset_eq_imp_distinct_iff)
  show ?thesis
  proof (cases "?xs = []")
    case True
    then have "?rows = []" using len by simp
    with True show ?thesis by (simp add: target_release_def)
  next
    case False
    have idx: "nat (min ?lag (int (length ?xs) - 1)) = ?k"
      using lag_of_track_range(1) [of loads "fl_cfg st" ws] False
      by (simp add: min_def nat_le_iff) linarith
    have k: "?k < length ?xs" using False by (simp add: min_less_iff_disj)
    have t: "target_release loads st repository ws = Some (?xs ! ?k)"
      using False idx by (simp add: target_release_def Let_def)
    have "?xs ! ?k \<in> set ?rows" using k set nth_mem by blast
    moreover have "length (filter (\<lambda>x. release_version (?xs ! ?k) < release_version x) ?rows) \<le> ?k"
      using rank_in_descending(1) [OF srt k] unfolding count .
    moreover have "length (filter (\<lambda>x. release_version (?xs ! ?k) < release_version x) ?rows) = ?k"
      if "distinct (map release_version ?rows)"
      using rank_in_descending(2) [OF srt k] that unfolding dist count by blast
    ultimately show ?thesis unfolding t option.case Let_def len by simp
  qed
qed

section \<open>The table of releases, proved\<close>

definition releases_ok :: "fleet \<Rightarrow> bool" where
  "releases_ok st \<longleftrightarrow> distinct (map rl_version (fl_releases st)) \<and> distinct (map rl_id (fl_releases st))"

definition fresh_release_ids :: "add_env \<Rightarrow> bool" where
  "fresh_release_ids env \<longleftrightarrow> (\<forall>rs. ae_release_id env rs \<notin> rl_id ` set rs)"

text \<open>
  How the table may change under a registry: rows recorded by hand are there unchanged, every other
  row is there up to its digest, repository and notes, and a row that is new or moved has a digest the
  registry serves for its version.
\<close>

definition table_step :: "(string \<Rightarrow> string + string \<times> string) \<Rightarrow> fleet \<Rightarrow> fleet \<Rightarrow> bool" where
  "table_step registry st st' \<longleftrightarrow>
     (\<forall>r \<in> set (fl_releases st). rl_source r \<noteq> ''registry'' \<longrightarrow> r \<in> set (fl_releases st'))
     \<and> (\<forall>r \<in> set (fl_releases st). \<exists>r' \<in> set (fl_releases st').
          rl_id r' = rl_id r \<and> rl_version r' = rl_version r \<and> rl_source r' = rl_source r)
     \<and> (\<forall>r' \<in> set (fl_releases st'). r' \<in> set (fl_releases st)
          \<or> (\<exists>tag version digest. registry tag = Inr (version, digest) \<and> rl_version r' = py_strip version
               \<and> rl_digest r' = py_lower (py_strip digest) \<and> is_digest (rl_digest r')
               \<and> rl_source r' = ''registry''))
     \<and> fl_rollouts st' = fl_rollouts st \<and> fl_jobs st' = fl_jobs st \<and> fl_agents st' = fl_agents st
     \<and> fl_cfg st' = fl_cfg st"

lemma table_step_refl: "table_step registry st st"
  by (auto simp: table_step_def)

lemma table_step_trans:
  assumes "table_step registry a b" and "table_step registry b c"
  shows "table_step registry a c"
  unfolding table_step_def
proof (intro conjI ballI impI)
  show "r \<in> set (fl_releases c)" if "r \<in> set (fl_releases a)" "rl_source r \<noteq> ''registry''" for r
    using assms that by (simp add: table_step_def)
  show "\<exists>r' \<in> set (fl_releases c). rl_id r' = rl_id r \<and> rl_version r' = rl_version r \<and> rl_source r' = rl_source r"
    if "r \<in> set (fl_releases a)" for r
    using assms that unfolding table_step_def by metis
  show "r' \<in> set (fl_releases a) \<or>
      (\<exists>tag version digest. registry tag = Inr (version, digest) \<and> rl_version r' = py_strip version
         \<and> rl_digest r' = py_lower (py_strip digest) \<and> is_digest (rl_digest r') \<and> rl_source r' = ''registry'')"
    if "r' \<in> set (fl_releases c)" for r'
    using assms that unfolding table_step_def by metis
qed (use assms in \<open>auto simp: table_step_def\<close>)

lemma validate_release_InrD:
  "validate_release quote v0 d0 = Inr (v, d) \<Longrightarrow>
     v = py_strip v0 \<and> d = py_lower (py_strip d0) \<and> is_version v \<and> is_digest d"
  by (auto simp: validate_release_def Let_def split: if_splits)

lemma by_version_SomeD: "by_version st v = Some r \<Longrightarrow> r \<in> set (fl_releases st) \<and> rl_version r = v"
  by (auto simp: by_version_def dest: find_Some_set)

lemma by_version_NoneD: "by_version st v = None \<Longrightarrow> v \<notin> rl_version ` set (fl_releases st)"
  by (auto simp: by_version_def find_None_iff)

lemma moved_row_simps [simp]:
  "rl_id (moved_row day now actor d repo r) = rl_id r" "rl_version (moved_row day now actor d repo r) = rl_version r"
  "rl_source (moved_row day now actor d repo r) = rl_source r" "rl_digest (moved_row day now actor d repo r) = d"
  by (simp_all add: moved_row_def Let_def)

lemma set_tbl_update_id:
  assumes "distinct (map rl_id rs)" and "r \<in> set rs" and "rl_id r' = rl_id r"
  shows "set (tbl_update (\<lambda>x. rl_id x = rl_id r) (\<lambda>_. r') rs) = insert r' (set rs - {r})"
  using assms by (induction rs) (auto simp: tbl_update_def image_iff)

lemma add_release_InrD:
  assumes "add_release env now v0 d0 notes actor source repo st = Inr (r, st')"
  obtains (kept) "st' = st" "r \<in> set (fl_releases st)"
  | (moved) r0 where "r0 \<in> set (fl_releases st)" "rl_version r0 = py_strip v0" "rl_source r0 = ''registry''"
      "source = ''registry''" "rl_id r = rl_id r0" "rl_version r = rl_version r0" "rl_source r = ''registry''"
      "rl_digest r = py_lower (py_strip d0)" "is_digest (rl_digest r)"
      "st' = st\<lparr> fl_releases := tbl_update (\<lambda>x. rl_id x = rl_id r0) (\<lambda>_. r) (fl_releases st) \<rparr>"
  | (new) "py_strip v0 \<notin> rl_version ` set (fl_releases st)" "rl_id r = ae_release_id env (fl_releases st)"
      "rl_version r = py_strip v0" "rl_source r = source" "rl_digest r = py_lower (py_strip d0)"
      "is_digest (rl_digest r)" "st' = st\<lparr> fl_releases := fl_releases st @ [r] \<rparr>"
proof -
  obtain v d where vd: "validate_release (ae_quote env) v0 d0 = Inr (v, d)"
    using assms by (auto simp: add_release_def split: sum.splits prod.splits)
  obtain repository where repo: "validate_repository repo = Inr repository"
    using assms vd by (auto simp: add_release_def split: sum.splits)
  note vd' = validate_release_InrD [OF vd]
  show thesis
  proof (cases "by_version st v")
    case None
    then have "Inr (r, st') = (let x = new_release env now v d repository notes actor source st
        in Inr (x, st\<lparr> fl_releases := fl_releases st @ [x] \<rparr>) :: string + release \<times> fleet)"
      using assms by (simp add: add_release_def vd repo)
    then show ?thesis
      using vd' by_version_NoneD [OF None] by (intro new; elim conjE) (simp_all add: new_release_def Let_def)
  next
    case (Some r0)
    note found = by_version_SomeD [OF Some]
    show ?thesis
    proof (cases "rl_digest r0 = d \<and> rl_repository r0 = repository")
      case True
      then show ?thesis using assms found by (intro kept) (auto simp: add_release_def vd repo Some)
    next
      case False
      with Some assms have "source = ''registry'' \<and> rl_source r0 = ''registry''"
        and "r = moved_row (ae_day env) now actor d repository r0
          \<and> st' = st\<lparr> fl_releases := tbl_update (\<lambda>x. rl_id x = rl_id r0) (\<lambda>_. r) (fl_releases st) \<rparr>"
        by (simp_all add: add_release_def vd repo Let_def split: if_splits) auto
      then show ?thesis using found vd' by (intro moved [of r0]; elim conjE) simp_all
    qed
  qed
qed

lemma add_release_ok:
  assumes "add_release env now v0 d0 notes actor source repo st = Inr (r, st')"
    and "releases_ok st" and "fresh_release_ids env"
  shows "releases_ok st'"
  using assms(1)
proof (cases rule: add_release_InrD)
  case kept
  then show ?thesis using assms(2) by simp
next
  case (moved r0)
  have "rl_version x = rl_version r0" if "x \<in> set (fl_releases st)" "rl_id x = rl_id r0" for x
    using that moved(1) assms(2) by (metis distinct_map inj_onD releases_ok_def)
  then have "map rl_version (tbl_update (\<lambda>x. rl_id x = rl_id r0) (\<lambda>_. r) (fl_releases st)) = map rl_version (fl_releases st)"
    using moved(6) by (simp add: tbl_update_def)
  moreover have "map rl_id (tbl_update (\<lambda>x. rl_id x = rl_id r0) (\<lambda>_. r) (fl_releases st)) = map rl_id (fl_releases st)"
    using moved by (auto simp: tbl_update_def)
  ultimately show ?thesis using assms(2) moved(10) by (simp add: releases_ok_def)
next
  case new
  then show ?thesis
    using assms(2,3) by (auto simp: releases_ok_def fresh_release_ids_def)
qed

lemma add_release_step:
  assumes "add_release env now v0 d0 notes actor ''registry'' repo st = Inr (r, st')"
    and "releases_ok st" and "registry tag = Inr (v0, d0)"
  shows "table_step registry st st'"
  using assms(1)
proof (cases rule: add_release_InrD)
  case kept
  then show ?thesis by (simp add: table_step_refl)
next
  case (moved r0)
  have "set (fl_releases st') = insert r (set (fl_releases st) - {r0})"
    using set_tbl_update_id [of "fl_releases st" r0 r] moved assms(2) by (simp add: releases_ok_def)
  with moved assms(3) show ?thesis by (fastforce simp: table_step_def)
next
  case new
  then show ?thesis using assms(3) by (fastforce simp: table_step_def)
qed

lemma by_version_None_iff: "by_version st v = None \<longleftrightarrow> v \<notin> rl_version ` set (fl_releases st)"
  by (auto simp: by_version_def find_None_iff)

lemma sync_tag_keeps:
  assumes "sync_tag env registry now actor tag (out, seen_versions, st) = (out', seen', st')"
    and "releases_ok st" and "fresh_release_ids env"
  shows "releases_ok st' \<and> table_step registry st st'"
proof (cases "registry tag")
  case (Inl e)
  then show ?thesis using assms by (simp add: sync_tag_def Let_def table_step_refl)
next
  case (Inr vd)
  obtain v d where vd: "vd = (v, d)" by (cases vd)
  let ?add = "add_release env now v d (''Docker Hub '' @ DEFAULT_REPOSITORY @ '':'' @ tag) actor ''registry'' [] st"
  have "st' = st \<or> (\<exists>r. ?add = Inr (r, st'))"
    using assms(1) by (auto simp: sync_tag_def Inr vd Let_def split: if_splits sum.splits option.splits)
  then show ?thesis
    using add_release_ok [OF _ assms(2,3)] add_release_step [OF _ assms(2), of _ _ v d _ _ _ _ _ registry tag] assms(2)
    by (auto simp: Inr vd table_step_refl)
qed

text \<open>
  Reading the registry changes only what the registry wrote. Whatever tags it lists and whatever it
  serves, releases recorded by hand keep their digest, no release and no rollout is lost, no version is
  recorded twice, and every row that is new or moved carries a well-formed digest the registry serves
  for that version.
\<close>

theorem sync_registry_keeps_manual:
  assumes "sync_registry env tags registry now actor st = Inr (out, st')"
    and "releases_ok st" and "fresh_release_ids env"
  shows "releases_ok st' \<and> table_step registry st st'"
proof -
  have "releases_ok st2 \<and> table_step registry st st2"
    if "fold (sync_tag env registry now actor) ts (o1, s1, st1) = (o2, s2, st2)"
      "releases_ok st1 \<and> table_step registry st st1" for ts o1 s1 st1 o2 s2 st2
    using that
  proof (induction ts arbitrary: o1 s1 st1)
    case (Cons t ts)
    obtain o3 s3 st3 where one: "sync_tag env registry now actor t (o1, s1, st1) = (o3, s3, st3)"
      by (metis prod_cases3)
    then show ?case
      using Cons sync_tag_keeps [OF one _ assms(3)] table_step_trans by (metis comp_apply fold.simps(2))
  qed simp
  then show ?thesis
    using assms(1,2) by (auto simp: sync_registry_def table_step_refl split: sum.splits prod.splits)
qed

section \<open>Instances\<close>

definition hand_row :: release where
  "hand_row =
     \<lparr> rl_id = ''r1'', rl_version = ''2.10.1'', rl_repository = ''chrweav/dashboard-agent'',
       rl_digest = ''sha256:'' @ replicate 64 (CHR ''a''), rl_notes = None, rl_source = ''manual'',
       rl_created_at = 1, rl_created_by = ''ops'' \<rparr>"

definition hub_env :: add_env where
  "hub_env = \<lparr> ae_quote = (\<lambda>s. s), ae_day = (\<lambda>_. ''2026-01-01''),
     ae_release_id = (\<lambda>rs. concat (map rl_id rs) @ ''+'') \<rparr>"

definition hub :: "string \<Rightarrow> string + string \<times> string" where
  "hub tag = (if tag = ''latest'' then Inr (''2.10.1'', ''sha256:'' @ replicate 64 (CHR ''b''))
              else if tag = ''v9'' then Inr (''2.11.0'', ''SHA256:'' @ replicate 64 (CHR ''C''))
              else Inl ''timeout'')"

definition hand_fleet :: fleet where
  "hand_fleet = \<lparr> fl_cfg = default_config, fl_agents = [], fl_releases = [hand_row], fl_rollouts = [],
     fl_jobs = empty_db \<rparr>"

lemma fresh_hub: "fresh_release_ids hub_env"
proof -
  have "length (rl_id r) \<le> length (concat (map rl_id rs))" if "r \<in> set rs" for r and rs :: "release list"
    using that by (induction rs) auto
  then show ?thesis by (auto simp: fresh_release_ids_def hub_env_def dest!: arg_cong [where f = length]) force
qed

lemma hub_reads:
  "fold (sync_tag hub_env hub 5 ''ops'') [''v9'', ''old'', ''latest''] (empty_report, [], hand_fleet) =
     (empty_report\<lparr> sr_added := [''2.11.0''], sr_skipped := [''old'', ''latest''] \<rparr>, [''2.11.0'', ''2.10.1''],
      hand_fleet\<lparr> fl_releases := [hand_row,
        \<lparr> rl_id = ''r1+'', rl_version = ''2.11.0'', rl_repository = ''chrweav/dashboard-agent'',
          rl_digest = ''sha256:'' @ replicate 64 (CHR ''c''),
          rl_notes = Some ''Docker Hub chrweav/dashboard-agent:v9'', rl_source = ''registry'',
          rl_created_at = 5, rl_created_by = ''ops'' \<rparr>] \<rparr>)"
proof -
  have v9: "validate_release (\<lambda>s. s) ''2.11.0'' (''SHA256:'' @ replicate 64 (CHR ''C'')) =
      Inr (''2.11.0'', ''sha256:'' @ replicate 64 (CHR ''c''))" by code_simp
  have latest: "validate_release (\<lambda>s. s) ''2.10.1'' (''sha256:'' @ replicate 64 (CHR ''b'')) =
      Inr (''2.10.1'', ''sha256:'' @ replicate 64 (CHR ''b''))" by code_simp
  have repo: "validate_repository [] = Inr ''chrweav/dashboard-agent''" by code_simp
  have note_text: "take_chars 2000 ''Docker Hub chrweav/dashboard-agent:v9'' = ''Docker Hub chrweav/dashboard-agent:v9''"
    by code_simp
  have ab: "replicate 64 (CHR ''a'') \<noteq> replicate 64 (CHR ''b'')" by simp
  show ?thesis
    using v9 latest repo note_text ab
    by (simp add: sync_tag_def add_release_def hub_def hub_env_def hand_fleet_def hand_row_def by_version_def
        new_release_def or_none_def DEFAULT_REPOSITORY_def empty_report_def Let_def)
qed

theorem sync_registry_keeps_manual_witness:
  "hand_row \<in> set (fl_releases (snd (projr (sync_registry hub_env (Inr [''v9'', ''old'']) hub 5 ''ops'' hand_fleet))))"
proof -
  have ok: "releases_ok hand_fleet" by (simp add: releases_ok_def hand_fleet_def)
  obtain out st' where r: "sync_registry hub_env (Inr [''v9'', ''old'']) hub 5 ''ops'' hand_fleet = Inr (out, st')"
    using hub_reads by (auto simp: sync_registry_def)
  have "table_step hub hand_fleet st'"
    using sync_registry_keeps_manual [OF r ok fresh_hub] by simp
  moreover have "hand_row \<in> set (fl_releases hand_fleet)" "rl_source hand_row \<noteq> ''registry''"
    by (simp_all add: hand_fleet_def) (simp add: hand_row_def)
  ultimately show ?thesis by (simp add: r table_step_def)
qed

end
