(* ===== verification/Agent_Lifecycle.thy ===== *)
theory Agent_Lifecycle
  imports Agent_Release Change_Window
begin

text \<open>
  Upgrade, restart, pause and canary-first rollouts of the remote agents
  (\<open>services/agent_lifecycle_service.py\<close> and its endpoints in \<open>api/agent.py\<close>).

  Parameters, in \<open>life_env\<close>: the JSON parser of the stored tracks, the ids of new rows, the time
  zones, the change windows, and the text of the error a window that cannot be booked raises. Agents
  are taken in the order of the characters of their names.
\<close>

section \<open>Who can be upgraded\<close>

definition MIN_LIFECYCLE_VERSION :: "int \<times> int" where "MIN_LIFECYCLE_VERSION = (2, 10)"

definition RINGS :: "string list" where "RINGS = [''canary'', ''default'']"

record life_env =
  lf_loads :: "string \<Rightarrow> json option"
  lf_mint :: "jdb \<Rightarrow> string"
  lf_rollout_id :: "rollout list \<Rightarrow> string"
  lf_zones :: "string \<Rightarrow> zone option"
  lf_fromiso :: "string \<Rightarrow> run_at_text"
  lf_windows :: "change_window list"
  lf_error :: "schedule_error \<Rightarrow> string"

definition agent_ring :: "agent \<Rightarrow> string" where
  "agent_ring a = (if or_empty (ag_upgrade_ring a) \<in> set RINGS then or_empty (ag_upgrade_ring a) else ''default'')"

definition open_control_job :: "string \<Rightarrow> job \<Rightarrow> bool" where
  "open_control_job aid j \<longleftrightarrow>
     j_agent_id j = Some aid \<and> j_job_type j \<in> set CONTROL_JOB_TYPES \<and> j_status j \<in> {''queued'', ''running''}"

definition pending_control_job :: "jdb \<Rightarrow> agent \<Rightarrow> job option" where
  "pending_control_job db a = List.find (open_control_job (ag_id a)) (jobs db)"

text \<open>The first reason that applies; no database leaves out the check that needs a query.\<close>

definition host_gate :: "jdb option \<Rightarrow> agent \<Rightarrow> string option" where
  "host_gate db a =
     (if \<not> ag_is_active a then Some ''This agent is revoked.''
      else if (if or_empty (ag_auth_mode a) \<noteq> [] then or_empty (ag_auth_mode a) else ''ed25519'') \<noteq> ''spiffe''
      then Some ''Migrate to SPIRE first: upgrade and restart need an agent attested through SPIRE, whose identity survives a new container.''
      else if \<not> version_at_least a MIN_LIFECYCLE_VERSION
      then Some (''Upgrade to 2.10 by hand once: this agent reports ''
                 @ (if or_empty (ag_agent_version a) \<noteq> [] then or_empty (ag_agent_version a) else ''no version'')
                 @ '', which predates central upgrades.'')
      else if ag_control_upgrades a \<noteq> Some True
      then Some (''Enable upgrades in this agent'' @ [CHR 0x27]
                 @ ''s policy.yaml (the `upgrades:` block); the host decides, not the dashboard.'')
      else if ag_control_updater a \<noteq> Some True
      then Some ''Add the updater container beside this agent (examples/remote-agent/docker-compose.updater.yml).''
      else if ag_paused a = Some True then Some ''This agent is paused. Resume it first.''
      else (case db of
              None \<Rightarrow> None
            | Some d \<Rightarrow>
                if pending_control_job d a \<noteq> None
                then Some ''Another upgrade or restart is already queued or running for this agent.''
                else None))"

section \<open>Queueing\<close>

type_synonym schedule_args = "(booking \<times> bool) option"

definition control_job :: "string \<Rightarrow> string \<Rightarrow> dict \<Rightarrow> string \<Rightarrow> schedule_args \<Rightarrow> new_job" where
  "control_job aid job_type meta actor schedule =
     \<lparr> nj_job_type = job_type, nj_created_by = actor, nj_vm_path = None, nj_workgroup = Some ''agents'',
       nj_metadata = meta, nj_batch_id = None, nj_status = ''pending'', nj_expires_at = None,
       nj_agent_id = Some aid,
       nj_scheduled_for = (case schedule of None \<Rightarrow> None | Some (b, _) \<Rightarrow> bk_scheduled_for b),
       nj_window_ends_at = (case schedule of None \<Rightarrow> None | Some (b, _) \<Rightarrow> bk_window_ends_at b),
       nj_change_window_id = (case schedule of None \<Rightarrow> None | Some (b, _) \<Rightarrow> bk_change_window_id b),
       nj_job_schedule_id = None,
       nj_approval_required = (case schedule of None \<Rightarrow> False | Some (_, need) \<Rightarrow> need) \<rparr>"

definition enqueue_control ::
  "life_env \<Rightarrow> config \<Rightarrow> instant \<Rightarrow> agent \<Rightarrow> string \<Rightarrow> dict \<Rightarrow> string \<Rightarrow> schedule_args \<Rightarrow> jdb \<Rightarrow>
   string + jdb \<times> job" where
  "enqueue_control env cfg now a job_type meta actor schedule db =
     (case host_gate (Some db) a of
        Some reason \<Rightarrow> Inl reason
      | None \<Rightarrow> Inr (create_job (lf_loads env) cfg now (lf_mint env db)
                       (control_job (ag_id a) job_type meta actor schedule) db))"

definition upgrade_meta :: "agent \<Rightarrow> release \<Rightarrow> string \<Rightarrow> dict" where
  "upgrade_meta a r rollout_id =
     [(''repository'', JStr (if rl_repository r \<noteq> [] then rl_repository r else DEFAULT_REPOSITORY)),
      (''digest'', JStr (rl_digest r)), (''version'', JStr (rl_version r)), (''release_id'', JStr (rl_id r)),
      (''from_version'', JStr (or_empty (ag_agent_version a)))]
     @ (if rollout_id \<noteq> [] then [(''rollout_id'', JStr rollout_id)] else [])"

definition upgrade_agent ::
  "life_env \<Rightarrow> config \<Rightarrow> instant \<Rightarrow> agent \<Rightarrow> release \<Rightarrow> string \<Rightarrow> schedule_args \<Rightarrow> bool \<Rightarrow> string \<Rightarrow> jdb \<Rightarrow>
   string + jdb \<times> job" where
  "upgrade_agent env cfg now a r actor schedule force rollout_id db =
     (let current = version_tuple (or_empty (ag_agent_version a)); wanted = version_tuple (rl_version r)
      in if wanted = current then Inl (ag_name a @ '' already runs '' @ rl_version r @ ''.'')
         else if wanted < current \<and> \<not> force
         then Inl (rl_version r @ '' is older than '' @ ag_name a @ '' (''
                   @ (case ag_agent_version a of None \<Rightarrow> ''None'' | Some v \<Rightarrow> v)
                   @ ''). A downgrade needs force, and the agent'' @ [CHR 0x27] @ ''s policy.yaml must allow it too.'')
         else enqueue_control env cfg now a ''agent_upgrade'' (upgrade_meta a r rollout_id) actor schedule db)"

definition restart_agent ::
  "life_env \<Rightarrow> config \<Rightarrow> instant \<Rightarrow> agent \<Rightarrow> string \<Rightarrow> schedule_args \<Rightarrow> jdb \<Rightarrow> string + jdb \<times> job" where
  "restart_agent env cfg now a actor schedule db =
     enqueue_control env cfg now a ''agent_restart'' [(''version'', JStr (or_empty (ag_agent_version a)))]
       actor schedule db"

section \<open>Completion\<close>

definition check_completion :: "job \<Rightarrow> string \<Rightarrow> dict \<Rightarrow> string \<Rightarrow> string \<times> string" where
  "check_completion j status result error =
     (if j_job_type j \<noteq> ''agent_upgrade'' \<or> status \<noteq> ''completed'' then (status, error)
      else (let wanted = or_empty_text (dict_get (metadata_dict j) ''version'');
                got = or_empty_text (dict_get result ''version'')
            in if got \<noteq> wanted
               then (''failed'', ''the agent reported '' @ (if got \<noteq> [] then got else ''no version'')
                                 @ '' after the upgrade, not '' @ wanted)
               else (status, error)))"

text \<open>\<open>complete\<close> for a control job: the checked outcome goes to the row.\<close>

definition complete_control :: "config \<Rightarrow> instant \<Rightarrow> job \<Rightarrow> string \<Rightarrow> dict \<Rightarrow> string \<Rightarrow> jdb \<Rightarrow> string \<times> jdb" where
  "complete_control cfg now j status result error db =
     (let (status', error') = (if j_job_type j \<in> set CONTROL_JOB_TYPES
                               then check_completion j status result error else (status, error))
      in complete_job cfg now j status' result error' db)"

section \<open>Pause and ring\<close>

definition upd_fleet_agent :: "string \<Rightarrow> (agent \<Rightarrow> agent) \<Rightarrow> fleet \<Rightarrow> fleet" where
  "upd_fleet_agent aid f st = st\<lparr> fl_agents := tbl_update (\<lambda>a. ag_id a = aid) f (fl_agents st) \<rparr>"

definition set_paused :: "string \<Rightarrow> bool \<Rightarrow> fleet \<Rightarrow> fleet" where
  "set_paused aid paused =
     upd_fleet_agent aid (\<lambda>a. a\<lparr> ag_paused := (if paused then Some True else None) \<rparr>)"

definition set_ring :: "string \<Rightarrow> string \<Rightarrow> fleet \<Rightarrow> string + fleet" where
  "set_ring aid value st =
     (if value \<notin> set RINGS then Inl ''ring must be one of canary, default''
      else Inr (upd_fleet_agent aid
                  (\<lambda>a. a\<lparr> ag_upgrade_ring := (if value = ''default'' then None else Some value) \<rparr>) st))"

section \<open>One ring of a rollout\<close>

definition held_by_track :: "life_env \<Rightarrow> fleet \<Rightarrow> agent \<Rightarrow> release \<Rightarrow> string" where
  "held_by_track env st a r =
     (let ws = or_empty (ag_workstream a)
      in case target_release (lf_loads env) st [] ws of
           None \<Rightarrow> []
         | Some tracked \<Rightarrow>
             if version_tuple (rl_version r) \<le> version_tuple (rl_version tracked) then []
             else (let lag = lag_for (lf_loads env) (fl_cfg st) ws;
                       label = (if lag = 0 then ''n'' else ''n-'' @ py_str_int lag);
                       where_text = (if ws \<noteq> [] then ''workstream '' @ ws else ''the dashboard default'')
                   in ''on track '' @ label @ '' ('' @ where_text @ ''), which stops at '' @ rl_version tracked))"

definition already_on :: "agent \<Rightarrow> release \<Rightarrow> bool" where
  "already_on a r \<longleftrightarrow> version_tuple (or_empty (ag_agent_version a)) \<ge> version_tuple (rl_version r)"

text \<open>The state of the loop: the reasons, the queued ids, and the jobs.\<close>

type_synonym ring_state = "(string \<times> string) list \<times> string list \<times> jdb"

definition queue_one ::
  "life_env \<Rightarrow> instant \<Rightarrow> fleet \<Rightarrow> string \<Rightarrow> release \<Rightarrow> string \<Rightarrow> string \<Rightarrow> schedule_args \<Rightarrow> agent \<Rightarrow>
   ring_state \<Rightarrow> ring_state" where
  "queue_one env now st rollout_id r which actor schedule a s =
     (case s of (skipped, queued, db) \<Rightarrow>
        if agent_ring a \<noteq> which then s
        else if already_on a r
        then (AList.update (ag_name a) (''already on '' @ (case ag_agent_version a of None \<Rightarrow> ''None'' | Some v \<Rightarrow> v)) skipped,
              queued, db)
        else if held_by_track env st a r \<noteq> []
        then (AList.update (ag_name a) (held_by_track env st a r) skipped, queued, db)
        else (case upgrade_agent env (fl_cfg st) now a r actor schedule False rollout_id db of
                Inl reason \<Rightarrow> (AList.update (ag_name a) reason skipped, queued, db)
              | Inr (db', j) \<Rightarrow> (AList.delete (ag_name a) skipped, queued @ [j_id j], db')))"

definition active_agents :: "fleet \<Rightarrow> agent list" where
  "active_agents st = filter ag_is_active (fl_agents st)"

definition queue_ring ::
  "life_env \<Rightarrow> instant \<Rightarrow> rollout \<Rightarrow> release \<Rightarrow> string \<Rightarrow> string \<Rightarrow> schedule_args \<Rightarrow> fleet \<Rightarrow> ring_state" where
  "queue_ring env now ro r which actor schedule st =
     fold (queue_one env now st (ro_id ro) r which actor schedule) (sort_key ag_name (active_agents st))
       (ro_skipped ro, [], fl_jobs st)"

definition preview_one :: "life_env \<Rightarrow> fleet \<Rightarrow> release \<Rightarrow> agent \<Rightarrow> (string \<times> string) list \<Rightarrow> (string \<times> string) list" where
  "preview_one env st r a skipped =
     (if agent_ring a \<noteq> ''default'' \<or> already_on a r then skipped
      else (let reason = (case host_gate None a of Some g \<Rightarrow> g | None \<Rightarrow> held_by_track env st a r)
            in if reason \<noteq> [] then AList.update (ag_name a) reason skipped else skipped))"

definition preview_default :: "life_env \<Rightarrow> fleet \<Rightarrow> release \<Rightarrow> rollout \<Rightarrow> rollout" where
  "preview_default env st r ro =
     ro\<lparr> ro_skipped := fold (preview_one env st r) (active_agents st) (ro_skipped ro) \<rparr>"

section \<open>Rollouts\<close>

definition advance_to_default ::
  "life_env \<Rightarrow> instant \<Rightarrow> release \<Rightarrow> schedule_args \<Rightarrow> rollout \<Rightarrow> fleet \<Rightarrow> rollout \<times> fleet" where
  "advance_to_default env now r schedule ro st =
     (case queue_ring env now ro r ''default'' (if ro_created_by ro \<noteq> [] then ro_created_by ro else ''rollout'')
             schedule st of
        (skipped, ids, db) \<Rightarrow>
          (ro\<lparr> ro_skipped := skipped, ro_default_job_ids := ids, ro_status := ''default'' \<rparr>, st\<lparr> fl_jobs := db \<rparr>))"

definition new_rollout :: "life_env \<Rightarrow> instant \<Rightarrow> release \<Rightarrow> string \<Rightarrow> string \<Rightarrow> fleet \<Rightarrow> rollout" where
  "new_rollout env now r actor window_id st =
     \<lparr> ro_id = lf_rollout_id env (fl_rollouts st), ro_release_id = rl_id r,
       ro_change_window_id = or_none (Some window_id), ro_status = ''canary'', ro_canary_job_ids = [],
       ro_default_job_ids = [], ro_skipped = [], ro_detail = None, ro_created_at = now,
       ro_created_by = actor, ro_finished_at = None, ro_hidden_at = None \<rparr>"

definition start_rollout ::
  "life_env \<Rightarrow> instant \<Rightarrow> release \<Rightarrow> string \<Rightarrow> schedule_args \<Rightarrow> string \<Rightarrow> fleet \<Rightarrow> rollout \<times> fleet" where
  "start_rollout env now r actor schedule window_id st =
     (let ro = new_rollout env now r actor window_id st
      in case queue_ring env now ro r ''canary'' actor schedule st of
           (skipped, ids, db) \<Rightarrow>
             (let ro1 = ro\<lparr> ro_skipped := skipped, ro_canary_job_ids := ids \<rparr>;
                  st1 = st\<lparr> fl_jobs := db \<rparr>;
                  (ro2, st2) = (if ids = [] then advance_to_default env now r schedule ro1 st1
                                else (preview_default env st1 r ro1, st1))
              in (ro2, st2\<lparr> fl_rollouts := fl_rollouts st2 @ [ro2] \<rparr>)))"

text \<open>All done, and the first job that failed or was cancelled.\<close>

definition ring_state :: "jdb \<Rightarrow> string list \<Rightarrow> bool \<times> job option" where
  "ring_state db ids =
     (if ids = [] then (True, None)
      else (let rows = filter (\<lambda>j. j_id j \<in> set ids) (jobs db)
            in case List.find (\<lambda>j. j_status j \<in> {''failed'', ''cancelled''}) rows of
                 Some j \<Rightarrow> (False, Some j)
               | None \<Rightarrow> (list_all (\<lambda>j. j_status j = ''completed'') rows \<and> length rows = length ids, None)))"

definition schedule_for_default :: "life_env \<Rightarrow> config \<Rightarrow> instant \<Rightarrow> rollout \<Rightarrow> schedule_error + schedule_args" where
  "schedule_for_default env cfg now ro =
     (if or_empty (ro_change_window_id ro) = [] then Inr None
      else schedule_kwargs (lf_zones env) (lf_fromiso env) cfg (lf_windows env) [] []
             (or_empty (ro_change_window_id ro)) now)"

definition stop_detail :: "fleet \<Rightarrow> job \<Rightarrow> string" where
  "stop_detail st j =
     (let aid = or_empty (j_agent_id j);
          name = (case List.find (\<lambda>a. ag_id a = aid) (fl_agents st) of
                    Some a \<Rightarrow> if ag_name a \<noteq> [] then ag_name a else aid
                  | None \<Rightarrow> aid)
      in ''stopped: the upgrade of '' @ name @ '' '' @ j_status j
         @ (if or_empty (j_error_message j) \<noteq> [] then '': '' @ or_empty (j_error_message j) else []))"

definition advance_one :: "life_env \<Rightarrow> instant \<Rightarrow> rollout \<Rightarrow> fleet \<Rightarrow> rollout \<times> fleet \<times> bool" where
  "advance_one env now ro st =
     (case ring_state (fl_jobs st)
             (if ro_status ro = ''canary'' then ro_canary_job_ids ro else ro_default_job_ids ro) of
        (_, Some j) \<Rightarrow>
          (ro\<lparr> ro_status := ''stopped'', ro_detail := Some (stop_detail st j), ro_finished_at := Some now \<rparr>, st, True)
      | (all_done, None) \<Rightarrow>
          if \<not> all_done then (ro, st, False)
          else if ro_status ro = ''canary''
          then (case find_release st (ro_release_id ro) of
                  None \<Rightarrow>
                    (ro\<lparr> ro_status := ''stopped'', ro_detail := Some ''stopped: the release was deleted'',
                         ro_finished_at := Some now \<rparr>, st, True)
                | Some r \<Rightarrow>
                    (case schedule_for_default env (fl_cfg st) now ro of
                       Inl e \<Rightarrow>
                         (case advance_to_default env now r None
                                 (ro\<lparr> ro_detail := Some (''default ring queued now: '' @ lf_error env e) \<rparr>) st of
                            (ro', st') \<Rightarrow> (ro', st', True))
                     | Inr schedule \<Rightarrow>
                         (case advance_to_default env now r schedule ro st of (ro', st') \<Rightarrow> (ro', st', True))))
          else (ro\<lparr> ro_status := ''done'', ro_finished_at := Some now \<rparr>, st, True))"

definition advance_step :: "life_env \<Rightarrow> instant \<Rightarrow> string \<Rightarrow> fleet \<times> nat \<Rightarrow> fleet \<times> nat" where
  "advance_step env now rid s =
     (case List.find (\<lambda>x. ro_id x = rid) (fl_rollouts (fst s)) of
        None \<Rightarrow> s
      | Some ro \<Rightarrow>
          (case advance_one env now ro (fst s) of
             (ro', st', changed) \<Rightarrow>
               (st'\<lparr> fl_rollouts := tbl_update (\<lambda>x. ro_id x = rid) (\<lambda>_. ro') (fl_rollouts st') \<rparr>,
                if changed then Suc (snd s) else snd s)))"

definition advance_rollouts :: "life_env \<Rightarrow> instant \<Rightarrow> fleet \<Rightarrow> fleet \<times> nat" where
  "advance_rollouts env now st =
     fold (advance_step env now) (map ro_id (filter in_flight (fl_rollouts st))) (st, 0)"

text \<open>Hiding finished rollouts.\<close>

definition clear_rollouts :: "instant \<Rightarrow> fleet \<Rightarrow> fleet \<times> nat" where
  "clear_rollouts now st =
     (let p = (\<lambda>r. \<not> in_flight r \<and> ro_hidden_at r = None)
      in (st\<lparr> fl_rollouts := tbl_update p (\<lambda>r. r\<lparr> ro_hidden_at := Some now \<rparr>) (fl_rollouts st) \<rparr>,
          rowcount p (fl_rollouts st)))"

definition clear_rollout :: "instant \<Rightarrow> string \<Rightarrow> fleet \<Rightarrow> (int \<times> string) + fleet" where
  "clear_rollout now rid st =
     (case List.find (\<lambda>x. ro_id x = rid) (fl_rollouts st) of
        None \<Rightarrow> Inl (404, ''Rollout not found.'')
      | Some r \<Rightarrow>
          if in_flight r then Inl (409, ''That rollout is still in progress.'')
          else Inr (st\<lparr> fl_rollouts := tbl_update (\<lambda>x. ro_id x = rid)
                  (\<lambda>x. x\<lparr> ro_hidden_at := (case ro_hidden_at x of None \<Rightarrow> Some now | Some t \<Rightarrow> Some t) \<rparr>)
                  (fl_rollouts st) \<rparr>))"

section \<open>One control job at a time\<close>

definition one_control_job :: "jdb \<Rightarrow> bool" where
  "one_control_job db \<longleftrightarrow> (\<forall>aid. length (filter (open_control_job aid) (jobs db)) \<le> 1)"

lemma host_gate_Some_db:
  "host_gate (Some db) a = None \<longleftrightarrow> host_gate None a = None \<and> pending_control_job db a = None"
  by (simp add: host_gate_def)

lemma host_gate_None:
  "host_gate None a = None \<longleftrightarrow>
     ag_is_active a \<and> or_empty (ag_auth_mode a) = ''spiffe'' \<and> version_at_least a MIN_LIFECYCLE_VERSION
     \<and> ag_control_upgrades a = Some True \<and> ag_control_updater a = Some True \<and> ag_paused a \<noteq> Some True"
  by (simp add: host_gate_def)

lemma control_row:
  "j_id (new_row loads cfg now uuid (control_job aid t meta actor schedule)) = uuid"
  "j_job_type (new_row loads cfg now uuid (control_job aid t meta actor schedule)) = t"
  "aid \<noteq> [] \<Longrightarrow> j_agent_id (new_row loads cfg now uuid (control_job aid t meta actor schedule)) = Some aid"
  "aid \<noteq> [] \<Longrightarrow> j_status (new_row loads cfg now uuid (control_job aid t meta actor schedule)) = ''queued''"
  "meta \<noteq> [] \<Longrightarrow> metadata_dict (new_row loads cfg now uuid (control_job aid t meta actor schedule)) = meta"
  by (simp_all add: new_row_def control_job_def or_none_def or_empty_def metadata_dict_def Let_def)

lemma enqueue_control_InrD:
  assumes "enqueue_control env cfg now a t meta actor schedule db = Inr (db', j)"
  shows "host_gate (Some db) a = None" and "jobs db' = jobs db @ [j]"
    and "j = new_row (lf_loads env) cfg now (lf_mint env db) (control_job (ag_id a) t meta actor schedule)"
  using assms by (auto simp: enqueue_control_def create_job_def Let_def split: option.splits)

lemma enqueue_control_one:
  assumes "enqueue_control env cfg now a t meta actor schedule db = Inr (db', j)"
    and "one_control_job db" and "ag_id a \<noteq> []"
  shows "one_control_job db'"
proof -
  note q = enqueue_control_InrD [OF assms(1)]
  have "filter (open_control_job (ag_id a)) (jobs db) = []"
    using q(1) by (simp add: host_gate_Some_db pending_control_job_def find_None_iff filter_empty_conv)
  moreover have "open_control_job aid j \<Longrightarrow> aid = ag_id a" for aid
    using assms(3) by (simp add: q(3) open_control_job_def control_row)
  ultimately show ?thesis
    using assms(2) q(2) by (fastforce simp: one_control_job_def)
qed

text \<open>
  C15. Whoever queues it, by hand or by a rollout, an upgrade or a restart reaches only an active,
  unpaused agent that is attested through SPIRE, reports a build with the control handlers and an
  updater, and whose host opted in; and no agent ever has two of them open. An upgrade moves the agent
  to another version, and to an older one only when forced.
\<close>

theorem control_job_gated:
  assumes "t = ''agent_upgrade'' \<and> upgrade_agent env cfg now a r actor schedule force rid db = Inr (db', j)
      \<or> t = ''agent_restart'' \<and> restart_agent env cfg now a actor schedule db = Inr (db', j)"
    and "ag_id a \<noteq> []" and "one_control_job db"
  shows "host_gate None a = None \<and> pending_control_job db a = None \<and> one_control_job db'
    \<and> jobs db' = jobs db @ [j] \<and> j_job_type j = t \<and> j_agent_id j = Some (ag_id a) \<and> j_status j = ''queued''
    \<and> (t = ''agent_upgrade'' \<longrightarrow>
        (let have_version = version_tuple (or_empty (ag_agent_version a)); wanted = version_tuple (rl_version r)
         in have_version < wanted \<or> (force \<and> wanted < have_version)))"
proof -
  obtain meta where q: "enqueue_control env cfg now a t meta actor schedule db = Inr (db', j)"
    and v: "t = ''agent_upgrade'' \<longrightarrow>
        (let have_version = version_tuple (or_empty (ag_agent_version a)); wanted = version_tuple (rl_version r)
         in have_version < wanted \<or> (force \<and> wanted < have_version))"
    using assms(1)
    by (auto simp: upgrade_agent_def restart_agent_def Let_def neq_iff not_less split: if_splits)
  show ?thesis
    using enqueue_control_InrD [OF q] enqueue_control_one [OF q assms(3,2)] v assms(2)
    by (simp add: host_gate_Some_db control_row)
qed

section \<open>One ring, proved\<close>

text \<open>What a job queued for a ring is.\<close>

definition ring_job ::
  "life_env \<Rightarrow> instant \<Rightarrow> fleet \<Rightarrow> string \<Rightarrow> release \<Rightarrow> string \<Rightarrow> string \<Rightarrow> schedule_args \<Rightarrow> job \<Rightarrow> bool" where
  "ring_job env now st rid r which actor schedule j \<longleftrightarrow>
     (\<exists>a \<in> set (active_agents st). \<exists>uuid.
        j = new_row (lf_loads env) (fl_cfg st) now uuid
              (control_job (ag_id a) ''agent_upgrade'' (upgrade_meta a r rid) actor schedule)
        \<and> agent_ring a = which \<and> host_gate None a = None
        \<and> version_tuple (or_empty (ag_agent_version a)) < version_tuple (rl_version r)
        \<and> held_by_track env st a r = [])"

lemma queue_one_cases:
  assumes "queue_one env now st rid r which actor schedule a (skipped, queued, db) = (skipped', queued', db')"
    and "a \<in> set (active_agents st)"
  obtains (other) "agent_ring a \<noteq> which" "skipped' = skipped" "queued' = queued" "db' = db"
  | (passed) reason where "agent_ring a = which" "skipped' = AList.update (ag_name a) reason skipped"
      "queued' = queued" "db' = db"
      "already_on a r \<or> held_by_track env st a r \<noteq> [] \<or> host_gate (Some db) a \<noteq> None"
  | (queued) j where "agent_ring a = which" "skipped' = AList.delete (ag_name a) skipped" "queued' = queued @ [j_id j]"
      "enqueue_control env (fl_cfg st) now a ''agent_upgrade'' (upgrade_meta a r rid) actor schedule db = Inr (db', j)"
      "ring_job env now st rid r which actor schedule j"
      "\<not> already_on a r" "held_by_track env st a r = []"
proof (cases "agent_ring a = which \<and> \<not> already_on a r \<and> held_by_track env st a r = []")
  case False
  then show thesis
    using assms(1) other passed by (auto simp: queue_one_def split: if_splits)
next
  case True
  let ?up = "upgrade_agent env (fl_cfg st) now a r actor schedule False rid db"
  have newer: "version_tuple (or_empty (ag_agent_version a)) < version_tuple (rl_version r)"
    using True by (simp add: already_on_def not_le)
  then have up: "?up = enqueue_control env (fl_cfg st) now a ''agent_upgrade'' (upgrade_meta a r rid) actor schedule db"
    using less_imp_neq [OF newer] less_not_sym [OF newer] by (simp add: upgrade_agent_def Let_def)
  show thesis
  proof (cases ?up)
    case (Inl reason)
    then have "host_gate (Some db) a \<noteq> None"
      using up by (auto simp: enqueue_control_def split: option.splits)
    with Inl True assms(1) show ?thesis by (intro passed) (auto simp: queue_one_def)
  next
    case (Inr p)
    obtain d j where p: "p = (d, j)" by (cases p)
    have eq: "enqueue_control env (fl_cfg st) now a ''agent_upgrade'' (upgrade_meta a r rid) actor schedule db = Inr (db', j)"
      and out: "skipped' = AList.delete (ag_name a) skipped" "queued' = queued @ [j_id j]"
      using assms(1) True Inr p up by (auto simp: queue_one_def)
    have "ring_job env now st rid r which actor schedule j"
      unfolding ring_job_def
      using enqueue_control_InrD [OF eq] True newer assms(2)
      by (intro bexI [of _ a]) (auto simp: host_gate_Some_db)
    with eq out True show ?thesis by (intro queued) auto
  qed
qed

definition fresh_job_ids :: "life_env \<Rightarrow> bool" where
  "fresh_job_ids env \<longleftrightarrow> (\<forall>db. lf_mint env db \<notin> j_id ` set (jobs db))"

lemma fst_set_AList_update: "fst ` set (AList.update k v xs) = insert k (fst ` set xs)"
  by (induction xs) auto

lemma fst_set_AList_delete: "fst ` set (AList.delete k xs) = fst ` set xs - {k}"
  by (auto simp: AList.delete_eq)

lemma queue_fold:
  assumes "fold (queue_one env now st rid r which actor schedule) as (skipped, queued, db) = (skipped', queued', db')"
    and "set as \<subseteq> set (active_agents st)"
  shows "\<exists>new. jobs db' = jobs db @ new \<and> queued' = queued @ map j_id new
    \<and> (\<forall>j \<in> set new. ring_job env now st rid r which actor schedule j)"
  using assms
proof (induction as arbitrary: skipped queued db)
  case Nil
  then show ?case by simp
next
  case (Cons a as)
  obtain sk q d where one: "queue_one env now st rid r which actor schedule a (skipped, queued, db) = (sk, q, d)"
    by (metis prod_cases3)
  have rest: "fold (queue_one env now st rid r which actor schedule) as (sk, q, d) = (skipped', queued', db')"
    using Cons.prems(1) one by simp
  have mem: "a \<in> set (active_agents st)" "set as \<subseteq> set (active_agents st)" using Cons.prems(2) by auto
  obtain new where new: "jobs db' = jobs d @ new" "queued' = q @ map j_id new"
    "\<forall>j \<in> set new. ring_job env now st rid r which actor schedule j"
    using Cons.IH [OF rest mem(2)] by blast
  show ?case
    using one mem(1)
  proof (cases rule: queue_one_cases)
    case (queued j)
    have "jobs d = jobs db @ [j]" using enqueue_control_InrD(2) [OF queued(4)] .
    then show ?thesis using new queued(3,5) by (intro exI [of _ "j # new"]) simp
  qed (use new in auto)
qed

lemma queue_fold_one:
  assumes "fold (queue_one env now st rid r which actor schedule) as (skipped, queued, db) = (skipped', queued', db')"
    and "set as \<subseteq> set (active_agents st)" and "\<forall>a \<in> set as. ag_id a \<noteq> []" and "one_control_job db"
  shows "one_control_job db'"
  using assms
proof (induction as arbitrary: skipped queued db)
  case Nil
  then show ?case by simp
next
  case (Cons a as)
  obtain sk q d where one: "queue_one env now st rid r which actor schedule a (skipped, queued, db) = (sk, q, d)"
    by (metis prod_cases3)
  have mem: "a \<in> set (active_agents st)" using Cons.prems(2) by auto
  have "one_control_job d"
    using one mem
  proof (cases rule: queue_one_cases)
    case (queued j)
    show ?thesis using enqueue_control_one [OF queued(4)] Cons.prems(3,4) by simp
  qed (use Cons.prems in auto)
  then show ?case using Cons one by auto
qed

lemma queue_fold_fresh:
  assumes "fold (queue_one env now st rid r which actor schedule) as (skipped, queued, db) = (skipped', queued', db')"
    and "set as \<subseteq> set (active_agents st)" and "fresh_job_ids env" and "distinct (map j_id (jobs db))"
  shows "distinct (map j_id (jobs db'))"
  using assms
proof (induction as arbitrary: skipped queued db)
  case Nil
  then show ?case by simp
next
  case (Cons a as)
  obtain sk q d where one: "queue_one env now st rid r which actor schedule a (skipped, queued, db) = (sk, q, d)"
    by (metis prod_cases3)
  have mem: "a \<in> set (active_agents st)" using Cons.prems(2) by auto
  have "distinct (map j_id (jobs d))"
    using one mem
  proof (cases rule: queue_one_cases)
    case (queued j)
    note q = enqueue_control_InrD [OF queued(4)]
    have "j_id j \<notin> j_id ` set (jobs db)"
      using Cons.prems(3) by (simp add: q(3) control_row fresh_job_ids_def)
    then show ?thesis using Cons.prems(4) q(2) by simp
  qed (use Cons.prems in auto)
  then show ?case using Cons one by auto
qed

text \<open>Nobody is left behind in silence: what was passed over is in the list of reasons.\<close>

lemma queue_fold_accounted:
  assumes "fold (queue_one env now st rid r which actor schedule) as (skipped, queued, db) = (skipped', queued', db')"
    and "set as \<subseteq> set (active_agents st)" and "\<forall>a \<in> set as. ag_id a \<noteq> []" and "distinct (map ag_name as)"
  shows "(\<forall>n. n \<notin> ag_name ` set as \<longrightarrow> (n \<in> fst ` set skipped' \<longleftrightarrow> n \<in> fst ` set skipped))
    \<and> (\<forall>a \<in> set as. agent_ring a = which \<longrightarrow>
         ag_name a \<in> fst ` set skipped' \<or> (\<exists>j \<in> set (drop (length (jobs db)) (jobs db')). j_agent_id j = Some (ag_id a)))"
  using assms
proof (induction as arbitrary: skipped queued db)
  case Nil
  then show ?case by simp
next
  case (Cons a as)
  obtain sk q d where one: "queue_one env now st rid r which actor schedule a (skipped, queued, db) = (sk, q, d)"
    by (metis prod_cases3)
  have rest: "fold (queue_one env now st rid r which actor schedule) as (sk, q, d) = (skipped', queued', db')"
    using Cons.prems(1) one by simp
  have mem: "a \<in> set (active_agents st)" "set as \<subseteq> set (active_agents st)" using Cons.prems(2) by auto
  obtain new where new: "jobs db' = jobs d @ new" using queue_fold [OF rest mem(2)] by blast
  have IH: "\<forall>n. n \<notin> ag_name ` set as \<longrightarrow> (n \<in> fst ` set skipped' \<longleftrightarrow> n \<in> fst ` set sk)"
    "\<forall>b \<in> set as. agent_ring b = which \<longrightarrow>
       ag_name b \<in> fst ` set skipped' \<or> (\<exists>j \<in> set new. j_agent_id j = Some (ag_id b))"
    using Cons.IH [OF rest mem(2)] Cons.prems(3,4) new by auto
  have first: "ag_name a \<notin> ag_name ` set as" using Cons.prems(4) by simp
  obtain added where added: "jobs d = jobs db @ added"
    "agent_ring a = which \<longrightarrow> ag_name a \<in> fst ` set sk \<or> (\<exists>j \<in> set added. j_agent_id j = Some (ag_id a))"
    "\<forall>n. n \<noteq> ag_name a \<longrightarrow> (n \<in> fst ` set sk \<longleftrightarrow> n \<in> fst ` set skipped)"
    using one mem(1)
  proof (cases rule: queue_one_cases)
    case other
    then show ?thesis by (intro that [of "[]"]) auto
  next
    case (passed reason)
    then show ?thesis by (intro that [of "[]"]) (auto simp: fst_set_AList_update)
  next
    case (queued j)
    note q = enqueue_control_InrD [OF queued(4)]
    have "j_agent_id j = Some (ag_id a)" using Cons.prems(3) by (simp add: q(3) control_row)
    then show ?thesis using q(2) queued(2) by (intro that [of "[j]"]) (auto simp: fst_set_AList_delete)
  qed
  have "drop (length (jobs db)) (jobs db') = added @ new" using new added(1) by simp
  then show ?case using IH added(2,3) first by auto
qed

text \<open>Whoever can be upgraded when the ring is queued gets its job.\<close>

definition eligible :: "life_env \<Rightarrow> fleet \<Rightarrow> release \<Rightarrow> string \<Rightarrow> agent \<Rightarrow> bool" where
  "eligible env st r which a \<longleftrightarrow>
     a \<in> set (active_agents st) \<and> agent_ring a = which \<and> \<not> already_on a r \<and> held_by_track env st a r = []
     \<and> host_gate (Some (fl_jobs st)) a = None"

lemma queue_fold_eligible:
  assumes "fold (queue_one env now st rid r which actor schedule) as (skipped, queued, db) = (skipped', queued', db')"
    and "set as \<subseteq> set (active_agents st)" and "\<forall>b \<in> set as. ag_id b \<noteq> []" and "distinct (map ag_id as)"
    and "a \<in> set as" and "agent_ring a = which" "\<not> already_on a r" "held_by_track env st a r = []"
    and "host_gate (Some db) a = None"
  shows "\<exists>j \<in> set (drop (length (jobs db)) (jobs db')). j_agent_id j = Some (ag_id a)"
  using assms
proof (induction as arbitrary: skipped queued db)
  case Nil
  then show ?case by simp
next
  case (Cons b as)
  obtain sk q d where one: "queue_one env now st rid r which actor schedule b (skipped, queued, db) = (sk, q, d)"
    by (metis prod_cases3)
  have rest: "fold (queue_one env now st rid r which actor schedule) as (sk, q, d) = (skipped', queued', db')"
    using Cons.prems(1) one by simp
  have mem: "b \<in> set (active_agents st)" "set as \<subseteq> set (active_agents st)" using Cons.prems(2) by auto
  obtain new where new: "jobs db' = jobs d @ new" using queue_fold [OF rest mem(2)] by blast
  have row: "j_agent_id j = Some (ag_id b)"
    if "enqueue_control env (fl_cfg st) now b ''agent_upgrade'' (upgrade_meta b r rid) actor schedule db = Inr (d, j)" for j
    using enqueue_control_InrD(3) [OF that] Cons.prems(3) by (simp add: control_row)
  show ?case
  proof (cases "a = b")
    case True
    show ?thesis
      using one mem(1)
    proof (cases rule: queue_one_cases)
      case (queued j)
      then show ?thesis using row [OF queued(4)] enqueue_control_InrD(2) [OF queued(4)] True new by simp
    qed (use True Cons.prems(6-9) in auto)
  next
    case False
    then have ids: "a \<in> set as" "ag_id a \<noteq> ag_id b"
      using Cons.prems(4,5) by (auto simp: image_iff)
    obtain added where added: "jobs d = jobs db @ added" "\<forall>j \<in> set added. j_agent_id j = Some (ag_id b)"
      using one mem(1)
    proof (cases rule: queue_one_cases)
      case (queued j)
      then show ?thesis
        using row [OF queued(4)] enqueue_control_InrD(2) [OF queued(4)] by (intro that [of "[j]"]) auto
    qed (auto intro: that [of "[]"])
    have "pending_control_job d a = None"
      using Cons.prems(9) added ids(2)
      by (auto simp: host_gate_Some_db pending_control_job_def find_None_iff open_control_job_def)
    then have "host_gate (Some d) a = None" using Cons.prems(9) by (simp add: host_gate_Some_db)
    then show ?thesis
      using Cons.IH [OF rest mem(2) _ _ ids(1)] Cons.prems(3,4,6-8) new added(1) by auto
  qed
qed

lemma active_sorted [simp]: "set (sort_key ag_name (active_agents st)) = set (active_agents st)"
  by simp

text \<open>
  A ring is queued completely and to nobody else. Each job queued for a ring of a rollout is an
  upgrade to its release of an active agent of that ring that is older, whose track admits the release
  and whose host can be upgraded; every such agent without an open control job gets one, and each
  active agent of the ring either has a job or is listed with a reason.
\<close>

theorem queue_ring_complete:
  assumes "queue_ring env now ro r which actor schedule st = (skipped, ids, db)"
    and "distinct (map ag_name (fl_agents st))" and "distinct (map ag_id (fl_agents st))"
    and "\<forall>a \<in> set (fl_agents st). ag_id a \<noteq> []"
  shows "\<exists>new. jobs db = jobs (fl_jobs st) @ new \<and> ids = map j_id new
    \<and> (\<forall>j \<in> set new. ring_job env now st (ro_id ro) r which actor schedule j)
    \<and> (\<forall>a. eligible env st r which a \<longrightarrow> (\<exists>j \<in> set new. j_agent_id j = Some (ag_id a)))
    \<and> (\<forall>a \<in> set (active_agents st). agent_ring a = which \<longrightarrow>
         ag_name a \<in> fst ` set skipped \<or> (\<exists>j \<in> set new. j_agent_id j = Some (ag_id a)))"
proof -
  let ?as = "sort_key ag_name (active_agents st)"
  have f: "fold (queue_one env now st (ro_id ro) r which actor schedule) ?as (ro_skipped ro, [], fl_jobs st) = (skipped, ids, db)"
    using assms(1) by (simp add: queue_ring_def)
  obtain new where new: "jobs db = jobs (fl_jobs st) @ new" "ids = map j_id new"
    "\<forall>j \<in> set new. ring_job env now st (ro_id ro) r which actor schedule j"
    using queue_fold [OF f] by auto
  have "distinct (map ag_name (active_agents st))"
    unfolding active_agents_def using assms(2) by (rule distinct_map_filter)
  then have "distinct (map ag_name ?as)"
    by (metis mset_eq_imp_distinct_iff mset_map mset_sort)
  then have "\<forall>a \<in> set (active_agents st). agent_ring a = which \<longrightarrow>
      ag_name a \<in> fst ` set skipped \<or> (\<exists>j \<in> set (drop (length (jobs (fl_jobs st))) (jobs db)). j_agent_id j = Some (ag_id a))"
    using queue_fold_accounted [OF f] assms(4) by (auto simp: active_agents_def)
  moreover have "\<exists>j \<in> set new. j_agent_id j = Some (ag_id a)" if "eligible env st r which a" for a
  proof -
    have "distinct (map ag_id (active_agents st))"
      unfolding active_agents_def using assms(3) by (rule distinct_map_filter)
    then have "distinct (map ag_id ?as)"
      by (metis mset_eq_imp_distinct_iff mset_map mset_sort)
    then show ?thesis
      using queue_fold_eligible [OF f, of a] that assms(4) new(1) by (auto simp: eligible_def active_agents_def)
  qed
  ultimately show ?thesis using new by (intro exI [of _ new]) simp
qed

section \<open>One rollout in one pass\<close>

definition ring_ids :: "rollout \<Rightarrow> string list" where
  "ring_ids ro = (if ro_status ro = ''canary'' then ro_canary_job_ids ro else ro_default_job_ids ro)"

text \<open>Where a rollout in flight goes next, as a function of the jobs of its ring alone.\<close>

definition next_status :: "fleet \<Rightarrow> rollout \<Rightarrow> string" where
  "next_status st ro =
     (case ring_state (fl_jobs st) (ring_ids ro) of
        (_, Some _) \<Rightarrow> ''stopped''
      | (False, None) \<Rightarrow> ro_status ro
      | (True, None) \<Rightarrow>
          if ro_status ro \<noteq> ''canary'' then ''done''
          else if find_release st (ro_release_id ro) = None then ''stopped'' else ''default'')"

lemma find_appended:
  "(\<forall>x \<in> set ys. \<not> P x) \<Longrightarrow> List.find P (xs @ ys) = List.find P xs"
  by (induction xs) (auto simp: find_None_iff)

definition grown :: "jdb \<Rightarrow> jdb \<Rightarrow> bool" where
  "grown db db' \<longleftrightarrow>
     (\<exists>new. jobs db' = jobs db @ new \<and> (\<forall>j \<in> set new. j_status j = ''queued''))
     \<and> distinct (map j_id (jobs db'))"

definition fleet_named :: "fleet \<Rightarrow> bool" where
  "fleet_named st \<longleftrightarrow> (\<forall>a \<in> set (fl_agents st). ag_id a \<noteq> [])"

lemma grown_refl: "distinct (map j_id (jobs db)) \<Longrightarrow> grown db db"
  by (simp add: grown_def)

lemma grown_trans: "grown a b \<Longrightarrow> grown b c \<Longrightarrow> grown a c"
  by (auto simp: grown_def)

lemma queue_ring_grown:
  assumes "queue_ring env now ro r which actor schedule st = (skipped, ids, db)"
    and "fresh_job_ids env" and "fleet_named st" and "distinct (map j_id (jobs (fl_jobs st)))"
  shows "grown (fl_jobs st) db"
proof -
  have f: "fold (queue_one env now st (ro_id ro) r which actor schedule) (sort_key ag_name (active_agents st))
      (ro_skipped ro, [], fl_jobs st) = (skipped, ids, db)"
    using assms(1) by (simp add: queue_ring_def)
  obtain new where new: "jobs db = jobs (fl_jobs st) @ new"
    "\<forall>j \<in> set new. ring_job env now st (ro_id ro) r which actor schedule j"
    using queue_fold [OF f] by auto
  have "\<forall>j \<in> set new. j_status j = ''queued''"
    using new(2) assms(3) by (auto simp: ring_job_def fleet_named_def active_agents_def control_row)
  then show ?thesis
    using new(1) queue_fold_fresh [OF f _ assms(2,4)] by (auto simp: grown_def)
qed

lemma ring_state_grown:
  assumes "grown db db'"
  shows "ring_state db' ids = ring_state db ids"
proof (cases "ids = []")
  case False
  let ?in = "\<lambda>j. j_id j \<in> set ids" and ?bad = "\<lambda>j. j_status j \<in> {''failed'', ''cancelled''}"
  obtain new where new: "jobs db' = jobs db @ new" "\<forall>j \<in> set new. j_status j = ''queued''"
    and d: "distinct (map j_id (jobs db'))"
    using assms by (auto simp: grown_def)
  let ?old = "filter ?in (jobs db)" and ?more = "filter ?in new"
  have bad: "List.find ?bad (?old @ ?more) = List.find ?bad ?old"
    using new(2) by (intro find_appended) auto
  have complete: "(list_all (\<lambda>j. j_status j = ''completed'') (?old @ ?more) \<and> length (?old @ ?more) = length ids)
      = (list_all (\<lambda>j. j_status j = ''completed'') ?old \<and> length ?old = length ids)"
  proof (cases "?more = []")
    case more: False
    then obtain j where j: "j \<in> set new" "?in j" by (auto simp: filter_empty_conv)
    have "length ?old < length ids"
    proof -
      have "distinct (map j_id ?old)" using d new(1) by (simp add: distinct_map_filter)
      then have "length ?old = card (j_id ` set ?old)" by (metis distinct_card length_map list.set_map)
      also have "\<dots> < card (set ids)"
      proof (rule psubset_card_mono)
        have "j_id j \<notin> j_id ` set ?old" using d new(1) j(1) by auto
        then show "j_id ` set ?old \<subset> set ids" using j(2) by auto
      qed simp
      also have "\<dots> \<le> length ids" by (rule card_length)
      finally show ?thesis .
    qed
    moreover have "j \<in> set (?old @ ?more)" "j_status j \<noteq> ''completed''" using j new(2) by auto
    then have "\<not> list_all (\<lambda>j. j_status j = ''completed'') (?old @ ?more)"
      unfolding list_all_iff by blast
    ultimately show ?thesis by (metis nat_neq_iff)
  qed simp
  show ?thesis unfolding ring_state_def new(1) filter_append Let_def bad complete ..
qed (simp add: ring_state_def)

lemma ring_state_done:
  assumes "ring_state db ids = (True, None)" and "distinct (map j_id (jobs db))" and "i \<in> set ids"
  shows "\<exists>j \<in> set (jobs db). j_id j = i \<and> j_status j = ''completed''"
proof -
  let ?rows = "filter (\<lambda>j. j_id j \<in> set ids) (jobs db)"
  have r: "list_all (\<lambda>j. j_status j = ''completed'') ?rows" "length ?rows = length ids"
    using assms(1,3) by (auto simp: ring_state_def Let_def split: if_splits option.splits)
  have "card (j_id ` set ?rows) = length ids"
    using r(2) assms(2) by (metis distinct_card distinct_map_filter length_map list.set_map)
  moreover have "j_id ` set ?rows \<subseteq> set ids" by auto
  ultimately have "j_id ` set ?rows = set ids"
    by (metis List.finite_set card_length card_mono card_subset_eq dual_order.antisym)
  with assms(3) obtain j where "j \<in> set ?rows" "j_id j = i" by (metis imageE)
  with r(1) show ?thesis by (auto simp: list_all_iff)
qed

definition completed_in :: "jdb \<Rightarrow> string \<Rightarrow> bool" where
  "completed_in db i \<longleftrightarrow> (\<exists>j \<in> set (jobs db). j_id j = i \<and> j_status j = ''completed'')"

text \<open>The gate of one rollout: nothing beyond the canary ring before every canary has completed.\<close>

definition gate_ok :: "jdb \<Rightarrow> rollout \<Rightarrow> bool" where
  "gate_ok db ro \<longleftrightarrow>
     (ro_status ro \<in> {''default'', ''done''} \<or> ro_default_job_ids ro \<noteq> []
      \<longrightarrow> (\<forall>i \<in> set (ro_canary_job_ids ro). completed_in db i))"

lemma completed_in_grown: "grown db db' \<Longrightarrow> completed_in db i \<Longrightarrow> completed_in db' i"
  by (auto simp: grown_def completed_in_def)

lemma gate_ok_grown: "grown db db' \<Longrightarrow> gate_ok db ro \<Longrightarrow> gate_ok db' ro"
  by (auto simp: gate_ok_def intro: completed_in_grown)

lemma advance_to_default_result:
  assumes "advance_to_default env now r schedule ro st = (ro', st')"
    and "fresh_job_ids env" and "fleet_named st" and "distinct (map j_id (jobs (fl_jobs st)))"
  shows "grown (fl_jobs st) (fl_jobs st')" and "st' = st\<lparr> fl_jobs := fl_jobs st' \<rparr>"
    and "ro_id ro' = ro_id ro" "ro_canary_job_ids ro' = ro_canary_job_ids ro" "ro_status ro' = ''default''"
proof -
  obtain sk ids db where q: "queue_ring env now ro r ''default''
      (if ro_created_by ro \<noteq> [] then ro_created_by ro else ''rollout'') schedule st = (sk, ids, db)"
    by (metis prod_cases3)
  then show "grown (fl_jobs st) (fl_jobs st')" "st' = st\<lparr> fl_jobs := fl_jobs st' \<rparr>"
    "ro_id ro' = ro_id ro" "ro_canary_job_ids ro' = ro_canary_job_ids ro" "ro_status ro' = ''default''"
    using assms(1) queue_ring_grown [OF q assms(2-4)] by (auto simp: advance_to_default_def)
qed

lemma advance_one_result:
  assumes "advance_one env now ro st = (ro', st', changed)"
    and "fresh_job_ids env" and "fleet_named st" and "distinct (map j_id (jobs (fl_jobs st)))"
    and "in_flight ro"
  shows "grown (fl_jobs st) (fl_jobs st') \<and> st' = st\<lparr> fl_jobs := fl_jobs st' \<rparr> \<and> ro_id ro' = ro_id ro
    \<and> ro_status ro' = next_status st ro \<and> changed = (next_status st ro \<noteq> ro_status ro)
    \<and> (next_status st ro \<noteq> ''default'' \<or> ro_status ro = ''default'' \<longrightarrow> st' = st)
    \<and> (gate_ok (fl_jobs st) ro \<longrightarrow> gate_ok (fl_jobs st') ro')"
proof (cases "ring_state (fl_jobs st) (ring_ids ro)")
  case (Pair all_done failed)
  have flight: "ro_status ro = ''canary'' \<or> ro_status ro = ''default''" using assms(5) by (simp add: in_flight_def)
  show ?thesis
  proof (cases failed)
    case (Some j)
    then have "next_status st ro = ''stopped''" by (cases all_done) (simp_all add: next_status_def Pair)
    then show ?thesis
      using assms(1,4) flight Pair Some
      by (auto simp: advance_one_def ring_ids_def gate_ok_def grown_refl)
  next
    case None
    show ?thesis
    proof (cases "all_done \<and> ro_status ro = ''canary'' \<and> find_release st (ro_release_id ro) \<noteq> None")
      case False
      then show ?thesis
        using assms(1,4) flight Pair None
        by (auto simp: advance_one_def ring_ids_def next_status_def gate_ok_def grown_refl split: if_splits)
    next
      case True
      then have nx: "next_status st ro = ''default''" by (simp add: next_status_def Pair None)
      obtain r where r: "find_release st (ro_release_id ro) = Some r" using True by blast
      obtain schedule ro1 where adv: "advance_to_default env now r schedule ro1 st = (ro', st')"
        and ro1: "ro_id ro1 = ro_id ro" "ro_canary_job_ids ro1 = ro_canary_job_ids ro" and ch: "changed"
        using assms(1) True Pair None r
        by (auto simp: advance_one_def ring_ids_def split: sum.splits prod.splits)
      note res = advance_to_default_result [OF adv assms(2-4)]
      have "completed_in (fl_jobs st') i" if "i \<in> set (ro_canary_job_ids ro')" for i
      proof -
        have "ring_state (fl_jobs st) (ro_canary_job_ids ro) = (True, None)"
          using True Pair None by (simp add: ring_ids_def)
        then have "completed_in (fl_jobs st) i"
          using ring_state_done [OF _ assms(4)] that res(4) ro1(2) by (auto simp: completed_in_def)
        then show ?thesis by (rule completed_in_grown [OF res(1)])
      qed
      then have "gate_ok (fl_jobs st') ro'" by (simp add: gate_ok_def)
      with res ro1 nx ch True show ?thesis by simp
    qed
  qed
qed

text \<open>The pass so far: the rollouts it has visited have moved, the others are as they were.\<close>

definition pass_so_far :: "fleet \<Rightarrow> string set \<Rightarrow> fleet \<Rightarrow> bool" where
  "pass_so_far st visited st1 \<longleftrightarrow>
     grown (fl_jobs st) (fl_jobs st1)
     \<and> fl_agents st1 = fl_agents st \<and> fl_releases st1 = fl_releases st \<and> fl_cfg st1 = fl_cfg st
     \<and> list_all2 (\<lambda>ro ro1. ro_id ro1 = ro_id ro
          \<and> (if ro_id ro \<in> visited then ro_status ro1 = next_status st ro else ro1 = ro)
          \<and> (gate_ok (fl_jobs st) ro \<longrightarrow> gate_ok (fl_jobs st1) ro1))
        (fl_rollouts st) (fl_rollouts st1)"

lemma find_rollout:
  assumes "distinct (map ro_id ros)" and "ro \<in> set ros"
  shows "List.find (\<lambda>x. ro_id x = ro_id ro) ros = Some ro"
  using assms by (induction ros) (auto simp: image_iff)

lemma list_all2_member:
  "list_all2 P xs ys \<Longrightarrow> x \<in> set xs \<Longrightarrow> \<exists>y \<in> set ys. P x y"
  by (induction xs ys rule: list_all2_induct) auto

lemma advance_step_pass:
  assumes "pass_so_far st visited st1" and "ro \<in> set (fl_rollouts st)" and "ro_id ro \<notin> visited"
    and "in_flight ro" and "distinct (map ro_id (fl_rollouts st))" and "fresh_job_ids env" and "fleet_named st"
    and "advance_step env now (ro_id ro) (st1, n) = (st2, n2)"
  shows "pass_so_far st (insert (ro_id ro) visited) st2
    \<and> n2 = (if next_status st ro \<noteq> ro_status ro then Suc n else n)
    \<and> (next_status st ro \<noteq> ''default'' \<or> ro_status ro = ''default'' \<longrightarrow> fl_jobs st2 = fl_jobs st1)"
proof -
  let ?i = "ro_id ro"
  have rel: "list_all2 (\<lambda>ro ro1. ro_id ro1 = ro_id ro
          \<and> (if ro_id ro \<in> visited then ro_status ro1 = next_status st ro else ro1 = ro)
          \<and> (gate_ok (fl_jobs st) ro \<longrightarrow> gate_ok (fl_jobs st1) ro1)) (fl_rollouts st) (fl_rollouts st1)"
    and g1: "grown (fl_jobs st) (fl_jobs st1)"
    and same: "fl_agents st1 = fl_agents st" "fl_releases st1 = fl_releases st" "fl_cfg st1 = fl_cfg st"
    using assms(1) by (simp_all add: pass_so_far_def)
  obtain ro1 where "ro1 \<in> set (fl_rollouts st1)" "ro1 = ro"
    using list_all2_member [OF rel assms(2)] assms(3) by auto
  then have mem: "ro \<in> set (fl_rollouts st1)" by simp
  have ids: "map ro_id (fl_rollouts st1) = map ro_id (fl_rollouts st)"
    using rel by (induction rule: list_all2_induct) auto
  then have found: "List.find (\<lambda>x. ro_id x = ?i) (fl_rollouts st1) = Some ro"
    using find_rollout [OF _ mem] assms(5) by simp
  obtain ro2 st1' changed where one: "advance_one env now ro st1 = (ro2, st1', changed)" by (metis prod_cases3)
  have d1: "distinct (map j_id (jobs (fl_jobs st1)))" using g1 by (simp add: grown_def)
  have named: "fleet_named st1" using assms(7) same(1) by (simp add: fleet_named_def)
  note res = advance_one_result [OF one assms(6) named d1 assms(4)]
  have nx: "next_status st1 ro = next_status st ro"
    unfolding next_status_def find_release_def ring_state_grown [OF g1] same(2) ..
  have st2: "st2 = st1'\<lparr> fl_rollouts := tbl_update (\<lambda>x. ro_id x = ?i) (\<lambda>_. ro2) (fl_rollouts st1') \<rparr>"
    and n2: "n2 = (if changed then Suc n else n)"
    using assms(8) found one by (auto simp: advance_step_def)
  have frame: "st1' = st1\<lparr> fl_jobs := fl_jobs st1' \<rparr>" using res by blast
  have st1': "fl_rollouts st1' = fl_rollouts st1" "fl_agents st1' = fl_agents st1"
      "fl_releases st1' = fl_releases st1" "fl_cfg st1' = fl_cfg st1"
    by (subst frame, simp)+
  have g2: "grown (fl_jobs st1) (fl_jobs st1')" using res by blast
  have "list_all2 (\<lambda>ro ro1. ro_id ro1 = ro_id ro
          \<and> (if ro_id ro \<in> insert ?i visited then ro_status ro1 = next_status st ro else ro1 = ro)
          \<and> (gate_ok (fl_jobs st) ro \<longrightarrow> gate_ok (fl_jobs st1') ro1))
        (fl_rollouts st) (tbl_update (\<lambda>x. ro_id x = ?i) (\<lambda>_. ro2) (fl_rollouts st1))"
    unfolding tbl_update_def list_all2_map2
  proof (rule list.rel_mono_strong [OF rel])
    fix x y
    assume xy: "x \<in> set (fl_rollouts st)" "y \<in> set (fl_rollouts st1)"
      and r: "ro_id y = ro_id x \<and> (if ro_id x \<in> visited then ro_status y = next_status st x else y = x)
        \<and> (gate_ok (fl_jobs st) x \<longrightarrow> gate_ok (fl_jobs st1) y)"
    show "ro_id (if ro_id y = ?i then ro2 else y) = ro_id x
        \<and> (if ro_id x \<in> insert ?i visited then ro_status (if ro_id y = ?i then ro2 else y) = next_status st x
           else (if ro_id y = ?i then ro2 else y) = x)
        \<and> (gate_ok (fl_jobs st) x \<longrightarrow> gate_ok (fl_jobs st1') (if ro_id y = ?i then ro2 else y))"
    proof (cases "ro_id x = ?i")
      case True
      then have x: "x = ro" using assms(2,5) xy(1) by (metis distinct_map inj_onD)
      with r assms(3) have "y = ro" by simp
      then show ?thesis using x res nx r by simp
    next
      case False
      then show ?thesis using r gate_ok_grown [OF g2] by auto
    qed
  qed
  then have "pass_so_far st (insert ?i visited) st2"
    using grown_trans [OF g1 g2] same by (simp add: pass_so_far_def st2 st1')
  moreover have "fl_jobs st2 = fl_jobs st1" if "next_status st ro \<noteq> ''default'' \<or> ro_status ro = ''default''"
    using res that nx by (simp add: st2)
  ultimately show ?thesis using res nx by (simp add: n2)
qed

section \<open>A whole pass\<close>

lemma pass_fold:
  assumes "fold (advance_step env now) (map ro_id ros) (st1, n1) = (st2, n2)"
    and "pass_so_far st visited st1" and "set ros \<subseteq> set (fl_rollouts st)" and "\<forall>ro \<in> set ros. in_flight ro"
    and "distinct (map ro_id ros)" and "\<forall>ro \<in> set ros. ro_id ro \<notin> visited"
    and "distinct (map ro_id (fl_rollouts st))" and "fresh_job_ids env" and "fleet_named st"
  shows "pass_so_far st (visited \<union> ro_id ` set ros) st2
    \<and> n2 = n1 + rowcount (\<lambda>ro. next_status st ro \<noteq> ro_status ro) ros
    \<and> ((\<forall>ro \<in> set ros. next_status st ro \<noteq> ''default'' \<or> ro_status ro = ''default'') \<longrightarrow> fl_jobs st2 = fl_jobs st1)"
  using assms
proof (induction ros arbitrary: visited st1 n1)
  case Nil
  then show ?case by (simp add: rowcount_def)
next
  case (Cons ro ros)
  obtain sta na where one: "advance_step env now (ro_id ro) (st1, n1) = (sta, na)" by (metis surj_pair)
  have a: "pass_so_far st (insert (ro_id ro) visited) sta"
    "na = (if next_status st ro \<noteq> ro_status ro then Suc n1 else n1)"
    "next_status st ro \<noteq> ''default'' \<or> ro_status ro = ''default'' \<longrightarrow> fl_jobs sta = fl_jobs st1"
    using advance_step_pass [OF Cons.prems(2) _ _ _ Cons.prems(7,8,9) one] Cons.prems(3,4,6) by auto
  have rest: "fold (advance_step env now) (map ro_id ros) (sta, na) = (st2, n2)"
    using Cons.prems(1) one by simp
  have "\<forall>x \<in> set ros. ro_id x \<notin> insert (ro_id ro) visited"
    using Cons.prems(5,6) by (metis distinct.simps(2) image_eqI insertE list.set_intros(2) list.set_map list.simps(9))
  then show ?case
    using Cons.IH [OF rest a(1) _ _ _ _ Cons.prems(7,8,9)] Cons.prems(3,4,5) a(2,3)
    by (auto simp: rowcount_def Un_insert_left)
qed

text \<open>
  One sweep moves every rollout in flight exactly once, as the jobs of its current ring alone say:
  a failed or cancelled job stops it, canaries that have all completed open the default ring (or stop it when
  its release is gone), a completed default ring ends it, and anything else leaves it. Rollouts
  that are not in flight stay as they are, the count is that of the rollouts that moved, new jobs are
  only appended, and none is queued unless some rollout passed its gate.
\<close>

theorem advance_rollouts_exact:
  assumes "advance_rollouts env now st = (st', n)"
    and "distinct (map ro_id (fl_rollouts st))" and "distinct (map j_id (jobs (fl_jobs st)))"
    and "fresh_job_ids env" and "fleet_named st"
  shows "map ro_id (fl_rollouts st') = map ro_id (fl_rollouts st)
    \<and> map ro_status (fl_rollouts st') =
        map (\<lambda>ro. if in_flight ro then next_status st ro else ro_status ro) (fl_rollouts st)
    \<and> n = rowcount (\<lambda>ro. in_flight ro \<and> next_status st ro \<noteq> ro_status ro) (fl_rollouts st)
    \<and> (\<exists>new. jobs (fl_jobs st') = jobs (fl_jobs st) @ new)
    \<and> ((\<forall>ro \<in> set (fl_rollouts st). \<not> (ro_status ro = ''canary'' \<and> next_status st ro = ''default''))
        \<longrightarrow> fl_jobs st' = fl_jobs st)"
proof -
  let ?ros = "filter in_flight (fl_rollouts st)"
  have p0: "pass_so_far st {} st"
    using assms(3) by (simp add: pass_so_far_def grown_refl list.rel_refl)
  have f0: "fold (advance_step env now) (map ro_id ?ros) (st, 0) = (st', n)"
    using assms(1) by (simp add: advance_rollouts_def)
  have d0: "distinct (map ro_id ?ros)" using assms(2) by (rule distinct_map_filter)
  have all: "pass_so_far st ({} \<union> ro_id ` set ?ros) st'
    \<and> n = 0 + rowcount (\<lambda>ro. next_status st ro \<noteq> ro_status ro) ?ros
    \<and> ((\<forall>ro \<in> set ?ros. next_status st ro \<noteq> ''default'' \<or> ro_status ro = ''default'') \<longrightarrow> fl_jobs st' = fl_jobs st)"
    by (rule pass_fold [OF f0 p0 _ _ d0 _ assms(2,4,5)]) auto
  then have pass: "pass_so_far st (ro_id ` set ?ros) st'"
    and n: "n = rowcount (\<lambda>ro. next_status st ro \<noteq> ro_status ro) ?ros"
    and same: "(\<forall>ro \<in> set ?ros. next_status st ro \<noteq> ''default'' \<or> ro_status ro = ''default'') \<longrightarrow> fl_jobs st' = fl_jobs st"
    unfolding Un_empty_left add_0 by blast+
  have visited: "ro_id ro \<in> ro_id ` set ?ros \<longleftrightarrow> in_flight ro" if "ro \<in> set (fl_rollouts st)" for ro
    using that assms(2) by (auto simp: distinct_map dest: inj_onD)
  have rel: "list_all2 (\<lambda>ro ro1. ro_id ro1 = ro_id ro
      \<and> ro_status ro1 = (if in_flight ro then next_status st ro else ro_status ro)) (fl_rollouts st) (fl_rollouts st')"
  proof (rule list.rel_mono_strong)
    show "list_all2 (\<lambda>ro ro1. ro_id ro1 = ro_id ro
          \<and> (if ro_id ro \<in> ro_id ` set ?ros then ro_status ro1 = next_status st ro else ro1 = ro)
          \<and> (gate_ok (fl_jobs st) ro \<longrightarrow> gate_ok (fl_jobs st') ro1)) (fl_rollouts st) (fl_rollouts st')"
      using pass by (simp only: pass_so_far_def)
  next
    fix x y assume "x \<in> set (fl_rollouts st)"
      and "ro_id y = ro_id x \<and> (if ro_id x \<in> ro_id ` set ?ros then ro_status y = next_status st x else y = x)
        \<and> (gate_ok (fl_jobs st) x \<longrightarrow> gate_ok (fl_jobs st') y)"
    then show "ro_id y = ro_id x \<and> ro_status y = (if in_flight x then next_status st x else ro_status x)"
      using visited [of x] by simp
  qed
  have "map ro_id (fl_rollouts st') = map ro_id (fl_rollouts st)"
    and "map ro_status (fl_rollouts st') =
        map (\<lambda>ro. if in_flight ro then next_status st ro else ro_status ro) (fl_rollouts st)"
    using rel by (induction rule: list_all2_induct) auto
  moreover have "\<exists>new. jobs (fl_jobs st') = jobs (fl_jobs st) @ new"
    using pass by (auto simp: pass_so_far_def grown_def)
  moreover have "n = rowcount (\<lambda>ro. in_flight ro \<and> next_status st ro \<noteq> ro_status ro) (fl_rollouts st)"
    using n by (simp add: rowcount_def conj_commute)
  moreover have "(\<forall>ro \<in> set (fl_rollouts st). \<not> (ro_status ro = ''canary'' \<and> next_status st ro = ''default''))
        \<longrightarrow> fl_jobs st' = fl_jobs st"
    using same by (auto simp: in_flight_def)
  ultimately show ?thesis by blast
qed

section \<open>The canary gate over whole histories\<close>

text \<open>
  What goes on around the sweeps: jobs are created, run, complete, fail, are cancelled; agents and
  releases come and go, rollouts are hidden. All the gate needs is that completed rows stay.
\<close>

definition world_step :: "fleet \<Rightarrow> fleet \<Rightarrow> bool" where
  "world_step st st' \<longleftrightarrow>
     (\<forall>i. completed_in (fl_jobs st) i \<longrightarrow> completed_in (fl_jobs st') i)
     \<and> distinct (map j_id (jobs (fl_jobs st'))) \<and> fleet_named st'
     \<and> (\<forall>ro' \<in> set (fl_rollouts st'). \<exists>ro \<in> set (fl_rollouts st). \<exists>t.
          ro' = ro\<lparr> ro_hidden_at := t \<rparr>)
     \<and> distinct (map ro_id (fl_rollouts st'))"

inductive fleet_run :: "life_env \<Rightarrow> fleet \<Rightarrow> fleet \<Rightarrow> bool" for env :: life_env and st0 :: fleet where
  start: "fleet_run env st0 st0"
| roll: "fleet_run env st0 st \<Longrightarrow>
    fleet_run env st0 (snd (start_rollout env now r actor schedule window_id st))"
| sweep: "fleet_run env st0 st \<Longrightarrow> fleet_run env st0 (fst (advance_rollouts env now st))"
| world: "fleet_run env st0 st \<Longrightarrow> world_step st st' \<Longrightarrow> fleet_run env st0 st'"

definition fleet_ok :: "fleet \<Rightarrow> bool" where
  "fleet_ok st \<longleftrightarrow>
     distinct (map ro_id (fl_rollouts st)) \<and> distinct (map j_id (jobs (fl_jobs st))) \<and> fleet_named st
     \<and> (\<forall>ro \<in> set (fl_rollouts st). gate_ok (fl_jobs st) ro)"

definition fresh_rollout_ids :: "life_env \<Rightarrow> bool" where
  "fresh_rollout_ids env \<longleftrightarrow> (\<forall>ros. lf_rollout_id env ros \<notin> ro_id ` set ros)"

lemma start_rollout_ok:
  assumes "fleet_ok st" and "fresh_job_ids env" and "fresh_rollout_ids env"
  shows "fleet_ok (snd (start_rollout env now r actor schedule window_id st))"
proof -
  let ?ro = "new_rollout env now r actor window_id st"
  obtain sk ids db where q: "queue_ring env now ?ro r ''canary'' actor schedule st = (sk, ids, db)"
    by (metis prod_cases3)
  note ok = assms(1) [unfolded fleet_ok_def]
  have g: "grown (fl_jobs st) db" using queue_ring_grown [OF q assms(2)] ok by blast
  let ?ro1 = "?ro\<lparr> ro_skipped := sk, ro_canary_job_ids := ids \<rparr>" and ?st1 = "st\<lparr> fl_jobs := db \<rparr>"
  obtain ro2 st2 where two: "(if ids = [] then advance_to_default env now r schedule ?ro1 ?st1
        else (preview_default env ?st1 r ?ro1, ?st1)) = (ro2, st2)" by (metis surj_pair)
  then have out: "snd (start_rollout env now r actor schedule window_id st) =
      st2\<lparr> fl_rollouts := fl_rollouts st2 @ [ro2] \<rparr>"
    by (simp add: start_rollout_def q Let_def)
  have named: "fleet_named ?st1" and d: "distinct (map j_id (jobs (fl_jobs ?st1)))"
    using ok g by (simp_all add: fleet_named_def grown_def)
  have two': "grown db (fl_jobs st2) \<and> st2 = ?st1\<lparr> fl_jobs := fl_jobs st2 \<rparr> \<and> ro_id ro2 = ro_id ?ro
      \<and> gate_ok (fl_jobs st2) ro2"
  proof (cases "ids = []")
    case True
    then have adv: "advance_to_default env now r schedule ?ro1 ?st1 = (ro2, st2)" using two by simp
    note res = advance_to_default_result [OF adv assms(2) named d]
    show ?thesis using res True by (simp add: gate_ok_def)
  next
    case False
    then show ?thesis
      using two d by (auto simp: preview_default_def gate_ok_def new_rollout_def grown_refl)
  qed
  then have frame: "st2 = ?st1\<lparr> fl_jobs := fl_jobs st2 \<rparr>" by blast
  have same: "fl_rollouts st2 = fl_rollouts st" "fl_agents st2 = fl_agents st"
    by (subst frame, simp)+
  have "grown (fl_jobs st) (fl_jobs st2)" using grown_trans [OF g] two' by blast
  moreover have "ro_id ro2 \<notin> ro_id ` set (fl_rollouts st)"
    using two' assms(3) by (simp add: new_rollout_def fresh_rollout_ids_def)
  ultimately show ?thesis
    using ok two' gate_ok_grown [of "fl_jobs st" "fl_jobs st2"] unfolding out
    by (auto simp: fleet_ok_def same fleet_named_def grown_def)
qed

lemma advance_rollouts_ok:
  assumes "fleet_ok st" and "fresh_job_ids env"
  shows "fleet_ok (fst (advance_rollouts env now st))"
proof -
  note ok = assms(1) [unfolded fleet_ok_def]
  let ?ros = "filter in_flight (fl_rollouts st)"
  obtain st' n where adv: "advance_rollouts env now st = (st', n)" by (metis surj_pair)
  have p0: "pass_so_far st {} st"
    using ok by (simp add: pass_so_far_def grown_refl list.rel_refl)
  have f0: "fold (advance_step env now) (map ro_id ?ros) (st, 0) = (st', n)"
    using adv by (simp add: advance_rollouts_def)
  have d0: "distinct (map ro_id ?ros)" using ok by (intro distinct_map_filter) blast
  have "pass_so_far st ({} \<union> ro_id ` set ?ros) st'"
    by (rule pass_fold [OF f0 p0 _ _ d0 _ _ assms(2), THEN conjunct1]) (use ok in auto)
  then have pass: "list_all2 (\<lambda>ro ro1. ro_id ro1 = ro_id ro
          \<and> (gate_ok (fl_jobs st) ro \<longrightarrow> gate_ok (fl_jobs st') ro1)) (fl_rollouts st) (fl_rollouts st')"
    and g: "grown (fl_jobs st) (fl_jobs st')" and ag: "fl_agents st' = fl_agents st"
    unfolding pass_so_far_def by (elim conjE list_all2_mono, simp, simp, simp)
  have "map ro_id (fl_rollouts st') = map ro_id (fl_rollouts st)"
    using pass by (induction rule: list_all2_induct) auto
  moreover have "gate_ok (fl_jobs st') ro1" if member: "ro1 \<in> set (fl_rollouts st')" for ro1
  proof -
    obtain i where i: "i < length (fl_rollouts st')" "fl_rollouts st' ! i = ro1"
      using member by (auto simp: in_set_conv_nth)
    then have "fl_rollouts st ! i \<in> set (fl_rollouts st)" using list_all2_lengthD [OF pass] by simp
    then show ?thesis using list_all2_nthD2 [OF pass i(1)] ok i(2) by blast
  qed
  ultimately show ?thesis
    using ok g ag by (simp add: adv fleet_ok_def grown_def fleet_named_def)
qed

text \<open>
  C14. No agent of the default ring is upgraded before every canary the rollout queued has completed:
  in every history of rollouts, sweeps and whatever else happens to jobs, agents and releases, a
  rollout that is past its canary ring, or has ever queued a job of the default ring, has only
  canary jobs that are completed.
\<close>

theorem canary_gate:
  assumes "fleet_run env st0 st" and "fleet_ok st0" and "fresh_job_ids env" and "fresh_rollout_ids env"
  shows "\<forall>ro \<in> set (fl_rollouts st).
     ro_status ro \<in> {''default'', ''done''} \<or> ro_default_job_ids ro \<noteq> [] \<longrightarrow>
       (\<forall>i \<in> set (ro_canary_job_ids ro). \<exists>j \<in> set (jobs (fl_jobs st)). j_id j = i \<and> j_status j = ''completed'')"
proof -
  from assms(1) have "fleet_ok st"
  proof (induction rule: fleet_run.induct)
    case start
    show ?case by (rule assms(2))
  next
    case (roll st now r actor schedule window_id)
    then show ?case using start_rollout_ok assms(3,4) by blast
  next
    case (sweep st now)
    then show ?case using advance_rollouts_ok assms(3) by blast
  next
    case (world st st')
    have "gate_ok (fl_jobs st') ro'" if member: "ro' \<in> set (fl_rollouts st')" for ro'
    proof -
      obtain ro t where ro: "ro \<in> set (fl_rollouts st)" "ro' = ro\<lparr> ro_hidden_at := t \<rparr>"
        using world(2) member by (auto simp: world_step_def)
      then have "gate_ok (fl_jobs st) ro" using world(3) by (simp add: fleet_ok_def)
      then show ?thesis
        using world(2) by (auto simp: ro(2) gate_ok_def world_step_def)
    qed
    then show ?case using world(2) by (simp add: fleet_ok_def world_step_def)
  qed
  then show ?thesis by (simp add: fleet_ok_def gate_ok_def completed_in_def)
qed

section \<open>Where the gate does not hold\<close>

lemma queue_ring_none:
  assumes "\<forall>a \<in> set (active_agents st). agent_ring a = which \<longrightarrow>
      already_on a r \<or> held_by_track env st a r \<noteq> [] \<or> host_gate None a \<noteq> None"
  shows "\<exists>skipped. queue_ring env now ro r which actor schedule st = (skipped, [], fl_jobs st)"
proof -
  have "\<exists>sk'. fold (queue_one env now st (ro_id ro) r which actor schedule) as (sk, [], fl_jobs st) = (sk', [], fl_jobs st)"
    if "set as \<subseteq> set (active_agents st)" for as sk
    using that
  proof (induction as arbitrary: sk)
    case (Cons a as)
    obtain sk1 q d where one: "queue_one env now st (ro_id ro) r which actor schedule a (sk, [], fl_jobs st) = (sk1, q, d)"
      by (metis prod_cases3)
    have mem: "a \<in> set (active_agents st)" using Cons.prems by auto
    have "q = [] \<and> d = fl_jobs st"
      using one mem
    proof (cases rule: queue_one_cases)
      case (queued j)
      have "host_gate None a = None" using enqueue_control_InrD(1) [OF queued(4)] by (simp add: host_gate_Some_db)
      then show ?thesis using assms mem queued(1,6,7) by auto
    qed auto
    then show ?case using one Cons by auto
  qed simp
  then show ?thesis by (simp add: queue_ring_def)
qed

text \<open>
  A canary ring whose agents are all refused counts as no canary ring: when every active canary
  agent is held back, is paused or cannot be upgraded, the rollout starts in the default ring, and
  every eligible agent of the default ring is queued at once although no canary has run the release.
\<close>

theorem refused_canaries_open_the_gate:
  assumes "\<forall>a \<in> set (active_agents st). agent_ring a = ''canary'' \<longrightarrow>
      held_by_track env st a r \<noteq> [] \<or> host_gate None a \<noteq> None"
    and "distinct (map ag_name (fl_agents st))" and "distinct (map ag_id (fl_agents st))" and "fleet_named st"
    and "start_rollout env now r actor schedule window_id st = (ro, st')"
  shows "ro_status ro = ''default'' \<and> ro_canary_job_ids ro = []
    \<and> (\<forall>a. eligible env st r ''default'' a \<longrightarrow>
         (\<exists>j \<in> set (jobs (fl_jobs st')). j_agent_id j = Some (ag_id a) \<and> j_job_type j = ''agent_upgrade''
            \<and> j_id j \<in> set (ro_default_job_ids ro)))"
proof -
  let ?ro = "new_rollout env now r actor window_id st"
  obtain sk where q: "queue_ring env now ?ro r ''canary'' actor schedule st = (sk, [], fl_jobs st)"
    using queue_ring_none [of st "''canary''" r env now ?ro actor schedule] assms(1) by blast
  let ?ro1 = "?ro\<lparr> ro_skipped := sk, ro_canary_job_ids := [] \<rparr>"
  obtain ro2 st2 where adv: "advance_to_default env now r schedule ?ro1 (st\<lparr> fl_jobs := fl_jobs st \<rparr>) = (ro2, st2)"
    by (metis surj_pair)
  have out: "ro = ro2" "fl_jobs st' = fl_jobs st2"
    using assms(5) adv by (auto simp: start_rollout_def q Let_def)
  obtain sk2 ids db where q2: "queue_ring env now ?ro1 r ''default''
      (if ro_created_by ?ro1 \<noteq> [] then ro_created_by ?ro1 else ''rollout'') schedule st = (sk2, ids, db)"
    by (metis prod_cases3)
  have two: "ro2 = ?ro1\<lparr> ro_skipped := sk2, ro_default_job_ids := ids, ro_status := ''default'' \<rparr>" "fl_jobs st2 = db"
    using adv q2 by (auto simp: advance_to_default_def)
  obtain new where new: "jobs db = jobs (fl_jobs st) @ new" "ids = map j_id new"
    "\<forall>j \<in> set new. ring_job env now st (ro_id ?ro1) r ''default''
        (if ro_created_by ?ro1 \<noteq> [] then ro_created_by ?ro1 else ''rollout'') schedule j"
    "\<forall>a. eligible env st r ''default'' a \<longrightarrow> (\<exists>j \<in> set new. j_agent_id j = Some (ag_id a))"
    using queue_ring_complete [OF q2 assms(2,3)] assms(4) unfolding fleet_named_def by blast
  have kind: "j_job_type j = ''agent_upgrade''" if "j \<in> set new" for j
    using new(3) that by (auto simp: ring_job_def control_row)
  have "\<exists>j \<in> set (jobs (fl_jobs st')). j_agent_id j = Some (ag_id a) \<and> j_job_type j = ''agent_upgrade''
      \<and> j_id j \<in> set (ro_default_job_ids ro)" if el: "eligible env st r ''default'' a" for a
  proof -
    obtain j where j: "j \<in> set new" "j_agent_id j = Some (ag_id a)" using new(4) el by blast
    with kind show ?thesis by (intro bexI [of _ j]) (simp_all add: out two new(1,2))
  qed
  then show ?thesis by (simp add: out two)
qed

text \<open>
  An upgrade counts as completed only when the agent that comes back reports exactly the version
  that was asked for, whatever it says about its success, and the row is not cancelled and its result
  is within the limit; otherwise the row is recorded as failed or stays cancelled.
\<close>

theorem upgrade_completion_verified:
  assumes "j_job_type j = ''agent_upgrade''"
  shows "fst (complete_control cfg now j status result error db) =
     (if j_status j = ''cancelled'' then ''cancelled''
      else if status = ''completed''
              \<and> or_empty_text (dict_get result ''version'') = or_empty_text (dict_get (metadata_dict j) ''version'')
              \<and> length (json_text (JObj result)) \<le> MAX_RESULT_BYTES
      then ''completed'' else ''failed'')"
  using assms
  by (auto simp: complete_control_def check_completion_def complete_job_def CONTROL_JOB_TYPES_def Let_def)

section \<open>Instances\<close>

definition site_agent :: "string \<Rightarrow> string \<Rightarrow> bool \<Rightarrow> agent" where
  "site_agent aid ring paused =
     enrolled_agent\<lparr> ag_id := aid, ag_name := aid, ag_agent_version := Some ''2.10.1'', ag_auth_mode := Some ''spiffe'',
       ag_control_upgrades := Some True, ag_control_updater := Some True,
       ag_paused := (if paused then Some True else None), ag_upgrade_ring := Some ring \<rparr>"

definition new_build :: release where
  "new_build = hand_row\<lparr> rl_id := ''r2'', rl_version := ''2.11.0'' \<rparr>"

definition site_env :: life_env where
  "site_env =
     \<lparr> lf_loads = (\<lambda>_. None), lf_mint = (\<lambda>db. concat (map j_id (jobs db)) @ ''+''),
       lf_rollout_id = (\<lambda>ros. concat (map ro_id ros) @ ''+''), lf_zones = (\<lambda>_. None),
       lf_fromiso = (\<lambda>_. NotADate), lf_windows = [], lf_error = (\<lambda>_. ''no window'') \<rparr>"

definition site_fleet :: "bool \<Rightarrow> fleet" where
  "site_fleet paused =
     \<lparr> fl_cfg = default_config, fl_agents = [site_agent ''c'' ''canary'' paused, site_agent ''d'' ''default'' False],
       fl_releases = [new_build], fl_rollouts = [], fl_jobs = empty_db \<rparr>"

lemma longer_than_members: "x \<in> set xs \<Longrightarrow> concat (map f xs) @ ''+'' \<noteq> f x"
proof
  assume "x \<in> set xs"
  then have "length (f x) \<le> length (concat (map f xs))" by (induction xs) auto
  moreover assume "concat (map f xs) @ ''+'' = f x"
  then have "length (f x) = Suc (length (concat (map f xs)))" by (metis length_append_singleton)
  ultimately show False by simp
qed

lemma site_fresh: "fresh_job_ids site_env" "fresh_rollout_ids site_env"
  unfolding fresh_job_ids_def fresh_rollout_ids_def
  using longer_than_members [where f = j_id] longer_than_members [where f = ro_id]
  by (auto simp: site_env_def image_iff)

lemma site_agent_simps [simp]:
  "ag_id (site_agent i ring p) = i" "ag_name (site_agent i ring p) = i" "ag_is_active (site_agent i ring p)"
  "ag_workstream (site_agent i ring p) = None" "ag_agent_version (site_agent i ring p) = Some ''2.10.1''"
  "agent_ring (site_agent i ''canary'' p) = ''canary''" "agent_ring (site_agent i ''default'' p) = ''default''"
  by (simp_all add: site_agent_def enrolled_agent_def agent_ring_def RINGS_def or_empty_def)

lemma site_versions:
  "version_tuple ''2.10.1'' = (2, 10, 1)" "version_tuple ''2.11.0'' = (2, 11, 0)"
  by code_simp+

lemma site_gate: "host_gate None (site_agent i ring p) = None \<longleftrightarrow> \<not> p"
proof -
  have "version_at_least (site_agent i ring p) MIN_LIFECYCLE_VERSION"
    unfolding version_at_least_def site_agent_simps by code_simp
  then show ?thesis by (simp add: host_gate_None site_agent_def enrolled_agent_def or_empty_def)
qed

lemma site_track: "held_by_track site_env (site_fleet b) (site_agent i ring p) new_build = []"
  by (simp add: held_by_track_def or_empty_def target_release_def list_releases_def site_fleet_def
      of_repository_def lag_of_track_def new_build_def get_lag_def Let_def)

lemma site_active: "active_agents (site_fleet b) = [site_agent ''c'' ''canary'' b, site_agent ''d'' ''default'' False]"
  by (simp add: active_agents_def site_fleet_def)

lemma site_facts:
  "distinct (map ag_name (fl_agents (site_fleet b)))" "distinct (map ag_id (fl_agents (site_fleet b)))"
  "fleet_named (site_fleet b)" "\<forall>a \<in> set (fl_agents (site_fleet b)). ag_id a \<noteq> []"
  "jobs (fl_jobs (site_fleet b)) = []" "fl_rollouts (site_fleet b) = []"
  by (simp_all add: site_fleet_def fleet_named_def empty_db_def)

lemma site_eligible: "eligible site_env (site_fleet b) new_build ''default'' (site_agent ''d'' ''default'' False)"
  by (simp add: eligible_def site_active already_on_def or_empty_def site_versions new_build_def site_track [unfolded new_build_def]
      host_gate_Some_db site_gate pending_control_job_def site_facts find_None_iff)

theorem refused_canaries_open_the_gate_witness:
  "ro_status (fst (start_rollout site_env 9 new_build ''ops'' None [] (site_fleet True))) = ''default'' \<and>
   (\<exists>j \<in> set (jobs (fl_jobs (snd (start_rollout site_env 9 new_build ''ops'' None [] (site_fleet True))))).
      j_agent_id j = Some ''d'' \<and> j_job_type j = ''agent_upgrade'')"
proof -
  have "\<forall>a \<in> set (active_agents (site_fleet True)). agent_ring a = ''canary'' \<longrightarrow>
      held_by_track site_env (site_fleet True) a new_build \<noteq> [] \<or> host_gate None a \<noteq> None"
    using site_gate [of "''c''" "''canary''" True] by (simp add: site_active)
  from refused_canaries_open_the_gate [OF this site_facts(1-3) prod.collapse [symmetric]]
  show ?thesis using site_eligible [of True] by fastforce
qed

theorem queue_ring_complete_witness:
  "\<exists>j \<in> set (jobs (snd (snd (queue_ring site_env 9 (new_rollout site_env 9 new_build ''ops'' [] (site_fleet False))
      new_build ''default'' ''ops'' None (site_fleet False))))). j_agent_id j = Some ''d''"
proof -
  obtain sk ids db where q: "queue_ring site_env 9 (new_rollout site_env 9 new_build ''ops'' [] (site_fleet False))
      new_build ''default'' ''ops'' None (site_fleet False) = (sk, ids, db)" by (metis prod_cases3)
  from queue_ring_complete [OF q site_facts(1,2,4)] site_eligible [of False] q show ?thesis by fastforce
qed

theorem control_job_gated_witness:
  "one_control_job (fst (projr (upgrade_agent site_env default_config 9 (site_agent ''d'' ''default'' False) new_build
      ''ops'' None False [] empty_db)))"
proof -
  let ?a = "site_agent ''d'' ''default'' False"
  have "host_gate (Some empty_db) ?a = None"
    by (simp add: host_gate_Some_db site_gate pending_control_job_def empty_db_def find_None_iff)
  then obtain db' j where u: "upgrade_agent site_env default_config 9 ?a new_build ''ops'' None False [] empty_db = Inr (db', j)"
    by (cases "create_job (lf_loads site_env) default_config 9 (lf_mint site_env empty_db)
          (control_job ''d'' ''agent_upgrade'' (upgrade_meta ?a new_build []) ''ops'' None) empty_db")
       (simp add: upgrade_agent_def enqueue_control_def or_empty_def new_build_def site_versions Let_def)
  have "one_control_job empty_db" by (simp add: one_control_job_def empty_db_def)
  from control_job_gated [of "''agent_upgrade''" site_env default_config 9 ?a new_build "''ops''" None False "[]"
      empty_db db' j, OF _ _ this] u
  show ?thesis by simp
qed

text \<open>A rollout whose one canary has completed.\<close>

definition past_canary :: fleet where
  "past_canary = (site_fleet False)\<lparr>
     fl_rollouts := [(new_rollout site_env 5 new_build ''ops'' [] (site_fleet False))\<lparr> ro_canary_job_ids := [''x''] \<rparr>],
     fl_jobs := one_job_db ((running_job ''x'' ''agent_upgrade'' 0)\<lparr> j_status := ''completed'' \<rparr>) \<rparr>"

lemma past_canary_facts:
  "distinct (map ro_id (fl_rollouts past_canary))" "distinct (map j_id (jobs (fl_jobs past_canary)))"
  "fleet_named past_canary"
  "next_status past_canary ((new_rollout site_env 5 new_build ''ops'' [] (site_fleet False))\<lparr> ro_canary_job_ids := [''x''] \<rparr>)
     = ''default''"
  by (simp_all add: past_canary_def site_fleet_def fleet_named_def completed_row_def new_rollout_def next_status_def
      ring_ids_def ring_state_def find_release_def Let_def)

theorem advance_rollouts_exact_witness:
  "map ro_status (fl_rollouts (fst (advance_rollouts site_env 10 past_canary))) = [''default'']"
proof -
  have "map ro_status (fl_rollouts (fst (advance_rollouts site_env 10 past_canary))) =
      map (\<lambda>ro. if in_flight ro then next_status past_canary ro else ro_status ro) (fl_rollouts past_canary)"
    using advance_rollouts_exact [OF prod.collapse [symmetric] past_canary_facts(1,2) site_fresh(1) past_canary_facts(3)]
    by blast
  moreover have "fl_rollouts past_canary =
      [(new_rollout site_env 5 new_build ''ops'' [] (site_fleet False))\<lparr> ro_canary_job_ids := [''x''] \<rparr>]"
    by (simp add: past_canary_def)
  ultimately show ?thesis using past_canary_facts(4) by (simp add: in_flight_def new_rollout_def)
qed

theorem upgrade_completion_verified_witness:
  "fst (complete_control default_config 9 (running_job ''x'' ''agent_upgrade'' 0) ''completed'' [(''version'', JStr ''2.9.0'')] []
     (one_job_db (running_job ''x'' ''agent_upgrade'' 0))) = ''failed''"
  using upgrade_completion_verified [of "running_job ''x'' ''agent_upgrade'' 0" default_config 9 "''completed''"
      "[(''version'', JStr ''2.9.0'')]" "[]" "one_job_db (running_job ''x'' ''agent_upgrade'' 0)"]
  by (simp add: or_empty_text_def dict_get_def running_job_def running_row_def new_row_def plain_new_job_def
      metadata_dict_def Let_def)

definition opened :: fleet where
  "opened = past_canary\<lparr> fl_rollouts := [(new_rollout site_env 5 new_build ''ops'' [] (site_fleet False))
     \<lparr> ro_canary_job_ids := [''x''], ro_status := ''default'' \<rparr>] \<rparr>"

theorem canary_gate_witness:
  "\<exists>j \<in> set (jobs (fl_jobs opened)). j_id j = ''x'' \<and> j_status j = ''completed''"
proof -
  have "fleet_ok opened"
    using past_canary_facts(2,3)
    by (simp add: fleet_ok_def opened_def past_canary_def gate_ok_def completed_in_def fleet_named_def)
  from canary_gate [OF fleet_run.start this site_fresh] show ?thesis by (simp add: opened_def)
qed

end
