(* ===== verification/Agent_Assurance.thy ===== *)
theory Agent_Assurance
  imports Agent_Lifecycle Notify_Outbox
begin

text \<open>
  What is checked after an agent has attested (\<open>services/agent_assurance_service.py\<close>): the attention
  items of an agent, the key an attestation replaced, the policy hash, the recorded releases, and the
  sweep for keys that are not rotated, with the notification and the audit entry of each new item.

  Parameters, in \<open>watch_env\<close>: the configuration, the digest of the outbox, the renderings of an
  instant, and fresh ids for outbox rows. Every read of the clock in one call is one instant, and an
  audit entry is the agent, the kind and the detail.
\<close>

section \<open>State\<close>

record watch_env =
  we_cfg :: config
  we_sha :: "string \<Rightarrow> string"
  we_isof :: "instant \<Rightarrow> string"
  we_minutes :: "instant \<Rightarrow> string"
  we_day :: "instant \<Rightarrow> string"
  we_fresh :: "notify_db \<Rightarrow> string \<Rightarrow> string"

record watch_db =
  wd_st :: agent_db
  wd_notify :: notify_db
  wd_audit :: "(string \<times> string \<times> string) list"

definition KINDS :: "(string \<times> string) list" where
  "KINDS =
     [(''clone'', ''Two copies are running''), (''policy_changed'', ''policy.yaml changed''),
      (''unsigned_version'', ''Not a recorded release''), (''stale_key'', ''Key not rotated'')]"

definition kind_title :: "string \<Rightarrow> string" where
  "kind_title kind = (case map_of KINDS kind of None \<Rightarrow> kind | Some t \<Rightarrow> t)"

definition PREVIOUS_KEY_WINDOW :: instant where "PREVIOUS_KEY_WINDOW = minutes 15"
definition MIN_REATTEST_VERSION :: "int \<times> int" where "MIN_REATTEST_VERSION = (2, 11)"
definition MIN_SIGNED_VERSION :: "int \<times> int" where "MIN_SIGNED_VERSION = (2, 10)"
definition MAX_ITEMS :: nat where "MAX_ITEMS = 20"

definition upd_watch :: "string \<Rightarrow> (agent \<Rightarrow> agent) \<Rightarrow> watch_db \<Rightarrow> watch_db" where
  "upd_watch aid f s = s\<lparr> wd_st := upd_agent aid f (wd_st s) \<rparr>"

definition watched :: "watch_db \<Rightarrow> string \<Rightarrow> agent option" where
  "watched s aid = find_agent (wd_st s) aid"

section \<open>Raising and clearing an item\<close>

definition last_items :: "nat \<Rightarrow> 'a list \<Rightarrow> 'a list" where
  "last_items n xs = drop (length xs - n) xs"

definition attention_event :: "watch_env \<Rightarrow> instant \<Rightarrow> agent \<Rightarrow> string \<Rightarrow> string \<Rightarrow> event" where
  "attention_event env now a kind detail =
     \<lparr> ne_event_type = ''agent.attention'', ne_title = ''Agent '' @ ag_name a @ '': '' @ kind_title kind,
       ne_body = detail, ne_severity = [], ne_resource_id = ''agent:'' @ ag_id a, ne_resource_kind = ''agent'',
       ne_resource_name = ag_name a, ne_cloud = [], ne_region = [], ne_workgroup = [], ne_url = ''/agents'',
       ne_dedupe_bucket = ''agent.attention:'' @ ag_id a @ '':'' @ kind @ '':'' @ we_day env now,
       ne_fields = [(''Agent'', ag_name a), (''Check'', kind_title kind)] \<rparr>"

definition flag :: "watch_env \<Rightarrow> instant \<Rightarrow> agent \<Rightarrow> string \<Rightarrow> string \<Rightarrow> watch_db \<Rightarrow> watch_db \<times> bool" where
  "flag env now a kind detail s =
     (case watched s (ag_id a) of
        None \<Rightarrow> (s, False)
      | Some b \<Rightarrow>
          if \<exists>i \<in> set (ag_attention b). an_kind i = kind then (s, False)
          else (let item = \<lparr> an_kind = kind, an_title = kind_title kind, an_detail = detail, an_at = we_isof env now \<rparr>;
                    s1 = upd_watch (ag_id a) (\<lambda>x. x\<lparr> ag_attention := last_items MAX_ITEMS (ag_attention b @ [item]) \<rparr>) s;
                    s2 = s1\<lparr> wd_audit := wd_audit s1 @ [(ag_id a, kind, detail)] \<rparr>
                in (s2\<lparr> wd_notify := fst (emit_event (we_cfg env) (we_sha env) (we_isof env now) now
                          (we_fresh env (wd_notify s2)) (attention_event env now b kind detail) (wd_notify s2)) \<rparr>,
                    True)))"

definition acknowledge :: "string \<Rightarrow> watch_db \<Rightarrow> watch_db \<times> attention list" where
  "acknowledge aid s =
     (upd_watch aid (\<lambda>a. a\<lparr> ag_attention := [] \<rparr>) s,
      (case watched s aid of None \<Rightarrow> [] | Some a \<Rightarrow> ag_attention a))"

section \<open>The checks\<close>

definition ellipsis :: string where "ellipsis = [CHR 0xE2, CHR 0x80, CHR 0xA6]"

definition check_policy_hash :: "watch_env \<Rightarrow> instant \<Rightarrow> string \<Rightarrow> string \<Rightarrow> watch_db \<Rightarrow> watch_db" where
  "check_policy_hash env now aid reported0 s =
     (let reported = take_chars 64 (py_strip reported0)
      in if reported = [] then s
         else (case watched s aid of
                 None \<Rightarrow> s
               | Some a \<Rightarrow>
                   (let before = or_empty (ag_policy_hash a);
                        s1 = upd_watch aid (\<lambda>x. x\<lparr> ag_policy_hash := Some reported \<rparr>) s
                    in if before \<noteq> [] \<and> before \<noteq> reported
                       then fst (flag env now a ''policy_changed''
                              (''The agent'' @ [CHR 0x27] @ ''s policy.yaml hash changed from '' @ take_chars 12 before @ ellipsis
                               @ '' to '' @ take_chars 12 reported @ ellipsis
                               @ ''. The file is the host owner'' @ [CHR 0x27]
                               @ ''s to edit; if nobody meant to, check the host.'') s1)
                       else s1)))"

definition check_policy :: "watch_env \<Rightarrow> instant \<Rightarrow> string \<Rightarrow> string \<Rightarrow> watch_db \<Rightarrow> watch_db" where
  "check_policy env now aid reported s =
     (case watched s aid of
        None \<Rightarrow> s
      | Some a \<Rightarrow>
          if take_chars 64 (py_strip reported) \<noteq> or_empty (ag_policy_hash a)
          then check_policy_hash env now aid reported s else s)"

text \<open>Before the attestation overwrites the row.\<close>

definition remember_key :: "instant \<Rightarrow> string \<Rightarrow> string \<Rightarrow> agent \<Rightarrow> agent" where
  "remember_key now new_key ip a =
     (let old = or_empty (ag_public_key a);
          a1 = (if old \<noteq> [] \<and> old \<noteq> new_key
                then a\<lparr> ag_previous_public_key := Some old,
                       ag_previous_key_until := Some (now + PREVIOUS_KEY_WINDOW) \<rparr> else a)
      in a1\<lparr> ag_last_attest_at := Some now, ag_last_attest_ip := or_none (Some (take 45 ip)) \<rparr>)"

definition note_attest :: "watch_env \<Rightarrow> instant \<Rightarrow> string \<Rightarrow> string \<Rightarrow> string \<Rightarrow> string \<Rightarrow> watch_db \<Rightarrow> watch_db" where
  "note_attest env now aid new_key policy_hash ip s =
     check_policy_hash env now aid policy_hash (upd_watch aid (remember_key now new_key ip) s)"

definition clone_detail :: "agent \<Rightarrow> string" where
  "clone_detail a =
     ''A request was signed with the key this agent'' @ [CHR 0x27] @ ''s last attestation replaced, so another copy attested as this agent and the older one is still running. It was refused. If you did not start a second copy, revoke the agent and find the other one (it last attested from ''
     @ (if or_empty (ag_last_attest_ip a) \<noteq> [] then or_empty (ag_last_attest_ip a) else ''an unknown address'') @ '').''"

definition caught_previous_key ::
  "watch_env \<Rightarrow> instant \<Rightarrow> agent \<Rightarrow> (string \<Rightarrow> bool) \<Rightarrow> watch_db \<Rightarrow> watch_db \<times> bool" where
  "caught_previous_key env now a verifies s =
     (let old = or_empty (ag_previous_public_key a)
      in case ag_previous_key_until a of
           None \<Rightarrow> (s, False)
         | Some until \<Rightarrow>
             if old = [] \<or> now > until then (s, False)
             else if \<not> verifies old then (s, False)
             else (fst (flag env now a ''clone'' (clone_detail a) s), True))"

definition check_version :: "watch_env \<Rightarrow> instant \<Rightarrow> release list \<Rightarrow> string \<Rightarrow> watch_db \<Rightarrow> watch_db" where
  "check_version env now releases aid s =
     (case watched s aid of
        None \<Rightarrow> s
      | Some a \<Rightarrow>
          if \<not> version_at_least a MIN_SIGNED_VERSION then s
          else if releases = [] \<or> (\<exists>r \<in> set releases. Some (rl_version r) = ag_agent_version a) then s
          else fst (flag env now a ''unsigned_version''
                 (''It reports '' @ or_empty (ag_agent_version a)
                  @ '', which is not a release recorded under Lifecycle. A build from a release is signed; this one may be a local build, or a release nobody recorded yet.'') s))"

definition sweep_candidate :: "instant \<Rightarrow> agent \<Rightarrow> bool" where
  "sweep_candidate now a \<longleftrightarrow>
     ag_is_active a \<and> ag_auth_mode a = Some ''spiffe''
     \<and> (case ag_reported_reattest_hours a of None \<Rightarrow> False | Some h \<Rightarrow> h > 0)
     \<and> (case ag_last_seen_at a of None \<Rightarrow> False | Some t \<Rightarrow> t \<ge> now - seconds ONLINE_WINDOW_SECONDS)"

definition key_overdue :: "instant \<Rightarrow> agent \<Rightarrow> bool" where
  "key_overdue now a \<longleftrightarrow>
     version_at_least a MIN_REATTEST_VERSION
     \<and> (case ag_last_attest_at a of
          None \<Rightarrow> True
        | Some t \<Rightarrow> now - t > seconds (2 * the (ag_reported_reattest_hours a) * 3600))"

definition stale_detail :: "watch_env \<Rightarrow> agent \<Rightarrow> string" where
  "stale_detail env a =
     ''It re-attests every '' @ py_str_int (the (ag_reported_reattest_hours a)) @ '' h but last did ''
     @ (case ag_last_attest_at a of None \<Rightarrow> ''never'' | Some t \<Rightarrow> we_minutes env t @ '' UTC'')
     @ ''. Its key is older than it should be; restart it, and check its log for attestation errors.''"

definition sweep_agent :: "watch_env \<Rightarrow> instant \<Rightarrow> agent \<Rightarrow> watch_db \<times> nat \<Rightarrow> watch_db \<times> nat" where
  "sweep_agent env now a acc =
     (case acc of (s, new) \<Rightarrow>
        if key_overdue now a
        then (case flag env now a ''stale_key'' (stale_detail env a) s of (s', raised) \<Rightarrow> (s', if raised then Suc new else new))
        else acc)"

definition sweep_keys :: "watch_env \<Rightarrow> instant \<Rightarrow> watch_db \<Rightarrow> watch_db \<times> nat" where
  "sweep_keys env now s =
     fold (sweep_agent env now) (filter (sweep_candidate now) (agents (wd_st s))) (s, 0)"

definition has_work :: "watch_db \<Rightarrow> bool" where
  "has_work s =
     list_ex (\<lambda>a. ag_is_active a \<and> ag_auth_mode a = Some ''spiffe''
                \<and> (case ag_reported_reattest_hours a of None \<Rightarrow> False | Some h \<Rightarrow> h > 0)) (agents (wd_st s))"

section \<open>The checks where the protocol makes them\<close>

text \<open>
  \<open>authenticate\<close> with the check of a refused signature: the refusal is the same, the check only decides
  whether a person is told.
\<close>

definition authenticate_watched ::
  "watch_env \<Rightarrow> (string \<Rightarrow> string) \<Rightarrow> (string \<Rightarrow> 'k option) \<Rightarrow> ('k \<Rightarrow> string \<Rightarrow> string \<Rightarrow> bool) \<Rightarrow> instant \<Rightarrow>
   request \<Rightarrow> string \<Rightarrow> string \<Rightarrow> watch_db \<Rightarrow> (agent_failure + string) \<times> watch_db" where
  "authenticate_watched env H edkey edverify now r signature ip s =
     (case find_agent (wd_st s) (rq_agent_id r) of
        Some a \<Rightarrow>
          if ag_is_active a \<and> or_empty (ag_public_key a) \<noteq> []
             \<and> \<not> verify_request H edkey edverify now (or_empty (ag_public_key a)) r signature
          then (Inl (AgentError ''Signature verification failed.''),
                fst (caught_previous_key env now a (\<lambda>key. verify_request H edkey edverify now key r signature) s))
          else (case authenticate H edkey edverify (we_cfg env) now r signature ip (wd_st s) of
                  (res, st) \<Rightarrow> (res, s\<lparr> wd_st := st \<rparr>))
      | None \<Rightarrow> (Inl (AgentError ''Unknown or inactive agent.''), s))"

text \<open>\<open>record_self_report\<close>: what is stored, then the checks of what moved.\<close>

definition self_report_watched ::
  "watch_env \<Rightarrow> instant \<Rightarrow> release list \<Rightarrow> string \<Rightarrow> self_report \<Rightarrow> watch_db \<Rightarrow> watch_db" where
  "self_report_watched env now releases aid r s =
     (case watched s aid of
        None \<Rightarrow> s
      | Some a \<Rightarrow>
          (let version = take 32 (py_strip (sr_version r));
               moved = (version \<noteq> [] \<and> version \<noteq> or_empty (ag_agent_version a));
               s1 = upd_watch aid (report_fields r) s;
               s2 = (if sr_policy_hash r \<noteq> [] then check_policy env now aid (sr_policy_hash r) s1 else s1)
           in if moved then check_version env now releases aid s2 else s2))"

section \<open>Lemmas\<close>

lemma watched_upd:
  assumes "\<And>a. ag_id (f a) = ag_id a"
  shows "watched (upd_watch i f s) aid = (if aid = i then map_option f (watched s aid) else watched s aid)"
proof -
  have "find_agent (upd_agent i f (wd_st s)) aid =
      map_option (\<lambda>a. if ag_id a = i then f a else a) (find_agent (wd_st s) aid)"
    using assms by (rule find_agent_upd)
  moreover have "find_agent (wd_st s) aid = Some a \<Longrightarrow> ag_id a = aid" for a
    by (auto simp: find_agent_def dest: find_Some_set)
  ultimately show ?thesis
    by (cases "find_agent (wd_st s) aid") (auto simp: watched_def upd_watch_def)
qed

lemma upd_watch_simps [simp]:
  "wd_notify (upd_watch i f s) = wd_notify s" "wd_audit (upd_watch i f s) = wd_audit s"
  by (simp_all add: upd_watch_def)

lemma watched_id: "watched s aid = Some a \<Longrightarrow> ag_id a = aid"
  by (auto simp: watched_def find_agent_def dest: find_Some_set)

lemma watched_wrap [simp]:
  "watched (s\<lparr> wd_notify := n \<rparr>) = watched s" "watched (s\<lparr> wd_audit := u \<rparr>) = watched s"
  by (simp_all add: watched_def fun_eq_iff)

definition has_item :: "string \<Rightarrow> string \<Rightarrow> watch_db \<Rightarrow> bool" where
  "has_item aid kind s \<longleftrightarrow> (\<exists>a. watched s aid = Some a \<and> kind \<in> an_kind ` set (ag_attention a))"

lemma flag_known: "has_item (ag_id a) kind s \<Longrightarrow> flag env now a kind detail s = (s, False)"
  by (auto simp: has_item_def flag_def)

lemma flag_absent: "watched s (ag_id a) = None \<Longrightarrow> flag env now a kind detail s = (s, False)"
  by (simp add: flag_def)

lemma flag_new:
  assumes "watched s (ag_id a) = Some b" and "\<not> has_item (ag_id a) kind s"
  shows "snd (flag env now a kind detail s)"
    and "watched (fst (flag env now a kind detail s)) aid =
      (if aid = ag_id a
       then Some (b\<lparr> ag_attention := last_items MAX_ITEMS (ag_attention b @
              [\<lparr> an_kind = kind, an_title = kind_title kind, an_detail = detail, an_at = we_isof env now \<rparr>]) \<rparr>)
       else watched s aid)"
    and "wd_audit (fst (flag env now a kind detail s)) = wd_audit s @ [(ag_id a, kind, detail)]"
    and "wd_notify (fst (flag env now a kind detail s)) =
      fst (emit_event (we_cfg env) (we_sha env) (we_isof env now) now (we_fresh env (wd_notify s))
             (attention_event env now b kind detail) (wd_notify s))"
proof -
  have no: "\<not> (\<exists>i \<in> set (ag_attention b). an_kind i = kind)"
    using assms by (auto simp: has_item_def)
  show "snd (flag env now a kind detail s)"
    and "wd_audit (fst (flag env now a kind detail s)) = wd_audit s @ [(ag_id a, kind, detail)]"
    and "wd_notify (fst (flag env now a kind detail s)) =
      fst (emit_event (we_cfg env) (we_sha env) (we_isof env now) now (we_fresh env (wd_notify s))
             (attention_event env now b kind detail) (wd_notify s))"
    using assms(1) no by (simp_all add: flag_def Let_def)
  show "watched (fst (flag env now a kind detail s)) aid =
      (if aid = ag_id a
       then Some (b\<lparr> ag_attention := last_items MAX_ITEMS (ag_attention b @
              [\<lparr> an_kind = kind, an_title = kind_title kind, an_detail = detail, an_at = we_isof env now \<rparr>]) \<rparr>)
       else watched s aid)"
    using assms(1) no by (simp add: flag_def Let_def watched_upd)
qed

text \<open>An agent whose items are known kinds, each at most once: at most four, so none is ever dropped.\<close>

definition items_ok :: "agent \<Rightarrow> bool" where
  "items_ok a \<longleftrightarrow> distinct (map an_kind (ag_attention a)) \<and> an_kind ` set (ag_attention a) \<subseteq> fst ` set KINDS"

definition watch_ok :: "watch_db \<Rightarrow> bool" where
  "watch_ok s \<longleftrightarrow> (\<forall>a \<in> set (agents (wd_st s)). items_ok a)"

lemma items_few: "items_ok a \<Longrightarrow> length (ag_attention a) \<le> 4"
proof -
  assume ok: "items_ok a"
  then have "length (ag_attention a) = card (an_kind ` set (ag_attention a))"
    by (metis distinct_card items_ok_def length_map list.set_map)
  also have "\<dots> \<le> card (fst ` set KINDS)" using ok by (intro card_mono) (auto simp: items_ok_def)
  also have "\<dots> = 4" by (simp add: KINDS_def)
  finally show ?thesis .
qed

lemma last_items_all: "length xs \<le> n \<Longrightarrow> last_items n xs = xs"
  by (simp add: last_items_def)

lemma watched_ok: "watch_ok s \<Longrightarrow> watched s aid = Some a \<Longrightarrow> items_ok a"
  by (auto simp: watch_ok_def watched_def find_agent_def dest: find_Some_set)

text \<open>What a check leaves alone: everything but the items of agents.\<close>

definition only_items :: "watch_db \<Rightarrow> watch_db \<Rightarrow> bool" where
  "only_items s s' \<longleftrightarrow>
     (\<exists>f. (\<forall>a. \<exists>xs. f a = a\<lparr> ag_attention := xs \<rparr>) \<and> agents (wd_st s') = map f (agents (wd_st s)))
     \<and> wd_st s' = (wd_st s)\<lparr> agents := agents (wd_st s') \<rparr>"

lemma only_items_refl: "only_items s s"
proof -
  have "a = a\<lparr> ag_attention := ag_attention a \<rparr>" for a :: agent by simp
  then have "\<forall>a :: agent. \<exists>xs. id a = a\<lparr> ag_attention := xs \<rparr>" by (metis id_apply)
  moreover have "agents (wd_st s) = map id (agents (wd_st s))" by simp
  ultimately show ?thesis unfolding only_items_def by (metis agent_db.surjective agent_db.update_convs(1))
qed

lemma flag_only_items: "only_items s (fst (flag env now a kind detail s))"
proof (cases "\<exists>b. watched s (ag_id a) = Some b \<and> \<not> has_item (ag_id a) kind s")
  case False
  then have "flag env now a kind detail s = (s, False)"
    using flag_known flag_absent by (metis not_None_eq)
  then show ?thesis by (simp add: only_items_refl)
next
  case True
  then obtain b where b: "watched s (ag_id a) = Some b" "\<not> has_item (ag_id a) kind s" by blast
  then have no: "\<not> (\<exists>i \<in> set (ag_attention b). an_kind i = kind)" by (auto simp: has_item_def)
  define xs where "xs = last_items MAX_ITEMS (ag_attention b @
      [\<lparr> an_kind = kind, an_title = kind_title kind, an_detail = detail, an_at = we_isof env now \<rparr>])"
  let ?f = "\<lambda>x. if ag_id x = ag_id a then x\<lparr> ag_attention := xs \<rparr> else x"
  have st: "wd_st (fst (flag env now a kind detail s)) = upd_agent (ag_id a) (\<lambda>x. x\<lparr> ag_attention := xs \<rparr>) (wd_st s)"
    using b(1) no by (simp add: flag_def Let_def upd_watch_def xs_def)
  have "\<exists>ys. ?f x = x\<lparr> ag_attention := ys \<rparr>" for x
  proof (cases "ag_id x = ag_id a")
    case True
    then show ?thesis by (intro exI [of _ xs]) simp
  next
    case False
    then show ?thesis by (intro exI [of _ "ag_attention x"]) simp
  qed
  then have "\<forall>x. \<exists>ys. ?f x = x\<lparr> ag_attention := ys \<rparr>" ..
  moreover have "agents (upd_agent (ag_id a) (\<lambda>x. x\<lparr> ag_attention := xs \<rparr>) (wd_st s)) = map ?f (agents (wd_st s))"
    by (simp add: upd_agent_def tbl_update_def)
  moreover have "upd_agent i g st = st\<lparr> agents := agents (upd_agent i g st) \<rparr>" for i g st
    by (simp add: upd_agent_def)
  ultimately show ?thesis unfolding only_items_def st by (intro conjI exI [of _ ?f])
qed

lemma flag_watch_ok:
  assumes "watch_ok s" and "kind \<in> fst ` set KINDS"
  shows "watch_ok (fst (flag env now a kind detail s))"
proof (cases "\<exists>b. watched s (ag_id a) = Some b \<and> \<not> has_item (ag_id a) kind s")
  case False
  then have "flag env now a kind detail s = (s, False)"
    using flag_known flag_absent by (metis not_None_eq)
  then show ?thesis using assms(1) by simp
next
  case True
  then obtain b where b: "watched s (ag_id a) = Some b" "\<not> has_item (ag_id a) kind s" by blast
  then have no: "\<not> (\<exists>i \<in> set (ag_attention b). an_kind i = kind)" by (auto simp: has_item_def)
  let ?item = "\<lparr> an_kind = kind, an_title = kind_title kind, an_detail = detail, an_at = we_isof env now \<rparr>"
  have ok: "items_ok b" using watched_ok [OF assms(1) b(1)] .
  have "last_items MAX_ITEMS (ag_attention b @ [?item]) = ag_attention b @ [?item]"
    using items_few [OF ok] by (intro last_items_all) (simp add: MAX_ITEMS_def)
  then have st: "wd_st (fst (flag env now a kind detail s)) =
      upd_agent (ag_id a) (\<lambda>x. x\<lparr> ag_attention := ag_attention b @ [?item] \<rparr>) (wd_st s)"
    using b(1) no by (simp add: flag_def Let_def upd_watch_def)
  have new: "items_ok (x\<lparr> ag_attention := ag_attention b @ [?item] \<rparr>)" for x
    using ok no assms(2) by (auto simp: items_ok_def image_iff)
  show ?thesis
    using assms(1) new by (auto simp: watch_ok_def st upd_agent_def set_tbl_update)
qed

lemma watch_ok_upd:
  "(\<And>a. ag_attention (f a) = ag_attention a \<or> ag_attention (f a) = []) \<Longrightarrow> watch_ok s \<Longrightarrow> watch_ok (upd_watch i f s)"
proof -
  assume keep: "\<And>a. ag_attention (f a) = ag_attention a \<or> ag_attention (f a) = []" and ok: "watch_ok s"
  have "items_ok (f a)" if "items_ok a" for a using keep [of a] that by (auto simp: items_ok_def)
  with ok show ?thesis by (auto simp: watch_ok_def upd_watch_def upd_agent_def set_tbl_update)
qed

lemma flag_watch_ok' [intro]:
  "watch_ok s \<Longrightarrow> kind_title kind \<noteq> kind \<Longrightarrow> watch_ok (fst (flag env now a kind detail s))"
  by (rule flag_watch_ok) (auto simp: kind_title_def split: option.splits dest: map_of_SomeD intro: rev_image_eqI)

lemma kinds_known [simp]:
  "kind_title ''clone'' \<noteq> ''clone''" "kind_title ''policy_changed'' \<noteq> ''policy_changed''"
  "kind_title ''unsigned_version'' \<noteq> ''unsigned_version''" "kind_title ''stale_key'' \<noteq> ''stale_key''"
  by code_simp+

lemma check_policy_hash_ok: "watch_ok s \<Longrightarrow> watch_ok (check_policy_hash env now aid h s)"
  by (auto simp: check_policy_hash_def Let_def watch_ok_upd split: option.splits)

lemma check_policy_ok: "watch_ok s \<Longrightarrow> watch_ok (check_policy env now aid h s)"
  by (auto simp: check_policy_def check_policy_hash_ok split: option.splits)

lemma note_attest_ok: "watch_ok s \<Longrightarrow> watch_ok (note_attest env now aid k h ip s)"
  unfolding note_attest_def by (intro check_policy_hash_ok watch_ok_upd) (simp_all add: remember_key_def Let_def)

lemma caught_ok: "watch_ok s \<Longrightarrow> watch_ok (fst (caught_previous_key env now a v s))"
  by (auto simp: caught_previous_key_def Let_def split: option.splits)

lemma check_version_ok: "watch_ok s \<Longrightarrow> watch_ok (check_version env now rs aid s)"
  by (auto simp: check_version_def split: option.splits)

lemma sweep_agent_ok: "watch_ok (fst acc) \<Longrightarrow> watch_ok (fst (sweep_agent env now a acc))"
  using flag_watch_ok' [of "fst acc" "''stale_key''" env now a "stale_detail env a"]
  by (auto simp: sweep_agent_def split: prod.splits)

lemma acknowledge_ok: "watch_ok s \<Longrightarrow> watch_ok (fst (acknowledge aid s))"
  unfolding acknowledge_def fst_conv by (rule watch_ok_upd) simp_all

text \<open>An item is on an agent after a check exactly when it was there, or the check raised it.\<close>

lemma has_item_flag:
  assumes "watched s (ag_id a) \<noteq> None"
  shows "has_item aid kind (fst (flag env now a kind detail s)) \<longleftrightarrow> has_item aid kind s \<or> aid = ag_id a"
proof (cases "has_item (ag_id a) kind s")
  case True
  then show ?thesis by (auto simp: flag_known)
next
  case False
  obtain b where b: "watched s (ag_id a) = Some b" using assms by blast
  have "kind \<in> an_kind ` set (last_items MAX_ITEMS (xs @ [\<lparr> an_kind = kind, an_title = t, an_detail = d, an_at = u \<rparr>]))"
    for xs t d u by (simp add: last_items_def MAX_ITEMS_def Suc_diff_le)
  then show ?thesis using flag_new(2) [OF b False] by (simp add: has_item_def)
qed

lemma only_items_watched:
  assumes "only_items s s'"
  shows "\<exists>f. (\<forall>a. \<exists>xs. f a = a\<lparr> ag_attention := xs \<rparr>) \<and> agents (wd_st s') = map f (agents (wd_st s))
           \<and> (\<forall>aid. watched s' aid = map_option f (watched s aid))"
proof -
  obtain f where f: "\<forall>a. \<exists>xs. f a = a\<lparr> ag_attention := xs \<rparr>" and m: "agents (wd_st s') = map f (agents (wd_st s))"
    using assms by (auto simp: only_items_def)
  have id: "ag_id (f a) = ag_id a" for a
    using f [rule_format, of a] by (elim exE) simp
  have "watched s' aid = map_option f (watched s aid)" for aid
    unfolding watched_def find_agent_def m by (rule find_map_key) (simp add: id)
  with f m show ?thesis by blast
qed

lemma only_items_trans: "only_items s t \<Longrightarrow> only_items t u \<Longrightarrow> only_items s u"
proof -
  assume st: "only_items s t" and tu: "only_items t u"
  obtain f where f: "\<forall>a. \<exists>xs. f a = a\<lparr> ag_attention := xs \<rparr>" and mf: "agents (wd_st t) = map f (agents (wd_st s))"
    using st by (auto simp: only_items_def)
  obtain g where g: "\<forall>a. \<exists>xs. g a = a\<lparr> ag_attention := xs \<rparr>" and mg: "agents (wd_st u) = map g (agents (wd_st t))"
    using tu by (auto simp: only_items_def)
  have "\<exists>xs. (g \<circ> f) a = a\<lparr> ag_attention := xs \<rparr>" for a
  proof -
    obtain xs where "f a = a\<lparr> ag_attention := xs \<rparr>" using f by blast
    moreover obtain ys where "g (f a) = (f a)\<lparr> ag_attention := ys \<rparr>" using g by blast
    ultimately show ?thesis by (intro exI [of _ ys]) simp
  qed
  moreover have "agents (wd_st u) = map (g \<circ> f) (agents (wd_st s))" by (simp add: mf mg)
  moreover have "wd_st u = (wd_st s)\<lparr> agents := agents (wd_st u) \<rparr>"
  proof -
    have "wd_st t = (wd_st s)\<lparr> agents := agents (wd_st t) \<rparr>" "wd_st u = (wd_st t)\<lparr> agents := agents (wd_st u) \<rparr>"
      using st tu by (auto simp: only_items_def)
    then show ?thesis by (cases "wd_st s"; cases "wd_st t"; cases "wd_st u") simp
  qed
  ultimately show ?thesis unfolding only_items_def by blast
qed

lemma sweep_agent_items: "only_items (fst acc) (fst (sweep_agent env now a acc))"
  using flag_only_items [of "fst acc" env now a "''stale_key''" "stale_detail env a"]
  by (auto simp: sweep_agent_def only_items_refl split: prod.splits)

lemma sweep_fold:
  assumes "\<forall>a \<in> set xs. watched (fst acc) (ag_id a) \<noteq> None" and "distinct (map ag_id xs)"
  shows "only_items (fst acc) (fst (fold (sweep_agent env now) xs acc))
    \<and> (\<forall>aid. has_item aid ''stale_key'' (fst (fold (sweep_agent env now) xs acc)) \<longleftrightarrow>
          has_item aid ''stale_key'' (fst acc) \<or> (\<exists>a \<in> set xs. key_overdue now a \<and> ag_id a = aid))
    \<and> snd (fold (sweep_agent env now) xs acc) =
        snd acc + length (filter (\<lambda>a. key_overdue now a \<and> \<not> has_item (ag_id a) ''stale_key'' (fst acc)) xs)"
  using assms
proof (induction xs arbitrary: acc)
  case Nil
  then show ?case by (simp add: only_items_refl)
next
  case (Cons a xs)
  let ?acc = "sweep_agent env now a acc"
  have here: "watched (fst acc) (ag_id a) \<noteq> None" using Cons.prems(1) by simp
  have step: "only_items (fst acc) (fst ?acc)" by (rule sweep_agent_items)
  then have some: "watched (fst ?acc) aid \<noteq> None \<longleftrightarrow> watched (fst acc) aid \<noteq> None" for aid
    using only_items_watched [OF step] by auto
  have items: "has_item aid ''stale_key'' (fst ?acc) \<longleftrightarrow>
      has_item aid ''stale_key'' (fst acc) \<or> (key_overdue now a \<and> ag_id a = aid)" for aid
    using has_item_flag [OF here, of aid "''stale_key''" env now "stale_detail env a"]
    by (auto simp: sweep_agent_def split: prod.splits)
  have count: "snd ?acc = (if key_overdue now a \<and> \<not> has_item (ag_id a) ''stale_key'' (fst acc)
      then Suc (snd acc) else snd acc)"
  proof (cases "has_item (ag_id a) ''stale_key'' (fst acc)")
    case True
    then show ?thesis by (auto simp: sweep_agent_def flag_known split: prod.splits)
  next
    case False
    obtain b where "watched (fst acc) (ag_id a) = Some b" using here by blast
    from flag_new(1) [OF this False, of env now "stale_detail env a"] show ?thesis
      using False by (auto simp: sweep_agent_def split: prod.splits)
  qed
  have "filter (\<lambda>x. key_overdue now x \<and> \<not> has_item (ag_id x) ''stale_key'' (fst ?acc)) xs =
      filter (\<lambda>x. key_overdue now x \<and> \<not> has_item (ag_id x) ''stale_key'' (fst acc)) xs"
    using Cons.prems(2) by (intro filter_cong) (auto simp: items)
  moreover have "\<forall>x \<in> set xs. watched (fst ?acc) (ag_id x) \<noteq> None" using Cons.prems(1) some by simp
  moreover note Cons.IH [of ?acc]
  ultimately show ?case
    using Cons.prems(2) only_items_trans [OF step] by (auto simp: items count)
qed

lemma only_attention [simp]:
  "sweep_candidate now (a\<lparr> ag_attention := xs \<rparr>) = sweep_candidate now a"
  "key_overdue now (a\<lparr> ag_attention := xs \<rparr>) = key_overdue now a"
  by (simp_all add: sweep_candidate_def key_overdue_def version_at_least_def split: option.split)

lemma emit_keeps_endpoints:
  "nd_endpoints (fst (emit_event cfg sha occurred now fresh ev s)) = nd_endpoints s"
proof -
  have "nd_endpoints (fst (fold (emit_one cfg sha occurred now fresh ev suppress) eps acc)) = nd_endpoints (fst acc)"
    for suppress eps acc
    by (induction eps arbitrary: acc)
      (auto simp: emit_one_def insert_delivery_def split: prod.splits bool.splits if_splits)
  from this [of _ _ "(s, 0, 0)"] show ?thesis
    by (auto simp: emit_event_def Let_def split: prod.splits) (metis fst_conv)+
qed

lemma wants_cong:
  "ne_event_type a = ne_event_type b \<Longrightarrow> ne_severity a = ne_severity b \<Longrightarrow> wants cfg a = wants cfg b"
  by (rule ext) (simp only: should_notify_def effective_severity_def)

lemma report_attention [simp]: "ag_attention (report_fields r a) = ag_attention a"
proof -
  have "ag_attention (report_version r x) = ag_attention x" "ag_attention (report_types r x) = ag_attention x"
    "ag_attention (report_slots r x) = ag_attention x" "ag_attention (report_control r x) = ag_attention x"
    "ag_attention (report_reattest r x) = ag_attention x" for x
    unfolding report_version_def report_types_def report_slots_def report_control_def report_reattest_def Let_def
    by (cases "sr_job_types r"; simp) (cases "sr_control r"; cases "sr_reattest_hours r"; simp split: option.split)+
  then show ?thesis by (simp add: report_fields_def)
qed

lemma authenticate_ok: "watch_ok s \<Longrightarrow> watch_ok (s\<lparr> wd_st := snd (authenticate H edkey edverify cfg now r sig ip (wd_st s)) \<rparr>)"
proof -
  assume ok: "watch_ok s"
  have "items_ok (seen now ip a) = items_ok a" for a by (simp add: seen_def Let_def items_ok_def)
  moreover have "agents (snd (authenticate H edkey edverify cfg now r sig ip (wd_st s))) =
      agents (wd_st s) \<or> (\<exists>i. agents (snd (authenticate H edkey edverify cfg now r sig ip (wd_st s))) =
        tbl_update (\<lambda>a. ag_id a = i) (seen now ip) (agents (wd_st s)))"
    by (auto simp: authenticate_def upd_agent_def split: option.splits prod.splits bool.splits)
  ultimately show ?thesis using ok by (auto simp: watch_ok_def set_tbl_update)
qed

section \<open>Properties\<close>

text \<open>
  The attention list of an agent holds known kinds, each at most once, so at most four items, and
  the cut to the last twenty never drops one: every operation that raises or clears items keeps this.
\<close>

theorem attention_items_bounded:
  assumes "watch_ok s"
  shows "watch_ok (snd (authenticate_watched env H edkey edverify now r signature ip s))
    \<and> watch_ok (self_report_watched env now releases aid rep s)
    \<and> watch_ok (note_attest env now aid key policy ip s)
    \<and> watch_ok (fst (sweep_keys env now s)) \<and> watch_ok (fst (acknowledge aid s))
    \<and> list_all (\<lambda>a. length (ag_attention a) \<le> 4) (agents (wd_st s))"
proof (intro conjI)
  show "watch_ok (snd (authenticate_watched env H edkey edverify now r signature ip s))"
    using authenticate_ok [OF assms, of H edkey edverify "we_cfg env" now r signature ip] caught_ok [OF assms] assms
    by (simp add: authenticate_watched_def split_beta split: option.split)
  have "watch_ok (upd_watch aid (report_fields rep) s)" using assms by (rule watch_ok_upd [rotated]) simp
  then show "watch_ok (self_report_watched env now releases aid rep s)"
    using assms by (simp add: self_report_watched_def Let_def check_policy_ok check_version_ok split: option.split)
  show "watch_ok (note_attest env now aid key policy ip s)" using assms by (rule note_attest_ok)
  have "watch_ok (fst (fold (sweep_agent env now) xs acc))" if "watch_ok (fst acc)" for xs acc
    using that by (induction xs arbitrary: acc) (simp_all add: sweep_agent_ok)
  then show "watch_ok (fst (sweep_keys env now s))" using assms by (simp add: sweep_keys_def)
  show "watch_ok (fst (acknowledge aid s))" using assms by (rule acknowledge_ok)
  show "list_all (\<lambda>a. length (ag_attention a) \<le> 4) (agents (wd_st s))"
    using assms items_few by (auto simp: list_all_iff watch_ok_def)
qed

text \<open>
  The key sweep raises \<open>stale_key\<close> on exactly the agents that are due for it and do not carry it
  yet, reports how many those were, changes nothing but attention items, and raises nothing when it
  runs again at the same instant.
\<close>

theorem sweep_keys_exact:
  assumes "distinct (map ag_id (agents (wd_st s)))" and "sweep_keys env now s = (s', n)"
  shows "only_items s s'
    \<and> (\<forall>a. a \<in> set (agents (wd_st s)) \<longrightarrow>
         has_item (ag_id a) ''stale_key'' s' =
           (has_item (ag_id a) ''stale_key'' s \<or> (sweep_candidate now a \<and> key_overdue now a)))
    \<and> n = length (filter (\<lambda>a. sweep_candidate now a \<and> key_overdue now a
                            \<and> \<not> has_item (ag_id a) ''stale_key'' s) (agents (wd_st s)))
    \<and> sweep_keys env now s' = (s', 0)"
proof -
  let ?xs = "filter (sweep_candidate now) (agents (wd_st s))"
  have present: "watched s (ag_id a) = Some a" if "a \<in> set (agents (wd_st s))" for a
    using find_key_unique [OF assms(1) that] by (simp add: watched_def find_agent_def)
  have d: "distinct (map ag_id (filter p (agents (wd_st s))))" for p
    using assms(1) by (rule distinct_map_filter)
  have fold: "fold (sweep_agent env now) ?xs (s, 0) = (s', n)" using assms(2) by (simp add: sweep_keys_def)
  have "\<forall>a \<in> set ?xs. watched (fst (s, 0 :: nat)) (ag_id a) \<noteq> None" using present by simp
  from sweep_fold [OF this d, where env = env and now = now] fold
  have o: "only_items s s'"
    and i: "\<And>aid. has_item aid ''stale_key'' s' \<longleftrightarrow>
          has_item aid ''stale_key'' s \<or> (\<exists>a \<in> set ?xs. key_overdue now a \<and> ag_id a = aid)"
    and n: "n = length (filter (\<lambda>a. key_overdue now a \<and> \<not> has_item (ag_id a) ''stale_key'' s) ?xs)"
    by simp_all
  obtain f where f: "\<forall>a. \<exists>xs. f a = a\<lparr> ag_attention := xs \<rparr>" and m: "agents (wd_st s') = map f (agents (wd_st s))"
    using o by (auto simp: only_items_def)
  have fid: "ag_id (f a) = ag_id a" and fcand: "sweep_candidate now (f a) = sweep_candidate now a"
    and fdue: "key_overdue now (f a) = key_overdue now a" for a
  proof -
    obtain xs where "f a = a\<lparr> ag_attention := xs \<rparr>" using f by blast
    then show "ag_id (f a) = ag_id a" "sweep_candidate now (f a) = sweep_candidate now a"
      "key_overdue now (f a) = key_overdue now a"
      by simp_all
  qed
  have ids: "map ag_id (agents (wd_st s')) = map ag_id (agents (wd_st s))" by (simp add: m fid)
  have again: "fold (sweep_agent env now) xs (s', 0) = (s', 0)"
    if "set xs \<subseteq> set (filter (sweep_candidate now) (agents (wd_st s')))" for xs
    using that
  proof (induction xs)
    case (Cons a xs)
    then obtain b where b: "b \<in> set (agents (wd_st s))" "a = f b" "sweep_candidate now b"
      by (auto simp: m fcand)
    have "sweep_agent env now a (s', 0) = (s', 0)"
    proof (cases "key_overdue now a")
      case True
      then have "has_item (ag_id a) ''stale_key'' s'" using b i by (auto simp: fdue fid)
      then show ?thesis by (simp add: sweep_agent_def flag_known)
    qed (simp add: sweep_agent_def)
    with Cons show ?case by simp
  qed simp
  have mem: "(\<exists>b \<in> set ?xs. key_overdue now b \<and> ag_id b = ag_id a) \<longleftrightarrow> sweep_candidate now a \<and> key_overdue now a"
    if "a \<in> set (agents (wd_st s))" for a
    using present that by (auto intro: bexI [of _ a]) (metis option.inject present)+
  show ?thesis
    using o i mem n again by (simp add: sweep_keys_def conj_ac) 
qed

text \<open>
  Watching does not change what a signed request gets: the answer is the one of
  \<open>authenticate\<close>, and so is every table, apart from attention items.
\<close>

theorem authenticate_watched_same:
  "fst (authenticate_watched env H edkey edverify now r signature ip s) =
     fst (authenticate H edkey edverify (we_cfg env) now r signature ip (wd_st s))
   \<and> only_items (s\<lparr> wd_st := snd (authenticate H edkey edverify (we_cfg env) now r signature ip (wd_st s)) \<rparr>)
       (snd (authenticate_watched env H edkey edverify now r signature ip s))"
proof (cases "find_agent (wd_st s) (rq_agent_id r)")
  case None
  then show ?thesis by (simp add: authenticate_watched_def authenticate_def only_items_refl)
next
  case (Some a)
  let ?bad = "ag_is_active a \<and> or_empty (ag_public_key a) \<noteq> []
    \<and> \<not> verify_request H edkey edverify now (or_empty (ag_public_key a)) r signature"
  have caught: "only_items s (fst (caught_previous_key env now a v s))" for v
    by (simp add: caught_previous_key_def Let_def flag_only_items only_items_refl split: option.split)
  show ?thesis
  proof (cases ?bad)
    case True
    then show ?thesis using Some caught by (simp add: authenticate_watched_def authenticate_def)
  next
    case False
    have "authenticate_watched env H edkey edverify now r signature ip s =
        (case authenticate H edkey edverify (we_cfg env) now r signature ip (wd_st s) of
           (res, st) \<Rightarrow> (res, s\<lparr> wd_st := st \<rparr>))"
      using Some False by (simp only: authenticate_watched_def option.case if_False)
    then show ?thesis by (simp add: only_items_refl split: prod.split)
  qed
qed

text \<open>
  A check is notified once per day, not once per acknowledgement: an item that was raised,
  acknowledged and raised again on the same day is recorded and audited again, but the second time
  nothing reaches the outbox as long as the first rows are kept.
\<close>

theorem raised_again_same_day_silent:
  assumes "flag env now a kind detail s = (s1, True)" and "flag env now' a' kind detail' s2 = (s3, True)"
    and "ag_id a' = ag_id a" and "we_day env now' = we_day env now"
    and "keys_of (wd_notify s1) \<subseteq> keys_of (wd_notify s2)"
    and "nd_endpoints (wd_notify s2) = nd_endpoints (wd_notify s)"
  shows "wd_audit s3 = wd_audit s2 @ [(ag_id a, kind, detail')] \<and> wd_notify s3 = wd_notify s2"
proof -
  have new: "\<exists>b. watched s (ag_id x) = Some b \<and> \<not> has_item (ag_id x) kind s"
    if "flag env n x kind d s = (u, True)" for n x d s u
    using that flag_known [of x kind s env n d] flag_absent [of s x env n kind d]
    by (cases "watched s (ag_id x)") auto
  obtain b where b: "watched s (ag_id a) = Some b" "\<not> has_item (ag_id a) kind s" using new [OF assms(1)] by blast
  obtain b' where b': "watched s2 (ag_id a') = Some b'" "\<not> has_item (ag_id a') kind s2" using new [OF assms(2)] by blast
  let ?ev = "attention_event env now b kind detail" and ?ev' = "attention_event env now' b' kind detail'"
  have id: "ag_id b = ag_id a" "ag_id b' = ag_id a" using b(1) b'(1) assms(3) by (auto dest: watched_id)
  have key: "dedupe_key (we_sha env) ?ev' = dedupe_key (we_sha env) ?ev"
    by (rule dedupe_key_cong) (simp_all add: attention_event_def id assms(4))
  have wants: "wants (we_cfg env) ?ev' = wants (we_cfg env) ?ev"
    using wants_cong [of ?ev' ?ev] by (simp add: attention_event_def)
  have n1: "wd_notify s1 = fst (emit_event (we_cfg env) (we_sha env) (we_isof env now) now (we_fresh env (wd_notify s)) ?ev (wd_notify s))"
    using flag_new(4) [OF b, of env now detail] assms(1) by simp
  have n3: "wd_notify s3 = fst (emit_event (we_cfg env) (we_sha env) (we_isof env now') now' (we_fresh env (wd_notify s2)) ?ev' (wd_notify s2))"
    and a3: "wd_audit s3 = wd_audit s2 @ [(ag_id a, kind, detail')]"
    using flag_new(3,4) [OF b', of env now' detail'] assms(2,3) by simp_all
  have "wd_notify s3 = wd_notify s2"
  proof (cases "notify_enabled (we_cfg env)")
    case True
    have "\<forall>ep \<in> set (nd_endpoints (wd_notify s2)). en_enabled ep \<and> wants (we_cfg env) ?ev' ep \<longrightarrow>
        dedupe_key (we_sha env) ?ev' (en_id ep) \<in> keys_of (wd_notify s2)"
      using emit_keys [OF True, of "we_sha env" "we_isof env now" now "we_fresh env (wd_notify s)" ?ev "wd_notify s"]
        assms(5,6) n1 wants key by (auto simp: fun_eq_iff)
    then show ?thesis using n3 by (simp add: emit_again_silent)
  next
    case False
    then show ?thesis using n3 by (simp add: emit_event_def)
  qed
  with a3 show ?thesis by simp
qed

section \<open>A watched agent\<close>

definition watch_demo_env :: watch_env where
  "watch_demo_env =
     \<lparr> we_cfg = demo_cfg\<lparr> cfg_store := (''notify_max_queue'', ''9'') # cfg_store demo_cfg \<rparr>, we_sha = (\<lambda>s. s),
       we_isof = (\<lambda>_. ''now''), we_minutes = (\<lambda>_. ''then''), we_day = (\<lambda>_. ''day''),
       we_fresh = (\<lambda>_ e. ''d1'' @ e) \<rparr>"

definition watch_demo_agent :: agent where
  "watch_demo_agent =
     enrolled_agent\<lparr> ag_auth_mode := Some ''spiffe'', ag_agent_version := Some ''2.11.0'',
                     ag_reported_reattest_hours := Some 1 \<rparr>"

definition watch_demo :: watch_db where
  "watch_demo =
     \<lparr> wd_st = one_agent_db watch_demo_agent,
       wd_notify = \<lparr> nd_endpoints = [demo_endpoint], nd_deliveries = [], nd_storms = [] \<rparr>, wd_audit = [] \<rparr>"

lemma watch_demo_evals: "snd (sweep_keys watch_demo_env 5 watch_demo) = 1"
  by code_simp

lemma sweep_keys_exact_witness:
  "snd (sweep_keys watch_demo_env 5 watch_demo) = 1
    \<and> snd (sweep_keys watch_demo_env 5 (fst (sweep_keys watch_demo_env 5 watch_demo))) = 0"
proof -
  have "distinct (map ag_id (agents (wd_st watch_demo)))" by (simp add: watch_demo_def one_agent_db_def)
  from sweep_keys_exact [OF this prod.collapse [symmetric], of watch_demo_env 5]
  show ?thesis by (simp add: watch_demo_evals)
qed

definition watch_demo_raised :: watch_db where
  "watch_demo_raised = fst (flag watch_demo_env 5 watch_demo_agent ''clone'' ''once'' watch_demo)"

definition watch_demo_cleared :: watch_db where
  "watch_demo_cleared = fst (acknowledge ''a1'' watch_demo_raised)"

definition watch_demo_again :: watch_db where
  "watch_demo_again = fst (flag watch_demo_env 9 watch_demo_agent ''clone'' ''twice'' watch_demo_cleared)"

lemma watch_demo_raises:
  "snd (flag watch_demo_env 5 watch_demo_agent ''clone'' ''once'' watch_demo)"
  "snd (flag watch_demo_env 9 watch_demo_agent ''clone'' ''twice'' watch_demo_cleared)"
  "ag_id watch_demo_agent = ''a1''"
proof -
  show a1: "ag_id watch_demo_agent = ''a1''" by (simp add: watch_demo_agent_def enrolled_agent_def)
  have w: "watched watch_demo ''a1'' = Some watch_demo_agent"
    by (simp add: watched_def watch_demo_def one_agent_db_def find_agent_def a1)
  have none: "ag_attention watch_demo_agent = []" by (simp add: watch_demo_agent_def enrolled_agent_def)
  show "snd (flag watch_demo_env 5 watch_demo_agent ''clone'' ''once'' watch_demo)"
    using w none by (intro flag_new(1)) (simp_all add: a1 has_item_def)
  have "watched watch_demo_cleared ''a1'' = map_option (\<lambda>a. a\<lparr> ag_attention := [] \<rparr>) (watched watch_demo_raised ''a1'')"
    by (simp add: watch_demo_cleared_def acknowledge_def watched_upd)
  moreover have "watched watch_demo_raised ''a1'' \<noteq> None"
    using w none by (simp add: watch_demo_raised_def flag_new(2) a1 has_item_def)
  ultimately obtain b where "watched watch_demo_cleared ''a1'' = Some b" "ag_attention b = []" by auto
  then show "snd (flag watch_demo_env 9 watch_demo_agent ''clone'' ''twice'' watch_demo_cleared)"
    by (intro flag_new(1)) (simp_all add: a1 has_item_def)
qed

lemma watch_demo_sent: "length (nd_deliveries (wd_notify watch_demo_raised)) = 1"
  by code_simp

lemma raised_again_same_day_silent_witness:
  "length (nd_deliveries (wd_notify watch_demo_raised)) = 1
    \<and> wd_audit watch_demo_again = wd_audit watch_demo_cleared @ [(''a1'', ''clone'', ''twice'')]
    \<and> wd_notify watch_demo_again = wd_notify watch_demo_cleared"
proof -
  have "flag watch_demo_env 5 watch_demo_agent ''clone'' ''once'' watch_demo = (watch_demo_raised, True)"
    "flag watch_demo_env 9 watch_demo_agent ''clone'' ''twice'' watch_demo_cleared = (watch_demo_again, True)"
    using watch_demo_raises(1,2) by (simp_all add: watch_demo_raised_def watch_demo_again_def prod_eq_iff)
  moreover have same: "wd_notify watch_demo_cleared = wd_notify watch_demo_raised"
    by (simp add: watch_demo_cleared_def acknowledge_def)
  moreover have "nd_endpoints (wd_notify watch_demo_raised) = nd_endpoints (wd_notify watch_demo)"
    by (simp add: watch_demo_raised_def flag_def Let_def emit_keeps_endpoints split: option.split)
  ultimately show ?thesis
    using raised_again_same_day_silent [of watch_demo_env 5 watch_demo_agent "''clone''" "''once''" watch_demo
        watch_demo_raised 9 watch_demo_agent "''twice''" watch_demo_cleared watch_demo_again]
      watch_demo_sent watch_demo_raises(3) by (simp add: watch_demo_env_def)
qed

lemma attention_items_bounded_witness:
  "watch_ok watch_demo \<and> watch_ok (fst (sweep_keys watch_demo_env 5 watch_demo))"
proof -
  have "watch_ok watch_demo"
    by (simp add: watch_ok_def watch_demo_def one_agent_db_def watch_demo_agent_def enrolled_agent_def items_ok_def)
  with attention_items_bounded [OF this] show ?thesis by blast
qed

end
