(* ===== verification/Agent_Attest.thy ===== *)
theory Agent_Attest
  imports Agent_Assurance
begin

text \<open>
  Attestation through SPIRE (\<open>services/spiffe_assertion.py\<close> and the SPIRE half of
  \<open>services/agent_service.py\<close>): SPIFFE IDs, the verification of a JWT-SVID and its single use, the
  binding of an identity to an agent, and the attestation that binds a key to it.

  Parameters, in \<open>svid_lib\<close>: what the JOSE library reads and verifies of an assertion, the keys of a
  trust domain (fetched, cached or stored), and the digest of an assertion. Instants are in
  microseconds, the expiry of an assertion in seconds.
\<close>

section \<open>SPIFFE IDs\<close>

definition trust_domain_of :: "string \<Rightarrow> string" where
  "trust_domain_of spiffe_id =
     (let sid = py_strip spiffe_id
      in if \<not> starts_with ''spiffe://'' sid then []
         else (let td = takeWhile (\<lambda>c. c \<noteq> CHR ''/'') (drop (length ''spiffe://'') sid)
               in if td \<noteq> [] \<and> CHR ''@'' \<notin> set td \<and> CHR '':'' \<notin> set td then py_lower td else []))"

definition valid_spiffe_id :: "string \<Rightarrow> bool" where
  "valid_spiffe_id spiffe_id \<longleftrightarrow>
     (let sid = py_strip spiffe_id
      in trust_domain_of sid \<noteq> [] \<and> length sid \<le> 500 \<and> \<not> list_ex is_space sid
         \<and> CHR ''?'' \<notin> set sid \<and> CHR ''#'' \<notin> set sid)"

section \<open>Assertions and trust domains\<close>

definition ASYMMETRIC_ALGS :: "string list" where
  "ASYMMETRIC_ALGS =
     [''RS256'', ''RS384'', ''RS512'', ''PS256'', ''PS384'', ''PS512'', ''ES256'', ''ES384'', ''ES512'']"

definition MAX_ASSERTION_LIFETIME :: int where "MAX_ASSERTION_LIFETIME = 3600"
definition LEEWAY :: int where "LEEWAY = 30"

record claims =
  cl_sub :: string
  cl_aud :: "string list"
  cl_exp :: int

record jwk =
  jk_kid :: "string option"
  jk_use :: "string option"
  jk_material :: string

record trust_domain =
  td_name :: string
  td_jwks_url :: "string option"
  td_bundle_json :: "string option"
  td_bundle_captured_at :: "instant option"
  td_spire_lab_id :: "string option"
  td_created_by :: "string option"

text \<open>The rows, and the module's caches of keys and of the last forced reads.\<close>

record trust_db =
  tr_domains :: "trust_domain list"
  tr_cache :: "string \<rightharpoonup> jwk list \<times> instant"
  tr_last_forced :: "string \<rightharpoonup> instant"
  tr_last_resync :: "string \<rightharpoonup> instant"

record svid_lib =
  sl_header :: "string \<Rightarrow> (string option \<times> string option) option"
  sl_unverified_sub :: "string \<Rightarrow> string"
  sl_fetch_jwks :: "instant \<Rightarrow> trust_domain \<Rightarrow> jwk list option"
  sl_json_keys :: "string \<Rightarrow> jwk list option"
  sl_cli_bundle :: "instant \<Rightarrow> string option"
  sl_json_again :: "string \<Rightarrow> string option"
  sl_decode :: "instant \<Rightarrow> jwk list \<Rightarrow> string \<Rightarrow> string \<Rightarrow> claims option"
  sl_digest :: "string \<Rightarrow> string"

section \<open>The keys of a trust domain\<close>

definition JWKS_TTL :: instant where "JWKS_TTL = seconds 300"
definition KID_REFETCH_INTERVAL :: instant where "KID_REFETCH_INTERVAL = seconds 60"
definition SPIRE_OWNER :: string where "SPIRE_OWNER = ''dashboard-spire''"

definition bundle_keys :: "svid_lib \<Rightarrow> string \<Rightarrow> string + jwk list" where
  "bundle_keys lib bundle_json =
     (case sl_json_keys lib bundle_json of
        None \<Rightarrow> Inl ''stored bundle is not JSON''
      | Some keys \<Rightarrow> Inr (filter (\<lambda>k. jk_use k = Some ''jwt-svid'') keys))"

definition cached_keys :: "instant \<Rightarrow> bool \<Rightarrow> string \<Rightarrow> trust_db \<Rightarrow> jwk list option" where
  "cached_keys now force td db =
     (case tr_cache db td of
        None \<Rightarrow> None
      | Some (keys, expires) \<Rightarrow> if expires > now \<and> \<not> force then Some keys else None)"

definition url_keys :: "svid_lib \<Rightarrow> instant \<Rightarrow> bool \<Rightarrow> trust_domain \<Rightarrow> trust_db \<Rightarrow> (string + jwk list) \<times> trust_db" where
  "url_keys lib now force row db =
     (case cached_keys now force (td_name row) db of
        Some keys \<Rightarrow> (Inr keys, db)
      | None \<Rightarrow>
     (case sl_fetch_jwks lib now row of
        None \<Rightarrow> (Inl (''could not fetch JWKS for '' @ td_name row), db)
      | Some doc \<Rightarrow>
          (let keys = filter (\<lambda>k. jk_use k \<in> {None, Some ''sig'', Some ''jwt-svid''}) doc
           in (Inr keys, db\<lparr> tr_cache := (tr_cache db)(td_name row \<mapsto> (keys, now + JWKS_TTL)) \<rparr>))))"

definition last_time :: "(string \<rightharpoonup> instant) \<Rightarrow> string \<Rightarrow> instant" where
  "last_time m td = (case m td of None \<Rightarrow> 0 | Some t \<Rightarrow> t)"

definition unknown_kid :: "string option \<Rightarrow> jwk list \<Rightarrow> bool" where
  "unknown_kid kid keys \<longleftrightarrow> or_empty kid \<noteq> [] \<and> kid \<notin> jk_kid ` set keys"

definition stored_keys :: "svid_lib \<Rightarrow> trust_domain \<Rightarrow> string + jwk list" where
  "stored_keys lib row =
     (if or_empty (td_bundle_json row) \<noteq> [] then bundle_keys lib (or_empty (td_bundle_json row))
      else Inl (''trust domain '' @ td_name row @ '' has neither a JWKS URL nor a bundle''))"

definition or_stored :: "svid_lib \<Rightarrow> trust_domain \<Rightarrow> string + jwk list \<Rightarrow> string + jwk list" where
  "or_stored lib row r =
     (case r of
        Inr keys \<Rightarrow> Inr keys
      | Inl e \<Rightarrow> if or_empty (td_bundle_json row) = [] then Inl e else stored_keys lib row)"

definition keys_for :: "svid_lib \<Rightarrow> instant \<Rightarrow> trust_domain \<Rightarrow> string option \<Rightarrow> trust_db \<Rightarrow> (string + jwk list) \<times> trust_db" where
  "keys_for lib now row kid db =
     (if or_empty (td_jwks_url row) = [] then (stored_keys lib row, db)
      else (case url_keys lib now False row db of
              (Inl e, db1) \<Rightarrow> (or_stored lib row (Inl e), db1)
            | (Inr keys, db1) \<Rightarrow>
                if unknown_kid kid keys \<and> now - last_time (tr_last_forced db1) (td_name row) \<ge> KID_REFETCH_INTERVAL
                then (case url_keys lib now True row
                             (db1\<lparr> tr_last_forced := (tr_last_forced db1)(td_name row \<mapsto> now) \<rparr>) of
                        (r, db2) \<Rightarrow> (or_stored lib row r, db2))
                else (Inr keys, db1)))"

text \<open>\<open>dashboard_spire.sync_trust_domain\<close>, for a row that exists or not; \<open>None\<close> is a refusal.\<close>

definition find_domain :: "trust_db \<Rightarrow> string \<Rightarrow> trust_domain option" where
  "find_domain db td = List.find (\<lambda>d. td_name d = td) (tr_domains db)"

definition sync_trust_domain :: "svid_lib \<Rightarrow> instant \<Rightarrow> string \<Rightarrow> trust_db \<Rightarrow> trust_db option" where
  "sync_trust_domain lib now td db =
     (case sl_cli_bundle lib now of
        None \<Rightarrow> None
      | Some raw \<Rightarrow>
     (case sl_json_again lib raw of
        None \<Rightarrow> None
      | Some bundle \<Rightarrow>
     (case bundle_keys lib bundle of
        Inl _ \<Rightarrow> None
      | Inr [] \<Rightarrow> None
      | Inr (_ # _) \<Rightarrow>
     (let synced = (\<lambda>d. d\<lparr> td_bundle_json := Some bundle, td_bundle_captured_at := Some now, td_jwks_url := None \<rparr>);
          forgot = (\<lambda>d. d\<lparr> tr_cache := Map.empty, tr_last_forced := Map.empty \<rparr>)
      in case find_domain db td of
           None \<Rightarrow>
             Some (forgot (db\<lparr> tr_domains := tr_domains db @
               [synced \<lparr> td_name = td, td_jwks_url = None, td_bundle_json = None, td_bundle_captured_at = None,
                         td_spire_lab_id = None, td_created_by = Some SPIRE_OWNER \<rparr>] \<rparr>))
         | Some rec \<Rightarrow>
             if or_empty (td_spire_lab_id rec) \<noteq> [] \<or> td_created_by rec \<noteq> Some SPIRE_OWNER then None
             else Some (forgot (db\<lparr> tr_domains := tbl_update (\<lambda>d. td_name d = td) synced (tr_domains db) \<rparr>))))))"

definition resync_own_bundle ::
  "svid_lib \<Rightarrow> instant \<Rightarrow> trust_domain \<Rightarrow> string option \<Rightarrow> jwk list \<Rightarrow> trust_db \<Rightarrow> bool \<times> trust_db" where
  "resync_own_bundle lib now row kid keys db =
     (if or_empty kid = [] \<or> or_empty (td_jwks_url row) \<noteq> [] \<or> td_created_by row \<noteq> Some SPIRE_OWNER
      then (False, db)
      else if kid \<in> jk_kid ` set keys then (False, db)
      else if now - last_time (tr_last_resync db) (td_name row) < KID_REFETCH_INTERVAL then (False, db)
      else (let db1 = db\<lparr> tr_last_resync := (tr_last_resync db)(td_name row \<mapsto> now) \<rparr>
            in case sync_trust_domain lib now (td_name row) db1 of
                 None \<Rightarrow> (False, db1)
               | Some db2 \<Rightarrow> (True, db2)))"

definition keys_to_try ::
  "svid_lib \<Rightarrow> instant \<Rightarrow> trust_domain \<Rightarrow> string option \<Rightarrow> trust_db \<Rightarrow> (string + jwk list) \<times> trust_db" where
  "keys_to_try lib now row kid db =
     (case keys_for lib now row kid db of
        (Inl e, db1) \<Rightarrow> (Inl e, db1)
      | (Inr keys, db1) \<Rightarrow>
          (case resync_own_bundle lib now row kid keys db1 of
             (False, db2) \<Rightarrow> (Inr keys, db2)
           | (True, db2) \<Rightarrow>
               (case find_domain db2 (td_name row) of
                  None \<Rightarrow> (Inr keys, db2)
                | Some row2 \<Rightarrow> keys_for lib now row2 kid db2)))"

section \<open>Verifying an assertion\<close>

definition check_claims ::
  "svid_lib \<Rightarrow> instant \<Rightarrow> jwk list \<Rightarrow> string \<Rightarrow> string list \<Rightarrow> string \<Rightarrow> string + claims" where
  "check_claims lib now keys alg audiences svid =
     (case sl_decode lib now keys alg svid of
        None \<Rightarrow> Inl ''assertion failed verification''
      | Some c \<Rightarrow>
          if set (cl_aud c) \<inter> set audiences = {} then Inl ''assertion audience is not this dashboard''
          else if seconds (cl_exp c) - now > seconds MAX_ASSERTION_LIFETIME then Inl ''assertion lives too long''
          else Inr c)"

definition verify_svid ::
  "svid_lib \<Rightarrow> instant \<Rightarrow> string list \<Rightarrow> string \<Rightarrow> trust_db \<Rightarrow> (string + claims) \<times> trust_db" where
  "verify_svid lib now audiences svid db =
     (case sl_header lib svid of
        None \<Rightarrow> (Inl ''malformed assertion'', db)
      | Some (alg, kid) \<Rightarrow>
          if or_empty alg \<notin> set ASYMMETRIC_ALGS then (Inl ''algorithm is not accepted'', db)
          else (let td = trust_domain_of (sl_unverified_sub lib svid)
                in if td = [] then (Inl ''assertion subject is not a SPIFFE ID'', db)
                   else (case find_domain db td of
                           None \<Rightarrow> (Inl (''trust domain '' @ td @ '' is not registered''), db)
                         | Some row \<Rightarrow>
                             (case keys_to_try lib now row kid db of
                                (Inl e, db1) \<Rightarrow> (Inl e, db1)
                              | (Inr keys, db1) \<Rightarrow>
                                  if keys = [] then (Inl (''trust domain '' @ td @ '' has no JWT-SVID keys''), db1)
                                  else (check_claims lib now keys (or_empty alg) audiences svid, db1)))))"

section \<open>Single use\<close>

definition REPLAY_PREFIX :: string where "REPLAY_PREFIX = ''vmcli:spiffe:assertion:''"

record ephemeral =
  ep_key :: string
  ep_expires_at :: instant

definition replay_key :: "svid_lib \<Rightarrow> string \<Rightarrow> string" where
  "replay_key lib svid = REPLAY_PREFIX @ sl_digest lib svid"

definition expired_assertion :: "instant \<Rightarrow> ephemeral \<Rightarrow> bool" where
  "expired_assertion now e \<longleftrightarrow> starts_with REPLAY_PREFIX (ep_key e) \<and> ep_expires_at e < now"

definition consume_svid ::
  "svid_lib \<Rightarrow> instant \<Rightarrow> string \<Rightarrow> int \<Rightarrow> ephemeral list \<Rightarrow> ephemeral list option" where
  "consume_svid lib now svid expiry rows =
     (let kept = filter (\<lambda>e. \<not> expired_assertion now e) rows
      in if \<exists>e \<in> set kept. ep_key e = replay_key lib svid then None
         else Some (kept @ [\<lparr> ep_key = replay_key lib svid, ep_expires_at = seconds (expiry + LEEWAY) \<rparr>]))"

section \<open>Binding an identity\<close>

record spire_db =
  sd_watch :: watch_db
  sd_trust :: trust_db
  sd_ephemeral :: "ephemeral list"
  sd_releases :: "release list"

definition upd_spire :: "string \<Rightarrow> (agent \<Rightarrow> agent) \<Rightarrow> spire_db \<Rightarrow> spire_db" where
  "upd_spire aid f s = s\<lparr> sd_watch := upd_watch aid f (sd_watch s) \<rparr>"

definition spire_agents :: "spire_db \<Rightarrow> agent list" where
  "spire_agents s = agents (wd_st (sd_watch s))"

definition unbound :: "agent \<Rightarrow> agent" where
  "unbound a =
     (let a1 = (if ag_auth_mode a = Some ''spiffe'' then a\<lparr> ag_public_key := None, ag_auth_mode := None \<rparr> else a)
      in a1\<lparr> ag_spiffe_id := None \<rparr>)"

text \<open>The removal of the old registration from the SPIRE server (\<open>_forget_spire\<close>) changes no row.\<close>

definition bind_spiffe_id :: "string \<Rightarrow> string \<Rightarrow> spire_db \<Rightarrow> (string + unit) \<times> spire_db" where
  "bind_spiffe_id aid spiffe_id0 s =
     (let sid = py_strip spiffe_id0
      in if sid = [] then (Inr (), upd_spire aid unbound s)
         else if \<not> valid_spiffe_id sid then (Inl ''Not a SPIFFE ID'', s)
         else (case List.find (\<lambda>a. ag_spiffe_id a = Some sid \<and> ag_id a \<noteq> aid) (spire_agents s) of
                 Some other \<Rightarrow> (Inl (sid @ '' is already bound to agent '' @ ag_name other), s)
               | None \<Rightarrow> (Inr (), upd_spire aid (\<lambda>a. a\<lparr> ag_spiffe_id := Some sid \<rparr>) s)))"

section \<open>Attestation\<close>

definition ATTEST_PROOF_CONTEXT :: string where
  "ATTEST_PROOF_CONTEXT = ''vm-dashboard/agent-attest/v1'' @ [CHR 0x0A]"

definition attest_proof_message :: "string \<Rightarrow> string" where
  "attest_proof_message svid = ATTEST_PROOF_CONTEXT @ svid"

definition attested :: "instant \<Rightarrow> string \<Rightarrow> string \<Rightarrow> string \<Rightarrow> string \<Rightarrow> agent \<Rightarrow> agent" where
  "attested now key version policy ip a =
     a\<lparr> ag_public_key := Some key, ag_auth_mode := Some ''spiffe'', ag_agent_version := Some (take_chars 32 version),
        ag_policy_hash := (if take_chars 64 policy \<noteq> [] then Some (take_chars 64 policy) else ag_policy_hash a),
        ag_enrolled_at := (case ag_enrolled_at a of None \<Rightarrow> Some now | Some t \<Rightarrow> Some t),
        ag_last_seen_at := Some now, ag_last_seen_ip := Some (take 45 ip),
        ag_enroll_code_hash := None, ag_enroll_expires_at := None \<rparr>"

record attest_request =
  ar_svid :: string
  ar_public_key :: string
  ar_proof :: string
  ar_version :: string
  ar_policy_hash :: string
  ar_ip :: string

text \<open>\<open>_attest\<close>: the SVID is consumed last, so that a refused attempt does not burn it.\<close>

definition accept_svid ::
  "watch_env \<Rightarrow> svid_lib \<Rightarrow> instant \<Rightarrow> attest_request \<Rightarrow> claims \<Rightarrow> string \<Rightarrow> spire_db \<Rightarrow> (string + string) \<times> spire_db" where
  "accept_svid env lib now r c aid s =
     (case consume_svid lib now (ar_svid r) (cl_exp c) (sd_ephemeral s) of
        None \<Rightarrow> (Inl ''Attestation refused.'', s)
      | Some rows \<Rightarrow>
          (let w1 = note_attest env now aid (ar_public_key r) (ar_policy_hash r) (ar_ip r) (sd_watch s);
               w2 = upd_watch aid (attested now (ar_public_key r) (ar_version r) (ar_policy_hash r) (ar_ip r)) w1;
               w3 = check_version env now (sd_releases s) aid w2
           in (Inr aid, s\<lparr> sd_watch := w3, sd_ephemeral := rows \<rparr>)))"

definition attest_svid ::
  "watch_env \<Rightarrow> svid_lib \<Rightarrow> (string \<Rightarrow> 'k option) \<Rightarrow> ('k \<Rightarrow> string \<Rightarrow> string \<Rightarrow> bool) \<Rightarrow> instant \<Rightarrow> string list \<Rightarrow>
   attest_request \<Rightarrow> spire_db \<Rightarrow> (string + string) \<times> spire_db" where
  "attest_svid env lib edkey edverify now audiences r s0 =
     (case verify_svid lib now audiences (ar_svid r) (sd_trust s0) of
        (Inl _, tr) \<Rightarrow> (Inl ''Attestation refused.'', s0\<lparr> sd_trust := tr \<rparr>)
      | (Inr c, tr) \<Rightarrow>
     (let s = s0\<lparr> sd_trust := tr \<rparr>
      in case List.find (\<lambda>a. ag_spiffe_id a = Some (cl_sub c)) (spire_agents s) of
        None \<Rightarrow> (Inl ''Attestation refused.'', s)
      | Some a \<Rightarrow>
          if \<not> ag_is_active a then (Inl ''Attestation refused.'', s)
          else
     (case load_public_key edkey (ar_public_key r) of
        Inl exc \<Rightarrow> (Inl (''Invalid public key: '' @ exc), s)
      | Inr _ \<Rightarrow>
          if \<not> verify_bytes edkey edverify (ar_public_key r) (ar_proof r) (attest_proof_message (ar_svid r))
          then (Inl ''Attestation refused.'', s)
          else accept_svid env lib now r c (ag_id a) s)))"

definition upd_attempts :: "(attempt_row list \<Rightarrow> attempt_row list) \<Rightarrow> spire_db \<Rightarrow> spire_db" where
  "upd_attempts f s =
     (let w = sd_watch s; st = wd_st w
      in s\<lparr> sd_watch := w\<lparr> wd_st := st\<lparr> enroll_attempts := f (enroll_attempts st) \<rparr> \<rparr> \<rparr>)"

definition attest ::
  "watch_env \<Rightarrow> svid_lib \<Rightarrow> (string \<Rightarrow> 'k option) \<Rightarrow> ('k \<Rightarrow> string \<Rightarrow> string \<Rightarrow> bool) \<Rightarrow> instant \<Rightarrow> string list \<Rightarrow>
   attest_request \<Rightarrow> spire_db \<Rightarrow> (agent_failure + string) \<times> spire_db" where
  "attest env lib edkey edverify now audiences r s =
     (case check_enroll (we_cfg env) now (ar_ip r) (enroll_attempts (wd_st (sd_watch s))) of
        Some th \<Rightarrow> (Inl (AgentThrottled th), s)
      | None \<Rightarrow>
          (case attest_svid env lib edkey edverify now audiences r s of
             (Inr aid, s') \<Rightarrow> (Inr aid, s')
           | (Inl msg, s') \<Rightarrow>
               (Inl (AgentError msg), upd_attempts (record_enroll_failure (we_cfg env) now (ar_ip r)) s')))"

section \<open>Lemmas\<close>

lemma flag_other: "k \<noteq> ag_id a \<Longrightarrow> watched (fst (flag env now a kind d s)) k = watched s k"
  using flag_known [of a kind s] flag_absent [of s a] flag_new(2) [of s a _ kind env now d k]
  by (cases "watched s (ag_id a)"; cases "has_item (ag_id a) kind s") auto

lemma check_policy_hash_other: "k \<noteq> aid \<Longrightarrow> watched (check_policy_hash env now aid h s) k = watched s k"
  by (auto simp: check_policy_hash_def Let_def watched_upd flag_other dest: watched_id split: option.split)

lemma check_version_other: "k \<noteq> aid \<Longrightarrow> watched (check_version env now rs aid s) k = watched s k"
  by (auto simp: check_version_def flag_other dest: watched_id split: option.split)

lemma check_version_items: "only_items s (check_version env now rs aid s)"
  by (simp add: check_version_def only_items_refl flag_only_items split: option.split)

lemma remember_key_id [simp]: "ag_id (remember_key now k ip a) = ag_id a"
  by (simp add: remember_key_def Let_def)

lemma attested_id [simp]: "ag_id (attested now key v p ip a) = ag_id a"
  by (simp add: attested_def)

text \<open>The key an attestation replaced, and until when it is remembered.\<close>

definition keeps_old_key :: "agent \<Rightarrow> agent \<Rightarrow> bool" where
  "keeps_old_key b a \<longleftrightarrow>
     ag_id b = ag_id a \<and> ag_previous_public_key b = ag_previous_public_key a
     \<and> ag_previous_key_until b = ag_previous_key_until a \<and> ag_is_active b = ag_is_active a"

lemma check_policy_hash_row:
  "watched s aid = Some a \<Longrightarrow> \<exists>b. watched (check_policy_hash env now aid h s) aid = Some b \<and> keeps_old_key b a"
proof -
  assume a: "watched s aid = Some a"
  have id: "ag_id a = aid" using a by (rule watched_id)
  let ?s1 = "upd_watch aid (\<lambda>x. x\<lparr> ag_policy_hash := Some (take_chars 64 (py_strip h)) \<rparr>) s"
  have s1: "watched ?s1 aid = Some (a\<lparr> ag_policy_hash := Some (take_chars 64 (py_strip h)) \<rparr>)"
    using a by (simp add: watched_upd)
  have "\<exists>b. watched (fst (flag env now a kind d ?s1)) aid = Some b \<and> keeps_old_key b a" for kind d
  proof -
    obtain f where f: "\<forall>x. \<exists>xs. f x = x\<lparr> ag_attention := xs \<rparr>"
      and w: "\<forall>k. watched (fst (flag env now a kind d ?s1)) k = map_option f (watched ?s1 k)"
      using only_items_watched [OF flag_only_items [of ?s1 env now a kind d]] by blast
    obtain xs where "f (a\<lparr> ag_policy_hash := Some (take_chars 64 (py_strip h)) \<rparr>) =
        a\<lparr> ag_policy_hash := Some (take_chars 64 (py_strip h)), ag_attention := xs \<rparr>" using f by blast
    then show ?thesis using w s1 by (simp add: keeps_old_key_def)
  qed
  then show ?thesis using a s1 by (simp add: check_policy_hash_def Let_def keeps_old_key_def)
qed

text \<open>What \<open>accept_svid\<close> leaves in the row of the agent it accepted, and in the others.\<close>

lemma accept_row:
  assumes "accept_svid env lib now r c aid s = (Inr i, s')" and "watched (sd_watch s) aid = Some a"
  shows "i = aid"
    and "\<exists>b. watched (sd_watch s') aid = Some b \<and> ag_public_key b = Some (ar_public_key r)
           \<and> ag_auth_mode b = Some ''spiffe'' \<and> ag_enroll_code_hash b = None \<and> ag_last_seen_at b = Some now
           \<and> keeps_old_key b (remember_key now (ar_public_key r) (ar_ip r) a)"
    and "k \<noteq> aid \<Longrightarrow> watched (sd_watch s') k = watched (sd_watch s) k"
    and "consume_svid lib now (ar_svid r) (cl_exp c) (sd_ephemeral s) = Some (sd_ephemeral s')"
    and "sd_trust s' = sd_trust s"
proof -
  obtain rows where rows: "consume_svid lib now (ar_svid r) (cl_exp c) (sd_ephemeral s) = Some rows"
    using assms(1) by (auto simp: accept_svid_def split: option.splits)
  let ?u = "upd_watch aid (remember_key now (ar_public_key r) (ar_ip r)) (sd_watch s)"
  let ?w1 = "check_policy_hash env now aid (ar_policy_hash r) ?u"
  let ?w2 = "upd_watch aid (attested now (ar_public_key r) (ar_version r) (ar_policy_hash r) (ar_ip r)) ?w1"
  let ?w3 = "check_version env now (sd_releases s) aid ?w2"
  have s': "i = aid" "s' = s\<lparr> sd_watch := ?w3, sd_ephemeral := rows \<rparr>"
    using assms(1) rows by (auto simp: accept_svid_def note_attest_def)
  show "i = aid" by (rule s'(1))
  show "consume_svid lib now (ar_svid r) (cl_exp c) (sd_ephemeral s) = Some (sd_ephemeral s')"
    "sd_trust s' = sd_trust s" using rows s'(2) by simp_all
  show "k \<noteq> aid \<Longrightarrow> watched (sd_watch s') k = watched (sd_watch s) k"
    by (simp add: s'(2) check_version_other watched_upd check_policy_hash_other)
  have "watched ?u aid = Some (remember_key now (ar_public_key r) (ar_ip r) a)"
    using assms(2) by (simp add: watched_upd)
  from check_policy_hash_row [OF this, of env now "ar_policy_hash r"]
  obtain b where b: "watched ?w1 aid = Some b" "keeps_old_key b (remember_key now (ar_public_key r) (ar_ip r) a)"
    by blast
  obtain f where f: "\<forall>x. \<exists>xs. f x = x\<lparr> ag_attention := xs \<rparr>" and w: "\<forall>k. watched ?w3 k = map_option f (watched ?w2 k)"
    using only_items_watched [OF check_version_items [of ?w2 env now "sd_releases s" aid]] by blast
  let ?b = "attested now (ar_public_key r) (ar_version r) (ar_policy_hash r) (ar_ip r) b"
  obtain xs where "f ?b = ?b\<lparr> ag_attention := xs \<rparr>" using f by blast
  then have "watched ?w3 aid = Some (?b\<lparr> ag_attention := xs \<rparr>)" using w b(1) by (simp add: watched_upd)
  then show "\<exists>b. watched (sd_watch s') aid = Some b \<and> ag_public_key b = Some (ar_public_key r)
           \<and> ag_auth_mode b = Some ''spiffe'' \<and> ag_enroll_code_hash b = None \<and> ag_last_seen_at b = Some now
           \<and> keeps_old_key b (remember_key now (ar_public_key r) (ar_ip r) a)"
    using b(2) by (simp add: s'(2)) (simp add: attested_def keeps_old_key_def)
qed

lemma verify_svid_InrD:
  assumes "verify_svid lib now audiences svid db = (Inr c, db')"
  shows "\<exists>alg kid row keys. sl_header lib svid = Some (Some alg, kid) \<and> alg \<in> set ASYMMETRIC_ALGS
    \<and> find_domain db (trust_domain_of (sl_unverified_sub lib svid)) = Some row
    \<and> keys_to_try lib now row kid db = (Inr keys, db') \<and> keys \<noteq> []
    \<and> sl_decode lib now keys alg svid = Some c
    \<and> set (cl_aud c) \<inter> set audiences \<noteq> {} \<and> seconds (cl_exp c) - now \<le> seconds MAX_ASSERTION_LIFETIME"
proof -
  obtain oalg kid where h: "sl_header lib svid = Some (oalg, kid)" and alg: "or_empty oalg \<in> set ASYMMETRIC_ALGS"
    using assms by (auto simp: verify_svid_def split: option.splits prod.splits if_splits)
  obtain alg where some: "oalg = Some alg" using alg by (cases oalg) (auto simp: ASYMMETRIC_ALGS_def)
  let ?td = "trust_domain_of (sl_unverified_sub lib svid)"
  obtain row where row: "find_domain db ?td = Some row"
    using assms h alg by (auto simp: verify_svid_def Let_def split: option.splits if_splits)
  obtain keys where keys: "keys_to_try lib now row kid db = (Inr keys, db')" "keys \<noteq> []"
    and c: "check_claims lib now keys alg audiences svid = Inr c"
    using assms h alg row some
    by (auto simp: verify_svid_def Let_def split: option.splits if_splits prod.splits sum.splits)
  have "sl_decode lib now keys alg svid = Some c" "set (cl_aud c) \<inter> set audiences \<noteq> {}"
    "seconds (cl_exp c) - now \<le> seconds MAX_ASSERTION_LIFETIME"
    using c by (auto simp: check_claims_def split: option.splits if_splits)
  with h some alg row keys show ?thesis by (auto simp: ASYMMETRIC_ALGS_def)
qed

lemma attest_InrD:
  assumes "attest env lib edkey edverify now audiences r s = (Inr aid, s')"
  shows "\<exists>c tr a k. verify_svid lib now audiences (ar_svid r) (sd_trust s) = (Inr c, tr)
    \<and> List.find (\<lambda>a. ag_spiffe_id a = Some (cl_sub c)) (spire_agents s) = Some a
    \<and> ag_is_active a \<and> ag_id a = aid \<and> load_public_key edkey (ar_public_key r) = Inr k
    \<and> verify_bytes edkey edverify (ar_public_key r) (ar_proof r) (attest_proof_message (ar_svid r))
    \<and> accept_svid env lib now r c aid (s\<lparr> sd_trust := tr \<rparr>) = (Inr aid, s')"
proof -
  have at: "attest_svid env lib edkey edverify now audiences r s = (Inr aid, s')"
    using assms by (auto simp: attest_def split: option.splits prod.splits sum.splits)
  obtain c tr where v: "verify_svid lib now audiences (ar_svid r) (sd_trust s) = (Inr c, tr)"
    using at by (auto simp: attest_svid_def split: prod.splits sum.splits)
  obtain a where a: "List.find (\<lambda>a. ag_spiffe_id a = Some (cl_sub c)) (spire_agents s) = Some a"
    using at v by (auto simp: attest_svid_def Let_def spire_agents_def split: option.splits)
  have rest: "ag_is_active a"
    "verify_bytes edkey edverify (ar_public_key r) (ar_proof r) (attest_proof_message (ar_svid r))"
    "\<exists>k. load_public_key edkey (ar_public_key r) = Inr k"
    "accept_svid env lib now r c (ag_id a) (s\<lparr> sd_trust := tr \<rparr>) = (Inr aid, s')"
    using at v a by (auto simp: attest_svid_def Let_def spire_agents_def split: if_splits sum.splits)
  have "ag_id a = aid"
    using rest(4) by (auto simp: accept_svid_def split: option.splits)
  with v a rest show ?thesis by blast
qed

lemma svid_sub_decoded:
  assumes "attest env lib edkey edverify now audiences r s = (Inr aid, s')"
  shows "\<exists>keys alg c. sl_decode lib now keys alg (ar_svid r) = Some c
    \<and> consume_svid lib now (ar_svid r) (cl_exp c) (sd_ephemeral s) = Some (sd_ephemeral s')"
proof -
  from attest_InrD [OF assms] obtain c tr where v: "verify_svid lib now audiences (ar_svid r) (sd_trust s) = (Inr c, tr)"
    and acc: "accept_svid env lib now r c aid (s\<lparr> sd_trust := tr \<rparr>) = (Inr aid, s')" by blast
  from acc have "consume_svid lib now (ar_svid r) (cl_exp c) (sd_ephemeral s) = Some (sd_ephemeral s')"
    by (auto simp: accept_svid_def split: option.splits)
  with verify_svid_InrD [OF v] show ?thesis by blast
qed

section \<open>Properties\<close>

text \<open>
  C27. What an accepted attestation proves and does: the assertion verified under a registered trust
  domain's key with an asymmetric algorithm, was meant for this dashboard and lives at most an hour;
  its subject is bound to an active agent; the new key's owner signed the assertion. Afterwards that
  agent holds exactly the new key and no enrolment code, and no other agent's row has changed.
\<close>

theorem attest_exact:
  assumes "attest env lib edkey edverify now audiences r s = (Inr aid, s')"
    and "distinct (map ag_id (spire_agents s))"
  shows "(\<exists>a c alg keys. watched (sd_watch s) aid = Some a \<and> ag_is_active a \<and> ag_spiffe_id a = Some (cl_sub c)
            \<and> alg \<in> set ASYMMETRIC_ALGS \<and> sl_decode lib now keys alg (ar_svid r) = Some c
            \<and> set (cl_aud c) \<inter> set audiences \<noteq> {} \<and> seconds (cl_exp c) - now \<le> seconds MAX_ASSERTION_LIFETIME)
    \<and> verify_bytes edkey edverify (ar_public_key r) (ar_proof r) (attest_proof_message (ar_svid r))
    \<and> (\<exists>b. watched (sd_watch s') aid = Some b \<and> ag_public_key b = Some (ar_public_key r)
            \<and> ag_auth_mode b = Some ''spiffe'' \<and> ag_enroll_code_hash b = None)
    \<and> (\<forall>k. k \<noteq> aid \<longrightarrow> watched (sd_watch s') k = watched (sd_watch s) k)"
proof -
  from attest_InrD [OF assms(1)] obtain c tr a
    where v: "verify_svid lib now audiences (ar_svid r) (sd_trust s) = (Inr c, tr)"
      and a: "List.find (\<lambda>a. ag_spiffe_id a = Some (cl_sub c)) (spire_agents s) = Some a" "ag_is_active a" "ag_id a = aid"
      and p: "verify_bytes edkey edverify (ar_public_key r) (ar_proof r) (attest_proof_message (ar_svid r))"
      and acc: "accept_svid env lib now r c aid (s\<lparr> sd_trust := tr \<rparr>) = (Inr aid, s')" by blast
  have mem: "a \<in> set (spire_agents s)" "ag_spiffe_id a = Some (cl_sub c)" using a(1) by (auto dest: find_Some_set)
  have w: "watched (sd_watch (s\<lparr> sd_trust := tr \<rparr>)) aid = Some a"
    using find_key_unique [OF assms(2) mem(1)] a(3) by (simp add: watched_def find_agent_def spire_agents_def)
  from verify_svid_InrD [OF v] mem(2) a(2) w p accept_row(2) [OF acc w] accept_row(3) [OF acc w]
  show ?thesis by simp blast
qed

text \<open>
  A refused attestation costs nothing: no assertion is recorded as used, so a retry can still
  succeed, and no agent row, notification or audit entry is written.
\<close>

theorem refused_attest_burns_nothing:
  assumes "attest env lib edkey edverify now audiences r s = (Inl e, s')"
  shows "sd_ephemeral s' = sd_ephemeral s \<and> spire_agents s' = spire_agents s
    \<and> wd_notify (sd_watch s') = wd_notify (sd_watch s) \<and> wd_audit (sd_watch s') = wd_audit (sd_watch s)"
proof -
  have "sd_ephemeral t = sd_ephemeral s \<and> sd_watch t = sd_watch s"
    if "attest_svid env lib edkey edverify now audiences r s = (Inl m, t)" for m t
    using that by (auto simp: attest_svid_def accept_svid_def Let_def split: prod.splits sum.splits option.splits if_splits)
  with assms show ?thesis
    by (auto simp: attest_def upd_attempts_def Let_def spire_agents_def split: option.splits prod.splits sum.splits)
qed

lemma consume_SomeD:
  "consume_svid lib now svid expiry rows = Some rows' \<Longrightarrow>
     rows' = filter (\<lambda>e. \<not> expired_assertion now e) rows
       @ [\<lparr> ep_key = replay_key lib svid, ep_expires_at = seconds (expiry + LEEWAY) \<rparr>]
     \<and> (\<forall>e \<in> set rows. expired_assertion now e \<or> ep_key e \<noteq> replay_key lib svid)"
  by (auto simp: consume_svid_def Let_def split: if_splits)

lemma consume_used:
  "e \<in> set rows \<Longrightarrow> ep_key e = replay_key lib svid \<Longrightarrow> \<not> expired_assertion now e \<Longrightarrow>
     consume_svid lib now svid expiry rows = None"
  by (auto simp: consume_svid_def Let_def)

text \<open>
  C28. An assertion is accepted once: whoever presents it again, from any address, with any key and at
  any later time, is refused, as long as the rows that have not expired are kept, but for the one
  second after its expiry and the leeway. The JOSE library compares whole seconds (so it accepts the
  assertion until that second is over) and reads the same expiry each time; the row of a used assertion
  expires to the microsecond.
\<close>

theorem svid_single_use:
  assumes until: "\<And>n keys alg v c. sl_decode lib n keys alg v = Some c \<Longrightarrow> n < seconds (cl_exp c + LEEWAY + 1)"
    and exp: "\<And>n n' keys keys' alg alg' v c c'. sl_decode lib n keys alg v = Some c \<Longrightarrow>
        sl_decode lib n' keys' alg' v = Some c' \<Longrightarrow> cl_exp c = cl_exp c'"
    and first: "attest env lib edkey edverify now audiences r s = (Inr aid, s')"
    and kept: "set (filter (\<lambda>e. \<not> expired_assertion now' e) (sd_ephemeral s')) \<subseteq> set (sd_ephemeral t)"
    and same: "ar_svid r' = ar_svid r"
  shows "\<exists>till. \<lparr> ep_key = replay_key lib (ar_svid r), ep_expires_at = till \<rparr> \<in> set (sd_ephemeral s')
    \<and> (isl (fst (attest env' lib edkey' edverify' now' audiences' r' t)) \<or> till < now' \<and> now' < till + seconds 1)"
proof -
  from svid_sub_decoded [OF first] obtain keys alg c
    where c: "sl_decode lib now keys alg (ar_svid r) = Some c"
      and used: "consume_svid lib now (ar_svid r) (cl_exp c) (sd_ephemeral s) = Some (sd_ephemeral s')" by blast
  let ?till = "seconds (cl_exp c + LEEWAY)"
  let ?e = "\<lparr> ep_key = replay_key lib (ar_svid r), ep_expires_at = ?till \<rparr>"
  have row: "?e \<in> set (sd_ephemeral s')" using consume_SomeD [OF used] by simp
  have "isl (fst (attest env' lib edkey' edverify' now' audiences' r' t)) \<or> ?till < now' \<and> now' < ?till + seconds 1"
  proof (rule ccontr)
    assume no: "\<not> ?thesis"
    then obtain aid' t' where again: "attest env' lib edkey' edverify' now' audiences' r' t = (Inr aid', t')"
      by (metis prod.collapse isl_def sum.exhaust)
    from svid_sub_decoded [OF again] obtain keys' alg' c'
      where c': "sl_decode lib now' keys' alg' (ar_svid r) = Some c'"
        and ok: "consume_svid lib now' (ar_svid r) (cl_exp c') (sd_ephemeral t) = Some (sd_ephemeral t')"
      by (auto simp: same)
    have "now' < ?till + seconds 1"
      using until [OF c'] exp [OF c c'] by (simp add: seconds_def algebra_simps)
    with no have "\<not> expired_assertion now' ?e" by (simp add: expired_assertion_def)
    with row kept have "?e \<in> set (sd_ephemeral t)" "\<not> expired_assertion now' ?e" by auto
    then show False using consume_used [of ?e "sd_ephemeral t" lib "ar_svid r" now' "cl_exp c'"] ok by simp
  qed
  with row show ?thesis by blast
qed

text \<open>
  The limit of single use: a used assertion is swept as soon as its expiry and the leeway have
  passed to the microsecond, and after that moment it is consumed a second time. A library that
  compares whole seconds still accepts the assertion then.
\<close>

theorem swept_svid_is_unused:
  assumes "consume_svid lib now svid expiry rows = Some rows'" and "now' > seconds (expiry + LEEWAY)"
    and "now' \<ge> now"
  shows "consume_svid lib now' svid expiry rows' \<noteq> None"
proof -
  have rows': "rows' = filter (\<lambda>e. \<not> expired_assertion now e) rows
      @ [\<lparr> ep_key = replay_key lib svid, ep_expires_at = seconds (expiry + LEEWAY) \<rparr>]"
    and free: "\<forall>e \<in> set rows. expired_assertion now e \<or> ep_key e \<noteq> replay_key lib svid"
    using consume_SomeD [OF assms(1)] by auto
  have "expired_assertion now' \<lparr> ep_key = replay_key lib svid, ep_expires_at = seconds (expiry + LEEWAY) \<rparr>"
    using assms(2) by (simp add: expired_assertion_def replay_key_def starts_with_def)
  then show ?thesis using free by (auto simp: rows' consume_svid_def Let_def)
qed

text \<open>
  C29. Two copies of an agent are noticed: within fifteen minutes of an attestation that replaced a
  key, a request signed with the old key is refused and the agent carries a \<open>clone\<close> item, raised now
  or still waiting to be acknowledged.
\<close>

theorem clone_is_caught:
  assumes "attest env lib edkey edverify now audiences r s = (Inr aid, s')"
    and "distinct (map ag_id (spire_agents s))" and "watched (sd_watch s) aid = Some a"
    and "ag_public_key a = Some old" and "old \<noteq> []" and "old \<noteq> ar_public_key r" and "ar_public_key r \<noteq> []"
    and "watched t aid = watched (sd_watch s') aid" and "now' \<le> now + minutes 15"
    and "rq_agent_id q = aid"
    and "verify_request H edkey edverify now' old q signature"
    and "\<not> verify_request H edkey edverify now' (ar_public_key r) q signature"
  shows "fst (authenticate_watched env' H edkey edverify now' q signature ip t)
           = Inl (AgentError ''Signature verification failed.'')
    \<and> has_item aid ''clone'' (snd (authenticate_watched env' H edkey edverify now' q signature ip t))"
proof -
  from attest_InrD [OF assms(1)] obtain c tr b
    where b: "List.find (\<lambda>a. ag_spiffe_id a = Some (cl_sub c)) (spire_agents s) = Some b" "ag_is_active b" "ag_id b = aid"
      and acc: "accept_svid env lib now r c aid (s\<lparr> sd_trust := tr \<rparr>) = (Inr aid, s')" by blast
  have mem: "b \<in> set (spire_agents s)" using b(1) by (auto dest: find_Some_set)
  have w: "watched (sd_watch (s\<lparr> sd_trust := tr \<rparr>)) aid = Some b"
    using find_key_unique [OF assms(2) mem] b(3) by (simp add: watched_def find_agent_def spire_agents_def)
  then have "b = a" using assms(3) by simp
  from accept_row(2) [OF acc w] assms(8) obtain d
    where d: "watched t aid = Some d" "ag_public_key d = Some (ar_public_key r)"
      and k: "keeps_old_key d (remember_key now (ar_public_key r) (ar_ip r) b)" by auto
  have old: "ag_previous_public_key d = Some old" "ag_previous_key_until d = Some (now + minutes 15)"
    "ag_is_active d" "ag_id d = aid"
    using k b(2,3) \<open>b = a\<close> assms(4,5,6)
    by (auto simp: keeps_old_key_def remember_key_def Let_def PREVIOUS_KEY_WINDOW_def)
  have find: "find_agent (wd_st t) aid = Some d" using d(1) by (simp add: watched_def)
  have caught: "caught_previous_key env' now' d (\<lambda>key. verify_request H edkey edverify now' key q signature) t
      = (fst (flag env' now' d ''clone'' (clone_detail d) t), True)"
    using old(1,2) assms(5,9,11) by (simp add: caught_previous_key_def)
  have "watched t (ag_id d) \<noteq> None" using d(1) old(4) by simp
  from has_item_flag [OF this, of aid "''clone''" env' now' "clone_detail d"] old(4)
  have "has_item aid ''clone'' (fst (flag env' now' d ''clone'' (clone_detail d) t))" by simp
  then show ?thesis
    using find old(3) d(2) assms(7,10,12) by (simp add: authenticate_watched_def caught)
qed

definition spiffe_unique :: "spire_db \<Rightarrow> bool" where
  "spiffe_unique s \<longleftrightarrow>
     (\<forall>a \<in> set (spire_agents s). \<forall>b \<in> set (spire_agents s).
        ag_spiffe_id a \<noteq> None \<and> ag_spiffe_id a = ag_spiffe_id b \<longrightarrow> ag_id a = ag_id b)"

lemma upd_spire_agents: "set (spire_agents (upd_spire aid f s)) = (\<lambda>a. if ag_id a = aid then f a else a) ` set (spire_agents s)"
  by (simp add: upd_spire_def spire_agents_def upd_watch_def upd_agent_def tbl_update_def)

lemma spiffe_unique_upd:
  assumes id: "\<And>a. ag_id (f a) = ag_id a" and u: "spiffe_unique s"
    and new: "\<And>a b. b \<in> set (spire_agents s) \<Longrightarrow> ag_id b \<noteq> aid \<Longrightarrow> ag_spiffe_id (f a) \<noteq> None \<Longrightarrow>
        ag_spiffe_id (f a) \<noteq> ag_spiffe_id b"
  shows "spiffe_unique (upd_spire aid f s)"
  unfolding spiffe_unique_def upd_spire_agents
proof (intro ballI impI)
  let ?g = "\<lambda>a. if ag_id a = aid then f a else a"
  fix x y
  assume "x \<in> ?g ` set (spire_agents s)" "y \<in> ?g ` set (spire_agents s)"
    and eq: "ag_spiffe_id x \<noteq> None \<and> ag_spiffe_id x = ag_spiffe_id y"
  then obtain a b where ab: "a \<in> set (spire_agents s)" "b \<in> set (spire_agents s)" "x = ?g a" "y = ?g b" by blast
  show "ag_id x = ag_id y"
  proof (cases "ag_id a = aid"; cases "ag_id b = aid")
    assume "ag_id a = aid" "ag_id b \<noteq> aid"
    then have "x = f a" "y = b" "ag_id b \<noteq> aid" using ab(3,4) by auto
    then have "ag_spiffe_id (f a) \<noteq> None" "ag_spiffe_id (f a) = ag_spiffe_id b" "ag_id b \<noteq> aid" using eq by blast+
    then show ?thesis using new [OF ab(2)] by blast
  next
    assume "ag_id a \<noteq> aid" "ag_id b = aid"
    then have "x = a" "y = f b" "ag_id a \<noteq> aid" using ab(3,4) by auto
    then have "ag_spiffe_id (f b) \<noteq> None" "ag_spiffe_id (f b) = ag_spiffe_id a" "ag_id a \<noteq> aid"
      using eq by metis+
    then show ?thesis using new [OF ab(1)] by blast
  next
    assume "ag_id a \<noteq> aid" "ag_id b \<noteq> aid"
    then have "x = a" "y = b" using ab(3,4) by simp_all
    then show ?thesis using u eq ab(1,2) unfolding spiffe_unique_def by blast
  qed (simp add: ab(3,4) id)
qed

lemma unbound_facts:
  "ag_id (unbound a) = ag_id a" "ag_spiffe_id (unbound a) = None"
  "ag_auth_mode a = Some ''spiffe'' \<Longrightarrow> ag_public_key (unbound a) = None"
  by (simp_all add: unbound_def Let_def)

text \<open>No operation of the binding lets two agents answer to one SPIFFE ID.\<close>

theorem bind_keeps_ids_unique:
  assumes "spiffe_unique s" and "bind_spiffe_id aid sid s = (res, s')"
  shows "spiffe_unique s'"
proof -
  let ?id = "py_strip sid"
  consider "s' = s" | "s' = upd_spire aid unbound s"
    | "List.find (\<lambda>a. ag_spiffe_id a = Some ?id \<and> ag_id a \<noteq> aid) (spire_agents s) = None"
      "s' = upd_spire aid (\<lambda>a. a\<lparr> ag_spiffe_id := Some ?id \<rparr>) s"
    using assms(2)
    by (cases "List.find (\<lambda>a. ag_spiffe_id a = Some ?id \<and> ag_id a \<noteq> aid) (spire_agents s)"; cases "?id = []";
        cases "valid_spiffe_id ?id") (simp_all add: bind_spiffe_id_def Let_def)
  then show ?thesis
  proof cases
    case 2
    then show ?thesis using assms(1) by (auto intro!: spiffe_unique_upd simp: unbound_facts)
  next
    case 3
    have "ag_id a = aid" if "a \<in> set (spire_agents s)" "ag_spiffe_id a = Some ?id" for a
      using 3(1) that by (auto simp: find_None_iff)
    then show ?thesis unfolding 3(2) using assms(1) by (intro spiffe_unique_upd) auto
  qed (use assms(1) in simp)
qed

text \<open>
  Unbinding cuts an attested agent off at once, binding it to another identity does not: after
  the first every signed request is refused, after the second every request gets what it got before.
\<close>

theorem unbinding_cuts_rebinding_keeps:
  assumes "watched (sd_watch s) aid = Some a" and "ag_auth_mode a = Some ''spiffe''"
    and "bind_spiffe_id aid sid s = (Inr (), s')" and "rq_agent_id q = aid"
  shows "fst (authenticate H edkey edverify cfg now q signature ip (wd_st (sd_watch s'))) =
    (if py_strip sid = [] then Inl (AgentError ''Unknown or inactive agent.'')
     else fst (authenticate H edkey edverify cfg now q signature ip (wd_st (sd_watch s))))"
proof -
  have "s' = upd_spire aid (if py_strip sid = [] then unbound else (\<lambda>a. a\<lparr> ag_spiffe_id := Some (py_strip sid) \<rparr>)) s"
    using assms(3) by (auto simp: bind_spiffe_id_def Let_def split: if_splits option.splits)
  then have "find_agent (wd_st (sd_watch s')) aid =
      Some ((if py_strip sid = [] then unbound else (\<lambda>a. a\<lparr> ag_spiffe_id := Some (py_strip sid) \<rparr>)) a)"
    and "nonces (wd_st (sd_watch s')) = nonces (wd_st (sd_watch s))"
    using assms(1) watched_upd [of "if py_strip sid = [] then unbound else (\<lambda>a. a\<lparr> ag_spiffe_id := Some (py_strip sid) \<rparr>)"
        aid "sd_watch s" aid]
    by (simp_all add: upd_spire_def watched_def unbound_facts upd_watch_def upd_agent_def)
  moreover have "find_agent (wd_st (sd_watch s)) aid = Some a" using assms(1) by (simp add: watched_def)
  ultimately show ?thesis
    using assms(2,4) unbound_facts(3) [of a]
    by (cases "py_strip sid = []")
      (auto simp: authenticate_def ansible_slots_def or_empty_def split: option.split prod.split bool.split)
qed

section \<open>One attestation\<close>

definition svid_demo_lib :: "(instant \<Rightarrow> bool) \<Rightarrow> svid_lib" where
  "svid_demo_lib alive =
     \<lparr> sl_header = (\<lambda>_. Some (Some ''ES256'', None)), sl_unverified_sub = (\<lambda>_. ''spiffe://td/a''),
       sl_fetch_jwks = (\<lambda>_ _. None),
       sl_json_keys = (\<lambda>_. Some [\<lparr> jk_kid = None, jk_use = Some ''jwt-svid'', jk_material = [] \<rparr>]),
       sl_cli_bundle = (\<lambda>_. None), sl_json_again = (\<lambda>_. None),
       sl_decode = (\<lambda>n _ _ _. if alive n then Some \<lparr> cl_sub = ''spiffe://td/a'', cl_aud = [''d''], cl_exp = 80 \<rparr> else None),
       sl_digest = (\<lambda>x. x) \<rparr>"

definition svid_demo_db :: spire_db where
  "svid_demo_db =
     \<lparr> sd_watch = watch_demo\<lparr> wd_st := one_agent_db (watch_demo_agent\<lparr> ag_spiffe_id := Some ''spiffe://td/a'' \<rparr>) \<rparr>,
       sd_trust = \<lparr> tr_domains = [\<lparr> td_name = ''td'', td_jwks_url = None, td_bundle_json = Some ''{}'',
                                   td_bundle_captured_at = None, td_spire_lab_id = None, td_created_by = None \<rparr>],
                    tr_cache = Map.empty, tr_last_forced = Map.empty, tr_last_resync = Map.empty \<rparr>,
       sd_ephemeral = [], sd_releases = [] \<rparr>"

definition svid_demo_key :: string where "svid_demo_key = CHR ''B'' # replicate 42 (CHR ''A'') @ ''=''"

definition svid_demo_request :: attest_request where
  "svid_demo_request =
     \<lparr> ar_svid = ''v'', ar_public_key = svid_demo_key, ar_proof = replicate 86 (CHR ''A'') @ ''=='',
       ar_version = ''2.9'', ar_policy_hash = [], ar_ip = ''h'' \<rparr>"

text \<open>Proofs verify under any key, requests only under the key of \<open>enrolled_agent\<close>.\<close>

definition svid_demo_verify :: "string \<Rightarrow> string \<Rightarrow> string \<Rightarrow> bool" where
  "svid_demo_verify k signature m \<longleftrightarrow> starts_with ''vm-dashboard/agent-attest/v1'' m \<or> hd k = CHR 0x00"

definition svid_demo_attest :: "(instant \<Rightarrow> bool) \<Rightarrow> string \<Rightarrow> instant \<Rightarrow> spire_db \<Rightarrow> (agent_failure + string) \<times> spire_db" where
  "svid_demo_attest alive aud now s =
     attest watch_demo_env (svid_demo_lib alive) Some svid_demo_verify now [aud] svid_demo_request s"

text \<open>Whole seconds up to the expiry and the leeway, as the library compares them.\<close>

definition svid_demo_strict :: "instant \<Rightarrow> bool" where "svid_demo_strict n \<longleftrightarrow> n div seconds 1 \<le> 110"

definition svid_demo_after :: spire_db where
  "svid_demo_after = snd (svid_demo_attest svid_demo_strict ''d'' 50000000 svid_demo_db)"

lemma svid_demo_accepted: "fst (svid_demo_attest svid_demo_strict ''d'' 50000000 svid_demo_db) = Inr ''a1''"
  by code_simp

lemma svid_demo_run:
  "attest watch_demo_env (svid_demo_lib svid_demo_strict) Some svid_demo_verify 50000000 [''d''] svid_demo_request
     svid_demo_db = (Inr ''a1'', svid_demo_after)"
  using svid_demo_accepted by (simp add: svid_demo_after_def svid_demo_attest_def prod_eq_iff)

lemma svid_demo_ids: "distinct (map ag_id (spire_agents svid_demo_db))"
  by (simp add: svid_demo_db_def spire_agents_def one_agent_db_def)

lemma svid_demo_row:
  "watched (sd_watch svid_demo_db) ''a1'' = Some (watch_demo_agent\<lparr> ag_spiffe_id := Some ''spiffe://td/a'' \<rparr>)"
  by (simp add: svid_demo_db_def one_agent_db_def watched_def find_agent_def watch_demo_agent_def enrolled_agent_def)

lemma attest_exact_witness:
  "\<exists>b. watched (sd_watch svid_demo_after) ''a1'' = Some b \<and> ag_public_key b = Some svid_demo_key"
  using attest_exact [OF svid_demo_run svid_demo_ids] by (auto simp: svid_demo_request_def)

lemma svid_demo_refused: "isl (fst (svid_demo_attest svid_demo_strict ''other'' 50000000 svid_demo_db))"
  by code_simp

lemma refused_attest_burns_nothing_witness:
  "isl (fst (svid_demo_attest svid_demo_strict ''other'' 50000000 svid_demo_db))
    \<and> sd_ephemeral (snd (svid_demo_attest svid_demo_strict ''other'' 50000000 svid_demo_db)) = []"
proof -
  obtain e s' where r: "svid_demo_attest svid_demo_strict ''other'' 50000000 svid_demo_db = (Inl e, s')"
    using svid_demo_refused by (cases "svid_demo_attest svid_demo_strict ''other'' 50000000 svid_demo_db") (auto simp: isl_def)
  from refused_attest_burns_nothing [OF r [unfolded svid_demo_attest_def]]
  show ?thesis using r by (simp add: svid_demo_db_def)
qed

lemma svid_single_use_witness:
  "\<exists>till. \<lparr> ep_key = replay_key (svid_demo_lib svid_demo_strict) (ar_svid svid_demo_request), ep_expires_at = till \<rparr>
        \<in> set (sd_ephemeral svid_demo_after)
     \<and> (isl (fst (svid_demo_attest svid_demo_strict ''d'' 60000000 svid_demo_after)) \<or> till < 60000000 \<and> 60000000 < till + seconds 1)"
  unfolding svid_demo_attest_def
  by (rule svid_single_use [OF _ _ svid_demo_run])
    (auto simp: svid_demo_lib_def svid_demo_strict_def LEEWAY_def seconds_def split: if_splits)

lemma swept_svid_is_unused_witness:
  "consume_svid (svid_demo_lib (\<lambda>n. n div 1000000 \<le> 110)) 110500000 ''v'' 80 (sd_ephemeral svid_demo_after) \<noteq> None
    \<and> sl_decode (svid_demo_lib (\<lambda>n. n div 1000000 \<le> 110)) 110500000 [] ''ES256'' ''v'' \<noteq> None"
proof -
  have "consume_svid (svid_demo_lib (\<lambda>n. n div 1000000 \<le> 110)) 50000000 ''v'' 80 [] = Some (sd_ephemeral svid_demo_after)"
    by code_simp
  from swept_svid_is_unused [OF this, of 110500000] show ?thesis
    by (simp add: LEEWAY_def seconds_def svid_demo_lib_def)
qed

lemma svid_demo_keys:
  "verify_request (\<lambda>x. x) Some svid_demo_verify 100000000 (or_empty (ag_public_key enrolled_agent)) sample_agent_request
     (replicate 86 (CHR ''A'') @ ''=='')"
  "\<not> verify_request (\<lambda>x. x) Some svid_demo_verify 100000000 svid_demo_key sample_agent_request
     (replicate 86 (CHR ''A'') @ ''=='')"
  by code_simp+

lemma svid_demo_facts:
  "or_empty (ag_public_key enrolled_agent) \<noteq> svid_demo_key" "or_empty (ag_public_key enrolled_agent) \<noteq> []"
  "svid_demo_key \<noteq> []" "ar_public_key svid_demo_request = svid_demo_key" "rq_agent_id sample_agent_request = ''a1''"
  "ag_public_key (watch_demo_agent\<lparr> ag_spiffe_id := Some ''spiffe://td/a'' \<rparr>) =
     Some (or_empty (ag_public_key enrolled_agent))"
  by code_simp+

lemma clone_is_caught_witness:
  "has_item ''a1'' ''clone''
     (snd (authenticate_watched watch_demo_env (\<lambda>x. x) Some svid_demo_verify 100000000 sample_agent_request
            (replicate 86 (CHR ''A'') @ ''=='') [] (sd_watch svid_demo_after)))"
proof -
  have "(100000000 :: instant) \<le> 50000000 + minutes 15" by (simp add: minutes_def seconds_def)
  from clone_is_caught [OF svid_demo_run svid_demo_ids svid_demo_row svid_demo_facts(6,2) _ _ refl this svid_demo_facts(5)
      svid_demo_keys(1), unfolded svid_demo_facts(4), OF svid_demo_facts(1,3) svid_demo_keys(2)]
  show ?thesis ..
qed

lemma bind_keeps_ids_unique_witness:
  "spiffe_unique (snd (bind_spiffe_id ''a1'' ''spiffe://td/b'' svid_demo_db))"
proof -
  have "spiffe_unique svid_demo_db" by (simp add: spiffe_unique_def spire_agents_def svid_demo_db_def one_agent_db_def)
  from bind_keeps_ids_unique [OF this prod.collapse [symmetric]] show ?thesis .
qed

lemma unbinding_cuts_rebinding_keeps_witness:
  "fst (authenticate (\<lambda>x. x) Some svid_demo_verify default_config 100000000 sample_agent_request
      (replicate 86 (CHR ''A'') @ ''=='') [] (wd_st (sd_watch (snd (bind_spiffe_id ''a1'' ''spiffe://td/b'' svid_demo_db)))))
    = Inr ''a1''
   \<and> fst (authenticate (\<lambda>x. x) Some svid_demo_verify default_config 100000000 sample_agent_request
      (replicate 86 (CHR ''A'') @ ''=='') [] (wd_st (sd_watch (snd (bind_spiffe_id ''a1'' [] svid_demo_db)))))
    = Inl (AgentError ''Unknown or inactive agent.'')"
proof -
  have ok: "fst (bind_spiffe_id ''a1'' ''spiffe://td/b'' svid_demo_db) = Inr ()" "fst (bind_spiffe_id ''a1'' [] svid_demo_db) = Inr ()"
    "py_strip [] = []" "py_strip ''spiffe://td/b'' \<noteq> []" "rq_agent_id sample_agent_request = ''a1''"
    "fst (authenticate (\<lambda>x. x) Some svid_demo_verify default_config 100000000 sample_agent_request
      (replicate 86 (CHR ''A'') @ ''=='') [] (wd_st (sd_watch svid_demo_db))) = Inr ''a1''"
    by code_simp+
  have mode: "ag_auth_mode (watch_demo_agent\<lparr> ag_spiffe_id := Some ''spiffe://td/a'' \<rparr>) = Some ''spiffe''"
    by (simp add: watch_demo_agent_def)
  have b: "bind_spiffe_id ''a1'' x svid_demo_db = (Inr (), snd (bind_spiffe_id ''a1'' x svid_demo_db))"
    if "fst (bind_spiffe_id ''a1'' x svid_demo_db) = Inr ()" for x
    using that by (simp add: prod_eq_iff)
  show ?thesis
    using unbinding_cuts_rebinding_keeps [OF svid_demo_row mode b [OF ok(1)] ok(5), of "\<lambda>x. x" Some svid_demo_verify]
      unbinding_cuts_rebinding_keeps [OF svid_demo_row mode b [OF ok(2)] ok(5), of "\<lambda>x. x" Some svid_demo_verify]
      ok(3,4,6) by simp
qed

end
