(* ===== verification/Tunnel_Pool.thy ===== *)
theory Tunnel_Pool
  imports Agent_Meta
begin

text \<open>
  \<open>services/tunnel_pool.py\<close>: which addresses of a gateway subnet a network tunnel may lease, as a
  list of addresses or as one aligned prefix, and the reading of an operator's own pool.

  What the module uses of \<open>ipaddress\<close> is written out for IPv4; the text form of IPv6 addresses is the
  pair \<open>ip6\<close> of parameters. An unused raise is \<open>None\<close>; the \<open>TypeError\<close> of comparing addresses of
  two versions, which the module does not catch, is \<open>Inl\<close>.
\<close>

section \<open>Addresses and networks\<close>

datatype ip = V4 nat | V6 nat

record ip6_text =
  ip6_parse :: "string \<Rightarrow> nat option"
  ip6_show :: "nat \<Rightarrow> string"

definition is_digit :: "char \<Rightarrow> bool" where "is_digit c \<longleftrightarrow> digit_val c \<noteq> None"

definition parse_octet :: "string \<Rightarrow> nat option" where
  "parse_octet s =
     (if s = [] \<or> \<not> list_all is_digit s \<or> length s > 3 \<or> (s \<noteq> ''0'' \<and> hd s = CHR ''0'') then None
      else (case int_start s of
              None \<Rightarrow> None
            | Some n \<Rightarrow> if n > 255 then None else Some (nat n)))"

definition parse_ipv4 :: "string \<Rightarrow> nat option" where
  "parse_ipv4 s =
     (case map parse_octet (split_on (CHR ''.'') s) of
        [Some a, Some b, Some c, Some d] \<Rightarrow> Some (((a * 256 + b) * 256 + c) * 256 + d)
      | _ \<Rightarrow> None)"

definition show_ipv4 :: "nat \<Rightarrow> string" where
  "show_ipv4 n =
     join_with (CHR ''.'')
       [show_nat (n div 16777216), show_nat (n div 65536 mod 256), show_nat (n div 256 mod 256), show_nat (n mod 256)]"

definition ip_of_text :: "ip6_text \<Rightarrow> string \<Rightarrow> ip option" where
  "ip_of_text ip6 s =
     (if CHR ''/'' \<in> set s then None
      else case parse_ipv4 s of
             Some n \<Rightarrow> Some (V4 n)
           | None \<Rightarrow> map_option V6 (ip6_parse ip6 s))"

text \<open>\<open>ip_address(i)\<close> of an integer: IPv4 when it fits.\<close>

definition ip_of_int :: "nat \<Rightarrow> ip" where
  "ip_of_int n = (if n < 2 ^ 32 then V4 n else V6 n)"

definition ip_str :: "ip6_text \<Rightarrow> ip \<Rightarrow> string" where
  "ip_str ip6 a = (case a of V4 n \<Rightarrow> show_ipv4 n | V6 n \<Rightarrow> ip6_show ip6 n)"

definition ip_int :: "ip \<Rightarrow> nat" where
  "ip_int a = (case a of V4 n \<Rightarrow> n | V6 n \<Rightarrow> n)"

record ipnet =
  nt_v6 :: bool
  nt_net :: nat
  nt_len :: nat

definition bits_of :: "bool \<Rightarrow> nat" where "bits_of v6 = (if v6 then 128 else 32)"

definition prefix_of_digits :: "nat \<Rightarrow> string \<Rightarrow> nat option" where
  "prefix_of_digits most s =
     (if s \<noteq> [] \<and> list_all is_digit s
      then (case int_start s of None \<Rightarrow> None | Some n \<Rightarrow> if n \<le> int most then Some (nat n) else None)
      else None)"

definition netmask :: "nat \<Rightarrow> nat" where "netmask len = 2 ^ 32 - 2 ^ (32 - len)"

text \<open>A netmask, or else a hostmask.\<close>

definition prefix_of_mask :: "string \<Rightarrow> nat option" where
  "prefix_of_mask s =
     (case parse_ipv4 s of
        None \<Rightarrow> None
      | Some n \<Rightarrow>
          (case List.find (\<lambda>len. netmask len = n) [0..<33] of
             Some len \<Rightarrow> Some len
           | None \<Rightarrow> List.find (\<lambda>len. netmask len = 2 ^ 32 - 1 - n) [0..<33]))"

definition masked :: "bool \<Rightarrow> nat \<Rightarrow> nat \<Rightarrow> ipnet" where
  "masked v6 n len =
     (let block = 2 ^ (bits_of v6 - len)
      in \<lparr> nt_v6 = v6, nt_net = n div block * block, nt_len = len \<rparr>)"

definition ipv4_network :: "string \<Rightarrow> ipnet option" where
  "ipv4_network s =
     (case split_on (CHR ''/'') s of
        [a] \<Rightarrow> map_option (\<lambda>n. masked False n 32) (parse_ipv4 a)
      | [a, m] \<Rightarrow>
          (case (parse_ipv4 a, prefix_of_digits 32 m) of
             (Some n, Some len) \<Rightarrow> Some (masked False n len)
           | (Some n, None) \<Rightarrow> map_option (masked False n) (prefix_of_mask m)
           | _ \<Rightarrow> None)
      | _ \<Rightarrow> None)"

definition ipv6_network :: "ip6_text \<Rightarrow> string \<Rightarrow> ipnet option" where
  "ipv6_network ip6 s =
     (case split_on (CHR ''/'') s of
        [a] \<Rightarrow> map_option (\<lambda>n. masked True n 128) (ip6_parse ip6 a)
      | [a, m] \<Rightarrow>
          (case (ip6_parse ip6 a, prefix_of_digits 128 m) of
             (Some n, Some len) \<Rightarrow> Some (masked True n len)
           | _ \<Rightarrow> None)
      | _ \<Rightarrow> None)"

definition ip_network :: "ip6_text \<Rightarrow> string \<Rightarrow> ipnet option" where
  "ip_network ip6 s = (case ipv4_network s of Some net \<Rightarrow> Some net | None \<Rightarrow> ipv6_network ip6 s)"

definition block_size :: "ipnet \<Rightarrow> nat" where
  "block_size net = 2 ^ (bits_of (nt_v6 net) - nt_len net)"

definition hosts :: "ipnet \<Rightarrow> nat list" where
  "hosts net =
     (if block_size net = 1 then [nt_net net]
      else if block_size net = 2 then [nt_net net, nt_net net + 1]
      else if nt_v6 net then [nt_net net + 1 ..< nt_net net + block_size net]
      else [nt_net net + 1 ..< nt_net net + block_size net - 1])"

definition net_ip :: "ipnet \<Rightarrow> nat \<Rightarrow> ip" where
  "net_ip net n = (if nt_v6 net then V6 n else V4 n)"

section \<open>Deriving a pool\<close>

definition POOL_SIZE :: nat where "POOL_SIZE = 8"
definition POOL_MAX :: nat where "POOL_MAX = 32"
definition DISABLED :: string where "DISABLED = ''off''"

definition RESERVED :: "(string \<times> nat \<times> nat) list" where
  "RESERVED = [(''azure'', 3, 0), (''aws'', 3, 0), (''gcp'', 1, 1)]"

definition reserved_for :: "string \<Rightarrow> nat \<times> nat" where
  "reserved_for cloud = (case map_of RESERVED (py_lower cloud) of None \<Rightarrow> (3, 0) | Some r \<Rightarrow> r)"

definition usable_hosts :: "string \<Rightarrow> ipnet \<Rightarrow> nat list" where
  "usable_hosts cloud net =
     (case reserved_for cloud of
        (head, tail) \<Rightarrow> (let usable = drop head (hosts net) in take (length usable - tail) usable))"

definition pool_of :: "string \<Rightarrow> nat \<Rightarrow> ipnet \<Rightarrow> nat list" where
  "pool_of cloud want net =
     (let usable = usable_hosts cloud net in if want = 0 then usable else drop (length usable - want) usable)"

definition derive_pool :: "ip6_text \<Rightarrow> string \<Rightarrow> string \<Rightarrow> nat \<Rightarrow> string list" where
  "derive_pool ip6 subnet cloud want =
     (case ip_network ip6 subnet of
        None \<Rightarrow> []
      | Some net \<Rightarrow> map (\<lambda>n. ip_str ip6 (net_ip net n)) (pool_of cloud want net))"

section \<open>Reading a pool\<close>

definition split_range :: "string \<Rightarrow> string \<times> string" where
  "split_range spec =
     (let lo = takeWhile (\<lambda>c. c \<noteq> CHR ''-'') spec in (py_strip lo, py_strip (drop (Suc (length lo)) spec)))"

definition range_pool :: "ip6_text \<Rightarrow> ip \<Rightarrow> ip \<Rightarrow> string + string list option" where
  "range_pool ip6 lo hi =
     (case (lo, hi) of
        (V4 a, V4 b) \<Rightarrow> Inr (Some (map (\<lambda>n. ip_str ip6 (ip_of_int n)) [min a b ..< Suc (max a b)]))
      | (V6 a, V6 b) \<Rightarrow> Inr (Some (map (\<lambda>n. ip_str ip6 (ip_of_int n)) [min a b ..< Suc (max a b)]))
      | _ \<Rightarrow> Inl ''TypeError'')"

definition expand_pool :: "ip6_text \<Rightarrow> string \<Rightarrow> string + string list option" where
  "expand_pool ip6 spec =
     (if CHR ''-'' \<in> set spec
      then (case split_range spec of
              (lo, hi) \<Rightarrow>
                (case (ip_of_text ip6 lo, ip_of_text ip6 hi) of
                   (Some a, Some b) \<Rightarrow> range_pool ip6 a b
                 | _ \<Rightarrow> Inr None))
      else if CHR ''/'' \<in> set spec
      then Inr (map_option (\<lambda>net. map (\<lambda>n. ip_str ip6 (net_ip net n)) (hosts net)) (ip_network ip6 spec))
      else Inr (map_option (\<lambda>a. [ip_str ip6 a]) (ip_of_text ip6 spec)))"

definition parse_pool :: "ip6_text \<Rightarrow> string \<Rightarrow> string + string list" where
  "parse_pool ip6 spec0 =
     (let spec = py_strip spec0
      in if spec = [] \<or> py_lower spec = DISABLED then Inr []
         else (case expand_pool ip6 spec of
                 Inl e \<Rightarrow> Inl e
               | Inr None \<Rightarrow> Inr []
               | Inr (Some out) \<Rightarrow> Inr (take POOL_MAX out)))"

definition resolve_pool :: "ip6_text \<Rightarrow> string \<Rightarrow> string \<Rightarrow> string \<Rightarrow> nat \<Rightarrow> string + string list" where
  "resolve_pool ip6 spec subnet cloud want =
     (if py_lower (py_strip spec) = DISABLED then Inr []
      else (case parse_pool ip6 spec of
              Inl e \<Rightarrow> Inl e
            | Inr [] \<Rightarrow> Inr (derive_pool ip6 subnet cloud want)
            | Inr (a # as) \<Rightarrow> Inr (a # as)))"

section \<open>One prefix\<close>

fun bit_length :: "nat \<Rightarrow> nat" where
  "bit_length n = (if n = 0 then 0 else Suc (bit_length (n div 2)))"

declare bit_length.simps [simp del]

text \<open>The walk down from the top; a block is never empty.\<close>

function find_block :: "int \<Rightarrow> int \<Rightarrow> int \<Rightarrow> int \<Rightarrow> int option" where
  "find_block lo hi block start =
     (if block \<le> 0 \<or> start < lo then None
      else if start + block - 1 \<le> hi then Some start
      else find_block lo hi block (start - block))"
  by pat_completeness auto
termination by (relation "measure (\<lambda>(lo, hi, block, start). nat (start - lo + 1))") auto

declare find_block.simps [simp del]

definition top_block :: "int \<Rightarrow> int \<Rightarrow> int \<Rightarrow> int option" where
  "top_block lo hi block = find_block lo hi block ((hi + 1 - block) div block * block)"

fun first_fit :: "nat \<Rightarrow> int \<Rightarrow> int \<Rightarrow> nat list \<Rightarrow> (int \<times> nat) option" where
  "first_fit maxbits lo hi [] = None"
| "first_fit maxbits lo hi (b # bs) =
     (case top_block lo hi (2 ^ (maxbits - b)) of
        Some start \<Rightarrow> Some (start, b)
      | None \<Rightarrow> first_fit maxbits lo hi bs)"

definition ideal_length :: "nat \<Rightarrow> ipnet \<Rightarrow> nat" where
  "ideal_length want net = max (nt_len net) (bits_of (nt_v6 net) - bit_length (max (want - 1) 1))"

definition alias_of :: "string \<Rightarrow> nat \<Rightarrow> ipnet \<Rightarrow> (nat \<times> nat) option" where
  "alias_of cloud want net =
     (let usable = usable_hosts cloud net
      in if usable = [] then None
         else map_option (\<lambda>(start, b). (nat start, b))
                (first_fit (bits_of (nt_v6 net)) (int (hd usable)) (int (last usable))
                   [ideal_length want net ..< bits_of (nt_v6 net) - 1]))"

definition derive_pool_cidr :: "ip6_text \<Rightarrow> string \<Rightarrow> string \<Rightarrow> nat \<Rightarrow> string" where
  "derive_pool_cidr ip6 subnet cloud want =
     (case ip_network ip6 subnet of
        None \<Rightarrow> []
      | Some net \<Rightarrow>
          (case alias_of cloud want net of
             None \<Rightarrow> []
           | Some (start, b) \<Rightarrow> ip_str ip6 (ip_of_int start) @ ''/'' @ show_nat b))"

definition net_str :: "ip6_text \<Rightarrow> ipnet \<Rightarrow> string" where
  "net_str ip6 net = ip_str ip6 (net_ip net (nt_net net)) @ ''/'' @ show_nat (nt_len net)"

definition parse_pool_cidr :: "ip6_text \<Rightarrow> string \<Rightarrow> string" where
  "parse_pool_cidr ip6 spec0 =
     (let spec = py_strip spec0
      in if spec = [] \<or> py_lower spec = DISABLED then []
         else if CHR ''-'' \<in> set spec then []
         else (case ip_network ip6 spec of
                 None \<Rightarrow> []
               | Some net \<Rightarrow> if block_size net > POOL_MAX then [] else net_str ip6 net))"

definition resolve_pool_cidr :: "ip6_text \<Rightarrow> string \<Rightarrow> string \<Rightarrow> string \<Rightarrow> nat \<Rightarrow> string" where
  "resolve_pool_cidr ip6 spec subnet cloud want =
     (if py_lower (py_strip spec) = DISABLED then []
      else (let p = parse_pool_cidr ip6 spec
            in if p \<noteq> [] then p else derive_pool_cidr ip6 subnet cloud want))"

section \<open>Text of addresses\<close>

lemma digit_char_zero: "d < 10 \<Longrightarrow> digit_char d = CHR ''0'' \<longleftrightarrow> d = 0"
proof -
  assume "d < 10"
  then have "(of_char (digit_char d) :: nat) = 48 + d" by (simp add: digit_char_def)
  moreover have "(of_char (CHR ''0'') :: nat) = 48" by simp
  ultimately show ?thesis by (metis add_left_cancel add.right_neutral of_char_eq_iff)
qed

lemma show_nat_head: "0 < n \<Longrightarrow> hd (show_nat n) \<noteq> CHR ''0''"
proof (induction n rule: show_nat.induct)
  case (1 n)
  show ?case
  proof (cases "n < 10")
    case True
    then show ?thesis using 1(2) by (simp add: show_nat.simps [of n] digit_char_zero)
  next
    case False
    then have "0 < n div 10" by simp
    with 1(1) [OF False] have "hd (show_nat (n div 10)) \<noteq> CHR ''0''" .
    with False show ?thesis by (simp add: show_nat.simps [of n])
  qed
qed

lemma show_nat_short: "n < 1000 \<Longrightarrow> length (show_nat n) \<le> 3"
  by (simp add: show_nat.simps [of n] show_nat.simps [of "n div 10"] show_nat.simps [of "n div 100"] flip: div_mult2_eq)

lemma show_nat_is_digit: "list_all is_digit (show_nat n)"
  using show_nat_digits [of n] by (force simp: list_all_iff is_digit_def)

lemma parse_octet_show: "n < 256 \<Longrightarrow> parse_octet (show_nat n) = Some n"
proof -
  assume n: "n < 256"
  have "show_nat n = ''0'' \<or> hd (show_nat n) \<noteq> CHR ''0''"
  proof (cases "n = 0")
    case True
    have "show_nat 0 = ''0''" by code_simp
    with True show ?thesis by simp
  qed (simp add: show_nat_head)
  then show ?thesis
    using n show_nat_short [of n] by (auto simp: parse_octet_def show_nat_is_digit int_start_show_nat)
qed

lemma show_nat_clean:
  "CHR ''.'' \<notin> set (show_nat n)" "CHR ''/'' \<notin> set (show_nat n)" "CHR ''-'' \<notin> set (show_nat n)"
proof -
  have "digit_val c \<noteq> None" if "c \<in> set (show_nat n)" for c
    using show_nat_digits [of n] that by force
  moreover have "digit_val (CHR ''.'') = None" "digit_val (CHR ''/'') = None" "digit_val (CHR ''-'') = None"
    by (simp_all add: digit_val_def)
  ultimately show "CHR ''.'' \<notin> set (show_nat n)" "CHR ''/'' \<notin> set (show_nat n)" "CHR ''-'' \<notin> set (show_nat n)"
    by metis+
qed

lemma show_ipv4_clean: "CHR ''/'' \<notin> set (show_ipv4 n)" "CHR ''-'' \<notin> set (show_ipv4 n)"
  using show_nat_clean by (auto simp: show_ipv4_def)

text \<open>The text of an IPv4 address reads back as that address.\<close>

theorem ipv4_roundtrip:
  assumes "n < 2 ^ 32"
  shows "parse_ipv4 (show_ipv4 n) = Some n"
proof -
  let ?os = "[n div 16777216, n div 65536 mod 256, n div 256 mod 256, n mod 256]"
  have "split_on (CHR ''.'') (show_ipv4 n) = map show_nat ?os"
    using split_join [of "map show_nat ?os" "CHR ''.''"] show_nat_clean(1) by (simp add: show_ipv4_def)
  moreover have "n div 16777216 < 256" using assms by simp
  ultimately have "map parse_octet (split_on (CHR ''.'') (show_ipv4 n)) = map Some ?os"
    by (simp add: parse_octet_show)
  moreover have "((n div 16777216 * 256 + n div 65536 mod 256) * 256 + n div 256 mod 256) * 256 + n mod 256 = n"
  proof -
    have "n div 65536 = n div 256 div 256" "n div 16777216 = n div 65536 div 256" by (simp_all flip: div_mult2_eq)
    then have "n div 16777216 * 256 + n div 65536 mod 256 = n div 65536" "n div 65536 * 256 + n div 256 mod 256 = n div 256"
      by (simp_all only: div_mult_mod_eq)
    then show ?thesis by (simp only: div_mult_mod_eq)
  qed
  ultimately show ?thesis by (simp add: parse_ipv4_def)
qed

lemma prefix_of_show: "len \<le> most \<Longrightarrow> prefix_of_digits most (show_nat len) = Some len"
  by (simp add: prefix_of_digits_def show_nat_is_digit int_start_show_nat)

lemma network_of_show:
  assumes "n < 2 ^ 32" and "len \<le> 32"
  shows "ip_network ip6 (show_ipv4 n @ ''/'' @ show_nat len) = Some (masked False n len)"
proof -
  have "split_on (CHR ''/'') (show_ipv4 n @ ''/'' @ show_nat len) = [show_ipv4 n, show_nat len]"
    using show_ipv4_clean(1) show_nat_clean(2) by (simp add: split_on_append_sep split_on_no_sep)
  then show ?thesis
    using ipv4_roundtrip [OF assms(1)] prefix_of_show [OF assms(2)] by (simp add: ip_network_def ipv4_network_def)
qed

section \<open>Blocks\<close>

lemma top_block_eq:
  assumes "0 < block"
  shows "top_block lo hi block =
    (if (hi + 1 - block) div block * block < lo then None else Some ((hi + 1 - block) div block * block))"
proof -
  let ?s = "(hi + 1 - block) div block * block"
  have "?s + block - 1 \<le> hi"
    using assms minus_mod_eq_div_mult [of "hi + 1 - block" block] pos_mod_sign [OF assms, of "hi + 1 - block"] by linarith
  then show ?thesis
    using assms by (simp add: top_block_def find_block.simps [of lo hi block ?s])
qed

definition fits :: "int \<Rightarrow> int \<Rightarrow> int \<Rightarrow> int \<Rightarrow> bool" where
  "fits lo hi block s \<longleftrightarrow> block dvd s \<and> lo \<le> s \<and> s + block - 1 \<le> hi"

lemma fits_below_top:
  assumes "0 < block" and "fits lo hi block s"
  shows "s \<le> (hi + 1 - block) div block * block"
proof -
  obtain k where k: "s = block * k" using assms(2) by (auto simp: fits_def)
  then have "k * block \<le> hi + 1 - block" using assms(2) by (simp add: fits_def mult.commute)
  from zdiv_mono1 [OF this assms(1)] have "k \<le> (hi + 1 - block) div block" using assms(1) by simp
  then show ?thesis using assms(1) k by (simp add: mult.commute)
qed

lemma top_block_Some:
  assumes "0 < block" and "top_block lo hi block = Some s"
  shows "fits lo hi block s \<and> (\<forall>t. fits lo hi block t \<longrightarrow> t \<le> s)"
proof -
  have s: "s = (hi + 1 - block) div block * block" "lo \<le> s"
    using assms by (auto simp: top_block_eq split: if_splits)
  have "s + block - 1 \<le> hi"
    using s(1) assms(1) minus_mod_eq_div_mult [of "hi + 1 - block" block] pos_mod_sign [OF assms(1), of "hi + 1 - block"] by linarith
  then show ?thesis using s fits_below_top [OF assms(1)] by (auto simp: fits_def)
qed

lemma top_block_None: "0 < block \<Longrightarrow> top_block lo hi block = None \<Longrightarrow> \<not> fits lo hi block s"
  using fits_below_top [of block lo hi s] by (auto simp: top_block_eq fits_def split: if_splits)

lemma first_fit_Some:
  "first_fit maxbits lo hi bs = Some (s, b) \<Longrightarrow> sorted bs \<Longrightarrow> distinct bs \<Longrightarrow>
     b \<in> set bs \<and> fits lo hi (2 ^ (maxbits - b)) s \<and> (\<forall>t. fits lo hi (2 ^ (maxbits - b)) t \<longrightarrow> t \<le> s)
     \<and> (\<forall>b' t. b' \<in> set bs \<longrightarrow> b' < b \<longrightarrow> \<not> fits lo hi (2 ^ (maxbits - b')) t)"
proof (induction bs)
  case (Cons c bs)
  show ?case
  proof (cases "top_block lo hi (2 ^ (maxbits - c))")
    case None
    then have "first_fit maxbits lo hi bs = Some (s, b)" using Cons.prems(1) by simp
    with Cons None show ?thesis using top_block_None [OF _ None] by auto
  next
    case (Some t)
    then have "t = s" "b = c" using Cons.prems(1) by simp_all
    then show ?thesis using top_block_Some [OF _ Some] Cons.prems(2,3) by auto
  qed
qed simp

lemma first_fit_None:
  "first_fit maxbits lo hi bs = None \<Longrightarrow> b \<in> set bs \<Longrightarrow> \<not> fits lo hi (2 ^ (maxbits - b)) t"
  by (induction bs) (auto split: option.splits dest: top_block_None [rotated])

section \<open>The addresses of a pool\<close>

text \<open>An IPv4 network of at least four addresses, as \<open>ip_network\<close> returns it.\<close>

definition wide_net :: "ipnet \<Rightarrow> bool" where
  "wide_net net \<longleftrightarrow> \<not> nt_v6 net \<and> nt_len net \<le> 30 \<and> block_size net dvd nt_net net \<and> nt_net net + block_size net \<le> 2 ^ 32"

lemma wide_block: "wide_net net \<Longrightarrow> 4 \<le> block_size net"
proof -
  assume "wide_net net"
  then have "2 \<le> 32 - nt_len net" "\<not> nt_v6 net" by (auto simp: wide_net_def)
  then have "(2 :: nat) ^ 2 \<le> 2 ^ (32 - nt_len net)" by (intro power_increasing) simp_all
  with \<open>\<not> nt_v6 net\<close> show ?thesis by (simp add: block_size_def bits_of_def)
qed

lemma drop_last_upt: "take (length [i ..< j] - k) [i ..< j] = [i ..< j - k]"
proof (cases "i + k \<le> j")
  case True
  then show ?thesis by (simp add: take_upt)
qed simp

lemma top_run: "[a + (t - a - w) ..< t] = [t - min w (t - a) ..< t]" for a t w :: nat
proof (cases "a \<le> t")
  case True
  then have "a + (t - a - w) = t - min w (t - a)" by arith
  then show ?thesis by simp
qed simp

lemma usable_wide:
  assumes "wide_net net" and "reserved_for cloud = (head, tail)"
  shows "usable_hosts cloud net = [nt_net net + 1 + head ..< nt_net net + block_size net - 1 - tail]"
proof -
  have "hosts net = [nt_net net + 1 ..< nt_net net + block_size net - 1]"
    using assms(1) wide_block [OF assms(1)] by (simp add: hosts_def wide_net_def)
  then show ?thesis
    by (simp only: usable_hosts_def assms(2) Let_def drop_upt drop_last_upt prod.case)
qed

text \<open>
  The derived pool is exactly the top of the subnet: the wanted number of addresses, or all there
  are, in one run that ends right below the broadcast address and what the cloud reserves there, and
  starts above the network address and what the cloud reserves at the bottom.
\<close>

theorem derived_pool_exact:
  assumes "wide_net net" and "reserved_for cloud = (head, tail)" and "0 < want"
  shows "pool_of cloud want net =
    (let top = nt_net net + block_size net - 1 - tail
     in [top - min want (block_size net - 2 - head - tail) ..< top])"
proof -
  let ?lo = "nt_net net + 1 + head" and ?top = "nt_net net + block_size net - 1 - tail"
  have u: "usable_hosts cloud net = [?lo ..< ?top]" using usable_wide [OF assms(1,2)] .
  have n: "?top - ?lo = block_size net - 2 - head - tail" using wide_block [OF assms(1)] by simp
  have "pool_of cloud want net = [?lo + (?top - ?lo - want) ..< ?top]"
    using assms(3) by (simp add: pool_of_def u drop_upt)
  also have "\<dots> = [?top - min want (?top - ?lo) ..< ?top]" by (rule top_run)
  finally show ?thesis by (simp only: n Let_def)
qed

text \<open>
  The alias range is the best prefix there is: aligned, inside the usable addresses, of the largest
  size from the wanted one downwards that fits at all, and the highest of that size; and there is
  none only when no aligned block of any admitted size fits.
\<close>

theorem alias_range_best:
  assumes "usable_hosts cloud net \<noteq> []"
  shows "case alias_of cloud want net of
      Some (start, b) \<Rightarrow>
        ideal_length want net \<le> b \<and> b < bits_of (nt_v6 net) - 1
        \<and> fits (int (hd (usable_hosts cloud net))) (int (last (usable_hosts cloud net))) (2 ^ (bits_of (nt_v6 net) - b)) (int start)
        \<and> (\<forall>t. fits (int (hd (usable_hosts cloud net))) (int (last (usable_hosts cloud net))) (2 ^ (bits_of (nt_v6 net) - b)) t
              \<longrightarrow> t \<le> int start)
        \<and> (\<forall>b' t. ideal_length want net \<le> b' \<longrightarrow> b' < b \<longrightarrow>
              \<not> fits (int (hd (usable_hosts cloud net))) (int (last (usable_hosts cloud net))) (2 ^ (bits_of (nt_v6 net) - b')) t)
    | None \<Rightarrow>
        (\<forall>b' t. ideal_length want net \<le> b' \<longrightarrow> b' < bits_of (nt_v6 net) - 1 \<longrightarrow>
           \<not> fits (int (hd (usable_hosts cloud net))) (int (last (usable_hosts cloud net))) (2 ^ (bits_of (nt_v6 net) - b')) t)"
proof -
  let ?bits = "bits_of (nt_v6 net)" and ?lo = "int (hd (usable_hosts cloud net))" and ?hi = "int (last (usable_hosts cloud net))"
  let ?bs = "[ideal_length want net ..< ?bits - 1]"
  show ?thesis
  proof (cases "first_fit ?bits ?lo ?hi ?bs")
    case None
    then have "alias_of cloud want net = None" using assms by (simp add: alias_of_def)
    then show ?thesis using first_fit_None [OF None] by auto
  next
    case (Some sb)
    obtain s b where sb: "sb = (s, b)" by (cases sb)
    note best = first_fit_Some [OF Some [unfolded sb]]
    have "fits ?lo ?hi (2 ^ (?bits - b)) s" using best by simp
    then have "int (nat s) = s" by (simp add: fits_def)
    moreover have "alias_of cloud want net = Some (nat s, b)" using assms Some sb by (simp add: alias_of_def)
    ultimately show ?thesis using best by simp
  qed
qed

lemma bit_length_le: "n < 2 ^ k \<Longrightarrow> bit_length n \<le> k"
proof (induction k arbitrary: n)
  case 0
  then show ?case by (simp add: bit_length.simps [of 0])
next
  case (Suc k)
  then have "bit_length (n div 2) \<le> k" by (simp add: less_mult_imp_div_less mult.commute)
  then show ?case by (simp add: bit_length.simps [of n])
qed

lemma masked_aligned: "2 ^ (32 - len) dvd n \<Longrightarrow> masked False n len = \<lparr> nt_v6 = False, nt_net = n, nt_len = len \<rparr>"
  by (simp add: masked_def bits_of_def)

lemma show_ipv4_ends: "show_ipv4 n \<noteq> []" "\<not> is_space (hd (show_ipv4 n))"
  using show_nat_ends(1) by (auto simp: show_ipv4_def)

text \<open>
  C32. What the dashboard derived can be pasted back: a derived IPv4 alias range of at most
  thirty-two addresses, given as the operator's own, resolves to itself, whatever the subnet then is.
\<close>

theorem derived_alias_pastes_back:
  assumes "ip_network ip6 subnet = Some net" and "wide_net net" and "want \<le> 32"
    and "derive_pool_cidr ip6 subnet cloud want \<noteq> []"
  shows "resolve_pool_cidr ip6 (derive_pool_cidr ip6 subnet cloud want) other cloud' want'
    = derive_pool_cidr ip6 subnet cloud want"
proof -
  obtain s b where a: "alias_of cloud want net = Some (s, b)"
    using assms(1,4) by (auto simp: derive_pool_cidr_def split: option.splits)
  obtain head tail where r: "reserved_for cloud = (head, tail)" by (cases "reserved_for cloud")
  let ?u = "usable_hosts cloud net"
  have ne: "?u \<noteq> []" using a by (auto simp: alias_of_def Let_def split: if_splits)
  have bits: "bits_of (nt_v6 net) = 32" using assms(2) by (simp add: wide_net_def bits_of_def)
  have best: "ideal_length want net \<le> b" "b < 31" "fits (int (hd ?u)) (int (last ?u)) (2 ^ (32 - b)) (int s)"
    using alias_range_best [OF ne, of want] a bits by simp_all
  have "last ?u \<in> set ?u" using ne by simp
  then have "last ?u < 2 ^ 32" using usable_wide [OF assms(2) r] assms(2) by (auto simp: wide_net_def)
  moreover have "(2 :: int) ^ (32 - b) \<ge> 1" by simp
  moreover have "int s + 2 ^ (32 - b) - 1 \<le> int (last ?u)" using best(3) by (simp add: fits_def)
  ultimately have s32: "s < 2 ^ 32" by linarith
  have "int (2 ^ (32 - b)) dvd int s" using best(3) by (simp add: fits_def)
  then have al: "2 ^ (32 - b) dvd s" by (simp only: int_dvd_int_iff)
  have "max (want - 1) 1 < 2 ^ 5" using assms(3) by simp
  from bit_length_le [OF this] have "27 \<le> b"
    using best(1) bits unfolding ideal_length_def by linarith
  then have small: "(2 :: nat) ^ (32 - b) \<le> 2 ^ 5" by (intro power_increasing) simp_all
  let ?p = "show_ipv4 s @ ''/'' @ show_nat b"
  have d: "derive_pool_cidr ip6 subnet cloud want = ?p"
    using assms(1) a s32 by (simp add: derive_pool_cidr_def ip_of_int_def ip_str_def)
  have strip: "py_strip ?p = ?p"
    using show_ipv4_ends [of s] show_nat_ends(2) [of b] by (intro py_strip_id) simp_all
  have "CHR ''/'' \<in> set (py_lower ?p)"
  proof -
    have "lower_char (CHR ''/'') = CHR ''/''" by code_simp
    then show ?thesis by (simp add: py_lower_def)
  qed
  then have off: "py_lower ?p \<noteq> DISABLED" by (auto simp: DISABLED_def)
  have net: "ip_network ip6 ?p = Some \<lparr> nt_v6 = False, nt_net = s, nt_len = b \<rparr>"
    using network_of_show [OF s32, of b ip6] masked_aligned [OF al] best(2) by simp
  have "parse_pool_cidr ip6 ?p = ?p"
    using strip off net small show_ipv4_clean(2) show_nat_clean(3) show_ipv4_ends(1) [of s]
    by (simp add: parse_pool_cidr_def Let_def block_size_def bits_of_def POOL_MAX_def net_str_def net_ip_def ip_str_def)
  then show ?thesis using d strip off show_ipv4_ends(1) [of s] by (simp add: resolve_pool_cidr_def)
qed

text \<open>An operator's pool never registers more than thirty-two addresses.\<close>

lemma parse_pool_bounded: "parse_pool ip6 spec = Inr pool \<Longrightarrow> length pool \<le> POOL_MAX"
  by (auto simp: parse_pool_def Let_def split: if_splits sum.splits option.splits)

text \<open>
  Not every malformed setting is read as none: a range from an IPv4 to an IPv6 address raises a
  \<open>TypeError\<close> that the module does not catch, so no pool is resolved at all.
\<close>

theorem mixed_range_raises:
  assumes "n < 2 ^ 32" and "ip6_parse ip6 six = Some m" and "py_strip six = six" and "six \<noteq> []"
    and "CHR ''/'' \<notin> set six" and "parse_ipv4 six = None"
  shows "resolve_pool ip6 (show_ipv4 n @ ''-'' @ six) subnet cloud want = Inl ''TypeError''"
proof -
  let ?p = "show_ipv4 n @ ''-'' @ six"
  have "\<not> is_space (last six)" and dash: "split_range ?p = (show_ipv4 n, six)"
  proof -
    show "\<not> is_space (last six)" using py_strip_ends [of six] assms(3,4) by metis
    have "takeWhile (\<lambda>c. c \<noteq> CHR ''-'') ?p = show_ipv4 n"
      using show_ipv4_clean(2) [of n] by (subst takeWhile_append2) auto
    moreover have "py_strip (show_ipv4 n) = show_ipv4 n"
      using show_ipv4_ends [of n] show_nat_ends(2) [of "n mod 256"] by (intro py_strip_id) (simp_all add: show_ipv4_def)
    ultimately show "split_range ?p = (show_ipv4 n, six)" using assms(3) by (simp add: split_range_def)
  qed
  then have strip: "py_strip ?p = ?p" using show_ipv4_ends [of n] assms(4) by (intro py_strip_id) simp_all
  have "lower_char (CHR ''-'') = CHR ''-''" by code_simp
  then have "CHR ''-'' \<in> set (py_lower ?p)" by (simp add: py_lower_def)
  then have off: "py_lower ?p \<noteq> DISABLED" by (auto simp: DISABLED_def)
  have "ip_of_text ip6 (show_ipv4 n) = Some (V4 n)" "ip_of_text ip6 six = Some (V6 m)"
    using assms show_ipv4_clean(1) [of n] ipv4_roundtrip [OF assms(1)] by (simp_all add: ip_of_text_def)
  then have "expand_pool ip6 ?p = Inl ''TypeError''"
    by (simp add: expand_pool_def dash [simplified] range_pool_def)
  then show ?thesis using strip off by (simp add: resolve_pool_def parse_pool_def Let_def)
qed

section \<open>A small subnet\<close>

definition ip6_demo :: ip6_text where
  "ip6_demo = \<lparr> ip6_parse = (\<lambda>s. if s = ''::1'' then Some 1 else None), ip6_show = (\<lambda>_. ''::1'') \<rparr>"

definition demo_net :: ipnet where "demo_net = \<lparr> nt_v6 = False, nt_net = 168427520, nt_len = 28 \<rparr>"

lemma demo_net_wide: "wide_net demo_net" "block_size demo_net = 16" "reserved_for ''gcp'' = (1, 1)"
  by (simp_all add: wide_net_def demo_net_def block_size_def bits_of_def)
    (simp_all add: reserved_for_def RESERVED_def py_lower_def lower_char_def)

lemma demo_digits:
  "digit_char 0 = CHR ''0''" "digit_char (Suc 0) = CHR ''1''" "digit_char 2 = CHR ''2''" "digit_char 8 = CHR ''8''"
  by code_simp+

lemma demo_subnet: "ip_network ip6_demo ''10.10.0.0/28'' = Some demo_net"
proof -
  have "show_ipv4 168427520 @ ''/'' @ show_nat 28 = ''10.10.0.0/28''"
    by (simp add: show_ipv4_def show_nat.simps demo_digits)
  with network_of_show [of 168427520 28 ip6_demo] show ?thesis
    by (simp add: masked_aligned demo_net_def)
qed

lemma ipv4_roundtrip_witness: "parse_ipv4 (show_ipv4 168427520) = Some 168427520"
  by (rule ipv4_roundtrip) simp

lemma derived_pool_exact_witness: "pool_of ''gcp'' 8 demo_net = [168427526 ..< 168427534]"
  using derived_pool_exact [OF demo_net_wide(1,3), of 8] by (simp add: demo_net_wide(2)) (simp add: demo_net_def)

lemma demo_usable: "usable_hosts ''gcp'' demo_net = [168427522 ..< 168427534]"
  using usable_wide [OF demo_net_wide(1,3)] by (simp add: demo_net_wide(2)) (simp add: demo_net_def)

lemma alias_range_best_witness:
  "alias_of ''gcp'' 8 demo_net = Some (168427528, 30) \<and> fits 168427522 168427533 4 168427528"
proof -
  have ne: "usable_hosts ''gcp'' demo_net \<noteq> []" and ends: "hd (usable_hosts ''gcp'' demo_net) = 168427522"
    "last (usable_hosts ''gcp'' demo_net) = 168427533"
    unfolding demo_usable by (simp_all add: last_upt)
  have "bit_length 7 = 3" by (simp add: bit_length.simps)
  then have "ideal_length 8 demo_net = 29" by (simp add: ideal_length_def demo_net_def bits_of_def)
  then have "alias_of ''gcp'' 8 demo_net = Some (168427528, 30)"
    using ne by (simp add: alias_of_def ends) (simp add: demo_net_def bits_of_def upt_rec top_block_eq)
  moreover from alias_range_best [OF ne, of 8] this have "fits 168427522 168427533 4 168427528"
    by (simp add: ends) (simp add: demo_net_def bits_of_def)
  ultimately show ?thesis ..
qed

lemma derived_alias_pastes_back_witness:
  "resolve_pool_cidr ip6_demo (derive_pool_cidr ip6_demo ''10.10.0.0/28'' ''gcp'' 8) [] ''aws'' 4
     = derive_pool_cidr ip6_demo ''10.10.0.0/28'' ''gcp'' 8"
proof (rule derived_alias_pastes_back [OF demo_subnet demo_net_wide(1)])
  show "derive_pool_cidr ip6_demo ''10.10.0.0/28'' ''gcp'' 8 \<noteq> []"
    using alias_range_best_witness by (simp add: derive_pool_cidr_def demo_subnet)
qed simp

lemma mixed_range_raises_witness:
  "resolve_pool ip6_demo (show_ipv4 5 @ ''-'' @ ''::1'') ''10.10.0.0/28'' ''aws'' 8 = Inl ''TypeError''"
proof (rule mixed_range_raises)
  show "ip6_parse ip6_demo ''::1'' = Some 1" by (simp add: ip6_demo_def)
  show "py_strip ''::1'' = ''::1''" "parse_ipv4 ''::1'' = None" by code_simp+
qed simp_all

end
