(* ===== verification/Permissions.thy ===== *)
theory Permissions
  imports Prelude "HOL-Library.AList" "HOL-Library.Multiset" "HOL-Library.Char_ord" "HOL-Library.List_Lexorder"
begin

text \<open>
  Permission maps: how they combine (\<open>database/rbac.py\<close>), the catalogue of scopes and the questions
  asked of a user (\<open>api/auth.py\<close>), and the four columns of a user that grant
  (\<open>database/models/identity.py\<close>).

  A map is a Python dict: an association list in insertion order, without duplicate keys. A list in
  it holds strings. A permission column is NULL, text that is not JSON, or the text of a map; JSON
  that is not an object is not modelled.
\<close>

section \<open>Maps\<close>

datatype grant = Flag bool | Levels "string list" | Raw json

type_synonym perms = "(string \<times> grant) list"
type_synonym scope_levels = "(string \<times> string list) list"

definition levels_at :: "scope_levels \<Rightarrow> string \<Rightarrow> string list" where
  "levels_at m scope = (case map_of m scope of None \<Rightarrow> [] | Some ls \<Rightarrow> ls)"

text \<open>\<open>bool(val)\<close> and \<open>sorted(set(...))\<close>.\<close>

fun grant_truth :: "grant \<Rightarrow> bool" where
  "grant_truth (Flag b) = b"
| "grant_truth (Levels ls) = (ls \<noteq> [])"
| "grant_truth (Raw j) = truthy j"

definition sorted_set :: "string list \<Rightarrow> string list" where
  "sorted_set ls = sort (remdups ls)"

definition ROLE_UNRESOLVED :: perms where
  "ROLE_UNRESOLVED = [(''__role_unresolved__'', Levels [])]"

definition admin_flag :: "perms \<Rightarrow> bool" where
  "admin_flag p = (case map_of p ''is_admin'' of None \<Rightarrow> False | Some v \<Rightarrow> grant_truth v)"

definition merge_entry :: "perms \<Rightarrow> string \<times> grant \<Rightarrow> perms" where
  "merge_entry out kv =
     (case kv of (key, v) \<Rightarrow>
        if key = ''is_admin'' then AList.update key (Flag (admin_flag out \<or> grant_truth v)) out
        else (case v of
                Levels ls \<Rightarrow>
                  (case map_of out key of
                     Some (Levels existing) \<Rightarrow> AList.update key (Levels (sorted_set (existing @ ls))) out
                   | _ \<Rightarrow> AList.update key (Levels (sorted_set ls)) out)
              | _ \<Rightarrow> AList.update key v out))"

definition merge_permission_maps :: "perms list \<Rightarrow> perms" where
  "merge_permission_maps maps = foldl merge_entry [] (concat maps)"

definition narrow_entry :: "scope_levels \<Rightarrow> string \<times> grant \<Rightarrow> perms" where
  "narrow_entry token_scope kv =
     (case kv of
        (key, Levels ls) \<Rightarrow>
          (if key = ''is_admin'' then []
           else [(key, Levels (filter (\<lambda>l. l \<in> set (levels_at token_scope key)) (sort ls)))])
      | _ \<Rightarrow> [])"

definition narrow_to_token_scope :: "perms \<Rightarrow> scope_levels option \<Rightarrow> perms" where
  "narrow_to_token_scope p token_scope =
     (case token_scope of
        None \<Rightarrow> p
      | Some scope \<Rightarrow>
          (let out = concat (map (narrow_entry scope) p)
           in if out = [] then ROLE_UNRESOLVED else out))"

section \<open>The catalogue\<close>

definition PERMISSION_LEVELS :: "string list" where
  "PERMISSION_LEVELS = [''read'', ''write'', ''delete'', ''use'']"

definition RWDU :: "string list" where "RWDU = [''read'', ''write'', ''delete'', ''use'']"
definition RWD :: "string list" where "RWD = [''read'', ''write'', ''delete'']"
definition RW :: "string list" where "RW = [''read'', ''write'']"
definition RO :: "string list" where "RO = [''read'']"

definition PERMISSION_SCOPE_LEVELS :: scope_levels where
  "PERMISSION_SCOPE_LEVELS =
     [(''vms'', RW), (''aws'', RWD), (''azure'', RWD), (''gcp'', RWD), (''oci'', RWD), (''images'', RWD),
      (''containers'', RWD), (''config_mgmt'', RW), (''jobs'', RO), (''workgroups'', RW),
      (''secrets'', [''use'']), (''cloud_database'', RWD), (''k8s'', RWD), (''cloud_function'', RWD),
      (''pov'', RWDU), (''pov_own'', RWD), (''pov_templates'', RWD), (''directories'', RWD),
      (''proxmox'', RWD), (''vsphere'', RW), (''hyperv'', RW), (''nutanix'', RWD), (''xcpng'', RW),
      (''connections'', RWD), (''storage'', RWD), (''costs'', RW), (''inventory'', RO), (''agents'', RWD),
      (''audit'', RO), (''gateways'', RWD), (''notifications'', RW), (''epml'', RW), (''ot'', RWD),
      (''change_windows'', [''write'', ''use''])]"

definition RETIRED_LEVELS :: scope_levels where
  "RETIRED_LEVELS =
     [(''vms'', [''delete'', ''use'']), (''aws'', [''use'']), (''azure'', [''use'']), (''gcp'', [''use'']),
      (''oci'', [''use'']), (''images'', [''use'']), (''containers'', [''use'']),
      (''cloud_database'', [''use'']), (''k8s'', [''use'']), (''cloud_function'', [''use'']),
      (''config_mgmt'', [''delete'', ''use'']), (''jobs'', [''write'', ''delete'', ''use'']),
      (''workgroups'', [''delete'', ''use'']), (''secrets'', [''read'', ''write'', ''delete''])]"

definition is_retired :: "string \<Rightarrow> string \<Rightarrow> bool" where
  "is_retired scope level \<longleftrightarrow> level \<in> set (levels_at RETIRED_LEVELS scope)"

definition PERMISSION_SCOPES :: "string list" where
  "PERMISSION_SCOPES = map fst PERMISSION_SCOPE_LEVELS"

definition EXPLICIT_ONLY_LEVELS :: scope_levels where
  "EXPLICIT_ONLY_LEVELS =
     [(''agents'', [''read'', ''write'', ''delete'']), (''audit'', [''read'']),
      (''change_windows'', [''write'', ''use'']), (''connections'', [''read'', ''write'', ''delete'']),
      (''costs'', [''read'', ''write'']), (''directories'', [''read'', ''write'', ''delete'']),
      (''jobs'', [''read'']), (''notifications'', [''read'', ''write'']),
      (''pov_own'', [''read'', ''write'', ''delete'']), (''pov_templates'', [''write'', ''delete''])]"

definition full_access_map :: perms where
  "full_access_map =
     map (\<lambda>(scope, levels).
            (scope, Levels (filter (\<lambda>lv. lv \<notin> set (levels_at EXPLICIT_ONLY_LEVELS scope)) levels)))
         PERMISSION_SCOPE_LEVELS"

definition LEGACY_FULL_ACCESS_KEY :: string where
  "LEGACY_FULL_ACCESS_KEY = ''__legacy_full_access__''"

definition PERMISSION_SCOPE_GROUPS :: scope_levels where
  "PERMISSION_SCOPE_GROUPS =
     [(''Core'', [''vms'', ''jobs'', ''workgroups'', ''inventory'', ''audit'']),
      (''Clouds'', [''aws'', ''azure'', ''gcp'', ''oci'', ''costs'']),
      (''Hypervisors'', [''proxmox'', ''vsphere'', ''hyperv'', ''nutanix'', ''xcpng'', ''connections'']),
      (''Platform'', [''images'', ''containers'', ''k8s'', ''cloud_function'', ''cloud_database'',
                      ''directories'', ''storage'', ''secrets'', ''config_mgmt'']),
      (''POV'', [''pov'', ''pov_own'', ''pov_templates'']),
      (''Operations'', [''gateways'', ''agents'', ''notifications'', ''epml'', ''ot'', ''change_windows''])]"

definition known_groups :: "string list \<Rightarrow> scope_levels \<Rightarrow> scope_levels" where
  "known_groups scopes groups =
     filter (\<lambda>(label, ss). ss \<noteq> []) (map (\<lambda>(label, ss). (label, filter (\<lambda>s. s \<in> set scopes) ss)) groups)"

definition grouped_scopes :: "string list \<Rightarrow> scope_levels \<Rightarrow> scope_levels" where
  "grouped_scopes scopes groups =
     (let out = known_groups scopes groups;
          placed = concat (map snd out);
          orphans = filter (\<lambda>s. s \<notin> set placed) scopes
      in out @ (if orphans \<noteq> [] then [(''Ungrouped'', orphans)] else []))"

definition grouped_permission_scopes :: scope_levels where
  "grouped_permission_scopes = grouped_scopes PERMISSION_SCOPES PERMISSION_SCOPE_GROUPS"

definition levels_for_scope :: "string \<Rightarrow> string list" where
  "levels_for_scope scope = levels_at PERMISSION_SCOPE_LEVELS scope"

text \<open>\<open>validate_permissions_payload\<close>: the refusals answer 422; the result is the payload as edited in place.\<close>

datatype payload_error =
    AdminNotBool
  | UnknownScope string
  | NotAList string
  | UnknownLevel string
  | NotOffered string string

fun check_levels :: "string \<Rightarrow> string list \<Rightarrow> string list \<Rightarrow> payload_error option" where
  "check_levels scope allowed [] = None"
| "check_levels scope allowed (level # levels) =
     (if level \<notin> set PERMISSION_LEVELS then Some (UnknownLevel level)
      else if level \<notin> set allowed then Some (NotOffered scope level)
      else check_levels scope allowed levels)"

definition validate_entry :: "string \<Rightarrow> grant \<Rightarrow> payload_error + grant" where
  "validate_entry scope v =
     (if scope = ''is_admin'' then (case v of Flag b \<Rightarrow> Inr v | _ \<Rightarrow> Inl AdminNotBool)
      else (case map_of PERMISSION_SCOPE_LEVELS scope of
              None \<Rightarrow> Inl (UnknownScope scope)
            | Some allowed \<Rightarrow>
                (case v of
                   Levels levels \<Rightarrow>
                     (let kept = filter (\<lambda>lv. \<not> is_retired scope lv) levels
                      in (case check_levels scope allowed kept of
                            Some e \<Rightarrow> Inl e
                          | None \<Rightarrow> Inr (Levels kept)))
                 | _ \<Rightarrow> Inl (NotAList scope))))"

fun validate_permissions_payload :: "perms \<Rightarrow> payload_error + perms" where
  "validate_permissions_payload [] = Inr []"
| "validate_permissions_payload ((scope, v) # p) =
     (case validate_entry scope v of
        Inl e \<Rightarrow> Inl e
      | Inr v' \<Rightarrow>
          (case validate_permissions_payload p of Inl e \<Rightarrow> Inl e | Inr p' \<Rightarrow> Inr ((scope, v') # p')))"

section \<open>The user\<close>

datatype column = Null | Junk | Held perms

definition column_dict :: "column \<Rightarrow> perms" where
  "column_dict c = (case c of Held p \<Rightarrow> p | _ \<Rightarrow> [])"

definition store_dict :: "perms \<Rightarrow> column" where
  "store_dict p = (if p \<noteq> [] then Held p else Null)"

record principal =
  u_id :: string
  u_username :: string
  u_full_name :: string
  u_email :: string
  u_password :: "string option"
  u_workgroups :: "string list"
  u_is_active :: bool
  u_auth_provider :: string
  u_oauth_subject :: "string option"
  u_is_admin :: bool
  u_permissions :: column
  u_session_permissions :: column
  u_jit_permissions :: column
  u_role_id :: "string option"
  u_role_permissions :: column
  u_accessor_env_id :: "string option"
  u_pov_env_ids :: "string list"
  u_is_service_account :: bool
  u_persona :: "string option"
  u_session_persona :: "string option"
  u_token_scope :: "scope_levels option"

definition effective_permissions_dict :: "principal \<Rightarrow> perms" where
  "effective_permissions_dict u =
     (let baseline = column_dict (u_permissions u);
          session = column_dict (u_session_permissions u);
          jit = column_dict (u_jit_permissions u);
          role = column_dict (u_role_permissions u)
      in if baseline = [] \<and> session = [] \<and> jit = [] \<and> role = []
         then (if or_empty (u_role_id u) \<noteq> [] \<or> u_is_service_account u then ROLE_UNRESOLVED else [])
         else narrow_to_token_scope (merge_permission_maps [role, baseline, session, jit]) (u_token_scope u))"

definition is_effective_admin :: "principal \<Rightarrow> bool" where
  "is_effective_admin u =
     (if u_is_service_account u then False
      else u_is_admin u
           \<or> admin_flag (column_dict (u_session_permissions u))
           \<or> admin_flag (column_dict (u_jit_permissions u))
           \<or> admin_flag (column_dict (u_role_permissions u)))"

text \<open>
  \<open>level in perms.get(scope, [])\<close>. \<open>None\<close> is the \<open>TypeError\<close> of a value that is no container; on a
  string it is the substring test.
\<close>

definition level_in :: "string \<Rightarrow> grant option \<Rightarrow> bool option" where
  "level_in level v =
     (case v of
        None \<Rightarrow> Some False
      | Some (Levels ls) \<Rightarrow> Some (level \<in> set ls)
      | Some (Raw (JStr s)) \<Rightarrow> Some (contains level s)
      | Some (Raw (JObj d)) \<Rightarrow> Some (level \<in> set (map fst d))
      | Some _ \<Rightarrow> None)"

definition has_permission :: "principal \<Rightarrow> string \<Rightarrow> string \<Rightarrow> bool option" where
  "has_permission u scope level =
     (if is_effective_admin u then Some True
      else level_in level (map_of (effective_permissions_dict u) scope))"

definition has_explicit_permission :: "principal \<Rightarrow> string \<Rightarrow> string \<Rightarrow> bool option" where
  "has_explicit_permission u scope level =
     (if is_effective_admin u then Some True
      else level_in level (map_of (effective_permissions_dict u) scope))"

definition can_audit_jobs :: "principal \<Rightarrow> bool option" where
  "can_audit_jobs u =
     (if is_effective_admin u then Some True
      else level_in ''read'' (map_of (effective_permissions_dict u) ''jobs''))"

definition public_permissions :: "principal \<Rightarrow> perms option" where
  "public_permissions u =
     (let p = filter (\<lambda>(k, v). k \<notin> set (map fst ROLE_UNRESOLVED)) (effective_permissions_dict u)
      in if p \<noteq> [] then Some p else None)"

section \<open>What a map grants\<close>

definition grants :: "perms \<Rightarrow> string \<Rightarrow> string \<Rightarrow> bool" where
  "grants p scope level = (case map_of p scope of Some (Levels ls) \<Rightarrow> level \<in> set ls | _ \<Rightarrow> False)"

text \<open>A dict as the validator admits it: a flag under \<open>is_admin\<close>, lists elsewhere.\<close>

definition plain_entry :: "string \<times> grant \<Rightarrow> bool" where
  "plain_entry kv =
     (case kv of (k, v) \<Rightarrow>
        (case v of Flag _ \<Rightarrow> k = ''is_admin'' | Levels _ \<Rightarrow> k \<noteq> ''is_admin'' | Raw _ \<Rightarrow> False))"

definition plain :: "perms \<Rightarrow> bool" where
  "plain p \<longleftrightarrow> distinct (map fst p) \<and> list_all plain_entry p"

lemma plain_Nil [simp]: "plain []" by (simp add: plain_def)

lemma grants_Nil [simp]: "\<not> grants [] s l" by (simp add: grants_def)

lemma admin_flag_Nil [simp]: "\<not> admin_flag []" by (simp add: admin_flag_def)

lemma grants_Cons:
  "grants ((k, v) # p) s l \<longleftrightarrow> (if k = s then (case v of Levels ls \<Rightarrow> l \<in> set ls | _ \<Rightarrow> False) else grants p s l)"
  by (auto simp: grants_def)

lemma grants_iff_entry:
  assumes "distinct (map fst p)"
  shows "grants p s l \<longleftrightarrow> (\<exists>ls. (s, Levels ls) \<in> set p \<and> l \<in> set ls)"
proof -
  have "(s, Levels ls) \<in> set p \<longleftrightarrow> map_of p s = Some (Levels ls)" for ls
    by (simp add: map_of_eq_Some_iff [OF assms])
  then show ?thesis by (auto simp: grants_def split: option.splits grant.splits)
qed

lemma plain_LevelsD: "plain p \<Longrightarrow> (k, Levels ls) \<in> set p \<Longrightarrow> k \<noteq> ''is_admin''"
  by (force simp: plain_def list_all_iff plain_entry_def)

lemma plain_flag:
  assumes "plain p"
  shows "admin_flag p \<longleftrightarrow> (''is_admin'', Flag True) \<in> set p"
proof -
  have "\<exists>b. v = Flag b" if "(''is_admin'', v) \<in> set p" for v
    using assms that by (cases v) (fastforce simp: plain_def list_all_iff plain_entry_def)+
  with assms show ?thesis
    by (fastforce simp: admin_flag_def plain_def map_of_eq_Some_iff map_of_eq_None_iff split: option.splits
        dest: map_of_SomeD)
qed

lemma sorted_set_eq: "sorted_set ls = sorted_list_of_set (set ls)"
  by (simp add: sorted_set_def sorted_list_of_set_sort_remdups)

lemma set_sorted_set [simp]: "set (sorted_set ls) = set ls"
  by (simp add: sorted_set_def)

text \<open>The merge, entry by entry.\<close>

definition offered_by :: "perms \<Rightarrow> string \<Rightarrow> string set" where
  "offered_by kvs s = {l. \<exists>ls. (s, Levels ls) \<in> set kvs \<and> l \<in> set ls}"

lemma finite_offered [simp]: "finite (offered_by kvs s)"
proof -
  have "offered_by kvs s = (\<Union>kv \<in> set kvs. case kv of (k, Levels ls) \<Rightarrow> if k = s then set ls else {} | _ \<Rightarrow> {})"
    by (fastforce simp: offered_by_def split: prod.splits grant.splits if_splits)
  then show ?thesis by (auto split: prod.splits grant.splits)
qed

lemma offered_snoc:
  "offered_by (kvs @ [(k, v)]) s =
     offered_by kvs s \<union> (case v of Levels ls \<Rightarrow> if k = s then set ls else {} | _ \<Rightarrow> {})"
  by (auto simp: offered_by_def split: grant.splits)

lemma merged_entries:
  assumes "list_all plain_entry kvs"
  shows "map_of (foldl merge_entry [] kvs) s =
     (if s \<notin> fst ` set kvs then None
      else if s = ''is_admin'' then Some (Flag ((s, Flag True) \<in> set kvs))
      else Some (Levels (sorted_list_of_set (offered_by kvs s))))"
  using assms
proof (induction kvs arbitrary: s rule: rev_induct)
  case Nil
  then show ?case by simp
next
  case (snoc kv kvs)
  obtain k v where kv: "kv = (k, v)" by (cases kv)
  define out where "out = foldl merge_entry [] kvs"
  have IH: "map_of out s =
     (if s \<notin> fst ` set kvs then None
      else if s = ''is_admin'' then Some (Flag ((s, Flag True) \<in> set kvs))
      else Some (Levels (sorted_list_of_set (offered_by kvs s))))" for s
    using snoc by (simp add: out_def)
  have fresh: "offered_by kvs s = {}" if "s \<notin> fst ` set kvs" for s
    using that by (force simp: offered_by_def)
  have none: "(s, Flag True) \<notin> set kvs" if "s \<notin> fst ` set kvs" for s
    using that by force
  from snoc.prems kv have pe: "plain_entry (k, v)" by simp
  have step: "foldl merge_entry [] (kvs @ [kv]) = merge_entry out (k, v)"
    by (simp add: out_def kv)
  show ?case
  proof (cases v)
    case (Flag b)
    with pe have k: "k = ''is_admin''" by (simp add: plain_entry_def)
    have "admin_flag out \<longleftrightarrow> (''is_admin'', Flag True) \<in> set kvs"
      using IH [of "''is_admin''"] none [of "''is_admin''"] by (auto simp: admin_flag_def)
    then have "merge_entry out (k, v) = AList.update k (Flag ((k, Flag True) \<in> set (kvs @ [kv]))) out"
      using k Flag kv by (auto simp: merge_entry_def)
    then show ?thesis
      using IH [of s] k Flag unfolding step by (auto simp: kv update_conv' offered_snoc)
  next
    case (Levels ls)
    with pe have k: "k \<noteq> ''is_admin''" by (simp add: plain_entry_def)
    have "merge_entry out (k, v) = AList.update k (Levels (sorted_list_of_set (offered_by kvs k \<union> set ls))) out"
      using IH [of k] fresh [of k] k Levels by (auto simp: merge_entry_def sorted_set_eq)
    then show ?thesis
      using IH [of s] k Levels unfolding step
      by (cases "s \<in> fst ` set kvs") (simp_all add: kv update_conv' offered_snoc, auto)
  next
    case (Raw j)
    with pe show ?thesis by (simp add: plain_entry_def)
  qed
qed

lemma map_of_merge:
  assumes "list_all plain maps"
  shows "map_of (merge_permission_maps maps) s =
     (if \<forall>p \<in> set maps. s \<notin> fst ` set p then None
      else if s = ''is_admin'' then Some (Flag (\<exists>p \<in> set maps. admin_flag p))
      else Some (Levels (sorted_list_of_set {l. \<exists>p \<in> set maps. grants p s l})))"
proof -
  have plain: "plain p" if "p \<in> set maps" for p using assms that by (simp add: list_all_iff)
  then have entries: "list_all plain_entry (concat maps)" by (auto simp: list_all_iff plain_def)
  have "offered_by (concat maps) s = {l. \<exists>p \<in> set maps. grants p s l}"
    using plain by (auto simp: offered_by_def plain_def grants_iff_entry)
  moreover have "(''is_admin'', Flag True) \<in> set (concat maps) \<longleftrightarrow> (\<exists>p \<in> set maps. admin_flag p)"
    using plain by (auto simp: plain_flag)
  ultimately show ?thesis
    using merged_entries [OF entries, of s] by (auto simp: merge_permission_maps_def)
qed

lemma finite_granted: "finite {l. grants p s l}"
proof (cases "map_of p s")
  case (Some v)
  then show ?thesis by (cases v) (simp_all add: grants_def)
qed (simp add: grants_def)

lemma merge_grants:
  assumes "list_all plain maps"
  shows "grants (merge_permission_maps maps) s l \<longleftrightarrow> (\<exists>p \<in> set maps. grants p s l)"
proof -
  have fin: "finite {l. \<exists>p \<in> set maps. grants p s l}"
    using finite_granted [of _ s] by simp
  have none: "\<not> grants p s l" if "s \<notin> fst ` set p" for p
    using that by (auto simp: grants_def map_of_eq_None_iff [THEN iffD2])
  have flag: "\<not> grants p ''is_admin'' l" if "p \<in> set maps" for p
    using assms that plain_LevelsD by (force simp: list_all_iff grants_iff_entry plain_def)
  show ?thesis
    unfolding grants_def [of "merge_permission_maps maps"] map_of_merge [OF assms]
    using fin none flag by auto
qed

lemma merge_admin:
  assumes "list_all plain maps"
  shows "admin_flag (merge_permission_maps maps) \<longleftrightarrow> (\<exists>p \<in> set maps. admin_flag p)"
proof -
  have "\<not> admin_flag p" if "''is_admin'' \<notin> fst ` set p" for p
    using that by (auto simp: admin_flag_def map_of_eq_None_iff [THEN iffD2])
  then show ?thesis
    unfolding admin_flag_def [of "merge_permission_maps maps"] map_of_merge [OF assms] by auto
qed

lemma distinct_merge_entry: "distinct (map fst out) \<Longrightarrow> distinct (map fst (merge_entry out kv))"
  by (auto simp: merge_entry_def distinct_update split: prod.splits grant.splits option.splits)

lemma distinct_merge: "distinct (map fst (merge_permission_maps maps))"
proof -
  have "distinct (map fst out) \<Longrightarrow> distinct (map fst (foldl merge_entry out kvs))" for out kvs
    by (induction kvs arbitrary: out) (simp_all add: distinct_merge_entry)
  then show ?thesis by (simp add: merge_permission_maps_def)
qed

lemma plain_iff_map_of:
  assumes "distinct (map fst p)"
  shows "plain p \<longleftrightarrow> (\<forall>k v. map_of p k = Some v \<longrightarrow> plain_entry (k, v))"
  using assms by (auto simp: plain_def list_all_iff map_of_eq_Some_iff)

lemma plain_merge: "list_all plain maps \<Longrightarrow> plain (merge_permission_maps maps)"
  by (auto simp: plain_iff_map_of distinct_merge map_of_merge plain_entry_def)

lemma level_in_plain:
  assumes "plain p" "scope \<noteq> ''is_admin''"
  shows "level_in level (map_of p scope) = Some (grants p scope level)"
proof (cases "map_of p scope")
  case (Some v)
  then have "plain_entry (scope, v)" using assms by (auto simp: plain_def list_all_iff dest: map_of_SomeD)
  with Some assms show ?thesis by (cases v) (simp_all add: plain_entry_def level_in_def grants_def)
qed (simp add: level_in_def grants_def)

text \<open>Narrowing.\<close>

lemma narrow_entry_simps [simp]:
  "narrow_entry ts (k, Flag b) = []"
  "narrow_entry ts (k, Raw j) = []"
  "narrow_entry ts (k, Levels ls) =
     (if k = ''is_admin'' then [] else [(k, Levels (filter (\<lambda>l. l \<in> set (levels_at ts k)) (sort ls)))])"
  by (simp_all add: narrow_entry_def)

lemma map_of_narrow:
  assumes "distinct (map fst p)" "plain p"
  shows "map_of (concat (map (narrow_entry ts) p)) s =
     (case map_of p s of
        Some (Levels ls) \<Rightarrow> Some (Levels (filter (\<lambda>l. l \<in> set (levels_at ts s)) (sort ls)))
      | _ \<Rightarrow> None)"
  using assms
proof (induction p)
  case (Cons kv p)
  obtain k v where kv: "kv = (k, v)" by (cases kv)
  from Cons.prems have "plain p" by (simp add: plain_def)
  with Cons have IH: "map_of (concat (map (narrow_entry ts) p)) s =
     (case map_of p s of
        Some (Levels ls) \<Rightarrow> Some (Levels (filter (\<lambda>l. l \<in> set (levels_at ts s)) (sort ls)))
      | _ \<Rightarrow> None)" by simp
  have absent: "map_of p k = None" using Cons.prems by (simp add: kv map_of_eq_None_iff)
  show ?case
    using Cons.prems IH absent
    by (cases v) (auto simp: kv plain_def plain_entry_def)
qed simp

lemma narrow_grants:
  assumes "plain p"
  shows "grants (narrow_to_token_scope p (Some ts)) s l \<longleftrightarrow> grants p s l \<and> l \<in> set (levels_at ts s)"
proof -
  have d: "distinct (map fst p)" using assms by (simp add: plain_def)
  define out where "out = concat (map (narrow_entry ts) p)"
  have "grants out s l \<longleftrightarrow> grants p s l \<and> l \<in> set (levels_at ts s)"
    unfolding out_def by (auto simp: grants_def map_of_narrow [OF d assms] split: option.splits grant.splits)
  then show ?thesis
    by (cases "out = []")
      (simp_all add: narrow_to_token_scope_def Let_def ROLE_UNRESOLVED_def grants_Cons flip: out_def)
qed

lemma narrow_entry_flat: "kv \<in> set (narrow_entry ts e) \<Longrightarrow> fst kv = fst e \<and> fst kv \<noteq> ''is_admin'' \<and> (\<exists>ls. snd kv = Levels ls)"
  by (auto simp: narrow_entry_def split: prod.splits grant.splits if_splits)

lemma distinct_fst_append:
  "fst ` set ys \<subseteq> fst ` set zs \<Longrightarrow> distinct (map fst xs) \<Longrightarrow> fst ` set xs \<subseteq> {x} \<Longrightarrow> x \<notin> fst ` set zs \<Longrightarrow>
   distinct (map fst zs) \<Longrightarrow> distinct (map fst ys) \<Longrightarrow> distinct (map fst (xs @ ys))"
  by (simp only: map_append distinct_append set_map) blast

lemma plain_narrow:
  assumes "plain p"
  shows "plain (narrow_to_token_scope p ts)"
proof (cases ts)
  case None
  with assms show ?thesis by (simp add: narrow_to_token_scope_def)
next
  case (Some scope)
  have "distinct (map fst p) \<Longrightarrow> distinct (map fst (concat (map (narrow_entry scope) p)))" for p
  proof (induction p)
    case (Cons e p)
    have "fst ` set (concat (map (narrow_entry scope) p)) \<subseteq> fst ` set p"
    proof
      fix k
      assume "k \<in> fst ` set (concat (map (narrow_entry scope) p))"
      then obtain kv e' where "e' \<in> set p" "kv \<in> set (narrow_entry scope e')" "k = fst kv" by auto
      with narrow_entry_flat show "k \<in> fst ` set p" by fastforce
    qed
    moreover have "distinct (map fst (narrow_entry scope e))"
      by (auto simp: narrow_entry_def split: prod.splits grant.splits)
    moreover have "fst ` set (narrow_entry scope e) \<subseteq> {fst e}"
      by (cases e; cases "snd e") auto
    moreover from Cons.prems have "fst e \<notin> fst ` set p" "distinct (map fst p)" by simp_all
    moreover from this Cons.IH have "distinct (map fst (concat (map (narrow_entry scope) p)))" by blast
    ultimately have "distinct (map fst (narrow_entry scope e @ concat (map (narrow_entry scope) p)))"
      by (rule_tac distinct_fst_append)
    then show ?case by (simp only: list.map concat.simps)
  qed simp
  moreover have "list_all plain_entry (concat (map (narrow_entry scope) p))"
    by (auto simp: list_all_iff plain_entry_def narrow_entry_def split: prod.splits grant.splits)
  ultimately have "plain (concat (map (narrow_entry scope) p))"
    using assms by (simp add: plain_def)
  moreover have "plain ROLE_UNRESOLVED" by (simp add: ROLE_UNRESOLVED_def plain_def plain_entry_def)
  ultimately show ?thesis by (simp add: narrow_to_token_scope_def Some Let_def)
qed

section \<open>What a user may do\<close>

definition permission_columns :: "principal \<Rightarrow> column list" where
  "permission_columns u = [u_role_permissions u, u_permissions u, u_session_permissions u, u_jit_permissions u]"

definition plain_user :: "principal \<Rightarrow> bool" where
  "plain_user u \<longleftrightarrow> list_all (\<lambda>c. plain (column_dict c)) (permission_columns u)"

definition in_token_scope :: "principal \<Rightarrow> string \<Rightarrow> string \<Rightarrow> bool" where
  "in_token_scope u scope level =
     (case u_token_scope u of None \<Rightarrow> True | Some ts \<Rightarrow> level \<in> set (levels_at ts scope))"

lemma effective_grants:
  assumes "plain_user u"
  shows "plain (effective_permissions_dict u)"
    and "grants (effective_permissions_dict u) s l \<longleftrightarrow>
         (\<exists>c \<in> set (permission_columns u). grants (column_dict c) s l) \<and> in_token_scope u s l"
proof -
  define maps where "maps = map column_dict (permission_columns u)"
  have pm: "list_all plain maps" using assms by (simp add: maps_def plain_user_def list_all_iff)
  have eff: "effective_permissions_dict u =
      (if \<forall>p \<in> set maps. p = [] then (if or_empty (u_role_id u) \<noteq> [] \<or> u_is_service_account u then ROLE_UNRESOLVED else [])
       else narrow_to_token_scope (merge_permission_maps maps) (u_token_scope u))"
    by (auto simp: effective_permissions_dict_def maps_def permission_columns_def Let_def)
  show "plain (effective_permissions_dict u)"
    unfolding eff using plain_narrow [OF plain_merge [OF pm]]
    by (auto simp: ROLE_UNRESOLVED_def plain_def plain_entry_def)
  have gm: "grants (merge_permission_maps maps) s l \<longleftrightarrow> (\<exists>c \<in> set (permission_columns u). grants (column_dict c) s l)"
    using merge_grants [OF pm] by (simp add: maps_def)
  show "grants (effective_permissions_dict u) s l \<longleftrightarrow>
         (\<exists>c \<in> set (permission_columns u). grants (column_dict c) s l) \<and> in_token_scope u s l"
  proof (cases "\<forall>p \<in> set maps. p = []")
    case True
    then show ?thesis unfolding eff by (auto simp: maps_def ROLE_UNRESOLVED_def grants_Cons)
  next
    case False
    then have "effective_permissions_dict u = narrow_to_token_scope (merge_permission_maps maps) (u_token_scope u)"
      unfolding eff by (simp only: if_False)
    then show ?thesis
      using narrow_grants [OF plain_merge [OF pm]] gm
      by (cases "u_token_scope u") (simp_all add: narrow_to_token_scope_def in_token_scope_def)
  qed
qed

text \<open>
  C33. A user holds a level of a scope exactly when the user is an administrator, or one of the four
  columns (role, own, group, Entitle) grants it and the token's scope, if it has one, admits it. So a
  user to whom no column grants anything is denied everywhere, whether a role is named or not.
\<close>

theorem permission_is_union:
  assumes "plain_user u" "scope \<noteq> ''is_admin''"
  shows "has_permission u scope level =
    Some (is_effective_admin u \<or>
          ((\<exists>c \<in> set (permission_columns u). grants (column_dict c) scope level) \<and> in_token_scope u scope level))"
  using assms by (auto simp: has_permission_def level_in_plain effective_grants)

text \<open>
  The merge of permission maps does not depend on the order of its sources nor on repetitions, and
  it grants exactly what one of them grants; the administrator flag is the disjunction of theirs.
\<close>

theorem merge_is_union:
  assumes "list_all plain maps" "set maps' = set maps"
  shows "map_of (merge_permission_maps maps') = map_of (merge_permission_maps maps)
    \<and> (grants (merge_permission_maps maps) s l \<longleftrightarrow> (\<exists>p \<in> set maps. grants p s l))
    \<and> (admin_flag (merge_permission_maps maps) \<longleftrightarrow> (\<exists>p \<in> set maps. admin_flag p))"
proof -
  have "list_all plain maps'" using assms by (simp add: list_all_iff)
  then have "map_of (merge_permission_maps maps') = map_of (merge_permission_maps maps)"
    using assms by (intro ext) (simp add: map_of_merge)
  with assms show ?thesis by (simp add: merge_grants merge_admin)
qed

text \<open>
  Narrowing by a token's scope never widens, never keeps the administrator flag, and never yields
  the empty map.
\<close>

theorem narrowing_is_intersection:
  assumes "plain p"
  shows "(grants (narrow_to_token_scope p (Some ts)) s l \<longleftrightarrow> grants p s l \<and> l \<in> set (levels_at ts s))
    \<and> \<not> admin_flag (narrow_to_token_scope p (Some ts))
    \<and> narrow_to_token_scope p (Some ts) \<noteq> []"
proof -
  have "\<not> admin_flag (narrow_to_token_scope p (Some ts))"
  proof -
    have "map_of (concat (map (narrow_entry ts) p)) ''is_admin'' = None"
      using narrow_entry_flat by (fastforce simp: map_of_eq_None_iff)
    then show ?thesis
      by (auto simp: narrow_to_token_scope_def Let_def admin_flag_def ROLE_UNRESOLVED_def)
  qed
  moreover have "narrow_to_token_scope p (Some ts) \<noteq> []"
    by (simp add: narrow_to_token_scope_def Let_def ROLE_UNRESOLVED_def)
  ultimately show ?thesis using narrow_grants [OF assms] by blast
qed

section \<open>The catalogue and its validator\<close>

lemma catalogue_checks:
  "list_all (\<lambda>(scope, ls). list_all (\<lambda>l. \<not> is_retired scope l \<and> l \<in> set PERMISSION_LEVELS) ls) PERMISSION_SCOPE_LEVELS"
  "list_all (\<lambda>(scope, ls). list_all (\<lambda>l. l \<in> set (levels_for_scope scope)) ls) EXPLICIT_ONLY_LEVELS"
  "distinct (map fst PERMISSION_SCOPE_LEVELS)" "''is_admin'' \<notin> set (map fst PERMISSION_SCOPE_LEVELS)"
  by code_simp+

lemma levels_at_entry:
  "l \<in> set (levels_at m s) \<Longrightarrow> \<exists>ls. (s, ls) \<in> set m \<and> l \<in> set ls"
  by (cases "map_of m s") (auto simp: levels_at_def dest: map_of_SomeD)

lemma offered_level:
  assumes "l \<in> set (levels_for_scope s)"
  shows "\<not> is_retired s l" "l \<in> set PERMISSION_LEVELS" "s \<in> set PERMISSION_SCOPES"
proof -
  obtain ls where "(s, ls) \<in> set PERMISSION_SCOPE_LEVELS" "l \<in> set ls"
    using levels_at_entry [of l PERMISSION_SCOPE_LEVELS s] assms by (auto simp: levels_for_scope_def)
  then show "\<not> is_retired s l" "l \<in> set PERMISSION_LEVELS" "s \<in> set PERMISSION_SCOPES"
    using catalogue_checks(1) by (force simp: list_all_iff PERMISSION_SCOPES_def)+
qed

lemma check_levels_None:
  "check_levels scope allowed levels = None \<longleftrightarrow> set levels \<subseteq> set PERMISSION_LEVELS \<inter> set allowed"
  by (induction levels) auto

definition entry_ok :: "string \<times> grant \<Rightarrow> bool" where
  "entry_ok kv =
     (case kv of (k, v) \<Rightarrow>
        (case v of
           Flag _ \<Rightarrow> k = ''is_admin''
         | Levels ls \<Rightarrow> k \<in> set PERMISSION_SCOPES \<and> list_all (\<lambda>l. is_retired k l \<or> l \<in> set (levels_for_scope k)) ls
         | Raw _ \<Rightarrow> False))"

definition without_retired :: "string \<times> grant \<Rightarrow> string \<times> grant" where
  "without_retired kv =
     (case kv of
        (k, Levels ls) \<Rightarrow> (k, Levels (filter (\<lambda>lv. \<not> is_retired k lv) ls))
      | _ \<Rightarrow> kv)"

lemma scope_not_admin: "s \<in> set PERMISSION_SCOPES \<Longrightarrow> s \<noteq> ''is_admin''"
  using catalogue_checks(4) unfolding PERMISSION_SCOPES_def by metis

lemma map_of_scopes:
  "map_of PERMISSION_SCOPE_LEVELS k =
     (if k \<in> set PERMISSION_SCOPES then Some (levels_for_scope k) else None)"
  by (auto simp: levels_for_scope_def levels_at_def PERMISSION_SCOPES_def map_of_eq_None_iff
      split: option.splits dest: map_of_SomeD)

lemma validate_entry_exact:
  "validate_entry k v = Inr v' \<longleftrightarrow> entry_ok (k, v) \<and> (k, v') = without_retired (k, v)"
proof (cases "k = ''is_admin''")
  case True
  then show ?thesis
    using scope_not_admin by (cases v) (auto simp: validate_entry_def entry_ok_def without_retired_def)
next
  case False
  show ?thesis
  proof (cases v)
    case (Levels ls)
    have "check_levels k (levels_for_scope k) (filter (\<lambda>lv. \<not> is_retired k lv) ls) = None \<longleftrightarrow>
        list_all (\<lambda>l. is_retired k l \<or> l \<in> set (levels_for_scope k)) ls"
      using offered_level(2) by (auto simp: check_levels_None list_all_iff)
    with False Levels show ?thesis
      by (auto simp: validate_entry_def entry_ok_def without_retired_def map_of_scopes Let_def split: option.splits)
  qed (use False in \<open>simp_all add: validate_entry_def entry_ok_def without_retired_def map_of_scopes\<close>)
qed

lemma validate_exact:
  "validate_permissions_payload p = Inr q \<longleftrightarrow> list_all entry_ok p \<and> q = map without_retired p"
proof (induction p arbitrary: q)
  case (Cons kv p)
  obtain k v where kv: "kv = (k, v)" by (cases kv)
  show ?case
  proof (cases "validate_entry k v")
    case (Inl e)
    moreover have "\<not> entry_ok (k, v)"
      using Inl validate_entry_exact [of k v "snd (without_retired (k, v))"]
      by (auto simp: without_retired_def split: grant.splits)
    ultimately show ?thesis by (simp add: kv)
  next
    case (Inr v')
    then have "entry_ok (k, v)" "(k, v') = without_retired (k, v)" using validate_entry_exact by blast+
    with Inr Cons.IH show ?thesis
      by (cases "validate_permissions_payload p") (auto simp: kv)
  qed
qed auto

lemma map_of_without_retired:
  "map_of (map without_retired p) s =
     map_option (\<lambda>v. snd (without_retired (s, v))) (map_of p s)"
  by (induction p) (auto simp: without_retired_def split: grant.splits)

lemma grants_without_retired:
  "grants (map without_retired p) s l \<longleftrightarrow> grants p s l \<and> \<not> is_retired s l"
  by (auto simp: grants_def map_of_without_retired without_retired_def split: option.splits grant.splits)

lemma admin_without_retired: "list_all entry_ok p \<Longrightarrow> admin_flag (map without_retired p) = admin_flag p"
  by (auto simp: admin_flag_def map_of_without_retired without_retired_def list_all_iff entry_ok_def
      split: option.splits grant.splits dest!: map_of_SomeD scope_not_admin)

lemma entry_ok_plain: "entry_ok kv \<Longrightarrow> plain_entry kv \<and> plain_entry (without_retired kv) \<and> entry_ok (without_retired kv)"
  by (auto simp: entry_ok_def plain_entry_def without_retired_def list_all_iff dest: scope_not_admin
      split: prod.splits grant.splits)

lemma without_retired_idem [simp]: "without_retired (without_retired kv) = without_retired kv"
  by (auto simp: without_retired_def split: prod.splits grant.splits)

lemma keys_without_retired [simp]: "map fst (map without_retired p) = map fst p"
  by (induction p) (auto simp: without_retired_def split: prod.splits grant.splits)

text \<open>
  C34. A permission map is accepted exactly when every entry is the flag, a boolean, or a known scope
  with a list of levels it offers or once offered; what is stored keeps every key and the flag, grants
  what was sent less the retired levels, and hence only what the catalogue offers. Saving it again
  changes nothing.
\<close>

theorem validated_map_is_enforceable:
  assumes "distinct (map fst p)"
  shows "(\<exists>q. validate_permissions_payload p = Inr q) = list_all entry_ok p
    \<and> (validate_permissions_payload p = Inr q \<longrightarrow>
      plain q \<and> map fst q = map fst p \<and> admin_flag q = admin_flag p
      \<and> (grants q s l = (grants p s l \<and> \<not> is_retired s l))
      \<and> (grants q s l \<longrightarrow> l \<in> set (levels_for_scope s))
      \<and> validate_permissions_payload q = Inr q)"
proof (intro conjI impI)
  show "(\<exists>q. validate_permissions_payload p = Inr q) = list_all entry_ok p"
    by (simp add: validate_exact)
next
  assume "validate_permissions_payload p = Inr q"
  then have ok: "list_all entry_ok p" and q: "q = map without_retired p" by (simp_all add: validate_exact)
  then have okq: "list_all entry_ok q" by (auto simp: list_all_iff entry_ok_plain)
  have "plain q"
    using assms ok by (auto simp: q plain_def list_all_iff entry_ok_plain simp flip: map_map)
  moreover have "l \<in> set (levels_for_scope s)" if "grants q s l"
  proof -
    have "grants p s l" and kept: "\<not> is_retired s l" using that by (simp_all add: q grants_without_retired)
    then obtain ls where "(s, Levels ls) \<in> set p" "l \<in> set ls" by (auto simp: grants_iff_entry [OF assms])
    moreover from this ok have "entry_ok (s, Levels ls)" by (auto simp: list_all_iff)
    ultimately show ?thesis using kept by (auto simp: entry_ok_def list_all_iff)
  qed
  moreover have "validate_permissions_payload q = Inr q"
    using okq by (simp add: validate_exact q)
  moreover have "map fst q = map fst p" "admin_flag q = admin_flag p"
    and "grants q s l = (grants p s l \<and> \<not> is_retired s l)"
    using admin_without_retired [OF ok] keys_without_retired [of p] grants_without_retired [of p s l]
    by (simp_all add: q)
  ultimately show "plain q" "map fst q = map fst p" "admin_flag q = admin_flag p"
    "grants q s l = (grants p s l \<and> \<not> is_retired s l)"
    "grants q s l \<Longrightarrow> l \<in> set (levels_for_scope s)"
    "validate_permissions_payload q = Inr q"
    by blast+
qed

text \<open>
  What every offered level is: part of the full-access map, or of the levels that need an explicit
  grant, never both; no retired level is offered, and the groups of the grid hold every scope exactly
  once.
\<close>

theorem catalogue_partition:
  "(l \<in> set (levels_for_scope s) \<longleftrightarrow> grants full_access_map s l \<or> l \<in> set (levels_at EXPLICIT_ONLY_LEVELS s))
   \<and> \<not> (grants full_access_map s l \<and> l \<in> set (levels_at EXPLICIT_ONLY_LEVELS s))
   \<and> \<not> (is_retired s l \<and> l \<in> set (levels_for_scope s))
   \<and> mset (concat (map snd grouped_permission_scopes)) = mset PERMISSION_SCOPES"
proof (intro conjI)
  have "map_of full_access_map s =
      (if s \<in> set PERMISSION_SCOPES
       then Some (Levels (filter (\<lambda>lv. lv \<notin> set (levels_at EXPLICIT_ONLY_LEVELS s)) (levels_for_scope s))) else None)"
  proof -
    have "map_of (map (\<lambda>(k, v). (k, f k v)) xs) s = map_option (f s) (map_of xs s)" for f :: "string \<Rightarrow> string list \<Rightarrow> grant" and xs
      by (induction xs) auto
    then show ?thesis by (simp add: full_access_map_def map_of_scopes)
  qed
  then have full: "grants full_access_map s l \<longleftrightarrow> l \<in> set (levels_for_scope s) \<and> l \<notin> set (levels_at EXPLICIT_ONLY_LEVELS s)"
    using offered_level(3) by (auto simp: grants_def)
  have expl: "l \<in> set (levels_for_scope s)" if "l \<in> set (levels_at EXPLICIT_ONLY_LEVELS s)"
    using levels_at_entry [OF that] catalogue_checks(2) by (auto simp: list_all_iff)
  show "l \<in> set (levels_for_scope s) \<longleftrightarrow> grants full_access_map s l \<or> l \<in> set (levels_at EXPLICIT_ONLY_LEVELS s)"
    using full expl by blast
  show "\<not> (grants full_access_map s l \<and> l \<in> set (levels_at EXPLICIT_ONLY_LEVELS s))"
    using full by blast
  show "\<not> (is_retired s l \<and> l \<in> set (levels_for_scope s))"
    using offered_level(1) by blast
  have "distinct (concat (map snd grouped_permission_scopes)) \<and>
      set (concat (map snd grouped_permission_scopes)) = set PERMISSION_SCOPES \<and> distinct PERMISSION_SCOPES"
    by code_simp
  then show "mset (concat (map snd grouped_permission_scopes)) = mset PERMISSION_SCOPES"
    using set_eq_iff_mset_eq_distinct by blast
qed

text \<open>
  A person to whom nothing was ever granted holds nothing: the empty map is a denial, not, as the
  comments beside the columns still say, everything.
\<close>

theorem empty_map_grants_nothing:
  assumes "column_dict (u_permissions u) = []" "column_dict (u_session_permissions u) = []"
    "column_dict (u_jit_permissions u) = []" "column_dict (u_role_permissions u) = []" "\<not> u_is_admin u"
    "scope \<noteq> ''__role_unresolved__''"
  shows "has_permission u scope level = Some False" "has_explicit_permission u scope level = Some False"
  using assms
  by (auto simp: has_permission_def has_explicit_permission_def is_effective_admin_def effective_permissions_dict_def
      level_in_def ROLE_UNRESOLVED_def)

section \<open>Examples\<close>

definition presenter_map :: perms where
  "presenter_map = [(''pov'', Levels [''use'']), (''vms'', Levels [''read''])]"

definition sam :: principal where
  "sam = \<lparr> u_id = ''u1'', u_username = ''sam'', u_full_name = ''Sam'', u_email = ''sam@x.org'', u_password = None,
     u_workgroups = [], u_is_active = True, u_auth_provider = ''local'', u_oauth_subject = None, u_is_admin = False,
     u_permissions = Held [(''vms'', Levels [''write''])], u_session_permissions = Null,
     u_jit_permissions = Held [(''aws'', Levels [''read''])], u_role_id = Some ''r1'',
     u_role_permissions = Held presenter_map, u_accessor_env_id = None, u_pov_env_ids = [],
     u_is_service_account = False, u_persona = None, u_session_persona = None, u_token_scope = None \<rparr>"

lemma sam_plain: "plain_user sam" by code_simp

theorem permission_is_union_witness:
  "has_permission sam ''vms'' ''read'' = Some True \<and> has_permission sam ''vms'' ''delete'' = Some False"
  using permission_is_union [OF sam_plain, of "''vms''" "''read''"] permission_is_union [OF sam_plain, of "''vms''" "''delete''"]
  by (simp add: sam_def presenter_map_def permission_columns_def grants_def column_dict_def in_token_scope_def
      is_effective_admin_def admin_flag_def)

theorem merge_is_union_witness:
  "map_of (merge_permission_maps [[(''aws'', Levels [''read''])], presenter_map, presenter_map]) =
   map_of (merge_permission_maps [presenter_map, [(''aws'', Levels [''read''])]])
   \<and> grants (merge_permission_maps [presenter_map, [(''aws'', Levels [''read''])]]) ''pov'' ''use''
   \<and> \<not> admin_flag (merge_permission_maps [presenter_map, [(''aws'', Levels [''read''])]])"
proof -
  have p: "list_all plain [presenter_map, [(''aws'', Levels [''read''])]]" by code_simp
  have s: "set [[(''aws'', Levels [''read''])], presenter_map, presenter_map] = set [presenter_map, [(''aws'', Levels [''read''])]]"
    by auto
  show ?thesis
    using merge_is_union [OF p s, of "''pov''" "''use''"]
    by (simp add: presenter_map_def grants_def admin_flag_def)
qed

theorem narrowing_is_intersection_witness:
  "grants (narrow_to_token_scope presenter_map (Some [(''vms'', [''read'', ''write''])])) ''vms'' ''read''
   \<and> \<not> grants (narrow_to_token_scope presenter_map (Some [(''vms'', [''read'', ''write''])])) ''vms'' ''write''
   \<and> narrow_to_token_scope presenter_map (Some [(''vms'', [''read'', ''write''])]) \<noteq> []"
proof -
  have p: "plain presenter_map" by code_simp
  show ?thesis
    using narrowing_is_intersection [OF p, of "[(''vms'', [''read'', ''write''])]" "''vms''" "''read''"]
      narrowing_is_intersection [OF p, of "[(''vms'', [''read'', ''write''])]" "''vms''" "''write''"]
    by (simp add: presenter_map_def grants_def levels_at_def)
qed

theorem validated_map_is_enforceable_witness:
  "validate_permissions_payload [(''secrets'', Levels [''read'', ''use'']), (''is_admin'', Flag False)] =
     Inr [(''secrets'', Levels [''use'']), (''is_admin'', Flag False)]
   \<and> plain [(''secrets'', Levels [''use'']), (''is_admin'', Flag False)]
   \<and> validate_permissions_payload [(''secrets'', Levels [''write'', ''admin''])] = Inl (UnknownLevel ''admin'')
   \<and> \<not> (\<exists>q. validate_permissions_payload [(''secrets'', Levels [''write'', ''admin''])] = Inr q)"
proof -
  have run: "validate_permissions_payload [(''secrets'', Levels [''read'', ''use'']), (''is_admin'', Flag False)] =
     Inr [(''secrets'', Levels [''use'']), (''is_admin'', Flag False)]" by code_simp
  have bad: "validate_permissions_payload [(''secrets'', Levels [''write'', ''admin''])] = Inl (UnknownLevel ''admin'')"
    by code_simp
  have d: "distinct (map fst [(''secrets'', Levels [''read'', ''use'']), (''is_admin'', Flag False)])"
      "distinct (map fst [(''secrets'', Levels [''write'', ''admin''])])" by simp_all
  have no: "\<not> list_all entry_ok [(''secrets'', Levels [''write'', ''admin''])]" by code_simp
  show ?thesis
    using run bad no validated_map_is_enforceable [OF d(1)] validated_map_is_enforceable [OF d(2)] by blast
qed

theorem empty_map_grants_nothing_witness:
  "has_permission (sam\<lparr> u_permissions := Null, u_jit_permissions := Junk, u_role_permissions := Null \<rparr>) ''vms'' ''read'' = Some False"
  by (rule empty_map_grants_nothing(1)) (simp_all add: sam_def column_dict_def)

end
