(* ===== verification/Roles.thy ===== *)
theory Roles
  imports Permissions
begin

text \<open>
  Access roles (\<open>services/role_service.py\<close>; the rows are those of \<open>database/models/access.py\<close>): the
  built-in roles and their seeding, naming, validation, the one writer of a user's role columns, and
  creating, editing, cloning and deleting roles.

  A row id is a parameter of the operation that creates the row. A refused operation leaves the
  database as it was, since its caller never commits. Names are ASCII text.
\<close>

record access_role =
  r_id :: string
  r_slug :: string
  r_name :: string
  r_description :: "string option"
  r_permissions :: column
  r_is_builtin :: bool
  r_updated_at :: instant
  r_created_by :: "string option"

record group_mapping =
  gm_id :: string
  gm_group_id :: string
  gm_display_name :: string
  gm_workgroup :: string
  gm_default_permissions :: column
  gm_role_id :: "string option"
  gm_persona :: "string option"
  gm_persona_priority :: "int option"

record rbac =
  d_roles :: "access_role list"
  d_users :: "principal list"
  d_mappings :: "group_mapping list"

definition role_map :: "access_role \<Rightarrow> perms" where
  "role_map r = column_dict (r_permissions r)"

section \<open>The built-in roles\<close>

definition ADMIN_ROLE_SLUG :: string where "ADMIN_ROLE_SLUG = ''administrator''"

record role_spec =
  sp_slug :: string
  sp_name :: string
  sp_description :: string
  sp_permissions :: perms

definition with_levels :: "string list \<Rightarrow> string list \<Rightarrow> perms" where
  "with_levels levels scopes = map (\<lambda>s. (s, Levels levels)) scopes"

definition operator_map :: perms where
  "operator_map =
     [(''vms'', Levels RW), (''jobs'', Levels RO), (''workgroups'', Levels RO), (''inventory'', Levels RO),
      (''aws'', Levels RW), (''azure'', Levels RW), (''gcp'', Levels RW), (''oci'', Levels RW), (''costs'', Levels RO),
      (''proxmox'', Levels RW), (''vsphere'', Levels RW), (''hyperv'', Levels RW), (''nutanix'', Levels RW), (''xcpng'', Levels RW),
      (''connections'', Levels RW),
      (''images'', Levels RW), (''containers'', Levels RW), (''k8s'', Levels RW),
      (''cloud_function'', Levels RW), (''cloud_database'', Levels RW),
      (''storage'', Levels RW), (''secrets'', Levels [''use'']), (''config_mgmt'', Levels RW),
      (''pov'', Levels [''read'', ''write'', ''use'']), (''pov_templates'', Levels RO),
      (''gateways'', Levels RW), (''agents'', Levels RW), (''notifications'', Levels RW), (''epml'', Levels RW), (''ot'', Levels RW)]"

definition read_only_map :: perms where
  "read_only_map = with_levels RO
     [''vms'', ''jobs'', ''workgroups'', ''inventory'', ''audit'', ''aws'', ''azure'', ''gcp'', ''oci'', ''costs'',
      ''proxmox'', ''vsphere'', ''hyperv'', ''nutanix'', ''xcpng'', ''connections'',
      ''images'', ''containers'', ''k8s'', ''cloud_function'',
      ''cloud_database'', ''directories'', ''storage'', ''config_mgmt'',
      ''pov'', ''pov_own'', ''pov_templates'', ''gateways'', ''agents'', ''notifications'', ''epml'', ''ot'']"

definition pov_presenter_map :: perms where
  "pov_presenter_map =
     [(''pov'', Levels [''use'']), (''pov_templates'', Levels RO), (''pov_own'', Levels [''read'', ''write'', ''delete''])]
     @ with_levels RO [''vms'', ''jobs'', ''inventory'', ''connections'']"

definition BUILTIN_ROLES :: "role_spec list" where
  "BUILTIN_ROLES =
     [\<lparr> sp_slug = ADMIN_ROLE_SLUG, sp_name = ''Administrator'',
        sp_description = ''Full access, including the admin-only pages. The permission grid is not consulted for an administrator.'',
        sp_permissions = [(''is_admin'', Flag True)] \<rparr>,
      \<lparr> sp_slug = ''operator'', sp_name = ''Operator'',
        sp_description = ''Day-to-day operation: deploy, run and use everything, but delete nothing.'',
        sp_permissions = operator_map \<rparr>,
      \<lparr> sp_slug = ''read-only'', sp_name = ''Read-Only'',
        sp_description = ''See everything, change nothing. Every section at its read level.'',
        sp_permissions = read_only_map \<rparr>,
      \<lparr> sp_slug = ''pov-presenter'', sp_name = ''POV Presenter'',
        sp_description = ''Run a proof of value: create POVs, then see, set up, run, share and destroy your own -- created by you or assigned to you -- and tick use cases. Other people's POVs are not visible.'',
        sp_permissions = pov_presenter_map \<rparr>,
      \<lparr> sp_slug = ''pov-manager'', sp_name = ''POV Manager'',
        sp_description = ''Oversee every proof of value: see, set up, run, share, power and destroy any POV, and curate the POV templates.'',
        sp_permissions = [(''pov'', Levels RWDU), (''pov_templates'', Levels RW)] @ with_levels RO [''vms'', ''jobs'', ''inventory'', ''connections''] \<rparr>,
      \<lparr> sp_slug = ''pov-template-builder'', sp_name = ''POV Template Builder'',
        sp_description = ''Author what presenters build from: build and delete POV templates, save and delete blueprints, and maintain the BeyondTrust tenant registry. Does not create POVs.'',
        sp_permissions = [(''pov_templates'', Levels RWD), (''pov_own'', Levels [''read''])] @ with_levels RO [''vms'', ''jobs'', ''inventory'', ''connections''] \<rparr>,
      \<lparr> sp_slug = ''auditor'', sp_name = ''Auditor'',
        sp_description = ''Oversight without change: the audit trail, the job history, and the inventory those jobs produced.'',
        sp_permissions = with_levels RO [''audit'', ''jobs'', ''inventory'', ''vms'', ''agents'', ''workgroups'', ''notifications'', ''costs''] \<rparr>,
      \<lparr> sp_slug = ''cloud-admin'', sp_name = ''Cloud Admin'',
        sp_description = ''Full control of the cloud accounts and what runs in them, without the admin-only pages.'',
        sp_permissions = with_levels RWD [''aws'', ''azure'', ''gcp'', ''oci''] @ [(''costs'', Levels RW), (''vms'', Levels RW), (''images'', Levels RWD)]
          @ with_levels RO [''jobs'', ''inventory'', ''workgroups''] \<rparr>,
      \<lparr> sp_slug = ''dba'', sp_name = ''DBA'',
        sp_description = ''Cloud databases end to end, plus the secrets a database run needs.'',
        sp_permissions = [(''cloud_database'', Levels RWD), (''secrets'', Levels [''use''])] @ with_levels RO [''jobs'', ''connections'', ''inventory''] \<rparr>,
      \<lparr> sp_slug = ''platform-k8s'', sp_name = ''Platform / K8s'',
        sp_description = ''Clusters, containers and functions, plus the images and configuration they are built from.'',
        sp_permissions = with_levels RWD [''k8s'', ''containers'', ''cloud_function'', ''images'', ''storage'']
          @ [(''config_mgmt'', Levels RW)] @ with_levels RO [''jobs'', ''inventory''] \<rparr>]"

definition BUILTIN_SLUGS :: "string list" where
  "BUILTIN_SLUGS = map sp_slug BUILTIN_ROLES"

section \<open>Naming and validation\<close>

datatype role_error =
    InvalidName string
  | NameTaken string
  | NothingToGrant
  | BadMap payload_error
  | AdminFlagOnRole
  | BuiltinFrozen string
  | BuiltinKept string
  | AdministratorNotCloned
  | StillAssigned nat nat

definition slug_char :: "char \<Rightarrow> bool" where
  "slug_char c \<longleftrightarrow> (CHR ''a'' \<le> c \<and> c \<le> CHR ''z'') \<or> (CHR ''0'' \<le> c \<and> c \<le> CHR ''9'')"

text \<open>\<open>re.sub(r"[^a-z0-9]+", "-", s)\<close>; the flag says that the run of other characters goes on.\<close>

fun dashed :: "bool \<Rightarrow> string \<Rightarrow> string" where
  "dashed run [] = []"
| "dashed run (c # s) =
     (if slug_char c then c # dashed False s
      else if run then dashed True s
      else CHR ''-'' # dashed True s)"

definition strip_dashes :: "string \<Rightarrow> string" where
  "strip_dashes s = rev (dropWhile (\<lambda>c. c = CHR ''-'') (rev (dropWhile (\<lambda>c. c = CHR ''-'') s)))"

definition slug_ok :: "string \<Rightarrow> bool" where
  "slug_ok s \<longleftrightarrow> 2 \<le> length s \<and> length s \<le> 64 \<and> slug_char (hd s) \<and> slug_char (last s)
     \<and> list_all (\<lambda>c. slug_char c \<or> c = CHR ''-'') s"

definition slugify :: "string \<Rightarrow> role_error + string" where
  "slugify name =
     (let s = strip_dashes (dashed False (py_lower (py_strip name)))
      in if slug_ok s then Inr s else Inl (InvalidName name))"

definition validate_role_permissions :: "string \<Rightarrow> perms option \<Rightarrow> role_error + perms" where
  "validate_role_permissions slug payload =
     (case payload of
        None \<Rightarrow> Inl NothingToGrant
      | Some p \<Rightarrow>
          if p = [] then Inl NothingToGrant
          else (case validate_permissions_payload p of
                  Inl e \<Rightarrow> Inl (BadMap e)
                | Inr q \<Rightarrow> if admin_flag q \<and> slug \<noteq> ADMIN_ROLE_SLUG then Inl AdminFlagOnRole else Inr q))"

section \<open>Reads\<close>

definition get_role :: "rbac \<Rightarrow> string \<Rightarrow> access_role option" where
  "get_role db rid = (if rid = [] then None else List.find (\<lambda>r. r_id r = rid) (d_roles db))"

definition get_by_slug :: "rbac \<Rightarrow> string \<Rightarrow> access_role option" where
  "get_by_slug db slug = List.find (\<lambda>r. r_slug r = slug) (d_roles db)"

definition list_all_roles :: "rbac \<Rightarrow> access_role list" where
  "list_all_roles db =
     sort_key (\<lambda>r. py_lower (r_name r)) (filter r_is_builtin (d_roles db))
     @ sort_key (\<lambda>r. py_lower (r_name r)) (filter (\<lambda>r. \<not> r_is_builtin r) (d_roles db))"

definition role_users :: "rbac \<Rightarrow> string \<Rightarrow> principal list" where
  "role_users db rid = filter (\<lambda>u. u_role_id u = Some rid) (d_users db)"

definition role_mappings :: "rbac \<Rightarrow> string \<Rightarrow> group_mapping list" where
  "role_mappings db rid = filter (\<lambda>m. gm_role_id m = Some rid) (d_mappings db)"

definition assignees :: "rbac \<Rightarrow> string \<Rightarrow> principal list \<times> group_mapping list" where
  "assignees db rid = (sort_key u_username (role_users db rid), sort_key gm_display_name (role_mappings db rid))"

definition assignee_counts :: "rbac \<Rightarrow> string \<Rightarrow> nat \<times> nat" where
  "assignee_counts db rid = (length (role_users db rid), length (role_mappings db rid))"

section \<open>The single writer\<close>

definition apply_role_to_user :: "access_role option \<Rightarrow> principal \<Rightarrow> principal" where
  "apply_role_to_user role u =
     (case role of
        None \<Rightarrow> u\<lparr> u_role_id := None, u_role_permissions := Null \<rparr>
      | Some r \<Rightarrow> u\<lparr> u_role_id := Some (r_id r), u_role_permissions := store_dict (role_map r) \<rparr>)"

definition fan_out :: "access_role \<Rightarrow> rbac \<Rightarrow> rbac \<times> nat" where
  "fan_out role db =
     (db\<lparr> d_users := tbl_update (\<lambda>u. u_role_id u = Some (r_id role))
                       (\<lambda>u. u\<lparr> u_role_permissions := store_dict (role_map role) \<rparr>) (d_users db) \<rparr>,
      length (role_users db (r_id role)))"

text \<open>Equality of two dicts.\<close>

definition dict_eq :: "perms \<Rightarrow> perms \<Rightarrow> bool" where
  "dict_eq p q \<longleftrightarrow> list_all (\<lambda>k. map_of p k = map_of q k) (map fst p @ map fst q)"

definition reconcile_user :: "rbac \<Rightarrow> principal \<Rightarrow> principal \<times> bool" where
  "reconcile_user db u =
     (case u_role_id u of
        None \<Rightarrow> (u, False)
      | Some rid \<Rightarrow>
          (case get_role db rid of
             None \<Rightarrow> (u\<lparr> u_role_id := None, u_role_permissions := Null \<rparr>, True)
           | Some role \<Rightarrow>
               if \<not> dict_eq (column_dict (u_role_permissions u)) (role_map role)
               then (u\<lparr> u_role_permissions := store_dict (role_map role) \<rparr>, True)
               else (u, False)))"

definition reconcile :: "rbac \<Rightarrow> rbac \<times> nat" where
  "reconcile db =
     (db\<lparr> d_users := map (\<lambda>u. fst (reconcile_user db u)) (d_users db) \<rparr>,
      length (filter (\<lambda>u. snd (reconcile_user db u)) (d_users db)))"

section \<open>Writes\<close>

definition create_role ::
  "instant \<Rightarrow> string \<Rightarrow> string \<Rightarrow> string option \<Rightarrow> perms option \<Rightarrow> string option \<Rightarrow> rbac \<Rightarrow>
   role_error + (rbac \<times> access_role)" where
  "create_role now new_id name description permissions created_by db =
     (case slugify name of
        Inl e \<Rightarrow> Inl e
      | Inr slug \<Rightarrow>
          if get_by_slug db slug \<noteq> None then Inl (NameTaken name)
          else (case validate_role_permissions slug permissions of
                  Inl e \<Rightarrow> Inl e
                | Inr p \<Rightarrow>
                    (let role = \<lparr> r_id = new_id, r_slug = slug, r_name = py_strip name,
                                  r_description = or_none (Some (py_strip (or_empty description))),
                                  r_permissions = store_dict p, r_is_builtin = False,
                                  r_updated_at = now, r_created_by = created_by \<rparr>
                     in Inr (db\<lparr> d_roles := d_roles db @ [role] \<rparr>, role))))"

definition write_role :: "access_role \<Rightarrow> rbac \<Rightarrow> rbac" where
  "write_role role db = db\<lparr> d_roles := tbl_update (\<lambda>r. r_id r = r_id role) (\<lambda>_. role) (d_roles db) \<rparr>"

definition rename_role :: "rbac \<Rightarrow> string option \<Rightarrow> access_role \<Rightarrow> role_error + access_role" where
  "rename_role db name role =
     (case name of
        None \<Rightarrow> Inr role
      | Some n \<Rightarrow>
          (case slugify n of
             Inl e \<Rightarrow> Inl e
           | Inr slug \<Rightarrow>
               (case get_by_slug db slug of
                  Some clash \<Rightarrow> if r_id clash \<noteq> r_id role then Inl (NameTaken n)
                                else Inr (role\<lparr> r_slug := slug, r_name := py_strip n \<rparr>)
                | None \<Rightarrow> Inr (role\<lparr> r_slug := slug, r_name := py_strip n \<rparr>))))"

text \<open>The result holds the number of users the edit was fanned out to.\<close>

definition update_role ::
  "instant \<Rightarrow> access_role \<Rightarrow> string option \<Rightarrow> string option \<Rightarrow> perms option \<Rightarrow> rbac \<Rightarrow> role_error + (rbac \<times> nat)" where
  "update_role now role name description permissions db =
     (if r_is_builtin role then Inl (BuiltinFrozen (r_name role))
      else (case rename_role db name role of
              Inl e \<Rightarrow> Inl e
            | Inr named \<Rightarrow>
                (let described = (case description of
                       None \<Rightarrow> named
                     | Some d \<Rightarrow> named\<lparr> r_description := or_none (Some (py_strip d)) \<rparr>)
                 in (case permissions of
                       None \<Rightarrow> Inr (write_role (described\<lparr> r_updated_at := now \<rparr>) db, 0)
                     | Some p \<Rightarrow>
                         (case validate_role_permissions (r_slug described) permissions of
                            Inl e \<Rightarrow> Inl e
                          | Inr q \<Rightarrow>
                              (let edited = described\<lparr> r_permissions := store_dict q, r_updated_at := now \<rparr>
                               in Inr (fan_out edited (write_role edited db))))))))"

definition clone_role ::
  "instant \<Rightarrow> string \<Rightarrow> access_role \<Rightarrow> string \<Rightarrow> string option \<Rightarrow> string option \<Rightarrow> rbac \<Rightarrow>
   role_error + (rbac \<times> access_role)" where
  "clone_role now new_id role name description created_by db =
     (if r_slug role = ADMIN_ROLE_SLUG then Inl AdministratorNotCloned
      else create_role now new_id name description (Some (role_map role)) created_by db)"

definition cleared_user :: "string \<Rightarrow> principal \<Rightarrow> principal" where
  "cleared_user rid u = (if u_role_id u = Some rid then u\<lparr> u_role_id := None, u_role_permissions := Null \<rparr> else u)"

definition cleared_mapping :: "string \<Rightarrow> group_mapping \<Rightarrow> group_mapping" where
  "cleared_mapping rid m = (if gm_role_id m = Some rid then m\<lparr> gm_role_id := None \<rparr> else m)"

definition delete_role :: "access_role \<Rightarrow> bool \<Rightarrow> rbac \<Rightarrow> role_error + (rbac \<times> nat \<times> nat)" where
  "delete_role role force db =
     (if r_is_builtin role then Inl (BuiltinKept (r_name role))
      else (case assignee_counts db (r_id role) of
              (users, mappings) \<Rightarrow>
                if (users \<noteq> 0 \<or> mappings \<noteq> 0) \<and> \<not> force then Inl (StillAssigned users mappings)
                else Inr (\<lparr> d_roles = filter (\<lambda>r. r_id r \<noteq> r_id role) (d_roles db),
                            d_users = map (cleared_user (r_id role)) (d_users db),
                            d_mappings = map (cleared_mapping (r_id role)) (d_mappings db) \<rparr>, users, mappings)))"

section \<open>Seeding\<close>

text \<open>\<open>seen\<close> is the roles this process read, \<open>db\<close> the database when it commits.\<close>

definition seeded_row :: "instant \<Rightarrow> (string \<Rightarrow> string) \<Rightarrow> role_spec \<Rightarrow> access_role" where
  "seeded_row now new_id spec =
     \<lparr> r_id = new_id (sp_slug spec), r_slug = sp_slug spec, r_name = sp_name spec,
       r_description = Some (sp_description spec), r_permissions = store_dict (sp_permissions spec),
       r_is_builtin = True, r_updated_at = now, r_created_by = None \<rparr>"

definition missing_builtins :: "rbac \<Rightarrow> role_spec list" where
  "missing_builtins seen = filter (\<lambda>spec. get_by_slug seen (sp_slug spec) = None) BUILTIN_ROLES"

definition refreshed :: "access_role \<Rightarrow> access_role" where
  "refreshed r =
     (case List.find (\<lambda>spec. sp_slug spec = r_slug r) BUILTIN_ROLES of
        Some spec \<Rightarrow> if r_is_builtin r then r\<lparr> r_name := sp_name spec, r_description := Some (sp_description spec) \<rparr> else r
      | None \<Rightarrow> r)"

definition insert_builtins :: "instant \<Rightarrow> (string \<Rightarrow> string) \<Rightarrow> rbac \<Rightarrow> rbac \<Rightarrow> rbac option" where
  "insert_builtins now new_id seen db =
     (if list_ex (\<lambda>spec. get_by_slug db (sp_slug spec) \<noteq> None) (missing_builtins seen) then None
      else Some (db\<lparr> d_roles := map refreshed (d_roles db) @ map (seeded_row now new_id) (missing_builtins seen) \<rparr>))"

text \<open>\<open>None\<close> is the \<open>IntegrityError\<close> raised again.\<close>

definition seed_builtins :: "instant \<Rightarrow> (string \<Rightarrow> string) \<Rightarrow> rbac \<Rightarrow> rbac \<Rightarrow> (rbac \<times> nat) option" where
  "seed_builtins now new_id seen db =
     (case insert_builtins now new_id seen db of
        Some db' \<Rightarrow> Some (db', length (missing_builtins seen))
      | None \<Rightarrow>
          if list_all (\<lambda>slug. get_by_slug db slug \<noteq> None) BUILTIN_SLUGS then Some (db, 0) else None)"

section \<open>What the roles keep\<close>

definition role_ok :: "access_role \<Rightarrow> bool" where
  "role_ok r \<longleftrightarrow> r_id r \<noteq> [] \<and> plain (role_map r) \<and> role_map r \<noteq> []
     \<and> (admin_flag (role_map r) \<longrightarrow> r_is_builtin r \<and> r_slug r = ADMIN_ROLE_SLUG)
     \<and> (r_is_builtin r \<longrightarrow> list_ex (\<lambda>spec. sp_slug spec = r_slug r \<and> sp_permissions spec = role_map r) BUILTIN_ROLES)"

definition roles_ok :: "access_role list \<Rightarrow> bool" where
  "roles_ok rs \<longleftrightarrow> distinct (map r_id rs) \<and> distinct (map r_slug rs) \<and> list_all role_ok rs
     \<and> list_ex (\<lambda>r. r_slug r = ADMIN_ROLE_SLUG \<and> r_is_builtin r) rs"

definition copy_ok :: "access_role list \<Rightarrow> principal \<Rightarrow> bool" where
  "copy_ok rs u =
     (case u_role_id u of
        None \<Rightarrow> u_role_permissions u = Null
      | Some rid \<Rightarrow> list_ex (\<lambda>r. r_id r = rid \<and> u_role_permissions u = store_dict (role_map r)) rs)"

definition mapping_ok :: "access_role list \<Rightarrow> group_mapping \<Rightarrow> bool" where
  "mapping_ok rs m = (case gm_role_id m of None \<Rightarrow> True | Some rid \<Rightarrow> rid \<in> set (map r_id rs))"

definition rbac_ok :: "rbac \<Rightarrow> bool" where
  "rbac_ok db \<longleftrightarrow> roles_ok (d_roles db) \<and> list_all (copy_ok (d_roles db)) (d_users db)
     \<and> list_all (mapping_ok (d_roles db)) (d_mappings db)"

lemma store_dict_simps [simp]: "column_dict (store_dict p) = p"
  by (simp add: store_dict_def column_dict_def)

lemma role_map_simps [simp]:
  "role_map (r\<lparr> r_permissions := store_dict p \<rparr>) = p"
  "role_map (r\<lparr> r_slug := a \<rparr>) = role_map r"
  "role_map (r\<lparr> r_name := a \<rparr>) = role_map r"
  "role_map (r\<lparr> r_description := d \<rparr>) = role_map r"
  "role_map (r\<lparr> r_updated_at := t \<rparr>) = role_map r"
  by (simp_all add: role_map_def)

lemma get_role_iff:
  assumes "distinct (map r_id (d_roles db))" "list_all role_ok (d_roles db)"
  shows "get_role db rid = Some r \<longleftrightarrow> r \<in> set (d_roles db) \<and> r_id r = rid"
proof
  assume "get_role db rid = Some r"
  then show "r \<in> set (d_roles db) \<and> r_id r = rid"
    using find_Some_set by (fastforce simp: get_role_def split: if_splits)
next
  assume r: "r \<in> set (d_roles db) \<and> r_id r = rid"
  with assms(2) have "rid \<noteq> []" by (auto simp: list_all_iff role_ok_def)
  with r find_key_unique [OF assms(1)] show "get_role db rid = Some r" by (auto simp: get_role_def)
qed

lemma get_by_slug_None: "get_by_slug db slug = None \<longleftrightarrow> slug \<notin> r_slug ` set (d_roles db)"
  by (auto simp: get_by_slug_def find_None_iff)

lemma get_by_slug_Some: "get_by_slug db slug = Some r \<Longrightarrow> r \<in> set (d_roles db) \<and> r_slug r = slug"
  using find_Some_set by (fastforce simp: get_by_slug_def)

lemma validated_role_map:
  assumes "validate_role_permissions slug permissions = Inr q" "case permissions of None \<Rightarrow> True | Some p \<Rightarrow> distinct (map fst p)"
  shows "plain q \<and> q \<noteq> [] \<and> (admin_flag q \<longrightarrow> slug = ADMIN_ROLE_SLUG)"
proof -
  from assms obtain p where p: "permissions = Some p" "p \<noteq> []" "validate_permissions_payload p = Inr q" "distinct (map fst p)"
    and flag: "admin_flag q \<longrightarrow> slug = ADMIN_ROLE_SLUG"
    by (auto simp: validate_role_permissions_def split: option.splits if_splits sum.splits)
  then have "plain q" "map fst q = map fst p"
    using validate_exact [of p q] keys_without_retired [of p]
    by (auto simp: plain_def list_all_iff entry_ok_plain simp del: map_map)
  with p flag show ?thesis by auto
qed

lemma admin_slug_taken:
  assumes "roles_ok rs" "r \<in> set rs" "\<not> r_is_builtin r"
  shows "r_slug r \<noteq> ADMIN_ROLE_SLUG"
proof
  assume "r_slug r = ADMIN_ROLE_SLUG"
  moreover obtain a where "a \<in> set rs" "r_slug a = ADMIN_ROLE_SLUG" "r_is_builtin a"
    using assms by (auto simp: roles_ok_def list_ex_iff)
  ultimately have "a = r"
    using assms by (auto simp: roles_ok_def distinct_map inj_on_def)
  with \<open>r_is_builtin a\<close> assms show False by simp
qed

text \<open>Adding, replacing and removing a custom role.\<close>

lemma roles_ok_append:
  assumes "roles_ok rs" "r_id r \<notin> r_id ` set rs" "r_slug r \<notin> r_slug ` set rs" "role_ok r"
  shows "roles_ok (rs @ [r])"
  using assms by (auto simp: roles_ok_def)

lemma copy_ok_mono: "copy_ok rs u \<Longrightarrow> set rs \<subseteq> set rs' \<Longrightarrow> copy_ok rs' u"
  by (auto simp: copy_ok_def list_ex_iff split: option.splits)

lemma mapping_ok_mono: "mapping_ok rs m \<Longrightarrow> set (map r_id rs) \<subseteq> set (map r_id rs') \<Longrightarrow> mapping_ok rs' m"
  by (auto simp: mapping_ok_def split: option.splits)

lemma map_key_tbl_update:
  "(\<And>x. x \<in> set xs \<Longrightarrow> p x \<Longrightarrow> k (f x) = k x) \<Longrightarrow> map k (tbl_update p f xs) = map k xs"
  by (induction xs) (auto simp: tbl_update_def)

lemma replaced_split:
  assumes "distinct (map i (as @ x # bs))" "i y = i x"
  shows "tbl_update (\<lambda>z. i z = i y) (\<lambda>_. y) (as @ x # bs) = as @ y # bs"
proof -
  have "map (\<lambda>z. if i z = i y then y else z) zs = zs" if "i x \<notin> i ` set zs" for zs
    using that assms(2) by (induction zs) auto
  with assms show ?thesis by (simp add: tbl_update_def)
qed

lemma distinct_replaced:
  assumes "distinct (map k xs)" "distinct (map i xs)" "x \<in> set xs" "i y = i x" "k y \<notin> k ` (set xs - {x})"
  shows "distinct (map k (tbl_update (\<lambda>z. i z = i y) (\<lambda>_. y) xs))"
proof -
  obtain as bs where xs: "xs = as @ x # bs" using assms(3) by (meson split_list)
  with assms(2) have "x \<notin> set as" "x \<notin> set bs" by auto
  then have "k y \<notin> k ` set as" "k y \<notin> k ` set bs" using assms(5) unfolding xs by auto
  moreover have "tbl_update (\<lambda>z. i z = i y) (\<lambda>_. y) xs = as @ y # bs"
    unfolding xs using assms(2,4) by (intro replaced_split) (simp_all add: xs)
  ultimately show ?thesis using assms(1) by (simp add: xs)
qed

lemma roles_ok_replaced:
  assumes ok: "roles_ok rs" and r: "r \<in> set rs" "\<not> r_is_builtin r"
    and r': "r_id r' = r_id r" "\<not> r_is_builtin r'" "r_slug r' \<notin> r_slug ` (set rs - {r})"
      "plain (role_map r')" "role_map r' \<noteq> []" "\<not> admin_flag (role_map r')"
  shows "roles_ok (tbl_update (\<lambda>x. r_id x = r_id r') (\<lambda>_. r') rs)"
proof -
  let ?rs = "tbl_update (\<lambda>x. r_id x = r_id r') (\<lambda>_. r') rs"
  have ids: "distinct (map r_id rs)" using ok by (simp add: roles_ok_def)
  have "map r_id ?rs = map r_id rs" using r' by (intro map_key_tbl_update) auto
  moreover have "distinct (map r_slug ?rs)"
    using ok r r' by (intro distinct_replaced [where x = r]) (auto simp: roles_ok_def)
  moreover have "list_all role_ok ?rs"
    using ok r r' by (auto simp: roles_ok_def list_all_iff tbl_update_def role_ok_def)
  moreover have "list_ex (\<lambda>r. r_slug r = ADMIN_ROLE_SLUG \<and> r_is_builtin r) ?rs"
  proof -
    obtain a where a: "a \<in> set rs" "r_slug a = ADMIN_ROLE_SLUG" "r_is_builtin a"
      using ok by (auto simp: roles_ok_def list_ex_iff)
    with r have "r_id a \<noteq> r_id r'" using ids r' by (auto simp: distinct_map inj_on_def)
    with a show ?thesis by (force simp: list_ex_iff tbl_update_def)
  qed
  ultimately show ?thesis using ids by (simp add: roles_ok_def)
qed

section \<open>Every operation keeps them\<close>

lemma slugify_ok: "slugify name = Inr slug \<Longrightarrow> slug_ok slug"
  by (auto simp: slugify_def Let_def split: if_splits)

lemma create_role_ok:
  assumes ok: "rbac_ok db" and run: "create_role now nid name d p by_user db = Inr (db', role)"
    and fresh: "nid \<noteq> []" "nid \<notin> r_id ` set (d_roles db)"
    and dict: "case p of None \<Rightarrow> True | Some p \<Rightarrow> distinct (map fst p)"
  shows "rbac_ok db'"
proof -
  obtain slug q where slug: "get_by_slug db slug = None" and q: "validate_role_permissions slug p = Inr q"
    and role: "r_id role = nid" "r_slug role = slug" "r_permissions role = store_dict q" "\<not> r_is_builtin role"
    and db': "db' = db\<lparr> d_roles := d_roles db @ [role] \<rparr>"
    using run by (auto simp: create_role_def Let_def split: sum.splits if_splits)
  have m: "role_map role = q" using role by (simp add: role_map_def)
  have slug_new: "slug \<notin> r_slug ` set (d_roles db)" using slug by (simp add: get_by_slug_None)
  have "slug \<noteq> ADMIN_ROLE_SLUG"
    using ok slug_new by (force simp: rbac_ok_def roles_ok_def list_ex_iff)
  with validated_role_map [OF q dict] have "role_ok role"
    using role m fresh by (simp add: role_ok_def)
  then have "roles_ok (d_roles db @ [role])"
    using ok slug_new fresh role by (intro roles_ok_append) (simp_all add: rbac_ok_def)
  moreover have "copy_ok (d_roles db @ [role]) u" if "u \<in> set (d_users db)" for u
    using ok that copy_ok_mono [of "d_roles db" u "d_roles db @ [role]"] by (auto simp: rbac_ok_def list_all_iff)
  moreover have "mapping_ok (d_roles db @ [role]) m" if "m \<in> set (d_mappings db)" for m
    using ok that mapping_ok_mono [of "d_roles db" m "d_roles db @ [role]"] by (auto simp: rbac_ok_def list_all_iff)
  ultimately show ?thesis by (simp add: rbac_ok_def db' list_all_iff)
qed

lemma clone_role_ok:
  assumes "rbac_ok db" "clone_role now nid role name d by_user db = Inr (db', role')" "role \<in> set (d_roles db)"
    "nid \<noteq> []" "nid \<notin> r_id ` set (d_roles db)"
  shows "rbac_ok db'"
proof (rule create_role_ok)
  show "create_role now nid name d (Some (role_map role)) by_user db = Inr (db', role')"
    using assms by (auto simp: clone_role_def split: if_splits)
  show "case Some (role_map role) of None \<Rightarrow> True | Some p \<Rightarrow> distinct (map fst p)"
    using assms by (auto simp: rbac_ok_def roles_ok_def list_all_iff role_ok_def plain_def)
qed (use assms in auto)

lemma rename_role_keeps:
  assumes "rename_role db name role = Inr named" "role \<in> set (d_roles db)"
    and ids: "distinct (map r_slug (d_roles db))" "distinct (map r_id (d_roles db))"
  shows "r_id named = r_id role" "r_is_builtin named = r_is_builtin role" "role_map named = role_map role"
    and "r_slug named \<notin> r_slug ` (set (d_roles db) - {role})"
proof -
  from assms(1) show "r_id named = r_id role" "r_is_builtin named = r_is_builtin role" "role_map named = role_map role"
    by (auto simp: rename_role_def role_map_def split: option.splits sum.splits if_splits)
  show "r_slug named \<notin> r_slug ` (set (d_roles db) - {role})"
  proof
    assume "r_slug named \<in> r_slug ` (set (d_roles db) - {role})"
    then obtain other where other: "other \<in> set (d_roles db)" "other \<noteq> role" "r_slug other = r_slug named" by fastforce
    have "r_slug named \<noteq> r_slug role"
      using other assms(2) ids by (auto simp: distinct_map inj_on_def)
    with assms(1) have free: "get_by_slug db (r_slug named) = None \<or> (\<exists>c. get_by_slug db (r_slug named) = Some c \<and> r_id c = r_id role)"
      by (auto simp: rename_role_def split: option.splits sum.splits if_splits)
    from other have "r_slug named \<in> r_slug ` set (d_roles db)" by (metis imageI)
    then obtain c where c: "get_by_slug db (r_slug named) = Some c" "r_id c = r_id role"
      using free by (auto simp: get_by_slug_None)
    have "c = other"
      using get_by_slug_Some [OF c(1)] other ids by (auto simp: distinct_map inj_on_def)
    then show False using c(2) other assms(2) ids by (auto simp: distinct_map inj_on_def)
  qed
qed

lemma copies_after_write:
  assumes "distinct (map r_id rs)" "role \<in> set rs" "r_id e = r_id role" "copy_ok rs u"
  shows "copy_ok (tbl_update (\<lambda>r. r_id r = r_id e) (\<lambda>_. e) rs)
           (if u_role_id u = Some (r_id e) then u\<lparr> u_role_permissions := store_dict (role_map e) \<rparr> else u)"
  using assms by (auto simp: copy_ok_def list_ex_iff set_tbl_update split: option.splits)

lemma copy_of_role:
  assumes "distinct (map r_id rs)" "role \<in> set rs" "copy_ok rs u" "u_role_id u = Some (r_id role)"
  shows "u_role_permissions u = store_dict (role_map role)"
proof -
  obtain r where "r \<in> set rs" "r_id r = r_id role" "u_role_permissions u = store_dict (role_map r)"
    using assms by (auto simp: copy_ok_def list_ex_iff)
  then show ?thesis using assms by (auto simp: distinct_map inj_on_def)
qed

lemma mapping_after_write:
  "r_id e \<in> r_id ` set rs \<Longrightarrow> mapping_ok rs m \<Longrightarrow> mapping_ok (tbl_update (\<lambda>r. r_id r = r_id e) (\<lambda>_. e) rs) m"
  by (rule mapping_ok_mono) (auto simp: set_tbl_update)

lemma update_role_ok:
  assumes ok: "rbac_ok db" and role: "role \<in> set (d_roles db)"
    and run: "update_role now role name description p db = Inr (db', n)"
    and dict: "case p of None \<Rightarrow> True | Some p \<Rightarrow> distinct (map fst p)"
  shows "rbac_ok db'"
proof -
  have rs: "roles_ok (d_roles db)" using ok by (simp add: rbac_ok_def)
  then have ids: "distinct (map r_id (d_roles db))" and slugs: "distinct (map r_slug (d_roles db))"
    by (simp_all add: roles_ok_def)
  have nb: "\<not> r_is_builtin role" using run by (auto simp: update_role_def split: if_splits)
  then obtain named where named: "rename_role db name role = Inr named"
    using run by (auto simp: update_role_def split: sum.splits)
  define described where "described = (case description of None \<Rightarrow> named | Some d \<Rightarrow> named\<lparr> r_description := or_none (Some (py_strip d)) \<rparr>)"
  note kept = rename_role_keeps [OF named role slugs ids]
  have desc: "r_id described = r_id role" "\<not> r_is_builtin described" "role_map described = role_map role"
    "r_slug described \<notin> r_slug ` (set (d_roles db) - {role})"
    using kept nb by (auto simp: described_def split: option.splits)
  have "r_slug described \<noteq> ADMIN_ROLE_SLUG"
  proof
    assume "r_slug described = ADMIN_ROLE_SLUG"
    moreover obtain a where "a \<in> set (d_roles db)" "r_slug a = ADMIN_ROLE_SLUG" "r_is_builtin a"
      using rs by (auto simp: roles_ok_def list_ex_iff)
    ultimately show False using desc nb by (metis DiffI imageI singletonD)
  qed
  have mappings_kept: "list_all (mapping_ok (tbl_update (\<lambda>x. r_id x = r_id e) (\<lambda>_. e) (d_roles db))) (d_mappings db)"
    if "r_id e = r_id role" for e
    using ok role that mapping_after_write [of e "d_roles db"] by (simp add: rbac_ok_def list_all_iff image_iff) metis
  have role_ok: "role_ok role" using rs role by (auto simp: roles_ok_def list_all_iff)
  show ?thesis
  proof (cases p)
    case None
    define e where "e = described\<lparr> r_updated_at := now \<rparr>"
    have e: "r_id e = r_id role" "\<not> r_is_builtin e" "role_map e = role_map role" "r_slug e = r_slug described"
      using desc by (simp_all add: e_def)
    have db': "db' = write_role e db"
      using run None nb named by (simp add: update_role_def described_def e_def)
    have "roles_ok (tbl_update (\<lambda>x. r_id x = r_id e) (\<lambda>_. e) (d_roles db))"
      using rs role nb e desc role_ok by (intro roles_ok_replaced) (auto simp: role_ok_def)
    moreover have "copy_ok (tbl_update (\<lambda>x. r_id x = r_id e) (\<lambda>_. e) (d_roles db)) u" if u: "u \<in> set (d_users db)" for u
    proof -
      have c: "copy_ok (d_roles db) u" using ok u by (simp add: rbac_ok_def list_all_iff)
      have "(if u_role_id u = Some (r_id e) then u\<lparr> u_role_permissions := store_dict (role_map e) \<rparr> else u) = u"
        using copy_of_role [OF ids role c] e by auto
      then show ?thesis using copies_after_write [OF ids role e(1) c] by simp
    qed
    moreover note mappings_kept [OF e(1)]
    ultimately show ?thesis by (simp add: rbac_ok_def db' write_role_def list_all_iff)
  next
    case (Some perms)
    obtain q where q: "validate_role_permissions (r_slug described) p = Inr q"
      and db'': "(db', n) = fan_out (described\<lparr> r_permissions := store_dict q, r_updated_at := now \<rparr>)
        (write_role (described\<lparr> r_permissions := store_dict q, r_updated_at := now \<rparr>) db)"
      using run Some nb named by (auto simp: update_role_def described_def [symmetric] Let_def split: sum.splits)
    define e where "e = described\<lparr> r_permissions := store_dict q, r_updated_at := now \<rparr>"
    have e: "r_id e = r_id role" "\<not> r_is_builtin e" "role_map e = q" "r_slug e = r_slug described"
      using desc by (simp_all add: e_def role_map_def)
    note vq = validated_role_map [OF q dict]
    have "roles_ok (tbl_update (\<lambda>x. r_id x = r_id e) (\<lambda>_. e) (d_roles db))"
      using rs role nb e desc vq \<open>r_slug described \<noteq> ADMIN_ROLE_SLUG\<close> by (intro roles_ok_replaced) auto
    moreover have "list_all (\<lambda>u. copy_ok (tbl_update (\<lambda>x. r_id x = r_id e) (\<lambda>_. e) (d_roles db))
        (if u_role_id u = Some (r_id e) then u\<lparr> u_role_permissions := store_dict (role_map e) \<rparr> else u)) (d_users db)"
      using ok copies_after_write [OF ids role e(1)] unfolding list_all_iff rbac_ok_def by blast
    moreover have "db' = db\<lparr> d_roles := tbl_update (\<lambda>x. r_id x = r_id e) (\<lambda>_. e) (d_roles db),
        d_users := tbl_update (\<lambda>u. u_role_id u = Some (r_id e)) (\<lambda>u. u\<lparr> u_role_permissions := store_dict (role_map e) \<rparr>) (d_users db) \<rparr>"
      using db'' by (simp add: fan_out_def write_role_def e_def)
    moreover note mappings_kept [OF e(1)]
    ultimately show ?thesis
      by (simp add: rbac_ok_def tbl_update_def [of _ _ "d_users db"] list.pred_map o_def)
  qed
qed

lemma delete_role_ok:
  assumes ok: "rbac_ok db" and role: "role \<in> set (d_roles db)" and run: "delete_role role force db = Inr (db', n, m)"
  shows "rbac_ok db'"
proof -
  have nb: "\<not> r_is_builtin role" using run by (auto simp: delete_role_def split: if_splits)
  have db': "db' = \<lparr> d_roles = filter (\<lambda>r. r_id r \<noteq> r_id role) (d_roles db),
                            d_users = map (cleared_user (r_id role)) (d_users db),
                            d_mappings = map (cleared_mapping (r_id role)) (d_mappings db) \<rparr>"
    using run by (auto simp: delete_role_def split: if_splits prod.splits)
  have rs: "roles_ok (d_roles db)" using ok by (simp add: rbac_ok_def)
  obtain a where a: "a \<in> set (d_roles db)" "r_slug a = ADMIN_ROLE_SLUG" "r_is_builtin a"
    using rs by (auto simp: roles_ok_def list_ex_iff)
  have "r_id a \<noteq> r_id role" using a nb rs role by (auto simp: roles_ok_def distinct_map inj_on_def)
  with a rs have "roles_ok (filter (\<lambda>r. r_id r \<noteq> r_id role) (d_roles db))"
    by (auto simp: roles_ok_def list_all_iff list_ex_iff distinct_map_filter)
  moreover have "copy_ok (filter (\<lambda>r. r_id r \<noteq> r_id role) (d_roles db)) (cleared_user (r_id role) u)"
    if "copy_ok (d_roles db) u" for u
    using that by (auto simp: copy_ok_def cleared_user_def list_ex_iff split: option.splits)
  moreover have "mapping_ok (filter (\<lambda>r. r_id r \<noteq> r_id role) (d_roles db)) (cleared_mapping (r_id role) m)"
    if "mapping_ok (d_roles db) m" for m
    using that by (auto simp: mapping_ok_def cleared_mapping_def split: option.splits)
  ultimately show ?thesis using ok by (auto simp: rbac_ok_def db' list_all_iff)
qed

lemma apply_role_copy:
  assumes "case role of None \<Rightarrow> True | Some r \<Rightarrow> r \<in> set rs"
  shows "copy_ok rs (apply_role_to_user role u)"
  using assms by (auto simp: copy_ok_def apply_role_to_user_def list_ex_iff split: option.splits)

lemma reconcile_ok: "rbac_ok db \<Longrightarrow> fst (reconcile db) = db \<and> snd (reconcile db) = 0"
proof -
  assume ok: "rbac_ok db"
  have rs: "distinct (map r_id (d_roles db))" "list_all role_ok (d_roles db)"
    using ok by (simp_all add: rbac_ok_def roles_ok_def)
  have "reconcile_user db u = (u, False)" if "u \<in> set (d_users db)" for u
  proof (cases "u_role_id u")
    case None
    then show ?thesis by (simp add: reconcile_user_def)
  next
    case (Some rid)
    have c: "copy_ok (d_roles db) u" using ok that by (simp add: rbac_ok_def list_all_iff)
    then obtain r where "r \<in> set (d_roles db)" "r_id r = rid" "u_role_permissions u = store_dict (role_map r)"
      using Some by (auto simp: copy_ok_def list_ex_iff)
    moreover from this have "get_role db rid = Some r" by (simp add: get_role_iff [OF rs])
    ultimately show ?thesis using Some by (simp add: reconcile_user_def dict_eq_def list_all_iff)
  qed
  then show ?thesis by (simp add: reconcile_def map_idI filter_False)
qed

section \<open>Seeding\<close>

lemma builtin_checks:
  "list_all (\<lambda>spec. plain (sp_permissions spec) \<and> sp_permissions spec \<noteq> []
     \<and> (admin_flag (sp_permissions spec) \<longrightarrow> sp_slug spec = ADMIN_ROLE_SLUG)
     \<and> (validate_role_permissions (sp_slug spec) (Some (sp_permissions spec)) = Inr (sp_permissions spec))
     \<and> slugify (sp_name spec) = Inr (sp_slug spec)) BUILTIN_ROLES"
  "distinct BUILTIN_SLUGS" "ADMIN_ROLE_SLUG \<in> set BUILTIN_SLUGS"
  by code_simp+

lemma refreshed_keeps [simp]:
  "r_id (refreshed r) = r_id r" "r_slug (refreshed r) = r_slug r" "role_map (refreshed r) = role_map r"
  "r_is_builtin (refreshed r) = r_is_builtin r" "refreshed (refreshed r) = refreshed r"
  by (auto simp: refreshed_def role_map_def split: option.splits)

lemma role_ok_refreshed [simp]: "role_ok (refreshed r) = role_ok r"
  by (simp add: role_ok_def)

lemma map_refreshed_keys [simp]:
  "map r_id (map refreshed rs) = map r_id rs" "map r_slug (map refreshed rs) = map r_slug rs"
  by simp_all

lemma seeded_row_simps [simp]:
  "r_id (seeded_row now nid spec) = nid (sp_slug spec)" "r_slug (seeded_row now nid spec) = sp_slug spec"
  "role_map (seeded_row now nid spec) = sp_permissions spec" "r_is_builtin (seeded_row now nid spec)"
  by (simp_all add: seeded_row_def role_map_def)

lemma missing_iff:
  "spec \<in> set (missing_builtins db) \<longleftrightarrow> spec \<in> set BUILTIN_ROLES \<and> sp_slug spec \<notin> r_slug ` set (d_roles db)"
  by (auto simp: missing_builtins_def get_by_slug_None)

lemma get_by_slug_seeded:
  assumes "insert_builtins now nid db db = Some db'"
  shows "get_by_slug db' slug = None \<longleftrightarrow> get_by_slug db slug = None \<and> slug \<notin> set BUILTIN_SLUGS"
proof -
  have "r_slug ` set (d_roles db') = r_slug ` set (d_roles db) \<union> sp_slug ` set (missing_builtins db)"
    using assms by (auto simp: insert_builtins_def image_Un image_image split: if_splits)
  moreover have "sp_slug ` set (missing_builtins db) \<subseteq> set BUILTIN_SLUGS"
    by (auto simp: missing_iff BUILTIN_SLUGS_def)
  moreover have "slug \<in> sp_slug ` set (missing_builtins db)" if "slug \<in> set BUILTIN_SLUGS" "slug \<notin> r_slug ` set (d_roles db)"
  proof -
    obtain spec where "spec \<in> set BUILTIN_ROLES" "slug = sp_slug spec" using \<open>slug \<in> set BUILTIN_SLUGS\<close> by (auto simp: BUILTIN_SLUGS_def)
    with that(2) missing_iff show ?thesis by blast
  qed
  ultimately show ?thesis unfolding get_by_slug_None by blast
qed

lemma insert_fresh: "\<exists>db'. insert_builtins now nid db db = Some db'"
  by (auto simp: insert_builtins_def missing_builtins_def list_ex_iff)

definition fresh_ids :: "(string \<Rightarrow> string) \<Rightarrow> rbac \<Rightarrow> bool" where
  "fresh_ids nid db \<longleftrightarrow> distinct (map nid BUILTIN_SLUGS) \<and> [] \<notin> set (map nid BUILTIN_SLUGS)
     \<and> set (map nid BUILTIN_SLUGS) \<inter> set (map r_id (d_roles db)) = {}"

definition all_seeded :: "rbac \<Rightarrow> bool" where
  "all_seeded db \<longleftrightarrow> list_all (\<lambda>slug. get_by_slug db slug \<noteq> None) BUILTIN_SLUGS"

lemma missing_none: "all_seeded db \<longleftrightarrow> missing_builtins db = []"
  by (auto simp: all_seeded_def missing_builtins_def list_all_iff filter_empty_conv BUILTIN_SLUGS_def)

lemma seed_rows_ok:
  assumes "distinct (map r_id (d_roles db))" "distinct (map r_slug (d_roles db))" "list_all role_ok (d_roles db)"
    and fresh: "fresh_ids nid db"
  shows "distinct (map r_id (map refreshed (d_roles db) @ map (seeded_row now nid) (missing_builtins db)))
    \<and> distinct (map r_slug (map refreshed (d_roles db) @ map (seeded_row now nid) (missing_builtins db)))
    \<and> list_all role_ok (map refreshed (d_roles db) @ map (seeded_row now nid) (missing_builtins db))"
proof (intro conjI)
  have slugs: "distinct (map sp_slug (missing_builtins db))"
    using builtin_checks(2) by (auto simp: missing_builtins_def BUILTIN_SLUGS_def distinct_map_filter)
  have sub: "set (missing_builtins db) \<subseteq> set BUILTIN_ROLES" by (auto simp: missing_iff)
  have inj: "inj_on nid (sp_slug ` set BUILTIN_ROLES)"
    using fresh by (auto simp: fresh_ids_def BUILTIN_SLUGS_def distinct_map inj_on_def)
  have "distinct (map (nid \<circ> sp_slug) (missing_builtins db))"
  proof -
    have "inj_on nid (set (map sp_slug (missing_builtins db)))"
      using sub by (intro inj_on_subset [OF inj]) auto
    with slugs have "distinct (map nid (map sp_slug (missing_builtins db)))" by (simp add: distinct_map del: map_map)
    then show ?thesis by simp
  qed
  moreover have "r_id ` set (d_roles db) \<inter> (nid \<circ> sp_slug) ` set (missing_builtins db) = {}"
    using fresh sub by (fastforce simp: fresh_ids_def BUILTIN_SLUGS_def)
  ultimately show "distinct (map r_id (map refreshed (d_roles db) @ map (seeded_row now nid) (missing_builtins db)))"
    using assms(1) by (simp add: o_def image_image)
  show "distinct (map r_slug (map refreshed (d_roles db) @ map (seeded_row now nid) (missing_builtins db)))"
  proof -
    have "sp_slug spec \<notin> r_slug ` set (d_roles db)" if "spec \<in> set (missing_builtins db)" for spec
      using that by (simp add: missing_iff)
    then have "r_slug ` set (d_roles db) \<inter> sp_slug ` set (missing_builtins db) = {}"
      by (simp only: disjoint_iff image_iff) metis
    with assms(2) slugs show ?thesis by (simp add: o_def image_image)
  qed
  have "role_ok (seeded_row now nid spec)" if "spec \<in> set BUILTIN_ROLES" for spec
    using that builtin_checks(1) fresh
    by (auto simp: role_ok_def list_all_iff list_ex_iff fresh_ids_def BUILTIN_SLUGS_def image_iff)
  with sub show "list_all role_ok (map refreshed (d_roles db) @ map (seeded_row now nid) (missing_builtins db))"
    using assms(3) by (auto simp: list_all_iff)
qed

text \<open>A new installation: no roles yet, and nobody holds one.\<close>

definition fresh_install :: "rbac \<Rightarrow> bool" where
  "fresh_install db \<longleftrightarrow> d_roles db = []
     \<and> list_all (\<lambda>u. u_role_id u = None \<and> u_role_permissions u = Null) (d_users db)
     \<and> list_all (\<lambda>m. gm_role_id m = None) (d_mappings db)"

lemma copy_ok_refreshed: "copy_ok rs u \<Longrightarrow> copy_ok (map refreshed rs @ added) u"
proof -
  have "list_ex P (map refreshed rs)" if "list_ex (P \<circ> refreshed) rs" for P
    using that by (induction rs) auto
  then show "copy_ok rs u \<Longrightarrow> copy_ok (map refreshed rs @ added) u"
    by (auto simp: copy_ok_def o_def split: option.splits)
qed

lemma insert_builtins_ok:
  assumes "rbac_ok db \<or> fresh_install db" "fresh_ids nid db" "insert_builtins now nid db db = Some db'"
  shows "rbac_ok db'"
proof -
  have db': "db' = db\<lparr> d_roles := map refreshed (d_roles db) @ map (seeded_row now nid) (missing_builtins db) \<rparr>"
    using assms(3) by (simp add: insert_builtins_def split: if_splits)
  let ?rs = "map refreshed (d_roles db) @ map (seeded_row now nid) (missing_builtins db)"
  have "distinct (map r_id ?rs) \<and> distinct (map r_slug ?rs) \<and> list_all role_ok ?rs"
    using assms(1,2) by (intro seed_rows_ok) (auto simp: rbac_ok_def roles_ok_def fresh_install_def)
  moreover have "list_ex (\<lambda>r. r_slug r = ADMIN_ROLE_SLUG \<and> r_is_builtin r) ?rs"
  proof (cases "rbac_ok db")
    case True
    then obtain r where "r \<in> set (d_roles db)" "r_slug r = ADMIN_ROLE_SLUG" "r_is_builtin r"
      by (auto simp: rbac_ok_def roles_ok_def list_ex_iff)
    then have "refreshed r \<in> set (map refreshed (d_roles db)) \<and> r_slug (refreshed r) = ADMIN_ROLE_SLUG \<and> r_is_builtin (refreshed r)"
      by simp
    then show ?thesis unfolding list_ex_iff set_append by blast
  next
    case False
    with assms(1) have "missing_builtins db = BUILTIN_ROLES"
      by (simp add: fresh_install_def missing_builtins_def get_by_slug_None)
    moreover obtain spec where "spec \<in> set BUILTIN_ROLES" "sp_slug spec = ADMIN_ROLE_SLUG"
      using builtin_checks(3) by (auto simp: BUILTIN_SLUGS_def)
    ultimately have "seeded_row now nid spec \<in> set (map (seeded_row now nid) (missing_builtins db))
        \<and> r_slug (seeded_row now nid spec) = ADMIN_ROLE_SLUG \<and> r_is_builtin (seeded_row now nid spec)"
      by simp
    then show ?thesis unfolding list_ex_iff set_append by blast
  qed
  moreover have "list_all (copy_ok ?rs) (d_users db)"
    using assms(1) copy_ok_refreshed [of "d_roles db"]
    by (auto simp: rbac_ok_def fresh_install_def list_all_iff) (simp add: copy_ok_def)
  moreover have "list_all (mapping_ok ?rs) (d_mappings db)"
    using assms(1) by (auto simp: rbac_ok_def fresh_install_def list_all_iff mapping_ok_def image_image split: option.splits)
  ultimately show ?thesis by (simp add: rbac_ok_def roles_ok_def db')
qed

text \<open>
  Seeding is idempotent, and of two processes that boot together with the same view of the table, one
  inserts the missing roles and the other, whenever it commits, changes no role and reports none.
\<close>

theorem seeding_is_idempotent:
  "\<exists>db'. seed_builtins now nid db db = Some (db', length (missing_builtins db)) \<and> all_seeded db'
     \<and> seed_builtins now2 nid2 db' db' = Some (db', 0)
     \<and> seed_builtins now2 nid2 db db' = Some (db', 0)"
proof -
  obtain db' where ins: "insert_builtins now nid db db = Some db'" using insert_fresh by blast
  have seeded: "all_seeded db'"
    by (auto simp: all_seeded_def list_all_iff get_by_slug_seeded [OF ins])
  have stable: "map refreshed (d_roles db') = d_roles db'"
  proof -
    have "refreshed (seeded_row now nid spec) = seeded_row now nid spec" if "spec \<in> set BUILTIN_ROLES" for spec
    proof -
      have "List.find (\<lambda>sp. sp_slug sp = sp_slug spec) BUILTIN_ROLES = Some spec"
        using that builtin_checks(2) by (intro find_key_unique) (simp_all add: BUILTIN_SLUGS_def)
      then show ?thesis by (simp add: refreshed_def seeded_row_def)
    qed
    then have "refreshed (seeded_row now nid spec) = seeded_row now nid spec" if "spec \<in> set (missing_builtins db)" for spec
      using that by (simp add: missing_builtins_def)
    then show ?thesis using ins by (auto simp: insert_builtins_def split: if_splits)
  qed
  have again: "seed_builtins now2 nid2 db' db' = Some (db', 0)"
    using seeded stable by (simp add: seed_builtins_def insert_builtins_def missing_none)
  have "seed_builtins now2 nid2 db db' = Some (db', 0)"
  proof (cases "missing_builtins db")
    case Nil
    then show ?thesis using stable by (simp add: seed_builtins_def insert_builtins_def)
  next
    case (Cons spec rest)
    then have "spec \<in> set BUILTIN_ROLES" using missing_iff [of spec db] by simp
    then have "get_by_slug db' (sp_slug spec) \<noteq> None"
      by (simp add: get_by_slug_seeded [OF ins] BUILTIN_SLUGS_def)
    with Cons seeded show ?thesis by (auto simp: seed_builtins_def insert_builtins_def all_seeded_def)
  qed
  with ins seeded again show ?thesis by (auto simp: seed_builtins_def)
qed

section \<open>Reachable states\<close>

text \<open>
  What the role page, the user page and a boot do to the three tables. A new row has an id no row has;
  a change of a user that is not an assignment keeps the two role columns; a mapping names a role that
  exists. A payload is a dict.
\<close>

definition assign_role :: "string \<Rightarrow> access_role option \<Rightarrow> rbac \<Rightarrow> rbac" where
  "assign_role uid role db =
     db\<lparr> d_users := tbl_update (\<lambda>u. u_id u = uid) (apply_role_to_user role) (d_users db) \<rparr>"

definition a_dict :: "perms option \<Rightarrow> bool" where
  "a_dict p = (case p of None \<Rightarrow> True | Some p \<Rightarrow> distinct (map fst p))"

inductive role_step :: "rbac \<Rightarrow> rbac \<Rightarrow> bool" where
  created: "create_role now nid name d p who db = Inr (db', r) \<Longrightarrow> nid \<noteq> [] \<Longrightarrow> nid \<notin> r_id ` set (d_roles db) \<Longrightarrow> a_dict p \<Longrightarrow>
    role_step db db'"
| cloned: "get_role db rid = Some role \<Longrightarrow> clone_role now nid role name d who db = Inr (db', r) \<Longrightarrow> nid \<noteq> [] \<Longrightarrow>
    nid \<notin> r_id ` set (d_roles db) \<Longrightarrow> role_step db db'"
| updated: "get_role db rid = Some role \<Longrightarrow> update_role now role name d p db = Inr (db', n) \<Longrightarrow> a_dict p \<Longrightarrow> role_step db db'"
| deleted: "get_role db rid = Some role \<Longrightarrow> delete_role role force db = Inr (db', n, m) \<Longrightarrow> role_step db db'"
| assigned: "get_role db rid = Some role \<Longrightarrow> role_step db (assign_role uid (Some role) db)"
| unassigned: "role_step db (assign_role uid None db)"
| signed_up: "u_role_id u = None \<Longrightarrow> u_role_permissions u = Null \<Longrightarrow> role_step db (db\<lparr> d_users := d_users db @ [u] \<rparr>)"
| user_edited: "\<forall>u. u_role_id (f u) = u_role_id u \<and> u_role_permissions (f u) = u_role_permissions u \<Longrightarrow>
    role_step db (db\<lparr> d_users := map f (filter keep (d_users db)) \<rparr>)"
| mapped: "get_role db rid = Some role \<Longrightarrow> gm_role_id m = Some rid \<Longrightarrow>
    role_step db (db\<lparr> d_mappings := filter keepm (d_mappings db) @ [m] \<rparr>)"
| booted: "fresh_ids nid db \<Longrightarrow> insert_builtins now nid db db = Some db' \<Longrightarrow> role_step db (fst (reconcile db'))"

lemma role_step_ok:
  assumes "role_step db db'" "rbac_ok db"
  shows "rbac_ok db'"
proof -
  have ids: "distinct (map r_id (d_roles db))" "list_all role_ok (d_roles db)"
    using assms(2) by (simp_all add: rbac_ok_def roles_ok_def)
  note found = get_role_iff [OF ids]
  show ?thesis
    using assms
  proof (cases rule: role_step.cases)
    case created
    with assms(2) show ?thesis by (auto intro: create_role_ok simp: a_dict_def)
  next
    case cloned
    with assms(2) found show ?thesis by (auto intro: clone_role_ok)
  next
    case updated
    with assms(2) found show ?thesis by (auto intro: update_role_ok simp: a_dict_def)
  next
    case deleted
    with assms(2) found show ?thesis by (auto intro: delete_role_ok)
  next
    case (assigned rid role uid)
    have "role \<in> set (d_roles db)" using assigned(2) found by blast
    then have "copy_ok (d_roles db) (apply_role_to_user (Some role) u)" for u
      using apply_role_copy [where role = "Some role" and rs = "d_roles db"] by simp
    with assms(2) assigned show ?thesis
      by (auto simp: rbac_ok_def assign_role_def list_all_iff set_tbl_update)
  next
    case (unassigned uid)
    with assms(2) apply_role_copy [where role = None and rs = "d_roles db"] show ?thesis
      by (auto simp: rbac_ok_def assign_role_def list_all_iff set_tbl_update)
  next
    case signed_up
    with assms(2) show ?thesis by (simp add: rbac_ok_def copy_ok_def)
  next
    case (user_edited f keep)
    then have "copy_ok (d_roles db) (f u) = copy_ok (d_roles db) u" for u by (auto simp: copy_ok_def split: option.splits)
    with assms(2) user_edited show ?thesis by (auto simp: rbac_ok_def list_all_iff)
  next
    case (mapped rid role m keepm)
    have "role \<in> set (d_roles db)" "r_id role = rid" using mapped(2) found by blast+
    with assms(2) mapped show ?thesis by (auto simp: rbac_ok_def list_all_iff mapping_ok_def)
  next
    case (booted nid now db1)
    with assms(2) have "rbac_ok db1" by (blast intro: insert_builtins_ok)
    with reconcile_ok booted show ?thesis by simp
  qed
qed

lemma rbac_reachable_ok:
  assumes "rbac_ok db0" "role_step\<^sup>*\<^sup>* db0 db"
  shows "rbac_ok db"
  using assms(2,1) by (induction rule: rtranclp_induct) (blast intro: role_step_ok)+

lemma seeded_install_ok:
  assumes "fresh_install db0" "fresh_ids nid db0" "seed_builtins now nid db0 db0 = Some (db1, n)"
  shows "rbac_ok db1"
proof -
  obtain db' where "insert_builtins now nid db0 db0 = Some db'" using insert_fresh by blast
  with assms insert_builtins_ok [of db0 nid now db'] show ?thesis by (simp add: seed_builtins_def)
qed

text \<open>
  C35. Whatever the role page, the user page and later boots do after the first boot of an installation,
  every user who names a role carries exactly that role's map, every user who names none carries none,
  no role is empty, and only the built-in administrator role confers the administrator flag.
\<close>

theorem role_copies_in_step:
  assumes "fresh_install db0" "fresh_ids nid db0" "seed_builtins now nid db0 db0 = Some (db1, n)"
    and "role_step\<^sup>*\<^sup>* db1 db" and u: "u \<in> set (d_users db)"
  shows "case u_role_id u of
           None \<Rightarrow> u_role_permissions u = Null
         | Some rid \<Rightarrow>
             \<exists>r. get_role db rid = Some r \<and> u_role_permissions u = Held (role_map r)
               \<and> (admin_flag (role_map r) \<longrightarrow> r_is_builtin r \<and> r_slug r = ADMIN_ROLE_SLUG)"
proof -
  have ok: "rbac_ok db"
    using rbac_reachable_ok [OF seeded_install_ok [OF assms(1-3)] assms(4)] .
  then have ids: "distinct (map r_id (d_roles db))" "list_all role_ok (d_roles db)"
    by (simp_all add: rbac_ok_def roles_ok_def)
  have c: "copy_ok (d_roles db) u" using ok u by (simp add: rbac_ok_def list_all_iff)
  show ?thesis
  proof (cases "u_role_id u")
    case None
    with c show ?thesis by (simp add: copy_ok_def)
  next
    case (Some rid)
    with c obtain r where r: "r \<in> set (d_roles db)" "r_id r = rid" "u_role_permissions u = store_dict (role_map r)"
      by (auto simp: copy_ok_def list_ex_iff)
    then have "role_ok r" using ids by (simp add: list_all_iff)
    then have "role_map r \<noteq> []" "admin_flag (role_map r) \<longrightarrow> r_is_builtin r \<and> r_slug r = ADMIN_ROLE_SLUG"
      by (simp_all add: role_ok_def)
    moreover have "get_role db rid = Some r" using r get_role_iff [OF ids] by simp
    ultimately show ?thesis using Some r by (simp add: store_dict_def)
  qed
qed

definition copy_in_step :: "rbac \<Rightarrow> principal \<Rightarrow> bool" where
  "copy_in_step db u =
     (case u_role_id u of
        None \<Rightarrow> True
      | Some rid \<Rightarrow>
          (case get_role db rid of None \<Rightarrow> False | Some r \<Rightarrow> dict_eq (column_dict (u_role_permissions u)) (role_map r)))"

text \<open>
  C36. From any state of the columns, however they came to differ, reconciling repairs each user by
  itself and touches nothing else: a user whose copy agrees with its role, or who names none, is left
  exactly as it was; one whose role is gone loses the reference and the copy; any other keeps its
  role and gets the role's map, and no other field of a user, no role and no mapping changes. It
  counts those it changed, leaves every copy in step and finds nothing to do the second time.
\<close>

theorem reconcile_repairs:
  "list_all2 (\<lambda>u u'. u' =
       (if copy_in_step db u then u
        else case get_role db (the (u_role_id u)) of
               None \<Rightarrow> u\<lparr> u_role_id := None, u_role_permissions := Null \<rparr>
             | Some role \<Rightarrow> u\<lparr> u_role_permissions := store_dict (role_map role) \<rparr>))
     (d_users db) (d_users (fst (reconcile db)))
   \<and> fst (reconcile db) = db\<lparr> d_users := d_users (fst (reconcile db)) \<rparr>
   \<and> list_all (copy_in_step (fst (reconcile db))) (d_users (fst (reconcile db)))
   \<and> snd (reconcile db) = length (filter (\<lambda>u. \<not> copy_in_step db u) (d_users db))
   \<and> reconcile (fst (reconcile db)) = (fst (reconcile db), 0)"
proof -
  let ?db = "fst (reconcile db)"
  have role: "get_role ?db rid = get_role db rid" for rid by (simp add: reconcile_def get_role_def)
  have refl: "dict_eq p p" for p by (simp add: dict_eq_def list_all_iff)
  have user: "copy_in_step ?db (fst (reconcile_user db u))" for u
    by (auto simp: reconcile_user_def copy_in_step_def role refl split: option.splits)
  have done1: "reconcile_user ?db u = (u, False)" if "copy_in_step ?db u" for u
    using that by (auto simp: reconcile_user_def copy_in_step_def split: option.splits)
  have flag: "snd (reconcile_user db u) \<longleftrightarrow> \<not> copy_in_step db u" for u
    by (auto simp: reconcile_user_def copy_in_step_def split: option.splits)
  have users: "d_users ?db = map (\<lambda>u. fst (reconcile_user db u)) (d_users db)" by (simp add: reconcile_def)
  have all: "list_all (copy_in_step ?db) (d_users ?db)" by (simp add: users list_all_iff user)
  have "reconcile ?db = (?db, 0)"
    using all done1 by (simp add: reconcile_def [of ?db] list_all_iff map_idI filter_False)
  moreover have "fst (reconcile_user db u) =
      (if copy_in_step db u then u
       else case get_role db (the (u_role_id u)) of
              None \<Rightarrow> u\<lparr> u_role_id := None, u_role_permissions := Null \<rparr>
            | Some role \<Rightarrow> u\<lparr> u_role_permissions := store_dict (role_map role) \<rparr>)" for u
    by (auto simp: reconcile_user_def copy_in_step_def split: option.splits)
  then have "list_all2 (\<lambda>u u'. u' =
       (if copy_in_step db u then u
        else case get_role db (the (u_role_id u)) of
               None \<Rightarrow> u\<lparr> u_role_id := None, u_role_permissions := Null \<rparr>
             | Some role \<Rightarrow> u\<lparr> u_role_permissions := store_dict (role_map role) \<rparr>))
     (d_users db) (d_users ?db)"
    by (simp add: users list_all2_map2 list.rel_refl)
  ultimately show ?thesis using all by (simp add: flag reconcile_def [of db])
qed

text \<open>
  A role is deleted exactly when it is no built-in and either nobody holds it or the caller insists;
  then no user and no mapping names it any more, and those who named it lose its grants at once.
\<close>

theorem delete_role_exact:
  "delete_role role force db =
     (if r_is_builtin role then Inl (BuiltinKept (r_name role))
      else if (role_users db (r_id role) \<noteq> [] \<or> role_mappings db (r_id role) \<noteq> []) \<and> \<not> force
      then Inl (StillAssigned (length (role_users db (r_id role))) (length (role_mappings db (r_id role))))
      else Inr (db\<lparr> d_roles := filter (\<lambda>r. r_id r \<noteq> r_id role) (d_roles db),
                    d_users := map (\<lambda>u. if u_role_id u = Some (r_id role) then apply_role_to_user None u else u) (d_users db),
                    d_mappings := map (cleared_mapping (r_id role)) (d_mappings db) \<rparr>,
                length (role_users db (r_id role)), length (role_mappings db (r_id role))))"
  by (simp add: delete_role_def assignee_counts_def cleared_user_def [abs_def] apply_role_to_user_def)

text \<open>
  An edit of a role's map reaches everyone who holds it in the same step: a person with no other
  grant then holds exactly what was sent, less the retired levels.
\<close>

theorem role_edit_takes_effect:
  assumes ids: "distinct (map r_id (d_roles db))" and role: "role \<in> set (d_roles db)" and dict: "distinct (map fst p)"
    and run: "update_role now role name description (Some p) db = Inr (db', n)"
    and u: "u \<in> set (d_users db')" "u_role_id u = Some (r_id role)"
    and only: "u_permissions u = Null" "u_session_permissions u = Null" "u_jit_permissions u = Null"
      "u_token_scope u = None" "\<not> u_is_admin u"
    and scope: "scope \<noteq> ''is_admin''" "(''is_admin'', Flag True) \<notin> set p"
  shows "has_permission u scope level = Some (grants p scope level \<and> \<not> is_retired scope level)
    \<and> n = length (role_users db (r_id role))"
proof -
  obtain named where named: "rename_role db name role = Inr named" "\<not> r_is_builtin role"
    using run by (auto simp: update_role_def split: if_splits sum.splits)
  then have named_id: "r_id named = r_id role" by (auto simp: rename_role_def split: option.splits sum.splits if_splits)
  obtain q e where q: "validate_permissions_payload p = Inr q" "q \<noteq> []"
    and e: "r_id e = r_id role" "role_map e = q" and db': "(db', n) = fan_out e (write_role e db)"
  proof -
    define described where "described = (case description of None \<Rightarrow> named | Some d \<Rightarrow> named\<lparr> r_description := or_none (Some (py_strip d)) \<rparr>)"
    have did: "r_id described = r_id role" using named_id by (simp add: described_def split: option.splits)
    obtain q where v: "validate_role_permissions (r_slug described) (Some p) = Inr q"
      and "(db', n) = fan_out (described\<lparr> r_permissions := store_dict q, r_updated_at := now \<rparr>)
        (write_role (described\<lparr> r_permissions := store_dict q, r_updated_at := now \<rparr>) db)"
      using run named by (auto simp: update_role_def described_def [symmetric] Let_def split: sum.splits)
    moreover have "validate_permissions_payload p = Inr q \<and> q \<noteq> []"
      using v validate_exact [of p q] by (auto simp: validate_role_permissions_def split: if_splits sum.splits)
    ultimately show thesis
      using that [of q "described\<lparr> r_permissions := store_dict q, r_updated_at := now \<rparr>"] did
      by (simp add: role_map_def)
  qed
  have n: "n = length (role_users db (r_id role))"
    using db' e by (simp add: fan_out_def write_role_def role_users_def)
  have "u_role_permissions u = store_dict q"
    using db' e u by (auto simp: fan_out_def write_role_def set_tbl_update)
  then have held: "u_role_permissions u = Held q" using q by (simp add: store_dict_def)
  have ok: "list_all entry_ok p" "q = map without_retired p" using q(1) by (simp_all add: validate_exact)
  then have plain: "plain q"
    using dict by (auto simp: plain_def list_all_iff entry_ok_plain simp flip: map_map)
  have "plain p" using ok dict by (auto simp: plain_def list_all_iff entry_ok_plain)
  then have "\<not> admin_flag q" using scope plain_flag [of p] admin_without_retired [OF ok(1)] ok(2) by simp
  then have noadm: "\<not> is_effective_admin u" using only held by (simp add: is_effective_admin_def column_dict_def)
  have "plain_user u" using only held plain by (simp add: plain_user_def permission_columns_def column_dict_def)
  from permission_is_union [OF this scope(1), of level] show ?thesis
    using noadm held only n ok(2)
    by (simp add: permission_columns_def column_dict_def in_token_scope_def grants_without_retired)
qed

section \<open>Examples\<close>

definition demo_ids :: "string \<Rightarrow> string" where "demo_ids slug = ''id-'' @ slug"

definition pat :: principal where
  "pat = sam\<lparr> u_id := ''u2'', u_username := ''pat'', u_permissions := Null, u_jit_permissions := Null,
     u_role_id := None, u_role_permissions := Null \<rparr>"

definition demo0 :: rbac where "demo0 = \<lparr> d_roles = [], d_users = [pat], d_mappings = [] \<rparr>"

definition demo1 :: rbac where "demo1 = fst (the (seed_builtins 0 demo_ids demo0 demo0))"

definition night_role :: access_role where
  "night_role = \<lparr> r_id = ''n1'', r_slug = ''night-shift'', r_name = ''Night Shift'', r_description = None,
     r_permissions = Held [(''vms'', Levels [''read''])], r_is_builtin = False, r_updated_at = 5, r_created_by = None \<rparr>"

definition demo2 :: rbac where "demo2 = demo1\<lparr> d_roles := d_roles demo1 @ [night_role] \<rparr>"

definition demo3 :: rbac where "demo3 = assign_role ''u2'' (Some night_role) demo2"

lemma demo_fresh: "fresh_install demo0" "fresh_ids demo_ids demo0" by code_simp+

lemma demo_seeded: "seed_builtins 0 demo_ids demo0 demo0 = Some (demo1, 10)"
proof -
  have "length (missing_builtins demo0) = 10" by code_simp
  moreover obtain d where "seed_builtins 0 demo_ids demo0 demo0 = Some (d, length (missing_builtins demo0))"
    using seeding_is_idempotent by blast
  ultimately show ?thesis by (simp add: demo1_def)
qed

lemma demo1_tables: "d_roles demo1 = map (seeded_row 0 demo_ids) BUILTIN_ROLES \<and> d_users demo1 = [pat]"
proof -
  have none: "missing_builtins demo0 = BUILTIN_ROLES" by (simp add: missing_builtins_def get_by_slug_def demo0_def)
  obtain d where d: "insert_builtins 0 demo_ids demo0 demo0 = Some d" using insert_fresh by blast
  with demo_seeded have "d = demo1" by (simp add: seed_builtins_def)
  moreover have "d = demo0\<lparr> d_roles := map refreshed (d_roles demo0) @ map (seeded_row 0 demo_ids) BUILTIN_ROLES \<rparr>"
    using d none by (simp add: insert_builtins_def split: if_splits)
  ultimately have eq: "demo1 = demo0\<lparr> d_roles := map refreshed (d_roles demo0) @ map (seeded_row 0 demo_ids) BUILTIN_ROLES \<rparr>"
    by simp
  show ?thesis using arg_cong [OF eq, of d_roles] arg_cong [OF eq, of d_users] by (simp add: demo0_def)
qed

lemma demo_created: "create_role 5 ''n1'' ''Night Shift'' None (Some [(''vms'', Levels [''read'', ''use''])]) None demo1 = Inr (demo2, night_role)"
proof -
  have "''night-shift'' \<notin> set BUILTIN_SLUGS" by code_simp
  then have "get_by_slug demo1 ''night-shift'' = None"
    using demo1_tables by (simp add: get_by_slug_None BUILTIN_SLUGS_def image_image)
  moreover have "slugify ''Night Shift'' = Inr ''night-shift''" by code_simp
  moreover have "validate_role_permissions ''night-shift'' (Some [(''vms'', Levels [''read'', ''use''])]) = Inr [(''vms'', Levels [''read''])]"
    by code_simp
  moreover have "py_strip ''Night Shift'' = ''Night Shift''" "or_none (Some (py_strip (or_empty None))) = None" by code_simp+
  ultimately show ?thesis by (simp add: create_role_def Let_def demo2_def night_role_def store_dict_def)
qed

lemma demo_reach: "role_step\<^sup>*\<^sup>* demo1 demo3" "get_role demo2 ''n1'' = Some night_role"
proof -
  have ok: "rbac_ok demo1" using seeded_install_ok [OF demo_fresh demo_seeded] .
  have ids: "r_id ` set (d_roles demo1) = demo_ids ` set BUILTIN_SLUGS"
    using demo1_tables by (simp add: BUILTIN_SLUGS_def image_image)
  have new: "''n1'' \<notin> r_id ` set (d_roles demo1)" unfolding ids by (auto simp: demo_ids_def)
  have one: "role_step demo1 demo2" by (rule role_step.created [OF demo_created _ new]) (simp_all add: a_dict_def)
  have ok2: "rbac_ok demo2" using one ok by (rule role_step_ok)
  then show found: "get_role demo2 ''n1'' = Some night_role"
    by (subst get_role_iff) (simp_all add: rbac_ok_def roles_ok_def demo2_def night_role_def)
  have two: "role_step demo2 demo3" unfolding demo3_def using found by (rule role_step.assigned)
  show "role_step\<^sup>*\<^sup>* demo1 demo3" using one two by (meson converse_rtranclp_into_rtranclp r_into_rtranclp)
qed

theorem role_copies_in_step_witness:
  "list_ex (\<lambda>u. u_role_id u = Some ''n1'' \<and> u_role_permissions u = Held (role_map night_role)) (d_users demo3)"
proof -
  define u where "u = apply_role_to_user (Some night_role) pat"
  have users: "d_users demo3 = [u]"
    using demo1_tables by (simp add: demo3_def demo2_def assign_role_def tbl_update_def u_def pat_def)
  have "u_role_id u = Some ''n1''" by (simp add: u_def apply_role_to_user_def night_role_def)
  moreover have "get_role demo3 ''n1'' = Some night_role" using demo_reach(2) by (simp add: demo3_def assign_role_def get_role_def)
  ultimately show ?thesis
    using role_copies_in_step [OF demo_fresh demo_seeded demo_reach(1), of u] by (simp add: users)
qed

definition small_db :: rbac where
  "small_db = \<lparr> d_roles = [night_role], d_users = [apply_role_to_user (Some night_role) pat], d_mappings = [] \<rparr>"

definition small_db' :: rbac where
  "small_db' = \<lparr> d_roles = [night_role\<lparr> r_permissions := Held [(''vms'', Levels [''write'']), (''jobs'', Levels [])], r_updated_at := 9 \<rparr>],
     d_users = [pat\<lparr> u_role_id := Some ''n1'', u_role_permissions := Held [(''vms'', Levels [''write'']), (''jobs'', Levels [])] \<rparr>],
     d_mappings = [] \<rparr>"

theorem role_edit_takes_effect_witness:
  "list_ex (\<lambda>u. has_permission u ''vms'' ''write'' = Some True \<and> has_permission u ''vms'' ''read'' = Some False) (d_users small_db')"
proof -
  let ?p = "[(''vms'', Levels [''use'', ''write'']), (''jobs'', Levels [''delete''])]"
  have run: "update_role 9 night_role None None (Some ?p) small_db = Inr (small_db', 1)"
  proof -
    have "validate_role_permissions ''night-shift'' (Some ?p) = Inr [(''vms'', Levels [''write'']), (''jobs'', Levels [])]" by code_simp
    then show ?thesis
      by (simp add: update_role_def rename_role_def night_role_def Let_def fan_out_def write_role_def small_db_def small_db'_def
          tbl_update_def apply_role_to_user_def store_dict_def role_map_def column_dict_def role_users_def)
  qed
  define u where "u = hd (d_users small_db')"
  have users: "d_users small_db' = [u]" by (simp add: small_db'_def u_def)
  have u: "u \<in> set (d_users small_db')" "u_role_id u = Some (r_id night_role)" "u_permissions u = Null" "u_session_permissions u = Null"
    "u_jit_permissions u = Null" "u_token_scope u = None" "\<not> u_is_admin u"
    by (simp_all add: u_def small_db'_def pat_def sam_def night_role_def)
  have db: "distinct (map r_id (d_roles small_db))" "night_role \<in> set (d_roles small_db)" "distinct (map fst ?p)"
    by (simp_all add: small_db_def)
  have "\<not> is_retired ''vms'' ''write''" by code_simp
  then show ?thesis
    using role_edit_takes_effect [OF db run u, of "''vms''" "''write''"] role_edit_takes_effect [OF db run u, of "''vms''" "''read''"]
    by (simp add: users grants_def)
qed

end
