(* ===== verification/User_Admin.thy ===== *)
theory User_Admin
  imports Roles
begin

text \<open>
  The user page (\<open>api/users.py\<close>): creating and editing accounts, the single sign-on switch,
  deactivating and deleting, and creating service accounts (\<open>services/service_accounts.py\<close>).

  The state is the committed database with the audit entries the handlers write. \<open>log_audit\<close> commits
  the session, so everything a handler has changed by then is stored even when it refuses later; a
  refusal without such a commit leaves the state as it was. When another writer takes the number of
  the audit entry first, \<open>log_audit\<close> rolls the session back and tries again, twice at most: the
  rollback discards the pending changes with the entry, and the objects are read afresh. How often
  that happens to the one entry an edit writes is the parameter \<open>clashes\<close>. The administrator has
  passed \<open>require_admin\<close>, and the requests on one account do not overlap. Other parameters: the password hash, and whether the instance has a focus axis. The length
  of a string is its length in bytes. Long refusal texts are cut after their first sentence.
\<close>

datatype http_error = Http int string

record desk =
  k_db :: rbac
  k_audit :: "(string \<times> string \<times> string) list"

definition get_user :: "rbac \<Rightarrow> string \<Rightarrow> principal option" where
  "get_user db uid = List.find (\<lambda>u. u_id u = uid) (d_users db)"

definition write_user :: "principal \<Rightarrow> desk \<Rightarrow> desk" where
  "write_user u dk =
     dk\<lparr> k_db := (k_db dk)\<lparr> d_users := tbl_update (\<lambda>x. u_id x = u_id u) (\<lambda>_. u) (d_users (k_db dk)) \<rparr> \<rparr>"

definition add_user :: "principal \<Rightarrow> desk \<Rightarrow> desk" where
  "add_user u dk = dk\<lparr> k_db := (k_db dk)\<lparr> d_users := d_users (k_db dk) @ [u] \<rparr> \<rparr>"

definition add_audit :: "string \<Rightarrow> string \<Rightarrow> string \<Rightarrow> desk \<Rightarrow> desk" where
  "add_audit actor action about dk = dk\<lparr> k_audit := k_audit dk @ [(actor, action, about)] \<rparr>"

definition quoted :: "string \<Rightarrow> string" where
  "quoted s = [CHR 0x27] @ s @ [CHR 0x27]"

section \<open>Helpers\<close>

definition BCRYPT_MAX_BYTES :: nat where "BCRYPT_MAX_BYTES = 72"

definition password_length_error :: "string \<Rightarrow> string" where
  "password_length_error password =
     (if length password > BCRYPT_MAX_BYTES
      then ''Passwords can be at most '' @ show_nat BCRYPT_MAX_BYTES @ '' bytes (bcrypt reads no further); this one is ''
           @ show_nat (length password) @ '' bytes.''
      else [])"

definition nothing_granted :: perms where
  "nothing_granted = map (\<lambda>scope. (scope, Levels [])) PERMISSION_SCOPES"

definition admin_here :: "principal \<Rightarrow> bool" where
  "admin_here u \<longleftrightarrow> u_is_admin u \<or> admin_flag (column_dict (u_role_permissions u))"

definition an_accessor :: "principal \<Rightarrow> bool" where
  "an_accessor u \<longleftrightarrow> or_empty (u_accessor_env_id u) \<noteq> []"

definition ACCESSOR_REFUSAL :: http_error where
  "ACCESSOR_REFUSAL = Http 409 ''This is a POV accessor login.''"

definition resolve_role :: "rbac \<Rightarrow> string option \<Rightarrow> http_error + access_role option" where
  "resolve_role db raw =
     (case raw of
        None \<Rightarrow> Inr None
      | Some s \<Rightarrow>
          if py_strip s = [] then Inr None
          else (case get_role db (py_strip s) of
                  None \<Rightarrow> Inl (Http 422 (''Unknown role '' @ quoted s))
                | Some role \<Rightarrow> Inr (Some role)))"

definition service_account_escalation ::
  "rbac \<Rightarrow> principal \<Rightarrow> bool option \<Rightarrow> string option \<Rightarrow> string option \<Rightarrow> http_error option" where
  "service_account_escalation db u is_admin password role_id =
     (if \<not> u_is_service_account u then None
      else if is_admin = Some True then Some (Http 400 ''A service account cannot be an administrator.'')
      else if or_empty password \<noteq> [] then Some (Http 400 ''A service account has no password.'')
      else if or_empty role_id \<noteq> []
      then (case resolve_role db role_id of
              Inl e \<Rightarrow> Some e
            | Inr (Some role) \<Rightarrow>
                if admin_flag (role_map role) then Some (Http 400 ''A service account cannot hold an administrator role.'')
                else None
            | Inr None \<Rightarrow> None)
      else None)"

definition ROLE_REQUIRED :: http_error where
  "ROLE_REQUIRED = Http 422 ''Choose a role.''"

definition SSO_PROVIDERS :: "string list" where "SSO_PROVIDERS = [''azure_ad'', ''oidc'']"

definition SSO_PENDING :: string where "SSO_PENDING = ''sso_pending''"

definition OPERATIONAL_FIELDS :: "string list" where
  "OPERATIONAL_FIELDS = [''is_active'', ''password'', ''sso_sign_in'']"

definition VALID_PERSONAS :: "string list" where
  "VALID_PERSONAS =
     [''cloudops'', ''devops'', ''hypervisor'', ''itops'', ''ot'', ''dba'', ''security'', ''sre'', ''netadmin'', ''finops'',
      ''aiops'', ''iamops'', ''idarch'']"

text \<open>\<open>p_fields_set\<close> is \<open>model_fields_set\<close>: the fields the request names, null or not.\<close>

record user_patch =
  p_full_name :: "string option"
  p_email :: "string option"
  p_workgroups :: "string list option"
  p_is_active :: "bool option"
  p_is_admin :: "bool option"
  p_password :: "string option"
  p_permissions :: "perms option"
  p_pov_env_ids :: "string list option"
  p_persona :: "string option"
  p_role_id :: "string option"
  p_sso_sign_in :: "bool option"
  p_fields_set :: "string list"

definition provider_of :: "principal \<Rightarrow> string" where
  "provider_of u = (if u_auth_provider u = [] then ''local'' else u_auth_provider u)"

definition would_leave_without_role :: "principal \<Rightarrow> user_patch \<Rightarrow> string \<Rightarrow> bool" where
  "would_leave_without_role u body admin_id \<longleftrightarrow>
     \<not> (u_id u = admin_id \<or> set (p_fields_set body) \<subseteq> set OPERATIONAL_FIELDS)
     \<and> \<not> ((case p_is_admin body of None \<Rightarrow> u_is_admin u | Some b \<Rightarrow> b) \<or> u_is_service_account u \<or> an_accessor u
          \<or> provider_of u \<in> set SSO_PROVIDERS)
     \<and> (case p_role_id body of None \<Rightarrow> or_empty (u_role_id u) | Some r \<Rightarrow> py_strip r) = []"

definition lowered :: "string list \<Rightarrow> string list" where
  "lowered ws = map py_lower ws"

definition clean_env_ids :: "string list \<Rightarrow> string list" where
  "clean_env_ids ids = filter (\<lambda>v. v \<noteq> []) (map py_strip ids)"

section \<open>Creating\<close>

record user_create =
  c_username :: string
  c_password :: string
  c_full_name :: "string option"
  c_email :: "string option"
  c_workgroups :: "string list"
  c_is_admin :: bool
  c_permissions :: "perms option"
  c_pov_env_ids :: "string list option"
  c_role_id :: "string option"

definition blank_user :: "string \<Rightarrow> string \<Rightarrow> principal" where
  "blank_user uid username =
     \<lparr> u_id = uid, u_username = username, u_full_name = [], u_email = [], u_password = None, u_workgroups = [],
       u_is_active = True, u_auth_provider = ''local'', u_oauth_subject = None, u_is_admin = False, u_permissions = Null,
       u_session_permissions = Null, u_jit_permissions = Null, u_role_id = None, u_role_permissions = Null,
       u_accessor_env_id = None, u_pov_env_ids = [], u_is_service_account = False, u_persona = None,
       u_session_persona = None, u_token_scope = None \<rparr>"

definition initial_map :: "user_create \<Rightarrow> http_error + column" where
  "initial_map body =
     (case c_permissions body of
        Some p \<Rightarrow>
          (case validate_permissions_payload p of
             Inl e \<Rightarrow> Inl (Http 422 ''permissions'')
           | Inr q \<Rightarrow> Inr (store_dict (if q \<noteq> [] then q else full_access_map)))
      | None \<Rightarrow> Inr (if c_is_admin body then store_dict nothing_granted else Null))"

definition create_user ::
  "(string \<Rightarrow> string) \<Rightarrow> string \<Rightarrow> user_create \<Rightarrow> desk \<Rightarrow> (http_error + principal) \<times> desk" where
  "create_user hash new_id body dk =
     (if list_ex (\<lambda>u. u_username u = c_username body) (d_users (k_db dk))
      then (Inl (Http 409 ''Username already exists''), dk)
      else if password_length_error (c_password body) \<noteq> []
      then (Inl (Http 400 (password_length_error (c_password body))), dk)
      else (case resolve_role (k_db dk) (c_role_id body) of
              Inl e \<Rightarrow> (Inl e, dk)
            | Inr role \<Rightarrow>
                if role = None \<and> \<not> c_is_admin body then (Inl ROLE_REQUIRED, dk)
                else (case initial_map body of
                        Inl e \<Rightarrow> (Inl e, dk)
                      | Inr column \<Rightarrow>
                          (let u = (blank_user new_id (c_username body))
                                 \<lparr> u_password := Some (hash (c_password body)), u_full_name := or_empty (c_full_name body),
                                   u_email := or_empty (c_email body), u_is_admin := c_is_admin body,
                                   u_workgroups := lowered (c_workgroups body), u_permissions := column,
                                   u_pov_env_ids := (case c_pov_env_ids body of None \<Rightarrow> [] | Some ids \<Rightarrow> clean_env_ids ids) \<rparr>;
                               u = (case role of None \<Rightarrow> u | Some r \<Rightarrow> apply_role_to_user (Some r) u)
                           in (Inr u, add_user u dk)))))"

section \<open>Editing\<close>

text \<open>\<open>_set_sso_sign_in\<close>: the user and the audit entry, if the switch changed something.\<close>

definition set_sso_sign_in :: "string \<Rightarrow> principal \<Rightarrow> bool \<Rightarrow> http_error + (principal \<times> string option)" where
  "set_sso_sign_in admin_id u enable =
     (let provider = provider_of u
      in if enable
         then (if provider \<noteq> ''local'' \<and> provider \<noteq> SSO_PENDING then Inr (u, None)
               else if u_id u = admin_id then Inl (Http 400 ''Cannot switch your own account to SSO'')
               else if u_is_service_account u \<or> an_accessor u
               then Inl (Http 400 ''Only a person's account can sign in with SSO.'')
               else if provider = ''local''
               then Inr (u\<lparr> u_auth_provider := SSO_PENDING \<rparr>, Some ''user_sso_sign_in_enabled'')
               else Inr (u, None))
         else (if provider = SSO_PENDING
               then Inr (u\<lparr> u_auth_provider := ''local'' \<rparr>, Some ''user_sso_sign_in_disabled'')
               else if provider \<noteq> ''local''
               then Inl (Http 409 ''This account is already linked to a single sign-on identity.'')
               else Inr (u, None)))"

definition set_persona :: "bool \<Rightarrow> string \<Rightarrow> principal \<Rightarrow> http_error + principal" where
  "set_persona axis raw u =
     (let want = py_lower (py_strip raw)
      in if want \<noteq> [] \<and> \<not> axis then Inl (Http 409 ''A focus cannot be assigned'')
         else if want \<noteq> [] \<and> want \<notin> set VALID_PERSONAS then Inl (Http 422 (''Unknown persona '' @ quoted want))
         else Inr (u\<lparr> u_persona := or_none (Some want) \<rparr>))"

definition set_permissions :: "perms \<Rightarrow> principal \<Rightarrow> http_error + principal" where
  "set_permissions p u =
     (case validate_permissions_payload p of
        Inl e \<Rightarrow> Inl (Http 422 ''permissions'')
      | Inr q \<Rightarrow>
          if q \<noteq> [] \<or> u_is_service_account u then Inr (u\<lparr> u_permissions := store_dict q \<rparr>)
          else Inr (u\<lparr> u_permissions := store_dict full_access_map \<rparr>))"

definition when_given :: "'a option \<Rightarrow> ('a \<Rightarrow> principal \<Rightarrow> http_error + principal) \<Rightarrow> http_error + principal \<Rightarrow> http_error + principal" where
  "when_given x f u = (case u of Inl e \<Rightarrow> Inl e | Inr v \<Rightarrow> (case x of None \<Rightarrow> Inr v | Some a \<Rightarrow> f a v))"

definition edit_fields :: "(string \<Rightarrow> string) \<Rightarrow> bool \<Rightarrow> user_patch \<Rightarrow> principal \<Rightarrow> http_error + principal" where
  "edit_fields hash axis body u =
     when_given (p_permissions body) set_permissions
       (when_given (p_persona body) (set_persona axis)
         (Inr (u\<lparr> u_full_name := (case p_full_name body of None \<Rightarrow> u_full_name u | Some v \<Rightarrow> v),
                  u_email := (case p_email body of None \<Rightarrow> u_email u | Some v \<Rightarrow> v),
                  u_workgroups := (case p_workgroups body of None \<Rightarrow> u_workgroups u | Some ws \<Rightarrow> lowered ws),
                  u_is_active := (case p_is_active body of None \<Rightarrow> u_is_active u | Some b \<Rightarrow> b),
                  u_is_admin := (case p_is_admin body of None \<Rightarrow> u_is_admin u | Some b \<Rightarrow> b),
                  u_password := (if or_empty (p_password body) \<noteq> [] then Some (hash (or_empty (p_password body))) else u_password u) \<rparr>)))"

definition change_role :: "rbac \<Rightarrow> string \<Rightarrow> string option \<Rightarrow> principal \<Rightarrow> http_error + principal" where
  "change_role db admin_id role_id u =
     (case role_id of
        None \<Rightarrow> Inr u
      | Some raw \<Rightarrow>
          if py_strip raw = or_empty (u_role_id u) then Inr u
          else if u_id u = admin_id then Inl (Http 400 ''Cannot change your own role'')
          else if an_accessor u then Inl ACCESSOR_REFUSAL
          else (case resolve_role db role_id of
                  Inl e \<Rightarrow> Inl e
                | Inr role \<Rightarrow> Inr (apply_role_to_user role u)))"

definition narrow_povs :: "string list option \<Rightarrow> principal \<Rightarrow> http_error + principal" where
  "narrow_povs ids u =
     (case ids of
        None \<Rightarrow> Inr u
      | Some vs \<Rightarrow> if an_accessor u then Inl ACCESSOR_REFUSAL else Inr (u\<lparr> u_pov_env_ids := clean_env_ids vs \<rparr>))"

definition lost_admin :: "user_patch \<Rightarrow> bool \<Rightarrow> principal \<Rightarrow> principal" where
  "lost_admin body was_admin u =
     (if was_admin \<and> \<not> admin_here u \<and> p_permissions body = None
      then u\<lparr> u_permissions := store_dict nothing_granted \<rparr> else u)"

text \<open>The refusals before anything is written.\<close>

definition patch_refusal :: "rbac \<Rightarrow> string \<Rightarrow> user_patch \<Rightarrow> principal \<Rightarrow> http_error option" where
  "patch_refusal db admin_id body u =
     (if an_accessor u then Some ACCESSOR_REFUSAL
      else (case service_account_escalation db u (p_is_admin body) (p_password body) (p_role_id body) of
              Some e \<Rightarrow> Some e
            | None \<Rightarrow>
                if u_id u = admin_id \<and> p_is_admin body = Some False
                then Some (Http 400 ''Cannot remove your own admin privilege'')
                else if or_empty (p_password body) \<noteq> [] \<and> password_length_error (or_empty (p_password body)) \<noteq> []
                then Some (Http 400 (password_length_error (or_empty (p_password body))))
                else if would_leave_without_role u body admin_id then Some ROLE_REQUIRED
                else None))"

text \<open>The end of the handler, after the switch: role, environments, and the map of a former administrator.\<close>

definition finish_patch :: "string \<Rightarrow> user_patch \<Rightarrow> bool \<Rightarrow> principal \<Rightarrow> desk \<Rightarrow> (http_error + principal) \<times> desk" where
  "finish_patch admin_id body was_admin u dk =
     (case change_role (k_db dk) admin_id (p_role_id body) u of
        Inl e \<Rightarrow> (Inl e, dk)
      | Inr u2 \<Rightarrow>
          (case narrow_povs (p_pov_env_ids body) u2 of
             Inl e \<Rightarrow> (Inl e, dk)
           | Inr u3 \<Rightarrow>
               (let u4 = lost_admin body was_admin u3 in (Inr u4, write_user u4 dk))))"

text \<open>
  The switch and its audit entry: the user the handler goes on with and the state it leaves. The entry
  commits the edited row with it, unless an earlier attempt was rolled back; the third clash escapes.
\<close>

definition record_switch ::
  "nat \<Rightarrow> string \<Rightarrow> string \<Rightarrow> principal \<Rightarrow> principal \<Rightarrow> desk \<Rightarrow> http_error + (principal \<times> desk)" where
  "record_switch clashes actor action u v dk =
     (if clashes = 0 then Inr (v, add_audit actor action (u_username v) (write_user v dk))
      else if clashes < 3 then Inr (u, add_audit actor action (u_username v) dk)
      else Inl (Http 500 ''IntegrityError''))"

definition run_switch ::
  "nat \<Rightarrow> principal \<Rightarrow> user_patch \<Rightarrow> principal \<Rightarrow> principal \<Rightarrow> desk \<Rightarrow> http_error + (principal \<times> desk)" where
  "run_switch clashes admin body u u1 dk =
     (case p_sso_sign_in body of
        None \<Rightarrow> Inr (u1, dk)
      | Some enable \<Rightarrow>
          (case set_sso_sign_in (u_id admin) u1 enable of
             Inl e \<Rightarrow> Inl e
           | Inr (u2, None) \<Rightarrow> Inr (u2, dk)
           | Inr (u2, Some action) \<Rightarrow> record_switch clashes (u_username admin) action u u2 dk))"

definition update_user ::
  "(string \<Rightarrow> string) \<Rightarrow> bool \<Rightarrow> nat \<Rightarrow> principal \<Rightarrow> string \<Rightarrow> user_patch \<Rightarrow> desk \<Rightarrow> (http_error + principal) \<times> desk" where
  "update_user hash axis clashes admin uid body dk =
     (case get_user (k_db dk) uid of
        None \<Rightarrow> (Inl (Http 404 ''User not found''), dk)
      | Some u \<Rightarrow>
          (case patch_refusal (k_db dk) (u_id admin) body u of
             Some e \<Rightarrow> (Inl e, dk)
           | None \<Rightarrow>
               (case edit_fields hash axis body u of
                  Inl e \<Rightarrow> (Inl e, dk)
                | Inr u1 \<Rightarrow>
                    (case run_switch clashes admin body u u1 dk of
                       Inl e \<Rightarrow> (Inl e, dk)
                     | Inr (u2, d) \<Rightarrow> finish_patch (u_id admin) body (admin_here u) u2 d))))"

section \<open>Deactivating, deleting, service accounts\<close>

definition deactivate_user :: "principal \<Rightarrow> string \<Rightarrow> desk \<Rightarrow> (http_error + string) \<times> desk" where
  "deactivate_user admin uid dk =
     (if uid = u_id admin then (Inl (Http 400 ''Cannot deactivate your own account''), dk)
      else (case get_user (k_db dk) uid of
              None \<Rightarrow> (Inl (Http 404 ''User not found''), dk)
            | Some u \<Rightarrow>
                if an_accessor u then (Inl ACCESSOR_REFUSAL, dk)
                else (Inr ''User deactivated'', write_user (u\<lparr> u_is_active := False \<rparr>) dk)))"

definition delete_user_permanent :: "principal \<Rightarrow> string \<Rightarrow> desk \<Rightarrow> (http_error + string) \<times> desk" where
  "delete_user_permanent admin uid dk =
     (if uid = u_id admin then (Inl (Http 400 ''Cannot delete your own account''), dk)
      else (case get_user (k_db dk) uid of
              None \<Rightarrow> (Inl (Http 404 ''User not found''), dk)
            | Some u \<Rightarrow>
                if an_accessor u then (Inl ACCESSOR_REFUSAL, dk)
                else (Inr ''User permanently deleted'',
                      dk\<lparr> k_db := (k_db dk)\<lparr> d_users := filter (\<lambda>x. u_id x \<noteq> uid) (d_users (k_db dk)) \<rparr> \<rparr>)))"

definition AUTH_PROVIDER :: string where "AUTH_PROVIDER = ''service''"

definition new_service_account ::
  "string \<Rightarrow> string \<Rightarrow> string \<Rightarrow> string list \<Rightarrow> perms \<Rightarrow> rbac \<Rightarrow> http_error + principal" where
  "new_service_account new_id username full_name workgroups permissions db =
     (let name = py_strip username
      in if name = [] then Inl (Http 400 ''A service account needs a username.'')
         else if list_ex (\<lambda>u. u_username u = name) (d_users db)
         then Inl (Http 409 (''The username '' @ quoted name @ '' is already taken.''))
         else Inr ((blank_user new_id name)
                     \<lparr> u_full_name := (if full_name \<noteq> [] then full_name else name), u_auth_provider := AUTH_PROVIDER,
                       u_is_service_account := True, u_workgroups := lowered workgroups,
                       u_permissions := store_dict permissions \<rparr>))"

definition create_service_account ::
  "principal \<Rightarrow> string \<Rightarrow> string \<Rightarrow> string option \<Rightarrow> string list \<Rightarrow> perms option \<Rightarrow> string option \<Rightarrow> desk \<Rightarrow>
   (http_error + principal) \<times> desk" where
  "create_service_account admin new_id username full_name workgroups permissions role_id dk =
     (case validate_permissions_payload (case permissions of None \<Rightarrow> [] | Some p \<Rightarrow> p) of
        Inl e \<Rightarrow> (Inl (Http 422 ''permissions''), dk)
      | Inr q \<Rightarrow>
          (case resolve_role (k_db dk) role_id of
             Inl e \<Rightarrow> (Inl e, dk)
           | Inr role \<Rightarrow>
               if (case role of None \<Rightarrow> False | Some r \<Rightarrow> admin_flag (role_map r))
               then (Inl (Http 400 ''A service account cannot hold an administrator role.''), dk)
               else (case new_service_account new_id username (or_empty full_name) workgroups q (k_db dk) of
                       Inl e \<Rightarrow> (Inl e, dk)
                     | Inr u \<Rightarrow>
                         (let u = (case role of None \<Rightarrow> u | Some r \<Rightarrow> apply_role_to_user (Some r) u)
                          in (Inr u, add_audit (u_username admin) ''service_account.create'' (u_username u) (add_user u dk))))))"

section \<open>What an edit keeps\<close>

lemma find_written:
  "List.find (\<lambda>x. u_id x = uid) (tbl_update (\<lambda>x. u_id x = u_id v) (\<lambda>_. v) us) =
     (if u_id v = uid \<and> List.find (\<lambda>x. u_id x = uid) us \<noteq> None then Some v else List.find (\<lambda>x. u_id x = uid) us)"
  by (induction us) (auto simp: tbl_update_def)

lemma get_user_written:
  "get_user (k_db (write_user v dk)) uid =
     (if u_id v = uid \<and> get_user (k_db dk) uid \<noteq> None then Some v else get_user (k_db dk) uid)"
  by (simp add: get_user_def write_user_def find_written)

lemma get_user_audit [simp]: "k_db (add_audit a b c dk) = k_db dk"
  by (simp add: add_audit_def)

lemma get_user_id: "get_user db uid = Some u \<Longrightarrow> u_id u = uid \<and> u \<in> set (d_users db)"
  using find_Some_set by (fastforce simp: get_user_def)

lemma roles_written [simp]: "d_roles (k_db (write_user v dk)) = d_roles (k_db dk)"
  by (simp add: write_user_def)

lemma get_role_written [simp]: "get_role (k_db (write_user v dk)) rid = get_role (k_db dk) rid"
  by (simp add: get_role_def)

lemma resolve_role_written [simp]: "resolve_role (k_db (write_user v dk)) raw = resolve_role (k_db dk) raw"
  by (simp add: resolve_role_def split: option.splits)

definition same_identity :: "principal \<Rightarrow> principal \<Rightarrow> bool" where
  "same_identity u v \<longleftrightarrow> u_id v = u_id u \<and> u_username v = u_username u \<and> u_is_service_account v = u_is_service_account u
     \<and> u_accessor_env_id v = u_accessor_env_id u \<and> u_session_permissions v = u_session_permissions u
     \<and> u_jit_permissions v = u_jit_permissions u \<and> u_token_scope v = u_token_scope u"

definition same_role :: "principal \<Rightarrow> principal \<Rightarrow> bool" where
  "same_role u v \<longleftrightarrow> u_role_id v = u_role_id u \<and> u_role_permissions v = u_role_permissions u"

definition same_access :: "principal \<Rightarrow> principal \<Rightarrow> bool" where
  "same_access u v \<longleftrightarrow> same_identity u v \<and> same_role u v \<and> u_permissions v = u_permissions u
     \<and> u_is_admin v = u_is_admin u \<and> u_is_active v = u_is_active u \<and> u_password v = u_password u"

lemmas same_defs = same_identity_def same_role_def same_access_def

lemma edit_fields_keeps:
  assumes "edit_fields hash axis body u = Inr v"
  shows "same_identity u v \<and> same_role u v \<and> u_auth_provider v = u_auth_provider u
    \<and> u_is_admin v = (case p_is_admin body of None \<Rightarrow> u_is_admin u | Some b \<Rightarrow> b)
    \<and> u_is_active v = (case p_is_active body of None \<Rightarrow> u_is_active u | Some b \<Rightarrow> b)
    \<and> u_password v = (if or_empty (p_password body) \<noteq> [] then Some (hash (or_empty (p_password body))) else u_password u)
    \<and> (p_permissions body = None \<longrightarrow> u_permissions v = u_permissions u)"
proof -
  define base where "base = u\<lparr> u_full_name := (case p_full_name body of None \<Rightarrow> u_full_name u | Some v \<Rightarrow> v),
      u_email := (case p_email body of None \<Rightarrow> u_email u | Some v \<Rightarrow> v),
      u_workgroups := (case p_workgroups body of None \<Rightarrow> u_workgroups u | Some ws \<Rightarrow> lowered ws),
      u_is_active := (case p_is_active body of None \<Rightarrow> u_is_active u | Some b \<Rightarrow> b),
      u_is_admin := (case p_is_admin body of None \<Rightarrow> u_is_admin u | Some b \<Rightarrow> b),
      u_password := (if or_empty (p_password body) \<noteq> [] then Some (hash (or_empty (p_password body))) else u_password u) \<rparr>"
  obtain w where w: "when_given (p_persona body) (set_persona axis) (Inr base) = Inr w"
    and v: "when_given (p_permissions body) set_permissions (Inr w) = Inr v"
    using assms unfolding edit_fields_def base_def [symmetric]
    by (auto simp: when_given_def [of "p_permissions body"] split: sum.splits)
  have "same_access base w \<and> u_auth_provider w = u_auth_provider base"
    using w by (auto simp: when_given_def set_persona_def Let_def same_defs split: option.splits if_splits)
  moreover have "same_identity w v \<and> same_role w v \<and> u_auth_provider v = u_auth_provider w \<and> u_is_admin v = u_is_admin w
      \<and> u_is_active v = u_is_active w \<and> u_password v = u_password w \<and> (p_permissions body = None \<longrightarrow> u_permissions v = u_permissions w)"
    using v by (auto simp: when_given_def set_permissions_def same_defs split: option.splits if_splits sum.splits)
  moreover have "same_identity u base \<and> same_role u base \<and> u_auth_provider base = u_auth_provider u
      \<and> u_permissions base = u_permissions u"
    by (simp add: base_def same_defs)
  moreover have "u_is_admin base = (case p_is_admin body of None \<Rightarrow> u_is_admin u | Some b \<Rightarrow> b)"
      "u_is_active base = (case p_is_active body of None \<Rightarrow> u_is_active u | Some b \<Rightarrow> b)"
      "u_password base = (if or_empty (p_password body) \<noteq> [] then Some (hash (or_empty (p_password body))) else u_password u)"
    by (simp_all add: base_def)
  ultimately show ?thesis by (simp add: same_defs)
qed

lemma set_sso_keeps:
  assumes "set_sso_sign_in aid u b = Inr (v, entry)"
  shows "same_access u v \<and> (entry = None \<longrightarrow> v = u)
    \<and> (provider_of u \<in> set SSO_PROVIDERS \<longrightarrow> v = u)"
  using assms
  by (auto simp: set_sso_sign_in_def Let_def SSO_PROVIDERS_def same_defs SSO_PENDING_def split: if_splits)

lemma change_role_cases:
  assumes "change_role db aid role_id u = Inr v"
  obtains (same) "v = u" "role_id = None \<or> py_strip (or_empty role_id) = or_empty (u_role_id u)"
  | (changed) role where "v = apply_role_to_user role u" "u_id u \<noteq> aid" "resolve_role db role_id = Inr role"
      "role_id \<noteq> None"
  using assms by (auto simp: change_role_def split: option.splits if_splits sum.splits)

lemma narrow_povs_keeps:
  "narrow_povs ids u = Inr v \<Longrightarrow> same_access u v \<and> u_auth_provider v = u_auth_provider u"
  by (auto simp: narrow_povs_def same_defs split: option.splits if_splits)

lemma apply_role_keeps [simp]:
  "u_id (apply_role_to_user r u) = u_id u" "u_username (apply_role_to_user r u) = u_username u"
  "u_is_service_account (apply_role_to_user r u) = u_is_service_account u"
  "u_accessor_env_id (apply_role_to_user r u) = u_accessor_env_id u"
  "u_permissions (apply_role_to_user r u) = u_permissions u"
  "u_session_permissions (apply_role_to_user r u) = u_session_permissions u"
  "u_jit_permissions (apply_role_to_user r u) = u_jit_permissions u"
  "u_token_scope (apply_role_to_user r u) = u_token_scope u"
  "u_is_admin (apply_role_to_user r u) = u_is_admin u" "u_is_active (apply_role_to_user r u) = u_is_active u"
  "u_auth_provider (apply_role_to_user r u) = u_auth_provider u" "u_password (apply_role_to_user r u) = u_password u"
  by (simp_all add: apply_role_to_user_def split: option.splits)

lemma apply_role_identity: "same_identity u (apply_role_to_user role u)"
  by (simp add: same_identity_def)

lemma run_switch_cases:
  assumes "run_switch clashes admin body u u1 dk = Inr (u2, d)"
  obtains (none) "p_sso_sign_in body = None" "u2 = u1" "d = dk"
  | (same) b where "p_sso_sign_in body = Some b" "set_sso_sign_in (u_id admin) u1 b = Inr (u2, None)" "d = dk"
  | (stored) b action where "p_sso_sign_in body = Some b" "set_sso_sign_in (u_id admin) u1 b = Inr (u2, Some action)"
      "d = add_audit (u_username admin) action (u_username u2) (write_user u2 dk)" "clashes = 0"
  | (lost) b action v where "p_sso_sign_in body = Some b" "set_sso_sign_in (u_id admin) u1 b = Inr (v, Some action)"
      "u2 = u" "d = add_audit (u_username admin) action (u_username v) dk" "0 < clashes"
  using assms by (auto simp: run_switch_def record_switch_def split: option.splits sum.splits if_splits)

text \<open>
  A run of the handler on an account that exists: no row is changed; or only the edited fields and the
  switch are, with a refusal; or the whole edit; or, after a clash, the end of the edit alone.
\<close>

definition switch_taken :: "nat \<Rightarrow> string \<Rightarrow> user_patch \<Rightarrow> principal \<Rightarrow> principal \<Rightarrow> principal \<Rightarrow> bool" where
  "switch_taken clashes aid body u u1 u2 \<longleftrightarrow>
     (p_sso_sign_in body = None \<and> u2 = u1)
     \<or> (\<exists>b entry. p_sso_sign_in body = Some b \<and> set_sso_sign_in aid u1 b = Inr (u2, entry))
     \<or> (0 < clashes \<and> u2 = u)"

lemma finish_patch_cases:
  assumes "finish_patch aid body was u d = (res, dk')"
  obtains (bad) e where "res = Inl e" "dk' = d"
  | (good) u3 u4 where "change_role (k_db d) aid (p_role_id body) u = Inr u3" "narrow_povs (p_pov_env_ids body) u3 = Inr u4"
      "res = Inr (lost_admin body was u4)" "dk' = write_user (lost_admin body was u4) d"
proof (cases "change_role (k_db d) aid (p_role_id body) u")
  case (Inl e)
  then show thesis using assms bad [of e] by (simp add: finish_patch_def)
next
  case role: (Inr u3)
  show thesis
  proof (cases "narrow_povs (p_pov_env_ids body) u3")
    case (Inl e)
    then show thesis using assms role bad [of e] by (simp add: finish_patch_def)
  next
    case (Inr u4)
    then show thesis using assms role good [of u3 u4] by (simp add: finish_patch_def Let_def)
  qed
qed

lemma update_user_cases:
  assumes "update_user hash axis clashes admin uid body dk = (res, dk')" "get_user (k_db dk) uid = Some u"
  obtains (refused) e where "res = Inl e" "k_db dk' = k_db dk"
  | (early) e u1 u2 action where "res = Inl e" "patch_refusal (k_db dk) (u_id admin) body u = None"
      "edit_fields hash axis body u = Inr u1" "p_sso_sign_in body \<noteq> None"
      "set_sso_sign_in (u_id admin) u1 (the (p_sso_sign_in body)) = Inr (u2, Some action)"
      "dk' = add_audit (u_username admin) action (u_username u2) (write_user u2 dk)"
  | (edited) u1 u2 u3 u4 where "patch_refusal (k_db dk) (u_id admin) body u = None"
      "edit_fields hash axis body u = Inr u1"
      "switch_taken clashes (u_id admin) body u u1 u2"
      "change_role (k_db dk) (u_id admin) (p_role_id body) u2 = Inr u3"
      "narrow_povs (p_pov_env_ids body) u3 = Inr u4"
      "res = Inr (lost_admin body (admin_here u) u4)"
      "get_user (k_db dk') uid = Some (lost_admin body (admin_here u) u4)"
proof -
  have uid: "u_id u = uid" using get_user_id [OF assms(2)] by simp
  have lost_id: "u_id (lost_admin body w v) = u_id v" for w v by (simp add: lost_admin_def)
  have role_id: "u_id v = u_id w" if "change_role db aid rid w = Inr v" for db aid rid w v
    using that by (elim change_role_cases) (use apply_role_identity in \<open>auto simp: same_identity_def\<close>)
  have pov_id: "u_id v = u_id w" if "narrow_povs ids w = Inr v" for ids w v
    using narrow_povs_keeps [OF that] by (simp add: same_defs)
  consider (pre) e where "res = Inl e" "dk' = dk"
    | (fin) u1 u2 d where "patch_refusal (k_db dk) (u_id admin) body u = None" "edit_fields hash axis body u = Inr u1"
      "run_switch clashes admin body u u1 dk = Inr (u2, d)"
      "finish_patch (u_id admin) body (admin_here u) u2 d = (res, dk')"
  proof (cases "patch_refusal (k_db dk) (u_id admin) body u")
    case (Some e)
    then show ?thesis using assms pre [of e] by (simp add: update_user_def)
  next
    case None
    show ?thesis
    proof (cases "edit_fields hash axis body u")
      case (Inl e)
      then show ?thesis using assms None pre [of e] by (simp add: update_user_def)
    next
      case (Inr u1)
      then show ?thesis
        using assms None pre fin [of u1] by (cases "run_switch clashes admin body u u1 dk") (auto simp: update_user_def)
    qed
  qed
  then show thesis
  proof cases
    case pre
    then show thesis by (intro refused) auto
  next
    case fin
    have ids: "u_id u2 = uid"
      using fin(3) edit_fields_keeps [OF fin(2)] set_sso_keeps uid
      by (elim run_switch_cases) (fastforce simp: same_defs)+
    have taken: "switch_taken clashes (u_id admin) body u u1 u2"
      using fin(3) by (elim run_switch_cases) (auto simp: switch_taken_def)
    have db: "resolve_role (k_db d) raw = resolve_role (k_db dk) raw" for raw
      using fin(3) by (elim run_switch_cases) auto
    have roles: "change_role (k_db d) aid rid w = change_role (k_db dk) aid rid w" for aid rid w
      by (simp add: change_role_def db split: option.splits)
    have there: "get_user (k_db d) uid \<noteq> None"
      using fin(3) assms(2) by (elim run_switch_cases) (auto simp: get_user_written)
    show thesis
      using fin(4)
    proof (cases rule: finish_patch_cases)
      case (good u3 u4)
      then have steps: "change_role (k_db dk) (u_id admin) (p_role_id body) u2 = Inr u3"
        "narrow_povs (p_pov_env_ids body) u3 = Inr u4" by (simp_all add: roles)
      have "get_user (k_db dk') uid = Some (lost_admin body (admin_here u) u4)"
        using there ids role_id [OF steps(1)] pov_id [OF steps(2)] good(4) by (simp add: get_user_written lost_id)
      with good(3) steps fin(1,2) taken show thesis by (intro edited [of u1 u2 u3 u4]) auto
    next
      case (bad e)
      show thesis
        using fin(3)
      proof (cases rule: run_switch_cases)
        case (stored b action)
        with bad fin(1,2) show thesis by (intro early [of e u1 u2 action]) auto
      qed (use bad in \<open>auto intro!: refused [of e]\<close>)
    qed
  qed
qed

lemma patch_refusal_None:
  "patch_refusal db aid body u = None \<longleftrightarrow>
     \<not> an_accessor u \<and> service_account_escalation db u (p_is_admin body) (p_password body) (p_role_id body) = None
     \<and> \<not> (u_id u = aid \<and> p_is_admin body = Some False)
     \<and> \<not> (or_empty (p_password body) \<noteq> [] \<and> password_length_error (or_empty (p_password body)) \<noteq> [])
     \<and> \<not> would_leave_without_role u body aid"
  by (auto simp: patch_refusal_def split: option.splits)

lemma lost_admin_simps [simp]:
  "u_id (lost_admin body w u) = u_id u" "u_is_admin (lost_admin body w u) = u_is_admin u"
  "u_role_id (lost_admin body w u) = u_role_id u" "u_role_permissions (lost_admin body w u) = u_role_permissions u"
  "u_is_service_account (lost_admin body w u) = u_is_service_account u"
  "u_password (lost_admin body w u) = u_password u" "u_auth_provider (lost_admin body w u) = u_auth_provider u"
  "u_is_active (lost_admin body w u) = u_is_active u"
  "admin_here (lost_admin body w u) = admin_here u"
  by (simp_all add: lost_admin_def admin_here_def)

lemma switched:
  assumes "edit_fields hash axis body u = Inr u1" and "switch_taken clashes aid body u u1 u2"
  shows "same_identity u u2 \<and> same_role u u2
    \<and> (0 < clashes \<and> u2 = u
       \<or> u_is_admin u2 = (case p_is_admin body of None \<Rightarrow> u_is_admin u | Some b \<Rightarrow> b)
         \<and> u_is_active u2 = (case p_is_active body of None \<Rightarrow> u_is_active u | Some b \<Rightarrow> b)
         \<and> u_password u2 = (if or_empty (p_password body) \<noteq> [] then Some (hash (or_empty (p_password body))) else u_password u))
    \<and> (p_permissions body = None \<longrightarrow> u_permissions u2 = u_permissions u)
    \<and> (provider_of u \<in> set SSO_PROVIDERS \<longrightarrow> u_auth_provider u2 = u_auth_provider u)"
proof (cases "0 < clashes \<and> u2 = u")
  case True
  then show ?thesis by (simp add: same_defs)
next
  case False
  then have "same_access u1 u2 \<and> (provider_of u1 \<in> set SSO_PROVIDERS \<longrightarrow> u2 = u1)"
    using assms(2) set_sso_keeps by (auto simp: same_defs switch_taken_def)
  moreover have "provider_of u1 = provider_of u"
    using edit_fields_keeps [OF assms(1)] by (simp add: provider_of_def)
  ultimately show ?thesis
    using edit_fields_keeps [OF assms(1)] by (auto simp: same_defs)
qed

lemma switched_stored:
  assumes "edit_fields hash axis body u = Inr u1" and "p_sso_sign_in body \<noteq> None"
    and "set_sso_sign_in aid u1 (the (p_sso_sign_in body)) = Inr (u2, entry)"
  shows "same_identity u u2 \<and> same_role u u2
    \<and> u_is_admin u2 = (case p_is_admin body of None \<Rightarrow> u_is_admin u | Some b \<Rightarrow> b)
    \<and> u_password u2 = (if or_empty (p_password body) \<noteq> [] then Some (hash (or_empty (p_password body))) else u_password u)"
proof -
  have "switch_taken 0 aid body u u1 u2" using assms(2,3) by (auto simp: switch_taken_def)
  from switched [OF assms(1) this] show ?thesis by simp
qed

text \<open>
  No edit takes an administrator's own access away: whatever the request holds and whatever the
  answer is, the row of the administrator who sends it keeps its role and stays an administrator's.
\<close>

theorem own_admin_access_kept:
  assumes "update_user hash axis clashes admin (u_id admin) body dk = (res, dk')"
    and "get_user (k_db dk) (u_id admin) = Some u" "admin_here u"
  shows "\<exists>u'. get_user (k_db dk') (u_id admin) = Some u' \<and> admin_here u'
    \<and> u_role_id u' = u_role_id u \<and> u_role_permissions u' = u_role_permissions u"
proof -
  have uid: "u_id u = u_id admin" using get_user_id [OF assms(2)] by simp
  have kept: "admin_here v \<and> u_role_id v = u_role_id u \<and> u_role_permissions v = u_role_permissions u"
    if "same_role u v" "u_is_admin v = (case p_is_admin body of None \<Rightarrow> u_is_admin u | Some b \<Rightarrow> b)" "p_is_admin body \<noteq> Some False" for v
    using that assms(3) by (auto simp: same_role_def admin_here_def split: option.splits)
  show ?thesis
    using assms(1,2)
  proof (cases rule: update_user_cases)
    case refused
    with assms show ?thesis by simp
  next
    case (early e u1 u2 action)
    have "same_identity u u2 \<and> same_role u u2 \<and> u_is_admin u2 = (case p_is_admin body of None \<Rightarrow> u_is_admin u | Some b \<Rightarrow> b)"
      using switched_stored [OF early(3-5)] by simp
    moreover have "p_is_admin body \<noteq> Some False" using early(2) uid by (auto simp: patch_refusal_None)
    moreover have "get_user (k_db dk') (u_id admin) = Some u2"
      using early(6) assms(2) uid calculation by (simp add: get_user_written same_identity_def)
    ultimately show ?thesis using kept [of u2] by simp
  next
    case (edited u1 u2 u3 u4)
    note sw = switched [OF edited(2,3)]
    have "u_id u2 = u_id admin" using sw uid by (simp add: same_identity_def)
    then have "u3 = u2" using edited(4) by (elim change_role_cases) auto
    then have "same_role u u4 \<and> u_is_admin u4 = u_is_admin u2"
      using narrow_povs_keeps [OF edited(5)] sw by (auto simp: same_defs)
    moreover have "p_is_admin body \<noteq> Some False" using edited(1) uid by (auto simp: patch_refusal_None)
    ultimately have "admin_here u4 \<and> u_role_id u4 = u_role_id u \<and> u_role_permissions u4 = u_role_permissions u"
      using kept [of u4] sw assms(3) by (metis admin_here_def same_role_def)
    then show ?thesis using edited(7) by simp
  qed
qed

text \<open>
  C37. An accepted edit that takes the administrator flag or role away and sends no map leaves the
  account, whose maps are as the validator admits them, with nothing of its own: it then holds what its
  role, its groups and Entitle grant, and nothing else. What a refused edit may leave is shown below.
\<close>

theorem former_admin_holds_nothing:
  assumes "update_user hash axis clashes admin uid body dk = (Inr u', dk')" "get_user (k_db dk) uid = Some u"
    and "admin_here u" "\<not> admin_here u'" "p_permissions body = None"
    and plain: "plain_user u'" and scope: "scope \<noteq> ''is_admin''" and held: "has_permission u' scope level = Some True"
  shows "get_user (k_db dk') uid = Some u'
    \<and> (admin_flag (column_dict (u_session_permissions u)) \<or> admin_flag (column_dict (u_jit_permissions u))
       \<or> grants (column_dict (u_role_permissions u')) scope level
       \<or> grants (column_dict (u_session_permissions u)) scope level
       \<or> grants (column_dict (u_jit_permissions u)) scope level)"
  using assms(1,2)
proof (cases rule: update_user_cases)
  case refused
  then show ?thesis by simp
next
  case early
  then show ?thesis by simp
next
  case (edited u1 u2 u3 u4)
  then have u': "u' = lost_admin body (admin_here u) u4" by simp
  with assms(3-5) have perms: "u_permissions u' = store_dict nothing_granted" by (simp add: lost_admin_def split: if_splits)
  have none: "\<not> grants nothing_granted scope level"
    by (auto simp: grants_def nothing_granted_def split: option.splits grant.splits dest!: map_of_SomeD)
  have "same_identity u2 u3"
    using edited(4) by (elim change_role_cases) (auto simp: same_identity_def)
  then have cols: "u_session_permissions u' = u_session_permissions u" "u_jit_permissions u' = u_jit_permissions u"
    using switched [OF edited(2,3)] narrow_povs_keeps [OF edited(5)] u' by (auto simp: same_defs lost_admin_def)
  have adm: "is_effective_admin u' \<longrightarrow>
      admin_flag (column_dict (u_session_permissions u)) \<or> admin_flag (column_dict (u_jit_permissions u))"
    using assms(4) cols by (auto simp: is_effective_admin_def admin_here_def)
  show ?thesis
    using permission_is_union [OF plain scope, of level] held adm cols perms none edited(7) u'
    by (auto simp: permission_columns_def)
qed

text \<open>
  After a successful edit of more than the operational fields of somebody else's account, whose audit
  entry met no clash, the account is an administrator's, a service account, one of a sign-in provider, or it holds a role.
\<close>

theorem edited_person_has_role:
  assumes "update_user hash axis 0 admin uid body dk = (Inr u', dk')" "get_user (k_db dk) uid = Some u"
    and "uid \<noteq> u_id admin" "\<not> set (p_fields_set body) \<subseteq> set OPERATIONAL_FIELDS"
  shows "u_is_admin u' \<or> u_is_service_account u' \<or> provider_of u' \<in> set SSO_PROVIDERS
    \<or> (\<exists>rid. u_role_id u' = Some rid \<and> rid \<noteq> [])"
  using assms(1,2)
proof (cases rule: update_user_cases)
  case refused
  then show ?thesis by simp
next
  case early
  then show ?thesis by simp
next
  case (edited u1 u2 u3 u4)
  have uid: "u_id u = uid" using get_user_id [OF assms(2)] by simp
  note sw = switched [OF edited(2,3)] and nar = narrow_povs_keeps [OF edited(5)]
  have u': "u' = lost_admin body (admin_here u) u4" using edited by simp
  have "\<not> would_leave_without_role u body (u_id admin)" and na: "\<not> an_accessor u"
    using edited(1) by (simp_all add: patch_refusal_None)
  then consider (admin) "case p_is_admin body of None \<Rightarrow> u_is_admin u | Some b \<Rightarrow> b" | (service) "u_is_service_account u"
    | (sso) "provider_of u \<in> set SSO_PROVIDERS"
    | (role) "(case p_role_id body of None \<Rightarrow> or_empty (u_role_id u) | Some r \<Rightarrow> py_strip r) \<noteq> []"
    using assms(3,4) uid by (auto simp: would_leave_without_role_def)
  moreover have keep3: "u_is_admin u3 = u_is_admin u2 \<and> u_is_service_account u3 = u_is_service_account u2 \<and> u_auth_provider u3 = u_auth_provider u2"
    using edited(4) by (elim change_role_cases) auto
  ultimately show ?thesis
  proof cases
    case admin
    then show ?thesis using sw nar keep3 u' by (simp add: same_defs)
  next
    case service
    then show ?thesis using sw nar keep3 u' by (simp add: same_defs)
  next
    case sso
    then have "u_auth_provider u' = u_auth_provider u" using sw nar keep3 u' by simp
    then have "provider_of u' = provider_of u" by (simp add: provider_of_def)
    with sso show ?thesis by simp
  next
    case role
    have "\<exists>rid. u_role_id u3 = Some rid \<and> rid \<noteq> []"
      using edited(4)
    proof (cases rule: change_role_cases)
      case same
      have "or_empty (u_role_id u2) \<noteq> []"
        using same role sw by (auto simp: same_role_def split: option.splits)
      with same show ?thesis by (cases "u_role_id u2") auto
    next
      case (changed r)
      then obtain raw where raw: "p_role_id body = Some raw" by auto
      with role have "py_strip raw \<noteq> []" by simp
      with changed(3) raw obtain ar where "r = Some ar" "get_role (k_db dk) (py_strip raw) = Some ar"
        by (cases "get_role (k_db dk) (py_strip raw)") (auto simp: resolve_role_def)
      moreover from this have "r_id ar = py_strip raw"
        using find_Some_set by (fastforce simp: get_role_def split: if_splits)
      ultimately show ?thesis using changed(1) \<open>py_strip raw \<noteq> []\<close> by (simp add: apply_role_to_user_def)
    qed
    then show ?thesis using nar u' by (simp add: same_defs)
  qed
qed

definition workload_ok :: "principal \<Rightarrow> bool" where
  "workload_ok u \<longleftrightarrow> (u_is_service_account u \<longrightarrow>
     \<not> u_is_admin u \<and> u_password u = None \<and> \<not> admin_flag (column_dict (u_role_permissions u)))"

lemma escalation_None:
  assumes "service_account_escalation db u is_admin password role_id = None" "u_is_service_account u"
  shows "is_admin \<noteq> Some True" "or_empty password = []"
    "resolve_role db role_id = Inr (Some role) \<Longrightarrow> \<not> admin_flag (role_map role)"
proof -
  show "is_admin \<noteq> Some True" "or_empty password = []"
    using assms by (auto simp: service_account_escalation_def split: if_splits)
  assume r: "resolve_role db role_id = Inr (Some role)"
  then have "or_empty role_id \<noteq> []"
    by (auto simp: resolve_role_def py_strip_def split: option.splits if_splits)
  with assms r show "\<not> admin_flag (role_map role)"
    by (auto simp: service_account_escalation_def split: if_splits)
qed

text \<open>
  C38. A service account is never stored as an administrator, with a password or with a role that
  carries the administrator flag, whatever is sent to the handler, accepted or refused, and however
  often its audit entry meets a clash.
\<close>

theorem service_account_never_escalates:
  assumes "update_user hash axis clashes admin uid body dk = (res, dk')" "get_user (k_db dk) uid = Some u" "workload_ok u"
  shows "\<exists>u'. get_user (k_db dk') uid = Some u' \<and> workload_ok u' \<and> u_is_service_account u' = u_is_service_account u"
  using assms(1,2)
proof (cases rule: update_user_cases)
  case refused
  with assms show ?thesis by simp
next
  case (early e u1 u2 action)
  have uid: "u_id u = uid" using get_user_id [OF assms(2)] by simp
  have sw: "same_identity u u2 \<and> same_role u u2" using switched_stored [OF early(3-5)] by simp
  have u2: "get_user (k_db dk') uid = Some u2"
    using early(6) assms(2) uid sw by (simp add: get_user_written same_identity_def)
  have fields: "u_is_admin u2 = (case p_is_admin body of None \<Rightarrow> u_is_admin u | Some b \<Rightarrow> b)"
    "u_password u2 = (if or_empty (p_password body) \<noteq> [] then Some (hash (or_empty (p_password body))) else u_password u)"
    using switched_stored [OF early(3-5)] by simp_all
  have "workload_ok u2"
    unfolding workload_ok_def
  proof
    assume "u_is_service_account u2"
    then have svc: "u_is_service_account u" using sw by (simp add: same_identity_def)
    moreover have "service_account_escalation (k_db dk) u (p_is_admin body) (p_password body) (p_role_id body) = None"
      using early(2) by (simp add: patch_refusal_None)
    ultimately have "p_is_admin body \<noteq> Some True" "or_empty (p_password body) = []"
      using escalation_None(1,2) by blast+
    with fields sw svc assms(3) show "\<not> u_is_admin u2 \<and> u_password u2 = None \<and> \<not> admin_flag (column_dict (u_role_permissions u2))"
      by (auto simp: workload_ok_def same_role_def split: option.splits)
  qed
  with u2 sw show ?thesis by (simp add: same_identity_def)
next
  case (edited u1 u2 u3 u4)
  note sw = switched [OF edited(2,3)] and nar = narrow_povs_keeps [OF edited(5)]
  define u' where "u' = lost_admin body (admin_here u) u4"
  have esc: "service_account_escalation (k_db dk) u (p_is_admin body) (p_password body) (p_role_id body) = None"
    using edited(1) by (simp add: patch_refusal_None)
  have keep3: "u_is_admin u3 = u_is_admin u2 \<and> u_is_service_account u3 = u_is_service_account u2 \<and> u_password u3 = u_password u2"
    using edited(4) by (elim change_role_cases) auto
  have role3: "\<not> admin_flag (column_dict (u_role_permissions u3))" if svc: "u_is_service_account u"
    using edited(4)
  proof (cases rule: change_role_cases)
    case same
    then show ?thesis using sw svc assms(3) by (simp add: workload_ok_def same_role_def)
  next
    case (changed role)
    show ?thesis
    proof (cases role)
      case None
      then show ?thesis using changed(1) by (simp add: apply_role_to_user_def column_dict_def)
    next
      case (Some r)
      then have "\<not> admin_flag (role_map r)" using escalation_None(3) [OF esc svc] changed(3) by blast
      then show ?thesis using changed(1) Some by (simp add: apply_role_to_user_def)
    qed
  qed
  have "workload_ok u'"
    unfolding workload_ok_def
  proof
    assume "u_is_service_account u'"
    then have svc: "u_is_service_account u" using sw nar keep3 by (simp add: u'_def same_defs)
    then have "p_is_admin body \<noteq> Some True" "or_empty (p_password body) = []"
      using escalation_None(1,2) [OF esc] by blast+
    with sw nar keep3 role3 svc assms(3) show "\<not> u_is_admin u' \<and> u_password u' = None \<and> \<not> admin_flag (column_dict (u_role_permissions u'))"
      by (auto simp: workload_ok_def u'_def same_defs split: option.splits)
  qed
  moreover have "u_is_service_account u' = u_is_service_account u" using sw nar keep3 by (simp add: u'_def same_defs)
  ultimately show ?thesis using edited(7) by (simp add: u'_def)
qed

lemma switch_run:
  assumes "edit_fields hash axis body u = Inr u1" "p_sso_sign_in body = Some on"
    and "provider_of u = (if on then ''local'' else SSO_PENDING)" "u_id u \<noteq> aid"
    and "\<not> an_accessor u" "on \<longrightarrow> \<not> u_is_service_account u"
  shows "set_sso_sign_in aid u1 on = Inr (u1\<lparr> u_auth_provider := (if on then SSO_PENDING else ''local'') \<rparr>,
    Some (if on then ''user_sso_sign_in_enabled'' else ''user_sso_sign_in_disabled''))"
proof -
  have "same_identity u u1 \<and> u_auth_provider u1 = u_auth_provider u" using edit_fields_keeps [OF assms(1)] by simp
  then have "provider_of u1 = provider_of u" "an_accessor u1 = an_accessor u" "u_id u1 = u_id u"
    "u_is_service_account u1 = u_is_service_account u"
    by (simp_all add: provider_of_def an_accessor_def same_identity_def)
  with assms(3-6) show ?thesis by (auto simp: set_sso_sign_in_def SSO_PENDING_def)
qed


text \<open>
  An accepted edit is not always kept either. When another writer takes the number of the switch's
  audit entry, the rollback before the second attempt discards the pending fields: an edit without a
  role and without environments then answers 200 with the account as it was, nothing of it is stored,
  and the audit log says that the sign-in was switched.
\<close>

theorem clash_discards_edit:
  assumes "get_user (k_db dk) uid = Some u" "uid \<noteq> u_id admin"
    and "patch_refusal (k_db dk) (u_id admin) body u = None" "edit_fields hash axis body u = Inr u1"
    and "p_sso_sign_in body = Some True" "provider_of u = ''local''" "\<not> u_is_service_account u"
    and "p_role_id body = None" "p_pov_env_ids body = None" "clashes \<in> {1, 2}"
  shows "fst (update_user hash axis clashes admin uid body dk) = Inr u
    \<and> get_user (k_db (snd (update_user hash axis clashes admin uid body dk))) uid = Some u
    \<and> k_audit (snd (update_user hash axis clashes admin uid body dk)) =
        k_audit dk @ [(u_username admin, ''user_sso_sign_in_enabled'', u_username u)]"
proof -
  have uid: "u_id u = uid" using get_user_id [OF assms(1)] by simp
  have na: "\<not> an_accessor u" using assms(3) by (simp add: patch_refusal_None)
  have name: "u_username u1 = u_username u" using edit_fields_keeps [OF assms(4)] by (simp add: same_identity_def)
  have sw: "run_switch clashes admin body u u1 dk =
      Inr (u, add_audit (u_username admin) ''user_sso_sign_in_enabled'' (u_username u) dk)"
    using switch_run [OF assms(4,5) _ _ na, of "u_id admin"] assms(2,5-7,10) uid name
    by (auto simp: run_switch_def record_switch_def)
  have lost: "lost_admin body (admin_here u) u = u" by (auto simp: lost_admin_def)
  have "update_user hash axis clashes admin uid body dk =
      (Inr u, write_user u (add_audit (u_username admin) ''user_sso_sign_in_enabled'' (u_username u) dk))"
    using assms(1,3,4,8,9) by (simp add: update_user_def sw finish_patch_def change_role_def narrow_povs_def lost)
  then show ?thesis using assms(1) uid by (simp add: get_user_written) (simp add: write_user_def add_audit_def)
qed

text \<open>
  An administrator can deactivate the own account: deleting refuses it, the edit does not.
\<close>

theorem own_account_deactivated_by_edit:
  assumes "get_user (k_db dk) (u_id admin) = Some u" "\<not> an_accessor u" "\<not> u_is_service_account u"
    and body: "body = \<lparr> p_full_name = None, p_email = None, p_workgroups = None, p_is_active = Some False, p_is_admin = None,
        p_password = None, p_permissions = None, p_pov_env_ids = None, p_persona = None, p_role_id = None,
        p_sso_sign_in = None, p_fields_set = [''is_active''] \<rparr>"
  shows "deactivate_user admin (u_id admin) dk = (Inl (Http 400 ''Cannot deactivate your own account''), dk)
    \<and> get_user (k_db (snd (update_user hash axis clashes admin (u_id admin) body dk))) (u_id admin) = Some (u\<lparr> u_is_active := False \<rparr>)"
proof -
  have uid: "u_id u = u_id admin" using get_user_id [OF assms(1)] by simp
  have "patch_refusal (k_db dk) (u_id admin) body u = None"
    using assms uid by (simp add: patch_refusal_None service_account_escalation_def would_leave_without_role_def OPERATIONAL_FIELDS_def)
  moreover have "edit_fields hash axis body u = Inr (u\<lparr> u_is_active := False \<rparr>)"
    by (simp add: edit_fields_def when_given_def body)
  moreover have "lost_admin body (admin_here u) (u\<lparr> u_is_active := False \<rparr>) = u\<lparr> u_is_active := False \<rparr>"
    by (auto simp: lost_admin_def admin_here_def)
  ultimately have "update_user hash axis clashes admin (u_id admin) body dk = (Inr (u\<lparr> u_is_active := False \<rparr>), write_user (u\<lparr> u_is_active := False \<rparr>) dk)"
    using assms(1) body by (simp add: update_user_def run_switch_def finish_patch_def change_role_def narrow_povs_def Let_def)
  then show ?thesis using assms(1) uid by (simp add: deactivate_user_def get_user_written)
qed

section \<open>Examples\<close>

definition root_admin :: principal where
  "root_admin = (blank_user ''a1'' ''root'')\<lparr> u_is_admin := True \<rparr>"

definition second_admin :: principal where
  "second_admin = (blank_user ''a2'' ''ann'')\<lparr> u_is_admin := True, u_permissions := Held [(''aws'', Levels [''delete''])] \<rparr>"

definition robot :: principal where
  "robot = (blank_user ''s1'' ''robot'')\<lparr> u_is_service_account := True, u_auth_provider := AUTH_PROVIDER \<rparr>"

definition admin_desk :: desk where
  "admin_desk = \<lparr> k_db = \<lparr> d_roles = [night_role], d_users = [root_admin, second_admin, robot], d_mappings = [] \<rparr>, k_audit = [] \<rparr>"

definition no_patch :: user_patch where
  "no_patch = \<lparr> p_full_name = None, p_email = None, p_workgroups = None, p_is_active = None, p_is_admin = None,
     p_password = None, p_permissions = None, p_pov_env_ids = None, p_persona = None, p_role_id = None,
     p_sso_sign_in = None, p_fields_set = [] \<rparr>"

definition demote :: user_patch where
  "demote = no_patch\<lparr> p_is_admin := Some False, p_role_id := Some ''n1'', p_fields_set := [''is_admin'', ''role_id''] \<rparr>"

lemma admin_desk_users:
  "get_user (k_db admin_desk) ''a1'' = Some root_admin" "get_user (k_db admin_desk) ''a2'' = Some second_admin"
  "get_user (k_db admin_desk) ''s1'' = Some robot"
  by (simp_all add: admin_desk_def get_user_def root_admin_def second_admin_def robot_def blank_user_def)

lemma root_admin_id: "u_id root_admin = ''a1''" by (simp add: root_admin_def blank_user_def)

definition demoted :: principal where
  "demoted = second_admin\<lparr> u_is_admin := False, u_permissions := store_dict nothing_granted,
     u_role_id := Some ''n1'', u_role_permissions := Held [(''vms'', Levels [''read''])] \<rparr>"

lemma demote_run:
  "update_user id True 0 root_admin ''a2'' demote admin_desk = (Inr demoted, write_user demoted admin_desk)"
proof -
  have role: "resolve_role (k_db admin_desk) (Some ''n1'') = Inr (Some night_role)"
    by (simp add: resolve_role_def get_role_def admin_desk_def night_role_def py_strip_def is_space_def)
  have strip: "py_strip ''n1'' = ''n1''" by (simp add: py_strip_def is_space_def)
  have pre: "patch_refusal (k_db admin_desk) ''a1'' demote second_admin = None"
    by (simp add: patch_refusal_None an_accessor_def service_account_escalation_def would_leave_without_role_def
        demote_def no_patch_def second_admin_def blank_user_def strip)
  have edit: "edit_fields id True demote second_admin = Inr (second_admin\<lparr> u_is_admin := False \<rparr>)"
    by (simp add: edit_fields_def when_given_def demote_def no_patch_def)
  have chg: "change_role (k_db admin_desk) ''a1'' (Some ''n1'') (second_admin\<lparr> u_is_admin := False \<rparr>) =
      Inr (apply_role_to_user (Some night_role) (second_admin\<lparr> u_is_admin := False \<rparr>))"
    using role by (simp add: change_role_def strip an_accessor_def second_admin_def blank_user_def)
  have adm: "admin_here second_admin" by (simp add: admin_here_def second_admin_def)
  have lost: "lost_admin demote True (apply_role_to_user (Some night_role) (second_admin\<lparr> u_is_admin := False \<rparr>)) = demoted"
    by (simp add: lost_admin_def admin_here_def apply_role_to_user_def night_role_def role_map_def column_dict_def
        store_dict_def admin_flag_def demote_def no_patch_def demoted_def)
  have nopov: "narrow_povs (p_pov_env_ids demote) u = Inr u" for u
    by (simp add: narrow_povs_def demote_def no_patch_def)
  have fields: "p_sso_sign_in demote = None" "p_role_id demote = Some ''n1''" by (simp_all add: demote_def no_patch_def)
  show ?thesis
    using pre edit chg adm lost nopov
    by (simp add: update_user_def run_switch_def admin_desk_users finish_patch_def root_admin_id fields Let_def)
qed

theorem own_admin_access_kept_witness:
  "\<exists>u'. get_user (k_db (snd (update_user id True 0 root_admin ''a1'' demote admin_desk))) ''a1'' = Some u' \<and> admin_here u'
    \<and> u_role_id u' = None"
proof -
  have adm: "admin_here root_admin" "u_role_id root_admin = None"
    by (simp_all add: admin_here_def root_admin_def blank_user_def)
  obtain res dk' where run: "update_user id True 0 root_admin (u_id root_admin) demote admin_desk = (res, dk')" by fastforce
  from own_admin_access_kept [OF run _ adm(1)] adm show ?thesis
    using run by (auto simp: root_admin_id admin_desk_users)
qed

theorem former_admin_holds_nothing_witness:
  "has_permission demoted ''vms'' ''read'' = Some True
   \<and> (grants (column_dict (u_role_permissions demoted)) ''vms'' ''read'')
   \<and> get_user (k_db (write_user demoted admin_desk)) ''a2'' = Some demoted"
proof -
  have plain: "plain_user demoted" by code_simp
  have held: "has_permission demoted ''vms'' ''read'' = Some True" by code_simp
  have adm: "admin_here second_admin" "\<not> admin_here demoted" by code_simp+
  have none: "p_permissions demote = None" by (simp add: demote_def no_patch_def)
  have "\<not> admin_flag (column_dict (u_session_permissions second_admin))" "\<not> admin_flag (column_dict (u_jit_permissions second_admin))"
    "\<not> grants (column_dict (u_session_permissions second_admin)) ''vms'' ''read''"
    "\<not> grants (column_dict (u_jit_permissions second_admin)) ''vms'' ''read''"
    by (simp_all add: second_admin_def blank_user_def column_dict_def)
  with former_admin_holds_nothing [OF demote_run admin_desk_users(2) adm none plain _ held] held show ?thesis by simp
qed

theorem edited_person_has_role_witness: "\<exists>rid. u_role_id demoted = Some rid \<and> rid \<noteq> []"
proof -
  have no: "\<not> u_is_admin demoted" "\<not> u_is_service_account demoted" "provider_of demoted \<notin> set SSO_PROVIDERS"
    by (simp_all add: demoted_def second_admin_def blank_user_def provider_of_def SSO_PROVIDERS_def)
  have "\<not> set (p_fields_set demote) \<subseteq> set OPERATIONAL_FIELDS" by (simp add: demote_def OPERATIONAL_FIELDS_def)
  with edited_person_has_role [OF demote_run admin_desk_users(2)] no show ?thesis by (simp add: root_admin_id)
qed

theorem service_account_never_escalates_witness:
  "\<exists>u'. get_user (k_db (snd (update_user id True 0 root_admin ''s1'' (no_patch\<lparr> p_is_admin := Some True, p_fields_set := [''is_admin''] \<rparr>) admin_desk))) ''s1''
     = Some u' \<and> \<not> u_is_admin u'"
proof -
  have ok: "workload_ok robot" by (simp add: workload_ok_def robot_def blank_user_def column_dict_def)
  have svc: "u_is_service_account robot" by (simp add: robot_def)
  obtain res dk' where run: "update_user id True 0 root_admin ''s1'' (no_patch\<lparr> p_is_admin := Some True, p_fields_set := [''is_admin''] \<rparr>) admin_desk = (res, dk')"
    by fastforce
  from service_account_never_escalates [OF run admin_desk_users(3) ok] svc show ?thesis
    by (auto simp: run workload_ok_def)
qed


definition switch_patch :: user_patch where
  "switch_patch = no_patch\<lparr> p_full_name := Some ''Ann B'', p_sso_sign_in := Some True,
     p_fields_set := [''full_name'', ''sso_sign_in''] \<rparr>"

lemma second_admin_facts:
  "\<not> an_accessor second_admin" "\<not> u_is_service_account second_admin" "provider_of second_admin = ''local''"
  "or_empty (u_role_id second_admin) = []" "u_is_admin second_admin" "u_id second_admin = ''a2''"
  by (simp_all add: an_accessor_def second_admin_def blank_user_def provider_of_def)


theorem clash_discards_edit_witness:
  "fst (update_user id True 1 root_admin ''a2'' switch_patch admin_desk) = Inr second_admin
   \<and> get_user (k_db (snd (update_user id True 0 root_admin ''a2'' switch_patch admin_desk))) ''a2'' =
       Some (second_admin\<lparr> u_full_name := ''Ann B'', u_auth_provider := SSO_PENDING \<rparr>)"
proof -
  have pre: "patch_refusal (k_db admin_desk) (u_id root_admin) switch_patch second_admin = None"
    by (simp add: patch_refusal_None second_admin_facts service_account_escalation_def would_leave_without_role_def
        switch_patch_def no_patch_def root_admin_id)
  have edit: "edit_fields id True switch_patch second_admin = Inr (second_admin\<lparr> u_full_name := ''Ann B'' \<rparr>)"
    by (simp add: edit_fields_def when_given_def switch_patch_def no_patch_def)
  have body: "p_sso_sign_in switch_patch = Some True" "p_role_id switch_patch = None" "p_pov_env_ids switch_patch = None"
    by (simp_all add: switch_patch_def no_patch_def)
  have lost: "lost_admin switch_patch (admin_here second_admin) v = v" if "u_is_admin v" for v
    using that by (simp add: lost_admin_def admin_here_def)
  have sw: "set_sso_sign_in (u_id root_admin) (second_admin\<lparr> u_full_name := ''Ann B'' \<rparr>) True =
      Inr (second_admin\<lparr> u_full_name := ''Ann B'', u_auth_provider := SSO_PENDING \<rparr>, Some ''user_sso_sign_in_enabled'')"
    using switch_run [OF edit body(1), of "u_id root_admin"] by (simp add: second_admin_facts root_admin_id)
  have "get_user (k_db (snd (update_user id True 0 root_admin ''a2'' switch_patch admin_desk))) ''a2'' =
      Some (second_admin\<lparr> u_full_name := ''Ann B'', u_auth_provider := SSO_PENDING \<rparr>)"
    by (simp add: update_user_def admin_desk_users pre edit run_switch_def body sw record_switch_def finish_patch_def
        change_role_def narrow_povs_def lost second_admin_facts get_user_written Let_def)
  with clash_discards_edit [OF admin_desk_users(2) _ pre edit body(1) _ _ body(2,3), of 1] show ?thesis
    by (simp add: second_admin_facts root_admin_id)
qed

theorem own_account_deactivated_by_edit_witness:
  "\<exists>u'. get_user (k_db (snd (update_user id True 0 root_admin ''a1''
      \<lparr> p_full_name = None, p_email = None, p_workgroups = None, p_is_active = Some False, p_is_admin = None,
        p_password = None, p_permissions = None, p_pov_env_ids = None, p_persona = None, p_role_id = None,
        p_sso_sign_in = None, p_fields_set = [''is_active''] \<rparr> admin_desk))) ''a1'' = Some u' \<and> \<not> u_is_active u'"
proof -
  have u: "\<not> an_accessor root_admin" "\<not> u_is_service_account root_admin"
    by (simp_all add: an_accessor_def root_admin_def blank_user_def)
  have there: "get_user (k_db admin_desk) (u_id root_admin) = Some root_admin" by (simp add: root_admin_id admin_desk_users)
  from own_account_deactivated_by_edit [OF there u, of _ id True] show ?thesis by (simp add: root_admin_id)
qed

end
