(* ===== verification/Login_Guard.thy ===== *)
theory Login_Guard
  imports Agent_Guard "HOL-Library.Multiset"
begin

text \<open>
  The sign-in throttle (\<open>services/login_guard.py\<close>) and the sign-in endpoints that use it
  (\<open>api/auth.py\<close>: password, second factor, WebAuthn challenge).

  Parameters: the account rows and whether they require a second factor, the password check, and the
  outcome of the FIDO2 assertion. The row limit of a query takes the oldest rows, and rows of the
  same instant in table order. The check and the write of the outcome are separate transactions of
  concurrent threads and workers, with the password or assertion verified in between: what the others
  write to the table meanwhile is the parameter \<open>during\<close>, and \<open>later\<close> is the time of the write. A
  failing database is not modelled, nor are the token texts and the
  stamp of the last sign-in. A string is its characters, cut and lower-cased as ASCII text.
\<close>

section \<open>The throttle\<close>

definition DEFAULT_MAX_PER_USER :: int where "DEFAULT_MAX_PER_USER = 10"
definition DEFAULT_MAX_PER_IP :: int where "DEFAULT_MAX_PER_IP = 50"
definition DEFAULT_WINDOW_MINUTES :: int where "DEFAULT_WINDOW_MINUTES = 15"
definition DEFAULT_RETENTION_MINUTES :: int where "DEFAULT_RETENTION_MINUTES = 60"
definition LOGIN_ROWS_SCANNED :: nat where "LOGIN_ROWS_SCANNED = 500"

record login_row =
  la_username :: string
  la_ip :: string
  la_at :: instant

definition login_enabled :: "config \<Rightarrow> bool" where
  "login_enabled cfg = (case config_get_bool cfg ''login_throttle_enabled'' True of None \<Rightarrow> True | Some b \<Rightarrow> b)"

definition normalize_username :: "string \<Rightarrow> string" where
  "normalize_username username = take 150 (py_lower (py_strip username))"

definition login_window :: "config \<Rightarrow> int" where
  "login_window cfg = minutes (guard_int cfg ''login_window_minutes'' DEFAULT_WINDOW_MINUTES)"

definition user_cap :: "config \<Rightarrow> int" where
  "user_cap cfg = guard_int cfg ''login_max_attempts'' DEFAULT_MAX_PER_USER"

definition ip_cap :: "config \<Rightarrow> int" where
  "ip_cap cfg = guard_int cfg ''login_max_attempts_per_ip'' DEFAULT_MAX_PER_IP"

text \<open>The stamps are ascending.\<close>

definition login_retry_after :: "instant list \<Rightarrow> int \<Rightarrow> int \<Rightarrow> instant \<Rightarrow> int" where
  "login_retry_after stamps cap window now =
     py_trunc (of_int (stamps ! nat (int (length stamps) - cap) + window - now) / 1000000) + 1"

definition scanned_rows :: "config \<Rightarrow> instant \<Rightarrow> string \<Rightarrow> string \<Rightarrow> login_row list \<Rightarrow> login_row list" where
  "scanned_rows cfg now key ip rows =
     take LOGIN_ROWS_SCANNED
       (sort_key la_at (filter (\<lambda>r. la_at r \<ge> now - login_window cfg \<and> (la_username r = key \<or> la_ip r = ip)) rows))"

text \<open>\<open>check\<close>: \<open>Some\<close> is the raised refusal.\<close>

definition login_check :: "config \<Rightarrow> instant \<Rightarrow> string \<Rightarrow> string \<Rightarrow> bool \<Rightarrow> login_row list \<Rightarrow> throttled option" where
  "login_check cfg now username ip ip_only attempts =
     (if \<not> login_enabled cfg then None
      else
        (let key = normalize_username username;
             rows = scanned_rows cfg now key ip attempts;
             user_stamps = map la_at (filter (\<lambda>r. la_username r = key) rows);
             ip_stamps = map la_at (filter (\<lambda>r. la_ip r = ip) rows)
         in if \<not> ip_only \<and> user_cap cfg > 0 \<and> int (length user_stamps) \<ge> user_cap cfg
            then Some (mk_throttled (login_retry_after user_stamps (user_cap cfg) (login_window cfg) now) ''user'')
            else if ip \<noteq> [] \<and> ip_cap cfg > 0 \<and> int (length ip_stamps) \<ge> ip_cap cfg
            then Some (mk_throttled (login_retry_after ip_stamps (ip_cap cfg) (login_window cfg) now) ''ip'')
            else None))"

definition sweep_logins :: "config \<Rightarrow> instant \<Rightarrow> login_row list \<Rightarrow> login_row list" where
  "sweep_logins cfg now attempts =
     (let cutoff = now - minutes (guard_int cfg ''login_retention_minutes'' DEFAULT_RETENTION_MINUTES)
      in filter (\<lambda>r. \<not> la_at r < cutoff) attempts)"

definition record_failure :: "config \<Rightarrow> instant \<Rightarrow> string \<Rightarrow> string \<Rightarrow> login_row list \<Rightarrow> login_row list" where
  "record_failure cfg now username ip attempts =
     (if \<not> login_enabled cfg then attempts
      else sweep_logins cfg now
             (attempts @ [\<lparr> la_username = normalize_username username, la_ip = take 45 ip, la_at = now \<rparr>]))"

definition clear_failures :: "string \<Rightarrow> login_row list \<Rightarrow> login_row list" where
  "clear_failures username attempts = filter (\<lambda>r. la_username r \<noteq> normalize_username username) attempts"

definition recent_failures :: "instant \<Rightarrow> int \<Rightarrow> nat \<Rightarrow> login_row list \<Rightarrow> login_row list" where
  "recent_failures now mins limit attempts =
     take limit (sort_key (\<lambda>r. - la_at r) (filter (\<lambda>r. la_at r \<ge> now - minutes mins) attempts))"

section \<open>Signing in\<close>

record account =
  ac_id :: string
  ac_username :: string
  ac_service :: bool
  ac_provider :: string
  ac_active :: bool
  ac_mfa :: bool

datatype login_answer =
    TooMany int
  | Refused int string
  | PreAuth string
  | SignedIn string
  | Challenge string

definition WRONG_PASSWORD :: login_answer where
  "WRONG_PASSWORD = Refused 401 ''Incorrect username or password''"

text \<open>
  What follows the check: the account is looked up and the password verified, and the outcome is
  written to the table as it is by then.
\<close>

definition password_outcome ::
  "config \<Rightarrow> account list \<Rightarrow> (account \<Rightarrow> string \<Rightarrow> bool) \<Rightarrow> instant \<Rightarrow> string \<Rightarrow> string \<Rightarrow> string \<Rightarrow>
   login_row list \<Rightarrow> login_answer \<times> login_row list" where
  "password_outcome cfg users verify later username password ip attempts =
     (let fail = (\<lambda>answer. (answer, record_failure cfg later username ip attempts))
      in case List.find (\<lambda>u. ac_username u = username) users of
           None \<Rightarrow> fail WRONG_PASSWORD
         | Some u \<Rightarrow>
             if ac_service u then fail WRONG_PASSWORD
             else if ac_provider u \<noteq> ''local''
             then fail (Refused 401 ''This account uses Microsoft login.'')
             else if \<not> verify u password then fail WRONG_PASSWORD
             else if \<not> ac_active u then fail (Refused 403 ''Account disabled'')
             else if ac_mfa u then (PreAuth (ac_id u), attempts)
             else (SignedIn (ac_username u), clear_failures (ac_username u) attempts))"

definition login ::
  "config \<Rightarrow> account list \<Rightarrow> (account \<Rightarrow> string \<Rightarrow> bool) \<Rightarrow> instant \<Rightarrow> instant \<Rightarrow> (login_row list \<Rightarrow> login_row list) \<Rightarrow>
   string \<Rightarrow> string \<Rightarrow> string \<Rightarrow> login_row list \<Rightarrow> login_answer \<times> login_row list" where
  "login cfg users verify now later during username password ip attempts =
     (case login_check cfg now username ip False attempts of
        Some th \<Rightarrow> (TooMany (th_retry_after th), attempts)
      | None \<Rightarrow> password_outcome cfg users verify later username password ip (during attempts))"

datatype assertion = NoChallengeToken | BadChallenge | NoKeys | AssertionFails | AssertionHolds

definition assertion_outcome ::
  "config \<Rightarrow> account \<Rightarrow> instant \<Rightarrow> assertion \<Rightarrow> string \<Rightarrow> login_row list \<Rightarrow> login_answer \<times> login_row list" where
  "assertion_outcome cfg u later a ip attempts =
     (case a of
        NoChallengeToken \<Rightarrow> (Refused 400 ''Missing challenge_token in assertion_response'', attempts)
      | BadChallenge \<Rightarrow> (Refused 400 ''Invalid or expired FIDO2 challenge'', attempts)
      | NoKeys \<Rightarrow> (Refused 400 ''No FIDO2 keys registered for this account'', attempts)
      | AssertionFails \<Rightarrow>
          (Refused 400 ''FIDO2 authentication failed'', record_failure cfg later (ac_username u) ip attempts)
      | AssertionHolds \<Rightarrow> (SignedIn (ac_username u), clear_failures (ac_username u) attempts))"

definition login_mfa ::
  "config \<Rightarrow> account list \<Rightarrow> instant \<Rightarrow> instant \<Rightarrow> (login_row list \<Rightarrow> login_row list) \<Rightarrow> string \<Rightarrow> assertion \<Rightarrow> string \<Rightarrow>
   login_row list \<Rightarrow> login_answer \<times> login_row list" where
  "login_mfa cfg users now later during user_id a ip attempts =
     (case List.find (\<lambda>u. ac_id u = user_id \<and> ac_active u) users of
        None \<Rightarrow> (Refused 401 ''User not found'', attempts)
      | Some u \<Rightarrow>
          (case login_check cfg now (ac_username u) ip False attempts of
             Some th \<Rightarrow> (TooMany (th_retry_after th), attempts)
           | None \<Rightarrow> assertion_outcome cfg u later a ip (during attempts)))"

definition webauthn_login_begin ::
  "config \<Rightarrow> account list \<Rightarrow> (account \<Rightarrow> bool) \<Rightarrow> instant \<Rightarrow> string \<Rightarrow> string \<Rightarrow> login_row list \<Rightarrow>
   login_answer \<times> login_row list" where
  "webauthn_login_begin cfg users has_keys now username ip attempts =
     (case login_check cfg now username ip False attempts of
        Some th \<Rightarrow> (TooMany (th_retry_after th), attempts)
      | None \<Rightarrow>
          (case List.find (\<lambda>u. ac_username u = username \<and> ac_active u) users of
             None \<Rightarrow> (Refused 404 ''User not found'', attempts)
           | Some u \<Rightarrow>
               if \<not> has_keys u then (Refused 400 ''No FIDO2 keys registered for this account'', attempts)
               else (Challenge (ac_id u), attempts)))"

text \<open>
  The throttle of the token endpoint (\<open>api/oauth.py\<close>): keyed by the source, and by the address cap
  alone when the address is known. \<open>ok\<close> is whether the client authenticated.
\<close>

definition token_key :: "string \<Rightarrow> string" where
  "token_key ip = ''oauth-src:'' @ (if ip \<noteq> [] then ip else ''-'')"

definition token_attempt ::
  "config \<Rightarrow> instant \<Rightarrow> instant \<Rightarrow> (login_row list \<Rightarrow> login_row list) \<Rightarrow> bool \<Rightarrow> string \<Rightarrow> login_row list \<Rightarrow>
   throttled option \<times> login_row list" where
  "token_attempt cfg now later during ok ip attempts =
     (case login_check cfg now (token_key ip) ip (ip \<noteq> []) attempts of
        Some th \<Rightarrow> (Some th, attempts)
      | None \<Rightarrow> (None, if ok then during attempts else record_failure cfg later (token_key ip) ip (during attempts)))"

section \<open>The check against all rows\<close>

text \<open>The failures of a username and of an address inside the window ending now, without the row limit.\<close>

definition user_failures :: "config \<Rightarrow> instant \<Rightarrow> string \<Rightarrow> login_row list \<Rightarrow> login_row list" where
  "user_failures cfg now key rows = filter (\<lambda>r. la_at r \<ge> now - login_window cfg \<and> la_username r = key) rows"

definition ip_failures :: "config \<Rightarrow> instant \<Rightarrow> string \<Rightarrow> login_row list \<Rightarrow> login_row list" where
  "ip_failures cfg now ip rows = filter (\<lambda>r. la_at r \<ge> now - login_window cfg \<and> la_ip r = ip) rows"

lemma length_filter_sort_key: "length (filter p (sort_key f xs)) = length (filter p xs)"
  by (metis mset_filter mset_sort size_mset)

lemma length_filter_take: "length (filter p (take n xs)) \<le> length (filter p xs)"
  by (metis append_take_drop_id filter_append le_add1 length_append)

lemma scanned_le:
  "length (filter (\<lambda>r. la_username r = key) (scanned_rows cfg now key ip rows)) \<le> length (user_failures cfg now key rows)"
  "length (filter (\<lambda>r. la_ip r = ip) (scanned_rows cfg now key ip rows)) \<le> length (ip_failures cfg now ip rows)"
proof -
  let ?m = "filter (\<lambda>r. la_at r \<ge> now - login_window cfg \<and> (la_username r = key \<or> la_ip r = ip)) rows"
  have u: "filter (\<lambda>r. la_username r = key) ?m = user_failures cfg now key rows"
    by (auto simp: user_failures_def intro!: filter_cong)
  have i: "filter (\<lambda>r. la_ip r = ip) ?m = ip_failures cfg now ip rows"
    by (auto simp: ip_failures_def intro!: filter_cong)
  show "length (filter (\<lambda>r. la_username r = key) (scanned_rows cfg now key ip rows)) \<le> length (user_failures cfg now key rows)"
    using length_filter_take [of "\<lambda>r. la_username r = key" LOGIN_ROWS_SCANNED "sort_key la_at ?m"]
    by (simp only: scanned_rows_def length_filter_sort_key u)
  show "length (filter (\<lambda>r. la_ip r = ip) (scanned_rows cfg now key ip rows)) \<le> length (ip_failures cfg now ip rows)"
    using length_filter_take [of "\<lambda>r. la_ip r = ip" LOGIN_ROWS_SCANNED "sort_key la_at ?m"]
    by (simp only: scanned_rows_def length_filter_sort_key i)
qed

text \<open>A scan that was cut holds five hundred rows, each of the username or of the address.\<close>

lemma scanned_cut:
  "length (user_failures cfg now key rows) = length (filter (\<lambda>r. la_username r = key) (scanned_rows cfg now key ip rows))
     \<and> length (ip_failures cfg now ip rows) = length (filter (\<lambda>r. la_ip r = ip) (scanned_rows cfg now key ip rows))
   \<or> length (filter (\<lambda>r. la_username r = key) (scanned_rows cfg now key ip rows))
       + length (filter (\<lambda>r. la_ip r = ip) (scanned_rows cfg now key ip rows)) \<ge> LOGIN_ROWS_SCANNED"
proof -
  let ?m = "filter (\<lambda>r. la_at r \<ge> now - login_window cfg \<and> (la_username r = key \<or> la_ip r = ip)) rows"
  let ?s = "scanned_rows cfg now key ip rows"
  have u: "filter (\<lambda>r. la_username r = key) ?m = user_failures cfg now key rows"
    by (auto simp: user_failures_def intro!: filter_cong)
  have i: "filter (\<lambda>r. la_ip r = ip) ?m = ip_failures cfg now ip rows"
    by (auto simp: ip_failures_def intro!: filter_cong)
  have split: "length (filter p xs) + length (filter q xs) \<ge> length xs"
    if "\<forall>x \<in> set xs. p x \<or> q x" for p q :: "login_row \<Rightarrow> bool" and xs
    using that by (induction xs) auto
  show ?thesis
  proof (cases "length ?m \<le> LOGIN_ROWS_SCANNED")
    case True
    then have "?s = sort_key la_at ?m" by (simp add: scanned_rows_def)
    then show ?thesis by (simp only: length_filter_sort_key u i) simp
  next
    case False
    then have "length ?s = LOGIN_ROWS_SCANNED" by (simp add: scanned_rows_def)
    moreover have "set ?s \<subseteq> set ?m" by (auto simp: scanned_rows_def dest!: in_set_takeD)
    then have "\<forall>r \<in> set ?s. la_username r = key \<or> la_ip r = ip" by auto
    then have "length (filter (\<lambda>r. la_username r = key) ?s) + length (filter (\<lambda>r. la_ip r = ip) ?s) \<ge> length ?s"
      by (rule split)
    ultimately show ?thesis by simp
  qed
qed

text \<open>
  C31. The check decides as a count over all rows would: with both caps on and together at most 501,
  as the defaults are, a sign-in from a known address passes exactly when the username has fewer
  failures in the window than its cap and the address fewer than its own. The limit on the rows
  read never lets one through.
\<close>

theorem login_check_exact:
  assumes "login_enabled cfg" and "0 < user_cap cfg" and "0 < ip_cap cfg" and "user_cap cfg + ip_cap cfg \<le> 501"
    and "ip \<noteq> []"
  shows "login_check cfg now username ip False rows = None \<longleftrightarrow>
    int (length (user_failures cfg now (normalize_username username) rows)) < user_cap cfg
    \<and> int (length (ip_failures cfg now ip rows)) < ip_cap cfg"
proof -
  let ?key = "normalize_username username"
  let ?s = "scanned_rows cfg now ?key ip rows"
  let ?u = "length (filter (\<lambda>r. la_username r = ?key) ?s)" and ?i = "length (filter (\<lambda>r. la_ip r = ip) ?s)"
  have check: "login_check cfg now username ip False rows = None \<longleftrightarrow> int ?u < user_cap cfg \<and> int ?i < ip_cap cfg"
    using assms(1,2,3,5) by (auto simp: login_check_def Let_def)
  have under: "int ?u < user_cap cfg \<and> int ?i < ip_cap cfg \<Longrightarrow> \<not> ?u + ?i \<ge> LOGIN_ROWS_SCANNED"
    using assms(4) by (auto simp: LOGIN_ROWS_SCANNED_def)
  show ?thesis
    unfolding check using scanned_cut [of cfg now ?key rows ip] under scanned_le [where key = ?key and ip = ip]
    by (smt (verit) of_nat_mono)
qed

text \<open>
  With the address cap off the row limit is a way around the other cap: five hundred older
  failures from an address crowd the username's rows out of the scan, and then a password guess
  from that address is checked however many failures the username has.
\<close>

theorem crowded_out_cap:
  assumes "0 < user_cap cfg" and "ip_cap cfg = 0"
    and "\<forall>r \<in> set rows. la_username r = normalize_username username \<and> (\<forall>x \<in> set noise. la_at x < la_at r)"
    and "\<forall>x \<in> set noise. la_ip x = ip \<and> la_username x \<noteq> normalize_username username \<and> la_at x \<ge> now - login_window cfg"
    and "length noise \<ge> LOGIN_ROWS_SCANNED"
  shows "login_check cfg now username ip False (noise @ rows) = None"
proof -
  let ?key = "normalize_username username"
  let ?p = "\<lambda>r. la_at r \<ge> now - login_window cfg \<and> (la_username r = ?key \<or> la_ip r = ip)"
  have stable: "filter (\<lambda>x. la_at k = la_at x) (sort_key la_at xs) = filter (\<lambda>x. la_at k = la_at x) xs" for k :: login_row and xs :: "login_row list"
    using sort_key_stable [of la_at "la_at k" xs] by (simp add: eq_commute)
  have "sort_key la_at (filter ?p (noise @ rows)) = sort_key la_at (filter ?p noise) @ sort_key la_at (filter ?p rows)"
  proof (rule properties_for_sort_key)
    show "mset (sort_key la_at (filter ?p noise) @ sort_key la_at (filter ?p rows)) = mset (filter ?p (noise @ rows))"
      by simp
    show "filter (\<lambda>x. la_at k = la_at x) (sort_key la_at (filter ?p noise) @ sort_key la_at (filter ?p rows))
        = filter (\<lambda>x. la_at k = la_at x) (filter ?p (noise @ rows))" for k :: login_row
      by (simp only: filter_append stable)
    show "sorted (map la_at (sort_key la_at (filter ?p noise) @ sort_key la_at (filter ?p rows)))"
      using assms(3) by (auto simp: sorted_append less_imp_le)
  qed
  moreover have all: "filter ?p noise = noise" using assms(4) by (auto simp: filter_id_conv)
  ultimately have "scanned_rows cfg now ?key ip (noise @ rows) = take LOGIN_ROWS_SCANNED (sort_key la_at noise)"
    using assms(5) by (simp add: scanned_rows_def)
  then have "set (scanned_rows cfg now ?key ip (noise @ rows)) \<subseteq> set noise"
    by (metis set_sort set_take_subset)
  then have "filter (\<lambda>r. la_username r = ?key) (scanned_rows cfg now ?key ip (noise @ rows)) = []"
    using assms(4) by (auto simp: filter_empty_conv)
  then show ?thesis using assms(1,2) by (auto simp: login_check_def Let_def)
qed

section \<open>Histories\<close>

text \<open>
  A history of requests at the endpoints: their checks and their outcomes are steps of their own, in
  any order, so that any number of requests overlap. \<open>fl\<close> holds the usernames of the requests that
  passed the check and whose outcome is not written yet, of which no username has more than \<open>K\<close>:
  the threads that answer sign-ins. \<open>gs\<close> is the log of the failed guesses that no successful sign-in
  of the username has cleared: refused passwords and failed assertions. A refused check, the
  challenge endpoint and a dying request write nothing; the token endpoint writes at any moment.
\<close>

definition login_retention :: "config \<Rightarrow> int" where
  "login_retention cfg = minutes (guard_int cfg ''login_retention_minutes'' DEFAULT_RETENTION_MINUTES)"

definition guessed :: "login_answer \<Rightarrow> bool \<Rightarrow> string \<Rightarrow> instant \<Rightarrow> (string \<times> instant) list \<Rightarrow> (string \<times> instant) list" where
  "guessed answer counts username now gs =
     (case answer of
        Refused _ _ \<Rightarrow> if counts then gs @ [(normalize_username username, now)] else gs
      | SignedIn _ \<Rightarrow> filter (\<lambda>e. fst e \<noteq> normalize_username username) gs
      | _ \<Rightarrow> gs)"

inductive login_history ::
  "config \<Rightarrow> account list \<Rightarrow> (account \<Rightarrow> string \<Rightarrow> bool) \<Rightarrow> nat \<Rightarrow> instant \<Rightarrow> login_row list \<Rightarrow>
   (string \<times> instant) list \<Rightarrow> string multiset \<Rightarrow> bool"
  for cfg users verify K where
  start: "login_history cfg users verify K now [] [] {#}"
| wait: "login_history cfg users verify K t rows gs fl \<Longrightarrow> t \<le> now \<Longrightarrow> login_history cfg users verify K now rows gs fl"
| admitted: "login_history cfg users verify K now rows gs fl \<Longrightarrow> ip \<noteq> [] \<Longrightarrow>
    login_check cfg now username ip False rows = None \<Longrightarrow> count fl (normalize_username username) < K \<Longrightarrow>
    login_history cfg users verify K now rows gs (add_mset (normalize_username username) fl)"
| password: "login_history cfg users verify K now rows gs fl \<Longrightarrow> normalize_username username \<in># fl \<Longrightarrow>
    password_outcome cfg users verify now username pw ip rows = (answer, rows') \<Longrightarrow>
    login_history cfg users verify K now rows' (guessed answer True username now gs) (fl - {#normalize_username username#})"
| second_factor: "login_history cfg users verify K now rows gs fl \<Longrightarrow> u \<in> set users \<Longrightarrow>
    normalize_username (ac_username u) \<in># fl \<Longrightarrow>
    assertion_outcome cfg u now a ip rows = (answer, rows') \<Longrightarrow>
    login_history cfg users verify K now rows' (guessed answer (a = AssertionFails) (ac_username u) now gs)
      (fl - {#normalize_username (ac_username u)#})"
| died: "login_history cfg users verify K now rows gs fl \<Longrightarrow> login_history cfg users verify K now rows gs (fl - {#key#})"
| token: "login_history cfg users verify K now rows gs fl \<Longrightarrow>
    login_history cfg users verify K now (record_failure cfg now (token_key ip) ip rows) gs fl"

abbreviation log_times :: "string \<Rightarrow> (string \<times> instant) list \<Rightarrow> instant list" where
  "log_times key gs \<equiv> map snd (filter (\<lambda>e. fst e = key) gs)"

abbreviation row_times :: "string \<Rightarrow> login_row list \<Rightarrow> instant list" where
  "row_times key rows \<equiv> map la_at (filter (\<lambda>r. la_username r = key) rows)"

definition source_key :: "string \<Rightarrow> bool" where "source_key key \<longleftrightarrow> starts_with ''oauth-src:'' key"

definition rows_match :: "config \<Rightarrow> instant \<Rightarrow> login_row list \<Rightarrow> (string \<times> instant) list \<Rightarrow> bool" where
  "rows_match cfg now rows gs \<longleftrightarrow>
     (\<forall>key. \<not> source_key key \<longrightarrow>
        filter (\<lambda>t. t \<ge> now - login_retention cfg) (row_times key rows)
        = filter (\<lambda>t. t \<ge> now - login_retention cfg) (log_times key gs))"

definition under_cap :: "config \<Rightarrow> nat \<Rightarrow> (string \<times> instant) list \<Rightarrow> bool" where
  "under_cap cfg K gs \<longleftrightarrow>
     (\<forall>key t. \<not> source_key key \<longrightarrow>
        int (length (filter (\<lambda>u. t - login_window cfg \<le> u \<and> u \<le> t) (log_times key gs))) \<le> user_cap cfg - 1 + int K)"

definition recent_guesses :: "config \<Rightarrow> instant \<Rightarrow> string \<Rightarrow> (string \<times> instant) list \<Rightarrow> nat" where
  "recent_guesses cfg now key gs = length (filter (\<lambda>u. u \<ge> now - login_window cfg) (log_times key gs))"

text \<open>The guesses in the window and those still in flight share one budget.\<close>

definition budget_ok :: "config \<Rightarrow> nat \<Rightarrow> instant \<Rightarrow> (string \<times> instant) list \<Rightarrow> string multiset \<Rightarrow> bool" where
  "budget_ok cfg K now gs fl \<longleftrightarrow>
     (\<forall>key. \<not> source_key key \<longrightarrow> int (recent_guesses cfg now key gs + count fl key) \<le> user_cap cfg - 1 + int K)"

definition history_ok :: "config \<Rightarrow> nat \<Rightarrow> instant \<Rightarrow> login_row list \<Rightarrow> (string \<times> instant) list \<Rightarrow> string multiset \<Rightarrow> bool" where
  "history_ok cfg K now rows gs fl \<longleftrightarrow>
     rows_match cfg now rows gs \<and> budget_ok cfg K now gs fl \<and> under_cap cfg K gs"

lemma filter_ge_mono:
  "filter (\<lambda>t :: int. t \<ge> a) xs = filter (\<lambda>t. t \<ge> a) ys \<Longrightarrow> a \<le> b \<Longrightarrow>
     filter (\<lambda>t. t \<ge> b) xs = filter (\<lambda>t. t \<ge> b) ys"
proof -
  assume eq: "filter (\<lambda>t. t \<ge> a) xs = filter (\<lambda>t. t \<ge> a) ys" and ab: "a \<le> b"
  have "filter (\<lambda>t. t \<ge> b) zs = filter (\<lambda>t. t \<ge> b) (filter (\<lambda>t. t \<ge> a) zs)" for zs
    using ab by (auto intro!: filter_cong)
  then show ?thesis using eq by metis
qed

lemma rows_match_mono: "rows_match cfg t rows gs \<Longrightarrow> t \<le> now \<Longrightarrow> rows_match cfg now rows gs"
  unfolding rows_match_def
proof (intro allI impI)
  fix key
  assume m: "\<forall>key. \<not> source_key key \<longrightarrow> filter (\<lambda>u. u \<ge> t - login_retention cfg) (row_times key rows)
      = filter (\<lambda>u. u \<ge> t - login_retention cfg) (log_times key gs)" and t: "t \<le> now" and k: "\<not> source_key key"
  show "filter (\<lambda>u. u \<ge> now - login_retention cfg) (row_times key rows) = filter (\<lambda>u. u \<ge> now - login_retention cfg) (log_times key gs)"
    by (rule filter_ge_mono [OF m [rule_format, OF k]]) (rule diff_right_mono [OF t])
qed

lemma kept_times:
  "filter (\<lambda>t. c \<le> t) (map la_at (filter q (filter (\<lambda>r. \<not> la_at r < c) xs))) = filter (\<lambda>t. c \<le> t) (map la_at (filter q xs))"
  by (induction xs) simp_all

lemma row_times_sweep:
  "filter (\<lambda>t. t \<ge> now - login_retention cfg) (row_times key (sweep_logins cfg now rows))
     = filter (\<lambda>t. t \<ge> now - login_retention cfg) (row_times key rows)"
  unfolding sweep_logins_def Let_def login_retention_def by (rule kept_times)

lemma length_filter_mono:
  "(\<And>x. x \<in> set xs \<Longrightarrow> p x \<Longrightarrow> q x) \<Longrightarrow> length (filter p xs) \<le> length (filter q xs)"
  by (induction xs) (auto simp: le_SucI)

lemma rows_match_failure:
  assumes "rows_match cfg now rows gs" and "login_enabled cfg"
  shows "rows_match cfg now (record_failure cfg now username ip rows) (gs @ [(normalize_username username, now)])"
  using assms by (simp add: rows_match_def record_failure_def row_times_sweep)

lemma rows_match_clear:
  "rows_match cfg now rows gs \<Longrightarrow>
     rows_match cfg now (clear_failures username rows) (filter (\<lambda>e. fst e \<noteq> normalize_username username) gs)"
  unfolding rows_match_def clear_failures_def
proof (intro allI impI)
  fix key
  assume m: "\<forall>key. \<not> source_key key \<longrightarrow> filter (\<lambda>t. t \<ge> now - login_retention cfg) (row_times key rows)
      = filter (\<lambda>t. t \<ge> now - login_retention cfg) (log_times key gs)" and k: "\<not> source_key key"
  show "filter (\<lambda>t. t \<ge> now - login_retention cfg) (row_times key (filter (\<lambda>r. la_username r \<noteq> normalize_username username) rows))
      = filter (\<lambda>t. t \<ge> now - login_retention cfg) (log_times key (filter (\<lambda>e. fst e \<noteq> normalize_username username) gs))"
  proof (cases "key = normalize_username username")
    case True
    then show ?thesis by (simp add: filter_empty_conv)
  next
    case False
    then have "filter (\<lambda>r. la_username r = key) (filter (\<lambda>r. la_username r \<noteq> normalize_username username) rows)
        = filter (\<lambda>r. la_username r = key) rows"
      "filter (\<lambda>e. fst e = key) (filter (\<lambda>e. fst e \<noteq> normalize_username username) gs) = filter (\<lambda>e. fst e = key) gs"
      by (auto intro!: filter_cong)
    then show ?thesis using m k by simp
  qed
qed

lemma rows_match_token:
  "rows_match cfg now rows gs \<Longrightarrow> source_key (normalize_username username) \<Longrightarrow>
     rows_match cfg now (record_failure cfg now username ip rows) gs"
  by (auto simp: rows_match_def record_failure_def row_times_sweep)

lemma token_key_source: "source_key (normalize_username (token_key ip))"
proof -
  have strip: "py_strip (''oauth-src:'' @ x) = ''oauth-src:'' @ rev (dropWhile is_space (rev x))" for x
  proof -
    have o: "\<not> is_space (CHR ''o'')" and c: "\<not> is_space (CHR '':'')" by (simp_all add: is_space_def)
    have "rev (''oauth-src:'' @ x) = rev x @ CHR '':'' # rev ''oauth-src''" by simp
    then have "dropWhile is_space (rev (''oauth-src:'' @ x)) = dropWhile is_space (rev x) @ CHR '':'' # rev ''oauth-src''"
      using dropWhile_append3 [of is_space "CHR '':''", OF c] by (rule ssubst)
    with o show ?thesis by (simp add: py_strip_def)
  qed
  have "py_lower ''oauth-src:'' = ''oauth-src:''" by code_simp
  then have "normalize_username (token_key ip) = take 150 (''oauth-src:'' @ py_lower (rev (dropWhile is_space (rev (if ip \<noteq> [] then ip else ''-'')))))"
    unfolding normalize_username_def token_key_def strip by (simp add: py_lower_def)
  then show ?thesis by (simp add: source_key_def starts_with_def)
qed

lemma recent_rows:
  assumes "rows_match cfg now rows gs" and "login_window cfg \<le> login_retention cfg" and "\<not> source_key key"
  shows "recent_guesses cfg now key gs = length (user_failures cfg now key rows)"
proof -
  have "filter (\<lambda>u. u \<ge> now - login_window cfg) (row_times key rows) = filter (\<lambda>u. u \<ge> now - login_window cfg) (log_times key gs)"
  proof (rule filter_ge_mono)
    show "filter (\<lambda>t. t \<ge> now - login_retention cfg) (row_times key rows) = filter (\<lambda>t. t \<ge> now - login_retention cfg) (log_times key gs)"
      using assms(1,3) by (simp add: rows_match_def)
  qed (use assms(2) in simp)
  moreover have "length (filter (\<lambda>u. u \<ge> now - login_window cfg) (row_times key rows)) = length (user_failures cfg now key rows)"
    by (simp add: user_failures_def filter_map comp_def conj_commute)
  ultimately show ?thesis by (simp add: recent_guesses_def)
qed

lemma recent_later: "t \<le> now \<Longrightarrow> recent_guesses cfg now key gs \<le> recent_guesses cfg t key gs"
  unfolding recent_guesses_def by (rule length_filter_mono) simp

lemma recent_filter: "recent_guesses cfg now key (filter p gs) \<le> recent_guesses cfg now key gs"
  unfolding recent_guesses_def by (induction gs) auto

lemma budget_later: "budget_ok cfg K t gs fl \<Longrightarrow> t \<le> now \<Longrightarrow> budget_ok cfg K now gs fl"
  unfolding budget_ok_def using recent_later by (smt (verit) of_nat_add of_nat_mono)

text \<open>A request whose outcome is written as a failure trades its place in flight for a guess.\<close>

lemma budget_guess:
  "budget_ok cfg K now gs fl \<Longrightarrow> key \<in># fl \<Longrightarrow> budget_ok cfg K now (gs @ [(key, now)]) (fl - {#key#})"
  by (auto simp: budget_ok_def recent_guesses_def not_in_iff dest: multi_member_split)

lemma budget_less:
  "budget_ok cfg K now gs fl \<Longrightarrow> budget_ok cfg K now (filter p gs) (fl - {#key#})"
  unfolding budget_ok_def
proof (intro allI impI)
  fix k
  assume "\<forall>key. \<not> source_key key \<longrightarrow> int (recent_guesses cfg now key gs + count fl key) \<le> user_cap cfg - 1 + int K"
    and "\<not> source_key k"
  moreover have "recent_guesses cfg now k (filter p gs) + count (fl - {#key#}) k \<le> recent_guesses cfg now k gs + count fl k"
    by (intro add_mono recent_filter) simp
  ultimately show "int (recent_guesses cfg now k (filter p gs) + count (fl - {#key#}) k) \<le> user_cap cfg - 1 + int K"
    using of_nat_mono order_trans by blast
qed

lemma under_cap_guess:
  assumes "under_cap cfg K gs" and "budget_ok cfg K now (gs @ [(key, now)]) fl"
  shows "under_cap cfg K (gs @ [(key, now)])"
  unfolding under_cap_def
proof (intro allI impI)
  fix k t
  assume k: "\<not> source_key k"
  let ?w = "\<lambda>u. t - login_window cfg \<le> u \<and> u \<le> t"
  have old: "int (length (filter ?w (log_times k gs))) \<le> user_cap cfg - 1 + int K" using assms(1) k by (simp add: under_cap_def)
  show "int (length (filter ?w (log_times k (gs @ [(key, now)])))) \<le> user_cap cfg - 1 + int K"
  proof (cases "k = key \<and> ?w now")
    case False
    then show ?thesis using old by auto
  next
    case True
    then have "length (filter ?w (log_times k (gs @ [(key, now)]))) \<le> recent_guesses cfg now k (gs @ [(key, now)])"
      unfolding recent_guesses_def by (intro length_filter_mono) auto
    moreover have "int (recent_guesses cfg now k (gs @ [(key, now)]) + count fl k) \<le> user_cap cfg - 1 + int K"
      using assms(2) k by (simp add: budget_ok_def)
    ultimately show ?thesis by linarith
  qed
qed

lemma under_cap_filter: "under_cap cfg K gs \<Longrightarrow> under_cap cfg K (filter p gs)"
  unfolding under_cap_def
proof (intro allI impI)
  fix key t
  assume u: "\<forall>key t. \<not> source_key key \<longrightarrow>
      int (length (filter (\<lambda>u. t - login_window cfg \<le> u \<and> u \<le> t) (log_times key gs))) \<le> user_cap cfg - 1 + int K"
    and k: "\<not> source_key key"
  have "length (filter q (log_times key (filter p gs))) \<le> length (filter q (log_times key gs))" for q
    by (induction gs) auto
  then show "int (length (filter (\<lambda>u. t - login_window cfg \<le> u \<and> u \<le> t) (log_times key (filter p gs)))) \<le> user_cap cfg - 1 + int K"
    using order_trans [OF of_nat_mono] u k by blast
qed

text \<open>The three ways a request in flight ends: with a failure, without a trace, or signed in.\<close>

lemma settled:
  assumes "history_ok cfg K now rows gs fl" and "login_enabled cfg" and "normalize_username name \<in># fl"
  shows "history_ok cfg K now (record_failure cfg now name ip rows) (gs @ [(normalize_username name, now)])
      (fl - {#normalize_username name#})"
    and "history_ok cfg K now rows gs (fl - {#key#})"
    and "history_ok cfg K now (clear_failures name rows) (filter (\<lambda>e. fst e \<noteq> normalize_username name) gs) (fl - {#key#})"
proof -
  have h: "rows_match cfg now rows gs" "budget_ok cfg K now gs fl" "under_cap cfg K gs"
    using assms(1) by (simp_all add: history_ok_def)
  note b = budget_guess [OF h(2) assms(3)]
  show "history_ok cfg K now (record_failure cfg now name ip rows) (gs @ [(normalize_username name, now)])
      (fl - {#normalize_username name#})"
    using rows_match_failure [OF h(1) assms(2)] b under_cap_guess [OF h(3) b] by (simp add: history_ok_def)
  show "history_ok cfg K now rows gs (fl - {#key#})"
    using h budget_less [OF h(2), of "\<lambda>_. True" key] by (simp add: history_ok_def)
  show "history_ok cfg K now (clear_failures name rows) (filter (\<lambda>e. fst e \<noteq> normalize_username name) gs) (fl - {#key#})"
    using rows_match_clear [OF h(1)] budget_less [OF h(2)] under_cap_filter [OF h(3)] by (simp add: history_ok_def)
qed

lemma password_outcome_cases:
  assumes "password_outcome cfg users verify now username pw ip rows = (answer, rows')"
  obtains (bad) "guessed answer True username now gs = gs @ [(normalize_username username, now)]"
      "rows' = record_failure cfg now username ip rows"
  | (half) "guessed answer True username now gs = gs" "rows' = rows"
  | (in') "guessed answer True username now gs = filter (\<lambda>e. fst e \<noteq> normalize_username username) gs"
      "rows' = clear_failures username rows"
proof -
  have find: "ac_username a = username" if "List.find (\<lambda>a. ac_username a = username) users = Some a" for a
    using that by (auto dest: find_Some_set)
  show thesis
    using assms find bad half in'
    by (auto simp: password_outcome_def Let_def WRONG_PASSWORD_def guessed_def split: option.splits if_splits)
qed

lemma assertion_outcome_cases:
  assumes "assertion_outcome cfg u now a ip rows = (answer, rows')"
  obtains (bad) "guessed answer (a = AssertionFails) (ac_username u) now gs = gs @ [(normalize_username (ac_username u), now)]"
      "rows' = record_failure cfg now (ac_username u) ip rows"
  | (half) "guessed answer (a = AssertionFails) (ac_username u) now gs = gs" "rows' = rows"
  | (in') "guessed answer (a = AssertionFails) (ac_username u) now gs
        = filter (\<lambda>e. fst e \<noteq> normalize_username (ac_username u)) gs"
      "rows' = clear_failures (ac_username u) rows"
  using assms bad half in' by (cases a) (auto simp: assertion_outcome_def guessed_def)

lemma history_ok_reached:
  assumes "login_enabled cfg" and "0 < user_cap cfg" and "0 < ip_cap cfg" and "user_cap cfg + ip_cap cfg \<le> 501"
    and "login_window cfg \<le> login_retention cfg"
    and "login_history cfg users verify K now rows gs fl"
  shows "history_ok cfg K now rows gs fl"
  using assms(6)
proof induction
  case (start now)
  then show ?case using assms(2) by (simp add: history_ok_def rows_match_def budget_ok_def under_cap_def recent_guesses_def)
next
  case (wait t rows gs fl now)
  then show ?case using rows_match_mono budget_later by (auto simp: history_ok_def)
next
  case (admitted now rows gs fl ip username)
  then have m: "rows_match cfg now rows gs" "budget_ok cfg K now gs fl" by (simp_all add: history_ok_def)
  have few: "int (length (user_failures cfg now (normalize_username username) rows)) < user_cap cfg"
    using login_check_exact [OF assms(1-4) admitted.hyps(2)] admitted.hyps(3) by blast
  then have "budget_ok cfg K now gs (add_mset (normalize_username username) fl)"
    using m(2) admitted.hyps(4) recent_rows [OF m(1) assms(5)] by (fastforce simp: budget_ok_def)
  then show ?case using admitted.IH by (simp add: history_ok_def)
next
  case (password now rows gs fl username pw ip answer rows')
  note s = settled [OF password.IH assms(1) password.hyps(2)]
  from password.hyps(3) show ?case by (cases rule: password_outcome_cases [where gs = gs]) (simp_all add: s)
next
  case (second_factor now rows gs fl u a ip answer rows')
  note s = settled [OF second_factor.IH assms(1) second_factor.hyps(3)]
  from second_factor.hyps(4) show ?case by (cases rule: assertion_outcome_cases [where gs = gs]) (simp_all add: s)
next
  case (died now rows gs fl key)
  then have "budget_ok cfg K now (filter (\<lambda>_. True) gs) (fl - {#key#})"
    by (intro budget_less) (simp add: history_ok_def)
  with died.IH show ?case by (simp add: history_ok_def)
next
  case (token now rows gs fl ip)
  then show ?case using rows_match_token [OF _ token_key_source] by (simp add: history_ok_def)
qed

text \<open>
  C30. With the throttle and both caps on, together at most 501, and the window within the retention,
  no window holds more failed guesses at a username from known addresses than its cap plus the
  requests that overlap: if at most K requests for a username are ever between their check and their
  outcome, at most the cap minus one plus K, and with one at a time the cap itself. This holds between
  two successful sign-ins of that user, however the checks and outcomes of requests interleave and from
  however many addresses: passwords and assertions draw on one budget, whatever the spelling of the name.
\<close>

theorem login_guesses_bounded:
  assumes "login_enabled cfg" and "0 < user_cap cfg" and "0 < ip_cap cfg" and "user_cap cfg + ip_cap cfg \<le> 501"
    and "login_window cfg \<le> login_retention cfg"
    and "login_history cfg users verify K now rows gs fl" and "\<not> source_key key"
  shows "int (length (filter (\<lambda>u. t - login_window cfg \<le> u \<and> u \<le> t) (log_times key gs))) \<le> user_cap cfg - 1 + int K"
  using history_ok_reached [OF assms(1-6)] assms(7) by (simp add: history_ok_def under_cap_def)

section \<open>When the block lifts\<close>

lemma sorted_count_below:
  assumes "sorted (xs :: int list)" and "i < length xs" and "xs ! i < c"
  shows "length (filter (\<lambda>x. c \<le> x) xs) \<le> length xs - Suc i"
proof -
  have "x < c" if "x \<in> set (take (Suc i) xs)" for x
  proof -
    from that obtain j where "j < length (take (Suc i) xs)" "x = take (Suc i) xs ! j" by (metis in_set_conv_nth)
    then have "j \<le> i" "x = xs ! j" by simp_all
    then show ?thesis using sorted_nth_mono [OF assms(1)] assms(2,3) by fastforce
  qed
  then have "filter (\<lambda>x. c \<le> x) (take (Suc i) xs) = []" by (auto simp: filter_empty_conv not_le)
  moreover have "filter (\<lambda>x. c \<le> x) xs = filter (\<lambda>x. c \<le> x) (take (Suc i) xs) @ filter (\<lambda>x. c \<le> x) (drop (Suc i) xs)"
    by (metis append_take_drop_id filter_append)
  ultimately show ?thesis by (metis append_Nil length_drop length_filter_le)
qed

lemma sorted_count_above:
  assumes "sorted (xs :: int list)" and "i < length xs" and "c \<le> xs ! i"
  shows "length xs - i \<le> length (filter (\<lambda>x. c \<le> x) xs)"
proof -
  have "c \<le> x" if "x \<in> set (drop i xs)" for x
  proof -
    from that obtain j where "j < length (drop i xs)" "x = drop i xs ! j" by (metis in_set_conv_nth)
    then have "i + j < length xs" "x = xs ! (i + j)" by simp_all
    then show ?thesis using sorted_nth_mono [OF assms(1), of i "i + j"] assms(3) by simp
  qed
  then have "filter (\<lambda>x. c \<le> x) (drop i xs) = drop i xs" by (simp add: filter_id_conv)
  moreover have "filter (\<lambda>x. c \<le> x) xs = filter (\<lambda>x. c \<le> x) (take i xs) @ filter (\<lambda>x. c \<le> x) (drop i xs)"
    by (metis append_take_drop_id filter_append)
  ultimately show ?thesis by simp
qed

lemma map_sort_key: "map la_at (sort_key la_at xs) = sort (map la_at xs)" for xs :: "login_row list"
  by (rule properties_for_sort [symmetric]) simp_all

text \<open>
  A refused username is told the truth to the second: after the announced number of seconds,
  with no failure in between, it is under its cap, and until one second earlier it is not.
\<close>

theorem login_retry_exact:
  assumes "login_check cfg now username ip ip_only rows = Some th" and "th_scope th = ''user''"
    and "length (filter (\<lambda>r. la_at r \<ge> now - login_window cfg \<and>
           (la_username r = normalize_username username \<or> la_ip r = ip)) rows) \<le> LOGIN_ROWS_SCANNED"
  shows "int (length (user_failures cfg (now + seconds (th_retry_after th)) (normalize_username username) rows)) < user_cap cfg
    \<and> (now \<le> t \<longrightarrow> t \<le> now + seconds (th_retry_after th - 1) \<longrightarrow>
         int (length (user_failures cfg t (normalize_username username) rows)) \<ge> user_cap cfg)"
proof -
  let ?key = "normalize_username username" and ?w = "login_window cfg"
  let ?m = "filter (\<lambda>r. la_at r \<ge> now - ?w \<and> (la_username r = ?key \<or> la_ip r = ip)) rows"
  let ?stamps = "sort (map la_at (user_failures cfg now ?key rows))"
  have "filter (\<lambda>r. la_username r = ?key) ?m = user_failures cfg now ?key rows"
    by (auto simp: user_failures_def intro!: filter_cong)
  then have stamps: "map la_at (filter (\<lambda>r. la_username r = ?key) (scanned_rows cfg now ?key ip rows)) = ?stamps"
    using assms(3) by (simp add: scanned_rows_def filter_sort map_sort_key)
  define n where "n = length ?stamps"
  have len: "length (filter (\<lambda>r. la_username r = ?key) (scanned_rows cfg now ?key ip rows)) = length (user_failures cfg now ?key rows)"
    using stamps by (metis length_map length_sort)
  define i where "i = nat (int n - user_cap cfg)"
  have cap: "0 < user_cap cfg" "user_cap cfg \<le> int n"
    and th: "th = mk_throttled (login_retry_after ?stamps (user_cap cfg) ?w now) ''user''"
    using assms(1,2) stamps len
    by (auto simp: login_check_def Let_def mk_throttled_def n_def split: if_splits)
  have i: "i < n" "int (n - i) = user_cap cfg" "int (n - Suc i) = user_cap cfg - 1" using cap by (auto simp: i_def)
  let ?d = "?stamps ! i + ?w - now"
  have "?stamps ! i \<in> set ?stamps" using i(1) unfolding n_def by (rule nth_mem)
  then have d: "0 \<le> ?d" by (auto simp: user_failures_def)
  have "py_trunc (of_int ?d / 1000000) = ?d div 1000000"
    using d by (simp add: py_trunc_def floor_divide_of_int_eq [of ?d 1000000, simplified])
  then have ra: "th_retry_after th = ?d div 1000000 + 1"
    using d by (simp add: th mk_throttled_def login_retry_after_def i_def n_def)
  define q where "q = ?d div 1000000"
  define m where "m = ?d mod 1000000"
  have split: "?d = 1000000 * q + m" "0 \<le> m" "m < 1000000" by (simp_all add: q_def m_def)
  have ra': "th_retry_after th = q + 1" by (simp add: ra q_def)
  have late: "?stamps ! i < now + seconds (th_retry_after th) - ?w" and early: "now + seconds (th_retry_after th - 1) - ?w \<le> ?stamps ! i"
    using split by (simp_all add: ra' seconds_def algebra_simps)
  have at: "length (user_failures cfg u ?key rows) = length (filter (\<lambda>x. u - ?w \<le> x) ?stamps)" if "now \<le> u" for u
  proof -
    have "user_failures cfg u ?key rows = filter (\<lambda>r. u - ?w \<le> la_at r) (user_failures cfg now ?key rows)"
      using that by (auto simp: user_failures_def intro!: filter_cong)
    then show ?thesis by (simp add: filter_sort filter_map comp_def)
  qed
  have "now \<le> now + seconds (th_retry_after th)" using d by (simp add: ra seconds_def)
  from at [OF this] sorted_count_below [OF sorted_sort _ late] i
  have "int (length (user_failures cfg (now + seconds (th_retry_after th)) ?key rows)) < user_cap cfg"
    by (simp add: n_def)
  moreover have "int (length (user_failures cfg t ?key rows)) \<ge> user_cap cfg"
    if "now \<le> t" "t \<le> now + seconds (th_retry_after th - 1)"
  proof -
    have "t - ?w \<le> ?stamps ! i" using that(2) early by linarith
    from at [OF that(1)] sorted_count_above [OF sorted_sort _ this] i show ?thesis by (simp add: n_def)
  qed
  ultimately show ?thesis by blast
qed

text \<open>
  The challenge endpoint tells who exists and is never slowed down for it: it writes no failure,
  so any list of names that have none yet is answered from start to end, one that does not exist
  with 404.
\<close>

theorem begin_probes_unthrottled:
  assumes "\<forall>name \<in> set names. user_failures cfg now (normalize_username name) rows = []"
    and "0 < user_cap cfg" and "int (length (ip_failures cfg now ip rows)) < ip_cap cfg"
  shows "map (\<lambda>name. fst (webauthn_login_begin cfg users has_keys now name ip rows)) names =
      map (\<lambda>name. case List.find (\<lambda>u. ac_username u = name \<and> ac_active u) users of
             None \<Rightarrow> Refused 404 ''User not found''
           | Some u \<Rightarrow> if has_keys u then Challenge (ac_id u)
                       else Refused 400 ''No FIDO2 keys registered for this account'') names
    \<and> list_all (\<lambda>name. snd (webauthn_login_begin cfg users has_keys now name ip rows) = rows) names"
proof -
  have "login_check cfg now name ip False rows = None" if "name \<in> set names" for name
    using assms that scanned_le [of "normalize_username name" cfg now ip rows]
      scanned_le(2) [of ip cfg now "normalize_username name" rows]
    by (auto simp: login_check_def Let_def)
  then show ?thesis
    by (auto simp: webauthn_login_begin_def list_all_iff split: option.split)
qed

text \<open>
  An address of more than 45 characters has no cap: failures are stored under its first 45 and looked
  up under all of it.
\<close>

lemma long_address_uncapped:
  assumes "\<forall>r \<in> set rows. length (la_ip r) \<le> 45" and "length ip > 45"
    and "login_check cfg now username ip ip_only rows = Some th"
  shows "th_scope th = ''user''"
proof -
  have "filter (\<lambda>r. la_ip r = ip) (scanned_rows cfg now (normalize_username username) ip rows) = []"
    using assms(1,2) by (fastforce simp: filter_empty_conv scanned_rows_def dest!: in_set_takeD)
  then show ?thesis using assms(3) by (auto simp: login_check_def Let_def mk_throttled_def split: if_splits)
qed

lemma recorded_addresses_short:
  "\<forall>r \<in> set rows. length (la_ip r) \<le> 45 \<Longrightarrow> \<forall>r \<in> set (record_failure cfg now username ip rows). length (la_ip r) \<le> 45"
  by (auto simp: record_failure_def sweep_logins_def Let_def)

section \<open>A small installation\<close>

definition login_cfg :: config where
  "login_cfg = default_config\<lparr> cfg_store := [(''login_max_attempts'', ''2''), (''login_max_attempts_per_ip'', ''3'')] \<rparr>"

definition login_free_ip :: config where
  "login_free_ip = default_config\<lparr> cfg_store := [(''login_max_attempts'', ''2''), (''login_max_attempts_per_ip'', ''0'')] \<rparr>"

definition login_users :: "account list" where
  "login_users = [\<lparr> ac_id = ''u1'', ac_username = ''Ann'', ac_service = False, ac_provider = ''local'', ac_active = True, ac_mfa = False \<rparr>]"

lemma login_cfg_values:
  "login_enabled login_cfg" "user_cap login_cfg = 2" "ip_cap login_cfg = 3" "login_window login_cfg = 900000000"
  "login_retention login_cfg = 3600000000"
  "user_cap login_free_ip = 2" "ip_cap login_free_ip = 0" "login_window login_free_ip = 900000000"
  by code_simp+

definition ann_failed :: "login_row list" where
  "ann_failed = [\<lparr> la_username = ''ann'', la_ip = ''h'', la_at = 5 \<rparr>, \<lparr> la_username = ''ann'', la_ip = ''h'', la_at = 7 \<rparr>]"

lemma normalize_ann: "normalize_username ''Ann'' = ''ann''" by code_simp

lemma login_check_exact_witness:
  "login_check login_cfg 9 ''Ann'' ''k'' False ann_failed \<noteq> None \<and> login_check login_cfg 9 ''Bob'' ''k'' False ann_failed = None"
proof -
  have "normalize_username ''Bob'' = ''bob''" by code_simp
  then show ?thesis
    using login_check_exact [of login_cfg "''k''" 9 "''Ann''" ann_failed] login_check_exact [of login_cfg "''k''" 9 "''Bob''" ann_failed]
    by (simp add: login_cfg_values normalize_ann user_failures_def ip_failures_def ann_failed_def)
qed

lemma crowded_out_cap_witness:
  "login_check login_free_ip 9 ''Ann'' ''k'' False
     (replicate 500 \<lparr> la_username = ''x'', la_ip = ''k'', la_at = 1 \<rparr> @ ann_failed) = None"
  by (rule crowded_out_cap) (auto simp: login_cfg_values normalize_ann ann_failed_def LOGIN_ROWS_SCANNED_def)

lemma login_retry_exact_witness:
  "int (length (user_failures login_cfg (9 + seconds 900) ''ann'' ann_failed)) < 2"
proof -
  have "login_check login_cfg 9 ''Ann'' ''k'' False ann_failed = Some (mk_throttled 900 ''user'')" by code_simp
  from login_retry_exact [OF this] show ?thesis
    by (simp add: mk_throttled_def login_cfg_values normalize_ann ann_failed_def LOGIN_ROWS_SCANNED_def)
qed

lemma begin_probes_unthrottled_witness:
  "map (\<lambda>name. fst (webauthn_login_begin login_cfg login_users (\<lambda>_. True) 9 name ''k'' [])) [''Ann'', ''Bob'', ''Cy'']
     = [Challenge ''u1'', Refused 404 ''User not found'', Refused 404 ''User not found'']"
  using begin_probes_unthrottled [of "[''Ann'', ''Bob'', ''Cy'']" login_cfg 9 "[]" "''k''" login_users "\<lambda>_. True"]
  by (simp add: login_cfg_values user_failures_def ip_failures_def login_users_def)

text \<open>Two guesses that passed the check together, and a third that the cap of two lets through no more.\<close>

lemma login_guesses_bounded_witness:
  "int (length (filter (\<lambda>u. 0 \<le> u \<and> u \<le> 900000000)
     (log_times ''ann'' (guessed WRONG_PASSWORD True ''Ann'' 5 (guessed WRONG_PASSWORD True ''Ann'' 5 []))))) \<le> 3"
proof -
  let ?v = "\<lambda>_ p. p = ''pw''" and ?h = "login_history login_cfg login_users (\<lambda>_ p. p = ''pw'') 2 5"
  define r1 where "r1 = record_failure login_cfg 5 ''Ann'' ''h'' []"
  have free: "login_check login_cfg 5 ''Ann'' ''h'' False [] = None" by code_simp
  have bad: "password_outcome login_cfg login_users ?v 5 ''Ann'' ''no'' ''h'' rows
      = (WRONG_PASSWORD, record_failure login_cfg 5 ''Ann'' ''h'' rows)" for rows
    by (simp add: password_outcome_def login_users_def)
  have "?h [] [] {#}" by (rule login_history.start)
  then have "?h [] [] {#''ann''#}"
    using login_history.admitted [of login_cfg login_users ?v 2 5 "[]" "[]" "{#}" "''h''" "''Ann''"] free by (simp add: normalize_ann)
  then have "?h [] [] {#''ann'', ''ann''#}"
    using login_history.admitted [of login_cfg login_users ?v 2 5 "[]" "[]" "{#''ann''#}" "''h''" "''Ann''"] free by (simp add: normalize_ann)
  then have "?h r1 (guessed WRONG_PASSWORD True ''Ann'' 5 []) {#''ann''#}"
    using login_history.password [of login_cfg login_users ?v 2 5 "[]" "[]" "{#''ann'', ''ann''#}" "''Ann''", OF _ _ bad]
    by (simp add: normalize_ann r1_def)
  then have h: "?h (record_failure login_cfg 5 ''Ann'' ''h'' r1)
      (guessed WRONG_PASSWORD True ''Ann'' 5 (guessed WRONG_PASSWORD True ''Ann'' 5 [])) {#}"
    using login_history.password [of login_cfg login_users ?v 2 5 r1 _ "{#''ann''#}" "''Ann''", OF _ _ bad] by (simp add: normalize_ann)
  from login_guesses_bounded [OF _ _ _ _ _ h, of "''ann''" 900000000] show ?thesis
    by (simp add: login_cfg_values source_key_def starts_with_def)
qed

end
