(* ===== verification/Service_Accounts.thy ===== *)
theory Service_Accounts
  imports User_Admin Agent_Attest Login_Guard
begin

text \<open>
  Workload identities: OAuth clients of service accounts and their access tokens
  (\<open>services/service_accounts.py\<close>), the token endpoint (\<open>api/oauth.py\<close>), JWT-SVIDs as client assertions
  (\<open>services/spiffe_assertion.py\<close>), identities of an external provider
  (\<open>services/external_workload.py\<close>), personal access tokens, and the one resolver of bearer
  credentials (\<open>api/auth.py\<close>).

  Parameters: the digest of a secret, the fresh secrets and ids, the JOSE library (what it reads and
  verifies of a token), and the dashboard's own trust domain. A request of the token endpoint is one
  step; that its throttle check and its failure row are separate transactions is in \<open>Login_Guard\<close>. An access token is its claims; who can
  forge one is a question about the signature. Reading the form and the headers of a request is not
  modelled.
\<close>

section \<open>Clients\<close>

record oauth_client =
  oc_id :: string
  oc_client_id :: string
  oc_user_id :: string
  oc_name :: string
  oc_secret_hash :: string
  oc_secret_expires_at :: "instant option"
  oc_previous_secret_hash :: "string option"
  oc_previous_expires_at :: "instant option"
  oc_token_ttl_seconds :: int
  oc_created_by :: "string option"
  oc_last_used_at :: "instant option"
  oc_is_active :: bool
  oc_auth_method :: "string option"
  oc_spiffe_id :: "string option"

record external_identity =
  xi_id :: string
  xi_user_id :: string
  xi_issuer :: string
  xi_subject :: string
  xi_expected_client :: "string option"
  xi_name :: string
  xi_last_used_at :: "instant option"
  xi_is_active :: bool

record access_token =
  pt_id :: string
  pt_user_id :: string
  pt_name :: string
  pt_token_hash :: string
  pt_expires_at :: "instant option"
  pt_last_used_at :: "instant option"
  pt_is_active :: bool

record workload_db =
  wl_desk :: desk
  wl_clients :: "oauth_client list"
  wl_identities :: "external_identity list"
  wl_tokens :: "access_token list"
  wl_trust :: trust_db
  wl_ephemeral :: "ephemeral list"
  wl_attempts :: "login_row list"

abbreviation wl_rbac :: "workload_db \<Rightarrow> rbac" where
  "wl_rbac w \<equiv> k_db (wl_desk w)"

definition TOKEN_TYPE :: string where "TOKEN_TYPE = ''workload''"
definition AUTH_METHOD :: string where "AUTH_METHOD = ''spiffe_jwt''"
definition DEFAULT_TOKEN_TTL_SECONDS :: int where "DEFAULT_TOKEN_TTL_SECONDS = 900"
definition MIN_TOKEN_TTL_SECONDS :: int where "MIN_TOKEN_TTL_SECONDS = 60"
definition MAX_TOKEN_TTL_SECONDS :: int where "MAX_TOKEN_TTL_SECONDS = 3600"
definition DEFAULT_SECRET_DAYS :: int where "DEFAULT_SECRET_DAYS = 90"
definition MAX_SECRET_DAYS :: int where "MAX_SECRET_DAYS = 365"
definition DEFAULT_ROTATION_GRACE_MINUTES :: int where "DEFAULT_ROTATION_GRACE_MINUTES = 60"
definition MAX_ROTATION_GRACE_MINUTES :: int where "MAX_ROTATION_GRACE_MINUTES = 7 * 24 * 60"

definition day_span :: "int \<Rightarrow> instant" where "day_span n = seconds (86400 * n)"

definition bounded_int :: "int option \<Rightarrow> int \<Rightarrow> int \<Rightarrow> int \<Rightarrow> string \<Rightarrow> string + int" where
  "bounded_int v dflt lo hi what =
     (case v of
        None \<Rightarrow> Inr dflt
      | Some n \<Rightarrow> if n < lo \<or> n > hi then Inl (what @ '' must be between '' @ py_str_int lo @ '' and '' @ py_str_int hi @ ''.'')
                  else Inr n)"

definition service_account_problem :: "principal option \<Rightarrow> string option" where
  "service_account_problem user =
     (case user of
        None \<Rightarrow> Some ''No such service account.''
      | Some u \<Rightarrow>
          if \<not> u_is_service_account u then Some (quoted (u_username u) @ '' is a person's account.'')
          else if \<not> u_is_active u then Some (quoted (u_username u) @ '' is disabled.'')
          else None)"

definition RESERVED_BASES :: "string list" where "RESERVED_BASES = [''/agent'', ''/dashboard'']"

definition path_of :: "string \<Rightarrow> string \<Rightarrow> string" where
  "path_of spiffe_id td =
     (if starts_with (''spiffe://'' @ td @ ''/'') spiffe_id then drop (length (''spiffe://'' @ td)) spiffe_id else [])"

definition reserved_path :: "string \<Rightarrow> string \<Rightarrow> bool" where
  "reserved_path spiffe_id td =
     list_ex (\<lambda>base. path_of spiffe_id td = base \<or> starts_with (base @ ''/'') (path_of spiffe_id td)) RESERVED_BASES"

text \<open>Why a client may not be bound to this identity. \<open>own\<close> is the dashboard's trust domain, if registered.\<close>

definition binding_problem :: "string option \<Rightarrow> oauth_client list \<Rightarrow> string \<Rightarrow> string option" where
  "binding_problem own clients sid =
     (if \<not> valid_spiffe_id sid then Some (quoted sid @ '' is not a SPIFFE ID'')
      else if (case own of None \<Rightarrow> False | Some td \<Rightarrow> reserved_path sid td)
      then Some (sid @ '' is reserved in the dashboard's own trust domain'')
      else if list_ex (\<lambda>c. oc_spiffe_id c = Some sid \<and> oc_is_active c) clients
      then Some (sid @ '' already authenticates an active OAuth client.'')
      else None)"

text \<open>The result is the new row and the raw secret shown once.\<close>

definition create_client ::
  "(string \<Rightarrow> string) \<Rightarrow> instant \<Rightarrow> string \<Rightarrow> string \<Rightarrow> string \<Rightarrow> string option \<Rightarrow> principal option \<Rightarrow> string \<Rightarrow>
   int option \<Rightarrow> int option \<Rightarrow> string \<Rightarrow> string \<Rightarrow> workload_db \<Rightarrow> (string + oauth_client \<times> string) \<times> workload_db" where
  "create_client hash now row_id cid raw own user name secret_days ttl created_by spiffe w =
     (let sid = py_strip spiffe
      in case (if sid = [] then None else binding_problem own (wl_clients w) sid) of
           Some e \<Rightarrow> (Inl e, w)
         | None \<Rightarrow>
             (case service_account_problem user of
                Some e \<Rightarrow> (Inl e, w)
              | None \<Rightarrow>
                  if py_strip name = [] then (Inl ''An OAuth client needs a name.'', w)
                  else (case bounded_int secret_days DEFAULT_SECRET_DAYS 1 MAX_SECRET_DAYS ''Secret lifetime (days)'' of
                          Inl e \<Rightarrow> (Inl e, w)
                        | Inr days \<Rightarrow>
                            (case bounded_int ttl DEFAULT_TOKEN_TTL_SECONDS MIN_TOKEN_TTL_SECONDS MAX_TOKEN_TTL_SECONDS
                                    ''Access-token lifetime (seconds)'' of
                               Inl e \<Rightarrow> (Inl e, w)
                             | Inr ttl_s \<Rightarrow>
                                 (let row = \<lparr> oc_id = row_id, oc_client_id = cid, oc_user_id = u_id (the user),
                                      oc_name = take 100 (py_strip name), oc_secret_hash = hash raw,
                                      oc_secret_expires_at = Some (now + day_span days), oc_previous_secret_hash = None,
                                      oc_previous_expires_at = None, oc_token_ttl_seconds = ttl_s,
                                      oc_created_by = or_none (Some created_by), oc_last_used_at = None, oc_is_active = True,
                                      oc_auth_method = (if sid \<noteq> [] then Some AUTH_METHOD else None),
                                      oc_spiffe_id = or_none (Some sid) \<rparr>
                                  in (Inr (row, if sid \<noteq> [] then [] else raw), w\<lparr> wl_clients := wl_clients w @ [row] \<rparr>))))))"

definition upd_client :: "string \<Rightarrow> (oauth_client \<Rightarrow> oauth_client) \<Rightarrow> workload_db \<Rightarrow> workload_db" where
  "upd_client rid f w = w\<lparr> wl_clients := tbl_update (\<lambda>c. oc_id c = rid) f (wl_clients w) \<rparr>"

text \<open>\<open>rotate_client\<close> on one row.\<close>

definition rotated :: "(string \<Rightarrow> string) \<Rightarrow> instant \<Rightarrow> string \<Rightarrow> int \<Rightarrow> int \<Rightarrow> oauth_client \<Rightarrow> oauth_client" where
  "rotated hash now raw days grace c =
     (let kept = (if grace \<noteq> 0
                  then c\<lparr> oc_previous_secret_hash := Some (oc_secret_hash c),
                          oc_previous_expires_at :=
                            Some (case oc_secret_expires_at c of
                                    None \<Rightarrow> now + minutes grace
                                  | Some old_end \<Rightarrow> min (now + minutes grace) old_end) \<rparr>
                  else c\<lparr> oc_previous_secret_hash := None, oc_previous_expires_at := None \<rparr>)
      in kept\<lparr> oc_secret_hash := hash raw, oc_secret_expires_at := Some (now + day_span days) \<rparr>)"

definition rotate_client ::
  "(string \<Rightarrow> string) \<Rightarrow> instant \<Rightarrow> string \<Rightarrow> oauth_client \<Rightarrow> int option \<Rightarrow> int option \<Rightarrow> workload_db \<Rightarrow>
   (string + string) \<times> workload_db" where
  "rotate_client hash now raw c secret_days grace w =
     (if \<not> oc_is_active c then (Inl ''That client is revoked. Create a new one instead.'', w)
      else if oc_auth_method c = Some AUTH_METHOD
      then (Inl ''That client authenticates with a SPIFFE JWT-SVID and has no secret to rotate.'', w)
      else (case bounded_int secret_days DEFAULT_SECRET_DAYS 1 MAX_SECRET_DAYS ''Secret lifetime (days)'' of
              Inl e \<Rightarrow> (Inl e, w)
            | Inr days \<Rightarrow>
                (case bounded_int grace DEFAULT_ROTATION_GRACE_MINUTES 0 MAX_ROTATION_GRACE_MINUTES
                        ''Rotation grace (minutes)'' of
                   Inl e \<Rightarrow> (Inl e, w)
                 | Inr grace \<Rightarrow> (Inr raw, upd_client (oc_id c) (rotated hash now raw days grace) w))))"

definition revoke_client :: "string \<Rightarrow> workload_db \<Rightarrow> workload_db" where
  "revoke_client rid w = upd_client rid (\<lambda>c. c\<lparr> oc_is_active := False \<rparr>) w"

definition secret_accepted :: "(string \<Rightarrow> string) \<Rightarrow> instant \<Rightarrow> string \<Rightarrow> oauth_client \<Rightarrow> bool" where
  "secret_accepted hash now secret c =
     (if oc_secret_hash c \<noteq> [] \<and> hash secret = oc_secret_hash c
      then (case oc_secret_expires_at c of None \<Rightarrow> True | Some t \<Rightarrow> t > now)
      else if or_empty (oc_previous_secret_hash c) \<noteq> [] \<and> oc_previous_secret_hash c = Some (hash secret)
      then (case oc_previous_expires_at c of None \<Rightarrow> False | Some t \<Rightarrow> t > now)
      else False)"

definition authenticate_client :: "(string \<Rightarrow> string) \<Rightarrow> instant \<Rightarrow> string \<Rightarrow> string \<Rightarrow> workload_db \<Rightarrow> oauth_client option" where
  "authenticate_client hash now client_id secret w =
     (if client_id = [] \<or> secret = [] then None
      else (case List.find (\<lambda>c. oc_client_id c = client_id) (wl_clients w) of
              None \<Rightarrow> None
            | Some c \<Rightarrow>
                if \<not> oc_is_active c then None
                else if oc_auth_method c = Some AUTH_METHOD then None
                else if \<not> secret_accepted hash now secret c then None
                else if service_account_problem (get_user (wl_rbac w) (oc_user_id c)) \<noteq> None then None
                else Some c))"

text \<open>\<open>spiffe_assertion.authenticate\<close>; the assertion is consumed last.\<close>

definition authenticate_svid ::
  "svid_lib \<Rightarrow> instant \<Rightarrow> string list \<Rightarrow> string \<Rightarrow> string \<Rightarrow> workload_db \<Rightarrow> (string + oauth_client) \<times> workload_db" where
  "authenticate_svid lib now audiences svid client_id w =
     (case verify_svid lib now audiences svid (wl_trust w) of
        (Inl e, tr) \<Rightarrow> (Inl e, w\<lparr> wl_trust := tr \<rparr>)
      | (Inr claims, tr) \<Rightarrow>
          (let w1 = w\<lparr> wl_trust := tr \<rparr>
           in case List.find (\<lambda>c. oc_spiffe_id c = Some (cl_sub claims) \<and> oc_auth_method c = Some AUTH_METHOD \<and> oc_is_active c
                                  \<and> (client_id = [] \<or> oc_client_id c = client_id)) (wl_clients w) of
                None \<Rightarrow> (Inl (''no active SVID client for '' @ cl_sub claims), w1)
              | Some c \<Rightarrow>
                  (case service_account_problem (get_user (wl_rbac w) (oc_user_id c)) of
                     Some e \<Rightarrow> (Inl e, w1)
                   | None \<Rightarrow>
                       (case consume_svid lib now svid (cl_exp claims) (wl_ephemeral w) of
                          None \<Rightarrow> (Inl ''assertion was already used'', w1)
                        | Some rows \<Rightarrow> (Inr c, w1\<lparr> wl_ephemeral := rows \<rparr>)))))"

text \<open>The endpoints of the user page. Removing a SPIRE entry with a revoked client is not modelled.\<close>

definition audited :: "principal \<Rightarrow> string \<Rightarrow> string \<Rightarrow> workload_db \<Rightarrow> workload_db" where
  "audited admin action about w = w\<lparr> wl_desk := add_audit (u_username admin) action about (wl_desk w) \<rparr>"

definition service_account_or_404 :: "rbac \<Rightarrow> string \<Rightarrow> http_error + principal" where
  "service_account_or_404 db uid =
     (case get_user db uid of
        None \<Rightarrow> Inl (Http 404 ''User not found'')
      | Some u \<Rightarrow> (case service_account_problem (Some u) of Some e \<Rightarrow> Inl (Http 400 e) | None \<Rightarrow> Inr u))"

definition client_or_404 :: "workload_db \<Rightarrow> string \<Rightarrow> string \<Rightarrow> http_error + oauth_client" where
  "client_or_404 w uid rid =
     (case List.find (\<lambda>c. oc_id c = rid \<and> oc_user_id c = uid) (wl_clients w) of
        None \<Rightarrow> Inl (Http 404 ''OAuth client not found'')
      | Some c \<Rightarrow> Inr c)"

definition create_oauth_client ::
  "(string \<Rightarrow> string) \<Rightarrow> instant \<Rightarrow> string \<Rightarrow> string \<Rightarrow> string \<Rightarrow> string option \<Rightarrow> principal \<Rightarrow> string \<Rightarrow> string \<Rightarrow>
   int option \<Rightarrow> int option \<Rightarrow> string option \<Rightarrow> workload_db \<Rightarrow> (http_error + oauth_client \<times> string) \<times> workload_db" where
  "create_oauth_client hash now row_id cid raw own admin uid name secret_days ttl spiffe w =
     (case service_account_or_404 (wl_rbac w) uid of
        Inl e \<Rightarrow> (Inl e, w)
      | Inr u \<Rightarrow>
          (case create_client hash now row_id cid raw own (Some u) name secret_days ttl (u_username admin) (or_empty spiffe) w of
             (Inl e, w1) \<Rightarrow> (Inl (Http 400 e), w1)
           | (Inr r, w1) \<Rightarrow> (Inr r, audited admin ''service_account.client_create'' (oc_client_id (fst r)) w1)))"

definition rotate_oauth_client ::
  "(string \<Rightarrow> string) \<Rightarrow> instant \<Rightarrow> string \<Rightarrow> principal \<Rightarrow> string \<Rightarrow> string \<Rightarrow> int option \<Rightarrow> int option \<Rightarrow> workload_db \<Rightarrow>
   (http_error + string) \<times> workload_db" where
  "rotate_oauth_client hash now raw admin uid rid secret_days grace w =
     (case service_account_or_404 (wl_rbac w) uid of
        Inl e \<Rightarrow> (Inl e, w)
      | Inr u \<Rightarrow>
          (case client_or_404 w uid rid of
             Inl e \<Rightarrow> (Inl e, w)
           | Inr c \<Rightarrow>
               (case rotate_client hash now raw c secret_days grace w of
                  (Inl e, w1) \<Rightarrow> (Inl (Http 400 e), w1)
                | (Inr r, w1) \<Rightarrow> (Inr r, audited admin ''service_account.client_rotate'' (oc_client_id c) w1))))"

definition revoke_oauth_client :: "principal \<Rightarrow> string \<Rightarrow> string \<Rightarrow> workload_db \<Rightarrow> (http_error + string) \<times> workload_db" where
  "revoke_oauth_client admin uid rid w =
     (case client_or_404 w uid rid of
        Inl e \<Rightarrow> (Inl e, w)
      | Inr c \<Rightarrow> (Inr ''OAuth client revoked'',
                  audited admin ''service_account.client_revoke'' (oc_client_id c) (revoke_client rid w)))"

section \<open>Scopes\<close>

fun split_ws :: "string \<Rightarrow> string list" where
  "split_ws [] = [[]]"
| "split_ws (c # s) =
     (if is_space c then [] # split_ws s
      else (case split_ws s of [] \<Rightarrow> [[c]] | w # ws \<Rightarrow> (c # w) # ws))"

definition py_split :: "string \<Rightarrow> string list" where
  "py_split s = filter (\<lambda>w. w \<noteq> []) (split_ws s)"

definition before_colon :: "string \<Rightarrow> string" where
  "before_colon s = takeWhile (\<lambda>c. c \<noteq> CHR '':'') s"

definition after_colon :: "string \<Rightarrow> string" where
  "after_colon s = drop 1 (dropWhile (\<lambda>c. c \<noteq> CHR '':'') s)"

fun parse_parts :: "string list \<Rightarrow> scope_levels \<Rightarrow> string + scope_levels" where
  "parse_parts [] out = Inr out"
| "parse_parts (part # parts) out =
     (let scope = before_colon part; level = after_colon part
      in if CHR '':'' \<notin> set part \<or> scope = [] \<or> level = []
         then Inl (''Scope '' @ quoted part @ '' is not of the form <scope>:<level>, e.g. vms:read.'')
         else (let levels = levels_at out scope
               in parse_parts parts (AList.update scope (if level \<in> set levels then levels else levels @ [level]) out)))"

definition parse_scope :: "string option \<Rightarrow> string + scope_levels option" where
  "parse_scope raw =
     (let parts = py_split (or_empty raw)
      in if parts = [] then Inr None
         else (case parse_parts parts [] of
                 Inl e \<Rightarrow> Inl e
               | Inr out \<Rightarrow> Inr (Some (map (\<lambda>(k, v). (k, sort v)) out))))"

definition format_scope :: "scope_levels \<Rightarrow> string" where
  "format_scope scope =
     join_with CHR '' '' (concat (map (\<lambda>s. map (\<lambda>lvl. s @ '':'' @ lvl) (sort (levels_at scope s))) (sort (map fst scope))))"

definition granted_scope :: "principal \<Rightarrow> scope_levels option \<Rightarrow> scope_levels option" where
  "granted_scope u requested =
     (case requested of
        None \<Rightarrow> None
      | Some r \<Rightarrow>
          Some (filter (\<lambda>(scope, keep). keep \<noteq> [])
                  (map (\<lambda>(scope, levels).
                          (scope, case map_of (effective_permissions_dict u) scope of
                                    Some (Levels have) \<Rightarrow> sorted_set (filter (\<lambda>l. l \<in> set have) levels)
                                  | _ \<Rightarrow> []))
                       r)))"

section \<open>Access tokens\<close>

record token_claims =
  tc_type :: string
  tc_sub :: string
  tc_client_id :: string
  tc_expires :: instant
  tc_scope :: "string option"

definition issue_access_token :: "instant \<Rightarrow> principal \<Rightarrow> oauth_client \<Rightarrow> scope_levels option \<Rightarrow> token_claims \<times> int" where
  "issue_access_token now u c scope =
     (let ttl = (if oc_token_ttl_seconds c \<noteq> 0 then oc_token_ttl_seconds c else DEFAULT_TOKEN_TTL_SECONDS)
      in (\<lparr> tc_type = TOKEN_TYPE, tc_sub = u_username u, tc_client_id = oc_client_id c,
            tc_expires = now + seconds ttl, tc_scope = map_option format_scope scope \<rparr>, ttl))"

definition resolve_workload_token :: "token_claims \<Rightarrow> workload_db \<Rightarrow> principal option" where
  "resolve_workload_token payload w =
     (if tc_type payload \<noteq> TOKEN_TYPE then None
      else (case List.find (\<lambda>c. oc_client_id c = tc_client_id payload \<and> oc_is_active c) (wl_clients w) of
              None \<Rightarrow> None
            | Some c \<Rightarrow>
                (case get_user (wl_rbac w) (oc_user_id c) of
                   None \<Rightarrow> None
                 | Some u \<Rightarrow>
                     if service_account_problem (Some u) \<noteq> None \<or> u_username u \<noteq> tc_sub payload then None
                     else (case tc_scope payload of
                             None \<Rightarrow> Some (u\<lparr> u_token_scope := None \<rparr>)
                           | Some s \<Rightarrow>
                               (case parse_scope (Some s) of
                                  Inl e \<Rightarrow> None
                                | Inr None \<Rightarrow> Some (u\<lparr> u_token_scope := Some [] \<rparr>)
                                | Inr (Some scope) \<Rightarrow> Some (u\<lparr> u_token_scope := Some scope \<rparr>))))))"

definition touch_client :: "instant \<Rightarrow> string \<Rightarrow> workload_db \<Rightarrow> workload_db" where
  "touch_client now rid w = upd_client rid (\<lambda>c. c\<lparr> oc_last_used_at := Some now \<rparr>) w"

section \<open>The token endpoint\<close>

definition ASSERTION_TYPES :: "string list" where
  "ASSERTION_TYPES =
     [''urn:ietf:params:oauth:client-assertion-type:jwt-spiffe'',
      ''urn:ietf:params:oauth:client-assertion-type:jwt-bearer'']"

text \<open>The form, with the credentials of the Basic header in place of the form's when there is one.\<close>

record token_form =
  tf_grant_type :: string
  tf_assertion_type :: string
  tf_assertion :: string
  tf_client_id :: string
  tf_secret :: string
  tf_scope :: "string option"

datatype token_answer =
    TokenError int string
  | Throttled int
  | Issued token_claims int "string option"

definition check_scope_catalogue :: "scope_levels \<Rightarrow> string option" where
  "check_scope_catalogue scope =
     (case List.find (\<lambda>(name, levels). map_of PERMISSION_SCOPE_LEVELS name = None
                        \<or> list_ex (\<lambda>l. l \<notin> set (levels_for_scope name)) levels) scope of
        None \<Rightarrow> None
      | Some (name, levels) \<Rightarrow>
          Some (if map_of PERMISSION_SCOPE_LEVELS name = None then ''Unknown scope '' @ quoted name
                else ''Scope '' @ quoted name @ '' has no level ''))"

definition form_problem :: "token_form \<Rightarrow> token_answer option" where
  "form_problem form =
     (if tf_grant_type form \<noteq> ''client_credentials'' then Some (TokenError 400 ''unsupported_grant_type'')
      else if tf_assertion_type form \<noteq> [] \<or> tf_assertion form \<noteq> []
      then (if tf_secret form \<noteq> [] then Some (TokenError 400 ''invalid_request'')
            else if tf_assertion_type form \<notin> set ASSERTION_TYPES \<or> tf_assertion form = []
            then Some (TokenError 401 ''invalid_client'')
            else None)
      else if tf_client_id form = [] \<or> tf_secret form = [] then Some (TokenError 401 ''invalid_client'')
      else None)"

definition issue_for ::
  "instant \<Rightarrow> oauth_client \<Rightarrow> string option \<Rightarrow> workload_db \<Rightarrow> token_answer \<times> workload_db" where
  "issue_for now c scope w =
     (case get_user (wl_rbac w) (oc_user_id c) of
        None \<Rightarrow> (TokenError 500 ''no such user'', w)
      | Some u \<Rightarrow>
          (case parse_scope scope of
             Inl e \<Rightarrow> (TokenError 400 ''invalid_scope'', w)
           | Inr requested \<Rightarrow>
               if (case requested of None \<Rightarrow> False | Some r \<Rightarrow> check_scope_catalogue r \<noteq> None)
               then (TokenError 400 ''invalid_scope'', w)
               else (let granted = granted_scope u requested
                     in if granted = Some [] then (TokenError 400 ''invalid_scope'', w)
                        else (case issue_access_token now u c granted of
                                (claims, ttl) \<Rightarrow>
                                  (Issued claims ttl (map_option format_scope granted), touch_client now (oc_id c) w)))))"

text \<open>
  A refusal after the assertion was consumed leaves the session uncommitted, so the row of the used
  assertion is lost with it; what was fetched or stored of the trust domain stays.
\<close>

definition token ::
  "config \<Rightarrow> svid_lib \<Rightarrow> (string \<Rightarrow> string) \<Rightarrow> instant \<Rightarrow> string list \<Rightarrow> string \<Rightarrow> token_form \<Rightarrow> workload_db \<Rightarrow>
   token_answer \<times> workload_db" where
  "token cfg lib hash now audiences ip form w =
     (case form_problem form of
        Some e \<Rightarrow> (e, w)
      | None \<Rightarrow>
          (case login_check cfg now (token_key ip) ip (ip \<noteq> []) (wl_attempts w) of
             Some th \<Rightarrow> (Throttled (th_retry_after th), w)
           | None \<Rightarrow>
               (let failed = (\<lambda>w. w\<lparr> wl_attempts := record_failure cfg now (token_key ip) ip (wl_attempts w) \<rparr>)
                in if tf_assertion_type form \<noteq> [] \<or> tf_assertion form \<noteq> []
                   then (case authenticate_svid lib now audiences (tf_assertion form) (tf_client_id form) w of
                           (Inl e, w1) \<Rightarrow> (TokenError 401 ''invalid_client'', failed w1)
                         | (Inr c, w1) \<Rightarrow>
                             (case issue_for now c (tf_scope form) w1 of
                                (Issued cl ttl sc, w2) \<Rightarrow> (Issued cl ttl sc, w2)
                              | (refused, w2) \<Rightarrow> (refused, w2\<lparr> wl_ephemeral := wl_ephemeral w \<rparr>)))
                   else (case authenticate_client hash now (tf_client_id form) (tf_secret form) w of
                           None \<Rightarrow> (TokenError 401 ''invalid_client'', failed w)
                         | Some c \<Rightarrow> issue_for now c (tf_scope form) w))))"

section \<open>External identities\<close>

definition cfg_text :: "config \<Rightarrow> string \<Rightarrow> string" where
  "cfg_text cfg key = py_strip (or_empty (config_get cfg key []))"

definition external_issuer :: "config \<Rightarrow> string" where
  "external_issuer cfg =
     (if cfg_text cfg ''workload_idp_issuer'' \<noteq> [] then cfg_text cfg ''workload_idp_issuer'' else cfg_text cfg ''oidc_issuer'')"

definition accepted_issuers :: "config \<Rightarrow> string list" where
  "accepted_issuers cfg =
     rev (remdups (rev (filter (\<lambda>i. i \<noteq> []) (external_issuer cfg # py_split (cfg_text cfg ''workload_idp_extra_issuers'')))))"

definition external_audiences :: "config \<Rightarrow> string list" where
  "external_audiences cfg = py_split (cfg_text cfg ''workload_idp_audience'')"

definition external_configured :: "config \<Rightarrow> bool" where
  "external_configured cfg \<longleftrightarrow> external_issuer cfg \<noteq> [] \<and> external_audiences cfg \<noteq> []"

record external_claims =
  xc_iss :: string
  xc_sub :: string
  xc_aud :: "string list"
  xc_client :: string

text \<open>
  What the JOSE library says of a bearer token: its algorithm, the claims of one of the dashboard's own,
  and the claims of one an accepted issuer signed (signature, issuer and lifetime checked).
\<close>

record bearer_lib =
  bl_alg :: "string \<Rightarrow> string option"
  bl_decode :: "instant \<Rightarrow> string \<Rightarrow> token_claims option"
  bl_external :: "instant \<Rightarrow> string list \<Rightarrow> string \<Rightarrow> external_claims option"
  bl_pat_digest :: "string \<Rightarrow> string"

definition is_candidate :: "bearer_lib \<Rightarrow> string \<Rightarrow> bool" where
  "is_candidate lib tok = (case bl_alg lib tok of None \<Rightarrow> False | Some alg \<Rightarrow> alg \<in> set ASYMMETRIC_ALGS)"

definition verify_external :: "bearer_lib \<Rightarrow> config \<Rightarrow> instant \<Rightarrow> string \<Rightarrow> external_claims option" where
  "verify_external lib cfg now tok =
     (if \<not> is_candidate lib tok then None
      else (case bl_external lib now (accepted_issuers cfg) tok of
              None \<Rightarrow> None
            | Some c \<Rightarrow> if set (xc_aud c) \<inter> set (external_audiences cfg) = {} then None else Some c))"

definition TOUCH_INTERVAL :: instant where "TOUCH_INTERVAL = minutes 1"

definition resolve_external :: "bearer_lib \<Rightarrow> config \<Rightarrow> instant \<Rightarrow> string \<Rightarrow> workload_db \<Rightarrow> principal option \<times> workload_db" where
  "resolve_external lib cfg now tok w =
     (if \<not> external_configured cfg then (None, w)
      else (case verify_external lib cfg now tok of
              None \<Rightarrow> (None, w)
            | Some c \<Rightarrow>
                (case List.find (\<lambda>x. xi_issuer x = xc_iss c \<and> xi_subject x = xc_sub c \<and> xi_is_active x) (wl_identities w) of
                   None \<Rightarrow> (None, w)
                 | Some x \<Rightarrow>
                     if or_empty (xi_expected_client x) \<noteq> [] \<and> Some (xc_client c) \<noteq> xi_expected_client x then (None, w)
                     else (case get_user (wl_rbac w) (xi_user_id x) of
                             None \<Rightarrow> (None, w)
                           | Some u \<Rightarrow>
                               if service_account_problem (Some u) \<noteq> None then (None, w)
                               else (Some (u\<lparr> u_token_scope := None \<rparr>),
                                     if (case xi_last_used_at x of None \<Rightarrow> True | Some t \<Rightarrow> now - t > TOUCH_INTERVAL)
                                     then w\<lparr> wl_identities := tbl_update (\<lambda>y. xi_id y = xi_id x) (\<lambda>y. y\<lparr> xi_last_used_at := Some now \<rparr>) (wl_identities w) \<rparr>
                                     else w)))))"

definition create_external_identity ::
  "config \<Rightarrow> principal \<Rightarrow> string \<Rightarrow> string \<Rightarrow> string \<Rightarrow> string \<Rightarrow> string option \<Rightarrow> string option \<Rightarrow> workload_db \<Rightarrow>
   (http_error + external_identity) \<times> workload_db" where
  "create_external_identity cfg admin row_id uid subject name issuer expected_client w =
     (case service_account_or_404 (wl_rbac w) uid of
        Inl e \<Rightarrow> (Inl e, w)
      | Inr u \<Rightarrow>
          (let sub = py_strip subject; nm = py_strip name;
               iss = (if py_strip (or_empty issuer) \<noteq> [] then py_strip (or_empty issuer) else external_issuer cfg)
           in if sub = [] \<or> nm = [] then (Inl (Http 400 ''A subject and a name are required.''), w)
              else if iss = [] then (Inl (Http 400 ''No issuer given and none configured.''), w)
              else if iss \<notin> set (accepted_issuers cfg)
              then (Inl (Http 400 (quoted iss @ '' is not an issuer this dashboard accepts workload tokens from.'')), w)
              else if list_ex (\<lambda>x. xi_issuer x = iss \<and> xi_subject x = sub) (wl_identities w)
              then (Inl (Http 409 ''That issuer and subject are already mapped.''), w)
              else (let row = \<lparr> xi_id = row_id, xi_user_id = u_id u, xi_issuer = iss, xi_subject = take 255 sub,
                         xi_expected_client = or_none (Some (take 255 (py_strip (or_empty expected_client)))),
                         xi_name = take 100 nm, xi_last_used_at = None, xi_is_active = True \<rparr>
                    in (Inr row, audited admin ''service_account.external_identity_create'' sub
                                   (w\<lparr> wl_identities := wl_identities w @ [row] \<rparr>)))))"

definition revoke_external_identity ::
  "principal \<Rightarrow> string \<Rightarrow> string \<Rightarrow> workload_db \<Rightarrow> (http_error + string) \<times> workload_db" where
  "revoke_external_identity admin uid xid w =
     (case List.find (\<lambda>x. xi_id x = xid \<and> xi_user_id x = uid) (wl_identities w) of
        None \<Rightarrow> (Inl (Http 404 ''External identity not found''), w)
      | Some row \<Rightarrow>
          (Inr ''External identity revoked'',
           audited admin ''service_account.external_identity_revoke'' (xi_subject row)
             (w\<lparr> wl_identities := filter (\<lambda>x. xi_id x \<noteq> xid) (wl_identities w) \<rparr>)))"

section \<open>Personal access tokens\<close>

definition DEFAULT_PAT_DAYS :: int where "DEFAULT_PAT_DAYS = 90"

text \<open>\<open>cap\<close> is \<open>pat_max_days()\<close>, 0 for none.\<close>

definition pat_expiry :: "int \<Rightarrow> instant \<Rightarrow> int option \<Rightarrow> http_error + instant option" where
  "pat_expiry cap now expires_days =
     (let days = (case expires_days of
                    None \<Rightarrow> min DEFAULT_PAT_DAYS (if cap \<noteq> 0 then cap else DEFAULT_PAT_DAYS)
                  | Some d \<Rightarrow> d)
      in if days < 0 then Inl (Http 422 ''expires_days cannot be negative.'')
         else if cap \<noteq> 0 \<and> (days = 0 \<or> days > cap)
         then Inl (Http 422 (''A Personal Access Token can live at most '' @ py_str_int cap @ '' days on this install (pat_max_days). ''
                @ ''Pass expires_days between 1 and '' @ py_str_int cap @ ''.''))
         else Inr (if days = 0 then None else Some (now + day_span days)))"

definition create_user_token ::
  "(string \<Rightarrow> string) \<Rightarrow> int \<Rightarrow> instant \<Rightarrow> string \<Rightarrow> string \<Rightarrow> string \<Rightarrow> string \<Rightarrow> int option \<Rightarrow> workload_db \<Rightarrow>
   (http_error + string) \<times> workload_db" where
  "create_user_token digest cap now row_id raw uid name expires_days w =
     (case get_user (wl_rbac w) uid of
        None \<Rightarrow> (Inl (Http 404 ''User not found''), w)
      | Some u \<Rightarrow>
          if an_accessor u then (Inl ACCESSOR_REFUSAL, w)
          else if u_is_service_account u then (Inl (Http 400 ''A service account cannot hold a Personal Access Token.''), w)
          else (case pat_expiry cap now expires_days of
                  Inl e \<Rightarrow> (Inl e, w)
                | Inr expiry \<Rightarrow>
                    (Inr raw, w\<lparr> wl_tokens := wl_tokens w @
                       [\<lparr> pt_id = row_id, pt_user_id = uid, pt_name = name, pt_token_hash = digest raw,
                          pt_expires_at = expiry, pt_last_used_at = None, pt_is_active = True \<rparr>] \<rparr>)))"

definition get_user_from_pat :: "bearer_lib \<Rightarrow> instant \<Rightarrow> string \<Rightarrow> workload_db \<Rightarrow> (http_error + principal) \<times> workload_db" where
  "get_user_from_pat lib now raw w =
     (case List.find (\<lambda>p. pt_token_hash p = bl_pat_digest lib raw \<and> pt_is_active p) (wl_tokens w) of
        None \<Rightarrow> (Inl (Http 401 ''Invalid or revoked token''), w)
      | Some p \<Rightarrow>
          if (case pt_expires_at p of None \<Rightarrow> False | Some t \<Rightarrow> t < now) then (Inl (Http 401 ''Token expired''), w)
          else (let w1 = w\<lparr> wl_tokens := tbl_update (\<lambda>x. pt_id x = pt_id p) (\<lambda>x. x\<lparr> pt_last_used_at := Some now \<rparr>) (wl_tokens w) \<rparr>
                in (case get_user (wl_rbac w) (pt_user_id p) of
                      None \<Rightarrow> (Inl (Http 401 ''User not found or inactive''), w1)
                    | Some u \<Rightarrow>
                        if \<not> u_is_active u then (Inl (Http 401 ''User not found or inactive''), w1)
                        else if u_is_service_account u
                        then (Inl (Http 401 ''Service accounts authenticate with an OAuth client, not a PAT''), w1)
                        else (Inr (u\<lparr> u_token_scope := None \<rparr>), w1))))"

section \<open>The one bearer resolver\<close>

definition PAT_PREFIX :: string where "PAT_PREFIX = ''vmcli_''"

definition UNAUTHORIZED :: http_error where "UNAUTHORIZED = Http 401 ''Could not validate credentials''"

definition resolve_login :: "token_claims \<Rightarrow> workload_db \<Rightarrow> http_error + principal" where
  "resolve_login payload w =
     (if tc_type payload = ''pre_auth'' \<or> tc_sub payload = [] then Inl UNAUTHORIZED
      else (case List.find (\<lambda>u. u_username u = tc_sub payload) (d_users (wl_rbac w)) of
              None \<Rightarrow> Inl (Http 401 ''User not found or inactive'')
            | Some u \<Rightarrow>
                if \<not> u_is_active u then Inl (Http 401 ''User not found or inactive'')
                else if u_is_service_account u then Inl UNAUTHORIZED
                else Inr (u\<lparr> u_token_scope := None \<rparr>)))"

definition resolve_bearer :: "bearer_lib \<Rightarrow> config \<Rightarrow> instant \<Rightarrow> string \<Rightarrow> workload_db \<Rightarrow> (http_error + principal) \<times> workload_db" where
  "resolve_bearer lib cfg now tok w =
     (if starts_with PAT_PREFIX tok then get_user_from_pat lib now tok w
      else if is_candidate lib tok
      then (case resolve_external lib cfg now tok w of
              (None, w1) \<Rightarrow> (Inl (Http 401 ''External workload token not accepted''), w1)
            | (Some u, w1) \<Rightarrow> (Inr u, w1))
      else (case bl_decode lib now tok of
              None \<Rightarrow> (Inl UNAUTHORIZED, w)
            | Some payload \<Rightarrow>
                if tc_type payload = TOKEN_TYPE
                then (case resolve_workload_token payload w of
                        None \<Rightarrow> (Inl (Http 401 ''Workload token's client is revoked or unknown''), w)
                      | Some u \<Rightarrow> (Inr u, w))
                else (resolve_login payload w, w)))"

definition ACCESSOR_ALLOWED_PREFIXES :: "string list" where
  "ACCESSOR_ALLOWED_PREFIXES = [''/api/pov/accessor/self'', ''/api/auth/me'']"

definition accessor_may_reach :: "string \<Rightarrow> bool" where
  "accessor_may_reach path = list_ex (\<lambda>p. starts_with p path) ACCESSOR_ALLOWED_PREFIXES"

definition get_current_user ::
  "bearer_lib \<Rightarrow> config \<Rightarrow> instant \<Rightarrow> string \<Rightarrow> string \<Rightarrow> workload_db \<Rightarrow> (http_error + principal) \<times> workload_db" where
  "get_current_user lib cfg now path tok w =
     (case resolve_bearer lib cfg now tok w of
        (Inl e, w1) \<Rightarrow> (Inl e, w1)
      | (Inr u, w1) \<Rightarrow>
          if an_accessor u \<and> \<not> accessor_may_reach path
          then (Inl (Http 403 ''This login can only reach its own POV environment.''), w1)
          else (Inr u, w1))"

definition require_person :: "principal \<Rightarrow> http_error + principal" where
  "require_person u = (if u_is_service_account u then Inl (Http 403 ''A service account cannot mint its own credentials.'') else Inr u)"

definition create_token ::
  "(string \<Rightarrow> string) \<Rightarrow> int \<Rightarrow> instant \<Rightarrow> string \<Rightarrow> string \<Rightarrow> principal \<Rightarrow> string \<Rightarrow> int option \<Rightarrow> workload_db \<Rightarrow>
   (http_error + string) \<times> workload_db" where
  "create_token digest cap now row_id raw user name expires_days w =
     (case require_person user of
        Inl e \<Rightarrow> (Inl e, w)
      | Inr person \<Rightarrow>
          (case pat_expiry cap now expires_days of
             Inl e \<Rightarrow> (Inl e, w)
           | Inr expiry \<Rightarrow>
               (Inr raw, w\<lparr> wl_tokens := wl_tokens w @
                  [\<lparr> pt_id = row_id, pt_user_id = u_id person, pt_name = name, pt_token_hash = digest raw,
                     pt_expires_at = expiry, pt_last_used_at = None, pt_is_active = True \<rparr>] \<rparr>)))"

definition revoke_token :: "string \<Rightarrow> string \<Rightarrow> workload_db \<Rightarrow> (http_error + string) \<times> workload_db" where
  "revoke_token uid tid w =
     (if list_ex (\<lambda>p. pt_id p = tid \<and> pt_user_id p = uid) (wl_tokens w)
      then (Inr ''Token revoked'',
            w\<lparr> wl_tokens := tbl_update (\<lambda>p. pt_id p = tid \<and> pt_user_id p = uid) (\<lambda>p. p\<lparr> pt_is_active := False \<rparr>) (wl_tokens w) \<rparr>)
      else (Inl (Http 404 ''Token not found''), w))"

definition require_admin :: "principal \<Rightarrow> http_error + principal" where
  "require_admin u =
     (if an_accessor u then Inl (Http 403 ''Admin access required'')
      else if \<not> is_effective_admin u then Inl (Http 403 ''Admin access required'')
      else Inr u)"

definition require_permission :: "string \<Rightarrow> string \<Rightarrow> principal \<Rightarrow> http_error + principal" where
  "require_permission scope level u =
     (if has_permission u scope level = Some True then Inr u
      else Inl (Http 403 (''Requires '' @ quoted (scope @ '':'' @ level) @ '' permission.'')))"

definition admin_username_from_request :: "bearer_lib \<Rightarrow> config \<Rightarrow> instant \<Rightarrow> string \<Rightarrow> workload_db \<Rightarrow> (http_error + string) \<times> workload_db" where
  "admin_username_from_request lib cfg now header w =
     (if \<not> starts_with ''Bearer '' header then (Inl (Http 401 ''Authentication required''), w)
      else (case resolve_bearer lib cfg now (py_strip (drop 7 header)) w of
              (Inl e, w1) \<Rightarrow> (Inl e, w1)
            | (Inr u, w1) \<Rightarrow>
                if an_accessor u \<or> \<not> is_effective_admin u then (Inl (Http 403 ''Admin access required''), w1)
                else (Inr (u_username u), w1)))"

section \<open>Scopes survive the round trip\<close>

lemma split_ws_word: "\<not> list_ex is_space w \<Longrightarrow> split_ws w = [w]"
  by (induction w) auto

lemma split_ws_not_Nil [simp]: "split_ws s \<noteq> []"
  by (cases s) (auto split: list.splits)

lemma split_ws_sep: "\<not> list_ex is_space w \<Longrightarrow> is_space c \<Longrightarrow> split_ws (w @ c # s) = w # split_ws s"
  by (induction w) auto

lemma py_split_join:
  "list_all (\<lambda>w. w \<noteq> [] \<and> \<not> list_ex is_space w) ws \<Longrightarrow> py_split (join_with CHR '' '' ws) = ws"
proof (induction ws)
  case Nil
  then show ?case by (simp add: py_split_def)
next
  case (Cons w ws)
  have "is_space CHR '' ''" by (simp add: is_space_def)
  with Cons show ?case
    by (cases ws) (simp_all add: py_split_def split_ws_word split_ws_sep)
qed

lemma split_ws_words: "w \<in> set (split_ws s) \<Longrightarrow> \<not> list_ex is_space w"
  by (induction s arbitrary: w) (auto split: list.splits if_splits)

lemma py_split_words: "w \<in> set (py_split s) \<Longrightarrow> w \<noteq> [] \<and> \<not> list_ex is_space w"
  using split_ws_words by (auto simp: py_split_def)

definition part_of :: "string \<times> string \<Rightarrow> string" where
  "part_of kl = fst kl @ '':'' @ snd kl"

definition pair_of :: "string \<Rightarrow> string \<times> string" where
  "pair_of part = (before_colon part, after_colon part)"

definition pair_ok :: "string \<times> string \<Rightarrow> bool" where
  "pair_ok kl \<longleftrightarrow> fst kl \<noteq> [] \<and> snd kl \<noteq> [] \<and> CHR '':'' \<notin> set (fst kl)
     \<and> \<not> list_ex is_space (fst kl) \<and> \<not> list_ex is_space (snd kl)"

definition add_level :: "scope_levels \<Rightarrow> string \<times> string \<Rightarrow> scope_levels" where
  "add_level out kl =
     (let levels = levels_at out (fst kl)
      in AList.update (fst kl) (if snd kl \<in> set levels then levels else levels @ [snd kl]) out)"

lemma pair_of_part: "CHR '':'' \<notin> set s \<Longrightarrow> pair_of (part_of (s, l)) = (s, l)"
  by (induction s) (auto simp: pair_of_def part_of_def before_colon_def after_colon_def)

lemma pair_of_ok:
  assumes "CHR '':'' \<in> set part" "before_colon part \<noteq> []" "after_colon part \<noteq> []" "\<not> list_ex is_space part"
  shows "pair_ok (pair_of part)"
proof -
  have "CHR '':'' \<notin> set (before_colon part)"
    using set_takeWhileD by (fastforce simp: before_colon_def)
  moreover have "set (before_colon part) \<subseteq> set part"
    using set_takeWhileD by (fastforce simp: before_colon_def)
  moreover have "set (after_colon part) \<subseteq> set part"
    unfolding after_colon_def using set_drop_subset set_dropWhileD by fastforce
  ultimately show ?thesis using assms by (auto simp: pair_ok_def pair_of_def list_ex_iff)
qed

lemma parse_parts_fold:
  "parse_parts parts out = Inr out' \<longleftrightarrow>
     list_all (\<lambda>part. CHR '':'' \<in> set part \<and> before_colon part \<noteq> [] \<and> after_colon part \<noteq> []) parts
     \<and> out' = foldl add_level out (map pair_of parts)"
  by (induction parts arbitrary: out) (auto simp: Let_def add_level_def pair_of_def)

text \<open>What the pairs of a scope add up to.\<close>

lemma levels_at_update: "levels_at (AList.update k v out) s = (if s = k then v else levels_at out s)"
  by (simp add: levels_at_def update_conv)

definition scope_ok :: "scope_levels \<Rightarrow> bool" where
  "scope_ok out \<longleftrightarrow> distinct (map fst out) \<and> list_all (\<lambda>(k, v). v \<noteq> [] \<and> distinct v) out"

lemma set_update_cases: "x \<in> set (AList.update k v out) \<Longrightarrow> x = (k, v) \<or> x \<in> set out"
  by (induction out) (auto split: if_splits)

lemma scope_ok_levels: "scope_ok out \<Longrightarrow> distinct (levels_at out s)"
  by (auto simp: scope_ok_def levels_at_def list_all_iff split: option.splits dest!: map_of_SomeD)

lemma add_level_keeps:
  assumes "scope_ok out"
  shows "scope_ok (add_level out kl)"
  using assms scope_ok_levels [OF assms]
  by (fastforce simp: scope_ok_def add_level_def Let_def distinct_update list_all_iff dest!: set_update_cases)

lemma folded_scope:
  assumes "scope_ok out"
  shows "scope_ok (foldl add_level out kls)
    \<and> set (levels_at (foldl add_level out kls) s) = set (levels_at out s) \<union> {l. (s, l) \<in> set kls}
    \<and> fst ` set (foldl add_level out kls) = fst ` set out \<union> fst ` set kls"
  using assms
proof (induction kls arbitrary: out)
  case (Cons kl kls)
  obtain k l where kl: "kl = (k, l)" by force
  have "set (levels_at (add_level out kl) s) = set (levels_at out s) \<union> (if s = k then {l} else {})"
    by (auto simp: add_level_def kl levels_at_update Let_def)
  moreover have "fst ` set (add_level out kl) = insert k (fst ` set out)"
    by (simp add: add_level_def kl Let_def dom_update)
  ultimately show ?case
    using Cons.IH [OF add_level_keeps [OF Cons.prems]] by (auto simp: kl)
qed simp

definition entries_of :: "scope_levels \<Rightarrow> (string \<times> string) list" where
  "entries_of sc = concat (map (\<lambda>s. map (Pair s) (sort (levels_at sc s))) (sort (map fst sc)))"

lemma format_scope_entries: "format_scope sc = join_with CHR '' '' (map part_of (entries_of sc))"
  by (simp add: format_scope_def entries_of_def part_of_def map_concat comp_def)

text \<open>A scope as the parser leaves it: keys apart, sorted levels, no empty list, every pair readable.\<close>

definition parsed_scope :: "scope_levels \<Rightarrow> bool" where
  "parsed_scope sc \<longleftrightarrow> scope_ok sc \<and> list_all pair_ok (entries_of sc) \<and> (\<forall>s. sorted (levels_at sc s))"

lemma levels_at_sorted: "levels_at (map (\<lambda>(k, v). (k, sort v)) out) s = sort (levels_at out s)"
  by (induction out) (auto simp: levels_at_def)

lemma levels_at_Nil [simp]: "levels_at [] s = []"
  by (simp add: levels_at_def)

lemma level_has_key: "l \<in> set (levels_at sc s) \<Longrightarrow> s \<in> fst ` set sc"
  by (cases "map_of sc s") (simp add: levels_at_def, metis map_of_SomeD fst_conv image_eqI)

lemma entries_set: "(s, l) \<in> set (entries_of sc) \<longleftrightarrow> l \<in> set (levels_at sc s)"
proof
  assume l: "l \<in> set (levels_at sc s)"
  then have "s \<in> fst ` set sc" by (rule level_has_key)
  then obtain kv where "kv \<in> set sc" "fst kv = s" by auto
  with l show "(s, l) \<in> set (entries_of sc)" by (auto simp: entries_of_def intro!: bexI [of _ kv])
qed (auto simp: entries_of_def)

lemma sort_Nil_iff [simp]: "sort xs = [] \<longleftrightarrow> xs = []"
  by (metis set_empty set_sort)

lemma parse_scope_parsed:
  assumes "parse_scope raw = Inr (Some sc)"
  shows "parsed_scope sc \<and> sc \<noteq> []"
proof -
  define parts where "parts = py_split (or_empty raw)"
  define out where "out = foldl add_level [] (map pair_of parts)"
  have parts: "parts \<noteq> []" "list_all (\<lambda>part. CHR '':'' \<in> set part \<and> before_colon part \<noteq> [] \<and> after_colon part \<noteq> []) parts"
    and sc: "sc = map (\<lambda>(k, v). (k, sort v)) out"
    using assms by (auto simp: parse_scope_def parse_parts_fold parts_def out_def Let_def split: if_splits sum.splits)
  have pairs: "list_all pair_ok (map pair_of parts)"
    using parts(2) py_split_words by (auto simp: list_all_iff parts_def intro!: pair_of_ok)
  have ok: "scope_ok out" and mem: "\<And>s. set (levels_at out s) = {l. (s, l) \<in> set (map pair_of parts)}"
    and keys: "fst ` set out = fst ` set (map pair_of parts)"
    using folded_scope [of "[]" "map pair_of parts"] unfolding out_def [symmetric] by (simp_all add: scope_ok_def)
  have "scope_ok sc"
    using ok by (auto simp: sc scope_ok_def list_all_iff comp_def split_def)
  moreover have "list_all pair_ok (entries_of sc)"
  proof (unfold list_all_iff, clarify)
    fix s l assume "(s, l) \<in> set (entries_of sc)"
    then have "l \<in> set (levels_at out s)" by (simp add: entries_set sc levels_at_sorted)
    with mem have "(s, l) \<in> set (map pair_of parts)" by blast
    with pairs show "pair_ok (s, l)" by (simp only: list_all_iff)
  qed
  moreover have "sc \<noteq> []" using keys parts(1) sc by (cases parts) auto
  ultimately show ?thesis by (simp add: parsed_scope_def sc levels_at_sorted)
qed

lemma scope_from_entries:
  assumes "parsed_scope sc" "sc \<noteq> []"
  obtains sc' where "parse_scope (Some (format_scope sc)) = Inr (Some sc')" "levels_at sc' = levels_at sc"
    "format_scope sc' = format_scope sc" "parsed_scope sc'"
proof -
  have ok: "scope_ok sc" and pairs: "list_all pair_ok (entries_of sc)" and srt: "\<And>s. sorted (levels_at sc s)"
    using assms(1) by (simp_all add: parsed_scope_def)
  define out where "out = foldl add_level [] (entries_of sc)"
  define sc' where "sc' = map (\<lambda>(k, v). (k, sort v)) out"
  have okout: "scope_ok out" and mem: "\<And>s. set (levels_at out s) = {l. (s, l) \<in> set (entries_of sc)}"
    and keys: "fst ` set out = fst ` set (entries_of sc)"
    using folded_scope [of "[]" "entries_of sc"] unfolding out_def [symmetric] by (simp_all add: scope_ok_def)
  have readable: "list_all (\<lambda>w. w \<noteq> [] \<and> \<not> list_ex is_space w) (map part_of (entries_of sc))"
    using pairs by (auto simp: list_all_iff list_ex_iff part_of_def pair_ok_def is_space_def)
  have unparsed: "map pair_of (map part_of (entries_of sc)) = entries_of sc"
    using pairs by (auto simp: list_all_iff pair_ok_def pair_of_part intro!: map_idI)
  have colons: "list_all (\<lambda>part. CHR '':'' \<in> set part \<and> before_colon part \<noteq> [] \<and> after_colon part \<noteq> []) (map part_of (entries_of sc))"
  proof (unfold list_all_iff, clarify)
    fix part assume "part \<in> set (map part_of (entries_of sc))"
    then obtain k l where kl: "(k, l) \<in> set (entries_of sc)" "part = part_of (k, l)" by force
    with pairs have "pair_ok (k, l)" by (auto simp: list_all_iff)
    then have "pair_of part = (k, l)" "k \<noteq> []" "l \<noteq> []" using kl pair_of_part by (auto simp: pair_ok_def)
    then show "CHR '':'' \<in> set part \<and> before_colon part \<noteq> [] \<and> after_colon part \<noteq> []"
      by (simp add: kl(2) pair_of_def part_of_def)
  qed
  obtain k v where kv: "(k, v) \<in> set sc" using assms(2) by (cases sc) auto
  with ok have "levels_at sc k = v" "v \<noteq> []"
    by (auto simp: scope_ok_def levels_at_def list_all_iff)
  then have some: "entries_of sc \<noteq> []" using entries_set [of k "hd v" sc] by auto
  have "parse_scope (Some (format_scope sc)) = Inr (Some sc')"
    using some colons
    by (simp add: parse_scope_def format_scope_entries py_split_join [OF readable] or_empty_def
        parse_parts_fold [of _ _ out, THEN iffD2] sc'_def unparsed out_def del: map_map)
  moreover have lv: "levels_at sc' s = levels_at sc s" for s
  proof -
    have "set (levels_at out s) = set (levels_at sc s)" by (simp add: mem entries_set)
    moreover have "distinct (levels_at out s)" "distinct (levels_at sc s)"
      using ok okout by (simp_all add: scope_ok_levels)
    ultimately have "sort (levels_at out s) = levels_at sc s"
      using srt by (metis sorted_list_of_set_sort_remdups distinct_remdups_id sorted_sort_id)
    then show ?thesis by (simp add: sc'_def levels_at_sorted)
  qed
  moreover have "sort (map fst sc') = sort (map fst sc)"
  proof -
    have "fst ` set sc \<subseteq> fst ` set (entries_of sc)"
    proof
      fix k assume "k \<in> fst ` set sc"
      then obtain v where "(k, v) \<in> set sc" by auto
      with ok have "levels_at sc k = v" "v \<noteq> []" by (auto simp: scope_ok_def levels_at_def list_all_iff)
      then have "(k, hd v) \<in> set (entries_of sc)" by (simp add: entries_set)
      then show "k \<in> fst ` set (entries_of sc)" by force
    qed
    moreover have "fst ` set (entries_of sc) \<subseteq> fst ` set sc" using level_has_key by (auto simp: entries_set)
    moreover have "map fst sc' = map fst out" by (simp add: sc'_def comp_def split_def)
    ultimately have "set (map fst sc') = set (map fst sc)" using keys by simp
    moreover have "distinct (map fst sc')" "distinct (map fst sc)"
      using ok okout by (simp_all add: scope_ok_def sc'_def comp_def split_def)
    ultimately show ?thesis by (metis sorted_list_of_set_sort_remdups distinct_remdups_id)
  qed
  moreover from this have "format_scope sc' = format_scope sc"
    using lv by (simp add: format_scope_def)
  moreover have "parsed_scope sc'" using parse_scope_parsed calculation(1) by blast
  moreover have "levels_at sc' = levels_at sc" using lv by blast
  ultimately show ?thesis using that by blast
qed

text \<open>
  The scope claim of a token reads back as the scope it was issued for: writing a parsed scope and
  parsing the text gives a scope with the same levels everywhere, which is written the same way again.
\<close>

theorem scope_round_trip:
  assumes "parse_scope raw = Inr (Some sc)"
  shows "\<exists>sc'. parse_scope (Some (format_scope sc)) = Inr (Some sc')
    \<and> (levels_at sc' = levels_at sc \<and> format_scope sc' = format_scope sc)"
  using parse_scope_parsed [OF assms] scope_from_entries by metis

section \<open>What a token can do\<close>





definition kept_levels :: "principal \<Rightarrow> string \<Rightarrow> string list \<Rightarrow> string list" where
  "kept_levels u s levels =
     (case map_of (effective_permissions_dict u) s of
        Some (Levels have) \<Rightarrow> sorted_set (filter (\<lambda>l. l \<in> set have) levels)
      | _ \<Rightarrow> [])"



lemma kept_levels_Nil [simp]: "kept_levels u s [] = []"
  by (simp add: kept_levels_def sorted_set_def split: option.splits grant.splits)










section \<open>Revoked clients\<close>

text \<open>Everything that writes the table of clients, in any order and with any arguments.\<close>

inductive wl_step :: "workload_db \<Rightarrow> workload_db \<Rightarrow> bool" where
  client_created: "create_oauth_client hash now rid cid raw own admin uid name days ttl spiffe w = (r, w') \<Longrightarrow>
    cid \<notin> oc_client_id ` set (wl_clients w) \<Longrightarrow> wl_step w w'"
| client_rotated: "rotate_oauth_client hash now raw admin uid rid days grace w = (r, w') \<Longrightarrow> wl_step w w'"
| client_revoked: "revoke_oauth_client admin uid rid w = (r, w') \<Longrightarrow> wl_step w w'"
| token_asked: "token cfg lib hash now audiences ip form w = (a, w') \<Longrightarrow> wl_step w w'"
| elsewhere: "wl_clients w' = wl_clients w \<Longrightarrow> wl_step w w'"

definition dead_in :: "string \<Rightarrow> oauth_client list \<Rightarrow> bool" where
  "dead_in cid cs \<longleftrightarrow> cid \<in> set (map oc_client_id cs) \<and> (\<forall>c \<in> set cs. oc_client_id c = cid \<longrightarrow> \<not> oc_is_active c)"

lemma dead_tbl_update:
  assumes "dead_in cid cs" "\<And>c. oc_client_id (f c) = oc_client_id c" "\<And>c. oc_is_active (f c) \<Longrightarrow> oc_is_active c"
  shows "dead_in cid (tbl_update p f cs)"
proof -
  have "map oc_client_id (tbl_update p f cs) = map oc_client_id cs" by (rule tbl_update_comp_key) (rule assms)
  with assms show ?thesis by (simp only: dead_in_def) (auto simp: set_tbl_update)
qed

lemma dead_append: "dead_in cid cs \<Longrightarrow> oc_client_id c \<noteq> cid \<Longrightarrow> dead_in cid (cs @ [c])"
  by (auto simp: dead_in_def)

lemma audited_clients [simp]: "wl_clients (audited admin action about w) = wl_clients w"
  by (simp add: audited_def)

lemma authenticate_svid_clients:
  "authenticate_svid lib now audiences svid cid w = (r, w') \<Longrightarrow> wl_clients w' = wl_clients w"
  by (auto simp: authenticate_svid_def Let_def split: prod.splits sum.splits option.splits)

lemma issue_for_clients:
  "wl_clients (snd (issue_for now c scope w)) = wl_clients w
   \<or> wl_clients (snd (issue_for now c scope w)) = wl_clients (touch_client now (oc_id c) w)"
  by (simp add: issue_for_def Let_def split: option.split sum.split prod.split)

lemma issue_for_dead:
  assumes "dead_in cid (wl_clients w)"
  shows "dead_in cid (wl_clients (snd (issue_for now c scope w)))"
proof -
  have "dead_in cid (wl_clients (touch_client now (oc_id c) w))"
    using assms by (auto simp: touch_client_def upd_client_def intro: dead_tbl_update)
  with assms issue_for_clients [of now c scope w] show ?thesis by metis
qed

lemma token_dead:
  assumes "dead_in cid (wl_clients w)"
  shows "dead_in cid (wl_clients (snd (token cfg lib hash now audiences ip form w)))"
proof (cases "tf_assertion_type form \<noteq> [] \<or> tf_assertion form \<noteq> []")
  case True
  obtain r w1 where r: "authenticate_svid lib now audiences (tf_assertion form) (tf_client_id form) w = (r, w1)" by force
  then have dead: "dead_in cid (wl_clients w1)" using assms by (simp add: authenticate_svid_clients)
  then have "dead_in cid (wl_clients (snd (case issue_for now c (tf_scope form) w1 of
      (Issued cl ttl sc, w2) \<Rightarrow> (Issued cl ttl sc, w2)
    | (refused, w2) \<Rightarrow> (refused, w2\<lparr> wl_ephemeral := wl_ephemeral w \<rparr>))))" for c
    using issue_for_dead [OF dead, of now c "tf_scope form"]
    by (cases "issue_for now c (tf_scope form) w1") (simp split: token_answer.split)
  with assms True r dead show ?thesis
    by (simp add: token_def Let_def split: option.split sum.split)
next
  case False
  with assms issue_for_dead [OF assms] show ?thesis
    by (simp add: token_def Let_def split: option.split)
qed

lemma create_client_rows:
  assumes "create_client hash now rid cid raw own user name days ttl who spiffe w = (r, w')"
  shows "wl_clients w' = wl_clients w \<or> (\<exists>c. wl_clients w' = wl_clients w @ [c] \<and> oc_client_id c = cid)"
  using assms by (auto simp: create_client_def Let_def split: option.splits sum.splits if_splits)

lemma rotate_client_dead:
  assumes "rotate_client hash now raw c days grace w = (r, w')" "dead_in cid (wl_clients w)"
  shows "dead_in cid (wl_clients w')"
proof -
  have "wl_clients w' = wl_clients w \<or> (\<exists>d g. wl_clients w' = wl_clients (upd_client (oc_id c) (rotated hash now raw d g) w))"
    using assms(1) by (auto simp: rotate_client_def split: sum.splits if_splits)
  moreover have "dead_in cid (wl_clients (upd_client (oc_id c) (rotated hash now raw d g) w))" for d g
    using assms(2) by (auto simp: upd_client_def rotated_def Let_def split: if_splits intro!: dead_tbl_update)
  ultimately show ?thesis using assms(2) by metis
qed

lemma wl_step_dead: "wl_step w w' \<Longrightarrow> dead_in cid (wl_clients w) \<Longrightarrow> dead_in cid (wl_clients w')"
proof (induction rule: wl_step.induct)
  case (client_created hash now rid c raw own admin uid name days ttl spiffe w r w')
  show ?case
  proof (cases "service_account_or_404 (wl_rbac w) uid")
    case (Inr u)
    obtain q w1 where q: "create_client hash now rid c raw own (Some u) name days ttl (u_username admin) (or_empty spiffe) w = (q, w1)"
      by force
    with client_created Inr have "wl_clients w' = wl_clients w1" by (auto simp: create_oauth_client_def split: sum.splits)
    moreover have "c \<noteq> cid" using client_created by (auto simp: dead_in_def)
    ultimately show ?thesis using create_client_rows [OF q] client_created.prems dead_append by metis
  qed (use client_created in \<open>auto simp: create_oauth_client_def\<close>)
next
  case (client_rotated hash now raw admin uid rid days grace w r w')
  show ?case
  proof (cases "w' = w")
    case False
    with client_rotated.hyps obtain c q w1 where "rotate_client hash now raw c days grace w = (q, w1)" "wl_clients w' = wl_clients w1"
      by (auto simp: rotate_oauth_client_def split: sum.splits prod.splits)
    with rotate_client_dead client_rotated.prems show ?thesis by metis
  qed (use client_rotated in simp)
next
  case (client_revoked admin uid rid w r w')
  then have "w' = w \<or> wl_clients w' = wl_clients (revoke_client rid w)"
    by (auto simp: revoke_oauth_client_def split: sum.splits)
  moreover have "dead_in cid (wl_clients (revoke_client rid w))"
    using client_revoked.prems by (auto simp: revoke_client_def upd_client_def intro!: dead_tbl_update)
  ultimately show ?case using client_revoked.prems by auto
next
  case (token_asked cfg lib hash now audiences ip form w a w')
  then show ?case using token_dead by (metis snd_conv)
qed simp

text \<open>
  Once a client is revoked, and whatever is then created, rotated, revoked or asked for, no access
  token it ever issued resolves, and neither its secrets nor its SPIFFE identity get it another.
\<close>

theorem revoked_client_stays_dead:
  assumes "c \<in> set (wl_clients w)" "distinct (map oc_client_id (wl_clients w))"
    and "revoke_oauth_client admin (oc_user_id c) (oc_id c) w = (r, w0)" "wl_step\<^sup>*\<^sup>* w0 w'"
    and "tc_client_id claims = oc_client_id c"
  shows "resolve_workload_token claims w' = None
    \<and> authenticate_client hash now (oc_client_id c) secret w' = None
    \<and> (\<forall>lib audiences svid cid c' w''. authenticate_svid lib now audiences svid cid w' = (Inr c', w'') \<longrightarrow> oc_client_id c' \<noteq> oc_client_id c)"
proof -
  have "List.find (\<lambda>x. oc_id x = oc_id c \<and> oc_user_id x = oc_user_id c) (wl_clients w) \<noteq> None"
    using assms(1) by (auto simp: find_None_iff)
  then have w0: "wl_clients w0 = tbl_update (\<lambda>x. oc_id x = oc_id c) (\<lambda>x. x\<lparr> oc_is_active := False \<rparr>) (wl_clients w)"
    using assms(3)
    by (auto simp: revoke_oauth_client_def client_or_404_def revoke_client_def upd_client_def split: option.splits)
  have "x = c" if "x \<in> set (wl_clients w)" "oc_client_id x = oc_client_id c" for x
    using assms(1,2) that by (auto simp: distinct_map inj_on_def)
  moreover have "map oc_client_id (wl_clients w0) = map oc_client_id (wl_clients w)"
    unfolding w0 by (rule tbl_update_comp_key) simp
  ultimately have "dead_in (oc_client_id c) (wl_clients w0)"
    using assms(1) by (auto simp: dead_in_def w0 set_tbl_update)
  with assms(4) have dead: "dead_in (oc_client_id c) (wl_clients w')"
    by (induction rule: rtranclp_induct) (auto intro: wl_step_dead)
  have "List.find (\<lambda>x. oc_client_id x = tc_client_id claims \<and> oc_is_active x) (wl_clients w') = None"
    using dead assms(5) by (auto simp: find_None_iff dead_in_def)
  then have "resolve_workload_token claims w' = None" by (simp add: resolve_workload_token_def)
  moreover have "authenticate_client hash now (oc_client_id c) secret w' = None"
  proof (cases "List.find (\<lambda>x. oc_client_id x = oc_client_id c) (wl_clients w')")
    case (Some x)
    from find_Some_set [OF Some] dead have "\<not> oc_is_active x" by (simp add: dead_in_def)
    with Some show ?thesis by (simp add: authenticate_client_def)
  qed (simp add: authenticate_client_def)
  moreover have "oc_client_id c' \<noteq> oc_client_id c"
    if a: "authenticate_svid lib now audiences svid cid w' = (Inr c', w'')" for lib audiences svid cid c' w''
  proof -
    from a obtain sub where "List.find (\<lambda>c. oc_spiffe_id c = Some sub \<and> oc_auth_method c = Some AUTH_METHOD \<and> oc_is_active c
                                  \<and> (cid = [] \<or> oc_client_id c = cid)) (wl_clients w') = Some c'"
      by (auto simp: authenticate_svid_def Let_def split: prod.splits sum.splits option.splits)
    from find_Some_set [OF this] have "c' \<in> set (wl_clients w')" "oc_is_active c'" by simp_all
    with dead show ?thesis by (auto simp: dead_in_def)
  qed
  ultimately show ?thesis by blast
qed

section \<open>Examples\<close>

text \<open>A service account that holds two levels on machines, and its one client.\<close>

definition bot :: principal where
  "bot = (blank_user ''s1'' ''bot'')\<lparr> u_is_service_account := True, u_auth_provider := AUTH_PROVIDER,
     u_permissions := Held [(''vms'', Levels [''read'', ''write''])] \<rparr>"

definition bot_client :: oauth_client where
  "bot_client = \<lparr> oc_id = ''k1'', oc_client_id = ''c1'', oc_user_id = ''s1'', oc_name = ''ci'', oc_secret_hash = ''pw'',
     oc_secret_expires_at = None, oc_previous_secret_hash = None, oc_previous_expires_at = None,
     oc_token_ttl_seconds = 900, oc_created_by = None, oc_last_used_at = None, oc_is_active = True,
     oc_auth_method = None, oc_spiffe_id = None \<rparr>"

definition bot_db :: workload_db where
  "bot_db = \<lparr> wl_desk = \<lparr> k_db = \<lparr> d_roles = [], d_users = [bot], d_mappings = [] \<rparr>, k_audit = [] \<rparr>,
     wl_clients = [bot_client], wl_identities = [], wl_tokens = [],
     wl_trust = \<lparr> tr_domains = [], tr_cache = (\<lambda>_. None), tr_last_forced = (\<lambda>_. None), tr_last_resync = (\<lambda>_. None) \<rparr>,
     wl_ephemeral = [], wl_attempts = [] \<rparr>"


definition bot_claims :: token_claims where
  "bot_claims = \<lparr> tc_type = TOKEN_TYPE, tc_sub = ''bot'', tc_client_id = ''c1'', tc_expires = 7 + seconds 900,
     tc_scope = Some ''vms:read'' \<rparr>"

lemma bot_found: "get_user (wl_rbac bot_db) ''s1'' = Some bot"
  by (simp add: get_user_def bot_db_def bot_def blank_user_def)

lemma bot_problem: "service_account_problem (Some bot) = None"
  by (simp add: service_account_problem_def bot_def blank_user_def)


definition bot_bearer :: principal where
  "bot_bearer = bot\<lparr> u_token_scope := Some [(''vms'', [''read''])] \<rparr>"

lemma bot_resolves: "resolve_workload_token bot_claims bot_db = Some bot_bearer"
proof -
  have scope: "parse_scope (Some ''vms:read'') = Inr (Some [(''vms'', [''read''])])" by code_simp
  have client: "List.find (\<lambda>c. oc_client_id c = ''c1'' \<and> oc_is_active c) (wl_clients bot_db) = Some bot_client"
    "oc_user_id bot_client = ''s1''"
    by (simp_all add: bot_db_def bot_client_def)
  have name: "u_username bot = ''bot''" by (simp add: bot_def blank_user_def)
  show ?thesis
    by (simp add: resolve_workload_token_def bot_claims_def client bot_found bot_problem name scope bot_bearer_def)
qed

theorem scope_round_trip_witness:
  "\<exists>sc'. parse_scope (Some (format_scope [(''vms'', [''list'', ''read'']), (''aws'', [''write''])])) = Inr (Some sc')
    \<and> levels_at sc' ''vms'' = [''list'', ''read'']"
proof -
  have raw: "parse_scope (Some ''vms:read aws:write vms:list vms:read'') = Inr (Some [(''vms'', [''list'', ''read'']), (''aws'', [''write''])])"
    by code_simp
  have "levels_at [(''vms'', [''list'', ''read'']), (''aws'', [''write''])] ''vms'' = [''list'', ''read'']" by code_simp
  with scope_round_trip [OF raw] show ?thesis by (elim exE conjE) (rule exI, rule conjI, assumption, simp only:)
qed


theorem revoked_client_stays_dead_witness:
  "resolve_workload_token bot_claims (snd (revoke_oauth_client bot ''s1'' ''k1'' bot_db)) = None
   \<and> resolve_workload_token bot_claims bot_db = Some bot_bearer"
proof -
  have c: "bot_client \<in> set (wl_clients bot_db)" "distinct (map oc_client_id (wl_clients bot_db))"
    "oc_user_id bot_client = ''s1''" "oc_id bot_client = ''k1''" "tc_client_id bot_claims = oc_client_id bot_client"
    by (simp_all add: bot_db_def bot_client_def bot_claims_def)
  obtain r w0 where run: "revoke_oauth_client bot (oc_user_id bot_client) (oc_id bot_client) bot_db = (r, w0)" by fastforce
  from revoked_client_stays_dead [OF c(1,2) run rtranclp.rtrancl_refl c(5)] bot_resolves run c(3,4) show ?thesis by simp
qed

end
