(* ===== verification/Spec2Isabelle.thy ===== *)
theory Spec2Isabelle
  imports Audit_Chain Lifecycle Expiry_Reaper Spend_Cap Hypervisor_Sync Agent_Attest
    Tunnel_Pool Service_Accounts
begin

text \<open>
  A model of the core of the VM dashboard (\<open>web_dashboard\<close>): the job queue and everything that
  writes it, the remote-agent protocol, the audit log, change windows and schedules, auto-delete,
  the notification outbox, and who may sign in and do what.

  \<^bold>\<open>The program.\<close> A web application stores work as rows of the \<open>jobs\<close> table. A separate process,
  \<open>jobs_worker.py\<close>, claims pending rows and runs the service function of their type; remote
  agents, which dial in from networks the dashboard cannot reach, lease rows that are bound to
  them. Users cancel jobs, sweeps fail abandoned ones and mark missed change windows, a failed
  job of a re-entrant type may be put back in the queue. Change windows say when a booked job may
  run, and schedules book one per occurrence. Security-relevant actions are appended to a
  hash-chained audit log. Timers on resources decide which of them a sweep may delete. Events
  people should hear of go through an outbox that a drain posts to webhooks. People sign in under a
  throttle and hold permission maps, their own and those of roles; workloads hold clients that are
  exchanged for short-lived tokens.

  \<^bold>\<open>The theories,\<close> in the order of their imports:
  \<^item> \<open>Prelude\<close>: instants, Python's integers, strings, truth values and rounding, JSON metadata,
    tables as lists of rows with \<open>UPDATE\<close>, \<open>ORDER BY ... LIMIT 1\<close> and row counts.
  \<^item> \<open>Config\<close>: the configuration reads of \<open>services/config_service.py\<close> that the policies make.
  \<^item> \<open>Retry_Policy\<close> (\<open>services/retry_policy.py\<close>) and \<open>Expiry_Policy\<close>
    (\<open>services/expiry_policy.py\<close>): the two pure policy modules, whole.
  \<^item> \<open>Audit_Chain\<close> (\<open>services/audit_chain.py\<close> and the audit functions of
    \<open>services/job_service.py\<close>): the hashed form of a row, verification, appending with
    interfering writers, backfill and migration.
  \<^item> \<open>Job_Service\<close> (\<open>services/job_service.py\<close>, \<open>database/models/jobs.py\<close>): the row record, one
    definition per operation, the row invariant \<open>row_ok\<close>, and the locale \<open>row_write\<close>, the contract of
    a function on rows, interpreted for every write of the module.
  \<^item> \<open>Job_Logs\<close>: Live Output, with the unique index on (job, seq) and its retry.
  \<^item> \<open>Worker_Policy\<close> (\<open>services/worker_policy.py\<close>), \<open>Jobs_Worker\<close> and \<open>Dispatch\<close>
    (\<open>jobs_worker.py\<close>): caps, tiers, admission, the claim, heartbeats, drain, one supervisor pass,
    and the table from job types to service calls.
  \<^item> \<open>Agent_Signing\<close>, \<open>Agent_Guard\<close>, \<open>Agent_Service\<close> (the modules of the same names under
    \<open>services/\<close>): canonical requests and freshness, throttles, registration, enrolment,
    authentication, the lease, grants, version gates and reporting back.
  \<^item> \<open>Lifecycle\<close>: the step relation \<open>job_step\<close> in which all these parties act on one database, its
    reachable states, and the locale \<open>quiet_write\<close> for the writes that change no ownership.

  \<^item> \<open>Suspend_Schedule\<close> (\<open>services/suspend_schedule.py\<close>), \<open>Change_Window\<close>
    (\<open>services/change_window.py\<close>, \<open>change_window_service.py\<close>) and \<open>Schedules\<close>
    (\<open>services/schedule_service.py\<close>, \<open>schedule_sweeper.py\<close>): wall-clock boundaries in a zone, the next
    occurrence of a window, bookings, and the sweep that materialises, reaps and counts. A zone is a
    pair of conversions; the locale \<open>regular_zone\<close> states what an IANA zone promises and is
    interpreted for fixed offsets.
  \<^item> \<open>Notify_Policy\<close> (\<open>services/notify_policy.py\<close>, \<open>notify_transports.py\<close>) and \<open>Notify_Outbox\<close>
    (\<open>services/notification_service.py\<close>): what is worth sending, what it says, the dedupe key, the
    delivery rows and the drain. The locale \<open>delivery_write\<close> is the contract of a write to a row,
    interpreted for claim, reclaim, finish and retry; the abstract automaton is \<open>life\<close>.
  \<^item> \<open>Expiry_Reaper\<close> (\<open>services/expiry_reaper.py\<close>): the sweep over the policy, the outbox and the job
    store, its two arming clocks, and the Extend control.
  \<^item> \<open>Vm_Suspend\<close> (\<open>services/vm_suspend_policy.py\<close>, \<open>suspend_sweeper.py\<close>, \<open>api/suspend.py\<close>) and \<open>Spend_Cap\<close>
    (\<open>services/spend_policy.py\<close>, \<open>spend_sweeper.py\<close>, \<open>api/spend.py\<close>): which VMs may sleep, the pass that
    powers them, what they may cost, and the pass that accrues and acts at the cap.
  \<^item> \<open>Agent_Meta\<close>, \<open>Discover_Meta\<close>, \<open>Run_Meta\<close>, \<open>Hypervisor_Meta\<close>, \<open>Storage_Meta\<close> (the metadata modules
    \<open>services/agent_job_meta.py\<close>, \<open>agent_ansible_meta.py\<close>, \<open>ansible_run_meta.py\<close>,
    \<open>agent_hypervisor_meta.py\<close>, \<open>agent_storage_meta.py\<close>) and \<open>Agent_Envelope\<close> (the small ones and
    \<open>_envelope_payload\<close> of \<open>api/agent.py\<close>): the closed shape of what a job row holds, what of it
    crosses to an agent, and the cleaning of what comes back. The locale \<open>closed_shape\<close> is the contract
    of a normaliser, applied at both ends; it is interpreted for every module that keeps it.

  \<^item> \<open>Hypervisor_Sync\<close> (\<open>services/hypervisor_sync_service.py\<close> and what \<open>api/agent.py\<close> does with a
    result): inventory passes page by page, the refused empty one, and deletion detection.
  \<^item> \<open>Agent_Release\<close> and \<open>Agent_Lifecycle\<close> (\<open>services/agent_release_service.py\<close>,
    \<open>agent_lifecycle_service.py\<close>): versions and tracks, upgrades and restarts behind their gates, and
    rollouts from the canary ring to the rest.
  \<^item> \<open>Agent_Assurance\<close> (\<open>services/agent_assurance_service.py\<close>) and \<open>Agent_Attest\<close>
    (\<open>services/spiffe_assertion.py\<close> and the attestation of \<open>agent_service.py\<close>): attention items, the key
    an attestation replaced, trust domains and their keys, single use of an assertion.
  \<^item> \<open>Login_Guard\<close> (\<open>services/login_guard.py\<close> and the sign-in endpoints of \<open>api/auth.py\<close>): the throttle,
    with the check and the outcome of a request as steps of their own.
  \<^item> \<open>Tunnel_Pool\<close> (\<open>services/tunnel_pool.py\<close>): alias pools of network tunnels.
  \<^item> \<open>Permissions\<close> (\<open>database/rbac.py\<close>, the permission part of \<open>api/auth.py\<close>, \<open>database/models/identity.py\<close>),
    \<open>Roles\<close> (\<open>services/role_service.py\<close>) and \<open>User_Admin\<close> (\<open>api/users.py\<close>): maps and how they combine, the
    catalogue, roles with the copies of their maps on users, and the edits of accounts.
  \<^item> \<open>Service_Accounts\<close> (\<open>services/service_accounts.py\<close>, \<open>external_workload.py\<close>, \<open>api/oauth.py\<close>,
    \<open>api/tokens.py\<close>, the bearer resolver of \<open>api/auth.py\<close>): clients, scopes, the token endpoint, external
    identities, personal access tokens, and the guards of the endpoints.

  \<^bold>\<open>How state and operations correspond.\<close> A database row is a record, a table the list of its rows in
  insertion order, an operation a function from the old tables to the new ones (and its result).
  A raised error is an \<open>Inl\<close> value or a constructor of an error type, an early return a branch.
  Every function takes the clock reading it uses. Code outside the repository is a parameter: the
  digest, the Ed25519 primitives, the JSON and date parsers, the zone database, the answers of
  webhooks, the JOSE and password libraries, and the service functions a job runs. Where the code
  reads and writes in two transactions, what others commit in between is an explicit argument
  (\<open>env\<close>, \<open>others\<close>, \<open>meanwhile\<close>, \<open>during\<close>), constrained by an invariant or by what the property
  states, so the theorems hold for every interleaving of that kind. An audit entry commits the
  session of its caller; where a rollback before its retry matters it is modelled (\<open>User_Admin\<close>).

  \<^bold>\<open>Loops.\<close> The paged backfill is a terminating function; the claim loop is bounded by its ten
  attempts as in the code; the lease loop has no bound in the code and is a partial function, with
  a theorem that it returns. An inventory pass is a terminating function over its pages, and a
  theorem says that the bound in the code ends it within forty.

  \<^bold>\<open>What the properties show.\<close> Exclusive execution and at most five starts of a job under all
  interleavings; the claim and the lease as locks, their order, and their disjointness; the exact
  effect of failure, reconciliation, creation, listing and backfill; caps and singletons of the
  runner; dispatch total on the handled types; heartbeats and drain; requests that cannot be
  replayed or re-aimed, single-use codes, revocation that takes effect at once, throttles that
  lift when they say; an audit log that stays verifiable and detects changes; timers that
  users can only delay and a reaper that acts only when every guard holds and an hour after
  enforcement was seen; occurrences found by the calendar walk equal to a reference over the whole
  calendar, and booked once each; an outbox that refines a small automaton per message. Envelopes of
  agent jobs that hold their allowlist and nothing private, paths that stay in their share, inventory
  passes that end and delete exactly what is gone; rollouts that wait for their canaries and control
  jobs behind every gate; attestations that are exact, assertions accepted once, a replaced key that
  is noticed; a bound on password guesses under overlapping requests; permissions as the union of what
  is granted, role copies in step and repaired, edits that leave no old grant and no privileged
  service account, and tokens that never exceed their account. The following record behaviour at odds with the documentation or the intent: a cancelled job revived by the retry
  hook, a throttling error that is never retried, a failure announced for a requeued job, a claim
  about requeues in a comment, deletions at the end of the audit log, a closed window that does
  not stop a claim, failures counted once per sweep, windows longer than a day overlooked, a
  missed window announced for a running job, an event dropped by storm control that is not
  offered again, a warning ladder of which only one rung is sent, and arming clocks that survive
  turning the feature off, a start-only schedule that is never acted on, and a spend estimate
  that small rates never move. Further: metadata that a newline slips through, a power verb that ends
  an inventory pass and a page that wedges its job, refused canaries that open the gate, an assertion
  usable again in the second after its row is swept, a rebinding that keeps the old key, an address cap
  that long addresses escape and row limits that hide failures, a mixed address range that raises, a
  message sent again by a slow worker, a refused edit that is stored, an accepted edit that a clash of
  audit entries discards, and an administrator who can deactivate the own account by an edit.

  \<^bold>\<open>Not modelled:\<close> cloud, hypervisor, Kubernetes and REST clients, the HTTP layer and templates,
  Terraform and subprocess drivers, the SPIRE server and its registrations, single sign-on with an
  identity provider, the HTTP client of the notifications and their scanner, encryption of the
  configuration, and the agent's own program. Text is ASCII where its length, its case or its JSON
  form matters, and at most Latin-1 in the canonical form of a signed request; floats are exact
  rationals.

  \<^bold>\<open>What could come next:\<close> feature flags and workgroup overrides, tag policy, provider budgets,
  credential leases, and the sign-in through an identity provider.
\<close>

end
